(* ===== verification/Prelude.thy ===== *)
theory Prelude
  imports Complex_Main "HOL-Library.List_Lexorder" "HOL-Library.Product_Lexorder"
begin

text \<open>
  Shared vocabulary of the development: the exceptions the Python code raises, results
  as sums, Python strings as lists of code points, and insertion-ordered dictionaries
  (\<^verbatim>\<open>dict\<close> and \<^verbatim>\<open>frozendict\<close>) as association lists with distinct keys.
\<close>

named_theorems dict_simps \<open>lookups in dictionaries after the operations of the model\<close>

section \<open>Exceptions and results\<close>

text \<open>
  The exception classes the modelled code raises (\<^verbatim>\<open>_exceptions.py\<close> and builtins). A
  message is kept as the short fixed text that tells the raise sites apart; the values
  interpolated in messages are not modelled.
\<close>

datatype dup_reason = AlreadyRefunded | InProgress | DuplicateAcquire

datatype exn =
    ValueError string
  | TypeError string
  | KeyError
  | RuntimeError string
  | TimeoutError string
  | OverflowError
  | ZeroDivisionError
  | CardinalityLimitExceededError string
  | DuplicateRefundError dup_reason
  | UnknownReservationError
  | BackendLockContentionError
  | SqliteError string

type_synonym 'a result = "exn + 'a"

fun bind_res :: "'a result \<Rightarrow> ('a \<Rightarrow> 'b result) \<Rightarrow> 'b result" where
  "bind_res (Inl e) f = Inl e"
| "bind_res (Inr x) f = f x"

lemma bind_res_Inr_iff:
  "bind_res r f = Inr y \<longleftrightarrow> (\<exists>x. r = Inr x \<and> f x = Inr y)"
  by (cases r) auto

lemma bind_res_Inl_iff:
  "bind_res r f = Inl e \<longleftrightarrow> r = Inl e \<or> (\<exists>x. r = Inr x \<and> f x = Inl e)"
  by (cases r) auto

text \<open>A check that raises, seen from a run that returned.\<close>

lemma if_Inl_Inr: "(if c then Inl e else r) = Inr x \<longleftrightarrow> \<not> c \<and> r = Inr x"
  by simp

text \<open>A Python \<^verbatim>\<open>if c: raise e\<close> statement.\<close>

definition guard :: "bool \<Rightarrow> exn \<Rightarrow> unit result" where
  "guard ok e = (if ok then Inr () else Inl e)"

lemma guard_Inr [simp]: "guard ok e = Inr u \<longleftrightarrow> ok"
  by (simp add: guard_def)

lemma guard_Inl [simp]: "guard ok e = Inl e' \<longleftrightarrow> \<not> ok \<and> e' = e"
  by (auto simp: guard_def)

text \<open>A loop over a list whose body may raise.\<close>

fun for_each :: "'a list \<Rightarrow> ('a \<Rightarrow> 's \<Rightarrow> 's result) \<Rightarrow> 's \<Rightarrow> 's result" where
  "for_each [] body s = Inr s"
| "for_each (x # xs) body s = bind_res (body x s) (for_each xs body)"

lemma for_each_invariant:
  assumes "for_each xs body s = Inr s'" and "I s"
    and "\<And>x t t'. x \<in> set xs \<Longrightarrow> I t \<Longrightarrow> body x t = Inr t' \<Longrightarrow> I t'"
  shows "I s'"
  using assms
proof (induction xs arbitrary: s)
  case Nil
  then show ?case by simp
next
  case (Cons x xs)
  then obtain t where t: "body x s = Inr t" "for_each xs body t = Inr s'"
    by (auto simp: bind_res_Inr_iff)
  from Cons.prems(2,3) t(1) have "I t" by (metis list.set_intros(1))
  then show ?case using Cons.IH [OF t(2)] Cons.prems(3) by (metis list.set_intros(2))
qed

lemma for_each_map:
  "(\<And>x acc. x \<in> set xs \<Longrightarrow> body x acc = Inr (acc @ [g x])) \<Longrightarrow>
     for_each xs body acc = Inr (acc @ map g xs)"
  by (induction xs arbitrary: acc) auto

lemmas res_simps = bind_res_Inr_iff if_Inl_Inr

text \<open>
  A method that mutates its object: it returns or raises, and the mutations made before an
  exception stay. The exceptions are \<open>exn\<close> in the backends (\<open>op\<close>); the limiter has more.
\<close>

type_synonym ('s, 'e, 'a) eff = "'s \<Rightarrow> ('e + 'a) \<times> 's"

type_synonym ('s, 'a) op = "('s, exn, 'a) eff"

definition op_bind :: "('s, 'e, 'a) eff \<Rightarrow> ('a \<Rightarrow> ('s, 'e, 'b) eff) \<Rightarrow> ('s, 'e, 'b) eff" where
  "op_bind m f s = (case m s of (Inl e, t) \<Rightarrow> (Inl e, t) | (Inr x, t) \<Rightarrow> f x t)"

definition op_return :: "'a \<Rightarrow> ('s, 'e, 'a) eff" where
  "op_return x s = (Inr x, s)"

definition op_raise :: "'e \<Rightarrow> ('s, 'e, 'a) eff" where
  "op_raise e s = (Inl e, s)"

definition op_lift :: "'e + 'a \<Rightarrow> ('s, 'e, 'a) eff" where
  "op_lift r s = (r, s)"

definition op_modify :: "('s \<Rightarrow> 's) \<Rightarrow> ('s, 'e, unit) eff" where
  "op_modify f s = (Inr (), f s)"

definition op_gets :: "('s \<Rightarrow> 'a) \<Rightarrow> ('s, 'e, 'a) eff" where
  "op_gets f s = (Inr (f s), s)"

fun op_for_each :: "'a list \<Rightarrow> ('a \<Rightarrow> ('s, 'e, unit) eff) \<Rightarrow> ('s, 'e, unit) eff" where
  "op_for_each [] body s = (Inr (), s)"
| "op_for_each (x # xs) body s = op_bind (body x) (\<lambda>_. op_for_each xs body) s"

lemma op_bind_Inr:
  "op_bind m f s = (Inr y, t) \<longleftrightarrow> (\<exists>x u. m s = (Inr x, u) \<and> f x u = (Inr y, t))"
  by (auto simp: op_bind_def split: prod.splits sum.splits)

lemma op_bind_cong_Inr: "m s = (Inr x, u) \<Longrightarrow> op_bind m f s = f x u"
  by (simp add: op_bind_def)

lemma op_bind_cong_Inl: "m s = (Inl e, u) \<Longrightarrow> op_bind m f s = (Inl e, u)"
  by (simp add: op_bind_def)

text \<open>The final state of a run that returned (a constructor that raises leaves no object).\<close>

lemma case_op_Inr:
  "(case p of (Inl e, t) \<Rightarrow> Inl e | (Inr u, t) \<Rightarrow> Inr t) = Inr b \<longleftrightarrow> (\<exists>u. p = (Inr u, b))"
  by (auto split: prod.splits sum.splits)

lemmas op_simps = op_return_def op_raise_def op_lift_def op_modify_def op_gets_def

section \<open>Strings\<close>

text \<open>
  A Python \<^verbatim>\<open>str\<close> is a sequence of code points, so \<open>length\<close> is Python's \<^verbatim>\<open>len\<close> and
  the lexicographic order of lists is Python's string order. \<open>ps\<close> reads an ASCII literal.
\<close>

type_synonym pystr = "nat list"

definition ps :: "string \<Rightarrow> pystr" where
  "ps s = map of_char s"

section \<open>Dictionaries\<close>

text \<open>
  An insertion-ordered dictionary: assignment to a present key keeps its position, to an
  absent key appends. \<open>map_of\<close> is the lookup \<^verbatim>\<open>d.get(k)\<close>.
\<close>

type_synonym ('k, 'v) dict = "('k \<times> 'v) list"

fun dict_set :: "'k \<Rightarrow> 'v \<Rightarrow> ('k, 'v) dict \<Rightarrow> ('k, 'v) dict" where
  "dict_set k v [] = [(k, v)]"
| "dict_set k v ((k', v') # d) =
     (if k' = k then (k, v) # d else (k', v') # dict_set k v d)"

definition dict_pop :: "'k \<Rightarrow> ('k, 'v) dict \<Rightarrow> ('k, 'v) dict" where
  "dict_pop k d = filter (\<lambda>p. fst p \<noteq> k) d"

definition dict_keys :: "('k, 'v) dict \<Rightarrow> 'k list" where
  "dict_keys d = map fst d"

definition dict_get :: "('k, 'v) dict \<Rightarrow> 'k \<Rightarrow> 'v \<Rightarrow> 'v" where
  "dict_get d k dflt = (case map_of d k of None \<Rightarrow> dflt | Some v \<Rightarrow> v)"

text \<open>\<^verbatim>\<open>d == e\<close> on dictionaries ignores the order of insertion.\<close>

definition dict_eq :: "('k, 'v) dict \<Rightarrow> ('k, 'v) dict \<Rightarrow> bool" where
  "dict_eq d e \<longleftrightarrow> (\<forall>k \<in> set (dict_keys d @ dict_keys e). map_of d k = map_of e k)"

lemma dict_eq_iff: "dict_eq d e \<longleftrightarrow> map_of d = map_of e"
proof
  assume "dict_eq d e"
  then show "map_of d = map_of e"
    by (intro ext) (metis dict_eq_def dict_keys_def Un_iff map_of_eq_None_iff set_append set_map)
qed (simp add: dict_eq_def)

lemma map_of_dict_set [simp, dict_simps]: "map_of (dict_set k v d) = (map_of d)(k \<mapsto> v)"
  by (induction d) (auto simp: fun_eq_iff)

lemma keys_dict_set: "set (map fst (dict_set k v d)) = insert k (set (map fst d))"
proof (induction d)
  case (Cons p d)
  then show ?case by (cases p) (simp add: insert_commute)
qed simp

lemma distinct_dict_set: "distinct (map fst d) \<Longrightarrow> distinct (map fst (dict_set k v d))"
proof (induction d)
  case (Cons p d)
  then show ?case using keys_dict_set [of k v d] by (cases p) (simp, blast)
qed simp

lemma map_of_dict_pop [simp, dict_simps]: "map_of (dict_pop k d) = (map_of d)(k := None)"
  by (induction d) (auto simp: dict_pop_def fun_eq_iff)

lemma distinct_dict_pop: "distinct (map fst d) \<Longrightarrow> distinct (map fst (dict_pop k d))"
  by (simp add: dict_pop_def distinct_map_filter)

lemma dict_get_set [simp, dict_simps]:
  "dict_get (dict_set k v d) k' dflt = (if k' = k then v else dict_get d k' dflt)"
  by (simp add: dict_get_def)

lemma map_of_map_val:
  "map_of (map (\<lambda>(k, v). (k, f k v)) d) k = map_option (f k) (map_of d k)"
  by (induction d) auto

lemma map_of_keys_fun: "map_of (map (\<lambda>x. (g x, f x)) xs) k = Some v \<Longrightarrow>
   \<exists>x \<in> set xs. g x = k \<and> f x = v"
  by (induction xs) (auto split: if_splits)

lemma find_Some_iff: "List.find P xs = Some x \<Longrightarrow> x \<in> set xs \<and> P x"
  by (induction xs) (auto split: if_splits)

lemma find_None_iff': "List.find P xs = None \<longleftrightarrow> (\<forall>x \<in> set xs. \<not> P x)"
  by (induction xs) auto

lemma map_of_filter_keys:
  "map_of (filter (\<lambda>(k, v). P k) d) k = (if P k then map_of d k else None)"
  by (induction d) auto

lemma set_dict_set:
  "distinct (map fst d) \<Longrightarrow> set (dict_set k v d) = insert (k, v) {p \<in> set d. fst p \<noteq> k}"
proof (induction d)
  case (Cons p d)
  then have "\<forall>q \<in> set d. fst q \<noteq> fst p" by (auto simp: image_iff eq_commute)
  with Cons show ?case by (cases p) auto
qed simp

end
