(* ===== verification/PyFloat.thy ===== *)
theory PyFloat
  imports Prelude
begin

text \<open>
  Python's \<^verbatim>\<open>float\<close>: IEEE-754 binary64 with rounding to nearest, ties to even. A finite
  double is kept as the rational number it denotes, so rounding, overflow to infinity,
  gradual underflow and the comparisons with NaN are all computed, never assumed. The two
  zeros are one value here: Python compares them equal and raises on division by zero, so
  no branch of the modelled code can tell them apart.

  The lemmas are the ones rounding-error arguments use: rounding is monotone, fixes the
  representable numbers (in particular the integers up to \<open>2^53\<close>), and moves a number by
  at most half a unit in the last place.
\<close>

named_theorems float_simps \<open>evaluation of float operations\<close>

section \<open>Binary logarithm of a positive rational\<close>

fun bitlen :: "nat \<Rightarrow> nat" where
  "bitlen n = (if n = 0 then 0 else Suc (bitlen (n div 2)))"

declare bitlen.simps [simp del]

lemma bitlen_bounds: "0 < n \<Longrightarrow> 2 ^ (bitlen n - 1) \<le> n \<and> n < 2 ^ bitlen n"
proof (induction n rule: bitlen.induct)
  case (1 n)
  show ?case
  proof (cases "n div 2 = 0")
    case True
    with "1.prems" have "n = 1" by auto
    then show ?thesis by (simp add: bitlen.simps [of "Suc 0"] bitlen.simps [of 0])
  next
    case False
    with "1" have ih: "2 ^ (bitlen (n div 2) - 1) \<le> n div 2" "n div 2 < 2 ^ bitlen (n div 2)"
      by auto
    from False have pos: "0 < bitlen (n div 2)"
      by (subst bitlen.simps) simp
    have b: "bitlen n = Suc (bitlen (n div 2))"
      using "1.prems" by (simp add: bitlen.simps [of n])
    from pos have "(2::nat) ^ bitlen (n div 2) = 2 * 2 ^ (bitlen (n div 2) - 1)"
      by (cases "bitlen (n div 2)") auto
    with ih show ?thesis by (simp add: b) linarith
  qed
qed

lemma bitlen_pos: "0 < n \<Longrightarrow> 0 < bitlen n"
  by (simp add: bitlen.simps [of n])

definition ilog2 :: "rat \<Rightarrow> int" where
  "ilog2 x = (if 1 \<le> x then int (bitlen (nat \<lfloor>x\<rfloor>)) - 1
              else - int (bitlen (nat (\<lceil>1 / x\<rceil> - 1))))"

lemma powi_nat: "(2::rat) powi (int n) = 2 ^ n"
  by (simp add: power_int_def)

lemma powi_neg_nat: "(2::rat) powi (- int n) = 1 / 2 ^ n"
  by (simp add: power_int_def field_simps power_inverse)

lemma two_powi_pos [simp]: "0 < (2::rat) powi e"
  by (simp add: zero_less_power_int)

lemma two_powi_mono: "a \<le> b \<Longrightarrow> (2::rat) powi a \<le> 2 powi b"
  by (rule power_int_increasing) auto

lemma two_powi_less: "a < b \<Longrightarrow> (2::rat) powi a < 2 powi b"
  by (rule power_int_strict_increasing) auto

lemma two_powi_less_cancel: "(2::rat) powi a < 2 powi b \<Longrightarrow> a < b"
  by (meson leD leI two_powi_mono)

lemma two_powi_add: "(2::rat) powi (a + b) = 2 powi a * 2 powi b"
  by (simp add: power_int_add)

lemma two_powi_diff: "(2::rat) powi (a - b) = 2 powi a / 2 powi b"
  by (simp add: power_int_diff)

lemma two_powi_int: "0 \<le> e \<Longrightarrow> (2::rat) powi e = of_int (2 ^ nat e)"
  by (simp add: power_int_def)

lemma ilog2_ge1:
  assumes "1 \<le> x"
  shows "2 powi (ilog2 x) \<le> x \<and> x < 2 powi (ilog2 x + 1)"
proof -
  define n where "n = nat \<lfloor>x\<rfloor>"
  from assms have f1: "1 \<le> \<lfloor>x\<rfloor>" by simp
  then have n: "0 < n" "rat_of_nat n = of_int \<lfloor>x\<rfloor>" by (simp_all add: n_def)
  have b: "2 ^ (bitlen n - 1) \<le> n" "n < 2 ^ bitlen n" using bitlen_bounds [OF n(1)] by auto
  have i: "ilog2 x = int (bitlen n - 1)" "ilog2 x + 1 = int (bitlen n)"
    using assms bitlen_pos [OF n(1)] by (auto simp: ilog2_def n_def)
  have "rat_of_nat (2 ^ (bitlen n - 1)) \<le> rat_of_nat n" using b(1) by (rule of_nat_mono)
  also have "\<dots> \<le> x" by (simp add: n(2))
  finally have lo: "2 powi (ilog2 x) \<le> x" by (simp add: i powi_nat)
  have "x < rat_of_nat (n + 1)" using n(2) by (simp) linarith
  also have "\<dots> \<le> rat_of_nat (2 ^ bitlen n)" using b(2) by (intro of_nat_mono) simp
  finally have "x < 2 powi (ilog2 x + 1)" by (simp only: i(2) powi_nat of_nat_power of_nat_numeral)
  with lo show ?thesis by simp
qed

lemma ilog2_lt1:
  assumes "0 < x" "x < 1"
  shows "2 powi (ilog2 x) \<le> x \<and> x < 2 powi (ilog2 x + 1)"
proof -
  define y m where "y = 1 / x" and "m = nat (\<lceil>y\<rceil> - 1)"
  from assms have y: "1 < y" by (simp add: y_def)
  then have "1 < \<lceil>y\<rceil>" by simp
  then have m: "0 < m" "rat_of_nat m = of_int \<lceil>y\<rceil> - 1" by (simp_all add: m_def)
  have b: "2 ^ (bitlen m - 1) \<le> m" "m < 2 ^ bitlen m" using bitlen_bounds [OF m(1)] by auto
  have i: "ilog2 x = - int (bitlen m)" "ilog2 x + 1 = - int (bitlen m - 1)"
    using assms bitlen_pos [OF m(1)] by (auto simp: ilog2_def m_def y_def)
  have "y \<le> rat_of_nat (m + 1)" using m(2) by simp
  also have "\<dots> \<le> rat_of_nat (2 ^ bitlen m)" using b(2) by (intro of_nat_mono) simp
  finally have "y \<le> 2 ^ bitlen m" by simp
  with assms have lo: "2 powi (ilog2 x) \<le> x"
    by (simp only: i(1) powi_neg_nat) (simp add: y_def field_simps)
  have "rat_of_nat (2 ^ (bitlen m - 1)) \<le> rat_of_nat m" using b(1) by (rule of_nat_mono)
  also have "\<dots> < y" using m(2) by linarith
  finally have "2 ^ (bitlen m - 1) < y" by simp
  with assms have "x < 2 powi (ilog2 x + 1)"
    by (simp only: i(2) powi_neg_nat) (simp add: y_def field_simps)
  with lo show ?thesis by simp
qed

lemma ilog2_bounds: "0 < x \<Longrightarrow> 2 powi (ilog2 x) \<le> x \<and> x < 2 powi (ilog2 x + 1)"
  using ilog2_ge1 ilog2_lt1 not_less by blast

lemma ilog2_unique: "0 < x \<Longrightarrow> 2 powi e \<le> x \<Longrightarrow> x < 2 powi (e + 1) \<Longrightarrow> ilog2 x = e"
proof -
  assume a: "0 < x" "2 powi e \<le> x" "x < 2 powi (e + 1)"
  from ilog2_bounds [OF a(1)] a have "2 powi e < (2::rat) powi (ilog2 x + 1)"
    and "2 powi (ilog2 x) < (2::rat) powi (e + 1)" by auto
  then show ?thesis by (auto dest!: two_powi_less_cancel)
qed

lemma ilog2_mono: "0 < x \<Longrightarrow> x \<le> y \<Longrightarrow> ilog2 x \<le> ilog2 y"
proof -
  assume a: "0 < x" "x \<le> y"
  with ilog2_bounds [of x] ilog2_bounds [of y] have "2 powi (ilog2 x) < (2::rat) powi (ilog2 y + 1)"
    by linarith
  then show ?thesis by (auto dest!: two_powi_less_cancel)
qed

lemma ilog2_less: "0 < x \<Longrightarrow> x < 2 powi e \<Longrightarrow> ilog2 x < e"
  using ilog2_bounds [of x] two_powi_less_cancel [of "ilog2 x" e] by linarith

section \<open>Rounding to nearest, ties to even\<close>

definition rne :: "rat \<Rightarrow> int" where
  "rne q = (let f = \<lfloor>q\<rfloor>; r = q - of_int f in
     if r < 1 / 2 then f else if 1 / 2 < r then f + 1 else if even f then f else f + 1)"

lemma rne_bounds: "\<lfloor>q\<rfloor> \<le> rne q \<and> rne q \<le> \<lfloor>q\<rfloor> + 1"
  by (simp add: rne_def Let_def)

lemma rne_of_int [simp]: "rne (of_int k) = k"
  by (simp add: rne_def)

lemma rne_error: "\<bar>of_int (rne q) - q\<bar> \<le> 1 / 2"
proof -
  define f where "f = \<lfloor>q\<rfloor>"
  have "of_int f \<le> q" "q < of_int f + 1" unfolding f_def by linarith+
  then show ?thesis unfolding rne_def Let_def f_def [symmetric] by (auto simp: abs_if)
qed

lemma rne_eqI: "of_int k - 1 / 2 < q \<Longrightarrow> q < of_int k + 1 / 2 \<Longrightarrow> rne q = k"
proof -
  assume "of_int k - 1 / 2 < q" "q < of_int k + 1 / 2"
  with rne_error [of q] have "\<bar>rat_of_int (rne q) - of_int k\<bar> < 1" by linarith
  then have "rat_of_int \<bar>rne q - k\<bar> < of_int 1" by simp
  then have "\<bar>rne q - k\<bar> < 1" by (simp only: of_int_less_iff)
  then show ?thesis by linarith
qed

lemma rne_mono: assumes "x \<le> y" shows "rne x \<le> rne y"
proof (cases "\<lfloor>x\<rfloor> = \<lfloor>y\<rfloor>")
  case True
  with assms show ?thesis by (auto simp: rne_def Let_def)
next
  case False
  with floor_mono [OF assms] have "\<lfloor>x\<rfloor> + 1 \<le> \<lfloor>y\<rfloor>" by linarith
  with rne_bounds [of x] rne_bounds [of y] show ?thesis by linarith
qed

lemma rne_uminus: "rne (- q) = - rne q"
proof (cases "q = of_int \<lfloor>q\<rfloor>")
  case True
  then show ?thesis by (metis of_int_minus rne_of_int)
next
  case False
  have "\<lceil>q\<rceil> = \<lfloor>q\<rfloor> + 1" using False by (metis ceiling_altdef)
  then have f: "\<lfloor>- q\<rfloor> = - \<lfloor>q\<rfloor> - 1" by (simp add: ceiling_def)
  show ?thesis by (auto simp: rne_def Let_def f)
qed

lemma rne_le_int: "q \<le> of_int k \<Longrightarrow> rne q \<le> k"
  using rne_mono [of q "of_int k"] by simp

lemma int_le_rne: "of_int k \<le> q \<Longrightarrow> k \<le> rne q"
  using rne_mono [of "of_int k" q] by simp

text \<open>The exponent of the unit in the last place: 53 significant bits, down to \<open>2^-1074\<close>.\<close>

definition ulp_exp :: "rat \<Rightarrow> int" where
  "ulp_exp x = max (ilog2 \<bar>x\<bar> - 52) (- 1074)"

definition rnd_q :: "rat \<Rightarrow> rat" where
  "rnd_q x = (if x = 0 then 0
     else let u = 2 powi (ulp_exp x) in of_int (rne (x / u)) * u)"

lemma rnd_q_0 [simp]: "rnd_q 0 = 0"
  by (simp add: rnd_q_def)

lemma rnd_q_uminus: "rnd_q (- x) = - rnd_q x"
  by (simp add: rnd_q_def ulp_exp_def Let_def rne_uminus)

lemma rnd_q_nonneg: "0 \<le> x \<Longrightarrow> 0 \<le> rnd_q x"
  using int_le_rne [of 0 "x / 2 powi (ulp_exp x)"]
  by (auto simp: rnd_q_def Let_def intro!: mult_nonneg_nonneg)

lemma powi_div_int:
  "e \<le> n \<Longrightarrow> (2::rat) powi n / 2 powi e = of_int (2 ^ nat (n - e))"
  by (simp flip: two_powi_diff add: two_powi_int)

lemma rnd_q_le_powi:
  assumes "0 < x" "x \<le> 2 powi n" "ulp_exp x \<le> n"
  shows "rnd_q x \<le> 2 powi n"
proof -
  let ?u = "(2::rat) powi (ulp_exp x)"
  have "x / ?u \<le> 2 powi n / ?u" using assms(2) by (simp add: divide_right_mono)
  also have "\<dots> = of_int (2 ^ nat (n - ulp_exp x))" using assms(3) by (rule powi_div_int)
  finally have "rne (x / ?u) \<le> 2 ^ nat (n - ulp_exp x)" by (rule rne_le_int)
  then have "rat_of_int (rne (x / ?u)) \<le> of_int (2 ^ nat (n - ulp_exp x))"
    by (simp only: of_int_le_iff)
  also have "\<dots> = 2 powi n / ?u" using powi_div_int [OF assms(3)] by simp
  finally show ?thesis using assms(1) by (simp add: rnd_q_def Let_def pos_le_divide_eq)
qed

lemma powi_le_rnd_q:
  assumes "0 < x" "2 powi n \<le> x" "ulp_exp x \<le> n"
  shows "2 powi n \<le> rnd_q x"
proof -
  let ?u = "(2::rat) powi (ulp_exp x)"
  have "of_int (2 ^ nat (n - ulp_exp x)) = 2 powi n / ?u"
    using powi_div_int [OF assms(3)] by simp
  also have "\<dots> \<le> x / ?u" using assms(2) by (simp add: divide_right_mono)
  finally have "2 ^ nat (n - ulp_exp x) \<le> rne (x / ?u)" by (rule int_le_rne)
  then have "rat_of_int (2 ^ nat (n - ulp_exp x)) \<le> of_int (rne (x / ?u))"
    by (simp only: of_int_le_iff)
  moreover have "rat_of_int (2 ^ nat (n - ulp_exp x)) = 2 powi n / ?u"
    using powi_div_int [OF assms(3)] by simp
  ultimately have "2 powi n / ?u \<le> of_int (rne (x / ?u))" by (simp only:)
  then show ?thesis using assms(1) by (simp add: rnd_q_def Let_def pos_divide_le_eq)
qed

lemma rnd_q_mono_pos:
  assumes "0 < x" "x \<le> y"
  shows "rnd_q x \<le> rnd_q y"
proof (cases "ulp_exp x = ulp_exp y")
  case True
  with assms have "rne (x / 2 powi (ulp_exp x)) \<le> rne (y / 2 powi (ulp_exp y))"
    by (intro rne_mono) (simp add: divide_right_mono)
  with True assms show ?thesis by (simp add: rnd_q_def Let_def)
next
  case False
  have y: "0 < y" using assms by linarith
  have l: "ilog2 x \<le> ilog2 y" using assms by (rule ilog2_mono)
  with False assms have e: "ulp_exp y = ilog2 y - 52" "ulp_exp x < ulp_exp y" "ilog2 x < ilog2 y"
    by (auto simp: ulp_exp_def max_def split: if_splits)
  have "x \<le> 2 powi (ilog2 y)"
    using ilog2_bounds [OF assms(1)] two_powi_mono [of "ilog2 x + 1" "ilog2 y"] e(3) by linarith
  then have "rnd_q x \<le> 2 powi (ilog2 y)"
    using assms(1) e by (intro rnd_q_le_powi) auto
  also have "\<dots> \<le> rnd_q y"
    using y ilog2_bounds [OF y] e(1) by (intro powi_le_rnd_q) auto
  finally show ?thesis .
qed

lemma rnd_q_mono: assumes "x \<le> y" shows "rnd_q x \<le> rnd_q y"
proof -
  consider "0 < x" | "x \<le> 0" "0 \<le> y" | "y < 0" by linarith
  then show ?thesis
  proof cases
    case 1
    then show ?thesis using assms by (rule rnd_q_mono_pos)
  next
    case 2
    then show ?thesis
      using rnd_q_nonneg [of y] rnd_q_nonneg [of "- x"] by (simp add: rnd_q_uminus)
  next
    case 3
    then show ?thesis
      using rnd_q_mono_pos [of "- y" "- x"] assms by (simp add: rnd_q_uminus)
  qed
qed

section \<open>Representable numbers\<close>

lemma rnd_q_exact_pos:
  assumes "0 < x" "x = of_int k * 2 powi e" "ulp_exp x \<le> e"
  shows "rnd_q x = x"
proof -
  let ?u = "(2::rat) powi (ulp_exp x)"
  have "x / ?u = of_int k * (2 powi e / ?u)" by (simp add: assms(2))
  also have "\<dots> = of_int (k * 2 ^ nat (e - ulp_exp x))"
    by (simp only: powi_div_int [OF assms(3)] of_int_mult)
  finally have "of_int (rne (x / ?u)) = x / ?u" by (metis rne_of_int)
  then show ?thesis using assms(1) by (simp add: rnd_q_def Let_def)
qed

lemma rnd_q_grid_pos:
  assumes "0 < k" "k \<le> 2 ^ 53" "- 1074 \<le> e"
  shows "rnd_q (of_int k * 2 powi e) = of_int k * 2 powi e"
proof (cases "k = 2 ^ 53")
  case True
  have "(2::rat) powi (53 + e) = 2 powi 53 * 2 powi e" by (rule two_powi_add)
  then have x: "of_int k * 2 powi e = of_int 1 * (2::rat) powi (53 + e)"
    by (simp add: True power_int_numeral)
  have "ilog2 (2 powi (53 + e)) = 53 + e"
    by (intro ilog2_unique) (auto intro: two_powi_less)
  with assms(3) have "ulp_exp (of_int 1 * 2 powi (53 + e)) \<le> 53 + e"
    by (simp add: ulp_exp_def)
  then show ?thesis unfolding x by (intro rnd_q_exact_pos) auto
next
  case False
  with assms have "k < 2 ^ 53" by linarith
  then have "rat_of_int k < of_int (2 ^ 53)" by (simp only: of_int_less_iff)
  then have "of_int k * 2 powi e < (2::rat) powi 53 * 2 powi e"
    by (simp add: power_int_numeral)
  also have "\<dots> = 2 powi (53 + e)" by (simp only: two_powi_add)
  finally have "ilog2 (of_int k * 2 powi e) < 53 + e"
    using assms(1) by (intro ilog2_less) auto
  then have "ulp_exp (of_int k * 2 powi e) \<le> e"
    using assms by (simp add: ulp_exp_def)
  then show ?thesis using assms(1) by (intro rnd_q_exact_pos) auto
qed

lemma rnd_q_grid:
  assumes "\<bar>k\<bar> \<le> 2 ^ 53" "- 1074 \<le> e"
  shows "rnd_q (of_int k * 2 powi e) = of_int k * 2 powi e"
proof -
  consider "k = 0" | "0 < k" | "0 < - k" by linarith
  then show ?thesis
  proof cases
    case 3
    then have "rnd_q (of_int (- k) * 2 powi e) = of_int (- k) * 2 powi e"
      using assms by (intro rnd_q_grid_pos) auto
    then show ?thesis using rnd_q_uminus [of "of_int k * 2 powi e"] by simp
  qed (use assms rnd_q_grid_pos in auto)
qed

lemma rnd_q_int [simp]: "\<bar>i\<bar> \<le> 2 ^ 53 \<Longrightarrow> rnd_q (of_int i) = of_int i"
  using rnd_q_grid [of i 0] by simp

lemma rnd_q_on_grid_pos:
  assumes "0 < x"
  obtains k where "rnd_q x = of_int k * 2 powi (ulp_exp x)" "0 \<le> k" "k \<le> 2 ^ 53"
proof -
  let ?u = "(2::rat) powi (ulp_exp x)"
  have "x < 2 powi (ilog2 x + 1)" using ilog2_bounds [OF assms] by simp
  also have "\<dots> \<le> 2 powi (ulp_exp x + 53)" using assms
    by (intro two_powi_mono) (auto simp: ulp_exp_def)
  also have "\<dots> = of_int (2 ^ 53) * ?u" by (simp add: two_powi_add power_int_numeral)
  finally have "x / ?u \<le> of_int (2 ^ 53)" by (simp only: pos_divide_le_eq two_powi_pos less_imp_le)
  then have "rne (x / ?u) \<le> 2 ^ 53" by (rule rne_le_int)
  moreover have "0 \<le> rne (x / ?u)" using assms by (intro int_le_rne) simp
  ultimately show ?thesis using that assms by (simp add: rnd_q_def Let_def)
qed

lemma rnd_q_idem [simp]: "rnd_q (rnd_q x) = rnd_q x"
proof -
  have pos: "rnd_q (rnd_q y) = rnd_q y" if y: "0 < y" for y
  proof -
    obtain k where "rnd_q y = of_int k * 2 powi (ulp_exp y)" "0 \<le> k" "k \<le> 2 ^ 53"
      by (rule rnd_q_on_grid_pos [OF y])
    then show ?thesis using rnd_q_grid [of k "ulp_exp y"] by (simp add: ulp_exp_def)
  qed
  consider "x = 0" | "0 < x" | "0 < - x" by linarith
  then show ?thesis
    by cases (use pos pos [of "- x"] in \<open>auto simp: rnd_q_uminus\<close>)
qed

lemma rnd_q_error: "\<bar>rnd_q x - x\<bar> \<le> 2 powi (ulp_exp x - 1)"
proof (cases "x = 0")
  case False
  let ?u = "(2::rat) powi (ulp_exp x)"
  have "rnd_q x - x = (of_int (rne (x / ?u)) - x / ?u) * ?u"
    using False by (simp add: rnd_q_def Let_def left_diff_distrib)
  then have "\<bar>rnd_q x - x\<bar> = \<bar>of_int (rne (x / ?u)) - x / ?u\<bar> * ?u"
    by (simp add: abs_mult)
  also have "\<dots> \<le> 1 / 2 * ?u" by (intro mult_right_mono rne_error) simp
  also have "\<dots> = 2 powi (ulp_exp x - 1)" by (simp add: two_powi_diff)
  finally show ?thesis .
qed simp

section \<open>Floats\<close>

datatype pyfloat = NaN | PInf | NInf | Fin rat

definition rnd :: "rat \<Rightarrow> pyfloat" where
  "rnd x = (let r = rnd_q x in
     if 2 powi 1024 \<le> r then PInf else if r \<le> - (2 powi 1024) then NInf else Fin r)"

text \<open>A finite value is a double when rounding leaves it alone.\<close>

definition is_dbl :: "pyfloat \<Rightarrow> bool" where
  "is_dbl a \<longleftrightarrow> (case a of Fin q \<Rightarrow> rnd q = Fin q | _ \<Rightarrow> True)"

definition isfinite :: "pyfloat \<Rightarrow> bool" where
  "isfinite a \<longleftrightarrow> (case a of Fin _ \<Rightarrow> True | _ \<Rightarrow> False)"

fun flt :: "pyfloat \<Rightarrow> pyfloat \<Rightarrow> bool" where
  "flt (Fin a) (Fin b) = (a < b)"
| "flt NInf (Fin b) = True"
| "flt NInf PInf = True"
| "flt (Fin a) PInf = True"
| "flt _ _ = False"

fun feq :: "pyfloat \<Rightarrow> pyfloat \<Rightarrow> bool" where
  "feq NaN b = False"
| "feq a b = (a = b)"

definition fle :: "pyfloat \<Rightarrow> pyfloat \<Rightarrow> bool" where
  "fle a b \<longleftrightarrow> flt a b \<or> feq a b"

fun fneg :: "pyfloat \<Rightarrow> pyfloat" where
  "fneg (Fin a) = Fin (- a)"
| "fneg PInf = NInf"
| "fneg NInf = PInf"
| "fneg NaN = NaN"

fun fabs :: "pyfloat \<Rightarrow> pyfloat" where
  "fabs (Fin a) = Fin \<bar>a\<bar>"
| "fabs NaN = NaN"
| "fabs _ = PInf"

fun fadd :: "pyfloat \<Rightarrow> pyfloat \<Rightarrow> pyfloat" where
  "fadd (Fin a) (Fin b) = rnd (a + b)"
| "fadd NaN b = NaN"
| "fadd a NaN = NaN"
| "fadd PInf NInf = NaN"
| "fadd NInf PInf = NaN"
| "fadd PInf b = PInf"
| "fadd a PInf = PInf"
| "fadd NInf b = NInf"
| "fadd a NInf = NInf"

definition fsub :: "pyfloat \<Rightarrow> pyfloat \<Rightarrow> pyfloat" where
  "fsub a b = fadd a (fneg b)"

text \<open>The sign of a non-NaN value, for products and quotients with an infinity.\<close>

fun fsgn :: "pyfloat \<Rightarrow> rat" where
  "fsgn (Fin a) = sgn a"
| "fsgn PInf = 1"
| "fsgn NInf = - 1"
| "fsgn NaN = 0"

definition inf_of_sign :: "rat \<Rightarrow> pyfloat" where
  "inf_of_sign s = (if 0 < s then PInf else if s < 0 then NInf else NaN)"

fun fmul :: "pyfloat \<Rightarrow> pyfloat \<Rightarrow> pyfloat" where
  "fmul (Fin a) (Fin b) = rnd (a * b)"
| "fmul NaN b = NaN"
| "fmul a NaN = NaN"
| "fmul a b = inf_of_sign (fsgn a * fsgn b)"

text \<open>True division: Python raises on a zero divisor, whatever the dividend.\<close>

fun fdiv :: "pyfloat \<Rightarrow> pyfloat \<Rightarrow> pyfloat result" where
  "fdiv a (Fin b) =
     (if b = 0 then Inl ZeroDivisionError
      else Inr (case a of Fin x \<Rightarrow> rnd (x / b) | NaN \<Rightarrow> NaN
                 | _ \<Rightarrow> inf_of_sign (fsgn a * sgn b)))"
| "fdiv a NaN = Inr NaN"
| "fdiv (Fin a) b = Inr (Fin 0)"
| "fdiv a b = Inr NaN"

text \<open>The builtins \<^verbatim>\<open>max(a, b)\<close> and \<^verbatim>\<open>min(a, b)\<close> keep the first argument on ties and on NaN.\<close>

definition fmax :: "pyfloat \<Rightarrow> pyfloat \<Rightarrow> pyfloat" where
  "fmax a b = (if flt a b then b else a)"

definition fmin :: "pyfloat \<Rightarrow> pyfloat \<Rightarrow> pyfloat" where
  "fmin a b = (if flt b a then b else a)"

text \<open>\<^verbatim>\<open>float(i)\<close> of an unbounded int: correctly rounded, OverflowError beyond the range.\<close>

definition float_of_int :: "int \<Rightarrow> pyfloat result" where
  "float_of_int i = (case rnd (of_int i) of Fin q \<Rightarrow> Inr (Fin q) | _ \<Rightarrow> Inl OverflowError)"

text \<open>A decimal literal of the source.\<close>

abbreviation flit :: "rat \<Rightarrow> pyfloat" where
  "flit q \<equiv> rnd q"

text \<open>\<^verbatim>\<open>math.isclose(a, b, rel_tol=rel, abs_tol=0.0)\<close>.\<close>

definition isclose :: "pyfloat \<Rightarrow> pyfloat \<Rightarrow> pyfloat \<Rightarrow> bool" where
  "isclose rel a b =
     (if feq a b then True
      else if \<not> isfinite a \<or> \<not> isfinite b then False
      else let d = fabs (fsub b a) in
        fle d (fabs (fmul rel b)) \<or> fle d (fabs (fmul rel a)) \<or> fle d (Fin 0))"

text \<open>\<^verbatim>\<open>math.ceil\<close> of a float.\<close>

fun fceil :: "pyfloat \<Rightarrow> int result" where
  "fceil (Fin a) = Inr \<lceil>a\<rceil>"
| "fceil NaN = Inl (ValueError ''cannot convert float NaN to integer'')"
| "fceil _ = Inl OverflowError"

subsection \<open>Order\<close>

lemma fle_Fin [simp]: "fle (Fin a) (Fin b) \<longleftrightarrow> a \<le> b"
  by (auto simp: fle_def)

lemma fle_simps [simp]:
  "fle NaN b = False" "fle a NaN = False" "fle NInf (Fin y) = True" "fle (Fin x) PInf = True"
  "fle PInf (Fin y) = False" "fle (Fin x) NInf = False" "fle NInf PInf = True"
  "fle PInf NInf = False" "fle PInf PInf = True" "fle NInf NInf = True"
  by (cases a; simp add: fle_def)+

lemma flt_NaN [simp]: "flt NaN b = False" "flt a NaN = False"
  by (cases a; cases b; simp)+

lemma feq_NaN [simp]: "feq a NaN = False"
  by (cases a) auto

lemma fle_refl: "a \<noteq> NaN \<Longrightarrow> fle a a"
  by (cases a) auto

lemma fle_trans [trans]: "fle a b \<Longrightarrow> fle b c \<Longrightarrow> fle a c"
  by (cases a; cases b; cases c) auto

lemma fle_antisym: "fle a b \<Longrightarrow> fle b a \<Longrightarrow> a = b"
  by (cases a; cases b) auto

lemma flt_imp_fle: "flt a b \<Longrightarrow> fle a b"
  by (simp add: fle_def)

lemma not_flt: "a \<noteq> NaN \<Longrightarrow> b \<noteq> NaN \<Longrightarrow> \<not> flt a b \<longleftrightarrow> fle b a"
  by (cases a; cases b) auto

lemma not_fle: "a \<noteq> NaN \<Longrightarrow> b \<noteq> NaN \<Longrightarrow> \<not> fle a b \<longleftrightarrow> flt b a"
  by (cases a; cases b) auto

lemma fle_notNaN: "fle a b \<Longrightarrow> a \<noteq> NaN \<and> b \<noteq> NaN"
  by auto

lemma isfinite_simps [simp]:
  "isfinite (Fin q)" "\<not> isfinite NaN" "\<not> isfinite PInf" "\<not> isfinite NInf"
  by (simp_all add: isfinite_def)

lemma isfinite_Fin: "isfinite a \<longleftrightarrow> (\<exists>q. a = Fin q)"
  by (cases a) auto

lemma isfinite_not_NaN: "isfinite a \<Longrightarrow> a \<noteq> NaN"
  by auto

lemma finite_between: "fle (Fin a) x \<Longrightarrow> fle x (Fin b) \<Longrightarrow> isfinite x"
  by (cases x) auto

lemma fmax_Fin [simp]: "fmax (Fin a) (Fin b) = Fin (max a b)"
  by (auto simp: fmax_def max_def)

lemma fmin_Fin [simp]: "fmin (Fin a) (Fin b) = Fin (min a b)"
  by (auto simp: fmin_def min_def)

lemma fmin_PInf [simp]: "fmin (Fin a) PInf = Fin a"
  by (simp add: fmin_def)

lemma fmax_NInf [simp]: "fmax (Fin a) NInf = Fin a"
  by (simp add: fmax_def)

lemma fmin_fmax_inf [simp]:
  "fmax NInf (Fin a) = Fin a" "fmax PInf (Fin a) = PInf" "fmax (Fin a) PInf = PInf"
  "fmin PInf (Fin a) = Fin a" "fmin NInf (Fin a) = NInf" "fmin (Fin a) NInf = NInf"
  by (simp_all add: fmax_def fmin_def)

lemma fneg_fneg [simp]: "fneg (fneg a) = a"
  by (cases a) auto

subsection \<open>Rounding\<close>

lemma rnd_not_NaN [simp]: "rnd x \<noteq> NaN"
  by (simp add: rnd_def Let_def)

lemma rnd_mono: assumes "x \<le> y" shows "fle (rnd x) (rnd y)"
proof -
  have "rnd_q x \<le> rnd_q y" using assms by (rule rnd_q_mono)
  moreover have "0 < (2::rat) powi 1024" by simp
  ultimately show ?thesis by (auto simp: rnd_def Let_def)
qed

lemma rnd_Fin: "rnd x = Fin q \<Longrightarrow> q = rnd_q x"
  by (auto simp: rnd_def Let_def split: if_splits)

lemma is_dbl_simps [simp]: "is_dbl NaN" "is_dbl PInf" "is_dbl NInf"
  by (simp_all add: is_dbl_def)

lemma is_dbl_Fin: "is_dbl (Fin q) \<longleftrightarrow> rnd q = Fin q"
  by (simp add: is_dbl_def)

lemma is_dbl_rnd [simp]: "is_dbl (rnd x)"
proof (cases "rnd x")
  case (Fin q)
  then have "q = rnd_q x" by (rule rnd_Fin)
  with Fin have "rnd q = Fin q" by (simp add: rnd_def Let_def)
  with Fin show ?thesis by (simp add: is_dbl_Fin)
qed simp_all

lemma rnd_le: "x \<le> q \<Longrightarrow> is_dbl (Fin q) \<Longrightarrow> fle (rnd x) (Fin q)"
  using rnd_mono [of x q] by (simp add: is_dbl_Fin)

lemma rnd_ge: "q \<le> x \<Longrightarrow> is_dbl (Fin q) \<Longrightarrow> fle (Fin q) (rnd x)"
  using rnd_mono [of q x] by (simp add: is_dbl_Fin)

lemma rnd_between:
  assumes "a \<le> x" "x \<le> b" "is_dbl (Fin a)" "is_dbl (Fin b)"
  obtains q where "rnd x = Fin q" "a \<le> q" "q \<le> b"
  using rnd_ge [OF assms(1,3)] rnd_le [OF assms(2,4)] by (cases "rnd x") auto

lemma powi_1024_gt: "\<bar>i\<bar> \<le> 2 ^ 53 \<Longrightarrow> \<bar>rat_of_int i\<bar> < 2 powi 1024"
proof -
  assume "\<bar>i\<bar> \<le> 2 ^ 53"
  then have "rat_of_int \<bar>i\<bar> \<le> of_int (2 ^ 53)" by (simp only: of_int_le_iff)
  also have "\<dots> = 2 powi 53" by (simp add: power_int_numeral)
  also have "\<dots> < 2 powi 1024" by (rule two_powi_less) simp
  finally show ?thesis by simp
qed

lemma rnd_int: assumes "\<bar>i\<bar> \<le> 2 ^ 53" shows "rnd (of_int i) = Fin (of_int i)"
  using rnd_q_int [OF assms] powi_1024_gt [OF assms] by (simp add: rnd_def Let_def abs_less_iff)

lemma rnd_0 [simp, float_simps]: "rnd 0 = Fin 0"
  using rnd_int [of 0] by simp

lemma rnd_1 [simp, float_simps]: "rnd 1 = Fin 1"
  using rnd_int [of 1] by simp

lemma rnd_numeral [simp, float_simps]:
  "(numeral n :: int) \<le> 2 ^ 53 \<Longrightarrow> rnd (numeral n) = Fin (numeral n)"
  using rnd_int [of "numeral n"] by simp

lemma rnd_neg_numeral [simp, float_simps]:
  "(numeral n :: int) \<le> 2 ^ 53 \<Longrightarrow> rnd (- numeral n) = Fin (- numeral n)"
  using rnd_int [of "- numeral n"] by simp

lemma rnd_neg_1 [simp, float_simps]: "rnd (- 1) = Fin (- 1)"
  using rnd_int [of "- 1"] by simp

lemma is_dbl_0 [simp]: "is_dbl (Fin 0)"
  by (simp add: is_dbl_Fin)

lemma is_dbl_int: "\<bar>i\<bar> \<le> 2 ^ 53 \<Longrightarrow> is_dbl (Fin (of_int i))"
  by (simp add: is_dbl_Fin rnd_int)

lemma is_dbl_numeral [simp]: "(numeral n :: int) \<le> 2 ^ 53 \<Longrightarrow> is_dbl (Fin (numeral n))"
  by (simp add: is_dbl_Fin)

lemma rnd_uminus: "rnd (- x) = fneg (rnd x)"
proof -
  have "0 < (2::rat) powi 1024" by simp
  then show ?thesis by (auto simp: rnd_def Let_def rnd_q_uminus)
qed

lemma is_dbl_fneg [simp]: "is_dbl (fneg a) = is_dbl a"
proof (cases a)
  case (Fin q)
  have "fneg b = Fin (- q) \<longleftrightarrow> b = Fin q" for b by (cases b) auto
  with Fin show ?thesis by (simp add: is_dbl_Fin rnd_uminus)
qed simp_all

lemma is_dbl_uminus [simp]: "is_dbl (Fin (- a)) = is_dbl (Fin a)"
  using is_dbl_fneg [of "Fin a"] by simp

lemma is_dbl_fmin: "is_dbl a \<Longrightarrow> is_dbl b \<Longrightarrow> is_dbl (fmin a b)"
  by (simp add: fmin_def)

lemma is_dbl_fmax: "is_dbl a \<Longrightarrow> is_dbl b \<Longrightarrow> is_dbl (fmax a b)"
  by (simp add: fmax_def)

lemma is_dbl_fadd [simp]: "is_dbl (fadd a b)"
  by (cases a; cases b) auto

lemma is_dbl_fsub [simp]: "is_dbl (fsub a b)"
  by (simp add: fsub_def)

lemma is_dbl_fmul [simp]: "is_dbl (fmul a b)"
  by (cases a; cases b) (auto simp: inf_of_sign_def)

lemma is_dbl_fdiv: "fdiv a b = Inr c \<Longrightarrow> is_dbl c"
  by (cases a; cases b) (auto simp: inf_of_sign_def split: if_splits)

lemma fsub_Fin [simp]: "fsub (Fin a) (Fin b) = rnd (a - b)"
  by (simp add: fsub_def)

subsection \<open>Evaluating a rounding\<close>

text \<open>
  \<open>k * 2^e\<close> is the rounding of \<open>x\<close> when \<open>k\<close> has 53 bits and \<open>x\<close> is strictly within
  half a unit of it: the side conditions are arithmetic on numerals.
\<close>

lemma rnd_eqI:
  assumes "2 ^ 52 \<le> k" "k < 2 ^ 53" "- 1074 \<le> e" "e \<le> 900"
    and "(of_int k - 1 / 2) * 2 powi e < x" "x < (of_int k + 1 / 2) * 2 powi e"
    and "of_int k * 2 powi e \<le> x \<or> 2 ^ 52 < k"
  shows "rnd x = Fin (of_int k * 2 powi e)"
proof -
  have k: "rat_of_int (2 ^ 52) \<le> of_int k" "rat_of_int k \<le> of_int (2 ^ 53 - 1)"
    using assms(1,2) by (simp_all only: of_int_le_iff)
  have b52: "rat_of_int (2 ^ 52) * 2 powi e = 2 powi (52 + e)"
    by (simp add: two_powi_add power_int_numeral)
  have b53: "rat_of_int (2 ^ 53) * 2 powi e = 2 powi (53 + e)"
    by (simp add: two_powi_add power_int_numeral)
  have lo: "2 powi (52 + e) \<le> x"
  proof (cases "of_int k * 2 powi e \<le> x")
    case True
    have "rat_of_int (2 ^ 52) * 2 powi e \<le> of_int k * 2 powi e"
      using k(1) by (intro mult_right_mono) auto
    with True b52 show ?thesis by linarith
  next
    case False
    with assms(7) have "2 ^ 52 + 1 \<le> k" by linarith
    then have "rat_of_int (2 ^ 52 + 1) \<le> of_int k" by (simp only: of_int_le_iff)
    then have "rat_of_int (2 ^ 52) * 2 powi e \<le> (of_int k - 1 / 2) * 2 powi e"
      by (intro mult_right_mono) auto
    with assms(5) b52 show ?thesis by linarith
  qed
  have "(of_int k + 1 / 2) * 2 powi e \<le> rat_of_int (2 ^ 53) * 2 powi e"
    using k(2) by (intro mult_right_mono) auto
  with assms(6) b53 have hi: "x < 2 powi (52 + e + 1)" by (simp add: add.commute)
  have pos: "0 < x" using lo two_powi_pos [of "52 + e"] by linarith
  have "ilog2 x = 52 + e" using pos lo hi by (rule ilog2_unique)
  with pos assms(3) have u: "ulp_exp x = e" by (simp add: ulp_exp_def)
  have fk: "of_int k - 1 / 2 < x / 2 powi e" "x / 2 powi e < of_int k + 1 / 2"
    using assms(5,6) by (simp_all add: pos_less_divide_eq pos_divide_less_eq)
  then have "rne (x / 2 powi e) = k" by (rule rne_eqI)
  with pos u have r: "rnd_q x = of_int k * 2 powi e" by (simp add: rnd_q_def)
  have "of_int k * 2 powi e < rat_of_int (2 ^ 53) * 2 powi e"
    using k(2) by (intro mult_strict_right_mono) auto
  also have "\<dots> \<le> 2 powi 1024"
    unfolding b53 using assms(4) by (intro two_powi_mono) simp
  finally have "of_int k * 2 powi e < (2::rat) powi 1024" .
  moreover have "0 \<le> of_int k * (2::rat) powi e" using assms(1) by simp
  moreover have "- (2 powi 1024) < (0::rat)" by simp
  ultimately show ?thesis unfolding rnd_def r Let_def by (simp add: not_le)
qed

text \<open>The decimal literals of the source.\<close>

lemma lit_1e_9: "flit (1 / 1000000000) = Fin (4835703278458517 * 2 powi (- 82))"
proof -
  have "flit (1 / 1000000000) = Fin (of_int 4835703278458517 * 2 powi (- 82))"
    by (rule rnd_eqI) (simp_all add: power_int_def power_one_over)
  then show ?thesis by simp
qed

lemma lit_1e_12: "flit (1 / 1000000000000) = Fin (4951760157141521 * 2 powi (- 92))"
proof -
  have "flit (1 / 1000000000000) = Fin (of_int 4951760157141521 * 2 powi (- 92))"
    by (rule rnd_eqI) (simp_all add: power_int_def power_one_over)
  then show ?thesis by simp
qed

lemma lit_0_9: "flit (9 / 10) = Fin (8106479329266893 * 2 powi (- 53))"
proof -
  have "flit (9 / 10) = Fin (of_int 8106479329266893 * 2 powi (- 53))"
    by (rule rnd_eqI) (simp_all add: power_int_def power_one_over)
  then show ?thesis by simp
qed

lemma lit_0_1: "flit (1 / 10) = Fin (7205759403792794 * 2 powi (- 56))"
proof -
  have "flit (1 / 10) = Fin (of_int 7205759403792794 * 2 powi (- 56))"
    by (rule rnd_eqI) (simp_all add: power_int_def power_one_over)
  then show ?thesis by simp
qed

subsection \<open>Monotonicity of the operations\<close>

lemma fle_PInf: "a \<noteq> NaN \<Longrightarrow> fle a PInf"
  by (cases a) auto

lemma fle_NInf: "a \<noteq> NaN \<Longrightarrow> fle NInf a"
  by (cases a) auto

lemma fadd_mono_right: "fle a b \<Longrightarrow> fle (fadd (Fin c) a) (fadd (Fin c) b)"
  by (cases a; cases b) (auto intro: rnd_mono fle_PInf fle_NInf)

lemma fadd_mono_left: "fle a b \<Longrightarrow> fle (fadd a (Fin c)) (fadd b (Fin c))"
  by (cases a; cases b) (auto intro: rnd_mono fle_PInf fle_NInf)

lemma fmul_mono_left: "fle a b \<Longrightarrow> 0 < r \<Longrightarrow> fle (fmul a (Fin r)) (fmul b (Fin r))"
  by (cases a; cases b) (auto intro: rnd_mono fle_PInf fle_NInf simp: inf_of_sign_def mult_right_mono)

lemma fsub_mono_left: "fle a b \<Longrightarrow> fle (fsub a (Fin c)) (fsub b (Fin c))"
  by (simp add: fsub_def fadd_mono_left)

lemma fsub_antimono_right: "fle a b \<Longrightarrow> fle (fsub (Fin c) b) (fsub (Fin c) a)"
  by (cases a; cases b) (auto simp: fsub_def intro: rnd_mono fle_PInf fle_NInf)

lemma fmin_mono: "fle a b \<Longrightarrow> m \<noteq> NaN \<Longrightarrow> fle (fmin m a) (fmin m b)"
  by (cases a; cases b; cases m) (auto simp: fmin_def)

lemma fmax_mono: "fle a b \<Longrightarrow> m \<noteq> NaN \<Longrightarrow> fle (fmax m a) (fmax m b)"
  by (cases a; cases b; cases m) (auto simp: fmax_def)

lemma fmin_le: "m \<noteq> NaN \<Longrightarrow> a \<noteq> NaN \<Longrightarrow> fle (fmin m a) m \<and> fle (fmin m a) a"
  by (cases a; cases m) (auto simp: fmin_def)

lemma fmax_ge: "m \<noteq> NaN \<Longrightarrow> a \<noteq> NaN \<Longrightarrow> fle m (fmax m a) \<and> fle a (fmax m a)"
  by (cases a; cases m) (auto simp: fmax_def)

lemma fadd_nonneg: "fle (Fin 0) a \<Longrightarrow> is_dbl (Fin c) \<Longrightarrow> fle (Fin c) (fadd (Fin c) a)"
  by (cases a) (auto intro: rnd_ge)

lemma fmul_nonneg: "fle (Fin 0) a \<Longrightarrow> 0 < r \<Longrightarrow> fle (Fin 0) (fmul a (Fin r))"
  by (cases a) (auto intro: rnd_ge simp: inf_of_sign_def)

lemma rnd_nonneg: "0 \<le> x \<Longrightarrow> fle (Fin 0) (rnd x)"
  by (rule rnd_ge) auto

lemma rnd_nonpos: "x \<le> 0 \<Longrightarrow> fle (rnd x) (Fin 0)"
  by (rule rnd_le) auto

subsection \<open>The next float towards zero\<close>

text \<open>
  \<^verbatim>\<open>math.nextafter(x, 0.0)\<close>. Below a power of two the floats are twice as dense, down to the
  smallest subnormal.
\<close>

definition pred_q :: "rat \<Rightarrow> rat" where
  "pred_q q = (let e = ulp_exp q in
     if q = 2 powi (ilog2 q) \<and> - 1074 < e then q - 2 powi (e - 1) else q - 2 powi e)"

definition nextafter_zero :: "pyfloat \<Rightarrow> pyfloat" where
  "nextafter_zero a = (case a of
      NaN \<Rightarrow> NaN
    | PInf \<Rightarrow> Fin ((2 ^ 53 - 1) * 2 powi 971)
    | NInf \<Rightarrow> Fin (- ((2 ^ 53 - 1) * 2 powi 971))
    | Fin q \<Rightarrow> if q = 0 then Fin 0 else if 0 < q then Fin (pred_q q) else Fin (- pred_q (- q)))"

lemma pred_q_less: "pred_q q < q"
  by (simp add: pred_q_def Let_def)

end
