(* ===== verification/PyValue.thy ===== *)
theory PyValue
  imports PyFloat
begin

text \<open>
  Dynamically typed Python values, as far as the validators of the code look at them: the
  exact builtin types, proper subclasses of \<^verbatim>\<open>int\<close> and \<^verbatim>\<open>float\<close> (which \<^verbatim>\<open>isinstance\<close>
  accepts and \<^verbatim>\<open>type(x) is int\<close> does not), containers, and anything else by the name of
  its class. \<open>py_float\<close> is the builtin \<^verbatim>\<open>float(x)\<close>, including its parser of decimal strings.
\<close>

datatype pyval =
    VNone
  | VBool bool
  | VInt int
  | VIntSub int
  | VSecondsIn int
  | VFloat pyfloat
  | VFloatSub pyfloat
  | VStr pystr
  | VBytes "nat list"
  | VList "pyval list"
  | VTuple "pyval list"
  | VDict "(pyval \<times> pyval) list"
  | VOther pystr

section \<open>The parser behind \<open>float(s)\<close>\<close>

definition is_digit :: "nat \<Rightarrow> bool" where
  "is_digit c \<longleftrightarrow> 48 \<le> c \<and> c \<le> 57"

definition is_ascii_space :: "nat \<Rightarrow> bool" where
  "is_ascii_space c \<longleftrightarrow> c = 32 \<or> (9 \<le> c \<and> c \<le> 13)"

definition strip_space :: "nat list \<Rightarrow> nat list" where
  "strip_space s = rev (dropWhile is_ascii_space (rev (dropWhile is_ascii_space s)))"

definition lower_ascii :: "nat \<Rightarrow> nat" where
  "lower_ascii c = (if 65 \<le> c \<and> c \<le> 90 then c + 32 else c)"

text \<open>A run of digits, an underscore allowed between two of them: value, length, rest.\<close>

fun digits_tail :: "nat \<Rightarrow> nat \<Rightarrow> nat list \<Rightarrow> nat \<times> nat \<times> nat list" where
  "digits_tail v n [] = (v, n, [])"
| "digits_tail v n [c] = (if is_digit c then (10 * v + (c - 48), Suc n, []) else (v, n, [c]))"
| "digits_tail v n (c # d # s) =
     (if is_digit c then digits_tail (10 * v + (c - 48)) (Suc n) (d # s)
      else if c = 95 \<and> 0 < n \<and> is_digit d then digits_tail (10 * v + (d - 48)) (Suc n) s
      else (v, n, c # d # s))"

definition take_sign :: "nat list \<Rightarrow> bool \<times> nat list" where
  "take_sign s = (case s of c # t \<Rightarrow> if c = 45 then (True, t) else if c = 43 then (False, t)
      else (False, s) | [] \<Rightarrow> (False, []))"

text \<open>The exponent part, which must end the string.\<close>

definition parse_exponent :: "nat list \<Rightarrow> int option" where
  "parse_exponent s = (case s of [] \<Rightarrow> Some 0
     | c # t \<Rightarrow> if c = 101 then
         (let (neg, u) = take_sign t; (v, n, r) = digits_tail 0 0 u
          in if 0 < n \<and> r = [] then Some (if neg then - int v else int v) else None)
       else None)"

definition parse_decimal :: "nat list \<Rightarrow> rat option" where
  "parse_decimal s =
     (let (iv, ni, r) = digits_tail 0 0 s;
          (fv, nf, r') = (case r of c # t \<Rightarrow> if c = 46 then digits_tail 0 0 t else (0, 0, r)
                          | [] \<Rightarrow> (0, 0, []))
      in if ni = 0 \<and> nf = 0 then None
         else map_option (\<lambda>e. (of_nat iv + of_nat fv / 10 ^ nf) * 10 powi e) (parse_exponent r'))"

definition parse_float :: "nat list \<Rightarrow> pyfloat option" where
  "parse_float s =
     (let (neg, t) = take_sign (map lower_ascii (strip_space s));
          m = (if t = ps ''inf'' \<or> t = ps ''infinity'' then Some PInf
               else if t = ps ''nan'' then Some NaN
               else map_option rnd (parse_decimal t))
      in map_option (\<lambda>a. if neg then fneg a else a) m)"

definition py_float :: "pyval \<Rightarrow> pyfloat result" where
  "py_float v = (case v of
      VFloat a \<Rightarrow> Inr a
    | VFloatSub a \<Rightarrow> Inr a
    | VInt i \<Rightarrow> float_of_int i
    | VIntSub i \<Rightarrow> float_of_int i
    | VSecondsIn i \<Rightarrow> float_of_int i
    | VBool b \<Rightarrow> Inr (if b then Fin 1 else Fin 0)
    | VStr s \<Rightarrow> (case parse_float s of None \<Rightarrow> Inl (ValueError ''could not convert string to float'')
                 | Some a \<Rightarrow> Inr a)
    | VBytes s \<Rightarrow> (case parse_float s of None \<Rightarrow> Inl (ValueError ''could not convert string to float'')
                 | Some a \<Rightarrow> Inr a)
    | _ \<Rightarrow> Inl (TypeError ''float() argument must be a string or a real number''))"

lemma py_float_VFloat [simp]: "py_float (VFloat a) = Inr a"
  by (simp add: py_float_def)

lemma py_float_VInt [simp]: "py_float (VInt i) = float_of_int i"
  by (simp add: py_float_def)

section \<open>Type tests\<close>

definition is_bool_like :: "pyval \<Rightarrow> bool" where
  "is_bool_like v \<longleftrightarrow> (case v of VBool _ \<Rightarrow> True | _ \<Rightarrow> False)"

definition type_is_int :: "pyval \<Rightarrow> bool" where
  "type_is_int v \<longleftrightarrow> (case v of VInt _ \<Rightarrow> True | _ \<Rightarrow> False)"

definition type_is_float :: "pyval \<Rightarrow> bool" where
  "type_is_float v \<longleftrightarrow> (case v of VFloat _ \<Rightarrow> True | _ \<Rightarrow> False)"

text \<open>\<^verbatim>\<open>isinstance(v, (int, float))\<close>; \<^verbatim>\<open>bool\<close> is a subclass of \<^verbatim>\<open>int\<close>.\<close>

definition isinstance_int :: "pyval \<Rightarrow> bool" where
  "isinstance_int v \<longleftrightarrow> (case v of VInt _ \<Rightarrow> True | VIntSub _ \<Rightarrow> True | VSecondsIn _ \<Rightarrow> True
     | VBool _ \<Rightarrow> True | _ \<Rightarrow> False)"

definition isinstance_float :: "pyval \<Rightarrow> bool" where
  "isinstance_float v \<longleftrightarrow> (case v of VFloat _ \<Rightarrow> True | VFloatSub _ \<Rightarrow> True | _ \<Rightarrow> False)"

definition isinstance_int_float :: "pyval \<Rightarrow> bool" where
  "isinstance_int_float v \<longleftrightarrow> isinstance_int v \<or> isinstance_float v"

lemmas type_tests = is_bool_like_def type_is_int_def type_is_float_def
  isinstance_int_def isinstance_float_def isinstance_int_float_def

lemma float_of_int_is_dbl: "float_of_int i = Inr a \<Longrightarrow> is_dbl a \<and> isfinite a"
  using is_dbl_rnd [of "of_int i"]
  by (cases "rnd (of_int i)") (auto simp: float_of_int_def)

lemma float_of_int_small: "\<bar>i\<bar> \<le> 2 ^ 53 \<Longrightarrow> float_of_int i = Inr (Fin (of_int i))"
  by (simp add: float_of_int_def rnd_int)

end
