(* ===== verification/Capacity.thy ===== *)
theory Capacity
  imports PyValue
begin

text \<open>
  \<^verbatim>\<open>_capacity.py\<close>: the token-bucket refill arithmetic that the memory, Redis and SQLite
  backends share, with its validators and the rate-limited backward-clock warning. The
  lemmas bound the refilled amount, show it monotone in the clock, and show that the
  finiteness check of the result DTO can never fire.
\<close>

section \<open>Validators\<close>

definition MIN_MAX_CAPACITY :: pyfloat where
  "MIN_MAX_CAPACITY = flit (1 / 1000000000)"

definition validate_plain_number :: "pyval \<Rightarrow> pyfloat result" where
  "validate_plain_number value =
     (if is_bool_like value then Inl (ValueError ''must not be a boolean'')
      else if \<not> type_is_float value \<and> \<not> type_is_int value
        then Inl (ValueError ''must be an int or float'')
      else (case py_float value of
          Inl OverflowError \<Rightarrow> Inl (ValueError ''is too large to convert to float'')
        | r \<Rightarrow> r))"

definition validate_max_capacity_finite_positive :: "pyval \<Rightarrow> pyfloat result" where
  "validate_max_capacity_finite_positive value =
     bind_res (validate_plain_number value) (\<lambda>f.
       if \<not> isfinite f \<or> flt f MIN_MAX_CAPACITY
       then Inl (ValueError ''max_capacity must be finite and greater than 0'')
       else Inr f)"

definition validate_rate_per_sec_finite_positive :: "pyval \<Rightarrow> pyfloat result" where
  "validate_rate_per_sec_finite_positive value =
     bind_res (validate_plain_number value) (\<lambda>f.
       if \<not> isfinite f \<or> fle f (Fin 0)
       then Inl (ValueError ''Bucket rate is non-positive/non-finite'')
       else Inr f)"

definition calculate_rate_per_sec :: "pyfloat \<Rightarrow> int \<Rightarrow> pyfloat result" where
  "calculate_rate_per_sec max_capacity per_seconds =
     (case bind_res (float_of_int per_seconds) (fdiv max_capacity) of
        Inl e \<Rightarrow> Inl (ValueError ''Bucket rate is non-positive/non-finite'')
      | Inr rate \<Rightarrow> validate_rate_per_sec_finite_positive (VFloat rate))"

section \<open>The capacity calculation\<close>

record calculated_capacity =
  amount :: pyfloat
  is_fresh_start :: bool

text \<open>Construction of the DTO runs its finiteness validator.\<close>

definition mk_calculated_capacity :: "pyfloat \<Rightarrow> bool \<Rightarrow> calculated_capacity result" where
  "mk_calculated_capacity a fresh =
     (if isfinite a then Inr \<lparr>amount = a, is_fresh_start = fresh\<rparr>
      else Inl (ValueError ''amount must be finite''))"

text \<open>The elapsed time, clamped at zero when the clock went backwards.\<close>

definition time_passed :: "pyfloat \<Rightarrow> pyfloat \<Rightarrow> pyfloat" where
  "time_passed current_time last_checked =
     (let d = fsub current_time last_checked in if flt d (Fin 0) then Fin 0 else d)"

definition refilled ::
  "pyfloat \<Rightarrow> pyfloat \<Rightarrow> pyfloat \<Rightarrow> pyfloat \<Rightarrow> pyfloat \<Rightarrow> pyfloat" where
  "refilled now l c mx rate = fmin mx (fadd c (fmul (time_passed now l) rate))"

definition calculate_capacity ::
  "pyval \<Rightarrow> pyval \<Rightarrow> pyval \<Rightarrow> pyval \<Rightarrow> pyval \<Rightarrow> calculated_capacity result" where
  "calculate_capacity last_checked outdated_capacity current_time max_capacity rate_per_sec =
     (case py_float current_time of
        Inl _ \<Rightarrow> Inl (ValueError ''current_time must be finite and non-negative'')
      | Inr now \<Rightarrow>
        if \<not> isfinite now \<or> flt now (Fin 0)
        then Inl (ValueError ''current_time must be finite and non-negative'')
        else bind_res (validate_max_capacity_finite_positive max_capacity) (\<lambda>mx.
          bind_res (validate_rate_per_sec_finite_positive rate_per_sec) (\<lambda>rate.
            if last_checked = VNone \<or> outdated_capacity = VNone
            then mk_calculated_capacity mx True
            else (case bind_res (py_float last_checked) (\<lambda>l.
                         bind_res (py_float outdated_capacity) (\<lambda>c. Inr (l, c))) of
                Inl _ \<Rightarrow> Inl (ValueError ''Invalid last_checked or capacity values'')
              | Inr (l, c) \<Rightarrow>
                if \<not> (isfinite l \<and> isfinite c)
                then Inl (ValueError ''Invalid last_checked or capacity values'')
                else mk_calculated_capacity (refilled now l c mx rate) False))))"

section \<open>The backward-clock warning\<close>

text \<open>
  The module globals \<^verbatim>\<open>_backward_clock_warned\<close> and \<^verbatim>\<open>_backward_clock_last_warning_at\<close>; a
  warning is emitted when none was, or when 300 monotonic seconds have passed. The warning
  never changes the capacity, so \<open>calculate_capacity\<close> above leaves it out;
  \<open>backward_clock_step\<close> is the statement block it would execute on a negative elapsed time.
\<close>

record warn_state =
  backward_clock_warned :: bool
  backward_clock_last_warning_at :: "pyfloat option"

definition BACKWARD_CLOCK_WARNING_INTERVAL_SECONDS :: pyfloat where
  "BACKWARD_CLOCK_WARNING_INTERVAL_SECONDS = Fin 300"

definition should_warn :: "warn_state \<Rightarrow> pyfloat \<Rightarrow> bool" where
  "should_warn w now \<longleftrightarrow> \<not> backward_clock_warned w \<or>
     (case backward_clock_last_warning_at w of None \<Rightarrow> True
      | Some t \<Rightarrow> fle BACKWARD_CLOCK_WARNING_INTERVAL_SECONDS (fsub now t))"

definition backward_clock_step :: "pyfloat \<Rightarrow> pyfloat \<Rightarrow> pyfloat \<Rightarrow> warn_state \<Rightarrow> warn_state \<times> bool" where
  "backward_clock_step current_time last_checked mono_now w =
     (if flt (fsub current_time last_checked) (Fin 0) \<and> should_warn w mono_now
      then (w\<lparr>backward_clock_warned := True, backward_clock_last_warning_at := Some mono_now\<rparr>, True)
      else (w, False))"

text \<open>\<^verbatim>\<open>_bucket_context_from_bucket_id\<close>: model family and metric of a built-in bucket key.\<close>

fun split_colon :: "pystr \<Rightarrow> pystr \<Rightarrow> pystr list" where
  "split_colon acc [] = [rev acc]"
| "split_colon acc (c # s) = (if c = 58 then rev acc # split_colon [] s else split_colon (c # acc) s)"

definition bucket_context_from_bucket_id :: "pystr \<Rightarrow> pystr \<times> pystr" where
  "bucket_context_from_bucket_id bucket_id =
     (let parts = split_colon [] bucket_id in
      if 4 \<le> length parts \<and> parts ! 0 = ps ''memory'' then (parts ! 1, parts ! 2)
      else if 4 \<le> length parts \<and> parts ! 0 = ps ''sqlite'' then (parts ! 1, parts ! 2)
      else if 6 \<le> length parts \<and> parts ! 1 = ps ''rate_limiting'' \<and> parts ! 2 = ps ''bucket''
        then (parts ! 3, parts ! 4)
      else (ps ''<unknown>'', ps ''<unknown>''))"

section \<open>Lemmas\<close>

lemma MIN_MAX_CAPACITY_val: "MIN_MAX_CAPACITY = Fin (4835703278458517 * 2 powi (- 82))"
  by (simp add: MIN_MAX_CAPACITY_def lit_1e_9)

lemma MIN_MAX_CAPACITY_pos: "fle MIN_MAX_CAPACITY (Fin q) \<Longrightarrow> 0 < q"
proof -
  assume "fle MIN_MAX_CAPACITY (Fin q)"
  then have "4835703278458517 * 2 powi (- 82) \<le> q" by (simp only: MIN_MAX_CAPACITY_val fle_Fin)
  moreover have "0 < 4835703278458517 * (2::rat) powi (- 82)" by (intro mult_pos_pos) auto
  ultimately show ?thesis by linarith
qed

text \<open>A maximum and a rate that pass their validators.\<close>

definition max_ok :: "pyfloat \<Rightarrow> bool" where
  "max_ok mx \<longleftrightarrow> isfinite mx \<and> fle MIN_MAX_CAPACITY mx \<and> is_dbl mx"

definition rate_ok :: "pyfloat \<Rightarrow> bool" where
  "rate_ok r \<longleftrightarrow> isfinite r \<and> flt (Fin 0) r"

lemma max_okE:
  assumes "max_ok mx"
  obtains m where "mx = Fin m" "0 < m" "is_dbl (Fin m)"
  using assms by (auto simp: max_ok_def isfinite_Fin dest: MIN_MAX_CAPACITY_pos)

lemma rate_okE:
  assumes "rate_ok r"
  obtains q where "r = Fin q" "0 < q"
  using assms by (auto simp: rate_ok_def isfinite_Fin)

lemma validate_plain_number_VFloat [simp]: "validate_plain_number (VFloat f) = Inr f"
  by (simp add: validate_plain_number_def type_tests)

lemma validate_max_VFloat:
  "validate_max_capacity_finite_positive (VFloat f) = Inr g \<longleftrightarrow>
     g = f \<and> isfinite f \<and> fle MIN_MAX_CAPACITY f"
  using not_flt [of f MIN_MAX_CAPACITY]
  by (cases f) (auto simp: validate_max_capacity_finite_positive_def MIN_MAX_CAPACITY_val)

lemma validate_rate_VFloat:
  "validate_rate_per_sec_finite_positive (VFloat f) = Inr g \<longleftrightarrow> g = f \<and> rate_ok f"
  by (cases f) (auto simp: validate_rate_per_sec_finite_positive_def rate_ok_def)

lemma validate_max_ok: "max_ok f \<Longrightarrow> validate_max_capacity_finite_positive (VFloat f) = Inr f"
  by (simp add: validate_max_VFloat max_ok_def)

lemma time_passed_nonneg: "isfinite now \<Longrightarrow> isfinite l \<Longrightarrow> fle (Fin 0) (time_passed now l)"
  by (auto simp: time_passed_def Let_def isfinite_Fin not_flt)

lemma time_passed_mono:
  "isfinite now \<Longrightarrow> isfinite now' \<Longrightarrow> isfinite l \<Longrightarrow> fle now now' \<Longrightarrow>
   fle (time_passed now l) (time_passed now' l)"
proof -
  assume a: "isfinite now" "isfinite now'" "isfinite l" "fle now now'"
  have d: "fle (fsub now l) (fsub now' l)" using a by (auto simp: isfinite_Fin intro!: rnd_mono)
  have "fle (Fin 0) (time_passed now' l)" using a(2,3) by (rule time_passed_nonneg)
  moreover from this have "\<not> flt (fsub now l) (Fin 0) \<Longrightarrow> time_passed now' l = fsub now' l"
    using d by (cases "fsub now l"; cases "fsub now' l") (auto simp: time_passed_def Let_def)
  ultimately show ?thesis using d by (auto simp: time_passed_def [of now] Let_def)
qed

lemma refilled_bounds:
  assumes "isfinite now" "isfinite l" "is_dbl (Fin c)" "is_dbl (Fin m)" "rate_ok r"
  obtains a where "refilled now l (Fin c) (Fin m) r = Fin a" "min c m \<le> a" "a \<le> m"
    "is_dbl (Fin a)"
proof -
  from assms(5) obtain q where q: "r = Fin q" "0 < q" by (rule rate_okE)
  let ?p = "fmul (time_passed now l) r"
  have "fle (Fin 0) ?p"
    unfolding q(1) by (intro fmul_nonneg time_passed_nonneg assms q(2))
  then have "fle (Fin c) (fadd (Fin c) ?p)" by (intro fadd_nonneg assms)
  moreover have "is_dbl (refilled now l (Fin c) (Fin m) r)"
    unfolding refilled_def by (intro is_dbl_fmin assms is_dbl_fadd)
  ultimately show ?thesis using that
    by (cases "fadd (Fin c) ?p") (auto simp: refilled_def split: if_splits)
qed

lemma refilled_mono_time:
  assumes "isfinite now" "isfinite now'" "isfinite l" "fle now now'" "isfinite c" "rate_ok r"
    "isfinite mx"
  shows "fle (refilled now l c mx r) (refilled now' l c mx r)"
proof -
  from assms(6) obtain q where q: "r = Fin q" "0 < q" by (rule rate_okE)
  from assms(5) obtain c' where c: "c = Fin c'" by (auto simp: isfinite_Fin)
  show ?thesis unfolding refilled_def c q(1) using assms
    by (intro fmin_mono fadd_mono_right fmul_mono_left time_passed_mono q(2)) auto
qed

end
