(* ===== verification/Models.thy ===== *)
theory Models
  imports Capacity
begin

text \<open>
  \<^verbatim>\<open>_interfaces/_models.py\<close>: validated key segments, quotas, quota sets, usage mappings
  and reservations. Two things the file takes from outside are arguments of the model: the
  Unicode character database (a \<open>unicode_db\<close> record) and pydantic's strict coercion of a
  field (a \<open>pydantic\<close> record). A pydantic \<^verbatim>\<open>ValidationError\<close> is a \<^verbatim>\<open>ValueError\<close>, whatever
  exception the field validator raised.
\<close>

text \<open>pydantic collects the errors of the fields into one \<^verbatim>\<open>ValidationError\<close>.\<close>

definition as_validation_error :: "'a result \<Rightarrow> 'a result" where
  "as_validation_error r = (case r of Inl _ \<Rightarrow> Inl (ValueError ''ValidationError'') | Inr x \<Rightarrow> Inr x)"

lemma as_validation_error_Inr [simp]: "as_validation_error r = Inr x \<longleftrightarrow> r = Inr x"
  by (simp add: as_validation_error_def split: sum.splits)

section \<open>Key segments\<close>

record unicode_db =
  nfc :: "pystr \<Rightarrow> pystr"
  is_space :: "nat \<Rightarrow> bool"
  is_control :: "nat \<Rightarrow> bool"
  is_printable :: "nat \<Rightarrow> bool"

definition strip :: "unicode_db \<Rightarrow> pystr \<Rightarrow> pystr" where
  "strip udb s = rev (dropWhile (is_space udb) (rev (dropWhile (is_space udb) s)))"

definition MAX_MODEL_FAMILY_LENGTH :: nat where "MAX_MODEL_FAMILY_LENGTH = 256"
definition MAX_METRIC_LENGTH :: nat where "MAX_METRIC_LENGTH = 64"
definition MAX_ALIAS_LENGTH :: nat where "MAX_ALIAS_LENGTH = 256"
definition MAX_KEY_PREFIX_LENGTH :: nat where "MAX_KEY_PREFIX_LENGTH = 128"
definition MAX_RESERVATION_ID_LENGTH :: nat where "MAX_RESERVATION_ID_LENGTH = 128"
definition MAX_QUOTAS_PER_USAGE_QUOTAS :: nat where "MAX_QUOTAS_PER_USAGE_QUOTAS = 1000"
definition MAX_PER_SECONDS :: int where "MAX_PER_SECONDS = 2 ^ 31 - 1"

definition default_max_length_for_field :: "string \<Rightarrow> nat option" where
  "default_max_length_for_field field_name =
     (if field_name \<in> {''metric'', ''bucket_id metric''} then Some MAX_METRIC_LENGTH
      else if field_name = ''model_family'' then Some MAX_MODEL_FAMILY_LENGTH
      else if field_name \<in> {''model_name'', ''alias''} then Some MAX_ALIAS_LENGTH
      else if field_name = ''key_prefix'' then Some MAX_KEY_PREFIX_LENGTH
      else if field_name = ''reservation_id'' then Some MAX_RESERVATION_ID_LENGTH
      else None)"

definition segment_limit :: "string \<Rightarrow> nat option \<Rightarrow> nat option" where
  "segment_limit f m = (case m of None \<Rightarrow> default_max_length_for_field f | Some k \<Rightarrow> Some k)"

text \<open>The checks on a string, in the source's order.\<close>

definition validate_segment_str :: "unicode_db \<Rightarrow> pystr \<Rightarrow> string \<Rightarrow> nat option \<Rightarrow> pystr result" where
  "validate_segment_str udb value field_name max_len =
     (if value = [] then Inl (ValueError ''must not be empty'')
      else let normalized = nfc udb value;
               ml = segment_limit field_name max_len
      in if (case ml of None \<Rightarrow> False | Some m \<Rightarrow> m < length normalized)
           then Inl (CardinalityLimitExceededError ''must be at most max_length characters'')
         else if strip udb normalized = [] then Inl (ValueError ''must not be whitespace-only'')
         else if normalized \<noteq> strip udb normalized
           then Inl (ValueError ''must not contain leading/trailing whitespace'')
         else if list_ex (is_space udb) normalized
           then Inl (ValueError ''must not contain whitespace'')
         else if list_ex (is_control udb) normalized
           then Inl (ValueError ''must not contain Unicode control characters'')
         else if list_ex (\<lambda>c. \<not> is_printable udb c) normalized
           then Inl (ValueError ''must not contain non-printable characters'')
         else if 58 \<in> set normalized then Inl (ValueError ''must not contain colon'')
         else if 123 \<in> set normalized \<or> 125 \<in> set normalized
           then Inl (ValueError ''must not contain braces'')
         else Inr normalized)"

definition validate_key_segment ::
  "unicode_db \<Rightarrow> pyval \<Rightarrow> string \<Rightarrow> bool \<Rightarrow> nat option \<Rightarrow> pystr option result" where
  "validate_key_segment udb value field_name allow_none max_len =
     (if value = VNone \<and> allow_none then Inr None
      else case value of
        VStr s \<Rightarrow> bind_res (validate_segment_str udb s field_name max_len) (\<lambda>n. Inr (Some n))
      | _ \<Rightarrow> Inl (ValueError ''must be a str''))"

text \<open>The overload with \<^verbatim>\<open>allow_none=False\<close>, which returns a string.\<close>

definition validate_key_segment_req ::
  "unicode_db \<Rightarrow> pyval \<Rightarrow> string \<Rightarrow> nat option \<Rightarrow> pystr result" where
  "validate_key_segment_req udb value field_name max_len =
     bind_res (validate_key_segment udb value field_name False max_len)
       (\<lambda>r. case r of Some s \<Rightarrow> Inr s | None \<Rightarrow> Inl (ValueError ''must be a str''))"

text \<open>What a validated segment is free of.\<close>

definition clean_segment :: "unicode_db \<Rightarrow> pystr \<Rightarrow> bool" where
  "clean_segment udb s \<longleftrightarrow> s \<noteq> [] \<and>
     (\<forall>c \<in> set s. \<not> is_space udb c \<and> \<not> is_control udb c \<and> is_printable udb c \<and>
        c \<noteq> 58 \<and> c \<noteq> 123 \<and> c \<noteq> 125)"

lemma validate_key_segment_req_VStr [simp]:
  "validate_key_segment_req udb (VStr s) f m = validate_segment_str udb s f m"
  by (cases "validate_segment_str udb s f m")
     (auto simp: validate_key_segment_req_def validate_key_segment_def)

lemma validate_key_segment_req_Inr:
  "validate_key_segment_req udb v f m = Inr s \<longleftrightarrow>
     (\<exists>t. v = VStr t \<and> validate_segment_str udb t f m = Inr s)"
  by (cases v) (auto simp: validate_key_segment_req_def validate_key_segment_def bind_res_Inr_iff)

lemma strip_noop: "list_all (\<lambda>c. \<not> is_space udb c) s \<Longrightarrow> strip udb s = s"
proof -
  assume a: "list_all (\<lambda>c. \<not> is_space udb c) s"
  have d: "dropWhile (is_space udb) t = t" if "set t \<subseteq> set s" for t
    using a that by (cases t) (auto simp: list_all_iff)
  show ?thesis by (simp add: strip_def d)
qed

lemma strip_checks:
  "strip udb n \<noteq> [] \<and> n = strip udb n \<and> \<not> list_ex (is_space udb) n \<longleftrightarrow>
   n \<noteq> [] \<and> \<not> list_ex (is_space udb) n"
  using strip_noop [of udb n] by (auto simp: list_all_iff list_ex_iff)

lemma clean_segment_alt:
  "clean_segment udb n \<longleftrightarrow> n \<noteq> [] \<and> \<not> list_ex (is_space udb) n \<and> \<not> list_ex (is_control udb) n \<and>
     \<not> list_ex (\<lambda>c. \<not> is_printable udb c) n \<and> 58 \<notin> set n \<and> 123 \<notin> set n \<and> 125 \<notin> set n"
  by (auto simp: clean_segment_def list_ex_iff)

lemma validate_segment_str_Inr:
  "validate_segment_str udb t f m = Inr s \<longleftrightarrow>
     t \<noteq> [] \<and> s = nfc udb t \<and> clean_segment udb s \<and>
     (case segment_limit f m of None \<Rightarrow> True | Some k \<Rightarrow> length s \<le> k)"
proof -
  have "validate_segment_str udb t f m = Inr s \<longleftrightarrow> t \<noteq> [] \<and>
     \<not> (case segment_limit f m of None \<Rightarrow> False | Some k \<Rightarrow> k < length (nfc udb t)) \<and>
     (strip udb (nfc udb t) \<noteq> [] \<and> nfc udb t = strip udb (nfc udb t) \<and>
      \<not> list_ex (is_space udb) (nfc udb t)) \<and> \<not> list_ex (is_control udb) (nfc udb t) \<and>
     \<not> list_ex (\<lambda>c. \<not> is_printable udb c) (nfc udb t) \<and> 58 \<notin> set (nfc udb t) \<and>
     \<not> (123 \<in> set (nfc udb t) \<or> 125 \<in> set (nfc udb t)) \<and> s = nfc udb t"
    unfolding validate_segment_str_def Let_def
    by (simp only: if_Inl_Inr sum.inject conj_assoc not_not) (simp only: eq_commute [of s])
  also have "\<dots> \<longleftrightarrow> t \<noteq> [] \<and> s = nfc udb t \<and> clean_segment udb s \<and>
     (case segment_limit f m of None \<Rightarrow> True | Some k \<Rightarrow> length s \<le> k)"
    unfolding strip_checks clean_segment_alt by (cases "segment_limit f m") (auto simp: not_less)
  finally show ?thesis .
qed

lemma clean_segment_no_colon: "clean_segment udb s \<Longrightarrow> 58 \<notin> set s"
  by (auto simp: clean_segment_def)

section \<open>Quotas\<close>

record pydantic =
  strict_float :: "pyval \<Rightarrow> pyfloat option"
  strict_int :: "pyval \<Rightarrow> int option"

record quota =
  q_metric :: pystr
  q_limit :: pyfloat
  q_per_seconds :: int

type_synonym bucket_id = "pystr \<times> int"

definition reject_boolean :: "string \<Rightarrow> pyval \<Rightarrow> pyval result" where
  "reject_boolean field_name v =
     (if is_bool_like v then Inl (ValueError ''must not be a boolean'')
      else if field_name = ''limit'' \<and> \<not> isinstance_int_float v
        then Inl (ValueError ''limit must be int or float'')
      else Inr v)"

definition reject_non_numeric_per_seconds :: "pyval \<Rightarrow> pyval result" where
  "reject_non_numeric_per_seconds v =
     (if is_bool_like v then Inr v
      else case v of
        VSecondsIn i \<Rightarrow> Inr (VInt i)
      | VInt i \<Rightarrow> Inr (VInt i)
      | VIntSub _ \<Rightarrow> Inl (ValueError ''per_seconds must be an exact int number of seconds'')
      | VFloat f \<Rightarrow> Inr (VFloat f)
      | VFloatSub f \<Rightarrow> Inr (VFloatSub f)
      | _ \<Rightarrow> Inl (ValueError ''per_seconds must be int or float''))"

text \<open>
  A field is validated by its before-validators, pydantic's strict coercion with the
  declared bounds, then its after-validators. Before-validators run last-declared first.
\<close>

definition quota_limit_field :: "pydantic \<Rightarrow> pyval \<Rightarrow> pyfloat result" where
  "quota_limit_field pyd v =
     bind_res (reject_boolean ''limit'' v) (\<lambda>w.
       case strict_float pyd w of
         None \<Rightarrow> Inl (ValueError ''Input should be a valid number'')
       | Some f \<Rightarrow>
         if \<not> isfinite f then Inl (ValueError ''Input should be a finite number'')
         else if \<not> flt (Fin 0) f then Inl (ValueError ''Input should be greater than 0'')
         else if flt f MIN_MAX_CAPACITY then Inl (ValueError ''limit must be at least 1e-09'')
         else Inr f)"

definition quota_per_seconds_field :: "pydantic \<Rightarrow> pyval \<Rightarrow> int result" where
  "quota_per_seconds_field pyd v =
     bind_res (bind_res (reject_non_numeric_per_seconds v) (reject_boolean ''per_seconds'')) (\<lambda>w.
       case strict_int pyd w of
         None \<Rightarrow> Inl (ValueError ''Input should be a valid integer'')
       | Some i \<Rightarrow>
         if i \<le> 0 then Inl (ValueError ''Input should be greater than 0'')
         else if MAX_PER_SECONDS < i then Inl (ValueError ''per_seconds must be at most 2147483647'')
         else Inr i)"

definition mk_quota :: "unicode_db \<Rightarrow> pydantic \<Rightarrow> pyval \<Rightarrow> pyval \<Rightarrow> pyval \<Rightarrow> quota result" where
  "mk_quota udb pyd metric limit per_seconds = as_validation_error
     (bind_res (validate_key_segment_req udb metric ''metric'' None) (\<lambda>m.
        bind_res (quota_limit_field pyd limit) (\<lambda>l.
          bind_res (quota_per_seconds_field pyd per_seconds) (\<lambda>p.
            Inr \<lparr>q_metric = m, q_limit = l, q_per_seconds = p\<rparr>))))"

definition quota_revalidate :: "unicode_db \<Rightarrow> pydantic \<Rightarrow> quota \<Rightarrow> quota result" where
  "quota_revalidate udb pyd q =
     mk_quota udb pyd (VStr (q_metric q)) (VFloat (q_limit q)) (VInt (q_per_seconds q))"

definition quota_bucket_id :: "quota \<Rightarrow> bucket_id" where
  "quota_bucket_id q = (q_metric q, q_per_seconds q)"

section \<open>Quota sets\<close>

record usage_quotas =
  uq_frozen :: bool
  uq_metrics :: "(pystr, (int, quota) dict) dict"

definition unlimited_quotas :: usage_quotas where
  "unlimited_quotas = \<lparr>uq_frozen = False, uq_metrics = []\<rparr>"

definition is_unlimited_quotas :: "usage_quotas \<Rightarrow> bool" where
  "is_unlimited_quotas u \<longleftrightarrow> uq_metrics u = []"

definition add_metric :: "unicode_db \<Rightarrow> pydantic \<Rightarrow> quota \<Rightarrow> usage_quotas \<Rightarrow> usage_quotas result" where
  "add_metric udb pyd q u =
     (if uq_frozen u then Inl (TypeError ''UsageQuotas snapshot is frozen'')
      else bind_res (quota_revalidate udb pyd q) (\<lambda>q.
        let by_window = dict_get (uq_metrics u) (q_metric q) [] in
        if map_of by_window (q_per_seconds q) \<noteq> None
        then Inl (ValueError ''Metric with this window already exists'')
        else Inr (u\<lparr>uq_metrics := dict_set (q_metric q)
                        (dict_set (q_per_seconds q) q by_window) (uq_metrics u)\<rparr>)))"

text \<open>\<^verbatim>\<open>UsageQuotas(quotas)\<close>: at most 1000 entries, at least one, added one by one.\<close>

definition mk_usage_quotas :: "unicode_db \<Rightarrow> pydantic \<Rightarrow> quota list \<Rightarrow> bool \<Rightarrow> usage_quotas result" where
  "mk_usage_quotas udb pyd quotas freeze =
     (if MAX_QUOTAS_PER_USAGE_QUOTAS < length quotas
      then Inl (CardinalityLimitExceededError ''UsageQuotas accepts at most 1000 entries'')
      else if quotas = [] then Inl (ValueError ''Empty quota list provided'')
      else bind_res (for_each quotas (add_metric udb pyd) unlimited_quotas)
        (\<lambda>u. Inr (u\<lparr>uq_frozen := freeze\<rparr>)))"

definition uq_iter :: "usage_quotas \<Rightarrow> quota list" where
  "uq_iter u = concat (map (\<lambda>p. map snd (snd p)) (uq_metrics u))"

definition uq_names :: "usage_quotas \<Rightarrow> pystr list" where
  "uq_names u = dict_keys (uq_metrics u)"

definition uq_get_quotas :: "usage_quotas \<Rightarrow> pystr \<Rightarrow> quota list" where
  "uq_get_quotas u m = map snd (dict_get (uq_metrics u) m [])"

definition frozen_snapshot :: "unicode_db \<Rightarrow> pydantic \<Rightarrow> usage_quotas \<Rightarrow> usage_quotas result" where
  "frozen_snapshot udb pyd u =
     (if is_unlimited_quotas u then Inr (unlimited_quotas\<lparr>uq_frozen := True\<rparr>)
      else mk_usage_quotas udb pyd (uq_iter u) True)"

section \<open>Usage mappings\<close>

type_synonym usage = "(pystr, pyfloat) dict"

definition coerce_usage_value :: "pyval \<Rightarrow> pyfloat result" where
  "coerce_usage_value raw =
     (if is_bool_like raw then Inl (ValueError ''must not be a boolean'')
      else if \<not> isinstance_int_float raw
        then Inl (ValueError ''must be finite and be int or float'')
      else case py_float raw of
        Inl OverflowError \<Rightarrow> Inl (ValueError ''too large to fit in IEEE 754 double'')
      | Inl _ \<Rightarrow> Inl (ValueError ''must be finite'')
      | Inr value \<Rightarrow> if \<not> isfinite value then Inl (ValueError ''must be finite'') else Inr value)"

text \<open>The loop of \<^verbatim>\<open>frozen_usage\<close> over the items of a mapping.\<close>

definition frozen_usage_item :: "unicode_db \<Rightarrow> pyval \<times> pyval \<Rightarrow> usage \<Rightarrow> usage result" where
  "frozen_usage_item udb item converted =
     (case item of (metric, amt) \<Rightarrow>
        if (case metric of VStr s \<Rightarrow> s = [] | _ \<Rightarrow> True)
        then Inl (ValueError ''Usage metric key must be a non-empty string'')
        else bind_res (validate_key_segment_req udb metric ''metric'' None) (\<lambda>m.
          if m \<in> set (dict_keys converted)
          then Inl (ValueError ''usage must not contain duplicate metric keys'')
          else bind_res (coerce_usage_value amt) (\<lambda>a. Inr (dict_set m a converted))))"

definition frozen_usage :: "unicode_db \<Rightarrow> pyval \<Rightarrow> usage result" where
  "frozen_usage udb v = (case v of
      VDict items \<Rightarrow> for_each items (frozen_usage_item udb) []
    | _ \<Rightarrow> Inl (ValueError ''usage must be a mapping''))"

section \<open>Reservations\<close>

record reservation =
  r_id :: pystr
  r_usage :: usage
  r_model_family :: pystr
  r_bucket_ids :: "bucket_id set option"
  r_model :: "pystr option"
  r_is_unlimited :: bool
  r_limiter_instance_id :: pystr
  r_created_at :: "pyfloat option"

definition UNLIMITED_FLAG :: pystr where
  "UNLIMITED_FLAG = ps ''__rate_limiting_disabled__''"

definition normalize_reserved_usage :: "unicode_db \<Rightarrow> pyval \<Rightarrow> usage result" where
  "normalize_reserved_usage udb v =
     bind_res (frozen_usage udb v) (\<lambda>u.
       if list_ex (\<lambda>p. \<not> isfinite (snd p)) u
       then Inl (ValueError ''Reserved usage value must be finite'')
       else if list_ex (\<lambda>p. flt (snd p) (Fin 0)) u
       then Inl (ValueError ''Reserved usage value must be non-negative'')
       else Inr u)"

definition normalize_bucket_id :: "unicode_db \<Rightarrow> pyval \<Rightarrow> bucket_id result" where
  "normalize_bucket_id udb item =
     (case (case item of VTuple xs \<Rightarrow> xs | VList xs \<Rightarrow> xs | _ \<Rightarrow> []) of
        [metric, per_seconds] \<Rightarrow>
          bind_res (validate_key_segment_req udb metric ''bucket_id metric'' None) (\<lambda>m.
            if is_bool_like per_seconds
            then Inl (ValueError ''bucket_id per_seconds must not be a boolean'')
            else case per_seconds of
              VInt p \<Rightarrow>
                if p \<le> 0 then Inl (ValueError ''bucket_id per_seconds must be a positive integer'')
                else if MAX_PER_SECONDS < p
                then Inl (ValueError ''bucket_id per_seconds must be at most 2147483647'')
                else Inr (m, p)
            | _ \<Rightarrow> Inl (ValueError ''bucket_id per_seconds must be a positive integer''))
      | _ \<Rightarrow> Inl (ValueError ''Each bucket_id must be a (metric, per_seconds) pair''))"

definition normalize_bucket_ids :: "unicode_db \<Rightarrow> pyval \<Rightarrow> bucket_id set option result" where
  "normalize_bucket_ids udb v = (case v of
      VNone \<Rightarrow> Inr None
    | VList items \<Rightarrow> bind_res (for_each items (\<lambda>it acc.
        bind_res (normalize_bucket_id udb it) (\<lambda>b. Inr (insert b acc))) {}) (\<lambda>S. Inr (Some S))
    | VTuple items \<Rightarrow> bind_res (for_each items (\<lambda>it acc.
        bind_res (normalize_bucket_id udb it) (\<lambda>b. Inr (insert b acc))) {}) (\<lambda>S. Inr (Some S))
    | _ \<Rightarrow> Inl (ValueError ''Input should be a valid frozenset''))"

definition validate_created_at :: "pyval \<Rightarrow> pyfloat option result" where
  "validate_created_at v =
     (if v = VNone then Inr None
      else if is_bool_like v \<or> \<not> isinstance_int_float v
        then Inl (ValueError ''created_at_seconds must be finite'')
      else bind_res (py_float v) (\<lambda>f.
        if isfinite f then Inr (Some f) else Inl (ValueError ''created_at_seconds must be finite'')))"

text \<open>The coupling of the unlimited flag to its canonical shape.\<close>

definition require_sentinel_when_unlimited ::
  "bool \<Rightarrow> pystr \<Rightarrow> usage \<Rightarrow> bucket_id set option \<Rightarrow> bool result" where
  "require_sentinel_when_unlimited value family u bucket_ids =
     (if \<not> value then Inr value
      else if family \<noteq> UNLIMITED_FLAG
        then Inl (ValueError ''is_unlimited=True requires the sentinel model_family'')
      else if u \<noteq> [] then Inl (ValueError ''is_unlimited=True requires empty usage'')
      else if bucket_ids \<noteq> None then Inl (ValueError ''is_unlimited=True requires bucket_ids=None'')
      else Inr value)"

text \<open>
  Construction of a \<^verbatim>\<open>CapacityReservation\<close>. An OverflowError of \<^verbatim>\<open>float(created_at)\<close> is not a
  ValueError and leaves pydantic unwrapped; every other failure is a ValidationError.
\<close>

definition mk_reservation ::
  "unicode_db \<Rightarrow> pyval \<Rightarrow> pyval \<Rightarrow> pyval \<Rightarrow> pyval \<Rightarrow> pystr option \<Rightarrow> bool \<Rightarrow> pyval \<Rightarrow> pyval
   \<Rightarrow> reservation result" where
  "mk_reservation udb rid u family bucket_ids model unlimited limiter_id created =
     (if validate_created_at created = Inl OverflowError then Inl OverflowError
      else as_validation_error
       (bind_res (validate_key_segment_req udb rid ''reservation_id'' None) (\<lambda>i.
        bind_res (normalize_reserved_usage udb u) (\<lambda>us.
        bind_res (validate_key_segment_req udb family ''model_family'' None) (\<lambda>fam.
        bind_res (normalize_bucket_ids udb bucket_ids) (\<lambda>bs.
        bind_res (require_sentinel_when_unlimited unlimited fam us bs) (\<lambda>unl.
        bind_res (validate_key_segment_req udb limiter_id ''limiter_instance_id'' None) (\<lambda>lid.
        bind_res (validate_created_at created) (\<lambda>cr.
          Inr \<lparr>r_id = i, r_usage = us, r_model_family = fam, r_bucket_ids = bs, r_model = model,
                r_is_unlimited = unl, r_limiter_instance_id = lid, r_created_at = cr\<rparr>)))))))))"

section \<open>Model configuration\<close>

text \<open>
  \<^verbatim>\<open>PerModelConfig\<close> without its usage counter, which is application code. The quotas are
  stored as a frozen snapshot.
\<close>

record per_model_config =
  cfg_quotas :: usage_quotas
  cfg_model_family :: "pystr option"

definition mk_config :: "unicode_db \<Rightarrow> pydantic \<Rightarrow> usage_quotas \<Rightarrow> pyval \<Rightarrow> per_model_config result" where
  "mk_config udb pyd quotas family = as_validation_error
     (bind_res (frozen_snapshot udb pyd quotas) (\<lambda>q.
        bind_res (validate_key_segment udb family ''model_family'' True None) (\<lambda>f.
          Inr \<lparr>cfg_quotas = q, cfg_model_family = f\<rparr>)))"

definition get_model_family :: "per_model_config \<Rightarrow> pystr result" where
  "get_model_family cfg = (case cfg_model_family cfg of
      None \<Rightarrow> Inl (ValueError ''model_family must be defined'')
    | Some f \<Rightarrow> if f = [] then Inl (ValueError ''model_family must be defined'') else Inr f)"

definition config_is_unlimited :: "per_model_config \<Rightarrow> bool" where
  "config_is_unlimited cfg = is_unlimited_quotas (cfg_quotas cfg)"

text \<open>\<^verbatim>\<open>cfg.revalidate()\<close>, with the family taken from \<^verbatim>\<open>model_copy(update=...)\<close> or kept.\<close>

definition config_with_family ::
  "unicode_db \<Rightarrow> pydantic \<Rightarrow> per_model_config \<Rightarrow> pystr option \<Rightarrow> per_model_config result" where
  "config_with_family udb pyd cfg fam =
     mk_config udb pyd (cfg_quotas cfg) (case fam of None \<Rightarrow> VNone | Some f \<Rightarrow> VStr f)"

section \<open>Lemmas\<close>

lemma coerce_usage_value_Inr: "coerce_usage_value v = Inr a \<Longrightarrow> isfinite a \<and> py_float v = Inr a"
  by (auto simp: coerce_usage_value_def split: if_splits sum.splits exn.splits)

lemma coerce_usage_value_VFloat [simp]:
  "coerce_usage_value (VFloat a) = (if isfinite a then Inr a else Inl (ValueError ''must be finite''))"
  by (simp add: coerce_usage_value_def type_tests)

lemma require_sentinel_Inr:
  "require_sentinel_when_unlimited v fam u bs = Inr w \<longleftrightarrow>
     w = v \<and> (v \<longrightarrow> fam = UNLIMITED_FLAG \<and> u = [] \<and> bs = None)"
  by (auto simp: require_sentinel_when_unlimited_def)

lemma mk_reservation_Inr:
  "mk_reservation udb rid u family bids model unlimited lid created = Inr r \<Longrightarrow>
     validate_key_segment_req udb rid ''reservation_id'' None = Inr (r_id r) \<and>
     normalize_reserved_usage udb u = Inr (r_usage r) \<and>
     validate_key_segment_req udb family ''model_family'' None = Inr (r_model_family r) \<and>
     normalize_bucket_ids udb bids = Inr (r_bucket_ids r) \<and>
     validate_created_at created = Inr (r_created_at r) \<and>
     require_sentinel_when_unlimited unlimited (r_model_family r) (r_usage r) (r_bucket_ids r)
       = Inr (r_is_unlimited r)"
  by (auto simp: mk_reservation_def res_simps)

lemma quota_limit_field_Inr:
  "quota_limit_field pyd v = Inr f \<Longrightarrow> isfinite f \<and> fle MIN_MAX_CAPACITY f"
proof -
  assume "quota_limit_field pyd v = Inr f"
  then have f: "isfinite f" "\<not> flt f MIN_MAX_CAPACITY"
    by (auto simp: quota_limit_field_def res_simps split: option.split_asm)
  from f(1) have "f \<noteq> NaN" by auto
  then show ?thesis using f not_flt [of f MIN_MAX_CAPACITY] by (simp add: MIN_MAX_CAPACITY_val)
qed

lemma quota_per_seconds_field_Inr:
  "quota_per_seconds_field pyd v = Inr p \<Longrightarrow> 0 < p \<and> p \<le> MAX_PER_SECONDS"
  by (auto simp: quota_per_seconds_field_def res_simps split: option.split_asm)

lemma mk_quota_Inr:
  "mk_quota udb pyd m l p = Inr q \<longleftrightarrow>
     validate_key_segment_req udb m ''metric'' None = Inr (q_metric q) \<and>
     quota_limit_field pyd l = Inr (q_limit q) \<and>
     quota_per_seconds_field pyd p = Inr (q_per_seconds q)"
  by (cases q) (auto simp: mk_quota_def bind_res_Inr_iff)

text \<open>The shape of a quota set: distinct metrics, distinct windows, keys that match the quota.\<close>

definition uq_wf :: "usage_quotas \<Rightarrow> bool" where
  "uq_wf u \<longleftrightarrow> distinct (dict_keys (uq_metrics u)) \<and>
     (\<forall>(m, ws) \<in> set (uq_metrics u). distinct (dict_keys ws) \<and>
        (\<forall>(p, q) \<in> set ws. q_metric q = m \<and> q_per_seconds q = p))"

end
