(* ===== verification/Validation.thy ===== *)
theory Validation
  imports Models
begin

text \<open>
  \<^verbatim>\<open>_validation.py\<close>: the checks the limiters and the exported backends run on usage
  mappings, timeouts, limits, extra usage and configurations before touching any state.
\<close>

type_synonym raw_usage = "(pystr, pyval) dict"

section \<open>Usage mappings against an expected key set\<close>

definition validate_usage_item :: "unicode_db \<Rightarrow> pystr \<times> pyval \<Rightarrow> unit \<Rightarrow> unit result" where
  "validate_usage_item udb item u =
     (case item of (metric, raw) \<Rightarrow>
        bind_res (validate_key_segment_req udb (VStr metric) ''metric'' None) (\<lambda>_.
          bind_res (coerce_usage_value raw) (\<lambda>a.
            if flt a (Fin 0) then Inl (ValueError ''must be non-negative'') else Inr ())))"

definition validate_usage_mapping :: "unicode_db \<Rightarrow> raw_usage \<Rightarrow> pystr set \<Rightarrow> unit result" where
  "validate_usage_mapping udb usage expected_keys =
     (if set (dict_keys usage) \<noteq> expected_keys
      then Inl (ValueError ''Usage keys do not match'')
      else for_each usage (validate_usage_item udb) ())"

definition validate_acquire_usage :: "unicode_db \<Rightarrow> raw_usage \<Rightarrow> usage_quotas \<Rightarrow> unit result" where
  "validate_acquire_usage udb usage quotas =
     validate_usage_mapping udb usage (set (uq_names quotas))"

definition validate_refund_usage :: "unicode_db \<Rightarrow> raw_usage \<Rightarrow> pystr set \<Rightarrow> unit result" where
  "validate_refund_usage udb actual_usage reservation_keys =
     validate_usage_mapping udb actual_usage reservation_keys"

definition validate_backend_usage :: "unicode_db \<Rightarrow> raw_usage \<Rightarrow> pystr set \<Rightarrow> unit result" where
  "validate_backend_usage udb usage backend_metric_names =
     validate_usage_mapping udb usage backend_metric_names"

definition validate_usage_values_non_negative :: "usage \<Rightarrow> unit result" where
  "validate_usage_values_non_negative usage =
     for_each usage (\<lambda>(m, a) _. if flt a (Fin 0)
       then Inl (ValueError ''must be non-negative'') else Inr ()) ()"

definition validate_backend_refund_usage_for_bucket_ids ::
  "unicode_db \<Rightarrow> raw_usage \<Rightarrow> raw_usage \<Rightarrow> bucket_id set \<Rightarrow> bucket_id set \<Rightarrow> unit result" where
  "validate_backend_refund_usage_for_bucket_ids udb reserved_usage actual_usage bucket_ids
       backend_bucket_ids =
     (if bucket_ids = {}
      then (if reserved_usage \<noteq> [] \<or> actual_usage \<noteq> []
            then Inl (ValueError ''bucket_ids cannot be empty when refund usage is non-empty'')
            else Inr ())
      else if bucket_ids - backend_bucket_ids \<noteq> {}
      then Inl (ValueError ''Refund bucket ids not found in backend'')
      else bind_res (validate_usage_mapping udb reserved_usage (fst ` bucket_ids)) (\<lambda>_.
        validate_refund_usage udb actual_usage (set (dict_keys reserved_usage))))"

text \<open>\<^verbatim>\<open>frozendict({metric: float(amount) ...})\<close> of a mapping.\<close>

definition usage_floats :: "raw_usage \<Rightarrow> usage result" where
  "usage_floats usage = for_each usage (\<lambda>(m, v) acc.
     bind_res (py_float v) (\<lambda>a. Inr (acc @ [(m, a)]))) []"

section \<open>Scalars\<close>

definition validate_timeout :: "pyval \<Rightarrow> pyfloat option result" where
  "validate_timeout timeout =
     (if timeout = VNone then Inr None
      else if is_bool_like timeout then Inl (ValueError ''timeout must not be a boolean'')
      else if \<not> isinstance_int_float timeout
        then Inl (ValueError ''timeout must be finite int, float, or None'')
      else case py_float timeout of
        Inl (TypeError _) \<Rightarrow> Inl (ValueError ''timeout must be finite or None'')
      | Inl (ValueError _) \<Rightarrow> Inl (ValueError ''timeout must be finite or None'')
      | Inl e \<Rightarrow> Inl e
      | Inr v \<Rightarrow>
        if \<not> isfinite v then Inl (ValueError ''timeout must be finite or None'')
        else if flt v (Fin 0) then Inl (ValueError ''timeout must be non-negative or None'')
        else Inr (Some v))"

definition validate_sleep_interval :: "pyval \<Rightarrow> pyfloat option result" where
  "validate_sleep_interval sleep_interval =
     (if sleep_interval = VNone then Inr None
      else if is_bool_like sleep_interval
        then Inl (ValueError ''sleep_interval must not be a boolean'')
      else if \<not> isinstance_int_float sleep_interval
        then Inl (ValueError ''sleep_interval must be an int or float'')
      else case py_float sleep_interval of
        Inl (TypeError _) \<Rightarrow> Inl (ValueError ''sleep_interval must be finite and greater than 0'')
      | Inl (ValueError _) \<Rightarrow> Inl (ValueError ''sleep_interval must be finite and greater than 0'')
      | Inl e \<Rightarrow> Inl e
      | Inr v \<Rightarrow>
        if \<not> isfinite v \<or> fle v (Fin 0)
        then Inl (ValueError ''sleep_interval must be finite and greater than 0'')
        else Inr (Some v))"

definition validate_max_capacity_value :: "pyval \<Rightarrow> pyfloat result" where
  "validate_max_capacity_value value =
     (if is_bool_like value then Inl (ValueError ''max_capacity must not be a boolean'')
      else if \<not> isinstance_int_float value
        then Inl (ValueError ''max_capacity must be an int or float'')
      else case validate_max_capacity_finite_positive value of
        Inl (ValueError _) \<Rightarrow> Inl (ValueError ''max_capacity must be finite and greater than 0'')
      | r \<Rightarrow> r)"

definition validate_per_seconds :: "pyval \<Rightarrow> int result" where
  "validate_per_seconds per_seconds =
     (if is_bool_like per_seconds then Inl (ValueError ''per_seconds must not be a boolean'')
      else case per_seconds of
        VInt p \<Rightarrow>
          if p \<le> 0 then Inl (ValueError ''per_seconds must be a positive integer exact int'')
          else if MAX_PER_SECONDS < p
          then Inl (ValueError ''per_seconds must be at most 2147483647 seconds'')
          else Inr p
      | _ \<Rightarrow> Inl (ValueError ''per_seconds must be a positive integer exact int''))"

definition validate_metric :: "unicode_db \<Rightarrow> pyval \<Rightarrow> nat \<Rightarrow> pystr result" where
  "validate_metric udb metric max_len = validate_key_segment_req udb metric ''metric'' (Some max_len)"

definition validate_model_family :: "unicode_db \<Rightarrow> pyval \<Rightarrow> nat \<Rightarrow> pystr result" where
  "validate_model_family udb family max_len =
     validate_key_segment_req udb family ''model_family'' (Some max_len)"

definition validate_key_prefix :: "unicode_db \<Rightarrow> pyval \<Rightarrow> pystr result" where
  "validate_key_prefix udb v =
     validate_key_segment_req udb v ''key_prefix'' (Some MAX_KEY_PREFIX_LENGTH)"

definition validate_reservation_id :: "unicode_db \<Rightarrow> pyval \<Rightarrow> pystr result" where
  "validate_reservation_id udb v =
     validate_key_segment_req udb v ''reservation_id'' (Some MAX_RESERVATION_ID_LENGTH)"

definition MAX_TOTAL_KEY_LENGTH :: nat where "MAX_TOTAL_KEY_LENGTH = 8192"

definition validate_total_key_length :: "pystr \<Rightarrow> pystr result" where
  "validate_total_key_length key =
     (if MAX_TOTAL_KEY_LENGTH < length key
      then Inl (CardinalityLimitExceededError ''Redis key must be at most 8192 characters'')
      else Inr key)"

definition validate_model_name :: "unicode_db \<Rightarrow> pyval \<Rightarrow> nat \<Rightarrow> pystr result" where
  "validate_model_name udb model_name max_alias_length =
     (case model_name of
        VStr s \<Rightarrow>
          if max_alias_length < length s
          then Inl (CardinalityLimitExceededError ''max_alias_length exceeded'')
          else if s = [] then Inl (ValueError ''model_name cannot be empty'')
          else if strip udb s = [] then Inl (ValueError ''model_name cannot be whitespace-only'')
          else validate_key_segment_req udb (VStr s) ''model_name'' (Some max_alias_length)
      | _ \<Rightarrow> Inl (ValueError ''model_name must be a string''))"

section \<open>Extra usage and response usage\<close>

definition coerce_extra_usage_value :: "pyval \<Rightarrow> pyfloat result" where
  "coerce_extra_usage_value raw = coerce_usage_value raw"

text \<open>The items of the mapping that \<^verbatim>\<open>validate_extra_usage\<close> was given, converted.\<close>

definition validate_extra_item :: "unicode_db \<Rightarrow> pyval \<times> pyval \<Rightarrow> usage \<Rightarrow> usage result" where
  "validate_extra_item udb item converted = (case item of (metric, raw) \<Rightarrow>
     bind_res (validate_key_segment_req udb metric ''metric'' None) (\<lambda>m.
       if m \<in> set (dict_keys converted)
       then Inl (ValueError ''extra_usage must not contain duplicate metric keys'')
       else bind_res (coerce_extra_usage_value raw) (\<lambda>a.
         if flt a (Fin 0) then Inl (ValueError ''extra_usage value must be non-negative'')
         else Inr (dict_set m a converted))))"

definition validate_extra_usage :: "unicode_db \<Rightarrow> pyval \<Rightarrow> usage option result" where
  "validate_extra_usage udb extra_usage = (case extra_usage of
      VNone \<Rightarrow> Inr None
    | VDict items \<Rightarrow>
        if \<not> distinct (map fst items)
        then Inl (ValueError ''extra_usage must not contain duplicate keys'')
        else bind_res (for_each items (validate_extra_item udb) []) (\<lambda>u. Inr (Some u))
    | _ \<Rightarrow> Inl (ValueError ''extra_usage must be a mapping or None''))"

definition merge_extra_item ::
  "unicode_db \<Rightarrow> bool \<Rightarrow> pystr \<times> pyval \<Rightarrow> usage \<Rightarrow> usage result" where
  "merge_extra_item udb allow_new_keys item merged = (case item of (metric, raw) \<Rightarrow>
     bind_res (validate_key_segment_req udb (VStr metric) ''metric'' None) (\<lambda>m.
       if \<not> allow_new_keys \<and> m \<notin> set (dict_keys merged)
       then Inl (ValueError ''extra_usage key is not in counter output'')
       else bind_res (coerce_extra_usage_value raw) (\<lambda>a.
         if flt a (Fin 0) then Inl (ValueError ''extra_usage value must be non-negative'')
         else let v = fadd (dict_get merged m (Fin 0)) a in
           if \<not> isfinite v
           then Inl (ValueError ''extra_usage value too large to fit in IEEE 754 double'')
           else Inr (dict_set m v merged))))"

text \<open>The result is frozen again, which re-validates every key and value.\<close>

definition merge_extra_usage_gen ::
  "unicode_db \<Rightarrow> bool \<Rightarrow> usage \<Rightarrow> raw_usage option \<Rightarrow> usage result" where
  "merge_extra_usage_gen udb allow_new_keys usage extra_usage = (case extra_usage of
      None \<Rightarrow> Inr usage
    | Some items \<Rightarrow>
        if items = [] then Inr usage
        else bind_res (for_each items (merge_extra_item udb allow_new_keys) usage) (\<lambda>merged.
          frozen_usage udb (VDict (map (\<lambda>(m, a). (VStr m, VFloat a)) merged))))"

definition merge_extra_usage :: "unicode_db \<Rightarrow> usage \<Rightarrow> raw_usage option \<Rightarrow> usage result" where
  "merge_extra_usage udb usage extra = merge_extra_usage_gen udb False usage extra"

definition merge_extra_usage_unrestricted ::
  "unicode_db \<Rightarrow> usage \<Rightarrow> raw_usage option \<Rightarrow> usage result" where
  "merge_extra_usage_unrestricted udb usage extra = merge_extra_usage_gen udb True usage extra"

text \<open>
  A usage payload as \<^verbatim>\<open>extract_total_tokens\<close> inspects it: its \<^verbatim>\<open>total_tokens\<close> attribute if it
  has one, whether it has one of the token attributes, and its items if it is a mapping.
\<close>

record usage_payload =
  total_tokens_attr :: "pyval option"
  has_token_attrs :: bool
  mapping_items :: "raw_usage option"

definition extract_total_tokens :: "usage_payload \<Rightarrow> pyfloat result" where
  "extract_total_tokens u =
     bind_res (case total_tokens_attr u of
         Some v \<Rightarrow> Inr v
       | None \<Rightarrow> (case mapping_items u of
           None \<Rightarrow> if has_token_attrs u
             then Inl (ValueError ''usage object has no total_tokens; sum them manually'')
             else Inl (ValueError ''usage must be an object with total_tokens or a mapping'')
         | Some d \<Rightarrow> (case map_of d (ps ''total_tokens'') of
             None \<Rightarrow> Inl (ValueError ''total_tokens key not found'')
           | Some v \<Rightarrow> Inr v)))
       (\<lambda>v. if v = VNone then Inl (ValueError ''total_tokens is None'')
        else if is_bool_like v then Inl (ValueError ''total_tokens must not be a boolean'')
        else if \<not> isinstance_int_float v
          then Inl (ValueError ''total_tokens must be an int or float'')
        else case py_float v of
          Inl OverflowError \<Rightarrow> Inl (ValueError ''total_tokens too large to fit in IEEE 754 double'')
        | Inl _ \<Rightarrow> Inl (ValueError ''total_tokens must be a finite non-negative number'')
        | Inr f \<Rightarrow>
          if \<not> isfinite f then Inl (ValueError ''total_tokens must be a finite non-negative number'')
          else if flt f (Fin 0)
            then Inl (ValueError ''total_tokens must be a finite non-negative number'')
          else Inr f)"

section \<open>Resolving a configuration\<close>

text \<open>A configuration is a fixed one or a getter supplied by the application.\<close>

datatype config_source = StaticConfig per_model_config
  | ConfigGetter "pystr \<Rightarrow> per_model_config result"

definition resolve_config ::
  "unicode_db \<Rightarrow> pydantic \<Rightarrow> config_source \<Rightarrow> pyval \<Rightarrow> nat \<Rightarrow> nat \<Rightarrow> per_model_config result" where
  "resolve_config udb pyd src model_name max_model_family_length max_alias_length =
     bind_res (validate_model_name udb model_name max_alias_length) (\<lambda>name.
       bind_res (case src of StaticConfig c \<Rightarrow> Inr c | ConfigGetter g \<Rightarrow> g name) (\<lambda>r0.
         bind_res (config_with_family udb pyd r0 (cfg_model_family r0)) (\<lambda>r.
           bind_res (config_with_family udb pyd r
               (case cfg_model_family r of
                  None \<Rightarrow> Some name | Some f \<Rightarrow> if f = [] then Some name else Some f)) (\<lambda>resolved.
             bind_res (get_model_family resolved) (\<lambda>fam.
               bind_res (validate_key_segment_req udb (VStr fam) ''model_family''
                   (Some max_model_family_length)) (\<lambda>_. Inr resolved))))))"

section \<open>Lemmas\<close>

lemma for_each_unit_Inr:
  "for_each xs (\<lambda>x (u :: unit). f x) u = Inr w \<longleftrightarrow> (\<forall>x \<in> set xs. \<exists>v. f x = Inr v)"
  by (induction xs arbitrary: u) (auto simp: bind_res_Inr_iff)

lemma validate_usage_item_Inr:
  "validate_usage_item udb (m, v) u = Inr w \<longleftrightarrow>
     (\<exists>s. validate_segment_str udb m ''metric'' None = Inr s) \<and>
     (\<exists>a. coerce_usage_value v = Inr a \<and> fle (Fin 0) a)"
proof -
  have "coerce_usage_value v = Inr a \<Longrightarrow> (\<not> flt a (Fin 0)) = fle (Fin 0) a" for a
    by (drule coerce_usage_value_Inr) (auto simp: isfinite_Fin)
  then show ?thesis by (auto simp: validate_usage_item_def bind_res_Inr_iff)
qed

definition usage_item_ok :: "unicode_db \<Rightarrow> pystr \<times> pyval \<Rightarrow> bool" where
  "usage_item_ok udb p \<longleftrightarrow> (\<exists>s. validate_segment_str udb (fst p) ''metric'' None = Inr s) \<and>
     (\<exists>a. coerce_usage_value (snd p) = Inr a \<and> fle (Fin 0) a)"

lemma validate_usage_mapping_Inr:
  "validate_usage_mapping udb us ks = Inr u \<longleftrightarrow>
     set (dict_keys us) = ks \<and> (\<forall>p \<in> set us. usage_item_ok udb p)"
proof -
  have "for_each us (validate_usage_item udb) () = Inr u \<longleftrightarrow>
    (\<forall>x \<in> set us. \<exists>v. validate_usage_item udb x () = Inr v)"
    using for_each_unit_Inr [of us "\<lambda>x. validate_usage_item udb x ()" "()" u] by simp
  moreover have "(\<exists>v. validate_usage_item udb x () = Inr v) \<longleftrightarrow> usage_item_ok udb x" for x
    using validate_usage_item_Inr [of udb "fst x" "snd x" "()"] by (simp add: usage_item_ok_def)
  ultimately show ?thesis
    unfolding validate_usage_mapping_def if_Inl_Inr by simp
qed

lemma usage_floats_gen:
  "for_each us (\<lambda>(m, v) acc. bind_res (py_float v) (\<lambda>a. Inr (acc @ [(m, a)]))) acc = Inr fs \<longleftrightarrow>
     (\<exists>gs. fs = acc @ gs \<and> list_all2 (\<lambda>(m, v) (n, a). n = m \<and> py_float v = Inr a) us gs)"
  by (induction us arbitrary: acc)
     (auto simp: bind_res_Inr_iff list_all2_Cons1 split: prod.splits)

lemma usage_floats_Inr:
  "usage_floats us = Inr fs \<longleftrightarrow>
     list_all2 (\<lambda>(m, v) (n, a). n = m \<and> py_float v = Inr a) us fs"
  by (simp add: usage_floats_def usage_floats_gen)

end
