(* ===== verification/MemoryBucket.thy ===== *)
theory MemoryBucket
  imports Validation
begin

text \<open>
  \<^verbatim>\<open>_limiter_backends/_memory/_bucket.py\<close>: the in-memory token bucket. Its state is the
  stored capacity and the time it was stored at (both absent until the first write), the
  maximum and the refill rate. Operations mutate the bucket and may raise, so they are
  state-passing functions that keep the mutations made before an exception.
\<close>

record memory_bucket =
  mb_capacity :: "pyfloat option"
  mb_last_checked :: "pyfloat option"
  mb_metric :: pystr
  mb_family :: pystr
  mb_per_seconds :: int
  mb_max_capacity :: pyfloat
  mb_rate_per_sec :: pyfloat

definition mb_id :: "memory_bucket \<Rightarrow> bucket_id" where
  "mb_id b = (mb_metric b, mb_per_seconds b)"

text \<open>The property setter: validates, stores the maximum, then stores the derived rate.\<close>

definition max_capacity_setter :: "pyval \<Rightarrow> (memory_bucket, unit) op" where
  "max_capacity_setter value b =
     (case validate_max_capacity_finite_positive value of
        Inl e \<Rightarrow> (Inl e, b)
      | Inr v \<Rightarrow>
        let b1 = b\<lparr>mb_max_capacity := v\<rparr> in
        (case calculate_rate_per_sec v (mb_per_seconds b) of
           Inl e \<Rightarrow> (Inl e, b1)
         | Inr r \<Rightarrow> (Inr (), b1\<lparr>mb_rate_per_sec := r\<rparr>)))"

definition mk_memory_bucket ::
  "unicode_db \<Rightarrow> pyval \<Rightarrow> pyval \<Rightarrow> pyval \<Rightarrow> pyval \<Rightarrow> memory_bucket result" where
  "mk_memory_bucket udb metric per_seconds limit model_family =
     bind_res (validate_metric udb metric MAX_METRIC_LENGTH) (\<lambda>m.
     bind_res (validate_model_family udb model_family MAX_MODEL_FAMILY_LENGTH) (\<lambda>fam.
     bind_res (validate_per_seconds per_seconds) (\<lambda>p.
       (case max_capacity_setter limit
          \<lparr>mb_capacity = None, mb_last_checked = None, mb_metric = m, mb_family = fam,
           mb_per_seconds = p, mb_max_capacity = NaN, mb_rate_per_sec = NaN\<rparr> of
          (Inl e, _) \<Rightarrow> Inl e
        | (Inr _, b) \<Rightarrow> Inr b))))"

definition opt_val :: "pyfloat option \<Rightarrow> pyval" where
  "opt_val a = (case a of None \<Rightarrow> VNone | Some f \<Rightarrow> VFloat f)"

definition get_capacity :: "memory_bucket \<Rightarrow> pyfloat \<Rightarrow> calculated_capacity result" where
  "get_capacity b current_time =
     calculate_capacity (opt_val (mb_last_checked b)) (opt_val (mb_capacity b))
       (VFloat current_time) (VFloat (mb_max_capacity b)) (VFloat (mb_rate_per_sec b))"

text \<open>The branch \<^verbatim>\<open>if value == 0.0: value = 0.0\<close> only rewrites a negative zero.\<close>

definition set_capacity :: "pyfloat \<Rightarrow> pyfloat \<Rightarrow> bool \<Rightarrow> (memory_bucket, unit) op" where
  "set_capacity value current_time allow_negative b =
     (if \<not> isfinite value then (Inl (ValueError ''capacity must be finite''), b)
      else (Inr (), b\<lparr>mb_capacity := Some (if allow_negative then value else fmax (Fin 0) value),
                       mb_last_checked := Some current_time\<rparr>))"

text \<open>The uncapped integration of the stored capacity at the current rate.\<close>

definition anchored_capacity :: "memory_bucket \<Rightarrow> pyfloat \<Rightarrow> pyfloat \<Rightarrow> pyfloat \<Rightarrow> pyfloat" where
  "anchored_capacity b current_time l c =
     (let new = fadd c (fmul (time_passed current_time l) (mb_rate_per_sec b)) in
      if \<not> isfinite new then mb_max_capacity b else new)"

definition set_max_capacity :: "pyval \<Rightarrow> pyfloat \<Rightarrow> (memory_bucket, unit) op" where
  "set_max_capacity value current_time b =
     (case validate_max_capacity_finite_positive value of
        Inl e \<Rightarrow> (Inl e, b)
      | Inr v \<Rightarrow>
        max_capacity_setter (VFloat v)
          (case (mb_last_checked b, mb_capacity b) of
             (Some l, Some c) \<Rightarrow>
               b\<lparr>mb_capacity := Some (anchored_capacity b current_time l c),
                  mb_last_checked := Some current_time\<rparr>
           | _ \<Rightarrow> b))"

text \<open>\<^verbatim>\<open>f"memory:{family}:{metric}:{int(per_seconds)}"\<close>, with the number printed by \<open>show_int\<close>.\<close>

fun show_nat_digits :: "nat \<Rightarrow> nat \<Rightarrow> pystr" where
  "show_nat_digits 0 n = []"
| "show_nat_digits (Suc fuel) n =
     (if n < 10 then [48 + n] else show_nat_digits fuel (n div 10) @ [48 + n mod 10])"

definition show_int :: "int \<Rightarrow> pystr" where
  "show_int i = (if i < 0 then 45 # show_nat_digits (Suc (nat (- i))) (nat (- i))
                 else show_nat_digits (Suc (nat i)) (nat i))"

definition mb_bucket_id :: "memory_bucket \<Rightarrow> pystr" where
  "mb_bucket_id b = ps ''memory:'' @ mb_family b @ [58] @ mb_metric b @ [58] @ show_int (mb_per_seconds b)"

section \<open>Invariant\<close>

definition per_seconds_ok :: "int \<Rightarrow> bool" where
  "per_seconds_ok p \<longleftrightarrow> 0 < p \<and> p \<le> MAX_PER_SECONDS"

definition stored_ok :: "pyfloat \<Rightarrow> bool" where
  "stored_ok a \<longleftrightarrow> isfinite a \<and> is_dbl a"

definition bucket_wf :: "memory_bucket \<Rightarrow> bool" where
  "bucket_wf b \<longleftrightarrow> max_ok (mb_max_capacity b) \<and> per_seconds_ok (mb_per_seconds b) \<and>
     calculate_rate_per_sec (mb_max_capacity b) (mb_per_seconds b) = Inr (mb_rate_per_sec b) \<and>
     (case (mb_last_checked b, mb_capacity b) of
        (Some l, Some c) \<Rightarrow> stored_ok l \<and> stored_ok c
      | (None, None) \<Rightarrow> True
      | _ \<Rightarrow> False)"

definition clock_ok :: "pyfloat \<Rightarrow> bool" where
  "clock_ok now \<longleftrightarrow> isfinite now \<and> fle (Fin 0) now \<and> is_dbl now"

section \<open>Lemmas\<close>

lemma MAX_PER_SECONDS_val: "MAX_PER_SECONDS = 2147483647"
  by (simp add: MAX_PER_SECONDS_def)

lemma float_of_per_seconds: "per_seconds_ok p \<Longrightarrow> float_of_int p = Inr (Fin (of_int p))"
  by (rule float_of_int_small) (simp add: per_seconds_ok_def MAX_PER_SECONDS_val)

lemma is_dbl_two_powi: "- 1022 \<le> e \<Longrightarrow> e \<le> 900 \<Longrightarrow> is_dbl (Fin (2 powi e))"
proof -
  assume e: "- 1022 \<le> e" "e \<le> 900"
  have s: "of_int (2 ^ 52) * 2 powi (e - 52) = (2 :: rat) powi e"
    by (simp add: two_powi_diff power_int_numeral)
  have "rnd (2 powi e) = Fin (of_int (2 ^ 52) * 2 powi (e - 52))"
  proof (rule rnd_eqI)
    have "(0 :: rat) < 2 powi (e - 52)" by simp
    then show "(of_int (2 ^ 52) - 1 / 2) * 2 powi (e - 52) < (2 :: rat) powi e"
      "(2 :: rat) powi e < (of_int (2 ^ 52) + 1 / 2) * 2 powi (e - 52)"
      unfolding s [symmetric] by (simp_all only: mult_less_cancel_right_pos)
  qed (use e s in simp_all)
  then show ?thesis by (simp only: s is_dbl_Fin)
qed

lemma rate_total:
  assumes "max_ok m" "per_seconds_ok p"
  shows "\<exists>r. calculate_rate_per_sec m p = Inr r \<and> rate_ok r \<and> fle r m"
proof -
  from assms(1) obtain q where q: "m = Fin q" "0 < q" "is_dbl (Fin q)" by (rule max_okE)
  from assms(2) have p: "1 \<le> p" "p \<le> 2 ^ 31" by (auto simp: per_seconds_ok_def MAX_PER_SECONDS_val)
  then have rp: "1 \<le> rat_of_int p" "rat_of_int p \<le> of_int (2 ^ 31)" by (simp_all only: of_int_le_iff of_int_1_le_iff)
  have lo: "2 powi (- 61) \<le> q / of_int p"
  proof -
    have "2 powi (- 61) * rat_of_int p \<le> 2 powi (- 61) * of_int (2 ^ 31)"
      using rp(2) by (intro mult_left_mono) auto
    also have "\<dots> = of_int (2 ^ 52) * (2 :: rat) powi (- 82)"
      using two_powi_add [of 21 "- 82"] by (simp add: power_int_numeral)
    also have "\<dots> \<le> 4835703278458517 * (2 :: rat) powi (- 82)" by (intro mult_right_mono) auto
    also have "\<dots> \<le> q" using assms(1) q(1) by (simp add: max_ok_def MIN_MAX_CAPACITY_val)
    finally show ?thesis using rp by (simp add: pos_le_divide_eq)
  qed
  have hi: "q / of_int p \<le> q" using q(2) rp by (simp add: divide_le_eq_1 pos_divide_le_eq mult_le_cancel_left1)
  from lo have "fle (Fin (2 powi (- 61))) (rnd (q / of_int p))" by (rule rnd_ge) (rule is_dbl_two_powi, simp_all)
  moreover from hi q(3) have "fle (rnd (q / of_int p)) (Fin q)" by (rule rnd_le)
  moreover have "(0 :: rat) < 2 powi (- 61)" by (rule two_powi_pos)
  ultimately obtain r where r: "rnd (q / of_int p) = Fin r" "0 < r" "r \<le> q"
    by (cases "rnd (q / of_int p)") (auto simp del: two_powi_pos)
  have "rat_of_int p \<noteq> 0" using p by simp
  with r have "calculate_rate_per_sec m p = Inr (Fin r)"
    by (simp add: calculate_rate_per_sec_def q(1) float_of_per_seconds [OF assms(2)]
        validate_rate_VFloat rate_ok_def)
  with r q(1) show ?thesis by (simp add: rate_ok_def)
qed

lemma bucket_wfE:
  assumes "bucket_wf b"
  obtains m r where "mb_max_capacity b = Fin m" "0 < m" "is_dbl (Fin m)" "max_ok (Fin m)"
    "mb_rate_per_sec b = r" "rate_ok r" "per_seconds_ok (mb_per_seconds b)"
    "calculate_rate_per_sec (Fin m) (mb_per_seconds b) = Inr r"
proof -
  from assms have a: "max_ok (mb_max_capacity b)" "per_seconds_ok (mb_per_seconds b)"
    "calculate_rate_per_sec (mb_max_capacity b) (mb_per_seconds b) = Inr (mb_rate_per_sec b)"
    by (auto simp: bucket_wf_def)
  from a(1) obtain m where m: "mb_max_capacity b = Fin m" "0 < m" "is_dbl (Fin m)" by (rule max_okE)
  moreover from rate_total [OF a(1,2)] a(3) have "rate_ok (mb_rate_per_sec b)" by auto
  ultimately show ?thesis using that a by metis
qed

text \<open>The capacity a well-formed bucket shows at a time.\<close>

definition visible :: "memory_bucket \<Rightarrow> pyfloat \<Rightarrow> pyfloat" where
  "visible b now = (case (mb_last_checked b, mb_capacity b) of
     (Some l, Some c) \<Rightarrow> refilled now l c (mb_max_capacity b) (mb_rate_per_sec b)
   | _ \<Rightarrow> mb_max_capacity b)"

lemma get_capacity_wf:
  assumes "bucket_wf b" "clock_ok now"
  shows "get_capacity b now =
           Inr \<lparr>amount = visible b now, is_fresh_start = (mb_capacity b = None)\<rparr>"
    and "\<exists>a m. visible b now = Fin a \<and> mb_max_capacity b = Fin m \<and> a \<le> m \<and> is_dbl (Fin a) \<and>
           (\<forall>c. mb_capacity b = Some (Fin c) \<longrightarrow> min c m \<le> a)"
proof -
  from assms(1) obtain m r where b: "mb_max_capacity b = Fin m" "0 < m" "is_dbl (Fin m)"
    "max_ok (Fin m)" "mb_rate_per_sec b = r" "rate_ok r" by (rule bucket_wfE)
  from assms(2) obtain t where t: "now = Fin t" "0 \<le> t"
    by (auto simp: clock_ok_def isfinite_Fin)
  have vm: "validate_max_capacity_finite_positive (VFloat (Fin m)) = Inr (Fin m)"
    using b(4) by (rule validate_max_ok)
  have vr: "validate_rate_per_sec_finite_positive (VFloat r) = Inr r"
    using b(6) by (simp add: validate_rate_VFloat)
  consider (fresh) "mb_last_checked b = None" "mb_capacity b = None"
    | (stored) l c where "mb_last_checked b = Some (Fin l)" "mb_capacity b = Some (Fin c)"
        "is_dbl (Fin c)"
    using assms(1) by (auto simp: bucket_wf_def stored_ok_def isfinite_Fin split: option.splits)
  then have "get_capacity b now =
           Inr \<lparr>amount = visible b now, is_fresh_start = (mb_capacity b = None)\<rparr> \<and>
    (\<exists>a. visible b now = Fin a \<and> a \<le> m \<and> is_dbl (Fin a) \<and>
           (\<forall>c. mb_capacity b = Some (Fin c) \<longrightarrow> min c m \<le> a))"
  proof cases
    case fresh
    then show ?thesis using b t vm vr
      by (simp add: get_capacity_def calculate_capacity_def opt_val_def visible_def
          mk_calculated_capacity_def)
  next
    case (stored l c)
    obtain a where a: "refilled now (Fin l) (Fin c) (Fin m) r = Fin a" "min c m \<le> a" "a \<le> m"
      "is_dbl (Fin a)"
      by (rule refilled_bounds [of now "Fin l" c m r]) (use t stored b in auto)
    with stored show ?thesis using b t vm vr
      by (simp add: get_capacity_def calculate_capacity_def opt_val_def visible_def
          mk_calculated_capacity_def)
  qed
  with b(1) show "get_capacity b now =
           Inr \<lparr>amount = visible b now, is_fresh_start = (mb_capacity b = None)\<rparr>"
    "\<exists>a m. visible b now = Fin a \<and> mb_max_capacity b = Fin m \<and> a \<le> m \<and> is_dbl (Fin a) \<and>
           (\<forall>c. mb_capacity b = Some (Fin c) \<longrightarrow> min c m \<le> a)" by auto
qed
lemma max_capacity_setter_ok:
  assumes "max_ok m" "per_seconds_ok (mb_per_seconds b)"
  obtains r where "calculate_rate_per_sec m (mb_per_seconds b) = Inr r"
    "max_capacity_setter (VFloat m) b = (Inr (), b\<lparr>mb_max_capacity := m, mb_rate_per_sec := r\<rparr>)"
  using rate_total [OF assms] that by (auto simp: max_capacity_setter_def validate_max_ok assms)

lemma max_capacity_setter_Inr:
  assumes "max_capacity_setter v b = (Inr (), b')"
  obtains m r where "validate_max_capacity_finite_positive v = Inr m"
    "calculate_rate_per_sec m (mb_per_seconds b) = Inr r"
    "b' = b\<lparr>mb_max_capacity := m, mb_rate_per_sec := r\<rparr>"
  using assms by (auto simp: max_capacity_setter_def Let_def split: sum.splits)

lemma py_float_is_dbl: "validate_plain_number v = Inr f \<Longrightarrow> (\<forall>a. v = VFloat a \<longrightarrow> is_dbl a) \<Longrightarrow> is_dbl f"
  by (cases v) (auto simp: validate_plain_number_def type_tests float_of_int_is_dbl
      split: if_splits sum.splits exn.splits)

lemma validate_max_Inr:
  assumes "validate_max_capacity_finite_positive v = Inr f" "\<And>a. v = VFloat a \<Longrightarrow> is_dbl a"
  shows "max_ok f"
proof -
  from assms(1) have f: "validate_plain_number v = Inr f" "isfinite f" "\<not> flt f MIN_MAX_CAPACITY"
    by (auto simp: validate_max_capacity_finite_positive_def bind_res_Inr_iff split: if_splits)
  from f(2) have "f \<noteq> NaN" by auto
  then have "fle MIN_MAX_CAPACITY f" using f(3) not_flt [of f MIN_MAX_CAPACITY]
    by (simp add: MIN_MAX_CAPACITY_val)
  moreover from f(1) assms(2) have "is_dbl f" by (blast intro: py_float_is_dbl)
  ultimately show ?thesis using f(2) by (simp add: max_ok_def)
qed

lemma mk_memory_bucketE:
  assumes "mk_memory_bucket udb m p l fam = Inr b"
  obtains mm ff pp b0 where "validate_metric udb m MAX_METRIC_LENGTH = Inr mm"
    "validate_model_family udb fam MAX_MODEL_FAMILY_LENGTH = Inr ff" "validate_per_seconds p = Inr pp"
    "b0 = \<lparr>mb_capacity = None, mb_last_checked = None, mb_metric = mm, mb_family = ff,
           mb_per_seconds = pp, mb_max_capacity = NaN, mb_rate_per_sec = NaN\<rparr>"
    "max_capacity_setter l b0 = (Inr (), b)"
  using assms by (auto simp: mk_memory_bucket_def bind_res_Inr_iff case_op_Inr)

lemma mk_memory_bucket_wf:
  assumes "mk_memory_bucket udb m p l fam = Inr b" "\<And>a. l = VFloat a \<Longrightarrow> is_dbl a"
  shows "bucket_wf b \<and> mb_capacity b = None \<and> m \<noteq> VNone"
proof -
  from assms(1) obtain mm ff pp b0 where o: "validate_metric udb m MAX_METRIC_LENGTH = Inr mm"
    "validate_model_family udb fam MAX_MODEL_FAMILY_LENGTH = Inr ff" "validate_per_seconds p = Inr pp"
    "b0 = \<lparr>mb_capacity = None, mb_last_checked = None, mb_metric = mm, mb_family = ff,
           mb_per_seconds = pp, mb_max_capacity = NaN, mb_rate_per_sec = NaN\<rparr>"
    "max_capacity_setter l b0 = (Inr (), b)"
    by (rule mk_memory_bucketE)
  from o(5) obtain f r where s: "validate_max_capacity_finite_positive l = Inr f"
    "calculate_rate_per_sec f (mb_per_seconds b0) = Inr r"
    "b = b0\<lparr>mb_max_capacity := f, mb_rate_per_sec := r\<rparr>" by (rule max_capacity_setter_Inr)
  from s(1) assms(2) have "max_ok f" by (rule validate_max_Inr)
  moreover have "per_seconds_ok pp" using o(3)
    by (auto simp: validate_per_seconds_def per_seconds_ok_def split: pyval.splits if_splits)
  moreover have "m \<noteq> VNone" using o(1) by (auto simp: validate_metric_def validate_key_segment_req_Inr)
  ultimately show ?thesis using s o(4) by (simp add: bucket_wf_def)
qed

lemma fadd_zero [simp]: "is_dbl (Fin c) \<Longrightarrow> fadd (Fin c) (Fin 0) = Fin c"
  by (simp add: is_dbl_Fin)

lemma time_passed_self [simp]: "isfinite t \<Longrightarrow> time_passed t t = Fin 0"
  by (auto simp: time_passed_def isfinite_Fin)

lemma rate_fmul_0 [simp]: "rate_ok r \<Longrightarrow> fmul (Fin 0) r = Fin 0"
  by (auto simp: rate_ok_def isfinite_Fin)

lemma refilled_now:
  "isfinite t \<Longrightarrow> rate_ok r \<Longrightarrow> is_dbl (Fin c) \<Longrightarrow> refilled t t (Fin c) (Fin m) r = Fin (min m c)"
  by (auto simp: refilled_def is_dbl_Fin)

text \<open>\<open>set_capacity\<close> on a well-formed bucket, and what is read back at the same instant.\<close>

definition stored :: "pyfloat \<Rightarrow> bool \<Rightarrow> pyfloat" where
  "stored v allow_negative = (if allow_negative then v else fmax (Fin 0) v)"

lemma set_capacity_ok:
  "isfinite v \<Longrightarrow> set_capacity v now an b =
     (Inr (), b\<lparr>mb_capacity := Some (stored v an), mb_last_checked := Some now\<rparr>)"
  by (simp add: set_capacity_def stored_def)

lemma stored_ok_stored: "stored_ok v \<Longrightarrow> stored_ok (stored v an)"
  by (auto simp: stored_ok_def stored_def fmax_def)

lemma set_capacity_wf:
  "bucket_wf b \<Longrightarrow> stored_ok v \<Longrightarrow> clock_ok now \<Longrightarrow>
     bucket_wf (b\<lparr>mb_capacity := Some (stored v an), mb_last_checked := Some now\<rparr>)"
  using stored_ok_stored [of v an] by (simp add: bucket_wf_def clock_ok_def stored_ok_def)

lemma set_capacity_visible:
  assumes "bucket_wf b" "clock_ok now" "stored_ok v"
  shows "visible (b\<lparr>mb_capacity := Some (stored v an), mb_last_checked := Some now\<rparr>) now =
         fmin (mb_max_capacity b) (stored v an)"
proof -
  from assms(1) obtain m r where b: "mb_max_capacity b = Fin m" "mb_rate_per_sec b = r" "rate_ok r"
    by (rule bucket_wfE)
  from stored_ok_stored [OF assms(3), of an] obtain c where "stored v an = Fin c" "is_dbl (Fin c)"
    by (auto simp: stored_ok_def isfinite_Fin)
  with b assms(2) show ?thesis by (simp add: visible_def refilled_now clock_ok_def fmin_def)
qed

lemma set_capacity_get_capacity:
  assumes "bucket_wf b" "clock_ok now" "stored_ok v" "set_capacity v now an b = (Inr (), b')"
  shows "bucket_wf b'" "get_capacity b' now =
    Inr \<lparr>amount = fmin (mb_max_capacity b) (stored v an), is_fresh_start = False\<rparr>"
proof -
  from assms(3,4) have b': "b' = b\<lparr>mb_capacity := Some (stored v an), mb_last_checked := Some now\<rparr>"
    using set_capacity_ok [of v now an b] by (simp add: stored_ok_def)
  show wf: "bucket_wf b'" unfolding b' using assms(1,3,2) by (rule set_capacity_wf)
  show "get_capacity b' now =
    Inr \<lparr>amount = fmin (mb_max_capacity b) (stored v an), is_fresh_start = False\<rparr>"
    using get_capacity_wf(1) [OF wf assms(2)] set_capacity_visible [OF assms(1,2,3), of an]
    by (simp add: b')
qed

text \<open>\<open>set_max_capacity\<close> on a well-formed bucket.\<close>

lemma anchored_ok:
  assumes "bucket_wf b" "isfinite now" "mb_last_checked b = Some l" "mb_capacity b = Some c"
  shows "stored_ok (anchored_capacity b now l c)"
  using assms by (auto simp: bucket_wf_def anchored_capacity_def Let_def stored_ok_def max_ok_def)

definition anchored_bucket :: "memory_bucket \<Rightarrow> pyfloat \<Rightarrow> memory_bucket" where
  "anchored_bucket b now = (case (mb_last_checked b, mb_capacity b) of
     (Some l, Some c) \<Rightarrow> b\<lparr>mb_capacity := Some (anchored_capacity b now l c), mb_last_checked := Some now\<rparr>
   | _ \<Rightarrow> b)"

lemma anchored_bucket_wf: "bucket_wf b \<Longrightarrow> clock_ok now \<Longrightarrow> bucket_wf (anchored_bucket b now)"
  using anchored_ok [of b now]
  by (auto simp: anchored_bucket_def clock_ok_def bucket_wf_def stored_ok_def split: option.splits)

lemma anchored_bucket_fields [simp]:
  "mb_per_seconds (anchored_bucket b now) = mb_per_seconds b"
  "mb_metric (anchored_bucket b now) = mb_metric b" "mb_family (anchored_bucket b now) = mb_family b"
  "mb_max_capacity (anchored_bucket b now) = mb_max_capacity b"
  by (auto simp: anchored_bucket_def split: option.splits)

lemma set_max_capacity_ok:
  assumes "bucket_wf b" "max_ok v"
  obtains r where "calculate_rate_per_sec v (mb_per_seconds b) = Inr r" "rate_ok r"
    "set_max_capacity (VFloat v) now b =
       (Inr (), (anchored_bucket b now)\<lparr>mb_max_capacity := v, mb_rate_per_sec := r\<rparr>)"
proof -
  from assms(1) have p: "per_seconds_ok (mb_per_seconds b)" by (simp add: bucket_wf_def)
  then obtain r where r: "calculate_rate_per_sec v (mb_per_seconds b) = Inr r" "rate_ok r"
    using rate_total [OF assms(2)] by blast
  have "set_max_capacity (VFloat v) now b = max_capacity_setter (VFloat v) (anchored_bucket b now)"
    by (simp add: set_max_capacity_def validate_max_ok assms(2) anchored_bucket_def)
  also have "\<dots> = (Inr (), (anchored_bucket b now)\<lparr>mb_max_capacity := v, mb_rate_per_sec := r\<rparr>)"
    using r by (simp add: max_capacity_setter_def validate_max_ok assms(2))
  finally show ?thesis using that r by blast
qed

lemma set_max_capacity_wf:
  assumes "bucket_wf b" "clock_ok now" "max_ok v" "set_max_capacity (VFloat v) now b = (res, b')"
  shows "bucket_wf b' \<and> res = Inr () \<and> mb_max_capacity b' = v \<and> mb_id b' = mb_id b \<and>
    mb_family b' = mb_family b"
proof -
  from assms(1,3) obtain r where r: "calculate_rate_per_sec v (mb_per_seconds b) = Inr r"
    "set_max_capacity (VFloat v) now b =
       (Inr (), (anchored_bucket b now)\<lparr>mb_max_capacity := v, mb_rate_per_sec := r\<rparr>)"
    by (rule set_max_capacity_ok)
  then have b': "b' = (anchored_bucket b now)\<lparr>mb_max_capacity := v, mb_rate_per_sec := r\<rparr>"
    "res = Inr ()" using assms(4) by auto
  with anchored_bucket_wf [OF assms(1,2)] r(1) assms(3) show ?thesis
    by (simp add: bucket_wf_def mb_id_def)
qed

lemma set_max_capacity_visible:
  assumes "bucket_wf b" "clock_ok now" "max_ok v" "set_max_capacity (VFloat v) now b = (res, b')"
  shows "visible b' now = (case (mb_last_checked b, mb_capacity b) of
     (Some l, Some c) \<Rightarrow> fmin v (anchored_capacity b now l c) | _ \<Rightarrow> v)"
proof -
  from assms(1,3) obtain r where r: "rate_ok r" "set_max_capacity (VFloat v) now b =
       (Inr (), (anchored_bucket b now)\<lparr>mb_max_capacity := v, mb_rate_per_sec := r\<rparr>)"
    by (rule set_max_capacity_ok)
  then have b': "b' = (anchored_bucket b now)\<lparr>mb_max_capacity := v, mb_rate_per_sec := r\<rparr>"
    using assms(4) by auto
  have "stored_ok x \<Longrightarrow> refilled now now x v r = fmin v x" for x
    using assms(2,3) r(1)
    by (auto simp: refilled_def is_dbl_Fin clock_ok_def stored_ok_def isfinite_Fin)
  then show ?thesis using anchored_ok [OF assms(1)] assms(2)
    by (auto simp: b' visible_def anchored_bucket_def clock_ok_def split: option.splits)
qed

text \<open>
  At one instant a later maximum overrides an earlier one completely: capacity hidden by a
  lower maximum comes back when the maximum is raised again.
\<close>

lemma anchored_bucket_twice:
  assumes "bucket_wf b" "clock_ok now" "rate_ok r"
  shows "anchored_bucket ((anchored_bucket b now)\<lparr>mb_max_capacity := v, mb_rate_per_sec := r\<rparr>) now =
    (anchored_bucket b now)\<lparr>mb_max_capacity := v, mb_rate_per_sec := r\<rparr>"
proof -
  have "stored_ok x \<Longrightarrow> anchored_capacity d now now x = x" if "mb_rate_per_sec d = r" for d x
    using assms(2,3) that by (auto simp: anchored_capacity_def is_dbl_Fin stored_ok_def isfinite_Fin clock_ok_def)
  then show ?thesis using anchored_ok [OF assms(1)] assms(2)
    by (auto simp: anchored_bucket_def clock_ok_def split: option.splits)
qed

lemma set_max_capacity_override:
  assumes "bucket_wf b" "clock_ok now" "max_ok v" "max_ok w"
  shows "op_bind (set_max_capacity (VFloat v) now) (\<lambda>_. set_max_capacity (VFloat w) now) b =
    set_max_capacity (VFloat w) now b"
proof -
  from assms(1,3) obtain r where r: "calculate_rate_per_sec v (mb_per_seconds b) = Inr r" "rate_ok r"
    "set_max_capacity (VFloat v) now b =
       (Inr (), (anchored_bucket b now)\<lparr>mb_max_capacity := v, mb_rate_per_sec := r\<rparr>)"
    by (rule set_max_capacity_ok)
  let ?b = "(anchored_bucket b now)\<lparr>mb_max_capacity := v, mb_rate_per_sec := r\<rparr>"
  have wf: "bucket_wf ?b" using set_max_capacity_wf [OF assms(1,2,3) r(3)] by simp
  obtain s where s: "calculate_rate_per_sec w (mb_per_seconds b) = Inr s"
    "set_max_capacity (VFloat w) now ?b =
       (Inr (), (anchored_bucket ?b now)\<lparr>mb_max_capacity := w, mb_rate_per_sec := s\<rparr>)"
    using set_max_capacity_ok [OF wf assms(4), of now] by auto
  obtain s' where s': "calculate_rate_per_sec w (mb_per_seconds b) = Inr s'"
    "set_max_capacity (VFloat w) now b =
       (Inr (), (anchored_bucket b now)\<lparr>mb_max_capacity := w, mb_rate_per_sec := s'\<rparr>)"
    using set_max_capacity_ok [OF assms(1,4), of now] by auto
  show ?thesis using r(3) s s' anchored_bucket_twice [OF assms(1,2) r(2), of v]
    by (simp add: op_bind_def)
qed

text \<open>The key of a bucket parses back to its family and metric.\<close>

lemma show_nat_digits_no_colon: "58 \<notin> set (show_nat_digits k n)"
  by (induction k n rule: show_nat_digits.induct) auto

lemma show_int_no_colon: "58 \<notin> set (show_int i)"
  by (simp add: show_int_def show_nat_digits_no_colon del: show_nat_digits.simps)

lemma split_colon_no_colon: "58 \<notin> set s \<Longrightarrow> split_colon acc s = [rev acc @ s]"
  by (induction s arbitrary: acc) auto

lemma split_colon_append:
  "58 \<notin> set s \<Longrightarrow> split_colon acc (s @ 58 # t) = (rev acc @ s) # split_colon [] t"
  by (induction s arbitrary: acc) auto

lemma bucket_context_memory:
  assumes "58 \<notin> set (mb_family b)" "58 \<notin> set (mb_metric b)"
  shows "bucket_context_from_bucket_id (mb_bucket_id b) = (mb_family b, mb_metric b)"
proof -
  have k: "mb_bucket_id b = ps ''memory'' @ 58 # mb_family b @ 58 # mb_metric b @ 58 # show_int (mb_per_seconds b)"
    by (simp add: mb_bucket_id_def ps_def)
  have "58 \<notin> set (ps ''memory'')" by (simp add: ps_def)
  then have "split_colon [] (mb_bucket_id b) =
    [ps ''memory'', mb_family b, mb_metric b, show_int (mb_per_seconds b)]"
    unfolding k using assms
    by (simp add: split_colon_append split_colon_no_colon show_int_no_colon)
  then show ?thesis by (simp add: bucket_context_from_bucket_id_def)
qed
end
