(* ===== verification/MemoryBackend.thy ===== *)
theory MemoryBackend
  imports MemoryBucket
begin

text \<open>
  \<^verbatim>\<open>_limiter_backends/_memory/_sync_backend.py\<close>: the in-process backend. Bucket objects are
  shared between the list of buckets, the registry and the snapshot a waiter keeps, so they
  live in a store (\<open>be_heap\<close>) and are named by their index in it. Every public operation is
  one critical section of the backend's condition variable, given the clock readings it
  makes; \<open>wait_for_capacity\<close> is a loop of such sections, between which other threads run.
\<close>

type_synonym capacities = "(bucket_id, pyfloat) dict"
type_synonym bref = nat

record waiter =
  wt_reservation_id :: "pystr option"
  wt_usage :: usage
  wt_capacities :: capacities
  wt_started :: pyfloat
  wt_deadline :: "pyfloat option"

record mem_backend =
  be_heap :: "memory_bucket list"
  be_buckets :: "bref list"
  be_registry :: "(bucket_id, bref) dict"
  be_limit_config :: per_model_config
  be_configured_limits :: capacities
  be_usage_metric_names :: "pystr set"
  be_sleep_interval :: pyfloat
  be_acquired_ids :: "pystr set"
  be_acquired_values :: "(pystr, bucket_id set \<times> usage) dict"
  be_refunded_ids :: "pystr set"
  be_refunded_order :: "pystr list"
  be_refunded_cap :: nat
  be_waiters :: "(pystr, waiter) dict"

definition DEFAULT_SLEEP_INTERVAL :: pyfloat where "DEFAULT_SLEEP_INTERVAL = flit (1 / 10)"
definition MAX_CROSS_WORKER_POLL :: pyfloat where "MAX_CROSS_WORKER_POLL = Fin 1"
definition REFUNDED_RESERVATION_IDS_CAP :: nat where "REFUNDED_RESERVATION_IDS_CAP = 131072"

definition on_heap :: "(memory_bucket list, 'a) op \<Rightarrow> (mem_backend, 'a) op" where
  "on_heap m s = (case m (be_heap s) of (r, h) \<Rightarrow> (r, s\<lparr>be_heap := h\<rparr>))"

section \<open>Construction\<close>

text \<open>
  The callbacks an application installs are a function from the event they are called with
  to the critical exception the call raises, if it does; other exceptions are swallowed by
  \<^verbatim>\<open>safe_invoke_sync_callback\<close>, and an absent callback raises nothing.
\<close>

datatype callback_event =
    OnWaitStart capacities usage
  | OnMissingConsumptionData bucket_id
  | OnCapacityConsumed capacities capacities usage pyfloat
  | AfterWaitEnd capacities capacities usage pyfloat
  | OnCapacityRefunded raw_usage raw_usage usage capacities capacities

type_synonym callbacks = "callback_event \<Rightarrow> exn option"

fun fire :: "callbacks \<Rightarrow> callback_event list \<Rightarrow> unit result" where
  "fire cb [] = Inr ()"
| "fire cb (e # es) = (case cb e of Some x \<Rightarrow> Inl x | None \<Rightarrow> fire cb es)"

definition quota_limits :: "quota list \<Rightarrow> capacities" where
  "quota_limits qs = fold (\<lambda>q d. dict_set (quota_bucket_id q) (q_limit q) d) qs []"

definition mk_bucket_of_quota ::
  "unicode_db \<Rightarrow> per_model_config \<Rightarrow> quota \<Rightarrow> memory_bucket result" where
  "mk_bucket_of_quota udb cfg q =
     bind_res (get_model_family cfg) (\<lambda>fam.
       mk_memory_bucket udb (VStr (q_metric q)) (VInt (q_per_seconds q)) (VFloat (q_limit q))
         (VStr fam))"

text \<open>\<^verbatim>\<open>SyncMemoryBackend(buckets, limit_config, sleep_interval=...)\<close> on freshly made buckets.\<close>

definition mk_mem_backend ::
  "memory_bucket list \<Rightarrow> per_model_config \<Rightarrow> pyval \<Rightarrow> mem_backend result" where
  "mk_mem_backend bs cfg sleep_interval =
     bind_res (validate_sleep_interval sleep_interval) (\<lambda>si.
       Inr \<lparr>be_heap = bs, be_buckets = [0..<length bs],
         be_registry = fold (\<lambda>r d. dict_set (mb_id (bs ! r)) r d) [0..<length bs] [],
         be_limit_config = cfg,
         be_configured_limits = quota_limits (uq_iter (cfg_quotas cfg)),
         be_usage_metric_names = mb_metric ` set bs,
         be_sleep_interval = (case si of None \<Rightarrow> DEFAULT_SLEEP_INTERVAL | Some v \<Rightarrow> v),
         be_acquired_ids = {}, be_acquired_values = [], be_refunded_ids = {},
         be_refunded_order = [], be_refunded_cap = REFUNDED_RESERVATION_IDS_CAP,
         be_waiters = []\<rparr>)"

text \<open>\<^verbatim>\<open>SyncMemoryBackendBuilder(sleep_interval).build(cfg)\<close>; the configuration is re-validated.\<close>

definition build_mem_backend ::
  "unicode_db \<Rightarrow> pydantic \<Rightarrow> pyval \<Rightarrow> per_model_config \<Rightarrow> mem_backend result" where
  "build_mem_backend udb pyd sleep_interval cfg =
     bind_res (config_with_family udb pyd cfg (cfg_model_family cfg)) (\<lambda>c.
       bind_res (for_each (uq_iter (cfg_quotas c))
                   (\<lambda>q bs. bind_res (mk_bucket_of_quota udb c q) (\<lambda>b. Inr (bs @ [b]))) [])
         (\<lambda>bs. mk_mem_backend bs c sleep_interval))"

section \<open>Reading and writing capacities\<close>

definition get_capacities ::
  "memory_bucket list \<Rightarrow> bref list \<Rightarrow> pyfloat \<Rightarrow> (capacities \<times> bref list) result" where
  "get_capacities h target current_time =
     for_each target (\<lambda>r (caps, fresh).
       bind_res (get_capacity (h ! r) current_time) (\<lambda>res.
         Inr (dict_set (mb_id (h ! r)) (amount res) caps,
              if is_fresh_start res then fresh @ [r] else fresh))) ([], [])"

definition bucket_ids :: "mem_backend \<Rightarrow> bucket_id set" where
  "bucket_ids s = (\<lambda>r. mb_id (be_heap s ! r)) ` set (be_buckets s)"

definition runtime_max_capacity_for_reconciliation ::
  "mem_backend \<Rightarrow> pystr \<Rightarrow> int \<Rightarrow> pyfloat option" where
  "runtime_max_capacity_for_reconciliation s metric per_seconds =
     map_option (\<lambda>r. mb_max_capacity (be_heap s ! r)) (map_of (be_registry s) (metric, per_seconds))"

definition ensure_usage_metrics_are_active :: "usage \<Rightarrow> pystr set \<Rightarrow> unit result" where
  "ensure_usage_metrics_are_active usage active =
     guard (set (dict_keys usage) \<subseteq> active) (ValueError ''Usage metrics are no longer active'')"

definition find_bucket :: "memory_bucket list \<Rightarrow> bref list \<Rightarrow> bucket_id \<Rightarrow> bref option" where
  "find_bucket h target k = List.find (\<lambda>r. mb_id (h ! r) = k) target"

definition set_capacities ::
  "bref list \<Rightarrow> capacities \<Rightarrow> pyfloat \<Rightarrow> bool \<Rightarrow> (memory_bucket list, unit) op" where
  "set_capacities target new_capacities current_time allow_negative =
     op_for_each new_capacities (\<lambda>(k, a) h.
       (case find_bucket h target k of
          None \<Rightarrow> (Inl (ValueError ''Bucket not found''), h)
        | Some r \<Rightarrow> (case set_capacity a current_time allow_negative (h ! r) of
            (res, b) \<Rightarrow> (res, h[r := b]))))"

section \<open>Consuming\<close>

definition exceeds_max :: "mem_backend \<Rightarrow> usage \<Rightarrow> bool" where
  "exceeds_max s usage = list_ex (\<lambda>(m, a). list_ex (\<lambda>r.
     mb_metric (be_heap s ! r) = m \<and> flt (mb_max_capacity (be_heap s ! r)) a) (be_buckets s)) usage"

definition insufficient :: "usage \<Rightarrow> capacities \<Rightarrow> bool" where
  "insufficient usage preconsumption = list_ex (\<lambda>(m, a).
     list_ex (\<lambda>((cm, _), c). cm = m \<and> flt c a) preconsumption) usage"

text \<open>The result is the pair of the success flag and the capacities after consumption.\<close>

definition try_consume_locked ::
  "mem_backend \<Rightarrow> usage \<Rightarrow> capacities \<Rightarrow> (bool \<times> capacities) result" where
  "try_consume_locked s usage preconsumption =
     bind_res (ensure_usage_metrics_are_active usage (fst ` set (dict_keys preconsumption))) (\<lambda>_.
       if exceeds_max s usage then Inl (ValueError ''Usage value exceeds bucket max capacity'')
       else if insufficient usage preconsumption then Inr (False, [])
       else Inr (True, map (\<lambda>(k, c). (k, case map_of usage (fst k) of
                              None \<Rightarrow> c | Some a \<Rightarrow> fsub c a)) preconsumption))"

section \<open>The reservation ledger\<close>

text \<open>FIFO eviction: \<^verbatim>\<open>popleft\<close> on an empty deque would raise.\<close>

fun evict :: "nat \<Rightarrow> pystr set \<Rightarrow> pystr list \<Rightarrow> pystr set \<times> pystr list" where
  "evict cap ids [] = (ids, [])"
| "evict cap ids (x # xs) =
     (if cap < card ids then evict cap (ids - {x}) xs else (ids, x # xs))"

definition remember_refunded_reservation_id :: "pystr \<Rightarrow> mem_backend \<Rightarrow> mem_backend" where
  "remember_refunded_reservation_id rid s =
     (if rid \<in> be_refunded_ids s then s
      else case evict (be_refunded_cap s) (insert rid (be_refunded_ids s))
                  (be_refunded_order s @ [rid]) of
        (ids, order) \<Rightarrow> s\<lparr>be_refunded_ids := ids, be_refunded_order := order\<rparr>)"

definition is_replayed_acquire :: "mem_backend \<Rightarrow> pystr \<Rightarrow> usage \<Rightarrow> bool result" where
  "is_replayed_acquire s rid usage = (case map_of (be_acquired_values s) rid of
      Some (bids, u) \<Rightarrow>
        if bids = bucket_ids s \<and> dict_eq u usage then Inr True
        else Inl (DuplicateRefundError DuplicateAcquire)
    | None \<Rightarrow>
        if rid \<in> be_refunded_ids s then Inl (DuplicateRefundError DuplicateAcquire)
        else Inr False)"

definition record_acquired_reservation :: "pystr \<Rightarrow> usage \<Rightarrow> mem_backend \<Rightarrow> mem_backend" where
  "record_acquired_reservation rid usage s =
     s\<lparr>be_acquired_ids := insert rid (be_acquired_ids s),
       be_acquired_values := dict_set rid (bucket_ids s, usage) (be_acquired_values s)\<rparr>"

definition forget_acquired_reservation :: "pystr \<Rightarrow> mem_backend \<Rightarrow> mem_backend" where
  "forget_acquired_reservation rid s =
     s\<lparr>be_acquired_ids := be_acquired_ids s - {rid},
       be_acquired_values := dict_pop rid (be_acquired_values s)\<rparr>"

text \<open>The two classifications, for an optional reservation id.\<close>

definition replayed :: "mem_backend \<Rightarrow> pystr option \<Rightarrow> usage \<Rightarrow> bool result" where
  "replayed s rid usage = (case rid of None \<Rightarrow> Inr False | Some i \<Rightarrow> is_replayed_acquire s i usage)"

definition record_opt :: "pystr option \<Rightarrow> usage \<Rightarrow> mem_backend \<Rightarrow> mem_backend" where
  "record_opt rid usage s = (case rid of None \<Rightarrow> s | Some i \<Rightarrow> record_acquired_reservation i usage s)"

definition forget_opt :: "pystr option \<Rightarrow> mem_backend \<Rightarrow> mem_backend" where
  "forget_opt rid s = (case rid of None \<Rightarrow> s | Some i \<Rightarrow> forget_acquired_reservation i s)"

section \<open>Unconditional consumption\<close>

text \<open>The capacities after a consumption that may go into debt, down to minus the maximum.\<close>

definition consume_post :: "mem_backend \<Rightarrow> usage \<Rightarrow> capacities \<Rightarrow> capacities result" where
  "consume_post s usage pre =
     (let max_cap = map (\<lambda>r. (mb_id (be_heap s ! r), mb_max_capacity (be_heap s ! r))) (be_buckets s) in
      for_each pre (\<lambda>(k, c) post. case map_of usage (fst k) of
          None \<Rightarrow> Inr (post @ [(k, c)])
        | Some a \<Rightarrow> (case map_of max_cap k of
            None \<Rightarrow> Inl KeyError
          | Some mx \<Rightarrow> Inr (post @ [(k, fmax (fsub c a) (fneg mx))]))) [])"

text \<open>
  The critical section. It returns the time and, unless the call replays a live reservation,
  the events to announce.
\<close>

definition consume_locked ::
  "usage \<Rightarrow> pystr option \<Rightarrow> pyfloat \<Rightarrow> (mem_backend, pyfloat \<times> callback_event list) op" where
  "consume_locked usage rid now s =
     (case replayed s rid usage of
        Inl e \<Rightarrow> (Inl e, s)
      | Inr True \<Rightarrow> (Inr (now, []), s)
      | Inr False \<Rightarrow>
        (case bind_res (get_capacities (be_heap s) (be_buckets s) now) (\<lambda>(pre, fresh).
                bind_res (ensure_usage_metrics_are_active usage (fst ` set (dict_keys pre))) (\<lambda>_.
                  bind_res (consume_post s usage pre) (\<lambda>post. Inr (pre, fresh, post)))) of
           Inl e \<Rightarrow> (Inl e, s)
         | Inr (pre, fresh, post) \<Rightarrow>
             op_bind (on_heap (set_capacities (be_buckets s) post now True))
               (\<lambda>_. op_return (now,
                  map (\<lambda>r. OnMissingConsumptionData (mb_id (be_heap s ! r))) fresh
                  @ [OnCapacityConsumed pre post usage now]))
               (record_opt rid usage s)))"

text \<open>\<open>now\<close> is the reading of \<^verbatim>\<open>time.time()\<close>; the callbacks run after the lock is released.\<close>

definition consume_capacity ::
  "unicode_db \<Rightarrow> callbacks \<Rightarrow> raw_usage \<Rightarrow> pystr option \<Rightarrow> pyfloat \<Rightarrow> (mem_backend, pyfloat) op" where
  "consume_capacity udb cb raw rid now s =
     op_bind (op_lift (bind_res (validate_backend_usage udb raw (be_usage_metric_names s)) (\<lambda>_.
         usage_floats raw))) (\<lambda>usage.
       op_bind (consume_locked usage rid now) (\<lambda>(t, events).
         op_bind (op_lift (fire cb events)) (\<lambda>_. op_return t))) s"

section \<open>Waiting for capacity\<close>

definition compute_wait :: "mem_backend \<Rightarrow> usage \<Rightarrow> bucket_id \<times> pyfloat \<Rightarrow> pyfloat \<Rightarrow> pyfloat result" where
  "compute_wait s usage kc max_wait = (case kc of (k, c) \<Rightarrow>
     (case map_of usage (fst k) of
        None \<Rightarrow> Inr max_wait
      | Some needed \<Rightarrow>
        let deficit = fsub needed c in
        if fle deficit (Fin 0) then Inr max_wait
        else (case find_bucket (be_heap s) (be_buckets s) k of
            None \<Rightarrow> Inl (ValueError ''No bucket found'')
          | Some r \<Rightarrow>
            let rate = mb_rate_per_sec (be_heap s ! r) in
            if \<not> isfinite rate \<or> fle rate (Fin 0)
            then Inl (ValueError ''Bucket rate is non-positive/non-finite'')
            else bind_res (fdiv deficit rate) (\<lambda>w. Inr (fmax max_wait w)))))"

definition compute_sleep :: "mem_backend \<Rightarrow> usage \<Rightarrow> capacities \<Rightarrow> pyfloat result" where
  "compute_sleep s usage preconsumption =
     bind_res (for_each preconsumption (compute_wait s usage) (Fin 0)) (\<lambda>w.
       Inr (if flt (Fin 0) w then w else be_sleep_interval s))"

text \<open>
  The bucket the timeout message names: the one with the largest deficit, with the amounts
  available and requested.
\<close>

definition bottleneck_step ::
  "usage \<Rightarrow> bucket_id \<times> pyfloat \<Rightarrow> pyfloat \<times> (bucket_id \<times> pyfloat \<times> pyfloat) option
   \<Rightarrow> pyfloat \<times> (bucket_id \<times> pyfloat \<times> pyfloat) option" where
  "bottleneck_step usage kc acc = (case (kc, acc) of ((k, c), (largest, b)) \<Rightarrow>
     (case map_of usage (fst k) of
        None \<Rightarrow> acc
      | Some a \<Rightarrow>
        let deficit = fsub a c in
        if flt largest deficit then (deficit, Some (k, c, a)) else acc))"

definition timeout_bottleneck :: "usage \<Rightarrow> capacities \<Rightarrow> (bucket_id \<times> pyfloat \<times> pyfloat) option" where
  "timeout_bottleneck usage preconsumption =
     snd (fold (bottleneck_step usage) preconsumption (Fin 0, None))"

definition capacity_timeout_error :: exn where
  "capacity_timeout_error = TimeoutError ''Timed out waiting for capacity''"

definition upsert_diagnostic_waiter ::
  "pystr \<Rightarrow> pystr option \<Rightarrow> usage \<Rightarrow> capacities \<Rightarrow> pyfloat option \<Rightarrow> pyfloat \<Rightarrow> mem_backend
   \<Rightarrow> mem_backend" where
  "upsert_diagnostic_waiter key rid usage caps deadline started s =
     s\<lparr>be_waiters := dict_set key \<lparr>wt_reservation_id = rid, wt_usage = usage, wt_capacities = caps,
         wt_started = started, wt_deadline = deadline\<rparr> (be_waiters s)\<rparr>"

text \<open>
  What one turn of the loop sees of the world: its clock readings, and how other threads
  change the backend while the turn has released the lock.
\<close>

record tick =
  tk_time :: pyfloat
  tk_consumed :: pyfloat
  tk_upsert :: pyfloat
  tk_deadline_check :: pyfloat
  tk_wait_started :: pyfloat
  tk_remaining :: pyfloat
  tk_callback_started :: pyfloat
  tk_callback_ended :: pyfloat
  tk_callback_check :: pyfloat
  tk_env :: "mem_backend \<Rightarrow> mem_backend"

record wait_locals =
  wl_has_waited :: bool
  wl_first_failed_pre :: capacities
  wl_started_at :: "pyfloat option"
  wl_overhead :: pyfloat

record grant =
  gr_time :: pyfloat
  gr_replayed :: bool
  gr_pre :: capacities
  gr_post :: capacities
  gr_fresh :: "bref list"
  gr_buckets :: "bref list"
  gr_consumed_at :: pyfloat

text \<open>
  How a turn ends; \<open>Raised\<close> is an exception after the waiter was registered, which the
  \<^verbatim>\<open>finally\<close> block of the caller has to undo.
\<close>

datatype turn = Granted grant | FireWaitStart capacities | Sleep pyfloat | Raised exn

definition reached :: "pyfloat option \<Rightarrow> pyfloat \<Rightarrow> bool" where
  "reached deadline now \<longleftrightarrow> (case deadline of None \<Rightarrow> False | Some d \<Rightarrow> fle d now)"

text \<open>The sleep: the computed wait, at most one second and the time left, at least 1 ms.\<close>

definition clamp_sleep :: "pyfloat \<Rightarrow> pyfloat option \<Rightarrow> pyfloat \<Rightarrow> pyfloat" where
  "clamp_sleep computed deadline now =
     fmax (flit (1 / 1000))
       (case deadline of
          None \<Rightarrow> fmin computed MAX_CROSS_WORKER_POLL
        | Some d \<Rightarrow> fmin (fmin computed MAX_CROSS_WORKER_POLL) (fmax (Fin 0) (fsub d now)))"

text \<open>\<open>wait_started_at or time.monotonic()\<close>: zero is false as well.\<close>

definition started_or :: "pyfloat option \<Rightarrow> pyfloat \<Rightarrow> pyfloat" where
  "started_or st now = (case st of None \<Rightarrow> now | Some f \<Rightarrow> if f = Fin 0 then now else f)"

text \<open>The consumption of a granted turn: the ledger entry, then the capacities.\<close>

definition grant_locked ::
  "usage \<Rightarrow> pystr option \<Rightarrow> pyfloat \<Rightarrow> capacities \<Rightarrow> (mem_backend, unit) op" where
  "grant_locked usage rid now post s =
     on_heap (set_capacities (be_buckets s) post now False) (record_opt rid usage s)"

text \<open>One turn of the inner loop, under the lock.\<close>

definition wait_turn ::
  "usage \<Rightarrow> pystr option \<Rightarrow> pystr \<Rightarrow> pyfloat option \<Rightarrow> tick \<Rightarrow> wait_locals
   \<Rightarrow> (mem_backend, turn) op" where
  "wait_turn usage rid key deadline t w s =
     (case replayed s rid usage of
        Inl e \<Rightarrow> (Inl e, s)
      | Inr True \<Rightarrow> (Inr (Granted \<lparr>gr_time = tk_time t, gr_replayed = True, gr_pre = [],
                       gr_post = [], gr_fresh = [], gr_buckets = [], gr_consumed_at = tk_consumed t\<rparr>), s)
      | Inr False \<Rightarrow>
        (case get_capacities (be_heap s) (be_buckets s) (tk_time t) of
           Inl e \<Rightarrow> (Inl e, s)
         | Inr (pre, fresh) \<Rightarrow>
           (case try_consume_locked s usage pre of
              Inl e \<Rightarrow> (Inl e, s)
            | Inr (True, post) \<Rightarrow>
                op_bind (grant_locked usage rid (tk_time t) post)
                  (\<lambda>_. op_return (Granted \<lparr>gr_time = tk_time t, gr_replayed = False, gr_pre = pre,
                     gr_post = post, gr_fresh = fresh, gr_buckets = be_buckets s,
                     gr_consumed_at = tk_consumed t\<rparr>)) s
            | Inr (False, _) \<Rightarrow>
                (let s1 = upsert_diagnostic_waiter key rid usage pre deadline
                            (started_or (wl_started_at w) (tk_upsert t)) s in
                 if reached deadline (tk_deadline_check t) then (Inr (Raised capacity_timeout_error), s1)
                 else if \<not> wl_has_waited w then (Inr (FireWaitStart pre), s1)
                 else (case compute_sleep s1 usage pre of
                     Inl e \<Rightarrow> (Inr (Raised e), s1)
                   | Inr c \<Rightarrow> (Inr (Sleep (clamp_sleep c deadline (tk_remaining t))), s1))))))"

text \<open>The locals after a turn that did not return: the first failed read is kept.\<close>

definition wait_started_locals :: "tick \<Rightarrow> capacities \<Rightarrow> wait_locals \<Rightarrow> wait_locals" where
  "wait_started_locals t pre w =
     w\<lparr>wl_has_waited := True, wl_first_failed_pre := pre, wl_started_at := Some (tk_wait_started t)\<rparr>"

definition fire_wait_start ::
  "callbacks \<Rightarrow> bool \<Rightarrow> usage \<Rightarrow> pyfloat option \<Rightarrow> tick \<Rightarrow> wait_locals \<Rightarrow> wait_locals result" where
  "fire_wait_start cb installed usage deadline t w =
     (if \<not> installed then Inr w
      else if reached deadline (tk_callback_started t) then Inl capacity_timeout_error
      else bind_res (fire cb [OnWaitStart (wl_first_failed_pre w) usage]) (\<lambda>_.
        if reached deadline (tk_callback_check t) then Inl capacity_timeout_error
        else Inr (w\<lparr>wl_overhead := fadd (wl_overhead w)
                      (fsub (tk_callback_ended t) (tk_callback_started t))\<rparr>)))"

text \<open>
  The loop, one tick per turn; with no tick left the caller is still waiting (\<open>None\<close>). The
  flag says whether the waiter was registered.
\<close>

fun wait_loop ::
  "callbacks \<Rightarrow> bool \<Rightarrow> usage \<Rightarrow> pystr option \<Rightarrow> pystr \<Rightarrow> pyfloat option \<Rightarrow> tick list \<Rightarrow> wait_locals
   \<Rightarrow> bool \<Rightarrow> mem_backend \<Rightarrow> (grant \<times> wait_locals) result option \<times> bool \<times> mem_backend" where
  "wait_loop cb inst usage rid key deadline [] w reg s = (None, reg, s)"
| "wait_loop cb inst usage rid key deadline (t # ts) w reg s =
     (case wait_turn usage rid key deadline t w s of
        (Inl e, s1) \<Rightarrow> (Some (Inl e), reg, s1)
      | (Inr (Raised e), s1) \<Rightarrow> (Some (Inl e), True, s1)
      | (Inr (Granted g), s1) \<Rightarrow> (Some (Inr (g, w)), reg, s1)
      | (Inr (Sleep d), s1) \<Rightarrow> wait_loop cb inst usage rid key deadline ts w True (tk_env t s1)
      | (Inr (FireWaitStart pre), s1) \<Rightarrow>
          (case fire_wait_start cb inst usage deadline t (wait_started_locals t pre w) of
             Inl e \<Rightarrow> (Some (Inl e), True, tk_env t s1)
           | Inr w1 \<Rightarrow> wait_loop cb inst usage rid key deadline ts w1 True (tk_env t s1)))"

definition initial_locals :: wait_locals where
  "initial_locals = \<lparr>wl_has_waited = False, wl_first_failed_pre = [], wl_started_at = None,
     wl_overhead = Fin 0\<rparr>"


text \<open>Undoing a consumption whose callbacks were interrupted, on the snapshot of the buckets.\<close>

definition cancelled_caps ::
  "memory_bucket list \<Rightarrow> bref list \<Rightarrow> usage \<Rightarrow> capacities \<Rightarrow> capacities" where
  "cancelled_caps h target usage caps = map (\<lambda>(k, c). (k,
     case map_of usage (fst k) of
       None \<Rightarrow> c
     | Some a \<Rightarrow> (case find_bucket h target k of
         None \<Rightarrow> c
       | Some r \<Rightarrow> fmin (fadd c a) (mb_max_capacity (h ! r))))) caps"

definition refund_cancelled_consumption ::
  "usage \<Rightarrow> bref list \<Rightarrow> pystr option \<Rightarrow> pyfloat \<Rightarrow> (mem_backend, unit) op" where
  "refund_cancelled_consumption usage target rid now s =
     (case get_capacities (be_heap s) target now of
        Inl e \<Rightarrow> (Inl e, s)
      | Inr (caps, _) \<Rightarrow>
          op_bind (on_heap (set_capacities target (cancelled_caps (be_heap s) target usage caps) now True))
            (\<lambda>_. op_modify (forget_opt rid)) s)"

definition wait_time_s :: "grant \<Rightarrow> wait_locals \<Rightarrow> pyfloat" where
  "wait_time_s g w = fmax (Fin 0) (fsub
     (fsub (gr_consumed_at g) (started_or (wl_started_at w) (gr_consumed_at g))) (wl_overhead w))"

definition grant_events :: "mem_backend \<Rightarrow> usage \<Rightarrow> grant \<Rightarrow> wait_locals \<Rightarrow> callback_event list" where
  "grant_events s usage g w =
     map (\<lambda>r. OnMissingConsumptionData (mb_id (be_heap s ! r))) (gr_fresh g)
     @ [OnCapacityConsumed (gr_pre g) (gr_post g) usage (gr_time g)]
     @ (if wl_has_waited w then [AfterWaitEnd (gr_pre g) (gr_post g) usage (wait_time_s g w)] else [])"

text \<open>
  The steps after the loop: on a critical exception of a callback the consumption is
  refunded at \<open>cancel_now\<close>, and the exception propagates whatever the refund does.
  \<open>env\<close> is what other threads do while the callbacks run without the lock.
\<close>

definition after_grant ::
  "callbacks \<Rightarrow> usage \<Rightarrow> pystr option \<Rightarrow> pyfloat \<Rightarrow> (mem_backend \<Rightarrow> mem_backend) \<Rightarrow> grant \<Rightarrow> wait_locals
   \<Rightarrow> (mem_backend, pyfloat) op" where
  "after_grant cb usage rid cancel_now env g w s =
     (if gr_replayed g then (Inr (gr_time g), s)
      else case fire cb (grant_events s usage g w) of
        Inr _ \<Rightarrow> (Inr (gr_time g), env s)
      | Inl e \<Rightarrow> (Inl e, snd (refund_cancelled_consumption usage (gr_buckets g) rid cancel_now (env s))))"

definition pop_waiter :: "bool \<Rightarrow> pystr \<Rightarrow> mem_backend \<Rightarrow> mem_backend" where
  "pop_waiter reg key s = (if reg then s\<lparr>be_waiters := dict_pop key (be_waiters s)\<rparr> else s)"

definition waiter_key :: "pystr option \<Rightarrow> pystr \<Rightarrow> pystr" where
  "waiter_key rid uuid_hex = (case rid of
     Some i \<Rightarrow> if i = [] then ps ''memory:'' @ uuid_hex else i | None \<Rightarrow> ps ''memory:'' @ uuid_hex)"

text \<open>
  \<open>started\<close> is the monotonic reading the deadline is counted from, \<open>inst\<close> whether an
  \<^verbatim>\<open>on_wait_start\<close> callback is installed.
\<close>

definition wait_for_capacity ::
  "unicode_db \<Rightarrow> callbacks \<Rightarrow> bool \<Rightarrow> raw_usage \<Rightarrow> pyval \<Rightarrow> pystr option \<Rightarrow> pystr \<Rightarrow> pyfloat
   \<Rightarrow> tick list \<Rightarrow> pyfloat \<Rightarrow> (mem_backend \<Rightarrow> mem_backend) \<Rightarrow> mem_backend
   \<Rightarrow> pyfloat result option \<times> mem_backend" where
  "wait_for_capacity udb cb inst raw timeout rid uuid_hex started ticks cancel_now env s =
     (case bind_res (validate_backend_usage udb raw (be_usage_metric_names s)) (\<lambda>_.
             bind_res (validate_timeout timeout) (\<lambda>to.
               bind_res (usage_floats raw) (\<lambda>usage. Inr (to, usage)))) of
        Inl e \<Rightarrow> (Some (Inl e), s)
      | Inr (to, usage) \<Rightarrow>
        (let deadline = map_option (fadd started) to; key = waiter_key rid uuid_hex in
         case wait_loop cb inst usage rid key deadline ticks initial_locals False s of
           (None, _, s1) \<Rightarrow> (None, s1)
         | (Some (Inl e), reg, s1) \<Rightarrow> (Some (Inl e), pop_waiter reg key s1)
         | (Some (Inr (g, w)), reg, s1) \<Rightarrow>
             (case after_grant cb usage rid cancel_now env g w (pop_waiter reg key s1) of
                (r, s2) \<Rightarrow> (Some r, s2))))"

section \<open>Refunding\<close>

text \<open>The refund per metric, reserved minus actual; negative for overuse.\<close>

definition refund_amounts :: "raw_usage \<Rightarrow> raw_usage \<Rightarrow> usage result" where
  "refund_amounts reserved actual = for_each reserved (\<lambda>(m, v) acc.
     (case map_of actual m of
        None \<Rightarrow> Inl KeyError
      | Some w \<Rightarrow> bind_res (py_float v) (\<lambda>a. bind_res (py_float w) (\<lambda>b.
          Inr (acc @ [(m, fsub a b)]))))) []"

text \<open>The new value of each bucket that was read; the bucket object comes from the registry.\<close>

definition refunded_value :: "pyfloat \<Rightarrow> pyfloat \<Rightarrow> pyfloat \<Rightarrow> pyfloat" where
  "refunded_value mx c a = fmax (fneg mx) (fmin (fadd c (fmax a (fneg mx))) mx)"

definition updated_capacities ::
  "mem_backend \<Rightarrow> bucket_id set \<Rightarrow> usage \<Rightarrow> capacities \<Rightarrow> capacities result" where
  "updated_capacities s refund_ids refund caps = for_each caps (\<lambda>(k, c) acc.
     if k \<notin> refund_ids then Inr (acc @ [(k, c)])
     else case map_of refund (fst k) of
         None \<Rightarrow> Inr (acc @ [(k, c)])
       | Some a \<Rightarrow> (case map_of (be_registry s) k of
           None \<Rightarrow> Inl KeyError
         | Some r \<Rightarrow> Inr (acc @ [(k, refunded_value (mb_max_capacity (be_heap s ! r)) c a)]))) []"

text \<open>The ledger check: only a live reservation may be refunded.\<close>

definition refund_check :: "mem_backend \<Rightarrow> pystr option \<Rightarrow> unit result" where
  "refund_check s rid = (case rid of
     None \<Rightarrow> Inr ()
   | Some i \<Rightarrow>
     if i \<in> be_acquired_ids s then Inr ()
     else if i \<in> be_refunded_ids s then Inl (DuplicateRefundError AlreadyRefunded)
     else Inl UnknownReservationError)"

definition close_reservation :: "pystr option \<Rightarrow> mem_backend \<Rightarrow> mem_backend" where
  "close_reservation rid s = (case rid of
     None \<Rightarrow> s
   | Some i \<Rightarrow> remember_refunded_reservation_id i (forget_acquired_reservation i s))"

definition refund_locked ::
  "raw_usage \<Rightarrow> raw_usage \<Rightarrow> usage \<Rightarrow> bucket_id set \<Rightarrow> pystr option \<Rightarrow> pyfloat
   \<Rightarrow> (mem_backend, callback_event list) op" where
  "refund_locked reserved actual refund refund_ids rid now s =
     (case refund_check s rid of
        Inl e \<Rightarrow> (Inl e, s)
      | Inr _ \<Rightarrow>
        if refund_ids = {} then (Inr [], close_reservation rid s)
        else (case bind_res (get_capacities (be_heap s) (be_buckets s) now) (\<lambda>(pre, fresh).
                  bind_res (updated_capacities s refund_ids refund pre) (\<lambda>upd.
                    Inr (pre, fresh, upd))) of
            Inl e \<Rightarrow> (Inl e, s)
          | Inr (pre, fresh, upd) \<Rightarrow>
              op_bind (on_heap (set_capacities (be_buckets s)
                         (filter (\<lambda>(k, c). k \<in> refund_ids) upd) now True))
                (\<lambda>_. op_bind (op_modify (close_reservation rid)) (\<lambda>_. op_return (
                   map (\<lambda>r. OnMissingConsumptionData (mb_id (be_heap s ! r))) fresh
                   @ [OnCapacityRefunded reserved actual refund pre upd]))) s))"

definition refund_capacity_for_buckets ::
  "unicode_db \<Rightarrow> callbacks \<Rightarrow> raw_usage \<Rightarrow> raw_usage \<Rightarrow> bucket_id set option \<Rightarrow> pystr option \<Rightarrow> pyfloat
   \<Rightarrow> (mem_backend, bool) op" where
  "refund_capacity_for_buckets udb cb reserved actual bids rid now s =
     (let backend_ids = bucket_ids s;
          refund_ids = (case bids of None \<Rightarrow> backend_ids | Some b \<Rightarrow> b) in
      case validate_backend_refund_usage_for_bucket_ids udb reserved actual refund_ids backend_ids of
        Inl e \<Rightarrow> (Inl e, s)
      | Inr _ \<Rightarrow>
        if refund_ids = {} \<and> rid = None then (Inr True, s)
        else (case refund_amounts reserved actual of
            Inl e \<Rightarrow> (Inl e, s)
          | Inr refund \<Rightarrow>
              op_bind (refund_locked reserved actual refund refund_ids rid now)
                (\<lambda>events. op_bind (op_lift (fire cb events)) (\<lambda>_. op_return True)) s))"

definition refund_capacity ::
  "unicode_db \<Rightarrow> callbacks \<Rightarrow> raw_usage \<Rightarrow> raw_usage \<Rightarrow> pyfloat \<Rightarrow> (mem_backend, bool) op" where
  "refund_capacity udb cb reserved actual now s =
     refund_capacity_for_buckets udb cb reserved actual (Some (bucket_ids s)) None now s"

section \<open>Changing limits\<close>

definition be_set_max_capacity ::
  "pystr \<Rightarrow> int \<Rightarrow> pyval \<Rightarrow> pyfloat \<Rightarrow> (mem_backend, unit) op" where
  "be_set_max_capacity metric per_seconds value now s =
     (case find_bucket (be_heap s) (be_buckets s) (metric, per_seconds) of
        None \<Rightarrow> (Inl (ValueError ''Bucket not found''), s)
      | Some r \<Rightarrow> on_heap (\<lambda>h. case set_max_capacity value now (h ! r) of
          (res, b) \<Rightarrow> (res, h[r := b])) s)"

definition apply_configured_max_capacity ::
  "pystr \<Rightarrow> int \<Rightarrow> pyval \<Rightarrow> pyfloat \<Rightarrow> (mem_backend, unit) op" where
  "apply_configured_max_capacity metric per_seconds value now =
     op_bind (be_set_max_capacity metric per_seconds value now) (\<lambda>_.
       op_bind (op_lift (py_float value)) (\<lambda>v.
         op_modify (\<lambda>s. s\<lparr>be_configured_limits :=
           dict_set (metric, per_seconds) v (be_configured_limits s)\<rparr>)))"

text \<open>
  Reconfiguration: a bucket that exists keeps its state under its new limit, a new one is
  allocated. The loop state is the heap, the dictionary of buckets and the prepared list.
\<close>

definition prepare_quota ::
  "unicode_db \<Rightarrow> per_model_config \<Rightarrow> pyfloat \<Rightarrow> quota
   \<Rightarrow> (memory_bucket list \<times> (bucket_id, bref) dict \<times> bref list, unit) op" where
  "prepare_quota udb cfg now q st = (case st of (h, existing, prepared) \<Rightarrow>
     (case map_of existing (quota_bucket_id q) of
        None \<Rightarrow> (case mk_bucket_of_quota udb cfg q of
            Inl e \<Rightarrow> (Inl e, st)
          | Inr b \<Rightarrow> (Inr (), h @ [b], dict_set (quota_bucket_id q) (length h) existing,
                       prepared @ [length h]))
      | Some r \<Rightarrow> (case set_max_capacity (VFloat (q_limit q)) now (h ! r) of
            (Inl e, b) \<Rightarrow> (Inl e, h[r := b], existing, prepared)
          | (Inr _, b) \<Rightarrow> (Inr (), h[r := b], dict_set (quota_bucket_id q) r existing,
                       prepared @ [r]))))"

definition install_reconfigured_state ::
  "bref list \<Rightarrow> per_model_config \<Rightarrow> mem_backend \<Rightarrow> mem_backend" where
  "install_reconfigured_state buckets cfg s =
     s\<lparr>be_buckets := buckets,
       be_usage_metric_names := (\<lambda>r. mb_metric (be_heap s ! r)) ` set buckets,
       be_registry := fold (\<lambda>r d. dict_set (mb_id (be_heap s ! r)) r d) buckets (be_registry s),
       be_limit_config := cfg,
       be_configured_limits := quota_limits (uq_iter (cfg_quotas cfg))\<rparr>"

definition prepare_reconfigured_backend ::
  "unicode_db \<Rightarrow> per_model_config \<Rightarrow> pyfloat \<Rightarrow> (mem_backend, unit) op" where
  "prepare_reconfigured_backend udb cfg now s =
     (let qs = uq_iter (cfg_quotas cfg) in
      case op_for_each qs (prepare_quota udb cfg now) (be_heap s, be_registry s, []) of
        (Inl e, (h, _, _)) \<Rightarrow> (Inl e, s\<lparr>be_heap := h\<rparr>)
      | (Inr _, (h, existing, prepared)) \<Rightarrow>
          (Inr (), install_reconfigured_state prepared cfg
            (s\<lparr>be_heap := h,
               be_registry := filter (\<lambda>(k, r). k \<in> quota_bucket_id ` set qs) existing\<rparr>)))"

section \<open>Introspection\<close>

record bucket_row =
  row_id :: bucket_id
  row_capacity :: pyfloat
  row_configured :: pyfloat
  row_effective :: pyfloat
  row_overridden :: bool
  row_fresh :: bool

definition introspect_buckets :: "mem_backend \<Rightarrow> pyfloat \<Rightarrow> bucket_row list result" where
  "introspect_buckets s now = for_each (be_buckets s) (\<lambda>r rows.
     let b = be_heap s ! r;
         configured = dict_get (be_configured_limits s) (mb_id b) (mb_max_capacity b) in
     bind_res (get_capacity b now) (\<lambda>c.
       Inr (rows @ [\<lparr>row_id = mb_id b, row_capacity = amount c, row_configured = configured,
         row_effective = mb_max_capacity b,
         row_overridden = (\<not> isclose (flit (1 / 1000000000000)) configured (mb_max_capacity b)),
         row_fresh = is_fresh_start c\<rparr>]))) []"

end
