(* ===== verification/MemoryLaws.thy ===== *)
theory MemoryLaws
  imports MemoryBackend
begin

text \<open>
  What the critical sections of the in-process backend do to a well-formed state: the bucket
  store first (reads return the visible capacities, bulk writes change the addressed buckets
  only), then consumption, refund, reconfiguration and the reservation ledger.
\<close>

section \<open>The store of buckets\<close>

definition heap_wf :: "memory_bucket list \<Rightarrow> bref list \<Rightarrow> bool" where
  "heap_wf h target \<longleftrightarrow> (\<forall>r \<in> set target. r < length h) \<and> (\<forall>b \<in> set h. bucket_wf b) \<and>
     distinct (map (\<lambda>r. mb_id (h ! r)) target)"

text \<open>The capacities that \<open>get_capacities\<close> reads.\<close>

definition visible_caps :: "memory_bucket list \<Rightarrow> bref list \<Rightarrow> pyfloat \<Rightarrow> capacities" where
  "visible_caps h target now = map (\<lambda>r. (mb_id (h ! r), visible (h ! r) now)) target"

definition fresh_refs :: "memory_bucket list \<Rightarrow> bref list \<Rightarrow> bref list" where
  "fresh_refs h target = filter (\<lambda>r. mb_capacity (h ! r) = None) target"

lemma dict_set_new: "k \<notin> set (map fst d) \<Longrightarrow> dict_set k v d = d @ [(k, v)]"
  by (induction d) auto

lemma heap_wf_bucket: "heap_wf h target \<Longrightarrow> r \<in> set target \<Longrightarrow> bucket_wf (h ! r)"
  by (simp add: heap_wf_def)

lemma heap_wf_append: "heap_wf h (xs @ ys) \<Longrightarrow> heap_wf h xs \<and> heap_wf h ys"
  by (simp add: heap_wf_def)

lemma keys_visible_caps [simp]: "map fst (visible_caps h target now) = map (\<lambda>r. mb_id (h ! r)) target"
  by (simp add: visible_caps_def)

lemma get_capacities_acc:
  assumes "heap_wf h (pre @ target)" "clock_ok now"
  shows "for_each target (\<lambda>r (caps, fresh). bind_res (get_capacity (h ! r) now) (\<lambda>res.
         Inr (dict_set (mb_id (h ! r)) (amount res) caps,
              if is_fresh_start res then fresh @ [r] else fresh)))
      (visible_caps h pre now, fresh_refs h pre) =
    Inr (visible_caps h (pre @ target) now, fresh_refs h (pre @ target))"
  using assms(1)
proof (induction target arbitrary: pre)
  case (Cons r rs)
  then have "bucket_wf (h ! r)" by (simp add: heap_wf_def)
  then have g: "get_capacity (h ! r) now =
     Inr \<lparr>amount = visible (h ! r) now, is_fresh_start = (mb_capacity (h ! r) = None)\<rparr>"
    using assms(2) by (rule get_capacity_wf)
  have "mb_id (h ! r) \<notin> set (map fst (visible_caps h pre now))"
    using Cons.prems by (auto simp: heap_wf_def)
  then have s: "dict_set (mb_id (h ! r)) (visible (h ! r) now) (visible_caps h pre now) =
      visible_caps h (pre @ [r]) now"
    by (simp add: dict_set_new) (simp add: visible_caps_def)
  have f: "(if mb_capacity (h ! r) = None then fresh_refs h pre @ [r] else fresh_refs h pre) =
      fresh_refs h (pre @ [r])"
    by (simp add: fresh_refs_def)
  from Cons.IH [of "pre @ [r]"] Cons.prems show ?case
    by (simp add: g s f del: if_split)
qed simp

lemma get_capacities_wf:
  assumes "heap_wf h target" "clock_ok now"
  shows "get_capacities h target now = Inr (visible_caps h target now, fresh_refs h target)"
  using get_capacities_acc [of h "[]" target now] assms
  by (simp add: get_capacities_def visible_caps_def fresh_refs_def)

lemma map_of_visible_caps:
  assumes "heap_wf h target"
  shows "map_of (visible_caps h target now) k = Some c \<longleftrightarrow>
    (\<exists>r \<in> set target. mb_id (h ! r) = k \<and> c = visible (h ! r) now)"
proof -
  have "distinct (map fst (visible_caps h target now))" using assms by (simp add: heap_wf_def)
  then have "map_of (visible_caps h target now) k = Some c \<longleftrightarrow> (k, c) \<in> set (visible_caps h target now)"
    by simp
  also have "\<dots> \<longleftrightarrow> (\<exists>r \<in> set target. mb_id (h ! r) = k \<and> c = visible (h ! r) now)"
    by (auto simp: visible_caps_def)
  finally show ?thesis .
qed

lemma find_bucket_wf:
  assumes "heap_wf h target" "r \<in> set target"
  shows "find_bucket h target (mb_id (h ! r)) = Some r"
proof (cases "find_bucket h target (mb_id (h ! r))")
  case None
  then show ?thesis using assms(2) by (auto simp: find_bucket_def find_None_iff')
next
  case (Some x)
  then have x: "x \<in> set target" "mb_id (h ! x) = mb_id (h ! r)"
    unfolding find_bucket_def by (auto dest: find_Some_iff)
  have "inj_on (\<lambda>r. mb_id (h ! r)) (set target)" using assms(1)
    by (simp add: heap_wf_def distinct_map)
  with x assms(2) have "x = r" by (auto dest: inj_onD)
  with Some show ?thesis by simp
qed

text \<open>The heap after a bulk write: the addressed buckets hold the new value and time.\<close>

definition write_caps ::
  "bref list \<Rightarrow> capacities \<Rightarrow> pyfloat \<Rightarrow> bool \<Rightarrow> memory_bucket list \<Rightarrow> memory_bucket list" where
  "write_caps target caps now an h = map (\<lambda>r. let b = h ! r in
     case (if r \<in> set target then map_of caps (mb_id b) else None) of
       None \<Rightarrow> b
     | Some a \<Rightarrow> b\<lparr>mb_capacity := Some (stored a an), mb_last_checked := Some now\<rparr>) [0..<length h]"

lemma length_write_caps [simp]: "length (write_caps target caps now an h) = length h"
  by (simp add: write_caps_def)

lemma nth_write_caps:
  "r < length h \<Longrightarrow> write_caps target caps now an h ! r =
     (case (if r \<in> set target then map_of caps (mb_id (h ! r)) else None) of None \<Rightarrow> h ! r
      | Some a \<Rightarrow> (h ! r)\<lparr>mb_capacity := Some (stored a an), mb_last_checked := Some now\<rparr>)"
  by (simp add: write_caps_def Let_def split: option.split)

lemma write_caps_fields [simp]:
  assumes "r < length h"
  shows "mb_id (write_caps target caps now an h ! r) = mb_id (h ! r)"
    "mb_metric (write_caps target caps now an h ! r) = mb_metric (h ! r)"
    "mb_max_capacity (write_caps target caps now an h ! r) = mb_max_capacity (h ! r)"
    "mb_rate_per_sec (write_caps target caps now an h ! r) = mb_rate_per_sec (h ! r)"
  using assms by (simp_all add: nth_write_caps mb_id_def split: option.splits)

lemma heap_update_ids:
  "mb_id b = mb_id (h ! r) \<Longrightarrow> mb_id (h[r := b] ! i) = mb_id (h ! i)"
  by (cases "r < length h") (auto simp: nth_list_update list_update_beyond)

lemma heap_wf_update:
  assumes "heap_wf h target" "bucket_wf b" "mb_id b = mb_id (h ! r)"
  shows "heap_wf (h[r := b]) target"
  using assms by (auto simp: heap_wf_def heap_update_ids dest: set_update_subset_insert [THEN subsetD])

lemma set_capacities_write:
  assumes "heap_wf h target" "distinct (map fst caps)" "clock_ok now"
    "\<forall>(k, a) \<in> set caps. k \<in> (\<lambda>r. mb_id (h ! r)) ` set target \<and> stored_ok a"
  shows "set_capacities target caps now an h = (Inr (), write_caps target caps now an h)"
  using assms(2,4,1)
proof (induction caps arbitrary: h)
  case Nil
  have "write_caps target [] now an h = h"
    by (rule nth_equalityI) (simp_all add: nth_write_caps)
  then show ?case by (simp add: set_capacities_def)
next
  case (Cons p caps)
  obtain k a where p: "p = (k, a)" by (cases p)
  from Cons.prems p obtain r where r: "r \<in> set target" "k = mb_id (h ! r)" "stored_ok a" by auto
  have rl: "r < length h" using Cons.prems(3) r(1) by (simp add: heap_wf_def)
  let ?b = "(h ! r)\<lparr>mb_capacity := Some (stored a an), mb_last_checked := Some now\<rparr>"
  let ?h = "h[r := ?b]"
  have idb: "mb_id ?b = mb_id (h ! r)" by (simp add: mb_id_def)
  have wf: "heap_wf ?h target" using Cons.prems(3) set_capacity_wf [OF _ r(3) assms(3)] r(1) idb
    by (intro heap_wf_update) (auto simp: heap_wf_def)
  have "isfinite a" using r(3) by (simp add: stored_ok_def)
  then have step: "set_capacities target (p # caps) now an h = set_capacities target caps now an ?h"
    using find_bucket_wf [OF Cons.prems(3) r(1)]
    by (simp add: set_capacities_def p r(2) op_bind_def set_capacity_ok)
  have ih: "set_capacities target caps now an ?h = (Inr (), write_caps target caps now an ?h)"
    using Cons.prems wf idb by (intro Cons.IH) (auto simp: heap_update_ids)
  have inj: "mb_id (h ! i) = k \<Longrightarrow> i \<in> set target \<Longrightarrow> i = r" for i
    using Cons.prems(3) r by (auto simp: heap_wf_def distinct_map inj_on_def)
  have "k \<notin> set (map fst caps)" using Cons.prems(1) p by simp
  then have nk: "map_of caps k = None" by (simp add: map_of_eq_None_iff)
  have "write_caps target caps now an ?h = write_caps target (p # caps) now an h"
  proof (rule nth_equalityI)
    fix i assume "i < length (write_caps target caps now an ?h)"
    then have i: "i < length h" by simp
    show "write_caps target caps now an ?h ! i = write_caps target (p # caps) now an h ! i"
    proof (cases "i = r")
      case True
      then show ?thesis using i r nk idb by (simp add: nth_write_caps p)
    next
      case False
      then have "i \<in> set target \<Longrightarrow> mb_id (h ! i) \<noteq> k" using inj by blast
      with False i show ?thesis by (auto simp: nth_write_caps p split: option.splits)
    qed
  qed simp
  with step ih show ?case by simp
qed

lemma write_caps_wf:
  assumes "heap_wf h target" "clock_ok now" "\<forall>(k, a) \<in> set caps. stored_ok a"
  shows "heap_wf (write_caps target caps now an h) target"
proof -
  have "bucket_wf (write_caps target caps now an h ! r)" if "r < length h" for r
  proof (cases "if r \<in> set target then map_of caps (mb_id (h ! r)) else None")
    case (Some a)
    then have "(mb_id (h ! r), a) \<in> set caps" by (auto split: if_splits dest: map_of_SomeD)
    then have "stored_ok a" using assms(3) by auto
    then show ?thesis using that Some assms set_capacity_wf by (simp add: nth_write_caps heap_wf_def)
  qed (use that assms(1) in \<open>simp add: nth_write_caps heap_wf_def\<close>)
  moreover have "map (\<lambda>r. mb_id (write_caps target caps now an h ! r)) target =
    map (\<lambda>r. mb_id (h ! r)) target" using assms(1) by (auto simp: heap_wf_def)
  ultimately show ?thesis using assms(1) unfolding heap_wf_def
    by (metis (no_types, lifting) in_set_conv_nth length_write_caps)
qed

text \<open>What is read back at the instant of the write.\<close>

lemma visible_write_caps:
  assumes "heap_wf h target" "clock_ok now" "\<forall>(k, a) \<in> set caps. stored_ok a" "r \<in> set target"
  shows "visible (write_caps target caps now an h ! r) now =
    (case map_of caps (mb_id (h ! r)) of None \<Rightarrow> visible (h ! r) now
     | Some a \<Rightarrow> fmin (mb_max_capacity (h ! r)) (stored a an))"
proof (cases "map_of caps (mb_id (h ! r))")
  case None
  then show ?thesis using assms by (simp add: nth_write_caps heap_wf_def)
next
  case (Some a)
  then have "stored_ok a" using assms(3) by (auto dest: map_of_SomeD)
  moreover have "bucket_wf (h ! r)" "r < length h" using assms(1,4) by (auto simp: heap_wf_def)
  ultimately show ?thesis using Some assms(2,4)
    by (simp add: nth_write_caps set_capacity_visible)
qed
section \<open>The invariant of the backend\<close>

definition ledger_wf :: "mem_backend \<Rightarrow> bool" where
  "ledger_wf s \<longleftrightarrow> be_acquired_ids s = set (dict_keys (be_acquired_values s)) \<and>
     distinct (be_refunded_order s) \<and> set (be_refunded_order s) = be_refunded_ids s \<and>
     length (be_refunded_order s) \<le> be_refunded_cap s \<and>
     be_acquired_ids s \<inter> be_refunded_ids s = {}"

definition mem_wf :: "mem_backend \<Rightarrow> bool" where
  "mem_wf s \<longleftrightarrow> heap_wf (be_heap s) (be_buckets s) \<and>
     (\<forall>k r. map_of (be_registry s) k = Some r \<longleftrightarrow>
        r \<in> set (be_buckets s) \<and> mb_id (be_heap s ! r) = k) \<and>
     be_usage_metric_names s = (\<lambda>r. mb_metric (be_heap s ! r)) ` set (be_buckets s) \<and>
     ledger_wf s"

text \<open>Usage after validation and conversion: finite non-negative doubles.\<close>

definition usage_ok :: "usage \<Rightarrow> bool" where
  "usage_ok u \<longleftrightarrow> (\<forall>(m, a) \<in> set u. stored_ok a \<and> fle (Fin 0) a)"

definition avail :: "mem_backend \<Rightarrow> pyfloat \<Rightarrow> bref \<Rightarrow> pyfloat" where
  "avail s now r = visible (be_heap s ! r) now"

lemma mem_wf_heap: "mem_wf s \<Longrightarrow> heap_wf (be_heap s) (be_buckets s)"
  by (simp add: mem_wf_def)

lemma usage_ok_get:
  assumes "usage_ok u" "map_of u m = Some a"
  obtains q where "a = Fin q" "0 \<le> q" "is_dbl (Fin q)"
proof -
  from assms have "stored_ok a" "fle (Fin 0) a" by (auto simp: usage_ok_def dest: map_of_SomeD)
  then show ?thesis using that by (auto simp: stored_ok_def isfinite_Fin)
qed

lemma visible_wf:
  assumes "bucket_wf b" "clock_ok now"
  obtains a m where "visible b now = Fin a" "mb_max_capacity b = Fin m" "0 < m" "a \<le> m"
    "is_dbl (Fin a)" "is_dbl (Fin m)"
  using get_capacity_wf(2) [OF assms] bucket_wfE [OF assms(1)]
  by (metis (no_types, lifting) pyfloat.inject)

lemma stored_ok_Fin [simp]: "stored_ok (Fin q) \<longleftrightarrow> is_dbl (Fin q)"
  by (simp add: stored_ok_def)

text \<open>A subtraction that does not go below zero.\<close>

lemma fsub_within:
  assumes "0 \<le> a" "a \<le> c" "is_dbl (Fin c)"
  obtains d where "fsub (Fin c) (Fin a) = Fin d" "0 \<le> d" "d \<le> c" "is_dbl (Fin d)"
proof -
  have "fle (Fin 0) (rnd (c - a))" using assms(2) by (intro rnd_nonneg) simp
  moreover have "fle (rnd (c - a)) (Fin c)" using assms by (intro rnd_le) simp_all
  moreover have "is_dbl (rnd (c - a))" by simp
  ultimately show ?thesis using that by (cases "rnd (c - a)") auto
qed

text \<open>Replacing the heap by a bulk write keeps the invariant.\<close>

lemma mem_wf_write:
  assumes "mem_wf s" "clock_ok now" "\<forall>(k, a) \<in> set caps. stored_ok a"
    "heap_wf (be_heap s) target"
  shows "mem_wf (s\<lparr>be_heap := write_caps target caps now an (be_heap s)\<rparr>)"
proof -
  have h: "heap_wf (be_heap s) (be_buckets s)" using assms(1) by (simp add: mem_wf_def)
  then have len: "\<And>r. r \<in> set (be_buckets s) \<Longrightarrow> r < length (be_heap s)" by (simp add: heap_wf_def)
  have "heap_wf (write_caps target caps now an (be_heap s)) target"
    using assms by (intro write_caps_wf)
  then have "heap_wf (write_caps target caps now an (be_heap s)) (be_buckets s)"
    using h len by (auto simp: heap_wf_def cong: map_cong)
  then show ?thesis using assms(1) len
    by (auto simp: mem_wf_def ledger_wf_def image_iff)
qed

section \<open>The ledger\<close>

lemma evict_eq:
  "distinct xs \<Longrightarrow> evict cap (set xs) xs =
     (set (drop (length xs - cap) xs), drop (length xs - cap) xs)"
proof (induction xs)
  case (Cons x xs)
  then have "card (set (x # xs)) = Suc (length xs)" "set (x # xs) - {x} = set xs"
    by (auto simp: distinct_card)
  with Cons show ?case by (auto simp: Suc_diff_le simp del: set_simps)
qed simp

lemma remember_refunded_eq:
  assumes "ledger_wf s" "rid \<notin> be_refunded_ids s"
  shows "remember_refunded_reservation_id rid s =
    (let order = be_refunded_order s @ [rid]; kept = drop (length order - be_refunded_cap s) order in
     s\<lparr>be_refunded_ids := set kept, be_refunded_order := kept\<rparr>)"
proof -
  have "distinct (be_refunded_order s @ [rid])"
    "insert rid (be_refunded_ids s) = set (be_refunded_order s @ [rid])"
    using assms by (auto simp: ledger_wf_def)
  with assms(2) show ?thesis
    unfolding remember_refunded_reservation_id_def
    by (simp add: evict_eq Let_def del: set_append distinct_append drop_append length_append)
qed

lemma remember_refunded_wf:
  assumes "ledger_wf s" "rid \<notin> be_acquired_ids s"
  shows "ledger_wf (remember_refunded_reservation_id rid s)"
proof (cases "rid \<in> be_refunded_ids s")
  case True
  then show ?thesis using assms by (simp add: remember_refunded_reservation_id_def)
next
  case False
  let ?o = "be_refunded_order s @ [rid]"
  let ?k = "drop (length ?o - be_refunded_cap s) ?o"
  have "distinct ?o" "set ?o = insert rid (be_refunded_ids s)"
    using assms False by (auto simp: ledger_wf_def)
  then have "distinct ?k" "set ?k \<subseteq> insert rid (be_refunded_ids s)" "length ?k \<le> be_refunded_cap s"
    using set_drop_subset [of "length ?o - be_refunded_cap s" ?o] by (auto simp del: drop_append)
  then show ?thesis using assms unfolding remember_refunded_eq [OF assms(1) False]
    by (auto simp: ledger_wf_def Let_def simp del: drop_append)
qed

lemma remember_refunded_fields [simp]:
  "be_heap (remember_refunded_reservation_id rid s) = be_heap s"
  "be_buckets (remember_refunded_reservation_id rid s) = be_buckets s"
  "be_registry (remember_refunded_reservation_id rid s) = be_registry s"
  "be_usage_metric_names (remember_refunded_reservation_id rid s) = be_usage_metric_names s"
  "be_acquired_ids (remember_refunded_reservation_id rid s) = be_acquired_ids s"
  "be_acquired_values (remember_refunded_reservation_id rid s) = be_acquired_values s"
  by (auto simp: remember_refunded_reservation_id_def split: prod.splits)

lemma record_wf:
  assumes "ledger_wf s" "rid \<notin> be_refunded_ids s"
  shows "ledger_wf (record_acquired_reservation rid u s)"
  using assms keys_dict_set [of rid "(bucket_ids s, u)" "be_acquired_values s"]
  by (auto simp: ledger_wf_def record_acquired_reservation_def dict_keys_def)

lemma forget_wf: "ledger_wf s \<Longrightarrow> ledger_wf (forget_acquired_reservation rid s)"
  by (auto simp: ledger_wf_def forget_acquired_reservation_def dict_keys_def dict_pop_def)

lemma record_fields [simp]:
  "be_heap (record_opt rid u s) = be_heap s" "be_buckets (record_opt rid u s) = be_buckets s"
  "be_registry (record_opt rid u s) = be_registry s"
  "be_usage_metric_names (record_opt rid u s) = be_usage_metric_names s"
  "be_refunded_ids (record_opt rid u s) = be_refunded_ids s"
  by (simp_all add: record_opt_def record_acquired_reservation_def split: option.split)

lemma forget_fields [simp]:
  "be_heap (forget_opt rid s) = be_heap s" "be_buckets (forget_opt rid s) = be_buckets s"
  "be_registry (forget_opt rid s) = be_registry s"
  "be_usage_metric_names (forget_opt rid s) = be_usage_metric_names s"
  "be_refunded_ids (forget_opt rid s) = be_refunded_ids s"
  by (simp_all add: forget_opt_def forget_acquired_reservation_def split: option.split)

lemma close_fields [simp]:
  "be_heap (close_reservation rid s) = be_heap s" "be_buckets (close_reservation rid s) = be_buckets s"
  "be_registry (close_reservation rid s) = be_registry s"
  "be_usage_metric_names (close_reservation rid s) = be_usage_metric_names s"
  by (simp_all add: close_reservation_def forget_acquired_reservation_def split: option.split)

lemma mem_wf_ledger:
  assumes "mem_wf s" "ledger_wf t" "be_heap t = be_heap s" "be_buckets t = be_buckets s"
    "be_registry t = be_registry s" "be_usage_metric_names t = be_usage_metric_names s"
  shows "mem_wf t"
  using assms by (simp add: mem_wf_def)

lemma close_wf: "ledger_wf s \<Longrightarrow> ledger_wf (close_reservation rid s)"
proof (cases rid)
  case (Some i)
  assume "ledger_wf s"
  then have "ledger_wf (forget_acquired_reservation i s)" by (rule forget_wf)
  moreover have "i \<notin> be_acquired_ids (forget_acquired_reservation i s)"
    by (simp add: forget_acquired_reservation_def)
  ultimately show ?thesis using Some by (simp add: close_reservation_def remember_refunded_wf)
qed (simp add: close_reservation_def)

lemma acquired_None: "ledger_wf s \<Longrightarrow> i \<notin> be_acquired_ids s \<longleftrightarrow> map_of (be_acquired_values s) i = None"
  by (simp add: ledger_wf_def dict_keys_def map_of_eq_None_iff)

lemma replayed_False:
  assumes "ledger_wf s"
  shows "replayed s rid u = Inr False \<longleftrightarrow>
     (\<forall>i. rid = Some i \<longrightarrow> i \<notin> be_acquired_ids s \<and> i \<notin> be_refunded_ids s)"
proof (cases rid)
  case (Some i)
  show ?thesis unfolding Some using acquired_None [OF assms, of i]
    by (cases "map_of (be_acquired_values s) i")
       (simp_all add: replayed_def is_replayed_acquire_def split: prod.split)
qed (simp add: replayed_def)
section \<open>Granted consumption\<close>

text \<open>What a granted wait leaves in a bucket that showed \<open>c\<close>.\<close>

definition granted_value :: "usage \<Rightarrow> pyfloat \<Rightarrow> pystr \<Rightarrow> pyfloat" where
  "granted_value u c m = (case map_of u m of None \<Rightarrow> fmax (Fin 0) c | Some a \<Rightarrow> fsub c a)"

lemma fst_mb_id [simp]: "fst (mb_id b) = mb_metric b"
  by (simp add: mb_id_def)


lemma not_insufficient:
  "\<not> insufficient u (visible_caps h target now) \<longleftrightarrow>
     (\<forall>(m, a) \<in> set u. \<forall>r \<in> set target. mb_metric (h ! r) = m \<longrightarrow> \<not> flt (visible (h ! r) now) a)"
  by (auto simp: insufficient_def list_ex_iff visible_caps_def mb_id_def)

lemma metrics_visible_caps:
  "fst ` set (dict_keys (visible_caps h target now)) = (\<lambda>r. mb_metric (h ! r)) ` set target"
  by (simp add: dict_keys_def image_image)

lemma try_consume_True:
  assumes "try_consume_locked s u pre = Inr (True, post)"
  shows "\<not> insufficient u pre"
    "post = map (\<lambda>(k, c). (k, case map_of u (fst k) of None \<Rightarrow> c | Some a \<Rightarrow> fsub c a)) pre"
  using assms by (auto simp: try_consume_locked_def res_simps split: if_split_asm)

lemma grant_locked_wf:
  assumes "mem_wf s" "clock_ok now" "usage_ok u"
    "try_consume_locked s u (visible_caps (be_heap s) (be_buckets s) now) = Inr (True, post)"
  defines "h \<equiv> write_caps (be_buckets s) post now False (be_heap s)"
  shows "grant_locked u rid now post s = (Inr (), (record_opt rid u s)\<lparr>be_heap := h\<rparr>)"
    "mem_wf (s\<lparr>be_heap := h\<rparr>)"
    "\<forall>r \<in> set (be_buckets s). visible (h ! r) now =
       granted_value u (avail s now r) (mb_metric (be_heap s ! r)) \<and>
       fle (Fin 0) (visible (h ! r) now)"
    "\<forall>r \<in> set (be_buckets s). \<forall>a. map_of u (mb_metric (be_heap s ! r)) = Some a \<longrightarrow>
       fle a (avail s now r)"
proof -
  let ?h = "be_heap s" and ?bs = "be_buckets s"
  let ?f = "\<lambda>k c. case map_of u (fst k) of None \<Rightarrow> c | Some a \<Rightarrow> fsub c a"
  have hw: "heap_wf ?h ?bs" using assms(1) by (rule mem_wf_heap)
  note tc = try_consume_True [OF assms(4)]
  have enough: "fle a (visible (?h ! r) now)"
    if r: "r \<in> set ?bs" and a: "map_of u (mb_metric (?h ! r)) = Some a" for r a
  proof -
    have "bucket_wf (?h ! r)" using hw r by (simp add: heap_wf_def)
    then obtain v where v: "visible (?h ! r) now = Fin v" using assms(2) by (rule visible_wf)
    have "\<not> flt (visible (?h ! r) now) a" using tc(1) r a
      by (auto simp: not_insufficient dest: map_of_SomeD)
    moreover obtain q where "a = Fin q" using assms(3) a by (rule usage_ok_get)
    ultimately show ?thesis using v by simp
  qed
  then show "\<forall>r \<in> set ?bs. \<forall>a. map_of u (mb_metric (?h ! r)) = Some a \<longrightarrow> fle a (avail s now r)"
    by (simp add: avail_def)
  have post: "map_of post k = map_option (?f k) (map_of (visible_caps ?h ?bs now) k)" for k
    unfolding tc(2) by (rule map_of_map_val)
  have dist: "distinct (map fst post)" "map fst post = map (\<lambda>r. mb_id (?h ! r)) ?bs"
    using hw unfolding tc(2) by (simp_all add: heap_wf_def case_prod_unfold comp_def visible_caps_def)
  have val: "\<exists>q. ?f (mb_id (?h ! r)) (visible (?h ! r) now) = Fin q \<and> is_dbl (Fin q) \<and>
      (\<exists>m. mb_max_capacity (?h ! r) = Fin m \<and> 0 < m \<and> q \<le> m) \<and>
      (map_of u (mb_metric (?h ! r)) \<noteq> None \<longrightarrow> 0 \<le> q)" if r: "r \<in> set ?bs" for r
  proof -
    have "bucket_wf (?h ! r)" using hw r by (simp add: heap_wf_def)
    then obtain c m where c: "visible (?h ! r) now = Fin c" "mb_max_capacity (?h ! r) = Fin m"
      "0 < m" "c \<le> m" "is_dbl (Fin c)" using assms(2) by (rule visible_wf)
    show ?thesis
    proof (cases "map_of u (mb_metric (?h ! r))")
      case (Some a)
      obtain q where q: "a = Fin q" "0 \<le> q" using assms(3) Some by (rule usage_ok_get)
      with enough [OF r Some] c have "q \<le> c" by simp
      with q c obtain d where "fsub (Fin c) (Fin q) = Fin d" "0 \<le> d" "d \<le> c" "is_dbl (Fin d)"
        using fsub_within by blast
      with c q Some show ?thesis by auto
    qed (use c in auto)
  qed
  have so: "\<forall>(k, a) \<in> set post. k \<in> (\<lambda>r. mb_id (?h ! r)) ` set ?bs \<and> stored_ok a"
    using val unfolding tc(2) visible_caps_def by fastforce
  then have so': "\<forall>(k, a) \<in> set post. stored_ok a" by auto
  show "grant_locked u rid now post s = (Inr (), (record_opt rid u s)\<lparr>be_heap := h\<rparr>)"
    using set_capacities_write [OF hw dist(1) assms(2) so]
    by (simp add: grant_locked_def on_heap_def h_def)
  show "mem_wf (s\<lparr>be_heap := h\<rparr>)" unfolding h_def using assms(1,2) so' hw by (rule mem_wf_write)
  show "\<forall>r \<in> set ?bs. visible (h ! r) now = granted_value u (avail s now r) (mb_metric (?h ! r)) \<and>
       fle (Fin 0) (visible (h ! r) now)"
  proof
    fix r assume r: "r \<in> set ?bs"
    have mp: "map_of (visible_caps ?h ?bs now) (mb_id (?h ! r)) = Some (visible (?h ! r) now)"
      using r map_of_visible_caps [OF hw] by blast
    from val [OF r] obtain q m where q: "?f (mb_id (?h ! r)) (visible (?h ! r) now) = Fin q"
      "mb_max_capacity (?h ! r) = Fin m" "0 < m" "q \<le> m"
      "map_of u (mb_metric (?h ! r)) \<noteq> None \<longrightarrow> 0 \<le> q" by blast
    have "visible (h ! r) now = fmin (Fin m) (fmax (Fin 0) (Fin q))"
      using visible_write_caps [OF hw assms(2) so' r, of False] q(1,2)
      by (simp add: h_def post mp stored_def)
    also have "\<dots> = Fin (max 0 q)" using q(3,4) by simp
    finally have "visible (h ! r) now = Fin (max 0 q)" .
    moreover have "granted_value u (avail s now r) (mb_metric (?h ! r)) = Fin (max 0 q)"
      using q by (cases "map_of u (mb_metric (?h ! r))") (auto simp: granted_value_def avail_def)
    ultimately show "visible (h ! r) now = granted_value u (avail s now r) (mb_metric (?h ! r)) \<and>
       fle (Fin 0) (visible (h ! r) now)" by simp
  qed
qed
lemma grant_mem_wf:
  assumes "mem_wf s" "mem_wf (s\<lparr>be_heap := h\<rparr>)" "replayed s rid u = Inr False"
  shows "mem_wf ((record_opt rid u s)\<lparr>be_heap := h\<rparr>)"
proof -
  have l: "ledger_wf s" using assms(1) by (simp add: mem_wf_def)
  then have "ledger_wf (record_opt rid u s)"
    using replayed_False [OF l] assms(3) by (auto simp: record_opt_def record_wf split: option.split)
  then have "ledger_wf ((record_opt rid u s)\<lparr>be_heap := h\<rparr>)" by (auto simp: ledger_wf_def)
  with assms(2) show ?thesis by (rule mem_wf_ledger) simp_all
qed

section \<open>Unconditional consumption\<close>

definition consumed_value :: "usage \<Rightarrow> pyfloat \<Rightarrow> pyfloat \<Rightarrow> pystr \<Rightarrow> pyfloat" where
  "consumed_value u mx c m = (case map_of u m of None \<Rightarrow> c | Some a \<Rightarrow> fmax (fsub c a) (fneg mx))"

lemma consumed_value_bounds:
  assumes "usage_ok u" "is_dbl (Fin c)" "c \<le> m" "0 < m" "is_dbl (Fin m)"
  obtains q where "consumed_value u (Fin m) (Fin c) k = Fin q" "is_dbl (Fin q)" "q \<le> m"
    "min c (- m) \<le> q"  "map_of u k \<noteq> None \<Longrightarrow> - m \<le> q"
proof (cases "map_of u k")
  case (Some a)
  obtain q where q: "a = Fin q" "0 \<le> q" using assms(1) Some by (rule usage_ok_get)
  have "fle (rnd (c - q)) (Fin m)" using assms q by (intro rnd_le) simp_all
  moreover have "is_dbl (fmax (rnd (c - q)) (Fin (- m)))"
    by (intro is_dbl_fmax) (simp_all add: assms(5))
  ultimately obtain z where "fmax (rnd (c - q)) (Fin (- m)) = Fin z" "is_dbl (Fin z)" "z \<le> m" "- m \<le> z"
    using assms(4) by (cases "rnd (c - q)") auto
  with that Some q show ?thesis by (auto simp: consumed_value_def)
qed (use assms that in \<open>auto simp: consumed_value_def\<close>)

lemma map_of_max_cap:
  assumes "heap_wf h bs" "r \<in> set bs"
  shows "map_of (map (\<lambda>r. (mb_id (h ! r), mb_max_capacity (h ! r))) bs) (mb_id (h ! r)) =
    Some (mb_max_capacity (h ! r))"
  using assms by (intro map_of_is_SomeI) (auto simp: heap_wf_def comp_def)

lemma consume_post_wf:
  assumes "heap_wf (be_heap s) (be_buckets s)"
  shows "consume_post s u (visible_caps (be_heap s) (be_buckets s) now) =
    Inr (map (\<lambda>r. (mb_id (be_heap s ! r), consumed_value u (mb_max_capacity (be_heap s ! r))
       (visible (be_heap s ! r) now) (mb_metric (be_heap s ! r)))) (be_buckets s))"
proof -
  let ?mc = "map (\<lambda>r. (mb_id (be_heap s ! r), mb_max_capacity (be_heap s ! r))) (be_buckets s)"
  let ?g = "\<lambda>(k, c). (k, case map_of u (fst k) of None \<Rightarrow> c
     | Some a \<Rightarrow> fmax (fsub c a) (fneg (the (map_of ?mc k))))"
  have "consume_post s u (visible_caps (be_heap s) (be_buckets s) now) =
     Inr ([] @ map ?g (visible_caps (be_heap s) (be_buckets s) now))"
    unfolding consume_post_def Let_def
    by (rule for_each_map)
       (auto simp: visible_caps_def map_of_max_cap [OF assms] split: option.split)
  also have "map ?g (visible_caps (be_heap s) (be_buckets s) now) =
    map (\<lambda>r. (mb_id (be_heap s ! r), consumed_value u (mb_max_capacity (be_heap s ! r))
       (visible (be_heap s ! r) now) (mb_metric (be_heap s ! r)))) (be_buckets s)"
    by (auto simp: visible_caps_def map_of_max_cap [OF assms] consumed_value_def split: option.split)
  finally show ?thesis by simp
qed

lemma map_of_ids:
  assumes "heap_wf h bs" "r \<in> set bs"
  shows "map_of (map (\<lambda>r. (mb_id (h ! r), f r)) bs) (mb_id (h ! r)) = Some (f r)"
  using assms by (intro map_of_is_SomeI) (auto simp: heap_wf_def comp_def)

text \<open>Writing one value to every bucket.\<close>

lemma write_all_wf:
  assumes "mem_wf s" "heap_wf (be_heap s) target" "clock_ok now"
    "\<And>r. r \<in> set target \<Longrightarrow> \<exists>q m. f r = Fin q \<and> is_dbl (Fin q) \<and>
       mb_max_capacity (be_heap s ! r) = Fin m \<and> q \<le> m"
  defines "caps \<equiv> map (\<lambda>r. (mb_id (be_heap s ! r), f r)) target"
  defines "h \<equiv> write_caps target caps now True (be_heap s)"
  shows "set_capacities target caps now True (be_heap s) = (Inr (), h)"
    "mem_wf (s\<lparr>be_heap := h\<rparr>)"
    "\<forall>r \<in> set target. visible (h ! r) now = f r"
proof -
  have so: "\<forall>(k, a) \<in> set caps. k \<in> (\<lambda>r. mb_id (be_heap s ! r)) ` set target \<and> stored_ok a"
    using assms(4) by (fastforce simp: caps_def)
  have d: "distinct (map fst caps)" using assms(2) by (simp add: caps_def heap_wf_def comp_def)
  from so have so': "\<forall>(k, a) \<in> set caps. stored_ok a" by auto
  show "set_capacities target caps now True (be_heap s) = (Inr (), h)"
    unfolding h_def using assms(2) d assms(3) so by (rule set_capacities_write)
  show "mem_wf (s\<lparr>be_heap := h\<rparr>)" unfolding h_def using assms(1,3) so' assms(2) by (rule mem_wf_write)
  show "\<forall>r \<in> set target. visible (h ! r) now = f r"
  proof
    fix r assume r: "r \<in> set target"
    from assms(4) [OF this] show "visible (h ! r) now = f r"
      using visible_write_caps [OF assms(2,3) so' r, of True] map_of_ids [OF assms(2) r, of f]
      by (auto simp: h_def caps_def stored_def)
  qed
qed

lemma consume_locked_wf:
  assumes "mem_wf s" "clock_ok now" "usage_ok u" "replayed s rid u = Inr False"
    "set (dict_keys u) \<subseteq> be_usage_metric_names s"
  obtains h evs where "consume_locked u rid now s = (Inr (now, evs), (record_opt rid u s)\<lparr>be_heap := h\<rparr>)"
    "mem_wf ((record_opt rid u s)\<lparr>be_heap := h\<rparr>)"
    "\<forall>r \<in> set (be_buckets s). visible (h ! r) now = consumed_value u (mb_max_capacity (be_heap s ! r))
       (avail s now r) (mb_metric (be_heap s ! r))"
proof -
  let ?f = "\<lambda>r. consumed_value u (mb_max_capacity (be_heap s ! r))
       (visible (be_heap s ! r) now) (mb_metric (be_heap s ! r))"
  have hw: "heap_wf (be_heap s) (be_buckets s)" using assms(1) by (rule mem_wf_heap)
  have f: "\<exists>q m. ?f r = Fin q \<and> is_dbl (Fin q) \<and> mb_max_capacity (be_heap s ! r) = Fin m \<and> q \<le> m"
    if "r \<in> set (be_buckets s)" for r
  proof -
    have "bucket_wf (be_heap s ! r)" using hw that by (simp add: heap_wf_def)
    then obtain c m where c: "visible (be_heap s ! r) now = Fin c" "mb_max_capacity (be_heap s ! r) = Fin m"
      "0 < m" "c \<le> m" "is_dbl (Fin c)" "is_dbl (Fin m)" using assms(2) by (rule visible_wf)
    with assms(3) show ?thesis using consumed_value_bounds [of u c m] by metis
  qed
  let ?caps = "map (\<lambda>r. (mb_id (be_heap s ! r), ?f r)) (be_buckets s)"
  let ?h = "write_caps (be_buckets s) ?caps now True (be_heap s)"
  note w = write_all_wf [OF assms(1) hw assms(2), of ?f, OF f]
  have "fst ` set (dict_keys (visible_caps (be_heap s) (be_buckets s) now)) = be_usage_metric_names s"
    using assms(1) by (simp add: metrics_visible_caps mem_wf_def)
  with assms(5) have "ensure_usage_metrics_are_active u
      (fst ` set (dict_keys (visible_caps (be_heap s) (be_buckets s) now))) = Inr ()"
    by (simp add: ensure_usage_metrics_are_active_def)
  then obtain evs where "consume_locked u rid now s = (Inr (now, evs), (record_opt rid u s)\<lparr>be_heap := ?h\<rparr>)"
    using assms(4) get_capacities_wf [OF hw assms(2)] consume_post_wf [OF hw, of u now] w(1)
    by (simp add: consume_locked_def op_bind_def on_heap_def op_simps)
  moreover have "mem_wf ((record_opt rid u s)\<lparr>be_heap := ?h\<rparr>)"
    using assms(1) w(2) assms(4) by (rule grant_mem_wf)
  ultimately show ?thesis using w(3) that by (simp add: avail_def)
qed
section \<open>Refunds\<close>

lemma refunded_value_bounds:
  assumes "0 < m" "is_dbl (Fin m)" "a \<noteq> NaN"
  obtains q where "refunded_value (Fin m) (Fin c) a = Fin q" "is_dbl (Fin q)" "- m \<le> q" "q \<le> m"
proof -
  let ?x = "fadd (Fin c) (fmax a (fneg (Fin m)))"
  have "fmax a (Fin (- m)) \<noteq> NaN" using assms(3) by (simp add: fmax_def)
  then have "?x \<noteq> NaN" by (cases "fmax a (fneg (Fin m))") auto
  moreover have "is_dbl (refunded_value (Fin m) (Fin c) a)"
    unfolding refunded_value_def by (intro is_dbl_fmax is_dbl_fmin) (simp_all add: assms(2))
  ultimately show ?thesis using assms(1) that
    by (cases ?x) (auto simp: refunded_value_def)
qed

text \<open>The value a refund leaves in a bucket that showed \<open>c\<close>.\<close>

definition after_refund :: "bucket_id set \<Rightarrow> usage \<Rightarrow> pyfloat \<Rightarrow> pyfloat \<Rightarrow> bucket_id \<Rightarrow> pyfloat" where
  "after_refund ids refund mx c k = (if k \<notin> ids then c
     else case map_of refund (fst k) of None \<Rightarrow> c | Some a \<Rightarrow> refunded_value mx c a)"

lemma registry_wf: "mem_wf s \<Longrightarrow> r \<in> set (be_buckets s) \<Longrightarrow>
   map_of (be_registry s) (mb_id (be_heap s ! r)) = Some r"
  unfolding mem_wf_def by blast

lemma updated_capacities_wf:
  assumes "mem_wf s"
  shows "updated_capacities s ids refund (visible_caps (be_heap s) (be_buckets s) now) =
    Inr (map (\<lambda>r. (mb_id (be_heap s ! r), after_refund ids refund (mb_max_capacity (be_heap s ! r))
       (visible (be_heap s ! r) now) (mb_id (be_heap s ! r)))) (be_buckets s))"
proof -
  let ?mx = "\<lambda>k. mb_max_capacity (be_heap s ! (the (map_of (be_registry s) k)))"
  let ?g = "\<lambda>(k, c). (k, after_refund ids refund (?mx k) c k)"
  have "updated_capacities s ids refund (visible_caps (be_heap s) (be_buckets s) now) =
     Inr ([] @ map ?g (visible_caps (be_heap s) (be_buckets s) now))"
    unfolding updated_capacities_def
    by (rule for_each_map)
       (auto simp: visible_caps_def after_refund_def registry_wf [OF assms] split: option.split)
  also have "map ?g (visible_caps (be_heap s) (be_buckets s) now) =
    map (\<lambda>r. (mb_id (be_heap s ! r), after_refund ids refund (mb_max_capacity (be_heap s ! r))
       (visible (be_heap s ! r) now) (mb_id (be_heap s ! r)))) (be_buckets s)"
    by (auto simp: visible_caps_def registry_wf [OF assms])
  finally show ?thesis by simp
qed

lemma mem_wf_close:
  assumes "mem_wf s" "mem_wf (s\<lparr>be_heap := h\<rparr>)"
  shows "mem_wf (close_reservation rid (s\<lparr>be_heap := h\<rparr>))"
proof -
  from assms(2) have "ledger_wf (s\<lparr>be_heap := h\<rparr>)" by (simp add: mem_wf_def)
  then have "ledger_wf (close_reservation rid (s\<lparr>be_heap := h\<rparr>))" by (rule close_wf)
  with assms(2) show ?thesis by (rule mem_wf_ledger) simp_all
qed

lemma refund_locked_wf:
  assumes "mem_wf s" "clock_ok now" "\<forall>(m, a) \<in> set refund. a \<noteq> NaN" "refund_check s rid = Inr ()"
    "ids \<noteq> {}"
  obtains h evs where "refund_locked reserved actual refund ids rid now s =
      (Inr evs, close_reservation rid (s\<lparr>be_heap := h\<rparr>))"
    "mem_wf (close_reservation rid (s\<lparr>be_heap := h\<rparr>))" "length h = length (be_heap s)"
    "\<forall>r \<in> set (be_buckets s). visible (h ! r) now =
       after_refund ids refund (mb_max_capacity (be_heap s ! r)) (avail s now r) (mb_id (be_heap s ! r))"
    "\<forall>r < length h. mb_id (be_heap s ! r) \<notin> ids \<or> r \<notin> set (be_buckets s) \<longrightarrow> h ! r = be_heap s ! r"
proof -
  let ?h = "be_heap s" and ?bs = "be_buckets s"
  let ?f = "\<lambda>r. after_refund ids refund (mb_max_capacity (?h ! r)) (visible (?h ! r) now) (mb_id (?h ! r))"
  let ?all = "map (\<lambda>r. (mb_id (?h ! r), ?f r)) ?bs"
  let ?caps = "filter (\<lambda>(k, c). k \<in> ids) ?all"
  let ?h' = "write_caps ?bs ?caps now True ?h"
  have hw: "heap_wf ?h ?bs" using assms(1) by (rule mem_wf_heap)
  have f: "\<exists>q m. ?f r = Fin q \<and> is_dbl (Fin q) \<and> mb_max_capacity (?h ! r) = Fin m \<and> q \<le> m"
    if "r \<in> set ?bs" for r
  proof -
    have "bucket_wf (?h ! r)" using hw that by (simp add: heap_wf_def)
    then obtain c m where c: "visible (?h ! r) now = Fin c" "mb_max_capacity (?h ! r) = Fin m"
      "0 < m" "c \<le> m" "is_dbl (Fin c)" "is_dbl (Fin m)" using assms(2) by (rule visible_wf)
    show ?thesis
    proof (cases "map_of refund (mb_metric (?h ! r))")
      case (Some a)
      then have "a \<noteq> NaN" using assms(3) by (auto dest: map_of_SomeD)
      then obtain q where "refunded_value (Fin m) (Fin c) a = Fin q" "is_dbl (Fin q)" "q \<le> m"
        using refunded_value_bounds [OF c(3,6)] by blast
      with c Some show ?thesis by (simp add: after_refund_def)
    qed (use c in \<open>simp add: after_refund_def\<close>)
  qed
  have d: "distinct (map fst ?caps)" using hw
    by (intro distinct_map_filter) (simp add: heap_wf_def comp_def)
  have so: "\<forall>(k, a) \<in> set ?caps. k \<in> (\<lambda>r. mb_id (?h ! r)) ` set ?bs \<and> stored_ok a"
    using f by fastforce
  from so have so': "\<forall>(k, a) \<in> set ?caps. stored_ok a" by auto
  have "set_capacities ?bs ?caps now True ?h = (Inr (), ?h')"
    using hw d assms(2) so by (rule set_capacities_write)
  moreover have "get_capacities ?h ?bs now = Inr (visible_caps ?h ?bs now, fresh_refs ?h ?bs)"
    using hw assms(2) by (rule get_capacities_wf)
  moreover note updated_capacities_wf [OF assms(1), of ids refund now]
  ultimately obtain evs where "refund_locked reserved actual refund ids rid now s =
      (Inr evs, close_reservation rid (s\<lparr>be_heap := ?h'\<rparr>))"
    using assms(4,5) by (simp add: refund_locked_def op_bind_def on_heap_def op_simps)
  moreover have "mem_wf (close_reservation rid (s\<lparr>be_heap := ?h'\<rparr>))"
    using assms(1) mem_wf_write [OF assms(1,2) so' hw] by (rule mem_wf_close)
  moreover have "\<forall>r \<in> set ?bs. visible (?h' ! r) now =
       after_refund ids refund (mb_max_capacity (?h ! r)) (avail s now r) (mb_id (?h ! r))"
  proof
    fix r assume r: "r \<in> set ?bs"
    from f [OF this] show "visible (?h' ! r) now =
       after_refund ids refund (mb_max_capacity (?h ! r)) (avail s now r) (mb_id (?h ! r))"
      using visible_write_caps [OF hw assms(2) so' r, of True] map_of_ids [OF hw r, of ?f]
      by (auto simp: map_of_filter_keys stored_def avail_def) (simp add: after_refund_def)
  qed
  moreover have "\<forall>r < length ?h'. mb_id (?h ! r) \<notin> ids \<or> r \<notin> set ?bs \<longrightarrow> ?h' ! r = ?h ! r"
    by (auto simp: nth_write_caps map_of_filter_keys)
  ultimately show ?thesis using that [of evs ?h'] by simp
qed
section \<open>Cancelled consumption\<close>

definition cancelled_value :: "usage \<Rightarrow> pyfloat \<Rightarrow> pyfloat \<Rightarrow> pystr \<Rightarrow> pyfloat" where
  "cancelled_value u mx c m = (case map_of u m of None \<Rightarrow> c | Some a \<Rightarrow> fmin (fadd c a) mx)"

lemma mem_wf_forget:
  assumes "mem_wf (s\<lparr>be_heap := h\<rparr>)"
  shows "mem_wf (forget_opt rid (s\<lparr>be_heap := h\<rparr>))"
proof -
  from assms have "ledger_wf (s\<lparr>be_heap := h\<rparr>)" by (simp add: mem_wf_def)
  then have "ledger_wf (forget_opt rid (s\<lparr>be_heap := h\<rparr>))"
    by (simp add: forget_opt_def forget_wf split: option.split)
  with assms show ?thesis by (rule mem_wf_ledger) simp_all
qed

lemma refund_cancelled_wf:
  assumes "mem_wf s" "heap_wf (be_heap s) target" "clock_ok now" "usage_ok u"
  obtains h where "refund_cancelled_consumption u target rid now s =
      (Inr (), forget_opt rid (s\<lparr>be_heap := h\<rparr>))"
    "mem_wf (forget_opt rid (s\<lparr>be_heap := h\<rparr>))"
    "\<forall>r \<in> set target. visible (h ! r) now = cancelled_value u (mb_max_capacity (be_heap s ! r))
       (avail s now r) (mb_metric (be_heap s ! r))"
proof -
  let ?h = "be_heap s"
  let ?f = "\<lambda>r. cancelled_value u (mb_max_capacity (?h ! r)) (visible (?h ! r) now) (mb_metric (?h ! r))"
  have f: "\<exists>q m. ?f r = Fin q \<and> is_dbl (Fin q) \<and> mb_max_capacity (?h ! r) = Fin m \<and> q \<le> m"
    if "r \<in> set target" for r
  proof -
    have "bucket_wf (?h ! r)" using assms(2) that by (simp add: heap_wf_def)
    then obtain c m where c: "visible (?h ! r) now = Fin c" "mb_max_capacity (?h ! r) = Fin m"
      "0 < m" "c \<le> m" "is_dbl (Fin c)" "is_dbl (Fin m)" using assms(3) by (rule visible_wf)
    show ?thesis
    proof (cases "map_of u (mb_metric (?h ! r))")
      case (Some a)
      obtain q where q: "a = Fin q" "0 \<le> q" using assms(4) Some by (rule usage_ok_get)
      have "fle (Fin c) (rnd (c + q))" using q c by (intro rnd_ge) simp_all
      moreover have "is_dbl (fmin (rnd (c + q)) (Fin m))" by (intro is_dbl_fmin) (simp_all add: c)
      ultimately show ?thesis using c q Some
        by (cases "rnd (c + q)") (auto simp: cancelled_value_def)
    qed (use c in \<open>simp add: cancelled_value_def\<close>)
  qed
  let ?caps = "map (\<lambda>r. (mb_id (?h ! r), ?f r)) target"
  let ?h' = "write_caps target ?caps now True ?h"
  note w = write_all_wf [OF assms(1-3), of ?f, OF f]
  have "cancelled_caps ?h target u (visible_caps ?h target now) = ?caps"
    using find_bucket_wf [OF assms(2)]
    by (auto simp: cancelled_caps_def visible_caps_def cancelled_value_def split: option.split)
  then have "refund_cancelled_consumption u target rid now s =
      (Inr (), forget_opt rid (s\<lparr>be_heap := ?h'\<rparr>))"
    using w(1) get_capacities_wf [OF assms(2,3)]
    by (simp add: refund_cancelled_consumption_def op_bind_def on_heap_def op_simps)
  with w(2,3) that show ?thesis by (simp add: mem_wf_forget avail_def)
qed

section \<open>Changing a limit\<close>

lemma heap_update_wf:
  assumes "mem_wf s" "bucket_wf b" "mb_id b = mb_id (be_heap s ! r)"
  shows "mem_wf (s\<lparr>be_heap := (be_heap s)[r := b]\<rparr>)"
proof -
  have m: "mb_metric ((be_heap s)[r := b] ! i) = mb_metric (be_heap s ! i)" for i
    using heap_update_ids [OF assms(3), of i] by (simp add: mb_id_def)
  show ?thesis using assms heap_wf_update [OF mem_wf_heap [OF assms(1)] assms(2,3)]
    by (auto simp: mem_wf_def ledger_wf_def heap_update_ids m)
qed

lemma be_set_max_capacity_wf:
  assumes "mem_wf s" "clock_ok now" "be_set_max_capacity metric p v now s = (res, s')"
    "\<And>a. v = VFloat a \<Longrightarrow> is_dbl a"
  shows "mem_wf s'"
proof (cases "find_bucket (be_heap s) (be_buckets s) (metric, p)")
  case (Some r)
  obtain res1 b where b: "set_max_capacity v now (be_heap s ! r) = (res1, b)" by fastforce
  have wf: "bucket_wf (be_heap s ! r)" using Some mem_wf_heap [OF assms(1)]
    by (auto simp: find_bucket_def heap_wf_def dest: find_Some_iff)
  have "bucket_wf b \<and> mb_id b = mb_id (be_heap s ! r)"
  proof (cases "validate_max_capacity_finite_positive v")
    case (Inl e)
    then show ?thesis using b wf by (auto simp: set_max_capacity_def)
  next
    case (Inr f)
    then have f: "max_ok f" using assms(4) by (rule validate_max_Inr)
    moreover have "set_max_capacity (VFloat f) now (be_heap s ! r) = (res1, b)"
      using b Inr f by (simp add: set_max_capacity_def validate_max_ok)
    ultimately show ?thesis using set_max_capacity_wf [OF wf assms(2)] by blast
  qed
  then show ?thesis using assms(1,3) Some b heap_update_wf
    by (auto simp: be_set_max_capacity_def on_heap_def)
qed (use assms in \<open>auto simp: be_set_max_capacity_def\<close>)

section \<open>Construction and reconfiguration\<close>

lemma fold_dict_set:
  "distinct (map f xs) \<Longrightarrow> map_of (fold (\<lambda>r d. dict_set (f r) r d) xs d) k = Some r \<longleftrightarrow>
     (r \<in> set xs \<and> f r = k) \<or> (k \<notin> f ` set xs \<and> map_of d k = Some r)"
  by (induction xs arbitrary: d) (auto simp: image_iff)

text \<open>The quotas of a configuration, as the constructors of the models leave them.\<close>

definition quota_ok :: "unicode_db \<Rightarrow> quota \<Rightarrow> bool" where
  "quota_ok udb q \<longleftrightarrow> max_ok (q_limit q) \<and> per_seconds_ok (q_per_seconds q) \<and>
     nfc udb (q_metric q) = q_metric q"

definition quotas_ok :: "unicode_db \<Rightarrow> quota list \<Rightarrow> bool" where
  "quotas_ok udb qs \<longleftrightarrow> distinct (map quota_bucket_id qs) \<and> (\<forall>q \<in> set qs. quota_ok udb q)"

lemma mk_bucket_of_quota_wf:
  assumes "mk_bucket_of_quota udb cfg q = Inr b" "quota_ok udb q"
  shows "bucket_wf b \<and> mb_id b = quota_bucket_id q \<and> mb_max_capacity b = q_limit q \<and>
    mb_capacity b = None"
proof -
  from assms(1) obtain fam where mk: "mk_memory_bucket udb (VStr (q_metric q)) (VInt (q_per_seconds q))
      (VFloat (q_limit q)) (VStr fam) = Inr b"
    by (auto simp: mk_bucket_of_quota_def bind_res_Inr_iff)
  have d: "is_dbl a" if "VFloat (q_limit q) = VFloat a" for a
    using that assms(2) by (simp add: quota_ok_def max_ok_def)
  have wf: "bucket_wf b \<and> mb_capacity b = None" using mk_memory_bucket_wf [OF mk d] by simp
  from mk obtain m ff p b0 where o: "validate_metric udb (VStr (q_metric q)) MAX_METRIC_LENGTH = Inr m"
    "validate_per_seconds (VInt (q_per_seconds q)) = Inr p"
    "b0 = \<lparr>mb_capacity = None, mb_last_checked = None, mb_metric = m, mb_family = ff,
           mb_per_seconds = p, mb_max_capacity = NaN, mb_rate_per_sec = NaN\<rparr>"
    "max_capacity_setter (VFloat (q_limit q)) b0 = (Inr (), b)"
    by (rule mk_memory_bucketE)
  have "m = q_metric q" using o(1) assms(2)
    by (simp add: validate_metric_def validate_segment_str_Inr quota_ok_def)
  moreover have "p = q_per_seconds q" using o(2)
    by (auto simp: validate_per_seconds_def type_tests split: if_splits)
  moreover have "mb_id b = mb_id b0" "mb_max_capacity b = q_limit q"
    using o(4) by (auto elim!: max_capacity_setter_Inr simp: mb_id_def validate_max_VFloat)
  ultimately show ?thesis using wf o(3) by (simp add: mb_id_def quota_bucket_id_def)
qed
text \<open>The loop of a reconfiguration, relative to the state it started from.\<close>

definition heap_grown :: "memory_bucket list \<Rightarrow> memory_bucket list \<Rightarrow> bool" where
  "heap_grown h0 h \<longleftrightarrow> length h0 \<le> length h \<and> (\<forall>b \<in> set h. bucket_wf b) \<and>
     (\<forall>i < length h0. mb_id (h ! i) = mb_id (h0 ! i))"

definition reconf_inv ::
  "mem_backend \<Rightarrow> pyfloat \<Rightarrow> quota list \<Rightarrow> memory_bucket list \<times> (bucket_id, bref) dict \<times> bref list \<Rightarrow> bool" where
  "reconf_inv s now done st \<longleftrightarrow> (case st of (h, existing, prepared) \<Rightarrow>
     heap_grown (be_heap s) h \<and>
     (\<forall>k r. map_of existing k = Some r \<longrightarrow> r < length h \<and> mb_id (h ! r) = k) \<and>
     (\<forall>k. k \<notin> quota_bucket_id ` set done \<longrightarrow> map_of existing k = map_of (be_registry s) k) \<and>
     map (\<lambda>r. mb_id (h ! r)) prepared = map quota_bucket_id done \<and>
     (\<forall>r \<in> set prepared. r < length h \<and> map_of existing (mb_id (h ! r)) = Some r) \<and>
     (\<forall>q \<in> set done. case map_of (be_registry s) (quota_bucket_id q) of
        Some r \<Rightarrow> r \<in> set prepared \<and>
          set_max_capacity (VFloat (q_limit q)) now (be_heap s ! r) = (Inr (), h ! r)
      | None \<Rightarrow> True) \<and>
     (\<forall>i < length (be_heap s). mb_id (be_heap s ! i) \<notin> quota_bucket_id ` set done \<longrightarrow>
        h ! i = be_heap s ! i))"

lemma mem_wf_grown:
  assumes "mem_wf s" "heap_grown (be_heap s) h"
  shows "mem_wf (s\<lparr>be_heap := h\<rparr>)"
proof -
  have hw: "heap_wf (be_heap s) (be_buckets s)" using assms(1) by (rule mem_wf_heap)
  then have id: "mb_id (h ! r) = mb_id (be_heap s ! r)" "r < length h" if "r \<in> set (be_buckets s)" for r
    using that assms(2) by (auto simp: heap_grown_def heap_wf_def)
  have m: "mb_metric (h ! r) = mb_metric (be_heap s ! r)" if "r \<in> set (be_buckets s)" for r
    using id(1) [OF that] by (simp add: mb_id_def)
  have "heap_wf h (be_buckets s)" using hw id assms(2)
    by (auto simp: heap_wf_def heap_grown_def cong: map_cong)
  then show ?thesis using assms(1) id m by (auto simp: mem_wf_def ledger_wf_def image_iff)
qed

lemma set_max_capacity_total:
  assumes "bucket_wf b" "clock_ok now" "max_ok v"
  obtains b' where "set_max_capacity (VFloat v) now b = (Inr (), b')" "bucket_wf b'"
    "mb_id b' = mb_id b" "mb_max_capacity b' = v"
proof -
  obtain res b' where r: "set_max_capacity (VFloat v) now b = (res, b')" by fastforce
  from set_max_capacity_wf [OF assms r] r that show ?thesis by auto
qed

lemma heap_grown_update:
  assumes "heap_grown h0 h" "bucket_wf b" "mb_id b = mb_id (h ! r)"
  shows "heap_grown h0 (h[r := b])"
  using assms by (auto simp: heap_grown_def heap_update_ids dest: set_update_subset_insert [THEN subsetD])

lemma registry_Some:
  assumes "mem_wf s" "map_of (be_registry s) k = Some r"
  shows "r \<in> set (be_buckets s)" "r < length (be_heap s)" "mb_id (be_heap s ! r) = k"
    "bucket_wf (be_heap s ! r)"
proof -
  from assms have r: "r \<in> set (be_buckets s)" "mb_id (be_heap s ! r) = k"
    unfolding mem_wf_def by blast+
  then show "r \<in> set (be_buckets s)" "mb_id (be_heap s ! r) = k" by simp_all
  from r(1) mem_wf_heap [OF assms(1)] show "r < length (be_heap s)" "bucket_wf (be_heap s ! r)"
    by (simp_all add: heap_wf_def)
qed

lemma prepare_quota_inv:
  assumes "reconf_inv s now done st" "mem_wf s" "clock_ok now" "quota_ok udb q"
    "quota_bucket_id q \<notin> quota_bucket_id ` set done" "prepare_quota udb cfg now q st = (res, st')"
  shows "(\<forall>u. res = Inr u \<longrightarrow> reconf_inv s now (done @ [q]) st') \<and> heap_grown (be_heap s) (fst st')"
proof -
  obtain h ex pr where st: "st = (h, ex, pr)" by (cases st)
  let ?k = "quota_bucket_id q"
  note inv = assms(1) [unfolded reconf_inv_def st prod.case]
  show ?thesis
  proof (cases "map_of ex ?k")
    case None
    show ?thesis
    proof (cases "mk_bucket_of_quota udb cfg q")
      case (Inl e)
      then show ?thesis using assms(6) None inv by (auto simp: prepare_quota_def st)
    next
      case (Inr b)
      from mk_bucket_of_quota_wf [OF this assms(4)] have b: "bucket_wf b" "mb_id b = ?k" by auto
      have st': "st' = (h @ [b], dict_set ?k (length h) ex, pr @ [length h])"
        using assms(6) None Inr by (auto simp: prepare_quota_def st)
      have reg: "map_of (be_registry s) ?k = None" using inv None assms(5) by metis
      have len: "length (be_heap s) \<le> length h" using inv by (simp add: heap_grown_def)
      have grown: "heap_grown (be_heap s) (h @ [b])" using inv b(1)
        by (auto simp: heap_grown_def nth_append)
      have prep: "r < length h \<and> mb_id (h ! r) \<noteq> ?k \<and> map_of ex (mb_id (h ! r)) = Some r"
        if "r \<in> set pr" for r using that inv None by fastforce
      have old: "r < length h \<and> mb_id (h ! r) = k" if "map_of ex k = Some r" for k r
        using that inv by blast
      have "map (\<lambda>r. mb_id ((h @ [b]) ! r)) (pr @ [length h]) = map quota_bucket_id (done @ [q])"
        using inv prep b(2) by (auto simp: nth_append cong: map_cong)
      moreover have "case map_of (be_registry s) (quota_bucket_id d) of
          Some r \<Rightarrow> r \<in> set (pr @ [length h]) \<and>
            set_max_capacity (VFloat (q_limit d)) now (be_heap s ! r) = (Inr (), (h @ [b]) ! r)
        | None \<Rightarrow> True" if d: "d \<in> set (done @ [q])" for d
      proof (cases "map_of (be_registry s) (quota_bucket_id d)")
        case (Some r)
        with d reg have dd: "d \<in> set done" by auto
        have "r < length h" using registry_Some(2) [OF assms(2) Some] len by simp
        with inv dd Some show ?thesis by (auto simp: nth_append)
      qed simp
      ultimately show ?thesis unfolding st' reconf_inv_def prod.case using grown inv prep old b(2) len
        by (auto simp: nth_append intro: less_SucI)
    qed
  next
    case (Some r)
    with inv have r: "r < length h" "mb_id (h ! r) = ?k" by blast+
    have reg: "map_of (be_registry s) ?k = Some r" using inv Some assms(5) by metis
    note rs = registry_Some [OF assms(2) reg]
    have len: "length (be_heap s) \<le> length h" using inv by (simp add: heap_grown_def)
    have "\<forall>i < length (be_heap s). mb_id (be_heap s ! i) \<notin> quota_bucket_id ` set done \<longrightarrow>
        h ! i = be_heap s ! i" using inv by blast
    then have same: "h ! r = be_heap s ! r" using rs(2,3) assms(5) by simp
    have "max_ok (q_limit q)" using assms(4) by (simp add: quota_ok_def)
    then obtain b where b: "set_max_capacity (VFloat (q_limit q)) now (be_heap s ! r) = (Inr (), b)"
      "bucket_wf b" "mb_id b = ?k"
      using set_max_capacity_total [OF rs(4) assms(3)] rs(3) by metis
    have st': "st' = (h[r := b], dict_set ?k r ex, pr @ [r])" "res = Inr ()"
      using assms(6) Some b(1) by (auto simp: prepare_quota_def st same)
    have idb: "mb_id b = mb_id (h ! r)" using b(3) r(2) by simp
    have grown: "heap_grown (be_heap s) (h[r := b])" using inv b(2) idb by (intro heap_grown_update) auto
    have prep: "i < length h \<and> mb_id (h ! i) \<noteq> ?k \<and> map_of ex (mb_id (h ! i)) = Some i"
      if "i \<in> set pr" for i
    proof -
      have "map (\<lambda>r. mb_id (h ! r)) pr = map quota_bucket_id done" using inv by blast
      then have "mb_id (h ! i) \<in> quota_bucket_id ` set done" using that by (metis image_eqI list.set_map)
      with assms(5) have "mb_id (h ! i) \<noteq> ?k" by auto
      moreover have "\<forall>r \<in> set pr. r < length h \<and> map_of ex (mb_id (h ! r)) = Some r" using inv by blast
      ultimately show ?thesis using that by blast
    qed
    have "map (\<lambda>i. mb_id (h[r := b] ! i)) (pr @ [r]) = map quota_bucket_id (done @ [q])"
      using inv r(2) by (simp add: heap_update_ids [OF idb])
    moreover have "case map_of (be_registry s) (quota_bucket_id d) of
        Some i \<Rightarrow> i \<in> set (pr @ [r]) \<and>
          set_max_capacity (VFloat (q_limit d)) now (be_heap s ! i) = (Inr (), h[r := b] ! i)
      | None \<Rightarrow> True" if d: "d \<in> set (done @ [q])" for d
    proof (cases "d \<in> set done")
      case True
      then have "quota_bucket_id d \<noteq> ?k" using assms(5) by (metis imageI)
      then have "map_of (be_registry s) (quota_bucket_id d) = Some i \<Longrightarrow> i \<noteq> r" for i
        using registry_Some(3) [OF assms(2), of "quota_bucket_id d" i] rs(3) by auto
      then show ?thesis using inv True by (auto split: option.splits)
    qed (use d reg b(1) r(1) in auto)
    moreover have "i < length (be_heap s) \<Longrightarrow> mb_id (be_heap s ! i) \<noteq> ?k \<Longrightarrow> h[r := b] ! i = h ! i" for i
      using rs(3) by (metis nth_list_update_neq)
    ultimately show ?thesis unfolding st' reconf_inv_def prod.case using grown inv prep r
      by (auto simp: heap_update_ids [OF idb])
  qed
qed
lemma prepare_loop_inv:
  assumes "mem_wf s" "clock_ok now" "reconf_inv s now done st" "distinct (map quota_bucket_id (done @ qs))"
    "\<forall>q \<in> set qs. quota_ok udb q" "op_for_each qs (prepare_quota udb cfg now) st = (res, st')"
  shows "(\<forall>u. res = Inr u \<longrightarrow> reconf_inv s now (done @ qs) st') \<and> heap_grown (be_heap s) (fst st')"
  using assms(3-)
proof (induction qs arbitrary: "done" st)
  case Nil
  then show ?case by (auto simp: reconf_inv_def split: prod.splits)
next
  case (Cons q qs)
  obtain r1 st1 where s1: "prepare_quota udb cfg now q st = (r1, st1)" by (metis surj_pair)
  have q: "quota_ok udb q" "quota_bucket_id q \<notin> quota_bucket_id ` set done" using Cons.prems by auto
  note one = prepare_quota_inv [OF Cons.prems(1) assms(1,2) q s1]
  show ?case
  proof (cases r1)
    case (Inl e)
    then show ?thesis using Cons.prems(4) s1 one by (auto simp: op_bind_def)
  next
    case (Inr u)
    then have l: "op_for_each qs (prepare_quota udb cfg now) st1 = (res, st')"
      using Cons.prems(4) s1 by (simp add: op_bind_def)
    have "reconf_inv s now (done @ [q]) st1" using one Inr by simp
    from Cons.IH [OF this _ _ l] Cons.prems(2,3) show ?thesis by simp
  qed
qed

text \<open>
  A successful reconfiguration: the buckets are those of the new quotas, in their order; a
  surviving bucket is the old one under its new maximum, every other is fresh; the ledger and
  the sleep interval do not change. A failed one keeps the old set of buckets.
\<close>

lemma registry_after:
  assumes "map (\<lambda>r. mb_id (h ! r)) pr = ks" "distinct ks"
    "\<forall>r \<in> set pr. map_of ex (mb_id (h ! r)) = Some r"
  shows "map_of (fold (\<lambda>r d. dict_set (mb_id (h ! r)) r d) pr (filter (\<lambda>(k, r). k \<in> set ks) ex)) k = Some r \<longleftrightarrow>
    r \<in> set pr \<and> mb_id (h ! r) = k"
proof -
  have d: "distinct (map (\<lambda>r. mb_id (h ! r)) pr)" "set ks = (\<lambda>r. mb_id (h ! r)) ` set pr"
    using assms by auto
  show ?thesis unfolding fold_dict_set [OF d(1)] map_of_filter_keys [of "\<lambda>k. k \<in> set ks"]
    using d(2) by auto
qed

lemma reconfigure_wf:
  assumes "mem_wf s" "clock_ok now" "quotas_ok udb (uq_iter (cfg_quotas cfg))"
    "prepare_reconfigured_backend udb cfg now s = (res, s')"
  shows "mem_wf s'"
    and "\<And>u. res = Inr u \<Longrightarrow>
      map (\<lambda>r. mb_id (be_heap s' ! r)) (be_buckets s') = map quota_bucket_id (uq_iter (cfg_quotas cfg)) \<and>
      be_limit_config s' = cfg \<and>
      (\<forall>q \<in> set (uq_iter (cfg_quotas cfg)). case map_of (be_registry s) (quota_bucket_id q) of
         Some r \<Rightarrow> r \<in> set (be_buckets s') \<and>
           set_max_capacity (VFloat (q_limit q)) now (be_heap s ! r) = (Inr (), be_heap s' ! r)
       | None \<Rightarrow> True)"
    and "be_acquired_ids s' = be_acquired_ids s" "be_acquired_values s' = be_acquired_values s"
      "be_refunded_ids s' = be_refunded_ids s" "be_refunded_order s' = be_refunded_order s"
      "be_refunded_cap s' = be_refunded_cap s"
proof -
  let ?qs = "uq_iter (cfg_quotas cfg)"
  have hw: "heap_wf (be_heap s) (be_buckets s)" using assms(1) by (rule mem_wf_heap)
  have init: "reconf_inv s now [] (be_heap s, be_registry s, [])"
    using assms(1) registry_Some [OF assms(1)] hw
    by (auto simp: reconf_inv_def heap_grown_def heap_wf_def)
  obtain res1 h ex pr where l: "op_for_each ?qs (prepare_quota udb cfg now) (be_heap s, be_registry s, [])
      = (res1, h, ex, pr)" by (metis prod_cases4)
  have q: "\<forall>q \<in> set ?qs. quota_ok udb q" "distinct (map quota_bucket_id ([] @ ?qs))"
    using assms(3) by (simp_all add: quotas_ok_def)
  note loop = prepare_loop_inv [OF assms(1,2) init q(2,1) l, simplified]
  show led: "be_acquired_ids s' = be_acquired_ids s" "be_acquired_values s' = be_acquired_values s"
      "be_refunded_ids s' = be_refunded_ids s" "be_refunded_order s' = be_refunded_order s"
      "be_refunded_cap s' = be_refunded_cap s"
    using assms(4) l
    by (auto simp: prepare_reconfigured_backend_def install_reconfigured_state_def Let_def split: sum.splits)
  {
    fix u assume "res1 = Inr u"
    with loop have inv: "reconf_inv s now ?qs (h, ex, pr)" by simp
    note inv' = inv [unfolded reconf_inv_def prod.case]
    have s': "s' = install_reconfigured_state pr cfg
            (s\<lparr>be_heap := h, be_registry := filter (\<lambda>(k, r). k \<in> set (map quota_bucket_id ?qs)) ex\<rparr>)"
      using assms(4) l \<open>res1 = Inr u\<close> by (simp add: prepare_reconfigured_backend_def)
    have f: "be_heap s' = h" "be_buckets s' = pr" "be_limit_config s' = cfg"
      unfolding s' by (simp_all add: install_reconfigured_state_def)
    have ids: "map (\<lambda>r. mb_id (h ! r)) pr = map quota_bucket_id ?qs" using inv' by blast
    have ex: "\<forall>r \<in> set pr. map_of ex (mb_id (h ! r)) = Some r" using inv' by blast
    have prl: "\<forall>r \<in> set pr. r < length h" using inv' by blast
    have "\<forall>b \<in> set h. bucket_wf b" using inv' by (simp add: heap_grown_def)
    then have "heap_wf h pr" using prl ids q(2) by (simp add: heap_wf_def)
    moreover note registry_after [OF ids _ ex]
    moreover have "ledger_wf s'" using assms(1) led by (auto simp: mem_wf_def ledger_wf_def)
    ultimately have "mem_wf s'" using q(2) s'
      by (simp add: mem_wf_def install_reconfigured_state_def)
    have "case map_of (be_registry s) (quota_bucket_id q) of
         Some r \<Rightarrow> r \<in> set pr \<and>
           set_max_capacity (VFloat (q_limit q)) now (be_heap s ! r) = (Inr (), h ! r)
       | None \<Rightarrow> True" if q: "q \<in> set ?qs" for q
      using inv' q by blast
    then have "map (\<lambda>r. mb_id (be_heap s' ! r)) (be_buckets s') = map quota_bucket_id ?qs \<and>
      be_limit_config s' = cfg \<and>
      (\<forall>q \<in> set ?qs. case map_of (be_registry s) (quota_bucket_id q) of
         Some r \<Rightarrow> r \<in> set (be_buckets s') \<and>
           set_max_capacity (VFloat (q_limit q)) now (be_heap s ! r) = (Inr (), be_heap s' ! r)
       | None \<Rightarrow> True)" unfolding f using ids by blast
    note \<open>mem_wf s'\<close> this
  } note ok = this
  show "mem_wf s'"
  proof (cases res1)
    case (Inl e)
    then have "s' = s\<lparr>be_heap := h\<rparr>" using assms(4) l by (simp add: prepare_reconfigured_backend_def)
    with loop assms(1) show ?thesis by (simp add: mem_wf_grown)
  qed (use ok(1) in blast)
  show "map (\<lambda>r. mb_id (be_heap s' ! r)) (be_buckets s') = map quota_bucket_id ?qs \<and>
      be_limit_config s' = cfg \<and>
      (\<forall>q \<in> set ?qs. case map_of (be_registry s) (quota_bucket_id q) of
         Some r \<Rightarrow> r \<in> set (be_buckets s') \<and>
           set_max_capacity (VFloat (q_limit q)) now (be_heap s ! r) = (Inr (), be_heap s' ! r)
       | None \<Rightarrow> True)" if "res = Inr u" for u
  proof (cases res1)
    case (Inl e)
    then show ?thesis using that assms(4) l by (simp add: prepare_reconfigured_backend_def)
  qed (use ok(2) in blast)
qed
section \<open>Quota sets\<close>

text \<open>Documented behaviour of the libraries: NFC is idempotent, pydantic returns doubles.\<close>

definition unicode_ok :: "unicode_db \<Rightarrow> bool" where
  "unicode_ok udb \<longleftrightarrow> (\<forall>s. nfc udb (nfc udb s) = nfc udb s)"

definition pydantic_ok :: "pydantic \<Rightarrow> bool" where
  "pydantic_ok pyd \<longleftrightarrow> (\<forall>v f. strict_float pyd v = Some f \<longrightarrow> is_dbl f)"

lemma uq_iter_iff:
  "q \<in> set (uq_iter u) \<longleftrightarrow> (\<exists>m ws p. (m, ws) \<in> set (uq_metrics u) \<and> (p, q) \<in> set ws)"
  by (force simp: uq_iter_def)

lemma uq_wf_distinct:
  assumes "uq_wf u"
  shows "distinct (map quota_bucket_id (uq_iter u))"
proof -
  have "distinct (map quota_bucket_id (concat (map (\<lambda>p. map snd (snd p)) d)))"
    if "distinct (map fst d)" "\<forall>(m, ws) \<in> set d. distinct (map fst ws) \<and>
        (\<forall>(p, q) \<in> set ws. q_metric q = m \<and> q_per_seconds q = p)" for d :: "(pystr \<times> (int, quota) dict) list"
    using that
  proof (induction d)
    case (Cons e d)
    obtain m ws where e: "e = (m, ws)" by (cases e)
    have "map (quota_bucket_id \<circ> snd) ws = map (Pair m \<circ> fst) ws"
      using Cons.prems(2) by (auto simp: e quota_bucket_id_def)
    moreover have "distinct (map (Pair m \<circ> fst) ws)"
      using Cons.prems(2) by (simp add: e map_map [symmetric] distinct_map inj_on_def del: map_map)
    ultimately have "distinct (map quota_bucket_id (map snd ws))" by (simp only: map_map)
    moreover have "quota_bucket_id ` snd ` set ws \<inter>
        quota_bucket_id ` (\<Union>x\<in>set d. snd ` set (snd x)) = {}"
      using Cons.prems by (force simp: e quota_bucket_id_def)
    ultimately show ?case using Cons by (simp add: e image_image)
  qed simp
  then show ?thesis using assms by (simp add: uq_wf_def uq_iter_def dict_keys_def)
qed

lemma quota_revalidate_ok:
  assumes "quota_revalidate udb pyd q0 = Inr q" "unicode_ok udb" "pydantic_ok pyd"
  shows "quota_ok udb q"
proof -
  from assms(1) have q: "validate_key_segment_req udb (VStr (q_metric q0)) ''metric'' None = Inr (q_metric q)"
    "quota_limit_field pyd (VFloat (q_limit q0)) = Inr (q_limit q)"
    "quota_per_seconds_field pyd (VInt (q_per_seconds q0)) = Inr (q_per_seconds q)"
    by (simp_all add: quota_revalidate_def mk_quota_Inr)
  have "is_dbl (q_limit q)" using q(2) assms(3)
    by (auto simp: quota_limit_field_def res_simps pydantic_ok_def split: option.split_asm)
  then have "max_ok (q_limit q)" using quota_limit_field_Inr [OF q(2)] by (simp add: max_ok_def)
  moreover have "per_seconds_ok (q_per_seconds q)" using quota_per_seconds_field_Inr [OF q(3)]
    by (simp add: per_seconds_ok_def)
  moreover have "nfc udb (q_metric q) = q_metric q" using q(1) assms(2)
    by (simp add: validate_segment_str_Inr unicode_ok_def)
  ultimately show ?thesis by (simp add: quota_ok_def)
qed

definition uq_ok :: "unicode_db \<Rightarrow> usage_quotas \<Rightarrow> bool" where
  "uq_ok udb u \<longleftrightarrow> uq_wf u \<and> (\<forall>q \<in> set (uq_iter u). quota_ok udb q)"

lemma uq_ok_quotas: "uq_ok udb u \<Longrightarrow> quotas_ok udb (uq_iter u)"
  by (simp add: uq_ok_def quotas_ok_def uq_wf_distinct)

lemma add_metric_ok:
  assumes "add_metric udb pyd q0 u = Inr u'" "uq_ok udb u" "unicode_ok udb" "pydantic_ok pyd"
  shows "uq_ok udb u' \<and> uq_frozen u' = uq_frozen u"
proof -
  from assms(1) obtain q where q: "quota_revalidate udb pyd q0 = Inr q"
    "map_of (dict_get (uq_metrics u) (q_metric q) []) (q_per_seconds q) = None"
    "u' = u\<lparr>uq_metrics := dict_set (q_metric q)
        (dict_set (q_per_seconds q) q (dict_get (uq_metrics u) (q_metric q) [])) (uq_metrics u)\<rparr>"
    by (auto simp: add_metric_def res_simps Let_def split: if_split_asm)
  let ?w = "dict_get (uq_metrics u) (q_metric q) []"
  have d: "distinct (map fst (uq_metrics u))" using assms(2) by (simp add: uq_ok_def uq_wf_def dict_keys_def)
  have w: "?w = [] \<or> (q_metric q, ?w) \<in> set (uq_metrics u)"
    by (auto simp: dict_get_def split: option.split dest: map_of_SomeD)
  then have dw: "distinct (map fst ?w)" "\<forall>(p, x) \<in> set ?w. q_metric x = q_metric q \<and> q_per_seconds x = p"
    using assms(2) by (force simp: uq_ok_def uq_wf_def dict_keys_def)+
  note qo = quota_revalidate_ok [OF q(1) assms(3,4)]
  have "uq_wf u'"
    using assms(2) distinct_dict_set [OF d] distinct_dict_set [OF dw(1)] dw(2)
    unfolding q(3) uq_ok_def uq_wf_def dict_keys_def
    by (auto simp: set_dict_set [OF d] set_dict_set [OF dw(1)])
  moreover have "x = q \<or> x \<in> set (uq_iter u)" if "x \<in> set (uq_iter u')" for x
    using that w unfolding uq_iter_iff q(3)
    by (auto simp: set_dict_set [OF d] set_dict_set [OF dw(1)])
  ultimately show ?thesis using qo assms(2) unfolding q(3) by (auto simp: uq_ok_def)
qed

lemma mk_usage_quotas_ok:
  assumes "mk_usage_quotas udb pyd qs fr = Inr u" "unicode_ok udb" "pydantic_ok pyd"
  shows "uq_ok udb u"
proof -
  from assms(1) obtain u0 where u0: "for_each qs (add_metric udb pyd) unlimited_quotas = Inr u0"
    "u = u0\<lparr>uq_frozen := fr\<rparr>"
    by (auto simp: mk_usage_quotas_def res_simps)
  have "uq_ok udb unlimited_quotas" by (simp add: uq_ok_def uq_wf_def unlimited_quotas_def uq_iter_def dict_keys_def)
  from for_each_invariant [where I = "uq_ok udb", OF u0(1) this] have "uq_ok udb u0"
    using add_metric_ok assms(2,3) by blast
  then show ?thesis by (simp add: u0(2) uq_ok_def uq_wf_def uq_iter_def)
qed

lemma mk_config_ok:
  assumes "mk_config udb pyd quotas family = Inr cfg" "unicode_ok udb" "pydantic_ok pyd"
  shows "quotas_ok udb (uq_iter (cfg_quotas cfg))"
proof -
  from assms(1) have "frozen_snapshot udb pyd quotas = Inr (cfg_quotas cfg)"
    by (auto simp: mk_config_def bind_res_Inr_iff)
  moreover have "uq_ok udb (unlimited_quotas\<lparr>uq_frozen := True\<rparr>)"
    by (simp add: unlimited_quotas_def uq_ok_def uq_wf_def uq_iter_def dict_keys_def)
  ultimately have "uq_ok udb (cfg_quotas cfg)"
    using mk_usage_quotas_ok [OF _ assms(2,3)] unfolding frozen_snapshot_def
    by (metis sum.inject(2))
  then show ?thesis by (rule uq_ok_quotas)
qed
lemma build_buckets:
  assumes "for_each qs (\<lambda>q bs. bind_res (mk_bucket_of_quota udb c q) (\<lambda>b. Inr (bs @ [b]))) acc = Inr bs"
    "\<forall>q \<in> set qs. quota_ok udb q"
  shows "\<exists>new. bs = acc @ new \<and> map mb_id new = map quota_bucket_id qs \<and> (\<forall>b \<in> set new. bucket_wf b \<and> mb_capacity b = None)"
  using assms
proof (induction qs arbitrary: acc)
  case (Cons q qs)
  then obtain b where b: "mk_bucket_of_quota udb c q = Inr b"
    "for_each qs (\<lambda>q bs. bind_res (mk_bucket_of_quota udb c q) (\<lambda>b. Inr (bs @ [b]))) (acc @ [b]) = Inr bs"
    by (auto simp: bind_res_Inr_iff)
  from Cons.IH [OF b(2)] Cons.prems(2) obtain new where n: "bs = (acc @ [b]) @ new"
    "map mb_id new = map quota_bucket_id qs" "\<forall>b \<in> set new. bucket_wf b \<and> mb_capacity b = None" by auto
  have "bucket_wf b \<and> mb_id b = quota_bucket_id q \<and> mb_capacity b = None"
    using mk_bucket_of_quota_wf [OF b(1)] Cons.prems(2) by simp
  with n show ?case by (intro exI [of _ "b # new"]) simp
qed simp

lemma build_mem_backend_wf:
  assumes "build_mem_backend udb pyd si cfg = Inr s" "unicode_ok udb" "pydantic_ok pyd"
  shows "mem_wf s" "be_acquired_ids s = {}" "be_refunded_ids s = {}"
    "map (\<lambda>r. mb_id (be_heap s ! r)) (be_buckets s) =
       map quota_bucket_id (uq_iter (cfg_quotas (be_limit_config s)))"
    "\<forall>r \<in> set (be_buckets s). mb_capacity (be_heap s ! r) = None"
proof -
  from assms(1) obtain c bs where c: "config_with_family udb pyd cfg (cfg_model_family cfg) = Inr c"
    "for_each (uq_iter (cfg_quotas c)) (\<lambda>q bs. bind_res (mk_bucket_of_quota udb c q) (\<lambda>b. Inr (bs @ [b]))) [] = Inr bs"
    "mk_mem_backend bs c si = Inr s"
    by (auto simp: build_mem_backend_def bind_res_Inr_iff)
  from c(1) have q: "quotas_ok udb (uq_iter (cfg_quotas c))"
    unfolding config_with_family_def using assms(2,3) by (rule mk_config_ok)
  then obtain "map mb_id bs = map quota_bucket_id (uq_iter (cfg_quotas c))"
    "\<forall>b \<in> set bs. bucket_wf b \<and> mb_capacity b = None"
    using build_buckets [OF c(2)] by (auto simp: quotas_ok_def)
  note bs = this
  have ids: "map (\<lambda>r. mb_id (bs ! r)) [0..<length bs] = map mb_id bs"
    by (rule nth_equalityI) simp_all
  have d: "distinct (map (\<lambda>r. mb_id (bs ! r)) [0..<length bs])"
    unfolding ids bs(1) using q by (simp add: quotas_ok_def)
  have "set bs = (!) bs ` set [0..<length bs]" by (metis list.set_map map_nth)
  then have m: "mb_metric ` set bs = (\<lambda>r. mb_metric (bs ! r)) ` set [0..<length bs]"
    by (simp only: image_image)
  obtain sl where s: "s = \<lparr>be_heap = bs, be_buckets = [0..<length bs],
         be_registry = fold (\<lambda>r d. dict_set (mb_id (bs ! r)) r d) [0..<length bs] [],
         be_limit_config = c, be_configured_limits = quota_limits (uq_iter (cfg_quotas c)),
         be_usage_metric_names = mb_metric ` set bs, be_sleep_interval = sl,
         be_acquired_ids = {}, be_acquired_values = [], be_refunded_ids = {},
         be_refunded_order = [], be_refunded_cap = REFUNDED_RESERVATION_IDS_CAP, be_waiters = []\<rparr>"
    using c(3) by (auto simp: mk_mem_backend_def bind_res_Inr_iff)
  have "heap_wf bs [0..<length bs]" using bs(2) d by (simp add: heap_wf_def)
  moreover note fold_dict_set [OF d, of "[]"]
  ultimately show "mem_wf s" unfolding s mem_wf_def ledger_wf_def using m
    by (simp add: dict_keys_def)
  show "be_acquired_ids s = {}" "be_refunded_ids s = {}" "\<forall>r \<in> set (be_buckets s). mb_capacity (be_heap s ! r) = None"
    using bs(2) by (simp_all add: s)
  show "map (\<lambda>r. mb_id (be_heap s ! r)) (be_buckets s) =
       map quota_bucket_id (uq_iter (cfg_quotas (be_limit_config s)))"
    using ids bs(1) by (simp add: s)
qed

section \<open>Waiting\<close>

text \<open>What a turn of the wait loop does to a well-formed state.\<close>

lemma upsert_fields [simp]:
  "be_heap (upsert_diagnostic_waiter k rid u c d st s) = be_heap s"
  "be_buckets (upsert_diagnostic_waiter k rid u c d st s) = be_buckets s"
  by (simp_all add: upsert_diagnostic_waiter_def)

lemma mem_wf_waiters [simp]: "mem_wf (s\<lparr>be_waiters := w\<rparr>) = mem_wf s"
  by (simp add: mem_wf_def ledger_wf_def)

lemma mem_wf_upsert [simp]: "mem_wf (upsert_diagnostic_waiter k rid u c d st s) = mem_wf s"
  by (simp add: upsert_diagnostic_waiter_def)

lemma mem_wf_pop [simp]: "mem_wf (pop_waiter b k s) = mem_wf s"
  by (simp add: pop_waiter_def)

text \<open>A state transition that consumes \<open>u\<close>, as a granted wait does.\<close>

definition granted :: "usage \<Rightarrow> pystr option \<Rightarrow> pyfloat \<Rightarrow> mem_backend \<Rightarrow> mem_backend \<Rightarrow> bool" where
  "granted u rid now s s' \<longleftrightarrow> replayed s rid u = Inr False \<and>
     (\<exists>h. s' = (record_opt rid u s)\<lparr>be_heap := h\<rparr> \<and>
       (\<forall>r \<in> set (be_buckets s).
          mb_id (h ! r) = mb_id (be_heap s ! r) \<and>
          mb_max_capacity (h ! r) = mb_max_capacity (be_heap s ! r) \<and>
          (\<forall>a. map_of u (mb_metric (be_heap s ! r)) = Some a \<longrightarrow> fle a (avail s now r)) \<and>
          visible (h ! r) now = granted_value u (avail s now r) (mb_metric (be_heap s ! r)) \<and>
          fle (Fin 0) (visible (h ! r) now)))"

lemma wait_turn_cases:
  assumes "wait_turn u rid key dl t w s = (res, s')" "mem_wf s" "usage_ok u" "clock_ok (tk_time t)"
  shows "mem_wf s'"
    and "\<And>g. res = Inr (Granted g) \<Longrightarrow> gr_time g = tk_time t \<and>
       (if gr_replayed g then s' = s \<and> replayed s rid u = Inr True
        else granted u rid (tk_time t) s s' \<and> gr_buckets g = be_buckets s)"
    and "(\<nexists>g. res = Inr (Granted g)) \<Longrightarrow>
       s' = s \<or> (\<exists>c st. s' = upsert_diagnostic_waiter key rid u c dl st s)"
    and "\<And>e. res = Inl e \<Longrightarrow> s' = s"
proof -
  have hw: "heap_wf (be_heap s) (be_buckets s)" using assms(2) by (rule mem_wf_heap)
  let ?pre = "visible_caps (be_heap s) (be_buckets s) (tk_time t)"
  note gc = get_capacities_wf [OF hw assms(4)]
  consider (dup) e where "replayed s rid u = Inl e" | (rep) "replayed s rid u = Inr True"
    | (new) "replayed s rid u = Inr False" by (cases "replayed s rid u") auto
  then have "mem_wf s' \<and> (case res of Inr (Granted g) \<Rightarrow> gr_time g = tk_time t \<and>
       (if gr_replayed g then s' = s \<and> replayed s rid u = Inr True
        else granted u rid (tk_time t) s s' \<and> gr_buckets g = be_buckets s)
      | Inl e \<Rightarrow> s' = s
      | _ \<Rightarrow> \<exists>c st. s' = upsert_diagnostic_waiter key rid u c dl st s)"
  proof cases
    case new
    show ?thesis
    proof (cases "try_consume_locked s u ?pre")
      case (Inl e)
      then show ?thesis using assms(1,2) new gc by (auto simp: wait_turn_def)
    next
      case (Inr p)
      obtain ok post where p: "p = (ok, post)" by (cases p)
      show ?thesis
      proof (cases ok)
        case True
        with Inr p have tc: "try_consume_locked s u ?pre = Inr (True, post)" by simp
        note gw = grant_locked_wf [OF assms(2,4,3) tc]
        have "s' = (record_opt rid u s)\<lparr>be_heap := write_caps (be_buckets s) post (tk_time t) False (be_heap s)\<rparr>"
          "\<exists>g. res = Inr (Granted g) \<and> gr_time g = tk_time t \<and> \<not> gr_replayed g \<and> gr_buckets g = be_buckets s"
          using assms(1) new gc Inr p True gw(1) [of rid]
          by (auto simp: wait_turn_def op_bind_def op_simps)
        moreover have "mem_wf s'" using grant_mem_wf [OF assms(2) gw(2) new] calculation(1) by simp
        moreover have "\<forall>r \<in> set (be_buckets s). r < length (be_heap s)"
          using hw by (simp add: heap_wf_def)
        then have "granted u rid (tk_time t) s s'"
          unfolding granted_def using new gw(3,4) calculation(1)
          by (intro conjI exI [of _ "write_caps (be_buckets s) post (tk_time t) False (be_heap s)"]) auto
        ultimately show ?thesis by auto
      next
        case False
        then show ?thesis using assms(1,2) new gc Inr p
          by (auto simp: wait_turn_def Let_def split: if_splits sum.splits) blast+
      qed
    qed
  qed (use assms(1,2) in \<open>auto simp: wait_turn_def\<close>)
  then show "mem_wf s'"
    and "\<And>g. res = Inr (Granted g) \<Longrightarrow> gr_time g = tk_time t \<and>
       (if gr_replayed g then s' = s \<and> replayed s rid u = Inr True
        else granted u rid (tk_time t) s s' \<and> gr_buckets g = be_buckets s)"
    and "(\<nexists>g. res = Inr (Granted g)) \<Longrightarrow>
       s' = s \<or> (\<exists>c st. s' = upsert_diagnostic_waiter key rid u c dl st s)"
    and "\<And>e. res = Inl e \<Longrightarrow> s' = s"
    by (auto split: sum.splits turn.splits)
qed
text \<open>The wait loop, whatever other threads do that keeps the backend well-formed.\<close>

definition ticks_ok :: "tick list \<Rightarrow> bool" where
  "ticks_ok ts \<longleftrightarrow> (\<forall>t \<in> set ts. clock_ok (tk_time t) \<and> (\<forall>x. mem_wf x \<longrightarrow> mem_wf (tk_env t x)))"

lemma ticks_ok_Cons [simp]: "ticks_ok (t # ts) \<longleftrightarrow>
    clock_ok (tk_time t) \<and> (\<forall>x. mem_wf x \<longrightarrow> mem_wf (tk_env t x)) \<and> ticks_ok ts"
  by (auto simp: ticks_ok_def)

lemma wait_loop_wf:
  assumes "wait_loop cb inst u rid key dl ts w reg s = (res, reg', s')" "mem_wf s" "usage_ok u" "ticks_ok ts"
  shows "mem_wf s' \<and> (\<forall>g w'. res = Some (Inr (g, w')) \<longrightarrow>
     (\<exists>s0. mem_wf s0 \<and> (if gr_replayed g then s' = s0 \<and> replayed s0 rid u = Inr True
        else granted u rid (gr_time g) s0 s' \<and> gr_buckets g = be_buckets s0)))"
  using assms
proof (induction ts arbitrary: w reg s)
  case (Cons t ts)
  obtain r1 s1 where t: "wait_turn u rid key dl t w s = (r1, s1)" by (metis surj_pair)
  have ck: "clock_ok (tk_time t)" "mem_wf x \<Longrightarrow> mem_wf (tk_env t x)" "ticks_ok ts" for x
    using Cons.prems(4) by auto
  note wt = wait_turn_cases [OF t Cons.prems(2,3) ck(1)]
  consider (err) e where "r1 = Inl e" | (raised) e where "r1 = Inr (Raised e)"
    | (granted) g where "r1 = Inr (Granted g)" | (sleep) d where "r1 = Inr (Sleep d)"
    | (fire) pre where "r1 = Inr (FireWaitStart pre)" by (metis sum.exhaust turn.exhaust)
  then show ?case
  proof cases
    case err
    then show ?thesis using Cons.prems(1) t wt(1) by auto
  next
    case raised
    then show ?thesis using Cons.prems(1) t wt(1) by auto
  next
    case granted
    then show ?thesis using Cons.prems(1,2) t wt(1) wt(2) [OF granted] by auto
  next
    case sleep
    then show ?thesis using Cons.prems(1) t Cons.IH [of w True "tk_env t s1"] wt(1) ck Cons.prems(3)
      by auto
  next
    case fire
    let ?w = "wait_started_locals t pre w"
    show ?thesis
    proof (cases "fire_wait_start cb inst u dl t ?w")
      case (Inl e)
      then show ?thesis using fire Cons.prems(1) t wt(1) ck by auto
    next
      case (Inr w1)
      then show ?thesis
        using fire Cons.prems(1) t Cons.IH [of w1 True "tk_env t s1"] wt(1) ck Cons.prems(3) by auto
    qed
  qed
qed auto

text \<open>A grant is one turn, on the state the turns before it left the wait in.\<close>

lemma wait_loop_grant_turn:
  assumes "wait_loop cb inst u rid key dl ts w reg s = (Some (Inr (g, w')), reg', s')"
  shows "\<exists>ts1 t ts2 s0 reg0. ts = ts1 @ t # ts2 \<and>
     wait_loop cb inst u rid key dl ts1 w reg s = (None, reg0, s0) \<and>
     wait_turn u rid key dl t w' s0 = (Inr (Granted g), s')"
  using assms
proof (induction ts arbitrary: w reg s)
  case (Cons t ts)
  obtain r1 s1 where t: "wait_turn u rid key dl t w s = (r1, s1)" by (metis surj_pair)
  have step: ?case if "wait_loop cb inst u rid key dl ts w1 True (tk_env t s1) = (Some (Inr (g, w')), reg', s')"
    "\<And>xs. wait_loop cb inst u rid key dl (t # xs) w reg s = wait_loop cb inst u rid key dl xs w1 True (tk_env t s1)"
    for w1
  proof -
    from Cons.IH [OF that(1)] obtain ts1 t1 ts2 s0 reg0 where "ts = ts1 @ t1 # ts2"
      "wait_loop cb inst u rid key dl ts1 w1 True (tk_env t s1) = (None, reg0, s0)"
      "wait_turn u rid key dl t1 w' s0 = (Inr (Granted g), s')" by blast
    then have "t # ts = (t # ts1) @ t1 # ts2"
      "wait_loop cb inst u rid key dl (t # ts1) w reg s = (None, reg0, s0)"
      "wait_turn u rid key dl t1 w' s0 = (Inr (Granted g), s')" using that(2) by simp_all
    then show ?thesis
      by - (rule exI [of _ "t # ts1"], rule exI [of _ t1], rule exI [of _ ts2], rule exI [of _ s0],
        rule exI [of _ reg0], blast)
  qed
  consider (err) e where "r1 = Inl e" | (raised) e where "r1 = Inr (Raised e)"
    | (granted) x where "r1 = Inr (Granted x)" | (sleep) d where "r1 = Inr (Sleep d)"
    | (fire) pre where "r1 = Inr (FireWaitStart pre)" by (metis sum.exhaust turn.exhaust)
  then show ?case
  proof cases
    case granted
    then have "wait_turn u rid key dl t w' s = (Inr (Granted g), s')" using Cons.prems t by simp
    then show ?thesis by - (rule exI [of _ "[]"], rule exI [of _ t], rule exI [of _ ts], simp)
  next
    case sleep
    show ?thesis by (rule step [of w]) (use Cons.prems t sleep in simp_all)
  next
    case fire
    then show ?thesis using Cons.prems t step
      by (cases "fire_wait_start cb inst u dl t (wait_started_locals t pre w)") simp_all
  qed (use Cons.prems t in simp_all)
qed simp

lemma refund_cancelled_waiters [simp]:
  "be_waiters (snd (refund_cancelled_consumption u target rid now s)) = be_waiters s"
  by (auto simp: refund_cancelled_consumption_def op_bind_def op_simps on_heap_def forget_opt_def
      forget_acquired_reservation_def split: sum.splits prod.splits option.splits)

lemma record_opt_waiters [simp]: "be_waiters (record_opt rid u s) = be_waiters s"
  by (simp add: record_opt_def record_acquired_reservation_def split: option.split)

text \<open>
  A wait among other threads: they keep the waiter's own entry alone, and what they do lies in
  the preorder \<open>R\<close>, which contains every change of the own entry.
\<close>

definition only_own_waiter :: "pystr \<Rightarrow> (mem_backend \<Rightarrow> mem_backend \<Rightarrow> bool) \<Rightarrow> bool" where
  "only_own_waiter key R \<longleftrightarrow> reflp R \<and> transp R \<and>
     (\<forall>x w. (map_of w)(key := None) = (map_of (be_waiters x))(key := None) \<longrightarrow>
        R x (x\<lparr>be_waiters := w\<rparr>))"

definition leaves_waiter :: "pystr \<Rightarrow> (mem_backend \<Rightarrow> mem_backend \<Rightarrow> bool) \<Rightarrow> (mem_backend \<Rightarrow> mem_backend) \<Rightarrow> bool" where
  "leaves_waiter key R env \<longleftrightarrow>
     (\<forall>x. R x (env x) \<and> map_of (be_waiters (env x)) key = map_of (be_waiters x) key)"

lemma only_own_waiter_upsert:
  "only_own_waiter key R \<Longrightarrow> R s (upsert_diagnostic_waiter key rid u c dl st s)"
  by (simp add: only_own_waiter_def upsert_diagnostic_waiter_def)

lemma only_own_waiter_pop: "only_own_waiter key R \<Longrightarrow> R s (pop_waiter reg key s)"
  by (simp add: only_own_waiter_def pop_waiter_def reflp_def)

lemma pop_waiter_gone:
  "reg \<or> map_of (be_waiters s) key = None \<Longrightarrow> map_of (be_waiters (pop_waiter reg key s)) key = None"
  by (auto simp: pop_waiter_def)

lemma wait_loop_rely:
  assumes "wait_loop cb inst u rid key dl ts w reg t = (res, reg', t')" "mem_wf t" "usage_ok u" "ticks_ok ts"
    "only_own_waiter key R" "\<forall>tk \<in> set ts. leaves_waiter key R (tk_env tk)"
    "reg \<or> map_of (be_waiters t) key = None"
  shows "(reg' \<or> map_of (be_waiters t') key = None) \<and> ((\<nexists>x. res = Some (Inr x)) \<longrightarrow> R t t')"
  using assms
proof (induction ts arbitrary: w reg t)
  case Nil
  then show ?case by (auto simp: only_own_waiter_def reflp_def)
next
  case (Cons tk ts)
  obtain r1 s1 where tn: "wait_turn u rid key dl tk w t = (r1, s1)" by (metis surj_pair)
  have tr: "R a b \<Longrightarrow> R b c \<Longrightarrow> R a c" for a b c using Cons.prems(5) by (auto simp: only_own_waiter_def elim: transpE)
  have ck: "clock_ok (tk_time tk)" "\<And>x. mem_wf x \<Longrightarrow> mem_wf (tk_env tk x)" "ticks_ok ts"
    "\<And>x. R x (tk_env tk x)" "\<And>x. map_of (be_waiters (tk_env tk x)) key = map_of (be_waiters x) key"
    using Cons.prems(4,6) by (auto simp: leaves_waiter_def)
  note wt = wait_turn_cases [OF tn Cons.prems(2,3) ck(1)]
  consider (err) e where "r1 = Inl e" | (raised) e where "r1 = Inr (Raised e)"
    | (granted) g where "r1 = Inr (Granted g)" | (sleep) d where "r1 = Inr (Sleep d)"
    | (fire) pre where "r1 = Inr (FireWaitStart pre)" by (metis sum.exhaust turn.exhaust)
  then show ?case
  proof cases
    case err
    then show ?thesis using Cons.prems(1,5,7) tn wt(4) [OF err] by (auto simp: only_own_waiter_def reflp_def)
  next
    case raised
    then have "R t s1" using wt(3) only_own_waiter_upsert [OF Cons.prems(5)] Cons.prems(5)
      by (auto simp: only_own_waiter_def reflp_def)
    then show ?thesis using Cons.prems(1) tn raised by auto
  next
    case granted
    then have "be_waiters s1 = be_waiters t" using wt(2) [OF granted] by (auto simp: granted_def split: if_splits)
    then show ?thesis using Cons.prems(1,7) tn granted by auto
  next
    case sleep
    then have "R t (tk_env tk s1)" using wt(3) only_own_waiter_upsert [OF Cons.prems(5)] ck(4) tr by blast
    moreover have "(reg' \<or> map_of (be_waiters t') key = None) \<and>
        ((\<nexists>x. res = Some (Inr x)) \<longrightarrow> R (tk_env tk s1) t')"
      using Cons.prems sleep tn ck(2,3) wt(1) by (intro Cons.IH [of w True]) simp_all
    ultimately show ?thesis using tr [of t "tk_env tk s1" t'] by simp
  next
    case fire
    let ?w = "wait_started_locals tk pre w"
    have r: "R t (tk_env tk s1)" using wt(3) fire only_own_waiter_upsert [OF Cons.prems(5)] ck(4) tr by blast
    show ?thesis
    proof (cases "fire_wait_start cb inst u dl tk ?w")
      case (Inl e)
      then show ?thesis using fire Cons.prems(1) tn r by auto
    next
      case (Inr w1)
      have "(reg' \<or> map_of (be_waiters t') key = None) \<and>
          ((\<nexists>x. res = Some (Inr x)) \<longrightarrow> R (tk_env tk s1) t')"
        using Cons.prems fire Inr tn ck(2,3) wt(1) by (intro Cons.IH [of w1 True]) simp_all
      then show ?thesis using r tr [of t "tk_env tk s1" t'] by simp
    qed
  qed
qed

text \<open>The deadline is looked at on every failed turn, so a turn past it ends the wait.\<close>

lemma wait_loop_deadline:
  assumes "t \<in> set ts" "reached dl (tk_deadline_check t)"
  shows "fst (wait_loop cb inst u rid key dl ts w reg s) \<noteq> None"
  using assms
proof (induction ts arbitrary: w reg s)
  case (Cons t' ts)
  obtain r1 s1 where t: "wait_turn u rid key dl t' w s = (r1, s1)" by (metis surj_pair)
  have "t' = t \<Longrightarrow> (\<forall>d. r1 \<noteq> Inr (Sleep d)) \<and> (\<forall>p. r1 \<noteq> Inr (FireWaitStart p))"
    using t Cons.prems(2)
    by (auto simp: wait_turn_def op_bind_def op_simps Let_def split: sum.splits prod.splits bool.splits)
  then show ?case using Cons t by (auto split: sum.split turn.split)
qed simp
end
