(* ===== verification/Ledger.thy ===== *)
theory Ledger
  imports Prelude
begin

text \<open>
  The contract every backend keeps about reservation ids, as an interface: a backend is a
  labelled step relation with an invariant and a set of live ids, and its laws say which
  labels make an id live and which end it. The lemmas count the labels of a trace; both the
  in-process and the SQLite backend are instances.
\<close>

datatype ledger_event = Acquired pystr | Refunded pystr | Cancelled pystr | Silent

inductive trace ::
  "('s \<Rightarrow> ledger_event \<Rightarrow> 's \<Rightarrow> bool) \<Rightarrow> 's \<Rightarrow> ledger_event list \<Rightarrow> 's \<Rightarrow> bool"
  for step :: "'s \<Rightarrow> ledger_event \<Rightarrow> 's \<Rightarrow> bool" where
  trace_Nil: "trace step s [] s"
| trace_Cons: "step s e t \<Longrightarrow> trace step t es u \<Longrightarrow> trace step s (e # es) u"

inductive_cases trace_NilE: "trace step s [] u"
inductive_cases trace_ConsE: "trace step s (e # es) u"

inductive_simps trace_Nil_iff [simp]: "trace step s [] u"
inductive_simps trace_Cons_iff: "trace step s (e # es) u"

lemma trace_append:
  "trace step s (xs @ ys) u \<longleftrightarrow> (\<exists>t. trace step s xs t \<and> trace step t ys u)"
proof (induction xs arbitrary: s)
  case Nil
  then show ?case by auto
next
  case (Cons e xs)
  then show ?case by (auto simp: trace_Cons_iff)
qed

text \<open>The event that ends the life of \<open>i\<close>, and the balance of an id over a trace.\<close>

definition ends :: "pystr \<Rightarrow> ledger_event \<Rightarrow> bool" where
  "ends i e \<longleftrightarrow> e = Refunded i \<or> e = Cancelled i"

definition acquisitions :: "pystr \<Rightarrow> ledger_event list \<Rightarrow> nat" where
  "acquisitions i es = length (filter (\<lambda>e. e = Acquired i) es)"

definition releases :: "pystr \<Rightarrow> ledger_event list \<Rightarrow> nat" where
  "releases i es = length (filter (ends i) es)"

text \<open>
  The weakest contract: live ids may disappear (expire, be pruned), but only an acquisition
  makes one live, and only a live one is ended.
\<close>

locale lossy_ledger =
  fixes inv :: "'s \<Rightarrow> bool"
    and live :: "'s \<Rightarrow> pystr set"
    and step :: "'s \<Rightarrow> ledger_event \<Rightarrow> 's \<Rightarrow> bool"
  assumes inv_step: "inv s \<Longrightarrow> step s e t \<Longrightarrow> inv t"
    and acquire_live: "inv s \<Longrightarrow> step s (Acquired i) t \<Longrightarrow> live t \<subseteq> insert i (live s)"
    and refund_live: "inv s \<Longrightarrow> step s (Refunded i) t \<Longrightarrow> i \<in> live s \<and> live t \<subseteq> live s - {i}"
    and cancel_live: "inv s \<Longrightarrow> step s (Cancelled i) t \<Longrightarrow> i \<in> live s \<and> live t \<subseteq> live s - {i}"
    and silent_live: "inv s \<Longrightarrow> step s Silent t \<Longrightarrow> live t \<subseteq> live s"
begin

lemma trace_inv: "trace step s es u \<Longrightarrow> inv s \<Longrightarrow> inv u"
  by (induction rule: trace.induct) (auto intro: inv_step)

lemma step_balance_le:
  assumes "inv s" "step s e t"
  shows "releases i [e] + (if i \<in> live t then 1 else 0) \<le>
    acquisitions i [e] + (if i \<in> live s then 1 else 0)"
proof (cases e)
  case (Acquired j)
  then show ?thesis using acquire_live assms by (auto simp: acquisitions_def releases_def ends_def)
next
  case (Refunded j)
  then show ?thesis using refund_live [of s j t] assms by (auto simp: acquisitions_def releases_def ends_def)
next
  case (Cancelled j)
  then show ?thesis using cancel_live [of s j t] assms by (auto simp: acquisitions_def releases_def ends_def)
next
  case Silent
  then show ?thesis using silent_live assms by (auto simp: acquisitions_def releases_def ends_def)
qed

lemma cons_counts:
  "acquisitions i (e # es) = acquisitions i [e] + acquisitions i es"
  "releases i (e # es) = releases i [e] + releases i es"
  by (simp_all add: acquisitions_def releases_def)

text \<open>Every acquisition of an id is ended at most once.\<close>

lemma balance_le:
  "trace step s es u \<Longrightarrow> inv s \<Longrightarrow>
     releases i es + (if i \<in> live u then 1 else 0) \<le>
     acquisitions i es + (if i \<in> live s then 1 else 0)"
proof (induction rule: trace.induct)
  case (trace_Nil s)
  then show ?case by (simp add: acquisitions_def releases_def)
next
  case (trace_Cons s e t es u)
  have "inv t" using trace_Cons.prems trace_Cons.hyps(1) by (rule inv_step)
  note trace_Cons.IH [OF this] step_balance_le [OF trace_Cons.prems trace_Cons.hyps(1), of i]
  then show ?case using cons_counts [of i e es] by linarith
qed

lemma releases_bounded:
  "trace step s es u \<Longrightarrow> inv s \<Longrightarrow> i \<notin> live s \<Longrightarrow> releases i es \<le> acquisitions i es"
  using balance_le [of s es u i] by (simp split: if_splits)

text \<open>Between two refunds of one id lies a new acquisition of it.\<close>

lemma refund_twice:
  assumes "trace step s (xs @ Refunded i # ys @ Refunded i # zs) u" "inv s"
  shows "Acquired i \<in> set ys"
proof (rule ccontr)
  assume "Acquired i \<notin> set ys"
  then have no: "acquisitions i ys = 0"
    by (auto simp: acquisitions_def filter_empty_conv)
  from assms(1) obtain a b c where t: "trace step s xs a" "step a (Refunded i) b" "trace step b ys c"
    "\<exists>d. step c (Refunded i) d" by (auto simp: trace_append trace_Cons_iff)
  have a: "inv a" using t(1) assms(2) by (rule trace_inv)
  then have b: "inv b" using t(2) by (rule inv_step)
  have "i \<notin> live b" using refund_live [OF a t(2)] by blast
  with balance_le [OF t(3) b, of i] no have "i \<notin> live c" by (simp split: if_splits)
  moreover have "inv c" using t(3) b by (rule trace_inv)
  ultimately show False using refund_live t(4) by blast
qed

end

text \<open>
  A ledger that remembers what it has closed: a refunded id stays closed along the trace, and
  a closed id is neither acquired nor refunded.
\<close>

locale closing_ledger = lossy_ledger inv live step
  for inv :: "'s \<Rightarrow> bool" and live :: "'s \<Rightarrow> pystr set" and step :: "'s \<Rightarrow> ledger_event \<Rightarrow> 's \<Rightarrow> bool" +
  fixes closed :: "'s \<Rightarrow> pystr set"
  assumes refund_closes: "inv s \<Longrightarrow> step s (Refunded i) t \<Longrightarrow> i \<in> closed t"
    and closed_stays: "inv s \<Longrightarrow> step s e t \<Longrightarrow> closed s \<subseteq> closed t"
    and closed_excludes: "inv s \<Longrightarrow> i \<in> closed s \<Longrightarrow> step s e t \<Longrightarrow> e \<noteq> Acquired i \<and> e \<noteq> Refunded i"
begin

lemma closed_trace:
  "trace step s es u \<Longrightarrow> inv s \<Longrightarrow> i \<in> closed s \<Longrightarrow> Acquired i \<notin> set es \<and> Refunded i \<notin> set es"
proof (induction rule: trace.induct)
  case (trace_Cons s e t es u)
  have "inv t" using trace_Cons.prems(1) trace_Cons.hyps(1) by (rule inv_step)
  moreover have "i \<in> closed t" using closed_stays [OF trace_Cons.prems(1) trace_Cons.hyps(1)] trace_Cons.prems(2) by blast
  ultimately show ?case
    using trace_Cons.IH closed_excludes [OF trace_Cons.prems(1,2) trace_Cons.hyps(1)] by auto
qed simp

text \<open>After a refund of \<open>i\<close> the rest of the trace neither acquires nor refunds it.\<close>

lemma refund_final:
  assumes "trace step s (xs @ Refunded i # ys) u" "inv s"
  shows "Acquired i \<notin> set ys \<and> Refunded i \<notin> set ys"
proof -
  from assms(1) obtain a b where t: "trace step s xs a" "step a (Refunded i) b" "trace step b ys u"
    by (auto simp: trace_append trace_Cons_iff)
  have a: "inv a" using t(1) assms(2) by (rule trace_inv)
  have "i \<in> closed b" using a t(2) by (rule refund_closes)
  then show ?thesis using closed_trace [OF t(3) inv_step [OF a t(2)]] by blast
qed

end

text \<open>A ledger that loses nothing: the balance is exact.\<close>

locale reservation_ledger = lossy_ledger inv live step
  for inv :: "'s \<Rightarrow> bool" and live :: "'s \<Rightarrow> pystr set" and step :: "'s \<Rightarrow> ledger_event \<Rightarrow> 's \<Rightarrow> bool" +
  assumes acquire_fresh: "inv s \<Longrightarrow> step s (Acquired i) t \<Longrightarrow> i \<notin> live s \<and> live t = insert i (live s)"
    and refund_exact: "inv s \<Longrightarrow> step s (Refunded i) t \<Longrightarrow> live t = live s - {i}"
    and cancel_exact: "inv s \<Longrightarrow> step s (Cancelled i) t \<Longrightarrow> live t = live s - {i}"
    and silent_exact: "inv s \<Longrightarrow> step s Silent t \<Longrightarrow> live t = live s"
begin

lemma step_balance:
  assumes "inv s" "step s e t"
  shows "acquisitions i [e] + (if i \<in> live s then 1 else 0) =
    releases i [e] + (if i \<in> live t then 1 else 0)"
proof (cases e)
  case (Acquired j)
  then show ?thesis using acquire_fresh [of s j t] assms by (auto simp: acquisitions_def releases_def ends_def)
next
  case (Refunded j)
  then show ?thesis using refund_live [of s j t] refund_exact [of s j t] assms
    by (auto simp: acquisitions_def releases_def ends_def)
next
  case (Cancelled j)
  then show ?thesis using cancel_live [of s j t] cancel_exact [of s j t] assms
    by (auto simp: acquisitions_def releases_def ends_def)
next
  case Silent
  then show ?thesis using silent_exact [of s t] assms by (auto simp: acquisitions_def releases_def ends_def)
qed

lemma balance:
  "trace step s es u \<Longrightarrow> inv s \<Longrightarrow>
     acquisitions i es + (if i \<in> live s then 1 else 0) =
     releases i es + (if i \<in> live u then 1 else 0)"
proof (induction rule: trace.induct)
  case (trace_Nil s)
  then show ?case by (simp add: acquisitions_def releases_def)
next
  case (trace_Cons s e t es u)
  have "inv t" using trace_Cons.prems trace_Cons.hyps(1) by (rule inv_step)
  note trace_Cons.IH [OF this] step_balance [OF trace_Cons.prems trace_Cons.hyps(1), of i]
  then show ?case using cons_counts [of i e es] by linarith
qed

end

end
