(* ===== verification/MemoryTraces.thy ===== *)
theory MemoryTraces
  imports MemoryLaws Ledger
begin

text \<open>
  The in-process backend as a transition system: every critical section of
  \<^verbatim>\<open>_sync_backend.py\<close> is one step, so a trace is any interleaving of consumers, waiters,
  refunds, cancellations and reconfigurations. The backend is an instance of the ledger
  interface.

  A granted wait still has to run its callbacks before it returns, and gives the usage back
  when they are interrupted, without looking at the ledger. The state of the system is
  therefore a backend together with the ids whose grant is being delivered: a granted turn
  adds its id, and it ends either by returning (\<open>deliver\<close>) or by giving back (\<open>cancel\<close>). The
  callers' part of the protocol is that a reservation is refunded only when no wait is
  delivering it, which a caller who got its id from the returned wait satisfies.
\<close>

text \<open>The ledger events of a section: what it did to the reservation id it was given.\<close>

definition acquire_event :: "mem_backend \<Rightarrow> pystr option \<Rightarrow> usage \<Rightarrow> bool \<Rightarrow> ledger_event" where
  "acquire_event s rid u ok = (case rid of
     Some i \<Rightarrow> if ok \<and> replayed s rid u = Inr False then Acquired i else Silent
   | None \<Rightarrow> Silent)"

definition refund_event :: "pystr option \<Rightarrow> bool \<Rightarrow> ledger_event" where
  "refund_event rid ok = (case rid of Some i \<Rightarrow> if ok then Refunded i else Silent | None \<Rightarrow> Silent)"

definition cancel_event :: "pystr option \<Rightarrow> ledger_event" where
  "cancel_event rid = (case rid of Some i \<Rightarrow> Cancelled i | None \<Rightarrow> Silent)"

definition is_granted :: "turn result \<Rightarrow> bool" where
  "is_granted res = (case res of Inr (Granted _) \<Rightarrow> True | _ \<Rightarrow> False)"

definition is_ok :: "'a result \<Rightarrow> bool" where
  "is_ok res = (case res of Inr _ \<Rightarrow> True | Inl _ \<Rightarrow> False)"

lemma is_ok_simps [simp]: "is_ok (Inl e) = False" "is_ok (Inr x) = True"
  by (simp_all add: is_ok_def)

text \<open>The ids in delivery after a turn with the event \<open>e\<close>.\<close>

definition delivering :: "ledger_event \<Rightarrow> pystr set \<Rightarrow> pystr set" where
  "delivering e ds = (case e of Acquired i \<Rightarrow> insert i ds | _ \<Rightarrow> ds)"

inductive mem_step ::
  "unicode_db \<Rightarrow> mem_backend \<times> pystr set \<Rightarrow> ledger_event \<Rightarrow> mem_backend \<times> pystr set \<Rightarrow> bool"
  for udb :: unicode_db where
  consume: "usage_ok u \<Longrightarrow> clock_ok now \<Longrightarrow> consume_locked u rid now s = (res, t) \<Longrightarrow>
     mem_step udb (s, ds) (acquire_event s rid u (is_ok res)) (t, ds)"
| wait: "usage_ok u \<Longrightarrow> clock_ok (tk_time tk) \<Longrightarrow> wait_turn u rid key dl tk w s = (turn, t) \<Longrightarrow>
     e = acquire_event s rid u (is_granted turn) \<Longrightarrow> mem_step udb (s, ds) e (t, delivering e ds)"
| deliver: "mem_step udb (s, ds) Silent (s, ds - {i})"
| leave: "mem_step udb (s, ds) Silent (pop_waiter reg key s, ds)"
| refund: "\<forall>(m, a) \<in> set amounts. a \<noteq> NaN \<Longrightarrow> clock_ok now \<Longrightarrow> set_option rid \<inter> ds = {} \<Longrightarrow>
     refund_locked reserved actual amounts ids rid now s = (events, t) \<Longrightarrow>
     mem_step udb (s, ds) (refund_event rid (is_ok events)) (t, ds)"
| cancel: "usage_ok u \<Longrightarrow> clock_ok now \<Longrightarrow> heap_wf (be_heap s) target \<Longrightarrow> set_option rid \<subseteq> ds \<Longrightarrow>
     refund_cancelled_consumption u target rid now s = (r, t) \<Longrightarrow>
     mem_step udb (s, ds) (cancel_event rid) (t, ds - set_option rid)"
| set_max: "clock_ok now \<Longrightarrow> (\<And>a. v = VFloat a \<Longrightarrow> is_dbl a) \<Longrightarrow>
     be_set_max_capacity metric p v now s = (r, t) \<Longrightarrow> mem_step udb (s, ds) Silent (t, ds)"
| configure: "clock_ok now \<Longrightarrow> (\<And>a. v = VFloat a \<Longrightarrow> is_dbl a) \<Longrightarrow>
     apply_configured_max_capacity metric p v now s = (r, t) \<Longrightarrow> mem_step udb (s, ds) Silent (t, ds)"
| reconfigure: "clock_ok now \<Longrightarrow> quotas_ok udb (uq_iter (cfg_quotas cfg)) \<Longrightarrow>
     prepare_reconfigured_backend udb cfg now s = (r, t) \<Longrightarrow> mem_step udb (s, ds) Silent (t, ds)"

inductive_cases mem_stepE: "mem_step udb s e t"

text \<open>The invariant: a well-formed backend in which every id in delivery is live.\<close>

definition deliveries_wf :: "mem_backend \<times> pystr set \<Rightarrow> bool" where
  "deliveries_wf p \<longleftrightarrow> mem_wf (fst p) \<and> snd p \<subseteq> be_acquired_ids (fst p)"

abbreviation live_ids :: "mem_backend \<times> pystr set \<Rightarrow> pystr set" where
  "live_ids p \<equiv> be_acquired_ids (fst p)"

lemma consume_locked_cases:
  assumes "consume_locked u rid now s = (res, t)" "mem_wf s" "usage_ok u" "clock_ok now"
  shows "mem_wf t \<and> (if is_ok res \<and> replayed s rid u = Inr False
      then \<exists>h. t = (record_opt rid u s)\<lparr>be_heap := h\<rparr> else t = s)"
proof -
  have hw: "heap_wf (be_heap s) (be_buckets s)" using assms(2) by (rule mem_wf_heap)
  let ?pre = "visible_caps (be_heap s) (be_buckets s) now"
  consider (dup) e where "replayed s rid u = Inl e" | (rep) "replayed s rid u = Inr True"
    | (new) "replayed s rid u = Inr False" by (cases "replayed s rid u") auto
  then show ?thesis
  proof cases
    case new
    show ?thesis
    proof (cases "set (dict_keys u) \<subseteq> be_usage_metric_names s")
      case True
      from consume_locked_wf [OF assms(2,4,3) new True] obtain h evs
        where "consume_locked u rid now s = (Inr (now, evs), (record_opt rid u s)\<lparr>be_heap := h\<rparr>)"
        "mem_wf ((record_opt rid u s)\<lparr>be_heap := h\<rparr>)" .
      then show ?thesis using assms(1) new by auto
    next
      case False
      moreover have "fst ` set (dict_keys ?pre) = be_usage_metric_names s"
        using assms(2) by (simp add: metrics_visible_caps mem_wf_def)
      ultimately have "ensure_usage_metrics_are_active u (fst ` set (dict_keys ?pre)) =
          Inl (ValueError ''Usage metrics are no longer active'')"
        by (simp add: ensure_usage_metrics_are_active_def)
      then show ?thesis using assms(1,2) new get_capacities_wf [OF hw assms(4)]
        by (auto simp: consume_locked_def)
    qed
  qed (use assms(1,2) in \<open>auto simp: consume_locked_def\<close>)
qed

lemma refund_locked_cases:
  assumes "refund_locked reserved actual amounts ids rid now s = (res, t)" "mem_wf s"
    "\<forall>(m, a) \<in> set amounts. a \<noteq> NaN" "clock_ok now"
  shows "mem_wf t \<and> (if is_ok res
      then refund_check s rid = Inr () \<and> (\<exists>h. t = close_reservation rid (s\<lparr>be_heap := h\<rparr>))
      else t = s)"
proof (cases "refund_check s rid")
  case (Inl e)
  then show ?thesis using assms(1,2) by (auto simp: refund_locked_def)
next
  case (Inr u)
  then have c: "refund_check s rid = Inr ()" by simp
  show ?thesis
  proof (cases "ids = {}")
    case True
    then have "t = close_reservation rid (s\<lparr>be_heap := be_heap s\<rparr>)" "is_ok res"
      using assms(1) c by (auto simp: refund_locked_def)
    moreover have "mem_wf (s\<lparr>be_heap := be_heap s\<rparr>)" using assms(2) by simp
    ultimately show ?thesis using c mem_wf_close [OF assms(2)] by metis
  next
    case False
    obtain h evs where
      "refund_locked reserved actual amounts ids rid now s = (Inr evs, close_reservation rid (s\<lparr>be_heap := h\<rparr>))"
      "mem_wf (close_reservation rid (s\<lparr>be_heap := h\<rparr>))"
      by (rule refund_locked_wf [OF assms(2,4,3) c False, where reserved = reserved and actual = actual])
    then show ?thesis using assms(1) c by auto
  qed
qed

lemma apply_configured_cases:
  assumes "apply_configured_max_capacity metric p value now s = (r, t)"
  obtains s1 r1 c where "be_set_max_capacity metric p value now s = (r1, s1)"
    "t = s1\<lparr>be_configured_limits := c\<rparr>"
proof -
  obtain r1 s1 where s1: "be_set_max_capacity metric p value now s = (r1, s1)" by (metis surj_pair)
  show ?thesis
  proof (cases "r1 = Inr () \<and> is_ok (py_float value)")
    case True
    then obtain x where "py_float value = Inr x" "r1 = Inr ()" by (cases "py_float value") auto
    then have "t = s1\<lparr>be_configured_limits := dict_set (metric, p) x (be_configured_limits s1)\<rparr>"
      using assms s1 by (simp add: apply_configured_max_capacity_def op_bind_def op_simps)
    then show ?thesis by (rule that [OF s1])
  next
    case False
    then have "t = s1" using assms s1
      by (cases r1; cases "py_float value")
         (auto simp: apply_configured_max_capacity_def op_bind_def op_simps)
    then have "t = s1\<lparr>be_configured_limits := be_configured_limits s1\<rparr>" by simp
    then show ?thesis by (rule that [OF s1])
  qed
qed

lemma mem_wf_configured [simp]: "mem_wf (s\<lparr>be_configured_limits := c\<rparr>) = mem_wf s"
  by (simp add: mem_wf_def ledger_wf_def)

text \<open>The effect of a step on the invariant and on the live ids.\<close>

definition live_after :: "ledger_event \<Rightarrow> mem_backend \<Rightarrow> mem_backend \<Rightarrow> bool" where
  "live_after e s t = (case e of
     Acquired i \<Rightarrow> i \<notin> be_acquired_ids s \<and> be_acquired_ids t = insert i (be_acquired_ids s)
   | Refunded i \<Rightarrow> i \<in> be_acquired_ids s \<and> be_acquired_ids t = be_acquired_ids s - {i}
   | Cancelled i \<Rightarrow> i \<in> be_acquired_ids s \<and> be_acquired_ids t = be_acquired_ids s - {i}
   | Silent \<Rightarrow> be_acquired_ids t = be_acquired_ids s)"

lemma record_live:
  assumes "mem_wf s" "replayed s rid u = Inr False"
  shows "live_after (acquire_event s rid u True) s ((record_opt rid u s)\<lparr>be_heap := h\<rparr>)"
proof -
  have "ledger_wf s" using assms(1) by (simp add: mem_wf_def)
  then show ?thesis using assms(2) replayed_False
    by (auto simp: acquire_event_def live_after_def record_opt_def record_acquired_reservation_def
        split: option.split)
qed

lemma no_acquire_live:
  "\<not> (ok \<and> replayed s rid u = Inr False) \<Longrightarrow> live_after (acquire_event s rid u ok) s t \<longleftrightarrow>
     be_acquired_ids t = be_acquired_ids s"
  by (auto simp: acquire_event_def live_after_def split: option.split)

lemma refund_live_after:
  assumes "refund_check s rid = Inr ()"
  shows "live_after (refund_event rid True) s (close_reservation rid (s\<lparr>be_heap := h\<rparr>))"
  using assms by (auto simp: refund_event_def live_after_def refund_check_def close_reservation_def
      forget_acquired_reservation_def split: option.splits if_splits)

lemma be_set_max_capacity_ids:
  "be_set_max_capacity metric p v now s = (r, t) \<Longrightarrow> be_acquired_ids t = be_acquired_ids s"
  by (auto simp: be_set_max_capacity_def on_heap_def split: option.splits prod.splits)

lemma mem_step_effect:
  assumes "mem_step udb p e q" "deliveries_wf p"
  shows "mem_wf (fst q) \<and> live_after e (fst p) (fst q)"
  using assms(1)
proof (cases rule: mem_step.cases)
  case (consume u now rid s res t ds)
  have wf: "mem_wf s" using assms(2) consume(1) by (simp add: deliveries_wf_def)
  note c = consume_locked_cases [OF consume(6) wf consume(4,5)]
  show ?thesis
  proof (cases "is_ok res \<and> replayed s rid u = Inr False")
    case True
    then show ?thesis using c record_live [OF wf, of rid u] consume(1-3) by auto
  next
    case False
    then have "t = s" using c by (simp only: if_False)
    then show ?thesis using no_acquire_live [OF False, of t] wf consume(1-3) by simp
  qed
next
  case (wait u tk rid key dl w s turn t ds)
  have wf: "mem_wf s" using assms(2) wait(1) by (simp add: deliveries_wf_def)
  note c = wait_turn_cases [OF wait(5) wf wait(3,4)]
  show ?thesis
  proof (cases "\<exists>g. turn = Inr (Granted g)")
    case True
    then obtain g where g: "turn = Inr (Granted g)" ..
    show ?thesis
    proof (cases "gr_replayed g")
      case True
      then show ?thesis using c(2) [OF g] wf wait(1,2,6) no_acquire_live [of True s rid u t]
        by (simp add: g is_granted_def)
    next
      case False
      then obtain h where "t = (record_opt rid u s)\<lparr>be_heap := h\<rparr>" "replayed s rid u = Inr False"
        using c(2) [OF g] by (auto simp: granted_def)
      then show ?thesis using c(1) record_live [OF wf, of rid u h] wait(1,2,6)
        by (simp add: g is_granted_def)
    qed
  next
    case False
    then have "\<not> is_granted turn" by (auto simp: is_granted_def split: sum.splits turn.splits)
    moreover have "be_acquired_ids t = be_acquired_ids s"
      using c(3) [OF False] by (auto simp: upsert_diagnostic_waiter_def)
    ultimately show ?thesis using c(1) wait(1,2,6) no_acquire_live [of "is_granted turn" s rid u t] by simp
  qed
next
  case (deliver s ds i)
  then show ?thesis using assms(2) by (simp add: live_after_def deliveries_wf_def)
next
  case (leave s ds reg key)
  then show ?thesis using assms(2) by (simp add: live_after_def deliveries_wf_def pop_waiter_def)
next
  case (refund amounts now rid ds reserved actual ids s events t)
  have wf: "mem_wf s" using assms(2) refund(1) by (simp add: deliveries_wf_def)
  note c = refund_locked_cases [OF refund(7) wf refund(4,5)]
  show ?thesis
  proof (cases "is_ok events")
    case True
    then show ?thesis using c refund(1-3) refund_live_after [of s rid] by auto
  next
    case False
    then show ?thesis using c refund(1-3)
      by (auto simp: refund_event_def live_after_def split: option.split)
  qed
next
  case (cancel u now s target rid ds r t)
  have wf: "mem_wf s" "ds \<subseteq> be_acquired_ids s" using assms(2) cancel(1) by (simp_all add: deliveries_wf_def)
  from refund_cancelled_wf [OF wf(1) cancel(6,5,4), of rid] obtain h where
    "refund_cancelled_consumption u target rid now s = (Inr (), forget_opt rid (s\<lparr>be_heap := h\<rparr>))"
    "mem_wf (forget_opt rid (s\<lparr>be_heap := h\<rparr>))" .
  then show ?thesis using cancel(1-3,7,8) wf(2)
    by (auto simp: cancel_event_def live_after_def forget_opt_def forget_acquired_reservation_def
        split: option.split)
next
  case (set_max now v metric p s r t ds)
  have wf: "mem_wf s" using assms(2) set_max(1) by (simp add: deliveries_wf_def)
  show ?thesis using be_set_max_capacity_wf [OF wf set_max(4) set_max(6) set_max(5)]
      be_set_max_capacity_ids [OF set_max(6)] set_max(1-3)
    by (simp add: live_after_def)
next
  case (configure now v metric p s r t ds)
  from configure(6) obtain s1 r1 c where s1: "be_set_max_capacity metric p v now s = (r1, s1)"
    "t = s1\<lparr>be_configured_limits := c\<rparr>" by (rule apply_configured_cases)
  have wf: "mem_wf s" using assms(2) configure(1) by (simp add: deliveries_wf_def)
  show ?thesis using be_set_max_capacity_wf [OF wf configure(4) s1(1) configure(5)]
      be_set_max_capacity_ids [OF s1(1)] configure(1-3) s1(2)
    by (simp add: live_after_def)
next
  case (reconfigure now cfg s r t ds)
  have wf: "mem_wf s" using assms(2) reconfigure(1) by (simp add: deliveries_wf_def)
  note c = reconfigure_wf [OF wf reconfigure(4,5,6)]
  show ?thesis using c(1,3) reconfigure(1-3) by (simp add: live_after_def)
qed

text \<open>An id leaves delivery before or when its reservation ends.\<close>

lemma mem_step_deliveries:
  assumes "mem_step udb p e q" "deliveries_wf p"
  shows "deliveries_wf q"
proof -
  note effect = mem_step_effect [OF assms]
  have "snd q \<subseteq> live_ids q"
    using assms(1)
  proof (cases rule: mem_step.cases)
    case (wait u tk rid key dl w s turn t ds)
    then show ?thesis using effect assms(2)
      by (cases e) (auto simp: delivering_def live_after_def deliveries_wf_def acquire_event_def
          split: option.splits if_splits)
  next
    case (refund amounts now rid ds reserved actual ids s events t)
    then show ?thesis using effect assms(2)
      by (auto simp: live_after_def deliveries_wf_def refund_event_def split: option.splits if_splits)
  next
    case (cancel u now s target rid ds r t)
    then show ?thesis using effect assms(2)
      by (auto simp: live_after_def deliveries_wf_def cancel_event_def split: option.splits)
  next
    case (consume u now rid s res t ds)
    then show ?thesis using effect assms(2)
      by (auto simp: live_after_def deliveries_wf_def acquire_event_def split: option.splits if_splits)
  qed (use effect assms(2) in \<open>auto simp: live_after_def deliveries_wf_def\<close>)
  then show ?thesis using effect by (simp add: deliveries_wf_def)
qed

interpretation mem: reservation_ledger deliveries_wf live_ids "mem_step udb" for udb
  by unfold_locales (auto dest: mem_step_deliveries mem_step_effect simp: live_after_def)

end
