(* ===== verification/MemoryCorrect.thy ===== *)
theory MemoryCorrect
  imports MemoryTraces
begin

text \<open>
  The properties of the in-process backend, at the level of its public operations, each with
  a run of a concrete backend where its hypotheses hold: one bucket of 60 requests per
  minute that holds 10 at time 100.
\<close>

section \<open>From raw arguments to usage\<close>

definition raw_dbl :: "raw_usage \<Rightarrow> bool" where
  "raw_dbl raw \<longleftrightarrow> (\<forall>(m, v) \<in> set raw. \<forall>a. v = VFloat a \<or> v = VFloatSub a \<longrightarrow> is_dbl a)"

lemma py_float_number_dbl:
  assumes "coerce_usage_value v = Inr f" "\<forall>a. v = VFloat a \<or> v = VFloatSub a \<longrightarrow> is_dbl a"
  shows "is_dbl f"
proof -
  from coerce_usage_value_Inr [OF assms(1)] have "py_float v = Inr f" by simp
  moreover have "isinstance_int_float v" using assms(1)
    by (auto simp: coerce_usage_value_def split: if_splits)
  ultimately show ?thesis using assms(2)
    by (cases v) (auto simp: py_float_def type_tests float_of_int_is_dbl is_dbl_Fin)
qed

lemma validated_floats:
  assumes "\<forall>p \<in> set raw. usage_item_ok udb p" "raw_dbl raw"
  obtains u where "usage_floats raw = Inr u" "usage_ok u" "dict_keys u = dict_keys raw"
    "list_all2 (\<lambda>(m, v) (n, a). n = m \<and> py_float v = Inr a) raw u"
proof -
  have "\<exists>u. list_all2 (\<lambda>(m, v) (n, a). n = m \<and> py_float v = Inr a) raw u \<and> usage_ok u \<and>
      dict_keys u = dict_keys raw"
    using assms
  proof (induction raw)
    case Nil
    then show ?case by (simp add: usage_ok_def dict_keys_def)
  next
    case (Cons p raw)
    obtain m v where p: "p = (m, v)" by (cases p)
    from Cons.prems(1) p obtain a where a: "coerce_usage_value v = Inr a" "fle (Fin 0) a"
      by (auto simp: usage_item_ok_def)
    have "is_dbl a" using Cons.prems(2) p a(1) py_float_number_dbl by (simp add: raw_dbl_def)
    moreover note coerce_usage_value_Inr [OF a(1)]
    moreover from Cons obtain u where "list_all2 (\<lambda>(m, v) (n, a). n = m \<and> py_float v = Inr a) raw u"
      "usage_ok u" "dict_keys u = dict_keys raw" by (auto simp: raw_dbl_def)
    ultimately show ?case using p a(2)
      by (intro exI [of _ "(m, a) # u"]) (simp add: usage_ok_def stored_ok_def dict_keys_def)
  qed
  then show ?thesis using that usage_floats_Inr by blast
qed

lemma backend_usage_floats:
  assumes "validate_backend_usage udb raw ks = Inr ()" "raw_dbl raw"
  obtains u where "usage_floats raw = Inr u" "usage_ok u" "set (dict_keys u) = ks"
  using assms validated_floats [of raw udb]
  by (metis validate_backend_usage_def validate_usage_mapping_Inr)

lemma refund_amounts_validated:
  assumes "\<forall>p \<in> set reserved. usage_item_ok udb p" "\<forall>p \<in> set actual. usage_item_ok udb p"
    "raw_dbl reserved" "raw_dbl actual" "set (dict_keys actual) = set (dict_keys reserved)"
  obtains refund where "refund_amounts reserved actual = Inr refund"
    "dict_keys refund = dict_keys reserved" "\<forall>(m, a) \<in> set refund. a \<noteq> NaN"
proof -
  let ?amt = "\<lambda>(m, v). (m, fsub (case py_float v of Inr a \<Rightarrow> a | Inl _ \<Rightarrow> NaN)
      (case py_float (the (map_of actual m)) of Inr a \<Rightarrow> a | Inl _ \<Rightarrow> NaN))"
  have fin: "\<exists>q. py_float v = Inr (Fin q)" if "(m, v) \<in> set reserved \<or> (m, v) \<in> set actual" for m v
  proof -
    have "usage_item_ok udb (m, v)" using that assms(1,2) by auto
    then obtain a where "coerce_usage_value v = Inr a" by (auto simp: usage_item_ok_def)
    from coerce_usage_value_Inr [OF this] show ?thesis by (auto simp: isfinite_Fin)
  qed
  have act: "\<exists>w. map_of actual m = Some w \<and> (\<exists>q. py_float w = Inr (Fin q))" if "m \<in> set (dict_keys reserved)" for m
  proof -
    have "m \<in> fst ` set actual" using that assms(5) by (simp add: dict_keys_def)
    then obtain w where w: "map_of actual m = Some w" by (metis map_of_eq_None_iff option.exhaust)
    then show ?thesis using fin [of m w] by (auto dest: map_of_SomeD)
  qed
  have "refund_amounts reserved actual = Inr ([] @ map ?amt reserved)"
    unfolding refund_amounts_def
  proof (rule for_each_map)
    fix p :: "pystr \<times> pyval" and acc :: usage assume p: "p \<in> set reserved"
    obtain m v where mv: "p = (m, v)" by (cases p)
    from p mv have "m \<in> set (dict_keys reserved)" by (force simp: dict_keys_def)
    with act obtain w q where "map_of actual m = Some w" "py_float w = Inr (Fin q)" by blast
    moreover from fin p mv obtain q' where "py_float v = Inr (Fin q')" by blast
    ultimately show "(case p of (m, v) \<Rightarrow> \<lambda>acc. case map_of actual m of None \<Rightarrow> Inl KeyError
        | Some w \<Rightarrow> bind_res (py_float v) (\<lambda>a. bind_res (py_float w) (\<lambda>b. Inr (acc @ [(m, fsub a b)])))) acc =
      Inr (acc @ [?amt p])" by (simp add: mv)
  qed
  moreover have "dict_keys (map ?amt reserved) = dict_keys reserved"
    by (simp add: dict_keys_def comp_def case_prod_unfold)
  moreover have "\<forall>(m, a) \<in> set (map ?amt reserved). a \<noteq> NaN"
  proof clarify
    fix m assume "(m, NaN) \<in> set (map ?amt reserved)"
    then obtain v where v: "(m, v) \<in> set reserved" "NaN = snd (?amt (m, v))" by auto
    from v(1) have "m \<in> set (dict_keys reserved)" by (force simp: dict_keys_def)
    with act obtain w q where "map_of actual m = Some w" "py_float w = Inr (Fin q)" by blast
    moreover from fin v(1) obtain q' where "py_float v = Inr (Fin q')" by blast
    ultimately have "NaN = rnd (q' - q)" using v(2) by simp
    then show False using rnd_not_NaN by metis
  qed
  ultimately show ?thesis using that by simp
qed
section \<open>A concrete backend\<close>

definition demo_bucket :: memory_bucket where
  "demo_bucket = \<lparr>mb_capacity = Some (Fin 10), mb_last_checked = Some (Fin 100), mb_metric = [109],
     mb_family = [102], mb_per_seconds = 60, mb_max_capacity = Fin 60, mb_rate_per_sec = Fin 1\<rparr>"

definition demo_quota :: quota where
  "demo_quota = \<lparr>q_metric = [109], q_limit = Fin 60, q_per_seconds = 60\<rparr>"

definition demo_cfg :: per_model_config where
  "demo_cfg = \<lparr>cfg_quotas = \<lparr>uq_frozen = True, uq_metrics = [([109], [(60, demo_quota)])]\<rparr>,
     cfg_model_family = Some ([102])\<rparr>"

text \<open>The live reservation \<open>r\<close> holds 5 requests.\<close>

definition demo_backend :: mem_backend where
  "demo_backend = \<lparr>be_heap = [demo_bucket], be_buckets = [0], be_registry = [(([109], 60), 0)],
     be_limit_config = demo_cfg, be_configured_limits = [(([109], 60), Fin 60)],
     be_usage_metric_names = {[109]}, be_sleep_interval = Fin 1,
     be_acquired_ids = {[114]},
     be_acquired_values = [([114], {([109], 60)}, [([109], Fin 5)])],
     be_refunded_ids = {[113]}, be_refunded_order = [[113]], be_refunded_cap = 2,
     be_waiters = []\<rparr>"

definition demo_udb :: unicode_db where
  "demo_udb = \<lparr>nfc = (\<lambda>s. s), is_space = (\<lambda>c. c = 32), is_control = (\<lambda>c. c < 32),
     is_printable = (\<lambda>c. 32 < c)\<rparr>"

definition demo_tick :: "pyfloat \<Rightarrow> tick" where
  "demo_tick t = \<lparr>tk_time = t, tk_consumed = t, tk_upsert = t, tk_deadline_check = t, tk_wait_started = t,
     tk_remaining = t, tk_callback_started = t, tk_callback_ended = t, tk_callback_check = t,
     tk_env = id\<rparr>"

lemma demo_bucket_wf: "bucket_wf demo_bucket"
  by (simp add: bucket_wf_def demo_bucket_def max_ok_def MIN_MAX_CAPACITY_val per_seconds_ok_def
      MAX_PER_SECONDS_val calculate_rate_per_sec_def float_of_int_def validate_rate_VFloat rate_ok_def
      stored_ok_def)

lemma demo_wf: "mem_wf demo_backend"
  using demo_bucket_wf
  by (auto simp: mem_wf_def heap_wf_def ledger_wf_def demo_backend_def dict_keys_def)
     (simp_all add: demo_bucket_def mb_id_def)

lemma clock_ok_numeral [simp]: "(numeral n :: int) \<le> 2 ^ 53 \<Longrightarrow> clock_ok (Fin (numeral n))"
  by (simp add: clock_ok_def)

lemma demo_ticks: "ticks_ok [demo_tick (Fin 100)]"
  by (simp add: ticks_ok_def demo_tick_def)

lemma usage_ok_numeral [simp]: "(numeral n :: int) \<le> 2 ^ 53 \<Longrightarrow> usage_ok [(m, Fin (numeral n))]"
  by (simp add: usage_ok_def)

lemma demo_get_capacity:
  "get_capacity demo_bucket (Fin 100) = Inr \<lparr>amount = Fin 10, is_fresh_start = False\<rparr>"
  using get_capacity_wf(1) [OF demo_bucket_wf, of "Fin 100"]
  by (simp add: visible_def demo_bucket_def refilled_def)

text \<open>Granting 3 requests to the reservation \<open>n\<close> at time 100.\<close>

definition demo_grant :: grant where
  "demo_grant = \<lparr>gr_time = Fin 100, gr_replayed = False, gr_pre = [(([109], 60), Fin 10)],
      gr_post = [(([109], 60), Fin 7)], gr_fresh = [], gr_buckets = [0], gr_consumed_at = Fin 100\<rparr>"

definition demo_after :: mem_backend where
  "demo_after = demo_backend\<lparr>be_heap := [demo_bucket\<lparr>mb_capacity := Some (Fin 7)\<rparr>],
      be_acquired_ids := {[110], [114]},
      be_acquired_values := [([114], {([109], 60)}, [([109], Fin 5)]),
        ([110], {([109], 60)}, [([109], Fin 3)])]\<rparr>"

lemma demo_wait:
  "wait_loop (\<lambda>_. None) False [([109], Fin 3)] (Some [110]) [110] None [demo_tick (Fin 100)]
     initial_locals False demo_backend = (Some (Inr (demo_grant, initial_locals)), False, demo_after)"
proof -
  have g: "get_capacities [demo_bucket] [0] (Fin 100) = Inr ([(([109], 60), Fin 10)], [])"
    by (simp add: get_capacities_def demo_get_capacity) (simp add: demo_bucket_def mb_id_def)
  show ?thesis
    by (simp add: wait_turn_def demo_backend_def demo_grant_def demo_after_def replayed_def is_replayed_acquire_def demo_tick_def
        try_consume_locked_def ensure_usage_metrics_are_active_def guard_def dict_keys_def exceeds_max_def
        demo_bucket_def insufficient_def op_bind_def op_simps grant_locked_def on_heap_def set_capacities_def
        find_bucket_def mb_id_def set_capacity_def g [unfolded demo_bucket_def] record_opt_def record_acquired_reservation_def
        bucket_ids_def)
qed
section \<open>Waiting\<close>

text \<open>
  C1. A wait that is granted (and is no replay) is granted in one turn \<open>t\<close> of the wait, in the
  state \<open>s0\<close> that the turns before it left (the loop run on those turns alone ends waiting in
  \<open>s0\<close>). In that turn it took exactly the requested usage, all or nothing: at the time of the
  turn every bucket of a requested metric showed at least the requested amount in \<open>s0\<close> and
  shows that amount less afterwards; no bucket is left negative, and the reservation, not
  live in \<open>s0\<close>, is live. Between the turns other threads do anything that keeps the backend
  well-formed.
\<close>

theorem wait_grant_consumes:
  assumes "wait_loop cb inst u rid key dl ts w reg s = (Some (Inr (g, w')), reg', s')"
    "mem_wf s" "usage_ok u" "ticks_ok ts" "\<not> gr_replayed g"
  shows "\<exists>ts1 t ts2 s0 reg0. ts = ts1 @ t # ts2 \<and>
     wait_loop cb inst u rid key dl ts1 w reg s = (None, reg0, s0) \<and>
     gr_time g = tk_time t \<and> be_buckets s' = be_buckets s0 \<and>
     (\<forall>r \<in> set (be_buckets s0).
        (case map_of u (mb_metric (be_heap s0 ! r)) of
           Some a \<Rightarrow> fle a (avail s0 (tk_time t) r) \<and>
             avail s' (tk_time t) r = fsub (avail s0 (tk_time t) r) a
         | None \<Rightarrow> avail s' (tk_time t) r = fmax (Fin 0) (avail s0 (tk_time t) r)) \<and>
        fle (Fin 0) (avail s' (tk_time t) r)) \<and>
     (\<forall>i. rid = Some i \<longrightarrow> i \<notin> be_acquired_ids s0 \<and> be_acquired_ids s' = insert i (be_acquired_ids s0))"
proof -
  from wait_loop_grant_turn [OF assms(1)] obtain ts1 t ts2 s0 reg0 where g: "ts = ts1 @ t # ts2"
    "wait_loop cb inst u rid key dl ts1 w reg s = (None, reg0, s0)"
    "wait_turn u rid key dl t w' s0 = (Inr (Granted g), s')" by blast
  have tk: "ticks_ok ts1" "clock_ok (tk_time t)" using assms(4) g(1) by (auto simp: ticks_ok_def)
  have wf: "mem_wf s0" using wait_loop_wf [OF g(2) assms(2,3) tk(1)] by blast
  note wt = wait_turn_cases(2) [OF g(3) wf assms(3) tk(2) refl]
  then obtain h where h: "s' = (record_opt rid u s0)\<lparr>be_heap := h\<rparr>"
    "\<forall>r \<in> set (be_buckets s0).
          (\<forall>a. map_of u (mb_metric (be_heap s0 ! r)) = Some a \<longrightarrow> fle a (avail s0 (tk_time t) r)) \<and>
          visible (h ! r) (tk_time t) = granted_value u (avail s0 (tk_time t) r) (mb_metric (be_heap s0 ! r)) \<and>
          fle (Fin 0) (visible (h ! r) (tk_time t))"
    "replayed s0 rid u = Inr False" using assms(5) by (auto simp: granted_def)
  have "ledger_wf s0" using wf by (simp add: mem_wf_def)
  then have ids: "rid = Some i \<Longrightarrow> i \<notin> be_acquired_ids s0 \<and> be_acquired_ids s' = insert i (be_acquired_ids s0)" for i
    using h(3) replayed_False by (auto simp: h(1) record_opt_def record_acquired_reservation_def)
  have bs: "be_buckets s' = be_buckets s0" by (simp add: h(1))
  have lev: "(case map_of u (mb_metric (be_heap s0 ! r)) of
           Some a \<Rightarrow> fle a (avail s0 (tk_time t) r) \<and>
             avail s' (tk_time t) r = fsub (avail s0 (tk_time t) r) a
         | None \<Rightarrow> avail s' (tk_time t) r = fmax (Fin 0) (avail s0 (tk_time t) r)) \<and>
        fle (Fin 0) (avail s' (tk_time t) r)" if "r \<in> set (be_buckets s0)" for r
    using h(2) that by (auto simp: avail_def h(1) granted_value_def split: option.split)
  have "gr_time g = tk_time t" using wt by blast
  then show ?thesis using g(1,2) bs lev ids
    by - (rule exI [of _ ts1], rule exI [of _ t], rule exI [of _ ts2], rule exI [of _ s0],
      rule exI [of _ reg0], blast)
qed

theorem wait_grant_consumes_witness:
  "avail demo_backend (Fin 100) 0 = Fin 10 \<and> avail demo_after (Fin 100) 0 = fsub (Fin 10) (Fin 3) \<and>
   be_acquired_ids demo_after = insert [110] (be_acquired_ids demo_backend)"
proof -
  have "\<not> gr_replayed demo_grant" by (simp add: demo_grant_def)
  from wait_grant_consumes [OF demo_wait demo_wf _ demo_ticks this] obtain ts1 t ts2 s0 reg0 where
    g: "[demo_tick (Fin 100)] = ts1 @ t # ts2"
    "wait_loop (\<lambda>_. None) False [([109], Fin 3)] (Some [110]) [110] None ts1 initial_locals False demo_backend =
       (None, reg0, s0)" "be_buckets demo_after = be_buckets s0"
    "\<forall>r \<in> set (be_buckets s0). case map_of [([109], Fin 3)] (mb_metric (be_heap s0 ! r)) of
           Some a \<Rightarrow> avail demo_after (tk_time t) r = fsub (avail s0 (tk_time t) r) a | None \<Rightarrow> True"
    "be_acquired_ids demo_after = insert [110] (be_acquired_ids s0)"
    by (auto split: option.splits)
  from g(1) have "ts1 = []" "t = demo_tick (Fin 100)" by (auto simp: Cons_eq_append_conv)
  with g(2) have s0: "s0 = demo_backend" "tk_time t = Fin 100" by (simp_all add: demo_tick_def)
  have "avail demo_backend (Fin 100) 0 = Fin 10"
    by (simp add: avail_def demo_backend_def demo_bucket_def visible_def refilled_def)
  then show ?thesis using g(4,5) s0 by (simp add: demo_backend_def demo_bucket_def)
qed

text \<open>
  C14. A wait that raises, under interference: the diagnostic entry of its own key is gone, and
  what happened to the rest of the backend is what the other threads did, in any preorder \<open>R\<close>
  that contains their steps and the changes of the own entry (so with silent others nothing
  but the own entry changed). The one exception is a wait that was granted and whose callbacks
  raised: then the usage was given back to every bucket it was taken from, up to its maximum,
  and the reservation is not live. The others are assumed to keep the backend well-formed and
  the entry of this key alone, so no second wait runs under the same reservation id.
\<close>

theorem wait_failure_unchanged:
  assumes "wait_for_capacity udb cb inst raw timeout rid uuid st ts cancel env s = (Some (Inl e), s')"
    "mem_wf s" "raw_dbl raw" "ticks_ok ts" "clock_ok cancel"
    "\<And>x refs. mem_wf x \<Longrightarrow> heap_wf (be_heap x) refs \<Longrightarrow> mem_wf (env x) \<and> heap_wf (be_heap (env x)) refs"
    "map_of (be_waiters s) (waiter_key rid uuid) = None"
    "only_own_waiter (waiter_key rid uuid) R"
    "\<forall>t \<in> set ts. leaves_waiter (waiter_key rid uuid) R (tk_env t)" "leaves_waiter (waiter_key rid uuid) R env"
  shows "map_of (be_waiters s') (waiter_key rid uuid) = None \<and>
    (R s s' \<or>
     (\<exists>u dl g w reg s1 s2. usage_floats raw = Inr u \<and>
        wait_loop cb inst u rid (waiter_key rid uuid) dl ts initial_locals False s = (Some (Inr (g, w)), reg, s1) \<and>
        s2 = pop_waiter reg (waiter_key rid uuid) s1 \<and> fire cb (grant_events s2 u g w) = Inl e \<and>
        (\<forall>i. rid = Some i \<longrightarrow> i \<notin> be_acquired_ids s') \<and>
        (\<forall>r \<in> set (gr_buckets g). avail s' cancel r =
           cancelled_value u (mb_max_capacity (be_heap (env s2) ! r)) (avail (env s2) cancel r)
             (mb_metric (be_heap (env s2) ! r)))))"
proof (cases "bind_res (validate_backend_usage udb raw (be_usage_metric_names s)) (\<lambda>_.
             bind_res (validate_timeout timeout) (\<lambda>to.
               bind_res (usage_floats raw) (\<lambda>usage. Inr (to, usage))))")
  case (Inl e1)
  then have "s' = s" using assms(1) by (auto simp: wait_for_capacity_def)
  then show ?thesis using assms(7,8) by (auto simp: only_own_waiter_def reflp_def)
next
  case (Inr p)
  obtain to u where p: "p = (to, u)" by (cases p)
  let ?k = "waiter_key rid uuid" and ?dl = "map_option (fadd st) to"
  have v: "validate_backend_usage udb raw (be_usage_metric_names s) = Inr ()" and uf: "usage_floats raw = Inr u"
    using Inr p by (auto simp: bind_res_Inr_iff)
  have u: "usage_ok u" using backend_usage_floats [OF v assms(3)] uf by (metis sum.inject(2))
  obtain res reg s1 where l: "wait_loop cb inst u rid ?k ?dl ts initial_locals False s = (res, reg, s1)"
    by (metis prod_cases3)
  note rl = wait_loop_rely [OF l assms(2) u assms(4,8,9)]
  note wl = wait_loop_wf [OF l assms(2) u assms(4)]
  let ?s2 = "pop_waiter reg ?k s1"
  have gone: "map_of (be_waiters ?s2) ?k = None" using rl assms(7) pop_waiter_gone by blast
  have tr: "R a b \<Longrightarrow> R b c \<Longrightarrow> R a c" for a b c using assms(8) by (auto simp: only_own_waiter_def elim: transpE)
  show ?thesis
  proof (cases "\<exists>x. res = Some (Inr x)")
    case False
    then have "s' = ?s2" using assms(1) Inr p l
      by (cases res) (auto simp: wait_for_capacity_def Let_def split: sum.splits prod.splits)
    moreover have "R s s'" using rl False assms(7) only_own_waiter_pop [OF assms(8)] tr [of s s1]
      by (simp add: \<open>s' = ?s2\<close>)
    ultimately show ?thesis using gone by simp
  next
    case True
    then obtain g w where x: "res = Some (Inr (g, w))" by auto
    have a: "after_grant cb u rid cancel env g w ?s2 = (Inl e, s')"
      using assms(1) Inr p l x by (auto simp: wait_for_capacity_def Let_def split: prod.splits)
    then have f: "\<not> gr_replayed g" "fire cb (grant_events ?s2 u g w) = Inl e"
      "s' = snd (refund_cancelled_consumption u (gr_buckets g) rid cancel (env ?s2))"
      by (auto simp: after_grant_def split: if_splits sum.splits)
    obtain s0 where s0: "mem_wf s0" "granted u rid (gr_time g) s0 s1" "gr_buckets g = be_buckets s0"
      using wl x f(1) by auto
    have "mem_wf s1" using wl by blast
    moreover have "gr_buckets g = be_buckets s1" using s0(2,3) by (auto simp: granted_def)
    ultimately have "mem_wf ?s2" "heap_wf (be_heap ?s2) (gr_buckets g)"
      using mem_wf_heap [of s1] by (simp_all add: pop_waiter_def)
    then have ew: "mem_wf (env ?s2)" "heap_wf (be_heap (env ?s2)) (gr_buckets g)" using assms(6) by blast+
    obtain h where h: "refund_cancelled_consumption u (gr_buckets g) rid cancel (env ?s2) =
        (Inr (), forget_opt rid ((env ?s2)\<lparr>be_heap := h\<rparr>))"
      "\<forall>r \<in> set (gr_buckets g). visible (h ! r) cancel = cancelled_value u (mb_max_capacity (be_heap (env ?s2) ! r))
         (avail (env ?s2) cancel r) (mb_metric (be_heap (env ?s2) ! r))"
      using refund_cancelled_wf [OF ew assms(5) u, of rid] by metis
    have s': "s' = forget_opt rid ((env ?s2)\<lparr>be_heap := h\<rparr>)" using f(3) h(1) by simp
    have "map_of (be_waiters s') ?k = None" using gone assms(10) f(3) by (simp add: leaves_waiter_def)
    moreover have "\<forall>i. rid = Some i \<longrightarrow> i \<notin> be_acquired_ids s'"
      by (auto simp: s' forget_opt_def forget_acquired_reservation_def)
    moreover have "avail s' cancel r = visible (h ! r) cancel" for r
      by (simp add: s' avail_def forget_opt_def forget_acquired_reservation_def split: option.split)
    ultimately show ?thesis using uf l f(2) h(2) unfolding x
      by - (rule conjI, assumption, rule disjI2, rule exI [of _ u], rule exI [of _ ?dl], rule exI [of _ g],
        rule exI [of _ w], rule exI [of _ reg], rule exI [of _ s1], rule exI [of _ ?s2], simp)
  qed
qed

lemma demo_get_capacities: "get_capacities (be_heap demo_backend) (be_buckets demo_backend) (Fin 100) =
    Inr ([(([109], 60), Fin 10)], [])"
proof -
  have "heap_wf (be_heap demo_backend) (be_buckets demo_backend)" using demo_wf by (rule mem_wf_heap)
  from get_capacities_wf [OF this, of "Fin 100"] show ?thesis
    by (simp add: visible_caps_def fresh_refs_def demo_backend_def demo_bucket_def mb_id_def
        visible_def refilled_def)
qed

lemma demo_names [simp]: "be_usage_metric_names demo_backend = {[109]}"
  by (simp add: demo_backend_def)

lemma demo_valid: "0 \<le> q \<Longrightarrow> validate_backend_usage demo_udb [([109], VFloat (Fin q))] {[109]} = Inr ()"
  by (simp add: validate_backend_usage_def validate_usage_mapping_Inr dict_keys_def usage_item_ok_def
      validate_segment_str_Inr demo_udb_def clean_segment_def segment_limit_def
      default_max_length_for_field_def MAX_METRIC_LENGTH_def)

lemma demo_floats: "usage_floats [([109], VFloat (Fin q))] = Inr [([109], Fin q)]"
  by (simp add: usage_floats_def)

lemma raw_dbl_numeral [simp]: "(numeral n :: int) \<le> 2 ^ 53 \<Longrightarrow> raw_dbl [(m, VFloat (Fin (numeral n)))]"
  by (simp add: raw_dbl_def)

text \<open>A wait for 50 of the 60 requests that is still 40 short at its deadline.\<close>

theorem wait_failure_unchanged_witness:
  "\<exists>s'. wait_for_capacity demo_udb (\<lambda>_. None) False [([109], VFloat (Fin 50))] (VFloat (Fin 1)) (Some [110]) []
     (Fin 100) [demo_tick (Fin 101)] (Fin 101) id demo_backend = (Some (Inl capacity_timeout_error), s') \<and>
     map_of (be_waiters s') [110] = None \<and> s'\<lparr>be_waiters := []\<rparr> = demo_backend"
proof -
  let ?u = "[([109], Fin 50)]"
  obtain res s' where run: "wait_for_capacity demo_udb (\<lambda>_. None) False [([109], VFloat (Fin 50))] (VFloat (Fin 1))
      (Some [110]) [] (Fin 100) [demo_tick (Fin 101)] (Fin 101) id demo_backend = (res, s')"
    by (metis surj_pair)
  have gc: "get_capacities (be_heap demo_backend) (be_buckets demo_backend) (Fin 101) =
      Inr ([(([109], 60), Fin 11)], [])"
    using get_capacities_wf [OF mem_wf_heap [OF demo_wf], of "Fin 101"]
    by (simp add: visible_caps_def fresh_refs_def demo_backend_def demo_bucket_def mb_id_def
        visible_def refilled_def time_passed_def)
  have ex: "\<not> exceeds_max demo_backend ?u" by (simp add: exceeds_max_def demo_backend_def demo_bucket_def)
  have rp: "replayed demo_backend (Some [110]) ?u = Inr False"
    by (simp add: replayed_def is_replayed_acquire_def demo_backend_def)
  have tc: "try_consume_locked demo_backend ?u [(([109], 60), Fin 11)] = Inr (False, [])"
    by (simp add: try_consume_locked_def ex ensure_usage_metrics_are_active_def guard_def dict_keys_def insufficient_def)
  have "\<exists>s1. wait_turn ?u (Some [110]) [110] (Some (Fin 101)) (demo_tick (Fin 101)) initial_locals demo_backend =
      (Inr (Raised capacity_timeout_error), s1)"
    using gc tc rp by (simp add: wait_turn_def demo_tick_def reached_def Let_def)
  moreover have "validate_timeout (VFloat (Fin 1)) = Inr (Some (Fin 1))"
    by (simp add: validate_timeout_def type_tests)
  ultimately have res: "res = Some (Inl capacity_timeout_error)"
    using run by (auto simp: wait_for_capacity_def demo_valid demo_floats waiter_key_def)
  let ?R = "\<lambda>x y. x\<lparr>be_waiters := []\<rparr> = y\<lparr>be_waiters := []\<rparr>"
  have R: "only_own_waiter k ?R" for k
    by (simp add: only_own_waiter_def reflp_def transp_def)
  have env: "leaves_waiter k ?R id" "leaves_waiter k ?R (tk_env (demo_tick t))" for k t
    by (simp_all add: leaves_waiter_def demo_tick_def)
  have tk: "ticks_ok [demo_tick (Fin 101)]" "clock_ok (Fin 101)" by (simp_all add: demo_tick_def ticks_ok_def)
  have k: "waiter_key (Some [110]) [] = [110]" by (simp add: waiter_key_def)
  have nofire: "fire (\<lambda>_. None) evs = Inr ()" for evs by (induction evs) auto
  have w: "map_of (be_waiters demo_backend) [110] = None" by (simp add: demo_backend_def)
  have "map_of (be_waiters s') [110] = None \<and> ?R demo_backend s'"
    using wait_failure_unchanged [OF run [unfolded res] demo_wf _ tk, unfolded k, of ?R] R env w
    by (auto simp: nofire)
  then show ?thesis using run res by (auto simp: demo_backend_def)
qed

text \<open>
  A wait with a timeout ends: once the clock read on some turn has reached the deadline,
  the loop has returned or raised, however other threads interleave.
\<close>

theorem wait_deadline_terminates:
  assumes "validate_timeout timeout = Inr (Some d)" "t \<in> set ts" "fle (fadd st d) (tk_deadline_check t)"
  shows "fst (wait_for_capacity udb cb inst raw timeout rid uuid st ts cancel env s) \<noteq> None"
proof -
  have "reached (Some (fadd st d)) (tk_deadline_check t)" using assms(3) by (simp add: reached_def)
  note l = wait_loop_deadline [OF assms(2) this]
  show ?thesis
  proof (cases "bind_res (validate_backend_usage udb raw (be_usage_metric_names s)) (\<lambda>_.
             bind_res (validate_timeout timeout) (\<lambda>to.
               bind_res (usage_floats raw) (\<lambda>usage. Inr (to, usage))))")
    case (Inl e)
    then show ?thesis by (simp add: wait_for_capacity_def)
  next
    case (Inr p)
    then obtain u where p: "p = (Some d, u)" using assms(1) by (auto simp: bind_res_Inr_iff)
    obtain res reg s1 where w: "wait_loop cb inst u rid (waiter_key rid uuid) (Some (fadd st d)) ts
        initial_locals False s = (res, reg, s1)" by (metis prod_cases3)
    with l [of cb inst u rid "waiter_key rid uuid" initial_locals False s] have "res \<noteq> None" by simp
    then show ?thesis using Inr p w
      by (auto simp: wait_for_capacity_def Let_def split: sum.splits prod.splits)
  qed
qed

theorem wait_deadline_terminates_witness:
  "fst (wait_for_capacity demo_udb (\<lambda>_. None) False [([109], VFloat (Fin 50))] (VFloat (Fin 1))
     (Some [110]) [] (Fin 100) [demo_tick (Fin 101)] (Fin 100) id demo_backend) \<noteq> None"
proof (rule wait_deadline_terminates)
  show "validate_timeout (VFloat (Fin 1)) = Inr (Some (Fin 1))"
    by (simp add: validate_timeout_def type_tests)
  show "demo_tick (Fin 101) \<in> set [demo_tick (Fin 101)]" by simp
  show "fle (fadd (Fin 100) (Fin 1)) (tk_deadline_check (demo_tick (Fin 101)))"
    by (simp add: demo_tick_def)
qed

section \<open>Unconditional consumption\<close>

text \<open>
  \<^verbatim>\<open>consume_capacity\<close> never blocks: every bucket then shows its capacity less the usage,
  but no less than minus its maximum, and the backend stays well-formed.
\<close>

theorem consume_capacity_floor:
  assumes "mem_wf s" "clock_ok now" "raw_dbl raw"
    "validate_backend_usage udb raw (be_usage_metric_names s) = Inr ()"
    "\<forall>i. rid = Some i \<longrightarrow> i \<notin> be_acquired_ids s \<and> i \<notin> be_refunded_ids s"
  shows "\<exists>u s'. usage_floats raw = Inr u \<and> snd (consume_capacity udb cb raw rid now s) = s' \<and> mem_wf s' \<and>
    be_buckets s' = be_buckets s \<and> (\<forall>i. rid = Some i \<longrightarrow> i \<in> be_acquired_ids s') \<and>
    (\<forall>r \<in> set (be_buckets s). \<exists>a m. map_of u (mb_metric (be_heap s ! r)) = Some a \<and>
       mb_max_capacity (be_heap s ! r) = Fin m \<and>
       avail s' now r = fmax (fsub (avail s now r) a) (Fin (- m)) \<and>
       fle (Fin (- m)) (avail s' now r) \<and> fle (avail s' now r) (Fin m))"
proof -
  from assms(4,3) obtain u where u: "usage_floats raw = Inr u" "usage_ok u"
    "set (dict_keys u) = be_usage_metric_names s" by (rule backend_usage_floats)
  have "ledger_wf s" using assms(1) by (simp add: mem_wf_def)
  then have rp: "replayed s rid u = Inr False" using assms(5) replayed_False by blast
  obtain h evs where c: "consume_locked u rid now s = (Inr (now, evs), (record_opt rid u s)\<lparr>be_heap := h\<rparr>)"
    "mem_wf ((record_opt rid u s)\<lparr>be_heap := h\<rparr>)"
    "\<forall>r \<in> set (be_buckets s). visible (h ! r) now = consumed_value u (mb_max_capacity (be_heap s ! r))
       (avail s now r) (mb_metric (be_heap s ! r))"
    by (rule consume_locked_wf [OF assms(1,2) u(2) rp]) (use u(3) in auto)
  let ?s = "(record_opt rid u s)\<lparr>be_heap := h\<rparr>"
  have "snd (consume_capacity udb cb raw rid now s) = ?s"
    using c(1) u(1) assms(4)
    by (simp add: consume_capacity_def op_bind_def op_simps split: sum.split)
  moreover have "\<exists>a m. map_of u (mb_metric (be_heap s ! r)) = Some a \<and>
       mb_max_capacity (be_heap s ! r) = Fin m \<and>
       avail ?s now r = fmax (fsub (avail s now r) a) (Fin (- m)) \<and>
       fle (Fin (- m)) (avail ?s now r) \<and> fle (avail ?s now r) (Fin m)" if r: "r \<in> set (be_buckets s)" for r
  proof -
    have "bucket_wf (be_heap s ! r)" using mem_wf_heap [OF assms(1)] r by (simp add: heap_wf_def)
    then obtain x m where v: "visible (be_heap s ! r) now = Fin x" "mb_max_capacity (be_heap s ! r) = Fin m"
      "0 < m" "x \<le> m" "is_dbl (Fin x)" "is_dbl (Fin m)" using assms(2) by (rule visible_wf)
    have "mb_metric (be_heap s ! r) \<in> set (dict_keys u)" using r u(3) assms(1) by (simp add: mem_wf_def)
    then obtain a where a: "map_of u (mb_metric (be_heap s ! r)) = Some a"
      by (metis dict_keys_def list.set_map map_of_eq_None_iff option.exhaust)
    obtain q where q: "consumed_value u (Fin m) (Fin x) (mb_metric (be_heap s ! r)) = Fin q" "q \<le> m" "- m \<le> q"
      using consumed_value_bounds [OF u(2) v(5,4,3,6), of "mb_metric (be_heap s ! r)"] a by (metis option.distinct(1))
    then show ?thesis using c(3) r v a by (auto simp: avail_def consumed_value_def)
  qed
  moreover have "rid = Some i \<Longrightarrow> i \<in> be_acquired_ids ?s" for i
    by (simp add: record_opt_def record_acquired_reservation_def)
  ultimately show ?thesis using u(1) c(2) by (intro exI [of _ u] exI [of _ ?s]) auto
qed

theorem consume_capacity_floor_witness:
  "\<exists>s'. snd (consume_capacity demo_udb (\<lambda>_. None) [([109], VFloat (Fin 100))] (Some [110]) (Fin 100) demo_backend) = s' \<and>
     mem_wf s' \<and> avail s' (Fin 100) 0 = Fin (- 60)"
proof -
  have a: "avail demo_backend (Fin 100) 0 = Fin 10"
    by (simp add: avail_def demo_backend_def demo_bucket_def visible_def refilled_def)
  have "validate_backend_usage demo_udb [([109], VFloat (Fin 100))] (be_usage_metric_names demo_backend) = Inr ()"
    by (simp add: demo_valid)
  from consume_capacity_floor [OF demo_wf _ _ this, of "Fin 100" "Some [110]" "\<lambda>_. None"] a show ?thesis
    by (simp add: demo_floats) (simp add: demo_backend_def demo_bucket_def)
qed
section \<open>Refunds\<close>

text \<open>
  C7. A refund of a live reservation changes exactly the buckets it is scoped to: each
  then shows its capacity plus the refund (reserved minus actual, cut at minus the maximum),
  clamped to the range from minus the maximum to the maximum. Every other bucket object is
  untouched, and the reservation is no longer live.
\<close>

theorem refund_scoped_and_clamped:
  assumes "mem_wf s" "clock_ok now" "raw_dbl reserved" "raw_dbl actual" "ids \<noteq> {}"
    "validate_backend_refund_usage_for_bucket_ids udb reserved actual ids (bucket_ids s) = Inr ()"
    "\<forall>i. rid = Some i \<longrightarrow> i \<in> be_acquired_ids s"
  shows "\<exists>refund s'. refund_amounts reserved actual = Inr refund \<and>
    snd (refund_capacity_for_buckets udb cb reserved actual (Some ids) rid now s) = s' \<and> mem_wf s' \<and>
    be_acquired_ids s' = be_acquired_ids s - set_option rid \<and>
    (\<forall>r < length (be_heap s). if r \<in> set (be_buckets s) \<and> mb_id (be_heap s ! r) \<in> ids
       then \<exists>a m. map_of refund (mb_metric (be_heap s ! r)) = Some a \<and> mb_max_capacity (be_heap s ! r) = Fin m \<and>
         avail s' now r = fmax (Fin (- m)) (fmin (fadd (avail s now r) (fmax a (Fin (- m)))) (Fin m)) \<and>
         fle (Fin (- m)) (avail s' now r) \<and> fle (avail s' now r) (Fin m)
       else be_heap s' ! r = be_heap s ! r)"
proof -
  have v: "validate_usage_mapping udb reserved (fst ` ids) = Inr ()"
    "validate_refund_usage udb actual (set (dict_keys reserved)) = Inr ()"
    using assms(5,6) by (auto simp: validate_backend_refund_usage_for_bucket_ids_def res_simps split: if_split_asm)
  have vr: "set (dict_keys reserved) = fst ` ids" "\<forall>p \<in> set reserved. usage_item_ok udb p"
    using v(1) by (auto simp: validate_usage_mapping_Inr)
  have va: "set (dict_keys actual) = set (dict_keys reserved)" "\<forall>p \<in> set actual. usage_item_ok udb p"
    using v(2) by (auto simp: validate_usage_mapping_Inr validate_refund_usage_def)
  obtain refund where rf: "refund_amounts reserved actual = Inr refund"
    "dict_keys refund = dict_keys reserved" "\<forall>(m, a) \<in> set refund. a \<noteq> NaN"
    using vr(2) va(2) assms(3,4) va(1) by (rule refund_amounts_validated)
  have chk: "refund_check s rid = Inr ()" using assms(7) by (auto simp: refund_check_def split: option.split)
  obtain h evs where rl: "refund_locked reserved actual refund ids rid now s =
      (Inr evs, close_reservation rid (s\<lparr>be_heap := h\<rparr>))"
    "mem_wf (close_reservation rid (s\<lparr>be_heap := h\<rparr>))" "length h = length (be_heap s)"
    "\<forall>r \<in> set (be_buckets s). visible (h ! r) now =
       after_refund ids refund (mb_max_capacity (be_heap s ! r)) (avail s now r) (mb_id (be_heap s ! r))"
    "\<forall>r < length h. mb_id (be_heap s ! r) \<notin> ids \<or> r \<notin> set (be_buckets s) \<longrightarrow> h ! r = be_heap s ! r"
    by (rule refund_locked_wf [OF assms(1,2) rf(3) chk assms(5), where reserved = reserved and actual = actual])
  let ?s = "close_reservation rid (s\<lparr>be_heap := h\<rparr>)"
  have "snd (refund_capacity_for_buckets udb cb reserved actual (Some ids) rid now s) = ?s"
    using assms(5,6) rf(1) rl(1)
    by (simp add: refund_capacity_for_buckets_def op_bind_def op_simps Let_def split: sum.split)
  moreover have "be_acquired_ids ?s = be_acquired_ids s - set_option rid"
    by (auto simp: close_reservation_def forget_acquired_reservation_def split: option.split)
  moreover have "\<exists>a m. map_of refund (mb_metric (be_heap s ! r)) = Some a \<and> mb_max_capacity (be_heap s ! r) = Fin m \<and>
         avail ?s now r = fmax (Fin (- m)) (fmin (fadd (avail s now r) (fmax a (Fin (- m)))) (Fin m)) \<and>
         fle (Fin (- m)) (avail ?s now r) \<and> fle (avail ?s now r) (Fin m)"
    if r: "r \<in> set (be_buckets s)" "mb_id (be_heap s ! r) \<in> ids" for r
  proof -
    have "bucket_wf (be_heap s ! r)" using mem_wf_heap [OF assms(1)] r(1) by (simp add: heap_wf_def)
    then obtain x m where w: "visible (be_heap s ! r) now = Fin x" "mb_max_capacity (be_heap s ! r) = Fin m"
      "0 < m" "x \<le> m" "is_dbl (Fin x)" "is_dbl (Fin m)" using assms(2) by (rule visible_wf)
    have "mb_metric (be_heap s ! r) \<in> fst ` ids" using r(2) by (metis fst_mb_id image_eqI)
    then have "mb_metric (be_heap s ! r) \<in> set (dict_keys refund)" using vr(1) rf(2) by simp
    then obtain a where a: "map_of refund (mb_metric (be_heap s ! r)) = Some a"
      by (metis dict_keys_def list.set_map map_of_eq_None_iff option.exhaust)
    then have "a \<noteq> NaN" using rf(3) by (auto dest: map_of_SomeD)
    then obtain q where "refunded_value (Fin m) (Fin x) a = Fin q" "- m \<le> q" "q \<le> m"
      using refunded_value_bounds [OF w(3,6)] by blast
    then show ?thesis using rl(4) r w a
      by (auto simp: avail_def after_refund_def refunded_value_def)
  qed
  moreover have "be_heap ?s ! r = be_heap s ! r"
    if "r < length (be_heap s)" "\<not> (r \<in> set (be_buckets s) \<and> mb_id (be_heap s ! r) \<in> ids)" for r
    using that rl(3,5) by auto
  ultimately show ?thesis using rf(1) rl(2) by (intro exI [of _ refund] exI [of _ ?s]) auto
qed

lemma demo_refund_valid:
  "validate_backend_refund_usage_for_bucket_ids demo_udb [([109], VFloat (Fin 5))] [([109], VFloat (Fin 2))]
     {([109], 60)} (bucket_ids demo_backend) = Inr ()"
proof -
  have "bucket_ids demo_backend = {([109], 60)}"
    by (simp add: bucket_ids_def demo_backend_def demo_bucket_def mb_id_def)
  then show ?thesis using demo_valid [of 5] demo_valid [of 2]
    by (simp add: validate_backend_refund_usage_for_bucket_ids_def validate_backend_usage_def
        validate_refund_usage_def dict_keys_def)
qed

theorem refund_scoped_and_clamped_witness:
  "\<exists>s'. snd (refund_capacity_for_buckets demo_udb (\<lambda>_. None) [([109], VFloat (Fin 5))] [([109], VFloat (Fin 2))]
       (Some {([109], 60)}) (Some [114]) (Fin 100) demo_backend) = s' \<and> mem_wf s' \<and>
     avail s' (Fin 100) 0 = Fin 13 \<and> be_acquired_ids s' = {}"
proof -
  have f: "refund_amounts [([109], VFloat (Fin 5))] [([109], VFloat (Fin 2))] = Inr [([109], Fin 3)]"
    by (simp add: refund_amounts_def)
  have l: "\<forall>i. Some [114] = Some i \<longrightarrow> i \<in> be_acquired_ids demo_backend" by (simp add: demo_backend_def)
  have a: "avail demo_backend (Fin 100) 0 = Fin 10"
    by (simp add: avail_def demo_backend_def demo_bucket_def visible_def refilled_def)
  from refund_scoped_and_clamped [OF demo_wf _ _ _ _ demo_refund_valid l, of "Fin 100" "\<lambda>_. None"]
  show ?thesis using a f
    by (simp add: demo_backend_def demo_bucket_def mb_id_def)
qed

text \<open>
  A refund of a reservation that is not live is refused without touching anything: with
  \<^verbatim>\<open>already_refunded\<close> while its refund is remembered, as unknown otherwise.
\<close>

theorem refund_not_live_rejected:
  assumes "mem_wf s" "raw_dbl reserved" "raw_dbl actual" "ids \<noteq> {}"
    "validate_backend_refund_usage_for_bucket_ids udb reserved actual ids (bucket_ids s) = Inr ()"
    "i \<notin> be_acquired_ids s"
  shows "refund_capacity_for_buckets udb cb reserved actual (Some ids) (Some i) now s =
    (Inl (if i \<in> be_refunded_ids s then DuplicateRefundError AlreadyRefunded else UnknownReservationError), s)"
proof -
  have v: "validate_usage_mapping udb reserved (fst ` ids) = Inr ()"
    "validate_refund_usage udb actual (set (dict_keys reserved)) = Inr ()"
    using assms(4,5) by (auto simp: validate_backend_refund_usage_for_bucket_ids_def res_simps split: if_split_asm)
  obtain refund where "refund_amounts reserved actual = Inr refund"
    using refund_amounts_validated [of reserved udb actual] v assms(2,3)
    by (metis validate_refund_usage_def validate_usage_mapping_Inr)
  then show ?thesis using assms(4-6)
    by (simp add: refund_capacity_for_buckets_def refund_locked_def refund_check_def op_bind_def)
qed

theorem refund_not_live_rejected_witness:
  "refund_capacity_for_buckets demo_udb (\<lambda>_. None) [([109], VFloat (Fin 5))] [([109], VFloat (Fin 2))]
     (Some {([109], 60)}) (Some [113]) (Fin 100) demo_backend =
   (Inl (DuplicateRefundError AlreadyRefunded), demo_backend)"
  using refund_not_live_rejected [OF demo_wf _ _ _ demo_refund_valid, of "[113]" "\<lambda>_. None" "Fin 100"]
  by (simp add: demo_backend_def)

text \<open>
  Replaying the acquisition of a live reservation with the same usage succeeds and
  changes nothing; with other usage, or after its refund, it is refused and changes nothing.
\<close>

theorem consume_replay_idempotent:
  assumes "map_of (be_acquired_values s) i = Some (bucket_ids s, u)"
    "validate_backend_usage udb raw (be_usage_metric_names s) = Inr ()" "usage_floats raw = Inr u2"
  shows "consume_capacity udb cb raw (Some i) now s =
    ((if dict_eq u u2 then Inr now else Inl (DuplicateRefundError DuplicateAcquire)), s)"
  using assms
  by (simp add: consume_capacity_def op_bind_def op_simps consume_locked_def replayed_def is_replayed_acquire_def)

theorem consume_replay_idempotent_witness:
  "consume_capacity demo_udb (\<lambda>_. None) [([109], VFloat (Fin 5))] (Some [114]) (Fin 100) demo_backend =
   (Inr (Fin 100), demo_backend)"
proof -
  have m: "map_of (be_acquired_values demo_backend) [114] = Some (bucket_ids demo_backend, [([109], Fin 5)])"
    by (simp add: bucket_ids_def demo_backend_def demo_bucket_def mb_id_def)
  have v: "validate_backend_usage demo_udb [([109], VFloat (Fin 5))] (be_usage_metric_names demo_backend) = Inr ()"
    by (simp add: demo_valid)
  show ?thesis using consume_replay_idempotent [OF m v demo_floats, of "\<lambda>_. None" "Fin 100"]
    by (simp add: dict_eq_iff)
qed
text \<open>Steps that are always possible, to build concrete traces.\<close>

lemma acquire_step:
  assumes "mem_wf s" "usage_ok u" "clock_ok now" "i \<notin> be_acquired_ids s" "i \<notin> be_refunded_ids s"
    "set (dict_keys u) \<subseteq> be_usage_metric_names s"
  shows "\<exists>h. mem_step udb (s, ds) (Acquired i) ((record_opt (Some i) u s)\<lparr>be_heap := h\<rparr>, ds)"
proof -
  have "ledger_wf s" using assms(1) by (simp add: mem_wf_def)
  then have rp: "replayed s (Some i) u = Inr False" using assms(4,5) replayed_False by blast
  obtain h evs where c: "consume_locked u (Some i) now s = (Inr (now, evs), (record_opt (Some i) u s)\<lparr>be_heap := h\<rparr>)"
    by (rule consume_locked_wf [OF assms(1,3,2) rp assms(6)])
  have "mem_step udb (s, ds) (acquire_event s (Some i) u (is_ok (Inr (now, evs) :: (pyfloat \<times> callback_event list) result)))
      ((record_opt (Some i) u s)\<lparr>be_heap := h\<rparr>, ds)"
    using assms(2,3) c by (rule mem_step.consume)
  then show ?thesis using rp by (auto simp: acquire_event_def)
qed

lemma refund_step:
  assumes "i \<in> be_acquired_ids s" "i \<notin> ds"
  shows "mem_step udb (s, ds) (Refunded i) (close_reservation (Some i) s, ds)"
proof -
  have "refund_locked [] [] [] {} (Some i) (Fin 0) s = (Inr [], close_reservation (Some i) s)"
    using assms by (simp add: refund_locked_def refund_check_def)
  moreover have "clock_ok (Fin 0)" by (simp add: clock_ok_def)
  ultimately have "mem_step udb (s, ds) (refund_event (Some i) (is_ok (Inr [] :: callback_event list result)))
      (close_reservation (Some i) s, ds)" using assms(2) by (intro mem_step.refund) auto
  then show ?thesis by (simp add: refund_event_def)
qed

definition demo_pyd :: pydantic where
  "demo_pyd = \<lparr>strict_float = (\<lambda>v. case v of VFloat f \<Rightarrow> if is_dbl f then Some f else None | _ \<Rightarrow> None),
     strict_int = (\<lambda>v. case v of VInt i \<Rightarrow> Some i | _ \<Rightarrow> None)\<rparr>"

lemma demo_ok: "unicode_ok demo_udb" "pydantic_ok demo_pyd"
proof -
  show "unicode_ok demo_udb" by (simp add: unicode_ok_def demo_udb_def)
  have "strict_float demo_pyd v = Some f \<Longrightarrow> is_dbl f" for v f
    by (cases v) (simp_all add: demo_pyd_def split: if_split_asm)
  then show "pydantic_ok demo_pyd" by (simp add: pydantic_ok_def)
qed

lemma demo_clean: "clean_segment demo_udb [109]" "clean_segment demo_udb [102]" "nfc demo_udb s = s"
  by (simp_all add: clean_segment_def demo_udb_def)

lemma demo_segment:
  "validate_segment_str demo_udb [109] ''metric'' None = Inr [109]"
  "validate_segment_str demo_udb [109] ''metric'' (Some 64) = Inr [109]"
  "validate_segment_str demo_udb [102] ''model_family'' None = Inr [102]"
  "validate_segment_str demo_udb [102] ''model_family'' (Some 256) = Inr [102]"
  by (simp_all add: validate_segment_str_Inr demo_clean segment_limit_def default_max_length_for_field_def
      MAX_METRIC_LENGTH_def MAX_MODEL_FAMILY_LENGTH_def)

lemma demo_max_ok: "max_ok (Fin 60)" "is_dbl (Fin 60)"
  by (simp_all add: max_ok_def MIN_MAX_CAPACITY_val)

lemma demo_config: "mk_config demo_udb demo_pyd (cfg_quotas demo_cfg) (VStr [102]) = Inr demo_cfg"
proof -
  have "quota_limit_field demo_pyd (VFloat (Fin 60)) = Inr (Fin 60)"
    "quota_per_seconds_field demo_pyd (VInt 60) = Inr 60"
    using demo_max_ok
    by (simp_all add: quota_limit_field_def quota_per_seconds_field_def reject_boolean_def
        reject_non_numeric_per_seconds_def type_tests demo_pyd_def MAX_PER_SECONDS_val MIN_MAX_CAPACITY_val)
  then have "quota_revalidate demo_udb demo_pyd demo_quota = Inr demo_quota"
    by (simp add: quota_revalidate_def mk_quota_Inr demo_quota_def demo_segment)
  then have "frozen_snapshot demo_udb demo_pyd (cfg_quotas demo_cfg) = Inr (cfg_quotas demo_cfg)"
    by (simp add: frozen_snapshot_def is_unlimited_quotas_def demo_cfg_def mk_usage_quotas_def uq_iter_def
        MAX_QUOTAS_PER_USAGE_QUOTAS_def add_metric_def unlimited_quotas_def dict_get_def demo_quota_def)
  then show ?thesis
    by (simp add: mk_config_def validate_key_segment_def demo_segment) (simp add: demo_cfg_def)
qed

lemma demo_build:
  obtains s where "build_mem_backend demo_udb demo_pyd VNone demo_cfg = Inr s"
    "be_usage_metric_names s = {[109]}" "be_refunded_cap s = 131072"
proof -
  have "validate_rate_per_sec_finite_positive (VFloat (Fin 1)) = Inr (Fin 1)"
    by (simp add: validate_rate_VFloat rate_ok_def)
  then have "mk_bucket_of_quota demo_udb demo_cfg demo_quota =
      Inr (demo_bucket\<lparr>mb_capacity := None, mb_last_checked := None\<rparr>)"
    using demo_max_ok
    by (simp add: mk_bucket_of_quota_def get_model_family_def demo_cfg_def mk_memory_bucket_def
        validate_metric_def validate_model_family_def demo_segment demo_quota_def MAX_METRIC_LENGTH_def
        MAX_MODEL_FAMILY_LENGTH_def validate_per_seconds_def type_tests MAX_PER_SECONDS_val
        max_capacity_setter_def validate_max_ok calculate_rate_per_sec_def float_of_int_def
        demo_bucket_def)
  then show ?thesis using that demo_config
    by (simp add: build_mem_backend_def config_with_family_def demo_cfg_def mk_mem_backend_def uq_iter_def
        validate_sleep_interval_def demo_bucket_def REFUNDED_RESERVATION_IDS_CAP_def)
qed

section \<open>Traces\<close>

text \<open>
  C2. From a freshly built backend, in every interleaving of critical sections, an id is
  refunded or given back by an interrupted wait at most as often as it was acquired, it is
  live exactly when it was acquired once more than that, and the backend stays well-formed: no
  reservation is paid back twice. Every give-back of an id counts, whether or not the id is
  live. The protocol of the callers is part of the steps: an id is refunded only when no
  granted wait is still delivering it (running its callbacks), and an interrupted wait gives
  back once. Without it the claim fails, as \<open>cancellation_ignores_ledger\<close> shows.
\<close>

theorem no_double_refund:
  assumes "build_mem_backend udb pyd si cfg = Inr s" "unicode_ok udb" "pydantic_ok pyd"
    "trace (mem_step udb) (s, {}) es (t, ds)"
  shows "mem_wf t \<and> ds \<subseteq> be_acquired_ids t \<and> releases i es \<le> acquisitions i es \<and>
     (i \<in> be_acquired_ids t \<longleftrightarrow> releases i es < acquisitions i es)"
proof -
  note b = build_mem_backend_wf [OF assms(1-3)]
  have wf: "deliveries_wf (s, {})" using b(1) by (simp add: deliveries_wf_def)
  have "deliveries_wf (t, ds)" using assms(4) wf by (rule mem.trace_inv)
  moreover have "i \<notin> live_ids (s, {})" using b(2) by simp
  moreover note mem.balance [OF assms(4) wf, of i]
  ultimately show ?thesis by (simp add: deliveries_wf_def split: if_splits)
qed

theorem no_double_refund_witness:
  "\<exists>s t. build_mem_backend demo_udb demo_pyd VNone demo_cfg = Inr s \<and>
     trace (mem_step demo_udb) (s, {}) [Acquired [110], Refunded [110]] (t, {}) \<and> mem_wf t \<and>
     [110] \<notin> be_acquired_ids t"
proof -
  obtain s where s: "build_mem_backend demo_udb demo_pyd VNone demo_cfg = Inr s"
    "be_usage_metric_names s = {[109]}" by (rule demo_build)
  note b = build_mem_backend_wf [OF s(1) demo_ok]
  have "\<exists>h. mem_step demo_udb (s, {}) (Acquired [110]) ((record_opt (Some [110]) [([109], Fin 5)] s)\<lparr>be_heap := h\<rparr>, {})"
    using b(1-3) s(2) by (intro acquire_step [where now = "Fin 100"]) (simp_all add: dict_keys_def)
  then obtain h where st: "mem_step demo_udb (s, {}) (Acquired [110])
      ((record_opt (Some [110]) [([109], Fin 5)] s)\<lparr>be_heap := h\<rparr>, {})" ..
  let ?t = "(record_opt (Some [110]) [([109], Fin 5)] s)\<lparr>be_heap := h\<rparr>"
  have "[110] \<in> be_acquired_ids ?t" by (simp add: record_opt_def record_acquired_reservation_def)
  then have "mem_step demo_udb (?t, {}) (Refunded [110]) (close_reservation (Some [110]) ?t, {})"
    by (rule refund_step) simp
  then have tr: "trace (mem_step demo_udb) (s, {}) [Acquired [110], Refunded [110]]
      (close_reservation (Some [110]) ?t, {})"
    using st by (auto intro: trace.intros)
  from no_double_refund [OF s(1) demo_ok tr, of "[110]"] s(1) tr show ?thesis
    by (auto simp: releases_def acquisitions_def ends_def)
qed

text \<open>
  Giving back an interrupted consumption does not look at the ledger: for an id that is no
  longer live (refunded while the callbacks ran) the usage is added to every bucket again.
\<close>

theorem cancellation_ignores_ledger:
  assumes "mem_wf s" "heap_wf (be_heap s) target" "clock_ok now" "usage_ok u" "i \<notin> be_acquired_ids s"
  shows "\<exists>s'. refund_cancelled_consumption u target (Some i) now s = (Inr (), s') \<and>
    (\<forall>r \<in> set target. avail s' now r = cancelled_value u (mb_max_capacity (be_heap s ! r))
       (avail s now r) (mb_metric (be_heap s ! r)))"
proof -
  obtain h where h: "refund_cancelled_consumption u target (Some i) now s = (Inr (), forget_opt (Some i) (s\<lparr>be_heap := h\<rparr>))"
    "\<forall>r \<in> set target. visible (h ! r) now = cancelled_value u (mb_max_capacity (be_heap s ! r))
       (avail s now r) (mb_metric (be_heap s ! r))"
    using refund_cancelled_wf [OF assms(1-4), of "Some i"] by metis
  then show ?thesis by (simp add: avail_def forget_opt_def forget_acquired_reservation_def)
qed

text \<open>
  Between two refunds of one id that both succeed lies a new acquisition of it.
\<close>

theorem refund_needs_acquire:
  assumes "mem_wf s" "trace (mem_step udb) (s, {}) (xs @ Refunded i # ys @ Refunded i # zs) p"
  shows "Acquired i \<in> set ys"
  using assms by (intro mem.refund_twice [OF assms(2)]) (simp add: deliveries_wf_def)

theorem refund_needs_acquire_witness:
  "\<exists>s t. mem_wf s \<and> trace (mem_step demo_udb) (s, {}) [Refunded [114], Acquired [114], Refunded [114]] t \<and>
     Acquired [114] \<in> set [Acquired [114]]"
proof -
  let ?s = "demo_backend\<lparr>be_refunded_ids := {}, be_refunded_order := [], be_refunded_cap := 0\<rparr>"
  have wf: "mem_wf ?s" using demo_wf by (auto simp: mem_wf_def ledger_wf_def)
  let ?a = "close_reservation (Some [114]) ?s"
  have r1: "mem_step demo_udb (?s, {}) (Refunded [114]) (?a, {})" by (rule refund_step) (simp_all add: demo_backend_def)
  have wa: "mem_wf ?a" using mem_step_effect [OF r1] wf by (simp add: deliveries_wf_def)
  have "be_acquired_ids ?a = {}" "be_refunded_ids ?a = {}" "be_usage_metric_names ?a = {[109]}"
    by (simp_all add: close_reservation_def forget_acquired_reservation_def
        remember_refunded_reservation_id_def demo_backend_def)
  then have "\<exists>h. mem_step demo_udb (?a, {}) (Acquired [114]) ((record_opt (Some [114]) [([109], Fin 5)] ?a)\<lparr>be_heap := h\<rparr>, {})"
    using wa by (intro acquire_step [where now = "Fin 100"]) (simp_all add: dict_keys_def)
  then obtain h where r2: "mem_step demo_udb (?a, {}) (Acquired [114]) ((record_opt (Some [114]) [([109], Fin 5)] ?a)\<lparr>be_heap := h\<rparr>, {})" ..
  let ?b = "(record_opt (Some [114]) [([109], Fin 5)] ?a)\<lparr>be_heap := h\<rparr>"
  have "[114] \<in> be_acquired_ids ?b" by (simp add: record_opt_def record_acquired_reservation_def)
  then have r3: "mem_step demo_udb (?b, {}) (Refunded [114]) (close_reservation (Some [114]) ?b, {})"
    by (rule refund_step) simp
  have tr: "trace (mem_step demo_udb) (?s, {}) ([] @ Refunded [114] # [Acquired [114]] @ Refunded [114] # [])
      (close_reservation (Some [114]) ?b, {})"
    unfolding append_Nil append_Cons
    by (rule trace_Cons, rule r1, rule trace_Cons, rule r2, rule trace_Cons, rule r3, rule trace_Nil)
  from refund_needs_acquire [OF wf tr] wf tr show ?thesis by auto
qed

text \<open>
  Remembering a refund keeps the most recent refunded ids, at most as many as the cap,
  in order: the oldest are forgotten first.
\<close>

theorem refund_dedup_fifo:
  assumes "ledger_wf s" "rid \<notin> be_refunded_ids s"
  shows "be_refunded_order (remember_refunded_reservation_id rid s) =
      drop (Suc (length (be_refunded_order s)) - be_refunded_cap s) (be_refunded_order s @ [rid]) \<and>
    be_refunded_ids (remember_refunded_reservation_id rid s) =
      set (be_refunded_order (remember_refunded_reservation_id rid s)) \<and>
    card (be_refunded_ids (remember_refunded_reservation_id rid s)) \<le> be_refunded_cap s \<and>
    (0 < be_refunded_cap s \<longrightarrow> rid \<in> be_refunded_ids (remember_refunded_reservation_id rid s))"
proof -
  let ?o = "be_refunded_order s @ [rid]"
  let ?k = "drop (length ?o - be_refunded_cap s) ?o"
  have "card (set ?k) \<le> length ?k" by (rule card_length)
  also have "\<dots> \<le> be_refunded_cap s" by simp
  finally have "card (set ?k) \<le> be_refunded_cap s" .
  moreover have "rid \<in> set ?k" if "0 < be_refunded_cap s"
  proof -
    have "length ?o - be_refunded_cap s \<le> length (be_refunded_order s)" using that by simp
    then show ?thesis by simp
  qed
  ultimately show ?thesis unfolding remember_refunded_eq [OF assms] Let_def by simp
qed

theorem refund_dedup_fifo_witness:
  "be_refunded_order (remember_refunded_reservation_id [114] (demo_backend\<lparr>be_refunded_cap := 1,
      be_acquired_ids := {}, be_acquired_values := []\<rparr>)) = [[114]]"
proof -
  let ?s = "demo_backend\<lparr>be_refunded_cap := 1, be_acquired_ids := {}, be_acquired_values := []\<rparr>"
  have "ledger_wf ?s" "[114] \<notin> be_refunded_ids ?s"
    by (simp_all add: ledger_wf_def demo_backend_def dict_keys_def)
  from refund_dedup_fifo [OF this] show ?thesis by (simp add: demo_backend_def)
qed

section \<open>Reconfiguration and cancellation\<close>

text \<open>
  A reconfiguration that returns installs the buckets of the new quotas in their order;
  a bucket that existed is the old object under its new maximum (its level is kept, as
  \<^verbatim>\<open>set_max_capacity\<close> keeps it), and no reservation is forgotten. Whether it returns or
  raises, the backend stays well-formed.
\<close>

theorem reconfigure_keeps_state:
  assumes "mem_wf s" "clock_ok now" "mk_config udb pyd quotas family = Inr cfg" "unicode_ok udb" "pydantic_ok pyd"
    "prepare_reconfigured_backend udb cfg now s = (res, s')"
  shows "mem_wf s' \<and> be_acquired_values s' = be_acquired_values s \<and> be_refunded_ids s' = be_refunded_ids s \<and>
    (res = Inr () \<longrightarrow>
      map (\<lambda>r. mb_id (be_heap s' ! r)) (be_buckets s') = map quota_bucket_id (uq_iter (cfg_quotas cfg)) \<and>
      (\<forall>q \<in> set (uq_iter (cfg_quotas cfg)). \<forall>r \<in> set (be_buckets s). mb_id (be_heap s ! r) = quota_bucket_id q \<longrightarrow>
         r \<in> set (be_buckets s') \<and>
         set_max_capacity (VFloat (q_limit q)) now (be_heap s ! r) = (Inr (), be_heap s' ! r)))"
proof -
  have q: "quotas_ok udb (uq_iter (cfg_quotas cfg))" using assms(3-5) by (rule mk_config_ok)
  note rc = reconfigure_wf [OF assms(1,2) q assms(6)]
  have "r \<in> set (be_buckets s') \<and>
         set_max_capacity (VFloat (q_limit q)) now (be_heap s ! r) = (Inr (), be_heap s' ! r)"
    if "res = Inr ()" "q \<in> set (uq_iter (cfg_quotas cfg))" "r \<in> set (be_buckets s)"
      "mb_id (be_heap s ! r) = quota_bucket_id q" for q r
  proof -
    have "\<forall>q \<in> set (uq_iter (cfg_quotas cfg)). case map_of (be_registry s) (quota_bucket_id q) of
         Some r \<Rightarrow> r \<in> set (be_buckets s') \<and>
           set_max_capacity (VFloat (q_limit q)) now (be_heap s ! r) = (Inr (), be_heap s' ! r)
       | None \<Rightarrow> True" using rc(2) [OF that(1)] by blast
    moreover have "map_of (be_registry s) (quota_bucket_id q) = Some r"
      using registry_wf [OF assms(1) that(3)] that(4) by simp
    ultimately show ?thesis using that(2) by fastforce
  qed
  then show ?thesis using rc by blast
qed

theorem reconfigure_keeps_state_witness:
  "mem_wf (snd (prepare_reconfigured_backend demo_udb demo_cfg (Fin 100) demo_backend))"
proof -
  obtain r s' where p: "prepare_reconfigured_backend demo_udb demo_cfg (Fin 100) demo_backend = (r, s')"
    by (metis surj_pair)
  from reconfigure_keeps_state [OF demo_wf _ demo_config demo_ok p] p show ?thesis by simp
qed

text \<open>
  A consumption whose callbacks are interrupted is given back: at the same instant each
  bucket shows what it showed before, provided the two roundings are exact, and the
  reservation is neither live nor refunded, so it may be tried again.
\<close>

theorem cancelled_consumption_restores:
  assumes "mem_wf s" "clock_ok now" "usage_ok u" "granted u (Some i) now s0 s" "mem_wf s0"
    "r \<in> set (be_buckets s0)" "map_of u (mb_metric (be_heap s0 ! r)) = Some (Fin a)"
    "avail s0 now r = Fin c" "is_dbl (Fin (c - a))"
  shows "\<exists>s'. refund_cancelled_consumption u (be_buckets s0) (Some i) now s = (Inr (), s') \<and> mem_wf s' \<and>
    avail s' now r = avail s0 now r \<and> be_acquired_ids s' = be_acquired_ids s0 \<and>
    be_refunded_ids s' = be_refunded_ids s0"
proof -
  obtain h0 where g: "s = (record_opt (Some i) u s0)\<lparr>be_heap := h0\<rparr>" "replayed s0 (Some i) u = Inr False"
    "visible (h0 ! r) now = granted_value u (avail s0 now r) (mb_metric (be_heap s0 ! r))"
    "mb_id (h0 ! r) = mb_id (be_heap s0 ! r)" "mb_max_capacity (h0 ! r) = mb_max_capacity (be_heap s0 ! r)"
    using assms(4,6) by (auto simp: granted_def)
  have met: "mb_metric (h0 ! r) = mb_metric (be_heap s0 ! r)" using g(4) by (simp add: mb_id_def)
  have hw: "heap_wf (be_heap s) (be_buckets s0)" using mem_wf_heap [OF assms(1)] by (simp add: g(1))
  obtain h where h: "refund_cancelled_consumption u (be_buckets s0) (Some i) now s =
      (Inr (), forget_opt (Some i) (s\<lparr>be_heap := h\<rparr>))"
    "mem_wf (forget_opt (Some i) (s\<lparr>be_heap := h\<rparr>))"
    "\<forall>r \<in> set (be_buckets s0). visible (h ! r) now = cancelled_value u (mb_max_capacity (be_heap s ! r))
       (avail s now r) (mb_metric (be_heap s ! r))"
    using assms(1) hw assms(2,3) by (rule refund_cancelled_wf)
  have "bucket_wf (be_heap s0 ! r)" using mem_wf_heap [OF assms(5)] assms(6) by (simp add: heap_wf_def)
  then obtain m where m: "mb_max_capacity (be_heap s0 ! r) = Fin m" "c \<le> m" "is_dbl (Fin c)"
    using assms(2,8) by (auto simp: avail_def elim: visible_wf)
  have now: "avail s now r = Fin (c - a)"
    using g(3) assms(7-9) by (simp add: avail_def g(1) granted_value_def is_dbl_Fin)
  have "visible (h ! r) now = Fin c"
    using h(3) assms(6,7) now m by (simp add: g(1,5) met cancelled_value_def is_dbl_Fin)
  moreover have "i \<notin> be_acquired_ids s0" using g(2) replayed_False assms(5) by (auto simp: mem_wf_def)
  ultimately show ?thesis using h(1,2) assms(8)
    by (simp add: avail_def g(1) forget_opt_def forget_acquired_reservation_def record_opt_def
        record_acquired_reservation_def)
qed

theorem cancelled_consumption_restores_witness:
  "\<exists>s'. refund_cancelled_consumption [([109], Fin 3)] [0] (Some [110]) (Fin 100) demo_after = (Inr (), s') \<and>
     avail s' (Fin 100) 0 = Fin 10 \<and> be_acquired_ids s' = {[114]}"
proof -
  obtain turn s' where t: "wait_turn [([109], Fin 3)] (Some [110]) [110] None (demo_tick (Fin 100)) initial_locals demo_backend = (turn, s')"
    by (metis surj_pair)
  have ts: "turn = Inr (Granted demo_grant)" "s' = demo_after"
    using demo_wait t by (auto split: sum.splits turn.splits simp: demo_tick_def)
  have ck: "clock_ok (tk_time (demo_tick (Fin 100)))" by (simp add: demo_tick_def)
  note wt = wait_turn_cases [OF t demo_wf _ ck, unfolded ts]
  have g: "granted [([109], Fin 3)] (Some [110]) (Fin 100) demo_backend demo_after" and wf: "mem_wf demo_after"
    using wt(1) wt(2) [OF _ refl] by (simp_all add: demo_grant_def demo_tick_def)
  have a: "avail demo_backend (Fin 100) 0 = Fin 10"
    by (simp add: avail_def demo_backend_def demo_bucket_def visible_def refilled_def)
  have b: "0 \<in> set (be_buckets demo_backend)"
    "map_of [([109], Fin 3)] (mb_metric (be_heap demo_backend ! 0)) = Some (Fin 3)"
    by (simp_all add: demo_backend_def demo_bucket_def)
  from cancelled_consumption_restores [OF wf _ _ g demo_wf b a] show ?thesis
    by (simp add: a) (simp add: demo_backend_def, blast)
qed

text \<open>
  C35. A granted wait also rewrites the buckets of metrics it does not ask for, and without
  \<^verbatim>\<open>allow_negative\<close>: a bucket in debt whose metric is not in the waiter's usage (a metric that
  a reconfiguration added while the waiter slept) is set back to zero, so its debt is lost.
\<close>

theorem wait_grant_forgives_foreign_debt:
  assumes "wait_turn u rid key dl t w s = (Inr (Granted g), s')" "\<not> gr_replayed g"
    "mem_wf s" "usage_ok u" "clock_ok (tk_time t)" "r \<in> set (be_buckets s)"
    "map_of u (mb_metric (be_heap s ! r)) = None" "avail s (tk_time t) r = Fin c" "c < 0"
  shows "avail s' (tk_time t) r = Fin 0"
proof -
  from wait_turn_cases(2) [OF assms(1,3,4,5) refl] assms(2) have "granted u rid (tk_time t) s s'" by simp
  then show ?thesis using assms(6-9) by (auto simp: granted_def granted_value_def avail_def)
qed

definition debt_bucket :: memory_bucket where
  "debt_bucket = demo_bucket\<lparr>mb_capacity := Some (Fin (- 20)), mb_metric := [107]\<rparr>"

definition debt_backend :: mem_backend where
  "debt_backend = demo_backend\<lparr>be_heap := [demo_bucket, debt_bucket], be_buckets := [0, 1],
     be_registry := [(([109], 60), 0), (([107], 60), 1)], be_usage_metric_names := {[109], [107]}\<rparr>"

lemma debt_wf: "mem_wf debt_backend"
proof -
  have "is_dbl (Fin (- 20))" by simp
  then have "bucket_wf debt_bucket" using demo_bucket_wf
    by (simp add: debt_bucket_def bucket_wf_def demo_bucket_def)
  moreover have i: "mb_id demo_bucket = ([109], 60)" "mb_id debt_bucket = ([107], 60)"
    "mb_metric demo_bucket = [109]" "mb_metric debt_bucket = [107]"
    by (simp_all add: debt_bucket_def demo_bucket_def mb_id_def)
  moreover have "map_of (be_registry debt_backend) k = Some r \<longleftrightarrow>
      r \<in> set (be_buckets debt_backend) \<and> mb_id (be_heap debt_backend ! r) = k" for k r
    using i by (cases "r = 0"; cases "r = 1"; cases k) (auto simp: debt_backend_def)
  moreover have "ledger_wf debt_backend" using demo_wf by (auto simp: mem_wf_def ledger_wf_def debt_backend_def)
  ultimately show ?thesis using demo_bucket_wf unfolding mem_wf_def heap_wf_def
    by (simp add: debt_backend_def insert_commute)
qed

theorem wait_grant_forgives_foreign_debt_witness:
  "\<exists>g s'. wait_turn [([109], Fin 3)] None [110] None (demo_tick (Fin 100)) initial_locals debt_backend =
     (Inr (Granted g), s') \<and> avail debt_backend (Fin 100) 1 = Fin (- 20) \<and> avail s' (Fin 100) 1 = Fin 0"
proof -
  let ?u = "[([109], Fin 3)]"
  have v: "avail debt_backend (Fin 100) 1 = Fin (- 20)"
    by (simp add: avail_def debt_backend_def debt_bucket_def demo_bucket_def visible_def refilled_def)
  have gc: "get_capacities (be_heap debt_backend) (be_buckets debt_backend) (Fin 100) =
      Inr ([(([109], 60), Fin 10), (([107], 60), Fin (- 20))], [])"
    using get_capacities_wf [OF mem_wf_heap [OF debt_wf], of "Fin 100"]
    by (simp add: visible_caps_def fresh_refs_def debt_backend_def debt_bucket_def demo_bucket_def mb_id_def
        visible_def refilled_def)
  have ex: "\<not> exceeds_max debt_backend ?u"
    by (simp add: exceeds_max_def debt_backend_def demo_bucket_def debt_bucket_def)
  then have tc: "try_consume_locked debt_backend ?u [(([109], 60), Fin 10), (([107], 60), Fin (- 20))] =
      Inr (True, [(([109], 60), Fin 7), (([107], 60), Fin (- 20))])"
    by (simp add: try_consume_locked_def ensure_usage_metrics_are_active_def guard_def dict_keys_def insufficient_def)
  obtain turn s' where t: "wait_turn ?u None [110] None (demo_tick (Fin 100)) initial_locals debt_backend = (turn, s')"
    by (metis surj_pair)
  have gl: "\<exists>h. grant_locked ?u None (Fin 100) [(([109], 60), Fin 7), (([107], 60), Fin (- 20))] debt_backend =
      (Inr (), h)"
    by (simp add: grant_locked_def on_heap_def set_capacities_def find_bucket_def record_opt_def op_bind_def
        debt_backend_def demo_backend_def demo_bucket_def debt_bucket_def mb_id_def set_capacity_def)
  then obtain g where g: "turn = Inr (Granted g)" "\<not> gr_replayed g"
    using t gc tc by (auto simp: wait_turn_def replayed_def demo_tick_def op_bind_def op_simps)
  have ck: "clock_ok (tk_time (demo_tick (Fin 100)))" "tk_time (demo_tick (Fin 100)) = Fin 100"
    by (simp_all add: demo_tick_def)
  have r: "1 \<in> set (be_buckets debt_backend)" "map_of ?u (mb_metric (be_heap debt_backend ! 1)) = None"
    by (simp_all add: debt_backend_def debt_bucket_def)
  have "avail s' (Fin 100) 1 = Fin 0"
    using wait_grant_forgives_foreign_debt [OF t [unfolded g(1)] g(2) debt_wf _ ck(1) r] v ck(2) by simp
  with t g(1) v show ?thesis by blast
qed
end
