(* ===== verification/DebtTtl.thy ===== *)
theory DebtTtl
  imports Capacity
begin

text \<open>
  \<^verbatim>\<open>_limiter_backends/_debt_ttl.py\<close>: how long the row of a bucket in debt has to be kept. The
  lemmas bound the rounding of the computation from below and above.
\<close>

definition MAX_STATE_TTL_SECONDS :: int where
  "MAX_STATE_TTL_SECONDS = 2 ^ 31 - 1"

text \<open>The retention in seconds, before the ceiling; an integer operand is converted first.\<close>

definition required_retention :: "pyfloat \<Rightarrow> int \<Rightarrow> pyfloat \<Rightarrow> pyfloat \<Rightarrow> pyfloat result" where
  "required_retention capacity per_seconds max_capacity configured_max_capacity =
     bind_res (fdiv (fneg capacity) (fmin max_capacity configured_max_capacity)) (\<lambda>d.
     bind_res (float_of_int per_seconds) (\<lambda>p.
       Inr (fmul (fadd (Fin 1) d) p)))"

definition debt_ttl_seconds ::
  "pyfloat \<Rightarrow> int \<Rightarrow> int \<Rightarrow> pyfloat \<Rightarrow> pyfloat \<Rightarrow> int result" where
  "debt_ttl_seconds capacity bucket_ttl_seconds per_seconds max_capacity configured_max_capacity =
     (if fle (Fin 0) capacity then Inr bucket_ttl_seconds
      else bind_res (required_retention capacity per_seconds max_capacity configured_max_capacity)
        (\<lambda>required.
          if \<not> isfinite required \<or> flt (Fin (of_int MAX_STATE_TTL_SECONDS)) required
          then Inl (ValueError ''Unpaid capacity debt requires retention longer than'')
          else bind_res (fceil required) (\<lambda>c. Inr (max bucket_ttl_seconds c))))"

section \<open>Rounding of the retention\<close>

text \<open>Numbers below \<open>2^33\<close> are rounded by at most a thousandth.\<close>

lemma rnd_q_small_error:
  assumes "0 \<le> x" "x < 2 ^ 33"
  shows "\<bar>rnd_q x - x\<bar> \<le> 1 / 2 ^ 10"
proof (cases "x = 0")
  case False
  with assms(1) have p: "0 < x" by simp
  have "x < 2 powi 33" using assms(2) by (simp add: power_int_numeral)
  then have "2 powi (ilog2 x) < (2::rat) powi 33" using ilog2_bounds [OF p] by linarith
  then have "ilog2 x < 33" by (rule two_powi_less_cancel)
  then have "ulp_exp x - 1 \<le> - 10" using p by (auto simp: ulp_exp_def)
  then have "(2::rat) powi (ulp_exp x - 1) \<le> 2 powi (- 10)" by (rule two_powi_mono)
  with rnd_q_error [of x] show ?thesis by (simp add: power_int_def power_one_over)
qed simp

lemma rnd_lower:
  assumes "0 \<le> x" "rnd x = Fin y" "y < 2 ^ 33"
  shows "x - 1 / 2 ^ 10 \<le> y"
proof -
  have y: "y = rnd_q x" using assms(2) by (rule rnd_Fin)
  have "x < 2 ^ 33"
  proof (rule ccontr)
    assume "\<not> x < 2 ^ 33"
    then have "of_int (2 ^ 33) \<le> x" by simp
    then have "rnd_q (of_int (2 ^ 33)) \<le> rnd_q x" by (rule rnd_q_mono)
    moreover have "rnd_q (of_int (2 ^ 33)) = of_int (2 ^ 33)" by (rule rnd_q_int) simp
    ultimately show False using y assms(3) by simp
  qed
  from rnd_q_small_error [OF assms(1) this] y show ?thesis by linarith
qed

text \<open>
  The retention pays back the debt, and refills all but a hundredth of the smaller maximum,
  at the rate of the smaller maximum.
\<close>

lemma required_retention_lower:
  assumes "required_retention (Fin c) p (Fin mx) (Fin cfg) = Inr (Fin r)"
    and "c < 0" "0 < min mx cfg" "1 \<le> p" "p \<le> 2 ^ 31" "r \<le> 2 ^ 31"
  shows "(- c / min mx cfg + 99 / 100) * of_int p \<le> r"
proof -
  let ?m = "min mx cfg" and ?p = "rat_of_int p"
  have p: "float_of_int p = Inr (Fin ?p)" using assms(4,5) by (intro float_of_int_small) simp
  have p1: "1 \<le> ?p" using assms(4) by simp
  have nz: "?m \<noteq> 0" using assms(3) by linarith
  have eq: "fmul (fadd (Fin 1) (rnd (- c / ?m))) (Fin ?p) = Fin r"
    using assms(1) nz by (simp only: required_retention_def p fneg.simps fmin_Fin fdiv.simps bind_res.simps if_False sum.inject pyfloat.case)
  have d0: "0 \<le> - c / ?m" using assms(2,3) by (intro divide_nonneg_pos) linarith+
  obtain d where d: "rnd (- c / ?m) = Fin d" "0 \<le> d"
    using eq rnd_nonneg [OF d0] p1 by (cases "rnd (- c / ?m)") (auto simp: inf_of_sign_def)
  have s0: "0 \<le> 1 + d" using d(2) by simp
  obtain s where s: "rnd (1 + d) = Fin s" "0 \<le> s"
    using eq d rnd_nonneg [OF s0] p1 by (cases "rnd (1 + d)") (auto simp: inf_of_sign_def)
  have r: "rnd (s * ?p) = Fin r" using eq d(1) s(1) by simp
  have r1: "s * ?p - 1 / 2 ^ 10 \<le> r" using s(2) p1 r assms(6) by (intro rnd_lower) auto
  have sb: "s \<le> s * ?p" using s(2) p1 by (simp add: mult_le_cancel_left1)
  then have "s < 2 ^ 32" using r1 assms(6) by simp
  then have s1: "1 + d - 1 / 2 ^ 10 \<le> s" using s0 s(1) by (intro rnd_lower) auto
  then have "d < 2 ^ 33" using \<open>s < 2 ^ 32\<close> by simp
  then have d1: "- c / ?m - 1 / 2 ^ 10 \<le> d" using d0 d(1) by (intro rnd_lower) auto
  have "- c / ?m + 1 - 2 / 2 ^ 10 \<le> s" using s1 d1 by simp
  then have "(- c / ?m + 1 - 2 / 2 ^ 10) * ?p \<le> s * ?p" using p1 by (intro mult_right_mono) auto
  moreover have "(- c / ?m + 99 / 100) * ?p \<le> (- c / ?m + 1 - 2 / 2 ^ 10) * ?p - 1 / 2 ^ 10"
    using p1 by (simp add: algebra_simps)
  ultimately show ?thesis using r1 by linarith
qed

lemma debt_ttl_cases:
  assumes "debt_ttl_seconds c ttl p mx cfg = Inr t"
  obtains "fle (Fin 0) c" "t = ttl"
  | r where "\<not> fle (Fin 0) c" "required_retention c p mx cfg = Inr (Fin r)"
      "r \<le> of_int MAX_STATE_TTL_SECONDS" "t = max ttl \<lceil>r\<rceil>"
proof (cases "fle (Fin 0) c")
  case True
  then show ?thesis using assms that(1) by (simp add: debt_ttl_seconds_def)
next
  case False
  with assms obtain a k where a: "required_retention c p mx cfg = Inr a" "isfinite a"
    "\<not> flt (Fin (of_int MAX_STATE_TTL_SECONDS)) a" "fceil a = Inr k" "t = max ttl k"
    by (auto simp: debt_ttl_seconds_def res_simps)
  from a(2) obtain r where r: "a = Fin r" by (auto simp: isfinite_Fin)
  show ?thesis using that(2) [OF False, of r] a r by auto
qed

lemma debt_ttl_ge: "debt_ttl_seconds c ttl p mx cfg = Inr t \<Longrightarrow> ttl \<le> t"
  by (elim debt_ttl_cases) auto

lemma debt_ttl_le: "debt_ttl_seconds c ttl p mx cfg = Inr t \<Longrightarrow> t \<le> max ttl MAX_STATE_TTL_SECONDS"
  by (elim debt_ttl_cases) (auto simp: max_def ceiling_le_iff)

lemma debt_ttl_nonneg_capacity: "fle (Fin 0) c \<Longrightarrow> debt_ttl_seconds c ttl p mx cfg = Inr ttl"
  by (simp add: debt_ttl_seconds_def)

end
