(* ===== verification/SqliteTtl.thy ===== *)
theory SqliteTtl
  imports DebtTtl Models
begin

text \<open>
  \<^verbatim>\<open>_limiter_backends/_sqlite/_ttl.py\<close>: the validators of the time-to-live settings of the
  SQLite backend, and the default lifetime of reservations derived from them.
\<close>

definition RESERVATION_LIFETIME_TTL_SAFETY_MARGIN :: pyfloat where
  "RESERVATION_LIFETIME_TTL_SAFETY_MARGIN = Fin 2"

definition MIN_BUCKET_TTL_WINDOWS :: int where "MIN_BUCKET_TTL_WINDOWS = 2"
definition MAX_SQLITE_TTL_SECONDS :: int where "MAX_SQLITE_TTL_SECONDS = 2 ^ 31 - 1"

definition validate_sqlite_ttl_seconds :: "pyval \<Rightarrow> int result" where
  "validate_sqlite_ttl_seconds value = (case value of
      VInt i \<Rightarrow>
        if i \<le> 0 then Inl (ValueError ''must be greater than 0'')
        else if MAX_SQLITE_TTL_SECONDS < i then Inl (ValueError ''choose a smaller SQLite TTL'')
        else Inr i
    | _ \<Rightarrow> Inl (TypeError ''must be an exact int number of seconds''))"

definition validate_max_reservation_lifetime_seconds :: "pyval \<Rightarrow> pyfloat option result" where
  "validate_max_reservation_lifetime_seconds value =
     (if value = VNone then Inr None
      else if is_bool_like value \<or> \<not> isinstance_int_float value
        then Inl (ValueError ''max_reservation_lifetime_seconds must be finite and greater than 0'')
      else bind_res (py_float value) (\<lambda>f.
        if \<not> isfinite f \<or> fle f (Fin 0)
          then Inl (ValueError ''max_reservation_lifetime_seconds must be finite and greater than 0'')
        else if flt (Fin (of_int MAX_SQLITE_TTL_SECONDS)) f
          then Inl (ValueError ''max_reservation_lifetime_seconds must be <='')
        else Inr (Some f)))"

definition validate_safety_margin :: "pyval \<Rightarrow> pyfloat result" where
  "validate_safety_margin value =
     (if is_bool_like value \<or> \<not> isinstance_int_float value
        then Inl (ValueError ''safety_margin must be greater than 1'')
      else bind_res (py_float value) (\<lambda>f.
        if \<not> isfinite f \<or> fle f (Fin 1)
          then Inl (ValueError ''safety_margin must be greater than 1'') else Inr f))"

definition derive_default_max_reservation_lifetime_seconds_from_ttls ::
  "pyval \<Rightarrow> pyval \<Rightarrow> pyval \<Rightarrow> pyfloat result" where
  "derive_default_max_reservation_lifetime_seconds_from_ttls bucket_ttl refund_ttl safety_margin =
     bind_res (validate_safety_margin safety_margin) (\<lambda>margin.
     bind_res (validate_sqlite_ttl_seconds bucket_ttl) (\<lambda>b.
     bind_res (validate_sqlite_ttl_seconds refund_ttl) (\<lambda>r.
     bind_res (float_of_int (min b r)) (\<lambda>m.
     bind_res (fdiv m margin) (\<lambda>q. Inr (nextafter_zero q))))))"

text \<open>A TTL that does not strictly exceed the required one.\<close>

definition ttl_too_short :: "pyfloat \<Rightarrow> int \<Rightarrow> bool result" where
  "ttl_too_short required ttl = bind_res (float_of_int ttl) (\<lambda>t. Inr (fle t required))"

definition validate_reservation_lifetime_ttl_invariant ::
  "pyval \<Rightarrow> pyval \<Rightarrow> pyval \<Rightarrow> pyval \<Rightarrow> unit result" where
  "validate_reservation_lifetime_ttl_invariant lifetime bucket_ttl refund_ttl safety_margin =
     bind_res (validate_max_reservation_lifetime_seconds lifetime) (\<lambda>l. case l of
       None \<Rightarrow> Inr ()
     | Some max_lifetime \<Rightarrow>
       bind_res (validate_safety_margin safety_margin) (\<lambda>margin.
       bind_res (validate_sqlite_ttl_seconds bucket_ttl) (\<lambda>b.
       bind_res (validate_sqlite_ttl_seconds refund_ttl) (\<lambda>r.
         let required_ttl = fmul max_lifetime margin in
         bind_res (ttl_too_short required_ttl b) (\<lambda>b_short.
         bind_res (ttl_too_short required_ttl r) (\<lambda>r_short.
           guard (\<not> b_short \<and> \<not> r_short) (ValueError ''SQLite TTLs must exceed'')))))))"

definition resolve_max_reservation_lifetime_seconds_from_ttls ::
  "pyval \<Rightarrow> pyval \<Rightarrow> pyval \<Rightarrow> pyval \<Rightarrow> pyfloat result" where
  "resolve_max_reservation_lifetime_seconds_from_ttls lifetime bucket_ttl refund_ttl safety_margin =
     bind_res (validate_max_reservation_lifetime_seconds lifetime) (\<lambda>l. case l of
       None \<Rightarrow> derive_default_max_reservation_lifetime_seconds_from_ttls bucket_ttl refund_ttl safety_margin
     | Some max_lifetime \<Rightarrow>
       bind_res (validate_reservation_lifetime_ttl_invariant (VFloat max_lifetime) bucket_ttl refund_ttl
           safety_margin) (\<lambda>_. Inr max_lifetime))"

definition validate_bucket_ttl_covers_quota_windows :: "int \<Rightarrow> quota list \<Rightarrow> unit result" where
  "validate_bucket_ttl_covers_quota_windows bucket_ttl quotas =
     guard (list_all (\<lambda>q. MIN_BUCKET_TTL_WINDOWS * q_per_seconds q \<le> bucket_ttl) quotas)
       (ValueError ''bucket_ttl_seconds must be >= 2 * every per_seconds'')"

section \<open>Lemmas\<close>

lemma validate_sqlite_ttl_Inr:
  "validate_sqlite_ttl_seconds v = Inr i \<longleftrightarrow> v = VInt i \<and> 0 < i \<and> i \<le> MAX_SQLITE_TTL_SECONDS"
  by (auto simp: validate_sqlite_ttl_seconds_def split: pyval.split)

lemma float_of_ttl:
  "0 < i \<Longrightarrow> i \<le> MAX_SQLITE_TTL_SECONDS \<Longrightarrow> float_of_int i = Inr (Fin (of_int i))"
  by (rule float_of_int_small) (simp add: MAX_SQLITE_TTL_SECONDS_def)

lemma validate_safety_margin_default [simp]:
  "validate_safety_margin (VFloat (Fin 2)) = Inr (Fin 2)"
  by (simp add: validate_safety_margin_def type_tests)

lemma validate_lifetime_VFloat:
  "validate_max_reservation_lifetime_seconds (VFloat (Fin q)) = Inr (Some f) \<longleftrightarrow>
     f = Fin q \<and> 0 < q \<and> q \<le> of_int MAX_SQLITE_TTL_SECONDS"
  by (auto simp: validate_max_reservation_lifetime_seconds_def type_tests)

section \<open>The float below half a TTL\<close>

lemma rnd_grid:
  assumes "\<bar>k\<bar> \<le> 2 ^ 53" "- 1074 \<le> e" "e \<le> 900"
  shows "rnd (of_int k * 2 powi e) = Fin (of_int k * 2 powi e)"
proof -
  let ?x = "of_int k * (2::rat) powi e"
  have "\<bar>?x\<bar> = of_int \<bar>k\<bar> * 2 powi e" by (simp add: abs_mult)
  also have "\<dots> \<le> of_int (2 ^ 53) * 2 powi e"
    using assms(1) by (intro mult_right_mono) (simp_all only: of_int_le_iff two_powi_pos less_imp_le)
  also have "\<dots> = 2 powi (53 + e)" by (simp add: two_powi_add power_int_numeral)
  also have "\<dots> < 2 powi 1024" using assms(3) by (intro two_powi_less) simp
  finally have b: "\<bar>?x\<bar> < 2 powi 1024" .
  have r: "rnd_q ?x = ?x" using assms(1,2) by (rule rnd_q_grid)
  from b have "\<not> 2 powi 1024 \<le> ?x" "\<not> ?x \<le> - (2 powi 1024)" by linarith+
  then show ?thesis by (simp only: rnd_def r Let_def if_False)
qed

text \<open>The last place \<open>pred_q\<close> moves by: below it a number of 53 bits remains.\<close>

lemma pred_q_place:
  assumes "1 / 2 \<le> q" "q < 2 ^ 31"
  obtains e where "pred_q q = q - 2 powi e" "- 54 \<le> e" "e \<le> - 22" "q \<le> 2 powi (53 + e)"
proof -
  from assms(1) have p: "0 < q" by simp
  note b = ilog2_bounds [OF p]
  have "2 powi (- 1) \<le> q" using assms(1) by (simp add: power_int_def)
  then have lo: "- 1 \<le> ilog2 q" using b two_powi_less_cancel [of "- 1" "ilog2 q + 1"] by linarith
  have "q < 2 powi 31" using assms(2) by (simp add: power_int_numeral)
  then have hi: "ilog2 q < 31" using b two_powi_less_cancel [of "ilog2 q" 31] by linarith
  have u: "ulp_exp q = ilog2 q - 52" using lo p by (simp add: ulp_exp_def)
  show ?thesis
  proof (cases "q = 2 powi (ilog2 q)")
    case True
    then have "pred_q q = q - 2 powi (ilog2 q - 53)"
      using lo u by (simp add: pred_q_def Let_def)
    moreover have "q \<le> 2 powi (53 + (ilog2 q - 53))" using True by simp
    ultimately show ?thesis using that lo hi by auto
  next
    case False
    then have "pred_q q = q - 2 powi (ilog2 q - 52)" using u by (simp add: pred_q_def Let_def)
    moreover have "q \<le> 2 powi (53 + (ilog2 q - 52))" using b by (simp add: add.commute)
    ultimately show ?thesis using that lo hi by auto
  qed
qed

lemma derived_half:
  assumes "0 < t" "t \<le> MAX_SQLITE_TTL_SECONDS"
  obtains d where "fdiv (Fin (of_int t)) (Fin 2) = Inr (Fin (of_int t / 2))"
    "nextafter_zero (Fin (of_int t / 2)) = Fin d"
    "0 < d" "2 * d < of_int t" "rnd (2 * d) = Fin (2 * d)"
proof -
  let ?q = "rat_of_int t / 2"
  have h: "rnd ?q = Fin ?q"
    using rnd_grid [of t "- 1"] assms by (simp add: power_int_def MAX_SQLITE_TTL_SECONDS_def)
  have t: "rat_of_int 1 \<le> of_int t" "rat_of_int t \<le> of_int (2 ^ 31 - 1)"
    using assms by (simp_all only: of_int_le_iff MAX_SQLITE_TTL_SECONDS_def)
  then have q: "1 / 2 \<le> ?q" "?q < 2 ^ 31" by simp_all
  from pred_q_place [OF q] obtain e where e: "pred_q ?q = ?q - 2 powi e" "- 54 \<le> e" "e \<le> - 22"
    "?q \<le> 2 powi (53 + e)" .
  have n: "nextafter_zero (Fin ?q) = Fin (?q - 2 powi e)"
    using assms(1) e(1) by (simp add: nextafter_zero_def)
  have "(2::rat) powi e \<le> 2 powi (- 22)" using e(3) by (rule two_powi_mono)
  then have small: "(2::rat) powi e < 1 / 2" by (simp add: power_int_def power_one_over)
  define m where "m = nat (- (e + 1))"
  have me: "- (e + 1) = int m" using e(3) by (simp add: m_def)
  have tm: "rat_of_int t = of_int (t * 2 ^ m) * 2 powi (e + 1)"
  proof -
    have "e + 1 = - int m" using me by simp
    then show ?thesis by (simp add: powi_neg_nat)
  qed
  have two: "2 * (2::rat) powi e = 2 powi (e + 1)" using two_powi_add [of 1 e] by (simp add: add.commute)
  have k: "2 * (?q - 2 powi e) = of_int (t * 2 ^ m - 1) * 2 powi (e + 1)"
  proof -
    have "of_int (t * 2 ^ m - 1) * 2 powi (e + 1) = of_int (t * 2 ^ m) * 2 powi (e + 1) - (2::rat) powi (e + 1)"
      by (simp only: of_int_diff of_int_1 left_diff_distrib mult_1)
    also have "\<dots> = of_int t - 2 * 2 powi e" by (simp only: tm [symmetric] two)
    finally show ?thesis by simp
  qed
  have "of_int (t * 2 ^ m) * 2 powi (e + 1) \<le> 2 * (2::rat) powi (53 + e)"
    unfolding tm [symmetric] using e(4) by linarith
  also have "\<dots> = of_int (2 ^ 53) * 2 powi (e + 1)"
    using two by (simp add: two_powi_add power_int_numeral algebra_simps)
  finally have "rat_of_int (t * 2 ^ m) \<le> of_int (2 ^ 53)"
    by (rule mult_right_le_imp_le) simp
  then have "t * 2 ^ m \<le> 2 ^ 53" by (simp only: of_int_le_iff)
  moreover have "1 \<le> t * 2 ^ m" using assms(1) by (simp add: int_one_le_iff_zero_less)
  ultimately have "\<bar>t * 2 ^ m - 1\<bar> \<le> 2 ^ 53" by linarith
  then have g: "rnd (2 * (?q - 2 powi e)) = Fin (2 * (?q - 2 powi e))"
    unfolding k using e(2,3) by (intro rnd_grid) auto
  show ?thesis
  proof (rule that [OF _ n _ _ g])
    show "fdiv (Fin (of_int t)) (Fin 2) = Inr (Fin ?q)" using h by simp
    show "0 < ?q - 2 powi e" using q(1) small by linarith
    have "(0::rat) < 2 powi e" by simp
    then show "2 * (?q - 2 powi e) < of_int t" by (simp add: right_diff_distrib)
  qed
qed

text \<open>An accepted TTL really exceeds the product, although the product was rounded.\<close>

lemma ttl_not_short:
  assumes "ttl_too_short (fmul (Fin l) (Fin m)) b = Inr False" "0 < b" "b \<le> MAX_SQLITE_TTL_SECONDS"
  shows "l * m < of_int b"
proof (rule ccontr)
  assume "\<not> l * m < of_int b"
  then have "fle (rnd (of_int b)) (rnd (l * m))" by (intro rnd_mono) simp
  moreover have "rnd (of_int b) = Fin (of_int b)"
    using assms(2,3) by (intro rnd_int) (simp add: MAX_SQLITE_TTL_SECONDS_def)
  ultimately show False using assms by (simp add: ttl_too_short_def float_of_ttl)
qed

end
