(* ===== verification/TtlCorrect.thy ===== *)
theory TtlCorrect
  imports SqliteTtl
begin

text \<open>
  Properties of the time-to-live arithmetic: how long debt is retained, which reservation
  lifetimes the settings admit, and that the derived default is one of them.
\<close>

text \<open>
  C36. The retention of a bucket in debt covers its repayment: after the seconds returned,
  refilling at the rate of the smaller of the two maxima has paid back the whole debt and
  refilled all but a hundredth of a window's worth; the retention is never shorter than the
  configured lifetime and never longer than the largest of it and \<open>2^31 - 1\<close>.
\<close>

theorem debt_retention_covers_repayment:
  assumes "debt_ttl_seconds (Fin c) ttl p (Fin mx) (Fin cfg) = Inr t"
    and "c < 0" "0 < min mx cfg" "1 \<le> p" "p \<le> 2 ^ 31"
  shows "99 / 100 * min mx cfg \<le> c + of_int t * (min mx cfg / of_int p) \<and>
    ttl \<le> t \<and> t \<le> max ttl (2 ^ 31 - 1)"
proof -
  let ?m = "min mx cfg" and ?p = "rat_of_int p"
  from assms(1,2) obtain r where r: "required_retention (Fin c) p (Fin mx) (Fin cfg) = Inr (Fin r)"
    "r \<le> of_int MAX_STATE_TTL_SECONDS" "t = max ttl \<lceil>r\<rceil>"
    by (elim debt_ttl_cases) auto
  have "r \<le> 2 ^ 31" using r(2) by (simp add: MAX_STATE_TTL_SECONDS_def)
  then have lo: "(- c / ?m + 99 / 100) * ?p \<le> r"
    using r(1) assms by (intro required_retention_lower)
  have "r \<le> of_int \<lceil>r\<rceil>" by simp
  also have "\<dots> \<le> of_int t" using r(3) by simp
  finally have "(- c / ?m + 99 / 100) * ?p \<le> of_int t" using lo by linarith
  moreover have "0 < ?m / ?p" using assms(3,4) by (intro divide_pos_pos) auto
  ultimately have "(- c / ?m + 99 / 100) * ?p * (?m / ?p) \<le> of_int t * (?m / ?p)"
    by (intro mult_right_mono) auto
  moreover have "(- c / ?m + 99 / 100) * ?p * (?m / ?p) = - c + 99 / 100 * ?m"
  proof -
    have "?m \<noteq> 0" "?p \<noteq> 0" using assms(3,4) by linarith+
    then have "(x / ?m + y) * ?p * (?m / ?p) = x + y * ?m" for x y by (simp add: field_simps)
    from this [of "- c" "99 / 100"] show ?thesis by simp
  qed
  ultimately have "99 / 100 * ?m \<le> c + of_int t * (?m / ?p)" by linarith
  then show ?thesis using debt_ttl_ge [OF assms(1)] debt_ttl_le [OF assms(1)]
    by (simp add: MAX_STATE_TTL_SECONDS_def)
qed

theorem debt_retention_covers_repayment_witness:
  "debt_ttl_seconds (Fin (- 30)) 60 60 (Fin 10) (Fin 20) = Inr 240 \<and>
   99 / 100 * min 10 20 \<le> (- 30) + of_int 240 * (min 10 20 / rat_of_int 60)"
proof -
  have e: "debt_ttl_seconds (Fin (- 30)) 60 60 (Fin 10) (Fin 20) = Inr 240"
    by (simp add: debt_ttl_seconds_def required_retention_def float_of_int_small [of 60, simplified]
        MAX_STATE_TTL_SECONDS_def)
  show ?thesis using e debt_retention_covers_repayment [OF e] by simp
qed

text \<open>
  When the bucket lifetime covers two windows of every quota, the debt a consumption can
  leave (down to minus the maximum, with no lower configured limit) is retained exactly for
  the configured lifetime: it is never extended and never refused.
\<close>

theorem ordinary_debt_needs_no_extension:
  assumes "validate_bucket_ttl_covers_quota_windows ttl quotas = Inr ()" "q \<in> set quotas"
    and "1 \<le> q_per_seconds q" "ttl \<le> MAX_SQLITE_TTL_SECONDS"
    and "0 < mx" "mx \<le> cfg" "- mx \<le> c"
  shows "debt_ttl_seconds (Fin c) ttl (q_per_seconds q) (Fin mx) (Fin cfg) = Inr ttl"
proof (cases "0 \<le> c")
  case False
  let ?p = "q_per_seconds q"
  from assms(1,2) have w: "2 * ?p \<le> ttl"
    by (auto simp: validate_bucket_ttl_covers_quota_windows_def list_all_iff MIN_BUCKET_TTL_WINDOWS_def)
  have pb: "\<bar>?p\<bar> \<le> 2 ^ 53" "\<bar>2 * ?p\<bar> \<le> 2 ^ 53"
    using w assms(3,4) by (simp_all add: MAX_SQLITE_TTL_SECONDS_def)
  then have p: "float_of_int ?p = Inr (Fin (of_int ?p))" by (intro float_of_int_small)
  have m: "min mx cfg = mx" "mx \<noteq> 0" using assms(5,6) by simp_all
  have d0: "0 \<le> - c / mx" "- c / mx \<le> 1" using False assms(5,7) by (simp_all add: field_simps)
  obtain d where d: "rnd (- c / mx) = Fin d" "0 \<le> d" "d \<le> 1"
    using rnd_between [OF d0] is_dbl_int [of 0] is_dbl_int [of 1] by auto
  have s0: "0 \<le> 1 + d" "1 + d \<le> 2" using d by simp_all
  obtain s where s: "rnd (1 + d) = Fin s" "0 \<le> s" "s \<le> 2"
    using rnd_between [OF s0] by auto
  have p1: "1 \<le> rat_of_int ?p" using assms(3) by simp
  have r0: "0 \<le> s * of_int ?p" "s * of_int ?p \<le> of_int (2 * ?p)"
    using s p1 by (simp_all add: mult_right_mono)
  obtain r where r: "rnd (s * of_int ?p) = Fin r" "0 \<le> r" "r \<le> of_int (2 * ?p)"
    using rnd_between [OF r0] is_dbl_int [OF pb(2)] by auto
  have "required_retention (Fin c) ?p (Fin mx) (Fin cfg) = Inr (Fin r)"
    using m d(1) s(1) r(1) p by (simp add: required_retention_def)
  moreover have rt: "r \<le> of_int ttl" using r(3) w by (meson of_int_le_iff order_trans)
  moreover have "rat_of_int ttl \<le> of_int MAX_STATE_TTL_SECONDS"
    using assms(4) by (simp only: of_int_le_iff MAX_STATE_TTL_SECONDS_def MAX_SQLITE_TTL_SECONDS_def)
  moreover from rt have "max ttl \<lceil>r\<rceil> = ttl" by (simp add: ceiling_le_iff)
  ultimately show ?thesis using False by (simp add: debt_ttl_seconds_def)
qed (simp add: debt_ttl_nonneg_capacity)

text \<open>
  Every lifetime the resolver returns under the default margin, explicit or derived, is
  positive and strictly below half of both TTLs, in exact arithmetic.
\<close>

theorem resolved_lifetime_below_half_ttl:
  assumes "resolve_max_reservation_lifetime_seconds_from_ttls v vb vr
      (VFloat RESERVATION_LIFETIME_TTL_SAFETY_MARGIN) = Inr l"
  shows "\<exists>q b r. l = Fin q \<and> vb = VInt b \<and> vr = VInt r \<and> 0 < q \<and> 2 * q < of_int b \<and> 2 * q < of_int r"
proof -
  note marg = RESERVATION_LIFETIME_TTL_SAFETY_MARGIN_def
  from assms obtain w where w: "validate_max_reservation_lifetime_seconds v = Inr w"
    by (auto simp: resolve_max_reservation_lifetime_seconds_from_ttls_def res_simps)
  show ?thesis
  proof (cases w)
    case None
    with assms w obtain b r q where b: "vb = VInt b" "0 < b" "b \<le> MAX_SQLITE_TTL_SECONDS"
      and r: "vr = VInt r" "0 < r" "r \<le> MAX_SQLITE_TTL_SECONDS"
      and q: "float_of_int (min b r) = Inr q" "bind_res (fdiv q (Fin 2)) (\<lambda>d. Inr (nextafter_zero d)) = Inr l"
      by (auto simp: resolve_max_reservation_lifetime_seconds_from_ttls_def
          derive_default_max_reservation_lifetime_seconds_from_ttls_def marg res_simps validate_sqlite_ttl_Inr)
    have m: "0 < min b r" "min b r \<le> MAX_SQLITE_TTL_SECONDS" using b r by auto
    from derived_half [OF m] obtain d where
      d: "fdiv (Fin (of_int (min b r))) (Fin 2) = Inr (Fin (of_int (min b r) / 2))"
      "nextafter_zero (Fin (of_int (min b r) / 2)) = Fin d" "0 < d" "2 * d < of_int (min b r)"
      "rnd (2 * d) = Fin (2 * d)" .
    from q float_of_ttl [OF m] d(1,2) have "l = Fin d" by simp
    then show ?thesis using b(1) r(1) d(3,4) by auto
  next
    case (Some f)
    with assms w have l: "l = f" and
      iv: "validate_reservation_lifetime_ttl_invariant (VFloat f) vb vr (VFloat (Fin 2)) = Inr ()"
      by (auto simp: resolve_max_reservation_lifetime_seconds_from_ttls_def marg res_simps)
    have "isfinite f \<and> \<not> fle f (Fin 0)"
      using w Some by (auto simp: validate_max_reservation_lifetime_seconds_def res_simps split: if_splits)
    then obtain q where f: "f = Fin q" "0 < q" by (auto simp: isfinite_Fin)
    from iv f obtain b r where b: "vb = VInt b" "0 < b" "b \<le> MAX_SQLITE_TTL_SECONDS"
      and r: "vr = VInt r" "0 < r" "r \<le> MAX_SQLITE_TTL_SECONDS"
      and "ttl_too_short (fmul (Fin q) (Fin 2)) b = Inr False" "ttl_too_short (fmul (Fin q) (Fin 2)) r = Inr False"
      by (auto simp: validate_reservation_lifetime_ttl_invariant_def res_simps validate_sqlite_ttl_Inr
          validate_max_reservation_lifetime_seconds_def type_tests Let_def split: if_splits)
    then have "q * 2 < of_int b" "q * 2 < of_int r" using b r by (simp_all add: ttl_not_short)
    then show ?thesis using b(1) r(1) f l by (auto simp: mult.commute)
  qed
qed

theorem resolved_lifetime_below_half_ttl_witness:
  "resolve_max_reservation_lifetime_seconds_from_ttls (VInt 10) (VInt 100) (VInt 80) (VFloat (Fin 2))
     = Inr (Fin 10) \<and> 2 * 10 < rat_of_int 80"
proof -
  have e: "resolve_max_reservation_lifetime_seconds_from_ttls (VInt 10) (VInt 100) (VInt 80)
     (VFloat RESERVATION_LIFETIME_TTL_SAFETY_MARGIN) = Inr (Fin 10)"
    by (simp add: resolve_max_reservation_lifetime_seconds_from_ttls_def
        validate_max_reservation_lifetime_seconds_def type_tests MAX_SQLITE_TTL_SECONDS_def
        float_of_int_small [of 10, simplified] float_of_int_small [of 80, simplified]
        float_of_int_small [of 100, simplified]
        validate_reservation_lifetime_ttl_invariant_def validate_sqlite_ttl_seconds_def
        RESERVATION_LIFETIME_TTL_SAFETY_MARGIN_def ttl_too_short_def guard_def)
  show ?thesis using e resolved_lifetime_below_half_ttl [OF e]
    by (simp add: RESERVATION_LIFETIME_TTL_SAFETY_MARGIN_def)
qed

theorem ordinary_debt_needs_no_extension_witness:
  "debt_ttl_seconds (Fin (- 10)) 120 60 (Fin 10) (Fin 10) = Inr 120"
  using ordinary_debt_needs_no_extension
    [of 120 "[\<lparr>q_metric = ps ''tokens'', q_limit = Fin 10, q_per_seconds = 60\<rparr>]"
        "\<lparr>q_metric = ps ''tokens'', q_limit = Fin 10, q_per_seconds = 60\<rparr>" 10 10 "- 10"]
  by (simp add: validate_bucket_ttl_covers_quota_windows_def MIN_BUCKET_TTL_WINDOWS_def
      MAX_SQLITE_TTL_SECONDS_def guard_def)

text \<open>
  Under the default margin of 2 the derived default never rejects itself: for all valid
  TTLs the lifetime derived from them passes the strict TTL invariant they are checked with.
\<close>

theorem derived_default_accepted:
  assumes "0 < b" "b \<le> MAX_SQLITE_TTL_SECONDS" "0 < r" "r \<le> MAX_SQLITE_TTL_SECONDS"
  shows "\<exists>d. derive_default_max_reservation_lifetime_seconds_from_ttls (VInt b) (VInt r)
        (VFloat RESERVATION_LIFETIME_TTL_SAFETY_MARGIN) = Inr d \<and>
    validate_reservation_lifetime_ttl_invariant (VFloat d) (VInt b) (VInt r)
        (VFloat RESERVATION_LIFETIME_TTL_SAFETY_MARGIN) = Inr ()"
proof -
  note marg = RESERVATION_LIFETIME_TTL_SAFETY_MARGIN_def
  have m: "0 < min b r" "min b r \<le> MAX_SQLITE_TTL_SECONDS" using assms by auto
  from derived_half [OF m] obtain d where
    d: "fdiv (Fin (of_int (min b r))) (Fin 2) = Inr (Fin (of_int (min b r) / 2))"
    "nextafter_zero (Fin (of_int (min b r) / 2)) = Fin d" "0 < d" "2 * d < of_int (min b r)"
    "rnd (2 * d) = Fin (2 * d)" .
  have v: "validate_sqlite_ttl_seconds (VInt b) = Inr b" "validate_sqlite_ttl_seconds (VInt r) = Inr r"
    using assms by (simp_all add: validate_sqlite_ttl_Inr)
  have "derive_default_max_reservation_lifetime_seconds_from_ttls (VInt b) (VInt r) (VFloat (Fin 2))
      = Inr (Fin d)"
    using d(1,2) float_of_ttl [OF m] v
    by (simp add: derive_default_max_reservation_lifetime_seconds_from_ttls_def)
  moreover have "validate_reservation_lifetime_ttl_invariant (VFloat (Fin d)) (VInt b) (VInt r)
      (VFloat (Fin 2)) = Inr ()"
  proof -
    have mx: "rat_of_int (min b r) \<le> of_int MAX_SQLITE_TTL_SECONDS" using m(2) by (simp only: of_int_le_iff)
    have "d \<le> of_int MAX_SQLITE_TTL_SECONDS" using d(3,4) mx by linarith
    then have l: "validate_max_reservation_lifetime_seconds (VFloat (Fin d)) = Inr (Some (Fin d))"
      using d(3) by (simp add: validate_lifetime_VFloat)
    have "rat_of_int (min b r) \<le> of_int b" "rat_of_int (min b r) \<le> of_int r" by simp_all
    then have "2 * d < of_int b" "2 * d < of_int r" using d(4) by linarith+
    moreover have "rnd (d * 2) = Fin (2 * d)" using d(5) by (simp add: mult.commute)
    ultimately show ?thesis using l v assms
      by (simp add: validate_reservation_lifetime_ttl_invariant_def ttl_too_short_def float_of_ttl guard_def)
  qed
  ultimately show ?thesis unfolding marg by blast
qed

theorem derived_default_accepted_witness:
  "\<exists>d. derive_default_max_reservation_lifetime_seconds_from_ttls (VInt 604800) (VInt 604800)
        (VFloat RESERVATION_LIFETIME_TTL_SAFETY_MARGIN) = Inr d \<and>
    validate_reservation_lifetime_ttl_invariant (VFloat d) (VInt 604800) (VInt 604800)
        (VFloat RESERVATION_LIFETIME_TTL_SAFETY_MARGIN) = Inr ()"
  using derived_default_accepted [of 604800 604800] by (simp add: MAX_SQLITE_TTL_SECONDS_def)

text \<open>
  The guarantee does not extend to every admissible margin: with a margin of 5 the default
  derived from TTLs of 37 seconds is the float below \<open>37/5\<close>, five times which rounds back to 37,
  and the invariant rejects it.
\<close>

theorem derived_default_can_reject_itself:
  "\<exists>d. validate_safety_margin (VFloat (Fin 5)) = Inr (Fin 5) \<and>
    derive_default_max_reservation_lifetime_seconds_from_ttls (VInt 37) (VInt 37) (VFloat (Fin 5)) = Inr d \<and>
    validate_reservation_lifetime_ttl_invariant (VFloat d) (VInt 37) (VInt 37) (VFloat (Fin 5))
      = Inl (ValueError ''SQLite TTLs must exceed'')"
proof -
  let ?q = "8331659310635418 * 2 powi (- 50) :: rat" and ?d = "8331659310635417 * 2 powi (- 50) :: rat"
  have q: "rnd (37 / 5) = Fin ?q"
  proof -
    have "rnd (37 / 5) = Fin (of_int 8331659310635418 * 2 powi (- 50))"
      by (rule rnd_eqI) (simp_all add: power_int_def power_one_over)
    then show ?thesis by simp
  qed
  have pv: "?q = 8331659310635418 / 1125899906842624" "?d = 8331659310635417 / 1125899906842624"
    by (simp_all add: power_int_def power_one_over)
  have il: "ilog2 ?q = 2" unfolding pv by (intro ilog2_unique) simp_all
  have u: "ulp_exp ?q = - 50" using il unfolding pv by (simp add: ulp_exp_def)
  have "pred_q ?q = ?q - 2 powi (- 50)"
    unfolding pred_q_def u il Let_def unfolding pv by simp
  then have "pred_q ?q = ?d" by simp
  then have n: "nextafter_zero (Fin ?q) = Fin ?d" by (simp add: nextafter_zero_def)
  have r: "rnd (?d * 5) = Fin 37"
  proof -
    have "rnd (?d * 5) = Fin (of_int 5207287069147136 * 2 powi (- 47))"
      unfolding pv by (rule rnd_eqI) (simp_all add: power_int_def power_one_over)
    then show ?thesis by (simp add: power_int_def power_one_over)
  qed
  have f9: "float_of_int 37 = Inr (Fin 37)" using float_of_int_small [of 37] by simp
  have ttl: "validate_sqlite_ttl_seconds (VInt 37) = Inr 37"
    by (simp add: validate_sqlite_ttl_Inr MAX_SQLITE_TTL_SECONDS_def)
  have mg: "validate_safety_margin (VFloat (Fin 5)) = Inr (Fin 5)"
    by (simp add: validate_safety_margin_def type_tests)
  have l: "validate_max_reservation_lifetime_seconds (VFloat (Fin ?d)) = Inr (Some (Fin ?d))"
    unfolding validate_lifetime_VFloat pv by (simp add: MAX_SQLITE_TTL_SECONDS_def)
  have "derive_default_max_reservation_lifetime_seconds_from_ttls (VInt 37) (VInt 37) (VFloat (Fin 5)) = Inr (Fin ?d)"
    using q n f9 ttl mg by (simp add: derive_default_max_reservation_lifetime_seconds_from_ttls_def)
  moreover have "validate_reservation_lifetime_ttl_invariant (VFloat (Fin ?d)) (VInt 37) (VInt 37) (VFloat (Fin 5))
      = Inl (ValueError ''SQLite TTLs must exceed'')"
    using r f9 ttl mg l
    by (simp add: validate_reservation_lifetime_ttl_invariant_def ttl_too_short_def guard_def)
  ultimately show ?thesis using mg by blast
qed

end
