(* ===== verification/SqliteEngine.thy ===== *)
theory SqliteEngine
  imports DebtTtl Models
begin

text \<open>
  \<^verbatim>\<open>_limiter_backends/_sqlite/_engine.py\<close>: the transaction engine of the SQLite backends. The
  database is a record of tables, each a dictionary from the primary key to the other
  columns, in row order; several engines may share one database. A method is an operation on
  the pair of engine and database. What the clocks, the lock and SQLite itself do during a
  transaction is a record of observations (\<open>txn_env\<close>): of SQLite's own failures those of
  \<^verbatim>\<open>BEGIN\<close> and \<^verbatim>\<open>COMMIT\<close>, not of a statement between them, where only the checks of this
  code raise. The order in which a \<^verbatim>\<open>LIMIT\<close>ed scan visits the rows, which SQLite leaves
  open, is a parameter.

  Logging is left out. The text that \<^verbatim>\<open>json.dumps\<close> produces is only ever compared for
  equality, so it is kept as the document it denotes.
\<close>

section \<open>Tables\<close>

type_synonym capacities = "(bucket_id, pyfloat) dict"

datatype json = JStr pystr | JInt int | JFloat pyfloat | JList "json list"

text \<open>Key prefix, model family, metric and window; key prefix and reservation id.\<close>

type_synonym bucket_key = "pystr \<times> pystr \<times> pystr \<times> int"
type_synonym reservation_key = "pystr \<times> pystr"

record bucket_row =
  row_capacity :: "pyfloat option"
  row_last_checked :: "pyfloat option"
  row_override_value :: "pyfloat option"
  row_override_expires_at :: "pyfloat option"
  row_override_configured_max :: "pyfloat option"
  row_updated_at :: pyfloat
  row_expires_at :: pyfloat

record marker_row =
  mk_model_family :: pystr
  mk_bucket_ids_json :: json
  mk_reserved_usage_json :: json
  mk_created_at :: pyfloat
  mk_expires_at :: pyfloat

record tombstone_row =
  tb_refunded_at :: pyfloat
  tb_expires_at :: pyfloat

record sqlite_db =
  db_schema_version :: "pystr option"
  db_buckets :: "(bucket_key, bucket_row) dict"
  db_markers :: "(reservation_key, marker_row) dict"
  db_tombstones :: "(reservation_key, tombstone_row) dict"

definition SCHEMA_VERSION :: pystr where "SCHEMA_VERSION = ps ''2''"

definition LEGACY_SCHEMA_VERSION_WITHOUT_OVERRIDE_ANCHOR :: pystr where
  "LEGACY_SCHEMA_VERSION_WITHOUT_OVERRIDE_ANCHOR = ps ''1''"

definition FUTURE_LAST_CHECKED_REPAIR_TOLERANCE_SECONDS :: pyfloat where
  "FUTURE_LAST_CHECKED_REPAIR_TOLERANCE_SECONDS = Fin 1"

text \<open>\<^verbatim>\<open>UPDATE ... WHERE\<close> the primary key equals \<open>k\<close>, and a plain \<^verbatim>\<open>INSERT\<close>.\<close>

definition table_update :: "'k \<Rightarrow> ('r \<Rightarrow> 'r) \<Rightarrow> ('k, 'r) dict \<Rightarrow> ('k, 'r) dict" where
  "table_update k f t = map (\<lambda>(k', r). (k', if k' = k then f r else r)) t"

definition table_insert :: "'k \<Rightarrow> 'r \<Rightarrow> ('k, 'r) dict \<Rightarrow> ('k, 'r) dict result" where
  "table_insert k r t =
     (if k \<in> set (dict_keys t) then Inl (SqliteError ''UNIQUE constraint failed'') else Inr (t @ [(k, r)]))"

text \<open>A negative \<^verbatim>\<open>LIMIT\<close> is no limit.\<close>

definition limit_rows :: "int \<Rightarrow> 'a list \<Rightarrow> 'a list" where
  "limit_rows n xs = (if n < 0 then xs else take (nat n) xs)"

text \<open>
  \<^verbatim>\<open>DELETE FROM t WHERE rowid IN (SELECT rowid FROM t WHERE P LIMIT n)\<close>, the rows visited in
  the order \<open>scan\<close> puts the keys.
\<close>

definition delete_batch ::
  "('k list \<Rightarrow> 'k list) \<Rightarrow> ('r \<Rightarrow> bool) \<Rightarrow> int \<Rightarrow> ('k, 'r) dict \<Rightarrow> ('k, 'r) dict" where
  "delete_batch scan P n t =
     (let victims = limit_rows n (filter (\<lambda>k. case map_of t k of Some r \<Rightarrow> P r | None \<Rightarrow> False)
                                    (scan (dict_keys t)))
      in filter (\<lambda>(k, r). k \<notin> set victims) t)"

record scan_order =
  so_reservations :: "reservation_key list \<Rightarrow> reservation_key list"
  so_buckets :: "bucket_key list \<Rightarrow> bucket_key list"

section \<open>Data classes\<close>

record bucket_spec =
  sp_metric :: pystr
  sp_per_seconds :: int
  sp_configured_max :: pyfloat

definition spec_id :: "bucket_spec \<Rightarrow> bucket_id" where
  "spec_id sp = (sp_metric sp, sp_per_seconds sp)"

record missing_state_event =
  me_bucket_id :: bucket_id
  me_reason :: string
  me_missing_fields :: "string list"
  me_present_fields :: "string list"

record capacity_result =
  cr_time :: pyfloat
  cr_pre :: capacities
  cr_post :: capacities
  cr_max :: capacities
  cr_fresh :: "bucket_id list"
  cr_replayed :: bool
  cr_missing :: "missing_state_event list"

record refund_result =
  rr_time :: pyfloat
  rr_pre :: capacities
  rr_post :: capacities
  rr_refunded :: usage
  rr_fresh :: "bucket_id list"
  rr_missing :: "missing_state_event list"

record bucket_state =
  bs_spec :: bucket_spec
  bs_capacity :: pyfloat
  bs_uncapped :: pyfloat
  bs_max :: pyfloat
  bs_override_active :: bool
  bs_fresh :: bool
  bs_missing :: "missing_state_event option"

type_synonym bucket_states = "(bucket_id, bucket_state) dict"

record bucket_snapshot =
  sn_spec :: bucket_spec
  sn_current_capacity :: pyfloat
  sn_effective_max :: pyfloat
  sn_override_active :: bool
  sn_fresh :: bool
  sn_missing :: "missing_state_event option"

text \<open>\<^verbatim>\<open>sorted(bucket_ids)\<close> and \<^verbatim>\<open>sorted(usage.items())\<close>; the keys of a usage are distinct.\<close>

definition bucket_ids_json :: "bucket_id set \<Rightarrow> json" where
  "bucket_ids_json ids = JList (map (\<lambda>(m, p). JList [JStr m, JInt p]) (sorted_list_of_set ids))"

definition usage_json :: "usage \<Rightarrow> json" where
  "usage_json u = JList (map (\<lambda>(m, a). JList [JStr m, JFloat a]) (sort_key fst u))"

section \<open>The engine\<close>

text \<open>
  The fields of \<^verbatim>\<open>SqliteEngine\<close>; \<open>en_busy_pragma\<close> is the busy timeout last set on the
  connection. The TTLs are the settings \<open>validate_sqlite_ttl_seconds\<close> let through, below
  \<open>2^31\<close>, so their conversions to float are exact.
\<close>

record sq_engine =
  en_db_path :: pystr
  en_key_prefix :: pystr
  en_model_family :: pystr
  en_buckets :: "bucket_spec list"
  en_bucket_by_id :: "(bucket_id, bucket_spec) dict"
  en_bucket_ttl :: int
  en_refund_ttl :: int
  en_override_ttl :: int
  en_max_lifetime :: pyfloat
  en_busy_timeout_ms :: int
  en_prune_batch :: int
  en_busy_pragma :: int
  en_mismatch_warned :: "bucket_id set"
  en_confirmed_until :: "(bucket_id, pyfloat) dict"
  en_pending :: "(bucket_id, pyfloat) dict"

record sq_state =
  sq_eng :: sq_engine
  sq_db :: sqlite_db

definition mk_engine ::
  "pystr \<Rightarrow> pystr \<Rightarrow> pystr \<Rightarrow> bucket_spec list \<Rightarrow> int \<Rightarrow> int \<Rightarrow> int \<Rightarrow> pyfloat \<Rightarrow> int \<Rightarrow> int \<Rightarrow> sq_engine" where
  "mk_engine path prefix family specs bucket_ttl refund_ttl override_ttl lifetime busy batch =
     \<lparr>en_db_path = path, en_key_prefix = prefix, en_model_family = family, en_buckets = specs,
      en_bucket_by_id = fold (\<lambda>sp d. dict_set (spec_id sp) sp d) specs [],
      en_bucket_ttl = bucket_ttl, en_refund_ttl = refund_ttl, en_override_ttl = override_ttl,
      en_max_lifetime = lifetime, en_busy_timeout_ms = busy, en_prune_batch = batch,
      en_busy_pragma = busy, en_mismatch_warned = {}, en_confirmed_until = [], en_pending = []\<rparr>"

definition sq_bucket_ids :: "sq_engine \<Rightarrow> bucket_id set" where
  "sq_bucket_ids en = set (dict_keys (en_bucket_by_id en))"

definition sq_metric_names :: "sq_engine \<Rightarrow> pystr set" where
  "sq_metric_names en = sp_metric ` set (en_buckets en)"

definition sq_configured_max_capacity :: "sq_engine \<Rightarrow> bucket_id \<Rightarrow> pyfloat result" where
  "sq_configured_max_capacity en k = (case map_of (en_bucket_by_id en) k of
      None \<Rightarrow> Inl (ValueError ''Bucket not found'') | Some sp \<Rightarrow> Inr (sp_configured_max sp))"

text \<open>Proof of written state handed from a replaced engine to its replacement.\<close>

definition inherit_state_confirmations :: "sq_engine \<Rightarrow> sq_engine \<Rightarrow> sq_engine result" where
  "inherit_state_confirmations previous en =
     (if (en_db_path en, en_key_prefix en, en_model_family en) \<noteq>
         (en_db_path previous, en_key_prefix previous, en_model_family previous)
      then Inl (ValueError ''SQLite state evidence requires the same store and family'')
      else Inr (en\<lparr>en_confirmed_until :=
        fold (\<lambda>k d. case map_of (en_confirmed_until previous) k of
                None \<Rightarrow> d | Some u \<Rightarrow> dict_set k u d)
          (sorted_list_of_set (sq_bucket_ids en \<inter> sq_bucket_ids previous)) (en_confirmed_until en)\<rparr>))"

definition state_loss_suspected :: "sq_engine \<Rightarrow> bucket_id \<Rightarrow> pyfloat \<Rightarrow> bool" where
  "state_loss_suspected en k current_time = (case map_of (en_confirmed_until en) k of
      None \<Rightarrow> False | Some until \<Rightarrow> flt current_time until)"

definition modify_db :: "(sqlite_db \<Rightarrow> sqlite_db) \<Rightarrow> sq_state \<Rightarrow> sq_state" where
  "modify_db f s = s\<lparr>sq_db := f (sq_db s)\<rparr>"

definition modify_eng :: "(sq_engine \<Rightarrow> sq_engine) \<Rightarrow> sq_state \<Rightarrow> sq_state" where
  "modify_eng f s = s\<lparr>sq_eng := f (sq_eng s)\<rparr>"

definition secs :: "int \<Rightarrow> pyfloat" where
  "secs i = rnd (of_int i)"

section \<open>Transactions\<close>

text \<open>
  What a failing statement reports: busy or locked, or anything else. The observations of
  one transaction: the monotonic clock at the entry of the engine lock, in the two deadline
  checks and in the computation of the timeout, whether the lock was obtained within its
  time, whether \<^verbatim>\<open>BEGIN\<close> and \<^verbatim>\<open>COMMIT\<close> fail, and the wall clock inside the transaction.
\<close>

datatype sqlite_failure = Busy | OtherFailure

record txn_env =
  ev_lock_now :: pyfloat
  ev_lock_acquired :: bool
  ev_locked_now :: pyfloat
  ev_timeout_now :: pyfloat
  ev_begin :: "sqlite_failure option"
  ev_begun_now :: pyfloat
  ev_now :: pyfloat
  ev_commit :: "sqlite_failure option"

definition check_acquire_deadline :: "pyfloat option \<Rightarrow> pyfloat \<Rightarrow> unit result" where
  "check_acquire_deadline deadline mono_now = (case deadline of
      None \<Rightarrow> Inr ()
    | Some d \<Rightarrow> guard (\<not> fle d mono_now) (TimeoutError ''Timed out waiting for SQLite acquisition''))"

definition transaction_lock :: "txn_env \<Rightarrow> pyfloat option \<Rightarrow> bool \<Rightarrow> unit result" where
  "transaction_lock env deadline timeout_on_busy =
     bind_res (case deadline of
         Some d \<Rightarrow>
           if fle (fsub d (ev_lock_now env)) (Fin 0)
           then Inl (TimeoutError ''Timed out waiting for SQLite acquisition'')
           else Inr (ev_lock_acquired env)
       | None \<Rightarrow> Inr (if timeout_on_busy then ev_lock_acquired env else True)) (\<lambda>acquired.
       if \<not> acquired then Inl (TimeoutError ''Timed out waiting for SQLite engine-lock contention'')
       else check_acquire_deadline deadline (ev_locked_now env))"

text \<open>The busy timeout of the operation in milliseconds.\<close>

definition operation_timeout_ms ::
  "sq_engine \<Rightarrow> int option \<Rightarrow> pyfloat option \<Rightarrow> pyfloat \<Rightarrow> int result" where
  "operation_timeout_ms en busy_timeout_ms deadline mono_now =
     (let t = (case busy_timeout_ms of None \<Rightarrow> en_busy_timeout_ms en
               | Some b \<Rightarrow> max 0 (min b (en_busy_timeout_ms en)))
      in case deadline of
          None \<Rightarrow> Inr t
        | Some d \<Rightarrow> bind_res (fceil (fmul (fsub d mono_now) (Fin 1000))) (\<lambda>ms. Inr (min t (max 0 ms))))"

text \<open>How a failed \<^verbatim>\<open>BEGIN\<close> or \<^verbatim>\<open>COMMIT\<close> is reported to the caller.\<close>

definition failure_error :: "bool \<Rightarrow> sqlite_failure \<Rightarrow> exn" where
  "failure_error timeout_on_busy f = (case f of
      Busy \<Rightarrow> if timeout_on_busy then TimeoutError ''Timed out waiting for SQLite write-lock contention''
              else BackendLockContentionError
    | OtherFailure \<Rightarrow> SqliteError ''sqlite3.OperationalError'')"

definition clear_pending :: "sq_state \<Rightarrow> sq_state" where
  "clear_pending = modify_eng (\<lambda>en. en\<lparr>en_pending := []\<rparr>)"

text \<open>A committed write is evidence for nine tenths of the bucket lifetime.\<close>

definition confirm_pending :: "sq_state \<Rightarrow> sq_state" where
  "confirm_pending = modify_eng (\<lambda>en. en\<lparr>en_confirmed_until :=
     fold (\<lambda>(k, t) d. dict_set k (fadd t (fmul (flit (9 / 10)) (secs (en_bucket_ttl en)))) d)
       (en_pending en) (en_confirmed_until en)\<rparr>)"

definition roll_back :: "sq_state \<Rightarrow> sq_state \<Rightarrow> sq_state" where
  "roll_back before s = clear_pending (s\<lparr>sq_db := sq_db before\<rparr>)"

definition transaction ::
  "txn_env \<Rightarrow> int option \<Rightarrow> bool \<Rightarrow> pyfloat option \<Rightarrow> (pyfloat \<Rightarrow> (sq_state, 'a) op) \<Rightarrow> (sq_state, 'a) op" where
  "transaction env busy_timeout_ms timeout_on_busy deadline body s =
     (case bind_res (transaction_lock env deadline timeout_on_busy) (\<lambda>_.
             operation_timeout_ms (sq_eng s) busy_timeout_ms deadline (ev_timeout_now env)) of
        Inl e \<Rightarrow> (Inl e, s)
      | Inr ms \<Rightarrow>
        (let s0 = modify_eng (\<lambda>en. en\<lparr>en_busy_pragma := ms\<rparr>) s in
         case ev_begin env of
           Some f \<Rightarrow> (Inl (failure_error timeout_on_busy f), roll_back s s0)
         | None \<Rightarrow>
           (case check_acquire_deadline deadline (ev_begun_now env) of
              Inl e \<Rightarrow> (Inl e, roll_back s s0)
            | Inr _ \<Rightarrow>
              (case body (ev_now env) s0 of
                 (Inl e, t) \<Rightarrow> (Inl e, roll_back s t)
               | (Inr x, t) \<Rightarrow>
                 (case ev_commit env of
                    Some f \<Rightarrow> (Inl (failure_error timeout_on_busy f), roll_back s t)
                  | None \<Rightarrow> (Inr x, clear_pending (confirm_pending t)))))))"

text \<open>The deferred transaction of the inspections: nothing is confirmed, nothing pending.\<close>

definition read_transaction ::
  "txn_env \<Rightarrow> int option \<Rightarrow> (pyfloat \<Rightarrow> (sq_state, 'a) op) \<Rightarrow> (sq_state, 'a) op" where
  "read_transaction env busy_timeout_ms body s =
     (let ms = (case busy_timeout_ms of None \<Rightarrow> en_busy_timeout_ms (sq_eng s)
                | Some b \<Rightarrow> max 0 (min b (en_busy_timeout_ms (sq_eng s))));
          s0 = modify_eng (\<lambda>en. en\<lparr>en_busy_pragma := ms\<rparr>) s
      in case ev_begin env of
           Some f \<Rightarrow> (Inl (failure_error False f), s0)
         | None \<Rightarrow>
           (case body (ev_now env) s0 of
              (Inl e, t) \<Rightarrow> (Inl e, t\<lparr>sq_db := sq_db s\<rparr>)
            | (Inr x, t) \<Rightarrow>
              (case ev_commit env of
                 Some f \<Rightarrow> (Inl (failure_error False f), t\<lparr>sq_db := sq_db s\<rparr>)
               | None \<Rightarrow> (Inr x, t))))"

section \<open>Connection\<close>

text \<open>
  The loop that enables WAL, one observation per attempt: the failure of the statement, if it
  fails, and the two readings of the monotonic clock. \<open>None\<close> is a loop still running when
  the observations end. On success the list of the sleeps made is returned.
\<close>

record wal_attempt =
  wa_failure :: "sqlite_failure option"
  wa_now :: pyfloat
  wa_sleep_now :: pyfloat

fun enable_wal :: "pyfloat \<Rightarrow> wal_attempt list \<Rightarrow> pyfloat list \<Rightarrow> pyfloat list result option" where
  "enable_wal deadline [] sleeps = None"
| "enable_wal deadline (a # as) sleeps = (case wa_failure a of
      None \<Rightarrow> Some (Inr sleeps)
    | Some OtherFailure \<Rightarrow> Some (Inl (SqliteError ''sqlite3.OperationalError''))
    | Some Busy \<Rightarrow>
        if fle deadline (wa_now a) then Some (Inl BackendLockContentionError)
        else enable_wal deadline as
               (sleeps @ [fmin (flit (1 / 100)) (fmax (Fin 0) (fsub deadline (wa_sleep_now a)))]))"

text \<open>\<open>sync\<close> is the failure of the statement that sets \<^verbatim>\<open>synchronous=NORMAL\<close>.\<close>

definition configure_connection ::
  "int \<Rightarrow> pyfloat \<Rightarrow> wal_attempt list \<Rightarrow> sqlite_failure option \<Rightarrow> pyfloat list result option" where
  "configure_connection busy_timeout_ms mono_now attempts sync =
     (case fdiv (secs busy_timeout_ms) (Fin 1000) of
        Inl e \<Rightarrow> Some (Inl e)
      | Inr t \<Rightarrow> map_option (\<lambda>r. bind_res r (\<lambda>sleeps. case sync of
            None \<Rightarrow> Inr sleeps
          | Some f \<Rightarrow> Inl (failure_error False f)))
          (enable_wal (fadd mono_now t) attempts []))"

section \<open>Schema\<close>

text \<open>
  The version check of \<^verbatim>\<open>_initialize_schema\<close>. A database of schema 1 has no anchor column;
  adding it leaves it \<^verbatim>\<open>NULL\<close> in every row. The \<^verbatim>\<open>CREATE ... IF NOT EXISTS\<close> statements add
  empty tables, which here exist from the start.
\<close>

definition initialize_schema :: "txn_env \<Rightarrow> int option \<Rightarrow> (sq_state, unit) op" where
  "initialize_schema env busy_timeout_ms = transaction env busy_timeout_ms False None (\<lambda>_ s.
     (case db_schema_version (sq_db s) of
        None \<Rightarrow> (Inr (), modify_db (\<lambda>db. db\<lparr>db_schema_version := Some SCHEMA_VERSION\<rparr>) s)
      | Some v \<Rightarrow>
        if v = LEGACY_SCHEMA_VERSION_WITHOUT_OVERRIDE_ANCHOR
        then (Inr (), modify_db (\<lambda>db. db\<lparr>db_schema_version := Some SCHEMA_VERSION,
               db_buckets := map (\<lambda>(k, r). (k, r\<lparr>row_override_configured_max := None\<rparr>)) (db_buckets db)\<rparr>) s)
        else if v \<noteq> SCHEMA_VERSION
        then (Inl (RuntimeError ''Unsupported token-throttle SQLite schema version''), s)
        else (Inr (), s)))"

section \<open>Pruning\<close>

text \<open>A row whose runtime override is still live is kept although its bucket is idle.\<close>

definition row_override_live :: "pyfloat \<Rightarrow> bucket_row \<Rightarrow> bool" where
  "row_override_live now r \<longleftrightarrow> row_override_value r \<noteq> None \<and>
     (case row_override_expires_at r of None \<Rightarrow> False | Some e \<Rightarrow> flt now e)"

definition row_prunable :: "pyfloat \<Rightarrow> bucket_row \<Rightarrow> bool" where
  "row_prunable now r \<longleftrightarrow> fle (row_expires_at r) now \<and>
     (row_override_value r = None \<or>
      (case row_override_expires_at r of None \<Rightarrow> True | Some e \<Rightarrow> fle e now))"

definition prune :: "scan_order \<Rightarrow> pyfloat \<Rightarrow> sq_state \<Rightarrow> sq_state" where
  "prune so now s =
     (let n = en_prune_batch (sq_eng s) in
      modify_db (\<lambda>db. db\<lparr>
        db_markers := delete_batch (so_reservations so) (\<lambda>m. fle (mk_expires_at m) now) n (db_markers db),
        db_tombstones := delete_batch (so_reservations so) (\<lambda>t. fle (tb_expires_at t) now) n (db_tombstones db),
        db_buckets := delete_batch (so_buckets so) (row_prunable now) n (db_buckets db)\<rparr>) s)"

section \<open>Loading bucket states\<close>

definition row_key :: "sq_engine \<Rightarrow> bucket_id \<Rightarrow> bucket_key" where
  "row_key en k = (en_key_prefix en, en_model_family en, fst k, snd k)"

definition read_row :: "bucket_id \<Rightarrow> sq_state \<Rightarrow> bucket_row option" where
  "read_row k s = map_of (db_buckets (sq_db s)) (row_key (sq_eng s) k)"

definition update_row :: "bucket_id \<Rightarrow> (bucket_row \<Rightarrow> bucket_row) \<Rightarrow> sq_state \<Rightarrow> sq_state" where
  "update_row k f s = modify_db (\<lambda>db. db\<lparr>db_buckets := table_update (row_key (sq_eng s) k) f (db_buckets db)\<rparr>) s"

definition delete_row :: "bucket_id \<Rightarrow> sq_state \<Rightarrow> sq_state" where
  "delete_row k s = modify_db (\<lambda>db. db\<lparr>db_buckets := dict_pop (row_key (sq_eng s) k) (db_buckets db)\<rparr>) s"

definition insert_row :: "bucket_id \<Rightarrow> bucket_row \<Rightarrow> (sq_state, unit) op" where
  "insert_row k r s = (case table_insert (row_key (sq_eng s) k) r (db_buckets (sq_db s)) of
      Inl e \<Rightarrow> (Inl e, s)
    | Inr t \<Rightarrow> (Inr (), modify_db (\<lambda>db. db\<lparr>db_buckets := t\<rparr>) s))"

definition set_pending :: "bucket_id \<Rightarrow> pyfloat \<Rightarrow> sq_state \<Rightarrow> sq_state" where
  "set_pending k now = modify_eng (\<lambda>en. en\<lparr>en_pending := dict_set k now (en_pending en)\<rparr>)"

text \<open>The row of a bucket that has never been written.\<close>

definition empty_row :: "sq_engine \<Rightarrow> pyfloat \<Rightarrow> bucket_row" where
  "empty_row en now =
     \<lparr>row_capacity = None, row_last_checked = None, row_override_value = None,
      row_override_expires_at = None, row_override_configured_max = None,
      row_updated_at = now, row_expires_at = fadd now (secs (en_bucket_ttl en))\<rparr>"

definition optional_float :: "pyfloat option \<Rightarrow> pyval" where
  "optional_float v = (case v of None \<Rightarrow> VNone | Some f \<Rightarrow> VFloat f)"

text \<open>The capped amount, and the amount before the cap (the maximum if that is not finite).\<close>

definition refill_capacity ::
  "bucket_spec \<Rightarrow> pyfloat option \<Rightarrow> pyfloat option \<Rightarrow> pyfloat \<Rightarrow> pyfloat \<Rightarrow>
   (calculated_capacity \<times> pyfloat) result" where
  "refill_capacity sp capacity last_checked current_time max_capacity =
     bind_res (calculate_rate_per_sec max_capacity (sp_per_seconds sp)) (\<lambda>rate.
     bind_res (calculate_capacity (optional_float last_checked) (optional_float capacity)
                 (VFloat current_time) (VFloat max_capacity) (VFloat rate)) (\<lambda>calculated.
       Inr (calculated, case (capacity, last_checked) of
           (Some c, Some l) \<Rightarrow>
             (let u = fadd c (fmul (fmax (Fin 0) (fsub current_time l)) rate)
              in if isfinite u then u else max_capacity)
         | _ \<Rightarrow> max_capacity)))"

definition override_anchor_matches :: "bucket_spec \<Rightarrow> pyfloat option \<Rightarrow> (sq_state, bool) op" where
  "override_anchor_matches sp anchor s =
     (if (case anchor of None \<Rightarrow> False
          | Some a \<Rightarrow> isclose (flit (1 / 1000000000000)) a (sp_configured_max sp))
      then (Inr True, s)
      else (Inr False, modify_eng (\<lambda>en. en\<lparr>en_mismatch_warned := insert (spec_id sp) (en_mismatch_warned en)\<rparr>) s))"

text \<open>What the row leaves to compute with: amount, clock, override flag and maximum.\<close>

record loaded =
  ld_capacity :: "pyfloat option"
  ld_last_checked :: "pyfloat option"
  ld_override_active :: bool
  ld_max :: pyfloat

definition load_absent :: "bool \<Rightarrow> pyfloat \<Rightarrow> bucket_spec \<Rightarrow> (sq_state, loaded) op" where
  "load_absent writable now sp s =
     op_bind (op_lift (validate_max_capacity_finite_positive (VFloat (sp_configured_max sp)))) (\<lambda>mx.
     op_bind (if writable then insert_row (spec_id sp) (empty_row (sq_eng s) now) else op_return ()) (\<lambda>_.
       op_return \<lparr>ld_capacity = None, ld_last_checked = None, ld_override_active = False, ld_max = mx\<rparr>)) s"

text \<open>
  An override that has expired since the last write refilled the bucket at its own rate up
  to its expiry: amount and clock are moved there, the overflow kept.
\<close>

definition integrate_to_expiry ::
  "bucket_spec \<Rightarrow> bucket_row \<Rightarrow> bool \<Rightarrow> pyfloat \<Rightarrow> pyfloat option \<times> pyfloat option \<Rightarrow>
   (pyfloat option \<times> pyfloat option) result" where
  "integrate_to_expiry sp r anchored now cl =
     (case (row_override_value r, row_override_expires_at r, cl) of
        (Some v, Some e, Some c, Some l) \<Rightarrow>
          if anchored \<and> flt l e \<and> fle e now
          then bind_res (validate_max_capacity_finite_positive (VFloat v)) (\<lambda>mx.
               bind_res (refill_capacity sp (Some c) (Some l) e mx) (\<lambda>(_, u).
                 Inr (Some u, Some e)))
          else Inr cl
      | _ \<Rightarrow> Inr cl)"

text \<open>The statement that removes an expired override from its row.\<close>

definition clear_expired_override ::
  "bucket_spec \<Rightarrow> pyfloat \<Rightarrow> pyfloat option \<times> pyfloat option \<Rightarrow> sq_state \<Rightarrow> sq_state" where
  "clear_expired_override sp now cl s =
     (let s' = update_row (spec_id sp) (\<lambda>r. r\<lparr>row_override_value := None, row_override_expires_at := None,
           row_capacity := fst cl, row_override_configured_max := None, row_last_checked := snd cl,
           row_updated_at := now, row_expires_at := fadd now (secs (en_bucket_ttl (sq_eng s)))\<rparr>) s
      in if fst cl \<noteq> None \<and> snd cl \<noteq> None then set_pending (spec_id sp) now s' else s')"

definition load_present ::
  "bool \<Rightarrow> pyfloat \<Rightarrow> bucket_spec \<Rightarrow> bucket_row \<Rightarrow> (sq_state, loaded) op" where
  "load_present writable now sp r s =
     (let expired = fle (row_expires_at r) now;
          live = row_override_live now r;
          has_value = row_override_value r \<noteq> None;
          has_expiry = row_override_expires_at r \<noteq> None;
          cl = (if expired then (None, None) else (row_capacity r, row_last_checked r));
          s1 = (if expired \<and> writable
                then update_row (spec_id sp) (\<lambda>r. r\<lparr>row_capacity := None, row_last_checked := None\<rparr>) s else s)
      in op_bind (if live then override_anchor_matches sp (row_override_configured_max r)
                  else op_return False) (\<lambda>active.
         if active
         then op_bind (op_lift (validate_max_capacity_finite_positive (optional_float (row_override_value r))))
                (\<lambda>mx. op_return \<lparr>ld_capacity = fst cl, ld_last_checked = snd cl,
                                ld_override_active = True, ld_max = mx\<rparr>)
         else
           op_bind (op_lift (validate_max_capacity_finite_positive (VFloat (sp_configured_max sp)))) (\<lambda>mx.
           op_bind (if has_value \<and> has_expiry
                    then override_anchor_matches sp (row_override_configured_max r)
                    else op_return False) (\<lambda>anchored.
           op_bind (op_lift (integrate_to_expiry sp r anchored now cl)) (\<lambda>cl'.
           op_bind (if writable \<and> \<not> live \<and> (has_value \<or> has_expiry)
                    then op_modify (clear_expired_override sp now cl') else op_return ()) (\<lambda>_.
             op_return \<lparr>ld_capacity = fst cl', ld_last_checked = snd cl',
                        ld_override_active = False, ld_max = mx\<rparr>))))) s1)"

text \<open>An expired row without a live override counts as absent.\<close>

definition load_row :: "bool \<Rightarrow> pyfloat \<Rightarrow> bucket_spec \<Rightarrow> (sq_state, loaded) op" where
  "load_row writable now sp s =
     (case read_row (spec_id sp) s of
        None \<Rightarrow> load_absent writable now sp s
      | Some r \<Rightarrow>
          if fle (row_expires_at r) now \<and> \<not> row_override_live now r
          then load_absent writable now sp (if writable then delete_row (spec_id sp) s else s)
          else load_present writable now sp r s)"

definition missing_fields :: "loaded \<Rightarrow> string list" where
  "missing_fields l = (if ld_last_checked l = None then [''last_checked''] else [])
     @ (if ld_capacity l = None then [''capacity''] else [])"

definition present_fields :: "loaded \<Rightarrow> string list" where
  "present_fields l = filter (\<lambda>f. f \<notin> set (missing_fields l)) [''last_checked'', ''capacity'']"

text \<open>Half a state, or no state where a committed write proves there should be one.\<close>

definition state_lost :: "sq_engine \<Rightarrow> bucket_id \<Rightarrow> pyfloat \<Rightarrow> loaded \<Rightarrow> bool" where
  "state_lost en k now l \<longleftrightarrow> missing_fields l \<noteq> [] \<and>
     (length (missing_fields l) = 1 \<or> state_loss_suspected en k now)"

text \<open>A lost state is drained: the bucket restarts empty, not full.\<close>

definition drain_lost :: "bool \<Rightarrow> pyfloat \<Rightarrow> bucket_spec \<Rightarrow> sq_state \<Rightarrow> sq_state" where
  "drain_lost writable now sp s =
     (if writable
      then set_pending (spec_id sp) now (update_row (spec_id sp) (\<lambda>r. r\<lparr>row_capacity := Some (Fin 0),
             row_last_checked := Some now, row_updated_at := now,
             row_expires_at := fadd now (secs (en_bucket_ttl (sq_eng s)))\<rparr>) s)
      else s)"

text \<open>A stored clock more than a second in the future is moved back to now.\<close>

definition future_clock :: "pyfloat \<Rightarrow> pyfloat option \<Rightarrow> bool" where
  "future_clock now last_checked = (case last_checked of
      None \<Rightarrow> False
    | Some l \<Rightarrow> flt (fadd now FUTURE_LAST_CHECKED_REPAIR_TOLERANCE_SECONDS) l)"

definition repair_future :: "bool \<Rightarrow> pyfloat \<Rightarrow> bucket_spec \<Rightarrow> pyfloat option \<Rightarrow> sq_state \<Rightarrow> sq_state" where
  "repair_future writable now sp last_checked s =
     (if writable \<and> future_clock now last_checked
      then set_pending (spec_id sp) now (update_row (spec_id sp) (\<lambda>r. r\<lparr>row_last_checked := Some now,
             row_updated_at := now, row_expires_at := fadd now (secs (en_bucket_ttl (sq_eng s)))\<rparr>) s)
      else s)"

text \<open>A bucket in debt is kept until the debt is paid.\<close>

definition extend_for_debt ::
  "bool \<Rightarrow> pyfloat \<Rightarrow> bucket_spec \<Rightarrow> pyfloat \<Rightarrow> pyfloat \<Rightarrow> (sq_state, unit) op" where
  "extend_for_debt writable now sp a mx s =
     (if writable \<and> flt a (Fin 0)
      then op_bind (op_lift (debt_ttl_seconds a (en_bucket_ttl (sq_eng s)) (sp_per_seconds sp) mx
                               (sp_configured_max sp))) (\<lambda>ttl.
             op_modify (update_row (spec_id sp) (\<lambda>r. r\<lparr>row_expires_at := fmax (row_expires_at r) (fadd now (secs ttl))\<rparr>))) s
      else (Inr (), s))"

definition mk_bucket_state ::
  "bucket_spec \<Rightarrow> loaded \<Rightarrow> bool \<Rightarrow> calculated_capacity \<Rightarrow> pyfloat \<Rightarrow> bucket_state" where
  "mk_bucket_state sp l lost calculated uncapped =
     \<lparr>bs_spec = sp, bs_capacity = amount calculated, bs_uncapped = uncapped,
      bs_max = ld_max l, bs_override_active = ld_override_active l,
      bs_fresh = is_fresh_start calculated,
      bs_missing = (if missing_fields l = [] then None
        else Some \<lparr>me_bucket_id = spec_id sp,
               me_reason = (if lost then ''state_loss_drained'' else ''fresh_start''),
               me_missing_fields = missing_fields l, me_present_fields = present_fields l\<rparr>)\<rparr>"

text \<open>Refill, repair and extend what the row left, or the drained level of a lost state.\<close>

definition settle ::
  "bool \<Rightarrow> pyfloat \<Rightarrow> bucket_spec \<Rightarrow> loaded \<Rightarrow> bool \<Rightarrow> pyfloat option \<Rightarrow> pyfloat option \<Rightarrow>
   (sq_state, bucket_state) op" where
  "settle writable now sp l lost capacity last_checked =
     op_bind (op_lift (refill_capacity sp capacity last_checked now (ld_max l))) (\<lambda>(calculated, uncapped).
     op_bind (op_modify (repair_future writable now sp last_checked)) (\<lambda>_.
     op_bind (extend_for_debt writable now sp (amount calculated) (ld_max l)) (\<lambda>_.
       op_return (mk_bucket_state sp l lost calculated uncapped))))"

definition load_state :: "bool \<Rightarrow> pyfloat \<Rightarrow> bucket_spec \<Rightarrow> (sq_state, bucket_state) op" where
  "load_state writable now sp =
     op_bind (load_row writable now sp) (\<lambda>l s.
       if state_lost (sq_eng s) (spec_id sp) now l
       then settle writable now sp l True (Some (Fin 0)) (Some now) (drain_lost writable now sp s)
       else settle writable now sp l False (ld_capacity l) (ld_last_checked l) s)"

fun load_each ::
  "bool \<Rightarrow> pyfloat \<Rightarrow> bucket_spec list \<Rightarrow> bucket_states \<Rightarrow> (sq_state, bucket_states) op" where
  "load_each writable now [] states = op_return states"
| "load_each writable now (sp # sps) states =
     op_bind (load_state writable now sp) (\<lambda>st.
       load_each writable now sps (dict_set (spec_id sp) st states))"

definition load_states :: "bool \<Rightarrow> pyfloat \<Rightarrow> (sq_state, bucket_states) op" where
  "load_states writable now s = load_each writable now (en_buckets (sq_eng s)) [] s"

text \<open>What the callers read off the states; the fresh buckets are listed in their order.\<close>

definition fresh_ids :: "bucket_states \<Rightarrow> bucket_id list" where
  "fresh_ids states = map fst (filter (\<lambda>(k, st). bs_fresh st) states)"

definition sq_capacities :: "bucket_states \<Rightarrow> capacities" where
  "sq_capacities states = map (\<lambda>(k, st). (k, bs_capacity st)) states"

definition max_capacities :: "bucket_states \<Rightarrow> capacities" where
  "max_capacities states = map (\<lambda>(k, st). (k, bs_max st)) states"

definition missing_state_events :: "bucket_states \<Rightarrow> missing_state_event list" where
  "missing_state_events states = List.map_filter (\<lambda>(k, st). bs_missing st) states"

section \<open>Writing capacities\<close>

text \<open>The maximum the stored row is under at the time of the write.\<close>

definition write_maximum :: "pyfloat \<Rightarrow> bucket_spec \<Rightarrow> bucket_row option \<Rightarrow> (sq_state, pyfloat) op" where
  "write_maximum now sp row = (case row of
      None \<Rightarrow> op_return (sp_configured_max sp)
    | Some r \<Rightarrow>
        if row_override_live now r
        then op_bind (override_anchor_matches sp (row_override_configured_max r)) (\<lambda>ok.
               op_return (if ok then the (row_override_value r) else sp_configured_max sp))
        else op_return (sp_configured_max sp))"

definition write_capacity :: "pyfloat \<Rightarrow> bucket_id \<times> pyfloat \<Rightarrow> (sq_state, unit) op" where
  "write_capacity now ka s = (case ka of (k, a) \<Rightarrow>
     if \<not> isfinite a then (Inl (ValueError ''capacity must be finite''), s)
     else (case map_of (en_bucket_by_id (sq_eng s)) k of
         None \<Rightarrow> (Inl KeyError, s)
       | Some sp \<Rightarrow>
         op_bind (write_maximum now sp (read_row k s)) (\<lambda>maximum.
         op_bind (op_lift (debt_ttl_seconds a (en_bucket_ttl (sq_eng s)) (snd k) maximum
                             (sp_configured_max sp))) (\<lambda>ttl t.
           if read_row k t = None
           then (Inl (RuntimeError ''SQLite bucket disappeared during a write transaction''), t)
           else (Inr (), set_pending k now (update_row k (\<lambda>r. r\<lparr>row_capacity := Some a,
                   row_last_checked := Some now, row_updated_at := now,
                   row_expires_at := fadd now (secs ttl)\<rparr>) t)))) s))"

definition write_capacities :: "pyfloat \<Rightarrow> capacities \<Rightarrow> (sq_state, unit) op" where
  "write_capacities now caps = op_for_each caps (write_capacity now)"

section \<open>Acquire markers and refund tombstones\<close>

definition res_key :: "sq_engine \<Rightarrow> pystr \<Rightarrow> reservation_key" where
  "res_key en i = (en_key_prefix en, i)"

definition read_marker :: "pystr \<Rightarrow> sq_state \<Rightarrow> marker_row option" where
  "read_marker i s = map_of (db_markers (sq_db s)) (res_key (sq_eng s) i)"

definition read_tombstone :: "pystr \<Rightarrow> sq_state \<Rightarrow> tombstone_row option" where
  "read_tombstone i s = map_of (db_tombstones (sq_db s)) (res_key (sq_eng s) i)"

definition delete_marker :: "pystr \<Rightarrow> sq_state \<Rightarrow> sq_state" where
  "delete_marker i s = modify_db (\<lambda>db. db\<lparr>db_markers := dict_pop (res_key (sq_eng s) i) (db_markers db)\<rparr>) s"

definition delete_tombstone :: "pystr \<Rightarrow> sq_state \<Rightarrow> sq_state" where
  "delete_tombstone i s = modify_db (\<lambda>db. db\<lparr>db_tombstones := dict_pop (res_key (sq_eng s) i) (db_tombstones db)\<rparr>) s"

text \<open>Expired rows are deleted when they are met.\<close>

definition expire_marker :: "pystr \<Rightarrow> pyfloat \<Rightarrow> sq_state \<Rightarrow> sq_state" where
  "expire_marker i now s = (case read_marker i s of
      Some m \<Rightarrow> if fle (mk_expires_at m) now then delete_marker i s else s | None \<Rightarrow> s)"

definition expire_tombstone :: "pystr \<Rightarrow> pyfloat \<Rightarrow> sq_state \<Rightarrow> sq_state" where
  "expire_tombstone i now s = (case read_tombstone i s of
      Some t \<Rightarrow> if fle (tb_expires_at t) now then delete_tombstone i s else s | None \<Rightarrow> s)"

definition marker_matches :: "marker_row \<Rightarrow> pystr \<Rightarrow> bucket_id set \<Rightarrow> usage \<Rightarrow> bool" where
  "marker_matches m family ids u \<longleftrightarrow> mk_model_family m = family \<and>
     mk_bucket_ids_json m = bucket_ids_json ids \<and> mk_reserved_usage_json m = usage_json u"

definition raise_if_duplicate_acquire ::
  "pystr option \<Rightarrow> pyfloat \<Rightarrow> usage \<Rightarrow> (sq_state, bool) op" where
  "raise_if_duplicate_acquire rid now u s = (case rid of
      None \<Rightarrow> (Inr False, s)
    | Some i \<Rightarrow>
      (let t = expire_tombstone i now (expire_marker i now s) in
       case read_marker i t of
         Some m \<Rightarrow>
           if marker_matches m (en_model_family (sq_eng s)) (sq_bucket_ids (sq_eng s)) u
           then (Inr True, t) else (Inl (DuplicateRefundError DuplicateAcquire), t)
       | None \<Rightarrow>
           if read_tombstone i t \<noteq> None then (Inl (DuplicateRefundError DuplicateAcquire), t)
           else (Inr False, t)))"

definition insert_marker ::
  "pystr option \<Rightarrow> usage \<Rightarrow> pyfloat option \<Rightarrow> pyfloat \<Rightarrow> (sq_state, unit) op" where
  "insert_marker rid u lifetime now s = (case rid of
      None \<Rightarrow> (Inr (), s)
    | Some i \<Rightarrow>
      (case lifetime of
         None \<Rightarrow> (Inl (ValueError ''reservation_lifetime_seconds is required''), s)
       | Some l \<Rightarrow>
         if \<not> isfinite l \<or> fle l (Fin 0)
           then (Inl (ValueError ''reservation_lifetime_seconds must be finite and greater than 0''), s)
         else if flt (en_max_lifetime (sq_eng s)) l
           then (Inl (ValueError ''reservation_lifetime_seconds exceeds the maximum''), s)
         else (case table_insert (res_key (sq_eng s) i)
                   \<lparr>mk_model_family = en_model_family (sq_eng s),
                    mk_bucket_ids_json = bucket_ids_json (sq_bucket_ids (sq_eng s)),
                    mk_reserved_usage_json = usage_json u,
                    mk_created_at = now, mk_expires_at = fadd now l\<rparr> (db_markers (sq_db s)) of
             Inl e \<Rightarrow> (Inl e, s)
           | Inr t \<Rightarrow> (Inr (), modify_db (\<lambda>db. db\<lparr>db_markers := t\<rparr>) s))))"

definition verify_marker ::
  "pystr \<Rightarrow> pystr \<Rightarrow> bucket_id set \<Rightarrow> usage \<Rightarrow> pyfloat \<Rightarrow> (sq_state, unit) op" where
  "verify_marker i family ids u now s =
     (let t = expire_tombstone i now s in
      if read_tombstone i t \<noteq> None then (Inl (DuplicateRefundError AlreadyRefunded), t)
      else let t' = expire_marker i now t in
        case read_marker i t' of
          None \<Rightarrow> (Inl UnknownReservationError, t')
        | Some m \<Rightarrow> if marker_matches m family ids u then (Inr (), t') else (Inl UnknownReservationError, t'))"

section \<open>Acquiring\<close>

definition usage_amount :: "usage \<Rightarrow> bucket_id \<Rightarrow> pyfloat" where
  "usage_amount u k = dict_get u (fst k) (Fin 0)"

definition exceeds_max_capacity :: "usage \<Rightarrow> bucket_states \<Rightarrow> bool" where
  "exceeds_max_capacity u states =
     list_ex (\<lambda>(m, a). list_ex (\<lambda>(k, st). sp_metric (bs_spec st) = m \<and> flt (bs_max st) a) states) u"

definition usage_available :: "usage \<Rightarrow> bucket_states \<Rightarrow> bool" where
  "usage_available u states = list_all (\<lambda>(k, st). fle (usage_amount u k) (bs_capacity st)) states"

definition mk_capacity_result :: "pyfloat \<Rightarrow> bucket_states \<Rightarrow> capacities \<Rightarrow> bool \<Rightarrow> capacity_result" where
  "mk_capacity_result now states post was_replayed =
     \<lparr>cr_time = now, cr_pre = sq_capacities states, cr_post = post,
      cr_max = max_capacities states, cr_fresh = fresh_ids states,
      cr_replayed = was_replayed, cr_missing = missing_state_events states\<rparr>"

text \<open>\<open>states\<close> with the usage taken off; \<open>consume_states\<close> floors at minus the maximum.\<close>

definition take_usage :: "usage \<Rightarrow> bucket_states \<Rightarrow> capacities" where
  "take_usage u states = map (\<lambda>(k, st). (k, fsub (bs_capacity st) (dict_get u (sp_metric (bs_spec st)) (Fin 0)))) states"

definition take_usage_floored :: "usage \<Rightarrow> bucket_states \<Rightarrow> capacities" where
  "take_usage_floored u states = map (\<lambda>(k, st). (k, fmax (fneg (bs_max st))
     (fsub (bs_capacity st) (dict_get u (sp_metric (bs_spec st)) (Fin 0))))) states"

text \<open>The bodies of the transactions; the flag of \<^verbatim>\<open>TryConsumeResult\<close> comes first.\<close>

definition try_consume_body ::
  "scan_order \<Rightarrow> usage \<Rightarrow> pystr option \<Rightarrow> pyfloat option \<Rightarrow> pyfloat \<Rightarrow>
   (sq_state, bool \<times> capacity_result) op" where
  "try_consume_body so u rid lifetime now s =
     op_bind (raise_if_duplicate_acquire rid now u) (\<lambda>was_replayed.
     op_bind (load_states True now) (\<lambda>states.
       if was_replayed then op_return (True, mk_capacity_result now states (sq_capacities states) True)
       else if exceeds_max_capacity u states
         then op_raise (ValueError ''Usage value exceeds bucket max capacity'')
       else if \<not> usage_available u states
         then op_return (False, mk_capacity_result now states [] False)
       else op_bind (write_capacities now (take_usage u states)) (\<lambda>_.
            op_bind (insert_marker rid u lifetime now) (\<lambda>_.
              op_return (True, mk_capacity_result now states (take_usage u states) False)))))
     (prune so now s)"

definition try_consume ::
  "scan_order \<Rightarrow> txn_env \<Rightarrow> usage \<Rightarrow> pystr option \<Rightarrow> pyfloat option \<Rightarrow> int option \<Rightarrow> bool \<Rightarrow>
   pyfloat option \<Rightarrow> (sq_state, bool \<times> capacity_result) op" where
  "try_consume so env u rid lifetime busy_timeout_ms timeout_on_busy deadline =
     transaction env busy_timeout_ms timeout_on_busy deadline (try_consume_body so u rid lifetime)"

definition consume_body ::
  "scan_order \<Rightarrow> usage \<Rightarrow> pystr option \<Rightarrow> pyfloat option \<Rightarrow> pyfloat \<Rightarrow> (sq_state, capacity_result) op" where
  "consume_body so u rid lifetime now s =
     op_bind (raise_if_duplicate_acquire rid now u) (\<lambda>was_replayed.
     op_bind (load_states True now) (\<lambda>states.
       if was_replayed then op_return (mk_capacity_result now states (sq_capacities states) True)
       else op_bind (write_capacities now (take_usage_floored u states)) (\<lambda>_.
            op_bind (insert_marker rid u lifetime now) (\<lambda>_.
              op_return (mk_capacity_result now states (take_usage_floored u states) False)))))
     (prune so now s)"

definition consume ::
  "scan_order \<Rightarrow> txn_env \<Rightarrow> usage \<Rightarrow> pystr option \<Rightarrow> pyfloat option \<Rightarrow> int option \<Rightarrow>
   (sq_state, capacity_result) op" where
  "consume so env u rid lifetime busy_timeout_ms =
     transaction env busy_timeout_ms False None (consume_body so u rid lifetime)"

section \<open>Refunding\<close>

text \<open>Reserved minus actual; an actual amount that is missing raises a KeyError.\<close>

definition refund_usage :: "usage \<Rightarrow> usage \<Rightarrow> usage result" where
  "refund_usage reserved actual = for_each reserved (\<lambda>(m, a) acc.
     (case map_of actual m of None \<Rightarrow> Inl KeyError | Some b \<Rightarrow> Inr (acc @ [(m, fsub a b)]))) []"

definition refunded_capacity :: "bucket_state \<Rightarrow> pyfloat \<Rightarrow> pyfloat" where
  "refunded_capacity st r = fmax (fneg (bs_max st))
     (fmin (fadd (bs_capacity st) (fmax r (fneg (bs_max st)))) (bs_max st))"

text \<open>The loop over the scope of the refund, in the iteration order of the frozenset.\<close>

definition refund_post :: "bucket_states \<Rightarrow> usage \<Rightarrow> bucket_id list \<Rightarrow> capacities result" where
  "refund_post states refunds ids = for_each ids (\<lambda>k post.
     (case map_of states k of
        None \<Rightarrow> Inl KeyError
      | Some st \<Rightarrow> (case map_of refunds (sp_metric (bs_spec st)) of
          None \<Rightarrow> Inl KeyError
        | Some r \<Rightarrow> Inr (dict_set k (refunded_capacity st r) post)))) (sq_capacities states)"

record refund_identity =
  ri_model_family :: "pystr option"
  ri_bucket_ids :: "bucket_id set option"
  ri_reserved_usage :: "usage option"

definition authorize_refund :: "pystr option \<Rightarrow> refund_identity \<Rightarrow> pyfloat \<Rightarrow> (sq_state, unit) op" where
  "authorize_refund rid idn now = (case rid of
      None \<Rightarrow> op_return ()
    | Some i \<Rightarrow> (case (ri_model_family idn, ri_bucket_ids idn, ri_reserved_usage idn) of
        (Some family, Some ids, Some u) \<Rightarrow> verify_marker i family ids u now
      | _ \<Rightarrow> op_raise (ValueError ''reservation marker metadata is required'')))"

text \<open>The marker gives way to a tombstone.\<close>

definition close_marker :: "pystr option \<Rightarrow> pyfloat \<Rightarrow> (sq_state, unit) op" where
  "close_marker rid now s = (case rid of
      None \<Rightarrow> (Inr (), s)
    | Some i \<Rightarrow>
      if read_marker i s = None
      then (Inl (RuntimeError ''SQLite acquire marker disappeared during refund transaction''), s)
      else let t = delete_marker i s in
        (case table_insert (res_key (sq_eng t) i)
            \<lparr>tb_refunded_at = now, tb_expires_at = fadd now (secs (en_refund_ttl (sq_eng t)))\<rparr>
            (db_tombstones (sq_db t)) of
           Inl e \<Rightarrow> (Inl e, t)
         | Inr tbl \<Rightarrow> (Inr (), modify_db (\<lambda>db. db\<lparr>db_tombstones := tbl\<rparr>) t)))"

definition refund_body ::
  "scan_order \<Rightarrow> usage \<Rightarrow> bucket_id list \<Rightarrow> pystr option \<Rightarrow> refund_identity \<Rightarrow> pyfloat \<Rightarrow>
   (sq_state, refund_result) op" where
  "refund_body so refunds ids rid idn now s =
     op_bind (authorize_refund rid idn now) (\<lambda>_.
     op_bind (load_states True now) (\<lambda>states.
     op_bind (op_lift (refund_post states refunds ids)) (\<lambda>post.
     op_bind (write_capacities now (map (\<lambda>k. (k, dict_get post k (Fin 0))) ids)) (\<lambda>_.
     op_bind (close_marker rid now) (\<lambda>_.
       op_return \<lparr>rr_time = now, rr_pre = sq_capacities states, rr_post = post,
         rr_refunded = refunds, rr_fresh = fresh_ids states,
         rr_missing = missing_state_events states\<rparr>)))))
     (prune so now s)"

definition refund ::
  "scan_order \<Rightarrow> txn_env \<Rightarrow> usage \<Rightarrow> usage \<Rightarrow> bucket_id list \<Rightarrow> pystr option \<Rightarrow> refund_identity \<Rightarrow>
   int option \<Rightarrow> (sq_state, refund_result) op" where
  "refund so env reserved actual ids rid idn busy_timeout_ms =
     op_bind (op_lift (refund_usage reserved actual)) (\<lambda>refunds.
       transaction env busy_timeout_ms False None (refund_body so refunds ids rid idn))"

text \<open>Giving back a consumption whose caller was cancelled.\<close>

definition cleanup_capacities :: "bucket_states \<Rightarrow> usage \<Rightarrow> bucket_id list \<Rightarrow> capacities" where
  "cleanup_capacities states u ids = List.map_filter (\<lambda>k. map_option (\<lambda>st.
     (k, fmin (fadd (bs_capacity st) (dict_get u (sp_metric (bs_spec st)) (Fin 0))) (bs_max st)))
     (map_of states k)) ids"

definition cleanup_body ::
  "scan_order \<Rightarrow> usage \<Rightarrow> bucket_id list \<Rightarrow> pystr option \<Rightarrow> pyfloat \<Rightarrow> (sq_state, unit) op" where
  "cleanup_body so u ids rid now s =
     op_bind (\<lambda>t. (case rid of
         Some i \<Rightarrow> if read_marker i t = None then (Inl UnknownReservationError, t) else (Inr (), t)
       | None \<Rightarrow> (Inr (), t))) (\<lambda>_.
     op_bind (load_states True now) (\<lambda>states.
     op_bind (write_capacities now (cleanup_capacities states u ids)) (\<lambda>_.
       (case rid of Some i \<Rightarrow> op_modify (delete_marker i) | None \<Rightarrow> op_return ()))))
     (prune so now s)"

definition cleanup_consumption ::
  "scan_order \<Rightarrow> txn_env \<Rightarrow> usage \<Rightarrow> bucket_id list \<Rightarrow> pystr option \<Rightarrow> int option \<Rightarrow> (sq_state, unit) op" where
  "cleanup_consumption so env u ids rid busy_timeout_ms =
     transaction env busy_timeout_ms False None (cleanup_body so u ids rid)"

section \<open>Changing the maximum\<close>

definition lookup_state :: "bucket_states \<Rightarrow> bucket_id \<Rightarrow> bucket_state result" where
  "lookup_state states k = (case map_of states k of None \<Rightarrow> Inl KeyError | Some st \<Rightarrow> Inr st)"

text \<open>The uncapped amount is written back under the old maximum, so that its overflow survives.\<close>

definition anchor_state :: "pyfloat \<Rightarrow> bucket_id \<Rightarrow> bucket_state \<Rightarrow> (sq_state, unit) op" where
  "anchor_state now k st =
     (if bs_fresh st then op_return () else write_capacities now [(k, bs_uncapped st)])"

definition set_override :: "bucket_id \<Rightarrow> pyfloat \<Rightarrow> pyfloat \<Rightarrow> pyfloat \<Rightarrow> int \<Rightarrow> sq_state \<Rightarrow> sq_state" where
  "set_override k value configured now ttl s =
     update_row k (\<lambda>r. r\<lparr>row_override_value := Some value,
       row_override_expires_at := Some (fadd now (secs (en_override_ttl (sq_eng s)))),
       row_override_configured_max := Some configured, row_updated_at := now,
       row_expires_at := fadd now (secs ttl)\<rparr>) s"

definition clear_override :: "bucket_id \<Rightarrow> pyfloat \<Rightarrow> int \<Rightarrow> sq_state \<Rightarrow> sq_state" where
  "clear_override k now ttl s =
     update_row k (\<lambda>r. r\<lparr>row_override_value := None, row_override_expires_at := None,
       row_override_configured_max := None, row_updated_at := now,
       row_expires_at := fadd now (secs ttl)\<rparr>) s"

definition set_max_body ::
  "scan_order \<Rightarrow> bucket_id \<Rightarrow> pyfloat \<Rightarrow> pyfloat \<Rightarrow> (sq_state, unit) op" where
  "set_max_body so k value now s =
     op_bind (load_states True now) (\<lambda>states.
     op_bind (op_lift (lookup_state states k)) (\<lambda>st.
     op_bind (op_gets (\<lambda>t. en_bucket_ttl (sq_eng t))) (\<lambda>bttl.
     op_bind (op_lift (debt_ttl_seconds (bs_uncapped st) bttl (snd k) value
                         (sp_configured_max (bs_spec st)))) (\<lambda>ttl.
     op_bind (anchor_state now k st) (\<lambda>_.
     op_bind (op_gets (\<lambda>t. map_of (en_bucket_by_id (sq_eng t)) k)) (\<lambda>sp.
       (case sp of None \<Rightarrow> op_raise KeyError
        | Some sp \<Rightarrow> op_modify (set_override k value (sp_configured_max sp) now ttl))))))))
     (prune so now s)"

definition sq_set_max_capacity ::
  "scan_order \<Rightarrow> txn_env \<Rightarrow> bucket_id \<Rightarrow> pyval \<Rightarrow> int option \<Rightarrow> (sq_state, unit) op" where
  "sq_set_max_capacity so env k value busy_timeout_ms s =
     (case validate_max_capacity_finite_positive value of
        Inl e \<Rightarrow> (Inl e, s)
      | Inr v \<Rightarrow>
        if map_of (en_bucket_by_id (sq_eng s)) k = None then (Inl (ValueError ''Bucket not found''), s)
        else transaction env busy_timeout_ms False None (set_max_body so k v) s)"

definition apply_configured_body ::
  "scan_order \<Rightarrow> bucket_id \<Rightarrow> pyfloat \<Rightarrow> pyfloat \<Rightarrow> (sq_state, unit) op" where
  "apply_configured_body so k value now s =
     op_bind (load_states True now) (\<lambda>states.
     op_bind (op_lift (lookup_state states k)) (\<lambda>st.
     op_bind (op_gets (\<lambda>t. en_bucket_ttl (sq_eng t))) (\<lambda>bttl.
     op_bind (op_lift (debt_ttl_seconds (bs_uncapped st) bttl (snd k) value value)) (\<lambda>ttl.
     op_bind (anchor_state now k st) (\<lambda>_.
       op_modify (clear_override k now ttl))))))
     (prune so now s)"

text \<open>The specification is replaced in memory only after the commit.\<close>

definition replace_spec :: "bucket_id \<Rightarrow> pyfloat \<Rightarrow> sq_engine \<Rightarrow> sq_engine" where
  "replace_spec k value en =
     (let sp = \<lparr>sp_metric = fst k, sp_per_seconds = snd k, sp_configured_max = value\<rparr> in
      en\<lparr>en_bucket_by_id := dict_set k sp (en_bucket_by_id en),
         en_buckets := map (\<lambda>old. if spec_id old = k then sp else old) (en_buckets en)\<rparr>)"

definition sq_apply_configured_max_capacity ::
  "scan_order \<Rightarrow> txn_env \<Rightarrow> bucket_id \<Rightarrow> pyval \<Rightarrow> int option \<Rightarrow> (sq_state, unit) op" where
  "sq_apply_configured_max_capacity so env k value busy_timeout_ms s =
     (case validate_max_capacity_finite_positive value of
        Inl e \<Rightarrow> (Inl e, s)
      | Inr v \<Rightarrow>
        if map_of (en_bucket_by_id (sq_eng s)) k = None then (Inl (ValueError ''Bucket not found''), s)
        else op_bind (transaction env busy_timeout_ms False None (apply_configured_body so k v)) (\<lambda>_.
               op_modify (modify_eng (replace_spec k v))) s)"

definition clear_one ::
  "bucket_states \<Rightarrow> capacities \<Rightarrow> pyfloat \<Rightarrow> bucket_id \<Rightarrow> (sq_state, unit) op" where
  "clear_one states configured now k s =
     (case (map_of states k, map_of (en_bucket_by_id (sq_eng s)) k) of
        (Some st, Some sp) \<Rightarrow>
          (let maximum = dict_get configured k (sp_configured_max sp) in
           op_bind (op_lift (debt_ttl_seconds (bs_uncapped st) (en_bucket_ttl (sq_eng s)) (snd k) maximum maximum))
             (\<lambda>ttl. op_modify (clear_override k now ttl)) s)
      | _ \<Rightarrow> (Inl KeyError, s))"

definition clear_body ::
  "scan_order \<Rightarrow> bucket_id list \<Rightarrow> capacities \<Rightarrow> pyfloat \<Rightarrow> (sq_state, unit) op" where
  "clear_body so target configured now s =
     op_bind (load_states True now) (\<lambda>states.
     op_bind (op_lift (for_each target (\<lambda>k acc. bind_res (lookup_state states k) (\<lambda>st.
         Inr (if bs_fresh st then acc else acc @ [(k, bs_uncapped st)]))) [])) (\<lambda>anchored.
     op_bind (if anchored \<noteq> [] then write_capacities now anchored else op_return ()) (\<lambda>_.
       op_for_each target (clear_one states configured now))))
     (prune so now s)"

text \<open>\<open>ids\<close> in the iteration order of the intersection with the engine's own ids.\<close>

definition clear_max_capacity_overrides ::
  "scan_order \<Rightarrow> txn_env \<Rightarrow> bucket_id list \<Rightarrow> capacities \<Rightarrow> int option \<Rightarrow> (sq_state, unit) op" where
  "clear_max_capacity_overrides so env ids configured busy_timeout_ms s =
     (let target = filter (\<lambda>k. k \<in> sq_bucket_ids (sq_eng s)) ids in
      if target = [] then (Inr (), s)
      else transaction env busy_timeout_ms False None (clear_body so target configured) s)"

section \<open>Initialisation and inspection\<close>

definition init_bucket :: "pyfloat \<Rightarrow> bucket_spec \<Rightarrow> (sq_state, unit) op" where
  "init_bucket now sp s =
     op_bind (op_lift (validate_max_capacity_finite_positive (VFloat (sp_configured_max sp)))) (\<lambda>_ t.
       if read_row (spec_id sp) t \<noteq> None then (Inr (), t)
       else insert_row (spec_id sp) (empty_row (sq_eng t) now) t) s"

definition initialize_buckets :: "scan_order \<Rightarrow> txn_env \<Rightarrow> int option \<Rightarrow> (sq_state, unit) op" where
  "initialize_buckets so env busy_timeout_ms =
     transaction env busy_timeout_ms False None (\<lambda>now s.
       op_for_each (en_buckets (sq_eng s)) (init_bucket now) (prune so now s))"

record row_counts =
  n_buckets :: nat
  n_markers :: nat
  n_tombstones :: nat

definition inspect_counts :: "sq_state \<Rightarrow> row_counts" where
  "inspect_counts s =
     (let p = en_key_prefix (sq_eng s) in
      \<lparr>n_buckets = length (filter (\<lambda>(k, r). fst k = p) (db_buckets (sq_db s))),
       n_markers = length (filter (\<lambda>(k, r). fst k = p) (db_markers (sq_db s))),
       n_tombstones = length (filter (\<lambda>(k, r). fst k = p) (db_tombstones (sq_db s)))\<rparr>)"

definition snapshot_of :: "bucket_state \<Rightarrow> bucket_snapshot" where
  "snapshot_of st = \<lparr>sn_spec = bs_spec st, sn_current_capacity = bs_capacity st,
     sn_effective_max = bs_max st, sn_override_active = bs_override_active st,
     sn_fresh = bs_fresh st, sn_missing = bs_missing st\<rparr>"

definition inspect_snapshot ::
  "txn_env \<Rightarrow> int option \<Rightarrow> (sq_state, bucket_snapshot list \<times> row_counts) op" where
  "inspect_snapshot env busy_timeout_ms =
     read_transaction env busy_timeout_ms (\<lambda>now.
       op_bind (load_states False now) (\<lambda>states s.
         (Inr (map (\<lambda>(k, st). snapshot_of st) states, inspect_counts s), s)))"

end
