(* ===== verification/SqliteLaws.thy ===== *)
theory SqliteLaws
  imports SqliteEngine
begin

text \<open>
  What the operations of the SQLite engine do to the tables: the frame of every primitive, the
  read-only view of a bucket row that a load computes, and the invisibility of pruning.
\<close>

named_theorems frame_intros \<open>primitives that change nothing but the rows they name\<close>

section \<open>Tables\<close>

lemma map_of_table_update: "map_of (table_update k f t) k' =
    (if k' = k then map_option f (map_of t k) else map_of t k')"
  by (induction t) (auto simp: table_update_def)

lemma keys_table_update [simp]: "dict_keys (table_update k f t) = dict_keys t"
  by (auto simp: table_update_def dict_keys_def)

lemma table_insert_Inr: "table_insert k r t = Inr t' \<longleftrightarrow> map_of t k = None \<and> t' = t @ [(k, r)]"
  by (auto simp: table_insert_def dict_keys_def map_of_eq_None_iff)

lemma table_insert_Inl: "table_insert k r t = Inl e \<Longrightarrow> map_of t k \<noteq> None"
  by (auto simp: table_insert_def dict_keys_def map_of_eq_None_iff split: if_splits)

lemma map_of_append1: "map_of (t @ [(k, r)]) k' =
    (case map_of t k' of None \<Rightarrow> if k' = k then Some r else None | Some x \<Rightarrow> Some x)"
  by (simp add: map_add_def split: option.split)

lemma set_limit_rows: "set (limit_rows n xs) \<subseteq> set xs"
  by (auto simp: limit_rows_def dest: in_set_takeD)

text \<open>A batch deletion only removes rows that satisfy the condition.\<close>

lemma map_of_delete_batch:
  "map_of (delete_batch scan P n t) k = map_of t k \<or>
   map_of (delete_batch scan P n t) k = None \<and> (\<exists>r. map_of t k = Some r \<and> P r)"
proof -
  define V where "V = set (limit_rows n (filter (\<lambda>k. case map_of t k of Some r \<Rightarrow> P r | None \<Rightarrow> False)
                                (scan (dict_keys t))))"
  have d: "map_of (delete_batch scan P n t) k = (if k \<notin> V then map_of t k else None)"
    using map_of_filter_keys [of "\<lambda>k. k \<notin> V" t k] by (simp add: delete_batch_def Let_def V_def)
  show ?thesis
  proof (cases "k \<in> V")
    case True
    then have "case map_of t k of Some r \<Rightarrow> P r | None \<Rightarrow> False"
      using set_limit_rows unfolding V_def by fastforce
    with d True show ?thesis by (auto split: option.splits)
  qed (simp add: d)
qed

lemma delete_batch_keep: "map_of t k = Some r \<Longrightarrow> \<not> P r \<Longrightarrow> map_of (delete_batch scan P n t) k = Some r"
  using map_of_delete_batch [of scan P n t k] by auto

lemma delete_batch_shrink: "map_of (delete_batch scan P n t) k = Some r \<Longrightarrow> map_of t k = Some r"
  using map_of_delete_batch [of scan P n t k] by auto

section \<open>Frames\<close>

text \<open>
  The part of an engine no load or write of bucket rows changes, and the relation between two
  states that differ only in the rows of the buckets \<open>K\<close> (and in the engine's memory of
  warnings and unconfirmed writes).
\<close>

definition eng_core :: "sq_engine \<Rightarrow> sq_engine" where
  "eng_core en = en\<lparr>en_mismatch_warned := {}, en_pending := []\<rparr>"

definition frame :: "bucket_id set \<Rightarrow> sq_state \<Rightarrow> sq_state \<Rightarrow> bool" where
  "frame K s t \<longleftrightarrow> eng_core (sq_eng t) = eng_core (sq_eng s) \<and>
     db_schema_version (sq_db t) = db_schema_version (sq_db s) \<and>
     db_markers (sq_db t) = db_markers (sq_db s) \<and>
     db_tombstones (sq_db t) = db_tombstones (sq_db s) \<and>
     (\<forall>k. k \<notin> row_key (sq_eng s) ` K \<longrightarrow> map_of (db_buckets (sq_db t)) k = map_of (db_buckets (sq_db s)) k)"

lemma eng_core_sel [simp]:
  "en_db_path (eng_core en) = en_db_path en"
  "en_key_prefix (eng_core en) = en_key_prefix en"
  "en_model_family (eng_core en) = en_model_family en"
  "en_buckets (eng_core en) = en_buckets en"
  "en_bucket_by_id (eng_core en) = en_bucket_by_id en"
  "en_bucket_ttl (eng_core en) = en_bucket_ttl en"
  "en_refund_ttl (eng_core en) = en_refund_ttl en"
  "en_override_ttl (eng_core en) = en_override_ttl en"
  "en_max_lifetime (eng_core en) = en_max_lifetime en"
  "en_prune_batch (eng_core en) = en_prune_batch en"
  "en_confirmed_until (eng_core en) = en_confirmed_until en"
  by (simp_all add: eng_core_def)

lemma eng_core_fields:
  assumes "eng_core en' = eng_core en"
  shows "en_db_path en' = en_db_path en" "en_key_prefix en' = en_key_prefix en"
    "en_model_family en' = en_model_family en" "en_buckets en' = en_buckets en"
    "en_bucket_by_id en' = en_bucket_by_id en" "en_bucket_ttl en' = en_bucket_ttl en"
    "en_refund_ttl en' = en_refund_ttl en" "en_override_ttl en' = en_override_ttl en"
    "en_max_lifetime en' = en_max_lifetime en" "en_prune_batch en' = en_prune_batch en"
    "en_confirmed_until en' = en_confirmed_until en"
  using arg_cong [OF assms, of en_db_path]
    arg_cong [OF assms, of en_key_prefix]
    arg_cong [OF assms, of en_model_family]
    arg_cong [OF assms, of en_buckets]
    arg_cong [OF assms, of en_bucket_by_id]
    arg_cong [OF assms, of en_bucket_ttl]
    arg_cong [OF assms, of en_refund_ttl]
    arg_cong [OF assms, of en_override_ttl]
    arg_cong [OF assms, of en_max_lifetime]
    arg_cong [OF assms, of en_prune_batch]
    arg_cong [OF assms, of en_confirmed_until]
  by simp_all

lemma row_key_core: "eng_core en' = eng_core en \<Longrightarrow> row_key en' = row_key en"
  using eng_core_fields(2,3) [of en' en] by (auto simp: row_key_def fun_eq_iff)

lemma row_key_inj: "row_key en k = row_key en k' \<longleftrightarrow> k = k'"
  by (auto simp: row_key_def prod_eq_iff)

lemma frame_refl [simp, frame_intros]: "frame K s s"
  by (simp add: frame_def)

lemma frame_trans: "frame K s t \<Longrightarrow> frame K t u \<Longrightarrow> frame K s u"
  using row_key_core [of "sq_eng t" "sq_eng s"] by (simp add: frame_def)

lemma frame_mono: "frame K s t \<Longrightarrow> K \<subseteq> L \<Longrightarrow> frame L s t"
  unfolding frame_def by blast

lemma frame_core: "frame K s t \<Longrightarrow> eng_core (sq_eng t) = eng_core (sq_eng s)"
  by (simp add: frame_def)

lemmas frame_fields = frame_core [THEN eng_core_fields(1)] frame_core [THEN eng_core_fields(2)]
  frame_core [THEN eng_core_fields(3)] frame_core [THEN eng_core_fields(4)]
  frame_core [THEN eng_core_fields(5)] frame_core [THEN eng_core_fields(6)]
  frame_core [THEN eng_core_fields(7)] frame_core [THEN eng_core_fields(8)]
  frame_core [THEN eng_core_fields(9)] frame_core [THEN eng_core_fields(10)]
  frame_core [THEN eng_core_fields(11)] frame_core [THEN row_key_core]

lemma frame_markers: "frame K s t \<Longrightarrow> db_markers (sq_db t) = db_markers (sq_db s)"
  by (simp add: frame_def)

lemma frame_tombstones: "frame K s t \<Longrightarrow> db_tombstones (sq_db t) = db_tombstones (sq_db s)"
  by (simp add: frame_def)

lemma frame_read_row: "frame K s t \<Longrightarrow> k \<notin> K \<Longrightarrow> read_row k t = read_row k s"
proof -
  assume f: "frame K s t" and "k \<notin> K"
  then have "row_key (sq_eng s) k \<notin> row_key (sq_eng s) ` K" by (auto simp: row_key_inj)
  with f show ?thesis unfolding read_row_def frame_fields(12) [OF f] frame_def by blast
qed

lemma frame_read_marker: "frame K s t \<Longrightarrow> read_marker i t = read_marker i s"
  using frame_fields(2) [of K s t] frame_markers [of K s t] by (simp add: read_marker_def res_key_def)

lemma frame_read_tombstone: "frame K s t \<Longrightarrow> read_tombstone i t = read_tombstone i s"
  using frame_fields(2) [of K s t] frame_tombstones [of K s t] by (simp add: read_tombstone_def res_key_def)

lemma frame_op_bind:
  assumes "op_bind m f s = (r, u)"
    and "\<And>x t. m s = (x, t) \<Longrightarrow> frame K s t"
    and "\<And>x t. m s = (Inr x, t) \<Longrightarrow> frame K s t \<Longrightarrow> f x t = (r, u) \<Longrightarrow> frame K t u"
  shows "frame K s u"
proof (cases "m s")
  case (Pair x t)
  then show ?thesis using assms frame_trans
    by (cases x) (force simp: op_bind_def)+
qed

text \<open>The primitives.\<close>

lemma sq_eng_modify_db [simp]: "sq_eng (modify_db f s) = sq_eng s"
  by (simp add: modify_db_def)

lemma sq_db_modify_db [simp]: "sq_db (modify_db f s) = f (sq_db s)"
  by (simp add: modify_db_def)

lemma sq_db_modify_eng [simp]: "sq_db (modify_eng f s) = sq_db s"
  by (simp add: modify_eng_def)

lemma sq_eng_modify_eng [simp]: "sq_eng (modify_eng f s) = f (sq_eng s)"
  by (simp add: modify_eng_def)

lemma frame_update_row [frame_intros]: "k \<in> K \<Longrightarrow> frame K s (update_row k f s)"
  by (auto simp: frame_def update_row_def map_of_table_update)

lemma frame_delete_row [frame_intros]: "k \<in> K \<Longrightarrow> frame K s (delete_row k s)"
  by (auto simp: frame_def delete_row_def)

lemma frame_insert_row: "insert_row k r s = (x, t) \<Longrightarrow> k \<in> K \<Longrightarrow> frame K s t"
  by (auto simp: frame_def insert_row_def table_insert_Inr map_add_def
      split: sum.splits option.splits)

lemma frame_set_pending [frame_intros]: "frame K s (set_pending k now s)"
  by (simp add: frame_def set_pending_def eng_core_def)

lemma frame_anchor: "override_anchor_matches sp a s = (x, t) \<Longrightarrow> frame K s t"
  by (auto simp: frame_def override_anchor_matches_def eng_core_def split: if_splits)

lemma read_row_update: "read_row k' (update_row k f s) =
    (if k' = k then map_option f (read_row k s) else read_row k' s)"
  by (simp add: read_row_def update_row_def map_of_table_update row_key_inj)

lemma read_row_delete: "read_row k' (delete_row k s) = (if k' = k then None else read_row k' s)"
  by (simp add: read_row_def delete_row_def row_key_inj)

lemma read_row_set_pending [simp]: "read_row k (set_pending k' now s) = read_row k s"
  by (simp add: read_row_def set_pending_def row_key_def)

lemma read_row_warned [simp]:
  "read_row k (modify_eng (\<lambda>en. en\<lparr>en_mismatch_warned := W en\<rparr>) s) = read_row k s"
  by (simp add: read_row_def row_key_def)

lemma insert_row_absent: "read_row k s = None \<Longrightarrow>
   \<exists>t. insert_row k r s = (Inr (), t) \<and> read_row k t = Some r"
  by (auto simp: insert_row_def read_row_def map_add_def split: sum.split
      dest: table_insert_Inl simp: table_insert_Inr)

section \<open>The read-only view of a bucket\<close>

text \<open>
  What a load computes, as a function of the stored row alone: the reference the writing load
  is compared with.
\<close>

definition anchor_ok :: "bucket_spec \<Rightarrow> pyfloat option \<Rightarrow> bool" where
  "anchor_ok sp anchor \<longleftrightarrow> (case anchor of None \<Rightarrow> False
     | Some a \<Rightarrow> isclose (flit (1 / 1000000000000)) a (sp_configured_max sp))"

definition visible_row :: "pyfloat \<Rightarrow> bucket_row option \<Rightarrow> bucket_row option" where
  "visible_row now row = (case row of None \<Rightarrow> None
     | Some r \<Rightarrow> if fle (row_expires_at r) now \<and> \<not> row_override_live now r then None else Some r)"

definition row_levels :: "pyfloat \<Rightarrow> bucket_row \<Rightarrow> pyfloat option \<times> pyfloat option" where
  "row_levels now r = (if fle (row_expires_at r) now then (None, None)
     else (row_capacity r, row_last_checked r))"

definition override_applies :: "pyfloat \<Rightarrow> bucket_spec \<Rightarrow> bucket_row \<Rightarrow> bool" where
  "override_applies now sp r \<longleftrightarrow>
     row_override_live now r \<and> anchor_ok sp (row_override_configured_max r)"

definition view_loaded :: "pyfloat \<Rightarrow> bucket_spec \<Rightarrow> bucket_row option \<Rightarrow> loaded result" where
  "view_loaded now sp row = (case visible_row now row of
      None \<Rightarrow> bind_res (validate_max_capacity_finite_positive (VFloat (sp_configured_max sp))) (\<lambda>mx.
        Inr \<lparr>ld_capacity = None, ld_last_checked = None, ld_override_active = False, ld_max = mx\<rparr>)
    | Some r \<Rightarrow>
      if override_applies now sp r
      then bind_res (validate_max_capacity_finite_positive (optional_float (row_override_value r))) (\<lambda>mx.
        Inr \<lparr>ld_capacity = fst (row_levels now r), ld_last_checked = snd (row_levels now r),
             ld_override_active = True, ld_max = mx\<rparr>)
      else bind_res (validate_max_capacity_finite_positive (VFloat (sp_configured_max sp))) (\<lambda>mx.
           bind_res (integrate_to_expiry sp r (anchor_ok sp (row_override_configured_max r)) now (row_levels now r))
             (\<lambda>cl. Inr \<lparr>ld_capacity = fst cl, ld_last_checked = snd cl, ld_override_active = False,
                        ld_max = mx\<rparr>)))"

definition view_state :: "sq_engine \<Rightarrow> pyfloat \<Rightarrow> bucket_spec \<Rightarrow> bucket_row option \<Rightarrow> bucket_state result" where
  "view_state en now sp row = bind_res (view_loaded now sp row) (\<lambda>l.
     let lost = state_lost en (spec_id sp) now l in
     bind_res (refill_capacity sp (if lost then Some (Fin 0) else ld_capacity l)
                 (if lost then Some now else ld_last_checked l) now (ld_max l)) (\<lambda>(calculated, uncapped).
       Inr (mk_bucket_state sp l lost calculated uncapped)))"

fun view_states ::
  "sq_engine \<Rightarrow> pyfloat \<Rightarrow> bucket_spec list \<Rightarrow> (bucket_id \<Rightarrow> bucket_row option) \<Rightarrow> bucket_states result" where
  "view_states en now [] rows = Inr []"
| "view_states en now (sp # sps) rows =
     bind_res (view_state en now sp (rows (spec_id sp))) (\<lambda>st.
     bind_res (view_states en now sps rows) (\<lambda>sts. Inr ((spec_id sp, st) # sts)))"

section \<open>Loading one bucket\<close>

lemma override_anchor_matches_Inr:
  "\<exists>t. override_anchor_matches sp a s = (Inr (anchor_ok sp a), t) \<and> frame K s t \<and>
       sq_db t = sq_db s"
  using frame_anchor [of sp a s _ _ K]
  by (cases "override_anchor_matches sp a s")
     (auto simp: override_anchor_matches_def anchor_ok_def split: if_splits option.splits)

lemma read_row_same: "frame K s t \<Longrightarrow> sq_db t = sq_db s \<Longrightarrow> read_row k t = read_row k s"
  using frame_fields(12) [of K s t] by (simp add: read_row_def)

lemma load_absent_view:
  assumes "load_absent writable now sp s = (r, t)" and "writable \<Longrightarrow> read_row (spec_id sp) s = None"
  shows "r = bind_res (validate_max_capacity_finite_positive (VFloat (sp_configured_max sp))) (\<lambda>mx.
        Inr \<lparr>ld_capacity = None, ld_last_checked = None, ld_override_active = False, ld_max = mx\<rparr>) \<and>
    frame {spec_id sp} s t \<and> (writable \<and> isl r = False \<longrightarrow> read_row (spec_id sp) t \<noteq> None) \<and>
    (\<not> writable \<longrightarrow> sq_db t = sq_db s)"
proof (cases "validate_max_capacity_finite_positive (VFloat (sp_configured_max sp))")
  case (Inl e)
  then show ?thesis using assms(1) by (auto simp: load_absent_def op_bind_def op_simps)
next
  case (Inr mx)
  show ?thesis
  proof (cases writable)
    case True
    from insert_row_absent [OF assms(2) [OF True], of "empty_row (sq_eng s) now"] obtain u where
      u: "insert_row (spec_id sp) (empty_row (sq_eng s) now) s = (Inr (), u)"
      "read_row (spec_id sp) u \<noteq> None" by auto
    have "frame {spec_id sp} s u" using u(1) by (rule frame_insert_row) simp
    then show ?thesis using assms(1) Inr True u
      by (auto simp: load_absent_def op_bind_def op_simps)
  next
    case False
    then show ?thesis using assms(1) Inr by (auto simp: load_absent_def op_bind_def op_simps)
  qed
qed

lemma maybe_anchor:
  "\<exists>t. (if c then override_anchor_matches sp a else op_return False) s = (Inr (c \<and> anchor_ok sp a), t) \<and>
       frame K s t \<and> sq_db t = sq_db s"
  using override_anchor_matches_Inr [of sp a s K] by (cases c) (auto simp: op_simps)

lemma frame_clear_expired: "k = spec_id sp \<Longrightarrow> k \<in> K \<Longrightarrow> frame K s (clear_expired_override sp now cl s)"
  by (auto simp: clear_expired_override_def Let_def intro: frame_trans frame_intros)

lemma read_row_clear_expired:
  "read_row k (clear_expired_override sp now cl s) = None \<longleftrightarrow> read_row k s = None"
  by (auto simp: clear_expired_override_def Let_def read_row_update)

lemma integrate_unanchored: "integrate_to_expiry sp r False now cl = Inr cl"
  by (simp add: integrate_to_expiry_def split: option.split prod.split)

lemma integrate_has:
  "integrate_to_expiry sp r (row_override_value r \<noteq> None \<and> row_override_expires_at r \<noteq> None \<and> ok) now cl =
   integrate_to_expiry sp r ok now cl"
  by (auto simp: integrate_to_expiry_def split: option.split prod.split)

lemma load_present_view:
  assumes "load_present writable now sp r s = (x, t)" and "read_row (spec_id sp) s \<noteq> None"
  shows "x = (if override_applies now sp r
      then bind_res (validate_max_capacity_finite_positive (optional_float (row_override_value r))) (\<lambda>mx.
        Inr \<lparr>ld_capacity = fst (row_levels now r), ld_last_checked = snd (row_levels now r),
             ld_override_active = True, ld_max = mx\<rparr>)
      else bind_res (validate_max_capacity_finite_positive (VFloat (sp_configured_max sp))) (\<lambda>mx.
           bind_res (integrate_to_expiry sp r (anchor_ok sp (row_override_configured_max r)) now (row_levels now r))
             (\<lambda>cl. Inr \<lparr>ld_capacity = fst cl, ld_last_checked = snd cl, ld_override_active = False,
                        ld_max = mx\<rparr>))) \<and>
    frame {spec_id sp} s t \<and> read_row (spec_id sp) t \<noteq> None \<and> (\<not> writable \<longrightarrow> sq_db t = sq_db s)"
proof -
  let ?k = "spec_id sp" and ?live = "row_override_live now r" and ?cl = "row_levels now r"
  let ?has = "row_override_value r \<noteq> None \<and> row_override_expires_at r \<noteq> None"
  let ?some = "row_override_value r \<noteq> None \<or> row_override_expires_at r \<noteq> None"
  define s1 where "s1 = (if fle (row_expires_at r) now \<and> writable
    then update_row ?k (\<lambda>r. r\<lparr>row_capacity := None, row_last_checked := None\<rparr>) s else s)"
  have s1: "frame {?k} s s1" "read_row ?k s1 \<noteq> None" "\<not> writable \<longrightarrow> sq_db s1 = sq_db s"
    using assms(2) by (auto simp: s1_def read_row_update intro: frame_intros)
  obtain t1 where t1: "(if ?live then override_anchor_matches sp (row_override_configured_max r)
      else op_return False) s1 = (Inr (override_applies now sp r), t1)" "frame {?k} s1 t1" "sq_db t1 = sq_db s1"
    using maybe_anchor [of ?live sp "row_override_configured_max r" s1 "{?k}"]
    unfolding override_applies_def by blast
  have r1: "frame {?k} s t1" "read_row ?k t1 \<noteq> None" "\<not> writable \<longrightarrow> sq_db t1 = sq_db s"
    using s1 t1 frame_trans read_row_same [OF t1(2,3), of ?k] by (blast, simp_all)
  note run = assms(1) [unfolded load_present_def Let_def, folded s1_def row_levels_def]
  show ?thesis
  proof (cases "override_applies now sp r")
    case True
    then show ?thesis using run r1 t1(1)
      by (auto simp: op_bind_def op_simps split: sum.splits)
  next
    case False
    obtain t2 where t2: "(if ?has then override_anchor_matches sp (row_override_configured_max r)
        else op_return False) t1 = (Inr (?has \<and> anchor_ok sp (row_override_configured_max r)), t2)"
      "frame {?k} t1 t2" "sq_db t2 = sq_db t1"
      using maybe_anchor [of ?has sp "row_override_configured_max r" t1 "{?k}"] by blast
    have r2: "frame {?k} s t2" "read_row ?k t2 \<noteq> None" "\<not> writable \<longrightarrow> sq_db t2 = sq_db s"
      using r1 t2 frame_trans read_row_same [OF t2(2,3), of ?k] by (blast, simp_all)
    have r3: "frame {?k} s (clear_expired_override sp now cl t2)"
      "read_row ?k (clear_expired_override sp now cl t2) \<noteq> None" for cl
      using r2 frame_trans [OF r2(1) frame_clear_expired [of ?k sp "{?k}" t2 now cl]]
      by (simp_all add: read_row_clear_expired)
    have int: "integrate_to_expiry sp r (?has \<and> anchor_ok sp (row_override_configured_max r)) now cl =
        integrate_to_expiry sp r (anchor_ok sp (row_override_configured_max r)) now cl" for cl
      using integrate_has [of sp r] by (simp add: conj_assoc)
    show ?thesis
      using run False r1 t1(1) t2(1) r2 r3
      by (auto simp: op_bind_def op_simps int [simplified] split: sum.splits if_splits)
  qed
qed

lemma load_row_view:
  assumes "load_row writable now sp s = (x, t)"
  shows "x = view_loaded now sp (read_row (spec_id sp) s) \<and> frame {spec_id sp} s t \<and>
    (writable \<and> isl x = False \<longrightarrow> read_row (spec_id sp) t \<noteq> None) \<and> (\<not> writable \<longrightarrow> sq_db t = sq_db s)"
proof (cases "visible_row now (read_row (spec_id sp) s)")
  case None
  define u where "u = (if writable \<and> read_row (spec_id sp) s \<noteq> None then delete_row (spec_id sp) s else s)"
  have run: "load_absent writable now sp u = (x, t)"
    using assms None by (auto simp: load_row_def u_def visible_row_def split: option.splits if_splits)
  have u: "frame {spec_id sp} s u" "writable \<Longrightarrow> read_row (spec_id sp) u = None"
      "\<not> writable \<longrightarrow> u = s"
    by (auto simp: u_def read_row_delete intro: frame_intros)
  from load_absent_view [OF run u(2)] u None show ?thesis
    by (auto simp: view_loaded_def intro: frame_trans)
next
  case (Some r)
  then have r: "read_row (spec_id sp) s = Some r" by (auto simp: visible_row_def split: option.splits if_splits)
  then have run: "load_present writable now sp r s = (x, t)"
    using assms Some by (auto simp: load_row_def visible_row_def split: if_splits)
  from load_present_view [OF run] r Some show ?thesis by (simp add: view_loaded_def)
qed

section \<open>Loading a bucket state\<close>

lemma state_lost_core:
  "eng_core en' = eng_core en \<Longrightarrow> state_lost en' k now l = state_lost en k now l"
  using eng_core_fields(11) [of en' en] by (simp add: state_lost_def state_loss_suspected_def)

lemma frame_drain_lost: "frame {spec_id sp} s (drain_lost w now sp s)"
  by (auto simp: drain_lost_def intro: frame_trans frame_intros)

lemma frame_repair_future: "frame {spec_id sp} s (repair_future w now sp l s)"
  by (auto simp: repair_future_def intro: frame_trans frame_intros)

lemma read_row_drain: "read_row k (drain_lost w now sp s) = None \<longleftrightarrow> read_row k s = None"
  by (auto simp: drain_lost_def read_row_update)

lemma read_row_repair: "read_row k (repair_future w now sp l s) = None \<longleftrightarrow> read_row k s = None"
  by (auto simp: repair_future_def read_row_update)

lemma read_only_load: "drain_lost False now sp s = s" "repair_future False now sp l s = s"
    "extend_for_debt False now sp a mx s = (Inr (), s)"
  by (simp_all add: drain_lost_def repair_future_def extend_for_debt_def)

lemma extend_for_debt_effect:
  assumes "extend_for_debt w now sp a mx s = (x, t)"
  shows "frame {spec_id sp} s t \<and> (read_row k t = None \<longleftrightarrow> read_row k s = None)"
  using assms
  by (auto simp: extend_for_debt_def op_bind_def op_simps read_row_update intro: frame_intros
      split: if_splits sum.splits)

lemma settle_effect:
  assumes "settle writable now sp l lost cap lc s = (x, t)"
  shows "frame {spec_id sp} s t \<and> (read_row k t = None \<longleftrightarrow> read_row k s = None) \<and>
    (\<not> writable \<longrightarrow> t = s \<and> x = bind_res (refill_capacity sp cap lc now (ld_max l))
       (\<lambda>(c, u). Inr (mk_bucket_state sp l lost c u))) \<and>
    (\<forall>st. x = Inr st \<longrightarrow> bind_res (refill_capacity sp cap lc now (ld_max l))
       (\<lambda>(c, u). Inr (mk_bucket_state sp l lost c u)) = Inr st)"
proof (cases "refill_capacity sp cap lc now (ld_max l)")
  case (Inl e)
  then show ?thesis using assms by (auto simp: settle_def op_bind_def op_simps)
next
  case (Inr cu)
  obtain c v where cu: "cu = (c, v)" by (cases cu)
  define f where "f = repair_future writable now sp lc s"
  have f: "frame {spec_id sp} s f" "read_row k f = None \<longleftrightarrow> read_row k s = None" "\<not> writable \<longrightarrow> f = s"
    using frame_repair_future by (auto simp: f_def read_row_repair read_only_load)
  obtain z g where ext: "extend_for_debt writable now sp (amount c) (ld_max l) f = (z, g)"
    by (cases "extend_for_debt writable now sp (amount c) (ld_max l) f")
  note eff = extend_for_debt_effect [OF ext, of k]
  have g: "frame {spec_id sp} s g" using f(1) eff frame_trans by blast
  have ro: "\<not> writable \<longrightarrow> z = Inr () \<and> g = f" using ext by (auto simp: read_only_load)
  show ?thesis using assms Inr cu ext g eff f ro
    by (auto simp: settle_def op_bind_def op_simps f_def [symmetric] split: sum.splits)
qed

lemma load_state_effect:
  assumes "load_state writable now sp s = (x, t)"
  shows "frame {spec_id sp} s t \<and>
    (\<not> writable \<longrightarrow> x = view_state (sq_eng s) now sp (read_row (spec_id sp) s) \<and> sq_db t = sq_db s) \<and>
    (\<forall>st. x = Inr st \<longrightarrow> view_state (sq_eng s) now sp (read_row (spec_id sp) s) = Inr st \<and>
       (writable \<longrightarrow> read_row (spec_id sp) t \<noteq> None))"
proof -
  obtain y u where ld: "load_row writable now sp s = (y, u)" by (cases "load_row writable now sp s")
  have y: "view_loaded now sp (read_row (spec_id sp) s) = y" using load_row_view [OF ld] by simp
  note lv = load_row_view [OF ld, THEN conjunct2]
  show ?thesis
  proof (cases y)
    case (Inl e)
    then show ?thesis using assms ld lv y by (auto simp: load_state_def op_bind_def view_state_def)
  next
    case (Inr l)
    have same: "state_lost (sq_eng u) (spec_id sp) now l = state_lost (sq_eng s) (spec_id sp) now l"
      using lv frame_core state_lost_core by blast
    define lost where "lost = state_lost (sq_eng s) (spec_id sp) now l"
    define d where "d = (if lost then drain_lost writable now sp u else u)"
    have d: "frame {spec_id sp} s d" "read_row (spec_id sp) d = None \<longleftrightarrow> read_row (spec_id sp) u = None"
      "\<not> writable \<longrightarrow> d = u"
      using lv frame_trans [OF _ frame_drain_lost] by (auto simp: d_def read_row_drain read_only_load)
    have run: "settle writable now sp l lost (if lost then Some (Fin 0) else ld_capacity l)
        (if lost then Some now else ld_last_checked l) d = (x, t)"
      using assms ld Inr same by (simp add: load_state_def op_bind_def d_def lost_def split: if_splits)
    note eff = settle_effect [OF run, of "spec_id sp"]
    have v: "view_state (sq_eng s) now sp (read_row (spec_id sp) s) =
      bind_res (refill_capacity sp (if lost then Some (Fin 0) else ld_capacity l)
        (if lost then Some now else ld_last_checked l) now (ld_max l))
        (\<lambda>(c, u). Inr (mk_bucket_state sp l lost c u))"
      using y Inr by (simp add: view_state_def Let_def lost_def)
    have "frame {spec_id sp} s t" using d(1) eff frame_trans by blast
    moreover have "writable \<Longrightarrow> read_row (spec_id sp) u \<noteq> None" using lv Inr by simp
    then have "writable \<Longrightarrow> read_row (spec_id sp) t \<noteq> None"
      using eff [THEN conjunct2, THEN conjunct1] d(2) by simp
    moreover have "\<not> writable \<Longrightarrow> sq_db t = sq_db s" using eff d(3) lv by metis
    ultimately show ?thesis unfolding v using eff by blast
  qed
qed

section \<open>Loading all buckets\<close>

lemma view_state_core:
  "eng_core en' = eng_core en \<Longrightarrow> view_state en' now sp row = view_state en now sp row"
  using state_lost_core [of en' en] by (simp add: view_state_def)

lemma view_states_cong:
  "eng_core en' = eng_core en \<Longrightarrow> (\<And>sp. sp \<in> set sps \<Longrightarrow> rows' (spec_id sp) = rows (spec_id sp)) \<Longrightarrow>
   view_states en' now sps rows' = view_states en now sps rows"
  by (induction sps) (simp_all add: view_state_core [of en' en])

lemma dict_set_fresh: "k \<notin> set (map fst d) \<Longrightarrow> dict_set k v d = d @ [(k, v)]"
  by (induction d rule: dict_set.induct) auto

lemma load_each_effect:
  assumes "load_each writable now sps acc s = (x, t)" "distinct (map fst acc @ map spec_id sps)"
  shows "frame (spec_id ` set sps) s t \<and>
    (\<not> writable \<longrightarrow> sq_db t = sq_db s \<and>
       x = bind_res (view_states (sq_eng s) now sps (\<lambda>k. read_row k s)) (\<lambda>sts. Inr (acc @ sts))) \<and>
    (\<forall>sts. x = Inr sts \<longrightarrow>
       bind_res (view_states (sq_eng s) now sps (\<lambda>k. read_row k s)) (\<lambda>sts. Inr (acc @ sts)) = Inr sts \<and>
       (writable \<longrightarrow> (\<forall>sp \<in> set sps. read_row (spec_id sp) t \<noteq> None)))"
  using assms
proof (induction sps arbitrary: acc s)
  case Nil
  then show ?case by (auto simp: op_simps)
next
  case (Cons sp sps)
  let ?V = "view_states (sq_eng s) now sps (\<lambda>k. read_row k s)"
  obtain y u where ld: "load_state writable now sp s = (y, u)" by (cases "load_state writable now sp s")
  note e = load_state_effect [OF ld]
  have u: "frame {spec_id sp} s u" using e by blast
  show ?case
  proof (cases y)
    case (Inl err)
    have x: "x = Inl err" "t = u" using Cons.prems(1) by (simp_all add: op_bind_def ld Inl)
    have "frame (spec_id ` set (sp # sps)) s u" using u by (rule frame_mono) simp
    moreover have "\<not> writable \<Longrightarrow> view_state (sq_eng s) now sp (read_row (spec_id sp) s) = Inl err \<and> sq_db u = sq_db s"
      using e unfolding Inl by metis
    ultimately show ?thesis unfolding x by auto
  next
    case (Inr st)
    have v: "view_state (sq_eng s) now sp (read_row (spec_id sp) s) = Inr st" using e Inr by blast
    have fresh: "spec_id sp \<notin> set (map fst acc)" "spec_id sp \<notin> spec_id ` set sps"
      using Cons.prems(2) by auto
    have run: "load_each writable now sps (acc @ [(spec_id sp, st)]) u = (x, t)"
      using Cons.prems(1) ld Inr dict_set_fresh [OF fresh(1)] by (simp add: op_bind_def)
    have d: "distinct (map fst (acc @ [(spec_id sp, st)]) @ map spec_id sps)" using Cons.prems(2) by auto
    note ih = Cons.IH [OF run d]
    have rows: "view_states (sq_eng u) now sps (\<lambda>k. read_row k u) = ?V"
    proof (rule view_states_cong)
      show "eng_core (sq_eng u) = eng_core (sq_eng s)" using u by (rule frame_core)
      fix sp' assume "sp' \<in> set sps"
      then have "spec_id sp' \<notin> {spec_id sp}" using fresh(2) by (metis imageI singletonD)
      with u show "read_row (spec_id sp') u = read_row (spec_id sp') s" by (rule frame_read_row)
    qed
    have f: "frame (spec_id ` set (sp # sps)) s t"
      using ih u frame_mono [of "{spec_id sp}" s u "spec_id ` set (sp # sps)"]
        frame_mono [of "spec_id ` set sps" u t "spec_id ` set (sp # sps)"] frame_trans by auto
    have view: "bind_res (view_states (sq_eng s) now (sp # sps) (\<lambda>k. read_row k s)) (\<lambda>sts. Inr (acc @ sts)) =
        bind_res ?V (\<lambda>sts. Inr ((acc @ [(spec_id sp, st)]) @ sts))"
      using v by (cases ?V) simp_all
    have tsp: "writable \<Longrightarrow> read_row (spec_id sp) t \<noteq> None"
      using e Inr frame_read_row [OF ih [THEN conjunct1] fresh(2)] by simp
    have db: "\<not> writable \<Longrightarrow> sq_db t = sq_db s" using e ih by simp
    show ?thesis unfolding view
    proof (intro conjI impI allI)
      show "frame (spec_id ` set (sp # sps)) s t" by (rule f)
      show "sq_db t = sq_db s" if "\<not> writable" using db that by blast
      show "x = bind_res ?V (\<lambda>sts. Inr ((acc @ [(spec_id sp, st)]) @ sts))" if "\<not> writable"
        using ih that unfolding rows by blast
      fix sts assume s: "x = Inr sts"
      show "bind_res ?V (\<lambda>sts. Inr ((acc @ [(spec_id sp, st)]) @ sts)) = Inr sts"
        using ih s unfolding rows by blast
      show "\<forall>sp \<in> set (sp # sps). read_row (spec_id sp) t \<noteq> None" if "writable"
        using ih s that tsp by simp
    qed
  qed
qed

text \<open>An engine whose buckets are those its lookup table names.\<close>

definition engine_wf :: "sq_engine \<Rightarrow> bool" where
  "engine_wf en \<longleftrightarrow> distinct (map spec_id (en_buckets en)) \<and>
     (\<forall>k. map_of (en_bucket_by_id en) k = map_of (map (\<lambda>sp. (spec_id sp, sp)) (en_buckets en)) k)"

abbreviation engine_ids :: "sq_engine \<Rightarrow> bucket_id set" where
  "engine_ids en \<equiv> spec_id ` set (en_buckets en)"

text \<open>The view of a whole database.\<close>

definition engine_view :: "pyfloat \<Rightarrow> sq_state \<Rightarrow> bucket_states result" where
  "engine_view now s = view_states (sq_eng s) now (en_buckets (sq_eng s)) (\<lambda>k. read_row k s)"

lemma load_states_read_only:
  assumes "load_states False now s = (x, t)" "engine_wf (sq_eng s)"
  shows "x = engine_view now s \<and> sq_db t = sq_db s \<and> frame (engine_ids (sq_eng s)) s t"
proof -
  have "distinct (map fst ([]::bucket_states) @ map spec_id (en_buckets (sq_eng s)))"
    using assms(2) by (simp add: engine_wf_def)
  note e = load_each_effect [OF assms(1) [unfolded load_states_def] this, folded engine_view_def]
  have "bind_res r (\<lambda>sts. Inr ([] @ sts)) = r" for r :: "bucket_states result" by (cases r) auto
  then show ?thesis using e by metis
qed

lemma load_states_writable:
  assumes "load_states True now s = (x, t)" "engine_wf (sq_eng s)"
  shows "frame (engine_ids (sq_eng s)) s t"
    and "x = Inr sts \<Longrightarrow> engine_view now s = Inr sts \<and> (\<forall>k \<in> engine_ids (sq_eng s). read_row k t \<noteq> None)"
proof -
  have d: "distinct (map fst ([]::bucket_states) @ map spec_id (en_buckets (sq_eng s)))"
    using assms(2) by (simp add: engine_wf_def)
  note e = load_each_effect [OF assms(1) [unfolded load_states_def] d]
  show "frame (engine_ids (sq_eng s)) s t" using e by blast
  show "engine_view now s = Inr sts \<and> (\<forall>k \<in> engine_ids (sq_eng s). read_row k t \<noteq> None)" if x: "x = Inr sts"
  proof -
    have "bind_res (engine_view now s) (\<lambda>sts. Inr ([] @ sts)) = Inr sts"
      "\<forall>sp \<in> set (en_buckets (sq_eng s)). read_row (spec_id sp) t \<noteq> None"
      using e x unfolding engine_view_def by blast+
    then show ?thesis by (auto simp: bind_res_Inr_iff)
  qed
qed

lemma view_states_Inr:
  "view_states en now sps rows = Inr sts \<Longrightarrow>
     map fst sts = map spec_id sps \<and>
     (\<forall>i < length sps. view_state en now (sps ! i) (rows (spec_id (sps ! i))) = Inr (snd (sts ! i)))"
proof (induction sps arbitrary: sts)
  case (Cons sp sps)
  then obtain st rest where "view_state en now sp (rows (spec_id sp)) = Inr st"
    "view_states en now sps rows = Inr rest" "sts = (spec_id sp, st) # rest"
    by (auto simp: bind_res_Inr_iff)
  with Cons.IH [of rest] show ?case by (auto simp: nth_Cons split: nat.split)
qed simp

lemma view_states_in:
  "view_states en now sps rows = Inr sts \<Longrightarrow> (k, st) \<in> set sts \<Longrightarrow>
     \<exists>sp \<in> set sps. k = spec_id sp \<and> view_state en now sp (rows k) = Inr st"
  by (induction sps arbitrary: sts) (auto simp: bind_res_Inr_iff)

lemma view_states_lookup:
  "view_states en now sps rows = Inr sts \<Longrightarrow> distinct (map spec_id sps) \<Longrightarrow> sp \<in> set sps \<Longrightarrow>
     \<exists>st. map_of sts (spec_id sp) = Some st \<and> view_state en now sp (rows (spec_id sp)) = Inr st"
proof (induction sps arbitrary: sts)
  case (Cons a sps)
  then obtain st rest where r: "view_state en now a (rows (spec_id a)) = Inr st"
    "view_states en now sps rows = Inr rest" "sts = (spec_id a, st) # rest"
    by (auto simp: bind_res_Inr_iff)
  show ?case
  proof (cases "sp = a")
    case False
    then have "sp \<in> set sps" "spec_id sp \<noteq> spec_id a" using Cons.prems(2,3) by (auto simp: rev_image_eqI)
    with Cons.IH [OF r(2)] Cons.prems(2) r(3) show ?thesis by simp
  qed (use r in simp)
qed simp

section \<open>Writing capacities\<close>

text \<open>The maximum a stored row is under, and the row after a write.\<close>

definition row_max :: "pyfloat \<Rightarrow> bucket_spec \<Rightarrow> bucket_row option \<Rightarrow> pyfloat" where
  "row_max now sp row = (case row of None \<Rightarrow> sp_configured_max sp
     | Some r \<Rightarrow> if override_applies now sp r then the (row_override_value r) else sp_configured_max sp)"

definition written :: "pyfloat \<Rightarrow> pyfloat \<Rightarrow> int \<Rightarrow> bucket_row \<Rightarrow> bucket_row" where
  "written now a ttl r = r\<lparr>row_capacity := Some a, row_last_checked := Some now,
     row_updated_at := now, row_expires_at := fadd now (secs ttl)\<rparr>"

lemma written_fun: "written now a ttl = (\<lambda>r. r\<lparr>row_capacity := Some a, row_last_checked := Some now,
     row_updated_at := now, row_expires_at := fadd now (secs ttl)\<rparr>)"
  by (simp add: written_def fun_eq_iff)

definition retention :: "sq_engine \<Rightarrow> pyfloat \<Rightarrow> bucket_spec \<Rightarrow> bucket_row option \<Rightarrow> pyfloat \<Rightarrow> int result" where
  "retention en now sp row a = debt_ttl_seconds a (en_bucket_ttl en) (sp_per_seconds sp)
     (row_max now sp row) (sp_configured_max sp)"

lemma write_maximum_effect:
  "\<exists>t. write_maximum now sp row s = (Inr (row_max now sp row), t) \<and> frame K s t \<and> sq_db t = sq_db s"
proof (cases row)
  case (Some r)
  obtain u where "override_anchor_matches sp (row_override_configured_max r) s =
      (Inr (anchor_ok sp (row_override_configured_max r)), u)" "frame K s u" "sq_db u = sq_db s"
    using override_anchor_matches_Inr by blast
  then show ?thesis using Some
    by (auto simp: write_maximum_def row_max_def override_applies_def op_bind_def op_simps)
qed (simp add: write_maximum_def row_max_def op_simps)

lemma write_capacity_effect:
  assumes "write_capacity now (k, a) s = (x, t)"
    and "map_of (en_bucket_by_id (sq_eng s)) k = Some sp" "spec_id sp = k"
  shows "frame {k} s t \<and>
    (x = Inr () \<longrightarrow> (\<exists>r ttl. isfinite a \<and> read_row k s = Some r \<and>
       retention (sq_eng s) now sp (Some r) a = Inr ttl \<and> read_row k t = Some (written now a ttl r))) \<and>
    (\<forall>r ttl. isfinite a \<longrightarrow> read_row k s = Some r \<longrightarrow> retention (sq_eng s) now sp (Some r) a = Inr ttl \<longrightarrow>
       x = Inr ())"
proof (cases "isfinite a")
  case False
  then show ?thesis using assms(1) by (auto simp: write_capacity_def)
next
  case fin: True
  obtain u where u: "write_maximum now sp (read_row k s) s = (Inr (row_max now sp (read_row k s)), u)"
    "frame {k} s u" "sq_db u = sq_db s" using write_maximum_effect by blast
  have ru: "read_row k u = read_row k s" using u(2,3) by (rule read_row_same)
  have p: "snd k = sp_per_seconds sp" using assms(3) by (auto simp: spec_id_def)
  show ?thesis
  proof (cases "retention (sq_eng s) now sp (read_row k s) a")
    case (Inl e)
    then have "x = Inl e" "t = u"
      using assms(1,2) fin u(1) p by (simp_all add: write_capacity_def op_bind_def op_simps retention_def)
    then show ?thesis using u(2) Inl by auto
  next
    case (Inr ttl)
    have run: "(if read_row k u = None
        then (Inl (RuntimeError ''SQLite bucket disappeared during a write transaction''), u)
        else (Inr (), set_pending k now (update_row k (written now a ttl) u))) = (x, t)"
      using assms(1,2) fin u(1) p Inr
      by (auto simp: write_capacity_def op_bind_def op_simps retention_def written_fun split: if_splits)
    show ?thesis
    proof (cases "read_row k s")
      case None
      then show ?thesis using run ru u(2) by auto
    next
      case (Some r)
      then have "x = Inr ()" "t = set_pending k now (update_row k (written now a ttl) u)"
        using run ru by simp_all
      moreover have "frame {k} s (set_pending k now (update_row k (written now a ttl) u))"
        using u(2) frame_update_row [of k "{k}" u] frame_set_pending frame_trans by blast
      ultimately show ?thesis using Some fin Inr ru by (simp add: read_row_update)
    qed
  qed
qed

lemma engine_wf_lookup:
  assumes "engine_wf en" "k \<in> spec_id ` set (en_buckets en)"
  shows "\<exists>sp \<in> set (en_buckets en). spec_id sp = k \<and> map_of (en_bucket_by_id en) k = Some sp"
proof -
  from assms(2) obtain sp where sp: "sp \<in> set (en_buckets en)" "spec_id sp = k" by auto
  have "distinct (map fst (map (\<lambda>sp. (spec_id sp, sp)) (en_buckets en)))"
    using assms(1) by (simp add: engine_wf_def comp_def)
  moreover have "(k, sp) \<in> set (map (\<lambda>sp. (spec_id sp, sp)) (en_buckets en))" using sp by force
  ultimately have "map_of (map (\<lambda>sp. (spec_id sp, sp)) (en_buckets en)) k = Some sp"
    by (rule map_of_is_SomeI)
  moreover have "map_of (en_bucket_by_id en) k = map_of (map (\<lambda>sp. (spec_id sp, sp)) (en_buckets en)) k"
    using assms(1) unfolding engine_wf_def by blast
  ultimately show ?thesis using sp by auto
qed

lemma engine_wf_core: "eng_core en' = eng_core en \<Longrightarrow> engine_wf en' = engine_wf en"
  using eng_core_fields(4,5) [of en' en] by (simp add: engine_wf_def)

text \<open>The write of a list of capacities: every row gets its amount, no other row changes.\<close>

definition row_written ::
  "sq_engine \<Rightarrow> pyfloat \<Rightarrow> sq_state \<Rightarrow> bucket_id \<Rightarrow> pyfloat \<Rightarrow> bucket_row option \<Rightarrow> bool" where
  "row_written en now s k a row' \<longleftrightarrow> (\<exists>sp r ttl. sp \<in> set (en_buckets en) \<and> spec_id sp = k \<and> isfinite a \<and>
     read_row k s = Some r \<and> retention en now sp (Some r) a = Inr ttl \<and> row' = Some (written now a ttl r))"

lemma retention_core:
  "eng_core en' = eng_core en \<Longrightarrow> retention en' now sp row a = retention en now sp row a"
  using eng_core_fields(6) [of en' en] by (simp add: retention_def)

lemma write_capacities_effect:
  assumes "write_capacities now caps s = (x, t)" "engine_wf (sq_eng s)"
    "distinct (map fst caps)" "fst ` set caps \<subseteq> engine_ids (sq_eng s)"
  shows "frame (fst ` set caps) s t \<and>
    (x = Inr () \<longrightarrow> (\<forall>(k, a) \<in> set caps. row_written (sq_eng s) now s k a (read_row k t)))"
  using assms
proof (induction caps arbitrary: s)
  case Nil
  then show ?case by (simp add: write_capacities_def)
next
  case (Cons ka caps)
  obtain k a where ka: "ka = (k, a)" by (cases ka)
  obtain y u where w: "write_capacity now (k, a) s = (y, u)" by (cases "write_capacity now (k, a) s")
  from Cons.prems(2,4) ka obtain sp where sp: "sp \<in> set (en_buckets (sq_eng s))" "spec_id sp = k"
    "map_of (en_bucket_by_id (sq_eng s)) k = Some sp"
    using engine_wf_lookup [of "sq_eng s" k] by auto
  note e = write_capacity_effect [OF w sp(3,2)]
  have f: "frame (fst ` set (ka # caps)) s u" using e frame_mono [of "{k}" s u] ka by auto
  show ?case
  proof (cases y)
    case (Inl err)
    then have "x = Inl err" "t = u"
      using Cons.prems(1) w ka by (simp_all add: write_capacities_def op_bind_def)
    then show ?thesis using f by simp
  next
    case (Inr v)
    have run: "write_capacities now caps u = (x, t)"
      using Cons.prems(1) w ka Inr by (simp add: write_capacities_def op_bind_def)
    have core: "eng_core (sq_eng u) = eng_core (sq_eng s)" using f by (rule frame_core)
    have ids: "engine_ids (sq_eng u) = engine_ids (sq_eng s)" using eng_core_fields(4) [OF core] by simp
    have wf: "engine_wf (sq_eng u)" using Cons.prems(2) engine_wf_core [OF core] by simp
    have k: "k \<notin> fst ` set caps" "distinct (map fst caps)" using Cons.prems(3) ka by auto
    note ih = Cons.IH [OF run wf k(2)]
    have ih': "frame (fst ` set caps) u t \<and>
        (x = Inr () \<longrightarrow> (\<forall>(k, a) \<in> set caps. row_written (sq_eng u) now u k a (read_row k t)))"
      using ih Cons.prems(4) ids by auto
    have ft: "frame (fst ` set (ka # caps)) s t"
      using f ih' frame_mono [of "fst ` set caps" u t "fst ` set (ka # caps)"] frame_trans by auto
    have here: "row_written (sq_eng s) now s k a (read_row k t)" if "x = Inr ()"
    proof -
      have "read_row k t = read_row k u" using ih' k(1) frame_read_row by blast
      moreover obtain r ttl where "isfinite a" "read_row k s = Some r"
          "retention (sq_eng s) now sp (Some r) a = Inr ttl" "read_row k u = Some (written now a ttl r)"
        using e Inr by auto
      ultimately show ?thesis using sp(1,2) unfolding row_written_def by auto
    qed
    have there: "row_written (sq_eng s) now s k' a' (read_row k' t)"
      if x: "x = Inr ()" and m: "(k', a') \<in> set caps" for k' a'
    proof -
      have "k' \<notin> {k}" using m k(1) by (metis fst_conv imageI singletonD)
      then have same: "read_row k' u = read_row k' s" using e frame_read_row by blast
      have "row_written (sq_eng u) now u k' a' (read_row k' t)" using ih' x m by blast
      then show ?thesis
        unfolding row_written_def same eng_core_fields(4) [OF core] retention_core [OF core] .
    qed
    show ?thesis using ft here there ka by auto
  qed
qed

text \<open>A write that no retention error stops succeeds.\<close>

lemma write_capacities_succeeds:
  assumes "engine_wf (sq_eng s)" "distinct (map fst caps)" "fst ` set caps \<subseteq> engine_ids (sq_eng s)"
    and "\<And>k a. (k, a) \<in> set caps \<Longrightarrow> isfinite a \<and> fle (Fin 0) a \<and> read_row k s \<noteq> None"
  shows "fst (write_capacities now caps s) = Inr ()"
  using assms
proof (induction caps arbitrary: s)
  case Nil
  then show ?case by (simp add: write_capacities_def)
next
  case (Cons ka caps)
  obtain k a where ka: "ka = (k, a)" by (cases ka)
  obtain y u where w: "write_capacity now (k, a) s = (y, u)" by (cases "write_capacity now (k, a) s")
  from Cons.prems(1,3) ka obtain sp where sp: "spec_id sp = k"
    "map_of (en_bucket_by_id (sq_eng s)) k = Some sp"
    using engine_wf_lookup [of "sq_eng s" k] by auto
  note e = write_capacity_effect [OF w sp(2,1)]
  have y: "y = Inr ()"
    using e Cons.prems(4) [of k a] ka by (auto simp: retention_def debt_ttl_nonneg_capacity)
  have core: "eng_core (sq_eng u) = eng_core (sq_eng s)" using e frame_core by blast
  have "fst (write_capacities now caps u) = Inr ()"
  proof (rule Cons.IH)
    show "engine_wf (sq_eng u)" using Cons.prems(1) engine_wf_core [OF core] by simp
    show "distinct (map fst caps)" using Cons.prems(2) by simp
    show "fst ` set caps \<subseteq> engine_ids (sq_eng u)" using Cons.prems(3) eng_core_fields(4) [OF core] by auto
    fix k' a' assume m: "(k', a') \<in> set caps"
    then have "k' \<notin> {k}" using Cons.prems(2) ka by force
    then have "read_row k' u = read_row k' s" using e frame_read_row by blast
    then show "isfinite a' \<and> fle (Fin 0) a' \<and> read_row k' u \<noteq> None"
      using Cons.prems(4) [of k' a'] m by simp
  qed
  then show ?case using w y ka by (simp add: write_capacities_def op_bind_def)
qed

end
