(* ===== verification/SqliteBooks.thy ===== *)
theory SqliteBooks
  imports SqliteLaws
begin

text \<open>
  The two reservation tables of the SQLite engine: expired rows count as absent, whether they
  are still stored or not, so what the engine does to the books is stated over the live rows.
  The abstract registry at the end of the theory is what the tables implement.
\<close>

section \<open>Pruning is invisible\<close>

text \<open>A REAL column never holds NaN: SQLite stores NULL instead.\<close>

definition real_db :: "sqlite_db \<Rightarrow> bool" where
  "real_db db \<longleftrightarrow> (\<forall>k r. map_of (db_buckets db) k = Some r \<longrightarrow> row_override_expires_at r \<noteq> Some NaN)"

lemma prunable_invisible:
  "row_prunable now r \<Longrightarrow> row_override_expires_at r \<noteq> Some NaN \<Longrightarrow> visible_row now (Some r) = None"
  by (cases now) (auto simp: row_prunable_def visible_row_def row_override_live_def not_flt
      split: option.splits elim: flt.elims)

lemma visible_prune:
  assumes "real_db (sq_db s)" "now \<noteq> NaN"
  shows "visible_row now (read_row k (prune so now s)) = visible_row now (read_row k s)"
proof -
  let ?k = "row_key (sq_eng s) k"
  have "read_row k (prune so now s) = map_of (delete_batch (so_buckets so) (row_prunable now)
      (en_prune_batch (sq_eng s)) (db_buckets (sq_db s))) ?k"
    by (simp add: prune_def read_row_def Let_def)
  then consider "read_row k (prune so now s) = read_row k s"
    | r where "read_row k (prune so now s) = None" "read_row k s = Some r" "row_prunable now r"
    using map_of_delete_batch [of "so_buckets so" "row_prunable now" _ "db_buckets (sq_db s)" ?k]
    by (auto simp: read_row_def)
  then show ?thesis
  proof cases
    case 2
    then have "row_override_expires_at r \<noteq> Some NaN"
      using assms(1) unfolding real_db_def read_row_def by blast
    then have "visible_row now (Some r) = None" using 2(3) prunable_invisible by blast
    then show ?thesis using 2(1,2) by (simp add: visible_row_def)
  qed simp
qed

lemma view_state_visible:
  "visible_row now row' = visible_row now row \<Longrightarrow> view_state en now sp row' = view_state en now sp row"
  by (simp add: view_state_def view_loaded_def)

lemma view_states_visible:
  "(\<And>k. visible_row now (rows' k) = visible_row now (rows k)) \<Longrightarrow>
   view_states en now sps rows' = view_states en now sps rows"
proof (induction sps)
  case (Cons sp sps)
  then show ?case using view_state_visible [of now "rows' (spec_id sp)" "rows (spec_id sp)"] by simp
qed simp

lemma sq_eng_prune [simp]: "sq_eng (prune so now s) = sq_eng s"
  by (simp add: prune_def Let_def)

lemma engine_view_prune:
  "real_db (sq_db s) \<Longrightarrow> now \<noteq> NaN \<Longrightarrow> engine_view now (prune so now s) = engine_view now s"
  unfolding engine_view_def sq_eng_prune by (rule view_states_visible) (rule visible_prune)

section \<open>Garbage collection of the books\<close>

text \<open>Between \<open>s\<close> and \<open>t\<close> only rows expired at \<open>now\<close> have gone from the two tables.\<close>

definition gone :: "('r \<Rightarrow> pyfloat) \<Rightarrow> pyfloat \<Rightarrow> 'r option \<Rightarrow> 'r option \<Rightarrow> bool" where
  "gone expiry now before after \<longleftrightarrow> after = before \<or>
     after = None \<and> (\<exists>r. before = Some r \<and> fle (expiry r) now)"

definition gc :: "pyfloat \<Rightarrow> sqlite_db \<Rightarrow> sqlite_db \<Rightarrow> bool" where
  "gc now d e \<longleftrightarrow>
     (\<forall>k. gone mk_expires_at now (map_of (db_markers d) k) (map_of (db_markers e) k)) \<and>
     (\<forall>k. gone tb_expires_at now (map_of (db_tombstones d) k) (map_of (db_tombstones e) k))"

text \<open>The live part of an optional row at a time.\<close>

definition live_at :: "('r \<Rightarrow> pyfloat) \<Rightarrow> pyfloat \<Rightarrow> 'r option \<Rightarrow> 'r option" where
  "live_at expiry now row = (case row of None \<Rightarrow> None
     | Some r \<Rightarrow> if fle (expiry r) now then None else Some r)"

lemma gone_refl [simp]: "gone expiry now x x"
  by (simp add: gone_def)

lemma gone_trans: "gone expiry now x y \<Longrightarrow> gone expiry now y z \<Longrightarrow> gone expiry now x z"
  by (auto simp: gone_def)

lemma gone_live: "gone expiry now x y \<Longrightarrow> fle now now' \<Longrightarrow> live_at expiry now' y = live_at expiry now' x"
  by (auto simp: gone_def live_at_def dest: fle_trans)

lemma gone_Some: "gone expiry now x (Some r) \<Longrightarrow> x = Some r"
  by (simp add: gone_def)

lemma gone_live_kept: "gone expiry now x y \<Longrightarrow> live_at expiry now x = Some r \<Longrightarrow> y = Some r"
  by (auto simp: gone_def live_at_def split: option.splits if_splits)

lemma gc_refl [simp]: "gc now d d"
  by (simp add: gc_def)

lemma gc_trans: "gc now d e \<Longrightarrow> gc now e f \<Longrightarrow> gc now d f"
  unfolding gc_def by (metis gone_trans)

lemma gc_same: "db_markers e = db_markers d \<Longrightarrow> db_tombstones e = db_tombstones d \<Longrightarrow> gc now d e"
  by (simp add: gc_def)

lemma gone_delete_batch:
  "gone expiry now (map_of t k) (map_of (delete_batch scan (\<lambda>r. fle (expiry r) now) n t) k)"
  using map_of_delete_batch [of scan "\<lambda>r. fle (expiry r) now" n t k] by (auto simp: gone_def)

lemma gc_prune: "gc now (sq_db s) (sq_db (prune so now s))"
  by (simp add: gc_def prune_def Let_def gone_delete_batch)

lemma gc_expire_marker: "gc now (sq_db s) (sq_db (expire_marker i now s))"
  by (auto simp: gc_def gone_def expire_marker_def delete_marker_def read_marker_def split: option.splits)

lemma gc_expire_tombstone: "gc now (sq_db s) (sq_db (expire_tombstone i now s))"
  by (auto simp: gc_def gone_def expire_tombstone_def delete_tombstone_def read_tombstone_def
      split: option.splits)

lemma expire_same [simp]:
  "sq_eng (expire_marker i now s) = sq_eng s" "sq_eng (expire_tombstone i now s) = sq_eng s"
  "db_buckets (sq_db (expire_marker i now s)) = db_buckets (sq_db s)"
  "db_buckets (sq_db (expire_tombstone i now s)) = db_buckets (sq_db s)"
  "read_marker j (expire_tombstone i now s) = read_marker j s"
  "read_tombstone j (expire_marker i now s) = read_tombstone j s"
  by (auto simp: expire_marker_def expire_tombstone_def delete_marker_def delete_tombstone_def
      read_marker_def read_tombstone_def split: option.split)

lemma read_expire_marker: "read_marker i (expire_marker i now s) = live_at mk_expires_at now (read_marker i s)"
  by (auto simp: expire_marker_def delete_marker_def read_marker_def live_at_def split: option.split)

lemma read_expire_tombstone:
  "read_tombstone i (expire_tombstone i now s) = live_at tb_expires_at now (read_tombstone i s)"
  by (auto simp: expire_tombstone_def delete_tombstone_def read_tombstone_def live_at_def split: option.split)

text \<open>The engine's own view of the books.\<close>

definition live_marker :: "pyfloat \<Rightarrow> pystr \<Rightarrow> sq_state \<Rightarrow> marker_row option" where
  "live_marker now i s = live_at mk_expires_at now (read_marker i s)"

definition live_tombstone :: "pyfloat \<Rightarrow> pystr \<Rightarrow> sq_state \<Rightarrow> tombstone_row option" where
  "live_tombstone now i s = live_at tb_expires_at now (read_tombstone i s)"

lemma gc_live:
  assumes "gc now (sq_db s) (sq_db t)" "fle now now'" "en_key_prefix (sq_eng t) = en_key_prefix (sq_eng s)"
  shows "live_marker now' i t = live_marker now' i s" "live_tombstone now' i t = live_tombstone now' i s"
proof -
  have k: "res_key (sq_eng t) i = res_key (sq_eng s) i" using assms(3) by (simp add: res_key_def)
  have "gone mk_expires_at now (read_marker i s) (read_marker i t)"
    "gone tb_expires_at now (read_tombstone i s) (read_tombstone i t)"
    using assms(1) unfolding gc_def read_marker_def read_tombstone_def k by blast+
  then show "live_marker now' i t = live_marker now' i s" "live_tombstone now' i t = live_tombstone now' i s"
    unfolding live_marker_def live_tombstone_def using assms(2) gone_live by blast+
qed

lemma prune_live:
  "now \<noteq> NaN \<Longrightarrow> live_marker now i (prune so now s) = live_marker now i s"
  "now \<noteq> NaN \<Longrightarrow> live_tombstone now i (prune so now s) = live_tombstone now i s"
  using gc_live [OF gc_prune [of now s so] fle_refl, of i] by simp_all

section \<open>The checks\<close>

text \<open>The classification of a reused reservation id is a function of the live rows.\<close>

definition acquire_class :: "pyfloat \<Rightarrow> pystr option \<Rightarrow> usage \<Rightarrow> sq_state \<Rightarrow> bool result" where
  "acquire_class now rid u s = (case rid of
      None \<Rightarrow> Inr False
    | Some i \<Rightarrow> (case live_marker now i s of
        Some m \<Rightarrow> if marker_matches m (en_model_family (sq_eng s)) (sq_bucket_ids (sq_eng s)) u
                  then Inr True else Inl (DuplicateRefundError DuplicateAcquire)
      | None \<Rightarrow> if live_tombstone now i s \<noteq> None then Inl (DuplicateRefundError DuplicateAcquire)
                else Inr False))"

lemma raise_if_duplicate_effect:
  "\<exists>t. raise_if_duplicate_acquire rid now u s = (acquire_class now rid u s, t) \<and>
     gc now (sq_db s) (sq_db t) \<and> sq_eng t = sq_eng s \<and> db_buckets (sq_db t) = db_buckets (sq_db s) \<and>
     (\<forall>i. rid = Some i \<longrightarrow> read_marker i t = live_marker now i s)"
proof (cases rid)
  case None
  then show ?thesis by (simp add: raise_if_duplicate_acquire_def acquire_class_def)
next
  case (Some i)
  let ?t = "expire_tombstone i now (expire_marker i now s)"
  have "gc now (sq_db s) (sq_db ?t)" using gc_expire_marker gc_expire_tombstone gc_trans by blast
  moreover have "read_marker i ?t = live_marker now i s" "read_tombstone i ?t = live_tombstone now i s"
    by (simp_all add: live_marker_def live_tombstone_def read_expire_marker read_expire_tombstone)
  ultimately show ?thesis using Some
    by (auto simp: raise_if_duplicate_acquire_def acquire_class_def Let_def split: option.split)
qed

text \<open>So is the authority of a refund.\<close>

definition refund_class ::
  "pyfloat \<Rightarrow> pystr \<Rightarrow> pystr \<Rightarrow> bucket_id set \<Rightarrow> usage \<Rightarrow> sq_state \<Rightarrow> unit result" where
  "refund_class now i family ids u s =
     (if live_tombstone now i s \<noteq> None then Inl (DuplicateRefundError AlreadyRefunded)
      else case live_marker now i s of
        None \<Rightarrow> Inl UnknownReservationError
      | Some m \<Rightarrow> if marker_matches m family ids u then Inr () else Inl UnknownReservationError)"

lemma verify_marker_effect:
  "\<exists>t. verify_marker i family ids u now s = (refund_class now i family ids u s, t) \<and>
     gc now (sq_db s) (sq_db t) \<and> sq_eng t = sq_eng s \<and> db_buckets (sq_db t) = db_buckets (sq_db s) \<and>
     (refund_class now i family ids u s = Inr () \<longrightarrow>
        read_marker i t = live_marker now i s \<and> read_tombstone i t = None)"
proof -
  let ?t = "expire_tombstone i now s" and ?u = "expire_marker i now (expire_tombstone i now s)"
  have "gc now (sq_db s) (sq_db ?t)" "gc now (sq_db s) (sq_db ?u)"
    using gc_expire_marker gc_expire_tombstone gc_trans by blast+
  moreover have "read_marker i ?u = live_marker now i s" "read_tombstone i ?t = live_tombstone now i s"
    "read_tombstone i ?u = live_tombstone now i s"
    by (simp_all add: live_marker_def live_tombstone_def read_expire_marker read_expire_tombstone)
  ultimately show ?thesis
    by (auto simp: verify_marker_def refund_class_def Let_def split: option.split)
qed

end
