(* ===== verification/SqliteOps.thy ===== *)
theory SqliteOps
  imports SqliteBooks
begin

text \<open>
  Case analyses of the transactions of the SQLite engine: what a call that returned has read
  and written, and that a call that raised has left the database as it was.
\<close>

section \<open>Sweeping\<close>

text \<open>
  \<open>t\<close> is \<open>s\<close> after housekeeping at \<open>now\<close>: only what no longer counts has gone.
\<close>

definition swept :: "pyfloat \<Rightarrow> sq_state \<Rightarrow> sq_state \<Rightarrow> bool" where
  "swept now s t \<longleftrightarrow> gc now (sq_db s) (sq_db t) \<and> sq_eng t = sq_eng s \<and>
     (\<forall>k. visible_row now (read_row k t) = visible_row now (read_row k s))"

lemma swept_prune: "real_db (sq_db s) \<Longrightarrow> now \<noteq> NaN \<Longrightarrow> swept now s (prune so now s)"
  by (simp add: swept_def gc_prune visible_prune)

lemma swept_same_rows:
  "gc now (sq_db s) (sq_db t) \<Longrightarrow> sq_eng t = sq_eng s \<Longrightarrow> db_buckets (sq_db t) = db_buckets (sq_db s) \<Longrightarrow>
   swept now s t"
  by (simp add: swept_def read_row_def)

lemma swept_trans: "swept now s t \<Longrightarrow> swept now t u \<Longrightarrow> swept now s u"
  unfolding swept_def using gc_trans by metis

lemma swept_view: "swept now s t \<Longrightarrow> engine_view now t = engine_view now s"
  unfolding engine_view_def swept_def using view_states_visible by metis

lemma swept_gc: "swept now s t \<Longrightarrow> gc now (sq_db s) (sq_db t)"
  by (simp add: swept_def)

lemma swept_eng: "swept now s t \<Longrightarrow> sq_eng t = sq_eng s"
  by (simp add: swept_def)

lemma swept_live:
  assumes "swept now s t" "now \<noteq> NaN"
  shows "live_marker now i t = live_marker now i s" "live_tombstone now i t = live_tombstone now i s"
  using gc_live [OF swept_gc [OF assms(1)] fle_refl [OF assms(2)], of i] swept_eng [OF assms(1)] by simp_all

lemma acquire_class_swept:
  "swept now s t \<Longrightarrow> now \<noteq> NaN \<Longrightarrow> acquire_class now rid u t = acquire_class now rid u s"
  by (cases rid) (auto simp: acquire_class_def swept_live swept_eng split: option.split)

lemma refund_class_swept:
  "swept now s t \<Longrightarrow> now \<noteq> NaN \<Longrightarrow> refund_class now i family ids u t = refund_class now i family ids u s"
  by (simp add: refund_class_def swept_live)

section \<open>Opening an acquisition\<close>

text \<open>The common start of \<open>try_consume\<close> and \<open>consume\<close>: sweep, classify, load.\<close>

lemma frame_gc: "frame K s t \<Longrightarrow> gc now (sq_db s) (sq_db t)"
  by (intro gc_same) (simp_all add: frame_def)

lemma acquire_opening:
  assumes "op_bind (raise_if_duplicate_acquire rid now u) (\<lambda>replay.
      op_bind (load_states True now) (k replay)) (prune so now s) = (x, t)"
    and "engine_wf (sq_eng s)" "real_db (sq_db s)" "now \<noteq> NaN"
  shows "(\<exists>e. x = Inl e) \<or> (\<exists>replay sts s1 s2. acquire_class now rid u s = Inr replay \<and>
     engine_view now s = Inr sts \<and> swept now s s1 \<and> frame (engine_ids (sq_eng s)) s1 s2 \<and>
     (\<forall>b \<in> engine_ids (sq_eng s). read_row b s2 \<noteq> None) \<and>
     (\<forall>i. rid = Some i \<longrightarrow> read_marker i s2 = live_marker now i s) \<and>
     k replay sts s2 = (x, t))"
proof -
  let ?p = "prune so now s"
  have p: "swept now s ?p" using assms(3,4) by (rule swept_prune)
  obtain s1 where s1: "raise_if_duplicate_acquire rid now u ?p = (acquire_class now rid u ?p, s1)"
    "gc now (sq_db ?p) (sq_db s1)" "sq_eng s1 = sq_eng ?p" "db_buckets (sq_db s1) = db_buckets (sq_db ?p)"
    "\<forall>i. rid = Some i \<longrightarrow> read_marker i s1 = live_marker now i ?p"
    using raise_if_duplicate_effect [of rid now u ?p] by (elim exE conjE) (rule that)
  have sw: "swept now s s1" using p swept_same_rows [OF s1(2,3,4)] by (rule swept_trans)
  have cls: "acquire_class now rid u ?p = acquire_class now rid u s" using acquire_class_swept [OF p assms(4)] .
  show ?thesis
  proof (cases "acquire_class now rid u s")
    case (Inl e)
    then show ?thesis using assms(1) s1(1) cls by (auto simp: op_bind_def)
  next
    case (Inr replay)
    obtain y s2 where ld: "load_states True now s1 = (y, s2)" by (cases "load_states True now s1")
    have wf: "engine_wf (sq_eng s1)" using assms(2) swept_eng [OF sw] by simp
    note e = load_states_writable [OF ld wf]
    show ?thesis
    proof (cases y)
      case (Inl e)
      then show ?thesis using assms(1) s1(1) cls Inr ld by (auto simp: op_bind_def)
    next
      case y: (Inr sts)
      have "engine_view now s = Inr sts" using e(2) [OF y] swept_view [OF sw] by simp
      moreover have "frame (engine_ids (sq_eng s)) s1 s2" using e(1) swept_eng [OF sw] by simp
      moreover have "\<forall>b \<in> engine_ids (sq_eng s). read_row b s2 \<noteq> None"
        using e(2) [OF y] swept_eng [OF sw] by simp
      moreover have "k replay sts s2 = (x, t)"
        using assms(1) s1(1) cls Inr ld y by (simp add: op_bind_def)
      moreover have "\<forall>i. rid = Some i \<longrightarrow> read_marker i s2 = live_marker now i s"
        using s1(5) frame_read_marker [OF e(1)] swept_live [OF p assms(4)] by simp
      ultimately show ?thesis using sw Inr by blast
    qed
  qed
qed

section \<open>The marker of an acquisition\<close>

definition new_marker :: "sq_engine \<Rightarrow> usage \<Rightarrow> pyfloat \<Rightarrow> pyfloat \<Rightarrow> marker_row" where
  "new_marker en u now l = \<lparr>mk_model_family = en_model_family en,
     mk_bucket_ids_json = bucket_ids_json (sq_bucket_ids en), mk_reserved_usage_json = usage_json u,
     mk_created_at = now, mk_expires_at = fadd now l\<rparr>"

definition lifetime_ok :: "sq_engine \<Rightarrow> pyfloat \<Rightarrow> bool" where
  "lifetime_ok en l \<longleftrightarrow> isfinite l \<and> \<not> fle l (Fin 0) \<and> \<not> flt (en_max_lifetime en) l"

text \<open>What a granted acquisition adds to the books.\<close>

definition acquired_books ::
  "pyfloat \<Rightarrow> pystr option \<Rightarrow> usage \<Rightarrow> pyfloat option \<Rightarrow> sq_engine \<Rightarrow> sqlite_db \<Rightarrow> sqlite_db \<Rightarrow> bool" where
  "acquired_books now rid u lifetime en d e \<longleftrightarrow> (case rid of
      None \<Rightarrow> gc now d e
    | Some i \<Rightarrow> \<exists>l d'. lifetime = Some l \<and> lifetime_ok en l \<and> gc now d d' \<and>
        map_of (db_markers d') (res_key en i) = None \<and> db_tombstones e = db_tombstones d' \<and>
        db_markers e = db_markers d' @ [(res_key en i, new_marker en u now l)])"

lemma new_marker_core: "eng_core en' = eng_core en \<Longrightarrow> new_marker en' = new_marker en"
  using eng_core_fields(3,5) [of en' en] by (simp add: new_marker_def sq_bucket_ids_def fun_eq_iff)

lemma insert_marker_effect:
  assumes "insert_marker rid u lifetime now s = (Inr v, t)"
  shows "acquired_books now rid u lifetime (sq_eng s) (sq_db s) (sq_db t) \<and> sq_eng t = sq_eng s \<and>
    db_buckets (sq_db t) = db_buckets (sq_db s)"
proof (cases rid)
  case None
  then show ?thesis using assms by (simp add: insert_marker_def acquired_books_def)
next
  case (Some i)
  then obtain l m where l: "lifetime = Some l" "lifetime_ok (sq_eng s) l"
    "table_insert (res_key (sq_eng s) i) (new_marker (sq_eng s) u now l) (db_markers (sq_db s)) = Inr m"
    "t = modify_db (\<lambda>db. db\<lparr>db_markers := m\<rparr>) s"
    using assms by (auto simp: insert_marker_def lifetime_ok_def new_marker_def
        split: option.splits if_splits sum.splits)
  from l(3) have "map_of (db_markers (sq_db s)) (res_key (sq_eng s) i) = None"
    "m = db_markers (sq_db s) @ [(res_key (sq_eng s) i, new_marker (sq_eng s) u now l)]"
    by (simp_all add: table_insert_Inr)
  then have "acquired_books now rid u lifetime (sq_eng s) (sq_db s) (sq_db t)"
    unfolding acquired_books_def Some option.case
    by (intro exI [of _ l] exI [of _ "sq_db s"]) (use l in simp)
  then show ?thesis using l(4) by simp
qed

lemma acquired_books_gc:
  "gc now d d' \<Longrightarrow> acquired_books now rid u lifetime en d' e \<Longrightarrow> acquired_books now rid u lifetime en d e"
proof (cases rid)
  case None
  then show "gc now d d' \<Longrightarrow> ?thesis" if "acquired_books now rid u lifetime en d' e"
    using that gc_trans by (simp add: acquired_books_def)
next
  case (Some i)
  then show "gc now d d' \<Longrightarrow> ?thesis" if "acquired_books now rid u lifetime en d' e"
    using that gc_trans unfolding acquired_books_def Some option.case by blast
qed

lemma acquired_books_core:
  assumes "eng_core en' = eng_core en"
  shows "acquired_books now rid u lifetime en' d e = acquired_books now rid u lifetime en d e"
proof -
  have "res_key en' = res_key en" "lifetime_ok en' = lifetime_ok en"
    using eng_core_fields(2,9) [OF assms] by (simp_all add: res_key_def lifetime_ok_def fun_eq_iff)
  then show ?thesis unfolding acquired_books_def new_marker_core [OF assms] by (simp only:)
qed

text \<open>Write the capacities, then the marker.\<close>

lemma grant_effect:
  assumes "op_bind (write_capacities now caps) (\<lambda>_. op_bind (insert_marker rid u lifetime now)
      (\<lambda>_. op_return v)) s = (x, t)"
    and "engine_wf (sq_eng s)" "map fst caps = map spec_id (en_buckets (sq_eng s))"
  shows "(\<exists>e. x = Inl e) \<or> x = Inr v \<and>
    acquired_books now rid u lifetime (sq_eng s) (sq_db s) (sq_db t) \<and>
    eng_core (sq_eng t) = eng_core (sq_eng s) \<and>
    (\<forall>(k, a) \<in> set caps. row_written (sq_eng s) now s k a (read_row k t))"
proof -
  obtain y s1 where w: "write_capacities now caps s = (y, s1)" by (cases "write_capacities now caps s")
  have d: "distinct (map fst caps)" using assms(2,3) by (simp add: engine_wf_def)
  have ids: "fst ` set caps \<subseteq> engine_ids (sq_eng s)" using assms(3) by (metis set_map subset_refl)
  note e = write_capacities_effect [OF w assms(2) d ids]
  show ?thesis
  proof (cases y)
    case (Inl err)
    then show ?thesis using assms(1) w by (auto simp: op_bind_def)
  next
    case y: (Inr v1)
    obtain z s2 where im: "insert_marker rid u lifetime now s1 = (z, s2)"
      by (cases "insert_marker rid u lifetime now s1")
    show ?thesis
    proof (cases z)
      case (Inl err)
      then show ?thesis using assms(1) w y im by (auto simp: op_bind_def)
    next
      case (Inr v2)
      then have x: "x = Inr v" "t = s2" using assms(1) w y im by (simp_all add: op_bind_def op_simps)
      note ie = insert_marker_effect [OF im [unfolded Inr]]
      have core: "eng_core (sq_eng s1) = eng_core (sq_eng s)" using e frame_core by blast
      have "acquired_books now rid u lifetime (sq_eng s) (sq_db s) (sq_db t)"
        using ie e frame_gc acquired_books_gc acquired_books_core [OF core] x(2) by blast
      moreover have "read_row k t = read_row k s1" for k
        using ie x(2) by (simp add: read_row_def)
      ultimately show ?thesis using x ie e y core by simp
    qed
  qed
qed

lemma view_ids:
  "engine_view now s = Inr sts \<Longrightarrow> map fst sts = map spec_id (en_buckets (sq_eng s))"
  unfolding engine_view_def using view_states_Inr by blast

lemma fst_take_usage [simp]: "map fst (take_usage u sts) = map fst sts"
  by (auto simp: take_usage_def)

lemma fst_take_usage_floored [simp]: "map fst (take_usage_floored u sts) = map fst sts"
  by (auto simp: take_usage_floored_def)

text \<open>The rows after a granted acquisition that leaves the capacities \<open>post\<close>.\<close>

definition rows_hold :: "pyfloat \<Rightarrow> sq_engine \<Rightarrow> capacities \<Rightarrow> sq_state \<Rightarrow> bool" where
  "rows_hold now en post t \<longleftrightarrow> (\<forall>(k, a) \<in> set post. \<exists>r mx ttl sp. read_row k t = Some r \<and>
     isfinite a \<and> row_capacity r = Some a \<and> row_last_checked r = Some now \<and>
     sp \<in> set (en_buckets en) \<and> spec_id sp = k \<and>
     debt_ttl_seconds a (en_bucket_ttl en) (sp_per_seconds sp) mx (sp_configured_max sp) = Inr ttl \<and>
     row_expires_at r = fadd now (secs ttl))"

lemma rows_hold_written:
  assumes "\<forall>(k, a) \<in> set post. row_written en now s k a (read_row k t)"
  shows "rows_hold now en post t"
  using assms unfolding rows_hold_def row_written_def retention_def written_def by fastforce

lemma row_written_core:
  "eng_core en' = eng_core en \<Longrightarrow> row_written en' now s k a row = row_written en now s k a row"
  using eng_core_fields(4) [of en' en] retention_core [of en' en] by (simp add: row_written_def)

text \<open>Everything a returning acquisition can have done.\<close>

definition acquire_done ::
  "pyfloat \<Rightarrow> pystr option \<Rightarrow> usage \<Rightarrow> pyfloat option \<Rightarrow> capacities \<Rightarrow> sq_state \<Rightarrow> sq_state \<Rightarrow> bool" where
  "acquire_done now rid u lifetime post s t \<longleftrightarrow> acquire_class now rid u s = Inr False \<and>
     acquired_books now rid u lifetime (sq_eng s) (sq_db s) (sq_db t) \<and>
     eng_core (sq_eng t) = eng_core (sq_eng s) \<and> rows_hold now (sq_eng s) post t"

definition acquire_idle :: "pyfloat \<Rightarrow> sq_state \<Rightarrow> sq_state \<Rightarrow> bool" where
  "acquire_idle now s t \<longleftrightarrow> gc now (sq_db s) (sq_db t) \<and> eng_core (sq_eng t) = eng_core (sq_eng s)"

lemma grant_done:
  assumes "op_bind (write_capacities now post) (\<lambda>_. op_bind (insert_marker rid u lifetime now)
      (\<lambda>_. op_return v)) s2 = (x, t)"
    and "swept now s s1" "frame (engine_ids (sq_eng s)) s1 s2" "engine_wf (sq_eng s)"
    and "map fst post = map spec_id (en_buckets (sq_eng s))" "acquire_class now rid u s = Inr False"
  shows "(\<exists>e. x = Inl e) \<or> x = Inr v \<and> acquire_done now rid u lifetime post s t"
proof -
  have core: "eng_core (sq_eng s2) = eng_core (sq_eng s)"
    using frame_core [OF assms(3)] swept_eng [OF assms(2)] by simp
  have wf: "engine_wf (sq_eng s2)" using assms(4) engine_wf_core [OF core] by simp
  have ids: "map fst post = map spec_id (en_buckets (sq_eng s2))"
    using assms(5) eng_core_fields(4) [OF core] by simp
  have "gc now (sq_db s) (sq_db s2)"
    using swept_gc [OF assms(2)] frame_gc [OF assms(3)] gc_trans by blast
  then show ?thesis using grant_effect [OF assms(1) wf ids] assms(6) core
    acquired_books_gc [of now "sq_db s" "sq_db s2"] acquired_books_core [OF core]
    row_written_core [OF core] rows_hold_written [of post "sq_eng s" now s2 t]
    unfolding acquire_done_def by auto
qed

lemma try_consume_body_cases:
  assumes "try_consume_body so u rid lifetime now s = (x, t)"
    and "engine_wf (sq_eng s)" "real_db (sq_db s)" "now \<noteq> NaN"
  shows "(\<exists>e. x = Inl e) \<or> (\<exists>sts. engine_view now s = Inr sts \<and>
    (acquire_class now rid u s = Inr True \<and> acquire_idle now s t \<and>
       x = Inr (True, mk_capacity_result now sts (sq_capacities sts) True) \<or>
     acquire_class now rid u s = Inr False \<and> acquire_idle now s t \<and> \<not> usage_available u sts \<and>
       x = Inr (False, mk_capacity_result now sts [] False) \<or>
     \<not> exceeds_max_capacity u sts \<and> usage_available u sts \<and>
       acquire_done now rid u lifetime (take_usage u sts) s t \<and>
       x = Inr (True, mk_capacity_result now sts (take_usage u sts) False)))"
proof -
  from acquire_opening [OF assms(1) [unfolded try_consume_body_def] assms(2-4)]
  consider e where "x = Inl e" | replay sts s1 s2 where
    "acquire_class now rid u s = Inr replay" "engine_view now s = Inr sts" "swept now s s1"
    "frame (engine_ids (sq_eng s)) s1 s2"
    "(if replay then op_return (True, mk_capacity_result now sts (sq_capacities sts) True)
      else if exceeds_max_capacity u sts then op_raise (ValueError ''Usage value exceeds bucket max capacity'')
      else if \<not> usage_available u sts then op_return (False, mk_capacity_result now sts [] False)
      else op_bind (write_capacities now (take_usage u sts)) (\<lambda>_. op_bind (insert_marker rid u lifetime now)
        (\<lambda>_. op_return (True, mk_capacity_result now sts (take_usage u sts) False)))) s2 = (x, t)"
    by blast
  then show ?thesis
  proof cases
    case 2
    have core: "eng_core (sq_eng s2) = eng_core (sq_eng s)" using frame_core [OF 2(4)] swept_eng [OF 2(3)] by simp
    have idle: "acquire_idle now s s2"
      using swept_gc [OF 2(3)] frame_gc [OF 2(4)] gc_trans core unfolding acquire_idle_def by blast
    show ?thesis
    proof (cases "replay \<or> exceeds_max_capacity u sts \<or> \<not> usage_available u sts")
      case True
      then show ?thesis using 2 idle by (auto simp: op_simps split: if_splits)
    next
      case False
      have ids: "map fst (take_usage u sts) = map spec_id (en_buckets (sq_eng s))"
        using view_ids [OF 2(2)] by simp
      have run: "op_bind (write_capacities now (take_usage u sts)) (\<lambda>_. op_bind (insert_marker rid u lifetime now)
          (\<lambda>_. op_return ((True, mk_capacity_result now sts (take_usage u sts) False)))) s2 = (x, t)"
        and cls: "acquire_class now rid u s = Inr False"
        using 2(1,5) False by simp_all
      show ?thesis using grant_done [OF run 2(3,4) assms(2) ids cls] 2(2) False by blast
    qed
  qed blast
qed

lemma consume_body_cases:
  assumes "consume_body so u rid lifetime now s = (x, t)"
    and "engine_wf (sq_eng s)" "real_db (sq_db s)" "now \<noteq> NaN"
  shows "(\<exists>e. x = Inl e) \<or> (\<exists>sts. engine_view now s = Inr sts \<and>
    (acquire_class now rid u s = Inr True \<and> acquire_idle now s t \<and>
       x = Inr (mk_capacity_result now sts (sq_capacities sts) True) \<or>
     acquire_done now rid u lifetime (take_usage_floored u sts) s t \<and>
       x = Inr (mk_capacity_result now sts (take_usage_floored u sts) False)))"
proof -
  from acquire_opening [OF assms(1) [unfolded consume_body_def] assms(2-4)]
  consider e where "x = Inl e" | replay sts s1 s2 where
    "acquire_class now rid u s = Inr replay" "engine_view now s = Inr sts" "swept now s s1"
    "frame (engine_ids (sq_eng s)) s1 s2"
    "(if replay then op_return (mk_capacity_result now sts (sq_capacities sts) True)
      else op_bind (write_capacities now (take_usage_floored u sts)) (\<lambda>_. op_bind (insert_marker rid u lifetime now)
        (\<lambda>_. op_return (mk_capacity_result now sts (take_usage_floored u sts) False)))) s2 = (x, t)"
    by blast
  then show ?thesis
  proof cases
    case 2
    have core: "eng_core (sq_eng s2) = eng_core (sq_eng s)" using frame_core [OF 2(4)] swept_eng [OF 2(3)] by simp
    have idle: "acquire_idle now s s2"
      using swept_gc [OF 2(3)] frame_gc [OF 2(4)] gc_trans core unfolding acquire_idle_def by blast
    show ?thesis
    proof (cases replay)
      case True
      then show ?thesis using 2 idle by (auto simp: op_simps)
    next
      case False
      have ids: "map fst (take_usage_floored u sts) = map spec_id (en_buckets (sq_eng s))"
        using view_ids [OF 2(2)] by simp
      have run: "op_bind (write_capacities now (take_usage_floored u sts)) (\<lambda>_. op_bind (insert_marker rid u lifetime now)
          (\<lambda>_. op_return (mk_capacity_result now sts (take_usage_floored u sts) False))) s2 = (x, t)"
        and cls: "acquire_class now rid u s = Inr False"
        using 2(1,5) False by simp_all
      show ?thesis using grant_done [OF run 2(3,4) assms(2) ids cls] 2(2) False by blast
    qed
  qed blast
qed

section \<open>Refunds\<close>

definition new_tombstone :: "sq_engine \<Rightarrow> pyfloat \<Rightarrow> tombstone_row" where
  "new_tombstone en now = \<lparr>tb_refunded_at = now, tb_expires_at = fadd now (secs (en_refund_ttl en))\<rparr>"

definition identity_ok :: "pyfloat \<Rightarrow> pystr \<Rightarrow> refund_identity \<Rightarrow> sq_state \<Rightarrow> bool" where
  "identity_ok now i idn s \<longleftrightarrow> (\<exists>family ids u. ri_model_family idn = Some family \<and>
     ri_bucket_ids idn = Some ids \<and> ri_reserved_usage idn = Some u \<and>
     refund_class now i family ids u s = Inr ())"

text \<open>What a refund does to the books: the marker goes, a tombstone comes.\<close>

definition refunded_books :: "pyfloat \<Rightarrow> pystr option \<Rightarrow> sq_engine \<Rightarrow> sqlite_db \<Rightarrow> sqlite_db \<Rightarrow> bool" where
  "refunded_books now rid en d e \<longleftrightarrow> (case rid of
      None \<Rightarrow> gc now d e
    | Some i \<Rightarrow> \<exists>d'. gc now d d' \<and> map_of (db_markers d') (res_key en i) \<noteq> None \<and>
        map_of (db_tombstones d') (res_key en i) = None \<and>
        db_markers e = dict_pop (res_key en i) (db_markers d') \<and>
        db_tombstones e = db_tombstones d' @ [(res_key en i, new_tombstone en now)])"

lemma close_marker_effect:
  assumes "close_marker rid now s = (Inr v, t)"
  shows "refunded_books now rid (sq_eng s) (sq_db s) (sq_db t) \<and> sq_eng t = sq_eng s \<and>
    db_buckets (sq_db t) = db_buckets (sq_db s)"
proof (cases rid)
  case None
  then show ?thesis using assms by (simp add: close_marker_def refunded_books_def)
next
  case (Some i)
  then obtain m where m: "read_marker i s \<noteq> None"
    "table_insert (res_key (sq_eng s) i) (new_tombstone (sq_eng s) now) (db_tombstones (sq_db s)) = Inr m"
    "t = modify_db (\<lambda>db. db\<lparr>db_tombstones := m\<rparr>) (delete_marker i s)"
    using assms by (auto simp: close_marker_def new_tombstone_def Let_def delete_marker_def
        split: if_splits sum.splits)
  from m(2) have k: "map_of (db_tombstones (sq_db s)) (res_key (sq_eng s) i) = None"
    "m = db_tombstones (sq_db s) @ [(res_key (sq_eng s) i, new_tombstone (sq_eng s) now)]"
    by (simp_all add: table_insert_Inr)
  have "refunded_books now rid (sq_eng s) (sq_db s) (sq_db t)"
    unfolding refunded_books_def Some option.case
    by (intro exI [of _ "sq_db s"]) (use m k in \<open>simp add: read_marker_def delete_marker_def\<close>)
  then show ?thesis using m(3) by (simp add: delete_marker_def)
qed

lemma refunded_books_gc:
  assumes "gc now d d'" "refunded_books now rid en d' e"
  shows "refunded_books now rid en d e"
proof (cases rid)
  case None
  then show ?thesis using assms gc_trans by (simp add: refunded_books_def)
next
  case (Some i)
  then show ?thesis using assms gc_trans unfolding refunded_books_def Some option.case by blast
qed

lemma refunded_books_core:
  assumes "eng_core en' = eng_core en"
  shows "refunded_books now rid en' d e = refunded_books now rid en d e"
proof -
  have "res_key en' = res_key en" "new_tombstone en' = new_tombstone en"
    using eng_core_fields(2,7) [OF assms] by (simp_all add: res_key_def new_tombstone_def fun_eq_iff)
  then show ?thesis unfolding refunded_books_def by (simp only:)
qed

lemma authorize_refund_effect:
  assumes "authorize_refund rid idn now s = (Inr v, t)"
  shows "gc now (sq_db s) (sq_db t) \<and> sq_eng t = sq_eng s \<and> db_buckets (sq_db t) = db_buckets (sq_db s) \<and>
    (\<forall>i. rid = Some i \<longrightarrow> identity_ok now i idn s)"
proof (cases rid)
  case None
  then show ?thesis using assms by (simp add: authorize_refund_def op_simps)
next
  case (Some i)
  then obtain family ids u where id: "ri_model_family idn = Some family" "ri_bucket_ids idn = Some ids"
    "ri_reserved_usage idn = Some u" "verify_marker i family ids u now s = (Inr v, t)"
    using assms by (auto simp: authorize_refund_def op_simps split: option.splits)
  obtain t' where "verify_marker i family ids u now s = (refund_class now i family ids u s, t')"
    "gc now (sq_db s) (sq_db t')" "sq_eng t' = sq_eng s" "db_buckets (sq_db t') = db_buckets (sq_db s)"
    using verify_marker_effect [of i family ids u now s] by (elim exE conjE) (rule that)
  with id Some show ?thesis by (auto simp: identity_ok_def)
qed

lemma refund_post_keys:
  "refund_post sts refunds ids = Inr post \<Longrightarrow> set ids \<subseteq> fst ` set sts"
proof -
  have "for_each ids (\<lambda>k post. (case map_of sts k of None \<Rightarrow> Inl KeyError
      | Some st \<Rightarrow> (case map_of refunds (sp_metric (bs_spec st)) of None \<Rightarrow> Inl KeyError
        | Some r \<Rightarrow> Inr (dict_set k (refunded_capacity st r) post)))) acc = Inr post \<Longrightarrow>
      set ids \<subseteq> fst ` set sts" for acc
    by (induction ids arbitrary: acc)
       (auto simp: bind_res_Inr_iff split: option.splits dest!: map_of_SomeD intro: rev_image_eqI)
  then show "refund_post sts refunds ids = Inr post \<Longrightarrow> ?thesis" by (simp add: refund_post_def)
qed

text \<open>The part shared by refunds and clean-ups: load, write, then one more statement.\<close>

lemma load_write_effect:
  assumes "op_bind (load_states True now) (\<lambda>sts. op_bind (op_lift (f sts)) (\<lambda>y.
      op_bind (write_capacities now (caps sts y)) (\<lambda>_. k sts y))) s1 = (x, t)"
    and "swept now s s1" "engine_wf (sq_eng s)"
    and "\<And>sts y. engine_view now s = Inr sts \<Longrightarrow> f sts = Inr y \<Longrightarrow>
      distinct (map fst (caps sts y)) \<and> fst ` set (caps sts y) \<subseteq> fst ` set sts"
  shows "(\<exists>e. x = Inl e) \<or> (\<exists>sts y s3. engine_view now s = Inr sts \<and> f sts = Inr y \<and>
     k sts y s3 = (x, t) \<and> gc now (sq_db s1) (sq_db s3) \<and>
     db_markers (sq_db s3) = db_markers (sq_db s1) \<and> eng_core (sq_eng s3) = eng_core (sq_eng s) \<and>
     rows_hold now (sq_eng s) (caps sts y) s3)"
proof -
  obtain z s2 where ld: "load_states True now s1 = (z, s2)" by (cases "load_states True now s1")
  have wf: "engine_wf (sq_eng s1)" using assms(3) swept_eng [OF assms(2)] by simp
  note e = load_states_writable [OF ld wf]
  show ?thesis
  proof (cases z)
    case (Inl err)
    then show ?thesis using assms(1) ld by (auto simp: op_bind_def)
  next
    case z: (Inr sts)
    have view: "engine_view now s = Inr sts" using e(2) [OF z] swept_view [OF assms(2)] by simp
    show ?thesis
    proof (cases "f sts")
      case (Inl err)
      then show ?thesis using assms(1) ld z by (auto simp: op_bind_def op_simps)
    next
      case y: (Inr y)
      have core: "eng_core (sq_eng s2) = eng_core (sq_eng s)"
        using frame_core [OF e(1)] swept_eng [OF assms(2)] by simp
      have wf2: "engine_wf (sq_eng s2)" using assms(3) engine_wf_core [OF core] by simp
      have "fst ` set sts = engine_ids (sq_eng s2)"
        using view_ids [OF view] eng_core_fields(4) [OF core] by (metis set_map)
      then have d: "distinct (map fst (caps sts y))" "fst ` set (caps sts y) \<subseteq> engine_ids (sq_eng s2)"
        using assms(4) [OF view y] by auto
      obtain w s3 where wr: "write_capacities now (caps sts y) s2 = (w, s3)"
        by (cases "write_capacities now (caps sts y) s2")
      note we = write_capacities_effect [OF wr wf2 d]
      have g: "gc now (sq_db s1) (sq_db s3)" using frame_gc [OF e(1)] we frame_gc gc_trans by blast
      have mk: "db_markers (sq_db s3) = db_markers (sq_db s1)" using frame_markers [OF e(1)] we frame_markers by metis
      have core3: "eng_core (sq_eng s3) = eng_core (sq_eng s)" using we frame_core core by metis
      show ?thesis
      proof (cases w)
        case (Inl err)
        then show ?thesis using assms(1) ld z y wr by (auto simp: op_bind_def op_simps)
      next
        case (Inr v)
        then have "\<forall>(b, a) \<in> set (caps sts y). row_written (sq_eng s) now s2 b a (read_row b s3)"
          using we row_written_core [OF core] by auto
        then have "rows_hold now (sq_eng s) (caps sts y) s3" by (rule rows_hold_written)
        moreover have "k sts y s3 = (x, t)" using assms(1) ld z y wr Inr by (simp add: op_bind_def op_simps)
        ultimately show ?thesis using view y g mk core3 by blast
      qed
    qed
  qed
qed

lemma rows_hold_same: "db_buckets (sq_db t) = db_buckets (sq_db s) \<Longrightarrow> sq_eng t = sq_eng s \<Longrightarrow>
   rows_hold now en post t = rows_hold now en post s"
  by (simp add: rows_hold_def read_row_def)

definition refund_writes :: "bucket_id list \<Rightarrow> capacities \<Rightarrow> capacities" where
  "refund_writes ids post = map (\<lambda>k. (k, dict_get post k (Fin 0))) ids"

lemma refund_body_cases:
  assumes "refund_body so refunds ids rid idn now s = (x, t)"
    and "engine_wf (sq_eng s)" "real_db (sq_db s)" "now \<noteq> NaN" "distinct ids"
  shows "(\<exists>e. x = Inl e) \<or> (\<exists>sts post. engine_view now s = Inr sts \<and>
    refund_post sts refunds ids = Inr post \<and> (\<forall>i. rid = Some i \<longrightarrow> identity_ok now i idn s) \<and>
    refunded_books now rid (sq_eng s) (sq_db s) (sq_db t) \<and> eng_core (sq_eng t) = eng_core (sq_eng s) \<and>
    rows_hold now (sq_eng s) (refund_writes ids post) t \<and>
    x = Inr \<lparr>rr_time = now, rr_pre = sq_capacities sts, rr_post = post, rr_refunded = refunds,
      rr_fresh = fresh_ids sts, rr_missing = missing_state_events sts\<rparr>)"
proof -
  let ?p = "prune so now s"
  have p: "swept now s ?p" using assms(3,4) by (rule swept_prune)
  obtain y s1 where au: "authorize_refund rid idn now ?p = (y, s1)" by (cases "authorize_refund rid idn now ?p")
  show ?thesis
  proof (cases y)
    case (Inl e)
    then show ?thesis using assms(1) au by (auto simp: refund_body_def op_bind_def)
  next
    case (Inr v)
    note ae = authorize_refund_effect [OF au [unfolded Inr]]
    have sw: "swept now s s1" using p ae swept_same_rows swept_trans by blast
    have ident: "\<forall>i. rid = Some i \<longrightarrow> identity_ok now i idn s"
      using ae refund_class_swept [OF p assms(4)] unfolding identity_ok_def by metis
    have run: "op_bind (load_states True now) (\<lambda>sts. op_bind (op_lift (refund_post sts refunds ids)) (\<lambda>post.
        op_bind (write_capacities now (refund_writes ids post)) (\<lambda>_. op_bind (close_marker rid now) (\<lambda>_.
          op_return \<lparr>rr_time = now, rr_pre = sq_capacities sts, rr_post = post, rr_refunded = refunds,
            rr_fresh = fresh_ids sts, rr_missing = missing_state_events sts\<rparr>)))) s1 = (x, t)"
      using assms(1) au Inr by (simp add: refund_body_def op_bind_def [of "authorize_refund rid idn now"] refund_writes_def)
    have dist: "distinct (map fst (refund_writes ids post)) \<and> fst ` set (refund_writes ids post) \<subseteq> fst ` set sts"
      if "engine_view now s = Inr sts" "refund_post sts refunds ids = Inr post" for sts post
      using refund_post_keys [OF that(2)] assms(5) by (auto simp: refund_writes_def comp_def)
    from load_write_effect [OF run sw assms(2) dist]
    consider e where "x = Inl e" | sts post s3 where "engine_view now s = Inr sts"
      "refund_post sts refunds ids = Inr post" "gc now (sq_db s1) (sq_db s3)"
      "eng_core (sq_eng s3) = eng_core (sq_eng s)" "rows_hold now (sq_eng s) (refund_writes ids post) s3"
      "op_bind (close_marker rid now) (\<lambda>_.
          op_return \<lparr>rr_time = now, rr_pre = sq_capacities sts, rr_post = post, rr_refunded = refunds,
            rr_fresh = fresh_ids sts, rr_missing = missing_state_events sts\<rparr>) s3 = (x, t)"
      by blast
    then show ?thesis
    proof cases
      case 2
      obtain z s4 where cl: "close_marker rid now s3 = (z, s4)" by (cases "close_marker rid now s3")
      show ?thesis
      proof (cases z)
        case (Inl e)
        then show ?thesis using 2(6) cl by (auto simp: op_bind_def)
      next
        case (Inr w)
        note ce = close_marker_effect [OF cl [unfolded Inr]]
        have t: "t = s4" "x = Inr \<lparr>rr_time = now, rr_pre = sq_capacities sts, rr_post = post, rr_refunded = refunds,
            rr_fresh = fresh_ids sts, rr_missing = missing_state_events sts\<rparr>"
          using 2(6) cl Inr by (simp_all add: op_bind_def op_simps)
        have "gc now (sq_db s) (sq_db s3)" using swept_gc [OF sw] 2(3) gc_trans by blast
        then have "refunded_books now rid (sq_eng s) (sq_db s) (sq_db t)"
          using ce refunded_books_gc refunded_books_core [OF 2(4)] t(1) by blast
        moreover have "rows_hold now (sq_eng s) (refund_writes ids post) t"
          using ce 2(5) rows_hold_same t(1) by blast
        ultimately show ?thesis using 2(1,2,4) ident ce t by simp
      qed
    qed blast
  qed
qed

section \<open>Relations every statement keeps\<close>

text \<open>
  A reflexive and transitive relation between states that the primitive statements keep is
  kept by every program built from them.
\<close>

definition keeps :: "(sq_state \<Rightarrow> sq_state \<Rightarrow> bool) \<Rightarrow> (sq_state, 'a) op \<Rightarrow> bool" where
  "keeps P m \<longleftrightarrow> (\<forall>s x t. m s = (x, t) \<longrightarrow> P s t)"

lemma keepsI: "(\<And>s x t. m s = (x, t) \<Longrightarrow> P s t) \<Longrightarrow> keeps P m"
  by (simp add: keeps_def)

lemma keepsD: "keeps P m \<Longrightarrow> m s = (x, t) \<Longrightarrow> P s t"
  by (simp add: keeps_def)

locale kept_relation =
  fixes P :: "sq_state \<Rightarrow> sq_state \<Rightarrow> bool"
  assumes kept_refl: "P s s"
    and kept_trans: "P s t \<Longrightarrow> P t u \<Longrightarrow> P s u"
    and kept_engine: "P s (modify_eng (\<lambda>en. en\<lparr>en_mismatch_warned := W en, en_pending := Q en\<rparr>) s)"
    and kept_update: "(\<And>r. row_override_expires_at r \<noteq> Some NaN \<Longrightarrow> row_override_expires_at (f r) \<noteq> Some NaN) \<Longrightarrow>
      P s (update_row k f s)"
    and kept_delete: "P s (delete_row k s)"
    and kept_insert: "insert_row k (empty_row en now) s = (x, t) \<Longrightarrow> P s t"
begin

lemma keeps_return: "keeps P (op_return x)" and keeps_lift: "keeps P (op_lift r)"
  and keeps_raise: "keeps P (op_raise e)" and keeps_gets: "keeps P (op_gets g)"
  using kept_refl by (auto simp: keeps_def op_simps)

lemma keeps_modify: "(\<And>s. P s (f s)) \<Longrightarrow> keeps P (op_modify f)"
  by (auto simp: keeps_def op_simps)

lemma keeps_bind: "keeps P m \<Longrightarrow> (\<And>x. keeps P (f x)) \<Longrightarrow> keeps P (op_bind m f)"
proof (rule keepsI)
  fix s x t assume m: "keeps P m" and f: "\<And>x. keeps P (f x)" and run: "op_bind m f s = (x, t)"
  obtain y u where y: "m s = (y, u)" by (cases "m s")
  show "P s t"
  proof (cases y)
    case (Inl e)
    then show ?thesis using run y keepsD [OF m y] by (simp add: op_bind_def)
  next
    case (Inr v)
    then have "f v u = (x, t)" using run y by (simp add: op_bind_def)
    then show ?thesis using keepsD [OF m y] keepsD [OF f] kept_trans by blast
  qed
qed

lemma kept_run:
  assumes "op_bind m f s = (x, t)" "keeps P m" "\<And>x. keeps P (f x)"
  shows "P s t"
  using keepsD [OF keeps_bind [OF assms(2,3)] assms(1)] .

lemma keeps_for_each: "(\<And>x. keeps P (b x)) \<Longrightarrow> keeps P (op_for_each xs b)"
proof (induction xs)
  case Nil
  then show ?case using kept_refl by (simp add: keeps_def)
next
  case (Cons x xs)
  have "op_for_each (x # xs) b = op_bind (b x) (\<lambda>_. op_for_each xs b)" by (rule ext) simp
  moreover have "keeps P (op_bind (b x) (\<lambda>_. op_for_each xs b))" using Cons.prems Cons.IH [OF Cons.prems] by (intro keeps_bind)
  ultimately show ?case by (simp only:)
qed

lemma keeps_if: "(c \<Longrightarrow> keeps P m) \<Longrightarrow> (\<not> c \<Longrightarrow> keeps P m') \<Longrightarrow> keeps P (if c then m else m')"
  by simp

lemma kept_pending: "P s (set_pending k now s)"
  using kept_engine [where W = en_mismatch_warned and Q = "\<lambda>en. dict_set k now (en_pending en)"]
  by (simp add: set_pending_def modify_eng_def)

lemma keeps_anchor: "keeps P (override_anchor_matches sp a)"
  using kept_engine [where W = "\<lambda>en. insert (spec_id sp) (en_mismatch_warned en)" and Q = en_pending] kept_refl
  by (auto simp: keeps_def override_anchor_matches_def modify_eng_def split: if_splits)

lemma keeps_load_absent: "keeps P (load_absent w now sp)"
proof -
  have "keeps P (\<lambda>s. (if w then insert_row (spec_id sp) (empty_row (sq_eng s) now) else op_return ()) s)"
    using kept_insert kept_refl by (auto simp: keeps_def op_simps)
  then have i: "keeps P (\<lambda>s. op_bind (if w then insert_row (spec_id sp) (empty_row en now) else op_return ())
      (\<lambda>_. op_return l) s)" for en l
    using keeps_return kept_insert kept_refl kept_trans
    by (intro keeps_bind) (auto simp: keeps_def op_simps)
  show ?thesis
    unfolding keeps_def load_absent_def
  proof (intro allI impI)
    fix s x t
    assume run: "op_bind (op_lift (validate_max_capacity_finite_positive (VFloat (sp_configured_max sp)))) (\<lambda>mx.
      op_bind (if w then insert_row (spec_id sp) (empty_row (sq_eng s) now) else op_return ()) (\<lambda>_.
       op_return \<lparr>ld_capacity = None, ld_last_checked = None, ld_override_active = False, ld_max = mx\<rparr>)) s = (x, t)"
    show "P s t"
      by (rule kept_run [OF run keeps_lift], rule i)
  qed
qed

lemma kept_clear_expired: "P s (clear_expired_override sp now cl s)"
  using kept_trans [OF kept_update kept_pending] kept_update
  by (auto simp: clear_expired_override_def Let_def)

lemma keeps_load_row: "keeps P (load_row w now sp)"
proof (rule keepsI)
  fix s x t assume run: "load_row w now sp s = (x, t)"
  have ab: "load_absent w now sp u = (y, v) \<Longrightarrow> P u v" for u y v using keeps_load_absent keepsD by blast
  have pr: "load_present w now sp r s = (x, t) \<Longrightarrow> P s t" for r
  proof -
    assume lp: "load_present w now sp r s = (x, t)"
    define s1 where "s1 = (if fle (row_expires_at r) now \<and> w
      then update_row (spec_id sp) (\<lambda>r. r\<lparr>row_capacity := None, row_last_checked := None\<rparr>) s else s)"
    have "P s s1" using kept_update kept_refl by (auto simp: s1_def)
    moreover have "P s1 t"
      by (rule kept_run [OF lp [unfolded load_present_def Let_def, folded s1_def]])
         (intro keeps_bind keeps_lift keeps_return keeps_modify kept_clear_expired keeps_anchor
           keeps_if)+
    ultimately show "P s t" by (rule kept_trans)
  qed
  show "P s t"
    using run ab pr kept_trans [OF kept_delete ab]
    by (auto simp: load_row_def split: option.splits if_splits)
qed

lemma keeps_settle: "keeps P (settle w now sp l lost cap lc)"
proof -
  have "P s (repair_future w now sp lc s)" for s
    using kept_trans [OF kept_update kept_pending] kept_refl by (auto simp: repair_future_def)
  moreover have "keeps P (extend_for_debt w now sp a mx)" for a mx
  proof (rule keepsI)
    fix s x t assume e: "extend_for_debt w now sp a mx s = (x, t)"
    show "P s t"
    proof (cases "w \<and> flt a (Fin 0)")
      case True
      with e have run: "op_bind (op_lift (debt_ttl_seconds a (en_bucket_ttl (sq_eng s)) (sp_per_seconds sp) mx
          (sp_configured_max sp))) (\<lambda>ttl. op_modify (update_row (spec_id sp)
            (\<lambda>r. r\<lparr>row_expires_at := fmax (row_expires_at r) (fadd now (secs ttl))\<rparr>))) s = (x, t)"
        by (simp add: extend_for_debt_def)
      show ?thesis
        by (rule kept_run [OF run keeps_lift]) (intro keeps_modify kept_update, simp)
    qed (use e kept_refl in \<open>auto simp: extend_for_debt_def split: if_splits\<close>)
  qed
  ultimately show ?thesis unfolding settle_def
    by (intro keeps_bind keeps_lift) (auto intro!: keeps_bind keeps_modify keeps_return)
qed

lemma keeps_load_state: "keeps P (load_state w now sp)"
proof -
  have "P s (drain_lost w now sp s)" for s
    using kept_trans [OF kept_update kept_pending] kept_refl by (auto simp: drain_lost_def)
  then have d: "settle w now sp l lost cap lc (drain_lost w now sp s) = (x, t) \<Longrightarrow> P s t" for l lost cap lc s x t
    using keepsD [OF keeps_settle] kept_trans by blast
  have "keeps P (\<lambda>s. if state_lost (sq_eng s) (spec_id sp) now l
      then settle w now sp l True (Some (Fin 0)) (Some now) (drain_lost w now sp s)
      else settle w now sp l False (ld_capacity l) (ld_last_checked l) s)" for l
    using d keepsD [OF keeps_settle] by (intro keepsI) (auto split: if_splits)
  then show ?thesis unfolding load_state_def by (intro keeps_bind keeps_load_row)
qed

lemma keeps_load_states: "keeps P (load_states w now)"
proof -
  have "keeps P (load_each w now sps acc)" for sps acc
    by (induction sps arbitrary: acc) (auto intro!: keeps_return keeps_bind keeps_load_state)
  then show ?thesis by (auto simp: keeps_def load_states_def)
qed

lemma keeps_write_capacities: "keeps P (write_capacities now caps)"
proof -
  have wm: "keeps P (write_maximum now sp row)" for sp row
    by (auto simp: write_maximum_def split: option.split intro!: keeps_return keeps_bind keeps_anchor)
  have "keeps P (write_capacity now ka)" for ka
  proof (rule keepsI)
    fix s x t assume w: "write_capacity now ka s = (x, t)"
    obtain k a where ka: "ka = (k, a)" by (cases ka)
    have last: "keeps P (\<lambda>t. if read_row k t = None
         then (Inl (RuntimeError ''SQLite bucket disappeared during a write transaction''), t)
         else (Inr (), set_pending k now (update_row k (\<lambda>r. r\<lparr>row_capacity := Some a,
                   row_last_checked := Some now, row_updated_at := now,
                   row_expires_at := fadd now (secs ttl)\<rparr>) t)))" for ttl
      using kept_trans [OF kept_update kept_pending] kept_refl by (auto simp: keeps_def split: if_splits)
    show "P s t"
    proof (cases "isfinite a \<and> map_of (en_bucket_by_id (sq_eng s)) k \<noteq> None")
      case True
      then obtain sp where "op_bind (write_maximum now sp (read_row k s)) (\<lambda>maximum.
         op_bind (op_lift (debt_ttl_seconds a (en_bucket_ttl (sq_eng s)) (snd k) maximum
                             (sp_configured_max sp))) (\<lambda>ttl t.
           if read_row k t = None
           then (Inl (RuntimeError ''SQLite bucket disappeared during a write transaction''), t)
           else (Inr (), set_pending k now (update_row k (\<lambda>r. r\<lparr>row_capacity := Some a,
                   row_last_checked := Some now, row_updated_at := now,
                   row_expires_at := fadd now (secs ttl)\<rparr>) t)))) s = (x, t)"
        using w ka by (auto simp: write_capacity_def)
      then show ?thesis by (rule kept_run) (intro keeps_bind keeps_lift wm last)+
    next
      case False
      then have "t = s" using w ka by (auto simp: write_capacity_def split: if_splits option.splits)
      then show ?thesis using kept_refl by simp
    qed
  qed
  then show ?thesis unfolding write_capacities_def by (rule keeps_for_each)
qed

end

lemma fadd_not_NaN_rnd: "fadd (Fin q) (rnd x) \<noteq> NaN"
proof (cases "rnd x")
  case NaN
  then show ?thesis using rnd_not_NaN [of x] by blast
qed simp_all

context kept_relation
begin

lemma kept_set_override: "isfinite now \<Longrightarrow> P s (set_override k v c now ttl s)"
  unfolding set_override_def
  by (rule kept_update) (auto simp: isfinite_Fin secs_def fadd_not_NaN_rnd)

lemma kept_clear_override: "P s (clear_override k now ttl s)"
  unfolding clear_override_def by (rule kept_update) simp

lemma keeps_anchor_state: "keeps P (anchor_state now k st)"
  unfolding anchor_state_def by (intro keeps_if keeps_return keeps_write_capacities)

text \<open>The maintenance transactions, after their sweep.\<close>

lemma kept_set_max:
  "set_max_body so k v now s = (x, t) \<Longrightarrow> isfinite now \<Longrightarrow> P (prune so now s) t"
  unfolding set_max_body_def
  by (erule kept_run)
     (auto intro!: keeps_load_states keeps_bind keeps_lift keeps_gets keeps_anchor_state
        keeps_raise keeps_modify kept_set_override split: option.split)

lemma kept_apply_configured:
  "apply_configured_body so k v now s = (x, t) \<Longrightarrow> P (prune so now s) t"
  unfolding apply_configured_body_def
  by (erule kept_run)
     (auto intro!: keeps_load_states keeps_bind keeps_lift keeps_gets keeps_anchor_state
        keeps_modify kept_clear_override)

lemma keeps_clear_one: "keeps P (clear_one states configured now k)"
proof (rule keepsI)
  fix s x t assume run: "clear_one states configured now k s = (x, t)"
  show "P s t"
  proof (cases "map_of states k \<noteq> None \<and> map_of (en_bucket_by_id (sq_eng s)) k \<noteq> None")
    case True
    then obtain st sp where st: "map_of states k = Some st" "map_of (en_bucket_by_id (sq_eng s)) k = Some sp" by blast
    define mx where "mx = dict_get configured k (sp_configured_max sp)"
    have "op_bind (op_lift (debt_ttl_seconds (bs_uncapped st) (en_bucket_ttl (sq_eng s))
        (snd k) mx mx)) (\<lambda>ttl. op_modify (clear_override k now ttl)) s = (x, t)"
      using run st by (simp add: clear_one_def Let_def mx_def)
    then show ?thesis by (rule kept_run) (intro keeps_lift keeps_modify kept_clear_override)+
  next
    case False
    then have "t = s" using run by (auto simp: clear_one_def split: option.splits)
    then show ?thesis using kept_refl by simp
  qed
qed

lemma kept_clear:
  "clear_body so target configured now s = (x, t) \<Longrightarrow> P (prune so now s) t"
  unfolding clear_body_def
  by (erule kept_run)
     (auto intro!: keeps_load_states keeps_bind keeps_lift keeps_return keeps_write_capacities
        keeps_for_each keeps_clear_one)

lemma keeps_init_bucket: "keeps P (init_bucket now sp)"
proof (rule keepsI)
  fix s x t assume run: "init_bucket now sp s = (x, t)"
  have "keeps P (\<lambda>t. if read_row (spec_id sp) t \<noteq> None then (Inr (), t)
      else insert_row (spec_id sp) (empty_row (sq_eng t) now) t)"
    using kept_insert kept_refl by (auto simp: keeps_def split: if_splits)
  then show "P s t" by (intro kept_run [OF run [unfolded init_bucket_def] keeps_lift])
qed

end

text \<open>
  A kept relation that pruning keeps too, and that sees neither markers nor tombstones, is
  kept by every call.
\<close>

locale kept_call = kept_relation +
  assumes kept_prune: "P s (prune so now s)"
    and kept_books: "sq_eng t = sq_eng s \<Longrightarrow> db_buckets (sq_db t) = db_buckets (sq_db s) \<Longrightarrow> P s t"
begin

lemma keeps_raise_if_duplicate: "keeps P (raise_if_duplicate_acquire rid now u)"
proof (rule keepsI)
  fix s x t assume "raise_if_duplicate_acquire rid now u s = (x, t)"
  then show "P s t" using raise_if_duplicate_effect [of rid now u s] kept_books by auto
qed

lemma keeps_insert_marker: "keeps P (insert_marker rid u lifetime now)"
  by (rule keepsI, rule kept_books) (auto simp: insert_marker_def split: option.splits if_splits sum.splits)

lemma keeps_verify_marker: "keeps P (verify_marker i family ids u now)"
proof (rule keepsI)
  fix s x t assume "verify_marker i family ids u now s = (x, t)"
  then show "P s t" using verify_marker_effect [of i family ids u now s] kept_books by auto
qed

lemma keeps_authorize: "keeps P (authorize_refund rid idn now)"
  unfolding authorize_refund_def
  by (auto intro!: keeps_return keeps_raise keeps_verify_marker split: option.split)

lemma kept_delete_marker: "P s (delete_marker i s)"
  by (rule kept_books) (simp_all add: delete_marker_def)

lemma keeps_close_marker: "keeps P (close_marker rid now)"
  by (rule keepsI, rule kept_books)
     (auto simp: close_marker_def delete_marker_def Let_def split: option.splits if_splits sum.splits)

lemma kept_try_consume:
  assumes "try_consume_body so u rid lifetime now s = (x, t)"
  shows "P s t"
proof -
  have "P (prune so now s) t"
    by (rule kept_run [OF assms [unfolded try_consume_body_def]])
       (intro keeps_raise_if_duplicate keeps_bind keeps_load_states keeps_if
          keeps_return keeps_raise keeps_write_capacities keeps_insert_marker)+
  with kept_prune show ?thesis by (rule kept_trans)
qed

lemma kept_consume:
  assumes "consume_body so u rid lifetime now s = (x, t)"
  shows "P s t"
proof -
  have "P (prune so now s) t"
    by (rule kept_run [OF assms [unfolded consume_body_def]])
       (intro keeps_raise_if_duplicate keeps_bind keeps_load_states keeps_if
          keeps_return keeps_write_capacities keeps_insert_marker)+
  with kept_prune show ?thesis by (rule kept_trans)
qed

lemma kept_refund:
  assumes "refund_body so refunds ids rid idn now s = (x, t)"
  shows "P s t"
proof -
  have "P (prune so now s) t"
    by (rule kept_run [OF assms [unfolded refund_body_def]])
       (intro keeps_authorize keeps_bind keeps_load_states keeps_lift
          keeps_return keeps_write_capacities keeps_close_marker)+
  with kept_prune show ?thesis by (rule kept_trans)
qed

lemma kept_cleanup:
  assumes "cleanup_body so u ids rid now s = (x, t)"
  shows "P s t"
proof -
  have c: "keeps P (\<lambda>t. (case rid of
         Some i \<Rightarrow> if read_marker i t = None then (Inl UnknownReservationError, t) else (Inr (), t)
       | None \<Rightarrow> (Inr (), t)))"
    using kept_refl by (auto simp: keeps_def split: option.splits if_splits)
  have d: "keeps P (case rid of Some i \<Rightarrow> op_modify (delete_marker i) | None \<Rightarrow> op_return ())"
    by (auto intro!: keeps_modify kept_delete_marker keeps_return split: option.split)
  have "P (prune so now s) t"
    by (rule kept_run [OF assms [unfolded cleanup_body_def]])
       (intro c d keeps_bind keeps_load_states keeps_write_capacities)+
  with kept_prune show ?thesis by (rule kept_trans)
qed

lemma kept_initialize:
  "op_for_each (en_buckets (sq_eng s)) (init_bucket now) (prune so now s) = (x, t) \<Longrightarrow> P s t"
  using kept_trans [OF kept_prune keepsD [OF keeps_for_each [OF keeps_init_bucket]]] .

lemmas kept_calls = kept_try_consume kept_consume kept_refund kept_cleanup kept_initialize
  kept_trans [OF kept_prune kept_set_max] kept_trans [OF kept_prune kept_apply_configured]
  kept_trans [OF kept_prune kept_clear]

end

definition real_kept :: "sq_state \<Rightarrow> sq_state \<Rightarrow> bool" where
  "real_kept s t \<longleftrightarrow> (real_db (sq_db s) \<longrightarrow> real_db (sq_db t))"

definition books_kept :: "sq_state \<Rightarrow> sq_state \<Rightarrow> bool" where
  "books_kept s t \<longleftrightarrow> db_markers (sq_db t) = db_markers (sq_db s) \<and>
     db_tombstones (sq_db t) = db_tombstones (sq_db s) \<and>
     en_key_prefix (sq_eng t) = en_key_prefix (sq_eng s) \<and> en_refund_ttl (sq_eng t) = en_refund_ttl (sq_eng s)"

lemma real_db_update:
  "(\<And>r. row_override_expires_at r \<noteq> Some NaN \<Longrightarrow> row_override_expires_at (f r) \<noteq> Some NaN) \<Longrightarrow>
   real_db d \<Longrightarrow> real_db (d\<lparr>db_buckets := table_update k f (db_buckets d)\<rparr>)"
  unfolding real_db_def
  by (auto simp: map_of_table_update split: if_splits)

interpretation real: kept_call real_kept
proof unfold_locales
  show "real_kept s (prune so now s)" for s so now
    unfolding real_kept_def real_db_def by (auto simp: prune_def Let_def dest!: delete_batch_shrink)
  show "real_kept s t" if "sq_eng t = sq_eng s" "db_buckets (sq_db t) = db_buckets (sq_db s)" for s t
    using that by (simp add: real_kept_def real_db_def)
  show "real_kept s (update_row k f s)"
    if "\<And>r. row_override_expires_at r \<noteq> Some NaN \<Longrightarrow> row_override_expires_at (f r) \<noteq> Some NaN" for s k f
    using real_db_update that by (simp add: real_kept_def update_row_def)
  show "real_kept s (delete_row k s)" for s k
    unfolding real_kept_def real_db_def delete_row_def by (auto split: if_splits)
  show "real_kept s t" if i: "insert_row k (empty_row en now) s = (x, t)" for s t k en now x
  proof (cases x)
    case (Inl e)
    then show ?thesis using i by (auto simp: insert_row_def real_kept_def split: sum.splits)
  next
    case (Inr u)
    with i have "sq_db t = (sq_db s)\<lparr>db_buckets := db_buckets (sq_db s) @ [(row_key (sq_eng s) k, empty_row en now)]\<rparr>"
      by (auto simp: insert_row_def table_insert_Inr split: sum.splits)
    then show ?thesis unfolding real_kept_def real_db_def
      by (auto simp: map_add_def empty_row_def split: option.splits if_splits)
  qed
qed (auto simp: real_kept_def)

interpretation books: kept_relation books_kept
proof unfold_locales
  show "books_kept s t" if "insert_row k (empty_row en now) s = (x, t)" for s t k en now x
    using that by (auto simp: books_kept_def insert_row_def split: sum.splits)
qed (auto simp: books_kept_def update_row_def delete_row_def)

text \<open>No call touches what an engine knows of its buckets and of written state.\<close>

definition evidence_kept :: "sq_state \<Rightarrow> sq_state \<Rightarrow> bool" where
  "evidence_kept s t \<longleftrightarrow> en_confirmed_until (sq_eng t) = en_confirmed_until (sq_eng s) \<and>
     en_buckets (sq_eng t) = en_buckets (sq_eng s) \<and> en_bucket_by_id (sq_eng t) = en_bucket_by_id (sq_eng s) \<and>
     en_key_prefix (sq_eng t) = en_key_prefix (sq_eng s) \<and> en_model_family (sq_eng t) = en_model_family (sq_eng s)"

interpretation evidence: kept_call evidence_kept
proof unfold_locales
  show "evidence_kept s t" if "insert_row k (empty_row en now) s = (x, t)" for s t k en now x
    using that by (auto simp: evidence_kept_def insert_row_def split: sum.splits)
qed (auto simp: evidence_kept_def update_row_def delete_row_def prune_def Let_def)

section \<open>Clean-up of a cancelled consumption\<close>

definition cleaned_books :: "pyfloat \<Rightarrow> pystr option \<Rightarrow> sq_engine \<Rightarrow> sqlite_db \<Rightarrow> sqlite_db \<Rightarrow> bool" where
  "cleaned_books now rid en d e \<longleftrightarrow> (case rid of
      None \<Rightarrow> gc now d e
    | Some i \<Rightarrow> \<exists>d'. gc now d d' \<and> map_of (db_markers d') (res_key en i) \<noteq> None \<and>
        db_markers e = dict_pop (res_key en i) (db_markers d') \<and> db_tombstones e = db_tombstones d')"

lemma op_bind_lift_Inr: "op_bind (op_lift (Inr v)) f = f v"
  by (simp add: fun_eq_iff op_bind_def op_simps)

lemma map_filter_keys:
  "map fst (cleanup_capacities sts u ids) = filter (\<lambda>k. map_of sts k \<noteq> None) ids"
  by (induction ids) (auto simp: cleanup_capacities_def List.map_filter_simps split: option.split)

lemma cleanup_body_cases:
  assumes "cleanup_body so u ids rid now s = (x, t)"
    and "engine_wf (sq_eng s)" "real_db (sq_db s)" "now \<noteq> NaN" "distinct ids"
  shows "(\<exists>e. x = Inl e) \<or> (\<exists>sts. engine_view now s = Inr sts \<and> x = Inr () \<and>
    cleaned_books now rid (sq_eng s) (sq_db s) (sq_db t) \<and> eng_core (sq_eng t) = eng_core (sq_eng s) \<and>
    rows_hold now (sq_eng s) (cleanup_capacities sts u ids) t)"
proof -
  let ?p = "prune so now s"
  have p: "swept now s ?p" using assms(3,4) by (rule swept_prune)
  show ?thesis
  proof (cases "\<exists>i. rid = Some i \<and> read_marker i ?p = None")
    case True
    then show ?thesis using assms(1) by (auto simp: cleanup_body_def op_bind_def)
  next
    case False
    have run: "op_bind (load_states True now) (\<lambda>sts. op_bind (op_lift (Inr ())) (\<lambda>y.
        op_bind (write_capacities now (cleanup_capacities sts u ids)) (\<lambda>_.
        (case rid of Some i \<Rightarrow> op_modify (delete_marker i) | None \<Rightarrow> op_return ())))) ?p = (x, t)"
      using assms(1) False unfolding op_bind_lift_Inr cleanup_body_def
      by (auto simp: op_bind_def [of "\<lambda>t. (case rid of Some i \<Rightarrow> _ t i | None \<Rightarrow> _ t)"] split: option.splits)
    have dist: "distinct (map fst (cleanup_capacities sts u ids)) \<and>
        fst ` set (cleanup_capacities sts u ids) \<subseteq> fst ` set sts" for sts
    proof -
      have "fst ` set (cleanup_capacities sts u ids) = set (map fst (cleanup_capacities sts u ids))" by simp
      then show ?thesis unfolding map_filter_keys using assms(5)
        by (auto dest!: map_of_SomeD intro: rev_image_eqI)
    qed
    from load_write_effect [OF run p assms(2) dist]
    consider e where "x = Inl e" | sts s3 where "engine_view now s = Inr sts"
      "(case rid of Some i \<Rightarrow> op_modify (delete_marker i) | None \<Rightarrow> op_return ()) s3 = (x, t)"
      "gc now (sq_db ?p) (sq_db s3)" "db_markers (sq_db s3) = db_markers (sq_db ?p)"
      "eng_core (sq_eng s3) = eng_core (sq_eng s)"
      "rows_hold now (sq_eng s) (cleanup_capacities sts u ids) s3"
      by blast
    then show ?thesis
    proof cases
      case 2
      have g: "gc now (sq_db s) (sq_db s3)" using gc_prune 2(3) gc_trans by blast
      show ?thesis
      proof (cases rid)
        case None
        then show ?thesis using 2 g by (auto simp: op_simps cleaned_books_def)
      next
        case (Some i)
        then have t: "x = Inr ()" "t = delete_marker i s3" using 2(2) by (auto simp: op_simps)
        have k: "res_key (sq_eng s3) i = res_key (sq_eng s) i"
          using eng_core_fields(2) [OF 2(5)] by (simp add: res_key_def)
        obtain m where "read_marker i ?p = Some m" using False Some by auto
        moreover have "db_markers (sq_db s3) = db_markers (sq_db ?p)" by (rule 2(4))
        ultimately have "map_of (db_markers (sq_db s3)) (res_key (sq_eng s) i) \<noteq> None"
          by (simp add: read_marker_def)
        then have "cleaned_books now rid (sq_eng s) (sq_db s) (sq_db t)"
          unfolding cleaned_books_def Some option.case
          by (intro exI [of _ "sq_db s3"]) (use g t k in \<open>simp add: delete_marker_def\<close>)
        moreover have "rows_hold now (sq_eng s) (cleanup_capacities sts u ids) t"
          using 2(6) rows_hold_same [of t s3] t(2) by (simp add: delete_marker_def)
        ultimately show ?thesis using 2(1,5) t by (auto simp: delete_marker_def)
      qed
    qed blast
  qed
qed

section \<open>From a transaction to its body\<close>

definition with_pragma :: "int \<Rightarrow> sq_state \<Rightarrow> sq_state" where
  "with_pragma ms = modify_eng (\<lambda>en. en\<lparr>en_busy_pragma := ms\<rparr>)"

lemma with_pragma_same [simp]:
  "sq_db (with_pragma ms s) = sq_db s"
  "read_row k (with_pragma ms s) = read_row k s"
  "live_marker now i (with_pragma ms s) = live_marker now i s"
  "live_tombstone now i (with_pragma ms s) = live_tombstone now i s"
  "engine_wf (sq_eng (with_pragma ms s)) = engine_wf (sq_eng s)"
  "en_buckets (sq_eng (with_pragma ms s)) = en_buckets (sq_eng s)"
  "en_bucket_by_id (sq_eng (with_pragma ms s)) = en_bucket_by_id (sq_eng s)"
  "en_key_prefix (sq_eng (with_pragma ms s)) = en_key_prefix (sq_eng s)"
  "en_model_family (sq_eng (with_pragma ms s)) = en_model_family (sq_eng s)"
  "en_bucket_ttl (sq_eng (with_pragma ms s)) = en_bucket_ttl (sq_eng s)"
  "en_refund_ttl (sq_eng (with_pragma ms s)) = en_refund_ttl (sq_eng s)"
  "en_max_lifetime (sq_eng (with_pragma ms s)) = en_max_lifetime (sq_eng s)"
  "en_confirmed_until (sq_eng (with_pragma ms s)) = en_confirmed_until (sq_eng s)"
  by (simp_all add: with_pragma_def read_row_def row_key_def live_marker_def live_tombstone_def
      read_marker_def read_tombstone_def res_key_def engine_wf_def)

lemma state_lost_pragma [simp]:
  "state_lost (sq_eng (with_pragma ms s)) k now l = state_lost (sq_eng s) k now l"
  by (simp add: state_lost_def state_loss_suspected_def)

lemma engine_view_pragma [simp]: "engine_view now (with_pragma ms s) = engine_view now s"
proof -
  have "view_state (sq_eng (with_pragma ms s)) now sp row = view_state (sq_eng s) now sp row" for sp row
    by (simp add: view_state_def)
  then have "view_states (sq_eng (with_pragma ms s)) now sps rows = view_states (sq_eng s) now sps rows" for sps rows
    by (induction sps) simp_all
  then show ?thesis by (simp add: engine_view_def)
qed

lemma acquire_class_pragma [simp]: "acquire_class now rid u (with_pragma ms s) = acquire_class now rid u s"
  by (auto simp: acquire_class_def sq_bucket_ids_def split: option.split)

lemma refund_class_pragma [simp]:
  "refund_class now i family ids u (with_pragma ms s) = refund_class now i family ids u s"
  by (simp add: refund_class_def split: option.split)

lemma identity_ok_pragma [simp]: "identity_ok now i idn (with_pragma ms s) = identity_ok now i idn s"
  by (simp add: identity_ok_def)

text \<open>A transaction that raises has changed no row and no proof of written state.\<close>

definition untouched :: "sq_state \<Rightarrow> sq_state \<Rightarrow> bool" where
  "untouched s t \<longleftrightarrow> sq_db t = sq_db s \<and> en_pending (sq_eng t) \<in> {[], en_pending (sq_eng s)}"

lemma transaction_Inl: "transaction env b tob d body s = (Inl e, t) \<Longrightarrow> untouched s t"
  by (auto simp: transaction_def untouched_def Let_def roll_back_def clear_pending_def
      split: sum.splits option.splits prod.splits)

lemma transaction_Inr:
  assumes "transaction env b tob d body s = (Inr x, t)"
  obtains ms t0 where "body (ev_now env) (with_pragma ms s) = (Inr x, t0)"
    "t = clear_pending (confirm_pending t0)"
    "check_acquire_deadline d (ev_begun_now env) = Inr ()"
    "transaction_lock env d tob = Inr ()"
    "operation_timeout_ms (sq_eng s) b d (ev_timeout_now env) = Inr ms"
  using assms
  by (auto simp: transaction_def Let_def with_pragma_def bind_res_Inr_iff split: sum.splits option.splits prod.splits)

lemma commit_same [simp]:
  "sq_db (clear_pending (confirm_pending t)) = sq_db t"
  "read_row k (clear_pending (confirm_pending t)) = read_row k t"
  "read_marker i (clear_pending (confirm_pending t)) = read_marker i t"
  "read_tombstone i (clear_pending (confirm_pending t)) = read_tombstone i t"
  "rows_hold now en post (clear_pending (confirm_pending t)) = rows_hold now en post t"
  by (simp_all add: clear_pending_def confirm_pending_def read_row_def row_key_def read_marker_def
      read_tombstone_def res_key_def rows_hold_def)

lemma acquired_books_pragma [simp]:
  "acquired_books now rid u lifetime (sq_eng (with_pragma ms s)) d e =
   acquired_books now rid u lifetime (sq_eng s) d e"
  by (simp add: acquired_books_def res_key_def lifetime_ok_def new_marker_def sq_bucket_ids_def
      split: option.split)

lemma refunded_books_pragma [simp]:
  "refunded_books now rid (sq_eng (with_pragma ms s)) d e = refunded_books now rid (sq_eng s) d e"
  by (simp add: refunded_books_def res_key_def new_tombstone_def split: option.split)

lemma cleaned_books_pragma [simp]:
  "cleaned_books now rid (sq_eng (with_pragma ms s)) d e = cleaned_books now rid (sq_eng s) d e"
  by (simp add: cleaned_books_def res_key_def split: option.split)

lemma rows_hold_pragma [simp]:
  "rows_hold now (sq_eng (with_pragma ms s)) post t = rows_hold now (sq_eng s) post t"
  by (simp add: rows_hold_def)

lemma real_same_db: "sq_db t = sq_db s \<Longrightarrow> real_kept s t"
  by (simp add: real_kept_def)

section \<open>Lookups the properties share\<close>

lemma view_spec: "engine_view now s = Inr sts \<Longrightarrow> (k, st) \<in> set sts \<Longrightarrow> k = spec_id (bs_spec st)"
  unfolding engine_view_def using view_states_in
  by (fastforce simp: view_state_def mk_bucket_state_def Let_def bind_res_Inr_iff)

lemma refund_post_lookup:
  assumes "refund_post sts refunds ids = Inr post" "distinct ids" "k \<in> set ids"
  shows "\<exists>st a. map_of sts k = Some st \<and> map_of refunds (sp_metric (bs_spec st)) = Some a \<and>
    map_of post k = Some (refunded_capacity st a)"
proof -
  let ?b = "\<lambda>k post. (case map_of sts k of None \<Rightarrow> Inl KeyError
      | Some st \<Rightarrow> (case map_of refunds (sp_metric (bs_spec st)) of None \<Rightarrow> Inl KeyError
        | Some r \<Rightarrow> Inr (dict_set k (refunded_capacity st r) post)))"
  have keep: "for_each ids ?b acc = Inr post \<Longrightarrow> k \<notin> set ids \<Longrightarrow> map_of post k = map_of acc k" for ids acc
    by (induction ids arbitrary: acc) (auto simp: bind_res_Inr_iff split: option.splits)
  have "for_each ids ?b acc = Inr post \<Longrightarrow> distinct ids \<Longrightarrow> k \<in> set ids \<Longrightarrow> ?thesis" for ids acc
  proof (induction ids arbitrary: acc)
    case (Cons j ids)
    then obtain acc' where a: "?b j acc = Inr acc'" "for_each ids ?b acc' = Inr post" by (auto simp: bind_res_Inr_iff)
    show ?case
    proof (cases "k = j")
      case True
      then have "map_of post k = map_of acc' k" using keep [OF a(2)] Cons.prems(2) by simp
      then show ?thesis using a(1) True by (auto split: option.splits)
    next
      case False
      then show ?thesis using Cons.IH [OF a(2)] Cons.prems(2,3) by simp
    qed
  qed simp
  then show ?thesis using assms unfolding refund_post_def by blast
qed

lemma sqlite_grant_view:
  assumes "try_consume so env u rid lifetime b tob dl s = (Inr (True, c), t)"
    and "engine_wf (sq_eng s)" "real_db (sq_db s)" "ev_now env \<noteq> NaN" "\<not> cr_replayed c"
  shows "\<exists>sts ms t0. engine_view (ev_now env) s = Inr sts \<and> usage_available u sts \<and>
     t = clear_pending (confirm_pending t0) \<and>
     acquire_done (ev_now env) rid u lifetime (take_usage u sts) (with_pragma ms s) t0"
proof -
  from transaction_Inr [OF assms(1) [unfolded try_consume_def]] obtain ms t0 where
    body: "try_consume_body so u rid lifetime (ev_now env) (with_pragma ms s) = (Inr (True, c), t0)"
    and t: "t = clear_pending (confirm_pending t0)" by blast
  from try_consume_body_cases [OF body] assms(2-5) t show ?thesis by (auto simp: mk_capacity_result_def)
qed

lemma inspect_snapshot_view:
  assumes "inspect_snapshot env b s = (Inr (snaps, counts), s')" "engine_wf (sq_eng s)"
  shows "sq_db s' = sq_db s \<and> (\<exists>sts. engine_view (ev_now env) s = Inr sts \<and> snaps = map (\<lambda>(k, st). snapshot_of st) sts)"
proof -
  from assms(1) obtain ms sts where
    "load_states False (ev_now env) (with_pragma ms s) = (Inr sts, s')" "snaps = map (\<lambda>(k, st). snapshot_of st) sts"
    by (auto simp: inspect_snapshot_def read_transaction_def Let_def op_bind_def with_pragma_def
        split: option.splits sum.splits prod.splits)
  moreover from this(1) have "Inr sts = engine_view (ev_now env) s" "sq_db s' = sq_db s"
    using load_states_read_only assms(2) by force+
  ultimately show ?thesis by metis
qed

lemma set_max_row:
  assumes "set_max_body so k x now s = (Inr v, t)" "engine_wf (sq_eng s)" "k \<in> engine_ids (sq_eng s)"
  shows "\<exists>r sp. read_row k t = Some r \<and> map_of (en_bucket_by_id (sq_eng s)) k = Some sp \<and>
    row_key (sq_eng t) = row_key (sq_eng s) \<and>
    row_override_value r = Some x \<and> row_override_configured_max r = Some (sp_configured_max sp) \<and>
    row_override_expires_at r = Some (fadd now (secs (en_override_ttl (sq_eng s))))"
proof -
  let ?p = "prune so now s"
  from assms(1) obtain sts s1 st bttl ttl s2 sp where
    ld: "load_states True now ?p = (Inr sts, s1)"
    and an: "anchor_state now k st s1 = (Inr (), s2)"
    and sp: "map_of (en_bucket_by_id (sq_eng s2)) k = Some sp"
    and t: "t = set_override k x (sp_configured_max sp) now ttl s2"
    by (auto simp: set_max_body_def op_bind_Inr op_simps split: option.splits)
  have wf: "engine_wf (sq_eng ?p)" using assms(2) by simp
  note l = load_states_writable [OF ld wf]
  have wf1: "engine_wf (sq_eng s1)" using wf engine_wf_core [OF frame_core [OF l(1)]] by simp
  have k1: "k \<in> engine_ids (sq_eng s1)" using assms(3) frame_fields(4) [OF l(1)] by simp
  have row: "\<exists>r. read_row k s2 = Some r" and f2: "frame (engine_ids (sq_eng s)) s1 s2"
  proof -
    have "(\<exists>r. read_row k s2 = Some r) \<and> frame (engine_ids (sq_eng s)) s1 s2"
    proof (cases "bs_fresh st")
      case True
      then have "s2 = s1" using an by (simp add: anchor_state_def op_simps)
      then show ?thesis using l(2) [OF refl] assms(3) by auto
    next
      case False
      then have w: "write_capacities now [(k, bs_uncapped st)] s1 = (Inr (), s2)" using an by (simp add: anchor_state_def)
      from write_capacities_effect [OF w wf1] k1 have "frame {k} s1 s2"
        "row_written (sq_eng s1) now s1 k (bs_uncapped st) (read_row k s2)" by auto
      then show ?thesis using frame_mono [of "{k}" s1 s2] assms(3) by (auto simp: row_written_def)
    qed
    then show "\<exists>r. read_row k s2 = Some r" "frame (engine_ids (sq_eng s)) s1 s2" by blast+
  qed
  have eng: "en_override_ttl (sq_eng s2) = en_override_ttl (sq_eng s)" "row_key (sq_eng s2) = row_key (sq_eng s)"
    "en_bucket_by_id (sq_eng s2) = en_bucket_by_id (sq_eng s)"
    using frame_fields(5,8,12) [OF l(1)] frame_fields(5,8,12) [OF f2] by simp_all
  from row obtain r where "read_row k s2 = Some r" ..
  then show ?thesis using sp eng t by (simp add: set_override_def read_row_update) (simp add: update_row_def)
qed

lemma engine_wf_ids: "engine_wf en \<Longrightarrow> map_of (en_bucket_by_id en) k = Some sp \<Longrightarrow> k \<in> engine_ids en"
proof -
  assume "engine_wf en" "map_of (en_bucket_by_id en) k = Some sp"
  then have "map_of (map (\<lambda>sp. (spec_id sp, sp)) (en_buckets en)) k = Some sp" unfolding engine_wf_def by metis
  then show ?thesis by (auto dest!: map_of_SomeD)
qed

lemma validate_max_again: "validate_max_capacity_finite_positive v = Inr x \<Longrightarrow>
   validate_max_capacity_finite_positive (VFloat x) = Inr x"
  by (auto simp: validate_max_capacity_finite_positive_def bind_res_Inr_iff split: if_splits)

end
