(* ===== verification/SqliteTraces.thy ===== *)
theory SqliteTraces
  imports SqliteOps Ledger
begin

text \<open>
  Interleavings of any number of engines, in any number of processes, on one SQLite database:
  each step is one transaction of some engine, with whatever clocks, timeouts and failures.
  The reservation ledger of \<^verbatim>\<open>Ledger\<close> is interpreted on these steps, with the markers of a
  key prefix as its live ids and the tombstones that outlive the window as its closed ones.
\<close>

section \<open>Steps\<close>

text \<open>The label of a call that acted on the reservation \<open>rid\<close> under the prefix \<open>p\<close>.\<close>

definition label :: "pystr \<Rightarrow> sq_engine \<Rightarrow> pystr option \<Rightarrow> bool \<Rightarrow> (pystr \<Rightarrow> ledger_event) \<Rightarrow> ledger_event" where
  "label p en rid acted ev = (case rid of
      Some i \<Rightarrow> if acted \<and> en_key_prefix en = p then ev i else Silent | None \<Rightarrow> Silent)"

definition fresh_grant :: "(bool \<times> capacity_result) result \<Rightarrow> bool" where
  "fresh_grant r = (case r of Inr (granted, c) \<Rightarrow> granted \<and> \<not> cr_replayed c | Inl e \<Rightarrow> False)"

definition fresh_consume :: "capacity_result result \<Rightarrow> bool" where
  "fresh_consume r = (case r of Inr c \<Rightarrow> \<not> cr_replayed c | Inl e \<Rightarrow> False)"

definition succeeded :: "'a result \<Rightarrow> bool" where
  "succeeded r \<longleftrightarrow> \<not> isl r"

text \<open>
  The window \<open>[start, until)\<close> the wall clocks of the steps lie in is no longer than the
  engine's tombstones live.
\<close>

definition in_window :: "pyfloat \<Rightarrow> pyfloat \<Rightarrow> sq_engine \<Rightarrow> txn_env \<Rightarrow> bool" where
  "in_window start until en env \<longleftrightarrow> engine_wf en \<and> isfinite (ev_now env) \<and> fle start (ev_now env) \<and>
     flt (ev_now env) until \<and> fle until (fadd start (secs (en_refund_ttl en)))"

inductive sq_step ::
  "pystr \<Rightarrow> pyfloat \<Rightarrow> pyfloat \<Rightarrow> sqlite_db \<Rightarrow> ledger_event \<Rightarrow> sqlite_db \<Rightarrow> bool"
  for p :: pystr and start :: pyfloat and until :: pyfloat where
  try_consume: "in_window start until en env \<Longrightarrow>
    try_consume so env u rid lifetime b tob dl \<lparr>sq_eng = en, sq_db = d\<rparr> = (r, t) \<Longrightarrow>
    sq_step p start until d (label p en rid (fresh_grant r) Acquired) (sq_db t)"
| consume: "in_window start until en env \<Longrightarrow>
    consume so env u rid lifetime b \<lparr>sq_eng = en, sq_db = d\<rparr> = (r2, t) \<Longrightarrow>
    sq_step p start until d (label p en rid (fresh_consume r2) Acquired) (sq_db t)"
| refund: "in_window start until en env \<Longrightarrow> distinct ids \<Longrightarrow>
    refund so env reserved actual ids rid idn b \<lparr>sq_eng = en, sq_db = d\<rparr> = (r3, t) \<Longrightarrow>
    sq_step p start until d (label p en rid (succeeded r3) Refunded) (sq_db t)"
| cleanup: "in_window start until en env \<Longrightarrow> distinct ids \<Longrightarrow>
    cleanup_consumption so env u ids rid b \<lparr>sq_eng = en, sq_db = d\<rparr> = (r4, t) \<Longrightarrow>
    sq_step p start until d (label p en rid (succeeded r4) Cancelled) (sq_db t)"
| set_max: "in_window start until en env \<Longrightarrow>
    sq_set_max_capacity so env k v b \<lparr>sq_eng = en, sq_db = d\<rparr> = (r4, t) \<Longrightarrow>
    sq_step p start until d Silent (sq_db t)"
| apply_configured: "in_window start until en env \<Longrightarrow>
    sq_apply_configured_max_capacity so env k v b \<lparr>sq_eng = en, sq_db = d\<rparr> = (r4, t) \<Longrightarrow>
    sq_step p start until d Silent (sq_db t)"
| clear_overrides: "in_window start until en env \<Longrightarrow>
    clear_max_capacity_overrides so env ks configured b \<lparr>sq_eng = en, sq_db = d\<rparr> = (r4, t) \<Longrightarrow>
    sq_step p start until d Silent (sq_db t)"
| initialize: "in_window start until en env \<Longrightarrow>
    initialize_buckets so env b \<lparr>sq_eng = en, sq_db = d\<rparr> = (r4, t) \<Longrightarrow>
    sq_step p start until d Silent (sq_db t)"
| schema: "in_window start until en env \<Longrightarrow>
    initialize_schema env b \<lparr>sq_eng = en, sq_db = d\<rparr> = (r4, t) \<Longrightarrow>
    sq_step p start until d Silent (sq_db t)"
| inspect: "in_window start until en env \<Longrightarrow>
    inspect_snapshot env b \<lparr>sq_eng = en, sq_db = d\<rparr> = (r5, t) \<Longrightarrow>
    sq_step p start until d Silent (sq_db t)"

section \<open>The effect of a step on the books\<close>

definition sq_live :: "pystr \<Rightarrow> sqlite_db \<Rightarrow> pystr set" where
  "sq_live p d = {i. map_of (db_markers d) (p, i) \<noteq> None}"

definition sq_closed :: "pystr \<Rightarrow> pyfloat \<Rightarrow> sqlite_db \<Rightarrow> pystr set" where
  "sq_closed p until d = {i. \<exists>tb. map_of (db_tombstones d) (p, i) = Some tb \<and> fle until (tb_expires_at tb)}"

definition books_effect :: "pystr \<Rightarrow> pyfloat \<Rightarrow> ledger_event \<Rightarrow> sqlite_db \<Rightarrow> sqlite_db \<Rightarrow> bool" where
  "books_effect p until e d d' \<longleftrightarrow>
     (\<forall>j. j \<in> sq_live p d' \<longrightarrow> j \<in> sq_live p d \<or> e = Acquired j) \<and>
     (\<forall>j. e = Refunded j \<or> e = Cancelled j \<longrightarrow> j \<in> sq_live p d \<and> j \<notin> sq_live p d') \<and>
     sq_closed p until d \<subseteq> sq_closed p until d' \<and>
     (\<forall>j. e = Refunded j \<longrightarrow> j \<in> sq_closed p until d') \<and>
     (\<forall>j. e = Acquired j \<or> e = Refunded j \<longrightarrow> j \<notin> sq_closed p until d)"

lemma gc_live_ids: "gc now d m \<Longrightarrow> sq_live p m \<subseteq> sq_live p d"
proof
  fix i assume g: "gc now d m" and "i \<in> sq_live p m"
  then obtain r where r: "map_of (db_markers m) (p, i) = Some r" by (auto simp: sq_live_def)
  have "gone mk_expires_at now (map_of (db_markers d) (p, i)) (Some r)"
    using g r unfolding gc_def by metis
  then show "i \<in> sq_live p d" by (auto simp: sq_live_def dest: gone_Some)
qed

lemma gc_closed:
  assumes "gc now d m" "flt now until"
  shows "sq_closed p until d \<subseteq> sq_closed p until m"
proof
  fix i assume "i \<in> sq_closed p until d"
  then obtain tb where tb: "map_of (db_tombstones d) (p, i) = Some tb" "fle until (tb_expires_at tb)"
    by (auto simp: sq_closed_def)
  have "\<not> fle (tb_expires_at tb) now"
  proof
    assume "fle (tb_expires_at tb) now"
    with tb(2) have "fle until now" by (rule fle_trans)
    then show False using assms(2) fle_notNaN not_flt by blast
  qed
  moreover have "gone tb_expires_at now (Some tb) (map_of (db_tombstones m) (p, i))"
    using assms(1) tb(1) unfolding gc_def by metis
  ultimately show "i \<in> sq_closed p until m" using tb(2) by (auto simp: gone_def sq_closed_def)
qed

lemma gc_effect: "gc now d m \<Longrightarrow> flt now until \<Longrightarrow> books_effect p until Silent d m"
  using gc_live_ids [of now d m p] gc_closed [of now d m until p] by (auto simp: books_effect_def)

lemma closed_not_live_None:
  assumes "live_tombstone now i s = None" "flt now until"
  shows "i \<notin> sq_closed (en_key_prefix (sq_eng s)) until (sq_db s)"
proof
  assume "i \<in> sq_closed (en_key_prefix (sq_eng s)) until (sq_db s)"
  then obtain tb where tb: "read_tombstone i s = Some tb" "fle until (tb_expires_at tb)"
    by (auto simp: sq_closed_def read_tombstone_def res_key_def)
  then have "fle (tb_expires_at tb) now" using assms(1) by (auto simp: live_tombstone_def live_at_def split: if_splits)
  with tb(2) have "fle until now" by (rule fle_trans)
  then show False using assms(2) fle_notNaN not_flt by blast
qed

lemma acquired_effect:
  assumes "acquired_books now rid u lifetime en d d'" "acquire_class now rid u \<lparr>sq_eng = en, sq_db = d\<rparr> = Inr False"
    "flt now until"
  shows "books_effect p until (label p en rid True Acquired) d d'"
proof (cases rid)
  case None
  then show ?thesis using assms gc_effect by (simp add: acquired_books_def label_def)
next
  case (Some i)
  with assms(1) obtain l m where m: "gc now d m" "db_tombstones d' = db_tombstones m"
    "db_markers d' = db_markers m @ [(res_key en i, new_marker en u now l)]"
    unfolding acquired_books_def by auto
  have lv: "sq_live p d' \<subseteq> (if en_key_prefix en = p then insert i (sq_live p d) else sq_live p d)"
    using gc_live_ids [OF m(1), of p] m(3) by (auto simp: sq_live_def res_key_def split: if_splits)
  have "live_tombstone now i \<lparr>sq_eng = en, sq_db = d\<rparr> = None"
    using assms(2) Some by (auto simp: acquire_class_def split: option.splits if_splits)
  then have "i \<notin> sq_closed (en_key_prefix en) until d" using closed_not_live_None [OF _ assms(3), of i "\<lparr>sq_eng = en, sq_db = d\<rparr>"] by simp
  moreover have "sq_closed p until d \<subseteq> sq_closed p until d'"
    using gc_closed [OF m(1) assms(3)] m(2) by (simp add: sq_closed_def)
  ultimately show ?thesis using lv Some by (auto simp: books_effect_def label_def)
qed

lemma refunded_effect:
  assumes "refunded_books now rid en d d'" "\<forall>i. rid = Some i \<longrightarrow> identity_ok now i idn \<lparr>sq_eng = en, sq_db = d\<rparr>"
    "flt now until" "fle until (fadd now (secs (en_refund_ttl en)))"
  shows "books_effect p until (label p en rid True Refunded) d d'"
proof (cases rid)
  case None
  then show ?thesis using assms gc_effect by (simp add: refunded_books_def label_def)
next
  case (Some i)
  with assms(1) obtain m where m: "gc now d m" "map_of (db_markers m) (res_key en i) \<noteq> None"
    "map_of (db_tombstones m) (res_key en i) = None" "db_markers d' = dict_pop (res_key en i) (db_markers m)"
    "db_tombstones d' = db_tombstones m @ [(res_key en i, new_tombstone en now)]"
    unfolding refunded_books_def by auto
  have lv: "sq_live p d' \<subseteq> sq_live p d"
    using gc_live_ids [OF m(1), of p] m(4) by (auto simp: sq_live_def split: if_splits)
  have was: "i \<in> sq_live (en_key_prefix en) d"
    using gc_live_ids [OF m(1), of "en_key_prefix en"] m(2) by (auto simp: sq_live_def res_key_def)
  have now_gone: "i \<notin> sq_live (en_key_prefix en) d'" using m(4) by (simp add: sq_live_def res_key_def)
  have "live_tombstone now i \<lparr>sq_eng = en, sq_db = d\<rparr> = None"
    using assms(2) Some by (auto simp: identity_ok_def refund_class_def split: if_splits)
  then have nc: "i \<notin> sq_closed (en_key_prefix en) until d" using closed_not_live_None [OF _ assms(3), of i "\<lparr>sq_eng = en, sq_db = d\<rparr>"] by simp
  have "map_of (db_tombstones d') (res_key en i) = Some (new_tombstone en now)"
    using m(3,5) by (simp add: map_add_def)
  then have cl: "i \<in> sq_closed (en_key_prefix en) until d'"
    using assms(4) by (auto simp: sq_closed_def res_key_def new_tombstone_def)
  have "sq_closed p until m \<subseteq> sq_closed p until d'"
    using m(5) by (auto simp: sq_closed_def map_add_def)
  then have "sq_closed p until d \<subseteq> sq_closed p until d'" using gc_closed [OF m(1) assms(3)] by blast
  then show ?thesis using lv was now_gone nc cl Some by (auto simp: books_effect_def label_def)
qed

lemma cleaned_effect:
  assumes "cleaned_books now rid en d d'" "flt now until"
  shows "books_effect p until (label p en rid True Cancelled) d d'"
proof (cases rid)
  case None
  then show ?thesis using assms gc_effect by (simp add: cleaned_books_def label_def)
next
  case (Some i)
  with assms(1) obtain m where m: "gc now d m" "map_of (db_markers m) (res_key en i) \<noteq> None"
    "db_markers d' = dict_pop (res_key en i) (db_markers m)" "db_tombstones d' = db_tombstones m"
    unfolding cleaned_books_def by auto
  have lv: "sq_live p d' \<subseteq> sq_live p d"
    using gc_live_ids [OF m(1), of p] m(3) by (auto simp: sq_live_def split: if_splits)
  have was: "i \<in> sq_live (en_key_prefix en) d"
    using gc_live_ids [OF m(1), of "en_key_prefix en"] m(2) by (auto simp: sq_live_def res_key_def)
  have now_gone: "i \<notin> sq_live (en_key_prefix en) d'" using m(3) by (simp add: sq_live_def res_key_def)
  have "sq_closed p until d \<subseteq> sq_closed p until d'"
    using gc_closed [OF m(1) assms(2)] m(4) by (simp add: sq_closed_def)
  then show ?thesis using lv was now_gone Some by (auto simp: books_effect_def label_def)
qed

text \<open>
  What one transaction, committed at \<open>now\<close>, does to the books: nothing but garbage
  collection, or one acquisition, refund or clean-up.
\<close>

inductive step_books ::
  "pystr \<Rightarrow> pyfloat \<Rightarrow> pyfloat \<Rightarrow> ledger_event \<Rightarrow> sqlite_db \<Rightarrow> sqlite_db \<Rightarrow> bool"
  for p :: pystr and until :: pyfloat and now :: pyfloat where
  quiet: "gc now d d' \<Longrightarrow> step_books p until now Silent d d'"
| acquired: "acquired_books now rid u lifetime en d d' \<Longrightarrow>
    acquire_class now rid u \<lparr>sq_eng = en, sq_db = d\<rparr> = Inr False \<Longrightarrow>
    step_books p until now (label p en rid True Acquired) d d'"
| refunded: "refunded_books now rid en d d' \<Longrightarrow>
    \<forall>i. rid = Some i \<longrightarrow> identity_ok now i idn \<lparr>sq_eng = en, sq_db = d\<rparr> \<Longrightarrow>
    fle until (fadd now (secs (en_refund_ttl en))) \<Longrightarrow>
    step_books p until now (label p en rid True Refunded) d d'"
| cleaned: "cleaned_books now rid en d d' \<Longrightarrow> step_books p until now (label p en rid True Cancelled) d d'"

lemma step_books_effect: "step_books p until now e d d' \<Longrightarrow> flt now until \<Longrightarrow> books_effect p until e d d'"
  by (induction rule: step_books.induct)
     (auto intro: gc_effect acquired_effect refunded_effect cleaned_effect)

section \<open>Every step keeps the ledger laws\<close>

lemma in_windowD:
  assumes "in_window start until en env"
  shows "engine_wf en" "isfinite (ev_now env)" "ev_now env \<noteq> NaN" "flt (ev_now env) until"
    "fle until (fadd (ev_now env) (secs (en_refund_ttl en)))"
proof -
  show "engine_wf en" "isfinite (ev_now env)" "flt (ev_now env) until"
    using assms by (simp_all add: in_window_def)
  then show "ev_now env \<noteq> NaN" by auto
  have w: "fle start (ev_now env)" "fle until (fadd start (secs (en_refund_ttl en)))"
    using assms by (simp_all add: in_window_def)
  have "fle (fadd start (secs (en_refund_ttl en))) (fadd (ev_now env) (secs (en_refund_ttl en)))"
  proof (cases "secs (en_refund_ttl en)")
    case (Fin c)
    then show ?thesis using w(1) fadd_mono_left by simp
  next
    case NaN
    then show ?thesis using rnd_not_NaN unfolding secs_def by blast
  next
    case PInf
    then show ?thesis using w \<open>isfinite (ev_now env)\<close> by (cases start; cases "ev_now env") auto
  next
    case NInf
    then show ?thesis using w \<open>isfinite (ev_now env)\<close> by (cases start; cases "ev_now env") auto
  qed
  with w(2) show "fle until (fadd (ev_now env) (secs (en_refund_ttl en)))" by (rule fle_trans)
qed

lemma label_idle [simp]: "label p en rid False ev = Silent"
  by (simp add: label_def split: option.split)

lemma same_effect: "d' = d \<Longrightarrow> step_books p until now Silent d d'"
  by (simp add: step_books.quiet)

lemma quiet_gc:
  assumes "books_kept (prune so now s) t"
  shows "gc now (sq_db s) (sq_db t)"
proof -
  have "gc now (sq_db (prune so now s)) (sq_db t)" using assms by (intro gc_same) (simp_all add: books_kept_def)
  with gc_prune show ?thesis by (rule gc_trans)
qed

lemma transaction_quiet:
  assumes "transaction env b tob dl body s = (r, t)"
    and "\<And>u x t0. sq_db u = sq_db s \<Longrightarrow> body (ev_now env) u = (x, t0) \<Longrightarrow>
      gc (ev_now env) (sq_db u) (sq_db t0) \<and> real_kept u t0"
  shows "gc (ev_now env) (sq_db s) (sq_db t) \<and> real_kept s t"
proof (cases r)
  case (Inl e)
  then have "sq_db t = sq_db s" using transaction_Inl [OF assms(1) [unfolded Inl]] by (simp add: untouched_def)
  then show ?thesis using real_same_db by simp
next
  case (Inr x)
  with assms(1) obtain ms t0 where "body (ev_now env) (with_pragma ms s) = (Inr x, t0)"
    "t = clear_pending (confirm_pending t0)" by (auto elim: transaction_Inr)
  moreover from this have "gc (ev_now env) (sq_db s) (sq_db t0) \<and> real_kept (with_pragma ms s) t0"
    using assms(2) [of "with_pragma ms s" "Inr x" t0] by simp
  ultimately show ?thesis by (simp add: real_kept_def)
qed

lemma quiet_step:
  "gc now d (sq_db t) \<and> real_kept s t \<Longrightarrow> sq_db s = d \<Longrightarrow>
   step_books p until now Silent d (sq_db t) \<and> (real_db d \<longrightarrow> real_db (sq_db t))"
  by (auto simp: real_kept_def step_books.quiet)

lemma step_try_consume:
  assumes "in_window start until en env"
    and "try_consume so env u rid lifetime b tob dl \<lparr>sq_eng = en, sq_db = d\<rparr> = (r, t)" "real_db d"
  shows "step_books p until (ev_now env) (label p en rid (fresh_grant r) Acquired) d (sq_db t) \<and> real_db (sq_db t)"
proof (cases r)
  case (Inl e)
  then have "sq_db t = d" using transaction_Inl assms(2) by (fastforce simp: try_consume_def untouched_def)
  then show ?thesis using same_effect assms(3) Inl by (simp add: fresh_grant_def)
next
  case (Inr x)
  let ?s = "\<lparr>sq_eng = en, sq_db = d\<rparr>" and ?now = "ev_now env"
  note w = in_windowD [OF assms(1)]
  from assms(2) Inr obtain ms t0 where run: "try_consume_body so u rid lifetime ?now (with_pragma ms ?s) = (Inr x, t0)"
    and t: "t = clear_pending (confirm_pending t0)"
    by (auto simp: try_consume_def elim: transaction_Inr)
  have real: "real_db (sq_db t)" using real.kept_try_consume [OF run] assms(3) t by (simp add: real_kept_def)
  from try_consume_body_cases [OF run] w(1,3) assms(3)
  consider "acquire_idle ?now (with_pragma ms ?s) t0" "\<not> fresh_grant r"
    | post where "acquire_done ?now rid u lifetime post (with_pragma ms ?s) t0" "fresh_grant r"
    using Inr by (auto simp: fresh_grant_def mk_capacity_result_def)
  then show ?thesis
  proof cases
    case 1
    then have "gc ?now d (sq_db t)" using t by (simp add: acquire_idle_def)
    then show ?thesis using step_books.quiet real 1(2) by simp
  next
    case 2
    then have "acquired_books ?now rid u lifetime en d (sq_db t)" "acquire_class ?now rid u ?s = Inr False"
      using t acquired_books_pragma [of ?now rid u lifetime ms ?s] by (simp_all add: acquire_done_def)
    then show ?thesis using step_books.acquired real 2(2) by simp
  qed
qed

lemma step_consume:
  assumes "in_window start until en env"
    and "consume so env u rid lifetime b \<lparr>sq_eng = en, sq_db = d\<rparr> = (r, t)" "real_db d"
  shows "step_books p until (ev_now env) (label p en rid (fresh_consume r) Acquired) d (sq_db t) \<and> real_db (sq_db t)"
proof (cases r)
  case (Inl e)
  then have "sq_db t = d" using transaction_Inl assms(2) by (fastforce simp: consume_def untouched_def)
  then show ?thesis using same_effect assms(3) Inl by (simp add: fresh_consume_def)
next
  case (Inr x)
  let ?s = "\<lparr>sq_eng = en, sq_db = d\<rparr>" and ?now = "ev_now env"
  note w = in_windowD [OF assms(1)]
  from assms(2) Inr obtain ms t0 where run: "consume_body so u rid lifetime ?now (with_pragma ms ?s) = (Inr x, t0)"
    and t: "t = clear_pending (confirm_pending t0)"
    by (auto simp: consume_def elim: transaction_Inr)
  have real: "real_db (sq_db t)" using real.kept_consume [OF run] assms(3) t by (simp add: real_kept_def)
  from consume_body_cases [OF run] w(1,3) assms(3)
  consider "acquire_idle ?now (with_pragma ms ?s) t0" "\<not> fresh_consume r"
    | post where "acquire_done ?now rid u lifetime post (with_pragma ms ?s) t0" "fresh_consume r"
    using Inr by (auto simp: fresh_consume_def mk_capacity_result_def)
  then show ?thesis
  proof cases
    case 1
    then have "gc ?now d (sq_db t)" using t by (simp add: acquire_idle_def)
    then show ?thesis using step_books.quiet real 1(2) by simp
  next
    case 2
    then have "acquired_books ?now rid u lifetime en d (sq_db t)" "acquire_class ?now rid u ?s = Inr False"
      using t acquired_books_pragma [of ?now rid u lifetime ms ?s] by (simp_all add: acquire_done_def)
    then show ?thesis using step_books.acquired real 2(2) by simp
  qed
qed

lemma refund_Inr:
  assumes "refund so env reserved actual ids rid idn b s = (r, t)"
  shows "(\<exists>e. r = Inl e) \<and> sq_db t = sq_db s \<or>
    (\<exists>refunds x ms t0. r = Inr x \<and> refund_usage reserved actual = Inr refunds \<and>
       refund_body so refunds ids rid idn (ev_now env) (with_pragma ms s) = (Inr x, t0) \<and>
       t = clear_pending (confirm_pending t0))"
proof (cases "refund_usage reserved actual")
  case (Inl e)
  then show ?thesis using assms by (auto simp: refund_def op_bind_def op_simps)
next
  case (Inr refunds)
  then have run: "transaction env b False None (refund_body so refunds ids rid idn) s = (r, t)"
    using assms by (simp add: refund_def op_bind_def op_simps)
  show ?thesis
  proof (cases r)
    case (Inl e)
    then show ?thesis using transaction_Inl [OF run [unfolded Inl]] by (simp add: untouched_def)
  next
    case (Inr x)
    from transaction_Inr [OF run [unfolded Inr]] obtain ms t0 where
      "refund_body so refunds ids rid idn (ev_now env) (with_pragma ms s) = (Inr x, t0)"
      "t = clear_pending (confirm_pending t0)" .
    then show ?thesis using Inr \<open>refund_usage reserved actual = Inr refunds\<close> by auto
  qed
qed

lemma step_refund:
  assumes "in_window start until en env" "distinct ids"
    and "refund so env reserved actual ids rid idn b \<lparr>sq_eng = en, sq_db = d\<rparr> = (r, t)" "real_db d"
  shows "step_books p until (ev_now env) (label p en rid (succeeded r) Refunded) d (sq_db t) \<and> real_db (sq_db t)"
proof -
  let ?s = "\<lparr>sq_eng = en, sq_db = d\<rparr>" and ?now = "ev_now env"
  note w = in_windowD [OF assms(1)]
  from refund_Inr [OF assms(3)] consider "\<exists>e. r = Inl e" "sq_db t = d"
    | refunds x ms t0 where "r = Inr x" "t = clear_pending (confirm_pending t0)"
      "refund_body so refunds ids rid idn ?now (with_pragma ms ?s) = (Inr x, t0)" by auto
  then show ?thesis
  proof cases
    case 1
    then show ?thesis using same_effect assms(4) by (auto simp: succeeded_def)
  next
    case 2
    have real: "real_db (sq_db t)" using real.kept_refund [OF 2(3)] assms(4) 2(2) by (simp add: real_kept_def)
    from refund_body_cases [OF 2(3) _ _ w(3) assms(2)] w(1) assms(4)
    have "refunded_books ?now rid en d (sq_db t)" "\<forall>i. rid = Some i \<longrightarrow> identity_ok ?now i idn ?s"
      using 2(2) refunded_books_pragma [of ?now rid ms ?s] by auto
    then show ?thesis using step_books.refunded w(5) real 2(1) by (simp add: succeeded_def)
  qed
qed

lemma step_cleanup:
  assumes "in_window start until en env" "distinct ids"
    and "cleanup_consumption so env u ids rid b \<lparr>sq_eng = en, sq_db = d\<rparr> = (r, t)" "real_db d"
  shows "step_books p until (ev_now env) (label p en rid (succeeded r) Cancelled) d (sq_db t) \<and> real_db (sq_db t)"
proof (cases r)
  case (Inl e)
  then have "sq_db t = d" using transaction_Inl assms(3) by (fastforce simp: cleanup_consumption_def untouched_def)
  then show ?thesis using same_effect assms(4) Inl by (simp add: succeeded_def)
next
  case (Inr x)
  let ?s = "\<lparr>sq_eng = en, sq_db = d\<rparr>" and ?now = "ev_now env"
  note w = in_windowD [OF assms(1)]
  from assms(3) Inr obtain ms t0 where run: "cleanup_body so u ids rid ?now (with_pragma ms ?s) = (Inr x, t0)"
    and t: "t = clear_pending (confirm_pending t0)"
    by (auto simp: cleanup_consumption_def elim: transaction_Inr)
  have real: "real_db (sq_db t)" using real.kept_cleanup [OF run] assms(4) t by (simp add: real_kept_def)
  from cleanup_body_cases [OF run _ _ w(3) assms(2)] w(1) assms(4)
  have "cleaned_books ?now rid en d (sq_db t)"
    using t cleaned_books_pragma [of ?now rid ms ?s] by auto
  then show ?thesis using step_books.cleaned real Inr by (simp add: succeeded_def)
qed

lemma real_from_prune: "real_kept (prune so now s) t \<Longrightarrow> real_kept s t"
  using real.kept_prune by (rule real.kept_trans)

lemma quiet_both:
  "books_kept (prune so now s) t \<Longrightarrow> real_kept (prune so now s) t \<Longrightarrow>
   gc now (sq_db s) (sq_db t) \<and> real_kept s t"
  using quiet_gc real_from_prune by blast

lemma step_set_max:
  assumes "sq_set_max_capacity so env k v b s = (r, t)" "isfinite (ev_now env)"
  shows "gc (ev_now env) (sq_db s) (sq_db t) \<and> real_kept s t"
proof (cases "\<exists>x. validate_max_capacity_finite_positive v = Inr x \<and> map_of (en_bucket_by_id (sq_eng s)) k \<noteq> None")
  case True
  then obtain x where "transaction env b False None (set_max_body so k x) s = (r, t)"
    using assms(1) by (auto simp: sq_set_max_capacity_def)
  then show ?thesis
    by (rule transaction_quiet)
       (rule quiet_both, erule books.kept_set_max, rule assms(2), erule real.kept_set_max, rule assms(2))
next
  case False
  then have "t = s" using assms(1) by (auto simp: sq_set_max_capacity_def split: sum.splits if_splits)
  then show ?thesis using real.kept_refl by simp
qed

lemma step_apply_configured:
  assumes "sq_apply_configured_max_capacity so env k v b s = (r, t)"
  shows "gc (ev_now env) (sq_db s) (sq_db t) \<and> real_kept s t"
proof (cases "\<exists>x. validate_max_capacity_finite_positive v = Inr x \<and> map_of (en_bucket_by_id (sq_eng s)) k \<noteq> None")
  case True
  then obtain x where x: "validate_max_capacity_finite_positive v = Inr x" by blast
  obtain r' t' where tr: "transaction env b False None (apply_configured_body so k x) s = (r', t')"
    by (cases "transaction env b False None (apply_configured_body so k x) s")
  then have "sq_db t = sq_db t'"
    using assms True x
    by (auto simp: sq_apply_configured_max_capacity_def op_bind_def op_simps split: sum.splits)
  moreover have "gc (ev_now env) (sq_db s) (sq_db t') \<and> real_kept s t'"
    using tr by (rule transaction_quiet)
      (rule quiet_both, erule books.kept_apply_configured, erule real.kept_apply_configured)
  ultimately show ?thesis by (simp add: real_kept_def)
next
  case False
  then have "t = s" using assms(1) by (auto simp: sq_apply_configured_max_capacity_def split: sum.splits if_splits)
  then show ?thesis using real.kept_refl by simp
qed

lemma step_clear:
  assumes "clear_max_capacity_overrides so env ks configured b s = (r, t)"
  shows "gc (ev_now env) (sq_db s) (sq_db t) \<and> real_kept s t"
proof (cases "filter (\<lambda>k. k \<in> sq_bucket_ids (sq_eng s)) ks = []")
  case True
  then have "t = s" using assms by (simp add: clear_max_capacity_overrides_def Let_def)
  then show ?thesis using real.kept_refl by simp
next
  case False
  then have "transaction env b False None (clear_body so (filter (\<lambda>k. k \<in> sq_bucket_ids (sq_eng s)) ks) configured) s = (r, t)"
    using assms by (simp add: clear_max_capacity_overrides_def Let_def)
  then show ?thesis
    by (rule transaction_quiet)
       (rule quiet_both, erule books.kept_clear, erule real.kept_clear)
qed

lemma step_initialize:
  assumes "initialize_buckets so env b s = (r, t)"
  shows "gc (ev_now env) (sq_db s) (sq_db t) \<and> real_kept s t"
  using assms unfolding initialize_buckets_def
proof (rule transaction_quiet)
  fix u x t0 assume "op_for_each (en_buckets (sq_eng u)) (init_bucket (ev_now env)) (prune so (ev_now env) u) = (x, t0)"
  then show "gc (ev_now env) (sq_db u) (sq_db t0) \<and> real_kept u t0"
    by (intro quiet_both keepsD [OF books.keeps_for_each [OF books.keeps_init_bucket]]
        keepsD [OF real.keeps_for_each [OF real.keeps_init_bucket]])
qed

lemma step_schema:
  assumes "initialize_schema env b s = (r, t)"
  shows "gc (ev_now env) (sq_db s) (sq_db t) \<and> real_kept s t"
proof -
  have anchors: "map_of (map (\<lambda>(k, r). (k, r\<lparr>row_override_configured_max := None\<rparr>)) d) k =
      map_option (\<lambda>r. r\<lparr>row_override_configured_max := None\<rparr>) (map_of d k)" for d :: "(bucket_key, bucket_row) dict" and k
    by (induction d) auto
  show ?thesis using assms unfolding initialize_schema_def
    by (rule transaction_quiet)
       (auto simp: gc_def real_kept_def real_db_def anchors split: option.splits if_splits)
qed

lemma step_inspect:
  assumes "inspect_snapshot env b s = (r, t)" "engine_wf (sq_eng s)"
  shows "sq_db t = sq_db s"
proof -
  define s0 where "s0 = modify_eng (\<lambda>en. en\<lparr>en_busy_pragma := (case b of None \<Rightarrow> en_busy_timeout_ms (sq_eng s)
      | Some b \<Rightarrow> max 0 (min b (en_busy_timeout_ms (sq_eng s))))\<rparr>) s"
  have wf: "engine_wf (sq_eng s0)" using assms(2) by (simp add: s0_def engine_wf_def)
  obtain y u where ld: "load_states False (ev_now env) s0 = (y, u)" by (cases "load_states False (ev_now env) s0")
  have "sq_db u = sq_db s0" using load_states_read_only [OF ld wf] by blast
  then have "sq_db u = sq_db s" by (simp add: s0_def)
  moreover have "sq_db s0 = sq_db s" by (simp add: s0_def)
  ultimately show ?thesis using assms(1) ld
    by (auto simp: inspect_snapshot_def read_transaction_def Let_def s0_def [symmetric] op_bind_def
        split: option.splits sum.splits prod.splits)
qed

lemma sq_step_books:
  assumes "sq_step p start until d e d'" "real_db d"
  shows "\<exists>now. isfinite now \<and> flt now until \<and> step_books p until now e d d' \<and> real_db d'"
  using assms(1)
proof (cases rule: sq_step.cases)
  case (try_consume en env so u rid lifetime b tob dl r t)
  show ?thesis unfolding try_consume(1,2)
    using step_try_consume [OF try_consume(3,4) assms(2)] in_windowD(2,4) [OF try_consume(3)] by blast
next
  case (consume en env so u rid lifetime b r t)
  show ?thesis unfolding consume(1,2)
    using step_consume [OF consume(3,4) assms(2)] in_windowD(2,4) [OF consume(3)] by blast
next
  case (refund en env ids so reserved actual rid idn b r t)
  show ?thesis unfolding refund(1,2)
    using step_refund [OF refund(3,4,5) assms(2)] in_windowD(2,4) [OF refund(3)] by blast
next
  case (cleanup en env ids so u rid b r t)
  show ?thesis unfolding cleanup(1,2)
    using step_cleanup [OF cleanup(3,4,5) assms(2)] in_windowD(2,4) [OF cleanup(3)] by blast
next
  case (set_max en env so k v b r t)
  note w = in_windowD [OF set_max(3)]
  show ?thesis unfolding set_max(1,2) using quiet_step [OF step_set_max [OF set_max(4) w(2)]] w(2,4) assms(2) by auto
next
  case (apply_configured en env so k v b r t)
  note w = in_windowD [OF apply_configured(3)]
  show ?thesis unfolding apply_configured(1,2) using quiet_step [OF step_apply_configured [OF apply_configured(4)]] w(2,4) assms(2) by auto
next
  case (clear_overrides en env so ks configured b r t)
  note w = in_windowD [OF clear_overrides(3)]
  show ?thesis unfolding clear_overrides(1,2) using quiet_step [OF step_clear [OF clear_overrides(4)]] w(2,4) assms(2) by auto
next
  case (initialize en env so b r t)
  note w = in_windowD [OF initialize(3)]
  show ?thesis unfolding initialize(1,2) using quiet_step [OF step_initialize [OF initialize(4)]] w(2,4) assms(2) by auto
next
  case (schema en env b r t)
  note w = in_windowD [OF schema(3)]
  show ?thesis unfolding schema(1,2) using quiet_step [OF step_schema [OF schema(4)]] w(2,4) assms(2) by auto
next
  case (inspect en env b r t)
  have "sq_db t = d" using step_inspect [OF inspect(4)] in_windowD(1) [OF inspect(3)] by simp
  then show ?thesis unfolding inspect(1,2)
    using same_effect in_windowD(2,4) [OF inspect(3)] assms(2) by auto
qed

lemma sq_step_effect:
  assumes "sq_step p start until d e d'" "real_db d"
  shows "books_effect p until e d d' \<and> real_db d'"
  using sq_step_books [OF assms] step_books_effect by blast

interpretation sq: closing_ledger real_db "sq_live p" "sq_step p start until" "sq_closed p until"
  for p start until
proof unfold_locales
  fix s e t i
  show "real_db s \<Longrightarrow> sq_step p start until s e t \<Longrightarrow> real_db t"
    using sq_step_effect by blast
  show "real_db s \<Longrightarrow> sq_step p start until s (Acquired i) t \<Longrightarrow> sq_live p t \<subseteq> insert i (sq_live p s)"
    using sq_step_effect [of p start until s "Acquired i" t] by (auto simp: books_effect_def)
  show "real_db s \<Longrightarrow> sq_step p start until s (Refunded i) t \<Longrightarrow> i \<in> sq_live p s \<and> sq_live p t \<subseteq> sq_live p s - {i}"
    using sq_step_effect [of p start until s "Refunded i" t] by (auto simp: books_effect_def)
  show "real_db s \<Longrightarrow> sq_step p start until s (Cancelled i) t \<Longrightarrow> i \<in> sq_live p s \<and> sq_live p t \<subseteq> sq_live p s - {i}"
    using sq_step_effect [of p start until s "Cancelled i" t] by (auto simp: books_effect_def)
  show "real_db s \<Longrightarrow> sq_step p start until s Silent t \<Longrightarrow> sq_live p t \<subseteq> sq_live p s"
    using sq_step_effect [of p start until s Silent t] by (auto simp: books_effect_def)
  show "real_db s \<Longrightarrow> sq_step p start until s (Refunded i) t \<Longrightarrow> i \<in> sq_closed p until t"
    using sq_step_effect [of p start until s "Refunded i" t] by (auto simp: books_effect_def)
  show "real_db s \<Longrightarrow> sq_step p start until s e t \<Longrightarrow> sq_closed p until s \<subseteq> sq_closed p until t"
    using sq_step_effect [of p start until s e t] by (auto simp: books_effect_def)
  show "real_db s \<Longrightarrow> i \<in> sq_closed p until s \<Longrightarrow> sq_step p start until s e t \<Longrightarrow> e \<noteq> Acquired i \<and> e \<noteq> Refunded i"
    using sq_step_effect [of p start until s e t] by (auto simp: books_effect_def)
qed

end
