(* ===== verification/SqliteRegistry.thy ===== *)
theory SqliteRegistry
  imports SqliteTraces
begin

text \<open>
  The abstract specification of the two reservation tables: a registry that maps each
  reservation id to its live marker and its live tombstone, as it will be seen at any later
  time. The abstraction function forgets expired rows, and every step of every engine is a
  step of the registry.
\<close>

type_synonym registry = "pystr \<Rightarrow> marker_row option \<times> tombstone_row option"

definition registry_at :: "pystr \<Rightarrow> sqlite_db \<Rightarrow> pyfloat \<Rightarrow> registry" where
  "registry_at p d n i = (live_at mk_expires_at n (map_of (db_markers d) (p, i)),
                          live_at tb_expires_at n (map_of (db_tombstones d) (p, i)))"

text \<open>
  The specification: at the time \<open>now\<close> of a step, and as seen at every later time, an
  acquisition needs an unknown id and makes it live, a refund needs a live id and closes it
  until the end of the window at least, a clean-up forgets it, and nothing else is visible.
\<close>

inductive registry_step ::
  "pyfloat \<Rightarrow> pyfloat \<Rightarrow> (pyfloat \<Rightarrow> registry) \<Rightarrow> ledger_event \<Rightarrow> (pyfloat \<Rightarrow> registry) \<Rightarrow> bool"
  for now :: pyfloat and until :: pyfloat where
  idle: "\<forall>n. fle now n \<longrightarrow> rg' n = rg n \<Longrightarrow> registry_step now until rg Silent rg'"
| acquire: "rg now i = (None, None) \<Longrightarrow> mk_created_at m = now \<Longrightarrow>
    \<forall>n. fle now n \<longrightarrow> rg' n = (rg n)(i := (live_at mk_expires_at n (Some m), None)) \<Longrightarrow>
    registry_step now until rg (Acquired i) rg'"
| refund: "rg now i = (Some m, None) \<Longrightarrow> tb_refunded_at tb = now \<Longrightarrow> fle until (tb_expires_at tb) \<Longrightarrow>
    \<forall>n. fle now n \<longrightarrow> rg' n = (rg n)(i := (None, live_at tb_expires_at n (Some tb))) \<Longrightarrow>
    registry_step now until rg (Refunded i) rg'"
| cancel: "\<forall>n. fle now n \<longrightarrow> rg' n = (rg n)(i := (None, snd (rg n i))) \<Longrightarrow>
    registry_step now until rg (Cancelled i) rg'"

lemma gc_registry: "gc now d m \<Longrightarrow> fle now n \<Longrightarrow> registry_at p m n = registry_at p d n"
proof (rule ext)
  fix i assume g: "gc now d m" and n: "fle now n"
  have g1: "gone mk_expires_at now (map_of (db_markers d) (p, i)) (map_of (db_markers m) (p, i))"
    and g2: "gone tb_expires_at now (map_of (db_tombstones d) (p, i)) (map_of (db_tombstones m) (p, i))"
    using g unfolding gc_def by blast+
  show "registry_at p m n i = registry_at p d n i"
    unfolding registry_at_def gone_live [OF g1 n] gone_live [OF g2 n] by (rule refl)
qed

lemma registry_live: "registry_at (en_key_prefix (sq_eng s)) (sq_db s) n i = (live_marker n i s, live_tombstone n i s)"
  by (simp add: registry_at_def live_marker_def live_tombstone_def read_marker_def read_tombstone_def res_key_def)

lemma live_at_later: "live_at expiry now x = None \<Longrightarrow> fle now n \<Longrightarrow> live_at expiry n x = None"
  by (auto simp: live_at_def split: option.splits if_splits dest: fle_trans)

lemma acquired_registry:
  assumes "acquired_books now rid u lifetime en d d'" "acquire_class now rid u \<lparr>sq_eng = en, sq_db = d\<rparr> = Inr False"
    "now \<noteq> NaN"
  shows "registry_step now until (registry_at p d) (label p en rid True Acquired) (registry_at p d')"
proof (cases rid)
  case None
  then have "gc now d d'" using assms(1) by (simp add: acquired_books_def)
  then show ?thesis using None gc_registry by (auto simp: label_def intro!: registry_step.idle)
next
  case (Some i)
  with assms(1) obtain l m where m: "gc now d m" "map_of (db_markers m) (res_key en i) = None"
    "db_tombstones d' = db_tombstones m"
    "db_markers d' = db_markers m @ [(res_key en i, new_marker en u now l)]"
    unfolding acquired_books_def by auto
  have same: "registry_at p d' n j = registry_at p d n j" if "fle now n" "(p, j) \<noteq> res_key en i" for n j
  proof -
    have "registry_at p d' n j = registry_at p m n j" using m(3,4) that(2) by (simp add: registry_at_def map_add_def split: option.split)
    then show ?thesis using gc_registry [OF m(1) that(1), of p] by simp
  qed
  show ?thesis
  proof (cases "en_key_prefix en = p")
    case False
    then have "(p, j) \<noteq> res_key en i" for j by (simp add: res_key_def)
    then have "\<forall>n. fle now n \<longrightarrow> registry_at p d' n = registry_at p d n" using same by blast
    then show ?thesis using False Some by (simp add: label_def registry_step.idle)
  next
    case True
    let ?s = "\<lparr>sq_eng = en, sq_db = d\<rparr>"
    have none: "live_marker now i ?s = None" "live_tombstone now i ?s = None"
      using assms(2) Some by (auto simp: acquire_class_def split: option.splits if_splits)
    then have r: "registry_at p d now i = (None, None)" using registry_live [of ?s now i] True by simp
    have "registry_at p d' n = (registry_at p d n)(i := (live_at mk_expires_at n (Some (new_marker en u now l)), None))"
      if n: "fle now n" for n
    proof (rule ext)
      fix j
      show "registry_at p d' n j =
        ((registry_at p d n)(i := (live_at mk_expires_at n (Some (new_marker en u now l)), None))) j"
      proof (cases "j = i")
        case False
        then show ?thesis using same [OF n] True by (simp add: res_key_def)
      next
        case j: True
        have "map_of (db_markers d') (p, i) = Some (new_marker en u now l)"
          using m(2,4) True by (simp add: res_key_def map_add_def)
        moreover have "snd (registry_at p d' n i) = None"
        proof -
          have "snd (registry_at p d' n i) = snd (registry_at p m n i)" using m(3) by (simp add: registry_at_def)
          also have "\<dots> = snd (registry_at p d n i)" using gc_registry [OF m(1) n, of p] by simp
          also have "\<dots> = None"
            using r live_at_later [OF _ n, of tb_expires_at "map_of (db_tombstones d) (p, i)"] by (simp add: registry_at_def)
          finally show ?thesis .
        qed
        ultimately show ?thesis using j by (simp add: registry_at_def)
      qed
    qed
    then have "\<forall>n. fle now n \<longrightarrow> registry_at p d' n =
        (registry_at p d n)(i := (live_at mk_expires_at n (Some (new_marker en u now l)), None))" by blast
    with r have "registry_step now until (registry_at p d) (Acquired i) (registry_at p d')"
      by (intro registry_step.acquire [where m = "new_marker en u now l"]) (simp_all add: new_marker_def)
    then show ?thesis using True Some by (simp add: label_def)
  qed
qed

lemma closed_registry:
  assumes "gc now d m" "db_markers d' = dict_pop (res_key en i) (db_markers m)"
    "db_tombstones d' = db_tombstones m @ ts" "\<forall>j. j \<noteq> i \<longrightarrow> map_of ts (en_key_prefix en, j) = None"
    "\<forall>q. q \<noteq> en_key_prefix en \<longrightarrow> (\<forall>j. map_of ts (q, j) = None)" "fle now n"
  shows "(p, j) \<noteq> res_key en i \<Longrightarrow> registry_at p d' n j = registry_at p d n j"
    and "fst (registry_at (en_key_prefix en) d' n i) = None"
proof -
  assume k: "(p, j) \<noteq> res_key en i"
  have "map_of ts (p, j) = None"
  proof (cases "p = en_key_prefix en")
    case True
    then have "j \<noteq> i" using k by (simp add: res_key_def)
    with True assms(4) show ?thesis by simp
  next
    case False
    then show ?thesis using assms(5) by simp
  qed
  then have "registry_at p d' n j = registry_at p m n j"
    using assms(2,3) k by (simp add: registry_at_def map_add_def split: option.split)
  then show "registry_at p d' n j = registry_at p d n j" using gc_registry [OF assms(1,6), of p] by simp
next
  show "fst (registry_at (en_key_prefix en) d' n i) = None"
    using assms(2) by (simp add: registry_at_def res_key_def live_at_def)
qed

lemma refunded_registry:
  assumes "refunded_books now rid en d d'" "\<forall>i. rid = Some i \<longrightarrow> identity_ok now i idn \<lparr>sq_eng = en, sq_db = d\<rparr>"
    "now \<noteq> NaN" "fle until (fadd now (secs (en_refund_ttl en)))"
  shows "registry_step now until (registry_at p d) (label p en rid True Refunded) (registry_at p d')"
proof (cases rid)
  case None
  then have "gc now d d'" using assms(1) by (simp add: refunded_books_def)
  then show ?thesis using None gc_registry by (auto simp: label_def intro!: registry_step.idle)
next
  case (Some i)
  let ?tb = "new_tombstone en now" and ?ts = "[(res_key en i, new_tombstone en now)]"
  from Some assms(1) obtain m where m: "gc now d m" "map_of (db_tombstones m) (res_key en i) = None"
    "db_markers d' = dict_pop (res_key en i) (db_markers m)" "db_tombstones d' = db_tombstones m @ ?ts"
    unfolding refunded_books_def by auto
  have ts: "\<forall>j. j \<noteq> i \<longrightarrow> map_of ?ts (en_key_prefix en, j) = None"
    "\<forall>q. q \<noteq> en_key_prefix en \<longrightarrow> (\<forall>j. map_of ?ts (q, j) = None)" by (simp_all add: res_key_def)
  note cl = closed_registry [OF m(1,3,4) ts]
  show ?thesis
  proof (cases "en_key_prefix en = p")
    case False
    then have "(p, j) \<noteq> res_key en i" for j by (simp add: res_key_def)
    then have "\<forall>n. fle now n \<longrightarrow> registry_at p d' n = registry_at p d n" using cl(1) by blast
    then show ?thesis using False Some by (simp add: label_def registry_step.idle)
  next
    case True
    let ?s = "\<lparr>sq_eng = en, sq_db = d\<rparr>"
    have "live_tombstone now i ?s = None" "live_marker now i ?s \<noteq> None"
      using assms(2) Some by (auto simp: identity_ok_def refund_class_def split: if_splits option.splits)
    then obtain mk where r: "registry_at p d now i = (Some mk, None)"
      using registry_live [of ?s now i] True by auto
    have "registry_at p d' n = (registry_at p d n)(i := (None, live_at tb_expires_at n (Some ?tb)))"
      if n: "fle now n" for n
    proof (rule ext)
      fix j
      have "map_of (db_tombstones d') (p, i) = Some ?tb" using m(2,4) True by (simp add: res_key_def map_add_def)
      then have "registry_at p d' n i = (None, live_at tb_expires_at n (Some ?tb))"
        using cl(2) [OF n] True by (simp add: registry_at_def)
      then show "registry_at p d' n j = ((registry_at p d n)(i := (None, live_at tb_expires_at n (Some ?tb)))) j"
        using cl(1) [OF n, of p j] True by (simp add: res_key_def)
    qed
    then have "\<forall>n. fle now n \<longrightarrow> registry_at p d' n = (registry_at p d n)(i := (None, live_at tb_expires_at n (Some ?tb)))"
      by blast
    with r have "registry_step now until (registry_at p d) (Refunded i) (registry_at p d')"
      using assms(4) by (intro registry_step.refund [where m = mk and tb = ?tb]) (simp_all add: new_tombstone_def)
    then show ?thesis using True Some by (simp add: label_def)
  qed
qed

lemma cleaned_registry:
  assumes "cleaned_books now rid en d d'"
  shows "registry_step now until (registry_at p d) (label p en rid True Cancelled) (registry_at p d')"
proof (cases rid)
  case None
  then have "gc now d d'" using assms(1) by (simp add: cleaned_books_def)
  then show ?thesis using None gc_registry by (auto simp: label_def intro!: registry_step.idle)
next
  case (Some i)
  with assms(1) obtain m where m: "gc now d m" "db_markers d' = dict_pop (res_key en i) (db_markers m)"
    "db_tombstones d' = db_tombstones m @ []" unfolding cleaned_books_def by auto
  note cl = closed_registry [OF m, simplified]
  have "registry_at p d' n = (if en_key_prefix en = p then (registry_at p d n)(i := (None, snd (registry_at p d n i)))
      else registry_at p d n)" if n: "fle now n" for n
  proof (rule ext)
    fix j
    have "snd (registry_at p d' n i) = snd (registry_at p m n i)" using m(3) by (simp add: registry_at_def)
    also have "\<dots> = snd (registry_at p d n i)" using gc_registry [OF m(1) n, of p] by simp
    finally have "en_key_prefix en = p \<Longrightarrow> registry_at p d' n i = (None, snd (registry_at p d n i))"
      using cl(2) [OF n] by (simp add: prod_eq_iff)
    then show "registry_at p d' n j = (if en_key_prefix en = p
        then (registry_at p d n)(i := (None, snd (registry_at p d n i))) else registry_at p d n) j"
      using cl(1) [OF n, of p j] by (auto simp: res_key_def)
  qed
  then show ?thesis using Some
    by (auto simp: label_def intro!: registry_step.idle registry_step.cancel)
qed

text \<open>The simulation.\<close>

lemma step_books_registry:
  "step_books p until now e d d' \<Longrightarrow> now \<noteq> NaN \<Longrightarrow>
   registry_step now until (registry_at p d) e (registry_at p d')"
  by (induction rule: step_books.induct)
     (auto intro: acquired_registry refunded_registry cleaned_registry registry_step.idle gc_registry)

end
