(* ===== verification/SqliteProgress.thy ===== *)
theory SqliteProgress
  imports SqliteOps
begin

text \<open>
  Progress: a load of buckets that are not in debt succeeds, and so does every step of an
  acquisition whose usage is available.
\<close>

section \<open>When a load and an acquisition succeed\<close>

lemma settle_succeeds:
  assumes "refill_capacity sp cap lc now (ld_max l) = Inr (c, v)" "\<not> flt (amount c) (Fin 0)"
  shows "\<exists>t. settle w now sp l lost cap lc s = (Inr (mk_bucket_state sp l lost c v), t)"
  using assms by (simp add: settle_def op_bind_def op_simps extend_for_debt_def)

lemma load_state_succeeds:
  assumes "view_state (sq_eng s) now sp (read_row (spec_id sp) s) = Inr st" "\<not> flt (bs_capacity st) (Fin 0)"
  shows "\<exists>t. load_state w now sp s = (Inr st, t)"
proof -
  obtain y u where ld: "load_row w now sp s = (y, u)" by (cases "load_row w now sp s")
  note lv = load_row_view [OF ld]
  from assms(1) obtain l where l: "view_loaded now sp (read_row (spec_id sp) s) = Inr l"
    by (auto simp: view_state_def bind_res_Inr_iff)
  define lost where "lost = state_lost (sq_eng s) (spec_id sp) now l"
  from assms(1) l obtain c v where r: "refill_capacity sp (if lost then Some (Fin 0) else ld_capacity l)
      (if lost then Some now else ld_last_checked l) now (ld_max l) = Inr (c, v)"
    and st: "st = mk_bucket_state sp l lost c v"
    by (auto simp: view_state_def Let_def bind_res_Inr_iff lost_def)
  have "\<not> flt (amount c) (Fin 0)" using assms(2) st by (simp add: mk_bucket_state_def)
  note ok = settle_succeeds [OF r this]
  have "state_lost (sq_eng u) (spec_id sp) now l = lost"
    using lv frame_core state_lost_core unfolding lost_def by blast
  then show ?thesis using ld lv l ok st by (cases lost) (auto simp: load_state_def op_bind_def)
qed

lemma load_each_succeeds:
  assumes "view_states (sq_eng s) now sps (\<lambda>k. read_row k s) = Inr sts"
    and "distinct (map fst acc @ map spec_id sps)" "\<forall>(k, st) \<in> set sts. \<not> flt (bs_capacity st) (Fin 0)"
  shows "\<exists>t. load_each w now sps acc s = (Inr (acc @ sts), t)"
  using assms
proof (induction sps arbitrary: acc s sts)
  case Nil
  then show ?case by (simp add: op_simps)
next
  case (Cons sp sps)
  from Cons.prems(1) obtain st rest where v: "view_state (sq_eng s) now sp (read_row (spec_id sp) s) = Inr st"
    "view_states (sq_eng s) now sps (\<lambda>k. read_row k s) = Inr rest" "sts = (spec_id sp, st) # rest"
    by (auto simp: bind_res_Inr_iff)
  have nn: "\<not> flt (bs_capacity st) (Fin 0)" using Cons.prems(3) v(3) by simp
  from load_state_succeeds [OF v(1) nn] obtain u where u: "load_state w now sp s = (Inr st, u)" by blast
  have f: "frame {spec_id sp} s u" using load_state_effect [OF u] by blast
  have "view_states (sq_eng u) now sps (\<lambda>k. read_row k u) = view_states (sq_eng s) now sps (\<lambda>k. read_row k s)"
  proof (rule view_states_cong)
    show "eng_core (sq_eng u) = eng_core (sq_eng s)" using f by (rule frame_core)
    fix sp' assume "sp' \<in> set sps"
    then have "spec_id sp' \<notin> {spec_id sp}" using Cons.prems(2) by (auto simp: image_iff)
    with f show "read_row (spec_id sp') u = read_row (spec_id sp') s" by (rule frame_read_row)
  qed
  then have vu: "view_states (sq_eng u) now sps (\<lambda>k. read_row k u) = Inr rest" using v(2) by simp
  have d: "distinct (map fst (acc @ [(spec_id sp, st)]) @ map spec_id sps)" using Cons.prems(2) by auto
  have "\<exists>t. load_each w now sps (acc @ [(spec_id sp, st)]) u = (Inr ((acc @ [(spec_id sp, st)]) @ rest), t)"
    using Cons.IH [OF vu d] Cons.prems(3) v(3) by simp
  moreover have "spec_id sp \<notin> set (map fst acc)" using Cons.prems(2) by auto
  ultimately show ?case using u v(3) dict_set_fresh [of "spec_id sp" acc st] by (simp add: op_bind_def)
qed

lemma load_states_succeeds:
  assumes "engine_view now s = Inr sts" "engine_wf (sq_eng s)" "\<forall>(k, st) \<in> set sts. \<not> flt (bs_capacity st) (Fin 0)"
  shows "\<exists>t. load_states w now s = (Inr sts, t)"
  using load_each_succeeds [OF assms(1) [unfolded engine_view_def], of "[]"] assms(2,3)
  by (simp add: load_states_def engine_wf_def)

lemma calculated_le_max:
  assumes "calculate_capacity (optional_float lc) (optional_float cap) (VFloat now) (VFloat mx) r = Inr c"
  shows "isfinite (amount c) \<and> fle (amount c) mx \<and> (is_dbl mx \<longrightarrow> is_dbl (amount c))"
proof -
  from assms obtain m where m: "mx = Fin m"
    by (auto simp: calculate_capacity_def bind_res_Inr_iff validate_max_VFloat isfinite_Fin split: if_splits)
  have mx: "fmin mx mx = mx" by (simp add: fmin_def)
  have "\<exists>y z. isfinite (amount c) \<and> amount c = fmin mx y \<and> y \<in> {mx, fadd (fst z) (snd z)}"
  proof (cases lc; cases cap)
    fix l x assume "lc = Some l" "cap = Some x"
    then obtain q where "amount c = refilled now l x mx q" "isfinite (amount c)"
      using assms by (auto simp: calculate_capacity_def mk_calculated_capacity_def bind_res_Inr_iff validate_max_VFloat
        optional_float_def split: if_splits)
    then show ?thesis unfolding refilled_def
      by (intro exI [of _ "fadd x (fmul (time_passed now l) q)"] exI [of _ "(x, fmul (time_passed now l) q)"]) simp
  qed (use assms mx in \<open>auto simp: calculate_capacity_def mk_calculated_capacity_def bind_res_Inr_iff validate_max_VFloat
        optional_float_def split: if_splits intro!: exI [of _ mx]\<close>)
  then obtain y z where y: "isfinite (amount c)" "amount c = fmin mx y" "y \<in> {mx, fadd (fst z) (snd z)}" by blast
  then have "is_dbl mx \<longrightarrow> is_dbl (amount c)" using is_dbl_fmin [of mx y] by auto
  moreover have "fle (amount c) mx" using y(1,2) m flt_imp_fle [of y mx] by (auto simp: fmin_def)
  ultimately show ?thesis using y(1) by blast
qed

lemma view_capacity:
  assumes "engine_view now s = Inr sts" "(k, st) \<in> set sts"
  shows "isfinite (bs_capacity st) \<and> fle (bs_capacity st) (bs_max st) \<and> (is_dbl (bs_max st) \<longrightarrow> is_dbl (bs_capacity st))"
proof -
  from view_states_in [OF assms(1) [unfolded engine_view_def] assms(2)] obtain sp row where
    "view_state (sq_eng s) now sp row = Inr st" by blast
  then obtain l where l: "bind_res (refill_capacity sp
        (if state_lost (sq_eng s) (spec_id sp) now l then Some (Fin 0) else ld_capacity l)
        (if state_lost (sq_eng s) (spec_id sp) now l then Some now else ld_last_checked l) now (ld_max l))
      (\<lambda>(calculated, uncapped). Inr (mk_bucket_state sp l (state_lost (sq_eng s) (spec_id sp) now l) calculated uncapped)) = Inr st"
    by (auto simp: view_state_def Let_def bind_res_Inr_iff)
  define cap lc where "cap = (if state_lost (sq_eng s) (spec_id sp) now l then Some (Fin 0) else ld_capacity l)"
    and "lc = (if state_lost (sq_eng s) (spec_id sp) now l then Some now else ld_last_checked l)"
  from l obtain c v where c: "refill_capacity sp cap lc now (ld_max l) = Inr (c, v)"
    "bs_capacity st = amount c" "bs_max st = ld_max l"
    unfolding cap_def [symmetric] lc_def [symmetric] by (auto simp: bind_res_Inr_iff mk_bucket_state_def)
  then obtain rate where "calculate_capacity (optional_float lc) (optional_float cap) (VFloat now) (VFloat (ld_max l)) (VFloat rate) = Inr c"
    by (auto simp: refill_capacity_def bind_res_Inr_iff)
  then show ?thesis using c(2,3) calculated_le_max [of lc cap now "ld_max l" "VFloat rate" c] by simp
qed


lemma available_not_exceeding:
  assumes "engine_view now s = Inr sts" "usage_available u sts" "distinct (dict_keys u)"
  shows "\<not> exceeds_max_capacity u sts"
proof -
  have "\<not> flt (bs_max st) a" if m: "(x, a) \<in> set u" "(k, st) \<in> set sts" "sp_metric (bs_spec st) = x" for x a k st
  proof -
    have "map_of u x = Some a" using m(1) assms(3) by (simp add: dict_keys_def)
    moreover have "fst k = x" using view_spec [OF assms(1) m(2)] m(3) by (simp add: spec_id_def)
    ultimately have "fle a (bs_capacity st)"
      using assms(2) m(2) by (force simp: usage_available_def list_all_iff usage_amount_def dict_get_def)
    then have "fle a (bs_max st)" using view_capacity [OF assms(1) m(2)] fle_trans by blast
    then show ?thesis using not_fle by (cases "a = NaN"; cases "bs_max st = NaN") (auto simp: not_flt)
  qed
  then show ?thesis by (auto simp: exceeds_max_capacity_def list_ex_iff)
qed

text \<open>What an available acquisition writes: finite and not negative.\<close>

lemma taken_ok:
  assumes "fle (Fin 0) a" "fle a c" "isfinite c" "is_dbl c"
  shows "isfinite (fsub c a) \<and> fle (Fin 0) (fsub c a)"
proof -
  from assms obtain x y where xy: "c = Fin x" "a = Fin y" "0 \<le> y" "y \<le> x"
    by (cases c; cases a) auto
  obtain z where "rnd (x - y) = Fin z" "0 \<le> z"
    by (rule rnd_between [of 0 "x - y" x]) (use xy assms(4) in auto)
  then show ?thesis using xy by simp
qed

lemma insert_marker_succeeds:
  assumes "\<forall>i. rid = Some i \<longrightarrow> read_marker i s = None \<and> (\<exists>l. lifetime = Some l \<and> lifetime_ok (sq_eng s) l)"
  shows "\<exists>t. insert_marker rid u lifetime now s = (Inr (), t)"
proof (cases rid)
  case (Some i)
  with assms obtain l where l: "lifetime = Some l" "lifetime_ok (sq_eng s) l" "read_marker i s = None" by blast
  obtain x where "table_insert (res_key (sq_eng s) i) (new_marker (sq_eng s) u now l) (db_markers (sq_db s)) = Inr x"
    using l(3) by (simp add: table_insert_Inr read_marker_def)
  then show ?thesis using l Some by (simp add: insert_marker_def lifetime_ok_def new_marker_def)
qed (simp add: insert_marker_def)

lemma try_consume_body_succeeds:
  assumes "engine_view now s = Inr sts" "usage_available u sts" "distinct (dict_keys u)"
    and "\<forall>(m, a) \<in> set u. fle (Fin 0) a" "\<forall>(k, st) \<in> set sts. is_dbl (bs_max st)"
    and "acquire_class now rid u s = Inr False"
    and "\<forall>i. rid = Some i \<longrightarrow> (\<exists>l. lifetime = Some l \<and> lifetime_ok (sq_eng s) l)"
    and "engine_wf (sq_eng s)" "real_db (sq_db s)" "now \<noteq> NaN"
  shows "\<exists>t. try_consume_body so u rid lifetime now s =
    (Inr (True, mk_capacity_result now sts (take_usage u sts) False), t)"
proof -
  let ?p = "prune so now s"
  have nonneg: "fle (Fin 0) (usage_amount u k)" for k
    using assms(4) by (auto simp: usage_amount_def dict_get_def split: option.split dest!: map_of_SomeD)
  have caps: "isfinite (bs_capacity st)" "fle (usage_amount u k) (bs_capacity st)" "is_dbl (bs_capacity st)"
    if "(k, st) \<in> set sts" for k st
    using that view_capacity [OF assms(1) that] assms(2,5) by (auto simp: usage_available_def list_all_iff)
  have pos: "\<forall>(k, st) \<in> set sts. \<not> flt (bs_capacity st) (Fin 0)"
  proof clarify
    fix m p st assume "((m, p), st) \<in> set sts" "flt (bs_capacity st) (Fin 0)"
    then show False using nonneg [of "(m, p)"] caps [of "(m, p)" st] fle_trans
      by (metis fle_notNaN not_flt)
  qed
  have p: "swept now s ?p" using assms(9,10) by (rule swept_prune)
  obtain s1 where s1: "raise_if_duplicate_acquire rid now u ?p = (acquire_class now rid u ?p, s1)"
    "gc now (sq_db ?p) (sq_db s1)" "sq_eng s1 = sq_eng ?p" "db_buckets (sq_db s1) = db_buckets (sq_db ?p)"
    "\<forall>i. rid = Some i \<longrightarrow> read_marker i s1 = live_marker now i ?p"
    using raise_if_duplicate_effect [of rid now u ?p] by (elim exE conjE) (rule that)
  have sw: "swept now s s1" using p swept_same_rows [OF s1(2,3,4)] by (rule swept_trans)
  have cls: "acquire_class now rid u ?p = Inr False" using acquire_class_swept [OF p assms(10)] assms(6) by simp
  have v1: "engine_view now s1 = Inr sts" using assms(1) swept_view [OF sw] by simp
  have wf1: "engine_wf (sq_eng s1)" using assms(8) swept_eng [OF sw] by simp
  from load_states_succeeds [OF v1 wf1 pos] obtain s2 where ld: "load_states True now s1 = (Inr sts, s2)" by blast
  note l = load_states_writable [OF ld wf1]
  have core: "eng_core (sq_eng s2) = eng_core (sq_eng s)" using frame_core [OF l(1)] swept_eng [OF sw] by simp
  have wf2: "engine_wf (sq_eng s2)" using assms(8) engine_wf_core [OF core] by simp
  have ids: "map fst (take_usage u sts) = map spec_id (en_buckets (sq_eng s2))"
    using view_ids [OF assms(1)] eng_core_fields(4) [OF core] by simp
  have w: "fst (write_capacities now (take_usage u sts) s2) = Inr ()"
  proof (rule write_capacities_succeeds [OF wf2])
    show "distinct (map fst (take_usage u sts))" using wf2 ids by (simp add: engine_wf_def)
    show keys: "fst ` set (take_usage u sts) \<subseteq> engine_ids (sq_eng s2)" using ids by (metis set_map subset_refl)
    fix k a assume m: "(k, a) \<in> set (take_usage u sts)"
    then obtain st where st: "(k, st) \<in> set sts" "a = fsub (bs_capacity st) (usage_amount u k)"
      using view_spec [OF assms(1)] by (fastforce simp: take_usage_def usage_amount_def spec_id_def)
    have "k \<in> engine_ids (sq_eng s1)" using keys m eng_core_fields(4) [OF frame_core [OF l(1)]] by force
    then have "read_row k s2 \<noteq> None" using l(2) [OF refl] by blast
    moreover have "isfinite a \<and> fle (Fin 0) a" unfolding st(2) by (intro taken_ok nonneg caps [OF st(1)])
    ultimately show "isfinite a \<and> fle (Fin 0) a \<and> read_row k s2 \<noteq> None" by blast
  qed
  then obtain s3 where w3: "write_capacities now (take_usage u sts) s2 = (Inr (), s3)"
    by (cases "write_capacities now (take_usage u sts) s2") simp
  have f3: "frame (fst ` set (take_usage u sts)) s2 s3"
    using write_capacities_effect [OF w3 wf2] ids wf2 by (metis engine_wf_def set_map subset_refl)
  have "read_marker i s3 = None" if "rid = Some i" for i
  proof -
    have "live_marker now i s = None" using assms(6) that by (auto simp: acquire_class_def split: option.splits if_splits)
    then show ?thesis using s1(5) that swept_live [OF p assms(10)] frame_read_marker [OF l(1)] frame_read_marker [OF f3] by simp
  qed
  moreover have "lifetime_ok (sq_eng s3) = lifetime_ok (sq_eng s)"
    using eng_core_fields(9) [OF core] frame_fields(9) [OF f3] by (simp add: lifetime_ok_def fun_eq_iff)
  ultimately obtain t where "insert_marker rid u lifetime now s3 = (Inr (), t)"
    using insert_marker_succeeds [of rid s3 lifetime u now] assms(7) by auto
  then have "try_consume_body so u rid lifetime now s = (Inr (True, mk_capacity_result now sts (take_usage u sts) False), t)"
    using s1(1) cls ld w3 available_not_exceeding [OF assms(1-3)] assms(2)
    by (simp add: try_consume_body_def op_bind_def op_simps)
  then show ?thesis by blast
qed

end
