(* ===== verification/SqliteDemo.thy ===== *)
theory SqliteDemo
  imports SqliteRegistry SqliteProgress
begin

text \<open>
  A concrete engine with one bucket (60 requests in 60 seconds), evaluated step by step: an
  acquisition on an empty database, a refused one, and a refund. The witnesses of the
  properties of the SQLite backend rest on these runs.
\<close>

definition demo_spec :: bucket_spec where
  "demo_spec = \<lparr>sp_metric = [109], sp_per_seconds = 60, sp_configured_max = Fin 60\<rparr>"

definition demo_en :: sq_engine where
  "demo_en = mk_engine [100] [112] [102] [demo_spec] 600 600 600 (Fin 100) 5000 256"

definition empty_db :: sqlite_db where
  "empty_db = \<lparr>db_schema_version = Some SCHEMA_VERSION, db_buckets = [], db_markers = [], db_tombstones = []\<rparr>"

definition demo_env :: "pyfloat \<Rightarrow> txn_env" where
  "demo_env t = \<lparr>ev_lock_now = t, ev_lock_acquired = True, ev_locked_now = t, ev_timeout_now = t,
     ev_begin = None, ev_begun_now = t, ev_now = t, ev_commit = None\<rparr>"

definition demo_scan :: scan_order where
  "demo_scan = \<lparr>so_reservations = id, so_buckets = id\<rparr>"

abbreviation demo_usage :: usage where
  "demo_usage \<equiv> [([109], Fin 3)]"

text \<open>The row of the bucket, the marker and the tombstone of the reservation \<open>n\<close>.\<close>

definition demo_row :: "pyfloat \<Rightarrow> pyfloat \<Rightarrow> pyfloat \<Rightarrow> bucket_row" where
  "demo_row c t e = \<lparr>row_capacity = Some c, row_last_checked = Some t, row_override_value = None,
     row_override_expires_at = None, row_override_configured_max = None, row_updated_at = t, row_expires_at = e\<rparr>"

definition demo_marker :: marker_row where
  "demo_marker = \<lparr>mk_model_family = [102], mk_bucket_ids_json = bucket_ids_json {([109], 60)},
     mk_reserved_usage_json = usage_json demo_usage, mk_created_at = Fin 1000, mk_expires_at = Fin 1050\<rparr>"

definition acquired_db :: sqlite_db where
  "acquired_db = empty_db\<lparr>db_buckets := [(([112], [102], [109], 60), demo_row (Fin 57) (Fin 1000) (Fin 1600))],
     db_markers := [(([112], [110]), demo_marker)]\<rparr>"

definition refunded_db :: sqlite_db where
  "refunded_db = empty_db\<lparr>db_buckets := [(([112], [102], [109], 60), demo_row (Fin 59) (Fin 1001) (Fin 1601))],
     db_tombstones := [(([112], [110]), \<lparr>tb_refunded_at = Fin 1001, tb_expires_at = Fin 1601\<rparr>)]\<rparr>"

section \<open>Evaluation\<close>

lemma demo_en_fields [simp]:
  "en_key_prefix demo_en = [112]" "en_model_family demo_en = [102]" "en_buckets demo_en = [demo_spec]"
  "en_bucket_by_id demo_en = [(([109], 60), demo_spec)]" "en_bucket_ttl demo_en = 600"
  "en_refund_ttl demo_en = 600" "en_override_ttl demo_en = 600" "en_max_lifetime demo_en = Fin 100" "en_prune_batch demo_en = 256"
  "en_confirmed_until demo_en = []" "en_pending demo_en = []" "en_busy_timeout_ms demo_en = 5000"
  by (simp_all add: demo_en_def mk_engine_def demo_spec_def spec_id_def)

lemma demo_spec_fields [simp]:
  "sp_metric demo_spec = [109]" "sp_per_seconds demo_spec = 60" "sp_configured_max demo_spec = Fin 60"
  "spec_id demo_spec = ([109], 60)"
  by (simp_all add: demo_spec_def spec_id_def)

lemma demo_engine_wf: "engine_wf demo_en"
  by (simp add: engine_wf_def)

lemma real_empty [simp]: "real_db empty_db"
  by (simp add: real_db_def empty_db_def)

lemma real_acquired [simp]: "real_db acquired_db"
  by (simp add: real_db_def acquired_db_def demo_row_def)

lemma validate_60: "validate_max_capacity_finite_positive (VFloat (Fin 60)) = Inr (Fin 60)"
  by (simp add: validate_max_ok max_ok_def MIN_MAX_CAPACITY_val)

lemma validate_rate_1: "validate_rate_per_sec_finite_positive (VFloat (Fin 1)) = Inr (Fin 1)"
  by (simp add: validate_rate_VFloat rate_ok_def)

lemma rate_60: "calculate_rate_per_sec (Fin 60) 60 = Inr (Fin 1)"
  by (simp add: calculate_rate_per_sec_def float_of_int_def validate_rate_1)

lemma refill_fresh: "0 \<le> t \<Longrightarrow> refill_capacity demo_spec None None (Fin t) (Fin 60) =
    Inr (\<lparr>amount = Fin 60, is_fresh_start = True\<rparr>, Fin 60)"
  by (simp add: refill_capacity_def rate_60 optional_float_def calculate_capacity_def validate_60
      validate_rate_1 mk_calculated_capacity_def)

lemma refill_57: "refill_capacity demo_spec (Some (Fin 57)) (Some (Fin 1000)) (Fin 1001) (Fin 60) =
    Inr (\<lparr>amount = Fin 58, is_fresh_start = False\<rparr>, Fin 58)"
  by (simp add: refill_capacity_def rate_60 optional_float_def calculate_capacity_def validate_60
      validate_rate_1 mk_calculated_capacity_def refilled_def time_passed_def Let_def)

lemmas sqlite_exec = op_bind_def op_simps raise_if_duplicate_acquire_def expire_marker_def expire_tombstone_def
  read_marker_def read_tombstone_def delete_marker_def dict_pop_def marker_matches_def
  load_states_def load_state_def load_row_def load_absent_def load_present_def integrate_to_expiry_def
  override_anchor_matches_def read_row_def
  row_key_def res_key_def modify_db_def modify_eng_def insert_row_def table_insert_def dict_keys_def empty_row_def
  state_lost_def missing_fields_def present_fields_def state_loss_suspected_def settle_def repair_future_def
  future_clock_def FUTURE_LAST_CHECKED_REPAIR_TOLERANCE_SECONDS_def extend_for_debt_def mk_bucket_state_def
  exceeds_max_capacity_def usage_available_def usage_amount_def take_usage_def take_usage_floored_def
  write_capacities_def write_capacity_def write_maximum_def row_override_live_def
  debt_ttl_seconds_def update_row_def table_update_def set_pending_def secs_def insert_marker_def dict_get_def
  prune_def delete_batch_def limit_rows_def confirm_pending_def clear_pending_def with_pragma_def
  mk_capacity_result_def sq_capacities_def max_capacities_def fresh_ids_def missing_state_events_def
  List.map_filter_def sq_bucket_ids_def row_prunable_def

lemma demo_transaction: "transaction (demo_env t) None False None body s =
  (case body t (with_pragma (en_busy_timeout_ms (sq_eng s)) s) of
     (Inl e, t) \<Rightarrow> (Inl e, roll_back s t) | (Inr x, t) \<Rightarrow> (Inr x, clear_pending (confirm_pending t)))"
  by (simp add: transaction_def demo_env_def transaction_lock_def check_acquire_deadline_def
      operation_timeout_ms_def Let_def with_pragma_def split: prod.split sum.split)

text \<open>The acquisition of 3 requests at time 1000.\<close>

definition demo_result :: capacity_result where
  "demo_result = \<lparr>cr_time = Fin 1000, cr_pre = [(([109], 60), Fin 60)], cr_post = [(([109], 60), Fin 57)],
     cr_max = [(([109], 60), Fin 60)], cr_fresh = [([109], 60)], cr_replayed = False,
     cr_missing = [\<lparr>me_bucket_id = ([109], 60), me_reason = ''fresh_start'',
       me_missing_fields = [''last_checked'', ''capacity''], me_present_fields = []\<rparr>]\<rparr>"

lemma demo_acquire:
  "\<exists>t. try_consume demo_scan (demo_env (Fin 1000)) demo_usage (Some [110]) (Some (Fin 50)) None False None
     \<lparr>sq_eng = demo_en, sq_db = empty_db\<rparr> = (Inr (True, demo_result), t) \<and> sq_db t = acquired_db"
  by (simp add: try_consume_def demo_transaction try_consume_body_def empty_db_def demo_scan_def demo_result_def
      sqlite_exec refill_fresh validate_60 acquired_db_def demo_row_def demo_marker_def)

text \<open>Its refund at time 1001, 2 of the 3 requests used.\<close>

definition demo_identity :: refund_identity where
  "demo_identity = \<lparr>ri_model_family = Some [102], ri_bucket_ids = Some {([109], 60)},
     ri_reserved_usage = Some demo_usage\<rparr>"

definition demo_refund_result :: refund_result where
  "demo_refund_result = \<lparr>rr_time = Fin 1001, rr_pre = [(([109], 60), Fin 58)], rr_post = [(([109], 60), Fin 59)],
     rr_refunded = [([109], Fin 1)], rr_fresh = [], rr_missing = []\<rparr>"

lemma demo_refund:
  "\<exists>t. refund demo_scan (demo_env (Fin 1001)) demo_usage [([109], Fin 2)] [([109], 60)] (Some [110]) demo_identity None
     \<lparr>sq_eng = demo_en, sq_db = acquired_db\<rparr> = (Inr demo_refund_result, t) \<and> sq_db t = refunded_db"
  by (simp add: refund_def refund_usage_def demo_transaction refund_body_def authorize_refund_def verify_marker_def
      refund_post_def refunded_capacity_def close_marker_def delete_tombstone_def
      empty_db_def demo_scan_def demo_refund_result_def demo_identity_def refunded_db_def
      sqlite_exec refill_57 validate_60 acquired_db_def demo_row_def demo_marker_def)

section \<open>Further runs\<close>

lemma demo_window: "in_window (Fin 1000) (Fin 1600) demo_en (demo_env (Fin 1000))"
    "in_window (Fin 1000) (Fin 1600) demo_en (demo_env (Fin 1001))"
  by (simp_all add: in_window_def demo_engine_wf demo_env_def secs_def)

lemma demo_acquire_step: "sq_step [112] (Fin 1000) (Fin 1600) empty_db (Acquired [110]) acquired_db"
proof -
  obtain t where t: "try_consume demo_scan (demo_env (Fin 1000)) demo_usage (Some [110]) (Some (Fin 50)) None False None
     \<lparr>sq_eng = demo_en, sq_db = empty_db\<rparr> = (Inr (True, demo_result), t)" "sq_db t = acquired_db"
    using demo_acquire by blast
  show ?thesis using sq_step.try_consume [OF demo_window(1) t(1), of "[112]"] t(2)
    by (simp add: label_def fresh_grant_def demo_result_def)
qed

lemma demo_refund_step: "sq_step [112] (Fin 1000) (Fin 1600) acquired_db (Refunded [110]) refunded_db"
proof -
  obtain t where t: "refund demo_scan (demo_env (Fin 1001)) demo_usage [([109], Fin 2)] [([109], 60)] (Some [110])
     demo_identity None \<lparr>sq_eng = demo_en, sq_db = acquired_db\<rparr> = (Inr demo_refund_result, t)" "sq_db t = refunded_db"
    using demo_refund by blast
  show ?thesis using sq_step.refund [OF demo_window(2) _ t(1), of "[112]"] t(2)
    by (simp add: label_def succeeded_def)
qed

lemma demo_trace: "trace (sq_step [112] (Fin 1000) (Fin 1600)) empty_db [Acquired [110], Refunded [110]] refunded_db"
  using demo_acquire_step demo_refund_step by (auto intro: trace.intros)

lemma demo_consume:
  "\<exists>t. consume demo_scan (demo_env (Fin 1000)) [([109], Fin 200)] None None None
     \<lparr>sq_eng = demo_en, sq_db = empty_db\<rparr> =
      (Inr (demo_result\<lparr>cr_post := [(([109], 60), Fin (- 60))]\<rparr>), t)"
  by (simp add: consume_def demo_transaction consume_body_def empty_db_def demo_scan_def demo_result_def
      sqlite_exec refill_fresh validate_60 demo_row_def demo_marker_def required_retention_def float_of_int_def MAX_STATE_TTL_SECONDS_def)

lemma demo_pragma: "demo_en\<lparr>en_busy_pragma := 5000\<rparr> = demo_en"
  by (simp add: demo_en_def mk_engine_def)

lemma demo_inspect: "inspect_snapshot (demo_env (Fin 1001)) None \<lparr>sq_eng = demo_en, sq_db = acquired_db\<rparr> =
  (Inr ([\<lparr>sn_spec = demo_spec, sn_current_capacity = Fin 58, sn_effective_max = Fin 60, sn_override_active = False,
           sn_fresh = False, sn_missing = None\<rparr>], \<lparr>n_buckets = 1, n_markers = 1, n_tombstones = 0\<rparr>),
   \<lparr>sq_eng = demo_en, sq_db = acquired_db\<rparr>)"
  by (simp add: inspect_snapshot_def read_transaction_def demo_env_def snapshot_of_def inspect_counts_def empty_db_def
      sqlite_exec refill_57 validate_60 acquired_db_def demo_row_def demo_marker_def demo_pragma)

lemma demo_second:
  "\<exists>c t. try_consume demo_scan (demo_env (Fin 1001)) [([109], Fin 59)] None None None False None
     \<lparr>sq_eng = demo_en, sq_db = acquired_db\<rparr> = (Inr (False, c), t) \<and> \<not> cr_replayed c"
  by (simp add: try_consume_def demo_transaction try_consume_body_def empty_db_def demo_scan_def
      sqlite_exec refill_57 validate_60 acquired_db_def demo_row_def demo_marker_def)

lemma refill_drained: "refill_capacity demo_spec (Some (Fin 0)) (Some (Fin 1001)) (Fin 1001) (Fin 60) =
    Inr (\<lparr>amount = Fin 0, is_fresh_start = False\<rparr>, Fin 0)"
  by (simp add: refill_capacity_def rate_60 optional_float_def calculate_capacity_def validate_60
      validate_rate_1 mk_calculated_capacity_def refilled_def time_passed_def Let_def)

text \<open>An engine that wrote the bucket at time 1000, on a database that has lost it.\<close>

definition proven_en :: sq_engine where
  "proven_en = demo_en\<lparr>en_confirmed_until := [(([109], 60), Fin 1540)]\<rparr>"

lemma demo_lost:
  "\<exists>c t. try_consume demo_scan (demo_env (Fin 1001)) [([109], Fin 0)] None None None False None
     \<lparr>sq_eng = proven_en, sq_db = empty_db\<rparr> = (Inr (True, c), t) \<and> \<not> cr_replayed c"
  by (simp add: try_consume_def demo_transaction try_consume_body_def empty_db_def demo_scan_def proven_en_def
      sqlite_exec refill_drained validate_60 demo_row_def drain_lost_def)

text \<open>An engine deployed with the limit 180 instead of 60.\<close>

definition other_spec :: bucket_spec where
  "other_spec = \<lparr>sp_metric = [109], sp_per_seconds = 60, sp_configured_max = Fin 180\<rparr>"

lemma other_spec_fields [simp]:
  "sp_metric other_spec = [109]" "sp_per_seconds other_spec = 60" "sp_configured_max other_spec = Fin 180"
  "spec_id other_spec = ([109], 60)"
  by (simp_all add: other_spec_def spec_id_def)

lemma validate_120: "validate_max_capacity_finite_positive (VFloat (Fin 120)) = Inr (Fin 120)"
  and validate_180: "validate_max_capacity_finite_positive (VFloat (Fin 180)) = Inr (Fin 180)"
  and validate_rate_123: "validate_rate_per_sec_finite_positive (VFloat (Fin 2)) = Inr (Fin 2)"
    "validate_rate_per_sec_finite_positive (VFloat (Fin 3)) = Inr (Fin 3)"
  by (simp_all add: validate_max_ok max_ok_def MIN_MAX_CAPACITY_val validate_rate_VFloat rate_ok_def)

lemma refill_override:
  "refill_capacity demo_spec (Some (Fin 58)) (Some (Fin 1001)) (Fin 1002) (Fin 120) =
     Inr (\<lparr>amount = Fin 60, is_fresh_start = False\<rparr>, Fin 60)"
  "refill_capacity other_spec (Some (Fin 58)) (Some (Fin 1001)) (Fin 1002) (Fin 180) =
     Inr (\<lparr>amount = Fin 61, is_fresh_start = False\<rparr>, Fin 61)"
  by (simp_all add: refill_capacity_def calculate_rate_per_sec_def float_of_int_def other_spec_def validate_rate_123
      optional_float_def calculate_capacity_def validate_120 validate_180 mk_calculated_capacity_def
      refilled_def time_passed_def Let_def)

lemma anchor_cases: "isclose (flit (1 / 1000000000000)) (Fin 60) (Fin 60)"
  "\<not> isclose (flit (1 / 1000000000000)) (Fin 60) (Fin 180)"
proof -
  show "isclose (flit (1 / 1000000000000)) (Fin 60) (Fin 60)" by (simp add: isclose_def)
  have far: "\<not> fle (Fin 120) (fabs (rnd q))" if q: "0 \<le> q" "q \<le> 1" for q
  proof -
    obtain x where "rnd q = Fin x" "0 \<le> x" "x \<le> 1"
      using rnd_between [OF q] is_dbl_int [of 0] is_dbl_int [of 1] by auto
    then show ?thesis by (simp add: abs_if)
  qed
  show "\<not> isclose (flit (1 / 1000000000000)) (Fin 60) (Fin 180)"
    using far by (simp add: isclose_def lit_1e_12 Let_def power_int_def power_one_over)
qed

text \<open>Setting the maximum to 120 at time 1001 after the acquisition.\<close>

lemma demo_load_acquired:
  "load_states True (Fin 1001) \<lparr>sq_eng = demo_en, sq_db = acquired_db\<rparr> =
     (Inr [(([109], 60), \<lparr>bs_spec = demo_spec, bs_capacity = Fin 58, bs_uncapped = Fin 58, bs_max = Fin 60,
         bs_override_active = False, bs_fresh = False, bs_missing = None\<rparr>)],
      \<lparr>sq_eng = demo_en, sq_db = acquired_db\<rparr>)"
  by (simp add: sqlite_exec refill_57 validate_60 acquired_db_def demo_row_def)

lemma demo_prune_acquired: "t = Fin 1001 \<Longrightarrow> prune demo_scan t \<lparr>sq_eng = demo_en, sq_db = acquired_db\<rparr> = \<lparr>sq_eng = demo_en, sq_db = acquired_db\<rparr>"
  by (simp add: sqlite_exec acquired_db_def empty_db_def demo_row_def demo_marker_def demo_scan_def)

lemma demo_set_max:
  "\<exists>t. sq_set_max_capacity demo_scan (demo_env (Fin 1001)) ([109], 60) (VFloat (Fin 120)) None
     \<lparr>sq_eng = demo_en, sq_db = acquired_db\<rparr> = (Inr (), t) \<and>
     map_of (db_buckets (sq_db t)) ([112], [102], [109], 60) = Some ((demo_row (Fin 58) (Fin 1001) (Fin 1601))
       \<lparr>row_override_value := Some (Fin 120), row_override_expires_at := Some (Fin 1601),
         row_override_configured_max := Some (Fin 60)\<rparr>)"
  by (simp add: sq_set_max_capacity_def validate_120 demo_transaction with_pragma_def modify_eng_def demo_pragma set_max_body_def
     demo_prune_acquired demo_load_acquired op_bind_def op_simps lookup_state_def debt_ttl_seconds_def anchor_state_def)
     (simp add: acquired_db_def demo_row_def set_override_def sqlite_exec)

end
