(* ===== verification/SqliteCorrect.thy ===== *)
theory SqliteCorrect
  imports SqliteDemo
begin

text \<open>
  Properties of the SQLite engine, each with a witness on the concrete engine of
  \<^verbatim>\<open>SqliteDemo\<close>.
\<close>

section \<open>Traces of interleaved engines\<close>

text \<open>
  C8. Within the retention of tombstones, in every interleaving of transactions of any number
  of engines sharing a database, a reservation that was refunded under a key prefix is never
  granted again and never refunded again under it, whatever expired or was pruned meanwhile.
\<close>

theorem sqlite_refund_final:
  assumes "trace (sq_step p start until) d (xs @ Refunded i # ys) d'" "real_db d"
  shows "Acquired i \<notin> set ys \<and> Refunded i \<notin> set ys"
  using assms by (rule sq.refund_final)

theorem sqlite_refund_final_witness:
  "trace (sq_step [112] (Fin 1000) (Fin 1600)) empty_db ([Acquired [110]] @ Refunded [110] # []) refunded_db \<and>
   Acquired [110] \<notin> set []"
proof -
  have tr: "trace (sq_step [112] (Fin 1000) (Fin 1600)) empty_db ([Acquired [110]] @ Refunded [110] # []) refunded_db"
    using demo_trace by simp
  from sqlite_refund_final [OF tr real_empty] tr show ?thesis by blast
qed

text \<open>
  In every such interleaving an id that starts without a marker is refunded or cancelled
  at most as often as it was freshly granted: expiry and pruning can lose a reservation but
  never pay one back twice.
\<close>

theorem sqlite_no_double_release:
  assumes "trace (sq_step p start until) d es d'" "real_db d" "map_of (db_markers d) (p, i) = None"
  shows "releases i es \<le> acquisitions i es \<and> real_db d'"
proof -
  have "i \<notin> sq_live p d" using assms(3) by (simp add: sq_live_def)
  with assms(1,2) show ?thesis using sq.releases_bounded sq.trace_inv by blast
qed

theorem sqlite_no_double_release_witness:
  "trace (sq_step [112] (Fin 1000) (Fin 1600)) empty_db [Acquired [110], Refunded [110]] refunded_db \<and>
   releases [110] [Acquired [110], Refunded [110]] \<le> acquisitions [110] [Acquired [110], Refunded [110]] \<and>
   releases [110] [Acquired [110], Refunded [110]] = 1"
  using sqlite_no_double_release [OF demo_trace real_empty, of "[110]"] demo_trace
  by (simp add: empty_db_def releases_def ends_def)

text \<open>
  C11. The reservation tables implement the registry: every transaction of every engine is, at
  one instant of its window, a step of the specification in which an acquisition needs an
  unknown id, a refund needs a live one and closes it past the window, and nothing else is
  visible at any later time.
\<close>

theorem sqlite_refines_registry:
  assumes "sq_step p start until d e d'" "real_db d"
  shows "\<exists>now. isfinite now \<and> flt now until \<and> registry_step now until (registry_at p d) e (registry_at p d')"
proof -
  from sq_step_books [OF assms] obtain now where n: "isfinite now" "flt now until" "step_books p until now e d d'"
    by blast
  then have "now \<noteq> NaN" by auto
  with n show ?thesis using step_books_registry by blast
qed

theorem sqlite_refines_registry_witness:
  "\<exists>now. isfinite now \<and> flt now (Fin 1600) \<and>
     registry_step now (Fin 1600) (registry_at [112] acquired_db) (Refunded [110]) (registry_at [112] refunded_db)"
  by (rule sqlite_refines_registry [OF demo_refund_step real_acquired])

section \<open>Acquiring\<close>

text \<open>
  C10. A grant takes exactly the usage, all or nothing: the level every bucket was found at
  covered the requested amount, the row it leaves holds that level minus the amount and the
  time of the transaction, and (for a reservation) a marker that was not there expires after
  the lifetime asked for.
\<close>

theorem sqlite_grant_takes_usage:
  assumes "try_consume so env u rid lifetime b tob dl s = (Inr (True, c), t)"
    and "engine_wf (sq_eng s)" "real_db (sq_db s)" "ev_now env \<noteq> NaN" "\<not> cr_replayed c"
  shows "\<exists>sts. engine_view (ev_now env) s = Inr sts \<and>
    (\<forall>(k, st) \<in> set sts. fle (usage_amount u k) (bs_capacity st) \<and>
       (\<exists>r. read_row k t = Some r \<and> row_capacity r = Some (fsub (bs_capacity st) (usage_amount u k)) \<and>
            row_last_checked r = Some (ev_now env))) \<and>
    (\<forall>i. rid = Some i \<longrightarrow> live_marker (ev_now env) i s = None \<and> live_tombstone (ev_now env) i s = None \<and>
       (\<exists>l m. lifetime = Some l \<and> read_marker i t = Some m \<and> mk_expires_at m = fadd (ev_now env) l))"
proof -
  let ?now = "ev_now env"
  from sqlite_grant_view [OF assms] obtain sts ms t0 where
    view: "engine_view ?now s = Inr sts" and avail: "usage_available u sts" and t: "t = clear_pending (confirm_pending t0)"
    and grant: "acquire_done ?now rid u lifetime (take_usage u sts) (with_pragma ms s) t0" by blast
  have rows: "rows_hold ?now (sq_eng s) (take_usage u sts) t" and books: "acquired_books ?now rid u lifetime (sq_eng s) (sq_db s) (sq_db t0)"
    and cls: "acquire_class ?now rid u s = Inr False"
    using grant t by (simp_all add: acquire_done_def)
  have "fle (usage_amount u k) (bs_capacity st) \<and> (\<exists>r. read_row k t = Some r \<and>
      row_capacity r = Some (fsub (bs_capacity st) (usage_amount u k)) \<and> row_last_checked r = Some ?now)"
    if m: "(k, st) \<in> set sts" for k st
  proof -
    have "(k, fsub (bs_capacity st) (usage_amount u k)) \<in> set (take_usage u sts)"
      using m view_spec [OF view m] by (force simp: take_usage_def usage_amount_def spec_id_def)
    moreover have "fle (usage_amount u k) (bs_capacity st)"
      using m avail by (auto simp: usage_available_def list_all_iff)
    ultimately show ?thesis using rows unfolding rows_hold_def by blast
  qed
  moreover have "live_marker ?now i s = None \<and> live_tombstone ?now i s = None \<and>
       (\<exists>l m. lifetime = Some l \<and> read_marker i t = Some m \<and> mk_expires_at m = fadd ?now l)" if i: "rid = Some i" for i
  proof -
    have "live_marker ?now i s = None" "live_tombstone ?now i s = None"
      using cls i by (auto simp: acquire_class_def split: option.splits if_splits)
    moreover have "en_key_prefix (sq_eng t) = en_key_prefix (sq_eng s)"
      using grant t eng_core_fields(2) [of "sq_eng t0" "sq_eng s"]
      by (auto simp: acquire_done_def clear_pending_def confirm_pending_def with_pragma_def dest: eng_core_fields(2))
    ultimately show ?thesis using books i t
      by (auto simp: acquired_books_def read_marker_def res_key_def new_marker_def map_add_def)
  qed
  ultimately show ?thesis using view by blast
qed

theorem sqlite_grant_takes_usage_witness:
  "\<exists>t m. try_consume demo_scan (demo_env (Fin 1000)) demo_usage (Some [110]) (Some (Fin 50)) None False None
       \<lparr>sq_eng = demo_en, sq_db = empty_db\<rparr> = (Inr (True, demo_result), t) \<and>
     live_marker (Fin 1000) [110] \<lparr>sq_eng = demo_en, sq_db = empty_db\<rparr> = None \<and>
     read_marker [110] t = Some m \<and> mk_expires_at m = fadd (Fin 1000) (Fin 50)"
proof -
  obtain t where t: "try_consume demo_scan (demo_env (Fin 1000)) demo_usage (Some [110]) (Some (Fin 50)) None False None
       \<lparr>sq_eng = demo_en, sq_db = empty_db\<rparr> = (Inr (True, demo_result), t)" using demo_acquire by blast
  note g = sqlite_grant_takes_usage [OF t]
  have "ev_now (demo_env (Fin 1000)) = Fin 1000" "\<not> cr_replayed demo_result"
    by (simp_all add: demo_env_def demo_result_def)
  with g t show ?thesis using demo_engine_wf by fastforce
qed

text \<open>
  An unconditional consumption that returns (and is no replay) writes to every bucket the
  level it was found at minus the usage, but never below minus the maximum, and reports
  exactly these levels.
\<close>

theorem sqlite_consume_floor:
  assumes "consume so env u rid lifetime b s = (Inr c, t)"
    and "engine_wf (sq_eng s)" "real_db (sq_db s)" "ev_now env \<noteq> NaN" "\<not> cr_replayed c"
  shows "\<exists>sts. engine_view (ev_now env) s = Inr sts \<and> cr_post c = take_usage_floored u sts \<and>
    (\<forall>(k, st) \<in> set sts. \<exists>r. read_row k t = Some r \<and> row_last_checked r = Some (ev_now env) \<and>
       row_capacity r = Some (fmax (fneg (bs_max st)) (fsub (bs_capacity st) (usage_amount u k))))"
proof -
  let ?now = "ev_now env"
  from transaction_Inr [OF assms(1) [unfolded consume_def]] obtain ms t0 where
    body: "consume_body so u rid lifetime ?now (with_pragma ms s) = (Inr c, t0)"
    and t: "t = clear_pending (confirm_pending t0)" by blast
  from consume_body_cases [OF body] assms(2-5) obtain sts where
    view: "engine_view ?now s = Inr sts" and c: "c = mk_capacity_result ?now sts (take_usage_floored u sts) False"
    and grant: "acquire_done ?now rid u lifetime (take_usage_floored u sts) (with_pragma ms s) t0"
    by (auto simp: mk_capacity_result_def)
  have rows: "rows_hold ?now (sq_eng s) (take_usage_floored u sts) t"
    using grant t by (simp add: acquire_done_def)
  have "\<exists>r. read_row k t = Some r \<and> row_last_checked r = Some ?now \<and>
       row_capacity r = Some (fmax (fneg (bs_max st)) (fsub (bs_capacity st) (usage_amount u k)))"
    if m: "(k, st) \<in> set sts" for k st
  proof -
    have "(k, fmax (fneg (bs_max st)) (fsub (bs_capacity st) (usage_amount u k))) \<in> set (take_usage_floored u sts)"
      using m view_spec [OF view m] by (force simp: take_usage_floored_def usage_amount_def spec_id_def)
    then show ?thesis using rows unfolding rows_hold_def by blast
  qed
  then show ?thesis using view c by (auto simp: mk_capacity_result_def)
qed

text \<open>
  A refund that returns writes to exactly the buckets of its scope the level they were
  found at plus reserved minus actual, within plus and minus the maximum; with an id it needs
  a live marker with the same identity, and it replaces the marker by a tombstone that lives
  for the whole deduplication time.
\<close>

theorem sqlite_refund_clamped:
  assumes "refund so env reserved actual ids rid idn b s = (Inr x, t)"
    and "engine_wf (sq_eng s)" "real_db (sq_db s)" "ev_now env \<noteq> NaN" "distinct ids"
  shows "\<exists>sts refunds. engine_view (ev_now env) s = Inr sts \<and> refund_usage reserved actual = Inr refunds \<and>
    (\<forall>k \<in> set ids. \<exists>st a r. map_of sts k = Some st \<and> map_of refunds (sp_metric (bs_spec st)) = Some a \<and>
       read_row k t = Some r \<and> row_last_checked r = Some (ev_now env) \<and>
       row_capacity r = Some (refunded_capacity st a)) \<and>
    (\<forall>i. rid = Some i \<longrightarrow> identity_ok (ev_now env) i idn s \<and> read_marker i t = None \<and>
       (\<exists>tb. read_tombstone i t = Some tb \<and> tb_expires_at tb = fadd (ev_now env) (secs (en_refund_ttl (sq_eng s)))))"
proof -
  let ?now = "ev_now env"
  from refund_Inr [OF assms(1)] obtain refunds ms t0 where
    refunds: "refund_usage reserved actual = Inr refunds" and
    body: "refund_body so refunds ids rid idn ?now (with_pragma ms s) = (Inr x, t0)" and
    t: "t = clear_pending (confirm_pending t0)" by auto
  from refund_body_cases [OF body] assms(2-5) obtain sts post where
    view: "engine_view ?now s = Inr sts" and post: "refund_post sts refunds ids = Inr post"
    and ident: "\<forall>i. rid = Some i \<longrightarrow> identity_ok ?now i idn s"
    and books: "refunded_books ?now rid (sq_eng s) (sq_db s) (sq_db t)"
    and core: "eng_core (sq_eng t0) = eng_core (sq_eng (with_pragma ms s))"
    and rows: "rows_hold ?now (sq_eng s) (refund_writes ids post) t"
    using t by auto
  have "\<exists>st a r. map_of sts k = Some st \<and> map_of refunds (sp_metric (bs_spec st)) = Some a \<and>
       read_row k t = Some r \<and> row_last_checked r = Some ?now \<and> row_capacity r = Some (refunded_capacity st a)"
    if k: "k \<in> set ids" for k
  proof -
    from refund_post_lookup [OF post assms(5) k] obtain st a where
      p: "map_of sts k = Some st" "map_of refunds (sp_metric (bs_spec st)) = Some a"
      "map_of post k = Some (refunded_capacity st a)" by blast
    then have "(k, refunded_capacity st a) \<in> set (refund_writes ids post)"
      using k by (force simp: refund_writes_def dict_get_def)
    with p rows show ?thesis unfolding rows_hold_def by blast
  qed
  moreover have "en_key_prefix (sq_eng t) = en_key_prefix (sq_eng s)"
    using eng_core_fields(2) [OF core] t by (simp add: clear_pending_def confirm_pending_def)
  then have "read_marker i t = None \<and> (\<exists>tb. read_tombstone i t = Some tb \<and>
       tb_expires_at tb = fadd ?now (secs (en_refund_ttl (sq_eng s))))" if "rid = Some i" for i
    using books that by (auto simp: refunded_books_def read_marker_def read_tombstone_def res_key_def
        new_tombstone_def map_add_def)
  ultimately show ?thesis using view refunds ident by blast
qed

theorem sqlite_consume_floor_witness:
  "\<exists>t sts. consume demo_scan (demo_env (Fin 1000)) [([109], Fin 200)] None None None
     \<lparr>sq_eng = demo_en, sq_db = empty_db\<rparr> = (Inr (demo_result\<lparr>cr_post := [(([109], 60), Fin (- 60))]\<rparr>), t) \<and>
     engine_view (Fin 1000) \<lparr>sq_eng = demo_en, sq_db = empty_db\<rparr> = Inr sts \<and>
     take_usage_floored [([109], Fin 200)] sts = [(([109], 60), Fin (- 60))]"
proof -
  obtain t where t: "consume demo_scan (demo_env (Fin 1000)) [([109], Fin 200)] None None None
     \<lparr>sq_eng = demo_en, sq_db = empty_db\<rparr> = (Inr (demo_result\<lparr>cr_post := [(([109], 60), Fin (- 60))]\<rparr>), t)"
    using demo_consume by blast
  have "ev_now (demo_env (Fin 1000)) = Fin 1000" "\<not> cr_replayed (demo_result\<lparr>cr_post := [(([109], 60), Fin (- 60))]\<rparr>)"
    by (simp_all add: demo_env_def demo_result_def)
  with sqlite_consume_floor [OF t] demo_engine_wf t show ?thesis by fastforce
qed

theorem sqlite_refund_clamped_witness:
  "\<exists>t r. refund demo_scan (demo_env (Fin 1001)) demo_usage [([109], Fin 2)] [([109], 60)] (Some [110]) demo_identity None
     \<lparr>sq_eng = demo_en, sq_db = acquired_db\<rparr> = (Inr demo_refund_result, t) \<and>
     read_row ([109], 60) t = Some r \<and> row_last_checked r = Some (Fin 1001) \<and> read_marker [110] t = None"
proof -
  obtain t where t: "refund demo_scan (demo_env (Fin 1001)) demo_usage [([109], Fin 2)] [([109], 60)] (Some [110])
     demo_identity None \<lparr>sq_eng = demo_en, sq_db = acquired_db\<rparr> = (Inr demo_refund_result, t)"
    using demo_refund by blast
  have "ev_now (demo_env (Fin 1001)) = Fin 1001" by (simp add: demo_env_def)
  with sqlite_refund_clamped [OF t] demo_engine_wf have "\<exists>r. read_row ([109], 60) t = Some r \<and> row_last_checked r = Some (Fin 1001)"
    "read_marker [110] t = None" by auto
  with t show ?thesis by blast
qed

section \<open>Inspection\<close>

text \<open>
  C32. A snapshot changes no row, and it predicts what an acquisition at the same time on the
  same database sees: the capacities and maxima it reports are those the acquisition starts
  from, and a fresh acquisition is granted exactly when every snapshot covers its usage.
\<close>

theorem sqlite_snapshot_predicts:
  assumes "inspect_snapshot env b s = (Inr (snaps, counts), s')"
    and "try_consume so env' u rid lifetime b' tob dl s = (Inr (granted, c), t)"
    and "engine_wf (sq_eng s)" "real_db (sq_db s)" "ev_now env \<noteq> NaN" "ev_now env' = ev_now env"
  shows "sq_db s' = sq_db s \<and>
    cr_pre c = map (\<lambda>n. (spec_id (sn_spec n), sn_current_capacity n)) snaps \<and>
    cr_max c = map (\<lambda>n. (spec_id (sn_spec n), sn_effective_max n)) snaps \<and>
    (\<not> cr_replayed c \<longrightarrow>
       granted = (\<forall>n \<in> set snaps. fle (usage_amount u (spec_id (sn_spec n))) (sn_current_capacity n)))"
proof -
  let ?now = "ev_now env"
  from transaction_Inr [OF assms(2) [unfolded try_consume_def]] obtain ms t0 where
    body: "try_consume_body so u rid lifetime (ev_now env') (with_pragma ms s) = (Inr (granted, c), t0)" by blast
  from try_consume_body_cases [OF body] assms(3-6) obtain sts post where
    view: "engine_view ?now s = Inr sts" and c: "cr_pre c = sq_capacities sts" "cr_max c = max_capacities sts"
    and g: "\<not> cr_replayed c \<longrightarrow> granted = usage_available u sts"
    by (auto simp: mk_capacity_result_def)
  have db: "sq_db s' = sq_db s" and snaps: "snaps = map (\<lambda>(k, st). snapshot_of st) sts"
    using inspect_snapshot_view [OF assms(1,3)] view by auto
  have ids: "k = spec_id (bs_spec st)" if "(k, st) \<in> set sts" for k st using view_spec [OF view that] .
  show ?thesis using db c g ids
    by (auto simp: snaps snapshot_of_def sq_capacities_def max_capacities_def usage_available_def list_all_iff)
qed

theorem sqlite_snapshot_predicts_witness:
  "\<exists>c t. try_consume demo_scan (demo_env (Fin 1001)) [([109], Fin 59)] None None None False None
     \<lparr>sq_eng = demo_en, sq_db = acquired_db\<rparr> = (Inr (False, c), t) \<and> cr_pre c = [(([109], 60), Fin 58)] \<and>
     cr_max c = [(([109], 60), Fin 60)]"
proof -
  obtain c t where t: "try_consume demo_scan (demo_env (Fin 1001)) [([109], Fin 59)] None None None False None
     \<lparr>sq_eng = demo_en, sq_db = acquired_db\<rparr> = (Inr (False, c), t)" using demo_second by blast
  have "ev_now (demo_env (Fin 1001)) = Fin 1001" by (simp add: demo_env_def)
  with sqlite_snapshot_predicts [OF demo_inspect t] demo_engine_wf t show ?thesis by simp
qed

section \<open>Failure\<close>

text \<open>
  A call is all or nothing when, raising, it leaves every table as it was and the engine's
  buckets and proofs of written state too.
\<close>

definition all_or_nothing :: "(sq_state, 'a) op \<Rightarrow> bool" where
  "all_or_nothing m \<longleftrightarrow> (\<forall>s e t. m s = (Inl e, t) \<longrightarrow> sq_db t = sq_db s \<and> evidence_kept s t)"

lemma evidence_engine [simp]:
  "evidence_kept s (with_pragma ms s)" "evidence_kept s (clear_pending s)" "evidence_kept s (s\<lparr>sq_db := d\<rparr>)"
  by (simp_all add: evidence_kept_def with_pragma_def clear_pending_def)

lemma transaction_all_or_nothing:
  assumes "\<And>s x t. body (ev_now env) s = (x, t) \<Longrightarrow> evidence_kept s t"
  shows "all_or_nothing (transaction env b tob dl body)"
  unfolding all_or_nothing_def
proof (intro allI impI conjI)
  fix s e t assume run: "transaction env b tob dl body s = (Inl e, t)"
  then have "untouched s t" by (rule transaction_Inl)
  then show "sq_db t = sq_db s" by (simp add: untouched_def)
  have rb: "evidence_kept s (roll_back s u)" if "evidence_kept s u" for u
    using that by (simp add: evidence_kept_def roll_back_def clear_pending_def)
  have "evidence_kept s u" if "body (ev_now env) (with_pragma ms s) = (x, u)" for ms x u
    using evidence.kept_trans [OF evidence_engine(1) assms [OF that]] .
  then show "evidence_kept s t" using run rb evidence_engine(1) evidence.kept_refl
    by (auto simp: transaction_def Let_def with_pragma_def [symmetric] simp del: evidence_engine
        split: sum.splits option.splits prod.splits)
qed

text \<open>
  C17. Every call of the engine is all or nothing: whether it is refused by a check, times out
  on a lock, fails in SQLite or loses its commit, a call that raises leaves all tables, the
  bucket specifications and the proofs of written state as they were.
\<close>

theorem sqlite_calls_all_or_nothing:
  assumes "isfinite (ev_now env)"
  shows "all_or_nothing (try_consume so env u rid lifetime b tob dl) \<and>
    all_or_nothing (consume so env u rid lifetime b) \<and>
    all_or_nothing (refund so env reserved actual ids rid idn b) \<and>
    all_or_nothing (cleanup_consumption so env u ids rid b) \<and>
    all_or_nothing (sq_set_max_capacity so env k v b) \<and>
    all_or_nothing (sq_apply_configured_max_capacity so env k v b) \<and>
    all_or_nothing (clear_max_capacity_overrides so env ids configured b) \<and>
    all_or_nothing (initialize_buckets so env b) \<and> all_or_nothing (initialize_schema env b)"
proof (intro conjI)
  note tr = transaction_all_or_nothing and kept = evidence.kept_calls
  show "all_or_nothing (try_consume so env u rid lifetime b tob dl)"
    unfolding try_consume_def by (intro tr) (rule kept)
  show "all_or_nothing (consume so env u rid lifetime b)"
    unfolding consume_def by (intro tr) (rule kept)
  show "all_or_nothing (cleanup_consumption so env u ids rid b)"
    unfolding cleanup_consumption_def by (intro tr) (rule kept)
  show "all_or_nothing (initialize_buckets so env b)"
    unfolding initialize_buckets_def by (intro tr) (rule kept)
  show "all_or_nothing (initialize_schema env b)"
    unfolding initialize_schema_def
    by (intro tr) (auto simp: evidence_kept_def split: option.splits if_splits)
  have "all_or_nothing (transaction env b False None (refund_body so refunds ids rid idn))" for refunds
    by (intro tr) (rule kept)
  then show "all_or_nothing (refund so env reserved actual ids rid idn b)"
    using evidence.kept_refl by (cases "refund_usage reserved actual")
      (auto simp: all_or_nothing_def refund_def op_bind_def op_simps)
  have "all_or_nothing (transaction env b False None (set_max_body so k x))" for x
    by (intro tr) (rule kept, assumption, rule assms)
  then show "all_or_nothing (sq_set_max_capacity so env k v b)"
    using evidence.kept_refl by (auto simp: all_or_nothing_def sq_set_max_capacity_def split: sum.splits if_splits)
  have "all_or_nothing (transaction env b False None (apply_configured_body so k x))" for x
    by (intro tr) (rule kept)
  then show "all_or_nothing (sq_apply_configured_max_capacity so env k v b)"
    using evidence.kept_refl
    by (auto simp: all_or_nothing_def sq_apply_configured_max_capacity_def op_bind_def op_simps
        split: sum.splits if_splits prod.splits)
  have "all_or_nothing (transaction env b False None (clear_body so target configured))" for target
    by (intro tr) (rule kept)
  then show "all_or_nothing (clear_max_capacity_overrides so env ids configured b)"
    using evidence.kept_refl by (auto simp: all_or_nothing_def clear_max_capacity_overrides_def Let_def split: if_splits)
qed

theorem sqlite_calls_all_or_nothing_witness:
  "isfinite (Fin 1000) \<and> all_or_nothing (try_consume demo_scan (demo_env (Fin 1000)) demo_usage (Some [110]) (Some (Fin 50)) None False None)"
  using sqlite_calls_all_or_nothing [of "demo_env (Fin 1000)"] by (simp add: demo_env_def)

section \<open>Lost state\<close>

text \<open>
  A bucket whose row holds half a state, or has none (no row, an expired row or an empty one)
  against the proof; whatever override the row carries.
\<close>

definition state_gone :: "sq_engine \<Rightarrow> pyfloat \<Rightarrow> bucket_id \<Rightarrow> bucket_row option \<Rightarrow> bool" where
  "state_gone en now k row = (case row of
      None \<Rightarrow> state_loss_suspected en k now
    | Some r \<Rightarrow> flt now (row_expires_at r) \<and> (row_capacity r = None) \<noteq> (row_last_checked r = None) \<or>
        (fle (row_expires_at r) now \<or> row_capacity r = None \<and> row_last_checked r = None) \<and>
        state_loss_suspected en k now)"

lemma state_gone_lost:
  assumes "state_gone en now (spec_id sp) row" "view_loaded now sp row = Inr l"
  shows "state_lost en (spec_id sp) now l"
proof (cases row)
  case None
  then show ?thesis using assms
    by (auto simp: state_gone_def state_lost_def missing_fields_def view_loaded_def visible_row_def bind_res_Inr_iff)
next
  case (Some r)
  have levels: "integrate_to_expiry sp r anchored now cl = Inr cl'
      \<Longrightarrow> fst cl = None \<or> snd cl = None \<Longrightarrow> cl' = cl" for anchored cl cl'
    by (cases cl) (auto simp: integrate_to_expiry_def split: option.splits)
  show ?thesis
  proof (cases "fle (row_expires_at r) now")
    case True
    then have "\<not> flt now (row_expires_at r)" by (cases "row_expires_at r"; cases now) auto
    then have "state_loss_suspected en (spec_id sp) now" using assms(1) Some by (simp add: state_gone_def)
    then show ?thesis using assms(2) Some True
      by (auto simp: state_lost_def missing_fields_def view_loaded_def visible_row_def row_levels_def
          bind_res_Inr_iff split: if_splits dest!: levels)
  next
    case False
    then show ?thesis using assms Some
      by (auto simp: state_gone_def state_lost_def missing_fields_def view_loaded_def visible_row_def row_levels_def
          bind_res_Inr_iff split: if_splits dest!: levels)
  qed
qed

lemma drained_refill:
  assumes "refill_capacity sp (Some (Fin 0)) (Some now) now mx = Inr (c, v)"
  shows "fle (amount c) (Fin 0)"
proof -
  from assms obtain rate where r: "calculate_capacity (VFloat now) (VFloat (Fin 0)) (VFloat now) (VFloat mx) (VFloat rate) = Inr c"
    by (auto simp: refill_capacity_def optional_float_def bind_res_Inr_iff)
  then obtain q p m where q: "now = Fin q" "rate = Fin p" "mx = Fin m" "amount c = refilled now now (Fin 0) mx rate"
    by (auto simp: calculate_capacity_def bind_res_Inr_iff validate_rate_VFloat rate_ok_def validate_max_VFloat
        isfinite_Fin mk_calculated_capacity_def split: if_splits)
  then have "amount c = fmin mx (Fin 0)" by (simp add: refilled_def time_passed_def Let_def)
  then show ?thesis using q(3) by (simp add: fmin_def)
qed

lemma gone_view_drained:
  assumes "view_state en now sp row = Inr st" "state_gone en now (spec_id sp) row"
  shows "fle (bs_capacity st) (Fin 0)"
proof -
  from assms(1) obtain l where l: "view_loaded now sp row = Inr l" by (auto simp: view_state_def bind_res_Inr_iff)
  have "state_lost en (spec_id sp) now l" using state_gone_lost [OF assms(2) l] .
  then show ?thesis using assms(1) l drained_refill
    by (auto simp: view_state_def Let_def bind_res_Inr_iff mk_bucket_state_def)
qed

text \<open>
  C33. State that should be there is never taken for a full bucket: when the engine has proof
  of a committed write that cannot have expired yet and the row of a bucket is gone, expired or
  empty, or when a row holds a level without a clock or a clock without a level, no positive usage
  of its metric is granted, with or without an override, live or expired, in the row.
\<close>

theorem sqlite_lost_state_not_granted:
  assumes "try_consume so env u rid lifetime b tob dl s = (Inr (True, c), t)"
    and "engine_wf (sq_eng s)" "real_db (sq_db s)" "ev_now env \<noteq> NaN" "\<not> cr_replayed c"
    and "sp \<in> set (en_buckets (sq_eng s))"
    and "state_gone (sq_eng s) (ev_now env) (spec_id sp) (read_row (spec_id sp) s)"
  shows "fle (usage_amount u (spec_id sp)) (Fin 0)"
proof -
  let ?now = "ev_now env"
  from sqlite_grant_view [OF assms(1-5)] obtain sts where
    view: "engine_view ?now s = Inr sts" and av: "usage_available u sts" by blast
  from view_states_lookup [OF view [unfolded engine_view_def] _ assms(6)] assms(2) obtain st where
    st: "map_of sts (spec_id sp) = Some st" "view_state (sq_eng s) ?now sp (read_row (spec_id sp) s) = Inr st"
    by (auto simp: engine_wf_def)
  have "fle (bs_capacity st) (Fin 0)" using gone_view_drained st(2) assms(7) by blast
  moreover have "fle (usage_amount u (spec_id sp)) (bs_capacity st)"
    using st(1) av by (force simp: usage_available_def list_all_iff dest: map_of_SomeD)
  ultimately show ?thesis by (blast intro: fle_trans)
qed

theorem sqlite_lost_state_not_granted_witness:
  "\<exists>c t. try_consume demo_scan (demo_env (Fin 1001)) [([109], Fin 0)] None None None False None
     \<lparr>sq_eng = proven_en, sq_db = empty_db\<rparr> = (Inr (True, c), t) \<and>
     state_gone proven_en (Fin 1001) ([109], 60) None \<and> fle (usage_amount [([109], Fin 0)] ([109], 60)) (Fin 0)"
proof -
  obtain c t where t: "try_consume demo_scan (demo_env (Fin 1001)) [([109], Fin 0)] None None None False None
     \<lparr>sq_eng = proven_en, sq_db = empty_db\<rparr> = (Inr (True, c), t)" "\<not> cr_replayed c" using demo_lost by blast
  have "ev_now (demo_env (Fin 1001)) = Fin 1001" "state_gone proven_en (Fin 1001) ([109], 60) None"
    "engine_wf proven_en" "read_row ([109], 60) \<lparr>sq_eng = proven_en, sq_db = empty_db\<rparr> = None"
    by (simp_all add: demo_env_def state_gone_def state_loss_suspected_def proven_en_def engine_wf_def
        read_row_def row_key_def empty_db_def)
  with sqlite_lost_state_not_granted [OF t(1), of demo_spec] t show ?thesis by (simp add: proven_en_def)
qed

section \<open>Overrides\<close>

text \<open>
  A runtime override reaches exactly the engines deployed with the configured limit it was
  set under: until it expires, an engine of the same configured limit (up to a relative
  difference of 10^-12) works with the new maximum, any other engine with its own configured
  limit, and pruning or idleness does not change this.
\<close>

theorem sqlite_override_scope:
  assumes "sq_set_max_capacity so env k v b s = (Inr w, t)" "validate_max_capacity_finite_positive v = Inr x"
    and "engine_wf (sq_eng s)" "map_of (en_bucket_by_id (sq_eng s)) k = Some sp"
    and "flt later (fadd (ev_now env) (secs (en_override_ttl (sq_eng s))))"
    and "row_key en' k = row_key (sq_eng s) k" "spec_id sp' = k"
    and "view_state en' later sp' (map_of (db_buckets (sq_db t)) (row_key en' k)) = Inr st"
  shows "bs_override_active st = isclose (flit (1 / 1000000000000)) (sp_configured_max sp) (sp_configured_max sp') \<and>
    bs_max st = (if bs_override_active st then x else sp_configured_max sp')"
proof -
  from assms(1,2,4) have run: "transaction env b False None (set_max_body so k x) s = (Inr w, t)"
    by (simp add: sq_set_max_capacity_def)
  from transaction_Inr [OF run] obtain ms t0 where
    body: "set_max_body so k x (ev_now env) (with_pragma ms s) = (Inr w, t0)"
    and t: "t = clear_pending (confirm_pending t0)" by blast
  have k: "k \<in> engine_ids (sq_eng (with_pragma ms s))"
    using engine_wf_ids [OF assms(3,4)] by simp
  from set_max_row [OF body _ k] assms(3,4) obtain r where r: "read_row k t0 = Some r"
    "row_key (sq_eng t0) = row_key (sq_eng (with_pragma ms s))"
    "row_override_value r = Some x" "row_override_configured_max r = Some (sp_configured_max sp)"
    "row_override_expires_at r = Some (fadd (ev_now env) (secs (en_override_ttl (sq_eng (with_pragma ms s)))))"
    by auto
  have row: "map_of (db_buckets (sq_db t)) (row_key en' k) = Some r"
    using r(1,2) t assms(6) by (simp add: read_row_def with_pragma_def row_key_def)
  have live: "row_override_live later r" using r(3,5) assms(5) by (simp add: row_override_live_def with_pragma_def)
  have x: "validate_max_capacity_finite_positive (optional_float (Some x)) = Inr x"
    using validate_max_again [OF assms(2)] by (simp add: optional_float_def)
  from assms(8) obtain l where l: "view_loaded later sp' (Some r) = Inr l" "bs_max st = ld_max l"
    "bs_override_active st = ld_override_active l"
    by (auto simp: row view_state_def Let_def bind_res_Inr_iff mk_bucket_state_def)
  show ?thesis using l live r(3,4) x
    by (auto simp: view_loaded_def visible_row_def override_applies_def anchor_ok_def bind_res_Inr_iff
        validate_max_VFloat split: if_splits)
qed


theorem sqlite_override_scope_witness:
  "\<exists>t st st'. sq_set_max_capacity demo_scan (demo_env (Fin 1001)) ([109], 60) (VFloat (Fin 120)) None
       \<lparr>sq_eng = demo_en, sq_db = acquired_db\<rparr> = (Inr (), t) \<and>
     view_state demo_en (Fin 1002) demo_spec (map_of (db_buckets (sq_db t)) ([112], [102], [109], 60)) = Inr st \<and>
     view_state demo_en (Fin 1002) other_spec (map_of (db_buckets (sq_db t)) ([112], [102], [109], 60)) = Inr st' \<and>
     bs_max st = Fin 120 \<and> bs_max st' = Fin 180"
proof -
  obtain t where t: "sq_set_max_capacity demo_scan (demo_env (Fin 1001)) ([109], 60) (VFloat (Fin 120)) None
       \<lparr>sq_eng = demo_en, sq_db = acquired_db\<rparr> = (Inr (), t)"
    "map_of (db_buckets (sq_db t)) ([112], [102], [109], 60) = Some ((demo_row (Fin 58) (Fin 1001) (Fin 1601))
       \<lparr>row_override_value := Some (Fin 120), row_override_expires_at := Some (Fin 1601),
         row_override_configured_max := Some (Fin 60)\<rparr>)" using demo_set_max by blast
  note eq = anchor_cases
  obtain st where st: "view_state demo_en (Fin 1002) demo_spec (map_of (db_buckets (sq_db t)) ([112], [102], [109], 60)) = Inr st"
    by (simp add: t(2) view_state_def view_loaded_def visible_row_def demo_row_def override_applies_def row_override_live_def secs_def
        anchor_ok_def eq optional_float_def validate_120 row_levels_def state_lost_def missing_fields_def Let_def refill_override)
  obtain st' where st': "view_state demo_en (Fin 1002) other_spec (map_of (db_buckets (sq_db t)) ([112], [102], [109], 60)) = Inr st'"
    by (simp add: t(2) view_state_def view_loaded_def visible_row_def demo_row_def override_applies_def row_override_live_def secs_def
        anchor_ok_def eq optional_float_def validate_180 row_levels_def state_lost_def missing_fields_def Let_def refill_override
        integrate_to_expiry_def other_spec_fields)
  have env: "ev_now (demo_env (Fin 1001)) = Fin 1001" "en_override_ttl demo_en = 600" "row_key demo_en ([109], 60) = ([112], [102], [109], 60)"
    by (simp_all add: demo_env_def demo_en_def mk_engine_def row_key_def)
  note s = sqlite_override_scope [OF t(1) validate_120]
  from s [of demo_spec "Fin 1002" demo_en demo_spec st] demo_engine_wf st env eq have "bs_max st = Fin 120"
    by (simp add: secs_def)
  moreover from s [of demo_spec "Fin 1002" demo_en other_spec st'] demo_engine_wf st' env eq have "bs_max st' = Fin 180"
    by (simp add: secs_def other_spec_def spec_id_def)
  ultimately show ?thesis using t st st' by blast
qed

section \<open>Liveness\<close>

text \<open>
  C31. An acquisition that can be granted is granted: if every bucket, as the database stands
  at the time of the transaction, covers a non-negative usage, the reservation id is unknown
  and its lifetime admissible, and neither a lock nor SQLite fails, the call returns a fresh
  grant that reports the levels minus the usage. No other check can refuse it.
\<close>

theorem sqlite_grant_when_available:
  assumes "engine_view (ev_now env) s = Inr sts" "usage_available u sts" "distinct (dict_keys u)"
    and "\<forall>(m, a) \<in> set u. fle (Fin 0) a" "\<forall>(k, st) \<in> set sts. is_dbl (bs_max st)"
    and "acquire_class (ev_now env) rid u s = Inr False"
    and "\<forall>i. rid = Some i \<longrightarrow> (\<exists>l. lifetime = Some l \<and> lifetime_ok (sq_eng s) l)"
    and "engine_wf (sq_eng s)" "real_db (sq_db s)" "ev_now env \<noteq> NaN" "ev_begin env = None" "ev_commit env = None"
  shows "\<exists>c t. try_consume so env u rid lifetime b False None s = (Inr (True, c), t) \<and>
    \<not> cr_replayed c \<and> cr_post c = take_usage u sts"
proof -
  obtain ms where "operation_timeout_ms (sq_eng s) b None (ev_timeout_now env) = Inr ms"
    by (auto simp: operation_timeout_ms_def Let_def)
  moreover have "lifetime_ok (sq_eng (with_pragma ms s)) = lifetime_ok (sq_eng s)"
    by (simp add: lifetime_ok_def fun_eq_iff)
  then obtain t where "try_consume_body so u rid lifetime (ev_now env) (with_pragma ms s) =
      (Inr (True, mk_capacity_result (ev_now env) sts (take_usage u sts) False), t)"
    using try_consume_body_succeeds [of "ev_now env" "with_pragma ms s" sts u rid lifetime so] assms(1-10) by auto
  ultimately have "try_consume so env u rid lifetime b False None s =
      (Inr (True, mk_capacity_result (ev_now env) sts (take_usage u sts) False), clear_pending (confirm_pending t))"
    using assms(11,12)
    by (simp add: try_consume_def transaction_def transaction_lock_def check_acquire_deadline_def with_pragma_def Let_def)
  then show ?thesis by (simp add: mk_capacity_result_def)
qed

theorem sqlite_grant_when_available_witness:
  "\<exists>c t. try_consume demo_scan (demo_env (Fin 1001)) [([109], Fin 58)] (Some [111]) (Some (Fin 50)) None False None
     \<lparr>sq_eng = demo_en, sq_db = acquired_db\<rparr> = (Inr (True, c), t) \<and> cr_post c = [(([109], 60), Fin 0)]"
proof -
  let ?s = "\<lparr>sq_eng = demo_en, sq_db = acquired_db\<rparr>"
  define sts where "sts = [(([109 :: nat], 60 :: int), \<lparr>bs_spec = demo_spec, bs_capacity = Fin 58, bs_uncapped = Fin 58,
      bs_max = Fin 60, bs_override_active = False, bs_fresh = False, bs_missing = None\<rparr>)]"
  have env: "ev_now (demo_env (Fin 1001)) = Fin 1001" "ev_begin (demo_env (Fin 1001)) = None" "ev_commit (demo_env (Fin 1001)) = None"
    by (simp_all add: demo_env_def)
  have view: "engine_view (Fin 1001) ?s = Inr sts"
    using load_states_writable(2) [OF demo_load_acquired] demo_engine_wf by (simp add: sts_def)
  have cls: "acquire_class (Fin 1001) (Some [111]) [([109], Fin 58)] ?s = Inr False"
    by (simp add: acquire_class_def live_marker_def live_tombstone_def live_at_def read_marker_def read_tombstone_def
        res_key_def acquired_db_def empty_db_def)
  have "\<exists>c t. try_consume demo_scan (demo_env (Fin 1001)) [([109], Fin 58)] (Some [111]) (Some (Fin 50)) None False None
     ?s = (Inr (True, c), t) \<and> \<not> cr_replayed c \<and> cr_post c = take_usage [([109], Fin 58)] sts"
    by (rule sqlite_grant_when_available) (use env view cls demo_engine_wf in \<open>simp_all add: sts_def usage_available_def
        usage_amount_def dict_get_def dict_keys_def lifetime_ok_def\<close>)
  then show ?thesis by (simp add: sts_def take_usage_def dict_get_def) blast
qed

end
