(* ===== verification/CoreCorrect.thy ===== *)
theory CoreCorrect
  imports MemoryTraces
begin

text \<open>
  The properties of the shared layers: the refill arithmetic of \<^verbatim>\<open>_capacity.py\<close>, the bucket
  of \<^verbatim>\<open>_memory/_bucket.py\<close>, and the validated data of \<^verbatim>\<open>_models.py\<close> and \<^verbatim>\<open>_validation.py\<close>.
\<close>

section \<open>The refill arithmetic\<close>

text \<open>
  C34. On valid arguments \<^verbatim>\<open>calculate_capacity\<close> always returns: the amount is a finite
  double between the smaller of the stored level and the maximum, and the maximum. In
  particular the finiteness validator of the result can never raise, whatever overflow the
  refill product has.
\<close>

theorem calculate_capacity_bounds:
  assumes "py_float cur = Inr (Fin t)" "0 \<le> t"
    "validate_max_capacity_finite_positive mx = Inr (Fin m)" "is_dbl (Fin m)"
    "validate_rate_per_sec_finite_positive rate = Inr r" "rate_ok r" "is_dbl (Fin c)"
  shows "\<exists>a. calculate_capacity (VFloat (Fin l)) (VFloat (Fin c)) cur mx rate =
      Inr \<lparr>amount = Fin a, is_fresh_start = False\<rparr> \<and> min c m \<le> a \<and> a \<le> m \<and> is_dbl (Fin a)"
proof -
  obtain a where "refilled (Fin t) (Fin l) (Fin c) (Fin m) r = Fin a" "min c m \<le> a" "a \<le> m" "is_dbl (Fin a)"
    by (rule refilled_bounds [of "Fin t" "Fin l" c m r]) (use assms in auto)
  then show ?thesis using assms(1-3,5)
    by (simp add: calculate_capacity_def mk_calculated_capacity_def not_less)
qed

theorem calculate_capacity_bounds_witness:
  "\<exists>a. calculate_capacity (VFloat (Fin 100)) (VFloat (Fin 10)) (VFloat (Fin 130)) (VFloat (Fin 60)) (VFloat (Fin 1)) =
     Inr \<lparr>amount = Fin a, is_fresh_start = False\<rparr> \<and> a \<le> 60"
proof -
  have "max_ok (Fin 60)" by (simp add: max_ok_def MIN_MAX_CAPACITY_val)
  then have "validate_max_capacity_finite_positive (VFloat (Fin 60)) = Inr (Fin 60)" by (rule validate_max_ok)
  moreover have "validate_rate_per_sec_finite_positive (VFloat (Fin 1)) = Inr (Fin 1)"
    by (simp add: validate_rate_VFloat rate_ok_def)
  ultimately show ?thesis
    using calculate_capacity_bounds [of "VFloat (Fin 130)" 130 "VFloat (Fin 60)" 60 "VFloat (Fin 1)" "Fin 1" 10 100]
    by (auto simp: rate_ok_def)
qed

text \<open>
  Reading later never shows less: for a fixed stored state the refilled amount is
  monotone in the clock, in floating point, also when the clock is behind the stored time.
\<close>

theorem calculate_capacity_monotone:
  assumes "fle now now'" "isfinite now" "isfinite now'" "isfinite l" "isfinite c"
    "calculate_capacity (VFloat l) (VFloat c) (VFloat now) (VFloat m) (VFloat r) = Inr x"
    "calculate_capacity (VFloat l) (VFloat c) (VFloat now') (VFloat m) (VFloat r) = Inr y"
  shows "fle (amount x) (amount y)"
proof -
  have v: "validate_max_capacity_finite_positive (VFloat m) = Inr m"
    "validate_rate_per_sec_finite_positive (VFloat r) = Inr r" "isfinite m" "rate_ok r"
    using assms(6)
    by (auto simp: calculate_capacity_def res_simps validate_max_VFloat validate_rate_VFloat)
  have "amount x = refilled now l c m r" "amount y = refilled now' l c m r"
    using assms(4-7) v
    by (auto simp: calculate_capacity_def res_simps mk_calculated_capacity_def split: if_split_asm)
  with refilled_mono_time [OF assms(2,3,4,1,5) v(4,3)] show ?thesis by simp
qed

theorem calculate_capacity_monotone_witness:
  "\<exists>x y. calculate_capacity (VFloat (Fin 100)) (VFloat (Fin 10)) (VFloat (Fin 90)) (VFloat (Fin 60)) (VFloat (Fin 1)) = Inr x \<and>
     calculate_capacity (VFloat (Fin 100)) (VFloat (Fin 10)) (VFloat (Fin 130)) (VFloat (Fin 60)) (VFloat (Fin 1)) = Inr y \<and>
     fle (amount x) (amount y)"
proof -
  have "max_ok (Fin 60)" by (simp add: max_ok_def MIN_MAX_CAPACITY_val)
  then have v: "validate_max_capacity_finite_positive (VFloat (Fin 60)) = Inr (Fin 60)"
    "validate_rate_per_sec_finite_positive (VFloat (Fin 1)) = Inr (Fin 1)"
    by (simp_all add: validate_max_ok validate_rate_VFloat rate_ok_def)
  have c: "calculate_capacity (VFloat (Fin 100)) (VFloat (Fin 10)) (VFloat (Fin 90)) (VFloat (Fin 60)) (VFloat (Fin 1)) =
      Inr \<lparr>amount = Fin 10, is_fresh_start = False\<rparr>"
    "calculate_capacity (VFloat (Fin 100)) (VFloat (Fin 10)) (VFloat (Fin 130)) (VFloat (Fin 60)) (VFloat (Fin 1)) =
      Inr \<lparr>amount = Fin 40, is_fresh_start = False\<rparr>"
    by (simp_all add: calculate_capacity_def v refilled_def time_passed_def mk_calculated_capacity_def)
  then show ?thesis using calculate_capacity_monotone [OF _ _ _ _ _ c] by simp
qed

text \<open>
  Whatever Python values it is given, \<^verbatim>\<open>calculate_capacity\<close> raises nothing but ValueError
  (not TypeError, and not OverflowError for an integer too large for a double).
\<close>

theorem calculate_capacity_errors:
  assumes "calculate_capacity last_checked outdated cur mx rate = Inl e"
  shows "\<exists>msg. e = ValueError msg"
proof -
  have plain: "validate_plain_number v = Inl x \<Longrightarrow> \<exists>msg. x = ValueError msg" for v x
    by (cases v) (auto simp: validate_plain_number_def type_tests float_of_int_def
        split: if_splits sum.splits exn.splits pyfloat.splits)
  have mxe: "validate_max_capacity_finite_positive mx = Inl x \<Longrightarrow> \<exists>msg. x = ValueError msg" for x
    using plain by (auto simp: validate_max_capacity_finite_positive_def bind_res_Inl_iff split: if_splits)
  have re: "validate_rate_per_sec_finite_positive rate = Inl x \<Longrightarrow> \<exists>msg. x = ValueError msg" for x
    using plain by (auto simp: validate_rate_per_sec_finite_positive_def bind_res_Inl_iff split: if_splits)
  let ?st = "bind_res (py_float last_checked) (\<lambda>l. bind_res (py_float outdated) (\<lambda>c. Inr (l, c)))"
  show ?thesis
  proof (cases "py_float cur")
    case (Inr t)
    show ?thesis
    proof (cases "validate_max_capacity_finite_positive mx")
      case (Inl x)
      then show ?thesis using assms mxe Inr by (auto simp: calculate_capacity_def split: if_split_asm)
    next
      case m: (Inr m)
      show ?thesis
      proof (cases "validate_rate_per_sec_finite_positive rate")
        case (Inl x)
        then show ?thesis using assms re Inr m \<open>py_float cur = Inr t\<close>
          by (auto simp: calculate_capacity_def split: if_split_asm)
      next
        case r: (Inr r)
        show ?thesis using assms m r \<open>py_float cur = Inr t\<close>
          by (cases ?st) (auto simp: calculate_capacity_def mk_calculated_capacity_def split: if_split_asm)
      qed
    qed
  qed (use assms in \<open>auto simp: calculate_capacity_def\<close>)
qed

theorem calculate_capacity_errors_witness:
  "\<exists>msg. calculate_capacity VNone VNone (VFloat NaN) VNone VNone = Inl (ValueError msg)"
proof -
  have "calculate_capacity VNone VNone (VFloat NaN) VNone VNone =
      Inl (ValueError ''current_time must be finite and non-negative'')"
    by (simp add: calculate_capacity_def)
  from calculate_capacity_errors [OF this] this show ?thesis by simp
qed

text \<open>
  A valid maximum over a valid window always has a usable refill rate: the division
  neither underflows to zero nor exceeds the maximum.
\<close>

theorem rate_always_usable:
  assumes "max_ok m" "0 < p" "p \<le> MAX_PER_SECONDS"
  shows "\<exists>r. calculate_rate_per_sec m p = Inr (Fin r) \<and> 0 < r \<and> fle (Fin r) m"
proof -
  obtain r where "calculate_rate_per_sec m p = Inr r" "rate_ok r" "fle r m"
    using rate_total [OF assms(1)] assms(2,3) by (auto simp: per_seconds_ok_def)
  then show ?thesis by (auto elim: rate_okE)
qed

theorem rate_always_usable_witness:
  "\<exists>r. calculate_rate_per_sec MIN_MAX_CAPACITY MAX_PER_SECONDS = Inr (Fin r) \<and> 0 < r"
proof -
  have "is_dbl MIN_MAX_CAPACITY" by (simp only: MIN_MAX_CAPACITY_def is_dbl_rnd)
  then have "max_ok MIN_MAX_CAPACITY" by (simp add: max_ok_def MIN_MAX_CAPACITY_val)
  from rate_always_usable [OF this, of MAX_PER_SECONDS] show ?thesis by (auto simp: MAX_PER_SECONDS_val)
qed

text \<open>
  Two backward-clock warnings are at least 300 monotonic seconds apart.
\<close>

theorem backward_warning_throttled:
  assumes "backward_clock_step t1 l1 m1 w = (w1, True)" "backward_clock_step t2 l2 m2 w1 = (w2, True)"
  shows "fle (Fin 300) (fsub m2 m1)"
  using assms
  by (auto simp: backward_clock_step_def should_warn_def BACKWARD_CLOCK_WARNING_INTERVAL_SECONDS_def
      split: if_splits)

theorem backward_warning_throttled_witness:
  "fle (Fin 300) (fsub (Fin 400) (Fin 50))"
proof -
  let ?w = "\<lparr>backward_clock_warned = False, backward_clock_last_warning_at = None\<rparr>"
  let ?w1 = "\<lparr>backward_clock_warned = True, backward_clock_last_warning_at = Some (Fin 50)\<rparr>"
  have "backward_clock_step (Fin 1) (Fin 2) (Fin 50) ?w = (?w1, True)"
    by (simp add: backward_clock_step_def should_warn_def)
  moreover have "backward_clock_step (Fin 1) (Fin 2) (Fin 400) ?w1 =
      (\<lparr>backward_clock_warned = True, backward_clock_last_warning_at = Some (Fin 400)\<rparr>, True)"
    by (simp add: backward_clock_step_def should_warn_def BACKWARD_CLOCK_WARNING_INTERVAL_SECONDS_def)
  ultimately show ?thesis by (rule backward_warning_throttled)
qed

section \<open>The bucket\<close>

text \<open>
  What is written is read back: after \<^verbatim>\<open>set_capacity\<close> a bucket shows, at the same time,
  the value written (raised to zero unless debt is allowed) cut at the maximum.
\<close>

theorem bucket_write_read:
  assumes "bucket_wf b" "clock_ok now" "isfinite v" "is_dbl v" "set_capacity v now debt b = (res, b')"
  shows "res = Inr () \<and> bucket_wf b' \<and> get_capacity b' now =
    Inr \<lparr>amount = fmin (mb_max_capacity b) (if debt then v else fmax (Fin 0) v), is_fresh_start = False\<rparr>"
proof -
  have "stored_ok v" using assms(3,4) by (simp add: stored_ok_def)
  moreover have "res = Inr ()" using assms(3,5) by (auto simp: set_capacity_ok)
  ultimately show ?thesis using set_capacity_get_capacity [of b now v debt b'] assms(1,2,5)
    by (simp add: stored_def)
qed

definition sample_bucket :: memory_bucket where
  "sample_bucket = \<lparr>mb_capacity = Some (Fin 10), mb_last_checked = Some (Fin 100), mb_metric = [109],
     mb_family = [102], mb_per_seconds = 60, mb_max_capacity = Fin 60, mb_rate_per_sec = Fin 1\<rparr>"

lemma sample_bucket_wf: "bucket_wf sample_bucket"
  by (simp add: bucket_wf_def sample_bucket_def max_ok_def MIN_MAX_CAPACITY_val per_seconds_ok_def
      MAX_PER_SECONDS_val calculate_rate_per_sec_def float_of_int_def validate_rate_VFloat rate_ok_def
      stored_ok_def)

theorem bucket_write_read_witness:
  "\<exists>b'. set_capacity (Fin 80) (Fin 100) True sample_bucket = (Inr (), b') \<and>
     get_capacity b' (Fin 100) = Inr \<lparr>amount = Fin 60, is_fresh_start = False\<rparr>"
proof -
  obtain b' where s: "set_capacity (Fin 80) (Fin 100) True sample_bucket = (Inr (), b')"
    by (simp add: set_capacity_def)
  have "clock_ok (Fin 100)" by (simp add: clock_ok_def)
  from bucket_write_read [OF sample_bucket_wf this _ _ s] s show ?thesis
    by (simp add: sample_bucket_def)
qed

text \<open>
  Lowering the maximum loses nothing: a maximum set and then set again at the same
  instant leaves the bucket exactly as if only the second had been set, so capacity hidden
  under the lower one comes back.
\<close>

theorem lower_then_raise_recovers:
  assumes "bucket_wf b" "clock_ok now" "max_ok low" "max_ok high"
    "set_max_capacity (VFloat low) now b = (r1, b1)" "set_max_capacity (VFloat high) now b1 = (r2, b2)"
  shows "set_max_capacity (VFloat high) now b = (Inr (), b2) \<and> mb_max_capacity b2 = high \<and> bucket_wf b2"
proof -
  have one: "bucket_wf b1" "r1 = Inr ()" using set_max_capacity_wf [OF assms(1,2,3,5)] by simp_all
  have two: "bucket_wf b2" "r2 = Inr ()" "mb_max_capacity b2 = high"
    using set_max_capacity_wf [OF one(1) assms(2,4,6)] by simp_all
  from set_max_capacity_override [OF assms(1-4)] show ?thesis using one two assms(5,6)
    by (simp add: op_bind_def)
qed

theorem lower_then_raise_recovers_witness:
  "\<exists>b2. set_max_capacity (VFloat (Fin 60)) (Fin 100) sample_bucket = (Inr (), b2) \<and> mb_max_capacity b2 = Fin 60"
proof -
  obtain r1 b1 where a: "set_max_capacity (VFloat (Fin 5)) (Fin 100) sample_bucket = (r1, b1)" by (metis surj_pair)
  obtain r2 b2 where b: "set_max_capacity (VFloat (Fin 60)) (Fin 100) b1 = (r2, b2)" by (metis surj_pair)
  have "clock_ok (Fin 100)" "max_ok (Fin 5)" "max_ok (Fin 60)"
    by (simp_all add: clock_ok_def max_ok_def MIN_MAX_CAPACITY_val)
  from lower_then_raise_recovers [OF sample_bucket_wf this a b] show ?thesis by blast
qed

text \<open>
  The key of every bucket the constructor accepts parses back to its model family and
  metric, because validated segments contain no colon.
\<close>

theorem bucket_id_roundtrip:
  assumes "mk_memory_bucket udb metric per_seconds limit family = Inr b"
  shows "bucket_context_from_bucket_id (mb_bucket_id b) = (mb_family b, mb_metric b)"
proof -
  from assms obtain mm ff pp b0 where o: "validate_metric udb metric MAX_METRIC_LENGTH = Inr mm"
    "validate_model_family udb family MAX_MODEL_FAMILY_LENGTH = Inr ff"
    "b0 = \<lparr>mb_capacity = None, mb_last_checked = None, mb_metric = mm, mb_family = ff,
           mb_per_seconds = pp, mb_max_capacity = NaN, mb_rate_per_sec = NaN\<rparr>"
    "max_capacity_setter limit b0 = (Inr (), b)" by (rule mk_memory_bucketE)
  have "clean_segment udb mm" "clean_segment udb ff" using o(1,2)
    by (auto simp: validate_metric_def validate_model_family_def validate_key_segment_req_Inr validate_segment_str_Inr)
  then have "58 \<notin> set mm" "58 \<notin> set ff" by (simp_all add: clean_segment_no_colon)
  moreover have "mb_family b = ff" "mb_metric b = mm"
    using o(3,4) by (auto elim: max_capacity_setter_Inr)
  ultimately show ?thesis by (intro bucket_context_memory) simp_all
qed

definition plain_udb :: unicode_db where
  "plain_udb = \<lparr>nfc = (\<lambda>s. s), is_space = (\<lambda>c. c = 32), is_control = (\<lambda>c. c < 32),
     is_printable = (\<lambda>c. 32 < c)\<rparr>"

lemma plain_segment:
  "validate_segment_str plain_udb [109] ''metric'' None = Inr [109]"
  "validate_segment_str plain_udb [109] ''metric'' (Some 64) = Inr [109]"
  "validate_segment_str plain_udb [102] ''model_family'' (Some 256) = Inr [102]"
  by (simp_all add: validate_segment_str_Inr plain_udb_def clean_segment_def segment_limit_def
      default_max_length_for_field_def MAX_METRIC_LENGTH_def)

theorem bucket_id_roundtrip_witness:
  "\<exists>b. mk_memory_bucket plain_udb (VStr [109]) (VInt 60) (VFloat (Fin 60)) (VStr [102]) = Inr b \<and>
     bucket_context_from_bucket_id (mb_bucket_id b) = ([102], [109])"
proof -
  have "validate_rate_per_sec_finite_positive (VFloat (Fin 1)) = Inr (Fin 1)" "max_ok (Fin 60)"
    by (simp_all add: validate_rate_VFloat rate_ok_def max_ok_def MIN_MAX_CAPACITY_val)
  then obtain b where b: "mk_memory_bucket plain_udb (VStr [109]) (VInt 60) (VFloat (Fin 60)) (VStr [102]) = Inr b"
    "mb_family b = [102]" "mb_metric b = [109]"
    by (simp add: mk_memory_bucket_def
        validate_metric_def validate_model_family_def plain_segment MAX_METRIC_LENGTH_def
        MAX_MODEL_FAMILY_LENGTH_def validate_per_seconds_def type_tests MAX_PER_SECONDS_val
        max_capacity_setter_def validate_max_ok calculate_rate_per_sec_def float_of_int_def)
  with bucket_id_roundtrip [OF b(1)] show ?thesis by auto
qed

section \<open>Validated data\<close>

text \<open>
  A validated key segment is accepted again unchanged, is non-empty, within its length
  limit, and free of whitespace, control and non-printable characters, colons and braces:
  the characters the composed keys use as separators.
\<close>

theorem segment_validation_idempotent:
  assumes "validate_key_segment udb v field allow_none max_len = Inr (Some s)" "unicode_ok udb"
  shows "validate_key_segment udb (VStr s) field allow_none max_len = Inr (Some s) \<and>
    s \<noteq> [] \<and> (case segment_limit field max_len of None \<Rightarrow> True | Some k \<Rightarrow> length s \<le> k) \<and>
    list_all (\<lambda>c. \<not> is_space udb c \<and> \<not> is_control udb c \<and> is_printable udb c \<and>
       c \<noteq> 58 \<and> c \<noteq> 123 \<and> c \<noteq> 125) s"
proof -
  from assms(1) obtain t where t: "validate_segment_str udb t field max_len = Inr s"
    by (cases v) (auto simp: validate_key_segment_def bind_res_Inr_iff split: if_split_asm)
  then have s: "s = nfc udb t" "clean_segment udb s"
    "case segment_limit field max_len of None \<Rightarrow> True | Some k \<Rightarrow> length s \<le> k"
    unfolding validate_segment_str_Inr by blast+
  moreover have "nfc udb s = s" "s \<noteq> []" using s(1,2) assms(2)
    by (simp_all add: unicode_ok_def clean_segment_def)
  ultimately have "validate_segment_str udb s field max_len = Inr s"
    unfolding validate_segment_str_Inr by simp
  then show ?thesis using s(2,3)
    by (auto simp: validate_key_segment_def clean_segment_def list_all_iff)
qed

theorem segment_validation_idempotent_witness:
  "validate_key_segment plain_udb (VStr [109]) ''metric'' True None = Inr (Some [109]) \<and>
   list_all (\<lambda>c. c \<noteq> 58) [109 :: nat]"
proof -
  have v: "validate_key_segment plain_udb (VStr [109]) ''metric'' True None = Inr (Some [109])"
    by (simp add: validate_key_segment_def plain_segment)
  moreover have "unicode_ok plain_udb" by (simp add: unicode_ok_def plain_udb_def)
  ultimately show ?thesis using segment_validation_idempotent [OF v] by simp
qed

lemma quotas_collected:
  assumes "for_each qs (add_metric udb pyd) u = Inr u'" "uq_ok udb u" "unicode_ok udb" "pydantic_ok pyd"
  shows "set (uq_iter u') = set (uq_iter u) \<union> {q. \<exists>q0 \<in> set qs. quota_revalidate udb pyd q0 = Inr q}"
  using assms(1,2)
proof (induction qs arbitrary: u)
  case (Cons q0 qs)
  then obtain u1 where u1: "add_metric udb pyd q0 u = Inr u1" "for_each qs (add_metric udb pyd) u1 = Inr u'"
    by (auto simp: bind_res_Inr_iff)
  have ok: "uq_ok udb u1" using add_metric_ok [OF u1(1) Cons.prems(2) assms(3,4)] by simp
  from u1(1) obtain q where q: "quota_revalidate udb pyd q0 = Inr q"
    "map_of (dict_get (uq_metrics u) (q_metric q) []) (q_per_seconds q) = None"
    "u1 = u\<lparr>uq_metrics := dict_set (q_metric q)
        (dict_set (q_per_seconds q) q (dict_get (uq_metrics u) (q_metric q) [])) (uq_metrics u)\<rparr>"
    by (auto simp: add_metric_def res_simps Let_def split: if_split_asm)
  let ?w = "dict_get (uq_metrics u) (q_metric q) []"
  have d: "distinct (map fst (uq_metrics u))" using Cons.prems(2)
    by (simp add: uq_ok_def uq_wf_def dict_keys_def)
  have new: "q_per_seconds q \<notin> fst ` set ?w" using q(2) by (simp add: map_of_eq_None_iff)
  have w: "?w = (case map_of (uq_metrics u) (q_metric q) of None \<Rightarrow> [] | Some x \<Rightarrow> x)"
    by (simp add: dict_get_def)
  have "x \<in> set (uq_iter u1) \<longleftrightarrow> x = q \<or> x \<in> set (uq_iter u)" for x
  proof -
    have "set (dict_set (q_per_seconds q) q ?w) = insert (q_per_seconds q, q) (set ?w)"
      using new dict_set_new [of "q_per_seconds q" ?w q] by auto
    moreover have "(\<exists>p. (p, x) \<in> set ?w) \<longleftrightarrow> (\<exists>ws p. (q_metric q, ws) \<in> set (uq_metrics u) \<and> (p, x) \<in> set ws)"
      using d unfolding w by (auto split: option.split simp: map_of_eq_None_iff image_iff dest: map_of_SomeD)
    ultimately show ?thesis unfolding uq_iter_iff q(3)
      by (auto simp: set_dict_set [OF d]) blast
  qed
  then have "set (uq_iter u1) = insert q (set (uq_iter u))" by auto
  moreover have "{x. \<exists>y \<in> set (q0 # qs). quota_revalidate udb pyd y = Inr x} =
      insert q {x. \<exists>y \<in> set qs. quota_revalidate udb pyd y = Inr x}" using q(1) by auto
  ultimately show ?case using Cons.IH [OF u1(2) ok] by simp
qed simp

text \<open>
  A quota set that was built holds exactly the quotas it was given (each re-validated),
  no two with the same metric and window, and every one with a usable limit and window.
\<close>

theorem quota_set_exact:
  assumes "mk_usage_quotas udb pyd qs frozen = Inr u" "unicode_ok udb" "pydantic_ok pyd"
  shows "set (uq_iter u) = {q. \<exists>q0 \<in> set qs. quota_revalidate udb pyd q0 = Inr q} \<and>
    distinct (map quota_bucket_id (uq_iter u)) \<and>
    (\<forall>q \<in> set (uq_iter u). max_ok (q_limit q) \<and> 0 < q_per_seconds q \<and> q_per_seconds q \<le> MAX_PER_SECONDS)"
proof -
  from assms(1) obtain u0 where u0: "for_each qs (add_metric udb pyd) unlimited_quotas = Inr u0"
    "u = u0\<lparr>uq_frozen := frozen\<rparr>" by (auto simp: mk_usage_quotas_def res_simps)
  have e: "uq_ok udb unlimited_quotas" "uq_iter unlimited_quotas = []"
    by (simp_all add: uq_ok_def uq_wf_def unlimited_quotas_def uq_iter_def dict_keys_def)
  have "set (uq_iter u) = {q. \<exists>q0 \<in> set qs. quota_revalidate udb pyd q0 = Inr q}"
    using quotas_collected [OF u0(1) e(1) assms(2,3)] e(2) by (simp add: u0(2) uq_iter_def)
  moreover have ok: "uq_ok udb u" using assms by (rule mk_usage_quotas_ok)
  ultimately show ?thesis using uq_wf_distinct [of u]
    by (auto simp: uq_ok_def quota_ok_def per_seconds_ok_def)
qed

definition plain_pyd :: pydantic where
  "plain_pyd = \<lparr>strict_float = (\<lambda>v. case v of VFloat f \<Rightarrow> if is_dbl f then Some f else None | _ \<Rightarrow> None),
     strict_int = (\<lambda>v. case v of VInt i \<Rightarrow> Some i | _ \<Rightarrow> None)\<rparr>"

lemma plain_ok: "unicode_ok plain_udb" "pydantic_ok plain_pyd"
proof -
  show "unicode_ok plain_udb" by (simp add: unicode_ok_def plain_udb_def)
  have "strict_float plain_pyd v = Some f \<Longrightarrow> is_dbl f" for v f
    by (cases v) (simp_all add: plain_pyd_def split: if_split_asm)
  then show "pydantic_ok plain_pyd" by (simp add: pydantic_ok_def)
qed

definition sample_quota :: quota where
  "sample_quota = \<lparr>q_metric = [109], q_limit = Fin 60, q_per_seconds = 60\<rparr>"

theorem quota_set_exact_witness:
  "\<exists>u. mk_usage_quotas plain_udb plain_pyd [sample_quota] True = Inr u \<and>
     distinct (map quota_bucket_id (uq_iter u))"
proof -
  have "is_dbl (Fin 60)" by simp
  then have "quota_limit_field plain_pyd (VFloat (Fin 60)) = Inr (Fin 60)"
    "quota_per_seconds_field plain_pyd (VInt 60) = Inr 60"
    by (simp_all add: quota_limit_field_def quota_per_seconds_field_def reject_boolean_def
        reject_non_numeric_per_seconds_def type_tests plain_pyd_def MAX_PER_SECONDS_val MIN_MAX_CAPACITY_val)
  then have "quota_revalidate plain_udb plain_pyd sample_quota = Inr sample_quota"
    by (simp add: quota_revalidate_def mk_quota_Inr sample_quota_def plain_segment)
  then obtain u where u: "mk_usage_quotas plain_udb plain_pyd [sample_quota] True = Inr u"
    by (simp add: mk_usage_quotas_def MAX_QUOTAS_PER_USAGE_QUOTAS_def add_metric_def unlimited_quotas_def
        dict_get_def)
  from quota_set_exact [OF u plain_ok] u show ?thesis by blast
qed
text \<open>
  A reservation that was constructed carries validated data: finite non-negative
  usage, and the unlimited flag only in its canonical shape (sentinel family, no usage, no
  bucket ids).
\<close>

theorem reservation_wellformed:
  assumes "mk_reservation udb rid u family bids model unlimited lid created = Inr r"
  shows "r_is_unlimited r = unlimited \<and>
    (unlimited \<longrightarrow> r_model_family r = UNLIMITED_FLAG \<and> r_usage r = [] \<and> r_bucket_ids r = None) \<and>
    list_all (\<lambda>(m, a). isfinite a \<and> \<not> flt a (Fin 0)) (r_usage r) \<and> clean_segment udb (r_id r)"
proof -
  note c = mk_reservation_Inr [OF assms]
  have "r_is_unlimited r = unlimited \<and>
      (unlimited \<longrightarrow> r_model_family r = UNLIMITED_FLAG \<and> r_usage r = [] \<and> r_bucket_ids r = None)"
    using c by (auto simp: require_sentinel_Inr)
  moreover have "list_all (\<lambda>(m, a). isfinite a \<and> \<not> flt a (Fin 0)) (r_usage r)"
    using c by (auto simp: normalize_reserved_usage_def res_simps list_all_iff list_ex_iff)
  moreover have "clean_segment udb (r_id r)"
    using c by (auto simp: validate_key_segment_req_Inr validate_segment_str_Inr)
  ultimately show ?thesis by blast
qed

theorem reservation_wellformed_witness:
  "\<exists>r. mk_reservation plain_udb (VStr [114]) (VDict []) (VStr UNLIMITED_FLAG) VNone None True (VStr [108]) VNone = Inr r \<and>
     r_usage r = [] \<and> r_bucket_ids r = None"
proof -
  have seg: "validate_segment_str plain_udb [114] ''reservation_id'' None = Inr [114]"
    "validate_segment_str plain_udb [108] ''limiter_instance_id'' None = Inr [108]"
    "validate_segment_str plain_udb UNLIMITED_FLAG ''model_family'' None = Inr UNLIMITED_FLAG"
    by (simp_all add: validate_segment_str_Inr plain_udb_def clean_segment_def segment_limit_def
        default_max_length_for_field_def UNLIMITED_FLAG_def ps_def MAX_MODEL_FAMILY_LENGTH_def
        MAX_RESERVATION_ID_LENGTH_def)
  then obtain r where r: "mk_reservation plain_udb (VStr [114]) (VDict []) (VStr UNLIMITED_FLAG) VNone None True (VStr [108]) VNone = Inr r"
    by (simp add: mk_reservation_def validate_created_at_def normalize_reserved_usage_def frozen_usage_def
        normalize_bucket_ids_def require_sentinel_when_unlimited_def as_validation_error_def)
  from reservation_wellformed [OF r] r show ?thesis by blast
qed

lemma rnd_overflow: "2 powi 1024 \<le> x \<Longrightarrow> rnd x = PInf"
proof -
  assume x: "2 powi 1024 \<le> x"
  have "ilog2 (2 powi 1024) = 1024"
    by (rule ilog2_unique) (auto intro: two_powi_less)
  then have "ulp_exp (2 powi 1024) \<le> 1024" by (simp add: ulp_exp_def)
  then have "2 powi 1024 \<le> rnd_q (2 powi 1024)" by (intro powi_le_rnd_q) auto
  also have "\<dots> \<le> rnd_q x" using x by (rule rnd_q_mono)
  finally show ?thesis by (simp add: rnd_def)
qed

text \<open>
  The scalar validators and the usage validators disagree on an integer too large for a
  double: a usage value is refused with ValueError, but a timeout or a sleep interval lets
  the OverflowError of \<^verbatim>\<open>float()\<close> through, although these validators mean to raise ValueError.
\<close>

theorem huge_timeout_overflows:
  assumes "2 ^ 1024 \<le> i"
  shows "validate_timeout (VInt i) = Inl OverflowError \<and> validate_sleep_interval (VInt i) = Inl OverflowError \<and>
    coerce_usage_value (VInt i) = Inl (ValueError ''too large to fit in IEEE 754 double'')"
proof -
  have "rat_of_int (2 ^ 1024) \<le> of_int i" using assms by (simp only: of_int_le_iff)
  then have "2 powi 1024 \<le> rat_of_int i" by (simp add: power_int_numeral)
  then have "float_of_int i = Inl OverflowError" by (simp add: float_of_int_def rnd_overflow)
  then show ?thesis
    by (simp add: validate_timeout_def validate_sleep_interval_def coerce_usage_value_def type_tests)
qed

theorem huge_timeout_overflows_witness:
  "validate_timeout (VInt (10 ^ 400)) = Inl OverflowError"
proof -
  have "(2 :: int) ^ 1024 \<le> 10 ^ 400" by simp
  from huge_timeout_overflows [OF this] show ?thesis by blast
qed
end
