(* ===== verification/Diagnostics.thy ===== *)
theory Diagnostics
  imports Models
begin

text \<open>
  \<^verbatim>\<open>_diagnostic.py\<close>, as far as the backends build reports with it: the report of a bucket, the
  buckets a waiter is blocked on, and the report of a waiter. Fields that are the same constant
  for every report of a backend (its type, \<^verbatim>\<open>model\<close>, \<^verbatim>\<open>request_id\<close> and the one waiting state)
  are left out.
\<close>

section \<open>Buckets\<close>

datatype override_source = OverrideNone | OverrideLimiter | OverrideBackend | OverrideBoth

record bucket_diagnostic =
  bd_model_family :: pystr
  bd_metric :: pystr
  bd_per_seconds :: int
  bd_current_capacity :: "pyfloat option"
  bd_configured_limit :: pyfloat
  bd_runtime_override :: "pyfloat option"
  bd_override_source :: override_source
  bd_effective_max :: pyfloat
  bd_gap :: pyfloat
  bd_refill_rate :: pyfloat
  bd_status :: string
  bd_as_of :: pyfloat

definition override_is_active :: "pyfloat \<Rightarrow> pyfloat \<Rightarrow> bool" where
  "override_is_active configured effective \<longleftrightarrow> \<not> isclose (flit (1 / 1000000000000)) configured effective"

definition per_second :: "pyfloat \<Rightarrow> int \<Rightarrow> pyfloat result" where
  "per_second a p = bind_res (float_of_int p) (fdiv a)"

definition make_bucket_diagnostic ::
  "pystr \<Rightarrow> bucket_id \<Rightarrow> pyfloat option \<Rightarrow> pyfloat \<Rightarrow> pyfloat \<Rightarrow> override_source \<Rightarrow> string \<Rightarrow> pyfloat \<Rightarrow>
   bucket_diagnostic result" where
  "make_bucket_diagnostic family k current configured effective src status as_of =
     bind_res (per_second effective (snd k)) (\<lambda>rate. Inr
       \<lparr>bd_model_family = family, bd_metric = fst k, bd_per_seconds = snd k, bd_current_capacity = current,
        bd_configured_limit = configured,
        bd_runtime_override = (if src \<noteq> OverrideNone \<or> override_is_active configured effective
                               then Some effective else None),
        bd_override_source = src, bd_effective_max = effective, bd_gap = fsub effective configured,
        bd_refill_rate = rate, bd_status = status, bd_as_of = as_of\<rparr>)"

section \<open>Waiters\<close>

record wait_bucket_diagnostic =
  wb_model_family :: pystr
  wb_metric :: pystr
  wb_per_seconds :: int
  wb_current :: pyfloat
  wb_required :: pyfloat
  wb_deficit :: pyfloat
  wb_rate :: "pyfloat option"
  wb_expected :: "pyfloat option"
  wb_max :: "pyfloat option"

text \<open>Effective maximum and refill rate of a bucket.\<close>

type_synonym bucket_limits = "(bucket_id, pyfloat \<times> pyfloat) dict"

text \<open>
  Floats in the order of \<^verbatim>\<open>sorted\<close>. A NaN, which no deficit and no clock is, would be unordered;
  here it comes last.
\<close>

fun float_key :: "pyfloat \<Rightarrow> nat \<times> rat" where
  "float_key NInf = (0, 0)"
| "float_key (Fin q) = (1, q)"
| "float_key PInf = (2, 0)"
| "float_key NaN = (3, 0)"

definition wait_bucket_sort_key :: "wait_bucket_diagnostic \<Rightarrow> nat \<times> (nat \<times> rat) \<times> pystr \<times> int" where
  "wait_bucket_sort_key b = (if wb_expected b = None then 1 else 0,
     float_key (fneg (case wb_expected b of None \<Rightarrow> Fin 0 | Some e \<Rightarrow> e)), wb_metric b, wb_per_seconds b)"

definition expected_refill :: "pyfloat \<Rightarrow> pyfloat option \<Rightarrow> pyfloat option result" where
  "expected_refill deficit rate = (case rate of
      None \<Rightarrow> Inr None
    | Some r \<Rightarrow> if fle r (Fin 0) then Inr None else bind_res (fdiv deficit r) (\<lambda>e. Inr (Some e)))"

definition blocked_bucket ::
  "pystr \<Rightarrow> usage \<Rightarrow> bucket_limits \<Rightarrow> bucket_id \<times> pyfloat \<Rightarrow> wait_bucket_diagnostic list \<Rightarrow>
   wait_bucket_diagnostic list result" where
  "blocked_bucket family u limits kc blocked = (case kc of (k, c) \<Rightarrow>
     (case map_of u (fst k) of
        None \<Rightarrow> Inr blocked
      | Some required \<Rightarrow>
        let deficit = fmax (Fin 0) (fsub required c) in
        if fle deficit (Fin 0) then Inr blocked
        else let limit = map_of limits k; rate = map_option snd limit in
          bind_res (expected_refill deficit rate) (\<lambda>expected. Inr (blocked @
            [\<lparr>wb_model_family = family, wb_metric = fst k, wb_per_seconds = snd k, wb_current = c,
              wb_required = required, wb_deficit = deficit, wb_rate = rate, wb_expected = expected,
              wb_max = map_option fst limit\<rparr>]))))"

definition wait_bucket_diagnostics ::
  "pystr \<Rightarrow> usage \<Rightarrow> (bucket_id, pyfloat) dict \<Rightarrow> bucket_limits \<Rightarrow> wait_bucket_diagnostic list result" where
  "wait_bucket_diagnostics family u caps limits =
     bind_res (for_each caps (blocked_bucket family u limits) []) (\<lambda>blocked.
       Inr (sort_key wait_bucket_sort_key blocked))"

text \<open>\<^verbatim>\<open>DiagnosticWaiterState\<close>, which a backend keeps per waiter, and \<^verbatim>\<open>WaiterDiagnostic\<close>.\<close>

record waiter_state =
  ws_waiter_id :: pystr
  ws_reservation_id :: "pystr option"
  ws_model_family :: pystr
  ws_usage :: usage
  ws_started :: pyfloat
  ws_deadline :: "pyfloat option"
  ws_blocked :: "wait_bucket_diagnostic list"

record waiter_diagnostic =
  wd_reservation_id :: "pystr option"
  wd_model_family :: pystr
  wd_usage :: usage
  wd_started :: pyfloat
  wd_age :: pyfloat
  wd_timeout_remaining :: "pyfloat option"
  wd_primary :: "wait_bucket_diagnostic option"
  wd_blocked :: "wait_bucket_diagnostic list"
  wd_as_of :: pyfloat

definition waiter_diagnostic_from_state :: "waiter_state \<Rightarrow> pyfloat \<Rightarrow> waiter_diagnostic" where
  "waiter_diagnostic_from_state st as_of =
     \<lparr>wd_reservation_id = ws_reservation_id st, wd_model_family = ws_model_family st, wd_usage = ws_usage st,
      wd_started = ws_started st, wd_age = fmax (Fin 0) (fsub as_of (ws_started st)),
      wd_timeout_remaining = map_option (\<lambda>d. fmax (Fin 0) (fsub d as_of)) (ws_deadline st),
      wd_primary = (case ws_blocked st of [] \<Rightarrow> None | b # bs \<Rightarrow> Some b),
      wd_blocked = ws_blocked st, wd_as_of = as_of\<rparr>"

end
