(* ===== verification/SqliteBackend.thy ===== *)
theory SqliteBackend
  imports SqliteEngine SqliteTtl Validation Diagnostics
begin

text \<open>
  \<^verbatim>\<open>_limiter_backends/_sqlite/_sync_backend.py\<close>: the builder and the backend around the
  engine. A backend is the state of its engine and database with the backend's own fields;
  every call of the engine is one transaction, and \<open>wait_for_capacity\<close> is a loop of them
  over the turns it observes, between which other threads and processes run.
\<close>

section \<open>The builder\<close>

text \<open>
  A path argument is a plain value or an object with \<^verbatim>\<open>__fspath__\<close>, of which the outcome of
  that method is all that is seen. \<open>realpath\<close> is \<^verbatim>\<open>os.path.realpath\<close>.
\<close>

datatype path_arg = PlainPath pyval | PathLike "pyval result"

definition db_path_type_error :: exn where
  "db_path_type_error = TypeError ''db_path must be a str or os.PathLike[str]''"

definition fspath :: "path_arg \<Rightarrow> pyval result" where
  "fspath p = (case p of
      PlainPath (VStr s) \<Rightarrow> Inr (VStr s)
    | PlainPath _ \<Rightarrow> Inl db_path_type_error
    | PathLike (Inr (VStr s)) \<Rightarrow> Inr (VStr s)
    | PathLike (Inr (VBytes b)) \<Rightarrow> Inr (VBytes b)
    | PathLike (Inr _) \<Rightarrow> Inl db_path_type_error
    | PathLike (Inl (TypeError _)) \<Rightarrow> Inl db_path_type_error
    | PathLike (Inl e) \<Rightarrow> Inl e)"

definition validate_db_path :: "(pystr \<Rightarrow> pystr) \<Rightarrow> path_arg \<Rightarrow> pystr result" where
  "validate_db_path realpath p = bind_res (fspath p) (\<lambda>v. case v of
      VStr path \<Rightarrow>
        if path = [] then Inl (ValueError ''db_path must not be empty'')
        else if 0 \<in> set path then Inl (ValueError ''db_path must not contain NUL characters'')
        else if path = ps '':memory:'' \<or> take 5 path = ps ''file:''
          then Inl (ValueError ''db_path must be a filesystem path'')
        else Inr (realpath path)
    | _ \<Rightarrow> Inl (TypeError ''db_path must resolve to a str path''))"

definition validate_busy_timeout_ms :: "pyval \<Rightarrow> int result" where
  "validate_busy_timeout_ms v = (case v of
      VInt i \<Rightarrow>
        if i < 0 then Inl (ValueError ''busy_timeout_ms must be greater than or equal to 0'')
        else if 2 ^ 31 - 1 < i then Inl (ValueError ''busy_timeout_ms must be <= 2147483647'')
        else Inr i
    | _ \<Rightarrow> Inl (TypeError ''busy_timeout_ms must be an exact int number of milliseconds''))"

definition validate_prune_batch_size :: "pyval \<Rightarrow> int result" where
  "validate_prune_batch_size v = (case v of
      VInt i \<Rightarrow> if i \<le> 0 then Inl (ValueError ''prune_batch_size must be greater than 0'') else Inr i
    | _ \<Rightarrow> Inl (TypeError ''prune_batch_size must be an exact int''))"

record sqlite_builder =
  bu_db_path :: pystr
  bu_key_prefix :: pystr
  bu_sleep_interval :: "pyfloat option"
  bu_bucket_ttl :: int
  bu_refund_ttl :: int
  bu_override_ttl :: int
  bu_max_lifetime :: pyfloat
  bu_busy_timeout_ms :: int
  bu_prune_batch :: int

record builder_args =
  ba_db_path :: path_arg
  ba_key_prefix :: pyval
  ba_sleep_interval :: pyval
  ba_bucket_ttl :: pyval
  ba_refund_ttl :: pyval
  ba_override_ttl :: pyval
  ba_max_lifetime :: pyval
  ba_busy_timeout_ms :: pyval
  ba_prune_batch :: pyval

abbreviation resolve_lifetime :: "pyval \<Rightarrow> int \<Rightarrow> int \<Rightarrow> pyfloat result" where
  "resolve_lifetime lifetime bucket_ttl refund_ttl \<equiv>
     resolve_max_reservation_lifetime_seconds_from_ttls lifetime (VInt bucket_ttl) (VInt refund_ttl)
       (VFloat RESERVATION_LIFETIME_TTL_SAFETY_MARGIN)"

definition mk_sqlite_builder ::
  "unicode_db \<Rightarrow> (pystr \<Rightarrow> pystr) \<Rightarrow> builder_args \<Rightarrow> sqlite_builder result" where
  "mk_sqlite_builder udb realpath a =
     bind_res (validate_db_path realpath (ba_db_path a)) (\<lambda>path.
     bind_res (validate_key_prefix udb (ba_key_prefix a)) (\<lambda>prefix.
     bind_res (validate_sleep_interval (ba_sleep_interval a)) (\<lambda>interval.
     bind_res (validate_sqlite_ttl_seconds (ba_bucket_ttl a)) (\<lambda>bucket_ttl.
     bind_res (validate_sqlite_ttl_seconds (ba_refund_ttl a)) (\<lambda>refund_ttl.
     bind_res (validate_sqlite_ttl_seconds
         (if ba_override_ttl a = VNone then VInt bucket_ttl else ba_override_ttl a)) (\<lambda>override_ttl.
     bind_res (resolve_lifetime (ba_max_lifetime a) bucket_ttl refund_ttl) (\<lambda>lifetime.
     bind_res (validate_busy_timeout_ms (ba_busy_timeout_ms a)) (\<lambda>busy.
     bind_res (validate_prune_batch_size (ba_prune_batch a)) (\<lambda>batch.
       Inr \<lparr>bu_db_path = path, bu_key_prefix = prefix, bu_sleep_interval = interval,
            bu_bucket_ttl = bucket_ttl, bu_refund_ttl = refund_ttl, bu_override_ttl = override_ttl,
            bu_max_lifetime = lifetime, bu_busy_timeout_ms = busy, bu_prune_batch = batch\<rparr>)))))))))"

definition resolve_max_reservation_lifetime_seconds :: "sqlite_builder \<Rightarrow> pyval \<Rightarrow> pyfloat result" where
  "resolve_max_reservation_lifetime_seconds b lifetime =
     (if lifetime = VNone then Inr (bu_max_lifetime b)
      else bind_res (resolve_lifetime lifetime (bu_bucket_ttl b) (bu_refund_ttl b)) (\<lambda>resolved.
        if flt (bu_max_lifetime b) resolved
        then Inl (ValueError ''max_reservation_lifetime_seconds exceeds the configured maximum'')
        else Inr resolved))"

definition validate_reservation_lifetime_seconds :: "sqlite_builder \<Rightarrow> pyval \<Rightarrow> unit result" where
  "validate_reservation_lifetime_seconds b lifetime =
     validate_reservation_lifetime_ttl_invariant lifetime (VInt (bu_bucket_ttl b)) (VInt (bu_refund_ttl b))
       (VFloat RESERVATION_LIFETIME_TTL_SAFETY_MARGIN)"

section \<open>The backend\<close>

definition DEFAULT_SLEEP_INTERVAL :: pyfloat where "DEFAULT_SLEEP_INTERVAL = flit (1 / 10)"
definition MAX_CROSS_WORKER_POLL :: pyfloat where "MAX_CROSS_WORKER_POLL = Fin 1"
definition WAIT_JITTER_RATIO :: pyfloat where "WAIT_JITTER_RATIO = flit (1 / 5)"

record sqlite_backend =
  bk_sq :: sq_state
  bk_limit_config :: per_model_config
  bk_sleep_interval :: pyfloat
  bk_waiters :: "(pystr, waiter_state) dict"
  bk_closed :: bool

definition mk_sqlite_backend ::
  "unicode_db \<Rightarrow> pydantic \<Rightarrow> sq_state \<Rightarrow> per_model_config \<Rightarrow> pyval \<Rightarrow> sqlite_backend result" where
  "mk_sqlite_backend udb pyd sq cfg sleep_interval =
     bind_res (config_with_family udb pyd cfg (cfg_model_family cfg)) (\<lambda>c.
     bind_res (validate_sleep_interval sleep_interval) (\<lambda>si.
       Inr \<lparr>bk_sq = sq, bk_limit_config = c,
            bk_sleep_interval = (case si of None \<Rightarrow> DEFAULT_SLEEP_INTERVAL | Some v \<Rightarrow> v),
            bk_waiters = [], bk_closed = False\<rparr>))"

definition spec_of_quota :: "quota \<Rightarrow> bucket_spec" where
  "spec_of_quota q = \<lparr>sp_metric = q_metric q, sp_per_seconds = q_per_seconds q, sp_configured_max = q_limit q\<rparr>"

definition builder_engine :: "sqlite_builder \<Rightarrow> pystr \<Rightarrow> quota list \<Rightarrow> sq_engine" where
  "builder_engine b family quotas =
     mk_engine (bu_db_path b) (bu_key_prefix b) family (map spec_of_quota quotas) (bu_bucket_ttl b)
       (bu_refund_ttl b) (bu_override_ttl b) (bu_max_lifetime b) (bu_busy_timeout_ms b) (bu_prune_batch b)"

text \<open>
  What opening the database observes: whether the connection fails, the attempts to enable
  WAL with the clock before them, and the two transactions. \<open>None\<close> is a build still waiting
  for WAL when the observations end.
\<close>

record open_env =
  oe_connect :: "exn option"
  oe_now :: pyfloat
  oe_wal :: "wal_attempt list"
  oe_sync :: "sqlite_failure option"
  oe_schema :: txn_env
  oe_init :: txn_env

definition open_engine ::
  "scan_order \<Rightarrow> open_env \<Rightarrow> sq_state \<Rightarrow> unit result option \<times> sq_state" where
  "open_engine so oe s = (let busy = en_busy_timeout_ms (sq_eng s) in
     case oe_connect oe of
       Some e \<Rightarrow> (Some (Inl e), s)
     | None \<Rightarrow> (case configure_connection busy (oe_now oe) (oe_wal oe) (oe_sync oe) of
         None \<Rightarrow> (None, s)
       | Some (Inl e) \<Rightarrow> (Some (Inl e), s)
       | Some (Inr _) \<Rightarrow>
           (case op_bind (initialize_schema (oe_schema oe) (Some busy))
                   (\<lambda>_. initialize_buckets so (oe_init oe) None) s of
              (r, t) \<Rightarrow> (Some r, t))))"

definition build_sqlite_backend ::
  "unicode_db \<Rightarrow> pydantic \<Rightarrow> sqlite_builder \<Rightarrow> per_model_config \<Rightarrow> scan_order \<Rightarrow> open_env \<Rightarrow> sqlite_db \<Rightarrow>
   sqlite_backend result option \<times> sqlite_db" where
  "build_sqlite_backend udb pyd b cfg so oe db =
     (case bind_res (config_with_family udb pyd cfg (cfg_model_family cfg)) (\<lambda>c.
             bind_res (validate_bucket_ttl_covers_quota_windows (bu_bucket_ttl b) (uq_iter (cfg_quotas c))) (\<lambda>_.
             bind_res (get_model_family c) (\<lambda>family. Inr (c, family)))) of
        Inl e \<Rightarrow> (Some (Inl e), db)
      | Inr (c, family) \<Rightarrow>
        (case open_engine so oe \<lparr>sq_eng = builder_engine b family (uq_iter (cfg_quotas c)), sq_db = db\<rparr> of
           (None, s) \<Rightarrow> (None, sq_db s)
         | (Some (Inl e), s) \<Rightarrow> (Some (Inl e), sq_db s)
         | (Some (Inr _), s) \<Rightarrow>
             (Some (mk_sqlite_backend udb pyd s c (optional_float (bu_sleep_interval b))), sq_db s)))"

text \<open>Operations of the engine as operations of the backend.\<close>

definition on_engine :: "(sq_state, 'a) op \<Rightarrow> (sqlite_backend, 'a) op" where
  "on_engine m s = (case m (bk_sq s) of (r, t) \<Rightarrow> (r, s\<lparr>bk_sq := t\<rparr>))"

definition require_open :: "(sqlite_backend, unit) op" where
  "require_open s = (guard (\<not> bk_closed s) (RuntimeError ''SQLite backend is closed''), s)"

definition close_backend :: "sqlite_backend \<Rightarrow> sqlite_backend" where
  "close_backend s = s\<lparr>bk_closed := True\<rparr>"

section \<open>Callbacks\<close>

text \<open>
  The callbacks an application installs are a function from the event to the critical
  exception its call raises, if it does; other exceptions are swallowed, and an absent
  callback raises nothing.
\<close>

datatype sq_event =
    SqWaitStart capacities usage
  | SqMissing missing_state_event
  | SqConsumed capacities capacities usage pyfloat
  | SqAfterWait capacities capacities usage pyfloat
  | SqRefunded usage usage usage capacities capacities

type_synonym sq_callbacks = "sq_event \<Rightarrow> exn option"

fun invoke :: "sq_callbacks \<Rightarrow> sq_event list \<Rightarrow> unit result" where
  "invoke cb [] = Inr ()"
| "invoke cb (e # es) = (case cb e of Some x \<Rightarrow> Inl x | None \<Rightarrow> invoke cb es)"

definition consumed_events :: "usage \<Rightarrow> capacity_result \<Rightarrow> sq_event list" where
  "consumed_events u c = map SqMissing (cr_missing c) @ [SqConsumed (cr_pre c) (cr_post c) u (cr_time c)]"

section \<open>Unconditional consumption\<close>

definition checked_usage :: "unicode_db \<Rightarrow> raw_usage \<Rightarrow> sq_engine \<Rightarrow> unit result" where
  "checked_usage udb raw en = validate_backend_usage udb raw (sq_metric_names en)"

definition sq_consume_capacity ::
  "unicode_db \<Rightarrow> sq_callbacks \<Rightarrow> scan_order \<Rightarrow> txn_env \<Rightarrow> raw_usage \<Rightarrow> pystr option \<Rightarrow> pyfloat option \<Rightarrow>
   (sqlite_backend, pyfloat) op" where
  "sq_consume_capacity udb cb so env raw rid lifetime =
     op_bind require_open (\<lambda>_.
     op_bind (\<lambda>s. (checked_usage udb raw (sq_eng (bk_sq s)), s)) (\<lambda>_.
     op_bind (op_lift (usage_floats raw)) (\<lambda>u.
     op_bind (on_engine (consume so env u rid lifetime None)) (\<lambda>c.
     op_bind (op_lift (invoke cb (if cr_replayed c then map SqMissing (cr_missing c) else consumed_events u c))) (\<lambda>_.
       op_return (cr_time c))))))"

section \<open>Waiting for capacity\<close>

definition sq_compute_sleep :: "pyfloat \<Rightarrow> usage \<Rightarrow> capacities \<Rightarrow> capacities \<Rightarrow> pyfloat result" where
  "sq_compute_sleep interval u caps maxs =
     bind_res (for_each caps (\<lambda>(k, c) w.
       let deficit = fsub (usage_amount u k) c in
       if fle deficit (Fin 0) then Inr w
       else (case map_of maxs k of
           None \<Rightarrow> Inl KeyError
         | Some mx \<Rightarrow> bind_res (per_second mx (snd k)) (\<lambda>rate.
             if \<not> isfinite rate \<or> fle rate (Fin 0)
             then Inl (ValueError ''Bucket rate is non-positive/non-finite'')
             else bind_res (fdiv deficit rate) (\<lambda>d. Inr (fmax w d))))) (Fin 0))
       (\<lambda>w. Inr (if flt (Fin 0) w then w else interval))"

text \<open>\<^verbatim>\<open>random.uniform(a, b)\<close> is \<open>a + (b - a) * r\<close> for the random number \<open>r\<close>.\<close>

definition jittered_sleep :: "pyfloat \<Rightarrow> pyfloat \<Rightarrow> pyfloat" where
  "jittered_sleep r value =
     (let a = fsub (Fin 1) WAIT_JITTER_RATIO; b = fadd (Fin 1) WAIT_JITTER_RATIO
      in fmul value (fadd a (fmul (fsub b a) r)))"

text \<open>
  The exception for a wait that timed out: composing its message can itself raise, which then
  is the exception of the wait.
\<close>

definition sq_capacity_timeout_error :: "pyfloat \<Rightarrow> usage \<Rightarrow> capacities \<Rightarrow> capacities \<Rightarrow> exn" where
  "sq_capacity_timeout_error interval u caps maxs =
     (case bind_res (for_each caps (\<lambda>(k, c) largest.
         let deficit = fsub (usage_amount u k) c in
         if flt largest deficit
         then (if map_of u (fst k) = None then Inl KeyError else Inr deficit)
         else Inr largest) (Fin 0))
         (\<lambda>_. sq_compute_sleep interval u caps maxs) of
        Inl e \<Rightarrow> e
      | Inr _ \<Rightarrow> TimeoutError ''Timed out waiting for capacity'')"

text \<open>Whether a deadline, if there is one, is reached.\<close>

definition past :: "pyfloat option \<Rightarrow> pyfloat \<Rightarrow> bool" where
  "past deadline now \<longleftrightarrow> (case deadline of None \<Rightarrow> False | Some d \<Rightarrow> fle d now)"

text \<open>
  What one turn of the loop observes: what others did to the backend and its database before
  it, its transaction, its random number, and its readings of the monotonic clock in the
  order of the code.
\<close>

record sq_tick =
  qt_others :: "sqlite_backend \<Rightarrow> sqlite_backend"
  qt_busy_now :: pyfloat
  qt_env :: txn_env
  qt_contention_now :: pyfloat
  qt_contention_remaining :: pyfloat
  qt_random :: pyfloat
  qt_upsert :: pyfloat
  qt_deadline_check :: pyfloat
  qt_wait_started :: pyfloat
  qt_callback_started :: pyfloat
  qt_callback_ended :: pyfloat
  qt_callback_check :: pyfloat
  qt_remaining :: pyfloat

record sq_locals =
  ql_has_waited :: bool
  ql_started_at :: "pyfloat option"
  ql_overhead :: pyfloat

definition no_locals :: sq_locals where
  "no_locals = \<lparr>ql_has_waited = False, ql_started_at = None, ql_overhead = Fin 0\<rparr>"

definition wait_busy_timeout :: "sq_engine \<Rightarrow> pyfloat option \<Rightarrow> pyfloat \<Rightarrow> (int \<times> bool) result" where
  "wait_busy_timeout en deadline now = (case deadline of
      None \<Rightarrow> Inr (en_busy_timeout_ms en, False)
    | Some d \<Rightarrow>
        bind_res (fceil (fmul (fmax (Fin 0) (fsub d now)) (Fin 1000))) (\<lambda>ms.
          let t = min (en_busy_timeout_ms en) (max 0 ms) in Inr (t, t = 0)))"

text \<open>\<open>wait_started_at or time.monotonic()\<close>: zero is false as well.\<close>

definition or_now :: "pyfloat option \<Rightarrow> pyfloat \<Rightarrow> pyfloat" where
  "or_now st now = (case st of None \<Rightarrow> now | Some f \<Rightarrow> if f = Fin 0 then now else f)"

definition bucket_limits_of :: "capacities \<Rightarrow> bucket_limits result" where
  "bucket_limits_of maxs = for_each maxs (\<lambda>(k, mx) acc.
     bind_res (per_second mx (snd k)) (\<lambda>rate. Inr (dict_set k (mx, rate) acc))) []"

definition sq_upsert_diagnostic_waiter ::
  "pystr \<Rightarrow> pystr option \<Rightarrow> usage \<Rightarrow> capacity_result \<Rightarrow> pyfloat option \<Rightarrow> pyfloat option \<Rightarrow> pyfloat \<Rightarrow>
   (sqlite_backend, unit) op" where
  "sq_upsert_diagnostic_waiter key rid u c deadline started_at now s =
     (let family = en_model_family (sq_eng (bk_sq s)) in
      case bind_res (bucket_limits_of (cr_max c)) (wait_bucket_diagnostics family u (cr_pre c)) of
        Inl e \<Rightarrow> (Inl e, s)
      | Inr blocked \<Rightarrow>
          (let started = (case map_of (bk_waiters s) key of
                            Some w \<Rightarrow> ws_started w | None \<Rightarrow> or_now started_at now) in
           (Inr (), s\<lparr>bk_waiters := dict_set key
              \<lparr>ws_waiter_id = key, ws_reservation_id = rid, ws_model_family = family, ws_usage = u,
               ws_started = started, ws_deadline = deadline, ws_blocked = blocked\<rparr> (bk_waiters s)\<rparr>)))"

text \<open>The first failed attempt announces the wait.\<close>

definition announce_wait ::
  "sq_callbacks \<Rightarrow> bool \<Rightarrow> usage \<Rightarrow> pyfloat option \<Rightarrow> pyfloat \<Rightarrow> sq_tick \<Rightarrow> capacity_result \<Rightarrow> sq_locals \<Rightarrow>
   sq_locals result" where
  "announce_wait cb installed u deadline interval t c w =
     (let timed_out = Inl (sq_capacity_timeout_error interval u (cr_pre c) (cr_max c));
          w1 = w\<lparr>ql_has_waited := True, ql_started_at := Some (qt_wait_started t)\<rparr> in
      if ql_has_waited w then Inr w
      else if \<not> installed then Inr w1
      else if past deadline (qt_callback_started t) then timed_out
      else bind_res (invoke cb [SqWaitStart (cr_pre c) u]) (\<lambda>_.
        if past deadline (qt_callback_check t) then timed_out
        else Inr (w1\<lparr>ql_overhead := fadd (ql_overhead w1)
                       (fsub (qt_callback_ended t) (qt_callback_started t))\<rparr>)))"

text \<open>The sleep of a turn: at least a millisecond, and not past the deadline.\<close>

definition until_deadline :: "pyfloat option \<Rightarrow> pyfloat \<Rightarrow> pyfloat \<Rightarrow> pyfloat" where
  "until_deadline deadline now d = fmax (flit (1 / 1000))
     (case deadline of None \<Rightarrow> d | Some dl \<Rightarrow> fmin d (fmax (Fin 0) (fsub dl now)))"

definition capacity_sleep :: "pyfloat \<Rightarrow> pyfloat \<Rightarrow> pyfloat" where
  "capacity_sleep r computed =
     fmin (jittered_sleep r (fmin computed MAX_CROSS_WORKER_POLL)) MAX_CROSS_WORKER_POLL"

definition contended_turn :: "pyfloat option \<Rightarrow> pyfloat \<Rightarrow> sq_tick \<Rightarrow> pyfloat result" where
  "contended_turn deadline interval t =
     (if past deadline (qt_contention_now t)
      then Inl (TimeoutError ''Timed out waiting for SQLite write-lock contention'')
      else Inr (until_deadline deadline (qt_contention_remaining t) (jittered_sleep (qt_random t) interval)))"

definition drained_events :: "capacity_result \<Rightarrow> sq_event list" where
  "drained_events c = map SqMissing (filter (\<lambda>e. me_reason e = ''state_loss_drained'') (cr_missing c))"

definition unavailable_turn ::
  "sq_callbacks \<Rightarrow> bool \<Rightarrow> usage \<Rightarrow> pystr option \<Rightarrow> pystr \<Rightarrow> pyfloat option \<Rightarrow> sq_tick \<Rightarrow> capacity_result \<Rightarrow>
   sq_locals \<Rightarrow> (sqlite_backend, sq_locals \<times> pyfloat) op" where
  "unavailable_turn cb installed u rid key deadline t c w s =
     (let interval = bk_sleep_interval s in
      op_bind (op_lift (invoke cb (drained_events c))) (\<lambda>_.
      op_bind (sq_upsert_diagnostic_waiter key rid u c deadline (ql_started_at w) (qt_upsert t)) (\<lambda>_.
      op_bind (op_lift (guard (\<not> past deadline (qt_deadline_check t))
                 (sq_capacity_timeout_error interval u (cr_pre c) (cr_max c)))) (\<lambda>_.
      op_bind (op_lift (announce_wait cb installed u deadline interval t c w)) (\<lambda>w1.
      op_bind (op_lift (sq_compute_sleep interval u (cr_pre c) (cr_max c))) (\<lambda>computed.
        op_return (w1, until_deadline deadline (qt_remaining t) (capacity_sleep (qt_random t) computed))))))) s)"

definition attempt ::
  "scan_order \<Rightarrow> usage \<Rightarrow> pystr option \<Rightarrow> pyfloat option \<Rightarrow> pyfloat option \<Rightarrow> pyfloat option \<Rightarrow> sq_tick \<Rightarrow>
   (sqlite_backend, bool \<times> capacity_result) op" where
  "attempt so u rid lifetime timeout deadline t s =
     (case wait_busy_timeout (sq_eng (bk_sq s)) deadline (qt_busy_now t) of
        Inl e \<Rightarrow> (Inl e, s)
      | Inr (ms, on_busy) \<Rightarrow>
          on_engine (try_consume so (qt_env t) u rid lifetime (Some ms) on_busy
            (if timeout \<noteq> Some (Fin 0) then deadline else None)) s)"

datatype sq_turn = Granted capacity_result | Asleep pyfloat

definition sq_wait_turn ::
  "sq_callbacks \<Rightarrow> bool \<Rightarrow> scan_order \<Rightarrow> usage \<Rightarrow> pystr option \<Rightarrow> pyfloat option \<Rightarrow> pystr \<Rightarrow> pyfloat option \<Rightarrow>
   pyfloat option \<Rightarrow> sq_tick \<Rightarrow> sq_locals \<Rightarrow> (sqlite_backend, sq_turn \<times> sq_locals) op" where
  "sq_wait_turn cb installed so u rid lifetime key timeout deadline t w s =
     (case attempt so u rid lifetime timeout deadline t s of
        (Inl BackendLockContentionError, s1) \<Rightarrow>
          (bind_res (contended_turn deadline (bk_sleep_interval s1) t) (\<lambda>d. Inr (Asleep d, w)), s1)
      | (Inl e, s1) \<Rightarrow> (Inl e, s1)
      | (Inr (True, c), s1) \<Rightarrow> (Inr (Granted c, w), s1)
      | (Inr (False, c), s1) \<Rightarrow>
          op_bind (unavailable_turn cb installed u rid key deadline t c w)
            (\<lambda>(w1, d). op_return (Asleep d, w1)) s1)"

text \<open>The loop, one tick per turn; with no tick left the caller is still waiting.\<close>

fun sq_wait_loop ::
  "sq_callbacks \<Rightarrow> bool \<Rightarrow> scan_order \<Rightarrow> usage \<Rightarrow> pystr option \<Rightarrow> pyfloat option \<Rightarrow> pystr \<Rightarrow> pyfloat option \<Rightarrow>
   pyfloat option \<Rightarrow> sq_tick list \<Rightarrow> sq_locals \<Rightarrow> sqlite_backend \<Rightarrow>
   (capacity_result \<times> sq_locals) result option \<times> sqlite_backend" where
  "sq_wait_loop cb inst so u rid lifetime key timeout deadline [] w s = (None, s)"
| "sq_wait_loop cb inst so u rid lifetime key timeout deadline (t # ts) w s =
     (case sq_wait_turn cb inst so u rid lifetime key timeout deadline t w (qt_others t s) of
        (Inl e, s1) \<Rightarrow> (Some (Inl e), s1)
      | (Inr (Granted c, w1), s1) \<Rightarrow> (Some (Inr (c, w1)), s1)
      | (Inr (Asleep d, w1), s1) \<Rightarrow>
          sq_wait_loop cb inst so u rid lifetime key timeout deadline ts w1 s1)"

text \<open>
  The steps after a grant: the callbacks run without the lock, and if one raises a critical
  exception the consumption is given back before the exception propagates. A clean-up that
  fails itself is only recorded, as the second component. \<open>ge_iter\<close> is the order in which a
  frozenset of bucket ids is iterated.
\<close>

record grant_env =
  ge_consumed_at :: pyfloat
  ge_others :: "sqlite_backend \<Rightarrow> sqlite_backend"
  ge_cleanup :: txn_env
  ge_iter :: "bucket_id set \<Rightarrow> bucket_id list"

definition grant_wait_time :: "grant_env \<Rightarrow> sq_locals \<Rightarrow> pyfloat" where
  "grant_wait_time g w = fmax (Fin 0) (fsub (fsub (ge_consumed_at g)
     (or_now (ql_started_at w) (ge_consumed_at g))) (ql_overhead w))"

definition granted_events :: "usage \<Rightarrow> capacity_result \<Rightarrow> grant_env \<Rightarrow> sq_locals \<Rightarrow> sq_event list" where
  "granted_events u c g w = consumed_events u c @
     (if ql_has_waited w then [SqAfterWait (cr_pre c) (cr_post c) u (grant_wait_time g w)] else [])"

definition finish_grant ::
  "sq_callbacks \<Rightarrow> scan_order \<Rightarrow> usage \<Rightarrow> pystr option \<Rightarrow> grant_env \<Rightarrow> capacity_result \<Rightarrow> sq_locals \<Rightarrow>
   sqlite_backend \<Rightarrow> pyfloat result \<times> exn option \<times> sqlite_backend" where
  "finish_grant cb so u rid g c w s =
     (if cr_replayed c
      then (bind_res (invoke cb (map SqMissing (cr_missing c))) (\<lambda>_. Inr (cr_time c)), None, ge_others g s)
      else case invoke cb (granted_events u c g w) of
        Inr _ \<Rightarrow> (Inr (cr_time c), None, ge_others g s)
      | Inl e \<Rightarrow>
          (case on_engine (cleanup_consumption so (ge_cleanup g) u
                   (ge_iter g (sq_bucket_ids (sq_eng (bk_sq s)))) rid None) (ge_others g s) of
             (Inr _, s1) \<Rightarrow> (Inl e, None, s1)
           | (Inl e1, s1) \<Rightarrow> (Inl e, Some e1, s1)))"

definition drop_waiter :: "pystr \<Rightarrow> sqlite_backend \<Rightarrow> sqlite_backend" where
  "drop_waiter key s = s\<lparr>bk_waiters := dict_pop key (bk_waiters s)\<rparr>"

definition wait_arguments ::
  "unicode_db \<Rightarrow> raw_usage \<Rightarrow> pyval \<Rightarrow> sqlite_backend \<Rightarrow> (pyfloat option \<times> usage) result" where
  "wait_arguments udb raw timeout s =
     bind_res (fst (require_open s)) (\<lambda>_.
     bind_res (checked_usage udb raw (sq_eng (bk_sq s))) (\<lambda>_.
     bind_res (validate_timeout timeout) (\<lambda>to.
     bind_res (usage_floats raw) (\<lambda>u. Inr (to, u)))))"

text \<open>\<open>key\<close> is the random hexadecimal name of the waiter, \<open>started\<close> the clock the deadline counts from.\<close>

definition sq_wait_for_capacity ::
  "unicode_db \<Rightarrow> sq_callbacks \<Rightarrow> bool \<Rightarrow> scan_order \<Rightarrow> raw_usage \<Rightarrow> pyval \<Rightarrow> pystr option \<Rightarrow> pyfloat option \<Rightarrow>
   pystr \<Rightarrow> pyfloat \<Rightarrow> sq_tick list \<Rightarrow> grant_env \<Rightarrow> sqlite_backend \<Rightarrow>
   pyfloat result option \<times> exn option \<times> sqlite_backend" where
  "sq_wait_for_capacity udb cb inst so raw timeout rid lifetime key started ticks g s =
     (case wait_arguments udb raw timeout s of
        Inl e \<Rightarrow> (Some (Inl e), None, drop_waiter key s)
      | Inr (to, u) \<Rightarrow>
        (case sq_wait_loop cb inst so u rid lifetime key to (map_option (fadd started) to) ticks no_locals s of
           (None, s1) \<Rightarrow> (None, None, s1)
         | (Some (Inl e), s1) \<Rightarrow> (Some (Inl e), None, drop_waiter key s1)
         | (Some (Inr (c, w)), s1) \<Rightarrow>
             (case finish_grant cb so u rid g c w s1 of
                (r, f, s2) \<Rightarrow> (Some r, f, drop_waiter key s2))))"

section \<open>Refunding\<close>

text \<open>The identity of the reservation, which a refund with an id has to carry in full.\<close>

definition require_marker_metadata ::
  "pystr option \<Rightarrow> bucket_id set option \<Rightarrow> raw_usage option \<Rightarrow> (pystr \<times> bucket_id set \<times> usage) result" where
  "require_marker_metadata family ids reserved = (case (family, ids, reserved) of
      (Some f, Some b, Some raw) \<Rightarrow> bind_res (usage_floats raw) (\<lambda>u. Inr (f, b, u))
    | _ \<Rightarrow> Inl (ValueError ''reservation marker metadata is required''))"

definition refund_mismatch :: exn where
  "refund_mismatch = ValueError ''refund reserved_usage does not match the acquire marker''"

text \<open>
  A metric of the scope is in the reservation, with the reserved amount. The metrics are visited
  in sorted order, not in that of the frozenset: whichever of them is at fault, the error is the same.
\<close>

definition scope_metric :: "usage \<Rightarrow> usage \<Rightarrow> pystr \<Rightarrow> unit \<Rightarrow> unit result" where
  "scope_metric reserved marker_reserved m _ = (case map_of marker_reserved m of
      None \<Rightarrow> Inl refund_mismatch
    | Some b \<Rightarrow> (case map_of reserved m of
        None \<Rightarrow> Inl KeyError
      | Some a \<Rightarrow> guard (feq a b) refund_mismatch))"

definition validate_marker_refund_scope ::
  "usage \<Rightarrow> bucket_id set \<Rightarrow> bucket_id set \<Rightarrow> usage \<Rightarrow> unit result" where
  "validate_marker_refund_scope reserved ids marker_ids marker_reserved =
     bind_res (guard (ids \<subseteq> marker_ids) (ValueError ''refund bucket_ids do not match the acquire marker''))
       (\<lambda>_. for_each (sorted_list_of_set (fst ` ids)) (scope_metric reserved marker_reserved) ())"

record marker_args =
  ma_model_family :: "pystr option"
  ma_bucket_ids :: "bucket_id set option"
  ma_reserved_usage :: "raw_usage option"

text \<open>The checks of a refund before its transaction: the usages and the identity to verify.\<close>

definition refund_arguments ::
  "unicode_db \<Rightarrow> raw_usage \<Rightarrow> raw_usage \<Rightarrow> bucket_id set \<Rightarrow> bucket_id set \<Rightarrow> pystr option \<Rightarrow> marker_args \<Rightarrow>
   (usage \<times> usage \<times> refund_identity) result" where
  "refund_arguments udb reserved actual ids backend_ids rid a =
     bind_res (validate_backend_refund_usage_for_bucket_ids udb reserved actual ids backend_ids) (\<lambda>_.
     bind_res (usage_floats reserved) (\<lambda>r.
     bind_res (usage_floats actual) (\<lambda>u.
       if rid = None
       then Inr (r, u, \<lparr>ri_model_family = None, ri_bucket_ids = None, ri_reserved_usage = None\<rparr>)
       else bind_res (require_marker_metadata (ma_model_family a) (ma_bucket_ids a) (ma_reserved_usage a))
         (\<lambda>(f, b, mu). bind_res (validate_marker_refund_scope r ids b mu) (\<lambda>_.
           Inr (r, u, \<lparr>ri_model_family = Some f, ri_bucket_ids = Some b, ri_reserved_usage = Some mu\<rparr>))))))"

text \<open>\<open>iter\<close> is the order in which a frozenset of bucket ids is iterated.\<close>

definition sq_refund_capacity_for_buckets ::
  "unicode_db \<Rightarrow> sq_callbacks \<Rightarrow> scan_order \<Rightarrow> (bucket_id set \<Rightarrow> bucket_id list) \<Rightarrow> txn_env \<Rightarrow> raw_usage \<Rightarrow>
   raw_usage \<Rightarrow> bucket_id set option \<Rightarrow> pystr option \<Rightarrow> marker_args \<Rightarrow> (sqlite_backend, bool) op" where
  "sq_refund_capacity_for_buckets udb cb so iter env reserved actual bids rid a =
     op_bind require_open (\<lambda>_.
     op_bind (op_gets (\<lambda>s. sq_bucket_ids (sq_eng (bk_sq s)))) (\<lambda>backend_ids.
       let ids = (case bids of None \<Rightarrow> backend_ids | Some b \<Rightarrow> b) in
       op_bind (op_lift (refund_arguments udb reserved actual ids backend_ids rid a)) (\<lambda>(r, u, idn).
         if ids = {} \<and> rid = None then op_return True
         else op_bind (on_engine (refund so env r u (iter ids) rid idn None)) (\<lambda>x.
              op_bind (op_lift (invoke cb (map SqMissing (rr_missing x)
                @ [SqRefunded r u (rr_refunded x) (rr_pre x) (rr_post x)]))) (\<lambda>_. op_return True)))))"

definition no_marker :: marker_args where
  "no_marker = \<lparr>ma_model_family = None, ma_bucket_ids = None, ma_reserved_usage = None\<rparr>"

definition sq_refund_capacity ::
  "unicode_db \<Rightarrow> sq_callbacks \<Rightarrow> scan_order \<Rightarrow> (bucket_id set \<Rightarrow> bucket_id list) \<Rightarrow> txn_env \<Rightarrow> raw_usage \<Rightarrow>
   raw_usage \<Rightarrow> (sqlite_backend, unit) op" where
  "sq_refund_capacity udb cb so iter env reserved actual s =
     op_bind (sq_refund_capacity_for_buckets udb cb so iter env reserved actual
                (Some (sq_bucket_ids (sq_eng (bk_sq s)))) None no_marker) (\<lambda>_. op_return ()) s"

section \<open>Changing limits\<close>

definition backend_set_max_capacity ::
  "scan_order \<Rightarrow> txn_env \<Rightarrow> bucket_id \<Rightarrow> pyval \<Rightarrow> (sqlite_backend, unit) op" where
  "backend_set_max_capacity so env k value =
     op_bind require_open (\<lambda>_.
     op_bind (op_lift (validate_max_capacity_finite_positive value)) (\<lambda>v.
       on_engine (sq_set_max_capacity so env k (VFloat v) None)))"

definition backend_apply_configured_max_capacity ::
  "scan_order \<Rightarrow> txn_env \<Rightarrow> bucket_id \<Rightarrow> pyval \<Rightarrow> (sqlite_backend, unit) op" where
  "backend_apply_configured_max_capacity so env k value =
     op_bind require_open (\<lambda>_.
     op_bind (op_lift (validate_max_capacity_finite_positive value)) (\<lambda>v.
       on_engine (sq_apply_configured_max_capacity so env k (VFloat v) None)))"

text \<open>
  Reconfiguration into a freshly built backend on the same file: the state is the pair of the
  two backends. Overrides of removed buckets and of buckets whose limit changes are cleared in
  the database, which the new backend shares; proofs of written state are handed over.
\<close>

definition limit_changed :: "sq_engine \<Rightarrow> quota \<Rightarrow> bool" where
  "limit_changed en q \<longleftrightarrow> (case sq_configured_max_capacity en (q_metric q, q_per_seconds q) of
      Inl _ \<Rightarrow> False
    | Inr old \<Rightarrow> \<not> isclose (flit (1 / 1000000000000)) old (q_limit q))"

definition changed_ids :: "sq_engine \<Rightarrow> quota list \<Rightarrow> bucket_id set" where
  "changed_ids en quotas = (\<lambda>q. (q_metric q, q_per_seconds q)) `
     set (filter (\<lambda>q. (q_metric q, q_per_seconds q) \<in> sq_bucket_ids en \<and> limit_changed en q) quotas)"

definition configured_limits :: "quota list \<Rightarrow> capacities" where
  "configured_limits quotas = fold (\<lambda>q d. dict_set (q_metric q, q_per_seconds q) (q_limit q) d) quotas []"

definition share_db :: "sqlite_backend \<Rightarrow> sqlite_backend \<Rightarrow> sqlite_backend" where
  "share_db old new = new\<lparr>bk_sq := (bk_sq new)\<lparr>sq_db := sq_db (bk_sq old)\<rparr>\<rparr>"

definition sq_prepare_reconfigured_backend ::
  "scan_order \<Rightarrow> (bucket_id set \<Rightarrow> bucket_id list) \<Rightarrow> txn_env \<Rightarrow> per_model_config \<Rightarrow>
   (sqlite_backend \<times> sqlite_backend, unit) op" where
  "sq_prepare_reconfigured_backend so iter env cfg ss =
     (case ss of (old, new) \<Rightarrow>
      let en = sq_eng (bk_sq old); en' = sq_eng (bk_sq new); quotas = uq_iter (cfg_quotas cfg) in
      if en_db_path en \<noteq> en_db_path en' \<or> en_key_prefix en \<noteq> en_key_prefix en'
      then (Inl (ValueError ''SQLite reconfiguration requires the same db_path and key_prefix''), ss)
      else (case on_engine (clear_max_capacity_overrides so env
                  (iter ((sq_bucket_ids en - sq_bucket_ids en') \<union> changed_ids en quotas))
                  (configured_limits quotas) None) old of
          (Inl e, old1) \<Rightarrow> (Inl e, old1, share_db old1 new)
        | (Inr _, old1) \<Rightarrow>
            (case inherit_state_confirmations (sq_eng (bk_sq old1)) en' of
               Inl e \<Rightarrow> (Inl e, old1, share_db old1 new)
             | Inr en2 \<Rightarrow> (Inr (), close_backend old1,
                 share_db old1 (new\<lparr>bk_sq := (bk_sq new)\<lparr>sq_eng := en2\<rparr>\<rparr>)))))"

section \<open>Introspection\<close>

definition snapshot_status :: "bucket_snapshot \<Rightarrow> string" where
  "snapshot_status sn = (case sn_missing sn of
      Some e \<Rightarrow>
        if me_reason e = ''state_loss_drained''
        then (if length (me_missing_fields e) = 1 then ''partial_missing'' else ''state_loss'')
        else if sn_fresh sn then ''fresh_start'' else ''ok''
    | None \<Rightarrow> if sn_fresh sn then ''fresh_start'' else ''ok'')"

definition snapshot_diagnostic ::
  "pystr \<Rightarrow> pyfloat \<Rightarrow> bucket_snapshot \<Rightarrow> bucket_diagnostic list \<Rightarrow> bucket_diagnostic list result" where
  "snapshot_diagnostic family as_of sn acc =
     bind_res (make_bucket_diagnostic family (spec_id (sn_spec sn)) (Some (sn_current_capacity sn))
         (sp_configured_max (sn_spec sn)) (sn_effective_max sn)
         (if sn_override_active sn then OverrideBackend else OverrideNone) (snapshot_status sn) as_of)
       (\<lambda>b. Inr (acc @ [b]))"

record backend_introspection =
  bi_model_family :: pystr
  bi_as_of :: pyfloat
  bi_buckets :: "bucket_diagnostic list"
  bi_waits :: "waiter_diagnostic list"
  bi_acquire_markers :: nat
  bi_refund_tombstones :: nat

definition sq_introspect :: "pyfloat \<Rightarrow> txn_env \<Rightarrow> (sqlite_backend, backend_introspection) op" where
  "sq_introspect as_of env =
     op_bind require_open (\<lambda>_.
     op_bind (on_engine (inspect_snapshot env None)) (\<lambda>(snapshots, counts).
     op_bind (op_gets (\<lambda>s. en_model_family (sq_eng (bk_sq s)))) (\<lambda>family.
     op_bind (op_lift (for_each snapshots (snapshot_diagnostic family as_of) [])) (\<lambda>buckets.
     op_bind (op_gets bk_waiters) (\<lambda>waiters.
       op_return \<lparr>bi_model_family = family, bi_as_of = as_of, bi_buckets = buckets,
         bi_waits = map (\<lambda>w. waiter_diagnostic_from_state w as_of)
           (sort_key (\<lambda>w. (float_key (ws_started w), ws_waiter_id w)) (map snd waiters)),
         bi_acquire_markers = n_markers counts, bi_refund_tombstones = n_tombstones counts\<rparr>)))))"

end
