(* ===== verification/SqliteWait.thy ===== *)
theory SqliteWait
  imports SqliteBackend SqliteProgress
begin

text \<open>
  What the turns of \<open>sq_wait_for_capacity\<close> can do: a turn touches the database only through
  its one transaction, a turn that sleeps was before its deadline, and a wait that fails has
  left neither a marker nor a waiter.
\<close>

section \<open>One turn\<close>

lemma on_engine_Inl: "on_engine m s = (Inl e, s1) \<Longrightarrow> \<exists>t. m (bk_sq s) = (Inl e, t) \<and> s1 = s\<lparr>bk_sq := t\<rparr>"
  by (auto simp: on_engine_def split: prod.splits)

lemma on_engine_Inr: "on_engine m s = (Inr x, s1) \<longleftrightarrow> (\<exists>t. m (bk_sq s) = (Inr x, t) \<and> s1 = s\<lparr>bk_sq := t\<rparr>)"
  by (auto simp: on_engine_def split: prod.splits)

lemma upsert_engine:
  "sq_upsert_diagnostic_waiter key rid u c deadline st now s = (x, t) \<Longrightarrow> bk_sq t = bk_sq s"
  by (auto simp: sq_upsert_diagnostic_waiter_def Let_def split: sum.splits)

text \<open>An unavailable turn only registers the waiter, and it sleeps only before its deadline.\<close>

lemma unavailable_turn_effect:
  assumes "unavailable_turn cb inst u rid key deadline t c w s = (x, s1)"
  shows "bk_sq s1 = bk_sq s \<and> (\<forall>y. x = Inr y \<longrightarrow> \<not> past deadline (qt_deadline_check t) \<and>
           fle (flit (1 / 1000)) (snd y))"
proof -
  have ms: "flit (1 / 1000) \<noteq> NaN" by (simp add: rnd_def Let_def)
  have "fle (flit (1 / 1000)) (until_deadline deadline now d)" for now d
    using ms fle_refl by (auto simp: until_deadline_def fmax_def fle_def)
  then show ?thesis
    using assms upsert_engine
    by (auto simp: unavailable_turn_def Let_def op_bind_def op_simps split: prod.splits sum.splits)
qed


text \<open>The engine keeps its buckets and its place in the store, and overrides keep real expiries.\<close>

definition store_kept :: "sq_state \<Rightarrow> sq_state \<Rightarrow> bool" where
  "store_kept s t \<longleftrightarrow> en_buckets (sq_eng t) = en_buckets (sq_eng s) \<and>
     en_bucket_by_id (sq_eng t) = en_bucket_by_id (sq_eng s) \<and> en_key_prefix (sq_eng t) = en_key_prefix (sq_eng s) \<and>
     en_model_family (sq_eng t) = en_model_family (sq_eng s) \<and> real_kept s t"

lemma store_refl [simp]: "store_kept s s"
  by (simp add: store_kept_def real_kept_def)

lemma store_trans: "store_kept s t \<Longrightarrow> store_kept t u \<Longrightarrow> store_kept s u"
  by (simp add: store_kept_def real_kept_def)

lemma store_wf: "store_kept s t \<Longrightarrow> engine_wf (sq_eng t) = engine_wf (sq_eng s)"
  by (simp add: store_kept_def engine_wf_def)

lemma store_real: "store_kept s t \<Longrightarrow> real_db (sq_db s) \<Longrightarrow> real_db (sq_db t)"
  by (simp add: store_kept_def real_kept_def)

lemma transaction_store:
  assumes "transaction env b tob dl body s = (x, t)"
    and "\<And>s x t. body (ev_now env) s = (x, t) \<Longrightarrow> evidence_kept s t \<and> real_kept s t"
  shows "store_kept s t"
proof (cases x)
  case (Inl e)
  have u: "evidence_kept (with_pragma ms s) t0" if "body (ev_now env) (with_pragma ms s) = (y, t0)" for ms y t0
    using assms(2) [OF that] by blast
  have "sq_db t = sq_db s" using transaction_Inl assms(1) Inl by (fastforce simp: untouched_def)
  then have "real_kept s t" by (simp add: real_kept_def)
  then show ?thesis using assms(1) Inl u
    by (auto simp: transaction_def Let_def store_kept_def roll_back_def clear_pending_def evidence_kept_def
        with_pragma_def split: sum.splits option.splits prod.splits)
next
  case (Inr v)
  from transaction_Inr [OF assms(1) [unfolded Inr]] obtain ms t0 where
    "body (ev_now env) (with_pragma ms s) = (Inr v, t0)" "t = clear_pending (confirm_pending t0)" by blast
  then show ?thesis using assms(2)
    by (fastforce simp: store_kept_def evidence_kept_def real_kept_def clear_pending_def confirm_pending_def with_pragma_def)
qed

lemma try_consume_store: "try_consume so env u rid lifetime b tob dl s = (x, t) \<Longrightarrow> store_kept s t"
  unfolding try_consume_def
  by (erule transaction_store) (blast intro: evidence.kept_try_consume real.kept_try_consume)

lemma cleanup_store: "cleanup_consumption so env u ids rid b s = (x, t) \<Longrightarrow> store_kept s t"
  unfolding cleanup_consumption_def
  by (erule transaction_store) (blast intro: evidence.kept_cleanup real.kept_cleanup)

text \<open>An attempt for an id without a marker leaves none unless it is granted, and is no replay.\<close>

lemma try_consume_marker:
  assumes "try_consume so env u (Some i) lifetime b tob dl s = (x, t)"
    and "engine_wf (sq_eng s)" "real_db (sq_db s)" "ev_now env \<noteq> NaN" "read_marker i s = None"
  shows "((\<forall>c. x \<noteq> Inr (True, c)) \<longrightarrow> read_marker i t = None) \<and> (\<forall>c. x = Inr (True, c) \<longrightarrow> \<not> cr_replayed c)"
proof (cases x)
  case (Inl e)
  then have "sq_db t = sq_db s"
    using transaction_Inl assms(1) by (fastforce simp: try_consume_def untouched_def)
  moreover have key: "res_key (sq_eng t) i = res_key (sq_eng s) i"
    using try_consume_store [OF assms(1)] by (simp add: store_kept_def res_key_def)
  ultimately show ?thesis using assms(5) Inl by (simp add: read_marker_def)
next
  case (Inr y)
  obtain granted c where y: "y = (granted, c)" by (cases y)
  from transaction_Inr [OF assms(1) [unfolded Inr y try_consume_def]] obtain ms t0 where
    body: "try_consume_body so u (Some i) lifetime (ev_now env) (with_pragma ms s) = (Inr (granted, c), t0)"
    and t: "t = clear_pending (confirm_pending t0)" by blast
  have "live_marker (ev_now env) i s = None" using assms(5) by (simp add: live_marker_def live_at_def)
  then have "acquire_class (ev_now env) (Some i) u s \<noteq> Inr True"
    by (simp add: acquire_class_def split: if_splits option.splits)
  then have fresh: "granted \<Longrightarrow> \<not> cr_replayed c" and idle: "\<not> granted \<Longrightarrow> gc (ev_now env) (sq_db s) (sq_db t)"
    using try_consume_body_cases [OF body] assms(2-4) t by (auto simp: mk_capacity_result_def acquire_idle_def)
  have key: "res_key (sq_eng t) i = res_key (sq_eng s) i"
    using try_consume_store [OF assms(1)] by (simp add: store_kept_def res_key_def)
  show ?thesis
  proof (cases granted)
    case True
    then show ?thesis using fresh Inr y by simp
  next
    case False
    let ?k = "res_key (sq_eng s) i"
    have "gone mk_expires_at (ev_now env) (map_of (db_markers (sq_db s)) ?k) (map_of (db_markers (sq_db t)) ?k)"
      using idle [OF False] unfolding gc_def by blast
    moreover have "map_of (db_markers (sq_db s)) ?k = None" using assms(5) by (simp add: read_marker_def)
    ultimately have "map_of (db_markers (sq_db t)) ?k = None" by (auto simp: gone_def)
    then show ?thesis using key False Inr y by (simp add: read_marker_def)
  qed
qed

section \<open>The whole loop\<close>

text \<open>
  What others may do between the turns of a wait for the reservation \<open>i\<close>: anything that keeps
  the engine's place in the store and does not write a marker of \<open>i\<close>.
\<close>

definition tick_ok :: "pystr \<Rightarrow> sq_tick \<Rightarrow> bool" where
  "tick_ok i t \<longleftrightarrow> ev_now (qt_env t) \<noteq> NaN \<and> (\<forall>b. store_kept (bk_sq b) (bk_sq (qt_others t b)) \<and>
     (read_marker i (bk_sq b) = None \<longrightarrow> read_marker i (bk_sq (qt_others t b)) = None))"

lemma attempt_cases:
  assumes "attempt so u rid lifetime timeout dl t s = (x, s1)"
  obtains e where "x = Inl e" "s1 = s"
  | ms tob dl' q where "try_consume so (qt_env t) u rid lifetime (Some ms) tob dl' (bk_sq s) = (x, q)"
      "s1 = s\<lparr>bk_sq := q\<rparr>"
proof (cases "wait_busy_timeout (sq_eng (bk_sq s)) dl (qt_busy_now t)")
  case (Inl e)
  with assms have "x = Inl e" "s1 = s" by (simp_all add: attempt_def)
  then show ?thesis by (rule that(1))
next
  case (Inr p)
  obtain ms tob where p: "p = (ms, tob)" by (cases p)
  let ?dl = "if timeout \<noteq> Some (Fin 0) then dl else None"
  obtain y q where run: "try_consume so (qt_env t) u rid lifetime (Some ms) tob ?dl (bk_sq s) = (y, q)"
    by (cases "try_consume so (qt_env t) u rid lifetime (Some ms) tob ?dl (bk_sq s)")
  have "x = y" "s1 = s\<lparr>bk_sq := q\<rparr>" using assms Inr p run by (simp_all add: attempt_def on_engine_def)
  then show ?thesis using run that(2) by blast
qed

lemma attempt_marker:
  assumes "attempt so u (Some i) lifetime timeout dl t s = (x, s1)"
    and "engine_wf (sq_eng (bk_sq s))" "real_db (sq_db (bk_sq s))" "ev_now (qt_env t) \<noteq> NaN"
    and "read_marker i (bk_sq s) = None"
  shows "store_kept (bk_sq s) (bk_sq s1) \<and>
    ((\<forall>c. x \<noteq> Inr (True, c)) \<longrightarrow> read_marker i (bk_sq s1) = None) \<and> (\<forall>c. x = Inr (True, c) \<longrightarrow> \<not> cr_replayed c)"
  using assms(1)
proof (cases rule: attempt_cases)
  case 1
  then show ?thesis using assms(5) by simp
next
  case (2 ms tob dl' q)
  show ?thesis using try_consume_marker [OF 2(1) assms(2-5)] try_consume_store [OF 2(1)] 2(2) by simp
qed

text \<open>A turn in terms of its attempt.\<close>

lemma turn_cases:
  assumes "sq_wait_turn cb inst so u rid lifetime key timeout dl t w s = (r, s1)"
  obtains x q where "attempt so u rid lifetime timeout dl t s = (x, q)" "bk_sq s1 = bk_sq q"
    "\<And>c w1. r = Inr (Granted c, w1) \<Longrightarrow> x = Inr (True, c)"
    "(\<forall>c w1. r \<noteq> Inr (Granted c, w1)) \<Longrightarrow> \<forall>c. x \<noteq> Inr (True, c)"
    "\<And>d w1. r = Inr (Asleep d, w1) \<Longrightarrow> fle (flit (1 / 1000)) d \<and>
       (\<not> past dl (qt_contention_now t) \<or> \<not> past dl (qt_deadline_check t))"
proof -
  obtain x q where a: "attempt so u rid lifetime timeout dl t s = (x, q)"
    by (cases "attempt so u rid lifetime timeout dl t s")
  have ms: "fle (flit (1 / 1000)) (until_deadline deadline now d)" for deadline now d
    using fle_refl by (auto simp: until_deadline_def fmax_def fle_def rnd_def Let_def)
  consider (busy) "x = Inl BackendLockContentionError" | (fail) e where "x = Inl e" "e \<noteq> BackendLockContentionError"
    | (grant) c where "x = Inr (True, c)" | (wait) c where "x = Inr (False, c)"
    by (metis (full_types) sum.exhaust prod.exhaust)
  then show ?thesis
  proof cases
    case busy
    then show ?thesis using assms a ms
      by (intro that [OF a]) (auto simp: sq_wait_turn_def contended_turn_def bind_res_Inr_iff split: if_splits)
  next
    case fail
    then show ?thesis using assms a
      by (intro that [OF a]) (auto simp: sq_wait_turn_def split: exn.splits)
  next
    case grant
    then show ?thesis using assms a by (intro that [OF a]) (auto simp: sq_wait_turn_def)
  next
    case (wait c)
    obtain y s2 where y: "unavailable_turn cb inst u rid key dl t c w q = (y, s2)"
      by (cases "unavailable_turn cb inst u rid key dl t c w q")
    show ?thesis using assms a wait unavailable_turn_effect [OF y] y
      by (intro that [OF a])
         (auto simp: sq_wait_turn_def op_bind_def op_simps split: sum.splits prod.splits)
  qed
qed

text \<open>
  A wait that does not end in a grant leaves no marker of its reservation; a grant is no replay.
\<close>

lemma wait_loop_marker:
  assumes "sq_wait_loop cb inst so u (Some i) lifetime key timeout dl ts w s = (r, s1)"
    and "\<And>t. t \<in> set ts \<Longrightarrow> tick_ok i t"
    and "engine_wf (sq_eng (bk_sq s))" "real_db (sq_db (bk_sq s))" "read_marker i (bk_sq s) = None"
  shows "store_kept (bk_sq s) (bk_sq s1) \<and> (\<forall>e. r = Some (Inl e) \<longrightarrow> read_marker i (bk_sq s1) = None) \<and>
    (\<forall>c w1. r = Some (Inr (c, w1)) \<longrightarrow> \<not> cr_replayed c)"
  using assms
proof (induction ts arbitrary: w s)
  case Nil
  then show ?case by simp
next
  case (Cons t ts)
  let ?s = "qt_others t s"
  obtain y s2 where turn: "sq_wait_turn cb inst so u (Some i) lifetime key timeout dl t w ?s = (y, s2)"
    by (cases "sq_wait_turn cb inst so u (Some i) lifetime key timeout dl t w ?s")
  have ok: "tick_ok i t" using Cons.prems(2) by simp
  then have st: "store_kept (bk_sq s) (bk_sq ?s)" and nm: "read_marker i (bk_sq ?s) = None"
    and now: "ev_now (qt_env t) \<noteq> NaN" using Cons.prems(5) by (auto simp: tick_ok_def)
  have wf: "engine_wf (sq_eng (bk_sq ?s))" "real_db (sq_db (bk_sq ?s))"
    using store_wf [OF st] store_real [OF st] Cons.prems(3,4) by simp_all
  from turn_cases [OF turn] obtain x q where x: "attempt so u (Some i) lifetime timeout dl t ?s = (x, q)"
    "bk_sq s2 = bk_sq q" "\<And>c w1. y = Inr (Granted c, w1) \<Longrightarrow> x = Inr (True, c)"
    "(\<forall>c w1. y \<noteq> Inr (Granted c, w1)) \<Longrightarrow> \<forall>c. x \<noteq> Inr (True, c)" by metis
  note m = attempt_marker [OF x(1) wf now nm, folded x(2)]
  have st2: "store_kept (bk_sq s) (bk_sq s2)" using st m store_trans by blast
  consider (raise) e where "y = Inl e" | (grant) c w1 where "y = Inr (Granted c, w1)"
    | (sleep) d w1 where "y = Inr (Asleep d, w1)"
    by (metis sum.exhaust prod.exhaust sq_turn.exhaust)
  then show ?case
  proof cases
    case raise
    then have "s1 = s2" "r = Some (Inl e)" using Cons.prems(1) turn by simp_all
    moreover have "\<forall>c. x \<noteq> Inr (True, c)" using x(4) raise by simp
    ultimately show ?thesis using st2 m by simp
  next
    case grant
    then have "s1 = s2" "r = Some (Inr (c, w1))" using Cons.prems(1) turn by simp_all
    moreover have "\<not> cr_replayed c" using x(3) [OF grant] m by simp
    ultimately show ?thesis using st2 by simp
  next
    case sleep
    then have run: "sq_wait_loop cb inst so u (Some i) lifetime key timeout dl ts w1 s2 = (r, s1)"
      using Cons.prems(1) turn by simp
    have "read_marker i (bk_sq s2) = None" using x(4) sleep m by simp
    moreover have "engine_wf (sq_eng (bk_sq s2))" "real_db (sq_db (bk_sq s2))"
      using store_wf [OF st2] store_real [OF st2] Cons.prems(3,4) by simp_all
    ultimately have "store_kept (bk_sq s2) (bk_sq s1) \<and> (\<forall>e. r = Some (Inl e) \<longrightarrow> read_marker i (bk_sq s1) = None) \<and>
        (\<forall>c w1. r = Some (Inr (c, w1)) \<longrightarrow> \<not> cr_replayed c)"
      using Cons.IH [OF run] Cons.prems(2) by simp
    then show ?thesis using st2 store_trans by blast
  qed
qed

section \<open>Deadlines\<close>

text \<open>
  Every turn reads the clock at least a millisecond after the turn before it, because it
  slept that long in between; \<open>m\<close> is what the clock shows when the first turn starts.
\<close>

fun paced :: "rat \<Rightarrow> sq_tick list \<Rightarrow> bool" where
  "paced m [] = True"
| "paced m (t # ts) \<longleftrightarrow> fle (Fin m) (qt_contention_now t) \<and> fle (Fin m) (qt_deadline_check t) \<and>
     paced (m + 1 / 1000) ts"

lemma wait_loop_ends:
  assumes "paced m ts" "ts \<noteq> []" "d \<le> m + of_nat (length ts - 1) / 1000"
  shows "fst (sq_wait_loop cb inst so u rid lifetime key timeout (Some (Fin d)) ts w s) \<noteq> None"
  using assms
proof (induction ts arbitrary: m w s)
  case (Cons t ts)
  obtain y s2 where turn: "sq_wait_turn cb inst so u rid lifetime key timeout (Some (Fin d)) t w (qt_others t s) = (y, s2)"
    by (cases "sq_wait_turn cb inst so u rid lifetime key timeout (Some (Fin d)) t w (qt_others t s)")
  show ?case
  proof (cases "\<exists>e w1. y = Inr (Asleep e, w1)")
    case False
    then consider e where "y = Inl e" | c w1 where "y = Inr (Granted c, w1)"
      by (metis sum.exhaust prod.exhaust sq_turn.exhaust)
    then show ?thesis using turn by cases simp_all
  next
    case True
    then obtain e w1 where y: "y = Inr (Asleep e, w1)" by blast
    from turn_cases [OF turn] y have early: "\<not> past (Some (Fin d)) (qt_contention_now t) \<or>
        \<not> past (Some (Fin d)) (qt_deadline_check t)" by metis
    have late: "m < d"
    proof (rule ccontr)
      assume "\<not> m < d"
      then have dm: "fle (Fin d) (Fin m)" by simp
      then have "fle (Fin d) (qt_contention_now t)" "fle (Fin d) (qt_deadline_check t)"
        using fle_trans [OF dm] Cons.prems(1) by simp_all
      then show False using early by (simp add: past_def)
    qed
    have ne: "ts \<noteq> []" using Cons.prems(3) late by auto
    then have "of_nat (length (t # ts) - 1) / 1000 = 1 / 1000 + (of_nat (length ts - 1) / 1000 :: rat)"
      by (cases ts) (simp_all add: add_divide_distrib)
    then have "d \<le> m + 1 / 1000 + of_nat (length ts - 1) / 1000" using Cons.prems(3) by linarith
    with Cons.prems(1) ne have "fst (sq_wait_loop cb inst so u rid lifetime key timeout (Some (Fin d)) ts w1 s2) \<noteq> None"
      by (intro Cons.IH) simp_all
    then show ?thesis using turn y by simp
  qed
qed simp

section \<open>After the grant\<close>

lemma cleanup_run:
  assumes "cleanup_consumption so env u ids rid b s = (Inr v, t)"
    and "engine_wf (sq_eng s)" "real_db (sq_db s)" "ev_now env \<noteq> NaN" "distinct ids"
  obtains sts where "engine_view (ev_now env) s = Inr sts"
    "rows_hold (ev_now env) (sq_eng s) (cleanup_capacities sts u ids) t"
    "\<And>i. rid = Some i \<Longrightarrow> read_marker i t = None"
proof -
  from transaction_Inr [OF assms(1) [unfolded cleanup_consumption_def]] obtain ms t0 where
    body: "cleanup_body so u ids rid (ev_now env) (with_pragma ms s) = (Inr v, t0)"
    and t: "t = clear_pending (confirm_pending t0)" by blast
  from cleanup_body_cases [OF body] assms(2-5) obtain sts where
    view: "engine_view (ev_now env) s = Inr sts"
    and books: "cleaned_books (ev_now env) rid (sq_eng s) (sq_db s) (sq_db t0)"
    and rows: "rows_hold (ev_now env) (sq_eng s) (cleanup_capacities sts u ids) t" using t by auto
  have "res_key (sq_eng t) i = res_key (sq_eng s) i" for i
    using cleanup_store [OF assms(1)] by (simp add: store_kept_def res_key_def)
  then have "read_marker i t = None" if "rid = Some i" for i
    using books t that by (auto simp: cleaned_books_def read_marker_def)
  then show ?thesis using that view rows by blast
qed

lemma finish_grant_raises:
  assumes "finish_grant cb so u rid g c w s = (Inl e, None, s1)" "\<not> cr_replayed c"
  obtains q where "cleanup_consumption so (ge_cleanup g) u (ge_iter g (sq_bucket_ids (sq_eng (bk_sq s)))) rid None
      (bk_sq (ge_others g s)) = (Inr (), q)" "bk_sq s1 = q"
  using assms by (auto simp: finish_grant_def on_engine_def split: sum.splits prod.splits)

lemma on_engine_waiters: "on_engine m s = (r, t) \<Longrightarrow> bk_waiters t = bk_waiters s"
  by (auto simp: on_engine_def split: prod.splits)

lemma drop_waiter_fields [simp]:
  "bk_sq (drop_waiter key s) = bk_sq s" "key \<notin> set (dict_keys (bk_waiters (drop_waiter key s)))"
  by (auto simp: drop_waiter_def dict_pop_def dict_keys_def)

end
