(* ===== verification/SqliteBackendCorrect.thy ===== *)
theory SqliteBackendCorrect
  imports CoreCorrect SqliteDemo SqliteWait
begin

text \<open>
  Properties of the SQLite backend: what \<open>build\<close> guarantees of the engine, when a wait ends and
  what it leaves behind, which refunds are let through, and what reconfiguration does.
\<close>

section \<open>The built backend\<close>

lemma builder_engine_wf:
  assumes "distinct (map quota_bucket_id quotas)"
  shows "engine_wf (builder_engine b family quotas)"
proof -
  let ?specs = "map spec_of_quota quotas"
  have ids: "map spec_id ?specs = map quota_bucket_id quotas"
    by (simp add: spec_id_def spec_of_quota_def quota_bucket_id_def)
  then have d: "distinct (map spec_id ?specs)" using assms by metis
  have "map_of (fold (\<lambda>sp d. dict_set (spec_id sp) sp d) sps d) k =
      (map_of d ++ map_of (map (\<lambda>sp. (spec_id sp, sp)) sps)) k"
    if "distinct (map spec_id sps)" for sps d k
    using that
  proof (induction sps arbitrary: d)
    case (Cons sp sps)
    have "map_of (map (\<lambda>sp. (spec_id sp, sp)) sps) (spec_id sp) = None"
      using Cons.prems by (auto simp: map_of_eq_None_iff image_iff)
    then show ?case using Cons by (auto simp: map_add_def split: option.split)
  qed simp
  from this [OF d, of "[]"] d show ?thesis
    unfolding engine_wf_def builder_engine_def mk_engine_def by (simp del: map_map)
qed

lemma engine_wf_bucket_ids: "engine_wf en \<Longrightarrow> sq_bucket_ids en = engine_ids en"
proof (rule set_eqI)
  fix k assume "engine_wf en"
  then have "map_of (en_bucket_by_id en) k = map_of (map (\<lambda>sp. (spec_id sp, sp)) (en_buckets en)) k"
    unfolding engine_wf_def by blast
  moreover have "k \<in> sq_bucket_ids en \<longleftrightarrow> map_of (en_bucket_by_id en) k \<noteq> None"
    by (simp add: sq_bucket_ids_def dict_keys_def map_of_eq_None_iff)
  moreover have "k \<in> engine_ids en \<longleftrightarrow> map_of (map (\<lambda>sp. (spec_id sp, sp)) (en_buckets en)) k \<noteq> None"
    by (simp add: map_of_eq_None_iff image_image)
  ultimately show "k \<in> sq_bucket_ids en \<longleftrightarrow> k \<in> engine_ids en" by simp
qed

lemma open_engine_store: "open_engine so oe s = (r, t) \<Longrightarrow> store_kept s t"
proof -
  assume run: "open_engine so oe s = (r, t)"
  have init: "store_kept u v" if "initialize_buckets so env b u = (x, v)" for env b u x v
    using that unfolding initialize_buckets_def
    by (rule transaction_store) (blast intro: evidence.kept_initialize real.kept_initialize)
  have schema: "store_kept u v" if "initialize_schema env b u = (x, v)" for env b u x v
    using that unfolding initialize_schema_def
  proof (rule transaction_store)
    fix a y c assume "(case db_schema_version (sq_db a) of
        None \<Rightarrow> (Inr (), modify_db (\<lambda>db. db\<lparr>db_schema_version := Some SCHEMA_VERSION\<rparr>) a)
      | Some v \<Rightarrow>
        if v = LEGACY_SCHEMA_VERSION_WITHOUT_OVERRIDE_ANCHOR
        then (Inr (), modify_db (\<lambda>db. db\<lparr>db_schema_version := Some SCHEMA_VERSION,
               db_buckets := map (\<lambda>(k, r). (k, r\<lparr>row_override_configured_max := None\<rparr>)) (db_buckets db)\<rparr>) a)
        else if v \<noteq> SCHEMA_VERSION
        then (Inl (RuntimeError ''Unsupported token-throttle SQLite schema version''), a)
        else (Inr (), a)) = (y, c)"
    moreover have "map_of (map (\<lambda>(k, r). (k, r\<lparr>row_override_configured_max := None\<rparr>)) d) k =
        map_option (\<lambda>r. r\<lparr>row_override_configured_max := None\<rparr>) (map_of d k)" for d :: "(bucket_key, bucket_row) dict" and k
      by (induction d) auto
    ultimately show "evidence_kept a c \<and> real_kept a c"
      by (auto simp: evidence_kept_def real_kept_def real_db_def split: option.splits if_splits)
  qed
  show "store_kept s t"
    using run schema init store_trans
    by (auto simp: open_engine_def Let_def op_bind_def split: option.splits sum.splits prod.splits) blast+
qed


text \<open>
  C29. A backend that was built has a well-formed engine: its buckets are those of the quotas of the
  configuration it was given, as revalidated, one each, in their order and with their limits. It
  keeps every bucket row for at least two of its windows, and is open.
\<close>

theorem sqlite_build_wf:
  assumes "build_sqlite_backend udb pyd b cfg so oe db = (Some (Inr s), db')"
    and "unicode_ok udb" "pydantic_ok pyd" "real_db db"
  shows "engine_wf (sq_eng (bk_sq s)) \<and> real_db db' \<and> sq_db (bk_sq s) = db' \<and> \<not> bk_closed s \<and>
    (\<exists>c. config_with_family udb pyd cfg (cfg_model_family cfg) = Inr c \<and>
       (let qs = uq_iter (cfg_quotas c) in
        en_buckets (sq_eng (bk_sq s)) = map spec_of_quota qs \<and>
        distinct (map quota_bucket_id qs) \<and> (\<forall>q \<in> set qs. 2 * q_per_seconds q \<le> bu_bucket_ttl b)))"
proof -
  from assms(1) obtain c family t where
    c: "config_with_family udb pyd cfg (cfg_model_family cfg) = Inr c"
    and ttl: "validate_bucket_ttl_covers_quota_windows (bu_bucket_ttl b) (uq_iter (cfg_quotas c)) = Inr ()"
    and op: "open_engine so oe \<lparr>sq_eng = builder_engine b family (uq_iter (cfg_quotas c)), sq_db = db\<rparr> = (Some (Inr ()), t)"
    and s: "mk_sqlite_backend udb pyd t c (optional_float (bu_sleep_interval b)) = Inr s" "db' = sq_db t"
    by (auto simp: build_sqlite_backend_def bind_res_Inr_iff split: sum.splits option.splits prod.splits)
  let ?qs = "uq_iter (cfg_quotas c)" and ?s0 = "\<lparr>sq_eng = builder_engine b family (uq_iter (cfg_quotas c)), sq_db = db\<rparr>"
  have d: "distinct (map quota_bucket_id ?qs)"
  proof -
    from c obtain u where u: "frozen_snapshot udb pyd (cfg_quotas cfg) = Inr u" "cfg_quotas c = u"
      by (auto simp: config_with_family_def mk_config_def bind_res_Inr_iff)
    show ?thesis
    proof (cases "is_unlimited_quotas (cfg_quotas cfg)")
      case True
      then have "cfg_quotas c = unlimited_quotas\<lparr>uq_frozen := True\<rparr>" using u by (simp add: frozen_snapshot_def)
      then show ?thesis by (simp add: uq_iter_def unlimited_quotas_def)
    next
      case False
      then have "uq_ok udb (cfg_quotas c)" using u mk_usage_quotas_ok assms(2,3) by (auto simp: frozen_snapshot_def)
      then show ?thesis using uq_wf_distinct by (auto simp: uq_ok_def)
    qed
  qed
  have st: "store_kept ?s0 t" using op by (rule open_engine_store)
  have bs: "bk_sq s = t" "\<not> bk_closed s" using s(1) by (auto simp: mk_sqlite_backend_def bind_res_Inr_iff)
  have "engine_wf (sq_eng t)" "real_db (sq_db t)"
    using store_wf [OF st] store_real [OF st] builder_engine_wf [OF d] assms(4) by simp_all
  moreover have "en_buckets (sq_eng t) = map spec_of_quota ?qs"
    using st by (simp add: store_kept_def builder_engine_def mk_engine_def)
  moreover have "\<forall>q \<in> set ?qs. 2 * q_per_seconds q \<le> bu_bucket_ttl b"
    using ttl by (auto simp: validate_bucket_ttl_covers_quota_windows_def list_all_iff MIN_BUCKET_TTL_WINDOWS_def)
  ultimately show ?thesis using bs s(2) d c by (simp add: Let_def)
qed


definition demo_quotas :: usage_quotas where
  "demo_quotas = \<lparr>uq_frozen = True, uq_metrics = [([109], [(60, sample_quota)])]\<rparr>"

definition demo_builder :: sqlite_builder where
  "demo_builder = \<lparr>bu_db_path = [100], bu_key_prefix = [112], bu_sleep_interval = None, bu_bucket_ttl = 600,
     bu_refund_ttl = 600, bu_override_ttl = 600, bu_max_lifetime = Fin 100, bu_busy_timeout_ms = 5000, bu_prune_batch = 256\<rparr>"

definition demo_open :: open_env where
  "demo_open = \<lparr>oe_connect = None, oe_now = Fin 1000,
     oe_wal = [\<lparr>wa_failure = None, wa_now = Fin 1000, wa_sleep_now = Fin 1000\<rparr>], oe_sync = None,
     oe_schema = demo_env (Fin 1000), oe_init = demo_env (Fin 1000)\<rparr>"

lemma demo_quota_config: "config_with_family plain_udb plain_pyd \<lparr>cfg_quotas = demo_quotas, cfg_model_family = Some [102]\<rparr> (Some [102])
  = Inr \<lparr>cfg_quotas = demo_quotas, cfg_model_family = Some [102]\<rparr>"
proof -
  have "is_dbl (Fin 60)" by simp
  then have "quota_limit_field plain_pyd (VFloat (Fin 60)) = Inr (Fin 60)"
    "quota_per_seconds_field plain_pyd (VInt 60) = Inr 60"
    by (simp_all add: quota_limit_field_def quota_per_seconds_field_def reject_boolean_def
        reject_non_numeric_per_seconds_def type_tests plain_pyd_def MAX_PER_SECONDS_val MIN_MAX_CAPACITY_val)
  then have "quota_revalidate plain_udb plain_pyd sample_quota = Inr sample_quota"
    by (simp add: quota_revalidate_def mk_quota_Inr sample_quota_def plain_segment)
  then have "mk_usage_quotas plain_udb plain_pyd [sample_quota] True = Inr demo_quotas"
    by (simp add: mk_usage_quotas_def MAX_QUOTAS_PER_USAGE_QUOTAS_def add_metric_def unlimited_quotas_def
        dict_get_def dict_keys_def demo_quotas_def sample_quota_def)
  then have "frozen_snapshot plain_udb plain_pyd demo_quotas = Inr demo_quotas"
    by (simp add: frozen_snapshot_def is_unlimited_quotas_def demo_quotas_def uq_iter_def)
  moreover have "validate_key_segment plain_udb (VStr [102]) ''model_family'' True None = Inr (Some [102])"
    by (simp add: validate_key_segment_def validate_segment_str_Inr plain_udb_def clean_segment_def segment_limit_def
        default_max_length_for_field_def MAX_MODEL_FAMILY_LENGTH_def bind_res_Inr_iff)
  ultimately show ?thesis by (simp add: config_with_family_def mk_config_def as_validation_error_def)
qed

lemma demo_builder_engine: "builder_engine demo_builder [102] [sample_quota] = demo_en"
  by (simp add: builder_engine_def demo_builder_def demo_en_def spec_of_quota_def sample_quota_def demo_spec_def)

lemma demo_open_run: "\<exists>t. open_engine demo_scan demo_open \<lparr>sq_eng = demo_en, sq_db = empty_db\<rparr> = (Some (Inr ()), t)"
proof -
  have s: "initialize_schema (demo_env (Fin 1000)) (Some 5000) \<lparr>sq_eng = demo_en, sq_db = empty_db\<rparr> =
      (Inr (), \<lparr>sq_eng = demo_en, sq_db = empty_db\<rparr>)"
    by (simp add: initialize_schema_def transaction_def demo_env_def transaction_lock_def check_acquire_deadline_def
        operation_timeout_ms_def empty_db_def SCHEMA_VERSION_def LEGACY_SCHEMA_VERSION_WITHOUT_OVERRIDE_ANCHOR_def ps_def
        modify_eng_def demo_pragma clear_pending_def confirm_pending_def demo_en_def mk_engine_def)
  have "\<exists>t. initialize_buckets demo_scan (demo_env (Fin 1000)) None \<lparr>sq_eng = demo_en, sq_db = empty_db\<rparr> = (Inr (), t)"
    by (simp add: initialize_buckets_def demo_transaction init_bucket_def demo_scan_def empty_db_def validate_60 sqlite_exec)
  then show ?thesis using s
    by (auto simp: open_engine_def demo_open_def configure_connection_def secs_def op_bind_def rnd_int)
qed

theorem sqlite_build_wf_witness:
  "\<exists>s db'. build_sqlite_backend plain_udb plain_pyd demo_builder \<lparr>cfg_quotas = demo_quotas, cfg_model_family = Some [102]\<rparr>
       demo_scan demo_open empty_db = (Some (Inr s), db') \<and> engine_wf (sq_eng (bk_sq s)) \<and>
     en_buckets (sq_eng (bk_sq s)) = [spec_of_quota sample_quota]"
proof -
  let ?cfg = "\<lparr>cfg_quotas = demo_quotas, cfg_model_family = Some [102]\<rparr>"
  have qs: "uq_iter demo_quotas = [sample_quota]" by (simp add: uq_iter_def demo_quotas_def)
  have "\<exists>t. open_engine demo_scan demo_open \<lparr>sq_eng = builder_engine demo_builder [102] [sample_quota], sq_db = empty_db\<rparr>
      = (Some (Inr ()), t)"
    using demo_open_run by (simp add: demo_builder_engine)
  then obtain s db' where run: "build_sqlite_backend plain_udb plain_pyd demo_builder ?cfg demo_scan demo_open empty_db
      = (Some (Inr s), db')"
    using demo_quota_config qs
    by (auto simp: build_sqlite_backend_def mk_sqlite_backend_def validate_bucket_ttl_covers_quota_windows_def guard_def
        get_model_family_def demo_builder_def sample_quota_def MIN_BUCKET_TTL_WINDOWS_def optional_float_def
        validate_sleep_interval_def)
  from sqlite_build_wf [OF run plain_ok real_empty] run qs show ?thesis
    by (auto simp: demo_quota_config Let_def)
qed

section \<open>Waiting\<close>

text \<open>Others keep the engine's place in the store.\<close>

definition store_kept_by :: "(sqlite_backend \<Rightarrow> sqlite_backend) \<Rightarrow> bool" where
  "store_kept_by f \<longleftrightarrow> (\<forall>b. store_kept (bk_sq b) (bk_sq (f b)))"

text \<open>
  C28. A wait with a timeout ends: when every turn reads the clock at least a millisecond after
  the turn before it (each turn sleeps that long), it has returned or raised after one turn per
  millisecond of the timeout and one more, whatever locks, other processes and callbacks do.
\<close>

theorem sqlite_wait_terminates:
  assumes "validate_timeout timeout = Inr (Some to)" "fadd (Fin m) to = Fin d"
    and "paced m ticks" "ticks \<noteq> []" "d \<le> m + of_nat (length ticks - 1) / 1000"
  shows "fst (sq_wait_for_capacity udb cb inst so raw timeout rid lifetime key (Fin m) ticks g s) \<noteq> None"
proof (cases "wait_arguments udb raw timeout s")
  case (Inl e)
  then show ?thesis by (simp add: sq_wait_for_capacity_def)
next
  case (Inr x)
  then obtain u where x: "x = (Some to, u)" using assms(1) by (auto simp: wait_arguments_def bind_res_Inr_iff)
  obtain r s1 where loop: "sq_wait_loop cb inst so u rid lifetime key (Some to) (Some (Fin d)) ticks no_locals s = (r, s1)"
    by (cases "sq_wait_loop cb inst so u rid lifetime key (Some to) (Some (Fin d)) ticks no_locals s")
  then have "r \<noteq> None"
    using wait_loop_ends [OF assms(3-5), of cb inst so u rid lifetime key "Some to" no_locals s] by simp
  then show ?thesis using Inr x loop assms(2)
    by (auto simp: sq_wait_for_capacity_def split: sum.splits prod.splits)
qed

definition demo_tick :: "pyfloat \<Rightarrow> bool \<Rightarrow> sq_tick" where
  "demo_tick t acquired = \<lparr>qt_others = id, qt_busy_now = t, qt_env = (demo_env t)\<lparr>ev_lock_acquired := acquired\<rparr>,
     qt_contention_now = t, qt_contention_remaining = t, qt_random = Fin 0, qt_upsert = t, qt_deadline_check = t,
     qt_wait_started = t, qt_callback_started = t, qt_callback_ended = t, qt_callback_check = t, qt_remaining = t\<rparr>"

lemma validate_timeout_0: "validate_timeout (VInt 0) = Inr (Some (Fin 0))"
  by (simp add: validate_timeout_def type_tests float_of_int_def)

definition demo_backend :: "sqlite_db \<Rightarrow> sqlite_backend" where
  "demo_backend db = \<lparr>bk_sq = \<lparr>sq_eng = demo_en, sq_db = db\<rparr>,
     bk_limit_config = \<lparr>cfg_quotas = unlimited_quotas, cfg_model_family = Some [102]\<rparr>,
     bk_sleep_interval = Fin 1, bk_waiters = [], bk_closed = False\<rparr>"

definition demo_iter :: "bucket_id set \<Rightarrow> bucket_id list" where
  "demo_iter ids = sorted_list_of_set ids"

definition demo_grant_env :: grant_env where
  "demo_grant_env = \<lparr>ge_consumed_at = Fin 1000, ge_others = id, ge_cleanup = demo_env (Fin 1001), ge_iter = demo_iter\<rparr>"

lemma demo_backend_engine [simp]: "bk_sq (demo_backend db) = \<lparr>sq_eng = demo_en, sq_db = db\<rparr>"
  by (simp add: demo_backend_def)

theorem sqlite_wait_terminates_witness:
  "fst (sq_wait_for_capacity plain_udb (\<lambda>_. None) False demo_scan [([109], VInt 3)] (VInt 0) None None [107] (Fin 1000)
     [demo_tick (Fin 1000) True] demo_grant_env (demo_backend empty_db)) \<noteq> None"
  by (rule sqlite_wait_terminates [OF validate_timeout_0, of 1000 1000]) (simp_all add: demo_tick_def)

text \<open>
  C18. A wait for a reservation that raises leaves nothing behind: unless the clean-up of an
  interrupted grant failed (which is reported), the reservation has no marker, however other
  threads and processes interleaved (as long as they do not acquire the same id themselves),
  and the wait is no longer among the backend's waiters.
\<close>

theorem sqlite_wait_error_leaves_nothing:
  assumes "sq_wait_for_capacity udb cb inst so raw timeout (Some i) lifetime key started ticks g s = (Some (Inl e), None, s')"
    and "engine_wf (sq_eng (bk_sq s))" "real_db (sq_db (bk_sq s))" "read_marker i (bk_sq s) = None"
    and "list_all (tick_ok i) ticks" "store_kept_by (ge_others g)" "ev_now (ge_cleanup g) \<noteq> NaN"
    and "\<And>ids. distinct (ge_iter g ids)"
  shows "read_marker i (bk_sq s') = None \<and> key \<notin> set (dict_keys (bk_waiters s'))"
proof (cases "wait_arguments udb raw timeout s")
  case (Inl x)
  then show ?thesis using assms(1,4) by (auto simp: sq_wait_for_capacity_def)
next
  case (Inr x)
  obtain to u where x: "x = (to, u)" by (cases x)
  let ?dl = "map_option (fadd started) to"
  obtain r s1 where loop: "sq_wait_loop cb inst so u (Some i) lifetime key to ?dl ticks no_locals s = (r, s1)"
    by (cases "sq_wait_loop cb inst so u (Some i) lifetime key to ?dl ticks no_locals s")
  have "\<And>t. t \<in> set ticks \<Longrightarrow> tick_ok i t" using assms(5) by (simp add: list_all_iff)
  note l = wait_loop_marker [OF loop this assms(2-4)]
  show ?thesis
  proof (cases "\<exists>c w. r = Some (Inr (c, w))")
    case False
    then have "r = Some (Inl e)" "s' = drop_waiter key s1"
      using assms(1) Inr x loop by (auto simp: sq_wait_for_capacity_def split: option.splits sum.splits)
    then show ?thesis using l by simp
  next
    case True
    then obtain c w where r: "r = Some (Inr (c, w))" by blast
    obtain s2 where fin: "finish_grant cb so u (Some i) g c w s1 = (Inl e, None, s2)" "s' = drop_waiter key s2"
      using assms(1) Inr x loop r by (auto simp: sq_wait_for_capacity_def split: prod.splits)
    have nr: "\<not> cr_replayed c" using l r by simp
    from finish_grant_raises [OF fin(1) nr] obtain q where
      q: "cleanup_consumption so (ge_cleanup g) u (ge_iter g (sq_bucket_ids (sq_eng (bk_sq s1)))) (Some i) None
        (bk_sq (ge_others g s1)) = (Inr (), q)" "bk_sq s2 = q" by blast
    have st: "store_kept (bk_sq s) (bk_sq (ge_others g s1))"
      using l assms(6) store_trans by (auto simp: store_kept_by_def)
    have wf: "engine_wf (sq_eng (bk_sq (ge_others g s1)))" "real_db (sq_db (bk_sq (ge_others g s1)))"
      using store_wf [OF st] store_real [OF st] assms(2,3) by simp_all
    from cleanup_run [OF q(1) wf assms(7,8)] have "read_marker i q = None" by blast
    then show ?thesis using fin(2) q(2) by simp
  qed
qed


lemma demo_arguments:
  "wait_arguments plain_udb [([109], VInt 3)] (VInt 0) (demo_backend db) = Inr (Some (Fin 0), demo_usage)"
proof -
  have "validate_usage_mapping plain_udb [([109], VInt 3)] {[109]} = Inr ()"
    by (simp add: validate_usage_mapping_Inr dict_keys_def usage_item_ok_def coerce_usage_value_def type_tests
        plain_segment float_of_int_def)
  then show ?thesis
    by (simp add: wait_arguments_def require_open_def demo_backend_def guard_def checked_usage_def
        validate_backend_usage_def sq_metric_names_def validate_timeout_0 usage_floats_def float_of_int_def)
qed

lemma demo_ticks_ok [simp]: "tick_ok i (demo_tick (Fin t) acquired)"
  by (simp add: tick_ok_def demo_tick_def demo_env_def)

theorem sqlite_wait_error_leaves_nothing_witness:
  "\<exists>s'. sq_wait_for_capacity plain_udb (\<lambda>_. None) False demo_scan [([109], VInt 3)] (VInt 0) (Some [110])
       (Some (Fin 50)) [107] (Fin 1000) [demo_tick (Fin 1000) False] demo_grant_env (demo_backend empty_db) =
       (Some (Inl (TimeoutError ''Timed out waiting for SQLite engine-lock contention'')), None, s') \<and>
     read_marker [110] (bk_sq s') = None"
proof -
  obtain s' where s': "sq_wait_for_capacity plain_udb (\<lambda>_. None) False demo_scan [([109], VInt 3)] (VInt 0) (Some [110])
       (Some (Fin 50)) [107] (Fin 1000) [demo_tick (Fin 1000) False] demo_grant_env (demo_backend empty_db) =
       (Some (Inl (TimeoutError ''Timed out waiting for SQLite engine-lock contention'')), None, s')"
    by (simp add: sq_wait_for_capacity_def demo_arguments sq_wait_turn_def attempt_def wait_busy_timeout_def demo_tick_def
        on_engine_def try_consume_def transaction_def transaction_lock_def demo_env_def fmax_def)
  have "read_marker [110] (bk_sq (demo_backend empty_db)) = None" by (simp add: read_marker_def empty_db_def)
  moreover have "distinct (ge_iter demo_grant_env ids)" for ids by (simp add: demo_grant_env_def demo_iter_def)
  ultimately have "read_marker [110] (bk_sq s') = None"
    using sqlite_wait_error_leaves_nothing [OF s'] demo_engine_wf
    by (simp add: store_kept_by_def demo_grant_env_def demo_env_def)
  then show ?thesis using s' by blast
qed

text \<open>
  C30. A grant whose callbacks are interrupted by a critical exception is given back: every
  bucket holds the level it is found at (with whatever others did meanwhile) plus the usage,
  at most its maximum, and the reservation's marker is gone.
\<close>

theorem sqlite_interrupted_grant_given_back:
  assumes "finish_grant cb so u rid g c w s = (Inl e, None, s')" "\<not> cr_replayed c"
    and "engine_wf (sq_eng (bk_sq s))" "real_db (sq_db (bk_sq s))" "store_kept_by (ge_others g)"
    and "ev_now (ge_cleanup g) \<noteq> NaN" "\<And>ids. finite ids \<Longrightarrow> distinct (ge_iter g ids) \<and> set (ge_iter g ids) = ids"
  shows "\<exists>sts. engine_view (ev_now (ge_cleanup g)) (bk_sq (ge_others g s)) = Inr sts \<and>
    (\<forall>(k, st) \<in> set sts. \<exists>r. read_row k (bk_sq s') = Some r \<and>
       row_capacity r = Some (fmin (fadd (bs_capacity st) (usage_amount u k)) (bs_max st))) \<and>
    (\<forall>i. rid = Some i \<longrightarrow> read_marker i (bk_sq s') = None)"
proof -
  let ?o = "bk_sq (ge_others g s)" and ?now = "ev_now (ge_cleanup g)"
  have fin: "finite (sq_bucket_ids (sq_eng (bk_sq s)))" by (simp add: sq_bucket_ids_def)
  from finish_grant_raises [OF assms(1,2)] obtain q where
    q: "cleanup_consumption so (ge_cleanup g) u (ge_iter g (sq_bucket_ids (sq_eng (bk_sq s)))) rid None ?o = (Inr (), q)"
      "bk_sq s' = q" by blast
  have st: "store_kept (bk_sq s) ?o" using assms(5) by (simp add: store_kept_by_def)
  have wf: "engine_wf (sq_eng ?o)" "real_db (sq_db ?o)"
    using store_wf [OF st] store_real [OF st] assms(3,4) by simp_all
  have d: "distinct (ge_iter g (sq_bucket_ids (sq_eng (bk_sq s))))" using assms(7) [OF fin] by blast
  from cleanup_run [OF q(1) wf assms(6) d] obtain sts where
    view: "engine_view ?now ?o = Inr sts"
    and rows: "rows_hold ?now (sq_eng ?o) (cleanup_capacities sts u (ge_iter g (sq_bucket_ids (sq_eng (bk_sq s))))) q"
    and gone: "\<And>i. rid = Some i \<Longrightarrow> read_marker i q = None" by metis
  have "\<exists>r. read_row k q = Some r \<and> row_capacity r = Some (fmin (fadd (bs_capacity st) (usage_amount u k)) (bs_max st))"
    if m: "(k, st) \<in> set sts" for k st
  proof -
    have ids: "map fst sts = map spec_id (en_buckets (sq_eng ?o))" using view by (rule view_ids)
    have k: "k = spec_id (bs_spec st)" using view_spec [OF view m] .
    have look: "map_of sts k = Some st" using m ids wf(1) by (simp add: engine_wf_def)
    have "k \<in> set (map fst sts)" using m by force
    then have "k \<in> engine_ids (sq_eng (bk_sq s))" using ids st by (simp add: store_kept_def)
    then have "k \<in> sq_bucket_ids (sq_eng (bk_sq s))" using engine_wf_bucket_ids [OF assms(3)] by simp
    then have "(k, fmin (fadd (bs_capacity st) (dict_get u (sp_metric (bs_spec st)) (Fin 0))) (bs_max st))
        \<in> set (cleanup_capacities sts u (ge_iter g (sq_bucket_ids (sq_eng (bk_sq s)))))"
      using look assms(7) [OF fin] by (force simp: cleanup_capacities_def List.map_filter_def)
    then show ?thesis using rows k unfolding rows_hold_def by (fastforce simp: usage_amount_def spec_id_def)
  qed
  then show ?thesis using view gone q(2) by blast
qed


lemma demo_cleanup:
  "\<exists>t. cleanup_consumption demo_scan (demo_env (Fin 1001)) demo_usage [([109], 60)] (Some [110]) None
     \<lparr>sq_eng = demo_en, sq_db = acquired_db\<rparr> = (Inr (), t)"
  by (simp add: cleanup_consumption_def demo_transaction cleanup_body_def demo_scan_def cleanup_capacities_def
      List.map_filter_def empty_db_def sqlite_exec refill_57 validate_60 acquired_db_def demo_row_def demo_marker_def)

theorem sqlite_interrupted_grant_given_back_witness:
  "\<exists>s' r. finish_grant (\<lambda>_. Some (RuntimeError ''callback'')) demo_scan demo_usage (Some [110]) demo_grant_env demo_result
       no_locals (demo_backend acquired_db) = (Inl (RuntimeError ''callback''), None, s') \<and>
     read_row ([109], 60) (bk_sq s') = Some r \<and> row_capacity r = Some (Fin 60)"
proof -
  let ?s = "demo_backend acquired_db"
  have ids: "ge_iter demo_grant_env (sq_bucket_ids demo_en) = [([109], 60)]"
    by (simp add: demo_grant_env_def demo_iter_def sq_bucket_ids_def dict_keys_def)
  have ge: "ge_cleanup demo_grant_env = demo_env (Fin 1001)" "ge_others demo_grant_env = id"
    "ev_now (demo_env (Fin 1001)) = Fin 1001"
    by (simp_all add: demo_grant_env_def demo_env_def)
  obtain s' where run: "finish_grant (\<lambda>_. Some (RuntimeError ''callback'')) demo_scan demo_usage (Some [110]) demo_grant_env
      demo_result no_locals ?s = (Inl (RuntimeError ''callback''), None, s')"
    using demo_cleanup ids ge
    by (auto simp: finish_grant_def on_engine_def demo_result_def granted_events_def consumed_events_def
        split: prod.split)
  have it: "finite S \<Longrightarrow> distinct (ge_iter demo_grant_env S) \<and> set (ge_iter demo_grant_env S) = S" for S
    by (simp add: demo_grant_env_def demo_iter_def)
  have view: "engine_view (Fin 1001) \<lparr>sq_eng = demo_en, sq_db = acquired_db\<rparr> =
     Inr [(([109], 60), \<lparr>bs_spec = demo_spec, bs_capacity = Fin 58, bs_uncapped = Fin 58, bs_max = Fin 60,
         bs_override_active = False, bs_fresh = False, bs_missing = None\<rparr>)]"
    using load_states_writable(2) [OF demo_load_acquired] demo_engine_wf by simp
  have "store_kept_by (ge_others demo_grant_env)" "\<not> cr_replayed demo_result"
    by (simp_all add: ge store_kept_by_def demo_result_def)
  with sqlite_interrupted_grant_given_back [OF run _ _ _ _ _ it] ge demo_engine_wf view run
  show ?thesis by (auto simp: usage_amount_def dict_get_def fmin_def)
qed

section \<open>Refunding\<close>

lemma scope_amounts:
  assumes "validate_marker_refund_scope r scope ids u = Inr ()" "finite scope"
  shows "\<forall>k \<in> scope. \<exists>p q. map_of r (fst k) = Some p \<and> map_of u (fst k) = Some q \<and> feq p q"
proof -
  have "for_each ms (scope_metric r u) () = Inr () \<Longrightarrow> \<forall>m \<in> set ms. scope_metric r u m () = Inr ()" for ms
    by (induction ms) (auto simp: bind_res_Inr_iff)
  moreover have "for_each (sorted_list_of_set (fst ` scope)) (scope_metric r u) () = Inr ()"
    using assms(1) by (auto simp: validate_marker_refund_scope_def bind_res_Inr_iff)
  ultimately have "\<forall>m \<in> fst ` scope. scope_metric r u m () = Inr ()" using assms(2) by auto
  then show ?thesis by (force simp: scope_metric_def guard_def split: option.splits if_splits)
qed

text \<open>
  C27. A refund that names a reservation and returns was authorised by it: the caller gave the
  complete identity, a live marker carries exactly that identity and there is no live
  tombstone, the scope of the refund lies within the reservation's buckets, for the metric of
  every bucket in the scope the reserved amount it pays back equals the amount in the marker, and
  afterwards the marker has given way to a tombstone.
\<close>

theorem sqlite_refund_authorised:
  assumes "sq_refund_capacity_for_buckets udb cb so iter env reserved actual bids (Some i) a s = (Inr x, s')"
    and "engine_wf (sq_eng (bk_sq s))" "real_db (sq_db (bk_sq s))" "ev_now env \<noteq> NaN" "\<And>ids. distinct (iter ids)"
  shows "\<exists>family ids raw u r m. ma_model_family a = Some family \<and> ma_bucket_ids a = Some ids \<and>
    ma_reserved_usage a = Some raw \<and> usage_floats raw = Inr u \<and> usage_floats reserved = Inr r \<and>
    live_marker (ev_now env) i (bk_sq s) = Some m \<and> marker_matches m family ids u \<and>
    live_tombstone (ev_now env) i (bk_sq s) = None \<and>
    (let scope = (case bids of None \<Rightarrow> sq_bucket_ids (sq_eng (bk_sq s)) | Some b \<Rightarrow> b) in
     scope \<subseteq> ids \<and> (\<forall>k \<in> scope. \<exists>p q. map_of r (fst k) = Some p \<and> map_of u (fst k) = Some q \<and> feq p q)) \<and>
    read_marker i (bk_sq s') = None \<and> read_tombstone i (bk_sq s') \<noteq> None"
proof -
  let ?now = "ev_now env" and ?ids = "case bids of None \<Rightarrow> sq_bucket_ids (sq_eng (bk_sq s)) | Some b \<Rightarrow> b"
  from assms(1) obtain r v idn y t where
    args: "refund_arguments udb reserved actual ?ids (sq_bucket_ids (sq_eng (bk_sq s))) (Some i) a = Inr (r, v, idn)"
    and run: "refund so env r v (iter ?ids) (Some i) idn None (bk_sq s) = (Inr y, t)" and s': "bk_sq s' = t"
    by (auto simp: sq_refund_capacity_for_buckets_def op_bind_Inr op_simps require_open_def Let_def on_engine_Inr)
  from args obtain family ids raw u where
    a: "ma_model_family a = Some family" "ma_bucket_ids a = Some ids" "ma_reserved_usage a = Some raw"
      "usage_floats raw = Inr u" "usage_floats reserved = Inr r" "?ids \<subseteq> ids"
      "idn = \<lparr>ri_model_family = Some family, ri_bucket_ids = Some ids, ri_reserved_usage = Some u\<rparr>"
    by (auto simp: refund_arguments_def bind_res_Inr_iff require_marker_metadata_def validate_marker_refund_scope_def
        split: option.splits)
  have "?ids = {} \<or> ?ids \<subseteq> sq_bucket_ids (sq_eng (bk_sq s))"
    using args by (auto simp: refund_arguments_def bind_res_Inr_iff validate_backend_refund_usage_for_bucket_ids_def
        split: if_splits)
  then have "finite ?ids" by (rule disjE) (auto simp: sq_bucket_ids_def intro: finite_subset)
  then have amounts: "\<forall>k \<in> ?ids. \<exists>p q. map_of r (fst k) = Some p \<and> map_of u (fst k) = Some q \<and> feq p q"
    using args a(1-5) scope_amounts [of r ?ids ids u]
    by (auto simp: refund_arguments_def bind_res_Inr_iff require_marker_metadata_def)
  from run obtain refunds where "refund_usage r v = Inr refunds"
    "transaction env None False None (refund_body so refunds (iter ?ids) (Some i) idn) (bk_sq s) = (Inr y, t)"
    by (auto simp: refund_def op_bind_Inr op_simps)
  from transaction_Inr [OF this(2)] obtain ms t0 where
    body: "refund_body so refunds (iter ?ids) (Some i) idn ?now (with_pragma ms (bk_sq s)) = (Inr y, t0)"
    and t: "t = clear_pending (confirm_pending t0)" by blast
  from refund_body_cases [OF body] assms(2-5) t have
    ident: "identity_ok ?now i idn (bk_sq s)" and
    books: "refunded_books ?now (Some i) (sq_eng (bk_sq s)) (sq_db (bk_sq s)) (sq_db t)" and
    core: "eng_core (sq_eng t0) = eng_core (sq_eng (with_pragma ms (bk_sq s)))" by auto
  have key: "res_key (sq_eng t) i = res_key (sq_eng (bk_sq s)) i"
    using eng_core_fields(2) [OF core] t
    by (simp add: res_key_def clear_pending_def confirm_pending_def with_pragma_def)
  obtain m where "live_marker ?now i (bk_sq s) = Some m" "marker_matches m family ids u"
    "live_tombstone ?now i (bk_sq s) = None"
    using ident a(7) by (auto simp: identity_ok_def refund_class_def split: if_splits option.splits)
  moreover have "read_marker i t = None \<and> read_tombstone i t \<noteq> None"
    using books key by (auto simp: refunded_books_def read_marker_def read_tombstone_def map_add_def split: option.split)
  ultimately show ?thesis using a s' amounts unfolding Let_def by blast
qed


theorem sqlite_refund_authorised_witness:
  "\<exists>s'. sq_refund_capacity_for_buckets plain_udb (\<lambda>_. None) demo_scan demo_iter (demo_env (Fin 1001))
       [([109], VInt 3)] [([109], VInt 2)] None (Some [110])
       \<lparr>ma_model_family = Some [102], ma_bucket_ids = Some {([109], 60)}, ma_reserved_usage = Some [([109], VInt 3)]\<rparr>
       (demo_backend acquired_db) = (Inr True, s') \<and>
     read_marker [110] (bk_sq s') = None \<and> read_tombstone [110] (bk_sq s') \<noteq> None"
proof -
  let ?a = "\<lparr>ma_model_family = Some [102], ma_bucket_ids = Some {([109], 60)}, ma_reserved_usage = Some [([109], VInt 3)]\<rparr>"
  have ids: "sq_bucket_ids demo_en = {([109], 60)}" by (simp add: sq_bucket_ids_def dict_keys_def)
  have u: "usage_floats [([109], VInt 3)] = Inr [([109], Fin 3)]" "usage_floats [([109], VInt 2)] = Inr [([109], Fin 2)]"
    by (simp_all add: usage_floats_def float_of_int_def)
  have "validate_usage_mapping plain_udb [([109], VInt n)] {[109]} = Inr ()" if "n = 2 \<or> n = 3" for n
    using that by (auto simp: validate_usage_mapping_Inr dict_keys_def usage_item_ok_def coerce_usage_value_def type_tests
        plain_segment float_of_int_def)
  then have "refund_arguments plain_udb [([109], VInt 3)] [([109], VInt 2)] {([109], 60)} {([109], 60)} (Some [110]) ?a
      = Inr (demo_usage, [([109], Fin 2)], demo_identity)"
    by (simp add: refund_arguments_def validate_backend_refund_usage_for_bucket_ids_def validate_refund_usage_def
        u require_marker_metadata_def validate_marker_refund_scope_def scope_metric_def guard_def demo_identity_def
        dict_keys_def)
  moreover have "demo_iter {([109], 60)} = [([109], 60)]" by (simp add: demo_iter_def)
  ultimately obtain s' where run: "sq_refund_capacity_for_buckets plain_udb (\<lambda>_. None) demo_scan demo_iter
      (demo_env (Fin 1001)) [([109], VInt 3)] [([109], VInt 2)] None (Some [110]) ?a (demo_backend acquired_db) = (Inr True, s')"
    using demo_refund ids
    by (auto simp: sq_refund_capacity_for_buckets_def op_bind_def op_simps require_open_def on_engine_def guard_def
        demo_backend_def demo_refund_result_def)
  have "\<And>ids. distinct (demo_iter ids)" by (simp add: demo_iter_def)
  with sqlite_refund_authorised [OF run] demo_engine_wf run show ?thesis by (simp add: demo_env_def) blast
qed

section \<open>Reconfiguration\<close>

definition no_override :: "bucket_id \<Rightarrow> sq_state \<Rightarrow> bool" where
  "no_override k s \<longleftrightarrow> (\<forall>r. read_row k s = Some r \<longrightarrow> row_override_value r = None)"

lemma clear_one_effect:
  assumes "clear_one sts conf now k s = (Inr v, t)"
  shows "no_override k t" "no_override k' s \<Longrightarrow> no_override k' t"
  using assms
  by (auto simp: clear_one_def no_override_def op_bind_Inr op_simps clear_override_def read_row_update Let_def
      split: option.splits if_splits)

lemma clear_all_effect:
  assumes "op_for_each ks (clear_one sts conf now) s = (Inr v, t)"
  shows "k \<in> set ks \<or> no_override k s \<Longrightarrow> no_override k t"
  using assms
proof (induction ks arbitrary: s)
  case (Cons k0 ks)
  from Cons.prems(2) obtain s1 where s1: "clear_one sts conf now k0 s = (Inr (), s1)"
    "op_for_each ks (clear_one sts conf now) s1 = (Inr v, t)" by (auto simp: op_bind_Inr)
  have "k \<in> set ks \<or> no_override k s1" 
    using Cons.prems(1) clear_one_effect(1) [OF s1(1)] clear_one_effect(2) [OF s1(1), of k] by auto
  then show ?case using Cons.IH s1(2) by blast
qed simp

lemma clear_overrides_effect:
  assumes "clear_max_capacity_overrides so env ids conf b s = (Inr v, t)" "k \<in> set ids" "k \<in> sq_bucket_ids (sq_eng s)"
  shows "no_override k t"
proof -
  let ?target = "filter (\<lambda>k. k \<in> sq_bucket_ids (sq_eng s)) ids"
  have k: "k \<in> set ?target" using assms(2,3) by simp
  then have "?target \<noteq> []" by (metis list.set(1) empty_iff)
  then have "transaction env b False None (clear_body so ?target conf) s = (Inr v, t)"
    using assms(1) by (simp add: clear_max_capacity_overrides_def Let_def)
  from transaction_Inr [OF this] obtain ms t0 where
    "clear_body so ?target conf (ev_now env) (with_pragma ms s) = (Inr v, t0)" "t = clear_pending (confirm_pending t0)"
    by blast
  then have "no_override k t = no_override k t0" and run: "clear_body so ?target conf (ev_now env) (with_pragma ms s) = (Inr v, t0)"
    by (simp_all add: no_override_def)
  moreover from run obtain sts s1 where "op_for_each ?target (clear_one sts conf (ev_now env)) s1 = (Inr v, t0)"
    by (auto simp: clear_body_def op_bind_Inr)
  then have "no_override k t0" using k by (intro clear_all_effect) auto
  ultimately show ?thesis by simp
qed

lemma inherited_confirmations:
  assumes "inherit_state_confirmations old en = Inr en'" "k \<in> sq_bucket_ids en \<inter> sq_bucket_ids old"
    "map_of (en_confirmed_until old) k = Some u"
  shows "map_of (en_confirmed_until en') k = Some u"
proof -
  let ?step = "\<lambda>k d. case map_of (en_confirmed_until old) k of None \<Rightarrow> d | Some u \<Rightarrow> dict_set k u d"
  have "map_of (fold ?step ks d) k = Some u" if "k \<in> set ks \<or> map_of d k = Some u" for ks d
    using that
  proof (induction ks arbitrary: d)
    case (Cons k0 ks)
    then have "k \<in> set ks \<or> map_of (?step k0 d) k = Some u" using assms(3) by (auto split: option.split)
    then show ?case using Cons.IH by simp
  qed simp
  moreover have "k \<in> set (sorted_list_of_set (sq_bucket_ids en \<inter> sq_bucket_ids old))"
    using assms(2) by (simp add: sq_bucket_ids_def)
  ultimately show ?thesis using assms(1) by (auto simp: inherit_state_confirmations_def split: if_splits)
qed

text \<open>
  A reconfiguration that returns has closed the old backend and left the new one open on the
  same database; no bucket that was removed or whose limit changed keeps a runtime override,
  and for every surviving bucket the proof that its state was written is handed over.
\<close>

theorem sqlite_reconfigure_hands_over:
  assumes "sq_prepare_reconfigured_backend so iter env cfg (old, new) = (Inr (), old', new')"
    and "\<And>ids. finite ids \<Longrightarrow> set (iter ids) = ids"
  shows "bk_closed old' \<and> bk_closed new' = bk_closed new \<and> sq_db (bk_sq new') = sq_db (bk_sq old') \<and>
    (\<forall>k \<in> (sq_bucket_ids (sq_eng (bk_sq old)) - sq_bucket_ids (sq_eng (bk_sq new)))
           \<union> changed_ids (sq_eng (bk_sq old)) (uq_iter (cfg_quotas cfg)). no_override k (bk_sq old')) \<and>
    (\<forall>k \<in> sq_bucket_ids (sq_eng (bk_sq new)) \<inter> sq_bucket_ids (sq_eng (bk_sq old')). \<forall>u.
       map_of (en_confirmed_until (sq_eng (bk_sq old'))) k = Some u \<longrightarrow>
       map_of (en_confirmed_until (sq_eng (bk_sq new'))) k = Some u)"
proof -
  let ?en = "sq_eng (bk_sq old)" and ?qs = "uq_iter (cfg_quotas cfg)"
  let ?ids = "(sq_bucket_ids ?en - sq_bucket_ids (sq_eng (bk_sq new))) \<union> changed_ids ?en ?qs"
  from assms(1) obtain t en2 where
    clear: "clear_max_capacity_overrides so env (iter ?ids) (configured_limits ?qs) None (bk_sq old) = (Inr (), t)"
    and inh: "inherit_state_confirmations (sq_eng t) (sq_eng (bk_sq new)) = Inr en2"
    and out: "old' = close_backend (old\<lparr>bk_sq := t\<rparr>)"
      "new' = share_db (old\<lparr>bk_sq := t\<rparr>) (new\<lparr>bk_sq := (bk_sq new)\<lparr>sq_eng := en2\<rparr>\<rparr>)"
    by (auto simp: sq_prepare_reconfigured_backend_def Let_def on_engine_def split: if_splits prod.splits sum.splits)
  have "finite ?ids" by (simp add: sq_bucket_ids_def changed_ids_def)
  then have it: "set (iter ?ids) = ?ids" by (rule assms(2))
  have "?ids \<subseteq> sq_bucket_ids ?en" by (auto simp: changed_ids_def)
  then have "no_override k t" if "k \<in> ?ids" for k
    using clear_overrides_effect [OF clear] it that by blast
  then show ?thesis using out inherited_confirmations [OF inh] by (auto simp: close_backend_def share_db_def)
qed


theorem sqlite_reconfigure_hands_over_witness:
  "\<exists>old' new'. sq_prepare_reconfigured_backend demo_scan demo_iter (demo_env (Fin 1001))
       \<lparr>cfg_quotas = unlimited_quotas, cfg_model_family = Some [102]\<rparr>
       (demo_backend acquired_db, demo_backend acquired_db) = (Inr (), old', new') \<and>
     bk_closed old' \<and> \<not> bk_closed new' \<and> sq_db (bk_sq new') = sq_db (bk_sq old')"
proof -
  have "uq_iter unlimited_quotas = []" by (simp add: uq_iter_def unlimited_quotas_def)
  then obtain old' new' where run: "sq_prepare_reconfigured_backend demo_scan demo_iter (demo_env (Fin 1001))
       \<lparr>cfg_quotas = unlimited_quotas, cfg_model_family = Some [102]\<rparr>
       (demo_backend acquired_db, demo_backend acquired_db) = (Inr (), old', new')"
    by (auto simp: sq_prepare_reconfigured_backend_def Let_def changed_ids_def demo_iter_def on_engine_def
        clear_max_capacity_overrides_def inherit_state_confirmations_def)
  have "\<not> bk_closed (demo_backend acquired_db)" by (simp add: demo_backend_def)
  moreover have "\<And>ids. finite ids \<Longrightarrow> set (demo_iter ids) = ids" by (simp add: demo_iter_def)
  ultimately show ?thesis using sqlite_reconfigure_hands_over [OF run] run by auto
qed

end
