(* ===== verification/Effects.thy ===== *)
theory Effects
  imports Prelude
begin

text \<open>
  The control flow of the limiter. It catches by class: \<^verbatim>\<open>except Exception\<close>, \<^verbatim>\<open>except
  BaseException\<close>, the tuple of critical exceptions, and exception groups that contain one.
  \<open>failure\<close> is an exception as these handlers tell them apart; \<open>op_try\<close> and \<open>op_finally\<close> are the
  statements, and \<open>wp\<close> (weakest precondition) is how the laws about them are stated.
\<close>

section \<open>Exceptions by class\<close>

text \<open>
  \<open>Plain\<close> is an exception of the builtin or package classes. \<open>UnknownAndForget\<close> is an
  \<^verbatim>\<open>UnknownReservationError\<close> marked by \<^verbatim>\<open>_mark_unknown_reservation_forget_in_flight\<close>.
  \<open>CriticalError\<close> is one of \<^verbatim>\<open>MemoryError\<close>, \<^verbatim>\<open>RecursionError\<close> and the \<^verbatim>\<open>CancelledError\<close> of
  \<^verbatim>\<open>concurrent.futures\<close>, which are \<^verbatim>\<open>Exception\<close>s; \<open>Interrupt\<close> is \<^verbatim>\<open>KeyboardInterrupt\<close>,
  \<^verbatim>\<open>SystemExit\<close>, \<^verbatim>\<open>GeneratorExit\<close> or the \<^verbatim>\<open>CancelledError\<close> of \<^verbatim>\<open>asyncio\<close>, which are not; \<open>OtherBase\<close>
  is any other class below \<^verbatim>\<open>BaseException\<close> only. \<open>RefundFailed\<close> is
  \<^verbatim>\<open>AcquireRefundFailedError\<close>, with its reservation, \<^verbatim>\<open>interrupted_by\<close> and \<^verbatim>\<open>refund_error\<close>.
\<close>

datatype 'r failure =
    Plain exn
  | UnknownAndForget
  | RedisFailure string
  | CriticalError string
  | Interrupt string
  | OtherBase string
  | Group "'r failure list"
  | RefundFailed 'r "'r failure option" "'r failure option"

text \<open>\<^verbatim>\<open>isinstance(exc, Exception)\<close>; a group of \<^verbatim>\<open>Exception\<close>s is an \<^verbatim>\<open>ExceptionGroup\<close>.\<close>

fun is_exception :: "'r failure \<Rightarrow> bool" where
  "is_exception (Interrupt m) = False"
| "is_exception (OtherBase m) = False"
| "is_exception (Group fs) = list_all is_exception fs"
| "is_exception _ = True"

text \<open>
  \<^verbatim>\<open>isinstance(exc, LIFECYCLE_CALLBACK_CRITICAL_EXCEPTIONS)\<close>, and
  \<^verbatim>\<open>_exception_group_contains_critical\<close>, which splits a group recursively.
\<close>

fun is_critical_class :: "'r failure \<Rightarrow> bool" where
  "is_critical_class (CriticalError m) = True"
| "is_critical_class (Interrupt m) = True"
| "is_critical_class _ = False"

fun exception_group_contains_critical :: "'r failure \<Rightarrow> bool" where
  "exception_group_contains_critical (Group fs) =
     list_ex (\<lambda>f. is_critical_class f \<or> exception_group_contains_critical f) fs"
| "exception_group_contains_critical _ = False"

definition is_critical :: "'r failure \<Rightarrow> bool" where
  "is_critical f \<longleftrightarrow> is_critical_class f \<or> exception_group_contains_critical f"

section \<open>Statements\<close>

definition op_seq :: "('s, 'e, unit) eff \<Rightarrow> ('s, 'e, 'a) eff \<Rightarrow> ('s, 'e, 'a) eff" where
  "op_seq m n = op_bind m (\<lambda>_. n)"

text \<open>A block of statements that return nothing.\<close>

fun op_block :: "('s, 'e, unit) eff list \<Rightarrow> ('s, 'e, unit) eff" where
  "op_block [] = op_return ()"
| "op_block (m # ms) = op_seq m (op_block ms)"

definition op_when :: "bool \<Rightarrow> ('s, 'e, unit) eff \<Rightarrow> ('s, 'e, unit) eff" where
  "op_when c m = (if c then m else op_return ())"

text \<open>\<^verbatim>\<open>if not ok: raise e\<close>, and a check of the state that may raise.\<close>

definition op_require :: "bool \<Rightarrow> 'e \<Rightarrow> ('s, 'e, unit) eff" where
  "op_require ok e = (if ok then op_return () else op_raise e)"

definition op_check :: "('s \<Rightarrow> 'e + 'a) \<Rightarrow> ('s, 'e, 'a) eff" where
  "op_check f s = (f s, s)"

text \<open>\<^verbatim>\<open>try: m except BaseException as e: h(e)\<close>; a handler re-raises what it does not handle.\<close>

definition op_try :: "('s, 'e, 'a) eff \<Rightarrow> ('e \<Rightarrow> ('s, 'f, 'a) eff) \<Rightarrow> ('s, 'f, 'a) eff" where
  "op_try m h s = (case m s of (Inl e, t) \<Rightarrow> h e t | (Inr x, t) \<Rightarrow> (Inr x, t))"

text \<open>\<^verbatim>\<open>try: m finally: f\<close>; an exception of \<open>f\<close> replaces the outcome of \<open>m\<close>.\<close>

definition op_finally :: "('s, 'e, 'a) eff \<Rightarrow> ('s, 'e, unit) eff \<Rightarrow> ('s, 'e, 'a) eff" where
  "op_finally m f s = (case m s of (r, t) \<Rightarrow>
     (case f t of (Inl e, u) \<Rightarrow> (Inl e, u) | (Inr _, u) \<Rightarrow> (r, u)))"

text \<open>A statement on a part of the state.\<close>

definition op_zoom ::
  "('s \<Rightarrow> 'p) \<Rightarrow> ('p \<Rightarrow> 's \<Rightarrow> 's) \<Rightarrow> ('p, 'e, 'a) eff \<Rightarrow> ('s, 'e, 'a) eff" where
  "op_zoom get put m s = (case m (get s) of (r, p) \<Rightarrow> (r, put p s))"

section \<open>Weakest preconditions\<close>

text \<open>
  \<open>wp m Q E s\<close>: run from \<open>s\<close>, either \<open>m\<close> returns and its result and final state satisfy \<open>Q\<close>, or it
  raises and the exception and final state satisfy \<open>E\<close>.
\<close>

definition wp ::
  "('s, 'e, 'a) eff \<Rightarrow> ('a \<Rightarrow> 's \<Rightarrow> bool) \<Rightarrow> ('e \<Rightarrow> 's \<Rightarrow> bool) \<Rightarrow> 's \<Rightarrow> bool" where
  "wp m Q E s \<longleftrightarrow> (case m s of (Inl e, t) \<Rightarrow> E e t | (Inr x, t) \<Rightarrow> Q x t)"

named_theorems wp_simps \<open>weakest preconditions of the statements\<close>

lemma wp_return [wp_simps]: "wp (op_return x) Q E = Q x"
  by (simp add: fun_eq_iff wp_def op_return_def)

lemma wp_raise [wp_simps]: "wp (op_raise e) Q E = E e"
  by (simp add: fun_eq_iff wp_def op_raise_def)

lemma wp_lift [wp_simps]: "wp (op_lift r) Q E = (case r of Inl e \<Rightarrow> E e | Inr x \<Rightarrow> Q x)"
  by (simp add: fun_eq_iff wp_def op_lift_def split: sum.split)

lemma wp_modify [wp_simps]: "wp (op_modify f) Q E = (\<lambda>s. Q () (f s))"
  by (simp add: fun_eq_iff wp_def op_modify_def)

lemma wp_gets [wp_simps]: "wp (op_gets f) Q E = (\<lambda>s. Q (f s) s)"
  by (simp add: fun_eq_iff wp_def op_gets_def)

lemma wp_bind [wp_simps]: "wp (op_bind m f) Q E = wp m (\<lambda>x. wp (f x) Q E) E"
  by (simp add: fun_eq_iff wp_def op_bind_def split: prod.split sum.split)

lemma wp_seq [wp_simps]: "wp (op_seq m n) Q E = wp m (\<lambda>_. wp n Q E) E"
  by (simp add: op_seq_def wp_bind)

lemma wp_block_Nil [wp_simps]: "wp (op_block []) Q E = Q ()"
  by (simp add: wp_return)

lemma wp_block_Cons [wp_simps]: "wp (op_block (m # ms)) Q E = wp m (\<lambda>_. wp (op_block ms) Q E) E"
  by (simp add: wp_seq)

declare op_block.simps [simp del]

lemma wp_when [wp_simps]: "wp (op_when c m) Q E = (if c then wp m Q E else Q ())"
  by (simp add: op_when_def wp_return)

lemma wp_require [wp_simps]: "wp (op_require ok e) Q E = (if ok then Q () else E e)"
  by (simp add: op_require_def wp_return wp_raise)

lemma wp_check [wp_simps]: "wp (op_check f) Q E = (\<lambda>s. case f s of Inl e \<Rightarrow> E e s | Inr x \<Rightarrow> Q x s)"
  by (simp add: fun_eq_iff wp_def op_check_def split: sum.split)

lemma wp_try [wp_simps]: "wp (op_try m h) Q E = wp m Q (\<lambda>e. wp (h e) Q E)"
  by (simp add: fun_eq_iff wp_def op_try_def split: prod.split sum.split)

lemma wp_finally [wp_simps]:
  "wp (op_finally m f) Q E = wp m (\<lambda>x. wp f (\<lambda>_. Q x) E) (\<lambda>e. wp f (\<lambda>_. E e) E)"
  by (simp add: fun_eq_iff wp_def op_finally_def split: prod.split sum.split)

lemma wp_zoom [wp_simps]:
  "wp (op_zoom get put m) Q E = (\<lambda>s. wp m (\<lambda>x p. Q x (put p s)) (\<lambda>e p. E e (put p s)) (get s))"
  by (simp add: fun_eq_iff wp_def op_zoom_def split: prod.split sum.split)

lemma wp_for_each_Nil [wp_simps]: "wp (op_for_each [] body) Q E = Q ()"
  by (simp add: fun_eq_iff wp_def)

lemma wp_for_each_Cons [wp_simps]:
  "wp (op_for_each (x # xs) body) Q E = wp (body x) (\<lambda>_. wp (op_for_each xs body) Q E) E"
  by (simp add: fun_eq_iff wp_def op_bind_def split: prod.split sum.split)

lemma wp_mono:
  "wp m Q E s \<Longrightarrow> (\<And>x t. Q x t \<Longrightarrow> Q' x t) \<Longrightarrow> (\<And>e t. E e t \<Longrightarrow> E' e t) \<Longrightarrow> wp m Q' E' s"
  by (auto simp: wp_def split: prod.splits sum.splits)

lemma wp_conj: "wp m Q E s \<Longrightarrow> wp m Q' E' s \<Longrightarrow>
    wp m (\<lambda>x t. Q x t \<and> Q' x t) (\<lambda>e t. E e t \<and> E' e t) s"
  by (auto simp: wp_def split: prod.splits sum.splits)

lemma wp_Inr: "wp m Q E s \<Longrightarrow> m s = (Inr x, t) \<Longrightarrow> Q x t"
  by (simp add: wp_def)

lemma wp_Inl: "wp m Q E s \<Longrightarrow> m s = (Inl e, t) \<Longrightarrow> E e t"
  by (simp add: wp_def)

lemma wpI: "(\<And>x t. m s = (Inr x, t) \<Longrightarrow> Q x t) \<Longrightarrow> (\<And>e t. m s = (Inl e, t) \<Longrightarrow> E e t) \<Longrightarrow> wp m Q E s"
  by (auto simp: wp_def split: prod.split sum.split)

text \<open>An invariant of a statement: kept whether it returns or raises.\<close>

definition preserves :: "('s \<Rightarrow> bool) \<Rightarrow> ('s, 'e, 'a) eff \<Rightarrow> bool" where
  "preserves I m \<longleftrightarrow> (\<forall>s. I s \<longrightarrow> wp m (\<lambda>_. I) (\<lambda>_. I) s)"

named_theorems preserves_intros \<open>statements that keep an invariant\<close>

lemma preservesI: "(\<And>s. I s \<Longrightarrow> wp m (\<lambda>_. I) (\<lambda>_. I) s) \<Longrightarrow> preserves I m"
  by (simp add: preserves_def)

lemma preservesD: "preserves I m \<Longrightarrow> I s \<Longrightarrow> wp m (\<lambda>_. I) (\<lambda>_. I) s"
  by (simp add: preserves_def)

text \<open>After a statement that preserves \<open>I\<close>, whatever follows from \<open>I\<close> holds.\<close>

lemma wp_keeps:
  assumes "preserves I m" "I s" "\<And>x t. I t \<Longrightarrow> Q x t" "\<And>e t. I t \<Longrightarrow> E e t"
  shows "wp m Q E s"
  using preservesD [OF assms(1,2)] by (rule wp_mono) (use assms(3,4) in blast)+

lemma preserves_final: "preserves I m \<Longrightarrow> I s \<Longrightarrow> m s = (r, t) \<Longrightarrow> I t"
  by (cases r) (auto simp: preserves_def wp_def)

lemma preserves_bind [preserves_intros]:
  assumes "preserves I m" "\<And>x. preserves I (f x)" shows "preserves I (op_bind m f)"
proof (rule preservesI)
  fix s assume "I s"
  then show "wp (op_bind m f) (\<lambda>_. I) (\<lambda>_. I) s"
    unfolding wp_bind by (rule wp_keeps [OF assms(1)]) (simp_all add: preservesD [OF assms(2)])
qed

lemma preserves_seq [preserves_intros]: "preserves I m \<Longrightarrow> preserves I n \<Longrightarrow> preserves I (op_seq m n)"
  unfolding op_seq_def by (rule preserves_bind)

lemma preserves_try [preserves_intros]:
  assumes "preserves I m" "\<And>e. preserves I (h e)" shows "preserves I (op_try m h)"
proof (rule preservesI)
  fix s assume "I s"
  then show "wp (op_try m h) (\<lambda>_. I) (\<lambda>_. I) s"
    unfolding wp_try by (rule wp_keeps [OF assms(1)]) (simp_all add: preservesD [OF assms(2)])
qed

lemma preserves_finally [preserves_intros]:
  assumes "preserves I m" "preserves I f" shows "preserves I (op_finally m f)"
proof (rule preservesI)
  fix s assume "I s"
  then show "wp (op_finally m f) (\<lambda>_. I) (\<lambda>_. I) s"
    unfolding wp_finally by (rule wp_keeps [OF assms(1)]) (simp_all add: preservesD [OF assms(2)])
qed

lemma preserves_simple [preserves_intros]:
  "preserves I (op_return x)" "preserves I (op_raise e)" "preserves I (op_lift r)" "preserves I (op_gets f)"
  "preserves I (op_check g)" "preserves I (op_require ok e)" "preserves I (op_block [])"
  by (simp_all add: preserves_def wp_simps split: sum.split)

lemma preserves_modify [preserves_intros]: "(\<And>s. I s \<Longrightarrow> I (f s)) \<Longrightarrow> preserves I (op_modify f)"
  by (simp add: preserves_def wp_simps)

lemma preserves_block_Cons [preserves_intros]: "preserves I m \<Longrightarrow> preserves I (op_block ms) \<Longrightarrow> preserves I (op_block (m # ms))"
  by (simp only: op_block.simps) (rule preserves_seq)

lemma preserves_when [preserves_intros]: "(c \<Longrightarrow> preserves I m) \<Longrightarrow> preserves I (op_when c m)"
  by (simp add: preserves_def wp_simps)

lemma preserves_for_each [preserves_intros]: "(\<And>x. x \<in> set xs \<Longrightarrow> preserves I (body x)) \<Longrightarrow> preserves I (op_for_each xs body)"
proof (induction xs)
  case Nil
  then show ?case by (simp add: preserves_def wp_def)
next
  case (Cons x xs)
  then have "preserves I (op_bind (body x) (\<lambda>_. op_for_each xs body))" by (intro preserves_bind) simp_all
  moreover have "op_for_each (x # xs) body = op_bind (body x) (\<lambda>_. op_for_each xs body)" by (rule ext) simp
  ultimately show ?case by simp
qed

lemma preserves_if [preserves_intros]: "(c \<Longrightarrow> preserves I m) \<Longrightarrow> (\<not> c \<Longrightarrow> preserves I n) \<Longrightarrow> preserves I (if c then m else n)"
  by simp

lemma preserves_case_option [preserves_intros]:
  "preserves I m \<Longrightarrow> (\<And>x. preserves I (f x)) \<Longrightarrow> preserves I (case v of None \<Rightarrow> m | Some x \<Rightarrow> f x)"
  by (cases v) auto

lemma preserves_case_sum [preserves_intros]:
  "(\<And>x. preserves I (f x)) \<Longrightarrow> (\<And>x. preserves I (g x)) \<Longrightarrow> preserves I (case v of Inl x \<Rightarrow> f x | Inr x \<Rightarrow> g x)"
  by (cases v) auto

lemma preserves_case_prod [preserves_intros]:
  "(\<And>x y. preserves I (f x y)) \<Longrightarrow> preserves I (case p of (x, y) \<Rightarrow> f x y)"
  by (cases p) auto

end
