(* ===== verification/Limiter.thy ===== *)
theory Limiter
  imports Effects Validation SqliteTtl
begin

text \<open>
  \<^verbatim>\<open>_sync_rate_limiter.py\<close>: the limiter's state, its construction, and the bookkeeping that its
  public methods share: caps, model families, reservations in flight. A limiter is a record
  with one field per attribute; the attributes that hold backends are polymorphic in the
  type of a reference to one.
\<close>

section \<open>State\<close>

text \<open>
  The fingerprint of a configuration: whether it is unlimited, and its quotas as a sorted
  tuple of metric, window and limit.
\<close>

type_synonym signature = "bool \<times> (pystr \<times> int \<times> pyfloat) list"

datatype refund_state = StateNone | StatePending | StateCommitted | StateFailed

record 'b limiter =
  l_max_lifetime :: "pyfloat option"
  l_pid_check :: bool
  l_pid :: nat
  l_callback_timeout :: "pyfloat option"
  l_max_model_families :: int
  l_max_metrics_per_family :: int
  l_max_aliases :: int
  l_max_in_flight :: int
  l_max_model_family_length :: int
  l_max_metric_length :: int
  l_max_alias_length :: int
  l_backends :: "(pystr, 'b) dict"
  l_model_names :: "(pystr, pystr) dict"
  l_quotas :: "(pystr, (bucket_id, pyfloat) dict) dict"
  l_families :: "(pystr, pystr) dict"
  l_runtime_max :: "(pystr, (bucket_id, pyfloat) dict) dict"
  l_family_signature :: "(pystr, signature) dict"
  l_model_signature :: "(pystr, signature) dict"
  l_signature_counts :: "(pystr, (signature, int) dict) dict"
  l_alias_counts :: "(pystr, int) dict"
  l_refunded :: "(pystr, refund_state) dict"
  l_refunded_cap :: nat
  l_locks :: "(pystr, nat) dict"
  l_lock_refs :: "(pystr, int) dict"
  l_locks_held :: "nat set"
  l_next_lock :: nat
  l_in_progress :: "pystr set"
  l_pending :: "pystr set"
  l_delivery :: "pystr set"
  l_drained :: bool
  l_close_timeout :: "pyfloat option"
  l_instance_id :: pystr
  l_in_flight :: "pystr set"
  l_snapshots :: "(pystr, reservation) dict"
  l_closing :: bool
  l_in_flight_family :: "(pystr, pystr) dict"
  l_last_touched :: "(pystr, pyfloat) dict"
  l_closed :: bool
  l_close_drained :: bool

text \<open>
  A per-reservation lock is a number, \<open>l_locks_held\<close> the locks some thread holds, and
  \<open>l_drained\<close> the event \<^verbatim>\<open>_pending_drained\<close>. \<^verbatim>\<open>_reservation_snapshots\<close> keeps reservations: a
  \<^verbatim>\<open>ReservationAuthoritySnapshot\<close> has the same fields, and validating a reservation again
  returns an equal one.
\<close>

section \<open>What lies outside\<close>

text \<open>
  Everything that is not the limiter is a state \<open>'w\<close>: the clocks, the application's code and
  the backends. \<open>outside\<close> has the operations the limiter calls on it. \<open>others\<close> is what the other
  threads do to limiter and world between two critical sections, and \<open>await_lock\<close> what they
  do until a lock is free, unless an interrupt ends the wait. A backend's \<open>bk_wait\<close> may hand
  over a failed clean-up (\<^verbatim>\<open>_AcquireRecovery.failure\<close>: issue time, interruption and refund
  error) with the exception it raises.
\<close>

type_synonym rfailure = "reservation failure"

type_synonym recovery = "pyfloat \<times> rfailure \<times> rfailure"

record lifecycle_event =
  le_type :: string
  le_reservation_id :: "pystr option"
  le_request_id :: "pystr option"
  le_model_family :: pystr
  le_model_alias :: "pystr option"
  le_bucket_ids :: "bucket_id set option"
  le_usage :: "usage option"
  le_timestamp :: pyfloat

datatype limiter_warning = QuotaSetChanged | RefundRefreshFailed | RefundDropped
  | ReserveForgotActualUsage | SyncInAsync

type_synonym ('w, 'a) wop = "('w, rfailure, 'a) eff"

type_synonym request = "(pystr, pyval) dict"

record ('b, 'w) outside =
  udb :: unicode_db
  pyd :: pydantic
  getpid :: "'w \<Rightarrow> nat"
  monotonic :: "'w \<Rightarrow> pyfloat \<times> 'w"
  wall_time :: "'w \<Rightarrow> pyfloat \<times> 'w"
  fresh_id :: "'w \<Rightarrow> pystr \<times> 'w"
  loop_running :: "'w \<Rightarrow> bool"
  in_callback :: "'w \<Rightarrow> bool"
  warned_pids :: "'w \<Rightarrow> nat set"
  mark_warned :: "nat \<Rightarrow> 'w \<Rightarrow> 'w"
  warnings_warn :: "limiter_warning \<Rightarrow> ('w, unit) wop"
  getter :: "pystr \<Rightarrow> ('w, per_model_config \<times> (request \<Rightarrow> ('w, pyval) wop) option) wop"
  on_lifecycle_event :: "(lifecycle_event \<Rightarrow> ('w, unit) wop) option"
  build :: "per_model_config \<Rightarrow> ('w, 'b) wop"
  builder_close :: "('w, unit) wop option"
  bk_wait :: "'b \<Rightarrow> usage \<Rightarrow> pyfloat option \<Rightarrow> pystr \<Rightarrow> pyfloat option
    \<Rightarrow> ('w, recovery option \<times> rfailure, pyval) eff"
  bk_consume :: "'b \<Rightarrow> usage \<Rightarrow> pystr \<Rightarrow> pyfloat option \<Rightarrow> ('w, pyval) wop"
  bk_refund :: "'b \<Rightarrow> usage \<Rightarrow> usage \<Rightarrow> bucket_id set option \<Rightarrow> pystr \<Rightarrow> pystr
    \<Rightarrow> bucket_id set option \<Rightarrow> usage option \<Rightarrow> ('w, unit) wop"
  bk_set_max :: "'b \<Rightarrow> pystr \<Rightarrow> int \<Rightarrow> pyfloat \<Rightarrow> ('w, unit) wop"
  bk_apply_configured :: "'b \<Rightarrow> pystr \<Rightarrow> int \<Rightarrow> pyfloat \<Rightarrow> ('w, unit) wop"
  bk_runtime_max :: "'b \<Rightarrow> (pystr \<Rightarrow> int \<Rightarrow> ('w, pyval) wop) option"
  bk_registry :: "'b \<Rightarrow> 'w \<Rightarrow> (bucket_id, pyval \<times> pyval) dict option"
  bk_marker_authority :: "'b \<Rightarrow> ('w, pyval) wop"
  bk_default_refund :: "'b \<Rightarrow> bool"
  bk_metric_set_change :: "'b \<Rightarrow> ('w, bool) wop"
  bk_default_prepare :: "'b \<Rightarrow> bool"
  bk_prepare :: "'b \<Rightarrow> 'b \<Rightarrow> per_model_config \<Rightarrow> ('w, 'b) wop"
  bk_is_sqlite :: "'b \<Rightarrow> bool"
  others :: "'b limiter \<times> 'w \<Rightarrow> 'b limiter \<times> 'w"
  await_lock :: "nat \<Rightarrow> ('b limiter \<times> 'w, rfailure, unit) eff"

type_synonym ('b, 'w, 'a) act = "('b limiter \<times> 'w, rfailure, 'a) eff"

definition pause :: "('b, 'w) outside \<Rightarrow> ('b limiter \<times> 'w, 'e, unit) eff" where
  "pause W = op_modify (others W)"

definition on_limiter :: "('b limiter \<Rightarrow> 'b limiter) \<Rightarrow> ('b limiter \<times> 'w, 'e, unit) eff" where
  "on_limiter f = op_modify (\<lambda>(l, w). (f l, w))"

definition look :: "('b limiter \<Rightarrow> 'a) \<Rightarrow> ('b limiter \<times> 'w, 'e, 'a) eff" where
  "look f = op_gets (\<lambda>(l, w). f l)"

definition in_world :: "('w, 'e, 'a) eff \<Rightarrow> ('b limiter \<times> 'w, 'e, 'a) eff" where
  "in_world m = op_zoom snd (\<lambda>w (l, _). (l, w)) m"

definition clock :: "('w \<Rightarrow> 'a \<times> 'w) \<Rightarrow> ('b limiter \<times> 'w, 'e, 'a) eff" where
  "clock c s = (case s of (l, w) \<Rightarrow> (case c w of (t, w') \<Rightarrow> (Inr t, (l, w'))))"

definition plain :: "'a result \<Rightarrow> rfailure + 'a" where
  "plain r = (case r of Inl e \<Rightarrow> Inl (Plain e) | Inr x \<Rightarrow> Inr x)"

text \<open>A computation on the limiter's attributes that may raise.\<close>

definition checked :: "('b limiter \<Rightarrow> 'a result) \<Rightarrow> ('b, 'w, 'a) act" where
  "checked f = op_check (\<lambda>(l, w). plain (f l))"

definition lift_result :: "'a result \<Rightarrow> ('b, 'w, 'a) act" where
  "lift_result r = op_lift (plain r)"

section \<open>Helpers\<close>

definition refund_state_is_committed :: "refund_state \<Rightarrow> bool" where
  "refund_state_is_committed st \<longleftrightarrow> st = StateNone \<or> st = StateCommitted"

definition validate_positive_int_cap :: "int option \<Rightarrow> pyval \<Rightarrow> int result" where
  "validate_positive_int_cap max_value value = (case value of
      VInt n \<Rightarrow>
        if n \<le> 0 then Inl (ValueError ''must be greater than 0'')
        else (case max_value of
            Some m \<Rightarrow> if m < n then Inl (ValueError ''must be at most the maximum'') else Inr n
          | None \<Rightarrow> Inr n)
    | _ \<Rightarrow> Inl (ValueError ''must be an int''))"

definition quotas_snapshot :: "per_model_config \<Rightarrow> (bucket_id, pyfloat) dict" where
  "quotas_snapshot cfg =
     fold (\<lambda>q d. dict_set (q_metric q, q_per_seconds q) (q_limit q) d) (uq_iter (cfg_quotas cfg)) []"

definition reservation_bucket_ids :: "per_model_config \<Rightarrow> bucket_id set" where
  "reservation_bucket_ids cfg = (\<lambda>q. (q_metric q, q_per_seconds q)) ` set (uq_iter (cfg_quotas cfg))"

definition zero_actual_usage :: "reservation \<Rightarrow> usage" where
  "zero_actual_usage r = map (\<lambda>(m, _). (m, Fin 0)) (r_usage r)"

text \<open>The issue time a backend reports, or the wall clock when it reports no finite number.\<close>

definition issued_reservation ::
  "('b, 'w) outside \<Rightarrow> reservation \<Rightarrow> pyval \<Rightarrow> ('b, 'w, reservation) act" where
  "issued_reservation W r issued =
     (let now = op_bind (clock (wall_time W)) (\<lambda>t. op_return (r\<lparr>r_created_at := Some t\<rparr>)) in
      case issued of
        VNone \<Rightarrow> now
      | VBool _ \<Rightarrow> now
      | v \<Rightarrow> if \<not> isinstance_int_float v then now
         else op_bind (lift_result (py_float v)) (\<lambda>f.
           if isfinite f then op_return (r\<lparr>r_created_at := Some f\<rparr>) else now))"

definition config_signature :: "per_model_config \<Rightarrow> signature" where
  "config_signature cfg =
     (if config_is_unlimited cfg then (True, [])
      else (False, map (\<lambda>((m, p), a). (m, p, a)) (sort_key fst (quotas_snapshot cfg))))"

text \<open>
  \<^verbatim>\<open>_cfg_with_preserved_runtime_max_capacity\<close>: the quotas whose configured limit did not change
  take the live override as their limit.
\<close>

definition override_for ::
  "(bucket_id, pyfloat) dict \<Rightarrow> (bucket_id, pyfloat) dict \<Rightarrow> quota \<Rightarrow> pyfloat option" where
  "override_for old_snapshot overrides q =
     (case map_of overrides (quota_bucket_id q) of
        None \<Rightarrow> None
      | Some ov \<Rightarrow>
          if map_of old_snapshot (quota_bucket_id q) \<noteq> Some (q_limit q) \<or> q_limit q = ov then None
          else Some ov)"

definition cfg_with_preserved_runtime_max_capacity ::
  "unicode_db \<Rightarrow> pydantic \<Rightarrow> per_model_config \<Rightarrow> (bucket_id, pyfloat) dict
   \<Rightarrow> (bucket_id, pyfloat) dict option \<Rightarrow> per_model_config result" where
  "cfg_with_preserved_runtime_max_capacity ud pd cfg old_snapshot runtime_overrides =
     (case runtime_overrides of
        None \<Rightarrow> Inr cfg
      | Some overrides \<Rightarrow>
          if overrides = [] then Inr cfg
          else bind_res (for_each (uq_iter (cfg_quotas cfg)) (\<lambda>q rebuilt.
              case override_for old_snapshot overrides q of
                None \<Rightarrow> Inr (rebuilt @ [q])
              | Some ov \<Rightarrow> bind_res (quota_revalidate ud pd (q\<lparr>q_limit := ov\<rparr>))
                  (\<lambda>q'. Inr (rebuilt @ [q']))) [])
            (\<lambda>rebuilt.
              if list_all (\<lambda>q. override_for old_snapshot overrides q = None) (uq_iter (cfg_quotas cfg))
              then Inr cfg
              else bind_res (mk_usage_quotas ud pd rebuilt False) (\<lambda>qs.
                config_with_family ud pd (cfg\<lparr>cfg_quotas := qs\<rparr>) (cfg_model_family cfg))))"

text \<open>
  \<^verbatim>\<open>_project_refund_scope\<close>: what of a reservation is refunded to the buckets that are still
  there. The dictionaries built over a set of metric names are listed in sorted order.
\<close>

definition project_usage :: "usage \<Rightarrow> pystr set \<Rightarrow> usage" where
  "project_usage u names = map (\<lambda>m. (m, dict_get u m (Fin 0))) (sorted_list_of_set names)"

definition project_refund_scope ::
  "usage \<Rightarrow> usage \<Rightarrow> bucket_id set option \<Rightarrow> bucket_id set option
   \<Rightarrow> usage \<times> usage \<times> bucket_id set option \<times> bool" where
  "project_refund_scope reserved actual bucket_ids active =
     (case active of
        None \<Rightarrow> (reserved, actual, bucket_ids, False)
      | Some act \<Rightarrow> (case bucket_ids of
          None \<Rightarrow>
            if set (dict_keys reserved) = fst ` act then (reserved, actual, Some act, False)
            else (project_usage reserved (fst ` act), project_usage actual (fst ` act), Some act, False)
        | Some ids \<Rightarrow>
            let surviving = ids \<inter> act in
            if surviving = {} then ([], [], Some {}, True)
            else if set (dict_keys reserved) = fst ` surviving
            then (reserved, actual, Some surviving, False)
            else (project_usage reserved (fst ` surviving), project_usage actual (fst ` surviving),
                  Some surviving, False)))"

text \<open>\<^verbatim>\<open>_raise_backend_external_error\<close>: errors of the Redis client become \<^verbatim>\<open>RuntimeError\<close>.\<close>

definition external_error :: "rfailure \<Rightarrow> rfailure" where
  "external_error e = (case e of
      RedisFailure m \<Rightarrow> Plain (RuntimeError ''Rate limiter backend operation failed with a Redis error'')
    | f \<Rightarrow> f)"

section \<open>Construction\<close>

datatype cfg_argument = CfgStatic per_model_config | CfgGetter | CfgAsyncGetter | CfgOther

datatype callbacks_argument = NoCallbacks | SyncCallbacks | OtherCallbacks

text \<open>A backend builder, as the constructor looks at it, and its optional lifetime hooks.\<close>

record builder_object =
  bo_build :: bool
  bo_build_async :: bool
  bo_redis_cluster :: bool
  bo_resolve_lifetime :: "(pyfloat option \<Rightarrow> pyval result) option"
  bo_validate_lifetime :: "(pyfloat option \<Rightarrow> unit result) option"

record limiter_args =
  la_cfg :: cfg_argument
  la_backend :: builder_object
  la_callbacks :: callbacks_argument
  la_callback_timeout :: pyval
  la_close_drain_timeout :: pyval
  la_max_model_families :: pyval
  la_max_metrics_per_family :: pyval
  la_max_aliases :: pyval
  la_max_in_flight :: pyval
  la_max_model_family_length :: pyval
  la_max_metric_length :: pyval
  la_max_alias_length :: pyval
  la_max_lifetime :: pyval
  la_pid_check :: pyval

definition validate_sync_backend_builder :: "builder_object \<Rightarrow> unit result" where
  "validate_sync_backend_builder b =
     (if bo_build b then Inr ()
      else if bo_build_async b
      then Inl (TypeError ''backend must be a sync BackendBuilder; use RateLimiter for asynchronous backend builders'')
      else Inl (TypeError ''backend must be a BackendBuilder with callable build()''))"

definition raise_if_redis_cluster_backend :: "builder_object \<Rightarrow> unit result" where
  "raise_if_redis_cluster_backend b =
     guard (\<not> bo_redis_cluster b) (ValueError ''token-throttle does not support Redis Cluster'')"

definition resolve_backend_reservation_lifetime :: "builder_object \<Rightarrow> pyval \<Rightarrow> pyfloat option result" where
  "resolve_backend_reservation_lifetime b lifetime =
     bind_res (validate_max_reservation_lifetime_seconds lifetime) (\<lambda>l.
     bind_res (case bo_resolve_lifetime b of
         None \<Rightarrow> Inr l
       | Some resolve \<Rightarrow> bind_res (resolve l) validate_max_reservation_lifetime_seconds) (\<lambda>l.
     bind_res (case bo_validate_lifetime b of None \<Rightarrow> Inr () | Some v \<Rightarrow> v l) (\<lambda>_. Inr l)))"

definition validate_limiter_objects :: "unicode_db \<Rightarrow> pydantic \<Rightarrow> limiter_args \<Rightarrow> unit result" where
  "validate_limiter_objects ud pd a =
     bind_res (guard (case la_pid_check a of VBool _ \<Rightarrow> True | _ \<Rightarrow> False)
       (ValueError ''pid_check must be a bool'')) (\<lambda>_.
     bind_res (case la_cfg a of
         CfgAsyncGetter \<Rightarrow> Inl (ValueError ''cfg must be a synchronous PerModelConfig getter'')
       | CfgOther \<Rightarrow> Inl (ValueError ''cfg must be a PerModelConfig or synchronous getter'')
       | CfgGetter \<Rightarrow> Inr ()
       | CfgStatic c \<Rightarrow> bind_res (config_with_family ud pd c (cfg_model_family c)) (\<lambda>_. Inr ())) (\<lambda>_.
     bind_res (guard (la_callbacks a \<noteq> OtherCallbacks)
       (TypeError ''callbacks must be a SyncRateLimiterCallbacks instance or None'')) (\<lambda>_.
     bind_res (validate_sync_backend_builder (la_backend a)) (\<lambda>_.
       raise_if_redis_cluster_backend (la_backend a)))))"

definition mk_limiter ::
  "unicode_db \<Rightarrow> pydantic \<Rightarrow> limiter_args \<Rightarrow> nat \<Rightarrow> pystr \<Rightarrow> 'b limiter result" where
  "mk_limiter ud pd a pid instance_id =
     bind_res (validate_limiter_objects ud pd a) (\<lambda>_.
     bind_res (resolve_backend_reservation_lifetime (la_backend a) (la_max_lifetime a)) (\<lambda>lifetime.
     bind_res (validate_timeout (la_callback_timeout a)) (\<lambda>cb_timeout.
     bind_res (validate_positive_int_cap None (la_max_model_families a)) (\<lambda>families.
     bind_res (validate_positive_int_cap None (la_max_metrics_per_family a)) (\<lambda>metrics.
     bind_res (validate_positive_int_cap None (la_max_aliases a)) (\<lambda>aliases.
     bind_res (validate_positive_int_cap None (la_max_in_flight a)) (\<lambda>in_flight.
     bind_res (validate_positive_int_cap (Some (int MAX_MODEL_FAMILY_LENGTH))
       (la_max_model_family_length a)) (\<lambda>family_length.
     bind_res (validate_positive_int_cap (Some (int MAX_METRIC_LENGTH)) (la_max_metric_length a)) (\<lambda>metric_length.
     bind_res (validate_positive_int_cap (Some (int MAX_ALIAS_LENGTH)) (la_max_alias_length a)) (\<lambda>alias_length.
     bind_res (validate_timeout (la_close_drain_timeout a)) (\<lambda>close_timeout.
       Inr \<lparr>l_max_lifetime = lifetime, l_pid_check = (la_pid_check a = VBool True), l_pid = pid,
         l_callback_timeout = cb_timeout, l_max_model_families = families,
         l_max_metrics_per_family = metrics, l_max_aliases = aliases, l_max_in_flight = in_flight,
         l_max_model_family_length = family_length, l_max_metric_length = metric_length,
         l_max_alias_length = alias_length, l_backends = [], l_model_names = [], l_quotas = [],
         l_families = [], l_runtime_max = [], l_family_signature = [], l_model_signature = [],
         l_signature_counts = [], l_alias_counts = [], l_refunded = [], l_refunded_cap = 131072,
         l_locks = [], l_lock_refs = [], l_locks_held = {}, l_next_lock = 0, l_in_progress = {},
         l_pending = {}, l_delivery = {}, l_drained = True, l_close_timeout = close_timeout,
         l_instance_id = instance_id, l_in_flight = {}, l_snapshots = [], l_closing = False,
         l_in_flight_family = [], l_last_touched = [], l_closed = False,
         l_close_drained = False\<rparr>)))))))))))"

text \<open>\<^verbatim>\<open>snapshot_state()\<close>; the backend type is the name of the builder's module.\<close>

record health_snapshot =
  hs_in_flight :: nat
  hs_model_families :: nat
  hs_backend_type :: string
  hs_marker_estimate :: "nat option"
  hs_dedup_estimate :: "nat option"

definition snapshot_state :: "string \<Rightarrow> 'b limiter \<Rightarrow> health_snapshot" where
  "snapshot_state backend_type l =
     (let n = card (l_in_flight l \<union> l_pending l);
          durable = backend_type \<in> {''redis'', ''sqlite''} in
      \<lparr>hs_in_flight = n, hs_model_families = length (l_backends l), hs_backend_type = backend_type,
        hs_marker_estimate = (if durable then Some n else None),
        hs_dedup_estimate = (if durable
          then Some (length (filter (refund_state_is_committed \<circ> snd) (l_refunded l))) else None)\<rparr>)"

end
