(* ===== verification/LimiterFamilies.thy ===== *)
theory LimiterFamilies
  imports Limiter
begin

text \<open>
  \<^verbatim>\<open>_sync_rate_limiter.py\<close>: which configuration a model has, the caps on what is remembered, the
  agreement of the models of one family, and the backend of a family with its quota changes
  and runtime overrides.
\<close>

section \<open>Entry checks\<close>

definition check_public_entry :: "('b, 'w) outside \<Rightarrow> ('b, 'w, unit) act" where
  "check_public_entry W s = (case s of (l, w) \<Rightarrow>
     (if l_pid_check l \<and> getpid W w \<noteq> l_pid l
      then Inl (Plain (RuntimeError ''RateLimiter is process-affine'')) else Inr (), (l, w)))"

definition warn :: "('b, 'w) outside \<Rightarrow> limiter_warning \<Rightarrow> ('b, 'w, unit) act" where
  "warn W k = in_world (warnings_warn W k)"

definition warn_if_running_in_event_loop :: "('b, 'w) outside \<Rightarrow> ('b, 'w, unit) act" where
  "warn_if_running_in_event_loop W s = (case s of (l, w) \<Rightarrow>
     if \<not> loop_running W w \<or> getpid W w \<in> warned_pids W w then (Inr (), s)
     else warn W SyncInAsync (l, mark_warned W (getpid W w) w))"

definition limiter_closed_error :: rfailure where
  "limiter_closed_error = Plain (RuntimeError ''SyncRateLimiter is closed'')"

definition raise_if_closed :: "('b, 'w, unit) act" where
  "raise_if_closed = op_bind (look l_closed) (\<lambda>c. op_require (\<not> c) limiter_closed_error)"

definition raise_if_closed_or_closing :: "('b, 'w, unit) act" where
  "raise_if_closed_or_closing =
     op_bind (look (\<lambda>l. l_closed l \<or> l_closing l)) (\<lambda>c. op_require (\<not> c) limiter_closed_error)"

section \<open>Caps\<close>

definition enforce_resolved_config_caps ::
  "'b limiter \<Rightarrow> pystr \<Rightarrow> pystr \<Rightarrow> per_model_config \<Rightarrow> unit result" where
  "enforce_resolved_config_caps l model model_family cfg =
     (let metrics = remdups (map q_metric (uq_iter (cfg_quotas cfg))) in
      if l_max_alias_length l < int (length model)
      then Inl (CardinalityLimitExceededError ''max_alias_length exceeded'')
      else if l_max_model_family_length l < int (length model_family)
      then Inl (CardinalityLimitExceededError ''max_model_family_length exceeded'')
      else if list_ex (\<lambda>m. l_max_metric_length l < int (length m)) metrics
      then Inl (CardinalityLimitExceededError ''max_metric_length exceeded'')
      else if l_max_metrics_per_family l < int (length metrics)
      then Inl (CardinalityLimitExceededError ''max_metrics_per_family exceeded'')
      else Inr ())"

definition enforce_new_model_family_cap :: "'b limiter \<Rightarrow> pystr \<Rightarrow> unit result" where
  "enforce_new_model_family_cap l model_family =
     guard (\<not> (map_of (l_family_signature l) model_family = None \<and>
              l_max_model_families l \<le> int (length (l_family_signature l))))
       (CardinalityLimitExceededError ''max_model_families exceeded'')"

definition enforce_new_alias_cap :: "'b limiter \<Rightarrow> pystr \<Rightarrow> unit result" where
  "enforce_new_alias_cap l model =
     guard (\<not> (map_of (l_families l) model = None \<and>
              l_max_aliases l \<le> int (length (l_families l))))
       (CardinalityLimitExceededError ''max_aliases exceeded'')"

definition in_flight_room :: "'b limiter \<Rightarrow> pystr \<Rightarrow> unit result" where
  "in_flight_room l rid =
     guard (\<not> (rid \<notin> l_in_flight l \<and> rid \<notin> l_pending l \<and>
              l_max_in_flight l \<le> int (card (l_in_flight l) + card (l_pending l))))
       (CardinalityLimitExceededError ''max_in_flight_reservations exceeded'')"

section \<open>Reservations in flight\<close>

definition add_in_flight :: "reservation \<Rightarrow> 'b limiter \<Rightarrow> 'b limiter" where
  "add_in_flight r l = l\<lparr>l_in_flight := insert (r_id r) (l_in_flight l),
     l_in_flight_family := dict_set (r_id r) (r_model_family r) (l_in_flight_family l),
     l_snapshots := dict_set (r_id r) r (l_snapshots l)\<rparr>"

definition remember_in_flight_reservation :: "reservation \<Rightarrow> ('b, 'w, unit) act" where
  "remember_in_flight_reservation r =
     op_seq (checked (\<lambda>l. in_flight_room l (r_id r))) (on_limiter (add_in_flight r))"

definition forget_in_flight_reservation :: "pystr \<Rightarrow> 'b limiter \<Rightarrow> 'b limiter" where
  "forget_in_flight_reservation rid l = l\<lparr>l_in_flight := l_in_flight l - {rid},
     l_pending := l_pending l - {rid},
     l_delivery := l_delivery l - {rid},
     l_in_flight_family := dict_pop rid (l_in_flight_family l),
     l_snapshots := dict_pop rid (l_snapshots l)\<rparr>"

definition authoritative_reservation_for_refund :: "'b limiter \<Rightarrow> reservation \<Rightarrow> reservation" where
  "authoritative_reservation_for_refund l r =
     (case map_of (l_snapshots l) (r_id r) of None \<Rightarrow> r | Some snapshot \<Rightarrow> snapshot)"

definition verify_reservation_bound_to_limiter :: "'b limiter \<Rightarrow> reservation \<Rightarrow> unit result" where
  "verify_reservation_bound_to_limiter l r =
     guard (r_limiter_instance_id r = l_instance_id l) UnknownReservationError"

section \<open>Configuration of a model\<close>

text \<open>
  \<^verbatim>\<open>_config_getter(model)\<close>: the model name is validated, the application's getter called with
  it, and its answer resolved. The usage counter of the configuration travels beside it.
\<close>

definition config_getter_full ::
  "('b, 'w) outside \<Rightarrow> pystr
   \<Rightarrow> ('b, 'w, per_model_config \<times> (request \<Rightarrow> ('w, pyval) wop) option) act" where
  "config_getter_full W model =
     op_bind (look (\<lambda>l. (nat (l_max_model_family_length l), nat (l_max_alias_length l)))) (\<lambda>(fam_len, alias_len).
     op_bind (lift_result (validate_model_name (udb W) (VStr model) alias_len)) (\<lambda>name.
     op_bind (in_world (getter W name)) (\<lambda>(cfg, counter).
     op_bind (lift_result (resolve_config (udb W) (pyd W) (StaticConfig cfg) (VStr model) fam_len alias_len))
       (\<lambda>resolved. op_return (resolved, counter)))))"

definition config_getter :: "('b, 'w) outside \<Rightarrow> pystr \<Rightarrow> ('b, 'w, per_model_config) act" where
  "config_getter W model = op_bind (config_getter_full W model) (\<lambda>p. op_return (fst p))"

definition validated_model_family :: "'b limiter \<Rightarrow> pystr \<Rightarrow> per_model_config \<Rightarrow> pystr result" where
  "validated_model_family l model cfg =
     bind_res (get_model_family cfg) (\<lambda>resolved.
     bind_res (enforce_resolved_config_caps l model resolved cfg) (\<lambda>_.
       case map_of (l_families l) model of
         Some previous \<Rightarrow>
           if previous \<noteq> resolved
           then Inl (ValueError ''Config for model changed model_family'') else Inr resolved
       | None \<Rightarrow> Inr resolved))"

definition touch_model_family :: "('b, 'w) outside \<Rightarrow> pystr \<Rightarrow> ('b, 'w, unit) act" where
  "touch_model_family W fam = op_bind (clock (monotonic W)) (\<lambda>t.
     on_limiter (\<lambda>l. l\<lparr>l_last_touched := dict_set fam t (l_last_touched l)\<rparr>))"

section \<open>Agreement of the models of a family\<close>

text \<open>\<^verbatim>\<open>next_counts\<close>: the counts of a family without the model's previous signature.\<close>

definition without_previous ::
  "(signature, int) dict \<Rightarrow> signature option \<Rightarrow> (signature, int) dict" where
  "without_previous counts previous = (case previous of
      None \<Rightarrow> counts
    | Some p \<Rightarrow> let n = dict_get counts p 0 in
        if n \<le> 1 then dict_pop p counts else dict_set p (n - 1) counts)"

definition conflicting_signatures :: "(signature, int) dict \<Rightarrow> signature \<Rightarrow> signature list" where
  "conflicting_signatures counts current =
     map fst (filter (\<lambda>(s, n). 0 < n \<and> s \<noteq> current) counts)"

definition family_inconsistent_error :: rfailure where
  "family_inconsistent_error = Plain (ValueError ''Config for model_family is inconsistent across models'')"

text \<open>
  A conflict is settled when the model that represents the family now has the same
  configuration: then every alias counts for it.
\<close>

definition settle_conflict ::
  "('b, 'w) outside \<Rightarrow> pystr \<Rightarrow> pystr \<Rightarrow> signature \<Rightarrow> (signature, int) dict
   \<Rightarrow> ('b, 'w, (signature, int) dict \<times> bool) act" where
  "settle_conflict W model fam current counts =
     (if conflicting_signatures counts current = [] then op_return (counts, False)
      else op_bind (look (\<lambda>l. map_of (l_model_names l) fam)) (\<lambda>representative.
        case representative of
          None \<Rightarrow> op_raise family_inconsistent_error
        | Some rep \<Rightarrow>
            if rep = model then op_raise family_inconsistent_error
            else op_bind (config_getter W rep) (\<lambda>rep_cfg.
              op_bind (checked (\<lambda>l. validated_model_family l rep rep_cfg)) (\<lambda>rep_fam.
                if rep_fam = fam \<and> config_signature rep_cfg = current
                then look (\<lambda>l. ([(current, dict_get (l_alias_counts l) fam 0)], True))
                else op_raise family_inconsistent_error))))"

definition register_alias ::
  "pystr \<Rightarrow> pystr \<Rightarrow> signature \<Rightarrow> signature option \<Rightarrow> (signature, int) dict
   \<Rightarrow> (signature, int) dict \<Rightarrow> bool \<Rightarrow> 'b limiter \<Rightarrow> 'b limiter" where
  "register_alias model fam current previous old_counts counts reset l =
     (let is_new_alias = map_of (l_families l) model = None;
          already_counted = (case previous of None \<Rightarrow> False
            | Some p \<Rightarrow> reset \<or> map_of old_counts p = None);
          counts' = (if is_new_alias \<or> \<not> already_counted
            then dict_set current (dict_get counts current 0 + 1) counts else counts) in
      l\<lparr>l_families := dict_set model fam (l_families l),
        l_model_signature := dict_set model current (l_model_signature l),
        l_signature_counts := dict_set fam counts' (l_signature_counts l),
        l_alias_counts := (if is_new_alias
          then dict_set fam (dict_get (l_alias_counts l) fam 0 + 1) (l_alias_counts l)
          else l_alias_counts l),
        l_family_signature := dict_set fam current (l_family_signature l)\<rparr>)"

text \<open>The critical section of \<^verbatim>\<open>_validation_lock\<close>.\<close>

definition validate_shared_locked ::
  "('b, 'w) outside \<Rightarrow> pystr \<Rightarrow> pystr \<Rightarrow> signature \<Rightarrow> bool \<Rightarrow> ('b, 'w, unit) act" where
  "validate_shared_locked W model fam current register =
     op_bind (look (\<lambda>l. map_of (l_model_signature l) model)) (\<lambda>previous.
       if previous = Some current then touch_model_family W fam
       else op_bind (look (\<lambda>l. dict_get (l_signature_counts l) fam [])) (\<lambda>old_counts.
         op_bind (settle_conflict W model fam current (without_previous old_counts previous))
           (\<lambda>(counts, reset).
             op_block [
               checked (\<lambda>l. enforce_new_model_family_cap l fam),
               checked (\<lambda>l. enforce_new_alias_cap l model),
               op_when register (op_block [
                 on_limiter (register_alias model fam current previous old_counts counts reset),
                 touch_model_family W fam])])))"

definition validate_shared_model_family_config ::
  "('b, 'w) outside \<Rightarrow> pystr \<Rightarrow> per_model_config \<Rightarrow> bool \<Rightarrow> ('b, 'w, unit) act" where
  "validate_shared_model_family_config W model cfg register =
     op_bind (lift_result (get_model_family cfg)) (\<lambda>fam.
     op_bind (look (\<lambda>l. map_of (l_model_signature l) model)) (\<lambda>previous.
       if previous = Some (config_signature cfg) then touch_model_family W fam
       else op_seq (pause W) (validate_shared_locked W model fam (config_signature cfg) register)))"

section \<open>Runtime overrides\<close>

definition remember_runtime_max_capacity ::
  "pystr \<Rightarrow> bucket_id \<Rightarrow> pyfloat \<Rightarrow> 'b limiter \<Rightarrow> 'b limiter" where
  "remember_runtime_max_capacity fam k v l =
     l\<lparr>l_runtime_max := dict_set fam (dict_set k v (dict_get (l_runtime_max l) fam []))
       (l_runtime_max l)\<rparr>"

definition clear_runtime_max_capacity :: "pystr \<Rightarrow> bucket_id set \<Rightarrow> 'b limiter \<Rightarrow> 'b limiter" where
  "clear_runtime_max_capacity fam ks l =
     (case map_of (l_runtime_max l) fam of
        None \<Rightarrow> l
      | Some overrides \<Rightarrow>
          if ks = {} \<or> overrides = [] then l
          else let rest = filter (\<lambda>p. fst p \<notin> ks) overrides in
            l\<lparr>l_runtime_max := (if rest = [] then dict_pop fam (l_runtime_max l)
                               else dict_set fam rest (l_runtime_max l))\<rparr>)"

text \<open>\<^verbatim>\<open>_restore_runtime_max_capacity\<close>: the overrides of buckets whose limit did not change.\<close>

definition restorable_overrides ::
  "(bucket_id, pyfloat) dict \<Rightarrow> (bucket_id, pyfloat) dict \<Rightarrow> (bucket_id, pyfloat) dict
   \<Rightarrow> (bucket_id, pyfloat) dict" where
  "restorable_overrides old_snapshot new_snapshot overrides =
     filter (\<lambda>(k, v). map_of new_snapshot k \<noteq> None \<and> map_of old_snapshot k = map_of new_snapshot k)
       overrides"

definition restore_runtime_max_capacity ::
  "('b, 'w) outside \<Rightarrow> pystr \<Rightarrow> (bucket_id, pyfloat) dict \<Rightarrow> (bucket_id, pyfloat) dict \<Rightarrow> 'b
   \<Rightarrow> ('b, 'w, unit) act" where
  "restore_runtime_max_capacity W fam old_snapshot new_snapshot backend =
     (if bk_is_sqlite W backend
      then on_limiter (\<lambda>l. l\<lparr>l_runtime_max := dict_pop fam (l_runtime_max l)\<rparr>)
      else op_bind (look (\<lambda>l. dict_get (l_runtime_max l) fam [])) (\<lambda>overrides.
        op_when (overrides \<noteq> [])
          (let restored = restorable_overrides old_snapshot new_snapshot overrides in
           op_seq (op_for_each restored (\<lambda>((metric, p), v). in_world (bk_set_max W backend metric p v)))
             (on_limiter (\<lambda>l. l\<lparr>l_runtime_max :=
                (if restored \<noteq> [] then dict_set fam restored (l_runtime_max l)
                 else dict_pop fam (l_runtime_max l))\<rparr>)))))"

section \<open>The backend of a family\<close>

text \<open>\<^verbatim>\<open>d[key]\<close> raises \<^verbatim>\<open>KeyError\<close> on an absent key.\<close>

definition dict_index :: "('k, 'v) dict \<Rightarrow> 'k \<Rightarrow> 'v result" where
  "dict_index d k = (case map_of d k of None \<Rightarrow> Inl KeyError | Some v \<Rightarrow> Inr v)"

text \<open>
  The critical section of \<^verbatim>\<open>_acquire_guard\<close> in a rebuild: no acquisition of the family other
  than the caller's own may be pending, and the cached snapshot is dropped, so that nobody
  takes the old backend while the new one is built.
\<close>

definition invalidate_quotas :: "pystr \<Rightarrow> pystr option \<Rightarrow> 'b limiter \<Rightarrow> 'b limiter result" where
  "invalidate_quotas fam own l =
     (if \<exists>rid \<in> l_pending l. Some rid \<noteq> own \<and> map_of (l_in_flight_family l) rid = Some fam
      then Inl (ValueError ''Cannot change quota bucket set while other pending acquisitions exist'')
      else Inr (l\<lparr>l_quotas := dict_pop fam (l_quotas l)\<rparr>))"

definition rebuild_backend ::
  "('b, 'w) outside \<Rightarrow> per_model_config \<Rightarrow> pystr \<Rightarrow> pystr option \<Rightarrow> (bucket_id, pyfloat) dict
   \<Rightarrow> (bucket_id, pyfloat) dict \<Rightarrow> ('b, 'w, 'b) act" where
  "rebuild_backend W cfg fam own old_snapshot new_snapshot =
     op_bind (checked (\<lambda>l. dict_index (l_backends l) fam)) (\<lambda>old_backend.
     op_bind (in_world (bk_metric_set_change W old_backend)) (\<lambda>supported.
     op_seq (op_require supported (Plain (RuntimeError ''backend does not support metric-set changes'')))
     (op_seq (op_require (\<not> bk_default_prepare W old_backend)
        (Plain (RuntimeError ''Custom backend did not override prepare_reconfigured_backend'')))
     (op_seq (warn W QuotaSetChanged)
     (op_bind (look (\<lambda>l. if bk_is_sqlite W old_backend then None else map_of (l_runtime_max l) fam))
       (\<lambda>overrides.
     op_bind (lift_result (cfg_with_preserved_runtime_max_capacity (udb W) (pyd W) cfg old_snapshot overrides))
       (\<lambda>rebuild_cfg.
     op_bind (checked (invalidate_quotas fam own)) (\<lambda>invalidated.
     op_seq (on_limiter (\<lambda>_. invalidated))
     (op_seq (pause W)
     (op_bind (op_try
         (op_bind (in_world (build W rebuild_cfg)) (\<lambda>fresh.
          op_bind (in_world (bk_prepare W old_backend fresh rebuild_cfg)) (\<lambda>prepared.
          op_seq (restore_runtime_max_capacity W fam old_snapshot new_snapshot prepared)
            (op_return prepared))))
         (\<lambda>e. op_seq (on_limiter (\<lambda>l. l\<lparr>l_quotas := dict_set fam old_snapshot (l_quotas l)\<rparr>)) (op_raise e)))
       (\<lambda>backend.
     op_seq (on_limiter (\<lambda>l. l\<lparr>l_backends := dict_set fam backend (l_backends l),
         l_quotas := dict_set fam new_snapshot (l_quotas l)\<rparr>))
       (op_return backend))))))))))))"

definition changed_limits ::
  "(bucket_id, pyfloat) dict \<Rightarrow> (bucket_id, pyfloat) dict \<Rightarrow> (bucket_id, pyfloat) dict" where
  "changed_limits old_snapshot new_snapshot = filter (\<lambda>(k, v). map_of old_snapshot k \<noteq> Some v) new_snapshot"

definition update_limits ::
  "('b, 'w) outside \<Rightarrow> pystr \<Rightarrow> (bucket_id, pyfloat) dict \<Rightarrow> (bucket_id, pyfloat) dict
   \<Rightarrow> ('b, 'w, 'b) act" where
  "update_limits W fam old_snapshot new_snapshot =
     op_bind (checked (\<lambda>l. dict_index (l_backends l) fam)) (\<lambda>backend.
     op_seq (op_for_each (changed_limits old_snapshot new_snapshot)
       (\<lambda>((metric, p), v). in_world (bk_apply_configured W backend metric p v)))
     (op_seq (on_limiter (clear_runtime_max_capacity fam (fst ` set (changed_limits old_snapshot new_snapshot))))
     (op_seq (on_limiter (\<lambda>l. l\<lparr>l_quotas := dict_set fam new_snapshot (l_quotas l)\<rparr>))
       (op_return backend))))"

definition sync_backend_quotas ::
  "('b, 'w) outside \<Rightarrow> per_model_config \<Rightarrow> pystr option \<Rightarrow> ('b, 'w, 'b) act" where
  "sync_backend_quotas W cfg own =
     op_bind (lift_result (get_model_family cfg)) (\<lambda>fam.
     op_bind (checked (\<lambda>l. dict_index (l_quotas l) fam)) (\<lambda>old_snapshot.
       let new_snapshot = quotas_snapshot cfg in
       if dict_eq new_snapshot old_snapshot then checked (\<lambda>l. dict_index (l_backends l) fam)
       else if set (dict_keys new_snapshot) \<noteq> set (dict_keys old_snapshot)
       then rebuild_backend W cfg fam own old_snapshot new_snapshot
       else update_limits W fam old_snapshot new_snapshot))"

definition same_quotas :: "(bucket_id, pyfloat) dict option \<Rightarrow> (bucket_id, pyfloat) dict \<Rightarrow> bool" where
  "same_quotas cached new_snapshot = (case cached of None \<Rightarrow> False | Some d \<Rightarrow> dict_eq d new_snapshot)"

definition get_backend ::
  "('b, 'w) outside \<Rightarrow> per_model_config \<Rightarrow> pystr option \<Rightarrow> ('b, 'w, 'b) act" where
  "get_backend W cfg own =
     op_bind (lift_result (get_model_family cfg)) (\<lambda>fam.
     op_bind (look (\<lambda>l. (map_of (l_backends l) fam, map_of (l_quotas l) fam))) (\<lambda>(cached, quotas).
       case (if same_quotas quotas (quotas_snapshot cfg) then cached else None) of
         Some backend \<Rightarrow> op_return backend
       | None \<Rightarrow> op_seq (pause W)
          (op_bind (look (\<lambda>l. map_of (l_backends l) fam)) (\<lambda>cached. case cached of
             Some _ \<Rightarrow> sync_backend_quotas W cfg own
           | None \<Rightarrow> op_bind (in_world (build W cfg)) (\<lambda>backend.
               op_seq (on_limiter (\<lambda>l. l\<lparr>l_backends := dict_set fam backend (l_backends l),
                   l_quotas := dict_set fam (quotas_snapshot cfg) (l_quotas l)\<rparr>))
                 (op_return backend))))))"

text \<open>
  \<^verbatim>\<open>_refresh_backend_for_reservation\<close>: a refund first applies the current configuration of the
  reservation's model, but a failure to do so must not block it.
\<close>

definition refresh_backend_for_reservation ::
  "('b, 'w) outside \<Rightarrow> reservation \<Rightarrow> ('b, 'w, unit) act" where
  "refresh_backend_for_reservation W r =
     op_bind (look (\<lambda>l. case r_model r of
         Some m \<Rightarrow> if m = [] then map_of (l_model_names l) (r_model_family r) else Some m
       | None \<Rightarrow> map_of (l_model_names l) (r_model_family r))) (\<lambda>model_name.
     case model_name of
       None \<Rightarrow> op_return ()
     | Some name \<Rightarrow>
         op_bind (op_try (op_bind (config_getter W name) (\<lambda>cfg. op_return (Some cfg)))
           (\<lambda>e. if is_exception e then op_seq (warn W RefundRefreshFailed) (op_return None) else op_raise e))
         (\<lambda>limit_config. case limit_config of
             None \<Rightarrow> op_return ()
           | Some cfg \<Rightarrow>
               op_seq (op_require (\<not> config_is_unlimited cfg)
                 (Plain (ValueError ''refund across a limited-to-unlimited config change is not supported'')))
               (op_bind (lift_result (get_model_family cfg)) (\<lambda>current_family.
                op_seq (op_require (current_family = r_model_family r)
                  (Plain (ValueError ''refund across model_family rerouting is not supported'')))
                (op_try (op_bind (get_backend W cfg None) (\<lambda>_. op_return ()))
                  (\<lambda>e. if is_exception e then warn W RefundRefreshFailed else op_raise e))))))"

end
