(* ===== verification/LimiterOps.thy ===== *)
theory LimiterOps
  imports LimiterFamilies
begin

text \<open>
  \<^verbatim>\<open>_sync_rate_limiter.py\<close>: the public methods. A method is a sequence of critical sections; a
  \<open>pause\<close> stands wherever it holds no lock that matters or waits, and lets the other threads
  run. The clean-up handlers of the code are the \<open>op_try\<close> and \<open>op_finally\<close> around them.
\<close>

section \<open>Usage as values\<close>

definition raw_of_usage :: "usage \<Rightarrow> raw_usage" where
  "raw_of_usage u = map (\<lambda>(m, a). (m, VFloat a)) u"

definition value_of_raw :: "raw_usage \<Rightarrow> pyval" where
  "value_of_raw u = VDict (map (\<lambda>(m, v). (VStr m, v)) u)"

definition value_of_bucket_ids :: "bucket_id set \<Rightarrow> pyval" where
  "value_of_bucket_ids ks = VList (map (\<lambda>(m, p). VTuple [VStr m, VInt p]) (sorted_list_of_set ks))"

section \<open>Lifecycle events\<close>

text \<open>\<^verbatim>\<open>safe_invoke_sync_callback\<close>: only critical exceptions leave a callback.\<close>

definition safe_invoke_sync_callback :: "('s, 'r failure, unit) eff \<Rightarrow> ('s, 'r failure, unit) eff" where
  "safe_invoke_sync_callback m = op_try m (\<lambda>e. if is_critical e then op_raise e else op_return ())"

definition emit_lifecycle_event :: "('b, 'w) outside \<Rightarrow> lifecycle_event \<Rightarrow> ('b, 'w, unit) act" where
  "emit_lifecycle_event W ev = (case on_lifecycle_event W of
      None \<Rightarrow> op_return ()
    | Some callback \<Rightarrow> safe_invoke_sync_callback (in_world (callback ev)))"

text \<open>
  The callback may do what it likes to the world; other threads are let in before and after the
  emission, at the pauses of the methods that emit, not between two statements of it.
\<close>

definition emit_reservation_lifecycle_event ::
  "('b, 'w) outside \<Rightarrow> string \<Rightarrow> reservation \<Rightarrow> pystr option \<Rightarrow> usage \<Rightarrow> ('b, 'w, unit) act" where
  "emit_reservation_lifecycle_event W kind r request_id u =
     op_bind (clock (wall_time W)) (\<lambda>t. emit_lifecycle_event W
       \<lparr>le_type = kind, le_reservation_id = Some (r_id r), le_request_id = request_id,
         le_model_family = r_model_family r, le_model_alias = r_model r,
         le_bucket_ids = r_bucket_ids r, le_usage = Some u, le_timestamp = t\<rparr>)"

section \<open>Pending acquisitions\<close>

definition refresh_pending_drained :: "'b limiter \<Rightarrow> 'b limiter" where
  "refresh_pending_drained l = l\<lparr>l_drained := (l_pending l = {} \<and> l_delivery l = {})\<rparr>"

definition begin_pending_acquire :: "reservation \<Rightarrow> ('b, 'w, unit) act" where
  "begin_pending_acquire r = op_block [
     raise_if_closed_or_closing,
     on_limiter (\<lambda>l. l\<lparr>l_drained := False\<rparr>),
     checked (\<lambda>l. in_flight_room l (r_id r)),
     on_limiter (\<lambda>l. l\<lparr>l_pending := insert (r_id r) (l_pending l),
       l_in_flight_family := dict_set (r_id r) (r_model_family r) (l_in_flight_family l)\<rparr>)]"

definition finalize_pending_acquire ::
  "('b, 'w) outside \<Rightarrow> reservation \<Rightarrow> pystr \<Rightarrow> ('b, 'w, unit) act" where
  "finalize_pending_acquire W r model = op_block [
     on_limiter (\<lambda>l. add_in_flight r (l\<lparr>l_pending := l_pending l - {r_id r},
       l_model_names := dict_set (r_model_family r) model (l_model_names l)\<rparr>)),
     touch_model_family W (r_model_family r),
     on_limiter refresh_pending_drained]"

definition rollback_pending_acquire :: "pystr \<Rightarrow> 'b limiter \<Rightarrow> 'b limiter" where
  "rollback_pending_acquire rid l = refresh_pending_drained
     (l\<lparr>l_pending := l_pending l - {rid},
        l_in_flight_family := dict_pop rid (l_in_flight_family l),
        l_snapshots := dict_pop rid (l_snapshots l)\<rparr>)"

definition begin_acquire_delivery_cleanup :: "pystr \<Rightarrow> 'b limiter \<Rightarrow> 'b limiter" where
  "begin_acquire_delivery_cleanup rid l = l\<lparr>l_delivery := insert rid (l_delivery l), l_drained := False\<rparr>"

definition end_acquire_delivery_cleanup :: "pystr \<Rightarrow> 'b limiter \<Rightarrow> 'b limiter" where
  "end_acquire_delivery_cleanup rid l = refresh_pending_drained (l\<lparr>l_delivery := l_delivery l - {rid}\<rparr>)"

section \<open>The state of a refund\<close>

text \<open>Assignment moves the key to the end; the oldest entries go when the cap is passed.\<close>

definition trim_to :: "nat \<Rightarrow> 'a list \<Rightarrow> 'a list" where
  "trim_to cap xs = drop (length xs - cap) xs"

definition remember_refund_state :: "pystr \<Rightarrow> refund_state \<Rightarrow> 'b limiter \<Rightarrow> 'b limiter" where
  "remember_refund_state rid st l =
     l\<lparr>l_refunded := trim_to (l_refunded_cap l) (dict_pop rid (l_refunded l) @ [(rid, st)])\<rparr>"

definition commit_refund_state :: "('b, 'w) outside \<Rightarrow> pystr \<Rightarrow> pystr \<Rightarrow> ('b, 'w, unit) act" where
  "commit_refund_state W rid fam = op_block [
     on_limiter (remember_refund_state rid StateCommitted),
     on_limiter (forget_in_flight_reservation rid),
     touch_model_family W fam]"

definition mark_refund_state_failed :: "pystr \<Rightarrow> 'b limiter \<Rightarrow> 'b limiter" where
  "mark_refund_state_failed rid l =
     (if map_of (l_refunded l) rid = Some StatePending then remember_refund_state rid StateFailed l else l)"

definition clear_refund_state_if_pending :: "pystr \<Rightarrow> bool \<Rightarrow> 'b limiter \<Rightarrow> 'b limiter" where
  "clear_refund_state_if_pending rid forget_in_flight l =
     (let l' = (if map_of (l_refunded l) rid = Some StatePending
                then l\<lparr>l_refunded := dict_pop rid (l_refunded l)\<rparr> else l) in
      if forget_in_flight then forget_in_flight_reservation rid l' else l')"

section \<open>Per-reservation locks\<close>

definition take_lock_reference :: "pystr \<Rightarrow> 'b limiter \<Rightarrow> nat \<times> 'b limiter" where
  "take_lock_reference rid l = (case map_of (l_locks l) rid of
      Some k \<Rightarrow> (k, l\<lparr>l_lock_refs := dict_set rid (dict_get (l_lock_refs l) rid 0 + 1) (l_lock_refs l)\<rparr>)
    | None \<Rightarrow> (l_next_lock l, l\<lparr>l_next_lock := Suc (l_next_lock l),
        l_locks := dict_set rid (l_next_lock l) (l_locks l),
        l_lock_refs := dict_set rid 1 (l_lock_refs l)\<rparr>))"

definition release_lock_reference :: "pystr \<Rightarrow> nat \<Rightarrow> 'b limiter \<Rightarrow> 'b limiter" where
  "release_lock_reference rid k l =
     (let n = dict_get (l_lock_refs l) rid 0 - 1 in
      if n \<le> 0
      then (if map_of (l_locks l) rid = Some k
            then l\<lparr>l_locks := dict_pop rid (l_locks l), l_lock_refs := dict_pop rid (l_lock_refs l)\<rparr>
            else l)
      else l\<lparr>l_lock_refs := dict_set rid n (l_lock_refs l)\<rparr>)"

definition acquire_reservation_refund_lock :: "('b, 'w) outside \<Rightarrow> pystr \<Rightarrow> ('b, 'w, nat) act" where
  "acquire_reservation_refund_lock W rid =
     op_bind (look (take_lock_reference rid)) (\<lambda>(k, taken).
     op_seq (on_limiter (\<lambda>_. taken))
     (op_seq (op_try (await_lock W k)
        (\<lambda>e. op_seq (on_limiter (release_lock_reference rid k)) (op_raise e)))
     (op_seq (on_limiter (\<lambda>l. l\<lparr>l_locks_held := insert k (l_locks_held l)\<rparr>))
       (op_return k))))"

definition release_reservation_refund_lock :: "pystr \<Rightarrow> nat \<Rightarrow> ('b, 'w, unit) act" where
  "release_reservation_refund_lock rid k = op_block [
     on_limiter (\<lambda>l. l\<lparr>l_locks_held := l_locks_held l - {k}\<rparr>),
     on_limiter (release_lock_reference rid k)]"

section \<open>Refunds\<close>

text \<open>
  \<^verbatim>\<open>_refund_backend_state_signature\<close>: what the probe sees of a backend that has a bucket
  registry (the in-process ones), used to tell whether a failed refund was written.
\<close>

type_synonym backend_signature = "(bucket_id \<times> pyval \<times> pyval) list"

definition refund_backend_state_signature ::
  "('b, 'w) outside \<Rightarrow> 'b \<Rightarrow> bucket_id set option \<Rightarrow> 'w \<Rightarrow> backend_signature option" where
  "refund_backend_state_signature W backend ids w = (case bk_registry W backend w of
      None \<Rightarrow> None
    | Some registry \<Rightarrow>
        let target = (case ids of None \<Rightarrow> set (dict_keys registry) | Some ks \<Rightarrow> ks) in
        if target \<subseteq> set (dict_keys registry)
        then Some (map (\<lambda>k. (k, the (map_of registry k))) (sorted_list_of_set target))
        else None)"

definition refund_backend_state_changed ::
  "('b, 'w) outside \<Rightarrow> 'b \<Rightarrow> bucket_id set option \<Rightarrow> backend_signature option \<Rightarrow> 'w \<Rightarrow> bool" where
  "refund_backend_state_changed W backend ids pre w = (case pre of
      None \<Rightarrow> False
    | Some _ \<Rightarrow> (case refund_backend_state_signature W backend ids w of
        None \<Rightarrow> False
      | Some now \<Rightarrow> Some now \<noteq> pre))"

definition backend_has_acquire_marker_authority :: "('b, 'w) outside \<Rightarrow> 'b \<Rightarrow> ('b, 'w, bool) act" where
  "backend_has_acquire_marker_authority W backend =
     op_bind (in_world (bk_marker_authority W backend)) (\<lambda>supports.
       if supports \<noteq> VBool True then op_return False
       else if bk_default_refund W backend
       then op_raise (Plain (RuntimeError ''backend claims marker authority but did not override refund_capacity_for_buckets''))
       else op_return True)"

text \<open>The first critical section of a refund: it claims the reservation or refuses.\<close>

definition begin_refund :: "pystr \<Rightarrow> bool \<Rightarrow> ('b, 'w, unit) act" where
  "begin_refund rid allow_closed = op_block [
     op_when (\<not> allow_closed) raise_if_closed,
     op_bind (look (\<lambda>l. map_of (l_refunded l) rid)) (\<lambda>st. case st of
         Some x \<Rightarrow> op_require (\<not> refund_state_is_committed x) (Plain (DuplicateRefundError AlreadyRefunded))
       | None \<Rightarrow> op_return ()),
     op_bind (look (\<lambda>l. rid \<in> l_in_progress l)) (\<lambda>busy.
       op_require (\<not> busy) (Plain (DuplicateRefundError InProgress))),
     on_limiter (remember_refund_state rid StatePending),
     on_limiter (\<lambda>l. l\<lparr>l_in_progress := insert rid (l_in_progress l)\<rparr>)]"

record 'b refund_plan =
  rp_backend :: 'b
  rp_marker :: bool
  rp_reserved :: usage
  rp_actual :: usage
  rp_ids :: "bucket_id set option"
  rp_dropped :: bool
  rp_probe :: "backend_signature option"

text \<open>What a refund does before it calls the backend.\<close>

definition plan_refund ::
  "('b, 'w) outside \<Rightarrow> raw_usage \<Rightarrow> reservation \<Rightarrow> ('b, 'w, 'b refund_plan) act" where
  "plan_refund W actual r =
     op_bind (lift_result (frozen_usage (udb W) (value_of_raw actual))) (\<lambda>actual_usage.
     op_seq (refresh_backend_for_reservation W r)
     (op_bind (look (\<lambda>l. map_of (l_backends l) (r_model_family r))) (\<lambda>found. case found of
         None \<Rightarrow> op_raise (Plain (ValueError ''Backend not found for model family''))
       | Some backend \<Rightarrow>
           op_bind (look (\<lambda>l. r_id r \<in> l_in_flight l)) (\<lambda>in_flight.
           op_bind (backend_has_acquire_marker_authority W backend) (\<lambda>marker.
           op_seq (op_require (in_flight \<or> marker) (Plain UnknownReservationError))
           (op_bind (look (\<lambda>l. map_option (\<lambda>d. set (dict_keys d)) (map_of (l_quotas l) (r_model_family r)))) (\<lambda>active.
           case project_refund_scope (r_usage r) actual_usage (r_bucket_ids r) active of
             (reserved', actual', ids, dropped) \<Rightarrow>
               op_bind (op_gets (\<lambda>(l, w). refund_backend_state_signature W backend ids w)) (\<lambda>probe.
                 op_return \<lparr>rp_backend = backend, rp_marker = marker, rp_reserved = reserved',
                   rp_actual = actual', rp_ids = ids, rp_dropped = dropped, rp_probe = probe\<rparr>))))))))"

definition commit_if_changed ::
  "('b, 'w) outside \<Rightarrow> 'b refund_plan \<Rightarrow> reservation \<Rightarrow> ('b limiter \<Rightarrow> 'b limiter)
   \<Rightarrow> ('b, 'w, unit) act" where
  "commit_if_changed W p r otherwise s =
     (if refund_backend_state_changed W (rp_backend p) (rp_ids p) (rp_probe p) (snd s)
      then commit_refund_state W (r_id r) (r_model_family r) s
      else on_limiter otherwise s)"

definition refund_error_handler ::
  "('b, 'w) outside \<Rightarrow> 'b refund_plan \<Rightarrow> reservation \<Rightarrow> rfailure \<Rightarrow> ('b, 'w, unit) act" where
  "refund_error_handler W p r e = (case e of
      Plain (DuplicateRefundError _) \<Rightarrow>
        op_seq (commit_refund_state W (r_id r) (r_model_family r)) (op_raise e)
    | Plain UnknownReservationError \<Rightarrow>
        op_seq (on_limiter (clear_refund_state_if_pending (r_id r) False)) (op_raise e)
    | UnknownAndForget \<Rightarrow>
        op_seq (on_limiter (clear_refund_state_if_pending (r_id r) True)) (op_raise e)
    | _ \<Rightarrow> if is_exception e
        then op_seq (commit_if_changed W p r id) (op_raise (external_error e))
        else op_raise e)"

definition apply_refund ::
  "('b, 'w) outside \<Rightarrow> reservation \<Rightarrow> 'b refund_plan \<Rightarrow> ('b, 'w, unit) act" where
  "apply_refund W r p = op_block [
     op_try (op_block [pause W,
         in_world (bk_refund W (rp_backend p) (rp_reserved p) (rp_actual p) (rp_ids p) (r_id r)
           (r_model_family r) (r_bucket_ids r) (if rp_marker p then Some (r_usage r) else None))])
       (refund_error_handler W p r),
     commit_refund_state W (r_id r) (r_model_family r),
     emit_reservation_lifecycle_event W ''capacity_refunded'' r None (rp_reserved p)]"

text \<open>The two phases of the attempt, each with what the outer handler does when it raises.\<close>

definition attempt_refund ::
  "('b, 'w) outside \<Rightarrow> raw_usage \<Rightarrow> reservation \<Rightarrow> ('b, 'w, bool) act" where
  "attempt_refund W actual r =
     op_bind (op_try (plan_refund W actual r)
       (\<lambda>e. op_seq (on_limiter (clear_refund_state_if_pending (r_id r) False)) (op_raise e))) (\<lambda>p.
     op_seq (op_try (apply_refund W r p)
       (\<lambda>e. op_seq (commit_if_changed W p r (mark_refund_state_failed (r_id r))) (op_raise e)))
     (op_return (rp_dropped p)))"

definition refund_capacity_locked ::
  "('b, 'w) outside \<Rightarrow> raw_usage \<Rightarrow> reservation \<Rightarrow> bool \<Rightarrow> ('b, 'w, unit) act" where
  "refund_capacity_locked W actual r allow_closed =
     op_seq (begin_refund (r_id r) allow_closed)
     (op_bind (op_finally (op_seq (pause W) (attempt_refund W actual r))
         (on_limiter (\<lambda>l. l\<lparr>l_in_progress := l_in_progress l - {r_id r}\<rparr>))) (\<lambda>dropped.
       op_when dropped (warn W RefundDropped)))"

text \<open>\<^verbatim>\<open>_refund_capacity\<close>.\<close>

definition refund_reserved ::
  "('b, 'w) outside \<Rightarrow> raw_usage \<Rightarrow> reservation \<Rightarrow> bool \<Rightarrow> ('b, 'w, unit) act" where
  "refund_reserved W actual r allow_closed =
     op_bind (acquire_reservation_refund_lock W (r_id r)) (\<lambda>k.
       op_finally (refund_capacity_locked W actual r allow_closed)
         (release_reservation_refund_lock (r_id r) k))"

definition raise_if_reservation_expired :: "('b, 'w) outside \<Rightarrow> reservation \<Rightarrow> ('b, 'w, unit) act" where
  "raise_if_reservation_expired W r =
     op_bind (look l_max_lifetime) (\<lambda>max_lifetime. case max_lifetime of
         None \<Rightarrow> op_return ()
       | Some lifetime \<Rightarrow> (case r_created_at r of
           None \<Rightarrow> op_seq (on_limiter (forget_in_flight_reservation (r_id r)))
             (op_raise (Plain (ValueError ''Reservation missing created_at_seconds'')))
         | Some created \<Rightarrow> op_bind (clock (wall_time W)) (\<lambda>now.
             op_when (flt lifetime (fsub now created))
               (op_seq (on_limiter (forget_in_flight_reservation (r_id r)))
                 (op_raise (Plain (ValueError ''Reservation lifetime exceeded'')))))))"

text \<open>
  The common start of the two public refund methods: the reservation as the limiter recorded
  it, or \<open>None\<close> when it was unlimited and is now closed.
\<close>

definition reservation_to_refund ::
  "('b, 'w) outside \<Rightarrow> reservation \<Rightarrow> ('b, 'w, reservation option) act" where
  "reservation_to_refund W given =
     op_seq (check_public_entry W)
     (op_seq raise_if_closed
     (op_bind (look (\<lambda>l. authoritative_reservation_for_refund l given)) (\<lambda>r.
     op_seq (checked (\<lambda>l. verify_reservation_bound_to_limiter l r))
     (if r_is_unlimited r
      then op_seq (on_limiter (forget_in_flight_reservation (r_id r))) (op_return None)
      else op_seq (raise_if_reservation_expired W r) (op_return (Some r))))))"

definition limiter_refund_capacity ::
  "('b, 'w) outside \<Rightarrow> raw_usage \<Rightarrow> reservation \<Rightarrow> ('b, 'w, unit) act" where
  "limiter_refund_capacity W actual given =
     op_bind (reservation_to_refund W given) (\<lambda>found. case found of
         None \<Rightarrow> op_return ()
       | Some r \<Rightarrow>
           op_seq (lift_result (validate_refund_usage (udb W) actual (set (dict_keys (r_usage r)))))
             (refund_reserved W actual r False))"

text \<open>
  \<^verbatim>\<open>refund_capacity_from_response\<close>: the usage payload is the one found in the response or given
  by keyword, \<open>None\<close> if neither is.
\<close>

definition refund_capacity_from_response ::
  "('b, 'w) outside \<Rightarrow> reservation \<Rightarrow> usage_payload option \<Rightarrow> ('b, 'w, unit) act" where
  "refund_capacity_from_response W given payload =
     op_bind (reservation_to_refund W given) (\<lambda>found. case found of
         None \<Rightarrow> op_return ()
       | Some r \<Rightarrow>
           op_seq (op_require (set (dict_keys (r_usage r)) = {ps ''tokens'', ps ''requests''})
             (Plain (ValueError ''refund_capacity_from_response requires metric names tokens and requests'')))
           (op_bind (lift_result (case payload of
               None \<Rightarrow> Inl (ValueError ''Either response or usage keyword argument is required'')
             | Some p \<Rightarrow> extract_total_tokens p)) (\<lambda>total.
            let actual = [(ps ''tokens'', VFloat total), (ps ''requests'', VInt 1)] in
            op_seq (lift_result (validate_refund_usage (udb W) actual (set (dict_keys (r_usage r)))))
              (refund_reserved W actual r False))))"

section \<open>Delivery of an acquisition\<close>

definition finalize_and_refund_undelivered_acquire ::
  "('b, 'w) outside \<Rightarrow> reservation \<Rightarrow> pystr \<Rightarrow> rfailure option \<Rightarrow> ('b, 'w, unit) act" where
  "finalize_and_refund_undelivered_acquire W r model interrupted_by =
     op_seq (finalize_pending_acquire W r model)
       (op_try (op_bind (look l_closed) (\<lambda>closed.
           if closed then refund_reserved W (raw_of_usage (zero_actual_usage r)) r True
           else limiter_refund_capacity W (raw_of_usage (zero_actual_usage r)) r))
         (\<lambda>refund_error. op_raise (if is_critical refund_error then refund_error
           else RefundFailed r interrupted_by (Some refund_error))))"

definition refund_or_forget_reservation_on_raise ::
  "('b, 'w) outside \<Rightarrow> reservation \<Rightarrow> pystr option \<Rightarrow> bool \<Rightarrow> ('b, 'w, unit) act
   \<Rightarrow> ('b, 'w, unit) act" where
  "refund_or_forget_reservation_on_raise W r model refund_undelivered body =
     (if refund_undelivered \<and> model = None
      then op_raise (Plain (ValueError ''model is required when refund_undelivered=True''))
      else op_try body (\<lambda>e. op_seq
        (if refund_undelivered then finalize_and_refund_undelivered_acquire W r (the model) (Some e)
         else on_limiter (forget_in_flight_reservation (r_id r)))
        (op_raise e)))"

section \<open>Acquisitions\<close>

text \<open>A failure that hands over no clean-up.\<close>

definition untagged :: "('s, 'e, 'a) eff \<Rightarrow> ('s, 'h option \<times> 'e, 'a) eff" where
  "untagged m = op_try m (\<lambda>e. op_raise (None, e))"

text \<open>The call that waits for capacity or consumes it, and may take long.\<close>

definition call_backend ::
  "('b, 'w) outside \<Rightarrow> 'b \<Rightarrow> usage \<Rightarrow> bool \<Rightarrow> pyfloat option \<Rightarrow> pystr
   \<Rightarrow> ('b limiter \<times> 'w, recovery option \<times> rfailure, pyval) eff" where
  "call_backend W backend u block timeout rid =
     op_bind (look l_max_lifetime) (\<lambda>lifetime.
     op_seq (pause W)
     (op_finally (if block then in_world (bk_wait W backend u timeout rid lifetime)
                  else untagged (in_world (bk_consume W backend u rid lifetime)))
       (pause W)))"

definition try_acquire ::
  "('b, 'w) outside \<Rightarrow> pystr \<Rightarrow> usage \<Rightarrow> per_model_config \<Rightarrow> bool \<Rightarrow> pyfloat option \<Rightarrow> reservation
   \<Rightarrow> ('b limiter \<times> 'w, recovery option \<times> rfailure, reservation) eff" where
  "try_acquire W model u cfg block timeout r =
     op_seq (pause W)
     (op_seq (untagged (validate_shared_model_family_config W model cfg True))
     (op_bind (untagged (get_backend W cfg (Some (r_id r)))) (\<lambda>backend.
     op_bind (call_backend W backend u block timeout (r_id r)) (\<lambda>issued_at.
       untagged (issued_reservation W r issued_at)))))"

text \<open>
  The handler of a failed acquisition. A clean-up the backend could not do is handed to the
  caller: the reservation stays in flight, so that it can be refunded again.
\<close>

definition acquire_error_handler ::
  "('b, 'w) outside \<Rightarrow> pystr \<Rightarrow> reservation \<Rightarrow> recovery option \<times> rfailure \<Rightarrow> ('b, 'w, reservation) act" where
  "acquire_error_handler W model r = (\<lambda>(handed_over, e). case handed_over of
      Some (issued_at, interruption, refund_error) \<Rightarrow>
        let recovered = r\<lparr>r_created_at := Some issued_at\<rparr> in
        op_seq (finalize_pending_acquire W recovered model)
          (op_raise (RefundFailed recovered (Some interruption) (Some refund_error)))
    | None \<Rightarrow> op_seq (on_limiter (rollback_pending_acquire (r_id r)))
        (op_raise (if is_exception e then external_error e else e)))"

text \<open>\<^verbatim>\<open>_acquire_capacity\<close>, from the moment the reservation object exists.\<close>

definition acquire_reservation ::
  "('b, 'w) outside \<Rightarrow> pystr \<Rightarrow> usage \<Rightarrow> per_model_config \<Rightarrow> bool \<Rightarrow> pyfloat option \<Rightarrow> pystr option
   \<Rightarrow> reservation \<Rightarrow> ('b, 'w, reservation) act" where
  "acquire_reservation W model u cfg block timeout request_id r =
     op_seq (begin_pending_acquire r)
     (op_bind (op_try (try_acquire W model u cfg block timeout r) (acquire_error_handler W model r)) (\<lambda>issued.
     op_seq (on_limiter (begin_acquire_delivery_cleanup (r_id issued)))
     (op_finally
       (op_seq (refund_or_forget_reservation_on_raise W issued (Some model) block
           (op_seq (finalize_pending_acquire W issued model)
             (emit_reservation_lifecycle_event W ''capacity_consumed'' issued request_id u)))
         (op_return issued))
       (on_limiter (end_acquire_delivery_cleanup (r_id issued))))))"

definition new_reservation ::
  "('b, 'w) outside \<Rightarrow> pystr \<Rightarrow> usage \<Rightarrow> per_model_config \<Rightarrow> ('b, 'w, reservation) act" where
  "new_reservation W model u cfg =
     op_bind (lift_result (get_model_family cfg)) (\<lambda>fam.
     op_bind (clock (fresh_id W)) (\<lambda>rid.
     op_bind (look l_instance_id) (\<lambda>instance_id.
       lift_result (mk_reservation (udb W) (VStr rid) (value_of_raw (raw_of_usage u)) (VStr fam)
         (value_of_bucket_ids (reservation_bucket_ids cfg)) (Some model) False (VStr instance_id) VNone))))"

definition acquire_limited ::
  "('b, 'w) outside \<Rightarrow> pystr \<Rightarrow> usage \<Rightarrow> per_model_config \<Rightarrow> bool \<Rightarrow> pyfloat option \<Rightarrow> pystr option
   \<Rightarrow> ('b, 'w, reservation) act" where
  "acquire_limited W model u cfg block timeout request_id =
     op_seq (lift_result (validate_acquire_usage (udb W) (raw_of_usage u) (cfg_quotas cfg)))
     (op_bind (new_reservation W model u cfg) (acquire_reservation W model u cfg block timeout request_id))"

text \<open>\<^verbatim>\<open>_unlimited_reservation\<close>.\<close>

definition unlimited_reservation ::
  "('b, 'w) outside \<Rightarrow> pystr \<Rightarrow> per_model_config \<Rightarrow> pystr option \<Rightarrow> ('b, 'w, reservation) act" where
  "unlimited_reservation W model cfg request_id =
     op_bind (clock (fresh_id W)) (\<lambda>rid.
     op_bind (clock (wall_time W)) (\<lambda>now.
     op_bind (look l_instance_id) (\<lambda>instance_id.
     op_bind (lift_result (mk_reservation (udb W) (VStr rid) (VDict []) (VStr UNLIMITED_FLAG) VNone
        (Some model) True (VStr instance_id) (VFloat now))) (\<lambda>r.
     op_seq raise_if_closed_or_closing
     (op_seq (remember_in_flight_reservation r)
     (op_seq (pause W)
     (op_seq (refund_or_forget_reservation_on_raise W r None False
         (op_seq (validate_shared_model_family_config W model cfg True)
           (emit_reservation_lifecycle_event W ''capacity_consumed'' r request_id [])))
       (op_return r))))))))"

definition acquire_or_record ::
  "('b, 'w) outside \<Rightarrow> pyval \<Rightarrow> pystr \<Rightarrow> bool \<Rightarrow> pyfloat option \<Rightarrow> ('b, 'w, reservation) act" where
  "acquire_or_record W raw model block timeout =
     op_bind (lift_result (frozen_usage (udb W) raw)) (\<lambda>u.
     op_bind (config_getter W model) (\<lambda>cfg.
     op_bind (checked (\<lambda>l. validated_model_family l model cfg)) (\<lambda>_.
       if config_is_unlimited cfg
       then op_seq (lift_result (validate_usage_values_non_negative u)) (unlimited_reservation W model cfg None)
       else op_seq (validate_shared_model_family_config W model cfg False)
         (acquire_limited W model u cfg block timeout None))))"

definition acquire_capacity ::
  "('b, 'w) outside \<Rightarrow> pyval \<Rightarrow> pystr \<Rightarrow> pyval \<Rightarrow> ('b, 'w, reservation) act" where
  "acquire_capacity W raw model timeout =
     op_seq (check_public_entry W)
     (op_seq (warn_if_running_in_event_loop W)
     (op_seq raise_if_closed
     (op_bind (lift_result (validate_timeout timeout)) (\<lambda>t. acquire_or_record W raw model True t))))"

definition record_usage ::
  "('b, 'w) outside \<Rightarrow> pyval \<Rightarrow> pystr \<Rightarrow> ('b, 'w, reservation) act" where
  "record_usage W raw model =
     op_seq (check_public_entry W)
     (op_seq raise_if_closed (acquire_or_record W raw model False None))"

end
