(* ===== verification/LimiterAdmin.thy ===== *)
theory LimiterAdmin
  imports LimiterOps
begin

text \<open>
  \<^verbatim>\<open>_sync_rate_limiter.py\<close>: the methods around acquiring and refunding: counting a request,
  runtime overrides, closing, eviction of idle families, and the \<^verbatim>\<open>reserve()\<close> scope.
\<close>

section \<open>Requests\<close>

text \<open>
  \<^verbatim>\<open>_resolve_usage_counter_result_for_model\<close>: an exception of the counter becomes a \<^verbatim>\<open>ValueError\<close>,
  with its own message for a \<^verbatim>\<open>KeyError\<close>.
\<close>

definition usage_counter_error :: "rfailure \<Rightarrow> rfailure" where
  "usage_counter_error e =
     (if e = Plain KeyError
      then Plain (ValueError ''Rate limiter usage_counter failed with KeyError while counting request usage'')
      else if is_exception e then Plain (ValueError ''usage_counter raised'') else e)"

definition resolve_usage_counter_result_for_model ::
  "('b, 'w) outside \<Rightarrow> (request \<Rightarrow> ('w, pyval) wop) \<Rightarrow> request \<Rightarrow> ('b, 'w, usage) act" where
  "resolve_usage_counter_result_for_model W counter kwargs =
     op_bind (op_try (in_world (counter kwargs)) (\<lambda>e. op_raise (usage_counter_error e))) (\<lambda>counted.
       lift_result (frozen_usage (udb W) counted))"

definition request_id_from_value :: "(pyval \<Rightarrow> pystr) \<Rightarrow> pyval option \<Rightarrow> pystr option" where
  "request_id_from_value str v = (case v of
      None \<Rightarrow> None
    | Some VNone \<Rightarrow> None
    | Some (VStr s) \<Rightarrow> Some s
    | Some x \<Rightarrow> Some (str x))"

definition unlimited_for_request ::
  "('b, 'w) outside \<Rightarrow> pystr \<Rightarrow> per_model_config \<Rightarrow> (request \<Rightarrow> ('w, pyval) wop) option \<Rightarrow> request
   \<Rightarrow> raw_usage option \<Rightarrow> ('b, 'w, reservation) act" where
  "unlimited_for_request W model cfg counter kwargs extra =
     op_seq (validate_shared_model_family_config W model cfg False)
     (op_bind (case counter of
         None \<Rightarrow> op_return []
       | Some f \<Rightarrow> op_bind (resolve_usage_counter_result_for_model W f kwargs) (\<lambda>u.
           op_seq (lift_result (validate_usage_values_non_negative u)) (op_return u))) (\<lambda>u.
     op_bind (lift_result (merge_extra_usage_unrestricted (udb W) u extra)) (\<lambda>_.
       unlimited_reservation W model cfg None)))"

definition limited_for_request ::
  "('b, 'w) outside \<Rightarrow> pystr \<Rightarrow> per_model_config \<Rightarrow> (request \<Rightarrow> ('w, pyval) wop) option \<Rightarrow> request
   \<Rightarrow> raw_usage option \<Rightarrow> pyfloat option \<Rightarrow> pystr option \<Rightarrow> ('b, 'w, reservation) act" where
  "limited_for_request W model cfg counter kwargs extra timeout request_id = (case counter of
      None \<Rightarrow> op_raise (Plain (ValueError ''limit_config.usage_counter cannot be None''))
    | Some f \<Rightarrow>
        op_seq (validate_shared_model_family_config W model cfg False)
        (op_bind (resolve_usage_counter_result_for_model W f kwargs) (\<lambda>counted.
         op_bind (lift_result (merge_extra_usage (udb W) counted extra)) (\<lambda>u.
           acquire_limited W model u cfg True timeout request_id))))"

text \<open>
  \<^verbatim>\<open>acquire_capacity_for_request\<close>; \<open>str\<close> is Python's \<^verbatim>\<open>str()\<close>, for a request id that is no string.
\<close>

definition acquire_capacity_for_request ::
  "('b, 'w) outside \<Rightarrow> (pyval \<Rightarrow> pystr) \<Rightarrow> pyval \<Rightarrow> pyval \<Rightarrow> request \<Rightarrow> ('b, 'w, reservation) act" where
  "acquire_capacity_for_request W str extra_usage timeout kwargs =
     op_seq (check_public_entry W)
     (op_seq (warn_if_running_in_event_loop W)
     (op_seq raise_if_closed
     (op_bind (lift_result (validate_timeout timeout)) (\<lambda>t.
     op_bind (lift_result (validate_extra_usage (udb W) extra_usage)) (\<lambda>extra.
     case map_of kwargs (ps ''model'') of
       None \<Rightarrow> op_raise (Plain (ValueError ''model parameter is required''))
     | Some (VStr model) \<Rightarrow>
         op_bind (config_getter_full W model) (\<lambda>(cfg, counter).
         op_bind (checked (\<lambda>l. validated_model_family l model cfg)) (\<lambda>_.
         let extra_raw = map_option raw_of_usage extra in
         if config_is_unlimited cfg then unlimited_for_request W model cfg counter kwargs extra_raw
         else limited_for_request W model cfg counter kwargs extra_raw t
           (request_id_from_value str (map_of kwargs (ps ''request_id'')))))
     | Some _ \<Rightarrow> op_raise (Plain (ValueError ''model_name must be a string'')))))))"

section \<open>Runtime overrides\<close>

definition raise_if_set_max_capacity_args_look_swapped ::
  "('b, 'w) outside \<Rightarrow> pystr \<Rightarrow> pystr \<Rightarrow> ('b, 'w, unit) act" where
  "raise_if_set_max_capacity_args_look_swapped W model metric =
     op_bind (op_try (op_bind (config_getter W metric) (\<lambda>c. op_return (Some c)))
        (\<lambda>e. if is_exception e then op_return None else op_raise e)) (\<lambda>found. case found of
       None \<Rightarrow> op_return ()
     | Some cfg \<Rightarrow>
         let metrics = q_metric ` set (uq_iter (cfg_quotas cfg)) in
         op_require (config_is_unlimited cfg \<or> \<not> (model \<in> metrics \<and> metric \<notin> metrics))
           (Plain (TypeError ''set_max_capacity: the first two arguments look swapped'')))"

definition commit_runtime_max_capacity ::
  "pystr \<Rightarrow> pystr \<Rightarrow> bucket_id \<Rightarrow> pyfloat \<Rightarrow> 'b limiter \<Rightarrow> 'b limiter" where
  "commit_runtime_max_capacity fam model k v l = remember_runtime_max_capacity fam k v
     (l\<lparr>l_model_names := dict_set fam model (l_model_names l)\<rparr>)"

definition backend_runtime_max_capacity_matches ::
  "('b, 'w) outside \<Rightarrow> 'b \<Rightarrow> bucket_id \<Rightarrow> pyfloat \<Rightarrow> ('b, 'w, bool) act" where
  "backend_runtime_max_capacity_matches W backend k v = (case bk_runtime_max W backend of
      None \<Rightarrow> op_return False
    | Some reader \<Rightarrow>
        op_bind (op_try (op_bind (in_world (reader (fst k) (snd k))) (\<lambda>a. op_return (Some a)))
          (\<lambda>e. if is_exception e then op_return None else op_raise e)) (\<lambda>read. case read of
            None \<Rightarrow> op_return False
          | Some VNone \<Rightarrow> op_return False
          | Some x \<Rightarrow> (case py_float x of
              Inr f \<Rightarrow> op_return (isclose (flit (1 / 1000000000000)) f v)
            | Inl OverflowError \<Rightarrow> op_raise (Plain OverflowError)
            | Inl _ \<Rightarrow> op_return False)))"

definition set_max_capacity_transactional ::
  "('b, 'w) outside \<Rightarrow> 'b \<Rightarrow> pystr \<Rightarrow> pystr \<Rightarrow> bucket_id \<Rightarrow> pyfloat \<Rightarrow> ('b, 'w, unit) act" where
  "set_max_capacity_transactional W backend fam model k v =
     op_seq (op_try (in_world (bk_set_max W backend (fst k) (snd k) v))
       (\<lambda>e. op_bind (backend_runtime_max_capacity_matches W backend k v) (\<lambda>landed.
          op_seq (op_when landed (on_limiter (commit_runtime_max_capacity fam model k v)))
            (op_raise (if is_exception e then external_error e else e)))))
     (on_limiter (commit_runtime_max_capacity fam model k v))"

definition limiter_set_max_capacity ::
  "('b, 'w) outside \<Rightarrow> pystr \<Rightarrow> pyval \<Rightarrow> pyval \<Rightarrow> pyval \<Rightarrow> ('b, 'w, unit) act" where
  "limiter_set_max_capacity W model metric per_seconds value =
     op_seq (check_public_entry W)
     (op_seq raise_if_closed_or_closing
     (op_bind (look l_max_metric_length) (\<lambda>metric_length.
     op_bind (lift_result (validate_metric (udb W) metric (nat metric_length))) (\<lambda>m.
     op_bind (lift_result (validate_per_seconds per_seconds)) (\<lambda>p.
     op_bind (lift_result (validate_max_capacity_value value)) (\<lambda>v.
     op_seq (raise_if_set_max_capacity_args_look_swapped W model m)
     (op_bind (config_getter W model) (\<lambda>cfg.
     op_bind (checked (\<lambda>l. validated_model_family l model cfg)) (\<lambda>_.
     op_seq (validate_shared_model_family_config W model cfg True)
     (op_seq (op_require (\<not> config_is_unlimited cfg)
        (Plain (ValueError ''Cannot set max capacity: model has unlimited quotas'')))
     (op_bind (lift_result (get_model_family cfg)) (\<lambda>fam.
     op_seq (pause W)
     (op_seq raise_if_closed_or_closing
     (op_bind (look (\<lambda>l. map_of (l_backends l) fam)) (\<lambda>found.
     op_seq (op_require (found \<noteq> None) (Plain (ValueError ''No backend for model family'')))
     (op_bind (op_try (sync_backend_quotas W cfg None)
        (\<lambda>e. op_raise (if is_exception e then external_error e else e))) (\<lambda>backend.
       set_max_capacity_transactional W backend fam model (m, p) v)))))))))))))))))"

section \<open>Closing\<close>

definition terminalize :: "'b limiter \<Rightarrow> 'b limiter" where
  "terminalize l = l\<lparr>l_closed := True, l_closing := False\<rparr>"

text \<open>
  \<^verbatim>\<open>_wait_for_refund_lock_drain\<close>: every per-reservation lock is taken, so that the refunds
  under way have left their critical sections, within the time allowed. Without a timeout the
  wait for a lock ends only when it is free.
\<close>

definition wait_for_lock :: "('b, 'w) outside \<Rightarrow> nat \<Rightarrow> ('b, 'w, unit) act" where
  "wait_for_lock W k =
     op_seq (pause W)
     (op_bind (look (\<lambda>l. k \<in> l_locks_held l \<and> l_close_timeout l \<noteq> None)) (\<lambda>busy.
      op_seq (op_require (\<not> busy) (Plain (TimeoutError ''Timed out waiting for in-flight refunds to drain'')))
        (on_limiter (\<lambda>l. l\<lparr>l_locks_held := insert k (l_locks_held l)\<rparr>))))"

fun take_locks :: "('b, 'w) outside \<Rightarrow> nat list \<Rightarrow> ('b, 'w, nat) act" where
  "take_locks W [] = look (\<lambda>l. card (l_in_flight l))"
| "take_locks W (k # ks) = op_seq (wait_for_lock W k)
     (op_finally (take_locks W ks) (on_limiter (\<lambda>l. l\<lparr>l_locks_held := l_locks_held l - {k}\<rparr>)))"

definition wait_for_refund_lock_drain :: "('b, 'w) outside \<Rightarrow> ('b, 'w, nat) act" where
  "wait_for_refund_lock_drain W =
     op_bind (look (\<lambda>l. map snd (l_locks l))) (take_locks W)"

definition clear_retained_state :: "'b limiter \<Rightarrow> 'b limiter" where
  "clear_retained_state l = l\<lparr>l_backends := [], l_model_names := [], l_quotas := [], l_families := [],
     l_runtime_max := [], l_family_signature := [], l_model_signature := [],
     l_signature_counts := [], l_alias_counts := [], l_refunded := [], l_locks := [],
     l_lock_refs := [], l_in_progress := {}, l_pending := {}, l_delivery := {}, l_in_flight := {},
     l_snapshots := [], l_in_flight_family := [], l_last_touched := []\<rparr>"

text \<open>
  The first critical section of \<open>close\<close>: \<open>True\<close> when the limiter was closed and drained before.
\<close>

definition begin_close :: "('b, 'w, bool) act" where
  "begin_close = op_bind (look (\<lambda>l. l_closed l \<and> l_close_drained l)) (\<lambda>finished.
     if finished then op_return True
     else op_seq (on_limiter (\<lambda>l. refresh_pending_drained (l\<lparr>l_closing := \<not> l_closed l\<rparr>)))
       (op_return False))"

text \<open>The wait for \<^verbatim>\<open>_pending_drained\<close>; without a timeout it ends only when the event is set.\<close>

definition await_pending_drained :: "('b, 'w) outside \<Rightarrow> ('b, 'w, unit) act" where
  "await_pending_drained W =
     op_seq (pause W)
     (op_bind (look (\<lambda>l. l_drained l \<or> l_close_timeout l = None)) (\<lambda>drained.
      if drained then op_return ()
      else op_seq (on_limiter terminalize)
        (op_raise (Plain (TimeoutError ''Timed out waiting for pending acquire reservations to drain'')))))"

definition finish_close :: "('b, 'w) outside \<Rightarrow> ('b, 'w, unit) act" where
  "finish_close W = op_bind (look l_close_drained) (\<lambda>already_closed.
     if already_closed then op_return ()
     else op_seq (on_limiter terminalize)
       (op_bind (wait_for_refund_lock_drain W) (\<lambda>in_flight_count.
        op_seq (on_limiter (\<lambda>l. l\<lparr>l_close_drained := True\<rparr>))
          (case builder_close W of None \<Rightarrow> op_return () | Some close_builder \<Rightarrow> in_world close_builder))))"

definition close :: "('b, 'w) outside \<Rightarrow> ('b, 'w, unit) act" where
  "close W =
     op_seq (op_check (\<lambda>(l, w). if in_callback W w
        then Inl (Plain (RuntimeError ''close()/aclose() cannot be called from inside a limiter callback''))
        else Inr ()))
     (op_seq (check_public_entry W)
     (op_bind (op_try
         (op_bind begin_close (\<lambda>finished.
            if finished then op_return True
            else op_seq (op_block [await_pending_drained W, pause W, finish_close W]) (op_return False)))
         (\<lambda>e. op_seq (on_limiter terminalize) (op_raise e)))
       (\<lambda>finished. op_when (\<not> finished) (on_limiter clear_retained_state))))"

section \<open>Eviction\<close>

definition evict_family :: "pystr \<Rightarrow> 'b limiter \<Rightarrow> 'b limiter" where
  "evict_family fam l =
     (let stale = map fst (filter (\<lambda>p. snd p = fam) (l_families l)) in
      l\<lparr>l_backends := dict_pop fam (l_backends l), l_model_names := dict_pop fam (l_model_names l),
        l_quotas := dict_pop fam (l_quotas l), l_runtime_max := dict_pop fam (l_runtime_max l),
        l_family_signature := dict_pop fam (l_family_signature l),
        l_last_touched := dict_pop fam (l_last_touched l),
        l_families := filter (\<lambda>p. fst p \<notin> set stale) (l_families l),
        l_model_signature := filter (\<lambda>p. fst p \<notin> set stale) (l_model_signature l),
        l_signature_counts := dict_pop fam (l_signature_counts l),
        l_alias_counts := dict_pop fam (l_alias_counts l)\<rparr>)"

definition expired_families :: "'b limiter \<Rightarrow> pyfloat \<Rightarrow> pystr list" where
  "expired_families l cutoff = map fst (filter (\<lambda>(fam, touched).
     fam \<notin> snd ` set (l_in_flight_family l) \<and> fle touched cutoff) (l_last_touched l))"

definition clear_unused_model_families :: "('b, 'w) outside \<Rightarrow> pyval \<Rightarrow> ('b, 'w, nat) act" where
  "clear_unused_model_families W unused_for_seconds =
     op_seq (check_public_entry W)
     (case unused_for_seconds of
        VInt n \<Rightarrow>
          op_seq (op_require (0 \<le> n) (Plain (ValueError ''unused_for_seconds must be non-negative'')))
          (op_bind (clock (monotonic W)) (\<lambda>now.
           op_bind (lift_result (py_float (VInt n))) (\<lambda>unused.
           op_bind (look (\<lambda>l. expired_families l (fsub now unused))) (\<lambda>expired.
           op_seq (on_limiter (fold evict_family expired)) (op_return (length expired))))))
      | _ \<Rightarrow> op_raise (Plain (ValueError ''unused_for_seconds must be an int'')))"

section \<open>The reserve scope\<close>

record scope =
  sc_usage :: pyval
  sc_model :: pystr
  sc_timeout :: pyval
  sc_usage_on_error :: "raw_usage option"
  sc_reservation :: "reservation option"
  sc_actual_usage :: "raw_usage option"
  sc_entered :: bool

definition reserve :: "pyval \<Rightarrow> pystr \<Rightarrow> pyval \<Rightarrow> raw_usage option \<Rightarrow> scope" where
  "reserve u model timeout usage_on_error =
     \<lparr>sc_usage = u, sc_model = model, sc_timeout = timeout, sc_usage_on_error = usage_on_error,
       sc_reservation = None, sc_actual_usage = None, sc_entered = False\<rparr>"

definition set_actual_usage :: "raw_usage \<Rightarrow> scope \<Rightarrow> scope" where
  "set_actual_usage actual sc = sc\<lparr>sc_actual_usage := Some actual\<rparr>"

text \<open>Scope and limiter together are the state of \<^verbatim>\<open>__enter__\<close>.\<close>

definition scope_enter ::
  "('b, 'w) outside \<Rightarrow> (scope \<times> ('b limiter \<times> 'w), rfailure, unit) eff" where
  "scope_enter W =
     op_bind (op_gets (\<lambda>(sc, s). sc)) (\<lambda>sc.
     op_seq (op_require (\<not> sc_entered sc) (Plain (RuntimeError ''reserve() scopes are single-use'')))
     (op_seq (op_modify (\<lambda>(sc, s). (sc\<lparr>sc_entered := True\<rparr>, s)))
     (op_bind (op_zoom snd (\<lambda>t (sc, _). (sc, t))
         (acquire_capacity W (sc_usage sc) (sc_model sc) (sc_timeout sc))) (\<lambda>r.
       op_modify (\<lambda>(sc, s). (sc\<lparr>sc_reservation := Some r\<rparr>, s))))))"

text \<open>True when the refund committed; a non-critical failure is swallowed.\<close>

definition try_refund_swallowing_noncritical ::
  "('b, 'w) outside \<Rightarrow> raw_usage \<Rightarrow> reservation \<Rightarrow> ('b, 'w, bool) act" where
  "try_refund_swallowing_noncritical W u r =
     op_try (op_seq (limiter_refund_capacity W u r) (op_return True))
       (\<lambda>e. if is_critical e then op_raise e else op_return False)"

definition refund_without_masking ::
  "('b, 'w) outside \<Rightarrow> raw_usage \<Rightarrow> reservation \<Rightarrow> raw_usage option \<Rightarrow> ('b, 'w, unit) act" where
  "refund_without_masking W u r conservative =
     op_bind (try_refund_swallowing_noncritical W u r) (\<lambda>committed.
       if committed then op_return ()
       else case conservative of
         None \<Rightarrow> op_return ()
       | Some v \<Rightarrow> op_bind (try_refund_swallowing_noncritical W v r) (\<lambda>_. op_return ()))"

definition refund_actual_or_conservative_close ::
  "('b, 'w) outside \<Rightarrow> raw_usage \<Rightarrow> reservation \<Rightarrow> ('b, 'w, unit) act" where
  "refund_actual_or_conservative_close W u r =
     op_try (limiter_refund_capacity W u r)
       (\<lambda>e. if is_critical e then op_raise e
         else op_bind (try_refund_swallowing_noncritical W (raw_of_usage (r_usage r)) r) (\<lambda>_. op_raise e))"

text \<open>
  \<^verbatim>\<open>__exit__\<close>: \<open>in_block\<close> is the exception that left the block. It returns \<^verbatim>\<open>False\<close>, so \<^verbatim>\<open>with\<close>
  raises that exception again; \<open>with_block\<close> is the whole statement.
\<close>

definition scope_exit ::
  "('b, 'w) outside \<Rightarrow> scope \<Rightarrow> reservation \<Rightarrow> rfailure option \<Rightarrow> ('b, 'w, unit) act" where
  "scope_exit W sc r in_block = (case in_block of
      Some _ \<Rightarrow> (case sc_usage_on_error sc of
          Some u \<Rightarrow> refund_without_masking W u r (Some (raw_of_usage (r_usage r)))
        | None \<Rightarrow> refund_without_masking W (raw_of_usage (r_usage r)) r None)
    | None \<Rightarrow> (case sc_actual_usage sc of
          Some u \<Rightarrow> refund_actual_or_conservative_close W u r
        | None \<Rightarrow> op_seq (limiter_refund_capacity W (raw_of_usage (r_usage r)) r) (warn W ReserveForgotActualUsage)))"

definition with_block ::
  "('b, 'w) outside \<Rightarrow> (scope \<times> ('b limiter \<times> 'w), rfailure, unit) eff
   \<Rightarrow> (scope \<times> ('b limiter \<times> 'w), rfailure, unit) eff" where
  "with_block W body =
     op_seq (scope_enter W)
     (op_bind (op_try (op_seq body (op_return None)) (\<lambda>e. op_return (Some e))) (\<lambda>in_block.
      op_bind (op_gets (\<lambda>(sc, s). sc)) (\<lambda>sc.
      case sc_reservation sc of
        None \<Rightarrow> op_raise (Plain (RuntimeError ''AssertionError''))
      | Some r \<Rightarrow>
          op_seq (op_zoom snd (\<lambda>t (sc, _). (sc, t)) (scope_exit W sc r in_block))
            (case in_block of None \<Rightarrow> op_return () | Some e \<Rightarrow> op_raise e))))"

end
