(* ===== verification/LimiterLaws.thy ===== *)
theory LimiterLaws
  imports LimiterAdmin
begin

text \<open>
  Laws of the limiter's critical sections: weakest preconditions of the primitive statements,
  and what each operation of \<^verbatim>\<open>_sync_rate_limiter.py\<close> cannot touch. \<open>core\<close> forgets what
  belongs to model families, so that a predicate on it speaks about reservations only.
\<close>

section \<open>Primitive statements\<close>

lemma wp_pause [wp_simps]: "wp (pause W) Q E = (\<lambda>s. Q () (others W s))"
  by (simp add: pause_def wp_simps)

lemma wp_on_limiter [wp_simps]: "wp (on_limiter f) Q E = (\<lambda>s. Q () (f (fst s), snd s))"
  by (simp add: on_limiter_def wp_simps case_prod_unfold)

lemma wp_look [wp_simps]: "wp (look f) Q E = (\<lambda>s. Q (f (fst s)) s)"
  by (simp add: look_def wp_simps case_prod_unfold)

lemma wp_in_world [wp_simps]:
  "wp (in_world m) Q E = (\<lambda>s. wp m (\<lambda>x w. Q x (fst s, w)) (\<lambda>e w. E e (fst s, w)) (snd s))"
  by (simp add: in_world_def wp_simps case_prod_unfold)

lemma wp_clock [wp_simps]:
  "wp (clock c) Q E = (\<lambda>s. Q (fst (c (snd s))) (fst s, snd (c (snd s))))"
  by (simp add: fun_eq_iff wp_def clock_def split: prod.split)

lemma wp_checked [wp_simps]:
  "wp (checked f) Q E = (\<lambda>s. case f (fst s) of Inl e \<Rightarrow> E (Plain e) s | Inr x \<Rightarrow> Q x s)"
  by (simp add: fun_eq_iff checked_def plain_def wp_simps case_prod_unfold split: sum.split)

lemma wp_lift_result [wp_simps]:
  "wp (lift_result r) Q E = (case r of Inl e \<Rightarrow> E (Plain e) | Inr x \<Rightarrow> Q x)"
  by (simp add: lift_result_def plain_def wp_simps split: sum.split)

lemma wp_anything: "(\<And>x t. Q x t) \<Longrightarrow> (\<And>e t. E e t) \<Longrightarrow> wp m Q E s"
  by (rule wpI) simp_all

text \<open>A predicate on the limiter is kept by whatever runs outside.\<close>

definition about :: "('l \<Rightarrow> bool) \<Rightarrow> 'l \<times> 'w \<Rightarrow> bool" where
  "about J s = J (fst s)"

lemma about_pair [simp]: "about J (l, w) = J l"
  by (simp add: about_def)

text \<open>What the other threads do keeps it by assumption.\<close>

definition undisturbed :: "('b, 'w) outside \<Rightarrow> ('b limiter \<times> 'w \<Rightarrow> bool) \<Rightarrow> bool" where
  "undisturbed W I \<longleftrightarrow> (\<forall>s. I s \<longrightarrow> I (others W s))"

lemma undisturbedD: "undisturbed W I \<Longrightarrow> I s \<Longrightarrow> I (others W s)"
  unfolding undisturbed_def by blast

lemma preserves_pause [preserves_intros]: "undisturbed W I \<Longrightarrow> preserves I (pause W)"
  by (simp add: preserves_def wp_simps undisturbed_def)

lemma preserves_in_world [preserves_intros]: "preserves (about J) (in_world m)"
  by (rule preservesI) (simp add: wp_simps wp_anything about_def)

lemma preserves_clock [preserves_intros]: "preserves (about J) (clock c)"
  by (simp add: preserves_def wp_simps about_def)

lemma preserves_look [preserves_intros]: "preserves I (look f)"
  by (simp add: preserves_def wp_simps)

lemma preserves_checked [preserves_intros]: "preserves I (checked f)"
  by (simp add: preserves_def wp_simps split: sum.split)

lemma preserves_lift_result [preserves_intros]: "preserves I (lift_result r)"
  by (simp add: preserves_def wp_simps split: sum.split)

lemma preserves_on_limiter [preserves_intros]:
  "(\<And>l. J l \<Longrightarrow> J (f l)) \<Longrightarrow> preserves (about J) (on_limiter f)"
  by (simp add: preserves_def wp_simps about_def)

lemma preserves_warn [preserves_intros]: "preserves (about J) (warn W k)"
  by (simp add: warn_def preserves_in_world)

text \<open>A case distinction on a pair hidden in a lambda.\<close>

lemma preserves_split [preserves_intros]:
  "(\<And>x y. preserves I (f x y)) \<Longrightarrow> preserves I ((\<lambda>(x, y). f x y) p)"
  by (cases p) simp

section \<open>What operations cannot touch\<close>

lemma preserves_config_getter_full [preserves_intros]: "preserves (about J) (config_getter_full W m)"
  unfolding config_getter_full_def by (intro preserves_intros)

lemma preserves_config_getter [preserves_intros]: "preserves (about J) (config_getter W m)"
  unfolding config_getter_def by (intro preserves_intros)

lemma preserves_settle_conflict [preserves_intros]: "preserves (about J) (settle_conflict W m fam c ct)"
  unfolding settle_conflict_def by (intro preserves_intros)

text \<open>A check that returns the state it is to be replaced with.\<close>

lemma preserves_checked_update:
  fixes f :: "'b limiter \<Rightarrow> 'b limiter result" and m :: "('b, 'w, 'a) act"
  assumes "\<And>l l'. J l \<Longrightarrow> f l = Inr l' \<Longrightarrow> J l'" "preserves (about J) m"
  shows "preserves (about J) (op_bind (checked f) (\<lambda>l'. op_seq (on_limiter (\<lambda>_. l')) m))"
proof (rule preservesI)
  fix s :: "'b limiter \<times> 'w" assume J: "about J s"
  show "wp (op_bind (checked f) (\<lambda>l'. op_seq (on_limiter (\<lambda>_. l')) m)) (\<lambda>_. about J) (\<lambda>_. about J) s"
  proof (cases "f (fst s)")
    case (Inl e)
    then show ?thesis using J by (simp add: wp_simps)
  next
    case (Inr l')
    then have "about J (l', snd s)" using J assms(1) [of "fst s"] by (simp add: about_def)
    then show ?thesis using Inr preservesD [OF assms(2)] by (simp add: wp_simps)
  qed
qed

text \<open>
  A view of the limiter that does not see the backends, their quotas and their overrides: what
  concerns backends keeps every predicate of the view that the other threads keep.
\<close>

locale backend_blind =
  fixes view :: "'b limiter \<Rightarrow> 'v"
  assumes view_backends: "view (l\<lparr>l_backends := a\<rparr>) = view l"
    and view_quotas: "view (l\<lparr>l_quotas := c\<rparr>) = view l"
    and view_runtime_max: "view (l\<lparr>l_runtime_max := e\<rparr>) = view l"
begin

lemmas blind_backends = view_backends view_quotas view_runtime_max

lemma view_clear_runtime: "view (clear_runtime_max_capacity fam ks l) = view l"
  by (simp add: clear_runtime_max_capacity_def Let_def blind_backends split: option.split)

lemma view_invalidate: "invalidate_quotas fam own l = Inr l' \<Longrightarrow> view l' = view l"
  by (auto simp: invalidate_quotas_def blind_backends split: if_splits)

lemma restore_runtime: "preserves (about (\<lambda>l. J (view l))) (restore_runtime_max_capacity W fam old new b)"
  unfolding restore_runtime_max_capacity_def Let_def case_prod_unfold
  by (intro preserves_intros) (simp_all add: blind_backends)

lemma limits_update: "preserves (about (\<lambda>l. J (view l))) (update_limits W fam old new)"
  unfolding update_limits_def case_prod_unfold
  by (intro preserves_intros) (simp_all add: blind_backends view_clear_runtime)

lemma rebuild:
  assumes "undisturbed W (about (\<lambda>l. J (view l)))"
  shows "preserves (about (\<lambda>l. J (view l))) (rebuild_backend W cfg fam own old new)"
  unfolding rebuild_backend_def
  by (intro preserves_intros preserves_checked_update restore_runtime assms)
     (simp_all add: blind_backends view_invalidate [of fam own])

lemma sync_quotas:
  "undisturbed W (about (\<lambda>l. J (view l))) \<Longrightarrow>
     preserves (about (\<lambda>l. J (view l))) (sync_backend_quotas W cfg own)"
  unfolding sync_backend_quotas_def Let_def by (intro preserves_intros rebuild limits_update)

lemma backend:
  "undisturbed W (about (\<lambda>l. J (view l))) \<Longrightarrow> preserves (about (\<lambda>l. J (view l))) (get_backend W cfg own)"
  unfolding get_backend_def by (intro preserves_intros sync_quotas) (simp_all add: blind_backends)

lemma refresh:
  "undisturbed W (about (\<lambda>l. J (view l))) \<Longrightarrow>
     preserves (about (\<lambda>l. J (view l))) (refresh_backend_for_reservation W r)"
  unfolding refresh_backend_for_reservation_def by (intro preserves_intros backend)

lemma plan:
  "undisturbed W (about (\<lambda>l. J (view l))) \<Longrightarrow>
     preserves (about (\<lambda>l. J (view l))) (plan_refund W actual r)"
  unfolding plan_refund_def backend_has_acquire_marker_authority_def case_prod_unfold
  by (intro preserves_intros refresh)

end

text \<open>A view that sees nothing of model families either.\<close>

locale family_blind = backend_blind view for view :: "'b limiter \<Rightarrow> 'v" +
  assumes view_families: "view (l\<lparr>l_families := d\<rparr>) = view l"
    and view_family_signature: "view (l\<lparr>l_family_signature := f\<rparr>) = view l"
    and view_model_signature: "view (l\<lparr>l_model_signature := g\<rparr>) = view l"
    and view_signature_counts: "view (l\<lparr>l_signature_counts := h\<rparr>) = view l"
    and view_alias_counts: "view (l\<lparr>l_alias_counts := i\<rparr>) = view l"
    and view_last_touched: "view (l\<lparr>l_last_touched := j\<rparr>) = view l"
begin

lemmas blind_families = view_families view_family_signature view_model_signature
  view_signature_counts view_alias_counts view_last_touched

lemma view_register: "view (register_alias m fam c p oc ct rs l) = view l"
  by (simp add: register_alias_def Let_def blind_families)

lemma touch: "preserves (about (\<lambda>l. J (view l))) (touch_model_family W fam)"
  unfolding touch_model_family_def by (intro preserves_intros) (simp add: blind_families)

lemma validate_locked: "preserves (about (\<lambda>l. J (view l))) (validate_shared_locked W m fam c reg)"
  unfolding validate_shared_locked_def
  by (intro preserves_intros touch) (simp_all add: view_register)

lemma validate:
  "undisturbed W (about (\<lambda>l. J (view l))) \<Longrightarrow>
     preserves (about (\<lambda>l. J (view l))) (validate_shared_model_family_config W m cfg reg)"
  unfolding validate_shared_model_family_config_def by (intro preserves_intros touch validate_locked)

end

section \<open>What belongs to reservations only\<close>

definition core :: "'b limiter \<Rightarrow> 'b limiter" where
  "core l = l\<lparr>l_backends := [], l_model_names := [], l_quotas := [], l_families := [],
     l_runtime_max := [], l_family_signature := [], l_model_signature := [],
     l_signature_counts := [], l_alias_counts := [], l_last_touched := []\<rparr>"

lemma core_update [simp]:
  "core (l\<lparr>l_backends := a\<rparr>) = core l" "core (l\<lparr>l_model_names := b\<rparr>) = core l"
  "core (l\<lparr>l_quotas := c\<rparr>) = core l" "core (l\<lparr>l_families := d\<rparr>) = core l"
  "core (l\<lparr>l_runtime_max := e\<rparr>) = core l" "core (l\<lparr>l_family_signature := f\<rparr>) = core l"
  "core (l\<lparr>l_model_signature := g\<rparr>) = core l" "core (l\<lparr>l_signature_counts := h\<rparr>) = core l"
  "core (l\<lparr>l_alias_counts := i\<rparr>) = core l" "core (l\<lparr>l_last_touched := j\<rparr>) = core l"
  by (simp_all add: core_def)

lemma core_select [simp]:
  "l_in_flight (core l) = l_in_flight l" "l_pending (core l) = l_pending l"
  "l_delivery (core l) = l_delivery l" "l_in_flight_family (core l) = l_in_flight_family l"
  "l_snapshots (core l) = l_snapshots l" "l_refunded (core l) = l_refunded l"
  "l_refunded_cap (core l) = l_refunded_cap l" "l_in_progress (core l) = l_in_progress l"
  "l_drained (core l) = l_drained l" "l_closed (core l) = l_closed l"
  "l_closing (core l) = l_closing l" "l_max_in_flight (core l) = l_max_in_flight l"
  "l_instance_id (core l) = l_instance_id l" "l_max_lifetime (core l) = l_max_lifetime l"
  "l_locks (core l) = l_locks l" "l_lock_refs (core l) = l_lock_refs l"
  "l_locks_held (core l) = l_locks_held l" "l_close_drained (core l) = l_close_drained l"
  by (simp_all add: core_def)

abbreviation on_core :: "('b limiter \<Rightarrow> bool) \<Rightarrow> 'b limiter \<times> 'w \<Rightarrow> bool" where
  "on_core J \<equiv> about (\<lambda>l. J (core l))"

interpretation core_view: family_blind core
  by unfold_locales simp_all

lemmas preserves_touch = core_view.touch
lemmas preserves_validate_shared = core_view.validate
lemmas preserves_get_backend = core_view.backend

end
