(* ===== verification/LimiterRefunds.thy ===== *)
theory LimiterRefunds
  imports LimiterLaws
begin

text \<open>
  Refunds of the limiter under interference: what a refund that returns has done, that a
  committed reservation is refused before the backend is called, and what stays after an error.
\<close>

section \<open>What the other threads leave alone\<close>

text \<open>
  The other threads keep a predicate of the limiter, between critical sections and while a
  lock is awaited.
\<close>

definition steady :: "('b, 'w) outside \<Rightarrow> ('b limiter \<Rightarrow> bool) \<Rightarrow> bool" where
  "steady W J \<longleftrightarrow> undisturbed W (about J) \<and> (\<forall>k. preserves (about J) (await_lock W k))"

lemma steady_undisturbed: "steady W J \<Longrightarrow> undisturbed W (about J)"
  by (simp add: steady_def)

lemma steady_await: "steady W J \<Longrightarrow> preserves (about J) (await_lock W k)"
  by (simp add: steady_def)

lemma steady_pause: "steady W J \<Longrightarrow> preserves (about J) (pause W)"
  by (intro preserves_pause steady_undisturbed)

lemma steady_others: "steady W J \<Longrightarrow> J (fst s) \<Longrightarrow> J (fst (others W s))"
  using undisturbedD [OF steady_undisturbed, of W J s] by (simp add: about_def)

section \<open>The memory of refunds\<close>

lemma map_of_trim_last:
  assumes "0 < cap" "rid \<notin> set (map fst d)"
  shows "map_of (trim_to cap (d @ [(rid, st)])) rid = Some st"
proof -
  let ?n = "length (d @ [(rid, st)]) - cap"
  have "?n \<le> length d" using assms(1) by simp
  then have "trim_to cap (d @ [(rid, st)]) = drop ?n d @ [(rid, st)]" by (simp add: trim_to_def)
  moreover have "rid \<notin> set (map fst (drop ?n d))" using assms(2) by (metis drop_map in_set_dropD)
  ultimately show ?thesis by (simp add: map_add_def map_of_eq_None_iff [THEN iffD2])
qed

lemma remembered [simp]:
  "0 < l_refunded_cap l \<Longrightarrow> map_of (l_refunded (remember_refund_state rid st l)) rid = Some st"
  by (simp add: remember_refund_state_def) (rule map_of_trim_last, auto simp: dict_pop_def)

lemma remember_select [simp]:
  "l_refunded_cap (remember_refund_state rid st l) = l_refunded_cap l"
  "l_in_flight (remember_refund_state rid st l) = l_in_flight l"
  "l_pending (remember_refund_state rid st l) = l_pending l"
  "l_delivery (remember_refund_state rid st l) = l_delivery l"
  "l_in_flight_family (remember_refund_state rid st l) = l_in_flight_family l"
  "l_snapshots (remember_refund_state rid st l) = l_snapshots l"
  "l_in_progress (remember_refund_state rid st l) = l_in_progress l"
  "l_locks (remember_refund_state rid st l) = l_locks l"
  "l_lock_refs (remember_refund_state rid st l) = l_lock_refs l"
  "l_locks_held (remember_refund_state rid st l) = l_locks_held l"
  "l_closed (remember_refund_state rid st l) = l_closed l"
  by (simp_all add: remember_refund_state_def)

lemma forget_select [simp]:
  "l_refunded_cap (forget_in_flight_reservation rid l) = l_refunded_cap l"
  "l_refunded (forget_in_flight_reservation rid l) = l_refunded l"
  "l_in_flight (forget_in_flight_reservation rid l) = l_in_flight l - {rid}"
  "l_pending (forget_in_flight_reservation rid l) = l_pending l - {rid}"
  "l_delivery (forget_in_flight_reservation rid l) = l_delivery l - {rid}"
  "l_in_flight_family (forget_in_flight_reservation rid l) = dict_pop rid (l_in_flight_family l)"
  "l_snapshots (forget_in_flight_reservation rid l) = dict_pop rid (l_snapshots l)"
  "l_in_progress (forget_in_flight_reservation rid l) = l_in_progress l"
  "l_locks (forget_in_flight_reservation rid l) = l_locks l"
  "l_lock_refs (forget_in_flight_reservation rid l) = l_lock_refs l"
  "l_locks_held (forget_in_flight_reservation rid l) = l_locks_held l"
  "l_closed (forget_in_flight_reservation rid l) = l_closed l"
  by (simp_all add: forget_in_flight_reservation_def)

text \<open>No trace of a reservation in the tables of those under way.\<close>

definition absent :: "pystr \<Rightarrow> 'b limiter \<Rightarrow> bool" where
  "absent rid l \<longleftrightarrow> rid \<notin> l_in_flight l \<and> rid \<notin> l_pending l \<and> rid \<notin> l_delivery l \<and>
     map_of (l_in_flight_family l) rid = None \<and> map_of (l_snapshots l) rid = None"

definition committed :: "pystr \<Rightarrow> 'b limiter \<Rightarrow> bool" where
  "committed rid l \<longleftrightarrow> map_of (l_refunded l) rid = Some StateCommitted"

definition closed_out :: "pystr \<Rightarrow> 'b limiter \<Rightarrow> bool" where
  "closed_out rid l \<longleftrightarrow> committed rid l \<and> absent rid l"

lemma wp_touch [wp_simps]:
  "wp (touch_model_family W fam) Q E = (\<lambda>s. Q ()
     ((fst s)\<lparr>l_last_touched := dict_set fam (fst (monotonic W (snd s))) (l_last_touched (fst s))\<rparr>,
      snd (monotonic W (snd s))))"
  by (simp add: touch_model_family_def wp_simps)

lemma absent_forget [simp]: "absent rid (forget_in_flight_reservation rid l)"
  by (simp add: absent_def)

lemma commit_closes:
  "0 < l_refunded_cap (fst s) \<Longrightarrow>
     wp (commit_refund_state W rid fam)
       (\<lambda>_ t. closed_out rid (fst t) \<and> l_in_progress (fst t) = l_in_progress (fst s)) E s"
  by (simp add: commit_refund_state_def wp_simps closed_out_def committed_def absent_def)

lemma emit_changes_nothing:
  "Q () (fst s) \<Longrightarrow> (\<And>e. R e (fst s)) \<Longrightarrow>
     wp (emit_reservation_lifecycle_event W k r q u) (\<lambda>x t. Q x (fst t)) (\<lambda>e t. R e (fst t)) s"
  by (simp add: emit_reservation_lifecycle_event_def emit_lifecycle_event_def
      safe_invoke_sync_callback_def wp_simps wp_anything split: option.split)

section \<open>A refund that returns\<close>

lemma wp_commit_if_changed:
  "wp (commit_if_changed W p r f) Q E = (\<lambda>s.
     if refund_backend_state_changed W (rp_backend p) (rp_ids p) (rp_probe p) (snd s)
      then wp (commit_refund_state W (r_id r) (r_model_family r)) Q E s
      else Q () (f (fst s), snd s))"
  by (simp add: fun_eq_iff wp_def commit_if_changed_def on_limiter_def op_modify_def case_prod_unfold)

lemma wp_commit [wp_simps]: "wp (commit_refund_state W rid fam) Q E = (\<lambda>s. Q ()
     ((forget_in_flight_reservation rid (remember_refund_state rid StateCommitted (fst s)))
        \<lparr>l_last_touched := dict_set fam (fst (monotonic W (snd s)))
          (l_last_touched (forget_in_flight_reservation rid (remember_refund_state rid StateCommitted (fst s))))\<rparr>,
      snd (monotonic W (snd s))))"
  by (simp add: commit_refund_state_def wp_simps)

text \<open>The handlers never return.\<close>

lemma refund_error_handler_raises:
  "(\<And>e t. E e t) \<Longrightarrow> wp (refund_error_handler W p r e) Q E s"
  by (simp add: refund_error_handler_def wp_simps wp_commit_if_changed
      split: failure.split exn.split)

lemma apply_refund_closes:
  assumes "steady W (\<lambda>l. 0 < l_refunded_cap l)" "0 < l_refunded_cap (fst s)"
  shows "wp (apply_refund W r p) (\<lambda>_ t. closed_out (r_id r) (fst t)) (\<lambda>_ _. True) s"
proof -
  have cap: "0 < l_refunded_cap (fst (others W s))" using steady_others [OF assms] .
  have tail: "wp (op_block [commit_refund_state W (r_id r) (r_model_family r),
      emit_reservation_lifecycle_event W ''capacity_refunded'' r None (rp_reserved p)])
      (\<lambda>_ t. closed_out (r_id r) (fst t)) (\<lambda>_ _. True) t" if "0 < l_refunded_cap (fst t)" for t
    unfolding wp_block_Cons wp_block_Nil
    by (rule wp_mono [OF commit_closes [OF that]]) (rule emit_changes_nothing, auto)
  have call: "wp (op_try (op_block [pause W, in_world (bk_refund W (rp_backend p) (rp_reserved p)
        (rp_actual p) (rp_ids p) (r_id r) (r_model_family r) (r_bucket_ids r)
        (if rp_marker p then Some (r_usage r) else None))]) (refund_error_handler W p r))
      (\<lambda>_ t. 0 < l_refunded_cap (fst t)) (\<lambda>_ _. True) s"
    unfolding wp_try wp_block_Cons wp_block_Nil wp_pause wp_in_world
    by (rule wp_anything) (simp_all add: cap refund_error_handler_raises)
  show ?thesis
    unfolding apply_refund_def wp_block_Cons [of "op_try m h" for m h]
    by (rule wp_mono [OF call]) (simp_all add: tail)
qed

text \<open>Everything before the call keeps what the other threads keep.\<close>

lemma preserves_plan_refund:
  assumes "steady W (\<lambda>l. J (core l))"
  shows "preserves (on_core J) (plan_refund W actual r)"
  by (intro core_view.plan steady_undisturbed assms)

lemma preserves_begin_refund:
  assumes "\<And>l. J l \<Longrightarrow> J (remember_refund_state rid StatePending l)"
    "\<And>l. J l \<Longrightarrow> J (l\<lparr>l_in_progress := insert rid (l_in_progress l)\<rparr>)"
  shows "preserves (about J) (begin_refund rid allow_closed)"
  unfolding begin_refund_def raise_if_closed_def
  by (intro preserves_intros) (simp_all add: assms)

lemma attempt_refund_closes:
  assumes "steady W (\<lambda>l. 0 < l_refunded_cap l)" "0 < l_refunded_cap (fst s)"
  shows "wp (attempt_refund W actual r) (\<lambda>_ t. closed_out (r_id r) (fst t)) (\<lambda>_ _. True) s"
proof -
  have st: "steady W (\<lambda>l. 0 < l_refunded_cap (core l))" using assms(1) by simp
  have plan: "wp (op_try (plan_refund W actual r)
      (\<lambda>e. op_seq (on_limiter (clear_refund_state_if_pending (r_id r) False)) (op_raise e)))
      (\<lambda>_. on_core (\<lambda>l. 0 < l_refunded_cap l)) (\<lambda>_ _. True) s"
    unfolding wp_try
    by (rule wp_keeps [OF preserves_plan_refund [OF st]]) (simp_all add: assms(2) about_def wp_simps)
  have call: "wp (op_try (apply_refund W r p)
      (\<lambda>e. op_seq (commit_if_changed W p r (mark_refund_state_failed (r_id r))) (op_raise e)))
      (\<lambda>_ t. closed_out (r_id r) (fst t)) (\<lambda>_ _. True) t" if "0 < l_refunded_cap (fst t)" for t p
    unfolding wp_try
    by (rule wp_mono [OF apply_refund_closes [OF assms(1) that]])
      (simp_all add: wp_simps wp_commit_if_changed)
  show ?thesis
    unfolding attempt_refund_def wp_bind wp_seq wp_return
    by (rule wp_mono [OF plan]) (simp_all add: call about_def)
qed

lemma refund_capacity_locked_closes:
  assumes "steady W (\<lambda>l. 0 < l_refunded_cap l)" "0 < l_refunded_cap (fst s)"
  shows "wp (refund_capacity_locked W actual r allow_closed)
    (\<lambda>_ t. closed_out (r_id r) (fst t) \<and> r_id r \<notin> l_in_progress (fst t)) (\<lambda>_ _. True) s"
proof -
  have begun: "wp (begin_refund (r_id r) allow_closed) (\<lambda>_. about (\<lambda>l. 0 < l_refunded_cap l)) (\<lambda>_ _. True) s"
    by (rule wp_keeps [OF preserves_begin_refund]) (use assms(2) in \<open>simp_all add: about_def\<close>)
  have attempt: "wp (attempt_refund W actual r) (\<lambda>_ t. closed_out (r_id r) (fst t)) (\<lambda>_ _. True) (others W t)"
    if "about (\<lambda>l. 0 < l_refunded_cap l) t" for t
    using attempt_refund_closes [OF assms(1) steady_others [OF assms(1)]] that by (simp add: about_def)
  have drop: "closed_out rid (l\<lparr>l_in_progress := x\<rparr>) = closed_out rid l" for rid x and l :: "'a limiter"
    by (simp add: closed_out_def committed_def absent_def)
  show ?thesis
    unfolding refund_capacity_locked_def wp_seq
      wp_bind wp_finally wp_seq wp_pause wp_on_limiter wp_when
    by (rule wp_mono [OF begun])
       (rule wp_mono [OF attempt], auto simp: drop warn_def wp_in_world intro: wp_anything)
qed

lemma wp_reference [simp]:
  "l_refunded_cap (release_lock_reference rid k l) = l_refunded_cap l"
  "l_in_progress (release_lock_reference rid k l) = l_in_progress l"
  "l_refunded (release_lock_reference rid k l) = l_refunded l"
  "l_in_flight (release_lock_reference rid k l) = l_in_flight l"
  "l_pending (release_lock_reference rid k l) = l_pending l"
  "l_delivery (release_lock_reference rid k l) = l_delivery l"
  "l_in_flight_family (release_lock_reference rid k l) = l_in_flight_family l"
  "l_snapshots (release_lock_reference rid k l) = l_snapshots l"
  "l_closed (release_lock_reference rid k l) = l_closed l"
  by (simp_all add: release_lock_reference_def Let_def)

lemma take_reference [simp]:
  "l_refunded_cap (snd (take_lock_reference rid l)) = l_refunded_cap l"
  "l_in_progress (snd (take_lock_reference rid l)) = l_in_progress l"
  "l_refunded (snd (take_lock_reference rid l)) = l_refunded l"
  "l_in_flight (snd (take_lock_reference rid l)) = l_in_flight l"
  "l_pending (snd (take_lock_reference rid l)) = l_pending l"
  "l_delivery (snd (take_lock_reference rid l)) = l_delivery l"
  "l_in_flight_family (snd (take_lock_reference rid l)) = l_in_flight_family l"
  "l_snapshots (snd (take_lock_reference rid l)) = l_snapshots l"
  "l_closed (snd (take_lock_reference rid l)) = l_closed l"
  by (simp_all add: take_lock_reference_def split: option.split)

lemma wp_acquire_lock [wp_simps]:
  "wp (acquire_reservation_refund_lock W rid) Q E = (\<lambda>s.
      let k = fst (take_lock_reference rid (fst s)) in
      wp (await_lock W k)
        (\<lambda>_ t. Q k ((fst t)\<lparr>l_locks_held := insert k (l_locks_held (fst t))\<rparr>, snd t))
        (\<lambda>e t. E e (release_lock_reference rid k (fst t), snd t))
        (snd (take_lock_reference rid (fst s)), snd s))"
  by (simp add: acquire_reservation_refund_lock_def wp_simps case_prod_unfold Let_def)

lemma wp_release_lock [wp_simps]:
  "wp (release_reservation_refund_lock rid k) Q E = (\<lambda>s. Q ()
     (release_lock_reference rid k ((fst s)\<lparr>l_locks_held := l_locks_held (fst s) - {k}\<rparr>), snd s))"
  by (simp add: release_reservation_refund_lock_def wp_simps)

lemma closed_out_select [simp]:
  "closed_out rid (release_lock_reference rid' k l) = closed_out rid l"
  "closed_out rid (l\<lparr>l_locks_held := h\<rparr>) = closed_out rid l"
  by (simp_all add: closed_out_def committed_def absent_def)

lemma refund_reserved_closes:
  assumes "steady W (\<lambda>l. 0 < l_refunded_cap l)" "0 < l_refunded_cap (fst s)"
  shows "wp (refund_reserved W actual r allow_closed)
    (\<lambda>_ t. closed_out (r_id r) (fst t) \<and> r_id r \<notin> l_in_progress (fst t)) (\<lambda>_ _. True) s"
proof -
  have locked: "wp (await_lock W k) (\<lambda>_. about (\<lambda>l. 0 < l_refunded_cap l)) (\<lambda>_ _. True)
      (snd (take_lock_reference (r_id r) (fst s)), snd s)" for k
    by (rule wp_keeps [OF steady_await [OF assms(1)]]) (use assms(2) in simp_all)
  have body: "wp (refund_capacity_locked W actual r allow_closed)
      (\<lambda>_ t. closed_out (r_id r) (fst t) \<and> r_id r \<notin> l_in_progress (fst t)) (\<lambda>_ _. True)
      ((fst t)\<lparr>l_locks_held := h\<rparr>, snd t)" if "about (\<lambda>l. 0 < l_refunded_cap l) t" for t h
    by (rule refund_capacity_locked_closes [OF assms(1)]) (use that in \<open>simp add: about_def\<close>)
  show ?thesis
    unfolding refund_reserved_def wp_bind wp_acquire_lock wp_finally wp_release_lock Let_def
    by (rule wp_mono [OF locked]) (rule wp_mono [OF body], auto)
qed

section \<open>A refund that is refused\<close>

lemma begin_refund_refuses:
  "committed rid (fst s) \<Longrightarrow> \<exists>e. begin_refund rid allow_closed s = (Inl e, s)"
  by (cases s) (auto simp: begin_refund_def op_block.simps op_seq_def op_bind_def op_when_def
      raise_if_closed_def look_def op_gets_def op_require_def op_raise_def op_return_def
      committed_def refund_state_is_committed_def limiter_closed_error_def)

text \<open>With the outcome of the claim fixed, the rest of the refund is never reached.\<close>

lemma refund_locked_refuses:
  "committed (r_id r) (fst s) \<Longrightarrow>
     \<exists>e. refund_capacity_locked W actual r allow_closed s = (Inl e, s) \<and>
       begin_refund (r_id r) allow_closed s = (Inl e, s)"
  using begin_refund_refuses [of "r_id r" s allow_closed]
  by (auto simp: refund_capacity_locked_def op_seq_def op_bind_def)

lemma refund_refused:
  assumes "steady W (committed (r_id r))" "committed (r_id r) (fst s)"
  shows "fst (refund_reserved W actual r allow_closed s) \<noteq> Inr ()"
    and "refund_reserved (W\<lparr>bk_refund := g\<rparr>) actual r allow_closed s = refund_reserved W actual r allow_closed s"
proof -
  obtain k taken where k: "take_lock_reference (r_id r) (fst s) = (k, taken)" by (metis surj_pair)
  have taken: "committed (r_id r) taken" using take_reference(3) [of "r_id r" "fst s"] k assms(2)
    by (simp add: committed_def)
  obtain res t where aw: "await_lock W k (taken, snd s) = (res, t)" by (metis surj_pair)
  have t: "committed (r_id r) (fst t)"
    using preserves_final [OF steady_await [OF assms(1)] _ aw] taken by (simp add: about_def)
  have acq: "acquire_reservation_refund_lock V (r_id r) s = (case res of
      Inl e \<Rightarrow> (Inl e, release_lock_reference (r_id r) k (fst t), snd t)
    | Inr _ \<Rightarrow> (Inr k, (fst t)\<lparr>l_locks_held := insert k (l_locks_held (fst t))\<rparr>, snd t))"
    if "await_lock V = await_lock W" for V
    using that k aw
    by (cases s; cases res) (auto simp: acquire_reservation_refund_lock_def op_bind_def op_seq_def look_def
        op_gets_def on_limiter_def op_modify_def op_try_def op_raise_def op_return_def case_prod_unfold)
  have body: "\<exists>e. refund_capacity_locked V actual r allow_closed u = (Inl e, u) \<and>
      begin_refund (r_id r) allow_closed u = (Inl e, u)"
    if "committed (r_id r) (fst u)" for u and V :: "('a, 'b) outside"
    using refund_locked_refuses [OF that] by blast
  show "fst (refund_reserved W actual r allow_closed s) \<noteq> Inr ()"
  proof (cases res)
    case (Inl e)
    then show ?thesis using acq [of W] by (simp add: refund_reserved_def op_bind_def)
  next
    case (Inr u)
    let ?s = "((fst t)\<lparr>l_locks_held := insert k (l_locks_held (fst t))\<rparr>, snd t)"
    from body [of ?s W] t obtain e where "refund_capacity_locked W actual r allow_closed ?s = (Inl e, ?s)"
      by (auto simp: committed_def)
    then show ?thesis using acq [of W] Inr
      by (simp add: refund_reserved_def op_bind_def op_finally_def split: prod.split sum.split)
  qed
  show "refund_reserved (W\<lparr>bk_refund := g\<rparr>) actual r allow_closed s = refund_reserved W actual r allow_closed s"
  proof (cases res)
    case (Inl e)
    then show ?thesis using acq [of W] acq [of "W\<lparr>bk_refund := g\<rparr>"] by (simp add: refund_reserved_def op_bind_def)
  next
    case (Inr u)
    let ?s = "((fst t)\<lparr>l_locks_held := insert k (l_locks_held (fst t))\<rparr>, snd t)"
    have "committed (r_id r) (fst ?s)" using t by (simp add: committed_def)
    then obtain e where "refund_capacity_locked W actual r allow_closed ?s = (Inl e, ?s)"
        "refund_capacity_locked (W\<lparr>bk_refund := g\<rparr>) actual r allow_closed ?s = (Inl e, ?s)"
      using body [of ?s W] body [of ?s "W\<lparr>bk_refund := g\<rparr>"] by auto
    then show ?thesis using acq [of W] acq [of "W\<lparr>bk_refund := g\<rparr>"] Inr
      by (simp add: refund_reserved_def op_bind_def op_finally_def)
  qed
qed

section \<open>A refund that leaves no claim behind\<close>

text \<open>
  The lock of a reservation in use by one refund, and the claim of that refund: \<open>holding\<close> is
  what the other threads keep, because only the holder of the lock touches them.
\<close>

definition holding :: "pystr \<Rightarrow> nat \<Rightarrow> 'b limiter \<Rightarrow> bool" where
  "holding rid k l \<longleftrightarrow> map_of (l_locks l) rid = Some k \<and> map_of (l_lock_refs l) rid = Some 1"

definition unclaimed :: "pystr \<Rightarrow> 'b limiter \<Rightarrow> bool" where
  "unclaimed rid l \<longleftrightarrow> map_of (l_locks l) rid = None \<and> map_of (l_lock_refs l) rid = None \<and>
     rid \<notin> l_in_progress l"

definition claimed :: "bool \<Rightarrow> pystr \<Rightarrow> nat \<Rightarrow> 'b limiter \<Rightarrow> bool" where
  "claimed busy rid k l \<longleftrightarrow> holding rid k l \<and> (rid \<in> l_in_progress l \<longleftrightarrow> busy)"

lemma claimed_select [simp]:
  "claimed b rid k (core l) = claimed b rid k l"
  "claimed b rid k (remember_refund_state rid' st l) = claimed b rid k l"
  "claimed b rid k (forget_in_flight_reservation rid' l) = claimed b rid k l"
  "claimed b rid k (l\<lparr>l_last_touched := x\<rparr>) = claimed b rid k l"
  "claimed b rid k (l\<lparr>l_refunded := y\<rparr>) = claimed b rid k l"
  "claimed b rid k (l\<lparr>l_locks_held := z\<rparr>) = claimed b rid k l"
  by (simp_all add: claimed_def holding_def)

lemma claimed_clear [simp]:
  "claimed b rid k (clear_refund_state_if_pending rid' f l) = claimed b rid k l"
  "claimed b rid k (mark_refund_state_failed rid' l) = claimed b rid k l"
  by (simp_all add: clear_refund_state_if_pending_def mark_refund_state_failed_def Let_def)

lemma preserves_emit: "preserves (about J) (emit_reservation_lifecycle_event W k r q u)"
  unfolding preserves_def about_def [abs_def]
  by (auto intro: emit_changes_nothing [where Q = "\<lambda>_. J" and R = "\<lambda>_. J"])

lemma preserves_commit:
  "(\<And>l. J l \<Longrightarrow> J (remember_refund_state rid StateCommitted l)) \<Longrightarrow>
   (\<And>l. J l \<Longrightarrow> J (forget_in_flight_reservation rid l)) \<Longrightarrow>
   (\<And>l x. J l \<Longrightarrow> J (l\<lparr>l_last_touched := x\<rparr>)) \<Longrightarrow> preserves (about J) (commit_refund_state W rid fam)"
  by (simp add: preserves_def wp_simps about_def)

lemma preserves_commit_if_changed:
  "preserves (about J) (commit_refund_state W (r_id r) (r_model_family r)) \<Longrightarrow>
   (\<And>l. J l \<Longrightarrow> J (f l)) \<Longrightarrow> preserves (about J) (commit_if_changed W p r f)"
  by (simp add: preserves_def wp_commit_if_changed about_def)

text \<open>
  A predicate that the bookkeeping of refunds keeps and the other threads keep is kept by the
  whole attempt, whether it returns or raises.
\<close>

lemma preserves_attempt_refund:
  assumes st: "steady W J" and plan: "preserves (about J) (plan_refund W actual r)"
    and touch: "\<And>l x. J l \<Longrightarrow> J (l\<lparr>l_last_touched := x\<rparr>)"
    and mem: "\<And>l st. J l \<Longrightarrow> J (remember_refund_state (r_id r) st l)"
    and pop: "\<And>l. J l \<Longrightarrow> J (l\<lparr>l_refunded := dict_pop (r_id r) (l_refunded l)\<rparr>)"
    and fgt: "\<And>l. J l \<Longrightarrow> J (forget_in_flight_reservation (r_id r) l)"
  shows "preserves (about J) (attempt_refund W actual r)"
proof -
  have clear: "J l \<Longrightarrow> J (clear_refund_state_if_pending (r_id r) f l)" for f l
    by (auto simp: clear_refund_state_if_pending_def Let_def intro: pop fgt)
  have mark: "J l \<Longrightarrow> J (mark_refund_state_failed (r_id r) l)" for l
    by (auto simp: mark_refund_state_failed_def intro: mem)
  have commit: "preserves (about J) (commit_refund_state W (r_id r) (r_model_family r))"
    by (rule preserves_commit) (auto intro: mem fgt touch)
  have handler: "preserves (about J) (refund_error_handler W p r e)" for p e
    unfolding refund_error_handler_def
    by (auto split: failure.split exn.split intro!: preserves_intros commit clear preserves_commit_if_changed)
  have "preserves (about J) (apply_refund W r p)" for p
    unfolding apply_refund_def
    by (intro preserves_intros preserves_emit commit handler steady_undisturbed st)
  then show ?thesis
    unfolding attempt_refund_def
    by (intro preserves_intros preserves_commit_if_changed plan commit) (auto intro: clear mark)
qed

text \<open>The same for a predicate that does not see model families.\<close>

lemma preserves_attempt_refund_core:
  assumes st: "steady W J" and core: "\<And>l. J (core l) = J l"
    and mem: "\<And>l st. J l \<Longrightarrow> J (remember_refund_state (r_id r) st l)"
    and pop: "\<And>l. J l \<Longrightarrow> J (l\<lparr>l_refunded := dict_pop (r_id r) (l_refunded l)\<rparr>)"
    and fgt: "\<And>l. J l \<Longrightarrow> J (forget_in_flight_reservation (r_id r) l)"
  shows "preserves (about J) (attempt_refund W actual r)"
proof (rule preserves_attempt_refund [OF st _ _ mem pop fgt])
  show "preserves (about J) (plan_refund W actual r)"
    using preserves_plan_refund [of W J actual r] st by (simp add: core)
  show "J (l\<lparr>l_last_touched := x\<rparr>)" if "J l" for l x
    using that core [of "l\<lparr>l_last_touched := x\<rparr>"] core [of l] by simp
qed simp_all

lemma begin_refund_claims:
  assumes "claimed False rid k (fst s)"
  shows "wp (begin_refund rid allow_closed) (\<lambda>_. about (claimed True rid k)) (\<lambda>_. about (claimed False rid k)) s"
  using assms
  by (auto simp: begin_refund_def raise_if_closed_def wp_simps about_def claimed_def holding_def
      split: option.split)

lemma refund_locked_unclaims:
  fixes W :: "('b, 'w) outside"
  assumes "\<And>b. steady W (claimed b (r_id r) k)" "claimed False (r_id r) k (fst s)"
  shows "wp (refund_capacity_locked W actual r allow_closed)
    (\<lambda>_. about (claimed False (r_id r) k)) (\<lambda>_. about (claimed False (r_id r) k)) s"
proof -
  have attempt: "preserves (about (claimed True (r_id r) k)) (op_seq (pause W) (attempt_refund W actual r))"
    by (intro preserves_intros steady_undisturbed preserves_attempt_refund_core assms(1)) simp_all
  have done_with: "about (claimed True (r_id r) k) t \<Longrightarrow>
      claimed False (r_id r) k ((fst t)\<lparr>l_in_progress := l_in_progress (fst t) - {r_id r}\<rparr>)" for t :: "'b limiter \<times> 'w"
    by (simp add: about_def claimed_def holding_def)
  show ?thesis
    unfolding refund_capacity_locked_def wp_seq [of "begin_refund a b" for a b]
  proof (rule wp_mono [OF begin_refund_claims [OF assms(2)]])
    fix x and t :: "'b limiter \<times> 'w" assume t: "about (claimed True (r_id r) k) t"
    show "wp (op_bind (op_finally (op_seq (pause W) (attempt_refund W actual r))
          (on_limiter (\<lambda>l. l\<lparr>l_in_progress := l_in_progress l - {r_id r}\<rparr>)))
        (\<lambda>dropped. op_when dropped (warn W RefundDropped)))
      (\<lambda>_. about (claimed False (r_id r) k)) (\<lambda>_. about (claimed False (r_id r) k)) t"
      unfolding wp_bind wp_finally wp_on_limiter wp_when
      by (rule wp_keeps [OF attempt t]) (auto simp: about_def warn_def wp_in_world wp_anything done_with)
  qed simp
qed

lemma release_unclaims:
  "claimed False rid k l \<Longrightarrow> unclaimed rid (release_lock_reference rid k l)"
  by (simp add: claimed_def holding_def unclaimed_def release_lock_reference_def dict_get_def)

lemma take_claims:
  "unclaimed rid l \<Longrightarrow> claimed False rid (fst (take_lock_reference rid l)) (snd (take_lock_reference rid l))"
  by (simp add: claimed_def holding_def unclaimed_def take_lock_reference_def)

text \<open>Whatever raises, a refund gives back its lock and its claim.\<close>

lemma refund_reserved_unclaims:
  fixes W :: "('b, 'w) outside"
  assumes st: "\<And>b k. steady W (claimed b (r_id r) k)" and un: "unclaimed (r_id r) (fst s)"
  shows "wp (refund_reserved W actual r allow_closed)
    (\<lambda>_. about (unclaimed (r_id r))) (\<lambda>_. about (unclaimed (r_id r))) s"
proof -
  let ?k = "fst (take_lock_reference (r_id r) (fst s))"
  let ?I = "about (claimed False (r_id r) ?k) :: 'b limiter \<times> 'w \<Rightarrow> bool"
  have taken: "?I (snd (take_lock_reference (r_id r) (fst s)), snd s)" using take_claims [OF un] by simp
  have locked: "wp (refund_capacity_locked W actual r allow_closed) (\<lambda>_. ?I) (\<lambda>_. ?I)
      ((fst t)\<lparr>l_locks_held := h\<rparr>, snd t)" if "?I t" for t h
    by (rule refund_locked_unclaims [OF st]) (use that in \<open>simp add: about_def\<close>)
  show ?thesis
    unfolding refund_reserved_def wp_bind wp_acquire_lock wp_finally wp_release_lock Let_def
  proof (rule wp_keeps [OF steady_await [OF st, of False ?k] taken])
    fix t :: "'b limiter \<times> 'w" assume t: "?I t"
    show "wp (refund_capacity_locked W actual r allow_closed)
        (\<lambda>x s. about (unclaimed (r_id r)) (release_lock_reference (r_id r) ?k
          ((fst s)\<lparr>l_locks_held := l_locks_held (fst s) - {?k}\<rparr>), snd s))
        (\<lambda>e s. about (unclaimed (r_id r)) (release_lock_reference (r_id r) ?k
          ((fst s)\<lparr>l_locks_held := l_locks_held (fst s) - {?k}\<rparr>), snd s))
        ((fst t)\<lparr>l_locks_held := insert ?k (l_locks_held (fst t))\<rparr>, snd t)"
      by (rule wp_mono [OF locked [OF t]]) (simp_all add: about_def release_unclaims)
  qed (simp add: about_def release_unclaims)
qed

section \<open>A refund that raises\<close>

text \<open>\<open>tracked rid st\<close>: in flight, with the refund state \<open>st\<close>.\<close>

definition tracked :: "pystr \<Rightarrow> refund_state option \<Rightarrow> 'b limiter \<Rightarrow> bool" where
  "tracked rid st l \<longleftrightarrow> 0 < l_refunded_cap l \<and> rid \<in> l_in_flight l \<and> map_of (l_refunded l) rid = st"

text \<open>In flight, and not barred from being refunded again.\<close>

definition retriable :: "pystr \<Rightarrow> 'b limiter \<Rightarrow> bool" where
  "retriable rid l \<longleftrightarrow> tracked rid None l \<or> tracked rid (Some StateFailed) l"

text \<open>What an exception \<open>e\<close> of a refund leaves: to be retried, committed, or unknown to the backend.\<close>

definition settled :: "pystr \<Rightarrow> rfailure \<Rightarrow> 'b limiter \<Rightarrow> bool" where
  "settled rid e l \<longleftrightarrow> retriable rid l \<or> committed rid l \<or> e = UnknownAndForget \<and> absent rid l"

definition unsettled :: "pystr \<Rightarrow> rfailure \<Rightarrow> 'b limiter \<Rightarrow> bool" where
  "unsettled rid e l \<longleftrightarrow> 0 < l_refunded_cap l \<and>
     (tracked rid None l \<or> tracked rid (Some StatePending) l \<or> committed rid l \<or>
      e = UnknownAndForget \<and> absent rid l \<and> map_of (l_refunded l) rid = None)"

lemma tracked_select [simp]:
  "tracked rid st (core l) = tracked rid st l"
  "tracked rid st (l\<lparr>l_in_progress := a\<rparr>) = tracked rid st l"
  "tracked rid st (l\<lparr>l_locks_held := b\<rparr>) = tracked rid st l"
  "tracked rid st (l\<lparr>l_last_touched := c\<rparr>) = tracked rid st l"
  "tracked rid st (release_lock_reference rid' k l) = tracked rid st l"
  "tracked rid st (snd (take_lock_reference rid' l)) = tracked rid st l"
  by (simp_all add: tracked_def)

lemma committed_select [simp]:
  "committed rid (l\<lparr>l_in_progress := a\<rparr>) = committed rid l"
  "committed rid (l\<lparr>l_locks_held := b\<rparr>) = committed rid l"
  "committed rid (l\<lparr>l_last_touched := c\<rparr>) = committed rid l"
  "committed rid (release_lock_reference rid' k l) = committed rid l"
  "committed rid (forget_in_flight_reservation rid' l) = committed rid l"
  by (simp_all add: committed_def)

lemma absent_select [simp]:
  "absent rid (l\<lparr>l_in_progress := a\<rparr>) = absent rid l"
  "absent rid (l\<lparr>l_locks_held := b\<rparr>) = absent rid l"
  "absent rid (l\<lparr>l_last_touched := c\<rparr>) = absent rid l"
  "absent rid (release_lock_reference rid' k l) = absent rid l"
  "absent rid (remember_refund_state rid' st l) = absent rid l"
  by (simp_all add: absent_def)

lemma retriable_select [simp]:
  "retriable rid (l\<lparr>l_in_progress := a\<rparr>) = retriable rid l"
  "retriable rid (l\<lparr>l_locks_held := b\<rparr>) = retriable rid l"
  "retriable rid (release_lock_reference rid' k l) = retriable rid l"
  by (simp_all add: retriable_def)

lemma settled_select [simp]:
  "settled rid e (l\<lparr>l_in_progress := a\<rparr>) = settled rid e l"
  "settled rid e (l\<lparr>l_locks_held := b\<rparr>) = settled rid e l"
  "settled rid e (release_lock_reference rid' k l) = settled rid e l"
  by (simp_all add: settled_def)

lemma commit_settles:
  "0 < l_refunded_cap (fst s) \<Longrightarrow> wp (commit_refund_state W rid fam)
     (\<lambda>_ t. 0 < l_refunded_cap (fst t) \<and> committed rid (fst t)) E s"
  by (simp add: wp_simps) (simp add: committed_def)

lemma clear_tracked:
  "tracked rid (Some StatePending) l \<Longrightarrow> tracked rid None (clear_refund_state_if_pending rid False l)"
  by (simp add: clear_refund_state_if_pending_def tracked_def)

lemma clear_absent:
  "tracked rid (Some StatePending) l \<Longrightarrow>
     absent rid (clear_refund_state_if_pending rid True l) \<and>
     map_of (l_refunded (clear_refund_state_if_pending rid True l)) rid = None"
  by (simp add: clear_refund_state_if_pending_def tracked_def)

lemma handler_unsettled:
  assumes "tracked (r_id r) (Some StatePending) (fst s)"
  shows "wp (refund_error_handler W p r e) (\<lambda>_ _. False) (\<lambda>e t. unsettled (r_id r) e (fst t)) s"
proof -
  have cap: "0 < l_refunded_cap (fst s)" using assms by (simp add: tracked_def)
  have plain: "wp (op_seq (commit_if_changed W p r id) (op_raise e')) (\<lambda>_ _. False)
      (\<lambda>e t. unsettled (r_id r) e (fst t)) s" for e' :: rfailure
    using assms cap by (auto simp: wp_simps wp_commit_if_changed unsettled_def committed_def)
  have commit: "wp (op_seq (commit_refund_state W (r_id r) (r_model_family r)) (op_raise e')) (\<lambda>_ _. False)
      (\<lambda>e t. unsettled (r_id r) e (fst t)) s" for e' :: rfailure
    using cap by (auto simp: wp_simps unsettled_def committed_def)
  have cleared: "wp (op_seq (on_limiter (clear_refund_state_if_pending (r_id r) False)) (op_raise e')) (\<lambda>_ _. False)
      (\<lambda>e t. unsettled (r_id r) e (fst t)) s" for e' :: rfailure
    using clear_tracked [OF assms] by (auto simp: wp_simps unsettled_def tracked_def)
  have forgotten: "wp (op_seq (on_limiter (clear_refund_state_if_pending (r_id r) True)) (op_raise UnknownAndForget))
      (\<lambda>_ _. False) (\<lambda>e t. unsettled (r_id r) e (fst t)) s"
    using clear_absent [OF assms] cap
    by (auto simp: wp_simps unsettled_def clear_refund_state_if_pending_def Let_def)
  have other: "wp (op_raise e') (\<lambda>_ _. False) (\<lambda>e t. unsettled (r_id r) e (fst t)) s" for e' :: rfailure
    using assms cap by (auto simp: wp_simps unsettled_def)
  show ?thesis
    unfolding refund_error_handler_def
    by (auto split: failure.split exn.split intro: plain commit cleared forgotten other)
qed

lemma apply_refund_unsettled:
  assumes "steady W (tracked (r_id r) (Some StatePending))" "tracked (r_id r) (Some StatePending) (fst s)"
  shows "wp (apply_refund W r p) (\<lambda>_ t. committed (r_id r) (fst t)) (\<lambda>e t. unsettled (r_id r) e (fst t)) s"
proof -
  have o: "tracked (r_id r) (Some StatePending) (fst (others W s))" by (rule steady_others [OF assms])
  have call: "wp (op_try (op_block [pause W, in_world (bk_refund W (rp_backend p) (rp_reserved p)
        (rp_actual p) (rp_ids p) (r_id r) (r_model_family r) (r_bucket_ids r)
        (if rp_marker p then Some (r_usage r) else None))]) (refund_error_handler W p r))
      (\<lambda>_ t. tracked (r_id r) (Some StatePending) (fst t)) (\<lambda>e t. unsettled (r_id r) e (fst t)) s"
    unfolding wp_try wp_block_Cons wp_block_Nil wp_pause wp_in_world
    by (rule wp_anything) (auto simp: o intro!: wp_mono [OF handler_unsettled])
  show ?thesis
    unfolding apply_refund_def wp_block_Cons [of "op_try m h" for m h]
  proof (rule wp_mono [OF call])
    fix x t assume t: "tracked (r_id r) (Some StatePending) (fst (t :: 'a limiter \<times> 'b))"
    then have cap: "0 < l_refunded_cap (fst t)" by (simp add: tracked_def)
    show "wp (op_block [commit_refund_state W (r_id r) (r_model_family r),
        emit_reservation_lifecycle_event W ''capacity_refunded'' r None (rp_reserved p)])
        (\<lambda>_ t. committed (r_id r) (fst t)) (\<lambda>e t. unsettled (r_id r) e (fst t)) t"
      unfolding wp_block_Cons wp_block_Nil
      by (rule wp_mono [OF commit_settles [OF cap]]) (rule emit_changes_nothing, auto simp: unsettled_def)
  qed
qed

lemma attempt_refund_settles:
  assumes st: "\<And>st. steady W (tracked (r_id r) st)" and s: "tracked (r_id r) (Some StatePending) (fst s)"
  shows "wp (attempt_refund W actual r) (\<lambda>_ t. committed (r_id r) (fst t)) (\<lambda>e t. settled (r_id r) e (fst t)) s"
proof -
  let ?P = "tracked (r_id r) (Some StatePending)"
  have core: "steady W (\<lambda>l. ?P (core l))" using st by simp
  have plan: "wp (op_try (plan_refund W actual r)
      (\<lambda>e. op_seq (on_limiter (clear_refund_state_if_pending (r_id r) False)) (op_raise e)))
      (\<lambda>_ t. ?P (fst t)) (\<lambda>e t. settled (r_id r) e (fst t)) s"
    unfolding wp_try
    by (rule wp_keeps [OF preserves_plan_refund [OF core]])
       (use s in \<open>auto simp: about_def wp_simps settled_def retriable_def intro: clear_tracked\<close>)
  have mark: "unsettled (r_id r) e l \<Longrightarrow> settled (r_id r) e (mark_refund_state_failed (r_id r) l)"
    for e and l :: "'a limiter"
    by (auto simp: unsettled_def settled_def retriable_def mark_refund_state_failed_def tracked_def committed_def)
  have call: "wp (op_try (apply_refund W r p)
      (\<lambda>e. op_seq (commit_if_changed W p r (mark_refund_state_failed (r_id r))) (op_raise e)))
      (\<lambda>_ t. committed (r_id r) (fst t)) (\<lambda>e t. settled (r_id r) e (fst t)) t" if "?P (fst t)" for t p
    unfolding wp_try wp_seq wp_raise wp_commit_if_changed
    by (rule wp_mono [OF apply_refund_unsettled [OF st that]])
       (auto simp: wp_commit settled_def [of "r_id r" _ "l\<lparr>l_last_touched := x\<rparr>" for l x] committed_def
         unsettled_def [of _ _ "_ :: 'a limiter"] intro: mark)
  show ?thesis
    unfolding attempt_refund_def wp_bind wp_seq wp_return
    by (rule wp_mono [OF plan]) (simp_all add: call)
qed

lemma begin_refund_tracks:
  assumes "retriable rid (fst s)"
  shows "wp (begin_refund rid allow_closed) (\<lambda>_ t. tracked rid (Some StatePending) (fst t))
    (\<lambda>_ t. t = s) s"
  using assms
  by (auto simp: begin_refund_def raise_if_closed_def wp_simps retriable_def tracked_def
      split: option.split)

lemma refund_locked_settles:
  assumes st: "\<And>st. steady W (tracked (r_id r) st)" and s: "retriable (r_id r) (fst s)"
  shows "wp (refund_capacity_locked W actual r allow_closed)
    (\<lambda>_ t. committed (r_id r) (fst t)) (\<lambda>e t. settled (r_id r) e (fst t)) s"
  unfolding refund_capacity_locked_def wp_seq [of "begin_refund a b" for a b]
proof (rule wp_mono [OF begin_refund_tracks [OF s]])
  fix x t assume t: "tracked (r_id r) (Some StatePending) (fst (t :: 'a limiter \<times> 'b))"
  have o: "tracked (r_id r) (Some StatePending) (fst (others W t))" by (rule steady_others [OF st t])
  show "wp (op_bind (op_finally (op_seq (pause W) (attempt_refund W actual r))
        (on_limiter (\<lambda>l. l\<lparr>l_in_progress := l_in_progress l - {r_id r}\<rparr>)))
      (\<lambda>dropped. op_when dropped (warn W RefundDropped)))
    (\<lambda>_ t. committed (r_id r) (fst t)) (\<lambda>e t. settled (r_id r) e (fst t)) t"
    unfolding wp_bind wp_finally wp_on_limiter wp_when wp_seq wp_pause
    by (rule wp_mono [OF attempt_refund_settles [OF st o]])
       (auto simp: warn_def wp_in_world settled_def intro: wp_anything)
qed (use s in \<open>auto simp: settled_def\<close>)

lemma refund_reserved_settles:
  assumes st: "\<And>st. steady W (tracked (r_id r) st)" and s: "retriable (r_id r) (fst s)"
  shows "wp (refund_reserved W actual r allow_closed)
    (\<lambda>_ t. committed (r_id r) (fst t)) (\<lambda>e t. settled (r_id r) e (fst t)) s"
proof -
  let ?taken = "(snd (take_lock_reference (r_id r) (fst s)), snd s)"
  have "wp (await_lock W k) (\<lambda>_ t. retriable (r_id r) (fst t)) (\<lambda>_ t. retriable (r_id r) (fst t)) ?taken" for k
  proof -
    from s consider "tracked (r_id r) None (fst s)" | "tracked (r_id r) (Some StateFailed) (fst s)"
      by (auto simp: retriable_def)
    then show ?thesis
    proof cases
      case 1
      then show ?thesis by (intro wp_keeps [OF steady_await [OF st]]) (auto simp: about_def retriable_def)
    next
      case 2
      then show ?thesis by (intro wp_keeps [OF steady_await [OF st]]) (auto simp: about_def retriable_def)
    qed
  qed
  note locked = this
  have body: "wp (refund_capacity_locked W actual r allow_closed)
      (\<lambda>_ t. committed (r_id r) (fst t)) (\<lambda>e t. settled (r_id r) e (fst t))
      ((fst t)\<lparr>l_locks_held := h\<rparr>, snd t)" if "retriable (r_id r) (fst t)" for t h
    by (rule refund_locked_settles [OF st]) (use that in \<open>simp add: retriable_def\<close>)
  show ?thesis
    unfolding refund_reserved_def wp_bind wp_acquire_lock wp_finally wp_release_lock Let_def
    by (rule wp_mono [OF locked])
       (rule wp_mono [OF body], auto simp: settled_def retriable_def)
qed

end
