(* ===== verification/LimiterAcquire.thy ===== *)
theory LimiterAcquire
  imports LimiterRefunds
begin

text \<open>
  Acquisitions of the limiter under interference: an acquisition that returns leaves its
  reservation in flight, and one that raises leaves nothing, or hands the reservation over
  with the exception.
\<close>

lemma wp_finalize [wp_simps]:
  "wp (finalize_pending_acquire W r model) Q E = (\<lambda>s. Q ()
     (refresh_pending_drained ((add_in_flight r ((fst s)\<lparr>l_pending := l_pending (fst s) - {r_id r},
        l_model_names := dict_set (r_model_family r) model (l_model_names (fst s))\<rparr>))
          \<lparr>l_last_touched := dict_set (r_model_family r) (fst (monotonic W (snd s))) (l_last_touched (fst s))\<rparr>),
      snd (monotonic W (snd s))))"
  by (simp add: finalize_pending_acquire_def wp_simps fun_eq_iff add_in_flight_def)

text \<open>What a finalized acquisition has entered.\<close>

definition issued :: "reservation \<Rightarrow> pystr \<Rightarrow> 'b limiter \<Rightarrow> bool" where
  "issued r model l \<longleftrightarrow> r_id r \<in> l_in_flight l \<and> r_id r \<notin> l_pending l \<and>
     map_of (l_snapshots l) (r_id r) = Some r \<and>
     map_of (l_in_flight_family l) (r_id r) = Some (r_model_family r) \<and>
     map_of (l_model_names l) (r_model_family r) = Some model"

lemma drained_select [simp]:
  "l_in_flight (refresh_pending_drained l) = l_in_flight l"
  "l_pending (refresh_pending_drained l) = l_pending l"
  "l_delivery (refresh_pending_drained l) = l_delivery l"
  "l_snapshots (refresh_pending_drained l) = l_snapshots l"
  "l_in_flight_family (refresh_pending_drained l) = l_in_flight_family l"
  "l_model_names (refresh_pending_drained l) = l_model_names l"
  "l_refunded_cap (refresh_pending_drained l) = l_refunded_cap l"
  "l_closed (refresh_pending_drained l) = l_closed l"
  "l_refunded (refresh_pending_drained l) = l_refunded l"
  by (simp_all add: refresh_pending_drained_def)

lemma add_in_flight_select [simp]:
  "l_in_flight (add_in_flight r l) = insert (r_id r) (l_in_flight l)"
  "l_pending (add_in_flight r l) = l_pending l"
  "l_delivery (add_in_flight r l) = l_delivery l"
  "l_snapshots (add_in_flight r l) = dict_set (r_id r) r (l_snapshots l)"
  "l_in_flight_family (add_in_flight r l) = dict_set (r_id r) (r_model_family r) (l_in_flight_family l)"
  "l_model_names (add_in_flight r l) = l_model_names l"
  "l_refunded_cap (add_in_flight r l) = l_refunded_cap l"
  "l_refunded (add_in_flight r l) = l_refunded l"
  "l_closed (add_in_flight r l) = l_closed l"
  by (simp_all add: add_in_flight_def)

lemma delivery_select [simp]:
  "l_in_flight (begin_acquire_delivery_cleanup rid l) = l_in_flight l"
  "l_pending (begin_acquire_delivery_cleanup rid l) = l_pending l"
  "l_delivery (begin_acquire_delivery_cleanup rid l) = insert rid (l_delivery l)"
  "l_refunded_cap (begin_acquire_delivery_cleanup rid l) = l_refunded_cap l"
  "l_in_flight (end_acquire_delivery_cleanup rid l) = l_in_flight l"
  "l_pending (end_acquire_delivery_cleanup rid l) = l_pending l"
  "l_delivery (end_acquire_delivery_cleanup rid l) = l_delivery l - {rid}"
  "l_snapshots (end_acquire_delivery_cleanup rid l) = l_snapshots l"
  "l_in_flight_family (end_acquire_delivery_cleanup rid l) = l_in_flight_family l"
  "l_model_names (end_acquire_delivery_cleanup rid l) = l_model_names l"
  by (simp_all add: begin_acquire_delivery_cleanup_def end_acquire_delivery_cleanup_def)

lemma absent_end [simp]:
  "absent rid l \<Longrightarrow> absent rid (end_acquire_delivery_cleanup rid' l)"
  by (simp add: absent_def)

lemma issued_end [simp]:
  "issued r m (end_acquire_delivery_cleanup rid l) = issued r m l"
  by (simp add: issued_def)

section \<open>Before the delivery\<close>

lemma preserves_untagged [preserves_intros]: "preserves I m \<Longrightarrow> preserves I (untagged m)"
  unfolding untagged_def by (intro preserves_intros)

lemma preserves_issued_reservation [preserves_intros]: "preserves (about J) (issued_reservation W r v)"
  unfolding issued_reservation_def Let_def
  by (auto split: pyval.split intro!: preserves_intros)

lemma preserves_call_backend:
  assumes "undisturbed W (about J)"
  shows "preserves (about J) (call_backend W backend u block timeout rid)"
  unfolding call_backend_def
  by (intro preserves_intros assms)

lemma preserves_try_acquire:
  assumes "undisturbed W (on_core J)"
  shows "preserves (on_core J) (try_acquire W model u cfg block timeout r)"
  unfolding try_acquire_def
  by (intro preserves_intros preserves_validate_shared preserves_get_backend preserves_call_backend assms)

text \<open>The reservation that comes out is the one that went in, with its time of issue.\<close>

lemma wp_issued_reservation:
  "(\<And>t s'. fst s' = fst s \<Longrightarrow> Q (r\<lparr>r_created_at := Some t\<rparr>) s') \<Longrightarrow> (\<And>e s'. E e s') \<Longrightarrow>
     wp (issued_reservation W r v) Q E s"
  by (auto simp: issued_reservation_def Let_def wp_simps split: pyval.split sum.split)

lemma wp_untagged: "wp (untagged m) Q E = wp m Q (\<lambda>e. E (None, e))"
  by (simp add: untagged_def wp_simps)

lemma try_acquire_issues:
  "wp (try_acquire W model u cfg block timeout r) (\<lambda>r' _. \<exists>t. r' = r\<lparr>r_created_at := Some t\<rparr>) (\<lambda>_ _. True) s"
proof -
  have iss: "wp (untagged (issued_reservation W r v)) (\<lambda>r' _. \<exists>t. r' = r\<lparr>r_created_at := Some t\<rparr>) (\<lambda>_ _. True) s'" for v s'
    unfolding wp_untagged by (rule wp_issued_reservation) auto
  show ?thesis
    unfolding try_acquire_def wp_seq wp_bind
    by (rule wp_anything, rule wp_anything, rule wp_anything, rule wp_anything, rule iss) simp_all
qed

section \<open>The delivery\<close>

lemma issued_finalized:
  "issued r model (refresh_pending_drained ((add_in_flight r (l\<lparr>l_pending := l_pending l - {r_id r},
     l_model_names := dict_set (r_model_family r) model (l_model_names l)\<rparr>))\<lparr>l_last_touched := x\<rparr>))"
  by (simp add: issued_def)

text \<open>The public refund closes out the reservation it is given, as the limiter recorded it.\<close>

lemma public_refund_absent:
  assumes cap: "steady W (\<lambda>l. 0 < l_refunded_cap l)" "0 < l_refunded_cap (fst s)"
    and id: "r_id (authoritative_reservation_for_refund (fst s) given) = rid"
  shows "wp (limiter_refund_capacity W actual given) (\<lambda>_ t. absent rid (fst t)) (\<lambda>_ _. True) s"
proof -
  let ?r = "authoritative_reservation_for_refund (fst s) given"
  have closes: "wp (refund_reserved W a ?r False) (\<lambda>_ t. absent rid (fst t)) (\<lambda>_ _. True) t"
    if "fst t = fst s" for a t
    by (rule wp_mono [OF refund_reserved_closes [OF cap(1)]])
       (use that cap(2) id in \<open>auto simp: closed_out_def\<close>)
  have lifetime: "wp (raise_if_reservation_expired W ?r) (\<lambda>_ t. fst t = fst s) (\<lambda>_ _. True) t"
    if "fst t = fst s" for t
    using that by (auto simp: raise_if_reservation_expired_def wp_simps split: option.split)
  have found: "wp (reservation_to_refund W given) (\<lambda>found t. case found of
        None \<Rightarrow> absent rid (fst t) | Some r \<Rightarrow> r = ?r \<and> fst t = fst s) (\<lambda>_ _. True) s"
  proof -
    have entry: "wp (check_public_entry W) (\<lambda>_ t. t = s) (\<lambda>_ _. True) s"
      by (cases s) (simp add: wp_def check_public_entry_def)
    show ?thesis
      unfolding reservation_to_refund_def wp_seq [of "check_public_entry W"]
    proof (rule wp_mono [OF entry])
      fix x t assume "t = s"
      then show "wp (op_seq raise_if_closed
         (op_bind (look (\<lambda>l. authoritative_reservation_for_refund l given))
           (\<lambda>r. op_seq (checked (\<lambda>l. verify_reservation_bound_to_limiter l r))
             (if r_is_unlimited r
              then op_seq (on_limiter (forget_in_flight_reservation (r_id r))) (op_return None)
              else op_seq (raise_if_reservation_expired W r) (op_return (Some r))))))
         (\<lambda>found t. case found of None \<Rightarrow> absent rid (fst t) | Some r \<Rightarrow> r = ?r \<and> fst t = fst s)
         (\<lambda>_ _. True) t"
        using wp_mono [OF lifetime [of s]] id
        by (auto simp: raise_if_closed_def wp_simps split: sum.split)
    qed simp
  qed
  show ?thesis
    unfolding limiter_refund_capacity_def wp_bind
    by (rule wp_mono [OF found]) (auto simp: wp_simps closes split: option.splits sum.split)
qed

text \<open>
  What the other threads leave of a reservation id they have not been given: they do not make
  it pending, in flight or delivered, and the memory of refunds keeps its size.
\<close>

definition others_mind :: "('b, 'w) outside \<Rightarrow> pystr \<Rightarrow> bool" where
  "others_mind W rid \<longleftrightarrow> steady W (\<lambda>l. 0 < l_refunded_cap l) \<and> steady W (\<lambda>l. rid \<notin> l_pending l) \<and>
     steady W (\<lambda>l. rid \<notin> l_in_flight l \<and> rid \<notin> l_delivery l \<and> 0 < l_refunded_cap l)"

text \<open>The exception gives the caller the reservation, or is one that must not be held up.\<close>

definition handed_over :: "pystr \<Rightarrow> rfailure \<Rightarrow> bool" where
  "handed_over rid e \<longleftrightarrow> is_critical e \<or> (\<exists>r i f. e = RefundFailed r i f \<and> r_id r = rid)"

text \<open>
  A predicate that the bookkeeping of refunds keeps is kept by a refund, whatever its outcome.
\<close>

lemma preserves_refund_reserved:
  assumes st: "steady W J" and attempt: "preserves (about J) (attempt_refund W actual r)"
    and mem: "\<And>l. J l \<Longrightarrow> J (remember_refund_state (r_id r) StatePending l)"
    and prog: "\<And>l x. J l \<Longrightarrow> J (l\<lparr>l_in_progress := x\<rparr>)" and held: "\<And>l x. J l \<Longrightarrow> J (l\<lparr>l_locks_held := x\<rparr>)"
    and take: "\<And>l. J l \<Longrightarrow> J (snd (take_lock_reference (r_id r) l))"
    and release: "\<And>l k. J l \<Longrightarrow> J (release_lock_reference (r_id r) k l)"
  shows "preserves (about J) (refund_reserved W actual r allow_closed)"
proof -
  have locked: "preserves (about J) (acquire_reservation_refund_lock W (r_id r))"
  proof (rule preservesI)
    fix s :: "'a limiter \<times> 'b" assume "about J s"
    then have "about J (snd (take_lock_reference (r_id r) (fst s)), snd s)" by (simp add: about_def take)
    then show "wp (acquire_reservation_refund_lock W (r_id r)) (\<lambda>_. about J) (\<lambda>_. about J) s"
      unfolding wp_acquire_lock Let_def
      by (rule wp_keeps [OF steady_await [OF st]]) (simp_all add: about_def held release)
  qed
  have begun: "preserves (about J) (begin_refund (r_id r) allow_closed)"
    by (rule preserves_begin_refund) (simp_all add: mem prog)
  show ?thesis
    unfolding refund_reserved_def refund_capacity_locked_def release_reservation_refund_lock_def
    by (intro preserves_intros locked begun attempt steady_undisturbed st) (simp_all add: prog held release)
qed

lemma preserves_public_refund:
  assumes "\<And>a r. preserves (about J) (refund_reserved W a r False)"
    and "\<And>l rid. J l \<Longrightarrow> J (forget_in_flight_reservation rid l)"
  shows "preserves (about J) (limiter_refund_capacity W actual given)"
proof -
  have entry: "preserves (about J) (check_public_entry W)"
    by (auto simp: preserves_def wp_def check_public_entry_def split: prod.splits if_splits)
  show ?thesis
    unfolding limiter_refund_capacity_def reservation_to_refund_def raise_if_closed_def raise_if_reservation_expired_def
    by (intro preserves_intros entry assms)
qed

lemma refund_reserved_pending:
  assumes "steady W (\<lambda>l. rid \<notin> l_pending l)"
  shows "preserves (about (\<lambda>l. rid \<notin> l_pending l)) (refund_reserved W actual r allow_closed)"
  by (rule preserves_refund_reserved [OF assms preserves_attempt_refund_core [OF assms]]) simp_all

lemma public_refund_pending:
  assumes "steady W (\<lambda>l. rid \<notin> l_pending l)"
  shows "preserves (about (\<lambda>l. rid \<notin> l_pending l)) (limiter_refund_capacity W actual given)"
  by (rule preserves_public_refund) (simp_all add: refund_reserved_pending assms)

text \<open>The fallback refund of an undelivered acquisition closes it out or hands it over.\<close>

lemma undelivered:
  assumes "others_mind W (r_id r)" "0 < l_refunded_cap (fst s)"
  shows "wp (finalize_and_refund_undelivered_acquire W r model i)
    (\<lambda>_ t. absent (r_id r) (fst t))
    (\<lambda>e t. r_id r \<notin> l_pending (fst t) \<and> handed_over (r_id r) e) s"
proof -
  have st: "steady W (\<lambda>l. 0 < l_refunded_cap l)" "steady W (\<lambda>l. r_id r \<notin> l_pending l)"
    using assms(1) by (simp_all add: others_mind_def)
  let ?P = "\<lambda>l. r_id r \<notin> l_pending l"
  have refund: "wp (op_bind (look l_closed) (\<lambda>closed.
       if closed then refund_reserved W (raw_of_usage (zero_actual_usage r)) r True
       else limiter_refund_capacity W (raw_of_usage (zero_actual_usage r)) r))
      (\<lambda>_ t. absent (r_id r) (fst t)) (\<lambda>_ t. ?P (fst t)) t"
    if t: "issued r model (fst t)" "0 < l_refunded_cap (fst t)" for t
  proof -
    have p: "about ?P t" using t(1) by (simp add: issued_def about_def)
    have auth: "r_id (authoritative_reservation_for_refund (fst t) r) = r_id r"
      using t(1) by (simp add: authoritative_reservation_for_refund_def issued_def)
    have a: "wp (refund_reserved W (raw_of_usage (zero_actual_usage r)) r True)
        (\<lambda>_ t. absent (r_id r) (fst t)) (\<lambda>_ t. ?P (fst t)) t"
      by (rule wp_mono [OF wp_conj [OF refund_reserved_closes [OF st(1) t(2)]
            preservesD [OF refund_reserved_pending [OF st(2)] p]]])
        (auto simp: closed_out_def about_def)
    have b: "wp (limiter_refund_capacity W (raw_of_usage (zero_actual_usage r)) r)
        (\<lambda>_ t. absent (r_id r) (fst t)) (\<lambda>_ t. ?P (fst t)) t"
      by (rule wp_mono [OF wp_conj [OF public_refund_absent [OF st(1) t(2) auth]
            preservesD [OF public_refund_pending [OF st(2)] p]]])
        (auto simp: about_def)
    from a b show ?thesis by (simp add: wp_bind wp_look)
  qed
  show ?thesis
    unfolding finalize_and_refund_undelivered_acquire_def wp_seq wp_try wp_raise wp_finalize
    by (rule wp_mono [OF refund]) (auto simp: issued_finalized assms(2) handed_over_def)
qed

section \<open>The whole acquisition\<close>

text \<open>What an acquisition that raises leaves.\<close>

definition undone :: "pystr \<Rightarrow> rfailure \<Rightarrow> 'b limiter \<Rightarrow> bool" where
  "undone rid e l \<longleftrightarrow> rid \<notin> l_pending l \<and> rid \<notin> l_delivery l \<and> (absent rid l \<or> handed_over rid e)"

lemma begin_pending_wp:
  "wp (begin_pending_acquire r)
     (\<lambda>_ t. l_in_flight (fst t) = l_in_flight (fst s) \<and> l_delivery (fst t) = l_delivery (fst s) \<and>
        l_snapshots (fst t) = l_snapshots (fst s) \<and> l_refunded_cap (fst t) = l_refunded_cap (fst s) \<and>
        r_id r \<in> l_pending (fst t))
     (\<lambda>_ t. \<forall>rid. absent rid (fst t) = absent rid (fst s)) s"
  by (auto simp: begin_pending_acquire_def raise_if_closed_or_closing_def wp_simps absent_def split: sum.split)

text \<open>The delivery, from a state in which the reservation is nowhere but pending.\<close>

lemma delivery_wp:
  assumes mind: "others_mind W (r_id r)" and cap: "0 < l_refunded_cap (fst s)"
  shows "wp (refund_or_forget_reservation_on_raise W r (Some model) block
      (op_seq (finalize_pending_acquire W r model)
        (emit_reservation_lifecycle_event W k r q u)))
    (\<lambda>_ t. issued r model (fst t))
    (\<lambda>e t. r_id r \<notin> l_pending (fst t) \<and> (absent (r_id r) (fst t) \<or> handed_over (r_id r) e)) s"
proof -
  let ?fin = "refresh_pending_drained ((add_in_flight r ((fst s)\<lparr>l_pending := l_pending (fst s) - {r_id r},
      l_model_names := dict_set (r_model_family r) model (l_model_names (fst s))\<rparr>))
        \<lparr>l_last_touched := dict_set (r_model_family r) (fst (monotonic W (snd s))) (l_last_touched (fst s))\<rparr>)"
  have body: "wp (op_seq (finalize_pending_acquire W r model) (emit_reservation_lifecycle_event W k r q u))
      (\<lambda>_ t. issued r model (fst t)) (\<lambda>_ t. 0 < l_refunded_cap (fst t)) s"
    unfolding wp_seq wp_finalize
    by (rule emit_changes_nothing) (simp_all add: issued_finalized cap)
  have undo: "wp (op_seq (if block then finalize_and_refund_undelivered_acquire W r model (Some e)
        else on_limiter (forget_in_flight_reservation (r_id r))) (op_raise e))
      (\<lambda>_ t. issued r model (fst t))
      (\<lambda>e t. r_id r \<notin> l_pending (fst t) \<and> (absent (r_id r) (fst t) \<or> handed_over (r_id r) e)) t"
    if "0 < l_refunded_cap (fst t)" for e t
    unfolding wp_seq wp_raise
    using wp_mono [OF undelivered [OF mind that]]
    by (cases block) (auto simp: wp_on_limiter absent_def)
  show ?thesis
    unfolding refund_or_forget_reservation_on_raise_def
    by (simp only: option.sel option.distinct simp_thms if_False wp_try)
       (rule wp_mono [OF body], simp, rule undo)
qed

lemma acquire_reservation_wp:
  fixes W :: "('b, 'w) outside"
  assumes mind: "others_mind W (r_id r)" and absent: "absent (r_id r) (fst s)"
    and cap: "0 < l_refunded_cap (fst s)"
  shows "wp (acquire_reservation W model u cfg block timeout q r)
    (\<lambda>r' t. (\<exists>c. r' = r\<lparr>r_created_at := Some c\<rparr>) \<and> issued r' model (fst t) \<and> r_id r \<notin> l_delivery (fst t))
    (\<lambda>e t. undone (r_id r) e (fst t)) s"
proof -
  let ?J = "\<lambda>l :: 'b limiter. r_id r \<notin> l_in_flight l \<and> r_id r \<notin> l_delivery l \<and> 0 < l_refunded_cap l"
  have J: "steady W ?J" using mind by (simp add: others_mind_def)
  have try_keeps: "preserves (about ?J) (try_acquire W model u cfg block timeout r)"
    using preserves_try_acquire [of W ?J] steady_undisturbed [OF J] by simp
  have tried: "wp (op_try (try_acquire W model u cfg block timeout r) (acquire_error_handler W model r))
      (\<lambda>r' t. (\<exists>c. r' = r\<lparr>r_created_at := Some c\<rparr>) \<and> ?J (fst t)) (\<lambda>e t. undone (r_id r) e (fst t)) t"
    if "?J (fst t)" for t
    unfolding wp_try
  proof (rule wp_mono [OF wp_conj [OF try_acquire_issues preservesD [OF try_keeps]]])
    show "about ?J t" using that by (simp add: about_def)
    fix e and t' :: "'b limiter \<times> 'w" assume "True \<and> about ?J t'"
    then have t': "?J (fst t')" by (simp add: about_def)
    then show "wp (acquire_error_handler W model r e)
        (\<lambda>r' t. (\<exists>c. r' = r\<lparr>r_created_at := Some c\<rparr>) \<and> ?J (fst t)) (\<lambda>e t. undone (r_id r) e (fst t)) t'"
      by (auto simp: acquire_error_handler_def Let_def wp_simps undone_def handed_over_def absent_def
          rollback_pending_acquire_def split: prod.split option.split)
  qed (auto simp: about_def)
  have deliver: "wp (op_seq (on_limiter (begin_acquire_delivery_cleanup (r_id r')))
      (op_finally
        (op_seq (refund_or_forget_reservation_on_raise W r' (Some model) block
            (op_seq (finalize_pending_acquire W r' model)
              (emit_reservation_lifecycle_event W ''capacity_consumed'' r' q u)))
          (op_return r'))
        (on_limiter (end_acquire_delivery_cleanup (r_id r')))))
      (\<lambda>r' t. (\<exists>c. r' = r\<lparr>r_created_at := Some c\<rparr>) \<and> issued r' model (fst t) \<and> r_id r \<notin> l_delivery (fst t))
      (\<lambda>e t. undone (r_id r) e (fst t)) t"
    if r': "r' = r\<lparr>r_created_at := Some c\<rparr>" and t: "0 < l_refunded_cap (fst t)" for r' c t
  proof -
    have mind': "others_mind W (r_id r')" using mind r' by simp
    have cap': "0 < l_refunded_cap (fst (begin_acquire_delivery_cleanup (r_id r') (fst t), snd t))" using t by simp
    show ?thesis
      unfolding wp_seq wp_finally wp_on_limiter wp_return
      by (rule wp_mono [OF delivery_wp [OF mind' cap']])
         (use r' in \<open>auto simp: undone_def\<close>)
  qed
  show ?thesis
    unfolding acquire_reservation_def wp_seq [of "begin_pending_acquire r"] wp_bind [of "op_try m h" for m h]
  proof (rule wp_mono [OF begin_pending_wp])
    fix x and t :: "'b limiter \<times> 'w"
    assume "l_in_flight (fst t) = l_in_flight (fst s) \<and> l_delivery (fst t) = l_delivery (fst s) \<and>
        l_snapshots (fst t) = l_snapshots (fst s) \<and> l_refunded_cap (fst t) = l_refunded_cap (fst s) \<and>
        r_id r \<in> l_pending (fst t)"
    then have J: "?J (fst t)" using absent cap by (simp add: absent_def)
    show "wp (op_try (try_acquire W model u cfg block timeout r) (acquire_error_handler W model r))
        (\<lambda>r'. wp (op_seq (on_limiter (begin_acquire_delivery_cleanup (r_id r')))
            (op_finally
              (op_seq (refund_or_forget_reservation_on_raise W r' (Some model) block
                  (op_seq (finalize_pending_acquire W r' model)
                    (emit_reservation_lifecycle_event W ''capacity_consumed'' r' q u)))
                (op_return r'))
              (on_limiter (end_acquire_delivery_cleanup (r_id r')))))
          (\<lambda>r' t. (\<exists>c. r' = r\<lparr>r_created_at := Some c\<rparr>) \<and> issued r' model (fst t) \<and> r_id r \<notin> l_delivery (fst t))
          (\<lambda>e t. undone (r_id r) e (fst t)))
        (\<lambda>e t. undone (r_id r) e (fst t)) t"
    proof (rule wp_mono [OF tried [OF J]])
      fix r' and t' :: "'b limiter \<times> 'w"
      assume "(\<exists>c. r' = r\<lparr>r_created_at := Some c\<rparr>) \<and> ?J (fst t')"
      then obtain c where "r' = r\<lparr>r_created_at := Some c\<rparr>" "0 < l_refunded_cap (fst t')" by blast
      then show "wp (op_seq (on_limiter (begin_acquire_delivery_cleanup (r_id r')))
            (op_finally
              (op_seq (refund_or_forget_reservation_on_raise W r' (Some model) block
                  (op_seq (finalize_pending_acquire W r' model)
                    (emit_reservation_lifecycle_event W ''capacity_consumed'' r' q u)))
                (op_return r'))
              (on_limiter (end_acquire_delivery_cleanup (r_id r')))))
          (\<lambda>r' t. (\<exists>c. r' = r\<lparr>r_created_at := Some c\<rparr>) \<and> issued r' model (fst t) \<and> r_id r \<notin> l_delivery (fst t))
          (\<lambda>e t. undone (r_id r) e (fst t)) t'"
        by (rule deliver)
    qed
  next
    fix e and t :: "'b limiter \<times> 'w" assume "\<forall>rid. absent rid (fst t) = absent rid (fst s)"
    then have "absent (r_id r) (fst t)" using absent by blast
    then show "undone (r_id r) e (fst t)" by (simp add: undone_def) (simp add: absent_def)
  qed
qed

end
