(* ===== verification/LimiterBooks.thy ===== *)
theory LimiterBooks
  imports LimiterAcquire
begin

text \<open>
  The books about model families: how many aliases a family has and which signature they
  were counted for. Every registration and every eviction keeps them exact.
\<close>

section \<open>The invariant\<close>

definition aliases :: "pystr \<Rightarrow> 'b limiter \<Rightarrow> pystr set" where
  "aliases fam l = {m. map_of (l_families l) m = Some fam}"

definition family_book :: "'b limiter \<Rightarrow> pystr \<Rightarrow> bool" where
  "family_book l fam \<longleftrightarrow> (case map_of (l_family_signature l) fam of
      None \<Rightarrow> aliases fam l = {} \<and> map_of (l_signature_counts l) fam = None \<and>
        map_of (l_alias_counts l) fam = None
    | Some sg \<Rightarrow> aliases fam l \<noteq> {} \<and>
        map_of (l_signature_counts l) fam = Some [(sg, int (card (aliases fam l)))] \<and>
        map_of (l_alias_counts l) fam = Some (int (card (aliases fam l))))"

definition books :: "'b limiter \<Rightarrow> bool" where
  "books l \<longleftrightarrow> distinct (map fst (l_families l)) \<and> distinct (map fst (l_family_signature l)) \<and>
     (\<forall>m. map_of (l_families l) m = None \<longleftrightarrow> map_of (l_model_signature l) m = None) \<and>
     (\<forall>fam. family_book l fam) \<and>
     int (length (l_families l)) \<le> l_max_aliases l \<and>
     int (length (l_family_signature l)) \<le> l_max_model_families l"

text \<open>The model routes to the family, or to none yet.\<close>

definition routes :: "pystr \<Rightarrow> pystr \<Rightarrow> 'b limiter \<Rightarrow> bool" where
  "routes m fam l \<longleftrightarrow> books l \<and> map_of (l_families l) m \<in> {None, Some fam}"

lemma finite_aliases [simp]: "finite (aliases fam l)"
  by (rule finite_subset [OF _ finite_dom_map_of [of "l_families l"]]) (auto simp: aliases_def)

lemma length_dict_set:
  "distinct (map fst d) \<Longrightarrow> length (dict_set k v d) = (if map_of d k = None then Suc (length d) else length d)"
  by (induction d) auto

section \<open>Registration\<close>

text \<open>
  The counts a registration starts from: without the model's previous signature and free of
  conflicts, or reset to the model's new signature.
\<close>

definition settled_counts ::
  "'b limiter \<Rightarrow> pystr \<Rightarrow> signature \<Rightarrow> signature option \<Rightarrow> (signature, int) dict \<Rightarrow> bool \<Rightarrow> bool" where
  "settled_counts l fam current previous counts reset \<longleftrightarrow>
     (let before = without_previous (dict_get (l_signature_counts l) fam []) previous in
      if conflicting_signatures before current = [] then counts = before \<and> \<not> reset
      else counts = [(current, dict_get (l_alias_counts l) fam 0)] \<and> reset)"

lemma settle_conflict_counts:
  "wp (settle_conflict W m fam current (without_previous (dict_get (l_signature_counts (fst s)) fam []) previous))
     (\<lambda>(counts, reset) t. fst t = fst s \<and> settled_counts (fst s) fam current previous counts reset)
     (\<lambda>_ t. fst t = fst s) s"
proof -
  have getter: "preserves (about (\<lambda>l. l = fst s)) (config_getter W rep)" for rep
    by (rule preserves_config_getter)
  have rest: "wp (config_getter W rep) Q E s" if "\<And>c t. fst t = fst s \<Longrightarrow> Q c t" "\<And>e t. fst t = fst s \<Longrightarrow> E e t"
    for rep Q E
    by (rule wp_keeps [OF getter]) (use that in \<open>auto simp: about_def\<close>)
  show ?thesis
    unfolding settle_conflict_def
    by (auto simp: wp_simps settled_counts_def Let_def split: option.split sum.split intro!: rest)
qed

lemma register_signatures [simp]:
  "l_family_signature (register_alias m fam c p oc ct rs l) = dict_set fam c (l_family_signature l)"
  "l_families (register_alias m fam c p oc ct rs l) = dict_set m fam (l_families l)"
  "l_model_signature (register_alias m fam c p oc ct rs l) = dict_set m c (l_model_signature l)"
  "l_max_aliases (register_alias m fam c p oc ct rs l) = l_max_aliases l"
  "l_max_model_families (register_alias m fam c p oc ct rs l) = l_max_model_families l"
  by (simp_all add: register_alias_def Let_def)

lemma aliases_register:
  "map_of (l_families l) m \<in> {None, Some fam} \<Longrightarrow>
     aliases f (register_alias m fam c p oc ct rs l) = (if f = fam then insert m (aliases f l) else aliases f l)"
  by (auto simp: aliases_def)

lemma books_family: "books l \<Longrightarrow> family_book l fam"
  by (simp add: books_def)

text \<open>The counts of the family after the registration.\<close>

lemma register_book:
  assumes b: "books l" and route: "map_of (l_families l) m \<in> {None, Some fam}"
    and new: "map_of (l_model_signature l) m \<noteq> Some c"
    and ct: "settled_counts l fam c (map_of (l_model_signature l) m) ct rs"
  shows "family_book (register_alias m fam c (map_of (l_model_signature l) m)
      (dict_get (l_signature_counts l) fam []) ct rs l) fam"
proof -
  let ?p = "map_of (l_model_signature l) m"
  let ?l = "register_alias m fam c ?p (dict_get (l_signature_counts l) fam []) ct rs l"
  have al: "aliases fam ?l = insert m (aliases fam l)" using aliases_register [OF route] by simp
  have dom: "map_of (l_families l) m = None \<longleftrightarrow> ?p = None" using b by (simp add: books_def)
  have memb: "m \<in> aliases fam l \<longleftrightarrow> ?p \<noteq> None" using dom route by (auto simp: aliases_def)
  show ?thesis
  proof (cases "map_of (l_family_signature l) fam")
    case None
    with books_family [OF b, of fam] have e: "aliases fam l = {}" "map_of (l_signature_counts l) fam = None"
      "map_of (l_alias_counts l) fam = None" by (simp_all add: family_book_def)
    then have "?p = None" using memb by (metis empty_iff)
    moreover have "map_of (l_families l) m = None" using dom \<open>?p = None\<close> by simp
    ultimately show ?thesis using e ct al
      by (auto simp: family_book_def settled_counts_def conflicting_signatures_def without_previous_def
          register_alias_def Let_def dict_get_def)
  next
    case (Some sg)
    let ?n = "int (card (aliases fam l))"
    from books_family [OF b, of fam] Some have e: "aliases fam l \<noteq> {}"
      "map_of (l_signature_counts l) fam = Some [(sg, ?n)]" "map_of (l_alias_counts l) fam = Some ?n"
      by (simp_all add: family_book_def)
    have pos: "0 < ?n" using e(1) by (simp add: card_gt_0_iff)
    show ?thesis
    proof (cases ?p)
      case None
      then have "card (insert m (aliases fam l)) = Suc (card (aliases fam l))"
        using memb by simp
      then show ?thesis using None e pos ct al dom
        by (cases "sg = c")
           (auto simp: family_book_def settled_counts_def conflicting_signatures_def without_previous_def
             register_alias_def Let_def dict_get_def)
    next
      case (Some p)
      then have "insert m (aliases fam l) = aliases fam l" using memb by auto
      then show ?thesis using Some e pos ct al dom new
        by (cases "p = sg"; cases "sg = c"; cases "?n \<le> 1")
           (auto simp: family_book_def settled_counts_def conflicting_signatures_def without_previous_def
             register_alias_def Let_def dict_get_def dict_pop_def)
    qed
  qed
qed

lemma register_books:
  assumes b: "books l" and route: "map_of (l_families l) m \<in> {None, Some fam}"
    and new: "map_of (l_model_signature l) m \<noteq> Some c"
    and ct: "settled_counts l fam c (map_of (l_model_signature l) m) ct rs"
    and caps: "enforce_new_model_family_cap l fam = Inr ()" "enforce_new_alias_cap l m = Inr ()"
  shows "books (register_alias m fam c (map_of (l_model_signature l) m)
      (dict_get (l_signature_counts l) fam []) ct rs l)"
proof -
  let ?l = "register_alias m fam c (map_of (l_model_signature l) m) (dict_get (l_signature_counts l) fam []) ct rs l"
  have other: "family_book ?l f" if "f \<noteq> fam" for f
  proof -
    have "aliases f ?l = aliases f l" using aliases_register [OF route] that by simp
    then show ?thesis using books_family [OF b, of f] that
      by (auto simp: family_book_def register_alias_def Let_def split: option.splits)
  qed
  have "family_book ?l f" for f
    using other [of f] register_book [OF b route new ct] by (cases "f = fam") auto
  moreover have "int (length (l_families ?l)) \<le> l_max_aliases l"
    "int (length (l_family_signature ?l)) \<le> l_max_model_families l"
    using b caps by (auto simp: books_def length_dict_set enforce_new_alias_cap_def enforce_new_model_family_cap_def)
  ultimately show ?thesis using b
    by (auto simp: books_def distinct_dict_set)
qed

lemma aliases_touched [simp]: "aliases f (l\<lparr>l_last_touched := a\<rparr>) = aliases f l"
  by (simp add: aliases_def)

lemma book_touched [simp]: "family_book (l\<lparr>l_last_touched := a\<rparr>) f = family_book l f"
  by (simp add: family_book_def split: option.split)

lemma books_touched [simp]: "books (l\<lparr>l_last_touched := a\<rparr>) = books l"
  by (simp add: books_def)

text \<open>The critical section keeps the books, and a registration that returns has its route.\<close>

lemma validate_locked_books:
  assumes "routes m fam (fst s)"
  shows "wp (validate_shared_locked W m fam c reg) (\<lambda>_ t. routes m fam (fst t)) (\<lambda>_ t. routes m fam (fst t)) s"
proof -
  have b: "books (fst s)" "map_of (l_families (fst s)) m \<in> {None, Some fam}"
    using assms by (simp_all add: routes_def)
  show ?thesis
  proof (cases "map_of (l_model_signature (fst s)) m = Some c")
    case True
    then show ?thesis using assms
      by (simp add: validate_shared_locked_def wp_simps routes_def)
  next
    case False
    have register: "books (register_alias m fam c (map_of (l_model_signature (fst s)) m)
        (dict_get (l_signature_counts (fst s)) fam []) ct rs (fst s))"
      if "settled_counts (fst s) fam c (map_of (l_model_signature (fst s)) m) ct rs"
        "enforce_new_model_family_cap (fst s) fam = Inr ()" "enforce_new_alias_cap (fst s) m = Inr ()" for ct rs
      by (rule register_books [OF b False that])
    show ?thesis
      unfolding validate_shared_locked_def
      using False assms
      by (simp add: wp_simps)
         (rule wp_mono [OF settle_conflict_counts],
          auto simp: wp_simps routes_def split: sum.split intro: register)
  qed
qed

lemma validate_books:
  assumes fam: "get_model_family cfg = Inr fam" and u: "undisturbed W (about (routes m fam))"
    and s: "routes m fam (fst s)"
  shows "wp (validate_shared_model_family_config W m cfg reg)
    (\<lambda>_ t. routes m fam (fst t)) (\<lambda>_ t. routes m fam (fst t)) s"
proof -
  have o: "routes m fam (fst (others W s))" using undisturbedD [OF u, of s] s by (simp add: about_def)
  show ?thesis
    unfolding validate_shared_model_family_config_def
    using validate_locked_books [OF o, of W "config_signature cfg" reg] s
    by (simp add: wp_simps fam routes_def)
qed

section \<open>Eviction\<close>

lemma map_of_filter_fst: "map_of (filter (\<lambda>p. fst p \<notin> X) d) k = (if k \<in> X then None else map_of d k)"
  using map_of_filter_keys [of "\<lambda>k. k \<notin> X" d k] by (simp add: case_prod_unfold)

lemma evict_books:
  assumes b: "books l"
  shows "books (evict_family fam l)"
proof -
  let ?X = "set (map fst (filter (\<lambda>p. snd p = fam) (l_families l)))"
  have d: "distinct (map fst (l_families l))" using b by (simp add: books_def)
  then have X: "?X = aliases fam l"
    by (auto simp: aliases_def map_of_eq_Some_iff image_iff)
  have fams: "map_of (l_families (evict_family fam l)) m = (if m \<in> aliases fam l then None else map_of (l_families l) m)" for m
    using map_of_filter_fst [of ?X "l_families l" m] X by (simp add: evict_family_def Let_def)
  have sigs: "map_of (l_model_signature (evict_family fam l)) m =
      (if m \<in> aliases fam l then None else map_of (l_model_signature l) m)" for m
    using map_of_filter_fst [of ?X "l_model_signature l" m] X by (simp add: evict_family_def Let_def)
  have al: "aliases f (evict_family fam l) = (if f = fam then {} else aliases f l)" for f
    using fams by (auto simp: aliases_def)
  have "family_book (evict_family fam l) f" for f
    using books_family [OF b, of f] al [of f]
    by (auto simp: family_book_def evict_family_def Let_def split: option.splits)
  moreover have "length (l_families (evict_family fam l)) \<le> length (l_families l)"
    "length (l_family_signature (evict_family fam l)) \<le> length (l_family_signature l)"
    by (simp_all add: evict_family_def Let_def dict_pop_def)
  moreover have "distinct (map fst (l_families (evict_family fam l)))"
    "distinct (map fst (l_family_signature (evict_family fam l)))"
    using b by (simp_all add: evict_family_def Let_def books_def distinct_map_filter distinct_dict_pop)
  moreover have "l_max_aliases (evict_family fam l) = l_max_aliases l"
    "l_max_model_families (evict_family fam l) = l_max_model_families l"
    by (simp_all add: evict_family_def Let_def)
  ultimately show ?thesis using b fams sigs by (auto simp: books_def)
qed

lemma evict_fold_books: "books l \<Longrightarrow> books (fold evict_family fams l)"
  by (induction fams arbitrary: l) (simp_all add: evict_books)

lemma empty_books: "mk_limiter ud pd a pid i = Inr l \<Longrightarrow> books l"
  by (auto simp: mk_limiter_def res_simps books_def family_book_def aliases_def validate_positive_int_cap_def
      split: pyval.splits if_splits option.splits)

section \<open>The books through a whole acquisition\<close>

text \<open>What the books are about; everything but registration and eviction is blind to it.\<close>

definition book_of :: "'b limiter \<Rightarrow> 'b limiter" where
  "book_of l = (core l)\<lparr>l_families := l_families l, l_family_signature := l_family_signature l,
     l_model_signature := l_model_signature l, l_signature_counts := l_signature_counts l,
     l_alias_counts := l_alias_counts l, l_in_flight := {}, l_pending := {}, l_delivery := {},
     l_in_flight_family := [], l_snapshots := [], l_refunded := [], l_in_progress := {},
     l_drained := False, l_locks := [], l_lock_refs := [], l_locks_held := {}, l_next_lock := 0,
     l_closed := False, l_closing := False, l_close_drained := False\<rparr>"

lemma book_of_select [simp]:
  "l_families (book_of l) = l_families l" "l_family_signature (book_of l) = l_family_signature l"
  "l_model_signature (book_of l) = l_model_signature l"
  "l_signature_counts (book_of l) = l_signature_counts l"
  "l_alias_counts (book_of l) = l_alias_counts l" "l_max_aliases (book_of l) = l_max_aliases l"
  "l_max_model_families (book_of l) = l_max_model_families l"
  by (simp_all add: book_of_def core_def)

lemma aliases_book_of [simp]: "aliases f (book_of l) = aliases f l"
  by (simp add: aliases_def)

lemma family_book_of [simp]: "family_book (book_of l) f = family_book l f"
  by (simp add: family_book_def split: option.split)

lemma books_book_of [simp]: "books (book_of l) = books l"
  by (simp add: books_def)

lemma routes_book_of: "routes m fam (book_of l) = routes m fam l"
  by (simp add: routes_def)

lemma book_of_update [simp]:
  "book_of (l\<lparr>l_backends := a1\<rparr>) = book_of l" "book_of (l\<lparr>l_quotas := a2\<rparr>) = book_of l"
  "book_of (l\<lparr>l_runtime_max := a3\<rparr>) = book_of l" "book_of (l\<lparr>l_last_touched := a4\<rparr>) = book_of l"
  "book_of (l\<lparr>l_model_names := a5\<rparr>) = book_of l" "book_of (l\<lparr>l_in_flight := a6\<rparr>) = book_of l"
  "book_of (l\<lparr>l_pending := a7\<rparr>) = book_of l" "book_of (l\<lparr>l_delivery := a8\<rparr>) = book_of l"
  "book_of (l\<lparr>l_in_flight_family := a9\<rparr>) = book_of l" "book_of (l\<lparr>l_snapshots := b1\<rparr>) = book_of l"
  "book_of (l\<lparr>l_refunded := b2\<rparr>) = book_of l" "book_of (l\<lparr>l_in_progress := b3\<rparr>) = book_of l"
  "book_of (l\<lparr>l_drained := b4\<rparr>) = book_of l" "book_of (l\<lparr>l_locks := b5\<rparr>) = book_of l"
  "book_of (l\<lparr>l_lock_refs := b6\<rparr>) = book_of l" "book_of (l\<lparr>l_locks_held := b7\<rparr>) = book_of l"
  "book_of (l\<lparr>l_next_lock := b8\<rparr>) = book_of l"
  by (simp_all add: book_of_def core_def)

lemma book_of_sections [simp]:
  "book_of (add_in_flight r l) = book_of l"
  "book_of (forget_in_flight_reservation rid l) = book_of l"
  "book_of (rollback_pending_acquire rid l) = book_of l"
  "book_of (refresh_pending_drained l) = book_of l"
  "book_of (begin_acquire_delivery_cleanup rid l) = book_of l"
  "book_of (end_acquire_delivery_cleanup rid l) = book_of l"
  "book_of (remember_refund_state rid st l) = book_of l"
  "book_of (release_lock_reference rid k l) = book_of l"
  "book_of (snd (take_lock_reference rid l)) = book_of l"
  by (simp_all add: add_in_flight_def forget_in_flight_reservation_def rollback_pending_acquire_def
      refresh_pending_drained_def begin_acquire_delivery_cleanup_def end_acquire_delivery_cleanup_def
      remember_refund_state_def release_lock_reference_def take_lock_reference_def Let_def split: option.split)

interpretation book_view: backend_blind book_of
  by unfold_locales simp_all

abbreviation on_books :: "pystr \<Rightarrow> pystr \<Rightarrow> 'b limiter \<Rightarrow> bool" where
  "on_books m fam \<equiv> \<lambda>l. routes m fam (book_of l)"

lemma books_attempt:
  assumes st: "steady W (on_books m fam)"
  shows "preserves (about (on_books m fam)) (attempt_refund W actual r)"
  by (rule preserves_attempt_refund [OF st])
     (simp_all add: book_view.plan steady_undisturbed st)

lemma books_refund:
  assumes st: "steady W (on_books m fam)"
  shows "preserves (about (on_books m fam)) (refund_reserved W actual r allow)"
  by (rule preserves_refund_reserved [OF st books_attempt [OF st]]) simp_all

lemma books_public_refund:
  assumes st: "steady W (on_books m fam)"
  shows "preserves (about (on_books m fam)) (limiter_refund_capacity W actual r)"
  by (rule preserves_public_refund [OF books_refund [OF st]]) simp

lemma books_touch:
  assumes st: "steady W (on_books m fam)"
  shows "preserves (about (on_books m fam)) (touch_model_family W f)"
  unfolding touch_model_family_def by (intro preserves_intros) simp

lemma books_finalize:
  assumes st: "steady W (on_books m fam)"
  shows "preserves (about (on_books m fam)) (finalize_pending_acquire W r model)"
  unfolding finalize_pending_acquire_def by (intro preserves_intros books_touch [OF st]) simp_all

lemma books_validate:
  assumes st: "steady W (on_books m fam)"
  shows "get_model_family cfg = Inr fam \<Longrightarrow>
     preserves (about (on_books m fam)) (validate_shared_model_family_config W m cfg reg)"
  using validate_books [of cfg fam W m _ reg] steady_undisturbed [OF st]
  by (intro preservesI) (simp add: about_def [abs_def] routes_book_of)

lemma books_deliver:
  assumes st: "steady W (on_books m fam)"
    and "preserves (about (on_books m fam)) body"
  shows "preserves (about (on_books m fam)) (refund_or_forget_reservation_on_raise W r model block body)"
  unfolding refund_or_forget_reservation_on_raise_def finalize_and_refund_undelivered_acquire_def
  by (intro preserves_intros books_finalize [OF st] books_refund [OF st] books_public_refund [OF st] assms(2)) simp_all

lemma books_try:
  assumes st: "steady W (on_books m fam)"
    and "get_model_family cfg = Inr fam"
  shows "preserves (about (on_books m fam)) (try_acquire W m u cfg block timeout r)"
  unfolding try_acquire_def
  by (intro preserves_intros preserves_call_backend books_validate [OF st] book_view.backend steady_undisturbed st assms(2))

lemma books_handler:
  assumes st: "steady W (on_books m fam)"
  shows "preserves (about (on_books m fam)) (acquire_error_handler W model r e)"
  unfolding acquire_error_handler_def Let_def
  by (auto split: prod.split option.split intro!: preserves_intros books_finalize [OF st])

lemma books_acquire:
  assumes st: "steady W (on_books m fam)"
    and "get_model_family cfg = Inr fam"
  shows "preserves (about (on_books m fam)) (acquire_reservation W m u cfg block timeout q r)"
  unfolding acquire_reservation_def begin_pending_acquire_def raise_if_closed_or_closing_def
  by (intro preserves_intros books_try [OF st] books_handler [OF st] books_deliver [OF st] books_finalize [OF st] preserves_emit assms(2)) simp_all

lemma books_unlimited:
  assumes st: "steady W (on_books m fam)"
    and "get_model_family cfg = Inr fam"
  shows "preserves (about (on_books m fam)) (unlimited_reservation W m cfg q)"
  unfolding unlimited_reservation_def raise_if_closed_or_closing_def remember_in_flight_reservation_def
  by (intro preserves_intros books_validate [OF st] books_deliver [OF st] preserves_emit steady_undisturbed st assms(2)) simp_all

lemma preserves_new_reservation: "preserves (about J) (new_reservation W m u cfg)"
  unfolding new_reservation_def by (intro preserves_intros)

text \<open>
  The contract of the configuration getter: a model keeps its family for the life of the
  limiter. The limiter checks it before it takes the validation lock, not again under it.
\<close>

definition stable_routing :: "('b, 'w) outside \<Rightarrow> pystr \<Rightarrow> pystr \<Rightarrow> bool" where
  "stable_routing W m fam \<longleftrightarrow>
     (\<forall>s cfg t. config_getter W m s = (Inr cfg, t) \<longrightarrow> get_model_family cfg = Inr fam)"

lemma books_acquire_or_record:
  assumes st: "steady W (routes m fam)" and stable: "stable_routing W m fam" and s: "routes m fam (fst s)"
  shows "wp (acquire_or_record W raw m block t) (\<lambda>_ t. routes m fam (fst t)) (\<lambda>_ t. routes m fam (fst t)) s"
proof -
  have st': "steady W (on_books m fam)" using st by (simp add: routes_book_of)
  have kept: "wp (if config_is_unlimited cfg
      then op_seq (lift_result (validate_usage_values_non_negative u)) (unlimited_reservation W m cfg None)
      else op_seq (validate_shared_model_family_config W m cfg False) (acquire_limited W m u cfg block t None))
      (\<lambda>_ t. routes m fam (fst t)) (\<lambda>_ t. routes m fam (fst t)) s'"
    if "routes m fam (fst s')" "get_model_family cfg = Inr fam" for s' cfg u
  proof -
    have "preserves (about (on_books m fam)) (if config_is_unlimited cfg
      then op_seq (lift_result (validate_usage_values_non_negative u)) (unlimited_reservation W m cfg None)
      else op_seq (validate_shared_model_family_config W m cfg False) (acquire_limited W m u cfg block t None))"
      unfolding acquire_limited_def
      by (intro preserves_intros preserves_new_reservation books_unlimited [OF st' that(2)]
          books_validate [OF st' that(2)] books_acquire [OF st' that(2)])
    then show ?thesis
      by (rule wp_keeps) (use that in \<open>simp_all add: about_def routes_book_of\<close>)
  qed
  have kept_getter: "wp (config_getter W m) (\<lambda>_. about (routes m fam)) (\<lambda>_. about (routes m fam)) s"
    by (rule wp_keeps [OF preserves_config_getter [of "routes m fam"]]) (use s in \<open>simp_all add: about_def\<close>)
  have "wp (config_getter W m) (\<lambda>cfg _. get_model_family cfg = Inr fam) (\<lambda>_ _. True) s"
    by (rule wpI) (use stable in \<open>unfold stable_routing_def, blast+\<close>)
  note getter = wp_conj [OF kept_getter this]
  show ?thesis
    unfolding acquire_or_record_def wp_bind wp_lift_result
    using s
    by (auto split: sum.split simp: wp_checked about_def intro!: kept wp_mono [OF getter])
qed

text \<open>
  What happens when the contract is broken: a model that another thread has registered under
  one family while this call waited for the validation lock is registered again under another
  family. The books of the first family then count an alias that it has not.
\<close>

lemma rerouted_books:
  assumes b: "books l" and route: "map_of (l_families l) m = Some old" "old \<noteq> fam"
  shows "\<not> books (register_alias m fam c p oc ct rs l)"
proof
  let ?l = "register_alias m fam c p oc ct rs l"
  assume new: "books ?l"
  have m: "m \<in> aliases old l" using route by (simp add: aliases_def)
  have "aliases old ?l = aliases old l - {m}" using route by (auto simp: aliases_def)
  then have card: "card (aliases old ?l) < card (aliases old l)"
    using m by (metis card_Diff1_less finite_aliases)
  have counts: "map_of (l_alias_counts ?l) old = map_of (l_alias_counts l) old"
    "map_of (l_family_signature ?l) old = map_of (l_family_signature l) old"
    using route by (simp_all add: register_alias_def Let_def)
  obtain sg where "map_of (l_family_signature l) old = Some sg"
    using books_family [OF b, of old] m by (auto simp: family_book_def split: option.splits)
  then show False
    using books_family [OF b, of old] books_family [OF new, of old] counts card
    by (simp add: family_book_def)
qed

lemma validate_locked_rerouted:
  assumes b: "books (fst s)" and route: "map_of (l_families (fst s)) m = Some old" "old \<noteq> fam"
    and sig: "map_of (l_model_signature (fst s)) m \<noteq> Some c"
  shows "wp (validate_shared_locked W m fam c True) (\<lambda>_ t. \<not> books (fst t)) (\<lambda>_ _. True) s"
proof -
  let ?p = "map_of (l_model_signature (fst s)) m"
  have touched: "wp (touch_model_family W fam) (\<lambda>_ t. \<not> books (fst t)) (\<lambda>_ _. True) t"
    if "\<not> books (fst t)" for t
    using that by (simp add: touch_model_family_def wp_simps)
  show ?thesis
    unfolding validate_shared_locked_def
    using sig
    by (simp add: wp_simps)
       (rule wp_mono [OF settle_conflict_counts],
        auto simp: wp_simps split: sum.split intro!: touched rerouted_books [OF b route])
qed

end
