(* ===== verification/LimiterBounds.thy ===== *)
theory LimiterBounds
  imports LimiterBooks
begin

text \<open>
  The cap on reservations in flight: acquisitions, failures and refunds keep the number of
  pending and issued reservations within \<^verbatim>\<open>max_in_flight_reservations\<close>.
\<close>

definition bounded :: "'b limiter \<Rightarrow> bool" where
  "bounded l \<longleftrightarrow> finite (l_in_flight l) \<and> finite (l_pending l) \<and>
     int (card (l_in_flight l \<union> l_pending l)) \<le> l_max_in_flight l"

text \<open>
  The reservation is among the counted ones; while its acquisition runs, it is so as a pending
  one, and that is what the other threads have to leave alone.
\<close>

definition awaited :: "pystr \<Rightarrow> 'b limiter \<Rightarrow> bool" where
  "awaited rid l \<longleftrightarrow> bounded l \<and> rid \<in> l_pending l"

definition counted :: "pystr \<Rightarrow> 'b limiter \<Rightarrow> bool" where
  "counted rid l \<longleftrightarrow> bounded l \<and> rid \<in> l_in_flight l \<union> l_pending l"

lemma room_within:
  assumes "bounded l" "in_flight_room l rid = Inr ()"
  shows "int (card (insert rid (l_in_flight l \<union> l_pending l))) \<le> l_max_in_flight l"
proof (cases "rid \<in> l_in_flight l \<union> l_pending l")
  case True
  then show ?thesis using assms(1) by (simp add: bounded_def insert_absorb)
next
  case False
  then have "int (card (l_in_flight l) + card (l_pending l)) < l_max_in_flight l"
    using assms(2) by (auto simp: in_flight_room_def)
  moreover have "card (l_in_flight l \<union> l_pending l) \<le> card (l_in_flight l) + card (l_pending l)"
    by (rule card_Un_le)
  ultimately show ?thesis using assms(1) False by (simp add: bounded_def)
qed

lemma bounded_shrinks:
  assumes "bounded l" "l_in_flight k \<subseteq> l_in_flight l" "l_pending k \<subseteq> l_pending l" "l_max_in_flight k = l_max_in_flight l"
  shows "bounded k"
proof -
  have fin: "finite (l_in_flight l \<union> l_pending l)" using assms(1) by (simp add: bounded_def)
  have "card (l_in_flight k \<union> l_pending k) \<le> card (l_in_flight l \<union> l_pending l)"
    by (rule card_mono [OF fin]) (use assms(2,3) in blast)
  then show ?thesis using assms finite_subset by (auto simp: bounded_def)
qed

lemma bounded_select [simp]:
  "bounded (core l) = bounded l" "bounded (l\<lparr>l_last_touched := a\<rparr>) = bounded l"
  "bounded (l\<lparr>l_model_names := b\<rparr>) = bounded l" "bounded (l\<lparr>l_drained := c\<rparr>) = bounded l"
  "bounded (l\<lparr>l_delivery := d\<rparr>) = bounded l" "bounded (l\<lparr>l_in_progress := e\<rparr>) = bounded l"
  "bounded (l\<lparr>l_locks_held := f\<rparr>) = bounded l" "bounded (l\<lparr>l_refunded := g\<rparr>) = bounded l"
  "bounded (l\<lparr>l_in_flight_family := h\<rparr>) = bounded l"
  by (simp_all add: bounded_def core_def)

lemma bounded_sections [simp]:
  "bounded (refresh_pending_drained l) = bounded l"
  "bounded (begin_acquire_delivery_cleanup rid l) = bounded l"
  "bounded (end_acquire_delivery_cleanup rid l) = bounded l"
  "bounded (remember_refund_state rid st l) = bounded l"
  "bounded (release_lock_reference rid k l) = bounded l"
  "bounded (snd (take_lock_reference rid l)) = bounded l"
  by (simp_all add: refresh_pending_drained_def begin_acquire_delivery_cleanup_def
      end_acquire_delivery_cleanup_def remember_refund_state_def release_lock_reference_def
      take_lock_reference_def Let_def bounded_def split: option.split)

lemma bounded_forget: "bounded l \<Longrightarrow> bounded (forget_in_flight_reservation rid l)"
  by (rule bounded_shrinks) (auto simp: forget_in_flight_reservation_def)

lemma bounded_rollback: "bounded l \<Longrightarrow> bounded (rollback_pending_acquire rid l)"
  by (rule bounded_shrinks) (auto simp: rollback_pending_acquire_def refresh_pending_drained_def)

lemma max_in_flight_select [simp]:
  "l_max_in_flight (add_in_flight r l) = l_max_in_flight l"
  by (simp add: add_in_flight_def)

lemma bounded_add: "counted (r_id r) l \<Longrightarrow> counted (r_id r) (add_in_flight r (l\<lparr>l_pending := l_pending l - {r_id r},
     l_model_names := n\<rparr>))"
proof -
  assume "counted (r_id r) l"
  moreover from this have "insert (r_id r) (l_in_flight l) \<union> (l_pending l - {r_id r}) = l_in_flight l \<union> l_pending l"
    by (auto simp: counted_def)
  ultimately show ?thesis by (simp add: counted_def bounded_def)
qed

lemma awaited_counted: "awaited rid l \<Longrightarrow> counted rid l"
  by (simp add: awaited_def counted_def)

lemma awaited_core [simp]: "awaited rid (core l) = awaited rid l"
  by (simp add: awaited_def)

lemma within_select [simp]:
  "counted rid (core l) = counted rid l" "counted rid (l\<lparr>l_last_touched := a\<rparr>) = counted rid l"
  "counted rid (refresh_pending_drained l) = counted rid l"
  "counted rid (begin_acquire_delivery_cleanup rid' l) = counted rid l"
  by (simp_all add: counted_def)

section \<open>Refunds and acquisitions\<close>

lemma bounded_refund:
  assumes st: "steady W bounded"
  shows "preserves (about bounded) (refund_reserved W actual r allow)"
  by (rule preserves_refund_reserved [OF st preserves_attempt_refund_core [OF st]])
     (simp_all add: bounded_forget)

lemma bounded_public_refund:
  assumes st: "steady W bounded"
  shows "preserves (about bounded) (limiter_refund_capacity W actual r)"
  by (rule preserves_public_refund [OF bounded_refund [OF st]]) (simp add: bounded_forget)

lemma finalize_within:
  "counted (r_id r) (fst s) \<Longrightarrow> wp (finalize_pending_acquire W r model) (\<lambda>_ t. counted (r_id r) (fst t)) E s"
  by (simp add: wp_finalize bounded_add)

lemma begin_within:
  assumes "bounded (fst s)"
  shows "wp (begin_pending_acquire r) (\<lambda>_ t. awaited (r_id r) (fst t)) (\<lambda>_ t. bounded (fst t)) s"
proof -
  have "awaited (r_id r) ((fst s)\<lparr>l_drained := False, l_pending := insert (r_id r) (l_pending (fst s)),
      l_in_flight_family := x\<rparr>)" if "in_flight_room (fst s) (r_id r) = Inr ()" for x
    using room_within [OF assms that] assms by (simp add: awaited_def bounded_def)
  moreover have "in_flight_room ((fst s)\<lparr>l_drained := False\<rparr>) rid = in_flight_room (fst s) rid" for rid
    by (simp add: in_flight_room_def)
  ultimately show ?thesis using assms
    by (auto simp: begin_pending_acquire_def raise_if_closed_or_closing_def wp_simps split: sum.split)
qed

lemma within_bounded: "counted rid l \<Longrightarrow> bounded l"
  by (simp add: counted_def)

lemma deliver_within:
  assumes st: "steady W bounded" and s: "counted (r_id r) (fst s)"
  shows "wp (refund_or_forget_reservation_on_raise W r (Some model) block
      (op_seq (finalize_pending_acquire W r model) (emit_reservation_lifecycle_event W k r q u)))
    (\<lambda>_ t. bounded (fst t)) (\<lambda>_ t. bounded (fst t)) s"
proof -
  have body: "wp (op_seq (finalize_pending_acquire W r model) (emit_reservation_lifecycle_event W k r q u))
      (\<lambda>_ t. bounded (fst t)) (\<lambda>_ t. counted (r_id r) (fst t)) s"
    unfolding wp_seq
    by (rule wp_mono [OF finalize_within [OF s]]) (rule emit_changes_nothing, auto simp: counted_def)
  have refund: "wp (op_bind (look l_closed) (\<lambda>closed.
       if closed then refund_reserved W (raw_of_usage (zero_actual_usage r)) r True
       else limiter_refund_capacity W (raw_of_usage (zero_actual_usage r)) r))
      (\<lambda>_ t. bounded (fst t)) (\<lambda>_ t. bounded (fst t)) t" if "bounded (fst t)" for t
    using preservesD [OF bounded_refund [OF st]] preservesD [OF bounded_public_refund [OF st]] that
    by (simp add: wp_bind wp_look about_def [abs_def])
  have undo: "wp (op_seq (if block then finalize_and_refund_undelivered_acquire W r model (Some e)
        else on_limiter (forget_in_flight_reservation (r_id r))) (op_raise e))
      (\<lambda>_ t. bounded (fst t)) (\<lambda>_ t. bounded (fst t)) t"
    if "counted (r_id r) (fst t)" for e t
  proof (cases block)
    case True
    have "wp (finalize_and_refund_undelivered_acquire W r model (Some e))
        (\<lambda>_ t. bounded (fst t)) (\<lambda>_ t. bounded (fst t)) t"
      unfolding finalize_and_refund_undelivered_acquire_def wp_seq wp_try wp_raise
      by (rule wp_mono [OF finalize_within [OF that]])
         (rule wp_mono [OF refund [OF within_bounded]], auto)
    then show ?thesis using True by (simp add: wp_seq wp_raise)
  next
    case False
    then show ?thesis using within_bounded [OF that] by (simp add: wp_simps bounded_forget)
  qed
  show ?thesis
    unfolding refund_or_forget_reservation_on_raise_def
    by (simp only: option.sel option.distinct simp_thms if_False wp_try)
       (rule wp_mono [OF body], assumption, rule undo)
qed

lemma acquire_bounded:
  fixes W :: "('b, 'w) outside"
  assumes st: "steady W bounded" and own: "steady W (awaited (r_id r))" and s: "bounded (fst s)"
  shows "wp (acquire_reservation W model u cfg block timeout q r)
    (\<lambda>_ t. bounded (fst t)) (\<lambda>_ t. bounded (fst t)) s"
proof -
  have try_keeps: "preserves (about (awaited (r_id r))) (try_acquire W model u cfg block timeout r)"
    using preserves_try_acquire [of W "awaited (r_id r)"] steady_undisturbed [OF own] by simp
  have handler: "wp (acquire_error_handler W model r e) Q (\<lambda>_ t. bounded (fst t)) t"
    if t: "counted (r_id r) (fst t)" for e t Q
  proof -
    have "wp (op_seq (finalize_pending_acquire W (r\<lparr>r_created_at := c\<rparr>) model) (op_raise x)) Q (\<lambda>_ t. bounded (fst t)) t" for c x
      unfolding wp_seq wp_raise
      by (rule wp_mono [OF finalize_within]) (use t within_bounded in auto)
    then show ?thesis using within_bounded [OF t]
      by (auto simp: acquire_error_handler_def Let_def wp_seq wp_raise wp_on_limiter bounded_rollback
          split: prod.split option.split)
  qed
  have tried: "wp (op_try (try_acquire W model u cfg block timeout r) (acquire_error_handler W model r))
      (\<lambda>r' t. r_id r' = r_id r \<and> counted (r_id r) (fst t)) (\<lambda>_ t. bounded (fst t)) t"
    if "awaited (r_id r) (fst t)" for t
    unfolding wp_try
  proof (rule wp_mono [OF wp_conj [OF try_acquire_issues preservesD [OF try_keeps]]])
    show "about (awaited (r_id r)) t" using that by (simp add: about_def)
  qed (auto simp: about_def intro: handler awaited_counted)
  have deliver: "wp (op_seq (on_limiter (begin_acquire_delivery_cleanup (r_id r')))
      (op_finally
        (op_seq (refund_or_forget_reservation_on_raise W r' (Some model) block
            (op_seq (finalize_pending_acquire W r' model)
              (emit_reservation_lifecycle_event W ''capacity_consumed'' r' q u)))
          (op_return r'))
        (on_limiter (end_acquire_delivery_cleanup (r_id r')))))
      (\<lambda>_ t. bounded (fst t)) (\<lambda>_ t. bounded (fst t)) t"
    if "r_id r' = r_id r \<and> counted (r_id r) (fst t)" for r' t
    unfolding wp_seq wp_finally wp_on_limiter wp_return
    by (rule wp_mono [OF deliver_within [OF st]]) (use that in simp_all)
  show ?thesis
    unfolding acquire_reservation_def wp_seq [of "begin_pending_acquire r"] wp_bind [of "op_try m h" for m h]
  proof (rule wp_mono [OF begin_within [OF s]])
    fix x and t :: "'b limiter \<times> 'w" assume "awaited (r_id r) (fst t)"
    from tried [OF this]
    show "wp (op_try (try_acquire W model u cfg block timeout r) (acquire_error_handler W model r))
        (\<lambda>r'. wp (op_seq (on_limiter (begin_acquire_delivery_cleanup (r_id r')))
            (op_finally
              (op_seq (refund_or_forget_reservation_on_raise W r' (Some model) block
                  (op_seq (finalize_pending_acquire W r' model)
                    (emit_reservation_lifecycle_event W ''capacity_consumed'' r' q u)))
                (op_return r'))
              (on_limiter (end_acquire_delivery_cleanup (r_id r')))))
          (\<lambda>_ t. bounded (fst t)) (\<lambda>_ t. bounded (fst t)))
        (\<lambda>_ t. bounded (fst t)) t"
      by (rule wp_mono) (rule deliver)
  qed simp
qed

lemma unlimited_bounded:
  fixes W :: "('b, 'w) outside"
  assumes st: "steady W bounded"
  shows "preserves (about bounded) (unlimited_reservation W m cfg q)"
proof -
  have validate: "preserves (about bounded) (validate_shared_model_family_config W m cfg True)"
    using preserves_validate_shared [of W bounded m cfg True] steady_undisturbed [OF st] by simp
  have remember: "preserves (about bounded) (remember_in_flight_reservation r :: ('b, 'w, unit) act)" for r
  proof (rule preservesI)
    fix s :: "'b limiter \<times> 'w" assume s: "about bounded s"
    have "bounded (add_in_flight r (fst s))" if "in_flight_room (fst s) (r_id r) = Inr ()"
      using room_within [OF _ that] s by (simp add: about_def bounded_def)
    then show "wp (remember_in_flight_reservation r) (\<lambda>_. about bounded) (\<lambda>_. about bounded) s"
      using s by (auto simp: remember_in_flight_reservation_def wp_simps about_def split: sum.split)
  qed
  have deliver: "preserves (about bounded) (refund_or_forget_reservation_on_raise W r None False body)"
    if "preserves (about bounded) body" for r and body :: "('b, 'w, unit) act"
    unfolding refund_or_forget_reservation_on_raise_def
    by (simp, intro preserves_intros that) (simp add: bounded_forget)
  show ?thesis
    unfolding unlimited_reservation_def raise_if_closed_or_closing_def
    by (intro preserves_intros remember deliver validate preserves_emit steady_undisturbed st)
qed

text \<open>The reservation a call makes carries the id the call drew.\<close>

lemma new_reservation_id:
  fixes W :: "('b, 'w) outside"
  assumes ids: "\<And>w. nfc (udb W) (fst (fresh_id W w)) = rid"
  shows "wp (new_reservation W m u cfg) (\<lambda>r t. r_id r = rid \<and> fst t = fst s) (\<lambda>_ t. fst t = fst s) s"
  unfolding new_reservation_def
  by (auto simp: wp_simps ids split: sum.split dest!: mk_reservation_Inr simp: validate_segment_str_Inr)

text \<open>\<open>rid\<close> is the id this call draws.\<close>

lemma acquire_or_record_bounded:
  fixes W :: "('b, 'w) outside"
  assumes st: "steady W bounded" and ids: "\<And>w. nfc (udb W) (fst (fresh_id W w)) = rid"
    and own: "steady W (awaited rid)"
  shows "preserves (about bounded) (acquire_or_record W raw m block t)"
proof -
  have acquire: "preserves (about bounded)
      (op_bind (new_reservation W m u cfg) (acquire_reservation W m u cfg block t q))" for u cfg q
  proof (rule preservesI)
    fix s :: "'b limiter \<times> 'w" assume s: "about bounded s"
    show "wp (op_bind (new_reservation W m u cfg) (acquire_reservation W m u cfg block t q))
        (\<lambda>_. about bounded) (\<lambda>_. about bounded) s"
      unfolding wp_bind
    proof (rule wp_mono [OF new_reservation_id [OF ids]])
      fix r :: reservation and u' :: "'b limiter \<times> 'w" assume r: "r_id r = rid \<and> fst u' = fst s"
      then have "steady W (awaited (r_id r))" "bounded (fst u')" using own s by (simp_all add: about_def)
      then show "wp (acquire_reservation W m u cfg block t q r) (\<lambda>_. about bounded) (\<lambda>_. about bounded) u'"
        using acquire_bounded [OF st] by (simp add: about_def [abs_def])
    qed (use s in \<open>simp add: about_def\<close>)
  qed
  have validate: "preserves (about bounded) (validate_shared_model_family_config W m cfg False)" for cfg
    using preserves_validate_shared [of W bounded m cfg False] steady_undisturbed [OF st] by simp
  show ?thesis
    unfolding acquire_or_record_def acquire_limited_def
    by (intro preserves_intros unlimited_bounded [OF st] acquire validate)
qed

end
