(* ===== verification/LimiterClosing.thy ===== *)
theory LimiterClosing
  imports LimiterBounds
begin

text \<open>
  Closing, the reserve scope, quota changes and eviction: what is left behind on each path.
\<close>

section \<open>Closing is terminal\<close>

definition shut :: "'b limiter \<Rightarrow> bool" where
  "shut l \<longleftrightarrow> l_closed l \<and> \<not> l_closing l"

lemma terminalize_shut [simp]: "shut (terminalize l)"
  by (simp add: shut_def terminalize_def)

lemma wp_entry:
  "wp (check_public_entry W) Q E s =
     (if l_pid_check (fst s) \<and> getpid W (snd s) \<noteq> l_pid (fst s)
      then E (Plain (RuntimeError ''RateLimiter is process-affine'')) s else Q () s)"
  by (cases s) (simp add: wp_def check_public_entry_def)

lemma take_locks_shut:
  assumes "undisturbed W (about shut)"
  shows "preserves (about shut) (take_locks W ks)"
proof (induction ks)
  case (Cons k ks)
  have upd: "shut (l\<lparr>l_locks_held := x\<rparr>) = shut l" for l :: "'a limiter" and x by (simp add: shut_def)
  have eq: "take_locks W (k # ks) = op_seq (wait_for_lock W k)
     (op_finally (take_locks W ks) (on_limiter (\<lambda>l. l\<lparr>l_locks_held := l_locks_held l - {k}\<rparr>)))" by (rule ext) simp
  show ?case unfolding eq wait_for_lock_def
    by (intro preserves_intros assms Cons.IH) (simp_all add: upd)
qed (simp add: preserves_look)

lemma finish_close_shut:
  assumes "undisturbed W (about shut)" "shut (fst s) \<or> \<not> l_close_drained (fst s)"
  shows "wp (finish_close W) (\<lambda>_ t. shut (fst t)) (\<lambda>_ _. True) s"
proof -
  have wait: "preserves (about shut) (wait_for_refund_lock_drain W)"
    unfolding wait_for_refund_lock_drain_def by (intro preserves_intros take_locks_shut assms(1))
  have upd: "shut (l\<lparr>l_close_drained := x\<rparr>) = shut l" for l :: "'a limiter" and x by (simp add: shut_def)
  have rest: "wp (wait_for_refund_lock_drain W) (\<lambda>_ t. shut (fst t)) (\<lambda>_ _. True) t" if "shut (fst t)" for t
    by (rule wp_keeps [OF wait]) (use that in \<open>simp_all add: about_def\<close>)
  have last: "wp (case builder_close W of None \<Rightarrow> op_return () | Some m \<Rightarrow> in_world m)
      (\<lambda>_ t. shut (fst t)) (\<lambda>_ _. True) t" if "shut (fst t)" for t
    using that by (cases "builder_close W") (simp_all add: wp_simps wp_anything)
  show ?thesis
    unfolding finish_close_def wp_bind wp_look
    using assms(2)
    by (auto simp: wp_seq wp_bind wp_on_limiter wp_return intro!: wp_mono [OF rest] last simp: upd)
qed

text \<open>
  Past the entry checks, closing leaves the limiter shut however it ends. A close that returns
  keeps nothing, unless the limiter was drained before the call: then it changes nothing.
\<close>

definition retains_nothing :: "'b limiter \<Rightarrow> bool" where
  "retains_nothing l \<longleftrightarrow> l_backends l = [] \<and> l_model_names l = [] \<and> l_quotas l = [] \<and>
     l_families l = [] \<and> l_runtime_max l = [] \<and> l_family_signature l = [] \<and>
     l_model_signature l = [] \<and> l_signature_counts l = [] \<and> l_alias_counts l = [] \<and>
     l_in_flight l = {} \<and> l_pending l = {} \<and> l_delivery l = {} \<and> l_snapshots l = [] \<and>
     l_refunded l = [] \<and> l_locks l = [] \<and> l_in_flight_family l = [] \<and> l_last_touched l = []"

lemma close_shuts:
  assumes u: "undisturbed W (about shut)"
    and drained: "undisturbed W (about (\<lambda>l. l_close_drained l \<longrightarrow> shut l))"
    and s: "\<not> in_callback W (snd s)" "l_pid_check (fst s) \<longrightarrow> getpid W (snd s) = l_pid (fst s)"
    "l_close_drained (fst s) \<longrightarrow> shut (fst s)"
  shows "wp (close W)
    (\<lambda>_ t. shut (fst t) \<and> (if l_close_drained (fst s) then fst t = fst s else retains_nothing (fst t)))
    (\<lambda>_ t. shut (fst t)) s"
proof -
  let ?D = "\<lambda>l :: 'a limiter. l_close_drained l \<longrightarrow> shut l"
  have D: "?D (fst (others W t))" if "?D (fst t)" for t
    using undisturbedD [OF drained, of t] that by (simp add: about_def)
  have start: "wp begin_close (\<lambda>finished t. finished = l_close_drained (fst s) \<and>
        (if finished then fst t = fst s \<and> shut (fst s) else ?D (fst t))) (\<lambda>_ _. True) s"
    using s(3) by (auto simp: begin_close_def wp_simps refresh_pending_drained_def shut_def)
  have body: "wp (op_seq (op_block [await_pending_drained W, pause W, finish_close W]) (op_return False))
      (\<lambda>r t. \<not> r \<and> shut (fst t)) (\<lambda>_ _. True) t" if "?D (fst t)" for t
    using D [OF D [OF that]]
    by (auto simp: wp_simps await_pending_drained_def intro!: wp_mono [OF finish_close_shut [OF u]])
  have cleared: "shut l \<Longrightarrow> shut (clear_retained_state l) \<and> retains_nothing (clear_retained_state l)" for l :: "'a limiter"
    by (simp add: clear_retained_state_def shut_def retains_nothing_def)
  have tried: "wp (op_try (op_bind begin_close (\<lambda>finished.
            if finished then op_return True
            else op_seq (op_block [await_pending_drained W, pause W, finish_close W]) (op_return False)))
         (\<lambda>e. op_seq (on_limiter terminalize) (op_raise e)))
      (\<lambda>finished t. shut (fst t) \<and> finished = l_close_drained (fst s) \<and> (finished \<longrightarrow> fst t = fst s))
      (\<lambda>_ t. shut (fst t)) s"
    unfolding wp_try wp_bind
    by (rule wp_mono [OF start])
       (auto simp: wp_seq [of "on_limiter terminalize"] wp_on_limiter wp_raise wp_return
         intro!: wp_mono [OF body] split: if_splits)
  show ?thesis
    unfolding close_def
    using s(1,2) cleared
    by (auto simp: wp_check wp_entry wp_seq wp_bind case_prod_unfold wp_when wp_on_limiter intro!: wp_mono [OF tried])
qed

section \<open>A closed limiter refuses\<close>

lemma closed_refuses_entry:
  assumes "l_closed (fst s)"
  shows "wp (op_seq (check_public_entry W) (op_seq raise_if_closed m)) (\<lambda>_ _. False) (\<lambda>_ t. t = s) s"
    and "wp (op_seq (check_public_entry W) (op_seq raise_if_closed_or_closing m')) (\<lambda>_ _. False) (\<lambda>_ t. t = s) s"
  using assms
  by (auto simp: wp_seq wp_entry raise_if_closed_def raise_if_closed_or_closing_def wp_simps)

lemma closed_refuses_acquire:
  assumes "l_closed (fst s)"
  shows "wp (acquire_capacity W raw model timeout) (\<lambda>_ _. False) (\<lambda>_ t. fst t = fst s) s"
proof -
  have "wp (warn_if_running_in_event_loop W) (\<lambda>_ t. fst t = fst s) (\<lambda>_ t. fst t = fst s) s"
    by (cases s) (auto simp: wp_def warn_if_running_in_event_loop_def warn_def in_world_def op_zoom_def
        split: prod.split sum.split)
  note warned = this
  show ?thesis
    unfolding acquire_capacity_def wp_seq wp_entry
    by (auto intro!: wp_mono [OF warned] simp: raise_if_closed_def wp_simps assms)
qed

section \<open>The reserve scope\<close>

text \<open>The limiter's record of a reservation is about that reservation.\<close>

definition recorded :: "pystr \<Rightarrow> 'b limiter \<Rightarrow> bool" where
  "recorded rid l \<longleftrightarrow> 0 < l_refunded_cap l \<and> (\<forall>r. map_of (l_snapshots l) rid = Some r \<longrightarrow> r_id r = rid)"

lemma recorded_select [simp]:
  "recorded rid (core l) = recorded rid l" "recorded rid (l\<lparr>l_refunded := a\<rparr>) = recorded rid l"
  "recorded rid (l\<lparr>l_in_progress := b\<rparr>) = recorded rid l" "recorded rid (l\<lparr>l_locks_held := c\<rparr>) = recorded rid l"
  "recorded rid (remember_refund_state rid' st l) = recorded rid l"
  "recorded rid (release_lock_reference rid' k l) = recorded rid l"
  "recorded rid (snd (take_lock_reference rid' l)) = recorded rid l"
  by (simp_all add: recorded_def)

lemma recorded_forget: "recorded rid l \<Longrightarrow> recorded rid (forget_in_flight_reservation rid' l)"
  by (simp add: recorded_def)

lemma recorded_refund:
  assumes st: "steady W (recorded rid)"
  shows "preserves (about (recorded rid)) (limiter_refund_capacity W actual r)"
proof (rule preserves_public_refund)
  show "preserves (about (recorded rid)) (refund_reserved W a r False)" for a r
    by (rule preserves_refund_reserved [OF st preserves_attempt_refund_core [OF st]])
       (simp_all add: recorded_forget)
qed (rule recorded_forget)

definition refund_failed ::
  "('b, 'w) outside \<Rightarrow> raw_usage \<Rightarrow> reservation \<Rightarrow> 'b limiter \<times> 'w \<Rightarrow> bool" where
  "refund_failed W u r t \<longleftrightarrow> (\<exists>s e. limiter_refund_capacity W u r s = (Inl e, t))"

lemma public_refund_outcome:
  assumes st: "steady W (recorded (r_id r))" and cap: "steady W (\<lambda>l. 0 < l_refunded_cap l)"
    and s: "recorded (r_id r) (fst s)"
  shows "wp (limiter_refund_capacity W u r)
    (\<lambda>_ t. recorded (r_id r) (fst t) \<and> absent (r_id r) (fst t))
    (\<lambda>_ t. recorded (r_id r) (fst t) \<and> refund_failed W u r t) s"
proof -
  have id: "r_id (authoritative_reservation_for_refund (fst s) r) = r_id r"
  proof (cases "map_of (l_snapshots (fst s)) (r_id r)")
    case (Some r')
    then have "r_id r' = r_id r" using s unfolding recorded_def by blast
    then show ?thesis using Some by (simp add: authoritative_reservation_for_refund_def)
  qed (simp add: authoritative_reservation_for_refund_def)
  have outcome: "wp (limiter_refund_capacity W u r) (\<lambda>_ _. True) (\<lambda>_ t. refund_failed W u r t) s"
    unfolding refund_failed_def by (rule wpI) blast+
  have "0 < l_refunded_cap (fst s)" using s by (simp add: recorded_def)
  then have gone: "wp (limiter_refund_capacity W u r) (\<lambda>_ t. absent (r_id r) (fst t)) (\<lambda>_ _. True) s"
    using public_refund_absent [OF cap _ id] by blast
  have kept: "wp (limiter_refund_capacity W u r) (\<lambda>_ t. recorded (r_id r) (fst t)) (\<lambda>_ t. recorded (r_id r) (fst t)) s"
    by (rule wp_keeps [OF recorded_refund [OF st]]) (use s in \<open>simp_all add: about_def\<close>)
  show ?thesis
    using wp_conj [OF outcome wp_conj [OF gone kept]] by (rule wp_mono) blast+
qed

text \<open>The refund of exactly what was reserved, which closes the reservation conservatively.\<close>

abbreviation reserved_of :: "reservation \<Rightarrow> raw_usage" where
  "reserved_of r \<equiv> raw_of_usage (r_usage r)"

lemma scope_exit_closes:
  assumes st: "steady W (recorded (r_id r))" "steady W (\<lambda>l. 0 < l_refunded_cap l)"
    and s: "recorded (r_id r) (fst s)"
  shows "wp (scope_exit W sc r in_block)
    (\<lambda>_ t. absent (r_id r) (fst t) \<or> refund_failed W (reserved_of r) r t)
    (\<lambda>e t. is_critical e \<or> in_block = None \<and> (absent (r_id r) (fst t) \<or> refund_failed W (reserved_of r) r t)) s"
proof -
  note refund = public_refund_outcome [OF st]
  have swallow: "wp (try_refund_swallowing_noncritical W u r)
      (\<lambda>ok t. recorded (r_id r) (fst t) \<and> (if ok then absent (r_id r) (fst t) else refund_failed W u r t))
      (\<lambda>e _. is_critical e) t" if "recorded (r_id r) (fst t)" for u t
    unfolding try_refund_swallowing_noncritical_def wp_try wp_seq wp_return
    by (rule wp_mono [OF refund [OF that]]) (auto simp: wp_simps)
  have without: "wp (refund_without_masking W u r c)
      (\<lambda>_ t. absent (r_id r) (fst t) \<or> refund_failed W (reserved_of r) r t) (\<lambda>e _. is_critical e) t"
    if "recorded (r_id r) (fst t)" "c = Some (reserved_of r) \<or> c = None \<and> u = reserved_of r" for u c t
    unfolding refund_without_masking_def wp_bind
    apply (rule wp_mono [OF swallow [OF that(1)]])
    using that(2) by (auto simp: wp_simps intro!: wp_mono [OF swallow] split: if_splits)
  have actual: "wp (refund_actual_or_conservative_close W u r)
      (\<lambda>_ t. absent (r_id r) (fst t) \<or> refund_failed W (reserved_of r) r t)
      (\<lambda>e t. is_critical e \<or> absent (r_id r) (fst t) \<or> refund_failed W (reserved_of r) r t) s" for u
    unfolding refund_actual_or_conservative_close_def wp_try
    by (rule wp_mono [OF refund [OF s]])
       (auto simp: wp_simps intro!: wp_mono [OF swallow] split: if_splits)
  have forgot: "wp (op_seq (limiter_refund_capacity W (reserved_of r) r) (warn W ReserveForgotActualUsage))
      (\<lambda>_ t. absent (r_id r) (fst t) \<or> refund_failed W (reserved_of r) r t)
      (\<lambda>e t. is_critical e \<or> absent (r_id r) (fst t) \<or> refund_failed W (reserved_of r) r t) s"
    unfolding wp_seq
    by (rule wp_mono [OF refund [OF s]]) (auto simp: warn_def wp_simps intro: wp_anything)
  show ?thesis
    unfolding scope_exit_def
    using without [OF s] actual forgot
    by (auto split: option.split elim!: wp_mono)
qed

end
