(* ===== verification/LimiterChanges.thy ===== *)
theory LimiterChanges
  imports LimiterClosing
begin

text \<open>
  Quota changes and eviction: a family's backend and the snapshot of its quotas change
  together or not at all, an override is remembered when the backend has it, and eviction
  spares what reservations in flight need.
\<close>

section \<open>Backend and snapshot\<close>

definition paired :: "pystr \<Rightarrow> 'b \<Rightarrow> (bucket_id, pyfloat) dict option \<Rightarrow> 'b limiter \<Rightarrow> bool" where
  "paired fam b q l \<longleftrightarrow> map_of (l_backends l) fam = Some b \<and> map_of (l_quotas l) fam = q"

lemma paired_select [simp]:
  "paired fam b q (l\<lparr>l_runtime_max := x\<rparr>) = paired fam b q l"
  "paired fam b q (clear_runtime_max_capacity fam' ks l) = paired fam b q l"
  by (simp_all add: paired_def clear_runtime_max_capacity_def Let_def split: option.split)

lemma invalidate_paired:
  "invalidate_quotas fam own l = Inr l' \<Longrightarrow> paired fam b q l \<Longrightarrow> paired fam b None l'"
  by (auto simp: invalidate_quotas_def paired_def split: if_splits)

lemma restore_paired: "preserves (about (paired fam b q)) (restore_runtime_max_capacity W fam' old new b')"
  unfolding restore_runtime_max_capacity_def Let_def case_prod_unfold
  by (intro preserves_intros) simp_all

text \<open>While the new backend is built the family has no snapshot; a failure puts the old one back.\<close>

lemma build_paired:
  fixes W :: "('b, 'w) outside"
  assumes "paired fam b None (fst s)"
  shows "wp (op_try
      (op_bind (in_world (build W cfg)) (\<lambda>fresh.
       op_bind (in_world (bk_prepare W b' fresh cfg)) (\<lambda>prepared.
       op_seq (restore_runtime_max_capacity W fam old new prepared) (op_return prepared))))
      (\<lambda>e. op_seq (on_limiter (\<lambda>l. l\<lparr>l_quotas := dict_set fam old (l_quotas l)\<rparr>)) (op_raise e)))
    (\<lambda>_ t. paired fam b None (fst t)) (\<lambda>_ t. paired fam b (Some old) (fst t)) s"
proof -
  have body: "preserves (about (paired fam b None))
     (op_bind (in_world (build W cfg)) (\<lambda>fresh.
       op_bind (in_world (bk_prepare W b' fresh cfg)) (\<lambda>prepared.
       op_seq (restore_runtime_max_capacity W fam old new prepared) (op_return prepared))))"
    by (intro preserves_intros restore_paired)
  show ?thesis
    unfolding wp_try
    by (rule wp_keeps [OF body]) (use assms in \<open>simp_all add: about_def wp_simps paired_def\<close>)
qed

text \<open>A first statement that keeps an invariant.\<close>

lemma wp_bind_keeps:
  assumes "preserves I m" "I s" "\<And>x t. I t \<Longrightarrow> wp (f x) Q E t" "\<And>e t. I t \<Longrightarrow> E e t"
  shows "wp (op_bind m f) Q E s"
  unfolding wp_bind by (rule wp_keeps [OF assms])

lemma wp_seq_keeps:
  assumes "preserves I m" "I s" "\<And>t. I t \<Longrightarrow> wp n Q E t" "\<And>e t. I t \<Longrightarrow> E e t"
  shows "wp (op_seq m n) Q E s"
  unfolding wp_seq by (rule wp_keeps [OF assms])

lemma rebuild_paired:
  fixes W :: "('b, 'w) outside"
  assumes u: "\<And>q. undisturbed W (about (paired fam b q))" and s: "paired fam b (Some old) (fst s)"
  shows "wp (rebuild_backend W cfg fam own old new)
    (\<lambda>b' t. paired fam b' (Some new) (fst t)) (\<lambda>_ t. paired fam b (Some old) (fst t)) s"
proof -
  let ?J = "\<lambda>t. paired fam b (Some old) (fst t)"
  have rest: "wp (op_seq (pause W) (op_bind (op_try
         (op_bind (in_world (build W cfg')) (\<lambda>fresh.
          op_bind (in_world (bk_prepare W b' fresh cfg')) (\<lambda>prepared.
          op_seq (restore_runtime_max_capacity W fam old new prepared) (op_return prepared))))
         (\<lambda>e. op_seq (on_limiter (\<lambda>l. l\<lparr>l_quotas := dict_set fam old (l_quotas l)\<rparr>)) (op_raise e)))
       (\<lambda>backend. op_seq (on_limiter (\<lambda>l. l\<lparr>l_backends := dict_set fam backend (l_backends l),
         l_quotas := dict_set fam new (l_quotas l)\<rparr>)) (op_return backend))))
      (\<lambda>b' t. paired fam b' (Some new) (fst t)) (\<lambda>_ t. ?J t) t"
    if "paired fam b None (fst t)" for b' cfg' t
  proof -
    have "paired fam b None (fst (others W t))"
      using undisturbedD [OF u, of None t] that by (simp add: about_def)
    then show ?thesis
      unfolding wp_seq [of "pause W"] wp_pause wp_bind [of "op_try _ _"]
      by (rule wp_mono [OF build_paired]) (simp_all add: wp_simps paired_def)
  qed
  have invalid: "wp (op_bind (checked (invalidate_quotas fam own)) (\<lambda>l'. op_seq (on_limiter (\<lambda>_. l')) m))
      (\<lambda>b' t. paired fam b' (Some new) (fst t)) (\<lambda>_ t. ?J t) t"
    if "?J t" "\<And>t. paired fam b None (fst t) \<Longrightarrow> wp m (\<lambda>b' t. paired fam b' (Some new) (fst t)) (\<lambda>_ t. ?J t) t"
    for m :: "('b, 'w, 'b) act" and t
    using that invalidate_paired [of fam own "fst t" _ b "Some old"]
    by (simp add: wp_simps split: sum.split)
  note keep_bind = wp_bind_keeps [where I = "about (paired fam b (Some old))"]
  note keep_seq = wp_seq_keeps [where I = "about (paired fam b (Some old))"]
  show ?thesis
    unfolding rebuild_backend_def
    apply (rule keep_bind, rule preserves_checked, simp add: about_def s)
    apply (rule keep_bind, rule preserves_in_world, assumption)
    apply (rule keep_seq, intro preserves_intros, assumption)
    apply (rule keep_seq, intro preserves_intros, assumption)
    apply (rule keep_seq, rule preserves_warn, assumption)
    apply (rule keep_bind, rule preserves_look, assumption)
    apply (rule keep_bind, rule preserves_lift_result, assumption)
    by (rule invalid, simp add: about_def, erule rest) (simp_all add: about_def)
qed

lemma update_limits_paired:
  fixes W :: "('b, 'w) outside"
  assumes s: "paired fam b (Some old) (fst s)"
  shows "wp (update_limits W fam old new)
    (\<lambda>b' t. b' = b \<and> paired fam b (Some new) (fst t)) (\<lambda>_ t. paired fam b (Some old) (fst t)) s"
proof -
  have applied: "wp (op_for_each xs (\<lambda>((metric, p), v). in_world (bk_apply_configured W b' metric p v)))
      (\<lambda>_. about (paired fam b (Some old))) (\<lambda>_. about (paired fam b (Some old))) s" for xs b'
    by (rule preservesD, intro preserves_intros)
       (use s in \<open>simp_all add: about_def case_prod_unfold preserves_in_world\<close>)
  have b: "dict_index (l_backends (fst s)) fam = Inr b"
    using s by (simp add: paired_def dict_index_def)
  show ?thesis
    unfolding update_limits_def wp_bind wp_checked b sum.case wp_seq
    by (rule wp_mono [OF applied])
       (simp_all add: about_def wp_simps paired_def clear_runtime_max_capacity_def Let_def split: option.split)
qed

text \<open>A loop over the backend's own calls, up to the first that raises.\<close>

lemma for_each_in_world:
  "op_for_each xs (\<lambda>x. in_world (f x)) s = (case op_for_each xs f (snd s) of (r, w) \<Rightarrow> (r, (fst s, w)))"
proof (induction xs arbitrary: s)
  case Nil
  then show ?case by (cases s) simp
next
  case (Cons x xs)
  then show ?case
    by (cases s) (simp add: op_bind_def in_world_def op_zoom_def split: prod.split sum.split)
qed

lemma for_each_fails:
  assumes "op_for_each xs f w = (Inl e, w')"
  shows "\<exists>ys x zs w1. xs = ys @ x # zs \<and> op_for_each ys f w = (Inr (), w1) \<and> f x w1 = (Inl e, w')"
  using assms
proof (induction xs arbitrary: w)
  case (Cons x xs)
  obtain r w1 where x: "f x w = (r, w1)" by (metis surj_pair)
  show ?case
  proof (cases r)
    case (Inl e1)
    then have "x # xs = [] @ x # xs" "op_for_each [] f w = (Inr (), w)" "f x w = (Inl e, w')"
      using Cons.prems x by (simp_all add: op_bind_def)
    then show ?thesis by blast
  next
    case (Inr u)
    then have "op_for_each xs f w1 = (Inl e, w')" using Cons.prems x by (simp add: op_bind_def)
    from Cons.IH [OF this] obtain ys y zs w2 where y: "xs = ys @ y # zs" "op_for_each ys f w1 = (Inr (), w2)"
      "f y w2 = (Inl e, w')" by blast
    then have "x # xs = (x # ys) @ y # zs" "op_for_each (x # ys) f w = (Inr (), w2)"
      using x Inr by (simp_all add: op_bind_def)
    then show ?thesis using y(3) by blast
  qed
qed simp

text \<open>The call that sets one configured limit of a backend.\<close>

definition apply_limit :: "('b, 'w) outside \<Rightarrow> 'b \<Rightarrow> bucket_id \<times> pyfloat \<Rightarrow> ('w, unit) wop" where
  "apply_limit W b = (\<lambda>((metric, p), v). bk_apply_configured W b metric p v)"

lemma update_limits_applies:
  fixes W :: "('b, 'w) outside"
  assumes s: "paired fam b (Some old) (fst s)"
  shows "wp (update_limits W fam old new)
    (\<lambda>b' t. b' = b \<and> op_for_each (changed_limits old new) (apply_limit W b) (snd s) = (Inr (), snd t))
    (\<lambda>_ t. \<exists>xs x ys w e. changed_limits old new = xs @ x # ys \<and>
       op_for_each xs (apply_limit W b) (snd s) = (Inr (), w) \<and> apply_limit W b x w = (Inl e, snd t)) s"
proof -
  have b: "dict_index (l_backends (fst s)) fam = Inr b"
    using s by (simp add: paired_def dict_index_def)
  have body: "(\<lambda>((metric, p), v). in_world (bk_apply_configured W b metric p v)) = (\<lambda>x. in_world (apply_limit W b x))"
    by (simp add: fun_eq_iff apply_limit_def)
  have loop: "wp (op_for_each (changed_limits old new) (\<lambda>x. in_world (apply_limit W b x)))
      (\<lambda>_ t. op_for_each (changed_limits old new) (apply_limit W b) (snd s) = (Inr (), snd t))
      (\<lambda>_ t. \<exists>xs x ys w e. changed_limits old new = xs @ x # ys \<and>
         op_for_each xs (apply_limit W b) (snd s) = (Inr (), w) \<and> apply_limit W b x w = (Inl e, snd t)) s"
    unfolding wp_def for_each_in_world
    using for_each_fails [of "changed_limits old new" "apply_limit W b" "snd s"]
    by (simp split: prod.split sum.split) blast
  show ?thesis
    unfolding update_limits_def wp_bind wp_checked b sum.case wp_seq body
    by (rule wp_mono [OF loop]) (simp_all add: wp_simps)
qed

text \<open>
  The configuration of a family is switched at one point: the call returns the family's backend
  with a snapshot that agrees with the configuration, or backend and snapshot are the old ones.
\<close>

lemma sync_quotas_paired:
  fixes W :: "('b, 'w) outside"
  assumes u: "\<And>q. undisturbed W (about (paired fam b q))" and s: "paired fam b (Some old) (fst s)"
    and fam: "get_model_family cfg = Inr fam"
  shows "wp (sync_backend_quotas W cfg own)
    (\<lambda>b' t. \<exists>q. paired fam b' (Some q) (fst t) \<and> dict_eq q (quotas_snapshot cfg))
    (\<lambda>_ t. paired fam b (Some old) (fst t)) s"
proof -
  have start: "dict_index (l_quotas (fst s)) fam = Inr old" "dict_index (l_backends (fst s)) fam = Inr b"
    using s by (simp_all add: paired_def dict_index_def)
  have rebuilt: "wp (rebuild_backend W cfg fam own old (quotas_snapshot cfg))
      (\<lambda>b' t. \<exists>q. paired fam b' (Some q) (fst t) \<and> dict_eq q (quotas_snapshot cfg))
      (\<lambda>_ t. paired fam b (Some old) (fst t)) s"
    by (rule wp_mono [OF rebuild_paired [OF u s]]) (auto simp: dict_eq_iff)
  have updated: "wp (update_limits W fam old (quotas_snapshot cfg))
      (\<lambda>b' t. \<exists>q. paired fam b' (Some q) (fst t) \<and> dict_eq q (quotas_snapshot cfg))
      (\<lambda>_ t. paired fam b (Some old) (fst t)) s"
    by (rule wp_mono [OF update_limits_paired [OF s]]) (auto simp: dict_eq_iff)
  have same: "dict_eq (quotas_snapshot cfg) old \<Longrightarrow>
      \<exists>q. paired fam b (Some q) (fst s) \<and> dict_eq q (quotas_snapshot cfg)"
    using s by (auto simp: dict_eq_iff)
  show ?thesis
    unfolding sync_backend_quotas_def wp_bind wp_lift_result wp_checked fam start sum.case Let_def
    using rebuilt updated same by (simp add: wp_checked start)
qed

text \<open>With the same buckets, the limits that differ are given to the installed backend in order.\<close>

lemma sync_quotas_applies:
  fixes W :: "('b, 'w) outside"
  assumes s: "paired fam b (Some old) (fst s)" and fam: "get_model_family cfg = Inr fam"
    and keys: "set (dict_keys (quotas_snapshot cfg)) = set (dict_keys old)"
    and changes: "changes = filter (\<lambda>(k, v). map_of old k \<noteq> Some v) (quotas_snapshot cfg)"
  shows "wp (sync_backend_quotas W cfg own)
    (\<lambda>b' t. b' = b \<and> (\<not> dict_eq (quotas_snapshot cfg) old \<longrightarrow>
       op_for_each changes (apply_limit W b) (snd s) = (Inr (), snd t)))
    (\<lambda>_ t. \<exists>xs x ys w e. changes = xs @ x # ys \<and>
       op_for_each xs (apply_limit W b) (snd s) = (Inr (), w) \<and> apply_limit W b x w = (Inl e, snd t)) s"
proof -
  have start: "dict_index (l_quotas (fst s)) fam = Inr old" "dict_index (l_backends (fst s)) fam = Inr b"
    using s by (simp_all add: paired_def dict_index_def)
  have ch: "changes = changed_limits old (quotas_snapshot cfg)" by (simp add: changes changed_limits_def)
  have updated: "wp (update_limits W fam old (quotas_snapshot cfg))
      (\<lambda>b' t. b' = b \<and> (\<not> dict_eq (quotas_snapshot cfg) old \<longrightarrow>
         op_for_each changes (apply_limit W b) (snd s) = (Inr (), snd t)))
      (\<lambda>_ t. \<exists>xs x ys w e. changes = xs @ x # ys \<and>
         op_for_each xs (apply_limit W b) (snd s) = (Inr (), w) \<and> apply_limit W b x w = (Inl e, snd t)) s"
    unfolding ch by (rule wp_mono [OF update_limits_applies [OF s]]) simp_all
  show ?thesis
  proof (cases "dict_eq (quotas_snapshot cfg) old")
    case True
    then show ?thesis by (simp add: sync_backend_quotas_def wp_simps fam start)
  next
    case False
    have "wp (sync_backend_quotas W cfg own) Q E s = wp (update_limits W fam old (quotas_snapshot cfg)) Q E s" for Q E
      using False by (simp add: sync_backend_quotas_def wp_bind wp_lift_result wp_checked fam start Let_def keys)
    then show ?thesis using updated by simp
  qed
qed

section \<open>Runtime overrides\<close>

definition override_of :: "pystr \<Rightarrow> bucket_id \<Rightarrow> 'b limiter \<Rightarrow> pyfloat option" where
  "override_of fam k l = map_of (dict_get (l_runtime_max l) fam []) k"

text \<open>The override is remembered for the family, with the model, and nothing else changed.\<close>

definition remembered :: "pystr \<Rightarrow> pystr \<Rightarrow> bucket_id \<Rightarrow> pyfloat \<Rightarrow> 'b limiter \<Rightarrow> 'b limiter \<Rightarrow> bool" where
  "remembered fam model k v l l' \<longleftrightarrow>
     l'\<lparr>l_runtime_max := l_runtime_max l, l_model_names := l_model_names l\<rparr> = l \<and>
     (\<forall>fam' k'. override_of fam' k' l' = (if fam' = fam \<and> k' = k then Some v else override_of fam' k' l)) \<and>
     (\<forall>fam'. map_of (l_model_names l') fam' = (if fam' = fam then Some model else map_of (l_model_names l) fam'))"

lemma commit_remembers: "remembered fam m k v l (commit_runtime_max_capacity fam m k v l)"
  by (auto simp: remembered_def override_of_def commit_runtime_max_capacity_def
      remember_runtime_max_capacity_def dict_get_def)

text \<open>
  In the world \<open>w\<close> the backend reports a maximum that is the wanted one within the relative
  tolerance of the limiter.
\<close>

definition landed :: "('b, 'w) outside \<Rightarrow> 'b \<Rightarrow> bucket_id \<Rightarrow> pyfloat \<Rightarrow> 'w \<Rightarrow> bool" where
  "landed W b k v w \<longleftrightarrow> (\<exists>reader w' x f. bk_runtime_max W b = Some reader \<and>
     reader (fst k) (snd k) w = (Inr x, w') \<and> py_float x = Inr f \<and> isclose (flit (1 / 1000000000000)) f v)"

lemma landedI:
  "bk_runtime_max W b = Some reader \<Longrightarrow> reader (fst k) (snd k) w = (Inr x, w') \<Longrightarrow> py_float x = Inr f \<Longrightarrow>
     isclose (flit (1 / 1000000000000)) f v \<Longrightarrow> landed W b k v w"
  unfolding landed_def by blast

lemma matches_exactly:
  "wp (backend_runtime_max_capacity_matches W b k v)
     (\<lambda>yes t. fst t = fst s \<and> (yes \<longleftrightarrow> landed W b k v (snd s)))
     (\<lambda>_ t. fst t = fst s \<and> \<not> landed W b k v (snd s)) s"
proof (cases "bk_runtime_max W b")
  case None
  then show ?thesis by (simp add: backend_runtime_max_capacity_matches_def wp_simps landed_def)
next
  case (Some reader)
  have read: "wp (op_try (op_bind (in_world (reader (fst k) (snd k))) (\<lambda>a. op_return (Some a)))
        (\<lambda>e. if is_exception e then op_return None else op_raise e))
      (\<lambda>r t. fst t = fst s \<and> (case r of
          Some x \<Rightarrow> \<exists>w'. reader (fst k) (snd k) (snd s) = (Inr x, w')
        | None \<Rightarrow> \<exists>e w'. reader (fst k) (snd k) (snd s) = (Inl e, w')))
      (\<lambda>_ t. fst t = fst s \<and> (\<exists>e w'. reader (fst k) (snd k) (snd s) = (Inl e, w'))) s"
    by (simp add: wp_simps) (rule wpI, auto simp: wp_simps)
  have none: "py_float VNone \<noteq> Inr f" for f by (simp add: py_float_def)
  show ?thesis
    unfolding backend_runtime_max_capacity_matches_def Some option.case wp_bind [of "op_try _ _"]
    by (rule wp_mono [OF read])
       (auto simp: wp_simps landed_def Some none split: option.split_asm pyval.split sum.split exn.split
         simp del: py_float_VFloat py_float_VInt)
qed

lemma set_max_capacity_remembers:
  fixes W :: "('b, 'w) outside"
  shows "wp (set_max_capacity_transactional W b fam m k v)
    (\<lambda>_ t. bk_set_max W b (fst k) (snd k) v (snd s) = (Inr (), snd t) \<and> remembered fam m k v (fst s) (fst t))
    (\<lambda>_ t. \<exists>e w. bk_set_max W b (fst k) (snd k) v (snd s) = (Inl e, w) \<and>
       (if landed W b k v w then remembered fam m k v (fst s) (fst t) else fst t = fst s)) s"
proof (cases "bk_set_max W b (fst k) (snd k) v (snd s)")
  case (Pair r w)
  show ?thesis
  proof (cases r)
    case (Inr x)
    then show ?thesis using Pair
      by (simp add: set_max_capacity_transactional_def wp_simps) (simp add: wp_def commit_remembers)
  next
    case (Inl e)
    have handled: "wp (op_bind (backend_runtime_max_capacity_matches W b k v) (\<lambda>landed.
        op_seq (op_when landed (on_limiter (commit_runtime_max_capacity fam m k v))) (op_raise e')))
      Q (\<lambda>_ t. \<exists>e w. bk_set_max W b (fst k) (snd k) v (snd s) = (Inl e, w) \<and>
       (if landed W b k v w then remembered fam m k v (fst s) (fst t) else fst t = fst s)) (fst s, w)" for e' Q
      unfolding wp_bind
      by (rule wp_mono [OF matches_exactly [of W b k v "(fst s, w)"]])
         (use Pair Inl in \<open>auto simp: wp_simps commit_remembers\<close>)
    have called: "wp (bk_set_max W b (fst k) (snd k) v) Q E (snd s) = E e w" for Q E
      using Pair Inl by (simp add: wp_def)
    show ?thesis
      unfolding set_max_capacity_transactional_def wp_seq [of "op_try _ _"] wp_try wp_in_world called
      by (rule handled)
  qed
qed

section \<open>Eviction\<close>

text \<open>What the limiter knows of a model family.\<close>

definition known :: "pystr \<Rightarrow> 'b limiter \<Rightarrow> 'b option \<times> pystr option \<times> (bucket_id, pyfloat) dict option \<times>
    (bucket_id, pyfloat) dict option \<times> signature option \<times> (signature, int) dict option \<times> int option \<times> pyfloat option" where
  "known fam l = (map_of (l_backends l) fam, map_of (l_model_names l) fam, map_of (l_quotas l) fam,
     map_of (l_runtime_max l) fam, map_of (l_family_signature l) fam, map_of (l_signature_counts l) fam,
     map_of (l_alias_counts l) fam, map_of (l_last_touched l) fam)"

lemma evict_known: "fam' \<noteq> fam \<Longrightarrow> known fam (evict_family fam' l) = known fam l"
  by (simp add: known_def evict_family_def Let_def)

lemma evicted: "known fam (evict_family fam l) = (None, None, None, None, None, None, None, None)"
  by (simp add: known_def evict_family_def Let_def)

text \<open>Eviction leaves everything about reservations alone.\<close>

lemma evict_reservations [simp]:
  "l_in_flight (evict_family fam l) = l_in_flight l" "l_pending (evict_family fam l) = l_pending l"
  "l_in_flight_family (evict_family fam l) = l_in_flight_family l"
  "l_snapshots (evict_family fam l) = l_snapshots l" "l_refunded (evict_family fam l) = l_refunded l"
  by (simp_all add: evict_family_def Let_def)

lemma evict_fold_known: "fam \<notin> set fams \<Longrightarrow> known fam (fold evict_family fams l) = known fam l"
  by (induction fams arbitrary: l) (auto simp: evict_known)

lemma evict_fold_reservations [simp]:
  "l_in_flight_family (fold evict_family fams l) = l_in_flight_family l"
  "l_in_flight (fold evict_family fams l) = l_in_flight l"
  "l_pending (fold evict_family fams l) = l_pending l"
  "l_snapshots (fold evict_family fams l) = l_snapshots l"
  "l_refunded (fold evict_family fams l) = l_refunded l"
  by (induction fams arbitrary: l) simp_all

lemma evict_fold_forgets:
  "fam \<in> set fams \<Longrightarrow> known fam (fold evict_family fams l) = (None, None, None, None, None, None, None, None)"
proof (induction fams arbitrary: l)
  case (Cons f fams)
  then show ?case
    by (cases "fam \<in> set fams") (auto simp: evict_fold_known evicted)
qed simp

lemma clear_unused_spares:
  assumes "clear_unused_model_families W v s = (Inr n, t)" "map_of (l_in_flight_family (fst s)) rid = Some fam"
  shows "known fam (fst t) = known fam (fst s) \<and> map_of (l_in_flight_family (fst t)) rid = Some fam"
proof -
  have spared: "known fam (fold evict_family (expired_families (fst s) c) (fst s)) = known fam (fst s)" for c
    using assms(2) by (intro evict_fold_known) (force simp: expired_families_def dest: map_of_SomeD)
  have "wp (clear_unused_model_families W v)
      (\<lambda>_ t. known fam (fst t) = known fam (fst s) \<and> l_in_flight_family (fst t) = l_in_flight_family (fst s))
      (\<lambda>_ _. True) s"
    unfolding clear_unused_model_families_def
    by (cases v) (auto simp: wp_simps wp_entry spared split: sum.split)
  then show ?thesis using assms by (auto dest: wp_Inr)
qed

section \<open>The scope of a refund after a quota change\<close>

lemma mapping_valid_iff:
  "validate_usage_mapping ud u ks = Inr () \<longleftrightarrow>
     set (dict_keys u) = ks \<and> (\<forall>x \<in> set u. validate_usage_item ud x () = Inr ())"
proof -
  have "for_each u (validate_usage_item ud) () = Inr () \<longleftrightarrow> (\<forall>x \<in> set u. validate_usage_item ud x () = Inr ())"
    by (induction u) (auto simp: bind_res_Inr_iff)
  then show ?thesis by (simp add: validate_usage_mapping_def)
qed

lemma raw_keys [simp]: "dict_keys (raw_of_usage u) = dict_keys u"
  by (simp add: raw_of_usage_def dict_keys_def case_prod_unfold)

lemma project_keys: "finite ms \<Longrightarrow> set (dict_keys (project_usage u ms)) = ms"
  by (simp add: project_usage_def dict_keys_def o_def)

text \<open>A projected amount is one of the usage, or zero for a metric it does not name.\<close>

lemma project_valid:
  assumes "validate_usage_mapping ud (raw_of_usage u) ks = Inr ()" "finite ms"
    and named: "\<And>m. m \<in> ms \<Longrightarrow> validate_usage_item ud (m, VFloat (Fin 0)) () = Inr ()"
  shows "validate_usage_mapping ud (raw_of_usage (project_usage u ms)) ms = Inr ()"
proof -
  have "validate_usage_item ud (m, VFloat (dict_get u m (Fin 0))) () = Inr ()" if "m \<in> ms" for m
  proof (cases "map_of u m")
    case None
    then show ?thesis using named [OF that] by (simp add: dict_get_def)
  next
    case (Some a)
    then have "(m, VFloat a) \<in> set (raw_of_usage u)" by (force simp: raw_of_usage_def dest: map_of_SomeD)
    then show ?thesis using assms(1) Some by (simp add: mapping_valid_iff dict_get_def)
  qed
  then show ?thesis using assms(2)
    by (auto simp: mapping_valid_iff project_keys) (auto simp: raw_of_usage_def project_usage_def)
qed

lemma projected_refund_valid:
  assumes u: "validate_usage_mapping ud (raw_of_usage reserved) ks = Inr ()"
    "validate_usage_mapping ud (raw_of_usage actual) ks = Inr ()"
    and act: "finite act" "\<And>b. b \<in> act \<Longrightarrow> validate_usage_item ud (fst b, VFloat (Fin 0)) () = Inr ()"
    and scope: "project_refund_scope reserved actual ids (Some act) = (reserved', actual', ids', dropped)"
    and nonempty: "ids = None \<Longrightarrow> act \<noteq> {}"
  shows "\<exists>scope. ids' = Some scope \<and> scope \<subseteq> act \<and> (dropped \<longleftrightarrow> scope = {}) \<and>
    validate_backend_refund_usage_for_bucket_ids ud (raw_of_usage reserved') (raw_of_usage actual') scope act = Inr ()"
proof -
  have keys: "set (dict_keys reserved) = ks" using u(1) by (simp add: mapping_valid_iff)
  have accepted: "validate_backend_refund_usage_for_bucket_ids ud (raw_of_usage v) (raw_of_usage w) sc act = Inr ()"
    if "sc \<subseteq> act" "sc \<noteq> {}" "validate_usage_mapping ud (raw_of_usage v) (fst ` sc) = Inr ()"
      "validate_usage_mapping ud (raw_of_usage w) (fst ` sc) = Inr ()" for v w sc
  proof -
    have "set (dict_keys v) = fst ` sc" using that(3) by (simp add: mapping_valid_iff)
    then show ?thesis
      using that by (simp add: validate_backend_refund_usage_for_bucket_ids_def validate_refund_usage_def Diff_eq_empty_iff)
  qed
  have projected: "validate_usage_mapping ud (raw_of_usage (project_usage v (fst ` sc))) (fst ` sc) = Inr ()"
    if "sc \<subseteq> act" "validate_usage_mapping ud (raw_of_usage v) ks = Inr ()" for v sc
    using that act finite_subset [OF that(1) act(1)] by (intro project_valid) auto
  show ?thesis
  proof (cases ids)
    case None
    then show ?thesis
      using scope nonempty u keys accepted [of act] projected [of act]
      by (auto simp: project_refund_scope_def split: if_splits)
  next
    case (Some bs)
    show ?thesis
    proof (cases "bs \<inter> act = {}")
      case True
      then show ?thesis using scope Some
        by (auto simp: project_refund_scope_def validate_backend_refund_usage_for_bucket_ids_def raw_of_usage_def)
    next
      case False
      let ?sc = "bs \<inter> act"
      have accepted': "validate_backend_refund_usage_for_bucket_ids ud (raw_of_usage reserved') (raw_of_usage actual') ?sc act = Inr ()"
        using scope Some False u keys accepted [of ?sc] projected [of ?sc]
        by (clarsimp simp: project_refund_scope_def Let_def split: if_splits)
      have "ids' = Some ?sc \<and> \<not> dropped"
        using scope Some False by (simp add: project_refund_scope_def Let_def split: if_splits)
      then show ?thesis using accepted' False by blast
    qed
  qed
qed

end
