(* ===== verification/LimiterLedger.thy ===== *)
theory LimiterLedger
  imports LimiterChanges
begin

text \<open>
  What a limiter relies on when it pairs its book of reservations with the ledger of a
  backend, as an interface: a call that acquires leaves the reservation live in the ledger, a
  refund that returns leaves it dead, and nothing else the limiter calls touches it.
\<close>

locale ledger_backend =
  fixes W :: "('b, 'w) outside" and live :: "'b \<Rightarrow> pystr \<Rightarrow> 'w \<Rightarrow> bool"
  assumes wait_live: "bk_wait W b u to rid lifetime w = (Inr x, w') \<Longrightarrow> live b rid w'"
    and consume_live: "bk_consume W b u rid lifetime w = (Inr x, w') \<Longrightarrow> live b rid w'"
    and refund_dead: "bk_refund W b reserved actual ids rid fam ids' marker w = (Inr (), w') \<Longrightarrow> \<not> live b rid w'"
    and monotonic_live: "live b rid (snd (monotonic W w)) = live b rid w"
    and wall_live: "live b rid (snd (wall_time W w)) = live b rid w"
    and warn_live: "live b rid (snd (warnings_warn W k w)) = live b rid w"
    and callback_live: "on_lifecycle_event W = Some callback \<Longrightarrow> live b rid (snd (callback ev w)) = live b rid w"
begin

definition backed :: "pystr \<Rightarrow> 'b \<Rightarrow> 'b limiter \<times> 'w \<Rightarrow> bool" where
  "backed fam b s \<longleftrightarrow> map_of (l_backends (fst s)) fam = Some b"

definition lives :: "bool \<Rightarrow> pystr \<Rightarrow> pystr \<Rightarrow> 'b \<Rightarrow> 'b limiter \<times> 'w \<Rightarrow> bool" where
  "lives yes rid fam b s \<longleftrightarrow> backed fam b s \<and> live b rid (snd s) = yes"

text \<open>The other threads leave the family's backend and the reservation alone.\<close>

definition calm :: "pystr \<Rightarrow> pystr \<Rightarrow> bool" where
  "calm rid fam \<longleftrightarrow> (\<forall>b. undisturbed W (backed fam b)) \<and> (\<forall>b yes. undisturbed W (lives yes rid fam b))"

lemma calm_backed: "calm rid fam \<Longrightarrow> backed fam b s \<Longrightarrow> backed fam b (others W s)"
  unfolding calm_def by (blast dest: undisturbedD)

lemma calm_lives: "calm rid fam \<Longrightarrow> lives yes rid fam b s \<Longrightarrow> lives yes rid fam b (others W s)"
  unfolding calm_def by (blast dest: undisturbedD)

lemma wp_last:
  "(\<And>x t. wp (f x) Q (\<lambda>_ _. True) t) \<Longrightarrow> wp (op_bind m f) Q (\<lambda>_ _. True) s"
  unfolding wp_bind by (rule wp_anything) simp_all

lemma wp_last_seq:
  "(\<And>t. wp n Q (\<lambda>_ _. True) t) \<Longrightarrow> wp (op_seq m n) Q (\<lambda>_ _. True) s"
  unfolding wp_seq by (rule wp_anything) simp_all

section \<open>The backend an acquisition is given\<close>

lemma installs:
  "wp (op_seq (on_limiter (\<lambda>l. l\<lparr>l_backends := dict_set fam b (l_backends l), l_quotas := dict_set fam q (l_quotas l)\<rparr>))
     (op_return b)) (\<lambda>b. backed fam b) (\<lambda>_ _. True) s"
  by (simp add: wp_seq wp_on_limiter wp_return backed_def)

lemma rebuild_backed: "wp (rebuild_backend W cfg fam own old new) (\<lambda>b. backed fam b) (\<lambda>_ _. True) s"
  unfolding rebuild_backend_def
  by (rule installs wp_last wp_last_seq)+

lemma update_limits_backed: "wp (update_limits W fam old new) (\<lambda>b. backed fam b) (\<lambda>_ _. True) s"
proof -
  have applied: "wp (op_for_each xs (\<lambda>((metric, p), v). in_world (bk_apply_configured W b' metric p v)))
      (\<lambda>_. backed fam b) (\<lambda>_ _. True) t" if "backed fam b t" for xs b b' and t :: "'b limiter \<times> 'w"
  proof (rule wp_keeps)
    show "preserves (about (\<lambda>l. map_of (l_backends l) fam = Some b))
        (op_for_each xs (\<lambda>((metric, p), v). in_world (bk_apply_configured W b' metric p v)))"
      by (intro preserves_intros) (simp add: case_prod_unfold preserves_in_world)
  qed (use that in \<open>simp_all add: about_def backed_def\<close>)
  have clear: "l_backends (clear_runtime_max_capacity fam' ks l) = l_backends l" for fam' ks and l :: "'b limiter"
    by (simp add: clear_runtime_max_capacity_def Let_def split: option.split)
  show ?thesis
    unfolding update_limits_def wp_bind wp_checked dict_index_def
    by (auto simp: wp_seq wp_on_limiter wp_return backed_def clear split: option.split
        intro!: wp_mono [OF applied])
qed

lemma sync_backed:
  assumes "get_model_family cfg = Inr fam"
  shows "wp (sync_backend_quotas W cfg own) (\<lambda>b. backed fam b) (\<lambda>_ _. True) s"
proof -
  have same: "wp (checked (\<lambda>l. dict_index (l_backends l) fam)) (\<lambda>b. backed fam b) (\<lambda>_ _. True) t" for t :: "'b limiter \<times> 'w"
    by (simp add: wp_checked dict_index_def backed_def split: option.split)
  show ?thesis
    unfolding sync_backend_quotas_def assms
    by (simp add: wp_bind [of "lift_result (Inr fam)"] wp_lift_result)
       (rule wp_last, simp add: Let_def same rebuild_backed update_limits_backed)
qed

lemma get_backed:
  assumes "get_model_family cfg = Inr fam"
  shows "wp (get_backend W cfg own) (\<lambda>b. backed fam b) (\<lambda>_ _. True) s"
proof -
  have slow: "wp (op_seq (pause W) (op_bind (look (\<lambda>l. map_of (l_backends l) fam)) (\<lambda>cached. case cached of
             Some _ \<Rightarrow> sync_backend_quotas W cfg own
           | None \<Rightarrow> op_bind (in_world (build W cfg)) (\<lambda>backend.
               op_seq (on_limiter (\<lambda>l. l\<lparr>l_backends := dict_set fam backend (l_backends l),
                   l_quotas := dict_set fam (quotas_snapshot cfg) (l_quotas l)\<rparr>))
                 (op_return backend))))) (\<lambda>b. backed fam b) (\<lambda>_ _. True) t" for t
    by (intro wp_last_seq wp_last)
       (auto split: option.split intro!: sync_backed [OF assms] wp_last [OF installs])
  show ?thesis
    unfolding get_backend_def assms
    using slow
    by (auto simp: wp_bind [of "lift_result (Inr fam)"] wp_lift_result wp_bind [of "look f" for f] wp_look
        backed_def wp_return split: option.split)
qed

section \<open>An acquisition that returns\<close>

text \<open>The reservation is live in the ledger of the family's backend.\<close>

definition held :: "pystr \<Rightarrow> pystr \<Rightarrow> 'b limiter \<times> 'w \<Rightarrow> bool" where
  "held rid fam s \<longleftrightarrow> (\<exists>b. lives True rid fam b s)"

lemma calm_held: "calm rid fam \<Longrightarrow> held rid fam s \<Longrightarrow> held rid fam (others W s)"
  unfolding held_def using calm_lives by blast

lemma held_limiter: "l_backends l = l_backends (fst s) \<Longrightarrow> held rid fam (l, snd s) = held rid fam s"
  by (simp add: held_def lives_def backed_def)

lemma held_world: "(\<And>b. live b rid w = live b rid (snd s)) \<Longrightarrow> held rid fam (fst s, w) = held rid fam s"
  by (simp add: held_def lives_def backed_def)

lemma call_backend_held:
  assumes calm: "calm rid fam" and s: "backed fam b s"
  shows "wp (call_backend W b u block timeout rid) (\<lambda>_. held rid fam) (\<lambda>_ _. True) s"
proof -
  let ?s = "others W s"
  have b: "backed fam b ?s" by (rule calm_backed [OF calm s])
  have called: "wp (if block then in_world (bk_wait W b u timeout rid lifetime)
        else untagged (in_world (bk_consume W b u rid lifetime))) (\<lambda>_. held rid fam) (\<lambda>_ _. True) ?s" for lifetime
  proof (cases block)
    case True
    have "wp (bk_wait W b u timeout rid lifetime) (\<lambda>_ w. held rid fam (fst ?s, w)) (\<lambda>_ _. True) (snd ?s)"
      by (rule wpI) (use b in \<open>auto simp: held_def lives_def backed_def dest: wait_live\<close>)
    then show ?thesis using True by (simp add: wp_in_world)
  next
    case False
    have "wp (bk_consume W b u rid lifetime) (\<lambda>_ w. held rid fam (fst ?s, w)) (\<lambda>_ _. True) (snd ?s)"
      by (rule wpI) (use b in \<open>auto simp: held_def lives_def backed_def dest: consume_live\<close>)
    then show ?thesis using False by (simp add: wp_in_world untagged_def wp_try wp_raise)
  qed
  show ?thesis
    unfolding call_backend_def wp_bind wp_look wp_seq wp_pause wp_finally
    by (rule wp_mono [OF called]) (simp_all add: calm_held [OF calm])
qed

lemma issued_held:
  assumes "held rid fam s"
  shows "wp (issued_reservation W r v) (\<lambda>r'. \<lambda>t. r_id r' = r_id r \<and> held rid fam t) (\<lambda>_ _. True) s"
proof -
  have "held rid fam (fst s, snd (wall_time W (snd s)))" using assms by (simp add: held_world wall_live)
  then show ?thesis using assms
    by (cases v) (auto simp: issued_reservation_def Let_def wp_bind wp_clock wp_return wp_lift_result split: sum.split)
qed

lemma try_acquire_held:
  assumes calm: "calm (r_id r) fam" and fam: "get_model_family cfg = Inr fam"
  shows "wp (try_acquire W m u cfg block timeout r) (\<lambda>r' t. r_id r' = r_id r \<and> held (r_id r) fam t) (\<lambda>_ _. True) s"
proof -
  have quiet: "wp (untagged n) Q (\<lambda>_ _. True) t" if "wp n Q (\<lambda>_ _. True) t" for n :: "('b, 'w, 'x) act" and Q t
    unfolding untagged_def wp_try wp_raise by (rule wp_mono [OF that]) simp_all
  have rest: "wp (op_bind (untagged (get_backend W cfg (Some (r_id r)))) (\<lambda>b.
       op_bind (call_backend W b u block timeout (r_id r)) (\<lambda>v. untagged (issued_reservation W r v))))
      (\<lambda>r' t. r_id r' = r_id r \<and> held (r_id r) fam t) (\<lambda>_ _. True) t" for t
    unfolding wp_bind
    by (rule wp_mono [OF quiet [OF get_backed [OF fam]]])
       (rule wp_mono [OF call_backend_held [OF calm]], simp_all add: quiet issued_held)
  show ?thesis unfolding try_acquire_def by (intro wp_last_seq rest)
qed

text \<open>Events change no ledger, whatever the application's callback does.\<close>

lemma emit_lives:
  "wp (emit_reservation_lifecycle_event W k r q u)
     (\<lambda>_ t. fst t = fst s \<and> (\<forall>b rid. live b rid (snd t) = live b rid (snd s))) (\<lambda>_ _. True) s"
proof (cases "on_lifecycle_event W")
  case (Some callback)
  have "wp (callback ev) (\<lambda>_ w'. \<forall>b rid. live b rid w' = live b rid w) (\<lambda>_ w'. \<forall>b rid. live b rid w' = live b rid w) w"
    for ev w
    by (rule wpI) (metis callback_live [OF Some] snd_conv)+
  note called = this
  show ?thesis
    unfolding emit_reservation_lifecycle_event_def emit_lifecycle_event_def Some option.case safe_invoke_sync_callback_def
      wp_bind wp_clock wp_try wp_in_world
    by (rule wp_mono [OF called]) (auto simp: wp_simps wall_live)
qed (simp add: emit_reservation_lifecycle_event_def emit_lifecycle_event_def wp_simps wall_live)

lemma emit_held:
  "held rid fam s \<Longrightarrow> wp (emit_reservation_lifecycle_event W k r q u) (\<lambda>_. held rid fam) (\<lambda>_ _. True) s"
  by (rule wp_mono [OF emit_lives]) (auto simp: held_def lives_def backed_def)

lemma acquire_reservation_held:
  assumes calm: "calm (r_id r) fam" and fam: "get_model_family cfg = Inr fam"
  shows "wp (acquire_reservation W m u cfg block timeout q r) (\<lambda>r' t. r_id r' = r_id r \<and> held (r_id r) fam t) (\<lambda>_ _. True) s"
proof -
  have body: "wp (op_seq (finalize_pending_acquire W r' m) (emit_reservation_lifecycle_event W k r' q u))
      (\<lambda>_. held (r_id r) fam) (\<lambda>_ _. True) t" if "held (r_id r) fam t" for r' k t
  proof -
    have "held (r_id r) fam (fst t, snd (monotonic W (snd t)))" using that by (simp add: held_world monotonic_live)
    then show ?thesis unfolding wp_seq wp_finalize
      by (intro emit_held) (simp add: held_def lives_def backed_def add_in_flight_def refresh_pending_drained_def)
  qed
  have deliver: "wp (refund_or_forget_reservation_on_raise W r' (Some m) block
      (op_seq (finalize_pending_acquire W r' m) (emit_reservation_lifecycle_event W k r' q u)))
      (\<lambda>_. held (r_id r) fam) (\<lambda>_ _. True) t" if "held (r_id r) fam t" for r' k t
  proof -
    have undone: "wp (op_seq n (op_raise e)) Q (\<lambda>_ _. True) t'" for n :: "('b, 'w, unit) act" and e Q t'
      by (rule wp_last_seq) (simp add: wp_raise)
    show ?thesis unfolding refund_or_forget_reservation_on_raise_def
      by (simp add: wp_try) (rule wp_mono [OF body [OF that]], simp_all add: undone)
  qed
  have raises: "wp (acquire_error_handler W m r e) Q (\<lambda>_ _. True) t" for e Q t
    by (simp add: acquire_error_handler_def wp_simps Let_def split: prod.split option.split)
  have tried: "wp (op_try (try_acquire W m u cfg block timeout r) (acquire_error_handler W m r))
      (\<lambda>r' t. r_id r' = r_id r \<and> held (r_id r) fam t) (\<lambda>_ _. True) t" for t
    unfolding wp_try by (rule wp_mono [OF try_acquire_held [OF calm fam]]) (simp_all add: raises)
  show ?thesis
    unfolding acquire_reservation_def wp_bind
    by (rule wp_last_seq, unfold wp_bind, rule wp_mono [OF tried])
       (auto simp: wp_seq wp_on_limiter wp_finally wp_return begin_acquire_delivery_cleanup_def
         end_acquire_delivery_cleanup_def refresh_pending_drained_def held_def lives_def backed_def
         intro!: wp_mono [OF deliver])
qed

section \<open>A refund that returns\<close>

definition freed :: "pystr \<Rightarrow> pystr \<Rightarrow> 'b limiter \<times> 'w \<Rightarrow> bool" where
  "freed rid fam s \<longleftrightarrow> (\<exists>b. lives False rid fam b s)"

lemma plan_backed:
  "wp (plan_refund W actual r) (\<lambda>p. backed (r_model_family r) (rp_backend p)) (\<lambda>_ _. True) s"
proof -
  have marker: "wp (backend_has_acquire_marker_authority W b) (\<lambda>_. backed fam b) (\<lambda>_ _. True) t"
    if "backed fam b t" for fam b and t :: "'b limiter \<times> 'w"
  proof (rule wp_keeps)
    show "preserves (about (\<lambda>l. map_of (l_backends l) fam = Some b)) (backend_has_acquire_marker_authority W b)"
      unfolding backend_has_acquire_marker_authority_def by (intro preserves_intros)
  qed (use that in \<open>simp_all add: about_def backed_def\<close>)
  show ?thesis
    unfolding plan_refund_def
    apply (rule wp_last, rule wp_last_seq)
    by (auto simp: wp_simps case_prod_unfold backed_def split: option.split intro!: wp_mono [OF marker [of "r_model_family r"]])
qed

lemma apply_refund_freed:
  assumes calm: "calm (r_id r) fam" and s: "backed fam (rp_backend p) s"
  shows "wp (apply_refund W r p) (\<lambda>_. freed (r_id r) fam) (\<lambda>_ _. True) s"
proof -
  let ?s = "others W s"
  have b: "backed fam (rp_backend p) ?s" by (rule calm_backed [OF calm s])
  have refunded: "wp (bk_refund W (rp_backend p) a c i (r_id r) f i' mk) (\<lambda>_ w. freed (r_id r) fam (fst ?s, w))
      (\<lambda>_ _. True) (snd ?s)" for a c i f i' mk
    by (rule wpI) (use b in \<open>auto simp: freed_def lives_def backed_def dest: refund_dead\<close>)
  have rest: "wp (op_block [commit_refund_state W (r_id r) (r_model_family r),
      emit_reservation_lifecycle_event W k r None u]) (\<lambda>_. freed (r_id r) fam) (\<lambda>_ _. True) t"
    if "freed (r_id r) fam t" for k u t
    unfolding wp_block_Cons wp_commit wp_block_Nil
    by (rule wp_mono [OF emit_lives])
       (use that in \<open>auto simp: freed_def lives_def backed_def monotonic_live forget_in_flight_reservation_def
          remember_refund_state_def\<close>)
  show ?thesis
    unfolding apply_refund_def wp_block_Cons [of "op_try _ _"] wp_try wp_block_Cons [of "pause W"] wp_pause
      wp_block_Cons [of "in_world _"] wp_in_world wp_block_Nil
    by (rule wp_mono [OF refunded]) (simp_all add: rest refund_error_handler_raises)
qed

lemma attempt_refund_freed:
  assumes calm: "calm (r_id r) (r_model_family r)"
  shows "wp (attempt_refund W actual r) (\<lambda>_. freed (r_id r) (r_model_family r)) (\<lambda>_ _. True) s"
proof -
  have raises: "wp (op_seq n (op_raise e)) Q (\<lambda>_ _. True) t" for n :: "('b, 'w, unit) act" and e Q t
    by (rule wp_last_seq) (simp add: wp_raise)
  show ?thesis
    unfolding attempt_refund_def wp_bind wp_try wp_seq [of "op_try _ _"] wp_return
    by (rule wp_mono [OF plan_backed], rule wp_mono [OF apply_refund_freed [OF calm]])
       (simp_all add: raises)
qed

lemma refund_reserved_freed:
  assumes calm: "calm (r_id r) (r_model_family r)"
  shows "wp (refund_reserved W actual r allow_closed) (\<lambda>_. freed (r_id r) (r_model_family r)) (\<lambda>_ _. True) s"
proof -
  have warned: "wp (op_when d (warn W RefundDropped)) (\<lambda>_. freed rid fam) (\<lambda>_ _. True) t" if "freed rid fam t" for d rid fam t
  proof -
    have same: "wp (warnings_warn W k) (\<lambda>_ w'. \<forall>b rid. live b rid w' = live b rid w) (\<lambda>_ _. True) w" for k w
      by (rule wpI) (metis warn_live snd_conv, simp)
    have "wp (warnings_warn W RefundDropped) (\<lambda>_ w. freed rid fam (fst t, w)) (\<lambda>_ _. True) (snd t)"
      by (rule wp_mono [OF same]) (use that in \<open>auto simp: freed_def lives_def backed_def\<close>)
    then show ?thesis using that by (simp add: wp_when warn_def wp_in_world)
  qed
  have locked: "wp (refund_capacity_locked W actual r allow_closed) (\<lambda>_. freed (r_id r) (r_model_family r)) (\<lambda>_ _. True) t" for t
    unfolding refund_capacity_locked_def
    apply (rule wp_last_seq)
    unfolding wp_bind wp_finally wp_seq [of "pause W"] wp_pause
    by (rule wp_mono [OF attempt_refund_freed [OF calm]])
       (simp_all add: wp_on_limiter warned freed_def lives_def backed_def)
  show ?thesis
    unfolding refund_reserved_def
    apply (rule wp_last)
    unfolding wp_finally wp_release_lock
    by (rule wp_mono [OF locked]) (simp_all add: freed_def lives_def backed_def release_lock_reference_def Let_def)
qed

lemma public_refund_freed:
  assumes calm: "calm (r_id r) (r_model_family r)" and s: "map_of (l_snapshots (fst s)) (r_id r) = Some r" "\<not> r_is_unlimited r"
  shows "wp (limiter_refund_capacity W actual r) (\<lambda>_. freed (r_id r) (r_model_family r)) (\<lambda>_ _. True) s"
proof -
  have found: "wp (reservation_to_refund W r) (\<lambda>found _. found = Some r) (\<lambda>_ _. True) s"
    using s by (simp add: reservation_to_refund_def wp_entry raise_if_closed_def authoritative_reservation_for_refund_def
        wp_simps wp_anything split: sum.split)
  show ?thesis
    unfolding limiter_refund_capacity_def wp_bind
    by (rule wp_mono [OF found]) (simp_all add: wp_seq wp_lift_result refund_reserved_freed [OF calm] split: sum.split)
qed

end

end
