(* ===== verification/LimiterMemory.thy ===== *)
theory LimiterMemory
  imports LimiterLedger MemoryCorrect
begin

text \<open>
  The limiter over the in-process backend: the operations it calls, as \<^verbatim>\<open>SyncMemoryBackend\<close> has
  them. A reference to a backend is its position among those built so far. The application's
  getter answers from a table, and installs no callbacks.
\<close>

record mem_world =
  mw_backends :: "mem_backend list"
  mw_mono :: pyfloat
  mw_wall :: pyfloat
  mw_issued :: nat
  mw_ticks :: "tick list"

definition on_backend :: "nat \<Rightarrow> (mem_backend, 'a) op \<Rightarrow> (mem_world, 'a) wop" where
  "on_backend i m w =
     (if i < length (mw_backends w)
      then (case m (mw_backends w ! i) of (r, b) \<Rightarrow> (plain r, w\<lparr>mw_backends := (mw_backends w)[i := b]\<rparr>))
      else (Inl (Plain KeyError), w))"

text \<open>
  A wait reads the ticks of the world; when they end it still sleeps, and an interrupt ends it.
\<close>

definition memory_wait ::
  "unicode_db \<Rightarrow> nat \<Rightarrow> usage \<Rightarrow> pyfloat option \<Rightarrow> pystr \<Rightarrow> (mem_world, recovery option \<times> rfailure, pyval) eff" where
  "memory_wait ud i u timeout rid w =
     (if length (mw_backends w) \<le> i then (Inl (None, Plain KeyError), w) else
      case wait_for_capacity ud (\<lambda>_. None) False (raw_of_usage u)
        (case timeout of None \<Rightarrow> VNone | Some t \<Rightarrow> VFloat t) (Some rid) [] (mw_mono w) (mw_ticks w) (mw_wall w)
        id (mw_backends w ! i) of
      (Some (Inr t), b) \<Rightarrow> (Inr (VFloat t), w\<lparr>mw_backends := (mw_backends w)[i := b]\<rparr>)
    | (Some (Inl e), b) \<Rightarrow> (Inl (None, Plain e), w\<lparr>mw_backends := (mw_backends w)[i := b]\<rparr>)
    | (None, b) \<Rightarrow> (Inl (None, Interrupt ''KeyboardInterrupt''), w\<lparr>mw_backends := (mw_backends w)
        [i := b\<lparr>be_waiters := dict_pop (waiter_key (Some rid) []) (be_waiters b)\<rparr>]\<rparr>))"

definition memory_registry :: "mem_backend \<Rightarrow> (bucket_id, pyval \<times> pyval) dict" where
  "memory_registry b = map (\<lambda>(k, i). (k,
     case mb_capacity (be_heap b ! i) of None \<Rightarrow> VNone | Some c \<Rightarrow> VFloat c,
     case mb_last_checked (be_heap b ! i) of None \<Rightarrow> VNone | Some t \<Rightarrow> VFloat t)) (be_registry b)"

definition memory_build ::
  "unicode_db \<Rightarrow> pydantic \<Rightarrow> pyval \<Rightarrow> per_model_config \<Rightarrow> (mem_world, nat) wop" where
  "memory_build ud pd sleep_interval cfg w = (case build_mem_backend ud pd sleep_interval cfg of
      Inl e \<Rightarrow> (Inl (Plain e), w)
    | Inr b \<Rightarrow> (Inr (length (mw_backends w)), w\<lparr>mw_backends := mw_backends w @ [b]\<rparr>))"

definition memory_outside ::
  "unicode_db \<Rightarrow> pydantic \<Rightarrow> pyval \<Rightarrow> (pystr \<Rightarrow> per_model_config option) \<Rightarrow> (nat \<Rightarrow> pystr)
   \<Rightarrow> (nat limiter \<times> mem_world \<Rightarrow> nat limiter \<times> mem_world) \<Rightarrow> (nat, mem_world) outside" where
  "memory_outside ud pd sleep_interval cfgs ids interference = \<lparr>
     udb = ud, pyd = pd, getpid = (\<lambda>w. 1), monotonic = (\<lambda>w. (mw_mono w, w)), wall_time = (\<lambda>w. (mw_wall w, w)),
     fresh_id = (\<lambda>w. (ids (mw_issued w), w\<lparr>mw_issued := Suc (mw_issued w)\<rparr>)),
     loop_running = (\<lambda>w. False), in_callback = (\<lambda>w. False), warned_pids = (\<lambda>w. {}), mark_warned = (\<lambda>p w. w),
     warnings_warn = (\<lambda>k. op_return ()),
     getter = (\<lambda>name. case cfgs name of None \<Rightarrow> op_raise (Plain KeyError) | Some c \<Rightarrow> op_return (c, None)),
     on_lifecycle_event = None,
     build = memory_build ud pd sleep_interval,
     builder_close = None,
     bk_wait = (\<lambda>i u timeout rid lifetime. memory_wait ud i u timeout rid),
     bk_consume = (\<lambda>i u rid lifetime w. op_bind (on_backend i
        (consume_capacity ud (\<lambda>_. None) (raw_of_usage u) (Some rid) (mw_wall w))) (\<lambda>t. op_return (VFloat t)) w),
     bk_refund = (\<lambda>i reserved actual scope rid fam ids' marker w. op_bind (on_backend i
        (refund_capacity_for_buckets ud (\<lambda>_. None) (raw_of_usage reserved) (raw_of_usage actual) scope (Some rid)
          (mw_wall w))) (\<lambda>_. op_return ()) w),
     bk_set_max = (\<lambda>i m p v w. on_backend i (be_set_max_capacity m p (VFloat v) (mw_wall w)) w),
     bk_apply_configured = (\<lambda>i m p v w. on_backend i (apply_configured_max_capacity m p (VFloat v) (mw_wall w)) w),
     bk_runtime_max = (\<lambda>i. Some (\<lambda>m p. on_backend i (op_gets (\<lambda>b.
        case runtime_max_capacity_for_reconciliation b m p of None \<Rightarrow> VNone | Some v \<Rightarrow> VFloat v)))),
     bk_registry = (\<lambda>i w. Some (memory_registry (mw_backends w ! i))),
     bk_marker_authority = (\<lambda>i. op_return (VBool False)), bk_default_refund = (\<lambda>i. False),
     bk_metric_set_change = (\<lambda>i. op_return True), bk_default_prepare = (\<lambda>i. False),
     bk_prepare = (\<lambda>i fresh cfg w. op_bind (on_backend i
        (prepare_reconfigured_backend ud cfg (mw_wall w))) (\<lambda>_. op_return i) w),
     bk_is_sqlite = (\<lambda>i. False),
     others = interference,
     await_lock = (\<lambda>k. op_return ())\<rparr>"

section \<open>The ledger of the in-process backend\<close>

definition memory_live :: "nat \<Rightarrow> pystr \<Rightarrow> mem_world \<Rightarrow> bool" where
  "memory_live i rid w \<longleftrightarrow> i < length (mw_backends w) \<and>
     map_of (be_acquired_values (mw_backends w ! i)) rid \<noteq> None"

lemma on_heap_ledger: "on_heap m s = (r, t) \<Longrightarrow> be_acquired_values t = be_acquired_values s"
  by (auto simp: on_heap_def split: prod.splits)

lemma replayed_recorded: "replayed s (Some rid) u = Inr True \<Longrightarrow> map_of (be_acquired_values s) rid \<noteq> None"
  by (auto simp: replayed_def is_replayed_acquire_def split: option.splits if_splits)

lemma record_recorded: "map_of (be_acquired_values (record_opt (Some rid) u s)) rid \<noteq> None"
  by (simp add: record_opt_def record_acquired_reservation_def)

lemma turn_recorded:
  assumes "wait_turn u (Some rid) key dl t w s = (Inr (Granted g), s')"
  shows "map_of (be_acquired_values s') rid \<noteq> None"
proof -
  have granted: "map_of (be_acquired_values t') rid \<noteq> None"
    if "grant_locked u (Some rid) now post s = (x, t')" for now post x t'
    using on_heap_ledger [of _ "record_opt (Some rid) u s" x t'] that record_recorded [of rid u s]
    by (metis grant_locked_def)
  show ?thesis
    using assms
    by (auto simp: wait_turn_def op_bind_def op_return_def Let_def dest: granted replayed_recorded
        split: sum.splits bool.splits prod.splits if_splits)
qed

lemma loop_recorded:
  "wait_loop cb inst u (Some rid) key dl ts w reg s = (Some (Inr g), reg', s') \<Longrightarrow>
     map_of (be_acquired_values s') rid \<noteq> None"
proof (induction ts arbitrary: w reg s)
  case (Cons t ts)
  then show ?case
    by (auto split: prod.splits sum.splits turn.splits dest: turn_recorded)
qed simp

lemma no_callbacks [simp]: "fire (\<lambda>_. None) es = Inr ()"
  by (induction es) auto

lemma wait_recorded:
  assumes "wait_for_capacity ud (\<lambda>_. None) inst raw timeout (Some rid) uuid started ts cancel id s = (Some (Inr x), s')"
  shows "map_of (be_acquired_values s') rid \<noteq> None"
  using assms
  by (auto simp: wait_for_capacity_def Let_def after_grant_def pop_waiter_def dest: loop_recorded
      split: sum.splits prod.splits option.splits if_splits)

lemma consume_recorded:
  assumes "consume_capacity ud (\<lambda>_. None) raw (Some rid) now s = (Inr x, s')"
  shows "map_of (be_acquired_values s') rid \<noteq> None"
proof -
  obtain u y where "consume_locked u (Some rid) now s = (Inr y, s')"
    using assms by (auto simp: consume_capacity_def op_bind_def op_simps split: prod.splits sum.splits)
  then show ?thesis
    using record_recorded [of rid u s]
    by (auto simp: consume_locked_def op_bind_def op_return_def dest!: on_heap_ledger replayed_recorded
        split: sum.splits bool.splits prod.splits)
qed

lemma refund_forgotten:
  assumes "refund_capacity_for_buckets ud (\<lambda>_. None) reserved actual ids (Some rid) now s = (Inr x, s')"
  shows "map_of (be_acquired_values s') rid = None"
proof -
  have closed: "be_acquired_values (close_reservation (Some rid) t) = dict_pop rid (be_acquired_values t)" for t
    by (simp add: close_reservation_def remember_refunded_reservation_id_def forget_acquired_reservation_def
        split: prod.split)
  obtain reserved' actual' refund ids' y where "refund_locked reserved' actual' refund ids' (Some rid) now s = (Inr y, s')"
    using assms by (auto simp: refund_capacity_for_buckets_def op_bind_def op_simps Let_def
        split: prod.splits sum.splits if_splits)
  then show ?thesis
    by (auto simp: refund_locked_def op_bind_def op_simps closed split: sum.splits prod.splits if_splits)
qed

interpretation memory: ledger_backend "memory_outside ud pd sleep_interval cfgs ids interference" memory_live
  for ud pd sleep_interval cfgs ids interference
proof
  fix b u to rid lifetime w x w'
  assume "bk_wait (memory_outside ud pd sleep_interval cfgs ids interference) b u to rid lifetime w = (Inr x, w')"
  then show "memory_live b rid w'"
    by (auto simp: memory_outside_def memory_wait_def memory_live_def dest: wait_recorded
        split: if_splits prod.splits option.splits sum.splits)
next
  fix b u rid lifetime w x w'
  assume "bk_consume (memory_outside ud pd sleep_interval cfgs ids interference) b u rid lifetime w = (Inr x, w')"
  then show "memory_live b rid w'"
    by (auto simp: memory_outside_def on_backend_def memory_live_def op_bind_def op_return_def plain_def
        dest: consume_recorded split: if_splits prod.splits sum.splits)
next
  fix b reserved actual ks rid fam ks' marker w w'
  assume "bk_refund (memory_outside ud pd sleep_interval cfgs ids interference) b reserved actual ks rid fam ks' marker w =
    (Inr (), w')"
  then show "\<not> memory_live b rid w'"
    by (auto simp: memory_outside_def on_backend_def memory_live_def op_bind_def op_return_def plain_def
        dest: refund_forgotten split: if_splits prod.splits sum.splits)
qed (simp_all add: memory_outside_def op_return_def)

section \<open>A world without interference\<close>

definition quiet :: "('b, 'w) outside \<Rightarrow> bool" where
  "quiet W \<longleftrightarrow> others W = id \<and> await_lock W = (\<lambda>k. op_return ())"

lemma steady_quiet: "quiet W \<Longrightarrow> steady W J"
  by (auto simp: quiet_def steady_def undisturbed_def preserves_simple)

lemma undisturbed_quiet: "quiet W \<Longrightarrow> undisturbed W I"
  by (simp add: quiet_def undisturbed_def)

section \<open>A concrete limiter\<close>

text \<open>One family \<open>f\<close> with the backend \<open>demo_backend\<close>, in which the reservation \<open>r\<close> holds 5 requests.\<close>

definition demo_reservation :: reservation where
  "demo_reservation = \<lparr>r_id = [114], r_usage = [([109], Fin 5)], r_model_family = [102],
     r_bucket_ids = Some {([109], 60)}, r_model = None, r_is_unlimited = False,
     r_limiter_instance_id = [73], r_created_at = Some (Fin 100)\<rparr>"

definition fresh_limiter :: "'b limiter" where
  "fresh_limiter = \<lparr>l_max_lifetime = None, l_pid_check = True, l_pid = 1, l_callback_timeout = None,
     l_max_model_families = 4, l_max_metrics_per_family = 4, l_max_aliases = 4, l_max_in_flight = 4,
     l_max_model_family_length = 8, l_max_metric_length = 8, l_max_alias_length = 8, l_backends = [],
     l_model_names = [], l_quotas = [], l_families = [], l_runtime_max = [], l_family_signature = [],
     l_model_signature = [], l_signature_counts = [], l_alias_counts = [], l_refunded = [],
     l_refunded_cap = 131072, l_locks = [], l_lock_refs = [], l_locks_held = {}, l_next_lock = 0,
     l_in_progress = {}, l_pending = {}, l_delivery = {}, l_drained = True, l_close_timeout = None,
     l_instance_id = [73], l_in_flight = {}, l_snapshots = [], l_closing = False,
     l_in_flight_family = [], l_last_touched = [], l_closed = False, l_close_drained = False\<rparr>"

definition demo_limiter :: "nat limiter" where
  "demo_limiter = add_in_flight demo_reservation (fresh_limiter\<lparr>l_backends := [([102], 0)],
     l_quotas := [([102], [(([109], 60), Fin 60)])]\<rparr>)"

definition demo_world :: mem_world where
  "demo_world = \<lparr>mw_backends = [demo_backend], mw_mono = Fin 100, mw_wall = Fin 100, mw_issued = 0,
     mw_ticks = [demo_tick (Fin 100)]\<rparr>"

definition demo_outside :: "(nat, mem_world) outside" where
  "demo_outside = memory_outside demo_udb demo_pyd VNone (\<lambda>name. Some demo_cfg) (\<lambda>n. [200 + n]) id"

lemma demo_quiet [simp]: "quiet demo_outside"
  by (simp add: quiet_def demo_outside_def memory_outside_def)

text \<open>The refund of 3 of the 5 requests at the time of the reservation.\<close>

definition demo_refunded :: mem_backend where
  "demo_refunded = demo_backend\<lparr>be_heap := [demo_bucket\<lparr>mb_capacity := Some (Fin 13)\<rparr>],
     be_acquired_ids := {}, be_acquired_values := [], be_refunded_ids := {[113], [114]},
     be_refunded_order := [[113], [114]]\<rparr>"

lemma demo_refund_runs:
  "refund_capacity_for_buckets demo_udb (\<lambda>_. None) [([109], VFloat (Fin 5))] [([109], VFloat (Fin 2))]
     (Some {([109], 60)}) (Some [114]) (Fin 100) demo_backend = (Inr True, demo_refunded)"
proof -
  have g: "get_capacities [demo_bucket] [0] (Fin 100) = Inr ([(([109], 60), Fin 10)], [])"
    by (simp add: get_capacities_def demo_get_capacity) (simp add: demo_bucket_def mb_id_def)
  have amounts: "refund_amounts [([109], VFloat (Fin 5))] [([109], VFloat (Fin 2))] = Inr [([109], Fin 3)]"
    by (simp add: refund_amounts_def)
  have check: "refund_check demo_backend (Some [114]) = Inr ()" by (simp add: refund_check_def demo_backend_def)
  have caps: "get_capacities (be_heap demo_backend) (be_buckets demo_backend) (Fin 100) =
      Inr ([(([109], 60), Fin 10)], [])"
    using g by (simp add: demo_backend_def)
  have upd: "updated_capacities demo_backend {([109], 60)} [([109], Fin 3)] [(([109], 60), Fin 10)] =
      Inr [(([109], 60), Fin 13)]"
    by (simp add: updated_capacities_def demo_backend_def demo_bucket_def refunded_value_def)
  have set: "on_heap (set_capacities (be_buckets demo_backend) [(([109], 60), Fin 13)] (Fin 100) True) demo_backend =
      (Inr (), demo_backend\<lparr>be_heap := [demo_bucket\<lparr>mb_capacity := Some (Fin 13)\<rparr>]\<rparr>)"
    by (simp add: on_heap_def set_capacities_def demo_backend_def demo_bucket_def find_bucket_def mb_id_def
        op_bind_def op_simps set_capacity_def)
  have ids: "{k. k = ([109], 60)} = {([109] :: pystr, 60 :: int)}" by auto
  have locked: "refund_locked [([109], VFloat (Fin 5))] [([109], VFloat (Fin 2))] [([109], Fin 3)] {([109], 60)}
      (Some [114]) (Fin 100) demo_backend = (Inr [OnCapacityRefunded [([109], VFloat (Fin 5))]
        [([109], VFloat (Fin 2))] [([109], Fin 3)] [(([109], 60), Fin 10)] [(([109], 60), Fin 13)]], demo_refunded)"
    by (simp add: refund_locked_def check caps upd op_bind_def set op_simps)
       (simp add: close_reservation_def remember_refunded_reservation_id_def forget_acquired_reservation_def
        dict_pop_def demo_backend_def demo_refunded_def insert_commute)
  show ?thesis
    unfolding refund_capacity_for_buckets_def Let_def option.case demo_refund_valid sum.case amounts
    by (simp add: op_bind_def locked op_simps)
qed

lemma demo_outside_fields [simp]:
  "udb demo_outside = demo_udb" "pyd demo_outside = demo_pyd" "getpid demo_outside = (\<lambda>w. 1)"
  "monotonic demo_outside = (\<lambda>w. (mw_mono w, w))" "wall_time demo_outside = (\<lambda>w. (mw_wall w, w))"
  "in_callback demo_outside = (\<lambda>w. False)" "warnings_warn demo_outside = (\<lambda>k. op_return ())"
  "loop_running demo_outside = (\<lambda>w. False)" "builder_close demo_outside = None"
  "on_lifecycle_event demo_outside = None" "others demo_outside = id" "await_lock demo_outside = (\<lambda>k. op_return ())"
  "bk_registry demo_outside = (\<lambda>i w. Some (memory_registry (mw_backends w ! i)))"
  "bk_marker_authority demo_outside = (\<lambda>i. op_return (VBool False))"
  by (simp_all add: demo_outside_def memory_outside_def)

lemma demo_frozen: "frozen_usage demo_udb (value_of_raw [([109], VInt 2)]) = Inr [([109], Fin 2)]"
  by (simp add: frozen_usage_def value_of_raw_def frozen_usage_item_def validate_key_segment_req_def
      validate_key_segment_def demo_segment dict_keys_def coerce_usage_value_def type_tests float_of_int_def)

definition demo_plan :: "nat refund_plan" where
  "demo_plan = \<lparr>rp_backend = 0, rp_marker = False, rp_reserved = [([109], Fin 5)], rp_actual = [([109], Fin 2)],
     rp_ids = Some {([109], 60)}, rp_dropped = False, rp_probe = Some [(([109], 60), VFloat (Fin 10), VFloat (Fin 100))]\<rparr>"

lemma demo_plan_made:
  assumes "l_backends l = [([102], 0)]" "l_model_names l = []" "l_quotas l = [([102], [(([109], 60), Fin 60)])]"
    "[114] \<in> l_in_flight l"
  shows "wp (plan_refund demo_outside [([109], VInt 2)] demo_reservation) Q E (l, demo_world) = Q demo_plan (l, demo_world)"
  using assms
  by (simp add: plan_refund_def wp_simps demo_frozen refresh_backend_for_reservation_def demo_reservation_def
      backend_has_acquire_marker_authority_def project_refund_scope_def dict_keys_def demo_plan_def
      refund_backend_state_signature_def memory_registry_def demo_world_def demo_backend_def demo_bucket_def)

lemma demo_refund_call:
  "bk_refund demo_outside 0 [([109], Fin 5)] [([109], Fin 2)] (Some {([109], 60)}) [114] [102]
     (Some {([109], 60)}) None demo_world = (Inr (), demo_world\<lparr>mw_backends := [demo_refunded]\<rparr>)"
  by (simp add: demo_outside_def memory_outside_def on_backend_def raw_of_usage_def demo_world_def
      demo_refund_runs op_bind_def op_return_def plain_def)

lemma demo_apply:
  "wp (apply_refund demo_outside demo_reservation demo_plan) (\<lambda>_ t. mw_backends (snd t) = [demo_refunded])
     (\<lambda>_ _. False) (l, demo_world)"
proof -
  have "wp (bk_refund demo_outside 0 [([109], Fin 5)] [([109], Fin 2)] (Some {([109], 60)}) [114] [102]
     (Some {([109], 60)}) None) Q E demo_world = Q () (demo_world\<lparr>mw_backends := [demo_refunded]\<rparr>)" for Q E
    by (simp add: wp_def demo_refund_call)
  then show ?thesis
    by (simp add: apply_refund_def wp_simps demo_plan_def demo_reservation_def emit_reservation_lifecycle_event_def
        emit_lifecycle_event_def)
qed

lemma demo_limiter_fields [simp]:
  "l_backends demo_limiter = [([102], 0)]" "l_model_names demo_limiter = []" "l_refunded demo_limiter = []"
  "l_quotas demo_limiter = [([102], [(([109], 60), Fin 60)])]" "l_in_flight demo_limiter = {[114]}"
  "l_closed demo_limiter = False" "l_in_progress demo_limiter = {}" "l_locks demo_limiter = []" 
  "l_refunded_cap demo_limiter = 131072" "l_lock_refs demo_limiter = []" 
  "l_snapshots demo_limiter = [([114], demo_reservation)]" "l_pending demo_limiter = {}" "l_delivery demo_limiter = {}"
  "l_closing demo_limiter = False" "l_families demo_limiter = []" "l_model_signature demo_limiter = []"
  "l_signature_counts demo_limiter = []" "l_family_signature demo_limiter = []" "l_alias_counts demo_limiter = []"
  "l_max_model_families demo_limiter = 4" "l_max_aliases demo_limiter = 4" "l_max_lifetime demo_limiter = None"
  "l_max_in_flight demo_limiter = 4" "l_lock_refs demo_limiter = []" "l_close_drained demo_limiter = False"
  "l_pid_check demo_limiter = True" "l_pid demo_limiter = 1" "l_runtime_max demo_limiter = []"
  "l_in_flight_family demo_limiter = [([114], [102])]"
  by (simp_all add: demo_limiter_def fresh_limiter_def add_in_flight_def demo_reservation_def)

lemma demo_refund_returns:
  "wp (refund_reserved demo_outside [([109], VInt 2)] demo_reservation False)
     (\<lambda>_ t. mw_backends (snd t) = [demo_refunded]) (\<lambda>_ _. False) (demo_limiter, demo_world)"
proof -
  have id: "r_id demo_reservation = [114]" by (simp add: demo_reservation_def)
  have attempt: "wp (attempt_refund demo_outside [([109], VInt 2)] demo_reservation)
      (\<lambda>d t. \<not> d \<and> mw_backends (snd t) = [demo_refunded]) (\<lambda>_ _. False) (l, demo_world)"
    if "l_backends l = [([102], 0)]" "l_model_names l = []" "l_quotas l = [([102], [(([109], 60), Fin 60)])]"
      "[114] \<in> l_in_flight l" for l
    unfolding attempt_refund_def wp_bind wp_try demo_plan_made [OF that] wp_seq wp_return
    by (rule wp_mono [OF demo_apply]) (simp_all add: demo_plan_def)
  show ?thesis
    unfolding refund_reserved_def refund_capacity_locked_def wp_bind wp_acquire_lock wp_finally Let_def
    by (simp add: wp_simps begin_refund_def raise_if_closed_def id take_lock_reference_def)
       (rule wp_mono [OF attempt], simp_all add: wp_simps remember_refund_state_def)
qed
section \<open>A concrete acquisition\<close>

definition demo_new :: reservation where
  "demo_new = \<lparr>r_id = [110], r_usage = [([109], Fin 3)], r_model_family = [102],
     r_bucket_ids = Some {([109], 60)}, r_model = Some [103], r_is_unlimited = False,
     r_limiter_instance_id = [73], r_created_at = None\<rparr>"

lemma demo_wait_call:
  "bk_wait demo_outside 0 [([109], Fin 3)] None [110] None demo_world =
     (Inr (VFloat (Fin 100)), demo_world\<lparr>mw_backends := [demo_after]\<rparr>)"
proof -
  have v: "validate_backend_usage demo_udb [([109], VFloat (Fin 3))] (be_usage_metric_names demo_backend) = Inr ()"
    using demo_valid [of 3] by (simp add: demo_backend_def)
  have "wait_for_capacity demo_udb (\<lambda>_. None) False (raw_of_usage [([109], Fin 3)]) VNone (Some [110]) [] (Fin 100)
      [demo_tick (Fin 100)] (Fin 100) id demo_backend = (Some (Inr (Fin 100)), demo_after)"
    using v
    by (simp add: wait_for_capacity_def raw_of_usage_def validate_timeout_def usage_floats_def waiter_key_def
        demo_wait Let_def pop_waiter_def del: wait_loop.simps)
       (simp add: after_grant_def demo_grant_def grant_events_def initial_locals_def demo_after_def)
  then show ?thesis
    by (simp add: demo_outside_def memory_outside_def memory_wait_def demo_world_def)
qed

lemma demo_signature: "config_signature demo_cfg = (False, [([109], 60, Fin 60)])"
  by (simp add: config_signature_def config_is_unlimited_def demo_cfg_def quotas_snapshot_def uq_iter_def demo_quota_def
      is_unlimited_quotas_def)

lemma demo_acquire_returns:
  "wp (acquire_reservation demo_outside [103] [([109], Fin 3)] demo_cfg True None None demo_new)
     (\<lambda>r t. r = demo_new\<lparr>r_created_at := Some (Fin 100)\<rparr> \<and> mw_backends (snd t) = [demo_after]) (\<lambda>_ _. False)
     (demo_limiter, demo_world)"
proof -
  have fam: "get_model_family demo_cfg = Inr [102]" by (simp add: get_model_family_def demo_cfg_def)
  have snap: "quotas_snapshot demo_cfg = [(([109], 60), Fin 60)]"
    by (simp add: quotas_snapshot_def demo_cfg_def uq_iter_def demo_quota_def)
  have wait: "wp (bk_wait demo_outside 0 [([109], Fin 3)] None [110] None) Q E demo_world =
      Q (VFloat (Fin 100)) (demo_world\<lparr>mw_backends := [demo_after]\<rparr>)" for Q E
    by (simp add: wp_def demo_wait_call)
  have new: "r_id demo_new = [110]" "r_model_family demo_new = [102]" by (simp_all add: demo_new_def)
  have room: "in_flight_room (demo_limiter\<lparr>l_drained := False\<rparr>) [110] = Inr ()"
    by (simp add: in_flight_room_def demo_limiter_def add_in_flight_def fresh_limiter_def demo_reservation_def)
  have tried: "wp (try_acquire demo_outside [103] [([109], Fin 3)] demo_cfg True None demo_new)
      (\<lambda>r t. r = demo_new\<lparr>r_created_at := Some (Fin 100)\<rparr> \<and> mw_backends (snd t) = [demo_after]) (\<lambda>_ _. False)
      (l, demo_world)"
    if "l_backends l = [([102], 0)]" "l_quotas l = [([102], [(([109], 60), Fin 60)])]" "l_families l = []"
      "l_model_signature l = []" "l_signature_counts l = []" "l_family_signature l = []" "l_alias_counts l = []"
      "l_max_model_families l = 4" "l_max_aliases l = 4" "l_max_lifetime l = None" for l
    using that
    by (simp add: try_acquire_def untagged_def wp_simps validate_shared_model_family_config_def fam
        validate_shared_locked_def settle_conflict_def without_previous_def conflicting_signatures_def dict_get_def
        demo_signature enforce_new_model_family_cap_def enforce_new_alias_cap_def guard_def get_backend_def snap
        same_quotas_def dict_eq_def dict_keys_def call_backend_def register_alias_def Let_def new wait issued_reservation_def type_tests)
  let ?r = "demo_new\<lparr>r_created_at := Some (Fin 100)\<rparr>"
  have deliver: "wp (op_seq (on_limiter (begin_acquire_delivery_cleanup (r_id r)))
      (op_finally (op_seq (refund_or_forget_reservation_on_raise demo_outside r (Some [103]) True
          (op_seq (finalize_pending_acquire demo_outside r [103])
            (emit_reservation_lifecycle_event demo_outside ''capacity_consumed'' r None [([109], Fin 3)])))
        (op_return r)) (on_limiter (end_acquire_delivery_cleanup (r_id r)))))
      (\<lambda>r t. r = ?r \<and> mw_backends (snd t) = [demo_after]) (\<lambda>_ _. False) t"
    if "r = ?r" "mw_backends (snd t) = [demo_after]" for r t
    using that
    by (simp add: wp_simps refund_or_forget_reservation_on_raise_def emit_reservation_lifecycle_event_def emit_lifecycle_event_def)
  have begun: "wp (begin_pending_acquire demo_new)
      (\<lambda>_ t. t = (demo_limiter\<lparr>l_drained := False, l_pending := {[110]},
         l_in_flight_family := [([114], [102]), ([110], [102])]\<rparr>, demo_world))
      (\<lambda>_ _. False) (demo_limiter, demo_world)"
    by (simp add: begin_pending_acquire_def wp_simps raise_if_closed_or_closing_def room new)
  show ?thesis
    unfolding acquire_reservation_def wp_seq [of "begin_pending_acquire demo_new"] wp_bind [of "op_try _ _"] wp_try
    by (rule wp_mono [OF begun], simp only:) (rule wp_mono [OF tried]; (erule conjE, erule (1) deliver)?; simp?)
qed
end
