(* ===== verification/LimiterCorrect.thy ===== *)
theory LimiterCorrect
  imports LimiterMemory
begin

text \<open>
  The properties of the rate limiter. \<open>wp m Q E s\<close> reads: run from \<open>s\<close>, \<open>m\<close> returns with \<open>Q\<close> or raises
  with \<open>E\<close>. \<open>steady W J\<close> says that the other threads keep \<open>J\<close>; each property names what it needs
  of them. The witnesses run a limiter over the in-process backend.
\<close>

section \<open>Acquisitions\<close>

text \<open>
  C3. An acquisition that returns has its reservation in flight, recorded under its family and
  model and no longer pending; one that raises leaves no trace of it, or hands the caller the
  reservation to refund again, or the exception is a critical one.
\<close>

theorem acquisition_all_or_nothing:
  fixes W :: "('b, 'w) outside"
  assumes "others_mind W (r_id r)" "absent (r_id r) (fst s)" "0 < l_refunded_cap (fst s)"
  shows "wp (acquire_reservation W model u cfg block timeout request_id r)
    (\<lambda>r' t. (\<exists>c. r' = r\<lparr>r_created_at := Some c\<rparr>) \<and> issued r' model (fst t) \<and> r_id r \<notin> l_delivery (fst t))
    (\<lambda>e t. undone (r_id r) e (fst t)) s"
  by (rule acquire_reservation_wp [OF assms])

theorem acquisition_all_or_nothing_witness:
  "\<exists>t. acquire_reservation demo_outside [103] [([109], Fin 3)] demo_cfg True None None demo_new
       (demo_limiter, demo_world) = (Inr (demo_new\<lparr>r_created_at := Some (Fin 100)\<rparr>), t) \<and>
     issued (demo_new\<lparr>r_created_at := Some (Fin 100)\<rparr>) [103] (fst t)"
proof -
  have "wp (acquire_reservation demo_outside [103] [([109], Fin 3)] demo_cfg True None None demo_new)
      (\<lambda>r t. (\<exists>c. r = demo_new\<lparr>r_created_at := Some c\<rparr>) \<and> issued r [103] (fst t) \<and> r_id demo_new \<notin> l_delivery (fst t))
      (\<lambda>e t. undone (r_id demo_new) e (fst t)) (demo_limiter, demo_world)"
    by (rule acquisition_all_or_nothing)
       (simp_all add: others_mind_def steady_quiet absent_def demo_new_def)
  from wp_conj [OF this demo_acquire_returns] show ?thesis
    by (auto simp: wp_def split: prod.splits sum.splits)
qed

text \<open>
  C15. However acquisitions end, at most \<^verbatim>\<open>max_in_flight_reservations\<close> reservations are in flight
  or pending. \<open>rid\<close> is the id the call draws; the other threads keep the cap themselves and do
  not take this one reservation from the pending ones while the call is acquiring it. With
  every other reservation they do what they like: acquire, refund, forget, roll back.
\<close>

theorem in_flight_within_cap:
  assumes "steady W bounded" "\<And>w. nfc (udb W) (fst (fresh_id W w)) = rid" "steady W (awaited rid)"
    "bounded (fst s)"
  shows "wp (acquire_or_record W raw model block timeout)
    (\<lambda>_ t. bounded (fst t)) (\<lambda>_ t. bounded (fst t)) s"
  using preservesD [OF acquire_or_record_bounded [OF assms(1-3)]] assms(4)
  by (simp add: about_def [abs_def])

text \<open>An acquisition of \<open>n\<close> while another thread drops the reservation \<open>r\<close> at every pause.\<close>

definition busy_outside :: "(nat, mem_world) outside" where
  "busy_outside = memory_outside demo_udb demo_pyd VNone (\<lambda>name. Some demo_cfg) (\<lambda>n. [110])
     (\<lambda>(l, w). (forget_in_flight_reservation [114] l, w))"

lemma busy_outside_fields:
  "udb busy_outside = demo_udb" "fst (fresh_id busy_outside w) = [110]"
  "others busy_outside = (\<lambda>(l, w). (forget_in_flight_reservation [114] l, w))"
  "await_lock busy_outside = (\<lambda>k. op_return ())"
  by (simp_all add: busy_outside_def memory_outside_def)

lemma steady_busy:
  "(\<And>l. J l \<Longrightarrow> J (forget_in_flight_reservation [114] l)) \<Longrightarrow> steady busy_outside J"
  by (simp add: steady_def undisturbed_def busy_outside_fields about_def case_prod_unfold preserves_simple)

theorem in_flight_within_cap_witness:
  "wp (acquire_or_record busy_outside (VDict [(VStr [109], VInt 3)]) [103] True None)
     (\<lambda>_ t. bounded (fst t)) (\<lambda>_ t. bounded (fst t)) (demo_limiter, demo_world)"
proof (rule in_flight_within_cap)
  show "bounded (fst (demo_limiter, demo_world))" by (simp add: bounded_def)
  show "steady busy_outside bounded" by (rule steady_busy) (rule bounded_forget)
  have "awaited [110] (forget_in_flight_reservation [114] l)" if "awaited [110] l" for l :: "nat limiter"
  proof -
    have "bounded (forget_in_flight_reservation [114] l)" using that by (simp add: awaited_def bounded_forget)
    then show ?thesis using that by (simp add: awaited_def)
  qed
  then show "steady busy_outside (awaited [110])" by (rule steady_busy)
qed (simp add: busy_outside_fields demo_udb_def)

text \<open>
  C16. The books about model families stay exact, whether an acquisition returns or raises: the
  families and aliases are within their caps, a family counts exactly its aliases, all of them
  under its one signature. This rests on the contract of the configuration getter, for this
  call and for the other threads: the model has the same family \<open>fam\<close> for the life of the
  limiter. The limiter checks the contract, but before it takes the validation lock; what
  happens to a model rerouted in between is \<open>rerouting_race_breaks_books\<close>.
\<close>

theorem family_books_exact:
  assumes "steady W (routes model fam)" "stable_routing W model fam" "routes model fam (fst s)"
  shows "wp (acquire_or_record W raw model block timeout)
    (\<lambda>_ t. books (fst t) \<and> map_of (l_families (fst t)) model \<in> {None, Some fam})
    (\<lambda>_ t. books (fst t) \<and> map_of (l_families (fst t)) model \<in> {None, Some fam}) s"
  using books_acquire_or_record [OF assms] by (simp add: routes_def)

lemma demo_family: "cfg_model_family demo_cfg = Some [102]"
  by (simp add: demo_cfg_def)

lemma demo_getter_stable: "stable_routing demo_outside [103] [102]"
proof -
  have returns: "wp (config_getter demo_outside [103]) (\<lambda>cfg _. get_model_family cfg = Inr [102]) (\<lambda>_ _. True) s" for s
  proof -
    have get: "wp (getter demo_outside name) Q E w = Q (demo_cfg, None) w" for name Q E w
      by (simp add: demo_outside_def memory_outside_def wp_def op_return_def)
    have keep: "config_with_family demo_udb demo_pyd demo_cfg (Some [102]) = Inr demo_cfg"
      using demo_config by (simp add: config_with_family_def)
    have res: "get_model_family cfg = Inr [102]"
      if "resolve_config demo_udb demo_pyd (StaticConfig demo_cfg) (VStr [103]) a b = Inr cfg" for cfg a b
      using that keep by (auto simp: resolve_config_def res_simps demo_family get_model_family_def)
    have named: "wp (config_getter_full demo_outside [103]) (\<lambda>p _. get_model_family (fst p) = Inr [102]) (\<lambda>_ _. True) s"
      unfolding config_getter_full_def wp_bind wp_look wp_lift_result case_prod_unfold fst_conv snd_conv wp_in_world
      by (simp add: get wp_return split: sum.split) (intro allI impI, erule res)
    show ?thesis unfolding config_getter_def wp_bind wp_return
      using named by (rule wp_mono) simp_all
  qed
  show ?thesis unfolding stable_routing_def
  proof (intro allI impI)
    fix s cfg t assume "config_getter demo_outside [103] s = (Inr cfg, t)"
    then show "get_model_family cfg = Inr [102]" by (rule wp_Inr [OF returns])
  qed
qed

theorem family_books_exact_witness:
  "wp (acquire_or_record demo_outside (VDict [(VStr [109], VInt 3)]) [103] True None)
     (\<lambda>_ t. books (fst t) \<and> map_of (l_families (fst t)) [103] \<in> {None, Some [102]})
     (\<lambda>_ t. books (fst t) \<and> map_of (l_families (fst t)) [103] \<in> {None, Some [102]}) (demo_limiter, demo_world)"
proof (rule family_books_exact)
  show "routes [103] [102] (fst (demo_limiter, demo_world))"
    by (simp add: routes_def books_def family_book_def aliases_def)
qed (simp_all add: steady_quiet demo_getter_stable)

text \<open>
  The race: this call has seen the model unrouted, and while it waits for the validation lock
  another thread registers the model under another family. If the call then returns, the model
  has been moved and the books of the other family count an alias too many.
\<close>

theorem rerouting_race_breaks_books:
  assumes "get_model_family cfg = Inr fam" "map_of (l_model_signature (fst s)) model = None"
    "books (fst (others W s))" "map_of (l_families (fst (others W s))) model = Some other" "other \<noteq> fam"
    "map_of (l_model_signature (fst (others W s))) model \<noteq> Some (config_signature cfg)"
  shows "wp (validate_shared_model_family_config W model cfg True) (\<lambda>_ t. \<not> books (fst t)) (\<lambda>_ _. True) s"
  using validate_locked_rerouted [OF assms(3-6)] assms(1,2)
  by (simp add: validate_shared_model_family_config_def wp_simps)

text \<open>The other thread registers the model \<open>g\<close> under the family \<open>x\<close> with other quotas.\<close>

definition rival_outside :: "(nat, mem_world) outside" where
  "rival_outside = demo_outside\<lparr>others := (\<lambda>(l, w).
     (register_alias [103] [120] (False, []) None [] [] False l, w))\<rparr>"

lemma rival_books: "books (register_alias [103] [120] (False, []) None [] [] False demo_limiter)"
  using register_books [of demo_limiter "[103]" "[120]" "(False, [])" "[]" False]
  by (simp add: books_def family_book_def aliases_def settled_counts_def conflicting_signatures_def
      without_previous_def dict_get_def enforce_new_model_family_cap_def enforce_new_alias_cap_def guard_def)

theorem rerouting_race_breaks_books_witness:
  "\<exists>t. validate_shared_model_family_config rival_outside [103] demo_cfg True (demo_limiter, demo_world) = (Inr (), t) \<and>
     \<not> books (fst t)"
proof -
  have fam: "get_model_family demo_cfg = Inr [102]" by (simp add: get_model_family_def demo_cfg_def)
  have broken: "wp (validate_shared_model_family_config rival_outside [103] demo_cfg True)
      (\<lambda>_ t. \<not> books (fst t)) (\<lambda>_ _. True) (demo_limiter, demo_world)"
    by (rule rerouting_race_breaks_books [OF fam])
       (simp_all add: rival_outside_def rival_books demo_signature, simp_all add: register_alias_def Let_def demo_signature)
  have "wp (validate_shared_model_family_config rival_outside [103] demo_cfg True)
      (\<lambda>_ _. True) (\<lambda>_ _. False) (demo_limiter, demo_world)"
    by (simp add: validate_shared_model_family_config_def wp_simps fam rival_outside_def register_alias_def Let_def
        dict_get_def validate_shared_locked_def settle_conflict_def without_previous_def conflicting_signatures_def dict_pop_def
        enforce_new_model_family_cap_def enforce_new_alias_cap_def guard_def demo_signature touch_model_family_def)
  from wp_conj [OF broken this] show ?thesis by (auto simp: wp_def split: prod.splits sum.splits)
qed

section \<open>Refunds\<close>

text \<open>
  C4. A refund that returns is final: the reservation is committed and gone from every book, and
  any further refund of it is refused without a call of the backend: it goes the same way
  whatever the backend would do.
\<close>

theorem refund_is_final:
  assumes "steady W (\<lambda>l. 0 < l_refunded_cap l)" "steady W (committed (r_id r))" "0 < l_refunded_cap (fst s)"
  shows "wp (refund_reserved W actual r allow_closed)
    (\<lambda>_ t. closed_out (r_id r) (fst t) \<and> fst (refund_reserved W again r allow t) \<noteq> Inr () \<and>
       refund_reserved (W\<lparr>bk_refund := other_backend\<rparr>) again r allow t = refund_reserved W again r allow t)
    (\<lambda>_ _. True) s"
  by (rule wp_mono [OF refund_reserved_closes [OF assms(1,3)]])
     (use refund_refused [OF assms(2)] in \<open>auto simp: closed_out_def\<close>)

theorem refund_is_final_witness:
  "\<exists>t. refund_reserved demo_outside [([109], VInt 2)] demo_reservation False (demo_limiter, demo_world) = (Inr (), t) \<and>
     closed_out [114] (fst t) \<and> mw_backends (snd t) = [demo_refunded] \<and>
     fst (refund_reserved demo_outside [([109], VInt 2)] demo_reservation False t) \<noteq> Inr ()"
proof -
  have id: "r_id demo_reservation = [114]" by (simp add: demo_reservation_def)
  have "wp (refund_reserved demo_outside [([109], VInt 2)] demo_reservation False)
      (\<lambda>_ t. closed_out (r_id demo_reservation) (fst t) \<and>
        fst (refund_reserved demo_outside [([109], VInt 2)] demo_reservation False t) \<noteq> Inr () \<and>
        refund_reserved (demo_outside\<lparr>bk_refund := bk_refund demo_outside\<rparr>) [([109], VInt 2)] demo_reservation False t =
        refund_reserved demo_outside [([109], VInt 2)] demo_reservation False t) (\<lambda>_ _. True) (demo_limiter, demo_world)"
    by (rule refund_is_final) (simp_all add: steady_quiet)
  from wp_conj [OF this demo_refund_returns] show ?thesis
    unfolding id by (auto simp: wp_def split: prod.splits sum.splits)
qed

text \<open>
  C9. A refund that raises is never lost: the reservation is still in flight and may be refunded
  again, or the refund is known to have been written and is committed, or the backend had
  forgotten the reservation and so does the limiter.
\<close>

theorem failed_refund_not_lost:
  assumes "\<And>st. steady W (tracked (r_id r) st)" "retriable (r_id r) (fst s)"
  shows "wp (refund_reserved W actual r allow_closed)
    (\<lambda>_ t. committed (r_id r) (fst t)) (\<lambda>e t. settled (r_id r) e (fst t)) s"
  by (rule refund_reserved_settles [OF assms])

theorem failed_refund_not_lost_witness:
  "wp (refund_reserved demo_outside [([109], VInt 2)] demo_reservation False)
     (\<lambda>_ t. committed [114] (fst t)) (\<lambda>e t. settled [114] e (fst t)) (demo_limiter, demo_world)"
proof -
  have id: "r_id demo_reservation = [114]" by (simp add: demo_reservation_def)
  show ?thesis
    by (rule failed_refund_not_lost [of demo_outside demo_reservation, unfolded id])
       (simp_all add: steady_quiet retriable_def tracked_def)
qed

text \<open>
  Whatever happens in a refund, its lock on the reservation and its claim are given back.
\<close>

theorem refund_gives_back_lock:
  assumes "\<And>busy k. steady W (claimed busy (r_id r) k)" "unclaimed (r_id r) (fst s)"
  shows "wp (refund_reserved W actual r allow_closed)
    (\<lambda>_ t. unclaimed (r_id r) (fst t)) (\<lambda>_ t. unclaimed (r_id r) (fst t)) s"
  using refund_reserved_unclaims [OF assms] by (simp add: about_def [abs_def])

theorem refund_gives_back_lock_witness:
  "wp (refund_reserved demo_outside [([109], VInt 2)] demo_reservation False)
     (\<lambda>_ t. unclaimed (r_id demo_reservation) (fst t)) (\<lambda>_ t. unclaimed (r_id demo_reservation) (fst t))
     (demo_limiter, demo_world)"
  by (rule refund_gives_back_lock) (simp_all add: steady_quiet unclaimed_def)

section \<open>Closing\<close>



text \<open>
  When the builder's own \<open>close()\<close> raises, the limiter already counts as drained: the next
  \<^verbatim>\<open>close()\<close> returns at once, the builder is not closed again and nothing retained is cleared.
\<close>

theorem failed_builder_close_retains:
  "\<exists>t. close (demo_outside\<lparr>builder_close := Some (op_raise (Plain (RuntimeError ''failed'')))\<rparr>)
       (demo_limiter, demo_world) = (Inl (Plain (RuntimeError ''failed'')), t) \<and>
     close (demo_outside\<lparr>builder_close := Some (op_raise (Plain (RuntimeError ''failed'')))\<rparr>) t = (Inr (), t) \<and>
     l_backends (fst t) = l_backends demo_limiter \<and> l_snapshots (fst t) = l_snapshots demo_limiter"
proof -
  let ?W = "demo_outside\<lparr>builder_close := Some (op_raise (Plain (RuntimeError ''failed'')))\<rparr>"
  have drained: "wp (close ?W) (\<lambda>_ u. u = t) (\<lambda>_ _. False) t"
    if "l_closed (fst t)" "l_close_drained (fst t)" "l_pid_check (fst t)" "l_pid (fst t) = 1" for t
    using that by (simp add: close_def begin_close_def wp_simps wp_entry case_prod_unfold)
  have "wp (close ?W) (\<lambda>_ _. False)
      (\<lambda>e t. e = Plain (RuntimeError ''failed'') \<and> l_closed (fst t) \<and> l_close_drained (fst t) \<and>
         l_pid_check (fst t) \<and> l_pid (fst t) = 1 \<and> l_backends (fst t) = l_backends demo_limiter \<and>
         l_snapshots (fst t) = l_snapshots demo_limiter) (demo_limiter, demo_world)"
    by (simp add: close_def begin_close_def wp_simps wp_entry case_prod_unfold await_pending_drained_def
        finish_close_def wait_for_refund_lock_drain_def refresh_pending_drained_def terminalize_def)
  then obtain t where t: "close ?W (demo_limiter, demo_world) = (Inl (Plain (RuntimeError ''failed'')), t)"
    "l_closed (fst t)" "l_close_drained (fst t)" "l_pid_check (fst t)" "l_pid (fst t) = 1"
    "l_backends (fst t) = l_backends demo_limiter" "l_snapshots (fst t) = l_snapshots demo_limiter"
    by (auto simp: wp_def split: prod.splits sum.splits)
  have "close ?W t = (Inr (), t)"
    using drained [OF t(2-5)] by (auto simp: wp_def split: prod.splits sum.splits)
  with t show ?thesis by blast
qed

text \<open>
  C20. Leaving a \<^verbatim>\<open>reserve()\<close> block closes its reservation: it is in no book any more, or a refund of
  exactly what was reserved was attempted and failed, or the exception is critical. When an
  exception left the block, the clean-up raises nothing else but a critical exception, so it
  cannot mask it.
\<close>

theorem reserve_scope_closes:
  assumes "steady W (recorded (r_id r))" "steady W (\<lambda>l. 0 < l_refunded_cap l)" "recorded (r_id r) (fst s)"
  shows "wp (scope_exit W sc r in_block)
    (\<lambda>_ t. absent (r_id r) (fst t) \<or> refund_failed W (raw_of_usage (r_usage r)) r t)
    (\<lambda>e t. is_critical e \<or>
       in_block = None \<and> (absent (r_id r) (fst t) \<or> refund_failed W (raw_of_usage (r_usage r)) r t)) s"
  by (rule scope_exit_closes [OF assms])

theorem reserve_scope_closes_witness:
  "wp (scope_exit demo_outside (reserve (VDict [(VStr [109], VInt 5)]) [103] VNone None) demo_reservation
       (Some (Plain (RuntimeError ''failed''))))
    (\<lambda>_ t. absent (r_id demo_reservation) (fst t) \<or>
       refund_failed demo_outside (raw_of_usage (r_usage demo_reservation)) demo_reservation t)
    (\<lambda>e t. is_critical e \<or> Some (Plain (RuntimeError ''failed'')) = (None :: rfailure option) \<and>
       (absent (r_id demo_reservation) (fst t) \<or>
        refund_failed demo_outside (raw_of_usage (r_usage demo_reservation)) demo_reservation t))
    (demo_limiter, demo_world)"
  by (rule reserve_scope_closes) (simp_all add: steady_quiet recorded_def)

section \<open>Changes of configuration\<close>

text \<open>
  C25. Which backend a family has, and the snapshot of quotas it stands for, change together: a
  quota change that returns leaves the returned backend installed with a snapshot that agrees
  with the configuration, one that raises leaves the old backend installed with the old
  snapshot. Only that is all or nothing. The limits themselves are given to the backend one
  by one: when the buckets stay the same, exactly the limits that differ are applied to the
  installed backend, in the order of the configuration, and a call that raises has applied
  those before the one that raised, which stay applied.
\<close>

theorem quota_change_installs:
  fixes W :: "('b, 'w) outside"
  assumes "\<And>q. undisturbed W (about (paired fam b q))" "paired fam b (Some old) (fst s)"
    "get_model_family cfg = Inr fam"
    "changes = filter (\<lambda>(k, v). map_of old k \<noteq> Some v) (quotas_snapshot cfg)"
  shows "wp (sync_backend_quotas W cfg own)
    (\<lambda>b' t. (\<exists>q. paired fam b' (Some q) (fst t) \<and> dict_eq q (quotas_snapshot cfg)) \<and>
       (set (dict_keys (quotas_snapshot cfg)) = set (dict_keys old) \<and> \<not> dict_eq (quotas_snapshot cfg) old \<longrightarrow>
          b' = b \<and> op_for_each changes (\<lambda>((metric, p), v). bk_apply_configured W b metric p v) (snd s) = (Inr (), snd t)))
    (\<lambda>_ t. paired fam b (Some old) (fst t) \<and>
       (set (dict_keys (quotas_snapshot cfg)) = set (dict_keys old) \<longrightarrow>
          (\<exists>xs metric p v ys w e. changes = xs @ ((metric, p), v) # ys \<and>
             op_for_each xs (\<lambda>((metric, p), v). bk_apply_configured W b metric p v) (snd s) = (Inr (), w) \<and>
             bk_apply_configured W b metric p v w = (Inl e, snd t)))) s"
proof (cases "set (dict_keys (quotas_snapshot cfg)) = set (dict_keys old)")
  case True
  show ?thesis
    by (rule wp_mono [OF wp_conj [OF sync_quotas_paired [OF assms(1-3)] sync_quotas_applies [OF assms(2,3) True assms(4)]]])
       (auto simp: apply_limit_def)
next
  case False
  then show ?thesis using sync_quotas_paired [OF assms(1-3)] by simp
qed

text \<open>Raising the limit from 60 to 90 per minute.\<close>

definition raised_cfg :: per_model_config where
  "raised_cfg = \<lparr>cfg_quotas = \<lparr>uq_frozen = True, uq_metrics = [([109], [(60, demo_quota\<lparr>q_limit := Fin 90\<rparr>)])]\<rparr>,
     cfg_model_family = Some [102]\<rparr>"

theorem quota_change_installs_witness:
  "wp (sync_backend_quotas demo_outside raised_cfg None)
    (\<lambda>b t. b = 0 \<and> bk_apply_configured demo_outside 0 [109] 60 (Fin 90) demo_world = (Inr (), snd t))
    (\<lambda>_ t. paired [102] 0 (Some [(([109], 60), Fin 60)]) (fst t) \<and>
       (\<exists>e. bk_apply_configured demo_outside 0 [109] 60 (Fin 90) demo_world = (Inl e, snd t)))
    (demo_limiter, demo_world)"
proof -
  let ?old = "[(([109], 60), Fin 60)]"
  have p: "paired [102] 0 (Some ?old) (fst (demo_limiter, demo_world))" by (simp add: paired_def)
  have fam: "get_model_family raised_cfg = Inr [102]" by (simp add: get_model_family_def raised_cfg_def)
  have new: "quotas_snapshot raised_cfg = [(([109], 60), Fin 90)]"
    by (simp add: quotas_snapshot_def raised_cfg_def uq_iter_def demo_quota_def)
  have ch: "[(([109], 60), Fin 90)] = filter (\<lambda>(k, v). map_of ?old k \<noteq> Some v) (quotas_snapshot raised_cfg)"
    by (simp add: new)
  have u: "undisturbed demo_outside (about (paired [102] 0 q))" for q by (simp add: undisturbed_quiet)
  show ?thesis
    by (rule wp_mono [OF quota_change_installs [OF u p fam ch]])
       (auto simp: new dict_keys_def dict_eq_def op_bind_def Cons_eq_append_conv split: prod.splits sum.splits)
qed

text \<open>
  What a limiter asks a backend to refund after a quota change has a shape the backends accept:
  the scope is part of the backend's buckets, empty exactly when the refund is reported as
  dropped, and both usages name exactly the metrics of the scope.
\<close>

theorem projected_refund_accepted:
  assumes "validate_usage_mapping ud (raw_of_usage reserved) ks = Inr ()"
    "validate_usage_mapping ud (raw_of_usage actual) ks = Inr ()" "finite active"
    "\<And>b. b \<in> active \<Longrightarrow> validate_usage_item ud (fst b, VFloat (Fin 0)) () = Inr ()"
    "project_refund_scope reserved actual ids (Some active) = (reserved', actual', ids', dropped)"
    "ids = None \<Longrightarrow> active \<noteq> {}"
  shows "\<exists>scope. ids' = Some scope \<and> scope \<subseteq> active \<and> (dropped \<longleftrightarrow> scope = {}) \<and>
    validate_backend_refund_usage_for_bucket_ids ud (raw_of_usage reserved') (raw_of_usage actual') scope active = Inr ()"
  by (rule projected_refund_valid [OF assms])

text \<open>A reservation of two metrics, one of which the family has no more.\<close>

theorem projected_refund_accepted_witness:
  "\<exists>scope. Some {([109] :: pystr, 60 :: int)} = Some scope \<and> scope \<subseteq> {([109], 60)} \<and> (False = (scope = {})) \<and>
    validate_backend_refund_usage_for_bucket_ids demo_udb (raw_of_usage [([109], Fin 5)]) (raw_of_usage [([109], Fin 2)])
      scope {([109], 60)} = Inr ()"
proof (rule projected_refund_accepted [where ks = "{[109], [102]}" and reserved = "[([109], Fin 5), ([102], Fin 3)]"
    and actual = "[([109], Fin 2), ([102], Fin 1)]" and ids = "Some {([109], 60), ([102], 60)}"])
  have segment: "validate_segment_str demo_udb [102] ''metric'' None = Inr [102]"
    by (simp add: validate_segment_str_Inr demo_clean segment_limit_def default_max_length_for_field_def
        MAX_METRIC_LENGTH_def)
  have item: "validate_usage_item demo_udb ([109], VFloat (Fin q)) () = Inr ()"
    "validate_usage_item demo_udb ([102], VFloat (Fin q)) () = Inr ()" if "0 \<le> q" for q
    using that by (simp_all add: validate_usage_item_def validate_key_segment_req_def validate_key_segment_def
        demo_segment segment coerce_usage_value_def type_tests)
  show "validate_usage_mapping demo_udb (raw_of_usage [([109], Fin 5), ([102], Fin 3)]) {[109], [102]} = Inr ()"
    "validate_usage_mapping demo_udb (raw_of_usage [([109], Fin 2), ([102], Fin 1)]) {[109], [102]} = Inr ()"
    by (auto simp: mapping_valid_iff raw_of_usage_def dict_keys_def item)
  show "validate_usage_item demo_udb (fst b, VFloat (Fin 0)) () = Inr ()" if "b \<in> {([109], 60)}" for b
    using that item(1) [of 0] by simp
qed (simp_all add: project_refund_scope_def project_usage_def dict_keys_def dict_get_def)

text \<open>
  C37. A runtime override is remembered for later rebuilds exactly when the backend has it. The
  call returns when the backend took the maximum, and then it is remembered. When the backend
  raised, the call raises, and the override is remembered if and only if the backend, asked in
  the state its failed call left, reports a maximum that is the wanted one within a relative
  difference of 1e-12. Remembering sets this override and the family's model, nothing else; otherwise the
  limiter is unchanged.
\<close>

theorem override_remembered_if_landed:
  fixes W :: "('b, 'w) outside"
  shows "wp (set_max_capacity_transactional W b fam model k v)
    (\<lambda>_ t. bk_set_max W b (fst k) (snd k) v (snd s) = (Inr (), snd t) \<and> remembered fam model k v (fst s) (fst t))
    (\<lambda>_ t. \<exists>e w. bk_set_max W b (fst k) (snd k) v (snd s) = (Inl e, w) \<and>
       (if landed W b k v w then remembered fam model k v (fst s) (fst t) else fst t = fst s)) s"
  by (rule set_max_capacity_remembers)

text \<open>A backend that raises after it has taken the new maximum.\<close>

definition late_outside :: "(nat, mem_world) outside" where
  "late_outside = demo_outside\<lparr>bk_set_max := (\<lambda>b m p v. op_raise (Plain (RuntimeError ''late''))),
     bk_runtime_max := (\<lambda>b. Some (\<lambda>m p. op_return (VFloat (Fin 90))))\<rparr>"

theorem override_remembered_if_landed_witness:
  "\<exists>e t. set_max_capacity_transactional late_outside 0 [102] [103] ([109], 60) (Fin 90)
       (demo_limiter, demo_world) = (Inl e, t) \<and> override_of [102] ([109], 60) (fst t) = Some (Fin 90)"
proof -
  have close: "isclose (flit (1 / 1000000000000)) (Fin 90) (Fin 90)" by (simp add: isclose_def)
  have called: "bk_set_max late_outside 0 [109] 60 (Fin 90) demo_world = (Inl (Plain (RuntimeError ''late'')), demo_world)"
    by (simp add: late_outside_def op_raise_def)
  have "landed late_outside 0 ([109], 60) (Fin 90) demo_world"
    by (rule landedI [of _ _ "\<lambda>m p. op_return (VFloat (Fin 90))" _ _ "VFloat (Fin 90)" _ "Fin 90"])
       (simp_all add: late_outside_def op_return_def close)
  then have "wp (set_max_capacity_transactional late_outside 0 [102] [103] ([109], 60) (Fin 90)) (\<lambda>_ _. False)
      (\<lambda>_ t. remembered [102] [103] ([109], 60) (Fin 90) demo_limiter (fst t)) (demo_limiter, demo_world)"
    using override_remembered_if_landed [of late_outside 0 "[102]" "[103]" "([109], 60)" "Fin 90" "(demo_limiter, demo_world)"]
    by (rule_tac wp_mono) (simp_all add: called)
  then show ?thesis by (auto simp: wp_def remembered_def split: prod.splits sum.splits)
qed

text \<open>
  Eviction spares a family that a reservation in flight belongs to: everything the limiter
  knows of it stays, and so do the books of reservations.
\<close>

theorem eviction_spares_in_flight:
  assumes "clear_unused_model_families W v s = (Inr n, t)" "map_of (l_in_flight_family (fst s)) rid = Some fam"
  shows "known fam (fst t) = known fam (fst s) \<and> map_of (l_in_flight_family (fst t)) rid = Some fam"
  by (rule clear_unused_spares [OF assms])

theorem eviction_spares_in_flight_witness:
  "\<exists>n t. clear_unused_model_families demo_outside (VInt 0) (demo_limiter, demo_world) = (Inr n, t) \<and>
     known [102] (fst t) = known [102] demo_limiter \<and> map_of (l_in_flight_family (fst t)) [114] = Some [102]"
proof -
  have "wp (clear_unused_model_families demo_outside (VInt 0)) (\<lambda>_ _. True) (\<lambda>_ _. False) (demo_limiter, demo_world)"
    by (simp add: clear_unused_model_families_def wp_simps wp_entry float_of_int_def)
  then obtain n t where "clear_unused_model_families demo_outside (VInt 0) (demo_limiter, demo_world) = (Inr n, t)"
    by (auto simp: wp_def split: prod.splits sum.splits)
  with eviction_spares_in_flight [OF this, of "[114]" "[102]"] show ?thesis by simp
qed

section \<open>The limiter and the in-process backend\<close>

text \<open>
  The other threads, as far as one reservation needs it: they leave the family's backend where
  it is, and neither acquire nor refund the reservation.
\<close>

definition minds_own :: "pystr \<Rightarrow> pystr \<Rightarrow> (nat limiter \<times> mem_world \<Rightarrow> nat limiter \<times> mem_world) \<Rightarrow> bool" where
  "minds_own rid fam interference \<longleftrightarrow>
     (\<forall>s. map_of (l_backends (fst (interference s))) fam = map_of (l_backends (fst s)) fam \<and>
        (\<forall>i. memory_live i rid (snd (interference s)) = memory_live i rid (snd s)))"

lemma minds_own_calm:
  assumes "minds_own rid fam interference"
  shows "memory.calm ud pd sleep_interval cfgs ids interference rid fam"
proof -
  have "others (memory_outside ud pd sleep_interval cfgs ids interference) = interference"
    by (simp add: memory_outside_def)
  then show ?thesis using assms
    by (simp add: memory.calm_def undisturbed_def memory.backed_def memory.lives_def minds_own_def)
qed

lemma demo_public_refund_returns:
  "wp (limiter_refund_capacity demo_outside [([109], VInt 2)] demo_reservation)
     (\<lambda>_ t. mw_backends (snd t) = [demo_refunded]) (\<lambda>_ _. False) (demo_limiter, demo_world)"
proof -
  have found: "wp (reservation_to_refund demo_outside demo_reservation)
      (\<lambda>found t. found = Some demo_reservation \<and> t = (demo_limiter, demo_world)) (\<lambda>_ _. False) (demo_limiter, demo_world)"
    by (simp add: reservation_to_refund_def wp_entry raise_if_closed_def authoritative_reservation_for_refund_def
        verify_reservation_bound_to_limiter_def guard_def raise_if_reservation_expired_def wp_simps)
       (simp add: demo_reservation_def demo_limiter_def add_in_flight_def fresh_limiter_def)
  have valid: "validate_refund_usage demo_udb [([109], VInt 2)] (set (dict_keys (r_usage demo_reservation))) = Inr ()"
    by (simp add: validate_refund_usage_def validate_usage_mapping_def dict_keys_def demo_reservation_def
        validate_usage_item_def validate_key_segment_req_def validate_key_segment_def demo_segment
        coerce_usage_value_def type_tests float_of_int_def)
  show ?thesis
    unfolding limiter_refund_capacity_def wp_bind
    by (rule wp_mono [OF found]) (auto simp: wp_seq wp_lift_result valid demo_refund_returns)
qed

text \<open>
  C21. Over the in-process backend the limiter's book and the backend's ledger agree: after an
  acquisition that returned, the ledger of the family's backend has the reservation live.
\<close>

theorem acquired_in_ledger:
  assumes "minds_own (r_id r) fam interference" "get_model_family cfg = Inr fam"
  shows "wp (acquire_reservation (memory_outside ud pd sleep_interval cfgs ids interference) model u cfg block timeout q r)
    (\<lambda>r' t. r_id r' = r_id r \<and>
       (\<exists>i. map_of (l_backends (fst t)) fam = Some i \<and> memory_live i (r_id r) (snd t))) (\<lambda>_ _. True) s"
  using memory.acquire_reservation_held [OF minds_own_calm [OF assms(1)] assms(2)]
  by (simp add: memory.held_def memory.lives_def memory.backed_def)

theorem acquired_in_ledger_witness:
  "\<exists>t. acquire_reservation demo_outside [103] [([109], Fin 3)] demo_cfg True None None demo_new
       (demo_limiter, demo_world) = (Inr (demo_new\<lparr>r_created_at := Some (Fin 100)\<rparr>), t) \<and>
     (\<exists>i. map_of (l_backends (fst t)) [102] = Some i \<and> memory_live i [110] (snd t))"
proof -
  have id: "r_id demo_new = [110]" by (simp add: demo_new_def)
  have fam: "get_model_family demo_cfg = Inr [102]" by (simp add: get_model_family_def demo_cfg_def)
  have own: "minds_own (r_id demo_new) [102] id" by (simp add: minds_own_def)
  have "wp (acquire_reservation demo_outside [103] [([109], Fin 3)] demo_cfg True None None demo_new)
    (\<lambda>r' t. r_id r' = r_id demo_new \<and>
       (\<exists>i. map_of (l_backends (fst t)) [102] = Some i \<and> memory_live i (r_id demo_new) (snd t)))
    (\<lambda>_ _. True) (demo_limiter, demo_world)"
    unfolding demo_outside_def by (rule acquired_in_ledger [OF own fam])
  from wp_conj [OF this demo_acquire_returns] show ?thesis
    unfolding id by (auto simp: wp_def split: prod.splits sum.splits)
qed

text \<open>
  C22. After a refund of a reservation in flight that returned, the ledger of the family's backend
  has the reservation no more.
\<close>

theorem refunded_in_ledger:
  assumes "minds_own (r_id r) (r_model_family r) interference"
    "map_of (l_snapshots (fst s)) (r_id r) = Some r" "\<not> r_is_unlimited r"
  shows "wp (limiter_refund_capacity (memory_outside ud pd sleep_interval cfgs ids interference) actual r)
    (\<lambda>_ t. \<exists>i. map_of (l_backends (fst t)) (r_model_family r) = Some i \<and> \<not> memory_live i (r_id r) (snd t))
    (\<lambda>_ _. True) s"
  using memory.public_refund_freed [OF minds_own_calm [OF assms(1)] assms(2,3)]
  by (simp add: memory.freed_def [abs_def] memory.lives_def memory.backed_def)

theorem refunded_in_ledger_witness:
  "\<exists>t. limiter_refund_capacity demo_outside [([109], VInt 2)] demo_reservation (demo_limiter, demo_world) = (Inr (), t) \<and>
     mw_backends (snd t) = [demo_refunded] \<and>
     (\<exists>i. map_of (l_backends (fst t)) [102] = Some i \<and> \<not> memory_live i [114] (snd t))"
proof -
  have r: "r_id demo_reservation = [114]" "r_model_family demo_reservation = [102]" "\<not> r_is_unlimited demo_reservation"
    by (simp_all add: demo_reservation_def)
  have own: "minds_own (r_id demo_reservation) (r_model_family demo_reservation) id" by (simp add: minds_own_def)
  have "wp (limiter_refund_capacity demo_outside [([109], VInt 2)] demo_reservation)
    (\<lambda>_ t. \<exists>i. map_of (l_backends (fst t)) (r_model_family demo_reservation) = Some i \<and>
       \<not> memory_live i (r_id demo_reservation) (snd t)) (\<lambda>_ _. True) (demo_limiter, demo_world)"
    unfolding demo_outside_def by (rule refunded_in_ledger [OF own]) (simp_all add: r)
  from wp_conj [OF this demo_public_refund_returns] show ?thesis
    unfolding r by (auto simp: wp_def split: prod.splits sum.splits)
qed

end
