(* ===== verification/RedisServer.thy ===== *)
theory RedisServer
  imports Effects
begin

text \<open>
  What the Redis backend relies on of a Redis server: the commands of its Lua scripts, as a
  record of functions on a server state that is never looked into, with the documented
  behaviour of \<^verbatim>\<open>GET\<close>, \<^verbatim>\<open>PTTL\<close>, \<^verbatim>\<open>SET\<close>, \<^verbatim>\<open>PEXPIRE\<close> and \<^verbatim>\<open>DEL\<close> as the assumptions of a locale. A
  server may refuse a command with an error reply (\<open>None\<close>) whenever it likes: no memory,
  read-only replica, no permission. A script runs atomically, with its clock stopped.
\<close>

type_synonym bytes = "nat list"

record 's server =
  sv_get :: "pystr \<Rightarrow> 's \<Rightarrow> bytes option"
  sv_pttl :: "pystr \<Rightarrow> 's \<Rightarrow> int"
  sv_set :: "pystr \<Rightarrow> bytes \<Rightarrow> int option \<Rightarrow> 's \<Rightarrow> 's option"
  sv_pexpire :: "pystr \<Rightarrow> int \<Rightarrow> 's \<Rightarrow> 's option"
  sv_del :: "pystr \<Rightarrow> 's \<Rightarrow> 's option"

text \<open>
  \<open>sv_set k v px\<close> is \<^verbatim>\<open>SET k v\<close>, with \<^verbatim>\<open>PX ms\<close> where \<open>px\<close> is \<open>Some ms\<close> (\<^verbatim>\<open>EX s\<close> is \<^verbatim>\<open>PX 1000*s\<close>);
  \<^verbatim>\<open>PTTL\<close> is -2 for an absent key and -1 for one that never expires.
\<close>

locale redis_server =
  fixes R :: "'s server"
  assumes set_get: "sv_set R k v px s = Some t \<Longrightarrow> sv_get R j t = (if j = k then Some v else sv_get R j s)"
    and set_pttl: "sv_set R k v px s = Some t \<Longrightarrow>
      sv_pttl R j t = (if j = k then (case px of None \<Rightarrow> - 1 | Some p \<Rightarrow> p) else sv_pttl R j s)"
    and set_positive: "sv_set R k v (Some p) s = Some t \<Longrightarrow> 0 < p"
    and del_get: "sv_del R k s = Some t \<Longrightarrow> sv_get R j t = (if j = k then None else sv_get R j s)"
    and del_pttl: "sv_del R k s = Some t \<Longrightarrow> sv_pttl R j t = (if j = k then - 2 else sv_pttl R j s)"
    and pexpire_get: "sv_pexpire R k p s = Some t \<Longrightarrow> 0 < p \<Longrightarrow> sv_get R j t = sv_get R j s"
    and pexpire_pttl: "sv_pexpire R k p s = Some t \<Longrightarrow> 0 < p \<Longrightarrow>
      sv_pttl R j t = (if j = k \<and> sv_get R k s \<noteq> None then p else sv_pttl R j s)"
    and pttl_absent: "sv_pttl R k s = - 2 \<longleftrightarrow> sv_get R k s = None"
    and pttl_range: "- 2 \<le> sv_pttl R k s"

text \<open>
  A server whose refusals depend on the key alone, as access rights to keys do: a key it let a
  script write it lets the script restore. A server that runs out of memory between a write and its
  roll-back, or that permits \<^verbatim>\<open>SET\<close> but not \<^verbatim>\<open>DEL\<close>, is not one.
\<close>

locale redis_server_by_key = redis_server R for R :: "'s server" +
  assumes set_again: "sv_set R k v px s = Some t \<Longrightarrow> px' = None \<or> (\<exists>p. px' = Some p \<and> 0 < p) \<Longrightarrow>
      sv_set R k v' px' u \<noteq> None"
    and del_after_set: "sv_set R k v px s = Some t \<Longrightarrow> sv_del R k u \<noteq> None"

text \<open>Two states hold the same data for a key; a key in its last millisecond may have gone.\<close>

definition same_key :: "'s server \<Rightarrow> pystr \<Rightarrow> 's \<Rightarrow> 's \<Rightarrow> bool" where
  "same_key R k s t \<longleftrightarrow> sv_get R k t = sv_get R k s \<and> sv_pttl R k t = sv_pttl R k s"

definition kept_key :: "'s server \<Rightarrow> pystr \<Rightarrow> 's \<Rightarrow> 's \<Rightarrow> bool" where
  "kept_key R k s t \<longleftrightarrow> same_key R k s t \<or> sv_pttl R k s = 0 \<and> sv_get R k t = None"

lemma same_key_refl [simp]: "same_key R k s s"
  by (simp add: same_key_def)

lemma same_key_trans: "same_key R k s t \<Longrightarrow> same_key R k t u \<Longrightarrow> same_key R k s u"
  by (simp add: same_key_def)

lemma kept_key_refl [simp]: "kept_key R k s s"
  by (simp add: kept_key_def)

lemma same_kept: "same_key R k s t \<Longrightarrow> kept_key R k t u \<Longrightarrow> kept_key R k s u"
  by (auto simp: same_key_def kept_key_def)

lemma kept_same: "kept_key R k s t \<Longrightarrow> same_key R k t u \<Longrightarrow> kept_key R k s u"
  by (auto simp: same_key_def kept_key_def)

section \<open>A reference server\<close>

text \<open>
  The documented semantics in its simplest form, on which the contracts are interpreted and
  concrete runs are evaluated: live keys with value and remaining lifetime, and the keys
  the client may not write.
\<close>

type_synonym store = "(pystr, bytes \<times> int option) dict"

definition reference_server :: "pystr list \<Rightarrow> store server" where
  "reference_server refused =
     \<lparr>sv_get = (\<lambda>k s. map_option fst (map_of s k)),
      sv_pttl = (\<lambda>k s. case map_of s k of None \<Rightarrow> - 2 | Some (_, None) \<Rightarrow> - 1 | Some (_, Some p) \<Rightarrow> max 0 p),
      sv_set = (\<lambda>k v px s. if k \<in> set refused \<or> (case px of None \<Rightarrow> False | Some p \<Rightarrow> p \<le> 0)
                then None else Some (dict_set k (v, px) s)),
      sv_pexpire = (\<lambda>k p s. if k \<in> set refused then None
                else Some (if p \<le> 0 then dict_pop k s
                  else case map_of s k of None \<Rightarrow> s | Some (v, _) \<Rightarrow> dict_set k (v, Some p) s)),
      sv_del = (\<lambda>k s. if k \<in> set refused then None else Some (dict_pop k s))\<rparr>"

lemma map_of_dict_pop_cases: "map_of (dict_pop k d) j = (if j = k then None else map_of d j)"
  by (induction d) (auto simp: dict_pop_def)

interpretation reference: redis_server_by_key "reference_server refused" for refused
proof
  fix k :: pystr and v :: bytes and px and s t :: store and j :: pystr
  assume a: "sv_set (reference_server refused) k v px s = Some t"
  then show "sv_get (reference_server refused) j t =
      (if j = k then Some v else sv_get (reference_server refused) j s)"
    by (auto simp: reference_server_def split: if_splits)
  from a show "sv_pttl (reference_server refused) j t =
      (if j = k then (case px of None \<Rightarrow> - 1 | Some p \<Rightarrow> p) else sv_pttl (reference_server refused) j s)"
    by (auto simp: reference_server_def split: if_splits option.splits)
next
  fix k :: pystr and v :: bytes and p and s t :: store
  assume "sv_set (reference_server refused) k v (Some p) s = Some t"
  then show "0 < p" by (auto simp: reference_server_def split: if_splits)
next
  fix k :: pystr and s t :: store and j :: pystr
  assume a: "sv_del (reference_server refused) k s = Some t"
  then show "sv_get (reference_server refused) j t =
      (if j = k then None else sv_get (reference_server refused) j s)"
    by (auto simp: reference_server_def map_of_dict_pop_cases split: if_splits)
  from a show "sv_pttl (reference_server refused) j t =
      (if j = k then - 2 else sv_pttl (reference_server refused) j s)"
    by (auto simp: reference_server_def map_of_dict_pop_cases split: if_splits)
next
  fix k :: pystr and s t :: store and j :: pystr and p :: int
  assume a: "sv_pexpire (reference_server refused) k p s = Some t" "0 < p"
  then show "sv_get (reference_server refused) j t = sv_get (reference_server refused) j s"
    by (auto simp: reference_server_def split: if_splits option.splits)
  from a show "sv_pttl (reference_server refused) j t =
      (if j = k \<and> sv_get (reference_server refused) k s \<noteq> None then p
       else sv_pttl (reference_server refused) j s)"
    by (auto simp: reference_server_def split: if_splits option.splits)
next
  fix k :: pystr and s :: store
  show "sv_pttl (reference_server refused) k s = - 2 \<longleftrightarrow> sv_get (reference_server refused) k s = None"
    by (auto simp: reference_server_def split: option.split)
  show "- 2 \<le> sv_pttl (reference_server refused) k s"
    by (auto simp: reference_server_def split: option.split)
next
  fix k :: pystr and v v' :: bytes and px px' and s t u :: store
  assume a: "sv_set (reference_server refused) k v px s = Some t"
  then show "px' = None \<or> (\<exists>p. px' = Some p \<and> 0 < p) \<Longrightarrow>
      sv_set (reference_server refused) k v' px' u \<noteq> None"
    by (auto simp: reference_server_def split: if_splits)
  from a show "sv_del (reference_server refused) k u \<noteq> None"
    by (auto simp: reference_server_def split: if_splits)
qed

end
