(* ===== verification/RedisKeys.thy ===== *)
theory RedisKeys
  imports RedisServer Validation MemoryBucket SqliteTtl
begin

text \<open>
  \<^verbatim>\<open>_redis/_keys.py\<close> and \<^verbatim>\<open>_redis/_ttl.py\<close>: the keys of a deployment, the value of an
  acquisition marker, and the time-to-live settings. Keys are segments without a colon joined
  by colons, so keys of different kinds, buckets or reservations are different.
\<close>

section \<open>Keys\<close>

fun join_colon :: "pystr list \<Rightarrow> pystr" where
  "join_colon [] = []"
| "join_colon [s] = s"
| "join_colon (s # t # ss) = s @ 58 # join_colon (t # ss)"

definition redis_namespace_key :: "unicode_db \<Rightarrow> pystr \<Rightarrow> pystr list \<Rightarrow> pystr result" where
  "redis_namespace_key udb key_prefix segments =
     bind_res (validate_key_prefix udb (VStr key_prefix)) (\<lambda>p.
       validate_total_key_length (join_colon (p # ps ''rate_limiting'' # segments)))"

definition redis_key_with_suffix :: "pystr \<Rightarrow> pystr list \<Rightarrow> pystr result" where
  "redis_key_with_suffix key suffixes = validate_total_key_length (join_colon (key # suffixes))"

definition redis_refund_dedup_key :: "unicode_db \<Rightarrow> pystr \<Rightarrow> pystr \<Rightarrow> pystr result" where
  "redis_refund_dedup_key udb key_prefix reservation_id =
     bind_res (validate_reservation_id udb (VStr reservation_id)) (\<lambda>i.
       redis_namespace_key udb key_prefix [ps ''refund_dedup'', i])"

definition redis_acquired_marker_key :: "unicode_db \<Rightarrow> pystr \<Rightarrow> pystr \<Rightarrow> pystr result" where
  "redis_acquired_marker_key udb key_prefix reservation_id =
     bind_res (validate_reservation_id udb (VStr reservation_id)) (\<lambda>i.
       redis_namespace_key udb key_prefix [ps ''acquired'', i])"

text \<open>The keys without their validation: what they are for validated segments.\<close>

definition marker_key :: "pystr \<Rightarrow> pystr \<Rightarrow> pystr" where
  "marker_key p i = join_colon [p, ps ''rate_limiting'', ps ''acquired'', i]"

definition tombstone_key :: "pystr \<Rightarrow> pystr \<Rightarrow> pystr" where
  "tombstone_key p i = join_colon [p, ps ''rate_limiting'', ps ''refund_dedup'', i]"

definition bucket_key :: "pystr \<Rightarrow> pystr \<Rightarrow> bucket_id \<Rightarrow> pystr" where
  "bucket_key p family k =
     join_colon [p, ps ''rate_limiting'', ps ''bucket'', family, fst k, show_int (snd k)]"

section \<open>The acquisition marker\<close>

text \<open>
  How values travel: \<open>cd_float\<close> is how the client encodes a float argument, \<open>cd_dumps\<close> is
  \<^verbatim>\<open>json.dumps\<close> with sorted keys, encoded; \<open>cd_reply\<close> is what the client returns for a stored
  value (\<^verbatim>\<open>bytes\<close>, or \<^verbatim>\<open>str\<close> where it decodes), \<open>cd_decode\<close> is \<^verbatim>\<open>bytes.decode()\<close> and
  \<open>cd_loads\<close> is \<^verbatim>\<open>json.loads\<close>, \<open>None\<close> where they raise.
\<close>

record codec =
  cd_float :: "pyfloat \<Rightarrow> bytes"
  cd_dumps :: "pyval \<Rightarrow> bytes"
  cd_reply :: "bytes \<Rightarrow> pyval"
  cd_decode :: "bytes \<Rightarrow> pystr option"
  cd_loads :: "pyval \<Rightarrow> pyval option"

definition ACQUIRED_MARKER_VERSION :: int where "ACQUIRED_MARKER_VERSION = 3"

definition marker_usage :: "usage \<Rightarrow> pyval result" where
  "marker_usage u =
     bind_res (guard (list_all (\<lambda>m. case map_of u m of None \<Rightarrow> True
           | Some a \<Rightarrow> isfinite a \<and> \<not> flt a (Fin 0)) (sort (map fst u)))
         (ValueError ''Reserved usage value must be finite and non-negative''))
       (\<lambda>_. Inr (VList (map (\<lambda>m. VList [VStr m, VFloat (dict_get u m (Fin 0))]) (sort (map fst u)))))"

definition redis_acquired_marker_value ::
  "unicode_db \<Rightarrow> codec \<Rightarrow> pystr \<Rightarrow> pystr \<Rightarrow> bucket_id set \<Rightarrow> usage \<Rightarrow> bytes result" where
  "redis_acquired_marker_value udb C reservation_id model_family bucket_ids u =
     bind_res (validate_reservation_id udb (VStr reservation_id)) (\<lambda>i.
     bind_res (marker_usage u) (\<lambda>normalized.
       Inr (cd_dumps C (VDict
         [(VStr (ps ''v''), VInt ACQUIRED_MARKER_VERSION),
          (VStr (ps ''reservation_id''), VStr i),
          (VStr (ps ''model_family''), VStr model_family),
          (VStr (ps ''buckets''), VList (map (\<lambda>(m, p). VList [VStr m, VInt p]) (sorted_list_of_set bucket_ids))),
          (VStr (ps ''usage''), normalized)]))))"

section \<open>Time-to-live settings\<close>

definition validate_redis_ttl_seconds :: "pyval \<Rightarrow> int result" where
  "validate_redis_ttl_seconds value = (case value of
      VInt i \<Rightarrow>
        if i \<le> 0 then Inl (ValueError ''must be greater than 0'')
        else if 2 ^ 31 - 1 < i then Inl (ValueError ''choose a smaller Redis TTL'')
        else Inr i
    | _ \<Rightarrow> Inl (TypeError ''must be an exact int number of seconds''))"

definition validate_redis_lifetime :: "pyval \<Rightarrow> pyfloat option result" where
  "validate_redis_lifetime value =
     (if value = VNone then Inr None
      else if is_bool_like value \<or> \<not> isinstance_int_float value
        then Inl (ValueError ''max_reservation_lifetime_seconds must be finite and greater than 0'')
      else bind_res (py_float value) (\<lambda>f.
        if \<not> isfinite f \<or> fle f (Fin 0)
          then Inl (ValueError ''max_reservation_lifetime_seconds must be finite and greater than 0'')
        else if flt (Fin (of_int (2 ^ 31 - 1))) f
          then Inl (ValueError ''max_reservation_lifetime_seconds must be <='')
        else Inr (Some f)))"

definition validate_redis_margin :: "pyval \<Rightarrow> pyfloat result" where
  "validate_redis_margin value =
     (if is_bool_like value \<or> \<not> isinstance_int_float value
        then Inl (ValueError ''safety_margin must be greater than 1'')
      else bind_res (py_float value) (\<lambda>f.
        if \<not> isfinite f \<or> fle f (Fin 1)
          then Inl (ValueError ''safety_margin must be greater than 1'') else Inr f))"

text \<open>A TTL that is \<^verbatim>\<open>None\<close> is left out of the dictionary of finite ones.\<close>

definition finite_ttl :: "pyval \<Rightarrow> int list result" where
  "finite_ttl v = (if v = VNone then Inr [] else bind_res (validate_redis_ttl_seconds v) (\<lambda>i. Inr [i]))"

definition finite_ttls_by_name :: "pyval \<Rightarrow> pyval \<Rightarrow> int list result" where
  "finite_ttls_by_name bucket_ttl refund_ttl =
     bind_res (finite_ttl bucket_ttl) (\<lambda>b. bind_res (finite_ttl refund_ttl) (\<lambda>r. Inr (b @ r)))"

definition derive_redis_lifetime :: "pyval \<Rightarrow> pyval \<Rightarrow> pyval \<Rightarrow> pyfloat option result" where
  "derive_redis_lifetime bucket_ttl refund_ttl safety_margin =
     bind_res (validate_redis_margin safety_margin) (\<lambda>margin.
     bind_res (finite_ttls_by_name bucket_ttl refund_ttl) (\<lambda>ttls.
       if ttls = [] then Inr None
       else bind_res (float_of_int (Min (set ttls))) (\<lambda>m.
            bind_res (fdiv m margin) (\<lambda>q. Inr (Some (nextafter_zero q))))))"

definition redis_lifetime_invariant :: "pyval \<Rightarrow> pyval \<Rightarrow> pyval \<Rightarrow> pyval \<Rightarrow> unit result" where
  "redis_lifetime_invariant lifetime bucket_ttl refund_ttl safety_margin =
     bind_res (validate_redis_lifetime lifetime) (\<lambda>l. case l of
       None \<Rightarrow> Inr ()
     | Some max_lifetime \<Rightarrow>
       bind_res (validate_redis_margin safety_margin) (\<lambda>margin.
       bind_res (finite_ttls_by_name bucket_ttl refund_ttl) (\<lambda>ttls.
       for_each ttls (\<lambda>ttl _. bind_res (float_of_int ttl) (\<lambda>t.
         guard (\<not> fle t (fmul max_lifetime margin)) (ValueError ''Redis TTLs must exceed''))) ())))"

definition resolve_redis_lifetime :: "pyval \<Rightarrow> pyval \<Rightarrow> pyval \<Rightarrow> pyval \<Rightarrow> pyfloat option result" where
  "resolve_redis_lifetime lifetime bucket_ttl refund_ttl safety_margin =
     bind_res (validate_redis_lifetime lifetime) (\<lambda>l. case l of
       None \<Rightarrow> derive_redis_lifetime bucket_ttl refund_ttl safety_margin
     | Some max_lifetime \<Rightarrow>
       bind_res (redis_lifetime_invariant (VFloat max_lifetime) bucket_ttl refund_ttl safety_margin)
         (\<lambda>_. Inr (Some max_lifetime)))"

definition redis_ttl_covers_quota_windows :: "int \<Rightarrow> quota list \<Rightarrow> unit result" where
  "redis_ttl_covers_quota_windows bucket_ttl quotas =
     guard (list_all (\<lambda>q. 2 * q_per_seconds q \<le> bucket_ttl) quotas)
       (ValueError ''bucket_ttl_seconds must be >= 2 * every per_seconds'')"

section \<open>Keys tell their kinds apart\<close>

lemma split_join:
  "list_all (\<lambda>s. 58 \<notin> set s) ss \<Longrightarrow> ss \<noteq> [] \<Longrightarrow> split_colon [] (join_colon ss) = ss"
proof (induction ss rule: join_colon.induct)
  case (2 s)
  then show ?case by (simp add: split_colon_no_colon)
next
  case (3 s t ss)
  then show ?case by (simp add: split_colon_append)
qed simp

lemma join_inject:
  "join_colon ss = join_colon ts \<Longrightarrow> list_all (\<lambda>s. 58 \<notin> set s) ss \<Longrightarrow> list_all (\<lambda>s. 58 \<notin> set s) ts \<Longrightarrow>
   ss \<noteq> [] \<Longrightarrow> ts \<noteq> [] \<Longrightarrow> ss = ts"
  using split_join by metis

lemma join_append: "ss \<noteq> [] \<Longrightarrow> join_colon (join_colon ss # ts) = join_colon (ss @ ts)"
proof (induction ss rule: join_colon.induct)
  case (2 s)
  then show ?case by simp
next
  case (3 s t ss)
  then show ?case by (cases ts) auto
qed simp

lemma segment_literals [simp]:
  "58 \<notin> set (ps ''rate_limiting'')" "58 \<notin> set (ps ''acquired'')" "58 \<notin> set (ps ''refund_dedup'')"
  "58 \<notin> set (ps ''bucket'')" "ps ''acquired'' \<noteq> ps ''refund_dedup''" "ps ''bucket'' \<noteq> ps ''acquired''"
  "ps ''bucket'' \<noteq> ps ''refund_dedup''"
  by (simp_all add: ps_def)

lemma marker_key_inj: "58 \<notin> set p \<Longrightarrow> 58 \<notin> set i \<Longrightarrow> 58 \<notin> set j \<Longrightarrow> marker_key p i = marker_key p j \<longleftrightarrow> i = j"
  using join_inject [of "[p, ps ''rate_limiting'', ps ''acquired'', i]" "[p, ps ''rate_limiting'', ps ''acquired'', j]"]
  by (auto simp: marker_key_def)

lemma marker_tombstone: "58 \<notin> set p \<Longrightarrow> 58 \<notin> set i \<Longrightarrow> 58 \<notin> set j \<Longrightarrow> marker_key p i \<noteq> tombstone_key p j"
  using join_inject [of "[p, ps ''rate_limiting'', ps ''acquired'', i]" "[p, ps ''rate_limiting'', ps ''refund_dedup'', j]"]
  by (auto simp: marker_key_def tombstone_key_def)

lemma tombstone_key_inj: "58 \<notin> set p \<Longrightarrow> 58 \<notin> set i \<Longrightarrow> 58 \<notin> set j \<Longrightarrow> tombstone_key p i = tombstone_key p j \<longleftrightarrow> i = j"
  using join_inject [of "[p, ps ''rate_limiting'', ps ''refund_dedup'', i]" "[p, ps ''rate_limiting'', ps ''refund_dedup'', j]"]
  by (auto simp: tombstone_key_def)

text \<open>The validated builders return these keys.\<close>

lemma validate_key_prefix_VStr: "validate_key_prefix udb (VStr s) = Inr p \<Longrightarrow> 58 \<notin> set p"
  by (auto simp: validate_key_prefix_def validate_segment_str_Inr dest: clean_segment_no_colon)

lemma redis_acquired_marker_key_Inr:
  assumes "redis_acquired_marker_key udb key_prefix rid = Inr k"
  obtains p i where "validate_key_prefix udb (VStr key_prefix) = Inr p" "validate_reservation_id udb (VStr rid) = Inr i"
    "k = marker_key p i"
  using assms by (auto simp: redis_acquired_marker_key_def redis_namespace_key_def marker_key_def
      validate_total_key_length_def res_simps split: if_splits)

lemma redis_refund_dedup_key_Inr:
  assumes "redis_refund_dedup_key udb key_prefix rid = Inr k"
  obtains p i where "validate_key_prefix udb (VStr key_prefix) = Inr p" "validate_reservation_id udb (VStr rid) = Inr i"
    "k = tombstone_key p i"
  using assms by (auto simp: redis_refund_dedup_key_def redis_namespace_key_def tombstone_key_def
      validate_total_key_length_def res_simps split: if_splits)

lemma validate_reservation_id_no_colon: "validate_reservation_id udb (VStr s) = Inr i \<Longrightarrow> 58 \<notin> set i"
  by (auto simp: validate_reservation_id_def validate_segment_str_Inr dest: clean_segment_no_colon)

end
