(* ===== verification/RedisExpiry.thy ===== *)
theory RedisExpiry
  imports RedisKeys
begin

text \<open>
  \<^verbatim>\<open>_redis/_override_expiry.py\<close> and the checks of replies in \<^verbatim>\<open>_redis/_sync_bucket.py\<close>: how a
  bucket's stored pair is read, and how its level accrues over the end of an override.
\<close>

section \<open>Replies\<close>

definition MAX_REDIS_GET_VALUE_BYTES :: nat where "MAX_REDIS_GET_VALUE_BYTES = 16384"

definition pipeline_result_error :: "string \<Rightarrow> exn" where
  "pipeline_result_error m = RuntimeError m"

text \<open>The length of a reply that is \<^verbatim>\<open>bytes\<close> or \<^verbatim>\<open>str\<close>.\<close>

fun text_length :: "pyval \<Rightarrow> nat option" where
  "text_length (VBytes b) = Some (length b)"
| "text_length (VStr s) = Some (length s)"
| "text_length _ = None"

definition validate_redis_get_result :: "pyval \<Rightarrow> pyval result" where
  "validate_redis_get_result v =
     (if v = VNone then Inr VNone
      else case text_length v of
        None \<Rightarrow> Inl (pipeline_result_error ''unexpected Redis GET result type'')
      | Some n \<Rightarrow> if MAX_REDIS_GET_VALUE_BYTES < n
                  then Inl (pipeline_result_error ''Redis GET value is too large'') else Inr v)"

definition validate_expire_result :: "pyval \<Rightarrow> bool result" where
  "validate_expire_result v = (case v of
      VBool b \<Rightarrow> Inr b
    | VInt i \<Rightarrow> if i = 0 \<or> i = 1 then Inr (i = 1)
                else Inl (pipeline_result_error ''unexpected Redis EXPIRE result'')
    | _ \<Rightarrow> Inl (pipeline_result_error ''unexpected Redis EXPIRE result''))"

definition is_ok_reply :: "pyval \<Rightarrow> bool" where
  "is_ok_reply v \<longleftrightarrow> v = VBool True \<or> v = VStr (ps ''OK'') \<or> v = VBytes (ps ''OK'')"

definition validate_set_result :: "pyval \<Rightarrow> unit result" where
  "validate_set_result v = guard (is_ok_reply v) (pipeline_result_error ''unexpected Redis SET result'')"

definition validate_set_nx_result :: "pyval \<Rightarrow> bool result" where
  "validate_set_nx_result v =
     (if is_ok_reply v then Inr True
      else if v = VNone \<or> v = VBool False then Inr False
      else Inl (pipeline_result_error ''unexpected Redis SET NX result''))"

definition validate_delete_result :: "pyval \<Rightarrow> int result" where
  "validate_delete_result v = (case v of
      VBool b \<Rightarrow> Inr (if b then 1 else 0)
    | VInt i \<Rightarrow> if 0 \<le> i then Inr i else Inl (pipeline_result_error ''unexpected Redis DEL result'')
    | _ \<Rightarrow> Inl (pipeline_result_error ''unexpected Redis DEL result''))"

section \<open>The stored pair\<close>

datatype state_key = LastCheckedKey | CapacityKey

definition bucket_state_missing_keys :: "pyval \<Rightarrow> pyval \<Rightarrow> state_key list" where
  "bucket_state_missing_keys last_checked capacity =
     (if last_checked = VNone then [LastCheckedKey] else []) @ (if capacity = VNone then [CapacityKey] else [])"

definition bucket_state_present_keys :: "pyval \<Rightarrow> pyval \<Rightarrow> state_key list" where
  "bucket_state_present_keys last_checked capacity =
     (if last_checked \<noteq> VNone then [LastCheckedKey] else []) @ (if capacity \<noteq> VNone then [CapacityKey] else [])"

text \<open>
  A lost half, or a loss of both that is suspicious, is read as an empty bucket at the current
  time; the texts \<^verbatim>\<open>str(current_time)\<close> and \<^verbatim>\<open>b"0.0"\<close> are kept as the floats they denote.
\<close>

definition normalize_bucket_state_pair :: "pyval \<Rightarrow> pyval \<Rightarrow> pyfloat \<Rightarrow> bool \<Rightarrow> (pyval \<times> pyval) result" where
  "normalize_bucket_state_pair last_checked_raw capacity_raw current_time drain_total_loss =
     bind_res (validate_redis_get_result last_checked_raw) (\<lambda>last_checked.
     bind_res (validate_redis_get_result capacity_raw) (\<lambda>capacity.
       let missing = bucket_state_missing_keys last_checked capacity in
       if length missing = 2 \<and> \<not> drain_total_loss then Inr (VNone, VNone)
       else if missing \<noteq> [] then Inr (VFloat current_time, VFloat (Fin 0))
       else Inr (last_checked, capacity)))"

section \<open>The override history\<close>

record override_expiry =
  oe_configured :: pyfloat
  oe_maximum :: pyfloat
  oe_expires_at :: pyfloat

text \<open>The entry of a decoded JSON object.\<close>

definition json_field :: "pyval \<Rightarrow> string \<Rightarrow> pyval option" where
  "json_field v f = (case v of VDict d \<Rightarrow> map_of d (VStr (ps f)) | _ \<Rightarrow> None)"

definition bad_history :: exn where "bad_history = ValueError ''Invalid Redis override expiry history''"

definition required_field :: "pyval \<Rightarrow> string \<Rightarrow> pyval result" where
  "required_field v f = (case json_field v f of None \<Rightarrow> Inl bad_history | Some x \<Rightarrow> Inr x)"

definition parse_expiry :: "codec \<Rightarrow> pyval \<Rightarrow> override_expiry option result" where
  "parse_expiry C raw =
     (if raw = VNone then Inr None
      else case cd_loads C raw of
        None \<Rightarrow> Inl bad_history
      | Some v \<Rightarrow>
        if json_field v ''version'' \<noteq> Some (VInt 1)
        then Inl (ValueError ''Unsupported Redis override expiry history'')
        else bind_res (required_field v ''configured'') (\<lambda>c.
          bind_res (validate_max_capacity_finite_positive c) (\<lambda>configured.
          bind_res (required_field v ''maximum'') (\<lambda>m.
          bind_res (validate_max_capacity_finite_positive m) (\<lambda>maximum.
          bind_res (required_field v ''expires_at'') (\<lambda>e.
            if \<not> (type_is_int e \<or> type_is_float e) then Inl (ValueError ''Invalid Redis override expiry boundary'')
            else case py_float e of
              Inl _ \<Rightarrow> Inl bad_history
            | Inr x \<Rightarrow>
              if \<not> isfinite x \<or> flt x (Fin 0) then Inl (ValueError ''Invalid Redis override expiry boundary'')
              else Inr (Some \<lparr>oe_configured = configured, oe_maximum = maximum, oe_expires_at = x\<rparr>)))))))"

definition expiry_payload :: "codec \<Rightarrow> pyfloat \<Rightarrow> pyfloat \<Rightarrow> pyfloat \<Rightarrow> bytes" where
  "expiry_payload C configured maximum expires_at =
     cd_dumps C (VDict
       [(VStr (ps ''version''), VInt 1), (VStr (ps ''configured''), VFloat configured),
        (VStr (ps ''maximum''), VFloat maximum), (VStr (ps ''expires_at''), VFloat expires_at)])"

definition override_payload :: "codec \<Rightarrow> pyfloat \<Rightarrow> pyfloat \<Rightarrow> bytes" where
  "override_payload C configured value =
     cd_dumps C (VDict
       [(VStr (ps ''configured_max_capacity''), VFloat configured),
        (VStr (ps ''override_max_capacity''), VFloat value)])"

section \<open>Accrual over the end of an override\<close>

definition history_applies :: "override_expiry option \<Rightarrow> pyfloat option \<Rightarrow> pyfloat \<Rightarrow> pyfloat \<Rightarrow> override_expiry option" where
  "history_applies history override configured current_time =
     (case history of None \<Rightarrow> None
      | Some h \<Rightarrow> if override \<noteq> None \<or> \<not> isclose (flit (1 / 1000000000000)) (oe_configured h) configured \<or>
                     flt current_time (oe_expires_at h)
                  then None else Some h)"

text \<open>
  \<^verbatim>\<open>math.fsum\<close> rounds the exact sum of its terms once. Where a term overflows, the code
  sums the exact products with 2048 decimal digits, which is modelled as the exact sum. Only
  the first term can be negative, so an intermediate sum overflows only if the last one does.
\<close>

fun rat_of :: "pyfloat \<Rightarrow> rat" where
  "rat_of (Fin a) = a"
| "rat_of _ = 0"

definition accrue_with_expiry ::
  "override_expiry option \<Rightarrow> pyfloat option \<Rightarrow> pyfloat \<Rightarrow> int \<Rightarrow> pyfloat \<Rightarrow> pyfloat \<Rightarrow> pyfloat \<Rightarrow> pyfloat \<Rightarrow> pyfloat result" where
  "accrue_with_expiry history override configured per_seconds last_checked current_time level rate =
     (case history_applies history override configured current_time of
        None \<Rightarrow> Inr (fadd level (fmul (fmax (Fin 0) (fsub current_time last_checked)) rate))
      | Some h \<Rightarrow>
        bind_res (float_of_int per_seconds) (\<lambda>p. bind_res (fdiv (oe_maximum h) p) (\<lambda>old_rate.
          let old_seconds = fmax (Fin 0) (fsub (oe_expires_at h) last_checked);
              new_seconds = fmax (Fin 0) (fsub current_time (fmax last_checked (oe_expires_at h)));
              old_gain = fmul old_seconds old_rate; new_gain = fmul new_seconds rate in
          if isfinite level \<and> isfinite old_gain \<and> isfinite new_gain \<and>
             isfinite (rnd (rat_of level + rat_of old_gain + rat_of new_gain))
          then Inr (rnd (rat_of level + rat_of old_gain + rat_of new_gain))
          else Inr (rnd (rat_of level + rat_of old_seconds * rat_of old_rate + rat_of new_seconds * rat_of rate)))))"

definition calculate_with_expiry ::
  "override_expiry option \<Rightarrow> pyfloat option \<Rightarrow> pyfloat \<Rightarrow> int \<Rightarrow> pyval \<Rightarrow> pyval \<Rightarrow> pyfloat \<Rightarrow> calculated_capacity result" where
  "calculate_with_expiry history override configured per_seconds last_checked outdated_capacity current_time =
     (let maximum = (case override of None \<Rightarrow> configured | Some v \<Rightarrow> v) in
      bind_res (bind_res (float_of_int per_seconds) (fdiv maximum)) (\<lambda>rate.
      bind_res (calculate_capacity last_checked outdated_capacity (VFloat current_time) (VFloat maximum) (VFloat rate))
        (\<lambda>res.
          if last_checked = VNone \<or> outdated_capacity = VNone then Inr res
          else bind_res (py_float last_checked) (\<lambda>l. bind_res (py_float outdated_capacity) (\<lambda>c.
            bind_res (accrue_with_expiry history override configured per_seconds l current_time c rate) (\<lambda>accrued.
              mk_calculated_capacity (fmin maximum accrued) False))))))"

end
