(* ===== verification/RedisScripts.thy ===== *)
theory RedisScripts
  imports RedisServer PyFloat
begin

text \<open>
  The Lua scripts of the Redis backend: acquisition and refund with their roll-back
  (\<^verbatim>\<open>_redis/_sync_backend.py\<close>), the refresh of a bucket's lifetime (\<^verbatim>\<open>_redis/_retention.py\<close>) and
  the two writes of the override history (\<^verbatim>\<open>_redis/_override_expiry.py\<close>). A script is a
  function of the server's state; its arguments have the types the client passes.
\<close>

datatype script_reply = Reply string | ErrorReply

section \<open>Snapshots and roll-back\<close>

record key_snapshot =
  sn_key :: pystr
  sn_value :: "bytes option"
  sn_pttl :: int

definition snapshot_key :: "'s server \<Rightarrow> 's \<Rightarrow> pystr \<Rightarrow> key_snapshot" where
  "snapshot_key R s k = \<lparr>sn_key = k, sn_value = sv_get R k s, sn_pttl = sv_pttl R k s\<rparr>"

text \<open>A command under \<^verbatim>\<open>redis.pcall\<close>: whether it was refused, and the state after it.\<close>

definition pcall :: "('s \<Rightarrow> 's option) \<Rightarrow> 's \<Rightarrow> bool \<times> 's" where
  "pcall c s = (case c s of None \<Rightarrow> (True, s) | Some t \<Rightarrow> (False, t))"

definition restore_key :: "'s server \<Rightarrow> key_snapshot \<Rightarrow> 's \<Rightarrow> bool \<times> 's" where
  "restore_key R sn = (case sn_value sn of
      None \<Rightarrow> pcall (sv_del R (sn_key sn))
    | Some v \<Rightarrow>
        if 0 < sn_pttl sn then pcall (sv_set R (sn_key sn) v (Some (sn_pttl sn)))
        else if sn_pttl sn = - 1 then pcall (sv_set R (sn_key sn) v None)
        else pcall (sv_del R (sn_key sn)))"

text \<open>All snapshots, the last one first; whether some restore was refused.\<close>

fun rollback :: "'s server \<Rightarrow> key_snapshot list \<Rightarrow> 's \<Rightarrow> bool \<times> 's" where
  "rollback R [] s = (False, s)"
| "rollback R (sn # sns) s =
     (case rollback R sns s of (e, t) \<Rightarrow> (case restore_key R sn t of (e', u) \<Rightarrow> (e \<or> e', u)))"

text \<open>Both outcomes of \<^verbatim>\<open>rollback_then_error\<close> are error replies.\<close>

definition rollback_then_error :: "'s server \<Rightarrow> key_snapshot list \<Rightarrow> 's \<Rightarrow> script_reply \<times> 's" where
  "rollback_then_error R sns s = (ErrorReply, snd (rollback R sns s))"

section \<open>The acquisition script\<close>

text \<open>The keys and arguments of one bucket; \<^verbatim>\<open>EX\<close> takes seconds.\<close>

record bucket_write =
  bw_last_checked_key :: pystr
  bw_capacity_key :: pystr
  bw_time :: bytes
  bw_capacity :: bytes
  bw_ttl :: int

definition write_keys :: "bucket_write list \<Rightarrow> pystr list" where
  "write_keys ws = concat (map (\<lambda>w. [bw_last_checked_key w, bw_capacity_key w]) ws)"

fun write_buckets :: "'s server \<Rightarrow> bucket_write list \<Rightarrow> 's \<Rightarrow> bool \<times> 's" where
  "write_buckets R [] s = (False, s)"
| "write_buckets R (w # ws) s =
     (case pcall (sv_set R (bw_last_checked_key w) (bw_time w) (Some (1000 * bw_ttl w))) s of
        (True, t) \<Rightarrow> (True, t)
      | (False, t) \<Rightarrow>
         (case pcall (sv_set R (bw_capacity_key w) (bw_capacity w) (Some (1000 * bw_ttl w))) t of
            (True, u) \<Rightarrow> (True, u)
          | (False, u) \<Rightarrow> write_buckets R ws u))"

text \<open>\<^verbatim>\<open>SET k v PX ms NX\<close>.\<close>

datatype nx_reply = Claimed | NotClaimed | Refused

definition set_nx :: "'s server \<Rightarrow> pystr \<Rightarrow> bytes \<Rightarrow> int \<Rightarrow> 's \<Rightarrow> nx_reply \<times> 's" where
  "set_nx R k v px s =
     (if sv_get R k s \<noteq> None then (NotClaimed, s)
      else case sv_set R k v (Some px) s of None \<Rightarrow> (Refused, s) | Some t \<Rightarrow> (Claimed, t))"

definition acquire_script ::
  "'s server \<Rightarrow> pystr \<Rightarrow> pystr \<Rightarrow> int \<Rightarrow> bytes \<Rightarrow> bucket_write list \<Rightarrow> 's \<Rightarrow> script_reply \<times> 's" where
  "acquire_script R marker_key tombstone_key px marker ws s =
     (case sv_get R marker_key s of
        Some existing \<Rightarrow> (Reply (if existing = marker then ''replayed_acquire'' else ''duplicate_acquire''), s)
      | None \<Rightarrow>
        if sv_get R tombstone_key s \<noteq> None then (Reply ''duplicate_acquire'', s)
        else let snapshots = map (snapshot_key R s) (write_keys ws) in
          (case write_buckets R ws s of
             (True, t) \<Rightarrow> rollback_then_error R snapshots t
           | (False, t) \<Rightarrow>
              (case set_nx R marker_key marker px t of
                 (Refused, u) \<Rightarrow> rollback_then_error R snapshots u
               | (NotClaimed, u) \<Rightarrow>
                  (case rollback R snapshots u of
                     (True, v) \<Rightarrow> (ErrorReply, v)
                   | (False, v) \<Rightarrow>
                      (Reply (if sv_get R marker_key v = Some marker then ''replayed_acquire''
                              else ''duplicate_acquire''), v))
               | (Claimed, u) \<Rightarrow> (Reply ''ok'', u))))"

section \<open>The refund script\<close>

definition refund_script ::
  "'s server \<Rightarrow> pystr \<Rightarrow> pystr \<Rightarrow> bytes \<Rightarrow> int \<Rightarrow> bytes \<Rightarrow> bucket_write list \<Rightarrow> 's \<Rightarrow> script_reply \<times> 's" where
  "refund_script R marker_key tombstone_key marker dedup_ttl token ws s =
     (case sv_get R marker_key s of
        None \<Rightarrow> (Reply (case sv_get R tombstone_key s of
                    Some tombstone \<Rightarrow> if tombstone = token then ''replayed_refund'' else ''duplicate_refund''
                  | None \<Rightarrow> ''unknown_reservation''), s)
      | Some existing \<Rightarrow>
        if existing \<noteq> marker then (Reply ''marker_mismatch'', s)
        else if sv_get R tombstone_key s \<noteq> None then (Reply ''incoherent_refund'', s)
        else let snapshots = map (snapshot_key R s) (marker_key # tombstone_key # write_keys ws) in
          (case write_buckets R ws s of
             (True, t) \<Rightarrow> rollback_then_error R snapshots t
           | (False, t) \<Rightarrow>
              (case pcall (sv_del R marker_key) t of
                 (True, u) \<Rightarrow> rollback_then_error R snapshots u
               | (False, u) \<Rightarrow>
                  (case set_nx R tombstone_key token (1000 * dedup_ttl) u of
                     (Refused, v) \<Rightarrow> rollback_then_error R snapshots v
                   | (NotClaimed, v) \<Rightarrow>
                      (case rollback R snapshots v of
                         (True, w) \<Rightarrow> (ErrorReply, w)
                       | (False, w) \<Rightarrow> (Reply ''incoherent_refund'', w))
                   | (Claimed, v) \<Rightarrow> (Reply ''ok'', v)))))"

section \<open>The lifetime of a bucket's state\<close>

text \<open>
  What Lua reads of a value: \<^verbatim>\<open>tonumber\<close>, and \<^verbatim>\<open>cjson.decode\<close> of an override as its two numeric
  fields, \<open>None\<close> where the decoding fails or the anchor is no number.
\<close>

record lua_reader =
  lr_tonumber :: "bytes \<Rightarrow> pyfloat option"
  lr_override :: "bytes \<Rightarrow> (pyfloat \<times> pyfloat option) option"

definition MAX_RETENTION :: int where "MAX_RETENTION = 2147483647"

text \<open>The lifetime a debt needs, in milliseconds; \<open>None\<close> is the error reply.\<close>

definition required_ttl_ms :: "lua_reader \<Rightarrow> bytes option \<Rightarrow> int \<Rightarrow> pyfloat \<Rightarrow> pyfloat \<Rightarrow> int option" where
  "required_ttl_ms L capacity ttl configured per_seconds =
     (case Option.bind capacity (lr_tonumber L) of
        None \<Rightarrow> Some (1000 * ttl)
      | Some c \<Rightarrow>
        if flt c (Fin 0) \<and> flt NInf c
        then (case bind_res (fdiv c configured) (\<lambda>q. fceil (fmul (fsub (Fin 1) q) per_seconds)) of
                Inl _ \<Rightarrow> None
              | Inr required \<Rightarrow>
                 if MAX_RETENTION < required then None else Some (max (1000 * ttl) (1000 * required)))
        else Some (1000 * ttl))"

definition refresh_state_ttl ::
  "'s server \<Rightarrow> lua_reader \<Rightarrow> pystr \<Rightarrow> pystr \<Rightarrow> pystr \<Rightarrow> int \<Rightarrow> pyfloat \<Rightarrow> pyfloat \<Rightarrow> 's \<Rightarrow> int option \<times> 's" where
  "refresh_state_ttl R L key capacity_key history_key ttl_seconds configured per_seconds s =
     (case required_ttl_ms L (sv_get R capacity_key s) ttl_seconds configured per_seconds of
        None \<Rightarrow> (None, s)
      | Some ttl \<Rightarrow>
        let remaining = sv_pttl R key s in
        if remaining = - 2 then (Some 0, s)
        else let history_remaining = sv_pttl R history_key s;
                 history_required = max ttl remaining in
          (case (if 0 \<le> history_remaining \<and> history_remaining < history_required
                 then sv_pexpire R history_key history_required s else Some s) of
             None \<Rightarrow> (None, s)
           | Some t \<Rightarrow>
              if ttl \<le> remaining then (Some 1, t)
              else (case sv_pexpire R key ttl t of
                      None \<Rightarrow> (None, t)
                    | Some u \<Rightarrow> (Some (if sv_get R key t = None then 0 else 1), u))))"

section \<open>The override and its history\<close>

text \<open>\<^verbatim>\<open>1e-12\<close> as the script writes it.\<close>

definition lua_close :: "pyfloat \<Rightarrow> pyfloat \<Rightarrow> bool" where
  "lua_close a b \<longleftrightarrow> \<not> flt (fmul (flit (1 / 1000000000000)) (fmax (fabs a) (fabs b))) (fabs (fsub a b))"

record override_write =
  ow_refresh :: bool
  ow_payload :: bytes
  ow_history :: bytes
  ow_history_ttl :: int
  ow_configured :: pyfloat
  ow_value :: pyfloat
  ow_ttl :: int

text \<open>Whether the live override is the one to refresh.\<close>

definition refreshable :: "'s server \<Rightarrow> lua_reader \<Rightarrow> pystr \<Rightarrow> override_write \<Rightarrow> 's \<Rightarrow> bool" where
  "refreshable R L override_key w s =
     (case Option.bind (sv_get R override_key s) (lr_override L) of
        None \<Rightarrow> False
      | Some (configured, value) \<Rightarrow>
         (case value of None \<Rightarrow> False | Some v \<Rightarrow> feq v (ow_value w)) \<and> lua_close configured (ow_configured w))"

definition write_override ::
  "'s server \<Rightarrow> lua_reader \<Rightarrow> pystr \<Rightarrow> pystr \<Rightarrow> pystr \<Rightarrow> pystr \<Rightarrow> override_write \<Rightarrow> 's \<Rightarrow> int option \<times> 's" where
  "write_override R L override_key history_key last_checked_key capacity_key w s =
     (let previous = sv_get R history_key s; ttl = sv_pttl R history_key s in
      if ow_refresh w \<and> \<not> refreshable R L override_key w s then (Some 0, s)
      else let history_ttl = max (max (1000 * ow_history_ttl w) ttl)
                 (max (sv_pttl R last_checked_key s) (sv_pttl R capacity_key s)) in
        (case sv_set R history_key (ow_history w) (Some history_ttl) s of
           None \<Rightarrow> (None, s)
         | Some t \<Rightarrow>
           (case (if ow_refresh w then sv_pexpire R override_key (1000 * ow_ttl w) t
                  else sv_set R override_key (ow_payload w) (Some (1000 * ow_ttl w)) t) of
              Some u \<Rightarrow> (Some 1, u)
            | None \<Rightarrow>
               (None, snd (case previous of
                  Some p \<Rightarrow> if 0 < ttl then pcall (sv_set R history_key p (Some ttl)) t
                            else if ttl = - 1 then pcall (sv_set R history_key p None) t
                            else pcall (sv_del R history_key) t
                | None \<Rightarrow> pcall (sv_del R history_key) t)))))"

definition retain_expiry :: "'s server \<Rightarrow> pystr \<Rightarrow> pystr \<Rightarrow> pystr \<Rightarrow> int \<Rightarrow> 's \<Rightarrow> int option \<times> 's" where
  "retain_expiry R history_key last_checked_key capacity_key ttl_seconds s =
     (let ttl = sv_pttl R history_key s in
      if ttl = - 2 then (Some 0, s)
      else (case sv_pexpire R history_key (max (max (1000 * ttl_seconds) ttl)
                  (max (sv_pttl R last_checked_key s) (sv_pttl R capacity_key s))) s of
              None \<Rightarrow> (None, s)
            | Some t \<Rightarrow> (Some 1, t)))"

end
