(* ===== verification/RedisScriptLaws.thy ===== *)
theory RedisScriptLaws
  imports RedisScripts
begin

text \<open>
  What the scripts do, on any server that keeps the documented laws: every status that is not
  \<^verbatim>\<open>ok\<close> leaves the server as it was, an error reply leaves every key as it was if the server
  refuses by key, and \<^verbatim>\<open>ok\<close> determines the keys written.
\<close>

section \<open>Writes and roll-back\<close>

lemma snapshot_keys [simp]: "sn_key ` snapshot_key R s ` K = K"
  by (simp add: image_image snapshot_key_def)

lemma snapshot_key_sel [simp]: "sn_key (snapshot_key R s k) = k"
  by (simp add: snapshot_key_def)

text \<open>A key the server lets the client write.\<close>

definition writable :: "'s server \<Rightarrow> pystr \<Rightarrow> bool" where
  "writable R k \<longleftrightarrow> (\<exists>v px s. sv_set R k v px s \<noteq> None)"

context redis_server
begin

lemma pcall_set_same: "pcall (sv_set R k v px) s = (e, t) \<Longrightarrow> j \<noteq> k \<Longrightarrow> same_key R j s t"
  by (auto simp: pcall_def same_key_def set_get set_pttl split: option.splits)

lemma pcall_del_same: "pcall (sv_del R k) s = (e, t) \<Longrightarrow> j \<noteq> k \<Longrightarrow> same_key R j s t"
  by (auto simp: pcall_def same_key_def del_get del_pttl split: option.splits)

lemma write_buckets_same:
  "write_buckets R ws s = (e, t) \<Longrightarrow> j \<notin> set (write_keys ws) \<Longrightarrow> same_key R j s t"
proof (induction ws arbitrary: s)
  case Nil
  then show ?case by simp
next
  case (Cons w ws)
  let ?p = "\<lambda>k v. pcall (sv_set R (k w) (v w) (Some (1000 * bw_ttl w)))"
  have j: "j \<noteq> bw_last_checked_key w" "j \<noteq> bw_capacity_key w" "j \<notin> set (write_keys ws)"
    using Cons.prems(2) by (simp_all add: write_keys_def)
  obtain e1 u where u: "?p bw_last_checked_key bw_time s = (e1, u)" by (metis surj_pair)
  obtain e2 v where v: "?p bw_capacity_key bw_capacity u = (e2, v)" by (metis surj_pair)
  have a: "same_key R j s u" using u j(1) by (rule pcall_set_same)
  have b: "same_key R j u v" using v j(2) by (rule pcall_set_same)
  show ?case
    using Cons.prems(1) u v a same_key_trans [OF a b] Cons.IH [OF _ j(3), of v]
    by (auto split: bool.splits intro: same_key_trans)
qed

text \<open>A key that was written once is writable: the loop touches no other.\<close>

lemma pcall_set_writable:
  "pcall (sv_set R k v px) s = (e, t) \<Longrightarrow> same_key R j s t \<or> writable R j"
  by (cases "j = k") (auto simp: pcall_def writable_def same_key_def set_get set_pttl split: option.splits)

lemma write_buckets_writable: "write_buckets R ws s = (e, t) \<Longrightarrow> same_key R j s t \<or> writable R j"
proof (induction ws arbitrary: s)
  case Nil
  then show ?case by simp
next
  case (Cons w ws)
  let ?p = "\<lambda>k v. pcall (sv_set R (k w) (v w) (Some (1000 * bw_ttl w)))"
  obtain e1 u where u: "?p bw_last_checked_key bw_time s = (e1, u)" by (metis surj_pair)
  obtain e2 v where v: "?p bw_capacity_key bw_capacity u = (e2, v)" by (metis surj_pair)
  have a: "same_key R j s u \<or> writable R j" using u by (rule pcall_set_writable)
  have b: "same_key R j u v \<or> writable R j" using v by (rule pcall_set_writable)
  show ?case
    using Cons.prems u v a b Cons.IH [of v]
    by (auto split: bool.splits intro: same_key_trans)
qed

text \<open>What a complete run of the loop leaves in the keys of a bucket.\<close>

lemma write_buckets_ok:
  assumes "write_buckets R ws s = (False, t)" "w \<in> set ws" "distinct (write_keys ws)"
  shows "sv_get R (bw_last_checked_key w) t = Some (bw_time w)"
    and "sv_get R (bw_capacity_key w) t = Some (bw_capacity w)"
    and "sv_pttl R (bw_last_checked_key w) t = 1000 * bw_ttl w"
    and "sv_pttl R (bw_capacity_key w) t = 1000 * bw_ttl w"
    and "0 < bw_ttl w"
proof -
  let ?P = "\<lambda>w t. sv_get R (bw_last_checked_key w) t = Some (bw_time w) \<and>
    sv_get R (bw_capacity_key w) t = Some (bw_capacity w) \<and>
    sv_pttl R (bw_last_checked_key w) t = 1000 * bw_ttl w \<and>
    sv_pttl R (bw_capacity_key w) t = 1000 * bw_ttl w \<and> 0 < bw_ttl w"
  have "?P w t"
    using assms
  proof (induction ws arbitrary: s)
    case Nil
    then show ?case by simp
  next
    case (Cons w' ws)
    from Cons.prems(1) obtain u v where
      u: "sv_set R (bw_last_checked_key w') (bw_time w') (Some (1000 * bw_ttl w')) s = Some u" and
      v: "sv_set R (bw_capacity_key w') (bw_capacity w') (Some (1000 * bw_ttl w')) u = Some v" and
      rest: "write_buckets R ws v = (False, t)"
      by (auto simp: pcall_def split: option.splits)
    have d: "bw_last_checked_key w' \<noteq> bw_capacity_key w'"
      "bw_last_checked_key w' \<notin> set (write_keys ws)" "bw_capacity_key w' \<notin> set (write_keys ws)"
      "distinct (write_keys ws)"
      using Cons.prems(3) by (auto simp: write_keys_def)
    show ?case
    proof (cases "w \<in> set ws")
      case True
      then show ?thesis using Cons.IH [OF rest _ d(4)] by blast
    next
      case False
      with Cons.prems(2) have w: "w = w'" by simp
      have "0 < 1000 * bw_ttl w'" using u by (rule set_positive)
      moreover have "?P w' v"
        using u v d(1) calculation by (simp add: set_get set_pttl)
      ultimately show ?thesis unfolding w
        using write_buckets_same [OF rest d(2)] write_buckets_same [OF rest d(3)]
        by (simp add: same_key_def)
    qed
  qed
  then show "sv_get R (bw_last_checked_key w) t = Some (bw_time w)"
    "sv_get R (bw_capacity_key w) t = Some (bw_capacity w)"
    "sv_pttl R (bw_last_checked_key w) t = 1000 * bw_ttl w"
    "sv_pttl R (bw_capacity_key w) t = 1000 * bw_ttl w" "0 < bw_ttl w" by blast+
qed

lemma restore_key_other:
  "restore_key R sn s = (e, t) \<Longrightarrow> j \<noteq> sn_key sn \<Longrightarrow> same_key R j s t"
  by (auto simp: restore_key_def pcall_set_same pcall_del_same split: option.splits if_splits)

lemma rollback_other:
  "rollback R sns s = (e, t) \<Longrightarrow> j \<notin> sn_key ` set sns \<Longrightarrow> same_key R j s t"
proof (induction sns arbitrary: e t)
  case Nil
  then show ?case by simp
next
  case (Cons sn sns)
  obtain e1 u where u: "rollback R sns s = (e1, u)" by (metis surj_pair)
  obtain e2 v where v: "restore_key R sn u = (e2, v)" by (metis surj_pair)
  have "t = v" using Cons.prems(1) u v by simp
  moreover have "same_key R j s u" using Cons.IH [OF u] Cons.prems(2) by simp
  moreover have "same_key R j u v" using v Cons.prems(2) by (intro restore_key_other) auto
  ultimately show ?case by (auto intro: same_key_trans)
qed

lemma set_nx_other: "set_nx R k v px s = (r, t) \<Longrightarrow> j \<noteq> k \<Longrightarrow> same_key R j s t"
  by (auto simp: set_nx_def same_key_def set_get set_pttl split: if_splits option.splits)

lemma set_nx_unclaimed: "set_nx R k v px s = (r, t) \<Longrightarrow> r \<noteq> Claimed \<Longrightarrow> t = s"
  by (auto simp: set_nx_def split: if_splits option.splits)

lemma set_nx_claimed:
  "set_nx R k v px s = (Claimed, t) \<Longrightarrow> sv_get R k t = Some v \<and> sv_pttl R k t = px \<and> 0 < px"
  using set_positive [of k v px s t]
  by (auto simp: set_nx_def set_get set_pttl split: if_splits option.splits)

lemma set_nx_absent: "set_nx R k v px s = (r, t) \<Longrightarrow> sv_get R k s = None \<Longrightarrow> r \<noteq> NotClaimed"
  by (auto simp: set_nx_def split: if_splits option.splits)

end

context redis_server_by_key
begin

text \<open>Restoring a key that is untouched or writable.\<close>

lemma restore_key_kept:
  assumes "restore_key R (snapshot_key R s k) t = (e, u)" "kept_key R k s t \<or> writable R k"
  shows "kept_key R k s u"
proof -
  have set_ok: "sv_set R k v px t \<noteq> None" if "writable R k" "px = None \<or> (\<exists>p. px = Some p \<and> 0 < p)" for v px
    using that set_again unfolding writable_def by blast
  have del_ok: "sv_del R k t \<noteq> None" if "writable R k"
    using that del_after_set unfolding writable_def by blast
  show ?thesis
  proof (cases "sv_get R k s")
    case None
    then have p: "sv_pttl R k s = - 2" by (simp add: pttl_absent)
    have "pcall (sv_del R k) t = (e, u)" using assms(1) None by (simp add: restore_key_def snapshot_key_def)
    then show ?thesis using None p assms(2) del_ok
      by (auto simp: pcall_def kept_key_def same_key_def del_get del_pttl split: option.splits)
  next
    case (Some v)
    then have p: "sv_pttl R k s \<noteq> - 2" "- 2 \<le> sv_pttl R k s" by (simp_all add: pttl_absent pttl_range)
    consider "0 < sv_pttl R k s" | "sv_pttl R k s = - 1" | "sv_pttl R k s = 0" using p by linarith
    then show ?thesis
    proof cases
      case 1
      then have "pcall (sv_set R k v (Some (sv_pttl R k s))) t = (e, u)"
        using assms(1) Some by (simp add: restore_key_def snapshot_key_def)
      then show ?thesis using Some 1 assms(2) set_ok [of "Some (sv_pttl R k s)" v]
        by (auto simp: pcall_def kept_key_def same_key_def set_get set_pttl split: option.splits)
    next
      case 2
      then have "pcall (sv_set R k v None) t = (e, u)"
        using assms(1) Some by (simp add: restore_key_def snapshot_key_def)
      then show ?thesis using Some 2 assms(2) set_ok [of None v]
        by (auto simp: pcall_def kept_key_def same_key_def set_get set_pttl split: option.splits)
    next
      case 3
      then have "pcall (sv_del R k) t = (e, u)"
        using assms(1) Some by (simp add: restore_key_def snapshot_key_def)
      then show ?thesis using 3 assms(2) del_ok
        by (auto simp: pcall_def kept_key_def same_key_def del_get del_pttl split: option.splits)
    qed
  qed
qed

lemma rollback_kept_keys:
  assumes "rollback R (map (snapshot_key R s) ks) t = (e, u)"
    and "\<And>j. kept_key R j s t \<or> writable R j"
  shows "j \<in> set ks \<Longrightarrow> kept_key R j s u"
  using assms(1)
proof (induction ks arbitrary: e u j)
  case Nil
  then show ?case by simp
next
  case (Cons k ks)
  obtain e1 v where v: "rollback R (map (snapshot_key R s) ks) t = (e1, v)" by (metis surj_pair)
  obtain e2 w where w: "restore_key R (snapshot_key R s k) v = (e2, w)" by (metis surj_pair)
  have u: "u = w" using Cons.prems(2) v w by simp
  have "kept_key R k s v \<or> writable R k"
  proof (cases "k \<in> set ks")
    case True
    then show ?thesis using Cons.IH v by blast
  next
    case False
    then have same: "same_key R k t v" using rollback_other [OF v, of k] by simp
    from assms(2) [of k] show ?thesis using kept_same [OF _ same] by blast
  qed
  then have k: "kept_key R k s u" using w unfolding u by (intro restore_key_kept)
  show ?case
  proof (cases "j = k")
    case False
    then have "kept_key R j s v" using Cons.prems(1) Cons.IH v by simp
    moreover have "same_key R j v w" using w False by (intro restore_key_other) (auto simp: snapshot_key_def)
    ultimately show ?thesis unfolding u by (rule kept_same)
  qed (simp add: k)
qed

lemma rollback_kept:
  assumes "rollback R (map (snapshot_key R s) ks) t = (e, u)"
    and "\<And>j. kept_key R j s t \<or> writable R j" "\<And>j. j \<notin> set ks \<Longrightarrow> kept_key R j s t"
  shows "kept_key R j s u"
proof (cases "j \<in> set ks")
  case True
  then show ?thesis using assms(1,2) by (intro rollback_kept_keys)
next
  case False
  then have "same_key R j t u" using rollback_other [OF assms(1), of j] by simp
  with assms(3) [OF False] show ?thesis by (rule kept_same)
qed

end

section \<open>The acquisition script\<close>

context redis_server
begin

text \<open>The outcomes of the script, when the reservation's keys are not those of a bucket.\<close>

lemma acquire_script_cases:
  assumes "acquire_script R mk tk px marker ws s = (r, t)" "mk \<notin> set (write_keys ws)"
  obtains (granted) "r = Reply ''ok''" "sv_get R mk s = None" "sv_get R tk s = None"
      "sv_get R mk t = Some marker" "sv_pttl R mk t = px" "0 < px"
      "\<And>j. j \<noteq> mk \<Longrightarrow> j \<notin> set (write_keys ws) \<Longrightarrow> same_key R j s t"
      "\<And>w. distinct (write_keys ws) \<Longrightarrow> w \<in> set ws \<Longrightarrow>
        sv_get R (bw_last_checked_key w) t = Some (bw_time w) \<and> sv_get R (bw_capacity_key w) t = Some (bw_capacity w) \<and>
        sv_pttl R (bw_last_checked_key w) t = 1000 * bw_ttl w \<and> sv_pttl R (bw_capacity_key w) t = 1000 * bw_ttl w"
  | (replayed) "r = Reply ''replayed_acquire''" "t = s" "sv_get R mk s = Some marker"
  | (duplicate) "r = Reply ''duplicate_acquire''" "t = s"
      "sv_get R mk s \<noteq> Some marker" "sv_get R mk s \<noteq> None \<or> sv_get R tk s \<noteq> None"
  | (refused) "r = ErrorReply" "sv_get R mk s = None" "sv_get R tk s = None"
proof (cases "sv_get R mk s")
  case (Some v)
  then show thesis using assms(1) replayed duplicate by (auto simp: acquire_script_def split: if_splits)
next
  case None
  show thesis
  proof (cases "sv_get R tk s")
    case (Some v)
    then show thesis using None assms(1) duplicate by (auto simp: acquire_script_def)
  next
    case tk: None
    obtain e u where u: "write_buckets R ws s = (e, u)" by (metis surj_pair)
    obtain c v where v: "set_nx R mk marker px u = (c, v)" by (metis surj_pair)
    have mk: "sv_get R mk u = None"
      using write_buckets_same [OF u assms(2)] None by (simp add: same_key_def)
    have nc: "c \<noteq> NotClaimed" using v mk by (rule set_nx_absent)
    show thesis
    proof (cases "\<not> e \<and> c = Claimed")
      case True
      then have c: "set_nx R mk marker px u = (Claimed, v)" and w: "write_buckets R ws s = (False, u)"
        using u v by simp_all
      have rt: "r = Reply ''ok''" "t = v"
        using assms(1) None tk c w by (simp_all add: acquire_script_def Let_def)
      have o: "same_key R j u t" if "j \<noteq> mk" for j using set_nx_other [OF c that] by (simp add: rt)
      have m: "sv_get R mk t = Some marker" "sv_pttl R mk t = px" "0 < px"
        using set_nx_claimed [OF c] by (simp_all add: rt)
      have same: "same_key R j s t" if "j \<noteq> mk" "j \<notin> set (write_keys ws)" for j
        using write_buckets_same [OF w that(2)] o [OF that(1)] by (rule same_key_trans)
      have wr: "sv_get R (bw_last_checked_key x) t = Some (bw_time x) \<and>
          sv_get R (bw_capacity_key x) t = Some (bw_capacity x) \<and>
          sv_pttl R (bw_last_checked_key x) t = 1000 * bw_ttl x \<and> sv_pttl R (bw_capacity_key x) t = 1000 * bw_ttl x"
        if "distinct (write_keys ws)" "x \<in> set ws" for x
      proof -
        have "bw_last_checked_key x \<noteq> mk" "bw_capacity_key x \<noteq> mk"
          using assms(2) that(2) by (auto simp: write_keys_def)
        then show ?thesis
          using o write_buckets_ok [OF w that(2,1)] unfolding same_key_def by simp
      qed
      show thesis by (rule granted [OF rt(1) None tk m same wr])
    next
      case False
      then have "r = ErrorReply"
        using assms(1) None tk u v nc
        by (cases e; cases c) (auto simp: acquire_script_def Let_def rollback_then_error_def)
      then show thesis using None tk by (rule refused)
    qed
  qed
qed

end

context redis_server_by_key
begin

lemma acquire_script_refused:
  assumes "acquire_script R mk tk px marker ws s = (ErrorReply, t)" "mk \<notin> set (write_keys ws)"
  shows "kept_key R j s t"
proof -
  have none: "sv_get R mk s = None" "sv_get R tk s = None"
    using assms by (auto simp: acquire_script_def split: option.splits if_splits)
  obtain e u where u: "write_buckets R ws s = (e, u)" by (metis surj_pair)
  obtain c v where v: "set_nx R mk marker px u = (c, v)" by (metis surj_pair)
  have mk: "sv_get R mk u = None"
    using write_buckets_same [OF u assms(2)] none by (simp add: same_key_def)
  have nc: "c \<noteq> NotClaimed" using v mk by (rule set_nx_absent)
  have "t = snd (rollback R (map (snapshot_key R s) (write_keys ws)) u)"
    using assms(1) none u v nc set_nx_unclaimed [OF v]
    by (cases e; cases c) (auto simp: acquire_script_def Let_def rollback_then_error_def)
  then obtain e' where "rollback R (map (snapshot_key R s) (write_keys ws)) u = (e', t)"
    by (metis prod.collapse)
  then show ?thesis
    by (rule rollback_kept)
      (use write_buckets_writable [OF u] write_buckets_same [OF u] in \<open>auto simp: kept_key_def\<close>)
qed

end

section \<open>The refund script\<close>

context redis_server
begin

lemma refund_script_cases:
  assumes "refund_script R mk tk marker ttl token ws s = (r, t)"
    "mk \<noteq> tk" "mk \<notin> set (write_keys ws)" "tk \<notin> set (write_keys ws)"
  obtains (refunded) "r = Reply ''ok''" "sv_get R mk s = Some marker" "sv_get R tk s = None"
      "sv_get R mk t = None" "sv_get R tk t = Some token" "sv_pttl R tk t = 1000 * ttl" "0 < ttl"
      "\<And>j. j \<noteq> mk \<Longrightarrow> j \<noteq> tk \<Longrightarrow> j \<notin> set (write_keys ws) \<Longrightarrow> same_key R j s t"
      "\<And>w. distinct (write_keys ws) \<Longrightarrow> w \<in> set ws \<Longrightarrow>
        sv_get R (bw_last_checked_key w) t = Some (bw_time w) \<and> sv_get R (bw_capacity_key w) t = Some (bw_capacity w) \<and>
        sv_pttl R (bw_last_checked_key w) t = 1000 * bw_ttl w \<and> sv_pttl R (bw_capacity_key w) t = 1000 * bw_ttl w"
  | (replayed) "r = Reply ''replayed_refund''" "t = s" "sv_get R mk s = None" "sv_get R tk s = Some token"
  | (duplicate) "r = Reply ''duplicate_refund''" "t = s" "sv_get R mk s = None"
      "sv_get R tk s \<noteq> None" "sv_get R tk s \<noteq> Some token"
  | (unknown) "r = Reply ''unknown_reservation''" "t = s" "sv_get R mk s = None" "sv_get R tk s = None"
  | (mismatch) "r = Reply ''marker_mismatch''" "t = s" "sv_get R mk s \<noteq> None" "sv_get R mk s \<noteq> Some marker"
  | (incoherent) "r = Reply ''incoherent_refund''" "t = s" "sv_get R mk s = Some marker" "sv_get R tk s \<noteq> None"
  | (refused) "r = ErrorReply" "sv_get R mk s = Some marker" "sv_get R tk s = None"
proof (cases "sv_get R mk s = Some marker \<and> sv_get R tk s = None")
  case False
  then show thesis using assms(1) replayed duplicate unknown mismatch incoherent
    by (auto simp: refund_script_def split: option.splits if_splits)
next
  case True
  then have mks: "sv_get R mk s = Some marker" and tks: "sv_get R tk s = None" by simp_all
  obtain e u where u: "write_buckets R ws s = (e, u)" by (metis surj_pair)
  obtain d v where v: "pcall (sv_del R mk) u = (d, v)" by (metis surj_pair)
  obtain c w where w: "set_nx R tk token (1000 * ttl) v = (c, w)" by (metis surj_pair)
  have "sv_get R tk u = None" using write_buckets_same [OF u assms(4)] tks by (simp add: same_key_def)
  then have tkv: "sv_get R tk v = None"
    using pcall_del_same [OF v, of tk] assms(2) by (simp add: same_key_def)
  have nc: "c \<noteq> NotClaimed" using w tkv by (rule set_nx_absent)
  show thesis
  proof (cases "\<not> e \<and> \<not> d \<and> c = Claimed")
    case True
    then have c: "write_buckets R ws s = (False, u)" "sv_del R mk u = Some v"
      "set_nx R tk token (1000 * ttl) v = (Claimed, w)"
      using u v w by (auto simp: pcall_def split: option.splits)
    have rt: "r = Reply ''ok''" "t = w"
      using assms(1) mks tks c u v True by (simp_all add: refund_script_def Let_def)
    have o: "same_key R j u t" if "j \<noteq> mk" "j \<noteq> tk" for j
      using pcall_del_same [OF v that(1)] set_nx_other [OF c(3) that(2)] unfolding rt by (rule same_key_trans)
    have "sv_get R mk v = None" using c(2) by (simp add: del_get)
    then have m: "sv_get R mk t = None"
      using set_nx_other [OF c(3), of mk] assms(2) by (simp add: rt same_key_def)
    have k: "sv_get R tk t = Some token" "sv_pttl R tk t = 1000 * ttl" "0 < ttl"
      using set_nx_claimed [OF c(3)] by (simp_all add: rt)
    have same: "same_key R j s t" if "j \<noteq> mk" "j \<noteq> tk" "j \<notin> set (write_keys ws)" for j
      using write_buckets_same [OF c(1) that(3)] o [OF that(1,2)] by (rule same_key_trans)
    have wr: "sv_get R (bw_last_checked_key x) t = Some (bw_time x) \<and>
        sv_get R (bw_capacity_key x) t = Some (bw_capacity x) \<and>
        sv_pttl R (bw_last_checked_key x) t = 1000 * bw_ttl x \<and> sv_pttl R (bw_capacity_key x) t = 1000 * bw_ttl x"
      if "distinct (write_keys ws)" "x \<in> set ws" for x
    proof -
      have "bw_last_checked_key x \<noteq> mk" "bw_capacity_key x \<noteq> mk" "bw_last_checked_key x \<noteq> tk" "bw_capacity_key x \<noteq> tk"
        using assms(3,4) that(2) by (auto simp: write_keys_def)
      then show ?thesis
        using o write_buckets_ok [OF c(1) that(2,1)] unfolding same_key_def by simp
    qed
    show thesis by (rule refunded [OF rt(1) mks tks m k same wr])
  next
    case False
    then have "r = ErrorReply"
      using assms(1) mks tks u v w nc
      by (cases e; cases d; cases c) (auto simp: refund_script_def Let_def rollback_then_error_def)
    then show thesis using mks tks by (rule refused)
  qed
qed

end

context redis_server_by_key
begin

text \<open>
  The script deletes the marker before it sets the tombstone: a server that lets a client
  delete a key but not write it could lose the marker, so it must be writable.
\<close>

lemma refund_script_refused:
  assumes "refund_script R mk tk marker ttl token ws s = (ErrorReply, t)"
    "mk \<noteq> tk" "mk \<notin> set (write_keys ws)" "tk \<notin> set (write_keys ws)" "writable R mk"
  shows "kept_key R j s t"
proof -
  have mks: "sv_get R mk s = Some marker" "sv_get R tk s = None"
    using assms(1) by (auto simp: refund_script_def split: option.splits if_splits)
  obtain e u where u: "write_buckets R ws s = (e, u)" by (metis surj_pair)
  obtain d v where v: "pcall (sv_del R mk) u = (d, v)" by (metis surj_pair)
  obtain c w where w: "set_nx R tk token (1000 * ttl) v = (c, w)" by (metis surj_pair)
  have "sv_get R tk u = None" using write_buckets_same [OF u assms(4)] mks by (simp add: same_key_def)
  then have tkv: "sv_get R tk v = None"
    using pcall_del_same [OF v, of tk] assms(2) by (simp add: same_key_def)
  have nc: "c \<noteq> NotClaimed" using w tkv by (rule set_nx_absent)
  let ?ks = "mk # tk # write_keys ws"
  define x where "x = (if e then u else v)"
  have "t = snd (rollback R (map (snapshot_key R s) ?ks) x)"
    using assms(1) mks u v w nc set_nx_unclaimed [OF w] unfolding x_def
    by (cases e; cases d; cases c)
       (auto simp: refund_script_def Let_def rollback_then_error_def pcall_def split: option.splits)
  then obtain e' where r: "rollback R (map (snapshot_key R s) ?ks) x = (e', t)" by (metis prod.collapse)
  have x1: "same_key R j s x \<or> writable R j" for j
    using write_buckets_writable [OF u, of j] pcall_del_same [OF v, of j] assms(5) unfolding x_def
    by (cases "j = mk") (auto intro: same_key_trans)
  have x2: "same_key R j s x" if "j \<notin> set ?ks" for j
    using write_buckets_same [OF u, of j] pcall_del_same [OF v, of j] that unfolding x_def
    by (auto intro: same_key_trans)
  from r show ?thesis
    by (rule rollback_kept) (use x1 x2 in \<open>auto simp: kept_key_def\<close>)
qed

end

end
