(* ===== verification/RedisTraces.thy ===== *)
theory RedisTraces
  imports RedisScriptLaws RedisKeys Ledger
begin

text \<open>
  One deployment on a server as a transition system: every client's scripts and commands, and
  whatever else happens to the server. It is an instance of the ledgers: whatever clients
  retry, crash or race, between two refunds of an id lies an acquisition of it, and while no
  tombstone expires a refunded id stays closed.
\<close>

section \<open>Steps\<close>

text \<open>
  \<open>ids_kept p s t\<close>: the reservation keys of deployment \<open>p\<close> are as they were. \<open>markers_wane\<close> is
  what time and other programs may do to them: markers expire, tombstones come and go.
\<close>

definition ids_kept :: "'s server \<Rightarrow> pystr \<Rightarrow> 's \<Rightarrow> 's \<Rightarrow> bool" where
  "ids_kept R p s t \<longleftrightarrow>
     (\<forall>i. 58 \<notin> set i \<longrightarrow> same_key R (marker_key p i) s t \<and> same_key R (tombstone_key p i) s t)"

definition markers_wane :: "'s server \<Rightarrow> pystr \<Rightarrow> 's \<Rightarrow> 's \<Rightarrow> bool" where
  "markers_wane R p s t \<longleftrightarrow> (\<forall>i. 58 \<notin> set i \<longrightarrow>
     sv_get R (marker_key p i) t = sv_get R (marker_key p i) s \<or> sv_get R (marker_key p i) t = None)"

definition tombstones_last :: "'s server \<Rightarrow> pystr \<Rightarrow> 's \<Rightarrow> 's \<Rightarrow> bool" where
  "tombstones_last R p s t \<longleftrightarrow> (\<forall>i. 58 \<notin> set i \<longrightarrow>
     sv_get R (tombstone_key p i) s \<noteq> None \<longrightarrow> sv_get R (tombstone_key p i) t \<noteq> None)"

text \<open>The buckets a script writes are not reservation keys.\<close>

definition apart :: "pystr \<Rightarrow> bucket_write list \<Rightarrow> bool" where
  "apart p ws \<longleftrightarrow> (\<forall>i. 58 \<notin> set i \<longrightarrow>
     marker_key p i \<notin> set (write_keys ws) \<and> tombstone_key p i \<notin> set (write_keys ws))"

inductive redis_step ::
  "'s server \<Rightarrow> pystr \<Rightarrow> ('s \<Rightarrow> 's \<Rightarrow> bool) \<Rightarrow> 's \<Rightarrow> ledger_event \<Rightarrow> 's \<Rightarrow> bool"
  for R p others where
  acquire: "acquire_script R (marker_key p i) (tombstone_key p i) px marker ws s = (r, t) \<Longrightarrow>
    58 \<notin> set i \<Longrightarrow> apart p ws \<Longrightarrow>
    redis_step R p others s (if r = Reply ''ok'' then Acquired i else Silent) t"
| refund: "refund_script R (marker_key p i) (tombstone_key p i) marker ttl token ws s = (r, t) \<Longrightarrow>
    58 \<notin> set i \<Longrightarrow> apart p ws \<Longrightarrow>
    redis_step R p others s (if r = Reply ''ok'' then Refunded i else Silent) t"
| cancel: "pcall (sv_del R (marker_key p i)) s = (e, t) \<Longrightarrow> 58 \<notin> set i \<Longrightarrow>
    redis_step R p others s
      (if \<not> e \<and> sv_get R (marker_key p i) s \<noteq> None then Cancelled i else Silent) t"
| elsewhere: "ids_kept R p s t \<Longrightarrow> redis_step R p others s Silent t"
| others: "others s t \<Longrightarrow> redis_step R p others s Silent t"

text \<open>The ids whose marker is there, and those that are closed by a tombstone.\<close>

definition marked :: "'s server \<Rightarrow> pystr \<Rightarrow> 's \<Rightarrow> pystr set" where
  "marked R p s = {i. 58 \<notin> set i \<and> sv_get R (marker_key p i) s \<noteq> None}"

definition buried :: "'s server \<Rightarrow> pystr \<Rightarrow> 's \<Rightarrow> pystr set" where
  "buried R p s = {i. 58 \<notin> set i \<and> sv_get R (tombstone_key p i) s \<noteq> None \<and> sv_get R (marker_key p i) s = None}"

text \<open>The invariant: a marker that is there has been written, so it can be written back.\<close>

definition markers_writable :: "'s server \<Rightarrow> pystr \<Rightarrow> 's \<Rightarrow> bool" where
  "markers_writable R p s \<longleftrightarrow> (\<forall>i \<in> marked R p s. writable R (marker_key p i))"

section \<open>What a script leaves alone\<close>

context redis_server
begin

lemma acquire_script_other:
  assumes "acquire_script R mk tk px marker ws s = (r, t)" "j \<noteq> mk" "j \<notin> set (write_keys ws)"
  shows "same_key R j s t"
proof -
  obtain e u where u: "write_buckets R ws s = (e, u)" by (metis surj_pair)
  obtain c v where v: "set_nx R mk marker px u = (c, v)" by (metis surj_pair)
  have a: "same_key R j s u" using u assms(3) by (rule write_buckets_same)
  have b: "same_key R j s v" using a set_nx_other [OF v assms(2)] by (rule same_key_trans)
  have undo: "same_key R j s (snd (rollback R (map (snapshot_key R s) (write_keys ws)) x))"
    if "same_key R j s x" for x
  proof -
    have "same_key R j x (snd (rollback R (map (snapshot_key R s) (write_keys ws)) x))"
      using assms(3) by (intro rollback_other [OF prod.collapse [symmetric]]) simp
    with that show ?thesis by (rule same_key_trans)
  qed
  show ?thesis
    using assms(1) u v undo [OF a] undo [OF b] b
    by (auto simp: acquire_script_def Let_def rollback_then_error_def
        split: option.splits if_splits bool.splits nx_reply.splits prod.splits)
qed

lemma refund_script_other:
  assumes "refund_script R mk tk marker ttl token ws s = (r, t)" "j \<noteq> mk" "j \<noteq> tk" "j \<notin> set (write_keys ws)"
  shows "same_key R j s t"
proof -
  let ?ks = "mk # tk # write_keys ws"
  obtain e u where u: "write_buckets R ws s = (e, u)" by (metis surj_pair)
  obtain d v where v: "pcall (sv_del R mk) u = (d, v)" by (metis surj_pair)
  obtain c w where w: "set_nx R tk token (1000 * ttl) v = (c, w)" by (metis surj_pair)
  have a: "same_key R j s u" using u assms(4) by (rule write_buckets_same)
  have b: "same_key R j s v" using a pcall_del_same [OF v assms(2)] by (rule same_key_trans)
  have c: "same_key R j s w" using b set_nx_other [OF w assms(3)] by (rule same_key_trans)
  have undo: "same_key R j s (snd (rollback R (map (snapshot_key R s) ?ks) x))" if "same_key R j s x" for x
  proof -
    have "same_key R j x (snd (rollback R (map (snapshot_key R s) ?ks) x))"
      using assms(2-4) by (intro rollback_other [OF prod.collapse [symmetric]]) simp
    with that show ?thesis by (rule same_key_trans)
  qed
  show ?thesis
    using assms(1) u v w undo [OF a] undo [OF b] undo [OF c] c
    by (auto simp: refund_script_def Let_def rollback_then_error_def
        split: option.splits if_splits bool.splits nx_reply.splits prod.splits)
qed

end

section \<open>The ledger\<close>

locale redis_deployment = redis_server_by_key R for R :: "'s server" +
  fixes p :: pystr and others :: "'s \<Rightarrow> 's \<Rightarrow> bool"
  assumes prefix: "58 \<notin> set p"
    and others_wane: "others s t \<Longrightarrow> markers_wane R p s t"
begin

lemma keys_apart:
  "58 \<notin> set i \<Longrightarrow> 58 \<notin> set j \<Longrightarrow> marker_key p i = marker_key p j \<longleftrightarrow> i = j"
  "58 \<notin> set i \<Longrightarrow> 58 \<notin> set j \<Longrightarrow> tombstone_key p i = tombstone_key p j \<longleftrightarrow> i = j"
  "58 \<notin> set i \<Longrightarrow> 58 \<notin> set j \<Longrightarrow> marker_key p i \<noteq> tombstone_key p j"
  "58 \<notin> set i \<Longrightarrow> 58 \<notin> set j \<Longrightarrow> tombstone_key p j \<noteq> marker_key p i"
  using prefix marker_key_inj tombstone_key_inj marker_tombstone [of p i j] by auto

lemma marked_same: "same_key R (marker_key p i) s t \<Longrightarrow> i \<in> marked R p t \<longleftrightarrow> i \<in> marked R p s"
  by (simp add: marked_def same_key_def)

lemma marked_kept: "kept_key R (marker_key p i) s t \<Longrightarrow> i \<in> marked R p t \<Longrightarrow> i \<in> marked R p s"
  by (auto simp: marked_def kept_key_def same_key_def)

text \<open>Every step, by its effect on the markers.\<close>

lemma acquire_marks:
  assumes "acquire_script R (marker_key p i) (tombstone_key p i) px marker ws s = (r, t)"
    "58 \<notin> set i" "apart p ws"
  shows "r = Reply ''ok'' \<Longrightarrow> marked R p t = insert i (marked R p s) \<and> i \<notin> marked R p s \<and> i \<notin> buried R p s \<and>
      writable R (marker_key p i)"
    and "r \<noteq> Reply ''ok'' \<Longrightarrow> marked R p t \<subseteq> marked R p s"
    and "58 \<notin> set j \<Longrightarrow> same_key R (tombstone_key p j) s t"
proof -
  have ap: "marker_key p j \<notin> set (write_keys ws)" "tombstone_key p j \<notin> set (write_keys ws)"
    if "58 \<notin> set j" for j using assms(3) that by (auto simp: apart_def)
  have o: "same_key R (marker_key p j) s t" if "58 \<notin> set j" "j \<noteq> i" for j
    using assms(1) by (rule acquire_script_other) (use that assms(2) keys_apart ap in auto)
  show "same_key R (tombstone_key p j) s t" if "58 \<notin> set j" for j
    using assms(1) by (rule acquire_script_other) (use that assms(2) keys_apart ap in auto)
  have w: "writable R (marker_key p i)" if ok: "r = Reply ''ok''"
  proof -
    obtain u v where "set_nx R (marker_key p i) marker px u = (Claimed, v)"
      using assms(1) ok
      by (auto simp: acquire_script_def Let_def rollback_then_error_def
        split: option.splits if_splits bool.splits nx_reply.splits prod.splits)
    then show ?thesis unfolding writable_def
      by (metis set_nx_def nx_reply.distinct(1,3) option.case_eq_if prod.inject)
  qed
  from assms(1) ap(1) [OF assms(2)] show "r = Reply ''ok'' \<Longrightarrow> marked R p t = insert i (marked R p s) \<and>
      i \<notin> marked R p s \<and> i \<notin> buried R p s \<and> writable R (marker_key p i)"
  proof (cases rule: acquire_script_cases)
    case granted
    have "j \<in> marked R p t \<longleftrightarrow> j = i \<or> j \<in> marked R p s" for j
    proof (cases "j = i")
      case True
      then show ?thesis using granted(4) assms(2) by (simp add: marked_def)
    next
      case False
      then show ?thesis using marked_same [OF o, of j] by (auto simp: marked_def)
    qed
    moreover have "i \<notin> marked R p s" "i \<notin> buried R p s" using granted(2,3) by (simp_all add: marked_def buried_def)
    ultimately show ?thesis using w granted(1) by blast
  qed simp_all
  show "marked R p t \<subseteq> marked R p s" if r: "r \<noteq> Reply ''ok''"
  proof -
    have "kept_key R (marker_key p i) s t"
      using assms(1) ap(1) [OF assms(2)]
    proof (cases rule: acquire_script_cases)
      case refused
      then show ?thesis using acquire_script_refused assms(1) ap(1) [OF assms(2)] by blast
    qed (use r in simp_all)
    then have "j \<in> marked R p s" if "j \<in> marked R p t" for j
      using marked_kept [of j s t] marked_same [OF o, of j] that by (cases "j = i") (auto simp: marked_def)
    then show ?thesis by blast
  qed
qed

lemma refund_marks:
  assumes "refund_script R (marker_key p i) (tombstone_key p i) marker ttl token ws s = (r, t)"
    "58 \<notin> set i" "apart p ws" "markers_writable R p s"
  shows "r = Reply ''ok'' \<Longrightarrow> i \<in> marked R p s \<and> marked R p t = marked R p s - {i} \<and> i \<in> buried R p t"
    and "r \<noteq> Reply ''ok'' \<Longrightarrow> marked R p t \<subseteq> marked R p s"
    and "58 \<notin> set j \<Longrightarrow> sv_get R (tombstone_key p j) s \<noteq> None \<Longrightarrow> sv_get R (tombstone_key p j) t \<noteq> None"
proof -
  have ap: "marker_key p j \<notin> set (write_keys ws)" "tombstone_key p j \<notin> set (write_keys ws)"
    if "58 \<notin> set j" for j using assms(3) that by (auto simp: apart_def)
  have o: "same_key R (marker_key p j) s t" if "58 \<notin> set j" "j \<noteq> i" for j
    using assms(1) by (rule refund_script_other) (use that assms(2) keys_apart ap in auto)
  have ot: "same_key R (tombstone_key p j) s t" if "58 \<notin> set j" "j \<noteq> i" for j
    using assms(1) by (rule refund_script_other) (use that assms(2) keys_apart ap in auto)
  note cases = refund_script_cases [OF assms(1) keys_apart(3) [OF assms(2,2)] ap(1) [OF assms(2)] ap(2) [OF assms(2)]]
  show "r = Reply ''ok'' \<Longrightarrow> i \<in> marked R p s \<and> marked R p t = marked R p s - {i} \<and> i \<in> buried R p t"
  proof (rule cases)
    assume a: "sv_get R (marker_key p i) s = Some marker" "sv_get R (marker_key p i) t = None"
      "sv_get R (tombstone_key p i) t = Some token"
    have "j \<in> marked R p t \<longleftrightarrow> j \<noteq> i \<and> j \<in> marked R p s" for j
    proof (cases "j = i")
      case True
      then show ?thesis using a(2) by (simp add: marked_def)
    next
      case False
      then show ?thesis using marked_same [OF o, of j] by (auto simp: marked_def)
    qed
    then show ?thesis using a assms(2) by (auto simp: marked_def buried_def)
  qed simp_all
  show "marked R p t \<subseteq> marked R p s" if r: "r \<noteq> Reply ''ok''"
  proof -
    have "kept_key R (marker_key p i) s t"
    proof (rule cases)
      assume "r = ErrorReply" "sv_get R (marker_key p i) s = Some marker"
      moreover from this(2) have "writable R (marker_key p i)"
        using assms(2,4) by (auto simp: markers_writable_def marked_def)
      ultimately show ?thesis
        using assms(1) refund_script_refused keys_apart(3) [OF assms(2,2)] ap [OF assms(2)] by blast
    qed (use r in simp_all)
    then have "j \<in> marked R p s" if "j \<in> marked R p t" for j
      using marked_kept [of j s t] marked_same [OF o, of j] that by (cases "j = i") (auto simp: marked_def)
    then show ?thesis by blast
  qed
  show "sv_get R (tombstone_key p j) t \<noteq> None" if j: "58 \<notin> set j" "sv_get R (tombstone_key p j) s \<noteq> None" for j
  proof (cases "j = i")
    case False
    then show ?thesis using ot [OF j(1)] j(2) by (simp add: same_key_def)
  next
    case True
    show ?thesis by (rule cases) (use True j(2) in auto)
  qed
qed

lemma wane_marks: "markers_wane R p s t \<Longrightarrow> marked R p t \<subseteq> marked R p s"
  by (auto simp: markers_wane_def marked_def)

lemma books_kept_marks: "ids_kept R p s t \<Longrightarrow> marked R p t = marked R p s \<and> buried R p t = buried R p s"
  by (auto simp: ids_kept_def marked_def buried_def same_key_def)

lemma cancel_marks:
  assumes "pcall (sv_del R (marker_key p i)) s = (e, t)" "58 \<notin> set i"
  shows "marked R p t = (if e then marked R p s else marked R p s - {i})"
    and "58 \<notin> set j \<Longrightarrow> same_key R (tombstone_key p j) s t"
proof -
  show "marked R p t = (if e then marked R p s else marked R p s - {i})"
    using assms by (auto simp: pcall_def marked_def del_get keys_apart split: option.splits if_splits)
  show "58 \<notin> set j \<Longrightarrow> same_key R (tombstone_key p j) s t"
    using assms(1) by (rule pcall_del_same) (use assms(2) keys_apart in auto)
qed

end

sublocale redis_deployment \<subseteq> ledger: lossy_ledger "markers_writable R p" "marked R p" "redis_step R p others"
proof
  fix s e t
  assume w: "markers_writable R p s" and st: "redis_step R p others s e t"
  have grow: "markers_writable R p t" if "\<And>i. i \<in> marked R p t \<Longrightarrow> i \<in> marked R p s \<or> writable R (marker_key p i)"
    using that w by (auto simp: markers_writable_def)
  from st show "markers_writable R p t"
  proof cases
    case (acquire i px marker ws r)
    note m = acquire_marks(1,2) [OF acquire(2-4)]
    show ?thesis by (rule grow) (use m in \<open>cases "r = Reply ''ok''"; auto\<close>)
  next
    case (refund i marker ttl token ws r)
    note m = refund_marks(1,2) [OF refund(2-4) w]
    show ?thesis by (rule grow) (use m in \<open>cases "r = Reply ''ok''"; auto\<close>)
  next
    case (cancel i e')
    then show ?thesis using cancel_marks(1) [OF cancel(2,3)] by (intro grow) (auto split: if_splits)
  next
    case elsewhere
    then show ?thesis using books_kept_marks by (intro grow) blast
  next
    case others
    then show ?thesis using wane_marks others_wane by (intro grow) blast
  qed
next
  fix s i t
  assume w: "markers_writable R p s" and st: "redis_step R p others s (Acquired i) t"
  from st show "marked R p t \<subseteq> insert i (marked R p s)"
  proof cases
    case (acquire j px marker ws r)
    then show ?thesis using acquire_marks(1) [OF acquire(2-4)] by (auto split: if_splits)
  qed (auto split: if_splits)
next
  fix s i t
  assume w: "markers_writable R p s" and st: "redis_step R p others s (Refunded i) t"
  from st show "i \<in> marked R p s \<and> marked R p t \<subseteq> marked R p s - {i}"
  proof cases
    case (refund j marker ttl token ws r)
    then show ?thesis using refund_marks(1) [OF refund(2-4) w] by (auto split: if_splits)
  qed (auto split: if_splits)
next
  fix s i t
  assume w: "markers_writable R p s" and st: "redis_step R p others s (Cancelled i) t"
  from st show "i \<in> marked R p s \<and> marked R p t \<subseteq> marked R p s - {i}"
  proof cases
    case (cancel j e)
    then show ?thesis using cancel_marks(1) [OF cancel(2,3)] by (auto simp: marked_def split: if_splits)
  qed (auto split: if_splits)
next
  fix s t
  assume w: "markers_writable R p s" and st: "redis_step R p others s Silent t"
  from st show "marked R p t \<subseteq> marked R p s"
  proof cases
    case (acquire i px marker ws r)
    then show ?thesis using acquire_marks(2) [OF acquire(2-4)] by (auto split: if_splits)
  next
    case (refund i marker ttl token ws r)
    then show ?thesis using refund_marks(2) [OF refund(2-4) w] by (auto split: if_splits)
  next
    case (cancel i e)
    then show ?thesis using cancel_marks(1) [OF cancel(2,3)] by (auto split: if_splits)
  next
    case elsewhere
    then show ?thesis using books_kept_marks by blast
  next
    case others
    then show ?thesis using wane_marks others_wane by blast
  qed
qed

text \<open>While no tombstone disappears, a refunded id stays closed.\<close>

locale redis_lasting = redis_deployment R p others
  for R :: "'s server" and p :: pystr and others :: "'s \<Rightarrow> 's \<Rightarrow> bool" +
  assumes others_last: "others s t \<Longrightarrow> tombstones_last R p s t"

sublocale redis_lasting \<subseteq> lasting: closing_ledger "markers_writable R p" "marked R p" "redis_step R p others" "buried R p"
proof
  fix s i t
  assume w: "markers_writable R p s" and st: "redis_step R p others s (Refunded i) t"
  from st show "i \<in> buried R p t"
  proof cases
    case (refund j marker ttl token ws r)
    then show ?thesis using refund_marks(1) [OF refund(2-4) w] by (auto split: if_splits)
  qed (auto split: if_splits)
next
  fix s e t
  assume w: "markers_writable R p s" and st: "redis_step R p others s e t"
  have stay: "buried R p s \<subseteq> buried R p t"
    if "tombstones_last R p s t" "\<And>i. i \<in> marked R p t \<Longrightarrow> i \<in> buried R p s \<Longrightarrow> i \<in> marked R p s"
    using that by (fastforce simp: tombstones_last_def buried_def marked_def)
  from st show "buried R p s \<subseteq> buried R p t"
  proof cases
    case (acquire i px marker ws r)
    note m = acquire_marks [OF acquire(2-4)]
    have "tombstones_last R p s t" using m(3) by (simp add: tombstones_last_def same_key_def)
    then show ?thesis by (rule stay) (use m(1,2) in \<open>cases "r = Reply ''ok''"; auto\<close>)
  next
    case (refund i marker ttl token ws r)
    note m = refund_marks [OF refund(2-4) w]
    have "tombstones_last R p s t" using m(3) by (simp add: tombstones_last_def)
    then show ?thesis by (rule stay) (use m(1,2) in \<open>cases "r = Reply ''ok''"; auto\<close>)
  next
    case (cancel i e')
    note m = cancel_marks [OF cancel(2,3)]
    have "tombstones_last R p s t" using m(2) by (simp add: tombstones_last_def same_key_def)
    then show ?thesis by (rule stay) (use m(1) in \<open>auto split: if_splits\<close>)
  next
    case elsewhere
    then show ?thesis using books_kept_marks by blast
  next
    case others
    have "tombstones_last R p s t" using others(2) by (rule others_last)
    then show ?thesis by (rule stay) (use others others_wane wane_marks in blast)
  qed
next
  fix s i e t
  assume w: "markers_writable R p s" and i: "i \<in> buried R p s" and st: "redis_step R p others s e t"
  have no: "i \<notin> marked R p s" using i by (simp add: marked_def buried_def)
  from st show "e \<noteq> Acquired i \<and> e \<noteq> Refunded i"
  proof cases
    case (acquire j px marker ws r)
    then show ?thesis using acquire_marks(1) [OF acquire(2-4)] i by auto
  next
    case (refund j marker ttl token ws r)
    then show ?thesis using refund_marks(1) [OF refund(2-4) w] no by auto
  qed auto
qed

section \<open>The reference server\<close>

text \<open>Milliseconds pass: lifetimes shrink, and a key whose lifetime is over is gone.\<close>

fun aged :: "int \<Rightarrow> store \<Rightarrow> store" where
  "aged ms [] = []"
| "aged ms ((k, v, None) # d) = (k, v, None) # aged ms d"
| "aged ms ((k, v, Some l) # d) = (if l \<le> ms then aged ms d else (k, v, Some (l - ms)) # aged ms d)"

definition idles :: "pystr \<Rightarrow> store \<Rightarrow> store \<Rightarrow> bool" where
  "idles p s t \<longleftrightarrow> distinct (map fst s) \<and> (\<exists>ms \<ge> 0. t = aged ms s) \<and>
     tombstones_last (reference_server []) p s t"

lemma aged_keys: "set (map fst (aged ms s)) \<subseteq> set (map fst s)"
  by (induction ms s rule: aged.induct) auto

lemma aged_get: "distinct (map fst s) \<Longrightarrow>
    map_option fst (map_of (aged ms s) k) = map_option fst (map_of s k) \<or> map_of (aged ms s) k = None"
proof (induction ms s rule: aged.induct)
  case (3 ms k' v l d)
  have "map_of (aged ms d) k' = None" using 3(3) aged_keys [of ms d] by (auto simp: map_of_eq_None_iff)
  with 3 show ?case by (auto split: if_splits)
qed auto

lemma idles_wane: "idles p s t \<Longrightarrow> markers_wane (reference_server refused) p s t"
proof -
  assume "idles p s t"
  then obtain ms where "distinct (map fst s)" "t = aged ms s" by (auto simp: idles_def)
  then show ?thesis using aged_get [of s ms] by (simp add: markers_wane_def reference_server_def)
qed

lemma idles_last: "idles p s t \<Longrightarrow> tombstones_last (reference_server refused) p s t"
  by (simp add: idles_def tombstones_last_def reference_server_def)

interpretation reference: redis_lasting "reference_server refused" "ps ''app''" "idles (ps ''app'')" for refused
  by unfold_locales (auto simp: idles_wane idles_last ps_def)

end
