(* ===== verification/RedisClient.thy ===== *)
theory RedisClient
  imports RedisExpiry RedisTraces Diagnostics
begin

text \<open>
  How a client reaches the server: round trips that may be lost before or after they take
  effect, or be sent twice, while other clients act; pipelines, which the server runs as one
  transaction; and the server's clock with its check for jumps (\<^verbatim>\<open>_redis/_server_time.py\<close>).
\<close>

section \<open>The world of a client\<close>

type_synonym redis_exn = "unit failure"

text \<open>What happens to one round trip. The functions are what others do to the server first.\<close>

datatype 's delivery =
    Answered "'s \<Rightarrow> 's"
  | Resent "'s \<Rightarrow> 's" "'s \<Rightarrow> 's"
  | Unanswered "'s \<Rightarrow> 's" redis_exn
  | Unsent "'s \<Rightarrow> 's" redis_exn

text \<open>
  A call of \<^verbatim>\<open>TIME\<close>: the local clocks before it and after its reply, and the reply.
\<close>

record time_reading =
  tr_monotonic :: pyfloat
  tr_wall :: pyfloat
  tr_reply :: pyval
  tr_monotonic_after :: pyfloat
  tr_wall_after :: pyfloat

text \<open>
  The events of a backend's callbacks; a callback is seen by the critical exception it raises,
  if it does (other exceptions are swallowed, and an absent callback raises nothing).
\<close>

datatype missing_reason = StateLossDrained | FreshStart

datatype redis_event =
    RedisWaitStart "(bucket_id, pyfloat) dict" usage
  | RedisMissing bucket_id "missing_reason option \<times> state_key list \<times> state_key list"
  | RedisConsumed "(bucket_id, pyfloat) dict" "(bucket_id, pyfloat) dict" usage pyfloat
  | RedisAfterWait "(bucket_id, pyfloat) dict" "(bucket_id, pyfloat) dict" usage pyfloat
  | RedisRefunded usage usage usage "(bucket_id, pyfloat) dict" "(bucket_id, pyfloat) dict"

text \<open>
  Everything outside the client: server and codecs, redis-py's locks (acquire with token and
  time budget, reacquire and release by token), and per round trip its delivery, the clocks
  and the tokens \<^verbatim>\<open>uuid4\<close> draws.
\<close>

record 's env =
  en_server :: "'s server"
  en_lua :: lua_reader
  en_codec :: codec
  en_unicode :: unicode_db
  en_lock :: "pystr \<Rightarrow> pystr \<Rightarrow> pyfloat \<Rightarrow> 's \<Rightarrow> bool \<times> 's"
  en_reacquire :: "pystr \<Rightarrow> pystr \<Rightarrow> 's \<Rightarrow> bool \<times> 's"
  en_release :: "pystr \<Rightarrow> pystr \<Rightarrow> 's \<Rightarrow> bool \<times> 's"
  en_delivery :: "nat \<Rightarrow> 's delivery"
  en_time :: "nat \<Rightarrow> time_reading"
  en_monotonic :: "nat \<Rightarrow> pyfloat"
  en_wall :: "nat \<Rightarrow> pyfloat"
  en_token :: "nat \<Rightarrow> pystr"
  en_callback :: "redis_event \<Rightarrow> redis_exn option"
  en_wait_start_installed :: bool

record client_clock =
  cc_last_server_time :: pyfloat
  cc_last_monotonic :: pyfloat
  cc_last_wall :: pyfloat

text \<open>A bucket object, a backend, and the world: the server, the round trips made, and the objects.\<close>

record redis_bucket =
  rb_metric :: pystr
  rb_per_seconds :: int
  rb_key :: pystr
  rb_default :: pyfloat
  rb_cached :: "pyfloat option"
  rb_populated :: bool
  rb_cache_time :: pyfloat
  rb_rate :: pyfloat
  rb_history :: "override_expiry option"
  rb_bucket_ttl :: int
  rb_override_ttl :: int
  rb_confirmed_at :: "pyfloat option"
  rb_confirmed_ttl :: int
  rb_missing :: "missing_reason option \<times> state_key list \<times> state_key list"

record redis_backend =
  ra_prefix :: pystr
  ra_buckets :: "nat list"
  ra_dedup_ttl :: int
  ra_sleep_interval :: pyfloat
  ra_lock_blocking_timeout :: pyfloat
  ra_lock_sleep :: pyfloat
  ra_lock_thread_sleep :: pyfloat
  ra_config :: per_model_config
  ra_metric_names :: "pystr set"
  ra_waiters :: "(pystr, waiter_state) dict"

record 's world =
  rw_server :: 's
  rw_tick :: nat
  rw_clock :: "client_clock option"
  rw_bucket :: "nat \<Rightarrow> redis_bucket"
  rw_self :: redis_backend
  rw_failed_cleanups :: "(pystr option \<times> redis_exn) list"

type_synonym ('s, 'a) rop = "('s world, redis_exn, 'a) eff"

text \<open>One round trip that runs \<open>f\<close> on the server.\<close>

definition round_trip :: "'s env \<Rightarrow> ('s \<Rightarrow> 'r \<times> 's) \<Rightarrow> ('s, 'r) rop" where
  "round_trip E f w =
     (let upd = (\<lambda>s. w\<lparr>rw_server := s, rw_tick := Suc (rw_tick w)\<rparr>) in
      case en_delivery E (rw_tick w) of
        Answered g \<Rightarrow> (case f (g (rw_server w)) of (r, t) \<Rightarrow> (Inr r, upd t))
      | Resent g h \<Rightarrow> (case f (h (snd (f (g (rw_server w))))) of (r, t) \<Rightarrow> (Inr r, upd t))
      | Unanswered g e \<Rightarrow> (Inl e, upd (snd (f (g (rw_server w)))))
      | Unsent g e \<Rightarrow> (Inl e, upd (g (rw_server w))))"

definition raising :: "'a result \<Rightarrow> ('s, 'a) rop" where
  "raising r = (case r of Inl e \<Rightarrow> op_raise (Plain e) | Inr x \<Rightarrow> op_return x)"

text \<open>An error reply raises \<^verbatim>\<open>ResponseError\<close> in the client, a subclass of \<^verbatim>\<open>RedisError\<close>.\<close>

definition response_error :: redis_exn where "response_error = RedisFailure ''ResponseError''"
definition lock_error :: redis_exn where "lock_error = RedisFailure ''LockError''"

fun is_redis_error :: "redis_exn \<Rightarrow> bool" where
  "is_redis_error (RedisFailure m) = True"
| "is_redis_error _ = False"

definition stored_reply :: "'s env \<Rightarrow> bytes option \<Rightarrow> pyval" where
  "stored_reply E v = (case v of None \<Rightarrow> VNone | Some b \<Rightarrow> cd_reply (en_codec E) b)"

definition redis_get :: "'s env \<Rightarrow> pystr \<Rightarrow> ('s, pyval) rop" where
  "redis_get E k = round_trip E (\<lambda>s. (stored_reply E (sv_get (en_server E) k s), s))"

definition redis_exists :: "'s env \<Rightarrow> pystr \<Rightarrow> ('s, bool) rop" where
  "redis_exists E k = round_trip E (\<lambda>s. (sv_get (en_server E) k s \<noteq> None, s))"

definition redis_eval :: "'s env \<Rightarrow> ('s \<Rightarrow> 'r option \<times> 's) \<Rightarrow> ('s, 'r) rop" where
  "redis_eval E f = op_bind (round_trip E f) (\<lambda>r. case r of None \<Rightarrow> op_raise response_error | Some x \<Rightarrow> op_return x)"

section \<open>Pipelines\<close>

datatype command =
    Get pystr
  | SetEx pystr bytes int
  | SetNxEx pystr bytes int
  | Del "pystr list"
  | RefreshTtl pystr pystr pystr int pyfloat pyfloat

text \<open>One command of a transaction: its reply (\<open>None\<close> an error) and the state after it.\<close>

fun delete_keys :: "'s server \<Rightarrow> pystr list \<Rightarrow> 's \<Rightarrow> pyval option \<times> 's" where
  "delete_keys R [] s = (Some (VInt 0), s)"
| "delete_keys R (k # ks) s = (case sv_del R k s of None \<Rightarrow> (None, s)
     | Some t \<Rightarrow> (case delete_keys R ks t of
         (Some (VInt n), u) \<Rightarrow> (Some (VInt (n + (if sv_get R k s = None then 0 else 1))), u)
       | (r, u) \<Rightarrow> (r, u)))"

fun run_command :: "'s env \<Rightarrow> command \<Rightarrow> 's \<Rightarrow> pyval option \<times> 's" where
  "run_command E (Get k) s = (Some (stored_reply E (sv_get (en_server E) k s)), s)"
| "run_command E (SetEx k v ttl) s = (case sv_set (en_server E) k v (Some (1000 * ttl)) s of
     None \<Rightarrow> (None, s) | Some t \<Rightarrow> (Some (VBool True), t))"
| "run_command E (SetNxEx k v ttl) s = (case set_nx (en_server E) k v (1000 * ttl) s of
     (Claimed, t) \<Rightarrow> (Some (VBool True), t) | (NotClaimed, t) \<Rightarrow> (Some VNone, t) | (Refused, t) \<Rightarrow> (None, t))"
| "run_command E (Del ks) s = delete_keys (en_server E) ks s"
| "run_command E (RefreshTtl k ck hk ttl configured per) s =
     (case refresh_state_ttl (en_server E) (en_lua E) k ck hk ttl configured per s of
        (r, t) \<Rightarrow> (map_option VInt r, t))"

fun run_commands :: "'s env \<Rightarrow> command list \<Rightarrow> 's \<Rightarrow> pyval option list \<times> 's" where
  "run_commands E [] s = ([], s)"
| "run_commands E (c # cs) s =
     (case run_command E c s of (r, t) \<Rightarrow> (case run_commands E cs t of (rs, u) \<Rightarrow> (r # rs, u)))"

text \<open>
  \<^verbatim>\<open>pipeline.execute()\<close> with \<^verbatim>\<open>_raise_pipeline_response_error\<close> and \<^verbatim>\<open>_validate_pipeline_results\<close>: the
  first error reply is raised although the other commands took effect.
\<close>

definition pipeline_error :: redis_exn where
  "pipeline_error = Plain (pipeline_result_error ''Redis pipeline failed'')"

definition execute_pipeline :: "'s env \<Rightarrow> command list \<Rightarrow> ('s, pyval list) rop" where
  "execute_pipeline E cs = op_bind (round_trip E (run_commands E cs)) (\<lambda>rs.
     if None \<in> set rs then op_raise pipeline_error else op_return (map the rs))"

section \<open>The server's clock\<close>

definition MAX_FORWARD_JUMP_SECONDS :: pyfloat where "MAX_FORWARD_JUMP_SECONDS = Fin 10"
definition MAX_REDIS_TIME_SECONDS :: int where "MAX_REDIS_TIME_SECONDS = 253402300799"

definition parse_time_response :: "pyval \<Rightarrow> (int \<times> int) result" where
  "parse_time_response raw =
     (case (case raw of VTuple vs \<Rightarrow> vs | VList vs \<Rightarrow> vs | _ \<Rightarrow> []) of
        [VInt seconds, VInt micros] \<Rightarrow>
          if seconds < 0 \<or> MAX_REDIS_TIME_SECONDS < seconds \<or> \<not> (0 \<le> micros \<and> micros < 1000000)
          then Inl (ValueError ''Redis TIME out of range'') else Inr (seconds, micros)
      | _ \<Rightarrow> Inl (TypeError ''Redis TIME returned unexpected shape''))"

definition time_to_float :: "int \<times> int \<Rightarrow> pyfloat result" where
  "time_to_float t =
     bind_res (float_of_int (fst t)) (\<lambda>s. bind_res (float_of_int (snd t)) (\<lambda>m.
       bind_res (fdiv m (Fin 1000000)) (\<lambda>f. Inr (fadd s f))))"

text \<open>The anchor never moves back; it moves before a jump is reported, so once per jump.\<close>

definition check_forward_jump ::
  "pyfloat \<Rightarrow> time_reading \<Rightarrow> client_clock option \<Rightarrow> unit result \<times> client_clock option" where
  "check_forward_jump server_time r c =
     (let anchor = Some \<lparr>cc_last_server_time = server_time, cc_last_monotonic = tr_monotonic r, cc_last_wall = tr_wall r\<rparr> in
      case c of
        None \<Rightarrow> (Inr (), anchor)
      | Some st \<Rightarrow>
        if flt server_time (cc_last_server_time st) then (Inr (), c)
        else let server_elapsed = fsub server_time (cc_last_server_time st);
                 monotonic_elapsed = fsub (tr_monotonic_after r) (cc_last_monotonic st);
                 wall_elapsed = fsub (tr_wall_after r) (cc_last_wall st) in
          if fle (fsub server_elapsed monotonic_elapsed) MAX_FORWARD_JUMP_SECONDS \<or>
             fle (fsub server_elapsed wall_elapsed) MAX_FORWARD_JUMP_SECONDS
          then (Inr (), anchor)
          else (Inl (RuntimeError ''Redis server TIME jumped forward''), anchor))"

definition sync_server_time :: "'s env \<Rightarrow> ('s, pyfloat) rop" where
  "sync_server_time E =
     op_bind (op_gets rw_tick) (\<lambda>n. let r = en_time E n in
     op_bind (round_trip E (\<lambda>s. (tr_reply r, s))) (\<lambda>reply.
     op_bind (raising (bind_res (parse_time_response reply) time_to_float)) (\<lambda>t w.
       case check_forward_jump t r (rw_clock w) of
         (Inl e, c) \<Rightarrow> (Inl (Plain e), w\<lparr>rw_clock := c\<rparr>)
       | (Inr _, c) \<Rightarrow> (Inr t, w\<lparr>rw_clock := c\<rparr>))))"

end
