(* ===== verification/RedisBucket.thy ===== *)
theory RedisBucket
  imports RedisClient
begin

text \<open>
  \<^verbatim>\<open>_redis/_sync_bucket.py\<close>: a bucket whose level and override live on the server, with its
  cache of the override, its history and its proof that the server's state was there.
\<close>

section \<open>The object\<close>

definition MAX_CAPACITY_CACHE_TTL :: pyfloat where "MAX_CAPACITY_CACHE_TTL = Fin 1"

definition last_checked_key :: "redis_bucket \<Rightarrow> pystr" where
  "last_checked_key b = join_colon [rb_key b, ps ''last_checked'']"
definition capacity_key :: "redis_bucket \<Rightarrow> pystr" where
  "capacity_key b = join_colon [rb_key b, ps ''capacity'']"
definition lock_key :: "redis_bucket \<Rightarrow> pystr" where
  "lock_key b = join_colon [rb_key b, ps ''lock'']"
definition override_key :: "redis_bucket \<Rightarrow> pystr" where
  "override_key b = join_colon [rb_key b, ps ''max_capacity_override'']"
definition history_key :: "redis_bucket \<Rightarrow> pystr" where
  "history_key b = join_colon [rb_key b, ps ''override_expiry'']"

definition rb_id :: "redis_bucket \<Rightarrow> bucket_id" where
  "rb_id b = (rb_metric b, rb_per_seconds b)"

definition mk_redis_bucket ::
  "unicode_db \<Rightarrow> pydantic \<Rightarrow> quota \<Rightarrow> per_model_config \<Rightarrow> pystr \<Rightarrow> pyval \<Rightarrow> pyval \<Rightarrow> redis_bucket result" where
  "mk_redis_bucket udb pyd quota cfg key_prefix bucket_ttl override_ttl =
     bind_res (quota_revalidate udb pyd quota) (\<lambda>q.
     bind_res (config_with_family udb pyd cfg (cfg_model_family cfg)) (\<lambda>c.
     bind_res (validate_per_seconds (VInt (q_per_seconds q))) (\<lambda>per.
     bind_res (validate_key_prefix udb (VStr key_prefix)) (\<lambda>prefix.
     bind_res (get_model_family c) (\<lambda>family.
     bind_res (redis_namespace_key udb prefix [ps ''bucket'', family, q_metric q, show_int per]) (\<lambda>key.
     bind_res (validate_max_capacity_finite_positive (VFloat (q_limit q))) (\<lambda>mx.
     bind_res (validate_redis_ttl_seconds bucket_ttl) (\<lambda>ttl.
     bind_res (validate_redis_ttl_seconds (if override_ttl = VNone then VInt ttl else override_ttl)) (\<lambda>ottl.
     bind_res (calculate_rate_per_sec mx per) (\<lambda>rate.
     bind_res (for_each [ps ''last_checked'', ps ''capacity'', ps ''lock'', ps ''max_capacity_override'', ps ''override_expiry'']
         (\<lambda>suffix _. bind_res (redis_key_with_suffix key [suffix]) (\<lambda>_. Inr ())) ()) (\<lambda>_.
       Inr \<lparr>rb_metric = q_metric q, rb_per_seconds = per, rb_key = key, rb_default = mx, rb_cached = None,
            rb_populated = False, rb_cache_time = Fin 0, rb_rate = rate, rb_history = None,
            rb_bucket_ttl = ttl, rb_override_ttl = ottl, rb_confirmed_at = None, rb_confirmed_ttl = ttl,
            rb_missing = (None, [], [])\<rparr>)))))))))))"

definition max_capacity :: "redis_bucket \<Rightarrow> pyfloat" where
  "max_capacity b = (case rb_cached b of Some v \<Rightarrow> v | None \<Rightarrow> rb_default b)"

definition bucket_of :: "nat \<Rightarrow> ('s, redis_bucket) rop" where
  "bucket_of i = op_gets (\<lambda>w. rw_bucket w i)"

definition on_bucket :: "nat \<Rightarrow> (redis_bucket \<Rightarrow> redis_bucket) \<Rightarrow> ('s, unit) rop" where
  "on_bucket i f = op_modify (\<lambda>w. w\<lparr>rw_bucket := (rw_bucket w)(i := f (rw_bucket w i))\<rparr>)"

text \<open>\<^verbatim>\<open>time.time()\<close> and \<^verbatim>\<open>time.monotonic()\<close> of the client's host.\<close>

definition wall_now :: "'s env \<Rightarrow> ('s, pyfloat) rop" where
  "wall_now E = op_gets (\<lambda>w. en_wall E (rw_tick w))"

definition monotonic_now :: "'s env \<Rightarrow> ('s, pyfloat) rop" where
  "monotonic_now E = op_gets (\<lambda>w. en_monotonic E (rw_tick w))"

section \<open>The cached override\<close>

definition set_cached_override :: "nat \<Rightarrow> pyfloat option \<Rightarrow> ('s, unit) rop" where
  "set_cached_override i v =
     op_bind (raising (case v of None \<Rightarrow> Inr None
        | Some x \<Rightarrow> bind_res (validate_max_capacity_finite_positive (VFloat x)) (\<lambda>y. Inr (Some y)))) (\<lambda>c.
     op_bind (on_bucket i (\<lambda>b. b\<lparr>rb_cached := c, rb_populated := True\<rparr>)) (\<lambda>_.
     op_bind (bucket_of i) (\<lambda>b.
     op_bind (raising (calculate_rate_per_sec (max_capacity b) (rb_per_seconds b))) (\<lambda>rate.
       on_bucket i (\<lambda>b. b\<lparr>rb_rate := rate\<rparr>)))))"

definition apply_parsed_override :: "'s env \<Rightarrow> nat \<Rightarrow> pyfloat option \<Rightarrow> ('s, unit) rop" where
  "apply_parsed_override E i v =
     op_bind (set_cached_override i v) (\<lambda>_.
     op_bind (wall_now E) (\<lambda>t. on_bucket i (\<lambda>b. b\<lparr>rb_cache_time := t\<rparr>)))"

definition cache_is_fresh :: "redis_bucket \<Rightarrow> pyfloat \<Rightarrow> bool" where
  "cache_is_fresh b now \<longleftrightarrow>
     (rb_cached b \<noteq> None \<or> rb_populated b) \<and> flt (fsub now (rb_cache_time b)) MAX_CAPACITY_CACHE_TTL"

section \<open>Reading the override\<close>

definition parse_positive_finite_value :: "pyval option \<Rightarrow> pyfloat option" where
  "parse_positive_finite_value v = (case v of None \<Rightarrow> None
     | Some x \<Rightarrow> if is_bool_like x \<or> \<not> isinstance_int_float x then None
                else (case validate_max_capacity_finite_positive x of Inl _ \<Rightarrow> None | Inr f \<Rightarrow> Some f))"

definition corrupt_override :: exn where
  "corrupt_override = ValueError ''Invalid Redis max_capacity override''"

text \<open>\<^verbatim>\<open>MaxCapacityOverrideParseError\<close> is a \<^verbatim>\<open>ValueError\<close>. A stale anchor is ignored, not an error.\<close>

definition deserialize_override :: "codec \<Rightarrow> pyfloat \<Rightarrow> pyval \<Rightarrow> pyfloat option result" where
  "deserialize_override C configured raw =
     (if raw = VNone then Inr None
      else case text_length raw of
        None \<Rightarrow> Inl (ValueError ''Redis max_capacity override must be bytes, str, or None'')
      | Some n \<Rightarrow>
        if MAX_REDIS_GET_VALUE_BYTES < n then Inl (ValueError ''Redis max_capacity override is too large'')
        else (case (case raw of VBytes b \<Rightarrow> map_option VStr (cd_decode C b) | v \<Rightarrow> Some v) of
          None \<Rightarrow> Inl corrupt_override
        | Some text \<Rightarrow> (case cd_loads C text of
            None \<Rightarrow> Inl corrupt_override
          | Some v \<Rightarrow>
            (case parse_positive_finite_value (json_field v ''override_max_capacity'') of
               None \<Rightarrow> Inl corrupt_override
             | Some value \<Rightarrow>
               (case parse_positive_finite_value (json_field v ''configured_max_capacity'') of
                  None \<Rightarrow> Inl corrupt_override
                | Some anchor \<Rightarrow>
                  if isclose (flit (1 / 1000000000000)) anchor configured then Inr (Some value) else Inr None)))))"

definition read_override :: "'s env \<Rightarrow> nat \<Rightarrow> ('s, pyfloat option) rop" where
  "read_override E i =
     op_bind (bucket_of i) (\<lambda>b. op_bind (redis_get E (override_key b)) (\<lambda>raw.
       raising (deserialize_override (en_codec E) (rb_default b) raw)))"

definition read_override_expiry :: "'s env \<Rightarrow> nat \<Rightarrow> ('s, override_expiry option) rop" where
  "read_override_expiry E i =
     op_bind (bucket_of i) (\<lambda>b. op_bind (redis_get E (history_key b)) (\<lambda>raw.
       raising (bind_res (validate_redis_get_result raw) (parse_expiry (en_codec E)))))"

section \<open>Writing the override and its history\<close>

definition write_override_with_expiry :: "'s env \<Rightarrow> nat \<Rightarrow> pyfloat \<Rightarrow> bool \<Rightarrow> ('s, unit) rop" where
  "write_override_with_expiry E i value refresh =
     op_bind (sync_server_time E) (\<lambda>now.
     op_bind (bucket_of i) (\<lambda>b.
     op_bind (raising (float_of_int (rb_override_ttl b))) (\<lambda>ttl.
     op_bind (redis_eval E (write_override (en_server E) (en_lua E)
         (override_key b) (history_key b) (last_checked_key b) (capacity_key b)
         \<lparr>ow_refresh = refresh,
          ow_payload = override_payload (en_codec E) (rb_default b) value,
          ow_history = expiry_payload (en_codec E) (rb_default b) value (fadd now ttl),
          ow_history_ttl = max (rb_bucket_ttl b) (rb_override_ttl b),
          ow_configured = rb_default b, ow_value = value, ow_ttl = rb_override_ttl b\<rparr>)) (\<lambda>r.
     op_bind (raising (validate_expire_result (VInt r))) (\<lambda>written.
       if \<not> written \<and> \<not> refresh
       then op_raise (Plain (pipeline_result_error ''Redis override write did not commit''))
       else op_return ())))))"

definition refresh_override_expiry_retention :: "'s env \<Rightarrow> nat \<Rightarrow> int option \<Rightarrow> ('s, unit) rop" where
  "refresh_override_expiry_retention E i minimum_ttl =
     op_bind (bucket_of i) (\<lambda>b.
     op_bind (raising (case minimum_ttl of None \<Rightarrow> Inr (rb_bucket_ttl b)
        | Some t \<Rightarrow> bind_res (validate_redis_ttl_seconds (VInt t)) (\<lambda>v. Inr (max (rb_bucket_ttl b) v)))) (\<lambda>minimum.
     op_bind (redis_eval E (retain_expiry (en_server E) (history_key b) (last_checked_key b) (capacity_key b) minimum)) (\<lambda>r.
     op_bind (raising (validate_expire_result (VInt r))) (\<lambda>_. op_return ()))))"

definition refresh_override_ttl :: "'s env \<Rightarrow> nat \<Rightarrow> pyfloat option \<Rightarrow> ('s, unit) rop" where
  "refresh_override_ttl E i v = (case v of
      None \<Rightarrow> op_bind (read_override_expiry E i) (\<lambda>h.
                if h \<noteq> None then refresh_override_expiry_retention E i None else op_return ())
    | Some x \<Rightarrow> write_override_with_expiry E i x True)"

definition refresh_max_capacity_from_redis :: "'s env \<Rightarrow> nat \<Rightarrow> ('s, pyfloat) rop" where
  "refresh_max_capacity_from_redis E i =
     op_bind (read_override E i) (\<lambda>v.
     op_bind (case v of None \<Rightarrow> read_override_expiry E i | Some _ \<Rightarrow> op_return None) (\<lambda>h.
     op_bind (refresh_override_ttl E i v) (\<lambda>_.
     op_bind (apply_parsed_override E i v) (\<lambda>_.
     op_bind (on_bucket i (\<lambda>b. b\<lparr>rb_history := h\<rparr>)) (\<lambda>_.
       op_gets (\<lambda>w. max_capacity (rw_bucket w i)))))))"

definition get_max_capacity :: "'s env \<Rightarrow> nat \<Rightarrow> ('s, pyfloat) rop" where
  "get_max_capacity E i =
     op_bind (wall_now E) (\<lambda>now. op_bind (bucket_of i) (\<lambda>b.
       if cache_is_fresh b now then op_return (max_capacity b) else refresh_max_capacity_from_redis E i))"

text \<open>A write that is committed stays committed when repairing the cache fails.\<close>

definition suppress_exceptions :: "('s, unit) rop \<Rightarrow> ('s, unit) rop" where
  "suppress_exceptions m = op_try m (\<lambda>e. if is_exception e then op_return () else op_raise e)"

definition bucket_set_max_capacity :: "'s env \<Rightarrow> nat \<Rightarrow> pyval \<Rightarrow> ('s, unit) rop" where
  "bucket_set_max_capacity E i v =
     op_bind (raising (if is_bool_like v then Inl (ValueError ''max_capacity must not be a boolean'')
                     else validate_max_capacity_finite_positive v)) (\<lambda>value.
     op_bind (write_override_with_expiry E i value False) (\<lambda>_.
       op_try (apply_parsed_override E i (Some value)) (\<lambda>e.
         if is_exception e
         then suppress_exceptions (op_bind (refresh_max_capacity_from_redis E i) (\<lambda>_. op_return ()))
         else op_raise e)))"

definition set_configured_max_capacity :: "nat \<Rightarrow> pyval \<Rightarrow> ('s, unit) rop" where
  "set_configured_max_capacity i v =
     op_bind (raising (if is_bool_like v then Inl (ValueError ''max_capacity must not be a boolean'')
                     else validate_max_capacity_finite_positive v)) (\<lambda>value.
     op_bind (on_bucket i (\<lambda>b. b\<lparr>rb_default := value\<rparr>)) (\<lambda>_.
     op_bind (bucket_of i) (\<lambda>b.
       if rb_cached b = None
       then op_bind (raising (calculate_rate_per_sec value (rb_per_seconds b))) (\<lambda>rate.
              on_bucket i (\<lambda>b. b\<lparr>rb_rate := rate\<rparr>))
       else op_return ())))"

definition redis_delete :: "'s env \<Rightarrow> pystr list \<Rightarrow> ('s, pyval) rop" where
  "redis_delete E ks = redis_eval E (delete_keys (en_server E) ks)"

definition clear_max_capacity_override :: "'s env \<Rightarrow> nat \<Rightarrow> ('s, unit) rop" where
  "clear_max_capacity_override E i =
     op_bind (bucket_of i) (\<lambda>b.
     op_bind (redis_delete E [override_key b, history_key b]) (\<lambda>_.
     op_bind (on_bucket i (\<lambda>b. b\<lparr>rb_history := None\<rparr>)) (\<lambda>_.
       apply_parsed_override E i None)))"

section \<open>The level\<close>

definition capacity_ttl :: "redis_bucket \<Rightarrow> pyfloat \<Rightarrow> pyfloat option \<Rightarrow> int result" where
  "capacity_ttl b capacity maximum =
     debt_ttl_seconds capacity (rb_bucket_ttl b) (rb_per_seconds b)
       (case maximum of None \<Rightarrow> max_capacity b | Some m \<Rightarrow> m) (rb_default b)"

definition state_ttl_refresh :: "redis_bucket \<Rightarrow> command list" where
  "state_ttl_refresh b =
     map (\<lambda>k. RefreshTtl k (capacity_key b) (history_key b) (rb_bucket_ttl b) (rb_default b)
                (Fin (of_int (rb_per_seconds b))))
       [last_checked_key b, capacity_key b]"

definition retain_capacity_history :: "'s env \<Rightarrow> nat \<Rightarrow> int \<Rightarrow> ('s, unit) rop" where
  "retain_capacity_history E i ttl =
     op_bind (read_override_expiry E i) (\<lambda>h.
       if h \<noteq> None then refresh_override_expiry_retention E i (Some ttl) else op_return ())"

definition confirm_state_present :: "nat \<Rightarrow> pyfloat \<Rightarrow> ('s, unit) rop" where
  "confirm_state_present i now =
     on_bucket i (\<lambda>b. b\<lparr>rb_confirmed_at := Some now, rb_confirmed_ttl := rb_bucket_ttl b\<rparr>)"

definition redis_state_loss_suspected :: "redis_bucket \<Rightarrow> pyfloat \<Rightarrow> bool result" where
  "redis_state_loss_suspected b now = (case rb_confirmed_at b of
      None \<Rightarrow> Inr False
    | Some c \<Rightarrow> bind_res (float_of_int (rb_confirmed_ttl b)) (\<lambda>ttl.
        Inr (flt (fsub now c) (fmul ttl (flit (9 / 10))))))"

definition set_missing_context ::
  "nat \<Rightarrow> missing_reason option \<times> state_key list \<times> state_key list \<Rightarrow> ('s, unit) rop" where
  "set_missing_context i m = on_bucket i (\<lambda>b. b\<lparr>rb_missing := m\<rparr>)"

text \<open>
  The two writes of a level. The lifetime is computed and the history extended before they
  are queued; \<open>bucket_set_capacity\<close> also executes them.
\<close>

definition capacity_writes ::
  "'s env \<Rightarrow> nat \<Rightarrow> pyfloat \<Rightarrow> pyfloat \<Rightarrow> bool \<Rightarrow> pyfloat option \<Rightarrow> ('s, command list) rop" where
  "capacity_writes E i new_capacity now allow_negative retention =
     op_bind (raising (guard (isfinite new_capacity) (ValueError ''capacity must be finite''))) (\<lambda>_.
     op_bind (bucket_of i) (\<lambda>b.
       let c = (if allow_negative then new_capacity else fmax (Fin 0) new_capacity) in
     op_bind (raising (capacity_ttl b c retention)) (\<lambda>ttl.
     op_bind (retain_capacity_history E i ttl) (\<lambda>_.
       op_return [SetEx (last_checked_key b) (cd_float (en_codec E) now) ttl,
                  SetEx (capacity_key b) (cd_float (en_codec E) c) ttl]))))"

definition validate_sets :: "pyval list \<Rightarrow> unit result" where
  "validate_sets vs = for_each vs (\<lambda>v _. validate_set_result v) ()"

definition bucket_set_capacity ::
  "'s env \<Rightarrow> nat \<Rightarrow> pyfloat \<Rightarrow> pyfloat \<Rightarrow> bool \<Rightarrow> pyfloat option \<Rightarrow> ('s, unit) rop" where
  "bucket_set_capacity E i new_capacity now allow_negative retention =
     op_bind (capacity_writes E i new_capacity now allow_negative retention) (\<lambda>cs.
     op_bind (execute_pipeline E cs) (\<lambda>rs.
     op_bind (raising (validate_sets rs)) (\<lambda>_. confirm_state_present i now)))"

text \<open>\<^verbatim>\<open>get_capacity()\<close> with a pipeline of its own.\<close>

definition bucket_get_capacity :: "'s env \<Rightarrow> nat \<Rightarrow> ('s, calculated_capacity) rop" where
  "bucket_get_capacity E i =
     op_bind (sync_server_time E) (\<lambda>now.
     op_bind (bucket_of i) (\<lambda>b.
     op_bind (read_override E i) (\<lambda>override.
     op_bind (execute_pipeline E ([Get (last_checked_key b), Get (capacity_key b)] @ state_ttl_refresh b)) (\<lambda>rs.
     op_bind (raising (redis_state_loss_suspected b now)) (\<lambda>lost.
     op_bind (raising (normalize_bucket_state_pair (rs ! 0) (rs ! 1) now lost)) (\<lambda>(l, c).
     op_bind (raising (bind_res (validate_expire_result (rs ! 2)) (\<lambda>x.
        bind_res (validate_expire_result (rs ! 3)) (\<lambda>y. Inr (x \<and> y))))) (\<lambda>extended.
     op_bind (read_override_expiry E i) (\<lambda>history.
     op_bind (raising (calculate_with_expiry history override (rb_default b) (rb_per_seconds b) l c now)) (\<lambda>res.
     op_bind (refresh_override_ttl E i override) (\<lambda>_.
     op_bind (apply_parsed_override E i override) (\<lambda>_.
     op_bind (on_bucket i (\<lambda>b. b\<lparr>rb_history := history\<rparr>)) (\<lambda>_.
     op_bind (if bucket_state_missing_keys (rs ! 0) (rs ! 1) \<noteq> [] \<and> \<not> is_fresh_start res
              then bucket_set_capacity E i (Fin 0) now False None
              else if bucket_state_missing_keys (rs ! 0) (rs ! 1) = [] \<and> extended
              then confirm_state_present i now
              else op_return ()) (\<lambda>_.
       op_return res)))))))))))))"

end
