(* ===== verification/RedisStore.thy ===== *)
theory RedisStore
  imports RedisBucket
begin

text \<open>
  The locked part of \<^verbatim>\<open>_redis/_sync_backend.py\<close>: the locks of a set of buckets, reading all
  levels with the repair of lost state, and the three ways of writing them: in a pipeline, by
  the acquisition script and by the refund script, with what is read back when the answer is
  lost.
\<close>

type_synonym capacity_map = "(bucket_id, pyfloat) dict"

definition self_of :: "('s, redis_backend) rop" where "self_of = op_gets rw_self"
definition my_buckets :: "('s, nat list) rop" where "my_buckets = op_gets (\<lambda>w. ra_buckets (rw_self w))"

definition my_family :: "('s, pystr) rop" where
  "my_family = op_bind self_of (\<lambda>a. raising (get_model_family (ra_config a)))"

text \<open>A loop whose body returns something.\<close>

fun op_map :: "('a \<Rightarrow> ('s, 'e, 'b) eff) \<Rightarrow> 'a list \<Rightarrow> ('s, 'e, 'b list) eff" where
  "op_map f [] = op_return []"
| "op_map f (x # xs) = op_bind (f x) (\<lambda>y. op_bind (op_map f xs) (\<lambda>ys. op_return (y # ys)))"

section \<open>Locks\<close>

definition release_lock :: "'s env \<Rightarrow> pystr \<times> pystr \<Rightarrow> ('s, unit) rop" where
  "release_lock E l = op_bind (round_trip E (en_release E (fst l) (snd l))) (\<lambda>_. op_return ())"

text \<open>The stack closes in reverse order; a release that raises does not stop the others.\<close>

fun release_all :: "'s env \<Rightarrow> (pystr \<times> pystr) list \<Rightarrow> ('s, unit) rop" where
  "release_all E [] = op_return ()"
| "release_all E (l # ls) = op_finally (release_all E ls) (release_lock E l)"

definition extend_locks :: "'s env \<Rightarrow> (pystr \<times> pystr) list \<Rightarrow> ('s, unit) rop" where
  "extend_locks E held = op_for_each held (\<lambda>l.
     op_bind (round_trip E (en_reacquire E (fst l) (snd l))) (\<lambda>owned.
       op_require owned (Plain BackendLockContentionError)))"

definition effective_lock_timeout :: "redis_backend \<Rightarrow> pyfloat option \<Rightarrow> pyfloat result" where
  "effective_lock_timeout a t = (case t of
      None \<Rightarrow> Inr (ra_lock_blocking_timeout a)
    | Some f \<Rightarrow> bind_res (validate_timeout (VFloat f)) (\<lambda>v. Inr (case v of
        None \<Rightarrow> ra_lock_blocking_timeout a | Some r \<Rightarrow> fmin r (ra_lock_blocking_timeout a))))"

text \<open>
  The token is drawn before the lock is tried, so that a lock set by an interrupted call can
  be released by its token.
\<close>

definition acquire_lock :: "'s env \<Rightarrow> pyfloat \<Rightarrow> nat \<Rightarrow> ('s, pystr \<times> pystr) rop" where
  "acquire_lock E stop_at i =
     op_bind (monotonic_now E) (\<lambda>now.
     op_bind (bucket_of i) (\<lambda>b.
     op_bind (op_gets (\<lambda>w. en_token E (rw_tick w))) (\<lambda>token.
     op_bind (op_try (round_trip E (en_lock E (lock_key b) token (fmax (Fin 0) (fsub stop_at now)))) (\<lambda>e.
         op_bind (suppress_exceptions (release_lock E (lock_key b, token))) (\<lambda>_. op_raise e))) (\<lambda>acquired.
     op_bind (op_require acquired lock_error) (\<lambda>_. op_return (lock_key b, token))))))"

fun lock_loop :: "'s env \<Rightarrow> pyfloat \<Rightarrow> nat list \<Rightarrow> (pystr \<times> pystr) list \<Rightarrow> ('s, (pystr \<times> pystr) list) rop" where
  "lock_loop E stop_at [] held = op_return held"
| "lock_loop E stop_at (i # is) held =
     op_bind (op_try
         (op_bind (if held = [] then op_return () else extend_locks E held) (\<lambda>_. acquire_lock E stop_at i))
         (\<lambda>e. op_bind (release_all E held) (\<lambda>_. op_raise e))) (\<lambda>l.
       lock_loop E stop_at is (held @ [l]))"

definition lock_buckets :: "'s env \<Rightarrow> pyfloat option \<Rightarrow> nat list \<Rightarrow> ('s, (pystr \<times> pystr) list) rop" where
  "lock_buckets E blocking_timeout is =
     op_bind self_of (\<lambda>a.
     op_bind (raising (effective_lock_timeout a blocking_timeout)) (\<lambda>t.
     op_bind (monotonic_now E) (\<lambda>now. lock_loop E (fadd now t) is [])))"

fun is_lock_error :: "redis_exn \<Rightarrow> bool" where
  "is_lock_error (RedisFailure m) \<longleftrightarrow> m = ''LockError'' \<or> m = ''LockNotOwnedError''"
| "is_lock_error _ = False"

definition lock_or_contention :: "'s env \<Rightarrow> nat list \<Rightarrow> ('s, (pystr \<times> pystr) list) rop" where
  "lock_or_contention E is = op_try (lock_buckets E None is)
     (\<lambda>e. if is_lock_error e then op_raise (Plain BackendLockContentionError) else op_raise e)"

text \<open>\<^verbatim>\<open>with self._lock_or_contention(...) as lock_stack:\<close>\<close>

definition with_locks :: "'s env \<Rightarrow> nat list \<Rightarrow> ((pystr \<times> pystr) list \<Rightarrow> ('s, 'a) rop) \<Rightarrow> ('s, 'a) rop" where
  "with_locks E is body =
     op_bind (lock_or_contention E is) (\<lambda>held. op_finally (body held) (release_all E held))"

section \<open>Reading the levels\<close>

record parsed_read =
  pr_ref :: nat
  pr_id :: bucket_id
  pr_missing :: "state_key list"
  pr_present :: "state_key list"
  pr_override :: "pyfloat option"
  pr_result :: calculated_capacity
  pr_history :: "override_expiry option"
  pr_extended :: bool

definition capacity_reads :: "redis_bucket list \<Rightarrow> command list" where
  "capacity_reads bs =
     concat (map (\<lambda>b. [Get (last_checked_key b), Get (capacity_key b)] @ state_ttl_refresh b) bs) @
     map (\<lambda>b. Get (override_key b)) bs"

text \<open>Bucket number \<open>n\<close> of \<open>nb\<close>; its history is read from the server at this point.\<close>

definition parse_capacity_read ::
  "'s env \<Rightarrow> pyfloat \<Rightarrow> pyval list \<Rightarrow> nat \<Rightarrow> nat \<times> nat \<Rightarrow> ('s, parsed_read) rop" where
  "parse_capacity_read E now rs nb ni =
     (let n = fst ni; i = snd ni; l_raw = rs ! (4 * n); c_raw = rs ! (4 * n + 1) in
     op_bind (bucket_of i) (\<lambda>b.
     op_bind (raising (redis_state_loss_suspected b now)) (\<lambda>lost.
     op_bind (raising (normalize_bucket_state_pair l_raw c_raw now lost)) (\<lambda>(l, c).
     op_bind (raising (validate_expire_result (rs ! (4 * n + 2)))) (\<lambda>x.
     op_bind (raising (validate_expire_result (rs ! (4 * n + 3)))) (\<lambda>y.
     op_bind (raising (bind_res (validate_redis_get_result (rs ! (4 * nb + n)))
         (deserialize_override (en_codec E) (rb_default b)))) (\<lambda>override.
     op_bind (read_override_expiry E i) (\<lambda>history.
     op_bind (raising (calculate_with_expiry history override (rb_default b) (rb_per_seconds b) l c now)) (\<lambda>res.
       op_return \<lparr>pr_ref = i, pr_id = rb_id b, pr_missing = bucket_state_missing_keys l_raw c_raw,
         pr_present = bucket_state_present_keys l_raw c_raw, pr_override = override, pr_result = res,
         pr_history = history, pr_extended = x \<and> y\<rparr>)))))))))"

text \<open>State was lost: something is missing, and it was not taken for a fresh start.\<close>

definition is_state_loss :: "parsed_read \<Rightarrow> bool" where
  "is_state_loss p \<longleftrightarrow> pr_missing p \<noteq> [] \<and> \<not> is_fresh_start (pr_result p)"

definition missing_context :: "parsed_read \<Rightarrow> missing_reason option \<times> state_key list \<times> state_key list" where
  "missing_context p =
     (if is_state_loss p then (Some StateLossDrained, pr_missing p, pr_present p)
      else if is_fresh_start (pr_result p) then (Some FreshStart, pr_missing p, pr_present p)
      else (None, [], pr_present p))"

definition repair_lost_state :: "'s env \<Rightarrow> pyfloat \<Rightarrow> nat list \<Rightarrow> ('s, unit) rop" where
  "repair_lost_state E now lost =
     (if lost = [] then op_return ()
      else op_bind (op_map (\<lambda>i. capacity_writes E i (Fin 0) now False None) lost) (\<lambda>css.
           op_bind (execute_pipeline E (concat css)) (\<lambda>rs. raising (validate_sets rs))))"

definition apply_read :: "'s env \<Rightarrow> parsed_read \<Rightarrow> ('s, unit) rop" where
  "apply_read E p =
     op_bind (apply_parsed_override E (pr_ref p) (pr_override p)) (\<lambda>_.
     op_bind (on_bucket (pr_ref p) (\<lambda>b. b\<lparr>rb_history := pr_history p\<rparr>)) (\<lambda>_.
       set_missing_context (pr_ref p) (missing_context p)))"

definition confirm_read :: "pyfloat \<Rightarrow> parsed_read \<Rightarrow> ('s, unit) rop" where
  "confirm_read now p =
     (if is_state_loss p \<or> (pr_missing p = [] \<and> pr_extended p)
      then confirm_state_present (pr_ref p) now else op_return ())"

definition capacities_of_reads :: "parsed_read list \<Rightarrow> capacity_map" where
  "capacities_of_reads prs = fold (\<lambda>p d. dict_set (pr_id p) (amount (pr_result p)) d) prs []"

definition fresh_of_reads :: "parsed_read list \<Rightarrow> nat list" where
  "fresh_of_reads prs = map pr_ref (filter (\<lambda>p. is_state_loss p \<or> is_fresh_start (pr_result p)) prs)"

definition get_capacities_unsafe :: "'s env \<Rightarrow> nat list \<Rightarrow> pyfloat \<Rightarrow> ('s, capacity_map \<times> nat list) rop" where
  "get_capacities_unsafe E is now =
     op_bind (op_gets (\<lambda>w. map (rw_bucket w) is)) (\<lambda>bs.
     op_bind (execute_pipeline E (capacity_reads bs)) (\<lambda>rs.
     op_bind (op_map (parse_capacity_read E now rs (length is)) (zip [0..<length is] is)) (\<lambda>prs.
     op_bind (repair_lost_state E now (map pr_ref (filter is_state_loss prs))) (\<lambda>_.
     op_bind (op_for_each prs (\<lambda>p. refresh_override_ttl E (pr_ref p) (pr_override p))) (\<lambda>_.
     op_bind (op_for_each prs (apply_read E)) (\<lambda>_.
     op_bind (op_for_each prs (confirm_read now)) (\<lambda>_.
       op_return (capacities_of_reads prs, fresh_of_reads prs))))))))"

section \<open>Writing the levels\<close>

definition find_redis_bucket :: "(nat \<Rightarrow> redis_bucket) \<Rightarrow> nat list \<Rightarrow> bucket_id \<Rightarrow> nat option" where
  "find_redis_bucket h is k = find (\<lambda>i. rb_id (h i) = k) is"

definition require_bucket :: "nat list \<Rightarrow> bucket_id \<Rightarrow> ('s, nat) rop" where
  "require_bucket is k = op_bind (op_gets (\<lambda>w. find_redis_bucket (rw_bucket w) is k)) (\<lambda>r. case r of
      None \<Rightarrow> op_raise (Plain (ValueError ''Bucket not found'')) | Some i \<Rightarrow> op_return i)"

definition confirm_written_state :: "capacity_map \<Rightarrow> nat list \<Rightarrow> pyfloat \<Rightarrow> ('s, unit) rop" where
  "confirm_written_state caps is now = op_for_each is (\<lambda>i. op_bind (bucket_of i) (\<lambda>b.
     if map_of caps (rb_id b) \<noteq> None then confirm_state_present i now else op_return ()))"

text \<open>
  Written in a pipeline: the levels, a tombstone where one is asked for, and the deletion of a
  marker. False when the tombstone was there already (the levels are written all the same).
\<close>

definition set_capacities_unsafe ::
  "'s env \<Rightarrow> capacity_map \<Rightarrow> pyfloat \<Rightarrow> bool \<Rightarrow> nat list \<Rightarrow> (pystr \<times> int) option \<Rightarrow> pystr option \<Rightarrow> ('s, bool) rop" where
  "set_capacities_unsafe E caps now allow_negative is dedup delete_marker =
     op_bind (op_map (\<lambda>(k, a). op_bind (require_bucket is k) (\<lambda>i.
         capacity_writes E i a now allow_negative None)) caps) (\<lambda>css.
     op_bind (execute_pipeline E (concat css @
         (case dedup of None \<Rightarrow> [] | Some (k, ttl) \<Rightarrow> [SetNxEx k (ps ''1'') ttl]) @
         (case delete_marker of None \<Rightarrow> [] | Some k \<Rightarrow> [Del [k]]))) (\<lambda>rs.
     let n = 2 * length caps in
     op_bind (raising (validate_sets (take n rs))) (\<lambda>_.
     op_bind (raising (case delete_marker of None \<Rightarrow> Inr 0
         | Some _ \<Rightarrow> validate_delete_result (rs ! (if dedup = None then n else Suc n)))) (\<lambda>_.
     op_bind (raising (if dedup = None then Inr True else validate_set_nx_result (rs ! n))) (\<lambda>claimed.
     op_bind (confirm_written_state caps is now) (\<lambda>_. op_return claimed))))))"

text \<open>The arguments of the scripts: the lifetimes first, then the histories they explain.\<close>

definition script_write ::
  "'s env \<Rightarrow> nat list \<Rightarrow> pyfloat \<Rightarrow> bool \<Rightarrow> bucket_id \<times> pyfloat \<Rightarrow> ('s, nat \<times> bucket_write) rop" where
  "script_write E is now allow_negative ka =
     op_bind (require_bucket is (fst ka)) (\<lambda>i.
     op_bind (raising (guard (isfinite (snd ka)) (ValueError ''capacity must be finite''))) (\<lambda>_.
     op_bind (bucket_of i) (\<lambda>b.
       let c = (if allow_negative then snd ka else fmax (Fin 0) (snd ka)) in
     op_bind (raising (capacity_ttl b c None)) (\<lambda>ttl.
       op_return (i, \<lparr>bw_last_checked_key = last_checked_key b, bw_capacity_key = capacity_key b,
                     bw_time = cd_float (en_codec E) now, bw_capacity = cd_float (en_codec E) c,
                     bw_ttl = ttl\<rparr>)))))"

definition script_writes ::
  "'s env \<Rightarrow> capacity_map \<Rightarrow> nat list \<Rightarrow> pyfloat \<Rightarrow> bool \<Rightarrow> ('s, bucket_write list) rop" where
  "script_writes E caps is now allow_negative =
     op_bind (op_map (script_write E is now allow_negative) caps) (\<lambda>iws.
     op_bind (op_for_each iws (\<lambda>(i, w). retain_capacity_history E i (bw_ttl w))) (\<lambda>_.
       op_return (map snd iws)))"

section \<open>What is read back when an answer is lost\<close>

definition redis_value_matches :: "codec \<Rightarrow> pyval \<Rightarrow> bytes \<Rightarrow> bool" where
  "redis_value_matches C v expected = (case v of
      VBytes b \<Rightarrow> (case cd_decode C b of None \<Rightarrow> False | Some t \<Rightarrow> cd_decode C expected = Some t)
    | VStr t \<Rightarrow> cd_decode C expected = Some t
    | _ \<Rightarrow> False)"

definition redis_float_matches :: "pyval \<Rightarrow> pyfloat \<Rightarrow> bool" where
  "redis_float_matches v expected =
     (if is_bool_like v \<or> (text_length v = None \<and> \<not> isinstance_int_float v) then False
      else case py_float v of Inl _ \<Rightarrow> False
        | Inr f \<Rightarrow> feq f expected \<or> (isfinite f \<and> isfinite expected \<and>
            fle (fabs (fsub expected f)) (flit (1 / 1000000000))))"

text \<open>A read that fails with a \<^verbatim>\<open>RedisError\<close> counts as no match.\<close>

definition or_false :: "('s, bool) rop \<Rightarrow> ('s, bool) rop" where
  "or_false m = op_try m (\<lambda>e. if is_redis_error e then op_return False else op_raise e)"

definition acquire_marker_matches :: "'s env \<Rightarrow> pystr \<Rightarrow> bytes \<Rightarrow> ('s, bool) rop" where
  "acquire_marker_matches E key expected =
     or_false (op_bind (redis_get E key) (\<lambda>v. op_return (redis_value_matches (en_codec E) v expected)))"

fun bucket_capacity_state_matches :: "'s env \<Rightarrow> nat list \<Rightarrow> capacity_map \<Rightarrow> ('s, bool) rop" where
  "bucket_capacity_state_matches E is [] = op_return True"
| "bucket_capacity_state_matches E is ((k, a) # caps) =
     op_bind (op_gets (\<lambda>w. map_option (rw_bucket w) (find_redis_bucket (rw_bucket w) is k))) (\<lambda>r. case r of
        None \<Rightarrow> op_return False
      | Some b \<Rightarrow>
        op_bind (or_false (op_bind (redis_get E (capacity_key b)) (\<lambda>v. op_return (redis_float_matches v a)))) (\<lambda>ok.
          if ok then bucket_capacity_state_matches E is caps else op_return False))"

definition acquire_marker_commit_matches ::
  "'s env \<Rightarrow> pystr \<Rightarrow> bytes \<Rightarrow> capacity_map \<Rightarrow> nat list \<Rightarrow> ('s, bool) rop" where
  "acquire_marker_commit_matches E key expected caps is =
     op_bind (acquire_marker_matches E key expected) (\<lambda>ok.
       if ok then bucket_capacity_state_matches E is caps else op_return False)"

definition refund_terminal_state_matches ::
  "'s env \<Rightarrow> pystr \<Rightarrow> pystr \<Rightarrow> capacity_map \<Rightarrow> nat list \<Rightarrow> ('s, bool) rop" where
  "refund_terminal_state_matches E marker_k dedup_k caps is =
     op_bind (or_false (op_bind (redis_exists E dedup_k) (\<lambda>t. op_bind (redis_get E marker_k) (\<lambda>m.
       op_return (t \<and> m = VNone))))) (\<lambda>terminal.
       if terminal then bucket_capacity_state_matches E is caps else op_return False)"

section \<open>The acquisition and the refund\<close>

definition eval_script :: "'s env \<Rightarrow> ('s \<Rightarrow> script_reply \<times> 's) \<Rightarrow> ('s, string) rop" where
  "eval_script E f = op_bind (round_trip E f) (\<lambda>r. case r of
     ErrorReply \<Rightarrow> op_raise response_error | Reply st \<Rightarrow> op_return st)"

definition unknown_status :: exn where
  "unknown_status = RuntimeError ''Redis script returned unknown status''"

text \<open>
  \<^verbatim>\<open>_set_capacities_unsafe\<close> with a marker. True: consumed now; False: the same acquisition
  is live already, and nothing was written.
\<close>

definition acquire_with_marker ::
  "'s env \<Rightarrow> pystr \<Rightarrow> pystr \<Rightarrow> bytes \<Rightarrow> int \<Rightarrow> capacity_map \<Rightarrow> pyfloat \<Rightarrow> bool \<Rightarrow> nat list \<Rightarrow> ('s, bool) rop" where
  "acquire_with_marker E marker_k dedup_k marker ttl_ms caps now allow_negative is =
     op_bind (script_writes E caps is now allow_negative) (\<lambda>ws.
     op_bind (op_try (op_bind (eval_script E (acquire_script (en_server E) marker_k dedup_k ttl_ms marker ws))
           (\<lambda>st. op_return (Some st)))
         (\<lambda>e. if is_redis_error e
           then op_bind (acquire_marker_commit_matches E marker_k marker caps is) (\<lambda>ok.
             if ok then op_return None else op_raise e)
           else op_raise e)) (\<lambda>status. case status of
        None \<Rightarrow> op_return True
      | Some st \<Rightarrow>
        if st = ''ok'' then op_bind (confirm_written_state caps is now) (\<lambda>_. op_return True)
        else if st = ''replayed_acquire'' then op_return False
        else if st = ''duplicate_acquire''
        then op_bind (acquire_marker_matches E marker_k marker) (\<lambda>same.
               if same then op_return False else op_raise (Plain (DuplicateRefundError DuplicateAcquire)))
        else op_raise (Plain unknown_status)))"

definition commit_refund ::
  "'s env \<Rightarrow> pystr \<Rightarrow> pystr \<Rightarrow> bytes \<Rightarrow> capacity_map \<Rightarrow> pyfloat \<Rightarrow> nat list \<Rightarrow> ('s, unit) rop" where
  "commit_refund E marker_k dedup_k marker caps now is =
     op_bind self_of (\<lambda>a.
     op_bind (op_gets (\<lambda>w. en_token E (rw_tick w))) (\<lambda>token.
     op_bind (script_writes E caps is now True) (\<lambda>ws.
     op_bind (op_try (op_bind (eval_script E (refund_script (en_server E) marker_k dedup_k marker (ra_dedup_ttl a) token ws))
           (\<lambda>st. op_return (Some st)))
         (\<lambda>e. if is_redis_error e
           then op_bind (refund_terminal_state_matches E marker_k dedup_k caps is) (\<lambda>ok.
             if ok then op_return None else op_raise e)
           else op_raise e)) (\<lambda>status. case status of
        None \<Rightarrow> op_return ()
      | Some st \<Rightarrow>
        if st = ''ok'' then confirm_written_state caps is now
        else if st = ''replayed_refund'' then op_return ()
        else if st = ''duplicate_refund'' then op_raise (Plain (DuplicateRefundError AlreadyRefunded))
        else if st = ''unknown_reservation'' then op_raise UnknownAndForget
        else if st = ''marker_mismatch'' then op_raise (Plain UnknownReservationError)
        else if st = ''incoherent_refund''
        then op_raise (Plain (RuntimeError ''incoherent marker/tombstone state''))
        else op_raise (Plain unknown_status)))))"

end
