(* ===== verification/RedisBackend.thy ===== *)
theory RedisBackend
  imports RedisStore
begin

text \<open>
  \<^verbatim>\<open>_redis/_sync_backend.py\<close>: building a backend, consuming, waiting and refunding under the
  locks of its buckets, changing limits, and handing its buckets over to a new configuration.
\<close>

section \<open>The builder\<close>

definition REDIS_SLEEP_INTERVAL :: pyfloat where "REDIS_SLEEP_INTERVAL = flit (1 / 10)"
definition REDIS_CROSS_WORKER_POLL :: pyfloat where "REDIS_CROSS_WORKER_POLL = Fin 1"

record redis_builder =
  rbu_prefix :: pystr
  rbu_sleep_interval :: "pyfloat option"
  rbu_bucket_ttl :: int
  rbu_override_ttl :: int
  rbu_dedup_ttl :: int
  rbu_lock_blocking_timeout :: pyfloat
  rbu_lock_sleep :: pyfloat
  rbu_lock_thread_sleep :: pyfloat

record redis_builder_args =
  rba_prefix :: pyval
  rba_sleep_interval :: pyval
  rba_bucket_ttl :: pyval
  rba_override_ttl :: pyval
  rba_dedup_ttl :: pyval
  rba_lock_blocking_timeout :: pyval
  rba_lock_sleep :: pyval
  rba_lock_thread_sleep :: pyval

definition validate_positive_seconds :: "pyval \<Rightarrow> pyfloat result" where
  "validate_positive_seconds v =
     (if v = VNone \<or> is_bool_like v \<or> \<not> isinstance_int_float v
      then Inl (ValueError ''must be finite and greater than 0'')
      else bind_res (py_float v) (\<lambda>f.
        if \<not> isfinite f \<or> fle f (Fin 0) then Inl (ValueError ''must be finite and greater than 0'') else Inr f))"

definition mk_redis_builder :: "unicode_db \<Rightarrow> redis_builder_args \<Rightarrow> redis_builder result" where
  "mk_redis_builder udb a =
     bind_res (validate_key_prefix udb (rba_prefix a)) (\<lambda>prefix.
     bind_res (validate_sleep_interval (rba_sleep_interval a)) (\<lambda>si.
     bind_res (validate_redis_ttl_seconds (rba_bucket_ttl a)) (\<lambda>bt.
     bind_res (validate_redis_ttl_seconds (if rba_override_ttl a = VNone then VInt bt else rba_override_ttl a)) (\<lambda>ot.
     bind_res (validate_redis_ttl_seconds (rba_dedup_ttl a)) (\<lambda>dt.
     bind_res (validate_positive_seconds (rba_lock_blocking_timeout a)) (\<lambda>lb.
     bind_res (validate_positive_seconds (rba_lock_sleep a)) (\<lambda>ls.
     bind_res (validate_positive_seconds (rba_lock_thread_sleep a)) (\<lambda>lt.
       Inr \<lparr>rbu_prefix = prefix, rbu_sleep_interval = si, rbu_bucket_ttl = bt, rbu_override_ttl = ot,
            rbu_dedup_ttl = dt, rbu_lock_blocking_timeout = lb, rbu_lock_sleep = ls,
            rbu_lock_thread_sleep = lt\<rparr>))))))))"

definition redis_builder_resolve_lifetime :: "redis_builder \<Rightarrow> pyval \<Rightarrow> pyfloat option result" where
  "redis_builder_resolve_lifetime b lifetime =
     resolve_redis_lifetime lifetime (VInt (rbu_bucket_ttl b)) (VInt (rbu_dedup_ttl b)) (VFloat (Fin 2))"

definition redis_builder_validate_lifetime :: "redis_builder \<Rightarrow> pyval \<Rightarrow> unit result" where
  "redis_builder_validate_lifetime b lifetime =
     redis_lifetime_invariant lifetime (VInt (rbu_bucket_ttl b)) (VInt (rbu_dedup_ttl b)) (VFloat (Fin 2))"

text \<open>Buckets sorted by key: the order in which every backend takes their locks.\<close>

definition sort_refs :: "(nat \<Rightarrow> redis_bucket) \<Rightarrow> nat list \<Rightarrow> nat list" where
  "sort_refs h is = sort_key (\<lambda>i. rb_key (h i)) is"

definition mk_redis_backend ::
  "unicode_db \<Rightarrow> pydantic \<Rightarrow> (nat \<Rightarrow> redis_bucket) \<Rightarrow> nat list \<Rightarrow> per_model_config \<Rightarrow> redis_builder \<Rightarrow> redis_backend result" where
  "mk_redis_backend udb pyd h is cfg b =
     bind_res (config_with_family udb pyd cfg (cfg_model_family cfg)) (\<lambda>c.
     bind_res (validate_key_prefix udb (VStr (rbu_prefix b))) (\<lambda>prefix.
     bind_res (validate_redis_ttl_seconds (VInt (rbu_dedup_ttl b))) (\<lambda>dedup.
     bind_res (validate_sleep_interval (case rbu_sleep_interval b of None \<Rightarrow> VNone | Some f \<Rightarrow> VFloat f)) (\<lambda>si.
     bind_res (validate_positive_seconds (VFloat (rbu_lock_blocking_timeout b))) (\<lambda>lb.
     bind_res (validate_positive_seconds (VFloat (rbu_lock_sleep b))) (\<lambda>ls.
     bind_res (validate_positive_seconds (VFloat (rbu_lock_thread_sleep b))) (\<lambda>lt.
       Inr \<lparr>ra_prefix = prefix, ra_buckets = sort_refs h is, ra_dedup_ttl = dedup,
            ra_sleep_interval = (case si of None \<Rightarrow> REDIS_SLEEP_INTERVAL | Some v \<Rightarrow> v),
            ra_lock_blocking_timeout = lb, ra_lock_sleep = ls, ra_lock_thread_sleep = lt,
            ra_config = c, ra_metric_names = (\<lambda>i. rb_metric (h i)) ` set is, ra_waiters = []\<rparr>)))))))"

text \<open>\<^verbatim>\<open>build(cfg)\<close>: new bucket objects are numbered from \<open>next_ref\<close>.\<close>

definition build_redis_backend ::
  "unicode_db \<Rightarrow> pydantic \<Rightarrow> redis_builder \<Rightarrow> per_model_config \<Rightarrow> nat \<Rightarrow> (nat \<Rightarrow> redis_bucket) \<Rightarrow>
   (redis_backend \<times> (nat \<Rightarrow> redis_bucket)) result" where
  "build_redis_backend udb pyd b cfg next_ref h =
     bind_res (config_with_family udb pyd cfg (cfg_model_family cfg)) (\<lambda>c.
     bind_res (redis_ttl_covers_quota_windows (rbu_bucket_ttl b) (uq_iter (cfg_quotas c))) (\<lambda>_.
     bind_res (for_each (uq_iter (cfg_quotas c)) (\<lambda>q bs.
        bind_res (mk_redis_bucket udb pyd q c (rbu_prefix b) (VInt (rbu_bucket_ttl b)) (VInt (rbu_override_ttl b)))
          (\<lambda>x. Inr (bs @ [x]))) []) (\<lambda>bs.
     let h' = (\<lambda>i. if next_ref \<le> i \<and> i < next_ref + length bs then bs ! (i - next_ref) else h i) in
     bind_res (mk_redis_backend udb pyd h' [next_ref..<next_ref + length bs] c b) (\<lambda>a. Inr (a, h')))))"

section \<open>Consuming\<close>

definition fire_event :: "'s env \<Rightarrow> redis_event \<Rightarrow> ('s, unit) rop" where
  "fire_event E ev = (case en_callback E ev of Some e \<Rightarrow> op_raise e | None \<Rightarrow> op_return ())"

definition fire_fresh_start :: "'s env \<Rightarrow> nat list \<Rightarrow> ('s, unit) rop" where
  "fire_fresh_start E is = op_for_each is (\<lambda>i. op_bind (bucket_of i) (\<lambda>b.
     fire_event E (RedisMissing (rb_id b) (rb_missing b))))"

definition redis_metrics :: "(nat \<Rightarrow> redis_bucket) \<Rightarrow> nat list \<Rightarrow> pystr set" where
  "redis_metrics h is = (\<lambda>i. rb_metric (h i)) ` set is"

definition validation_metric_names :: "(nat \<Rightarrow> redis_bucket) \<Rightarrow> redis_backend \<Rightarrow> pystr set" where
  "validation_metric_names h a =
     (if ra_buckets a \<noteq> [] then redis_metrics h (ra_buckets a) else ra_metric_names a)"

definition ensure_metrics_active :: "usage \<Rightarrow> capacity_map \<Rightarrow> unit result" where
  "ensure_metrics_active u caps = guard (set (map fst u) \<subseteq> (\<lambda>k. fst (fst k)) ` set caps)
     (ValueError ''Usage metrics are no longer active after backend reconfiguration'')"

definition fits_maximum :: "redis_bucket list \<Rightarrow> usage \<Rightarrow> bool" where
  "fits_maximum bs u \<longleftrightarrow>
     list_all (\<lambda>(m, a). list_all (\<lambda>b. rb_metric b = m \<longrightarrow> \<not> flt (max_capacity b) a) bs) u"

definition available :: "usage \<Rightarrow> capacity_map \<Rightarrow> bool" where
  "available u caps \<longleftrightarrow> list_all (\<lambda>(m, a). list_all (\<lambda>((cm, _), c). cm = m \<longrightarrow> \<not> flt c a) caps) u"

definition consumed_levels :: "usage \<Rightarrow> capacity_map \<Rightarrow> capacity_map" where
  "consumed_levels u caps = map (\<lambda>(k, c). (k, case map_of u (fst k) of None \<Rightarrow> c | Some a \<Rightarrow> fsub c a)) caps"

text \<open>\<open>rs_*\<close>: the reservation a consumption is for, if there is one.\<close>

definition lifetime_ttl_ms :: "pyfloat option \<Rightarrow> int result" where
  "lifetime_ttl_ms v = (case v of
      None \<Rightarrow> Inl (ValueError ''reservation_lifetime_seconds is required'')
    | Some f \<Rightarrow> bind_res (validate_positive_seconds (VFloat f)) (\<lambda>x.
        bind_res (fceil (fmul x (Fin 1000))) (\<lambda>ms. Inr (max 1 ms))))"

definition opt_key :: "(pystr \<Rightarrow> pystr result) \<Rightarrow> pystr option \<Rightarrow> ('s, pystr option) rop" where
  "opt_key f rid = (case rid of None \<Rightarrow> op_return None | Some i \<Rightarrow> op_bind (raising (f i)) (\<lambda>k. op_return (Some k)))"

definition acquired_key :: "'s env \<Rightarrow> pystr option \<Rightarrow> ('s, pystr option) rop" where
  "acquired_key E rid = op_bind self_of (\<lambda>a. opt_key (redis_acquired_marker_key (en_unicode E) (ra_prefix a)) rid)"

definition dedup_key :: "'s env \<Rightarrow> pystr option \<Rightarrow> ('s, pystr option) rop" where
  "dedup_key E rid = op_bind self_of (\<lambda>a. opt_key (redis_refund_dedup_key (en_unicode E) (ra_prefix a)) rid)"

text \<open>The write of a consumption: with a marker if it is for a reservation.\<close>

definition write_consumption ::
  "'s env \<Rightarrow> usage \<Rightarrow> pystr option \<Rightarrow> pyfloat option \<Rightarrow> capacity_map \<Rightarrow> pyfloat \<Rightarrow> bool \<Rightarrow> nat list \<Rightarrow> ('s, bool) rop" where
  "write_consumption E u rid lifetime caps now allow_negative is = (case rid of
      None \<Rightarrow> set_capacities_unsafe E caps now allow_negative is None None
    | Some i \<Rightarrow>
        op_bind (acquired_key E rid) (\<lambda>mk.
        op_bind my_family (\<lambda>family.
        op_bind (op_gets (\<lambda>w. (\<lambda>j. rb_id (rw_bucket w j)) ` set is)) (\<lambda>ids.
        op_bind (raising (redis_acquired_marker_value (en_unicode E) (en_codec E) i family ids u)) (\<lambda>marker.
        op_bind (raising (lifetime_ttl_ms lifetime)) (\<lambda>ttl_ms.
        op_bind (dedup_key E rid) (\<lambda>dk.
          acquire_with_marker E (the mk) (the dk) marker ttl_ms caps now allow_negative is)))))))"

text \<open>
  Giving a consumption back after an interruption: no callbacks, and the marker is deleted in
  the transaction that writes the levels.
\<close>

definition given_back :: "usage \<Rightarrow> (bucket_id \<Rightarrow> pyfloat option) \<Rightarrow> capacity_map \<Rightarrow> capacity_map" where
  "given_back u maxs caps = map (\<lambda>(k, c). (k, case map_of u (fst k) of None \<Rightarrow> c
     | Some a \<Rightarrow> (case maxs k of None \<Rightarrow> c | Some mx \<Rightarrow> fmin (fadd c a) mx))) caps"

definition maxima :: "nat list \<Rightarrow> ('s, bucket_id \<Rightarrow> pyfloat option) rop" where
  "maxima is = op_gets (\<lambda>w. map_of (rev (map (\<lambda>i. (rb_id (rw_bucket w i), max_capacity (rw_bucket w i))) is)))"

definition redis_refund_cancelled :: "'s env \<Rightarrow> usage \<Rightarrow> nat list \<Rightarrow> pystr option \<Rightarrow> ('s, unit) rop" where
  "redis_refund_cancelled E u is marker_k =
     with_locks E is (\<lambda>held.
       op_bind (sync_server_time E) (\<lambda>now.
       op_bind (get_capacities_unsafe E is now) (\<lambda>(caps, _).
       op_bind (maxima is) (\<lambda>maxs.
       op_bind (extend_locks E held) (\<lambda>_.
       op_bind (set_capacities_unsafe E (given_back u maxs caps) now True is None marker_k) (\<lambda>_.
         op_return ()))))))"

text \<open>
  \<^verbatim>\<open>except BaseException\<close> after a consumption: give it back, then raise on; a failure of that is
  recorded for the limiter.
\<close>

definition or_give_back :: "'s env \<Rightarrow> usage \<Rightarrow> nat list \<Rightarrow> pystr option \<Rightarrow> ('s, 'a) rop \<Rightarrow> ('s, 'a) rop" where
  "or_give_back E u is rid m = op_try m (\<lambda>e.
     op_bind (op_try
       (op_bind (acquired_key E rid) (\<lambda>mk. redis_refund_cancelled E u is mk))
       (\<lambda>e'. op_modify (\<lambda>w. w\<lparr>rw_failed_cleanups := rw_failed_cleanups w @ [(rid, e')]\<rparr>)))
     (\<lambda>_. op_raise e))"

record attempt =
  at_available :: bool
  at_pre :: capacity_map
  at_post :: capacity_map
  at_monotonic :: "pyfloat option"
  at_time :: "pyfloat option"
  at_buckets :: "nat list"

text \<open>The locked part of an attempt; the second component says whether it consumed.\<close>

definition attempt_locked ::
  "'s env \<Rightarrow> usage \<Rightarrow> pystr option \<Rightarrow> pyfloat option \<Rightarrow> nat list \<Rightarrow> (pystr \<times> pystr) list \<Rightarrow>
   ('s, attempt \<times> bool \<times> nat list) rop" where
  "attempt_locked E u rid lifetime is held =
     op_bind (sync_server_time E) (\<lambda>now.
     op_bind (get_capacities_unsafe E is now) (\<lambda>(pre, fresh).
     op_bind (raising (ensure_metrics_active u pre)) (\<lambda>_.
     op_bind (op_gets (\<lambda>w. map (rw_bucket w) is)) (\<lambda>bs.
     op_bind (op_require (fits_maximum bs u) (Plain (ValueError ''Usage value exceeds bucket max capacity''))) (\<lambda>_.
     if \<not> available u pre
     then op_bind (fire_fresh_start E fresh) (\<lambda>_.
            op_return (\<lparr>at_available = False, at_pre = pre, at_post = [], at_monotonic = None,
                        at_time = None, at_buckets = is\<rparr>, False, fresh))
     else
       op_bind (monotonic_now E) (\<lambda>mono.
       op_bind (extend_locks E held) (\<lambda>_.
       op_bind (write_consumption E u rid lifetime (consumed_levels u pre) now False is) (\<lambda>written.
         op_return (\<lparr>at_available = True, at_pre = pre,
                     at_post = (if written then consumed_levels u pre else pre),
                     at_monotonic = Some mono, at_time = Some now, at_buckets = is\<rparr>, written, fresh)))))))))"

definition check_and_consume ::
  "'s env \<Rightarrow> usage \<Rightarrow> pyfloat option \<Rightarrow> pystr option \<Rightarrow> pyfloat option \<Rightarrow> ('s, attempt) rop" where
  "check_and_consume E u lock_timeout rid lifetime =
     op_bind my_buckets (\<lambda>is.
     op_bind (lock_buckets E lock_timeout is) (\<lambda>held.
     op_bind (op_try (attempt_locked E u rid lifetime is held)
        (\<lambda>e. op_bind (release_all E held) (\<lambda>_. op_raise e))) (\<lambda>(res, consumed, fresh).
     if \<not> consumed then op_bind (release_all E held) (\<lambda>_. op_return res)
     else or_give_back E u is rid
       (op_bind (release_all E held) (\<lambda>_.
        op_bind (fire_fresh_start E fresh) (\<lambda>_.
        op_bind (fire_event E (RedisConsumed (at_pre res) (at_post res) u (the (at_time res)))) (\<lambda>_.
          op_return res)))))))"

definition overdrawn_levels :: "usage \<Rightarrow> (bucket_id \<Rightarrow> pyfloat option) \<Rightarrow> capacity_map \<Rightarrow> capacity_map result" where
  "overdrawn_levels u maxs caps = for_each caps (\<lambda>(k, c) post. case map_of u (fst k) of
      None \<Rightarrow> Inr (post @ [(k, c)])
    | Some a \<Rightarrow> (case maxs k of None \<Rightarrow> Inl KeyError
        | Some mx \<Rightarrow> Inr (post @ [(k, fmax (fsub c a) (fneg mx))]))) []"

definition redis_consume_capacity ::
  "'s env \<Rightarrow> raw_usage \<Rightarrow> pystr option \<Rightarrow> pyfloat option \<Rightarrow> ('s, pyfloat) rop" where
  "redis_consume_capacity E raw rid lifetime =
     op_bind self_of (\<lambda>a. let is = ra_buckets a in
     op_bind (op_gets (\<lambda>w. validation_metric_names (rw_bucket w) a)) (\<lambda>names.
     op_bind (raising (validate_backend_usage (en_unicode E) raw names)) (\<lambda>_.
     op_bind (raising (usage_floats raw)) (\<lambda>u.
     op_bind (with_locks E is (\<lambda>held.
       op_bind (sync_server_time E) (\<lambda>now.
       op_bind (get_capacities_unsafe E is now) (\<lambda>(pre, fresh).
       op_bind (raising (ensure_metrics_active u pre)) (\<lambda>_.
       op_bind (maxima is) (\<lambda>maxs.
       op_bind (raising (overdrawn_levels u maxs pre)) (\<lambda>post.
       op_bind (extend_locks E held) (\<lambda>_.
       op_bind (write_consumption E u rid lifetime post now True is) (\<lambda>written.
         op_return (now, pre, post, fresh, written)))))))))) (\<lambda>(now, pre, post, fresh, written).
     if \<not> written then op_return now
     else op_bind (fire_fresh_start E fresh) (\<lambda>_.
          op_bind (fire_event E (RedisConsumed pre post u now)) (\<lambda>_. op_return now)))))))"

end
