(* ===== verification/RedisOps.thy ===== *)
theory RedisOps
  imports RedisBackend
begin

text \<open>
  The rest of \<^verbatim>\<open>_redis/_sync_backend.py\<close>: the wait loop, refunds authorised by the marker of a
  reservation, changes of limits, and the hand-over of a backend to a new configuration.
\<close>

section \<open>Waiting\<close>

definition compute_sleep_of ::
  "(nat \<Rightarrow> redis_bucket) \<Rightarrow> nat list \<Rightarrow> pyfloat \<Rightarrow> usage \<Rightarrow> capacity_map \<Rightarrow> pyfloat result" where
  "compute_sleep_of h is interval u caps =
     bind_res (for_each caps (\<lambda>(k, c) w. case map_of u (fst k) of
         None \<Rightarrow> Inr w
       | Some needed \<Rightarrow>
         let deficit = fsub needed c in
         if fle deficit (Fin 0) then Inr w
         else (case find_redis_bucket h is k of
             None \<Rightarrow> Inl (ValueError ''No bucket found'')
           | Some i \<Rightarrow>
             if \<not> isfinite (rb_rate (h i)) \<or> fle (rb_rate (h i)) (Fin 0)
             then Inl (ValueError ''Bucket rate is non-positive/non-finite'')
             else bind_res (fdiv deficit (rb_rate (h i))) (\<lambda>d. Inr (fmax w d)))) (Fin 0))
       (\<lambda>w. Inr (if flt (Fin 0) w then w else interval))"

definition capacity_timeout :: exn where "capacity_timeout = TimeoutError ''Timed out waiting for capacity''"
definition contention_timeout :: exn where
  "contention_timeout = TimeoutError ''Timed out acquiring the per-bucket Redis lock''"

record wait_state =
  wt_registered :: bool
  wt_has_waited :: bool
  wt_started_at :: "pyfloat option"
  wt_overhead :: pyfloat

definition wait_began :: wait_state where
  "wait_began = \<lparr>wt_registered = False, wt_has_waited = False, wt_started_at = None, wt_overhead = Fin 0\<rparr>"

text \<open>\<^verbatim>\<open>x or time.monotonic()\<close>: zero counts as missing.\<close>

definition or_clock :: "'s env \<Rightarrow> pyfloat option \<Rightarrow> ('s, pyfloat) rop" where
  "or_clock E x = op_bind (monotonic_now E) (\<lambda>now.
     op_return (case x of None \<Rightarrow> now | Some f \<Rightarrow> if f = Fin 0 then now else f))"

definition expired :: "pyfloat option \<Rightarrow> pyfloat \<Rightarrow> bool" where
  "expired deadline now \<longleftrightarrow> (case deadline of None \<Rightarrow> False | Some d \<Rightarrow> fle d now)"

definition check_deadline :: "'s env \<Rightarrow> pyfloat option \<Rightarrow> ('s, unit) rop" where
  "check_deadline E deadline = op_bind (monotonic_now E) (\<lambda>now.
     op_require (\<not> expired deadline now) (Plain capacity_timeout))"

definition upsert_waiter ::
  "'s env \<Rightarrow> pystr \<Rightarrow> pystr option \<Rightarrow> usage \<Rightarrow> attempt \<Rightarrow> pyfloat option \<Rightarrow> wait_state \<Rightarrow> ('s, unit) rop" where
  "upsert_waiter E key rid u got deadline st =
     op_bind (or_clock E (wt_started_at st)) (\<lambda>started.
     op_bind my_family (\<lambda>family.
     op_bind (op_gets (\<lambda>w. map (rw_bucket w) (at_buckets got))) (\<lambda>bs.
     op_bind (raising (bind_res (for_each bs (\<lambda>b acc.
          bind_res (per_second (max_capacity b) (rb_per_seconds b)) (\<lambda>rate.
            Inr (dict_set (rb_id b) (max_capacity b, rate) acc))) [])
        (wait_bucket_diagnostics family u (at_pre got)))) (\<lambda>blocked.
       op_modify (\<lambda>w. w\<lparr>rw_self := (rw_self w)\<lparr>ra_waiters := dict_set key
          \<lparr>ws_waiter_id = key, ws_reservation_id = rid, ws_model_family = family, ws_usage = u,
           ws_started = started, ws_deadline = deadline, ws_blocked = blocked\<rparr> (ra_waiters (rw_self w))\<rparr>\<rparr>)))))"

text \<open>The first turn without capacity announces the wait; its callback is not part of the waiting time.\<close>

definition announce ::
  "'s env \<Rightarrow> usage \<Rightarrow> attempt \<Rightarrow> pyfloat option \<Rightarrow> wait_state \<Rightarrow> ('s, wait_state) rop" where
  "announce E u got deadline st =
     (if wt_has_waited st then op_return st
      else op_bind (monotonic_now E) (\<lambda>now.
        let st1 = st\<lparr>wt_has_waited := True, wt_started_at := Some now\<rparr> in
        if \<not> en_wait_start_installed E then op_return st1
        else op_bind (monotonic_now E) (\<lambda>began.
          op_bind (op_require (\<not> expired deadline began) (Plain capacity_timeout)) (\<lambda>_.
          op_bind (fire_event E (RedisWaitStart (at_pre got) u)) (\<lambda>_.
          op_bind (monotonic_now E) (\<lambda>ended.
          op_bind (check_deadline E deadline) (\<lambda>_.
            op_return (st1\<lparr>wt_overhead := fadd (wt_overhead st1) (fsub ended began)\<rparr>))))))))"

text \<open>What other threads and processes do while this one sleeps.\<close>

definition sleep_for :: "(pyfloat \<Rightarrow> 's world \<Rightarrow> 's world) \<Rightarrow> pyfloat \<Rightarrow> ('s, unit) rop" where
  "sleep_for others d = op_modify (others d)"

definition remaining_until :: "pyfloat option \<Rightarrow> pyfloat \<Rightarrow> pyfloat option" where
  "remaining_until deadline now = map_option (\<lambda>d. fmax (Fin 0) (fsub d now)) deadline"

definition contended_wait ::
  "'s env \<Rightarrow> (pyfloat \<Rightarrow> 's world \<Rightarrow> 's world) \<Rightarrow> pyfloat option \<Rightarrow> ('s, unit) rop" where
  "contended_wait E others deadline =
     op_bind (monotonic_now E) (\<lambda>now.
     op_bind (op_require (case deadline of None \<Rightarrow> True | Some d \<Rightarrow> flt now d) (Plain contention_timeout)) (\<lambda>_.
     op_bind self_of (\<lambda>a.
     op_bind (monotonic_now E) (\<lambda>later.
       sleep_for others (case remaining_until deadline later of
         None \<Rightarrow> ra_lock_sleep a | Some r \<Rightarrow> fmin (ra_lock_sleep a) r)))))"

text \<open>One turn: the result of the wait, or the state to go on with after sleeping.\<close>

definition is_contention :: "redis_exn \<Rightarrow> bool" where
  "is_contention e \<longleftrightarrow> is_lock_error e \<or> e = Plain BackendLockContentionError"

definition wait_time_of :: "'s env \<Rightarrow> attempt \<Rightarrow> wait_state \<Rightarrow> ('s, pyfloat) rop" where
  "wait_time_of E got st =
     op_bind (or_clock E (at_monotonic got)) (\<lambda>consumed.
     op_bind (or_clock E (at_monotonic got)) (\<lambda>fallback.
       op_return (fmax (Fin 0) (fsub (fsub consumed
         (case wt_started_at st of None \<Rightarrow> fallback | Some f \<Rightarrow> if f = Fin 0 then fallback else f)) (wt_overhead st)))))"

definition finish_wait :: "'s env \<Rightarrow> usage \<Rightarrow> pystr option \<Rightarrow> attempt \<Rightarrow> wait_state \<Rightarrow> ('s, pyfloat option) rop" where
  "finish_wait E u rid got st =
     op_bind (or_give_back E u (at_buckets got) rid
       (if wt_has_waited st
        then op_bind (wait_time_of E got st) (\<lambda>t. fire_event E (RedisAfterWait (at_pre got) (at_post got) u t))
        else op_return ()))
     (\<lambda>_. op_return (at_time got))"

text \<open>A registered waiter without capacity: its deadline, the announcement, and a sleep.\<close>

definition unavailable ::
  "'s env \<Rightarrow> (pyfloat \<Rightarrow> 's world \<Rightarrow> 's world) \<Rightarrow> usage \<Rightarrow> pyfloat option \<Rightarrow>
   attempt \<Rightarrow> wait_state \<Rightarrow> ('s, wait_state) rop" where
  "unavailable E others u deadline got st =
     op_bind (check_deadline E deadline) (\<lambda>_.
     op_bind (announce E u got deadline st) (\<lambda>st1.
     op_bind (op_gets (\<lambda>w. compute_sleep_of (rw_bucket w)
          (if at_buckets got = [] then ra_buckets (rw_self w) else at_buckets got)
          (ra_sleep_interval (rw_self w)) u (at_pre got))) (\<lambda>c.
     op_bind (raising c) (\<lambda>computed.
     op_bind (monotonic_now E) (\<lambda>now.
     let effective = fmin computed REDIS_CROSS_WORKER_POLL;
         bounded = (case remaining_until deadline now of None \<Rightarrow> effective | Some r \<Rightarrow> fmin effective r) in
     op_bind (sleep_for others (fmax (flit (1 / 1000)) bounded)) (\<lambda>_.
       op_return (st1\<lparr>wt_registered := True\<rparr>)))))))"

text \<open>
  The loop with a bound on its turns: \<open>None\<close> is a caller that still waits after them. The entry
  of the waiter is dropped on every way out.
\<close>

definition drop_waiter_entry :: "pystr \<Rightarrow> ('s, unit) rop" where
  "drop_waiter_entry key = op_modify (\<lambda>w. w\<lparr>rw_self := (rw_self w)\<lparr>ra_waiters := dict_pop key (ra_waiters (rw_self w))\<rparr>\<rparr>)"

definition attempt_turn ::
  "'s env \<Rightarrow> usage \<Rightarrow> pystr option \<Rightarrow> pyfloat option \<Rightarrow> pyfloat option \<Rightarrow> ('s, attempt option) rop" where
  "attempt_turn E u rid lifetime deadline =
     op_bind (monotonic_now E) (\<lambda>now.
     op_try (op_bind (check_and_consume E u (remaining_until deadline now) rid lifetime) (\<lambda>got. op_return (Some got)))
       (\<lambda>e. if is_contention e then op_return None else op_raise e))"

fun redis_wait_loop ::
  "nat \<Rightarrow> 's env \<Rightarrow> (pyfloat \<Rightarrow> 's world \<Rightarrow> 's world) \<Rightarrow> pystr \<Rightarrow> pystr option \<Rightarrow> usage \<Rightarrow> pyfloat option \<Rightarrow>
   pyfloat option \<Rightarrow> wait_state \<Rightarrow> ('s, pyfloat option option) rop" where
  "redis_wait_loop 0 E others key rid u lifetime deadline st = op_return None"
| "redis_wait_loop (Suc n) E others key rid u lifetime deadline st =
     op_bind (op_try (attempt_turn E u rid lifetime deadline)
         (\<lambda>e. op_seq (op_when (wt_registered st) (drop_waiter_entry key)) (op_raise e))) (\<lambda>r. case r of
        None \<Rightarrow> op_bind (op_try (contended_wait E others deadline)
            (\<lambda>e. op_seq (op_when (wt_registered st) (drop_waiter_entry key)) (op_raise e)))
          (\<lambda>_. redis_wait_loop n E others key rid u lifetime deadline st)
      | Some got \<Rightarrow>
        if at_available got
        then op_bind (op_finally (finish_wait E u rid got st) (op_when (wt_registered st) (drop_waiter_entry key)))
               (\<lambda>t. op_return (Some t))
        else op_bind (op_try (upsert_waiter E key rid u got deadline st)
               (\<lambda>e. op_seq (op_when (wt_registered st) (drop_waiter_entry key)) (op_raise e)))
             (\<lambda>_. op_bind (op_try (unavailable E others u deadline got st)
               (\<lambda>e. op_seq (drop_waiter_entry key) (op_raise e)))
             (\<lambda>st1. redis_wait_loop n E others key rid u lifetime deadline st1)))"

text \<open>\<^verbatim>\<open>reservation_id or f"redis:{uuid}"\<close>: an empty id counts as missing.\<close>

definition waiter_key :: "pystr \<Rightarrow> pystr option \<Rightarrow> pystr" where
  "waiter_key token rid = (case rid of
      None \<Rightarrow> ps ''redis:'' @ token | Some i \<Rightarrow> if i = [] then ps ''redis:'' @ token else i)"

definition redis_wait_for_capacity ::
  "nat \<Rightarrow> 's env \<Rightarrow> (pyfloat \<Rightarrow> 's world \<Rightarrow> 's world) \<Rightarrow> raw_usage \<Rightarrow> pyval \<Rightarrow> pystr option \<Rightarrow> pyfloat option \<Rightarrow>
   ('s, pyfloat option option) rop" where
  "redis_wait_for_capacity n E others raw timeout rid lifetime =
     op_bind self_of (\<lambda>a.
     op_bind (op_gets (\<lambda>w. validation_metric_names (rw_bucket w) a)) (\<lambda>names.
     op_bind (raising (validate_backend_usage (en_unicode E) raw names)) (\<lambda>_.
     op_bind (raising (validate_timeout timeout)) (\<lambda>to.
     op_bind (raising (usage_floats raw)) (\<lambda>u.
     op_bind (monotonic_now E) (\<lambda>now.
     op_bind (op_gets (\<lambda>w. en_token E (rw_tick w))) (\<lambda>token.
       redis_wait_loop n E others (waiter_key token rid) rid u lifetime
         (map_option (fadd now) to) wait_began)))))))"

section \<open>Refunding\<close>

record marker_metadata =
  mm_family :: "pystr option"
  mm_bucket_ids :: "bucket_id set option"
  mm_reserved :: "usage option"

definition require_redis_metadata :: "marker_metadata \<Rightarrow> (pystr \<times> bucket_id set \<times> usage) result" where
  "require_redis_metadata m = (case (mm_family m, mm_bucket_ids m, mm_reserved m) of
      (Some f, Some ids, Some u) \<Rightarrow> Inr (f, ids, u)
    | _ \<Rightarrow> Inl (ValueError ''reservation marker metadata is required for marker-authorized refunds''))"

definition scope_mismatch :: exn where
  "scope_mismatch = ValueError ''refund reserved_usage does not match the acquire marker''"

text \<open>The metrics of the scope are checked in the order of a set; all mismatches raise the same error.\<close>

definition validate_redis_refund_scope :: "raw_usage \<Rightarrow> bucket_id set \<Rightarrow> bucket_id set \<Rightarrow> usage \<Rightarrow> unit result" where
  "validate_redis_refund_scope reserved ids marker_ids marker_amounts =
     (if \<not> ids \<subseteq> marker_ids then Inl (ValueError ''refund bucket_ids do not match the acquire marker'')
      else for_each (sorted_list_of_set (fst ` ids)) (\<lambda>m _.
        case map_of marker_amounts m of
          None \<Rightarrow> Inl scope_mismatch
        | Some a \<Rightarrow> (case map_of reserved m of
            None \<Rightarrow> Inl KeyError
          | Some v \<Rightarrow> bind_res (py_float v) (\<lambda>f. guard (feq f a) scope_mismatch))) ())"

definition refund_amounts_of :: "raw_usage \<Rightarrow> raw_usage \<Rightarrow> usage result" where
  "refund_amounts_of reserved actual = for_each reserved (\<lambda>(m, r) acc.
     case map_of actual m of
       None \<Rightarrow> Inl KeyError
     | Some a \<Rightarrow> bind_res (py_float r) (\<lambda>x. bind_res (py_float a) (\<lambda>y. Inr (dict_set m (fsub x y) acc)))) []"

definition refunded_level :: "pyfloat \<Rightarrow> pyfloat \<Rightarrow> pyfloat \<Rightarrow> pyfloat" where
  "refunded_level mx c a = fmax (fneg mx) (fmin (fadd c (fmax a (fneg mx))) mx)"

definition refunded_levels ::
  "(nat \<Rightarrow> redis_bucket) \<Rightarrow> nat list \<Rightarrow> bucket_id set \<Rightarrow> usage \<Rightarrow> capacity_map \<Rightarrow> capacity_map result" where
  "refunded_levels h is ids amounts caps = for_each caps (\<lambda>(k, c) acc.
     if k \<notin> ids then Inr (acc @ [(k, c)])
     else (case map_of amounts (fst k) of
        None \<Rightarrow> Inr (acc @ [(k, c)])
      | Some a \<Rightarrow> (case find_redis_bucket h is k of
          None \<Rightarrow> Inl (ValueError ''Bucket not found'')
        | Some i \<Rightarrow> Inr (acc @ [(k, refunded_level (max_capacity (h i)) c a)])))) []"

text \<open>The reservation's keys and the marker value its refund expects; empty without a reservation.\<close>

definition refund_authority ::
  "'s env \<Rightarrow> raw_usage \<Rightarrow> bucket_id set \<Rightarrow> pystr option \<Rightarrow> marker_metadata \<Rightarrow> ('s, (pystr \<times> pystr \<times> bytes) option) rop" where
  "refund_authority E reserved ids rid meta =
     op_bind (acquired_key E rid) (\<lambda>mk.
     op_bind (dedup_key E rid) (\<lambda>dk.
     case rid of
       None \<Rightarrow> op_return None
     | Some i \<Rightarrow>
       op_bind (raising (require_redis_metadata meta)) (\<lambda>(family, marker_ids, u).
       op_bind (raising (validate_redis_refund_scope reserved ids marker_ids u)) (\<lambda>_.
       op_bind (raising (redis_acquired_marker_value (en_unicode E) (en_codec E) i family marker_ids u)) (\<lambda>marker.
         op_return (Some (the mk, the dk, marker)))))))"

definition redis_refund_capacity_for_buckets ::
  "'s env \<Rightarrow> raw_usage \<Rightarrow> raw_usage \<Rightarrow> bucket_id set option \<Rightarrow> pystr option \<Rightarrow> marker_metadata \<Rightarrow> ('s, bool) rop" where
  "redis_refund_capacity_for_buckets E reserved actual ids_opt rid meta =
     op_bind my_buckets (\<lambda>is.
     op_bind (op_gets (\<lambda>w. (\<lambda>j. rb_id (rw_bucket w j)) ` set is)) (\<lambda>own_ids.
     let ids = (case ids_opt of None \<Rightarrow> own_ids | Some b \<Rightarrow> b) in
     op_bind (raising (validate_backend_refund_usage_for_bucket_ids (en_unicode E) reserved actual ids own_ids)) (\<lambda>_.
     op_bind (refund_authority E reserved ids rid meta) (\<lambda>authority.
     if ids = {}
     then (case authority of None \<Rightarrow> op_return True
       | Some (mk, dk, marker) \<Rightarrow> op_bind (sync_server_time E) (\<lambda>now.
           op_bind (commit_refund E mk dk marker [] now []) (\<lambda>_. op_return True)))
     else
     op_bind (raising (refund_amounts_of reserved actual)) (\<lambda>amounts.
     op_bind (with_locks E is (\<lambda>held.
       op_bind (sync_server_time E) (\<lambda>now.
       op_bind (get_capacities_unsafe E is now) (\<lambda>(pre, fresh).
       op_bind (op_gets (\<lambda>w. refunded_levels (rw_bucket w) is ids amounts pre)) (\<lambda>r.
       op_bind (raising r) (\<lambda>post.
       let scoped = filter (\<lambda>(k, c). k \<in> ids) post in
       op_bind (extend_locks E held) (\<lambda>_.
       op_bind (case authority of
           None \<Rightarrow> op_bind (set_capacities_unsafe E scoped now True is None None) (\<lambda>_. op_return ())
         | Some (mk, dk, marker) \<Rightarrow> commit_refund E mk dk marker scoped now is) (\<lambda>_.
         op_return (pre, post, fresh))))))))) (\<lambda>(pre, post, fresh).
     op_bind (fire_fresh_start E fresh) (\<lambda>_.
     op_bind (raising (usage_floats reserved)) (\<lambda>ru. op_bind (raising (usage_floats actual)) (\<lambda>au.
     op_bind (fire_event E (RedisRefunded ru au amounts pre post)) (\<lambda>_.
       op_return True))))))))))"

definition no_metadata :: marker_metadata where
  "no_metadata = \<lparr>mm_family = None, mm_bucket_ids = None, mm_reserved = None\<rparr>"

definition redis_refund_capacity :: "'s env \<Rightarrow> raw_usage \<Rightarrow> raw_usage \<Rightarrow> ('s, bool) rop" where
  "redis_refund_capacity E reserved actual =
     op_bind (op_gets (\<lambda>w. (\<lambda>j. rb_id (rw_bucket w j)) ` set (ra_buckets (rw_self w)))) (\<lambda>ids.
       redis_refund_capacity_for_buckets E reserved actual (Some ids) None no_metadata)"

section \<open>Changing limits\<close>

text \<open>
  \<^verbatim>\<open>_snapshot_bucket_state\<close> freezes a bucket at the level it has accrued under the rate in
  force, before the rate changes. A bucket whose state is missing or unreadable is left alone.
\<close>

definition readable_pair :: "pyval \<times> pyval \<Rightarrow> (pyfloat \<times> pyfloat) option" where
  "readable_pair lc = (if fst lc = VNone \<or> snd lc = VNone then None
     else case (py_float (fst lc), py_float (snd lc)) of
       (Inr l, Inr c) \<Rightarrow> if isfinite l \<and> isfinite c then Some (l, c) else None
     | _ \<Rightarrow> None)"

record snapshot_plan =
  sp_time :: pyfloat
  sp_capacity :: "pyfloat option"
  sp_override :: "pyfloat option"
  sp_retention :: "pyfloat option"

definition effective_rate :: "redis_bucket \<Rightarrow> pyfloat option \<Rightarrow> pyfloat result" where
  "effective_rate b override = per_second (case override of None \<Rightarrow> rb_default b | Some v \<Rightarrow> v) (rb_per_seconds b)"

definition retention_maximum :: "redis_bucket \<Rightarrow> pyfloat \<Rightarrow> pyfloat option \<Rightarrow> pyfloat result" where
  "retention_maximum b rate proposed = bind_res (float_of_int (rb_per_seconds b)) (\<lambda>p.
     Inr (case proposed of None \<Rightarrow> fmul rate p | Some m \<Rightarrow> fmin (fmul rate p) m))"

definition anchored_level ::
  "redis_bucket \<Rightarrow> override_expiry option \<Rightarrow> pyfloat option \<Rightarrow> pyfloat \<Rightarrow> pyfloat \<Rightarrow> pyfloat \<times> pyfloat \<Rightarrow> pyfloat result" where
  "anchored_level b history override rate now lc =
     accrue_with_expiry history override (rb_default b) (rb_per_seconds b) (fst lc) now (snd lc) rate"

definition plan_snapshot :: "'s env \<Rightarrow> nat \<Rightarrow> pyfloat option \<Rightarrow> ('s, snapshot_plan) rop" where
  "plan_snapshot E i proposed =
     op_bind (read_override E i) (\<lambda>override.
     op_bind (bucket_of i) (\<lambda>b.
     op_bind (raising (effective_rate b override)) (\<lambda>rate.
     op_bind (sync_server_time E) (\<lambda>now.
     op_bind (execute_pipeline E [Get (last_checked_key b), Get (capacity_key b)]) (\<lambda>rs.
     op_bind (raising (redis_state_loss_suspected b now)) (\<lambda>lost.
     op_bind (raising (normalize_bucket_state_pair (rs ! 0) (rs ! 1) now lost)) (\<lambda>pair.
     case readable_pair pair of
       None \<Rightarrow> op_return \<lparr>sp_time = now, sp_capacity = None, sp_override = override, sp_retention = None\<rparr>
     | Some lc \<Rightarrow>
       op_bind (read_override_expiry E i) (\<lambda>history.
       op_bind (raising (anchored_level b history override rate now lc)) (\<lambda>anchored.
       op_bind (raising (retention_maximum b rate proposed)) (\<lambda>retention.
       op_bind (raising (guard (isfinite anchored) (ValueError ''capacity must be finite''))) (\<lambda>_.
       op_bind (raising (capacity_ttl b anchored (Some retention))) (\<lambda>_.
         op_return \<lparr>sp_time = now, sp_capacity = Some anchored, sp_override = override,
                   sp_retention = Some retention\<rparr>))))))))))))"

definition snapshot_bucket_state :: "'s env \<Rightarrow> nat \<Rightarrow> pyfloat option \<Rightarrow> ('s, unit) rop" where
  "snapshot_bucket_state E i proposed =
     op_bind (read_override E i) (\<lambda>override.
     op_bind (bucket_of i) (\<lambda>b.
     op_bind (raising (effective_rate b override)) (\<lambda>rate.
     op_bind (sync_server_time E) (\<lambda>now.
     op_bind (execute_pipeline E ([Get (last_checked_key b), Get (capacity_key b)] @ state_ttl_refresh b)) (\<lambda>rs.
     op_bind (raising (redis_state_loss_suspected b now)) (\<lambda>lost.
     op_bind (raising (normalize_bucket_state_pair (rs ! 0) (rs ! 1) now lost)) (\<lambda>pair.
     op_bind (raising (bind_res (validate_expire_result (rs ! 2)) (\<lambda>_. validate_expire_result (rs ! 3)))) (\<lambda>_.
     case readable_pair pair of
       None \<Rightarrow> op_seq (refresh_override_ttl E i override) (apply_parsed_override E i override)
     | Some lc \<Rightarrow>
       op_bind (read_override_expiry E i) (\<lambda>history.
       op_bind (raising (anchored_level b history override rate now lc)) (\<lambda>anchored.
       op_bind (refresh_override_ttl E i override) (\<lambda>_.
       op_bind (raising (retention_maximum b rate proposed)) (\<lambda>retention.
       op_bind (bucket_set_capacity E i anchored now True (Some retention)) (\<lambda>_.
         apply_parsed_override E i override)))))))))))))"

definition commit_snapshot :: "'s env \<Rightarrow> nat \<Rightarrow> snapshot_plan \<Rightarrow> ('s, unit) rop" where
  "commit_snapshot E i plan = op_block
     [refresh_override_ttl E i (sp_override plan),
      (case sp_capacity plan of None \<Rightarrow> op_return ()
       | Some c \<Rightarrow> bucket_set_capacity E i c (sp_time plan) True (sp_retention plan)),
      apply_parsed_override E i (sp_override plan)]"

definition redis_set_max_capacity :: "'s env \<Rightarrow> bucket_id \<Rightarrow> pyval \<Rightarrow> ('s, unit) rop" where
  "redis_set_max_capacity E k value =
     op_bind my_buckets (\<lambda>is.
     op_bind (require_bucket is k) (\<lambda>i.
       with_locks E is (\<lambda>held.
         op_bind (extend_locks E held) (\<lambda>_.
         op_bind (raising (validate_max_capacity_finite_positive value)) (\<lambda>proposed.
         op_bind (snapshot_bucket_state E i (Some proposed)) (\<lambda>_.
           bucket_set_max_capacity E i value))))))"

definition redis_apply_configured_max_capacity :: "'s env \<Rightarrow> bucket_id \<Rightarrow> pyval \<Rightarrow> ('s, unit) rop" where
  "redis_apply_configured_max_capacity E k value =
     op_bind my_buckets (\<lambda>is.
     op_bind (require_bucket is k) (\<lambda>i.
       with_locks E is (\<lambda>held.
         op_bind (extend_locks E held) (\<lambda>_.
         op_bind (raising (validate_max_capacity_finite_positive value)) (\<lambda>proposed.
         op_bind (snapshot_bucket_state E i (Some proposed)) (\<lambda>_.
         op_bind (clear_max_capacity_override E i) (\<lambda>_.
           set_configured_max_capacity i value)))))))"

definition redis_reconciliation_max :: "'s env \<Rightarrow> bucket_id \<Rightarrow> ('s, pyfloat option) rop" where
  "redis_reconciliation_max E k =
     op_bind (op_gets (\<lambda>w. find_redis_bucket (rw_bucket w) (ra_buckets (rw_self w)) k)) (\<lambda>r. case r of
        None \<Rightarrow> op_return None
      | Some i \<Rightarrow> op_bind (refresh_max_capacity_from_redis E i) (\<lambda>m. op_return (Some m)))"

section \<open>Reconfiguration\<close>

text \<open>The union of two lists of buckets by key, the later one winning, in the order of the keys.\<close>

definition combined_snapshot :: "(nat \<Rightarrow> redis_bucket) \<Rightarrow> nat list \<Rightarrow> nat list \<Rightarrow> nat list" where
  "combined_snapshot h old new =
     sort_refs h (map snd (fold (\<lambda>i d. dict_set (rb_key (h i)) i d) (old @ new) []))"

text \<open>Surviving buckets hand over their proof that the server's state was there.\<close>

definition inherit_confirmation :: "(nat \<Rightarrow> redis_bucket) \<Rightarrow> nat list \<Rightarrow> nat \<Rightarrow> redis_bucket \<Rightarrow> redis_bucket" where
  "inherit_confirmation h old i b =
     (case map_of (fold (\<lambda>j d. dict_set (rb_key (h j)) j d) old []) (rb_key b) of
        None \<Rightarrow> b
      | Some j \<Rightarrow> b\<lparr>rb_confirmed_at := rb_confirmed_at (h j), rb_confirmed_ttl := rb_confirmed_ttl (h j)\<rparr>)"

definition install_redis_state :: "nat list \<Rightarrow> per_model_config \<Rightarrow> ('s, unit) rop" where
  "install_redis_state new cfg = op_modify (\<lambda>w.
     let h = rw_bucket w; old = ra_buckets (rw_self w);
         h' = (\<lambda>i. if i \<in> set new then inherit_confirmation h old i (h i) else h i) in
     w\<lparr>rw_bucket := h', rw_self := (rw_self w)
       \<lparr>ra_buckets := sort_refs h' new, ra_metric_names := redis_metrics h' new, ra_config := cfg\<rparr>\<rparr>)"

text \<open>
  Every bucket to freeze, with the maximum the new configuration proposes: the removed ones,
  then per quota the current bucket, or the new one where there is none.
\<close>

definition snapshot_targets ::
  "(nat \<Rightarrow> redis_bucket) \<Rightarrow> nat list \<Rightarrow> nat list \<Rightarrow> nat list \<Rightarrow> quota list \<Rightarrow> (nat \<times> pyfloat option) list result" where
  "snapshot_targets h old new removed quotas =
     bind_res (for_each quotas (\<lambda>q acc.
       case find_redis_bucket h new (quota_bucket_id q) of
         None \<Rightarrow> Inl (ValueError ''Bucket not found'')
       | Some m \<Rightarrow> Inr (acc @ [(case find_redis_bucket h old (quota_bucket_id q) of None \<Rightarrow> m | Some c \<Rightarrow> c,
                               Some (q_limit q))])) [])
     (\<lambda>ts. Inr (map (\<lambda>i. (i, None)) removed @ ts))"

text \<open>The plans are looked up by key, so a key planned twice has its last plan.\<close>

definition reconfigure_quota ::
  "'s env \<Rightarrow> (pystr \<times> pystr) list \<Rightarrow> nat list \<Rightarrow> nat list \<Rightarrow> (pystr \<rightharpoonup> snapshot_plan) \<Rightarrow> quota \<Rightarrow> ('s, unit) rop" where
  "reconfigure_quota E held old new plans q =
     op_bind (require_bucket new (quota_bucket_id q)) (\<lambda>m.
     op_bind (op_gets (\<lambda>w. find_redis_bucket (rw_bucket w) old (quota_bucket_id q))) (\<lambda>current.
     op_bind (extend_locks E held) (\<lambda>_.
     let s = (case current of None \<Rightarrow> m | Some c \<Rightarrow> c) in
     op_bind (bucket_of s) (\<lambda>b.
     op_bind (case plans (rb_key b) of None \<Rightarrow> op_raise (Plain KeyError) | Some p \<Rightarrow> commit_snapshot E s p) (\<lambda>_.
     op_bind (bucket_of s) (\<lambda>b.
     op_bind (if current \<noteq> None \<and> \<not> feq (rb_default b) (q_limit q)
              then clear_max_capacity_override E m else op_return ()) (\<lambda>_.
       set_configured_max_capacity m (VFloat (q_limit q)))))))))"

definition redis_prepare_reconfigured_backend ::
  "'s env \<Rightarrow> nat list \<Rightarrow> per_model_config \<Rightarrow> ('s, unit) rop" where
  "redis_prepare_reconfigured_backend E new cfg =
     op_bind my_buckets (\<lambda>old.
     op_bind (op_gets (\<lambda>w. combined_snapshot (rw_bucket w) old new)) (\<lambda>both.
     op_bind (op_gets (\<lambda>w. filter (\<lambda>i. find_redis_bucket (rw_bucket w) new (rb_id (rw_bucket w i)) = None) old)) (\<lambda>removed.
     let quotas = uq_iter (cfg_quotas cfg) in
     with_locks E both (\<lambda>held.
       op_bind (op_gets (\<lambda>w. snapshot_targets (rw_bucket w) old new removed quotas)) (\<lambda>ts.
       op_bind (raising ts) (\<lambda>targets.
       op_bind (op_map (\<lambda>(i, mx). op_bind (extend_locks E held) (\<lambda>_. op_bind (plan_snapshot E i mx) (\<lambda>p.
           op_bind (bucket_of i) (\<lambda>b. op_return (rb_key b, p))))) targets) (\<lambda>planned.
       let plans = map_of (rev planned) in op_block
        [op_for_each removed (\<lambda>i. op_bind (extend_locks E held) (\<lambda>_. op_bind (bucket_of i) (\<lambda>b.
           op_seq (case plans (rb_key b) of None \<Rightarrow> op_raise (Plain KeyError) | Some p \<Rightarrow> commit_snapshot E i p)
             (clear_max_capacity_override E i)))),
         op_for_each quotas (reconfigure_quota E held old new plans),
         extend_locks E held,
         install_redis_state new cfg])))))))"

end
