(* ===== verification/RedisRuns.thy ===== *)
theory RedisRuns
  imports RedisOps
begin

text \<open>
  What a client does to the server, seen from outside: whatever the network loses or repeats and
  whatever other clients do in between, every operation of a backend moves the server by steps
  of the deployment's transition system, so the laws of its ledger hold of all clients together.
\<close>

section \<open>Statements with a postcondition\<close>

text \<open>Like \<open>preserves\<close>, and a value that is returned satisfies \<open>Q\<close>.\<close>

definition yields :: "('s \<Rightarrow> bool) \<Rightarrow> ('a \<Rightarrow> bool) \<Rightarrow> ('s, 'e, 'a) eff \<Rightarrow> bool" where
  "yields I Q m \<longleftrightarrow> (\<forall>s. I s \<longrightarrow> wp m (\<lambda>x t. I t \<and> Q x) (\<lambda>_. I) s)"

lemma yieldsI: "(\<And>s. I s \<Longrightarrow> wp m (\<lambda>x t. I t \<and> Q x) (\<lambda>_. I) s) \<Longrightarrow> yields I Q m"
  by (simp add: yields_def)

lemma yieldsD: "yields I Q m \<Longrightarrow> I s \<Longrightarrow> wp m (\<lambda>x t. I t \<and> Q x) (\<lambda>_. I) s"
  by (simp add: yields_def)

lemma preserves_yields: "preserves I m \<Longrightarrow> (\<And>s x t. m s = (Inr x, t) \<Longrightarrow> I s \<Longrightarrow> Q x) \<Longrightarrow> yields I Q m"
  by (fastforce simp: yields_def preserves_def wp_def split: prod.splits sum.splits)

lemma yields_preserves: "yields I Q m \<Longrightarrow> preserves I m"
  by (auto simp: yields_def preserves_def elim: wp_mono)

lemma yields_bind:
  assumes "yields I Q m" "\<And>x. Q x \<Longrightarrow> yields I P (f x)" shows "yields I P (op_bind m f)"
proof (rule yieldsI)
  fix s assume "I s"
  show "wp (op_bind m f) (\<lambda>x t. I t \<and> P x) (\<lambda>_. I) s"
    unfolding wp_bind
    by (rule wp_mono [OF yieldsD [OF assms(1) \<open>I s\<close>]]) (use yieldsD [OF assms(2)] in auto)
qed

lemma preserves_after:
  assumes "yields I Q m" "\<And>x. Q x \<Longrightarrow> preserves I (f x)" shows "preserves I (op_bind m f)"
proof (rule preservesI)
  fix s assume "I s"
  show "wp (op_bind m f) (\<lambda>_. I) (\<lambda>_. I) s"
    unfolding wp_bind
    by (rule wp_mono [OF yieldsD [OF assms(1) \<open>I s\<close>]]) (use preservesD [OF assms(2)] in auto)
qed

lemma yields_after: "preserves I m \<Longrightarrow> (\<And>x. yields I P (f x)) \<Longrightarrow> yields I P (op_bind m f)"
  by (rule yields_bind [where Q = "\<lambda>_. True"]) (auto intro: preserves_yields)

lemma yields_return: "Q x \<Longrightarrow> yields I Q (op_return x)"
  by (simp add: yields_def wp_simps)

lemma yields_map:
  "(\<And>x. x \<in> set xs \<Longrightarrow> yields I Q (f x)) \<Longrightarrow> yields I (list_all Q) (op_map f xs)"
proof (induction xs)
  case Nil
  then show ?case by (simp add: yields_return)
next
  case (Cons x xs)
  then show ?case by (auto intro!: yields_bind [of I Q "f x"] yields_bind [of I "list_all Q" "op_map f xs"] yields_return)
qed

lemma yields_if: "(c \<Longrightarrow> yields I Q m) \<Longrightarrow> (\<not> c \<Longrightarrow> yields I Q n) \<Longrightarrow> yields I Q (if c then m else n)"
  by simp

lemma yields_try: 
  assumes "yields I Q m" "\<And>e. yields I Q (h e)" shows "yields I Q (op_try m h)"
proof (rule yieldsI)
  fix s assume "I s"
  show "wp (op_try m h) (\<lambda>x t. I t \<and> Q x) (\<lambda>_. I) s"
    unfolding wp_try
    by (rule wp_mono [OF yieldsD [OF assms(1) \<open>I s\<close>]]) (use yieldsD [OF assms(2)] in auto)
qed

lemma yields_raise: "yields I Q (op_raise e)"
  by (simp add: yields_def wp_simps)

lemma preserves_map [preserves_intros]: "(\<And>x. x \<in> set xs \<Longrightarrow> preserves I (f x)) \<Longrightarrow> preserves I (op_map f xs)"
  by (rule yields_preserves [OF yields_map [where Q = "\<lambda>_. True"]]) (auto intro: preserves_yields)

section \<open>Runs of the deployment\<close>

definition reaches :: "'s server \<Rightarrow> pystr \<Rightarrow> ('s \<Rightarrow> 's \<Rightarrow> bool) \<Rightarrow> 's \<Rightarrow> 's \<Rightarrow> bool" where
  "reaches R p others s t \<longleftrightarrow> (\<exists>es. trace (redis_step R p others) s es t)"

lemma reaches_refl [simp]: "reaches R p others s s"
  by (auto simp: reaches_def intro: trace_Nil)

lemma reaches_trans: "reaches R p others s t \<Longrightarrow> reaches R p others t u \<Longrightarrow> reaches R p others s u"
  by (auto simp: reaches_def) (metis trace_append)

lemma reaches_step: "redis_step R p others s e t \<Longrightarrow> reaches R p others s t"
  by (auto simp: reaches_def intro!: exI [of _ "[e]"] trace_Cons trace_Nil)

lemma reaches_books_kept: "ids_kept R p s t \<Longrightarrow> reaches R p others s t"
  by (rule reaches_step) (rule redis_step.elsewhere)

definition off_books :: "pystr \<Rightarrow> pystr \<Rightarrow> bool" where
  "off_books p k \<longleftrightarrow> (\<forall>i. 58 \<notin> set i \<longrightarrow> k \<noteq> marker_key p i \<and> k \<noteq> tombstone_key p i)"

lemma apart_off_books: "apart p ws \<longleftrightarrow> (\<forall>k \<in> set (write_keys ws). off_books p k)"
  by (auto simp: apart_def off_books_def)

text \<open>The objects of a client that belong to deployment \<open>p\<close>.\<close>

definition bucket_ok :: "pystr \<Rightarrow> redis_bucket \<Rightarrow> bool" where
  "bucket_ok p b \<longleftrightarrow> list_all (off_books p) [last_checked_key b, capacity_key b, lock_key b, override_key b, history_key b] \<and>
     0 < rb_bucket_ttl b \<and> 0 < rb_override_ttl b"

definition client_ok :: "'s env \<Rightarrow> pystr \<Rightarrow> 's world \<Rightarrow> bool" where
  "client_ok E p w \<longleftrightarrow> validate_key_prefix (en_unicode E) (VStr (ra_prefix (rw_self w))) = Inr p \<and>
     (\<forall>i. bucket_ok p (rw_bucket w i))"

text \<open>
  The environment: what happens to a round trip before it reaches the server is a run of the
  deployment, and redis-py's locks write no reservation key.
\<close>

definition drifts :: "'s delivery \<Rightarrow> ('s \<Rightarrow> 's) list" where
  "drifts d = (case d of Answered g \<Rightarrow> [g] | Resent g h \<Rightarrow> [g, h] | Unanswered g e \<Rightarrow> [g] | Unsent g e \<Rightarrow> [g])"

definition fair_env :: "'s env \<Rightarrow> pystr \<Rightarrow> ('s \<Rightarrow> 's \<Rightarrow> bool) \<Rightarrow> bool" where
  "fair_env E p others \<longleftrightarrow>
     (\<forall>n s. list_all (\<lambda>g. reaches (en_server E) p others s (g s)) (drifts (en_delivery E n))) \<and>
     (\<forall>k token t s. off_books p k \<longrightarrow>
        ids_kept (en_server E) p s (snd (en_lock E k token t s)) \<and>
        ids_kept (en_server E) p s (snd (en_reacquire E k token s)) \<and>
        ids_kept (en_server E) p s (snd (en_release E k token s)))"

definition same_bucket :: "redis_bucket \<Rightarrow> redis_bucket \<Rightarrow> bool" where
  "same_bucket b c \<longleftrightarrow> rb_key c = rb_key b \<and> rb_bucket_ttl c = rb_bucket_ttl b \<and> rb_override_ttl c = rb_override_ttl b"

definition moved :: "'s env \<Rightarrow> pystr \<Rightarrow> ('s \<Rightarrow> 's \<Rightarrow> bool) \<Rightarrow> 's world \<Rightarrow> 's world \<Rightarrow> bool" where
  "moved E p others v w \<longleftrightarrow> reaches (en_server E) p others (rw_server v) (rw_server w) \<and> rw_self w = rw_self v \<and>
     (\<forall>i. same_bucket (rw_bucket v i) (rw_bucket w i))"

lemma bucket_ok_same: "same_bucket b c \<Longrightarrow> bucket_ok p b \<Longrightarrow> bucket_ok p c"
  by (simp add: same_bucket_def bucket_ok_def last_checked_key_def capacity_key_def lock_key_def override_key_def
      history_key_def)

lemma client_ok_moved: "moved E p others v w \<Longrightarrow> client_ok E p v \<Longrightarrow> client_ok E p w"
  by (auto simp: moved_def client_ok_def intro: bucket_ok_same)

lemma moved_refl [simp]: "moved E p others w w"
  by (simp add: moved_def same_bucket_def)

section \<open>What the commands of a client do\<close>

context redis_server
begin

lemma set_off_books: "sv_set R k v px s = Some t \<Longrightarrow> off_books p k \<Longrightarrow> ids_kept R p s t"
  by (auto simp: ids_kept_def off_books_def same_key_def set_get set_pttl)

lemma del_off_books: "sv_del R k s = Some t \<Longrightarrow> off_books p k \<Longrightarrow> ids_kept R p s t"
  by (auto simp: ids_kept_def off_books_def same_key_def del_get del_pttl)

lemma pexpire_off_books: "sv_pexpire R k px s = Some t \<Longrightarrow> off_books p k \<Longrightarrow> 0 < px \<Longrightarrow> ids_kept R p s t"
  by (auto simp: ids_kept_def off_books_def same_key_def pexpire_get pexpire_pttl)

lemma books_kept_trans: "ids_kept R p s t \<Longrightarrow> ids_kept R p t u \<Longrightarrow> ids_kept R p s u"
  by (fastforce simp: ids_kept_def intro: same_key_trans)

lemma books_kept_refl [simp]: "ids_kept R p s s"
  by (simp add: ids_kept_def)

lemma required_ttl_ge: "required_ttl_ms L c ttl configured per = Some t \<Longrightarrow> 1000 * ttl \<le> t"
  by (auto simp: required_ttl_ms_def Let_def split: option.splits if_splits sum.splits)

lemma pexpire_if_off_books:
  "(if c then sv_pexpire R k px s else Some s) = Some t \<Longrightarrow> off_books p k \<Longrightarrow> 0 < px \<Longrightarrow> ids_kept R p s t"
  by (cases c) (auto intro: pexpire_off_books)

lemma refresh_off_books:
  assumes "off_books p k" "off_books p hk" "0 < ttl"
  shows "ids_kept R p s (snd (refresh_state_ttl R L k ck hk ttl configured per s))"
proof (cases "required_ttl_ms L (sv_get R ck s) ttl configured per")
  case None
  then show ?thesis by (simp add: refresh_state_ttl_def)
next
  case (Some t)
  then have t: "0 < t" using required_ttl_ge [OF Some] assms(3) by linarith
  let ?px = "max t (sv_pttl R k s)"
  let ?h = "if 0 \<le> sv_pttl R hk s \<and> sv_pttl R hk s < ?px then sv_pexpire R hk ?px s else Some s"
  show ?thesis
  proof (cases "sv_pttl R k s = - 2 \<or> ?h = None")
    case True
    with Some show ?thesis by (auto simp: refresh_state_ttl_def Let_def)
  next
    case False
    then obtain u where u: "?h = Some u" by blast
    have "0 < ?px" using t by simp
    then have a: "ids_kept R p s u" using pexpire_if_off_books [OF u assms(2)] by blast
    have b: "sv_pexpire R k t u = Some v \<Longrightarrow> ids_kept R p s v" for v
      using a pexpire_off_books [OF _ assms(1) t] books_kept_trans by blast
    have "refresh_state_ttl R L k ck hk ttl configured per s =
        (if t \<le> sv_pttl R k s then (Some 1, u)
         else case sv_pexpire R k t u of None \<Rightarrow> (None, u)
           | Some v \<Rightarrow> (Some (if sv_get R k u = None then 0 else 1), v))"
      using Some False u by (simp add: refresh_state_ttl_def Let_def)
    then show ?thesis using a b by (simp split: option.split)
  qed
qed

lemma retain_off_books: "off_books p hk \<Longrightarrow> 0 < ttl \<Longrightarrow> ids_kept R p s (snd (retain_expiry R hk lk ck ttl s))"
  by (auto simp: retain_expiry_def Let_def less_max_iff_disj intro: pexpire_off_books split: option.split)

lemma pcall_off_books:
  "off_books p k \<Longrightarrow> ids_kept R p s (snd (pcall (sv_set R k v px) s))"
  "off_books p k \<Longrightarrow> ids_kept R p s (snd (pcall (sv_del R k) s))"
  by (auto simp: pcall_def intro: set_off_books del_off_books split: option.split)

lemma write_override_off_books:
  assumes "off_books p ok" "off_books p hk" "0 < ow_ttl w"
  shows "ids_kept R p s (snd (write_override R L ok hk lk ck w s))"
proof -
  have second: "ids_kept R p t u"
    if "(if ow_refresh w then sv_pexpire R ok (1000 * ow_ttl w) t
         else sv_set R ok (ow_payload w) (Some (1000 * ow_ttl w)) t) = Some u" for t u
    using that assms(1,3) by (auto intro: set_off_books pexpire_off_books split: if_splits)
  have undo: "ids_kept R p t (snd (case previous of
                  Some q \<Rightarrow> if 0 < ttl then pcall (sv_set R hk q (Some ttl)) t
                            else if ttl = - 1 then pcall (sv_set R hk q None) t
                            else pcall (sv_del R hk) t
                | None \<Rightarrow> pcall (sv_del R hk) t))" for previous ttl t
    using pcall_off_books [OF assms(2)] by (simp split: option.split)
  show ?thesis
    unfolding write_override_def Let_def
    using second undo books_kept_trans [OF set_off_books [OF _ assms(2)]]
    by (simp split: option.split)
qed

end


section \<open>One client\<close>

locale redis_client = redis_server "en_server E"
  for E :: "'s env" +
  fixes p :: pystr and others :: "'s \<Rightarrow> 's \<Rightarrow> bool" and v :: "'s world"
  assumes fair: "fair_env E p others"
    and owned: "client_ok E p v"
begin

abbreviation I :: "'s world \<Rightarrow> bool" where "I \<equiv> moved E p others v"

lemma I_client: "I w \<Longrightarrow> client_ok E p w"
  by (rule client_ok_moved [OF _ owned])

lemma I_ok: "I w \<Longrightarrow> bucket_ok p (rw_bucket w i)"
  using I_client by (simp add: client_ok_def)

lemma I_prefix: "I w \<Longrightarrow> validate_key_prefix (en_unicode E) (VStr (ra_prefix (rw_self w))) = Inr p"
  using I_client by (simp add: client_ok_def)

lemma I_server:
  "I w \<Longrightarrow> reaches (en_server E) p others (rw_server w) t \<Longrightarrow> I (w\<lparr>rw_server := t, rw_tick := n\<rparr>)"
  by (auto simp: moved_def intro: reaches_trans)

lemma round_trip_run:
  assumes "\<And>s. reaches (en_server E) p others s (snd (f s))" shows "preserves I (round_trip E f)"
proof (rule preservesI)
  fix w assume w: "I w"
  let ?s = "rw_server w" let ?d = "en_delivery E (rw_tick w)"
  have d: "list_all (\<lambda>g. \<forall>s. reaches (en_server E) p others s (g s)) (drifts ?d)"
    using fair by (fastforce simp: fair_env_def list_all_iff)
  show "wp (round_trip E f) (\<lambda>_. I) (\<lambda>_. I) w"
  proof (cases ?d)
    case (Answered g)
    have "reaches (en_server E) p others ?s (snd (f (g ?s)))"
      using d Answered by (auto simp: drifts_def intro!: assms intro: reaches_trans)
    then show ?thesis using Answered I_server [OF w] by (auto simp: wp_def round_trip_def Let_def split: prod.split)
  next
    case (Resent g h)
    let ?t = "snd (f (g ?s))"
    have "reaches (en_server E) p others ?s (g ?s)" "reaches (en_server E) p others ?t (h ?t)"
      using d Resent by (auto simp: drifts_def)
    then have "reaches (en_server E) p others ?s (snd (f (h ?t)))"
      using assms [of "g ?s"] assms [of "h ?t"] by (blast intro: reaches_trans)
    then show ?thesis using Resent I_server [OF w] by (auto simp: wp_def round_trip_def Let_def split: prod.split)
  next
    case (Unanswered g e)
    have "reaches (en_server E) p others ?s (snd (f (g ?s)))"
      using d Unanswered by (auto simp: drifts_def intro!: assms intro: reaches_trans)
    then show ?thesis using Unanswered I_server [OF w] by (auto simp: wp_def round_trip_def Let_def)
  next
    case (Unsent g e)
    then show ?thesis using d I_server [OF w] by (auto simp: wp_def round_trip_def Let_def drifts_def)
  qed
qed

lemma pure_trip: "preserves I (round_trip E (\<lambda>s. (g s, s)))"
  by (rule round_trip_run) simp

lemma plain_run [preserves_intros]: "preserves I (raising r)"
  by (auto simp: raising_def intro: preserves_intros split: sum.split)

lemma plain_yields: "(\<And>x. r = Inr x \<Longrightarrow> Q x) \<Longrightarrow> yields I Q (raising r)"
  by (auto simp: raising_def yields_return yields_raise split: sum.split)

lemma redis_get_run [preserves_intros]: "preserves I (redis_get E k)"
  unfolding redis_get_def by (rule pure_trip)

lemma redis_exists_run [preserves_intros]: "preserves I (redis_exists E k)"
  unfolding redis_exists_def by (rule pure_trip)

lemma redis_eval_run: "(\<And>s. reaches (en_server E) p others s (snd (f s))) \<Longrightarrow> preserves I (redis_eval E f)"
  unfolding redis_eval_def by (intro round_trip_run preserves_intros)

lemma sync_server_time_run [preserves_intros]: "preserves I (sync_server_time E)"
proof -
  have "preserves I (\<lambda>w. case check_forward_jump t r (rw_clock w) of
         (Inl e, c) \<Rightarrow> (Inl (Plain e), w\<lparr>rw_clock := c\<rparr>)
       | (Inr _, c) \<Rightarrow> (Inr t, w\<lparr>rw_clock := c\<rparr>))" for t r
    by (auto simp: preserves_def wp_def moved_def split: prod.splits sum.splits)
  then show ?thesis unfolding sync_server_time_def Let_def by (intro pure_trip preserves_intros)
qed

subsection \<open>Pipelines\<close>

text \<open>The commands clients send: writes off the books, and the deletion of markers.\<close>

fun command_ok :: "command \<Rightarrow> bool" where
  "command_ok (Get k) = True"
| "command_ok (SetEx k b ttl) = off_books p k"
| "command_ok (SetNxEx k b ttl) = off_books p k"
| "command_ok (Del ks) = list_all (\<lambda>k. off_books p k \<or> (\<exists>i. 58 \<notin> set i \<and> k = marker_key p i)) ks"
| "command_ok (RefreshTtl k ck hk ttl configured per) \<longleftrightarrow> off_books p k \<and> off_books p hk \<and> 0 < ttl"

lemma del_reaches:
  assumes "off_books p k \<or> (\<exists>i. 58 \<notin> set i \<and> k = marker_key p i)" "sv_del (en_server E) k s = Some t"
  shows "reaches (en_server E) p others s t"
proof (cases "off_books p k")
  case True
  show ?thesis using del_off_books [OF assms(2) True] by (rule reaches_books_kept)
next
  case False
  then obtain i where "58 \<notin> set i" "k = marker_key p i" using assms(1) by blast
  then show ?thesis using assms(2) redis_step.cancel [of "en_server E" p i s False t others]
    by (simp add: pcall_def reaches_step)
qed

lemma delete_keys_reaches:
  "list_all (\<lambda>k. off_books p k \<or> (\<exists>i. 58 \<notin> set i \<and> k = marker_key p i)) ks \<Longrightarrow>
   reaches (en_server E) p others s (snd (delete_keys (en_server E) ks s))"
proof (induction ks arbitrary: s)
  case (Cons k ks)
  show ?case
  proof (cases "sv_del (en_server E) k s")
    case (Some t)
    have "reaches (en_server E) p others s t" using Cons.prems Some by (auto intro: del_reaches)
    moreover have "reaches (en_server E) p others t (snd (delete_keys (en_server E) ks t))"
      using Cons by simp
    ultimately have "reaches (en_server E) p others s (snd (delete_keys (en_server E) ks t))"
      by (rule reaches_trans)
    moreover have "snd (delete_keys (en_server E) (k # ks) s) = snd (delete_keys (en_server E) ks t)"
      using Some by (cases "delete_keys (en_server E) ks t") (simp split: option.split pyval.split)
    ultimately show ?thesis by simp
  qed simp
qed simp

lemma run_command_reaches: "command_ok c \<Longrightarrow> reaches (en_server E) p others s (snd (run_command E c s))"
proof (cases c)
  case (RefreshTtl k ck hk ttl configured per)
  assume "command_ok c"
  with RefreshTtl show ?thesis
    using refresh_off_books [of p k hk ttl s] by (simp add: split_beta reaches_books_kept)
qed (auto simp: delete_keys_reaches set_nx_def intro: reaches_books_kept set_off_books split: option.split)

lemma run_commands_reaches:
  "list_all command_ok cs \<Longrightarrow> reaches (en_server E) p others s (snd (run_commands E cs s))"
proof (induction cs arbitrary: s)
  case (Cons c cs)
  let ?t = "snd (run_command E c s)"
  have "reaches (en_server E) p others s ?t" "reaches (en_server E) p others ?t (snd (run_commands E cs ?t))"
    using Cons run_command_reaches by simp_all
  then have "reaches (en_server E) p others s (snd (run_commands E cs ?t))" by (rule reaches_trans)
  then show ?case by (simp add: split_beta)
qed simp

lemma execute_pipeline_run: "list_all command_ok cs \<Longrightarrow> preserves I (execute_pipeline E cs)"
  unfolding execute_pipeline_def by (intro round_trip_run run_commands_reaches preserves_intros)

subsection \<open>Buckets\<close>

lemma bucket_keys:
  "bucket_ok p b \<Longrightarrow> off_books p (last_checked_key b)" "bucket_ok p b \<Longrightarrow> off_books p (capacity_key b)"
  "bucket_ok p b \<Longrightarrow> off_books p (lock_key b)" "bucket_ok p b \<Longrightarrow> off_books p (override_key b)"
  "bucket_ok p b \<Longrightarrow> off_books p (history_key b)" "bucket_ok p b \<Longrightarrow> 0 < rb_bucket_ttl b"
  "bucket_ok p b \<Longrightarrow> 0 < rb_override_ttl b"
  by (simp_all add: bucket_ok_def)

lemma bucket_of_yields: "yields I (bucket_ok p) (bucket_of i)"
  by (simp add: yields_def bucket_of_def wp_simps I_ok)

lemma buckets_yields: "yields I (list_all (bucket_ok p)) (op_gets (\<lambda>w. map (rw_bucket w) is))"
  by (simp add: yields_def wp_simps list_all_iff I_ok)

lemmas bucket_of_run = preserves_after [OF bucket_of_yields]
lemmas buckets_run = preserves_after [OF buckets_yields]

lemma on_bucket_run: "(\<And>b. same_bucket b (f b)) \<Longrightarrow> preserves I (on_bucket i f)"
  unfolding on_bucket_def by (rule preserves_modify) (auto simp: moved_def same_bucket_def)

lemma monotonic_now_run [preserves_intros]: "preserves I (monotonic_now E)"
  unfolding monotonic_now_def by (intro preserves_intros)

lemma wall_now_run [preserves_intros]: "preserves I (wall_now E)"
  unfolding wall_now_def by (intro preserves_intros)

lemma bucket_of_preserves [preserves_intros]: "preserves I (bucket_of i)"
  unfolding bucket_of_def by (intro preserves_intros)

lemma self_of_run [preserves_intros]: "preserves I self_of" "preserves I my_buckets"
  unfolding self_of_def my_buckets_def by (intro preserves_intros)+

lemma set_cached_override_run [preserves_intros]: "preserves I (set_cached_override i c)"
  unfolding set_cached_override_def
  by (intro on_bucket_run preserves_intros) (simp_all add: same_bucket_def)

lemma apply_parsed_override_run [preserves_intros]: "preserves I (apply_parsed_override E i c)"
  unfolding apply_parsed_override_def
  by (intro on_bucket_run preserves_intros) (simp_all add: same_bucket_def)

lemma read_override_run [preserves_intros]: "preserves I (read_override E i)"
  unfolding read_override_def by (intro preserves_intros)

lemma read_override_expiry_run [preserves_intros]: "preserves I (read_override_expiry E i)"
  unfolding read_override_expiry_def by (intro preserves_intros)

lemma write_override_with_expiry_run [preserves_intros]: "preserves I (write_override_with_expiry E i value refresh)"
  unfolding write_override_with_expiry_def
  by (intro bucket_of_run redis_eval_run preserves_intros)
     (simp_all add: bucket_keys reaches_books_kept write_override_off_books)

lemma refresh_override_expiry_retention_run [preserves_intros]:
  "preserves I (refresh_override_expiry_retention E i ttl)"
proof -
  have y: "yields I (\<lambda>m. 0 < m) (raising (case ttl of None \<Rightarrow> Inr (rb_bucket_ttl b)
        | Some t \<Rightarrow> bind_res (validate_redis_ttl_seconds (VInt t)) (\<lambda>v. Inr (max (rb_bucket_ttl b) v))))"
    if "bucket_ok p b" for b
    using bucket_keys(6) [OF that] by (auto intro!: plain_yields simp: res_simps split: option.splits)
  show ?thesis
    unfolding refresh_override_expiry_retention_def
    by (intro bucket_of_run preserves_after [OF y] redis_eval_run preserves_intros)
       (simp_all add: bucket_keys reaches_books_kept retain_off_books)
qed

lemma refresh_override_ttl_run [preserves_intros]: "preserves I (refresh_override_ttl E i x)"
  unfolding refresh_override_ttl_def by (intro preserves_intros)

lemma refresh_max_capacity_from_redis_run [preserves_intros]: "preserves I (refresh_max_capacity_from_redis E i)"
  unfolding refresh_max_capacity_from_redis_def
  by (intro on_bucket_run preserves_intros) (simp_all add: same_bucket_def)

lemma suppress_exceptions_run [preserves_intros]: "preserves I m \<Longrightarrow> preserves I (suppress_exceptions m)"
  unfolding suppress_exceptions_def by (intro preserves_intros)

lemma bucket_set_max_capacity_run [preserves_intros]: "preserves I (bucket_set_max_capacity E i x)"
  unfolding bucket_set_max_capacity_def by (intro preserves_intros)

lemma set_configured_max_capacity_run [preserves_intros]: "preserves I (set_configured_max_capacity i x)"
  unfolding set_configured_max_capacity_def
  by (intro on_bucket_run preserves_intros) (simp_all add: same_bucket_def)

lemma clear_max_capacity_override_run [preserves_intros]: "preserves I (clear_max_capacity_override E i)"
  unfolding clear_max_capacity_override_def redis_delete_def
  by (intro bucket_of_run on_bucket_run redis_eval_run delete_keys_reaches preserves_intros)
     (simp_all add: same_bucket_def bucket_keys)

lemma retain_capacity_history_run [preserves_intros]: "preserves I (retain_capacity_history E i ttl)"
  unfolding retain_capacity_history_def by (intro preserves_intros)

lemma confirm_state_present_run [preserves_intros]: "preserves I (confirm_state_present i now)"
  unfolding confirm_state_present_def by (intro on_bucket_run) (simp add: same_bucket_def)

lemma set_missing_context_run [preserves_intros]: "preserves I (set_missing_context i m)"
  unfolding set_missing_context_def by (intro on_bucket_run) (simp add: same_bucket_def)

lemma capacity_writes_yields: "yields I (list_all command_ok) (capacity_writes E i c now neg m)"
  unfolding capacity_writes_def Let_def
  by (intro yields_after [OF plain_run] yields_bind [OF bucket_of_yields] yields_after [OF retain_capacity_history_run]
      yields_return) (simp add: bucket_keys)

lemma bucket_set_capacity_run [preserves_intros]: "preserves I (bucket_set_capacity E i c now neg m)"
  unfolding bucket_set_capacity_def
  by (intro preserves_after [OF capacity_writes_yields] execute_pipeline_run preserves_intros)

lemma state_ttl_refresh_ok: "bucket_ok p b \<Longrightarrow> list_all command_ok (state_ttl_refresh b)"
  by (simp add: state_ttl_refresh_def bucket_keys)

lemma bucket_get_capacity_run [preserves_intros]: "preserves I (bucket_get_capacity E i)"
  unfolding bucket_get_capacity_def
  by (intro bucket_of_run on_bucket_run execute_pipeline_run preserves_intros)
     (simp_all add: same_bucket_def state_ttl_refresh_ok)

subsection \<open>Locks\<close>

lemma release_lock_run: "off_books p (fst l) \<Longrightarrow> preserves I (release_lock E l)"
  unfolding release_lock_def using fair
  by (intro round_trip_run preserves_intros) (simp add: fair_env_def reaches_books_kept)

abbreviation held_ok :: "(pystr \<times> pystr) list \<Rightarrow> bool" where "held_ok \<equiv> list_all (\<lambda>l. off_books p (fst l))"

lemma release_all_run: "held_ok held \<Longrightarrow> preserves I (release_all E held)"
  by (induction held) (auto intro!: preserves_intros release_lock_run)

lemma extend_locks_run: "held_ok held \<Longrightarrow> preserves I (extend_locks E held)"
  unfolding extend_locks_def using fair
  by (intro round_trip_run preserves_intros) (auto simp: fair_env_def reaches_books_kept list_all_iff)

lemma acquire_lock_yields: "yields I (\<lambda>l. off_books p (fst l)) (acquire_lock E stop_at i)"
proof -
  have lock: "preserves I (round_trip E (en_lock E k token t))" if "off_books p k" for k token t
    using fair that by (intro round_trip_run) (simp add: fair_env_def reaches_books_kept)
  show ?thesis
    unfolding acquire_lock_def
    by (intro yields_after [OF monotonic_now_run] yields_bind [OF bucket_of_yields] yields_return lock
        yields_after release_lock_run preserves_intros) (simp_all add: bucket_keys)
qed

lemma lock_loop_yields: "held_ok held \<Longrightarrow> yields I held_ok (lock_loop E stop_at is held)"
proof (induction "is" arbitrary: held)
  case Nil
  then show ?case by (simp add: yields_return)
next
  case (Cons i "is")
  have y: "yields I (\<lambda>l. off_books p (fst l)) (op_bind (if held = [] then op_return () else extend_locks E held) (\<lambda>_. acquire_lock E stop_at i))"
    by (intro yields_after acquire_lock_yields preserves_intros extend_locks_run Cons.prems)
  have "yields I held_ok (lock_loop E stop_at is (held @ [l]))" if "off_books p (fst l)" for l
    using Cons that by simp
  then show ?case
    unfolding lock_loop.simps
    by (intro yields_bind [OF yields_try [OF y yields_after]] release_all_run Cons.prems yields_raise)
qed

lemma lock_buckets_yields: "yields I held_ok (lock_buckets E t is)"
  unfolding lock_buckets_def by (intro yields_after lock_loop_yields preserves_intros) simp

lemma lock_or_contention_yields: "yields I held_ok (lock_or_contention E is)"
  unfolding lock_or_contention_def by (intro yields_try lock_buckets_yields yields_if yields_raise)

lemma with_locks_run: "(\<And>held. held_ok held \<Longrightarrow> preserves I (body held)) \<Longrightarrow> preserves I (with_locks E is body)"
  unfolding with_locks_def
  by (intro preserves_after [OF lock_or_contention_yields] preserves_intros release_all_run) simp_all

subsection \<open>Levels\<close>

lemma capacity_reads_ok: "list_all (bucket_ok p) bs \<Longrightarrow> list_all command_ok (capacity_reads bs)"
  by (induction bs) (simp_all add: capacity_reads_def state_ttl_refresh_ok)

lemma parse_capacity_read_run [preserves_intros]: "preserves I (parse_capacity_read E now rs nb ni)"
  unfolding parse_capacity_read_def Let_def by (intro preserves_intros)

lemma all_writes_ok: "list_all (list_all command_ok) css \<Longrightarrow> list_all command_ok (concat css)"
  by (induction css) simp_all

lemma repair_lost_state_run [preserves_intros]: "preserves I (repair_lost_state E now lost)"
  unfolding repair_lost_state_def
  by (intro preserves_after [OF yields_map [OF capacity_writes_yields]] execute_pipeline_run all_writes_ok preserves_intros)

lemma apply_read_run [preserves_intros]: "preserves I (apply_read E r)"
  unfolding apply_read_def by (intro on_bucket_run preserves_intros) (simp add: same_bucket_def)

lemma confirm_read_run [preserves_intros]: "preserves I (confirm_read now r)"
  unfolding confirm_read_def by (intro preserves_intros)

lemma get_capacities_unsafe_run [preserves_intros]: "preserves I (get_capacities_unsafe E is now)"
  unfolding get_capacities_unsafe_def
  by (intro buckets_run execute_pipeline_run capacity_reads_ok preserves_intros)

lemma require_bucket_run [preserves_intros]: "preserves I (require_bucket is k)"
  unfolding require_bucket_def by (intro preserves_intros)

lemma confirm_written_state_run [preserves_intros]: "preserves I (confirm_written_state caps is now)"
  unfolding confirm_written_state_def by (intro preserves_intros)

lemma set_capacities_unsafe_run:
  assumes "\<And>k. marker_k = Some k \<Longrightarrow> \<exists>i. 58 \<notin> set i \<and> k = marker_key p i"
  shows "preserves I (set_capacities_unsafe E caps now neg is None marker_k)"
proof -
  have w: "yields I (list_all (list_all command_ok)) (op_map (\<lambda>(k, a). op_bind (require_bucket is k) (\<lambda>i.
         capacity_writes E i a now neg None)) caps)"
    by (rule yields_map) (auto intro!: yields_after capacity_writes_yields require_bucket_run)
  show ?thesis
    unfolding set_capacities_unsafe_def Let_def
    by (intro preserves_after [OF w] execute_pipeline_run preserves_intros)
       (use assms in \<open>auto simp: all_writes_ok split: option.split\<close>)
qed

text \<open>The arguments of the scripts are off the books.\<close>

lemma script_write_yields:
  "yields I (\<lambda>iw. off_books p (bw_last_checked_key (snd iw)) \<and> off_books p (bw_capacity_key (snd iw)))
     (script_write E is now neg ka)"
  unfolding script_write_def Let_def
  by (intro yields_after [OF require_bucket_run] yields_after [OF plain_run] yields_bind [OF bucket_of_yields]
      yields_return) (simp add: bucket_keys)

lemma script_writes_yields: "yields I (apart p) (script_writes E caps is now neg)"
proof -
  have a: "list_all (\<lambda>iw. off_books p (bw_last_checked_key (snd iw)) \<and> off_books p (bw_capacity_key (snd iw))) iws \<Longrightarrow>
      apart p (map snd iws)" for iws :: "(nat \<times> bucket_write) list"
    by (auto simp: apart_off_books write_keys_def list_all_iff)
  show ?thesis
    unfolding script_writes_def
    by (intro yields_bind [OF yields_map [OF script_write_yields]] yields_after yields_return preserves_intros a)
qed

lemma or_false_run [preserves_intros]: "preserves I m \<Longrightarrow> preserves I (or_false m)"
  unfolding or_false_def by (intro preserves_intros)

lemma acquire_marker_matches_run [preserves_intros]: "preserves I (acquire_marker_matches E key x)"
  unfolding acquire_marker_matches_def by (intro preserves_intros)

lemma bucket_capacity_state_matches_run [preserves_intros]: "preserves I (bucket_capacity_state_matches E is caps)"
proof (induction caps)
  case (Cons ka caps)
  then show ?case by (cases ka) (auto intro!: preserves_intros)
qed (simp add: preserves_intros)

lemma commit_matches_run [preserves_intros]:
  "preserves I (acquire_marker_commit_matches E key x caps is)"
  "preserves I (refund_terminal_state_matches E mk dk caps is)"
  unfolding acquire_marker_commit_matches_def refund_terminal_state_matches_def by (intro preserves_intros)+

lemma acquire_with_marker_run:
  assumes "58 \<notin> set i"
  shows "preserves I (acquire_with_marker E (marker_key p i) (tombstone_key p i) marker ttl caps now neg is)"
proof -
  have "reaches (en_server E) p others s (snd (acquire_script (en_server E) (marker_key p i) (tombstone_key p i) ttl marker ws s))"
    if "apart p ws" for ws s
    using redis_step.acquire [OF prod.collapse [symmetric] assms that] by (rule reaches_step)
  then show ?thesis
    unfolding acquire_with_marker_def eval_script_def
    by (intro preserves_after [OF script_writes_yields] round_trip_run preserves_intros)
       (auto intro!: preserves_intros split: script_reply.split)
qed

lemma commit_refund_run:
  assumes "58 \<notin> set i"
  shows "preserves I (commit_refund E (marker_key p i) (tombstone_key p i) marker caps now is)"
proof -
  have "reaches (en_server E) p others s
      (snd (refund_script (en_server E) (marker_key p i) (tombstone_key p i) marker ttl token ws s))"
    if "apart p ws" for ttl token ws s
    using redis_step.refund [OF prod.collapse [symmetric] assms that] by (rule reaches_step)
  then show ?thesis
    unfolding commit_refund_def eval_script_def
    by (intro preserves_after [OF script_writes_yields] round_trip_run preserves_intros)
       (auto intro!: preserves_intros split: script_reply.split)
qed

subsection \<open>Consuming and refunding\<close>

text \<open>The keys of a reservation, as a client computes them.\<close>

definition keyed :: "(pystr \<Rightarrow> pystr) \<Rightarrow> pystr option \<Rightarrow> pystr option \<Rightarrow> bool" where
  "keyed key rid k \<longleftrightarrow> (case rid of None \<Rightarrow> k = None
     | Some r \<Rightarrow> \<exists>i. validate_reservation_id (en_unicode E) (VStr r) = Inr i \<and> k = Some (key i))"

lemma self_yields: "yields I (\<lambda>a. validate_key_prefix (en_unicode E) (VStr (ra_prefix a)) = Inr p) self_of"
  by (simp add: yields_def self_of_def wp_simps I_prefix)

lemma opt_key_yields:
  "(\<And>r k. rid = Some r \<Longrightarrow> f r = Inr k \<Longrightarrow> Q (Some k)) \<Longrightarrow> (rid = None \<Longrightarrow> Q None) \<Longrightarrow> yields I Q (opt_key f rid)"
  by (cases rid) (auto simp: opt_key_def intro: yields_return intro!: yields_bind [OF plain_yields [where Q = "\<lambda>k. Q (Some k)"]])

lemma acquired_key_yields: "yields I (keyed (marker_key p) rid) (acquired_key E rid)"
  unfolding acquired_key_def
  by (rule yields_bind [OF self_yields], rule opt_key_yields) (auto simp: keyed_def elim!: redis_acquired_marker_key_Inr)

lemma dedup_key_yields: "yields I (keyed (tombstone_key p) rid) (dedup_key E rid)"
  unfolding dedup_key_def
  by (rule yields_bind [OF self_yields], rule opt_key_yields) (auto simp: keyed_def elim!: redis_refund_dedup_key_Inr)

lemma keyed_marker: "keyed (marker_key p) rid mk \<Longrightarrow> mk = Some k \<Longrightarrow> \<exists>i. 58 \<notin> set i \<and> k = marker_key p i"
  by (auto simp: keyed_def dest: validate_reservation_id_no_colon split: option.splits)

lemma keyed_pair:
  "keyed (marker_key p) (Some r) mk \<Longrightarrow> keyed (tombstone_key p) (Some r) dk \<Longrightarrow>
   \<exists>i. 58 \<notin> set i \<and> mk = Some (marker_key p i) \<and> dk = Some (tombstone_key p i)"
  by (auto simp: keyed_def dest: validate_reservation_id_no_colon)

lemma my_family_run [preserves_intros]: "preserves I my_family"
  unfolding my_family_def by (intro preserves_intros)

lemma fire_event_run [preserves_intros]: "preserves I (fire_event E ev)" "preserves I (fire_fresh_start E is)"
  unfolding fire_event_def fire_fresh_start_def by (intro preserves_intros)+

lemma write_consumption_run [preserves_intros]: "preserves I (write_consumption E u rid lifetime caps now neg is)"
proof (cases rid)
  case None
  then show ?thesis unfolding write_consumption_def by (auto intro!: set_capacities_unsafe_run)
next
  case (Some r)
  have "preserves I (acquire_with_marker E (the mk) (the dk) marker ttl caps now neg is)"
    if "keyed (marker_key p) (Some r) mk" "keyed (tombstone_key p) (Some r) dk" for mk dk marker ttl
    using keyed_pair [OF that] acquire_with_marker_run by fastforce
  then show ?thesis
    unfolding write_consumption_def Some option.case
    by (intro preserves_after [OF acquired_key_yields] preserves_after [OF dedup_key_yields] preserves_intros)
qed

lemma maxima_run [preserves_intros]: "preserves I (maxima is)"
  unfolding maxima_def by (intro preserves_intros)

lemma refund_cancelled_consumption_run:
  "(\<And>k. mk = Some k \<Longrightarrow> \<exists>i. 58 \<notin> set i \<and> k = marker_key p i) \<Longrightarrow> preserves I (redis_refund_cancelled E u is mk)"
  unfolding redis_refund_cancelled_def
  by (intro with_locks_run preserves_intros extend_locks_run set_capacities_unsafe_run)

lemma or_give_back_run [preserves_intros]: "preserves I m \<Longrightarrow> preserves I (or_give_back E u is rid m)"
  unfolding or_give_back_def
  by (intro preserves_after [OF acquired_key_yields] refund_cancelled_consumption_run preserves_intros)
     (auto simp: moved_def dest: keyed_marker)

lemma attempt_locked_run: "held_ok held \<Longrightarrow> preserves I (attempt_locked E u rid lifetime is held)"
  unfolding attempt_locked_def by (intro preserves_intros extend_locks_run)

lemma check_and_consume_run: "preserves I (check_and_consume E u t rid lifetime)"
  unfolding check_and_consume_def
  by (intro preserves_after [OF lock_buckets_yields] attempt_locked_run release_all_run preserves_intros)

lemma redis_consume_capacity_run: "preserves I (redis_consume_capacity E raw rid lifetime)"
  unfolding redis_consume_capacity_def Let_def
  by (intro with_locks_run extend_locks_run preserves_intros)

lemma refund_authority_yields:
  "yields I (\<lambda>a. \<forall>mk dk marker. a = Some (mk, dk, marker) \<longrightarrow> (\<exists>i. 58 \<notin> set i \<and> mk = marker_key p i \<and> dk = tombstone_key p i))
     (refund_authority E reserved ids rid m)"
proof (cases rid)
  case None
  show ?thesis unfolding refund_authority_def None option.case
    by (intro yields_after yields_return yields_preserves [OF acquired_key_yields] yields_preserves [OF dedup_key_yields]) simp
next
  case (Some r)
  let ?Q = "\<lambda>a. \<forall>mk dk marker. a = Some (mk, dk, marker) \<longrightarrow> (\<exists>i. 58 \<notin> set i \<and> mk = marker_key p i \<and> dk = tombstone_key p i)"
  have "yields I ?Q (op_bind (raising x) (\<lambda>(family, marker_ids, u). op_bind (raising (y family marker_ids u))
      (\<lambda>_. op_bind (raising (z family marker_ids u)) (\<lambda>marker. op_return (Some (the mk, the dk, marker))))))"
    if "keyed (marker_key p) (Some r) mk" "keyed (tombstone_key p) (Some r) dk" for mk dk x y z
    by (intro yields_after [OF plain_run]) (use keyed_pair [OF that] in \<open>auto intro!: yields_after yields_return plain_run split: prod.split\<close>)
  then show ?thesis
    unfolding refund_authority_def Some option.case
    by (intro yields_bind [OF acquired_key_yields] yields_bind [OF dedup_key_yields])
qed

lemma redis_refund_run: "preserves I (redis_refund_capacity_for_buckets E reserved actual ids_opt rid m)"
proof -
  have commit: "preserves I (case a of None \<Rightarrow> n | Some (mk, dk, marker) \<Rightarrow> op_bind (g mk dk marker)
        (\<lambda>now. op_bind (commit_refund E mk dk marker c (h now) js) (\<lambda>_. op_return x)))"
    if "\<forall>mk dk marker. a = Some (mk, dk, marker) \<longrightarrow> (\<exists>i. 58 \<notin> set i \<and> mk = marker_key p i \<and> dk = tombstone_key p i)"
      "preserves I n" "\<And>mk dk marker. preserves I (g mk dk marker)"
    for a n c js x and g :: "pystr \<Rightarrow> pystr \<Rightarrow> bytes \<Rightarrow> ('s, 'b) rop" and h :: "'b \<Rightarrow> pyfloat"
    using that by (cases a) (auto intro!: preserves_intros intro: commit_refund_run)
  have put: "preserves I (case a of None \<Rightarrow> n | Some (mk, dk, marker) \<Rightarrow> commit_refund E mk dk marker c now js)"
    if "\<forall>mk dk marker. a = Some (mk, dk, marker) \<longrightarrow> (\<exists>i. 58 \<notin> set i \<and> mk = marker_key p i \<and> dk = tombstone_key p i)"
      "preserves I n" for a n c now js
    using that by (cases a) (auto intro: commit_refund_run)
  show ?thesis
    unfolding redis_refund_capacity_for_buckets_def Let_def
    by (intro preserves_after [OF refund_authority_yields] commit put with_locks_run extend_locks_run preserves_intros
        set_capacities_unsafe_run) simp_all
qed

lemma redis_refund_capacity_run: "preserves I (redis_refund_capacity E reserved actual)"
  unfolding redis_refund_capacity_def by (intro preserves_intros redis_refund_run)

subsection \<open>Limits\<close>

lemma snapshot_bucket_state_run [preserves_intros]: "preserves I (snapshot_bucket_state E i m)"
  unfolding snapshot_bucket_state_def
  by (intro bucket_of_run execute_pipeline_run preserves_intros) (simp add: state_ttl_refresh_ok)

lemma plan_snapshot_run [preserves_intros]: "preserves I (plan_snapshot E i m)"
  unfolding plan_snapshot_def by (intro execute_pipeline_run preserves_intros) simp

lemma commit_snapshot_run [preserves_intros]: "preserves I (commit_snapshot E i plan)"
  unfolding commit_snapshot_def by (intro preserves_intros)

lemma redis_set_max_capacity_run: "preserves I (redis_set_max_capacity E k x)"
  unfolding redis_set_max_capacity_def by (intro with_locks_run extend_locks_run preserves_intros)

lemma redis_apply_configured_max_capacity_run: "preserves I (redis_apply_configured_max_capacity E k x)"
  unfolding redis_apply_configured_max_capacity_def by (intro with_locks_run extend_locks_run preserves_intros)

lemma redis_reconciliation_max_run: "preserves I (redis_reconciliation_max E k)"
  unfolding redis_reconciliation_max_def by (intro preserves_intros)

lemma reconfigure_quota_run: "held_ok held \<Longrightarrow> preserves I (reconfigure_quota E held old new plans q)"
  unfolding reconfigure_quota_def Let_def by (intro extend_locks_run preserves_intros)

end

section \<open>A client among others\<close>

text \<open>
  Weaker than \<open>moved\<close>: other threads may change the backend object too, as long as it stays one of
  the deployment.
\<close>

definition ran :: "'s env \<Rightarrow> pystr \<Rightarrow> ('s \<Rightarrow> 's \<Rightarrow> bool) \<Rightarrow> 's \<Rightarrow> 's world \<Rightarrow> bool" where
  "ran E p others s w \<longleftrightarrow> reaches (en_server E) p others s (rw_server w) \<and> client_ok E p w"

definition fair_sleep ::
  "'s env \<Rightarrow> pystr \<Rightarrow> ('s \<Rightarrow> 's \<Rightarrow> bool) \<Rightarrow> (pyfloat \<Rightarrow> 's world \<Rightarrow> 's world) \<Rightarrow> bool" where
  "fair_sleep E p others sl \<longleftrightarrow> (\<forall>d w. client_ok E p w \<longrightarrow> ran E p others (rw_server w) (sl d w))"

locale redis_host = redis_server "en_server E"
  for E :: "'s env" +
  fixes p :: pystr and others :: "'s \<Rightarrow> 's \<Rightarrow> bool"
    and sl :: "pyfloat \<Rightarrow> 's world \<Rightarrow> 's world" and s0 :: 's
  assumes fair: "fair_env E p others"
    and sleeps: "fair_sleep E p others sl"
begin

abbreviation J :: "'s world \<Rightarrow> bool" where "J \<equiv> ran E p others s0"

lemma client: "client_ok E p v \<Longrightarrow> redis_client E p others v"
  using fair by unfold_locales

lemma moved_J: "J w \<Longrightarrow> moved E p others w t \<Longrightarrow> J t"
  using client_ok_moved reaches_trans by (fastforce simp: ran_def moved_def)

lemma lift:
  assumes "\<And>v. redis_client E p others v \<Longrightarrow> preserves (moved E p others v) m" shows "preserves J m"
proof (rule preservesI)
  fix w assume w: "J w"
  then have "redis_client E p others w" by (intro client) (simp add: ran_def)
  then have "wp m (\<lambda>_. moved E p others w) (\<lambda>_. moved E p others w) w"
    by (intro preservesD assms moved_refl)
  then show "wp m (\<lambda>_. J) (\<lambda>_. J) w"
    by (rule wp_mono) (use w moved_J in blast)+
qed

lemma lift_yields:
  assumes "\<And>v. redis_client E p others v \<Longrightarrow> yields (moved E p others v) Q m" shows "yields J Q m"
proof (rule yieldsI)
  fix w assume w: "J w"
  then have "redis_client E p others w" by (intro client) (simp add: ran_def)
  then have "wp m (\<lambda>x t. moved E p others w t \<and> Q x) (\<lambda>_. moved E p others w) w"
    by (intro yieldsD assms moved_refl)
  then show "wp m (\<lambda>x t. J t \<and> Q x) (\<lambda>_. J) w"
    by (rule wp_mono) (use w moved_J in blast)+
qed

lemma client_laws [preserves_intros]:
  "preserves J (raising r)" "preserves J (monotonic_now E)" "preserves J self_of" "preserves J my_buckets"
  "preserves J my_family" "preserves J (fire_event E ev)" "preserves J (or_clock E x)"
  "preserves J (check_and_consume E u t rid lifetime)" "preserves J (bucket_of i)" "preserves J (require_bucket is k)"
  unfolding or_clock_def
  by ((rule lift, rule redis_client.plain_run redis_client.monotonic_now_run redis_client.self_of_run
      redis_client.my_family_run redis_client.fire_event_run redis_client.check_and_consume_run
      redis_client.bucket_of_preserves redis_client.require_bucket_run; assumption)
    | (intro preserves_intros lift, (erule redis_client.monotonic_now_run)))+

text \<open>The waiters of a backend are its own business.\<close>

lemma waiters_run:
  "preserves J (op_modify (\<lambda>w. w\<lparr>rw_self := (rw_self w)\<lparr>ra_waiters := f w\<rparr>\<rparr>))"
  by (rule preserves_modify) (simp add: ran_def client_ok_def)

lemma upsert_waiter_run [preserves_intros]: "preserves J (upsert_waiter E key rid u got deadline st)"
  unfolding upsert_waiter_def by (intro waiters_run preserves_intros)

lemma drop_waiter_entry_run [preserves_intros]: "preserves J (drop_waiter_entry key)"
  unfolding drop_waiter_entry_def by (intro waiters_run)

lemma sleep_for_run [preserves_intros]: "preserves J (sleep_for sl d)"
  unfolding sleep_for_def
  by (rule preserves_modify) (use sleeps in \<open>auto simp: ran_def fair_sleep_def intro: reaches_trans\<close>)

lemma check_deadline_run [preserves_intros]: "preserves J (check_deadline E deadline)"
  unfolding check_deadline_def by (intro preserves_intros)

lemma announce_run [preserves_intros]: "preserves J (announce E u got deadline st)"
  unfolding announce_def Let_def by (intro preserves_intros)

lemma contended_wait_run [preserves_intros]: "preserves J (contended_wait E sl deadline)"
  unfolding contended_wait_def by (intro preserves_intros)

lemma or_give_back_host [preserves_intros]:
  assumes "preserves J m" shows "preserves J (or_give_back E u is rid m)"
proof -
  have "preserves J (op_bind (acquired_key E rid) (\<lambda>mk. redis_refund_cancelled E u is mk))"
    by (rule lift, rule preserves_after [OF redis_client.acquired_key_yields],
        assumption, rule redis_client.refund_cancelled_consumption_run, assumption, rule redis_client.keyed_marker)
  then show ?thesis
    unfolding or_give_back_def
    by (intro preserves_try [OF assms] preserves_bind [OF preserves_try [OF _ preserves_modify]])
       (auto simp: ran_def client_ok_def preserves_simple)
qed

lemma finish_wait_run [preserves_intros]: "preserves J (finish_wait E u rid got st)"
  unfolding finish_wait_def wait_time_of_def by (intro preserves_intros)

lemma unavailable_run [preserves_intros]: "preserves J (unavailable E sl u deadline got st)"
  unfolding unavailable_def Let_def by (intro preserves_intros)

lemma attempt_turn_run [preserves_intros]: "preserves J (attempt_turn E u rid lifetime deadline)"
  unfolding attempt_turn_def by (intro preserves_intros)

lemma redis_wait_loop_run [preserves_intros]: "preserves J (redis_wait_loop n E sl key rid u lifetime deadline st)"
  by (induction n arbitrary: st) (auto intro!: preserves_intros)

lemma redis_wait_for_capacity_run: "preserves J (redis_wait_for_capacity n E sl raw timeout rid lifetime)"
  unfolding redis_wait_for_capacity_def by (intro preserves_intros)

subsection \<open>Reconfiguration\<close>

lemma install_redis_state_run [preserves_intros]: "preserves J (install_redis_state new cfg)"
  unfolding install_redis_state_def
  by (rule preserves_modify)
     (auto simp: ran_def client_ok_def Let_def inherit_confirmation_def bucket_ok_def last_checked_key_def
       capacity_key_def lock_key_def override_key_def history_key_def split: option.split)

abbreviation held_off :: "(pystr \<times> pystr) list \<Rightarrow> bool" where "held_off \<equiv> list_all (\<lambda>l. off_books p (fst l))"

lemma locks_host:
  "yields J held_off (lock_or_contention E is)"
  "held_off held \<Longrightarrow> preserves J (release_all E held)" "held_off held \<Longrightarrow> preserves J (extend_locks E held)"
  by (rule lift_yields, erule redis_client.lock_or_contention_yields)
     (rule lift, erule redis_client.release_all_run redis_client.extend_locks_run, assumption)+

lemma redis_prepare_reconfigured_backend_run: "preserves J (redis_prepare_reconfigured_backend E new cfg)"
proof -
  have quota: "held_off held \<Longrightarrow> preserves J (reconfigure_quota E held old new plans q)" for held old plans q
    by (rule lift) (rule redis_client.reconfigure_quota_run)
  have plan: "preserves J (plan_snapshot E i m)" "preserves J (commit_snapshot E i pl)"
    "preserves J (clear_max_capacity_override E i)" for i m pl
    by (rule lift, rule redis_client.plan_snapshot_run redis_client.commit_snapshot_run
      redis_client.clear_max_capacity_override_run, assumption)+
  show ?thesis
    unfolding redis_prepare_reconfigured_backend_def with_locks_def Let_def
    by (intro preserves_after [OF locks_host(1)] locks_host(2,3) quota plan preserves_intros)
qed

end

end
