(* ===== verification/RedisClosing.thy ===== *)
theory RedisClosing
  imports RedisRuns
begin

text \<open>
  A refund that names a reservation and returns has closed it, whichever answer it got: the
  script's, the replay's, or what it read back when the answer was lost.
\<close>

context closing_ledger
begin

lemma closed_grows: "trace step s es u \<Longrightarrow> inv s \<Longrightarrow> closed s \<subseteq> closed u"
  by (induction rule: trace.induct) (use closed_stays inv_step in blast)+

end

context redis_lasting
begin

lemma step_tombstones: "markers_writable R p s \<Longrightarrow> redis_step R p others s e t \<Longrightarrow> tombstones_last R p s t"
proof -
  assume w: "markers_writable R p s" and st: "redis_step R p others s e t"
  from st show ?thesis
  proof cases
    case (acquire i px marker ws r)
    then show ?thesis using acquire_marks(3) [OF acquire(2-4)] by (simp add: tombstones_last_def same_key_def)
  next
    case (refund i marker ttl token ws r)
    then show ?thesis using refund_marks(3) [OF refund(2-4) w] by (simp add: tombstones_last_def)
  next
    case (cancel i e')
    then show ?thesis using cancel_marks(2) [OF cancel(2,3)] by (simp add: tombstones_last_def same_key_def)
  next
    case elsewhere
    then show ?thesis by (simp add: tombstones_last_def ids_kept_def same_key_def)
  qed (rule others_last)
qed

lemma trace_tombstones: "trace (redis_step R p others) s es t \<Longrightarrow> markers_writable R p s \<Longrightarrow> tombstones_last R p s t"
proof (induction rule: trace.induct)
  case (trace_Cons s e t es u)
  then have "tombstones_last R p s t" "tombstones_last R p t u"
    using step_tombstones ledger.inv_step by blast+
  then show ?case by (simp add: tombstones_last_def)
qed (simp add: tombstones_last_def)

lemma reaches_laws:
  assumes "reaches R p others s t" "markers_writable R p s"
  shows "markers_writable R p t" "buried R p s \<subseteq> buried R p t" "tombstones_last R p s t"
  using assms ledger.trace_inv lasting.closed_grows trace_tombstones unfolding reaches_def by blast+

end

text \<open>A value the server stores is never returned as \<^verbatim>\<open>None\<close>.\<close>

locale redis_closing_client = redis_client E p others v + redis_lasting "en_server E" p others
  for E :: "'s env" and p :: pystr and others :: "'s \<Rightarrow> 's \<Rightarrow> bool" and v :: "'s world" +
  fixes i :: pystr
  assumes replies: "cd_reply (en_codec E) b \<noteq> VNone"
    and start: "markers_writable (en_server E) p (rw_server v)"
    and id: "58 \<notin> set i"
begin

abbreviation B :: "'s world \<Rightarrow> bool" where
  "B w \<equiv> I w \<and> i \<in> buried (en_server E) p (rw_server w)"

lemma I_writable: "I w \<Longrightarrow> markers_writable (en_server E) p (rw_server w)"
  using reaches_laws(1) start by (auto simp: moved_def)

lemma I_moved: "I w \<Longrightarrow> moved E p others w t \<Longrightarrow> I t"
  using reaches_trans by (fastforce simp: moved_def same_bucket_def)

lemma B_moved: "B w \<Longrightarrow> moved E p others w t \<Longrightarrow> B t"
proof
  assume b: "B w" and m: "moved E p others w t"
  then show "I t" using I_moved by blast
  have "reaches (en_server E) p others (rw_server w) (rw_server t)" using m by (simp add: moved_def)
  then show "i \<in> buried (en_server E) p (rw_server t)" using b I_writable reaches_laws(2) by blast
qed

lemma keeps_B:
  assumes "\<And>u. redis_client E p others u \<Longrightarrow> preserves (moved E p others u) m" shows "preserves B m"
proof (rule preservesI)
  fix w assume w: "B w"
  then have "client_ok E p w" by (simp add: I_client)
  then have "redis_client E p others w" using fair by unfold_locales
  then have "wp m (\<lambda>_. moved E p others w) (\<lambda>_. moved E p others w) w"
    by (intro preservesD assms moved_refl)
  then show "wp m (\<lambda>_. B) (\<lambda>_. B) w"
    by (rule wp_mono) (use w B_moved in blast)+
qed

text \<open>Statements after which the reservation is closed, if they return.\<close>

definition closes :: "('s world, redis_exn, 'a) eff \<Rightarrow> bool" where
  "closes m \<longleftrightarrow> (\<forall>w. I w \<longrightarrow> wp m (\<lambda>_. B) (\<lambda>_. I) w)"

lemma closesI: "(\<And>w. I w \<Longrightarrow> wp m (\<lambda>_. B) (\<lambda>_. I) w) \<Longrightarrow> closes m"
  by (simp add: closes_def)

lemma closes_after:
  assumes "yields I Q m" "\<And>x. Q x \<Longrightarrow> closes (f x)" shows "closes (op_bind m f)"
proof (rule closesI)
  fix w assume "I w"
  then show "wp (op_bind m f) (\<lambda>_. B) (\<lambda>_. I) w"
    unfolding wp_bind by (rule wp_mono [OF yieldsD [OF assms(1)]]) (use assms(2) in \<open>auto simp: closes_def\<close>)
qed

lemma closes_later: "preserves I m \<Longrightarrow> (\<And>x. closes (f x)) \<Longrightarrow> closes (op_bind m f)"
  by (rule closes_after [where Q = "\<lambda>_. True"]) (auto intro: preserves_yields)

lemma closes_then:
  assumes "closes m" "\<And>x. preserves B (f x)" shows "closes (op_bind m f)"
proof (rule closesI)
  fix w assume "I w"
  then have "wp m (\<lambda>_. B) (\<lambda>_. I) w" using assms(1) by (simp add: closes_def)
  then show "wp (op_bind m f) (\<lambda>_. B) (\<lambda>_. I) w"
    unfolding wp_bind by (rule wp_mono) (auto intro: wp_mono [OF preservesD [OF assms(2)]])
qed

lemma closes_post:
  "(\<And>w. I w \<Longrightarrow> wp m Q (\<lambda>_. I) w) \<Longrightarrow> (\<And>x t. Q x t \<Longrightarrow> wp (f x) (\<lambda>_. B) (\<lambda>_. I) t) \<Longrightarrow> closes (op_bind m f)"
  by (rule closesI) (unfold wp_bind, blast intro: wp_mono)

lemma closes_if: "(c \<Longrightarrow> closes m) \<Longrightarrow> (\<not> c \<Longrightarrow> closes n) \<Longrightarrow> closes (if c then m else n)"
  by simp

lemma closes_raise: "closes (op_raise e)"
  by (simp add: closes_def wp_simps)

lemma closes_finally:
  assumes "closes m" "preserves B f" "preserves I f" shows "closes (op_finally m f)"
proof (rule closesI)
  fix w assume "I w"
  then have "wp m (\<lambda>_. B) (\<lambda>_. I) w" using assms(1) by (simp add: closes_def)
  then show "wp (op_finally m f) (\<lambda>_. B) (\<lambda>_. I) w"
    unfolding wp_finally
    by (rule wp_mono) (auto intro: wp_mono [OF preservesD [OF assms(2)]] preservesD [OF assms(3)])
qed

text \<open>What holds at the server right after the call that is answered.\<close>

lemma round_trip_post:
  assumes run: "\<And>s. reaches (en_server E) p others s (snd (f s))" and "I w"
    and post: "\<And>s. markers_writable (en_server E) p s \<Longrightarrow> reaches (en_server E) p others (rw_server w) s \<Longrightarrow> Q (fst (f s)) (snd (f s))"
  shows "wp (round_trip E f) (\<lambda>r t. I t \<and> Q r (rw_server t)) (\<lambda>_. I) w"
proof -
  have inv: "wp (round_trip E f) (\<lambda>_. I) (\<lambda>_. I) w" using round_trip_run [OF run] assms(2) by (rule preservesD)
  have d: "list_all (\<lambda>g. \<forall>s. reaches (en_server E) p others s (g s)) (drifts (en_delivery E (rw_tick w)))"
    using fair by (fastforce simp: fair_env_def list_all_iff)
  have q: "Q (fst (f s)) (snd (f s))" if "reaches (en_server E) p others (rw_server w) s" for s
    using that post reaches_laws(1) I_writable [OF assms(2)] by blast
  have "wp (round_trip E f) (\<lambda>r t. Q r (rw_server t)) (\<lambda>_ _. True) w"
  proof (cases "en_delivery E (rw_tick w)")
    case (Answered g)
    then show ?thesis using d q [of "g (rw_server w)"]
      by (simp add: wp_def round_trip_def Let_def drifts_def split_beta)
  next
    case (Resent g h)
    let ?t = "snd (f (g (rw_server w)))"
    have "reaches (en_server E) p others (rw_server w) (g (rw_server w))" "reaches (en_server E) p others ?t (h ?t)"
      using d Resent by (auto simp: drifts_def)
    then have "reaches (en_server E) p others (rw_server w) (h ?t)"
      using run [of "g (rw_server w)"] by (blast intro: reaches_trans)
    then show ?thesis using q [of "h ?t"] Resent by (simp add: wp_def round_trip_def Let_def split_beta)
  qed (simp_all add: wp_def round_trip_def Let_def)
  from wp_conj [OF inv this] show ?thesis by (rule wp_mono) simp_all
qed

abbreviation tomb :: "'s \<Rightarrow> bool" where "tomb s \<equiv> sv_get (en_server E) (tombstone_key p i) s \<noteq> None"
abbreviation gone :: "'s \<Rightarrow> bool" where "gone s \<equiv> sv_get (en_server E) (marker_key p i) s = None"

lemma tomb_gone: "tomb s \<Longrightarrow> gone s \<Longrightarrow> i \<in> buried (en_server E) p s"
  using id by (simp add: buried_def)

lemma refund_script_closes:
  assumes "refund_script (en_server E) (marker_key p i) (tombstone_key p i) marker ttl token ws s = (r, t)"
    "apart p ws" "markers_writable (en_server E) p s" "r = Reply ''ok'' \<or> r = Reply ''replayed_refund''"
  shows "i \<in> buried (en_server E) p t"
proof (cases "r = Reply ''ok''")
  case True
  then show ?thesis using refund_marks(1) [OF assms(1) id assms(2,3)] by simp
next
  case False
  then have "t = s" "gone s" "tomb s"
    using assms(1,4) by (auto simp: refund_script_def Let_def rollback_then_error_def
        split: option.splits if_splits bool.splits nx_reply.splits prod.splits)
  then show ?thesis by (simp add: tomb_gone)
qed

lemma eval_refund_post:
  assumes "apart p ws" "I w"
  shows "wp (eval_script E (refund_script (en_server E) (marker_key p i) (tombstone_key p i) marker ttl token ws))
    (\<lambda>st t. I t \<and> (st = ''ok'' \<or> st = ''replayed_refund'' \<longrightarrow> i \<in> buried (en_server E) p (rw_server t))) (\<lambda>_. I) w"
proof -
  let ?f = "refund_script (en_server E) (marker_key p i) (tombstone_key p i) marker ttl token ws"
  have "wp (round_trip E ?f) (\<lambda>r t. I t \<and> (r = Reply ''ok'' \<or> r = Reply ''replayed_refund'' \<longrightarrow>
      i \<in> buried (en_server E) p (rw_server t))) (\<lambda>_. I) w"
  proof (rule round_trip_post [OF _ assms(2)])
    show "reaches (en_server E) p others s (snd (?f s))" for s
      using redis_step.refund [OF prod.collapse [symmetric] id assms(1)] by (rule reaches_step)
  qed (use refund_script_closes [OF prod.collapse [symmetric] assms(1)] in blast)
  then show ?thesis
    unfolding eval_script_def wp_bind
    by (rule wp_mono) (auto simp: wp_simps split: script_reply.split)
qed

lemma terminal_state_post:
  assumes "I w"
  shows "wp (refund_terminal_state_matches E (marker_key p i) (tombstone_key p i) caps is)
    (\<lambda>found t. if found then B t else I t) (\<lambda>_. I) w"
proof -
  have ex: "wp (redis_exists E (tombstone_key p i)) (\<lambda>x t. I t \<and> (x = tomb (rw_server t))) (\<lambda>_. I) w"
    unfolding redis_exists_def by (rule round_trip_post [OF _ assms]) simp_all
  have get: "wp (redis_get E (marker_key p i)) (\<lambda>x u. I u \<and> ((x = VNone) = gone (rw_server u)) \<and>
      (tomb (rw_server t) \<longrightarrow> tomb (rw_server u))) (\<lambda>_. I) t" if "I t" for t
    unfolding redis_get_def
  proof (rule wp_mono [OF round_trip_post [OF _ that, where Q = "\<lambda>x s. ((x = VNone) = gone s) \<and> (tomb (rw_server t) \<longrightarrow> tomb s)"]])
    fix s assume "reaches (en_server E) p others (rw_server t) s"
    then have "tombstones_last (en_server E) p (rw_server t) s" using reaches_laws(3) I_writable [OF that] by blast
    then show "((fst (stored_reply E (sv_get (en_server E) (marker_key p i) s), s) = VNone) =
        gone (snd (stored_reply E (sv_get (en_server E) (marker_key p i) s), s))) \<and>
        (tomb (rw_server t) \<longrightarrow> tomb (snd (stored_reply E (sv_get (en_server E) (marker_key p i) s), s)))"
      using replies id by (auto simp: stored_reply_def tombstones_last_def split: option.split)
  qed simp_all
  have both: "wp (op_bind (redis_exists E (tombstone_key p i)) (\<lambda>t. op_bind (redis_get E (marker_key p i)) (\<lambda>m.
      op_return (t \<and> m = VNone)))) (\<lambda>found t. if found then B t else I t) (\<lambda>_. I) w"
    unfolding wp_bind
    by (rule wp_mono [OF ex]) (auto simp: wp_simps tomb_gone intro!: wp_mono [OF get])
  have rest: "wp (bucket_capacity_state_matches E is caps) (\<lambda>found t. if found then B t else I t) (\<lambda>_. I) t" if "B t" for t
    using preservesD [OF keeps_B [OF redis_client.bucket_capacity_state_matches_run] that] by (rule wp_mono) auto
  show ?thesis
    unfolding refund_terminal_state_matches_def or_false_def wp_bind [of "op_try _ _"] wp_try
    by (rule wp_mono [OF both]) (auto simp: wp_simps rest)
qed

lemma commit_refund_closes: "closes (commit_refund E (marker_key p i) (tombstone_key p i) marker caps now is)"
proof -
  let ?ev = "\<lambda>ttl token ws. eval_script E (refund_script (en_server E) (marker_key p i) (tombstone_key p i) marker ttl token ws)"
  let ?Q = "\<lambda>status t. I t \<and> (status = None \<or> status = Some ''ok'' \<or> status = Some ''replayed_refund'' \<longrightarrow>
      i \<in> buried (en_server E) p (rw_server t))"
  have status: "wp (op_try (op_bind (?ev ttl token ws) (\<lambda>st. op_return (Some st)))
         (\<lambda>e. if is_redis_error e
           then op_bind (refund_terminal_state_matches E (marker_key p i) (tombstone_key p i) caps is) (\<lambda>ok.
             if ok then op_return None else op_raise e)
           else op_raise e)) ?Q (\<lambda>_. I) w" if "apart p ws" "I w" for ttl token ws w
    unfolding wp_try wp_bind
    by (rule wp_mono [OF eval_refund_post [OF that]])
       (auto simp: wp_simps intro!: wp_mono [OF terminal_state_post])
  have confirm: "wp (confirm_written_state caps is now) (\<lambda>_. B) (\<lambda>_. I) w" if "B w" for w
    using preservesD [OF keeps_B [OF redis_client.confirm_written_state_run] that] by (rule wp_mono) auto
  show ?thesis
    unfolding commit_refund_def
    by (rule closes_later [OF self_of_run(1)], rule closes_later [OF preserves_simple(4)],
        rule closes_after [OF script_writes_yields], rule closes_post [OF status], assumption, assumption)
       (simp split: option.split, simp add: wp_simps confirm)
qed

lemma closed_laws:
  "preserves B (raising r)" "preserves B (fire_event E ev)" "preserves B (fire_fresh_start E is)"
  by (rule keeps_B, erule redis_client.plain_run redis_client.fire_event_run)+

lemma with_locks_closes:
  assumes "\<And>held. held_ok held \<Longrightarrow> closes (body held)" shows "closes (with_locks E is body)"
proof -
  have "preserves B (release_all E held)" if "held_ok held" for held
    by (rule keeps_B) (rule redis_client.release_all_run, assumption, rule that)
  then show ?thesis
    unfolding with_locks_def
    by (intro closes_after [OF lock_or_contention_yields] closes_finally assms release_all_run)
qed

lemma own_authority:
  assumes "validate_reservation_id (en_unicode E) (VStr rid) = Inr i"
  shows "yields I (\<lambda>a. \<exists>marker. a = Some (marker_key p i, tombstone_key p i, marker))
    (refund_authority E reserved ids (Some rid) meta)"
proof -
  let ?Q = "\<lambda>a. \<exists>marker. a = Some (marker_key p i, tombstone_key p i, marker)"
  have "yields I ?Q (op_bind (raising x) (\<lambda>(family, marker_ids, u). op_bind (raising (y family marker_ids u))
      (\<lambda>_. op_bind (raising (z family marker_ids u)) (\<lambda>marker. op_return (Some (the mk, the dk, marker))))))"
    if "keyed (marker_key p) (Some rid) mk" "keyed (tombstone_key p) (Some rid) dk" for mk dk x y z
    using that assms
    by (intro yields_after [OF plain_run])
       (auto simp: keyed_def intro!: yields_after yields_return plain_run split: prod.split)
  then show ?thesis
    unfolding refund_authority_def option.case
    by (intro yields_bind [OF acquired_key_yields] yields_bind [OF dedup_key_yields])
qed

lemma refund_closes:
  assumes "validate_reservation_id (en_unicode E) (VStr rid) = Inr i"
  shows "closes (redis_refund_capacity_for_buckets E reserved actual ids_opt (Some rid) meta)"
proof -
  have locked: "closes (with_locks E is (\<lambda>held.
       op_bind (sync_server_time E) (\<lambda>now.
       op_bind (get_capacities_unsafe E is now) (\<lambda>(pre, fresh).
       op_bind (op_gets (\<lambda>w. refunded_levels (rw_bucket w) is ids amounts pre)) (\<lambda>r.
       op_bind (raising r) (\<lambda>post.
       op_bind (extend_locks E held) (\<lambda>_.
       op_bind (commit_refund E (marker_key p i) (tombstone_key p i) marker (filter (\<lambda>(k, c). k \<in> ids) post) now is)
         (\<lambda>_. op_return (pre, post, fresh)))))))))" for "is" ids amounts marker
  proof (rule with_locks_closes, rule closes_later [OF sync_server_time_run], rule closes_later [OF get_capacities_unsafe_run])
    fix held now pf assume h: "held_ok held"
    show "closes (case pf of (pre, fresh) \<Rightarrow>
       op_bind (op_gets (\<lambda>w. refunded_levels (rw_bucket w) is ids amounts pre)) (\<lambda>r.
       op_bind (raising r) (\<lambda>post.
       op_bind (extend_locks E held) (\<lambda>_.
       op_bind (commit_refund E (marker_key p i) (tombstone_key p i) marker (filter (\<lambda>(k, c). k \<in> ids) post) now is)
         (\<lambda>_. op_return (pre, post, fresh))))))"
      by (cases pf, simp, rule closes_later [OF preserves_simple(4)], rule closes_later [OF plain_run],
          rule closes_later [OF extend_locks_run [OF h]], rule closes_then [OF commit_refund_closes])
         (rule preserves_simple)
  qed
  show ?thesis
    unfolding redis_refund_capacity_for_buckets_def Let_def
  proof (rule closes_later [OF self_of_run(2)], rule closes_later [OF preserves_simple(4)],
      rule closes_later [OF plain_run], rule closes_after [OF own_authority [OF assms]], elim exE, hypsubst,
      unfold option.case prod.case, rule closes_if)
    fix "is" own marker
    show "closes (op_bind (sync_server_time E) (\<lambda>now.
        op_bind (commit_refund E (marker_key p i) (tombstone_key p i) marker [] now []) (\<lambda>_. op_return True)))"
      by (rule closes_later [OF sync_server_time_run], rule closes_then [OF commit_refund_closes]) (rule preserves_simple)
  qed (rule closes_later [OF plain_run], rule closes_then [OF locked], intro preserves_intros closed_laws)
qed

lemma refund_closed:
  assumes "validate_reservation_id (en_unicode E) (VStr rid) = Inr i"
    "redis_refund_capacity_for_buckets E reserved actual ids_opt (Some rid) meta v = (Inr x, w')"
  shows "i \<in> buried (en_server E) p (rw_server w') \<and> markers_writable (en_server E) p (rw_server w')"
proof -
  have "wp (redis_refund_capacity_for_buckets E reserved actual ids_opt (Some rid) meta) (\<lambda>_. B) (\<lambda>_. I) v"
    using refund_closes [OF assms(1)] by (simp add: closes_def)
  from wp_Inr [OF this assms(2)] show ?thesis using I_writable by blast
qed

end

context redis_lasting
begin

lemma buried_for_good:
  "trace (redis_step R p others) s es u \<Longrightarrow> markers_writable R p s \<Longrightarrow> i \<in> buried R p s \<Longrightarrow>
   Acquired i \<notin> set es \<and> Refunded i \<notin> set es"
  by (rule lasting.closed_trace)

end

end
