(* ===== verification/RedisCorrect.thy ===== *)
theory RedisCorrect
  imports RedisClosing
begin

text \<open>
  The Redis backend: the ledger of a deployment, the scripts, and what the client makes of
  their answers. The concrete runs are evaluated on the reference server.
\<close>

section \<open>Keys of buckets\<close>

text \<open>A key of a bucket has more segments than a reservation's.\<close>

lemma bucket_keys_off_books:
  assumes "58 \<notin> set p" "58 \<notin> set q" "58 \<notin> set family" "58 \<notin> set m" "58 \<notin> set suffix"
  shows "off_books p (join_colon [join_colon [q, ps ''rate_limiting'', ps ''bucket'', family, m, show_int n], suffix])"
proof -
  have "join_colon [join_colon [q, ps ''rate_limiting'', ps ''bucket'', family, m, show_int n], suffix] =
      join_colon [q, ps ''rate_limiting'', ps ''bucket'', family, m, show_int n, suffix]"
    by (subst join_append) simp_all
  moreover have "join_colon [q, ps ''rate_limiting'', ps ''bucket'', family, m, show_int n, suffix] \<noteq>
      join_colon [p, ps ''rate_limiting'', kind, i]" if "58 \<notin> set i" "58 \<notin> set kind" for kind i
    using join_inject [of "[q, ps ''rate_limiting'', ps ''bucket'', family, m, show_int n, suffix]"
        "[p, ps ''rate_limiting'', kind, i]"] that assms show_int_no_colon by auto
  ultimately show ?thesis by (simp add: off_books_def marker_key_def tombstone_key_def)
qed

lemma suffix_literals [simp]:
  "58 \<notin> set (ps ''last_checked'')" "58 \<notin> set (ps ''capacity'')" "58 \<notin> set (ps ''lock'')"
  "58 \<notin> set (ps ''max_capacity_override'')" "58 \<notin> set (ps ''override_expiry'')"
  by (simp_all add: ps_def)

lemma bucket_ok_of_key:
  assumes "58 \<notin> set p" "58 \<notin> set q" "58 \<notin> set family" "58 \<notin> set m"
    "rb_key b = join_colon [q, ps ''rate_limiting'', ps ''bucket'', family, m, show_int n]"
    "0 < rb_bucket_ttl b" "0 < rb_override_ttl b"
  shows "bucket_ok p b"
  using bucket_keys_off_books [OF assms(1-4)] assms(5-7)
  by (simp add: bucket_ok_def last_checked_key_def capacity_key_def lock_key_def override_key_def history_key_def)

text \<open>Every bucket a backend builds, in this deployment or another one, is off the books.\<close>

lemma mk_redis_bucket_ok:
  assumes "mk_redis_bucket udb pyd quota cfg key_prefix bt ot = Inr b" "58 \<notin> set p"
  shows "bucket_ok p b"
proof -
  from assms(1) obtain q c per prefix family key ttl ottl where
    q: "quota_revalidate udb pyd quota = Inr q" and c: "config_with_family udb pyd cfg (cfg_model_family cfg) = Inr c"
    and f: "get_model_family c = Inr family"
    and k: "redis_namespace_key udb prefix [ps ''bucket'', family, q_metric q, show_int per] = Inr key"
    and t: "validate_redis_ttl_seconds bt = Inr ttl"
      "validate_redis_ttl_seconds (if ot = VNone then VInt ttl else ot) = Inr ottl"
    and b: "rb_key b = key" "rb_bucket_ttl b = ttl" "rb_override_ttl b = ottl"
    by (auto simp: mk_redis_bucket_def res_simps)
  have m: "58 \<notin> set (q_metric q)"
    using q by (auto simp: quota_revalidate_def mk_quota_Inr validate_segment_str_Inr dest: clean_segment_no_colon)
  have fam: "58 \<notin> set family"
    using c f by (auto simp: config_with_family_def mk_config_def get_model_family_def validate_key_segment_def
        validate_segment_str_Inr res_simps dest: clean_segment_no_colon split: option.splits if_splits)
  from k obtain p' where p': "validate_key_prefix udb (VStr prefix) = Inr p'"
    "key = join_colon [p', ps ''rate_limiting'', ps ''bucket'', family, q_metric q, show_int per]"
    by (auto simp: redis_namespace_key_def validate_total_key_length_def res_simps split: if_splits)
  have "0 < ttl" "0 < ottl"
    using t by (auto simp: validate_redis_ttl_seconds_def split: pyval.splits if_splits)
  then show ?thesis
    using bucket_ok_of_key [OF assms(2) validate_key_prefix_VStr [OF p'(1)] fam m] p'(2) b by simp
qed

section \<open>A concrete client\<close>

definition redis_demo_udb :: unicode_db where
  "redis_demo_udb = \<lparr>nfc = (\<lambda>s. s), is_space = (\<lambda>c. c = 32), is_control = (\<lambda>c. c < 32), is_printable = (\<lambda>c. 32 < c)\<rparr>"

definition redis_demo_codec :: codec where
  "redis_demo_codec = \<lparr>cd_float = (\<lambda>f. if f = Fin 5 then [53] else [48]), cd_dumps = (\<lambda>v. [123]),
     cd_reply = VBytes, cd_decode = Some, cd_loads = (\<lambda>v. None)\<rparr>"

definition redis_demo_env :: "store env" where
  "redis_demo_env = \<lparr>en_server = reference_server [], en_lua = \<lparr>lr_tonumber = (\<lambda>b. None), lr_override = (\<lambda>b. None)\<rparr>,
     en_codec = redis_demo_codec, en_unicode = redis_demo_udb, en_lock = (\<lambda>k token t s. (True, s)),
     en_reacquire = (\<lambda>k token s. (True, s)), en_release = (\<lambda>k token s. (True, s)), en_delivery = (\<lambda>n. Answered id),
     en_time = (\<lambda>n. \<lparr>tr_monotonic = Fin 0, tr_wall = Fin 0, tr_reply = VList [VInt 100, VInt 0],
       tr_monotonic_after = Fin 0, tr_wall_after = Fin 0\<rparr>),
     en_monotonic = (\<lambda>n. Fin 0), en_wall = (\<lambda>n. Fin 100), en_token = (\<lambda>n. [116]), en_callback = (\<lambda>e. None),
     en_wait_start_installed = False\<rparr>"

definition redis_demo_bucket :: redis_bucket where
  "redis_demo_bucket = \<lparr>rb_metric = [109], rb_per_seconds = 60,
     rb_key = join_colon [ps ''app'', ps ''rate_limiting'', ps ''bucket'', [102], [109], show_int 60],
     rb_default = Fin 60, rb_cached = None, rb_populated = False, rb_cache_time = Fin 0, rb_rate = Fin 1,
     rb_history = None, rb_bucket_ttl = 3600, rb_override_ttl = 3600, rb_confirmed_at = None, rb_confirmed_ttl = 3600,
     rb_missing = (None, [], [])\<rparr>"

definition redis_demo_backend :: redis_backend where
  "redis_demo_backend = \<lparr>ra_prefix = ps ''app'', ra_buckets = [0], ra_dedup_ttl = 3600, ra_sleep_interval = Fin 1,
     ra_lock_blocking_timeout = Fin 5, ra_lock_sleep = Fin 1, ra_lock_thread_sleep = Fin 1,
     ra_config = \<lparr>cfg_quotas = \<lparr>uq_frozen = True, uq_metrics = [([109], [(60, \<lparr>q_metric = [109], q_limit = Fin 60, q_per_seconds = 60\<rparr>)])]\<rparr>,
       cfg_model_family = Some [102]\<rparr>, ra_metric_names = {[109]}, ra_waiters = []\<rparr>"

definition redis_demo_world :: "store world" where
  "redis_demo_world = \<lparr>rw_server = [], rw_tick = 0, rw_clock = None, rw_bucket = (\<lambda>i. redis_demo_bucket),
     rw_self = redis_demo_backend, rw_failed_cleanups = []\<rparr>"

lemma demo_prefix: "validate_key_prefix redis_demo_udb (VStr (ps ''app'')) = Inr (ps ''app'')"
  by (simp add: validate_key_prefix_def validate_segment_str_Inr redis_demo_udb_def clean_segment_alt ps_def
      segment_limit_def default_max_length_for_field_def MAX_KEY_PREFIX_LENGTH_def)

lemma demo_client_ok: "client_ok redis_demo_env (ps ''app'') redis_demo_world"
proof -
  have "bucket_ok (ps ''app'') redis_demo_bucket"
    by (rule bucket_ok_of_key [of _ "ps ''app''" "[102]" "[109]" _ 60]) (simp_all add: redis_demo_bucket_def ps_def)
  then show ?thesis
    by (simp add: client_ok_def redis_demo_world_def redis_demo_env_def redis_demo_backend_def demo_prefix)
qed

lemma demo_fair: "fair_env redis_demo_env q others"
  by (simp add: fair_env_def redis_demo_env_def drifts_def ids_kept_def)

lemma demo_sleep: "fair_sleep redis_demo_env q others (\<lambda>d w. w)"
  by (simp add: fair_sleep_def ran_def)

lemma demo_server: "redis_server_by_key (en_server redis_demo_env)"
  using reference.redis_server_by_key_axioms [of "[]"] by (simp add: redis_demo_env_def)

lemma demo_redis: "redis_server (en_server redis_demo_env)"
  using demo_server by (rule redis_server_by_key.axioms)

interpretation demo_client: redis_client redis_demo_env "ps ''app''" "idles (ps ''app'')" redis_demo_world
  using demo_redis by (intro redis_client.intro redis_client_axioms.intro) (simp_all add: demo_fair demo_client_ok)

interpretation demo_host: redis_host redis_demo_env "ps ''app''" "idles (ps ''app'')" "\<lambda>d w. w" "[]"
  using demo_redis by (intro redis_host.intro redis_host_axioms.intro) (simp_all add: demo_fair demo_sleep)

lemma demo_env_sel [simp]:
  "en_server redis_demo_env = reference_server []" "en_codec redis_demo_env = redis_demo_codec"
  "en_unicode redis_demo_env = redis_demo_udb" "en_lock redis_demo_env = (\<lambda>k token t s. (True, s))"
  "en_reacquire redis_demo_env = (\<lambda>k token s. (True, s))" "en_release redis_demo_env = (\<lambda>k token s. (True, s))"
  "en_delivery redis_demo_env = (\<lambda>n. Answered id)" "en_monotonic redis_demo_env = (\<lambda>n. Fin 0)"
  "en_wall redis_demo_env = (\<lambda>n. Fin 100)" "en_token redis_demo_env = (\<lambda>n. [116])"
  "en_callback redis_demo_env = (\<lambda>e. None)"
  "en_time redis_demo_env = (\<lambda>n. \<lparr>tr_monotonic = Fin 0, tr_wall = Fin 0, tr_reply = VList [VInt 100, VInt 0],
       tr_monotonic_after = Fin 0, tr_wall_after = Fin 0\<rparr>)"
  by (simp_all add: redis_demo_env_def)

lemma demo_round_trip [simp]:
  "round_trip redis_demo_env f w = (Inr (fst (f (rw_server w))), w\<lparr>rw_server := snd (f (rw_server w)), rw_tick := Suc (rw_tick w)\<rparr>)"
  by (simp add: round_trip_def split_beta)

lemma demo_id: "validate_reservation_id redis_demo_udb (VStr [114]) = Inr [114]"
  by (simp add: validate_reservation_id_def validate_segment_str_Inr redis_demo_udb_def clean_segment_alt ps_def
      segment_limit_def default_max_length_for_field_def MAX_RESERVATION_ID_LENGTH_def)

lemma demo_keys:
  "redis_acquired_marker_key redis_demo_udb (ps ''app'') [114] = Inr (marker_key (ps ''app'') [114])"
  "redis_refund_dedup_key redis_demo_udb (ps ''app'') [114] = Inr (tombstone_key (ps ''app'') [114])"
  by (simp_all add: redis_acquired_marker_key_def redis_refund_dedup_key_def redis_namespace_key_def demo_prefix demo_id
     validate_total_key_length_def marker_key_def tombstone_key_def MAX_TOTAL_KEY_LENGTH_def) (simp_all add: ps_def)

lemma op_run [simp]:
  "op_bind (op_return x) f = f x" "op_bind (op_raise e) f = op_raise e" "op_bind (op_gets g) f w = f (g w) w"
  "raising (Inr x) = op_return x"
  by (simp_all add: fun_eq_iff op_bind_def op_return_def op_raise_def op_gets_def raising_def)


lemma demo_time:
  assumes "rw_clock w = None"
  shows "sync_server_time redis_demo_env w = (Inr (Fin 100), w\<lparr>rw_tick := Suc (rw_tick w),
    rw_clock := Some \<lparr>cc_last_server_time = Fin 100, cc_last_monotonic = Fin 0, cc_last_wall = Fin 0\<rparr>\<rparr>)"
proof -
  have p: "parse_time_response (VList [VInt 100, VInt 0]) = Inr (100, 0)"
    by (simp add: parse_time_response_def MAX_REDIS_TIME_SECONDS_def)
  have t: "time_to_float (100, 0) = Inr (Fin 100)"
    using float_of_int_small [of 100] float_of_int_small [of 0] by (simp add: time_to_float_def)
  show ?thesis
    using assms
    by (simp add: sync_server_time_def op_bind_def [of "round_trip _ _"] Let_def p t check_forward_jump_def)
qed


lemma op_assoc: "op_bind (op_bind m f) g = op_bind m (\<lambda>x. op_bind (f x) g)"
  by (simp add: fun_eq_iff op_bind_def split: prod.split sum.split)

definition demo_meta :: marker_metadata where
  "demo_meta = \<lparr>mm_family = Some [102], mm_bucket_ids = Some {}, mm_reserved = Some []\<rparr>"

lemma demo_authority:
  "ra_prefix (rw_self w) = ps ''app'' \<Longrightarrow>
   refund_authority redis_demo_env [] {} (Some [114]) demo_meta w =
     (Inr (Some (marker_key (ps ''app'') [114], tombstone_key (ps ''app'') [114], [123])), w)"
  by (simp add: refund_authority_def acquired_key_def dedup_key_def opt_key_def self_of_def op_assoc demo_keys demo_id
    require_redis_metadata_def demo_meta_def validate_redis_refund_scope_def redis_acquired_marker_value_def marker_usage_def
    redis_demo_codec_def op_return_def guard_def)

lemma op_for_each_empty [simp]: "op_for_each [] body = op_return ()"
  by (simp add: fun_eq_iff op_return_def)

lemma demo_commit:
  assumes "0 < ra_dedup_ttl (rw_self w)" "rw_server w = [(marker_key (ps ''app'') [114], [123], Some 60000)]"
  shows "fst (commit_refund redis_demo_env (marker_key (ps ''app'') [114]) (tombstone_key (ps ''app'') [114]) [123] [] now [] w) = Inr ()"
proof -
  let ?f = "refund_script (reference_server []) (marker_key (ps ''app'') [114]) (tombstone_key (ps ''app'') [114]) [123]
      (ra_dedup_ttl (rw_self w)) [116] []"
  have "fst (?f (rw_server w)) = Reply ''ok''"
    using assms marker_tombstone [of "ps ''app''" "[114]" "[114]"]
    by (simp add: refund_script_def reference_server_def set_nx_def dict_pop_def pcall_def write_keys_def) (simp add: ps_def)
  then have "\<exists>t. eval_script redis_demo_env ?f w = (Inr ''ok'', t)"
    by (simp add: eval_script_def op_bind_def op_return_def)
  then obtain t where "eval_script redis_demo_env ?f w = (Inr ''ok'', t)" by blast
  then show ?thesis
    by (simp add: commit_refund_def self_of_def script_writes_def confirm_written_state_def op_bind_def [of "op_try _ _"]
        op_try_def op_bind_def [of "eval_script _ _"])
       (simp add: op_return_def confirm_written_state_def)
qed

definition demo_reserved :: "store world" where
  "demo_reserved = redis_demo_world\<lparr>rw_server := [(marker_key (ps ''app'') [114], [123], Some 60000)]\<rparr>"

lemma redis_demo_refund:
  "\<exists>t. redis_refund_capacity_for_buckets redis_demo_env [] [] (Some {}) (Some [114]) demo_meta demo_reserved = (Inr True, t)"
proof -
  let ?w = "demo_reserved\<lparr>rw_tick := 1, rw_clock := Some \<lparr>cc_last_server_time = Fin 100, cc_last_monotonic = Fin 0,
      cc_last_wall = Fin 0\<rparr>\<rparr>"
  have "fst (commit_refund redis_demo_env (marker_key (ps ''app'') [114]) (tombstone_key (ps ''app'') [114]) [123] []
      (Fin 100) [] ?w) = Inr ()"
    by (rule demo_commit) (simp_all add: demo_reserved_def redis_demo_world_def redis_demo_backend_def)
  then obtain t where "commit_refund redis_demo_env (marker_key (ps ''app'') [114]) (tombstone_key (ps ''app'') [114]) [123] []
      (Fin 100) [] ?w = (Inr (), t)" by (metis prod.collapse)
  then show ?thesis
    unfolding redis_refund_capacity_for_buckets_def
    by (simp add: op_bind_def [of "refund_authority _ _ _ _ _"] demo_authority demo_reserved_def redis_demo_world_def
        redis_demo_backend_def my_buckets_def validate_backend_refund_usage_for_bucket_ids_def
        op_bind_def [of "sync_server_time _"] demo_time) (simp add: op_bind_def op_return_def)
qed

interpretation demo_closing: redis_closing_client redis_demo_env "ps ''app''" "idles (ps ''app'')" demo_reserved "[114]"
proof (intro redis_closing_client.intro redis_client.intro redis_client_axioms.intro redis_closing_client_axioms.intro)
  show "redis_server (en_server redis_demo_env)" by (rule demo_redis)
  show "redis_lasting (en_server redis_demo_env) (ps ''app'') (idles (ps ''app''))"
    using reference.redis_lasting_axioms [of "[]"] by simp
  show "client_ok redis_demo_env (ps ''app'') demo_reserved"
    using demo_client_ok by (simp add: client_ok_def demo_reserved_def)
  show "markers_writable (en_server redis_demo_env) (ps ''app'') (rw_server demo_reserved)"
    by (auto simp: markers_writable_def writable_def reference_server_def intro!: exI [of _ None])
qed (simp_all add: demo_fair redis_demo_codec_def)

section \<open>The deployment\<close>

text \<open>
  C5. Whatever the network loses or repeats, whatever locks do and other clients do meanwhile, every
  operation of a client, returning or raising, moves the server along a run of the deployment's
  transition system, and leaves a client of the same deployment.
\<close>

theorem redis_operations_are_runs:
  assumes "redis_server (en_server E)" "fair_env E p others" "fair_sleep E p others sl" "client_ok E p w"
  shows "ran E p others (rw_server w) (snd (redis_wait_for_capacity n E sl raw timeout rid lifetime w)) \<and>
    ran E p others (rw_server w) (snd (redis_consume_capacity E raw rid lifetime w)) \<and>
    ran E p others (rw_server w) (snd (redis_refund_capacity_for_buckets E raw actual ids rid meta w)) \<and>
    ran E p others (rw_server w) (snd (redis_refund_capacity E raw actual w)) \<and>
    ran E p others (rw_server w) (snd (redis_set_max_capacity E k v w)) \<and>
    ran E p others (rw_server w) (snd (redis_apply_configured_max_capacity E k v w)) \<and>
    ran E p others (rw_server w) (snd (redis_reconciliation_max E k w)) \<and>
    ran E p others (rw_server w) (snd (redis_prepare_reconfigured_backend E new cfg w))"
proof -
  have host: "redis_host E p others sl"
    using assms by (intro redis_host.intro redis_host_axioms.intro)
  have run: "ran E p others (rw_server w) (snd (m w))"
    if "preserves (ran E p others (rw_server w)) m" for m :: "('a, 'b) rop"
    by (rule preserves_final [OF that, where s = w and r = "fst (m w)"]) (simp_all add: ran_def assms(4))
  have one: "ran E p others (rw_server w) (snd (m w))"
    if "\<And>v. redis_client E p others v \<Longrightarrow> preserves (moved E p others v) m" for m :: "('a, 'b) rop"
    by (rule run) (rule redis_host.lift [OF host that])
  show ?thesis
    by (intro conjI run one redis_host.redis_wait_for_capacity_run [OF host]
        redis_host.redis_prepare_reconfigured_backend_run [OF host] redis_client.redis_consume_capacity_run
        redis_client.redis_refund_run redis_client.redis_refund_capacity_run redis_client.redis_set_max_capacity_run
        redis_client.redis_apply_configured_max_capacity_run redis_client.redis_reconciliation_max_run)
qed

theorem redis_operations_are_runs_witness:
  "ran redis_demo_env (ps ''app'') (idles (ps ''app'')) []
     (snd (redis_consume_capacity redis_demo_env [([109], VFloat (Fin 5))] (Some [114]) (Some (Fin 60)) redis_demo_world))"
  using redis_operations_are_runs [OF demo_redis demo_fair demo_sleep demo_client_ok]
  by (simp add: redis_demo_world_def)

context redis_deployment
begin
lemmas refund_between = ledger.refund_twice
end

context redis_lasting
begin
lemmas refund_is_last = lasting.refund_final
end

text \<open>
  C13. In every interleaving of the clients of a deployment, while tombstones last, a reservation
  that was refunded is never acquired or refunded again; markers may expire at any time and any
  server command may be refused, by a server whose refusals depend on the key.
\<close>

theorem redis_refund_final:
  assumes "redis_server_by_key R" "58 \<notin> set p" "\<And>s t. others s t \<Longrightarrow> markers_wane R p s t \<and> tombstones_last R p s t"
    "markers_writable R p s" "trace (redis_step R p others) s (xs @ Refunded i # ys) u"
  shows "Acquired i \<notin> set ys \<and> Refunded i \<notin> set ys"
proof -
  have "redis_lasting R p others"
    using assms(1-3) by (intro redis_lasting.intro redis_deployment.intro redis_deployment_axioms.intro
        redis_lasting_axioms.intro) blast+
  then show ?thesis using assms(5,4) by (rule redis_lasting.refund_is_last)
qed

text \<open>A refund of reservation \<open>r\<close> on the reference server, after its marker was written.\<close>

definition demo_marked :: store where "demo_marked = [(marker_key (ps ''app'') [114], [1], Some 1000)]"

lemma redis_demo_refund_step:
  "redis_step (reference_server []) (ps ''app'') (idles (ps ''app'')) demo_marked (Refunded [114])
     [(tombstone_key (ps ''app'') [114], [2], Some 60000)]"
proof -
  have "refund_script (reference_server []) (marker_key (ps ''app'') [114]) (tombstone_key (ps ''app'') [114]) [1] 60 [2] []
      demo_marked = (Reply ''ok'', [(tombstone_key (ps ''app'') [114], [2], Some 60000)])"
    using marker_tombstone [of "ps ''app''" "[114]" "[114]"]
    by (simp add: refund_script_def demo_marked_def reference_server_def pcall_def set_nx_def dict_pop_def
        write_keys_def ps_def)
  from redis_step.refund [OF this] show ?thesis by (simp add: apart_def write_keys_def)
qed

theorem redis_refund_final_witness:
  "Acquired [114] \<notin> set [Silent] \<and> Refunded [114] \<notin> set [Silent]"
proof (rule redis_refund_final [where R = "reference_server []" and p = "ps ''app''" and others = "idles (ps ''app'')"
    and s = demo_marked and xs = "[]" and u = "[(tombstone_key (ps ''app'') [114], [2], Some 60000)]"])
  show "redis_server_by_key (reference_server [])" by (rule reference.redis_server_by_key_axioms)
  show "58 \<notin> set (ps ''app'')" by (simp add: ps_def)
  show "markers_writable (reference_server []) (ps ''app'') demo_marked"
    by (auto simp: markers_writable_def writable_def reference_server_def intro!: exI [of _ None])
  show "trace (redis_step (reference_server []) (ps ''app'') (idles (ps ''app''))) demo_marked
      ([] @ Refunded [114] # [Silent]) [(tombstone_key (ps ''app'') [114], [2], Some 60000)]"
    using redis_demo_refund_step by (auto intro!: trace_Cons trace_Nil redis_step.elsewhere simp: ids_kept_def)
qed (simp add: idles_wane idles_last)

text \<open>
  C6. A refund of a reservation that returns has closed it, even when the network lost, repeated or
  delayed any of its round trips while others acted: its tombstone is there, its marker is gone, and
  nothing that follows acquires or refunds it again while tombstones last.
\<close>

theorem redis_refund_closes:
  assumes "redis_server_by_key (en_server E)" "\<And>s t. others s t \<Longrightarrow> markers_wane (en_server E) p s t \<and> tombstones_last (en_server E) p s t"
    "fair_env E p others" "client_ok E p w" "\<And>b. cd_reply (en_codec E) b \<noteq> VNone"
    "markers_writable (en_server E) p (rw_server w)" "validate_reservation_id (en_unicode E) (VStr rid) = Inr i"
    "redis_refund_capacity_for_buckets E reserved actual ids (Some rid) meta w = (Inr x, w')"
    "trace (redis_step (en_server E) p others) (rw_server w') es u"
  shows "i \<in> buried (en_server E) p (rw_server w') \<and> Acquired i \<notin> set es \<and> Refunded i \<notin> set es"
proof -
  have p: "58 \<notin> set p" using assms(4) by (auto simp: client_ok_def dest: validate_key_prefix_VStr)
  have lasting: "redis_lasting (en_server E) p others"
    using assms(1,2) p by (intro redis_lasting.intro redis_deployment.intro redis_deployment_axioms.intro
        redis_lasting_axioms.intro) blast+
  have "redis_closing_client E p others w i"
    using assms(3-7) lasting redis_server_by_key.axioms(1) [OF assms(1)] validate_reservation_id_no_colon
    by (intro redis_closing_client.intro redis_client.intro redis_client_axioms.intro redis_closing_client_axioms.intro)
       blast+
  from redis_closing_client.refund_closed [OF this assms(7,8)]
  have "i \<in> buried (en_server E) p (rw_server w')" "markers_writable (en_server E) p (rw_server w')" by blast+
  then show ?thesis using redis_lasting.buried_for_good [OF lasting assms(9)] by blast
qed

theorem redis_refund_closes_witness:
  "\<exists>t. redis_refund_capacity_for_buckets redis_demo_env [] [] (Some {}) (Some [114]) demo_meta demo_reserved = (Inr True, t) \<and>
     [114] \<in> buried (reference_server []) (ps ''app'') (rw_server t)"
proof -
  obtain t where t: "redis_refund_capacity_for_buckets redis_demo_env [] [] (Some {}) (Some [114]) demo_meta demo_reserved = (Inr True, t)"
    using redis_demo_refund by blast
  have "[114] \<in> buried (en_server redis_demo_env) (ps ''app'') (rw_server t) \<and>
      Acquired [114] \<notin> set [] \<and> Refunded [114] \<notin> set []"
  proof (rule redis_refund_closes [OF demo_server _ demo_fair _ _ _ _ t])
    show "client_ok redis_demo_env (ps ''app'') demo_reserved"
      using demo_client_ok by (simp add: client_ok_def demo_reserved_def)
    show "cd_reply (en_codec redis_demo_env) b \<noteq> VNone" for b by (simp add: redis_demo_codec_def)
    show "markers_writable (en_server redis_demo_env) (ps ''app'') (rw_server demo_reserved)"
      by (auto simp: markers_writable_def writable_def reference_server_def intro!: exI [of _ None])
    show "validate_reservation_id (en_unicode redis_demo_env) (VStr [114]) = Inr [114]" by (simp add: demo_id)
    show "trace (redis_step (en_server redis_demo_env) (ps ''app'') (idles (ps ''app''))) (rw_server t) [] (rw_server t)"
      by (rule trace_Nil)
  qed (simp add: idles_wane idles_last)
  with t show ?thesis by auto
qed

text \<open>
  C12. A script of an acquisition or a refund that answers anything but \<^verbatim>\<open>ok\<close> has changed nothing,
  neither a level nor a marker nor a tombstone, even when the server refused one of its writes half
  way, if its refusals depend on the key alone (so that it lets the roll-back through); only a key in its last millisecond may be gone.
\<close>

theorem redis_scripts_all_or_nothing:
  assumes "redis_server_by_key R" "mk \<noteq> tk" "mk \<notin> set (write_keys ws)" "tk \<notin> set (write_keys ws)" "writable R mk"
    "acquire_script R mk tk px marker ws s = (r, t)" "r \<noteq> Reply ''ok''"
    "refund_script R mk tk marker' ttl token ws s' = (r', t')" "r' \<noteq> Reply ''ok''"
  shows "kept_key R j s t \<and> kept_key R j s' t'"
proof
  have R: "redis_server R" using assms(1) by (rule redis_server_by_key.axioms)
  show "kept_key R j s t"
    by (rule redis_server.acquire_script_cases [OF R assms(6,3)])
       (use assms(7) redis_server_by_key.acquire_script_refused [OF assms(1) _ assms(3)] assms(6) in auto)
  show "kept_key R j s' t'"
    by (rule redis_server.refund_script_cases [OF R assms(8,2,3,4)])
       (use assms(9) redis_server_by_key.refund_script_refused [OF assms(1) _ assms(2-5)] assms(8) in auto)
qed

text \<open>The last key of the writes is refused: the first is written and taken back.\<close>

definition half_write :: bucket_write where
  "half_write = \<lparr>bw_last_checked_key = [1], bw_capacity_key = [2], bw_time = [3], bw_capacity = [4], bw_ttl = 5\<rparr>"

definition half_refused :: "store server" where "half_refused = reference_server [[2]]"

theorem redis_scripts_all_or_nothing_witness:
  "\<exists>t t'. kept_key half_refused [1] [([1], [9], Some 70)] t \<and> kept_key half_refused [1] [([7], [8], None), ([1], [9], Some 70)] t'"
proof -
  have w: "writable half_refused [7]"
    by (auto simp: writable_def half_refused_def reference_server_def intro!: exI [of _ None])
  obtain t where t: "acquire_script half_refused [7] [6] 50 [8] [half_write] [([1], [9], Some 70)] = (ErrorReply, t)"
    by (simp add: acquire_script_def half_refused_def reference_server_def half_write_def write_keys_def
        rollback_then_error_def pcall_def)
  obtain t' where t': "refund_script half_refused [7] [6] [8] 50 [5] [half_write] [([7], [8], None), ([1], [9], Some 70)] =
      (ErrorReply, t')"
    by (simp add: refund_script_def half_refused_def reference_server_def half_write_def write_keys_def
        rollback_then_error_def pcall_def)
  have "redis_server_by_key half_refused" unfolding half_refused_def by (rule reference.redis_server_by_key_axioms)
  from redis_scripts_all_or_nothing [OF this _ _ _ w t _ t', of "[1]"] show ?thesis
    by (auto simp: write_keys_def half_write_def)
qed

text \<open>
  C24. A request that is sent again is recognised: after a granted acquisition one of the same id
  is a replay if its marker is the same and a duplicate if it is any other, and a refund under any
  other marker is a mismatch; after a refund its retry with the same token is a replay, any other
  refund a duplicate, and an acquisition of the id a duplicate; none of them changes anything.
\<close>

theorem redis_retries_recognised:
  assumes "redis_server R" "mk \<noteq> tk" "mk \<notin> set (write_keys ws)" "tk \<notin> set (write_keys ws)"
    "acquire_script R mk tk px marker ws s = (Reply ''ok'', t)" "same_key R mk t u"
    "refund_script R mk tk marker' ttl token ws s' = (Reply ''ok'', t')" "same_key R mk t' u'" "same_key R tk t' u'"
  shows "acquire_script R mk tk px' marker ws' u = (Reply ''replayed_acquire'', u) \<and>
    (other = marker \<or> acquire_script R mk tk px' other ws' u = (Reply ''duplicate_acquire'', u) \<and>
       refund_script R mk tk other ttl token' ws'' u = (Reply ''marker_mismatch'', u)) \<and>
    refund_script R mk tk marker'' ttl token ws'' u' = (Reply ''replayed_refund'', u') \<and>
    (token' = token \<or> refund_script R mk tk marker'' ttl token' ws'' u' = (Reply ''duplicate_refund'', u')) \<and>
    acquire_script R mk tk px' other ws' u' = (Reply ''duplicate_acquire'', u')"
proof -
  have "sv_get R mk u = Some marker"
    by (rule redis_server.acquire_script_cases [OF assms(1,5,3)]) (use assms(6) in \<open>auto simp: same_key_def\<close>)
  moreover have "sv_get R mk u' = None" "sv_get R tk u' = Some token"
    using redis_server.refund_script_cases [OF assms(1,7,2,3,4)] assms(8,9) by (auto simp: same_key_def)
  ultimately show ?thesis by (auto simp: acquire_script_def refund_script_def)
qed

theorem redis_retries_recognised_witness:
  "\<exists>t. acquire_script (reference_server []) [7] [6] 50 [8] [] [([7], [8], Some 50)] = (Reply ''replayed_acquire'', t) \<and>
     acquire_script (reference_server []) [7] [6] 50 [9] [] [([7], [8], Some 50)] = (Reply ''duplicate_acquire'', t) \<and>
     refund_script (reference_server []) [7] [6] [8] 50 [5] [] [([6], [5], Some 50000)] =
       (Reply ''replayed_refund'', [([6], [5], Some 50000)])"
proof -
  have a: "acquire_script (reference_server []) [7] [6] 50 [8] [] [] = (Reply ''ok'', [([7], [8], Some 50)])"
    by (simp add: acquire_script_def reference_server_def set_nx_def)
  have b: "refund_script (reference_server []) [7] [6] [8] 50 [5] [] [([7], [8], None)] =
      (Reply ''ok'', [([6], [5], Some 50000)])"
    by (simp add: refund_script_def reference_server_def set_nx_def dict_pop_def pcall_def)
  from redis_retries_recognised [OF reference.redis_server_axioms _ _ _ a same_key_refl b same_key_refl same_key_refl,
      where px' = 50 and ws' = "[]" and other = "[9]" and marker'' = "[8]" and ws'' = "[]" and token' = "[5]"]
  show ?thesis by (auto simp: write_keys_def)
qed

end
