(* ===== verification/RedisLevels.thy ===== *)
theory RedisLevels
  imports RedisCorrect DebtTtl
begin

text \<open>
  The levels the Redis backend reads and writes, the lifetimes of its keys, and its waiters.
\<close>

section \<open>Lost state\<close>

lemma op_results:
  "raising r s = (Inr x, t) \<longleftrightarrow> r = Inr x \<and> t = s" "op_return y s = (Inr x, t) \<longleftrightarrow> y = x \<and> t = s"
  "op_gets f s = (Inr x, t) \<longleftrightarrow> f s = x \<and> t = s"
  by (auto simp: raising_def op_return_def op_raise_def op_gets_def split: sum.split)

lemma fsub_self: "isfinite x \<Longrightarrow> fsub x x = Fin 0"
  by (cases x) simp_all

lemma rat_of_nothing [simp]: "rat_of (fmul (Fin 0) x) = 0"
  by (cases x) (simp_all add: inf_of_sign_def)

lemma accrue_nothing:
  assumes "accrue_with_expiry history override configured per (Fin t) (Fin t) (Fin 0) rate = Inr a" "isfinite rate"
  shows "a = Fin 0"
proof (cases "history_applies history override configured (Fin t)")
  case None
  then show ?thesis using assms by (cases rate) (auto simp: accrue_with_expiry_def fmax_def)
next
  case (Some h)
  have e: "\<not> flt (Fin t) (oe_expires_at h)"
    using Some by (auto simp: history_applies_def split: option.splits if_splits)
  have old: "fmax (Fin 0) (fsub (oe_expires_at h) (Fin t)) = Fin 0"
  proof (cases "oe_expires_at h")
    case (Fin x)
    then have "x - t \<le> 0" using e by simp
    then have "fle (rnd (x - t)) (Fin 0)" by (rule rnd_le) simp
    then show ?thesis using Fin by (cases "rnd (x - t)") (auto simp: fmax_def)
  qed (use e in \<open>auto simp: fmax_def fsub_def\<close>)
  have new: "fmax (Fin 0) (fsub (Fin t) (fmax (Fin t) (oe_expires_at h))) = Fin 0"
    using e by (simp add: fmax_def)
  show ?thesis
    using assms Some by (auto simp: accrue_with_expiry_def old new res_simps Let_def split: if_splits)
qed

lemma fmin_nothing: "isfinite m \<Longrightarrow> fle MIN_MAX_CAPACITY m \<Longrightarrow> fmin m (Fin 0) = Fin 0"
  by (cases m) (auto simp: min_def dest: MIN_MAX_CAPACITY_pos)

lemma mk_fresh: "mk_calculated_capacity a f = Inr res \<Longrightarrow> is_fresh_start res = f"
  by (auto simp: mk_calculated_capacity_def split: if_splits)

text \<open>A bucket whose state was lost reads as empty.\<close>

lemma calculate_lost:
  assumes "calculate_with_expiry history override configured per (VFloat now) (VFloat (Fin 0)) now = Inr res"
  shows "amount res = Fin 0"
proof -
  from assms obtain rate r a where
    r: "calculate_capacity (VFloat now) (VFloat (Fin 0)) (VFloat now)
      (VFloat (case override of None \<Rightarrow> configured | Some v \<Rightarrow> v)) (VFloat rate) = Inr r"
    and a: "accrue_with_expiry history override configured per now now (Fin 0) rate = Inr a"
    and res: "mk_calculated_capacity (fmin (case override of None \<Rightarrow> configured | Some v \<Rightarrow> v) a) False = Inr res"
    by (auto simp: calculate_with_expiry_def Let_def res_simps)
  from r have n: "isfinite now" and m: "fmin (case override of None \<Rightarrow> configured | Some v \<Rightarrow> v) (Fin 0) = Fin 0" and q: "isfinite rate"
    by (auto simp: calculate_capacity_def res_simps rate_ok_def validate_max_VFloat validate_rate_VFloat fmin_nothing split: if_splits)
  from n obtain t where "now = Fin t" by (cases now) auto
  with a q have "a = Fin 0" using accrue_nothing by blast
  with res m show ?thesis by (auto simp: mk_calculated_capacity_def split: if_splits)
qed

text \<open>
  The replies of a read whose state was lost: one of the two keys of the bucket is missing, or
  both are although this client saw or wrote them less than nine tenths of their lifetime ago.
\<close>

definition lost_replies :: "redis_bucket \<Rightarrow> pyfloat \<Rightarrow> pyval \<Rightarrow> pyval \<Rightarrow> bool" where
  "lost_replies b now last_checked capacity \<longleftrightarrow>
     (last_checked = VNone) \<noteq> (capacity = VNone) \<or>
     last_checked = VNone \<and> capacity = VNone \<and>
     (case rb_confirmed_at b of None \<Rightarrow> False
      | Some seen \<Rightarrow> (case float_of_int (rb_confirmed_ttl b) of Inl _ \<Rightarrow> False
         | Inr ttl \<Rightarrow> flt (fsub now seen) (fmul ttl (flit (9 / 10)))))"

text \<open>
  C23. When the server answers the read of a bucket with one of its two keys missing, or with both
  missing although they were confirmed less than nine tenths of their lifetime ago, the bucket reads
  as empty, also across the end of an override; the loss is recorded for the repair, and no
  positive usage of its metric is granted on it.
\<close>

theorem redis_lost_state_not_granted:
  assumes "parse_capacity_read E now rs nb (n, i) w = (Inr r, w')"
    "lost_replies (rw_bucket w i) now (rs ! (4 * n)) (rs ! (4 * n + 1))"
    "(pr_id r, amount (pr_result r)) \<in> set caps" "(fst (pr_id r), a) \<in> set u" "flt (Fin 0) a"
  shows "amount (pr_result r) = Fin 0 \<and> is_state_loss r \<and> \<not> available u caps"
proof -
  let ?l = "rs ! (4 * n)" let ?c = "rs ! (4 * n + 1)" let ?b = "rw_bucket w i"
  obtain lost l c override history where
    lost: "redis_state_loss_suspected ?b now = Inr lost"
    and pair: "normalize_bucket_state_pair ?l ?c now lost = Inr (l, c)"
    and res: "calculate_with_expiry history override (rb_default ?b) (rb_per_seconds ?b) l c now = Inr (pr_result r)"
    and mis: "pr_missing r = bucket_state_missing_keys ?l ?c"
    using assms(1)
    by (auto simp: parse_capacity_read_def Let_def op_bind_Inr bucket_of_def op_results split: prod.splits)
  have "(l, c) = (VFloat now, VFloat (Fin 0)) \<and> pr_missing r \<noteq> []"
    using assms(2) pair lost mis
    by (auto simp: lost_replies_def redis_state_loss_suspected_def normalize_bucket_state_pair_def Let_def res_simps
        validate_redis_get_result_def bucket_state_missing_keys_def split: if_splits option.splits sum.splits)
  then have lc: "l = VFloat now" "c = VFloat (Fin 0)" "pr_missing r \<noteq> []" by simp_all
  have z: "amount (pr_result r) = Fin 0" using res calculate_lost lc by auto
  have "\<not> is_fresh_start (pr_result r)"
    using res lc by (auto simp: calculate_with_expiry_def Let_def res_simps dest: mk_fresh)
  then have sl: "is_state_loss r" using lc by (simp add: is_state_loss_def)
  have "\<not> available u caps"
  proof
    assume "available u caps"
    then have "list_all (\<lambda>((m, _), c). m = fst (pr_id r) \<longrightarrow> \<not> flt c a) caps"
      using assms(4) by (auto simp: available_def list_all_iff)
    then have "(\<lambda>((m, _), c). m = fst (pr_id r) \<longrightarrow> \<not> flt c a) (pr_id r, amount (pr_result r))"
      using assms(3) by (simp only: list_all_iff)
    then show False using assms(5) z by (simp split: prod.splits)
  qed
  with z sl show ?thesis by blast
qed

lemma demo_sel [simp]:
  "rw_bucket redis_demo_world = (\<lambda>i. redis_demo_bucket)" "rw_server redis_demo_world = []"
  "rb_metric redis_demo_bucket = [109]" "rb_per_seconds redis_demo_bucket = 60" "rb_default redis_demo_bucket = Fin 60"
  "rb_confirmed_at redis_demo_bucket = None" "rb_cached redis_demo_bucket = None"
  by (simp_all add: redis_demo_world_def redis_demo_bucket_def)

text \<open>The level is gone while the time of the last check is still there.\<close>

theorem redis_lost_state_not_granted_witness:
  "\<exists>r t. parse_capacity_read redis_demo_env (Fin 100) [VBytes [57], VNone, VInt 1, VInt 0, VNone] 1 (0, 0) redis_demo_world =
     (Inr r, t) \<and> \<not> available [([109], Fin 1)] [(([109], 60), amount (pr_result r))]"
proof -
  have per: "float_of_int 60 = Inr (Fin 60)" using float_of_int_small [of 60] by simp
  have calc: "calculate_with_expiry None None (Fin 60) 60 (VFloat (Fin 100)) (VFloat (Fin 0)) (Fin 100) =
      Inr \<lparr>amount = Fin 0, is_fresh_start = False\<rparr>"
    using validate_max_ok [of "Fin 60"] validate_rate_VFloat [of "Fin 1" "Fin 1"]
    by (simp add: calculate_with_expiry_def calculate_capacity_def per res_simps Let_def max_ok_def MIN_MAX_CAPACITY_val
        rate_ok_def refilled_def time_passed_def mk_calculated_capacity_def accrue_with_expiry_def history_applies_def)
  have hist: "read_override_expiry redis_demo_env 0 redis_demo_world = (Inr None, redis_demo_world\<lparr>rw_tick := 1\<rparr>)"
    by (simp add: read_override_expiry_def bucket_of_def redis_get_def op_bind_def [of "round_trip _ _"]
        reference_server_def stored_reply_def validate_redis_get_result_def parse_expiry_def)
       (simp add: op_return_def redis_demo_world_def)
  obtain r t where p: "parse_capacity_read redis_demo_env (Fin 100) [VBytes [57], VNone, VInt 1, VInt 0, VNone] 1 (0, 0)
      redis_demo_world = (Inr r, t)" and r: "pr_id r = ([109], 60)"
    by (simp add: parse_capacity_read_def Let_def bucket_of_def redis_state_loss_suspected_def normalize_bucket_state_pair_def
        validate_redis_get_result_def bucket_state_missing_keys_def MAX_REDIS_GET_VALUE_BYTES_def validate_expire_result_def
        deserialize_override_def op_bind_def [of "read_override_expiry _ _"] hist calc rb_id_def)
       (simp add: op_return_def)
  have "lost_replies (rw_bucket redis_demo_world 0) (Fin 100) VNone VNone = False"
    "lost_replies (rw_bucket redis_demo_world 0) (Fin 100) (VBytes [57]) VNone"
    by (simp_all add: lost_replies_def)
  with redis_lost_state_not_granted [OF p _, of "[(([109], 60), amount (pr_result r))]" "Fin 1" "[([109], Fin 1)]"] r p
  show ?thesis by auto
qed

section \<open>Refunded levels\<close>

definition new_level ::
  "(nat \<Rightarrow> redis_bucket) \<Rightarrow> nat list \<Rightarrow> bucket_id set \<Rightarrow> usage \<Rightarrow> bucket_id \<Rightarrow> pyfloat \<Rightarrow> pyfloat" where
  "new_level h is ids amounts k c = (if k \<notin> ids then c else case map_of amounts (fst k) of None \<Rightarrow> c
     | Some a \<Rightarrow> refunded_level (max_capacity (h (the (find_redis_bucket h is k)))) c a)"

lemma refunded_levels_map:
  "refunded_levels h is ids amounts caps = Inr post \<Longrightarrow> post = map (\<lambda>(k, c). (k, new_level h is ids amounts k c)) caps"
proof -
  let ?body = "\<lambda>(k, c) acc.
     if k \<notin> ids then Inr (acc @ [(k, c)])
     else (case map_of amounts (fst k) of
        None \<Rightarrow> Inr (acc @ [(k, c)])
      | Some a \<Rightarrow> (case find_redis_bucket h is k of
          None \<Rightarrow> Inl (ValueError ''Bucket not found'')
        | Some i \<Rightarrow> Inr (acc @ [(k, refunded_level (max_capacity (h i)) c a)])))"
  have step: "?body kc acc = Inr acc' \<Longrightarrow> acc' = acc @ [(\<lambda>(k, c). (k, new_level h is ids amounts k c)) kc]" for kc acc acc'
    by (cases kc) (auto simp: new_level_def split: if_splits option.splits)
  have main: "for_each caps ?body acc = Inr post \<Longrightarrow> post = acc @ map (\<lambda>(k, c). (k, new_level h is ids amounts k c)) caps" for acc
  proof (induction caps arbitrary: acc)
    case (Cons kc caps)
    from Cons.prems obtain acc' where a: "?body kc acc = Inr acc'" "for_each caps ?body acc' = Inr post"
      by (auto simp only: for_each.simps bind_res_Inr_iff)
    show ?case using step [OF a(1)] Cons.IH [OF a(2)] by simp
  qed simp
  show "refunded_levels h is ids amounts caps = Inr post \<Longrightarrow> ?thesis"
    using main [of "[]"] unfolding refunded_levels_def by (simp only: append_Nil)
qed

lemma refunded_level_range: "0 < m \<Longrightarrow> fle (Fin (- m)) (refunded_level (Fin m) c a) \<and> fle (refunded_level (Fin m) c a) (Fin m)"
  by (cases "fadd c (fmax a (Fin (- m)))") (auto simp: refunded_level_def fmax_def fmin_def)

section \<open>Lifetimes\<close>

context redis_server
begin

lemma write_override_done:
  assumes "write_override R L ok hk lk ck w s = (Some 1, t)" "ok \<noteq> hk"
  obtains u where "sv_set R hk (ow_history w) (Some (max (max (1000 * ow_history_ttl w) (sv_pttl R hk s))
        (max (sv_pttl R lk s) (sv_pttl R ck s)))) s = Some u"
    "(if ow_refresh w then sv_pexpire R ok (1000 * ow_ttl w) u
      else sv_set R ok (ow_payload w) (Some (1000 * ow_ttl w)) u) = Some t"
  using assms(1) by (auto simp: write_override_def Let_def split: if_splits option.splits)

lemma override_lifetimes:
  assumes "write_override R L ok hk lk ck w s = (Some 1, t)" "distinct [ok, hk, lk, ck]" "0 < ow_ttl w"
    "ow_ttl w \<le> ow_history_ttl w"
  shows "sv_get R hk t = Some (ow_history w)" "sv_pttl R hk s \<le> sv_pttl R hk t"
    "sv_pttl R lk t = sv_pttl R lk s" "sv_pttl R lk s \<le> sv_pttl R hk t"
    "sv_pttl R ck t = sv_pttl R ck s" "sv_pttl R ck s \<le> sv_pttl R hk t"
    "sv_pttl R ok t \<le> sv_pttl R hk t"
proof -
  from assms(1,2) obtain u where u: "sv_set R hk (ow_history w) (Some (max (max (1000 * ow_history_ttl w) (sv_pttl R hk s))
        (max (sv_pttl R lk s) (sv_pttl R ck s)))) s = Some u"
    and t: "(if ow_refresh w then sv_pexpire R ok (1000 * ow_ttl w) u
      else sv_set R ok (ow_payload w) (Some (1000 * ow_ttl w)) u) = Some t"
    by (auto elim: write_override_done)
  have o: "sv_get R j t = sv_get R j u" "sv_pttl R j t = sv_pttl R j u" if "j \<noteq> ok" for j
    using t that assms(3)
    by (auto simp: set_get set_pttl pexpire_get pexpire_pttl split: if_splits)
  have "sv_pttl R ok u = - 2" if "sv_get R ok u = None" using pttl_absent that by blast
  then have ok: "sv_pttl R ok t \<le> 1000 * ow_ttl w"
    using t assms(3) by (auto simp: set_pttl pexpire_pttl split: if_splits)
  show "sv_get R hk t = Some (ow_history w)" "sv_pttl R hk s \<le> sv_pttl R hk t"
    "sv_pttl R lk t = sv_pttl R lk s" "sv_pttl R lk s \<le> sv_pttl R hk t"
    "sv_pttl R ck t = sv_pttl R ck s" "sv_pttl R ck s \<le> sv_pttl R hk t" "sv_pttl R ok t \<le> sv_pttl R hk t"
    using o assms(2,4) ok u by (auto simp: set_get set_pttl)
qed

lemma refresh_lifetimes:
  assumes "key \<noteq> hk" "0 < ttl" "refresh_state_ttl R L key ck hk ttl configured per s = (Some 1, t)"
  obtains needed where "required_ttl_ms L (sv_get R ck s) ttl configured per = Some needed"
    "1000 * ttl \<le> needed" "sv_get R j t = sv_get R j s"
    "j \<noteq> key \<Longrightarrow> j \<noteq> hk \<Longrightarrow> sv_pttl R j t = sv_pttl R j s" "sv_pttl R key t = max needed (sv_pttl R key s)"
    "if sv_pttl R hk s < 0 then sv_pttl R hk t = sv_pttl R hk s
     else sv_pttl R hk t = max (sv_pttl R hk s) (sv_pttl R key t)"
proof -
  from assms(3) obtain needed where need: "required_ttl_ms L (sv_get R ck s) ttl configured per = Some needed"
    by (auto simp: refresh_state_ttl_def split: option.splits)
  have pos: "0 < needed" "1000 * ttl \<le> needed" using required_ttl_ge [OF need] assms(2) by linarith+
  let ?h = "max needed (sv_pttl R key s)"
  let ?ext = "if 0 \<le> sv_pttl R hk s \<and> sv_pttl R hk s < ?h then sv_pexpire R hk ?h s else Some s"
  have rem: "sv_pttl R key s \<noteq> - 2" using assms(3) need by (auto simp: refresh_state_ttl_def)
  with assms(3) need obtain u where u: "?ext = Some u"
    and t: "if needed \<le> sv_pttl R key s then t = u else sv_pexpire R key needed u = Some t"
    by (auto simp: refresh_state_ttl_def Let_def split: option.splits if_splits)
  have hp: "0 < ?h" using pos by simp
  have live: "sv_get R hk s \<noteq> None" if "0 \<le> sv_pttl R hk s" using that pttl_absent [of hk s] by force
  have u1: "sv_get R i u = sv_get R i s \<and> (i \<noteq> hk \<longrightarrow> sv_pttl R i u = sv_pttl R i s)" for i
  proof (cases "0 \<le> sv_pttl R hk s \<and> sv_pttl R hk s < ?h")
    case True
    then have e: "sv_pexpire R hk ?h s = Some u" using u by simp
    show ?thesis using pexpire_get [OF e hp, of i] pexpire_pttl [OF e hp, of i] by simp
  qed (use u in \<open>simp split: if_splits\<close>)
  have u2: "sv_pttl R hk u = (if sv_pttl R hk s < 0 then sv_pttl R hk s else max (sv_pttl R hk s) ?h)"
  proof (cases "0 \<le> sv_pttl R hk s \<and> sv_pttl R hk s < ?h")
    case True
    then have e: "sv_pexpire R hk ?h s = Some u" using u by simp
    show ?thesis using pexpire_pttl [OF e hp, of hk] live True by simp
  qed (use u in \<open>auto split: if_splits\<close>)
  have present: "sv_get R key u \<noteq> None" using rem pttl_absent [of key s] u1 by simp
  have t1: "sv_get R i t = sv_get R i u" "i \<noteq> key \<Longrightarrow> sv_pttl R i t = sv_pttl R i u"
    "sv_pttl R key t = ?h" for i
    using t present pexpire_get [OF _ pos(1)] pexpire_pttl [OF _ pos(1), of key u t] u1 [of key] assms(1)
    by (auto split: if_splits)
  show thesis
  proof (rule that [OF need pos(2)])
    show "sv_get R j t = sv_get R j s" using t1(1) u1 by simp
    show "sv_pttl R j t = sv_pttl R j s" if "j \<noteq> key" "j \<noteq> hk" using that t1(2) u1 by simp
    show "sv_pttl R key t = ?h" by (rule t1(3))
    show "if sv_pttl R hk s < 0 then sv_pttl R hk t = sv_pttl R hk s
      else sv_pttl R hk t = max (sv_pttl R hk s) (sv_pttl R key t)"
      using t1(2) [of hk] t1(3) u2 assms(1) by simp
  qed
qed

end

text \<open>
  C39. A runtime override that is written or refreshed leaves its history with at least the lifetime
  of the override itself and of the bucket's state, and never shortens it, so that an override that
  expires can always be accounted for. Lifetimes are compared as \<^verbatim>\<open>PTTL\<close> answers them, as the script
  does: a key without a lifetime answers -1, so a history stored without one, which no write of the
  client leaves, gets a finite one.
\<close>

theorem redis_history_outlives_override:
  assumes "redis_server R" "distinct [override_k, history_k, last_checked_k, capacity_k]"
    "write_override R L override_k history_k last_checked_k capacity_k w s = (Some 1, t)"
    "0 < ow_ttl w" "ow_ttl w \<le> ow_history_ttl w"
  shows "sv_get R history_k t = Some (ow_history w) \<and>
    list_all (\<lambda>j. sv_pttl R j t \<le> sv_pttl R history_k t) [override_k, last_checked_k, capacity_k] \<and>
    sv_pttl R history_k s \<le> sv_pttl R history_k t"
  using redis_server.override_lifetimes [OF assms(1,3,2,4,5)] by simp

theorem redis_history_outlives_override_witness:
  "sv_pttl (reference_server []) [1] [([2], [20], Some 5000), ([1], [10], Some 3000)] \<le>
     sv_pttl (reference_server []) [2] [([2], [20], Some 5000), ([1], [10], Some 3000)]"
proof -
  let ?w = "\<lparr>ow_refresh = False, ow_payload = [10], ow_history = [20], ow_history_ttl = 5, ow_configured = Fin 60,
      ow_value = Fin 30, ow_ttl = 3\<rparr>"
  let ?L = "\<lparr>lr_tonumber = (\<lambda>b. None), lr_override = (\<lambda>b. None)\<rparr>"
  have "write_override (reference_server []) ?L [1] [2] [3] [4] ?w [] = (Some 1, [([2], [20], Some 5000), ([1], [10], Some 3000)])"
    by (simp add: write_override_def reference_server_def)
  from redis_history_outlives_override [OF reference.redis_server_axioms _ this] show ?thesis by simp
qed




end
