(* ===== verification/RedisDiagnostics.thy ===== *)
theory RedisDiagnostics
  imports RedisOps
begin

text \<open>
  \<^verbatim>\<open>introspect()\<close> of \<^verbatim>\<open>_redis/_sync_backend.py\<close>: the report of buckets and waiters, which reads the
  server and writes nothing, and \<^verbatim>\<open>add_bucket()\<close>. The counts of the connection pool, which
  redis-py keeps, are left out.
\<close>

section \<open>Reports\<close>

record redis_issue =
  di_message :: string
  di_family :: pystr
  di_bucket :: "bucket_id option"

definition unavailable_bucket_diagnostic ::
  "pystr \<Rightarrow> bucket_id \<Rightarrow> pyfloat \<Rightarrow> pyfloat option \<Rightarrow> pyfloat \<Rightarrow> string \<Rightarrow> bucket_diagnostic result" where
  "unavailable_bucket_diagnostic family k configured local_override as_of status =
     make_bucket_diagnostic family k None configured
       (case local_override of None \<Rightarrow> configured | Some v \<Rightarrow> v)
       (if local_override = None then OverrideNone else OverrideLimiter) status as_of"

text \<open>The readable case: the report, and whether the state was lost.\<close>

definition readable_bucket_diagnostic ::
  "codec \<Rightarrow> pystr \<Rightarrow> redis_bucket \<Rightarrow> pyval \<Rightarrow> pyval \<Rightarrow> pyval \<Rightarrow> pyval \<Rightarrow> pyfloat \<Rightarrow> pyfloat \<Rightarrow>
   bool \<times> bucket_diagnostic result" where
  "readable_bucket_diagnostic C family b l_raw c_raw o_raw h_raw now as_of =
     (case bind_res (validate_redis_get_result l_raw) (\<lambda>l. bind_res (validate_redis_get_result c_raw) (\<lambda>c.
           bind_res (validate_redis_get_result o_raw) (\<lambda>ov. bind_res (deserialize_override C (rb_default b) ov) (\<lambda>override.
           bind_res (if l = VNone \<and> c = VNone then redis_state_loss_suspected b now else Inr False) (\<lambda>lost.
             Inr (l, c, override, lost)))))) of
        Inl e \<Rightarrow> (False, Inl e)
      | Inr (l, c, override, total_loss) \<Rightarrow>
        let effective = (case override of None \<Rightarrow> rb_default b | Some v \<Rightarrow> v);
            source = (if override = None then OverrideNone else OverrideBackend);
            partial_missing = ((l = VNone) \<noteq> (c = VNone)) in
        if partial_missing \<or> total_loss
        then (True, make_bucket_diagnostic family (rb_id b) (Some (Fin 0)) (rb_default b) effective source
               (if partial_missing then ''partial_missing'' else ''state_loss'') as_of)
        else (False, bind_res (bind_res (validate_redis_get_result h_raw) (parse_expiry C)) (\<lambda>history.
               bind_res (calculate_with_expiry history override (rb_default b) (rb_per_seconds b) l c now) (\<lambda>res.
                 make_bucket_diagnostic family (rb_id b) (Some (amount res)) (rb_default b) effective source
                   (if is_fresh_start res then ''fresh_start'' else ''ok'') as_of))))"

definition lost_issue :: "pystr \<Rightarrow> redis_bucket \<Rightarrow> redis_issue" where
  "lost_issue family b = \<lparr>di_message = ''Redis bucket state was lost'', di_family = family, di_bucket = Some (rb_id b)\<rparr>"

definition unreadable_issue :: "pystr \<Rightarrow> redis_bucket \<Rightarrow> redis_issue" where
  "unreadable_issue family b =
     \<lparr>di_message = ''Redis bucket introspection failed'', di_family = family, di_bucket = Some (rb_id b)\<rparr>"

definition diagnostic_bucket_from_raw ::
  "codec \<Rightarrow> pystr \<Rightarrow> redis_bucket \<Rightarrow> pyval \<Rightarrow> pyval \<Rightarrow> pyval \<Rightarrow> pyval \<Rightarrow> pyfloat \<Rightarrow> pyfloat \<Rightarrow>
   bucket_diagnostic result \<times> redis_issue list" where
  "diagnostic_bucket_from_raw C family b l_raw c_raw o_raw h_raw now as_of =
     (case readable_bucket_diagnostic C family b l_raw c_raw o_raw h_raw now as_of of
        (lost, Inr d) \<Rightarrow> (Inr d, if lost then [lost_issue family b] else [])
      | (lost, Inl e) \<Rightarrow> (unavailable_bucket_diagnostic family (rb_id b) (rb_default b) None as_of ''corrupt'',
          (if lost then [lost_issue family b] else []) @ [unreadable_issue family b]))"

section \<open>Reading the server\<close>

text \<open>
  Bucket by bucket: the reports and issues so far, and the exception that stopped the loop. The
  history is a round trip of its own.
\<close>

fun introspect_loop ::
  "'s env \<Rightarrow> pystr \<Rightarrow> pyfloat \<Rightarrow> pyfloat \<Rightarrow> pyval list \<Rightarrow> nat list \<Rightarrow> bucket_diagnostic list \<Rightarrow> redis_issue list \<Rightarrow>
   ('s, bucket_diagnostic list \<times> redis_issue list \<times> redis_exn option) rop" where
  "introspect_loop E family now as_of rs [] ds issues = op_return (ds, issues, None)"
| "introspect_loop E family now as_of rs (i # is) ds issues =
     op_bind (bucket_of i) (\<lambda>b.
     op_bind (op_try (op_bind (redis_get E (history_key b)) (\<lambda>h. op_return (Inr h)))
        (\<lambda>e. if is_exception e then op_return (Inl e) else op_raise e)) (\<lambda>r. case r of
          Inl e \<Rightarrow> op_return (ds, issues, Some e)
        | Inr h \<Rightarrow> (case diagnostic_bucket_from_raw (en_codec E) family b (rs ! 0) (rs ! 1) (rs ! 2) h now as_of of
            (Inl e, found) \<Rightarrow> op_return (ds, issues @ found, Some (Plain e))
          | (Inr d, found) \<Rightarrow> introspect_loop E family now as_of (drop 3 rs) is (ds @ [d]) (issues @ found))))"

definition introspect_reads :: "redis_bucket list \<Rightarrow> command list" where
  "introspect_reads bs = concat (map (\<lambda>b. [Get (last_checked_key b), Get (capacity_key b), Get (override_key b)]) bs)"

definition introspect_buckets_read_only ::
  "'s env \<Rightarrow> pystr \<Rightarrow> nat list \<Rightarrow> pyfloat \<Rightarrow> ('s, bucket_diagnostic list \<times> redis_issue list \<times> redis_exn option) rop" where
  "introspect_buckets_read_only E family is as_of =
     (if is = [] then op_return ([], [], None)
      else op_try (op_bind (sync_server_time E) (\<lambda>now.
           op_bind (op_gets (\<lambda>w. map (rw_bucket w) is)) (\<lambda>bs.
           op_bind (execute_pipeline E (introspect_reads bs)) (\<lambda>rs.
             introspect_loop E family now as_of rs is [] []))))
         (\<lambda>e. if is_exception e then op_return ([], [], Some e) else op_raise e))"

record redis_introspection =
  ri_family :: pystr
  ri_as_of :: pyfloat
  ri_buckets :: "bucket_diagnostic list"
  ri_waits :: "waiter_diagnostic list"
  ri_bucket_count :: nat
  ri_issues :: "redis_issue list"

text \<open>When reading fails, every bucket is reported as unavailable.\<close>

definition redis_introspect :: "'s env \<Rightarrow> ('s, redis_introspection) rop" where
  "redis_introspect E =
     op_bind (monotonic_now E) (\<lambda>as_of.
     op_bind my_buckets (\<lambda>is.
     op_bind my_family (\<lambda>family.
     op_bind (introspect_buckets_read_only E family is as_of) (\<lambda>(read, issues, failed).
     op_bind (if failed = None then op_return read
        else op_bind (op_gets (\<lambda>w. map (rw_bucket w) is)) (\<lambda>bs. raising (for_each bs (\<lambda>b ds.
          bind_res (unavailable_bucket_diagnostic family (rb_id b) (rb_default b) None as_of ''unavailable'')
            (\<lambda>d. Inr (ds @ [d]))) []))) (\<lambda>reports.
     op_bind self_of (\<lambda>a.
       op_return \<lparr>ri_family = family, ri_as_of = as_of, ri_buckets = reports,
         ri_waits = map (\<lambda>w. waiter_diagnostic_from_state w as_of)
           (sort_key (\<lambda>w. (float_key (ws_started w), ws_waiter_id w)) (map snd (ra_waiters a))),
         ri_bucket_count = length is,
         ri_issues = issues @ (if failed = None then []
           else [\<lparr>di_message = ''Redis backend introspection failed'', di_family = family, di_bucket = None\<rparr>])\<rparr>))))))"

section \<open>Adding a bucket\<close>

text \<open>
  The bucket's prefix must be the backend's; whether both use the same connections is
  \<open>same_client\<close>.
\<close>

definition ensure_bucket_matches_backend :: "pystr \<Rightarrow> bool \<Rightarrow> redis_backend \<Rightarrow> unit result" where
  "ensure_bucket_matches_backend bucket_prefix same_client a =
     (if bucket_prefix \<noteq> ra_prefix a then Inl (ValueError ''SyncRedisBucket key_prefix must match'')
      else guard same_client (ValueError ''SyncRedisBucket redis client must be the same object''))"

definition add_redis_bucket :: "pystr \<Rightarrow> bool \<Rightarrow> nat \<Rightarrow> ('s, unit) rop" where
  "add_redis_bucket bucket_prefix same_client i =
     op_bind self_of (\<lambda>a.
     op_bind (raising (ensure_bucket_matches_backend bucket_prefix same_client a)) (\<lambda>_.
       op_modify (\<lambda>w. let bs = sort_refs (rw_bucket w) (ra_buckets (rw_self w) @ [i]) in
         w\<lparr>rw_self := (rw_self w)\<lparr>ra_buckets := bs, ra_metric_names := redis_metrics (rw_bucket w) bs\<rparr>\<rparr>)))"

section \<open>Introspection writes nothing\<close>

text \<open>While nobody else acts, the server is as it was.\<close>

definition alone :: "'s env \<Rightarrow> bool" where
  "alone E \<longleftrightarrow> (\<forall>n. en_delivery E n = Answered id)"

lemma pure_trip_alone: "alone E \<Longrightarrow> preserves (\<lambda>w. rw_server w = s) (round_trip E (\<lambda>s. (g s, s)))"
  by (simp add: preserves_def wp_def round_trip_def alone_def Let_def)

lemma gets_alone: "alone E \<Longrightarrow> list_all (\<lambda>c. \<exists>k. c = Get k) cs \<Longrightarrow> preserves (\<lambda>w. rw_server w = s) (execute_pipeline E cs)"
proof -
  assume a: "alone E" and gets: "list_all (\<lambda>c. \<exists>k. c = Get k) cs"
  have "snd (run_commands E cs t) = t" for t
    using gets by (induction cs arbitrary: t) (auto simp: split_beta)
  then have "run_commands E cs = (\<lambda>t. (fst (run_commands E cs t), t))" by (metis prod.collapse)
  then have "preserves (\<lambda>w. rw_server w = s) (round_trip E (run_commands E cs))"
    using pure_trip_alone [OF a, where g = "\<lambda>t. fst (run_commands E cs t)"] by metis
  then show ?thesis unfolding execute_pipeline_def by (intro preserves_intros)
qed

lemma introspect_laws [preserves_intros]:
  "preserves (\<lambda>w. rw_server w = s) (raising r)" "preserves (\<lambda>w. rw_server w = s) (monotonic_now E)"
  "preserves (\<lambda>w. rw_server w = s) self_of" "preserves (\<lambda>w. rw_server w = s) my_buckets"
  "preserves (\<lambda>w. rw_server w = s) my_family" "preserves (\<lambda>w. rw_server w = s) (bucket_of i)"
  unfolding my_family_def self_of_def my_buckets_def bucket_of_def monotonic_now_def raising_def
  by (intro preserves_intros preserves_case_sum)+

lemma sync_server_time_alone: "alone E \<Longrightarrow> preserves (\<lambda>w. rw_server w = s) (sync_server_time E)"
proof -
  assume a: "alone E"
  have "preserves (\<lambda>w. rw_server w = s) (\<lambda>w. case check_forward_jump t r (rw_clock w) of
         (Inl e, c) \<Rightarrow> (Inl (Plain e), w\<lparr>rw_clock := c\<rparr>)
       | (Inr _, c) \<Rightarrow> (Inr t, w\<lparr>rw_clock := c\<rparr>))" for t r
    by (auto simp: preserves_def wp_def split: prod.splits sum.splits)
  then show ?thesis
    unfolding sync_server_time_def Let_def by (intro pure_trip_alone [OF a] preserves_intros)
qed

lemma introspect_loop_alone:
  "alone E \<Longrightarrow> preserves (\<lambda>w. rw_server w = s) (introspect_loop E family now as_of rs is ds issues)"
proof (induction "is" arbitrary: rs ds issues)
  case Nil
  then show ?case by (simp add: preserves_simple)
next
  case (Cons i "is")
  have get: "preserves (\<lambda>w. rw_server w = s) (redis_get E k)" for k
    unfolding redis_get_def using Cons.prems by (rule pure_trip_alone)
  show ?case
    unfolding introspect_loop.simps by (intro get Cons preserves_intros)
qed

lemma redis_introspect_read_only:
  assumes "alone E" "redis_introspect E w = (r, w')" shows "rw_server w' = rw_server w"
proof -
  have reads: "list_all (\<lambda>c. \<exists>k. c = Get k) (introspect_reads bs)" for bs
    by (induction bs) (simp_all add: introspect_reads_def)
  have "preserves (\<lambda>u. rw_server u = rw_server w) (redis_introspect E)"
    unfolding redis_introspect_def introspect_buckets_read_only_def
    by (intro sync_server_time_alone [OF assms(1)] gets_alone [OF assms(1)] reads introspect_loop_alone [OF assms(1)]
        preserves_intros)
  from preserves_final [OF this _ assms(2)] show ?thesis by simp
qed

end
