(* ===== verification/RedisWaiting.thy ===== *)
theory RedisWaiting
  imports RedisLevels RedisDiagnostics
begin

text \<open>
  A caller that waits registers itself for diagnostics, and its entry is gone when the wait ends,
  with capacity, with a timeout, with an interruption or with any other failure.
\<close>

definition no_waiter :: "pystr \<Rightarrow> 's world \<Rightarrow> bool" where
  "no_waiter key w \<longleftrightarrow> map_of (ra_waiters (rw_self w)) key = None"

text \<open>A host whose other threads never register under this key.\<close>

locale redis_waiting = redis_host E p others sl s0
  for E :: "'s env" and p :: pystr and others :: "'s \<Rightarrow> 's \<Rightarrow> bool" and sl :: "pyfloat \<Rightarrow> 's world \<Rightarrow> 's world" and s0 :: 's +
  fixes key :: pystr
  assumes own_key: "no_waiter key w \<Longrightarrow> no_waiter key (sl d w)"
begin

abbreviation A :: "'s world \<Rightarrow> bool" where "A w \<equiv> J w \<and> no_waiter key w"

lemma lift_absent:
  assumes "\<And>v. redis_client E p others v \<Longrightarrow> preserves (moved E p others v) m" shows "preserves A m"
proof (rule preservesI)
  fix w assume w: "A w"
  then have "redis_client E p others w" by (intro client) (simp add: ran_def)
  then have "wp m (\<lambda>_. moved E p others w) (\<lambda>_. moved E p others w) w"
    by (intro preservesD assms moved_refl)
  moreover have "A t" if "moved E p others w t" for t
    using w moved_J that by (auto simp: no_waiter_def moved_def)
  ultimately show "wp m (\<lambda>_. A) (\<lambda>_. A) w" by (blast intro: wp_mono)
qed

lemma absent_laws [preserves_intros]:
  "preserves A (raising r)" "preserves A (monotonic_now E)" "preserves A self_of" "preserves A my_family"
  "preserves A (fire_event E ev)" "preserves A (check_and_consume E u t rid lifetime)"
  by (rule lift_absent, rule redis_client.plain_run redis_client.monotonic_now_run redis_client.self_of_run redis_client.my_family_run
      redis_client.fire_event_run redis_client.check_and_consume_run; assumption)+

lemma or_clock_absent [preserves_intros]: "preserves A (or_clock E x)"
  unfolding or_clock_def by (intro preserves_intros)

lemma sleep_absent [preserves_intros]: "preserves A (sleep_for sl d)"
  unfolding sleep_for_def
  by (rule preserves_modify) (use sleeps own_key in \<open>auto simp: ran_def fair_sleep_def intro: reaches_trans\<close>)

lemma or_give_back_absent [preserves_intros]:
  assumes "preserves A m" shows "preserves A (or_give_back E u is rid m)"
proof -
  have "preserves A (op_bind (acquired_key E rid) (\<lambda>mk. redis_refund_cancelled E u is mk))"
    by (rule lift_absent, rule preserves_after [OF redis_client.acquired_key_yields],
        assumption, rule redis_client.refund_cancelled_consumption_run, assumption, rule redis_client.keyed_marker)
  then show ?thesis
    unfolding or_give_back_def
    by (intro preserves_try [OF assms] preserves_bind [OF preserves_try [OF _ preserves_modify]])
       (auto simp: ran_def client_ok_def no_waiter_def preserves_simple)
qed

lemma turn_absent:
  "preserves A (attempt_turn E u rid lifetime deadline)" "preserves A (contended_wait E sl deadline)"
  "preserves A (finish_wait E u rid got st)"
  unfolding attempt_turn_def contended_wait_def finish_wait_def wait_time_of_def by (intro preserves_intros)+

lemma drop_makes_absent: "J w \<Longrightarrow> wp (drop_waiter_entry key) (\<lambda>_. A) (\<lambda>_. A) w"
  by (simp add: drop_waiter_entry_def wp_simps no_waiter_def map_of_dict_pop_cases ran_def client_ok_def)

text \<open>A turn keeps what it starts from: no entry, or one that is registered.\<close>

abbreviation known :: "wait_state \<Rightarrow> 's world \<Rightarrow> bool" where
  "known st w \<equiv> J w \<and> (wt_registered st \<or> no_waiter key w)"

lemma keeps_known: "preserves J m \<Longrightarrow> preserves A m \<Longrightarrow> preserves (known st) m"
  by (cases "wt_registered st") simp_all

lemma drop_known: "known st w \<Longrightarrow> wp (op_when (wt_registered st) (drop_waiter_entry key)) (\<lambda>_. A) (\<lambda>_. A) w"
  using drop_makes_absent by (cases "wt_registered st") (simp_all add: wp_simps)

lemma or_drop:
  assumes "preserves J m" "preserves A m" "known st w"
  shows "wp (op_try m (\<lambda>e. op_seq (op_when (wt_registered st) (drop_waiter_entry key)) (op_raise e))) (\<lambda>_. known st) (\<lambda>_. A) w"
  unfolding wp_try
  by (rule wp_mono [OF preservesD [OF keeps_known [OF assms(1,2)] assms(3)]])
     (simp, unfold wp_seq wp_raise, rule wp_mono [OF drop_known], simp_all)

lemma upsert_known:
  assumes "known st w"
  shows "wp (upsert_waiter E key rid u got deadline st) (\<lambda>_. J) (\<lambda>_. known st) w"
proof -
  have later: "wp (op_bind m f) (\<lambda>_. J) (\<lambda>_. known st) t"
    if "preserves J m" "preserves A m" "\<And>x t. known st t \<Longrightarrow> wp (f x) (\<lambda>_. J) (\<lambda>_. known st) t" "known st t"
    for m :: "('s, 'x) rop" and f :: "'x \<Rightarrow> ('s, 'y) rop" and t
    unfolding wp_bind by (rule wp_mono [OF preservesD [OF keeps_known [OF that(1,2)] that(4)]]) (use that(3) in auto)
  show ?thesis
    unfolding upsert_waiter_def
    by (intro later preserves_intros preserves_simple assms) (auto simp: wp_simps ran_def client_ok_def)
qed

lemma wait_loop_absent:
  "known st w \<Longrightarrow> wp (redis_wait_loop n E sl key rid u lifetime deadline st)
    (\<lambda>r t. r = None \<or> A t) (\<lambda>_. A) w"
proof (induction n arbitrary: st w)
  case 0
  then show ?case by (simp add: wp_simps)
next
  case (Suc n)
  have contended: "wp (op_bind (op_try (contended_wait E sl deadline)
      (\<lambda>e. op_seq (op_when (wt_registered st) (drop_waiter_entry key)) (op_raise e)))
      (\<lambda>_. redis_wait_loop n E sl key rid u lifetime deadline st)) (\<lambda>r t. r = None \<or> A t) (\<lambda>_. A) t" if "known st t" for t
    unfolding wp_bind
    by (rule wp_mono [OF or_drop [OF contended_wait_run turn_absent(2) that]]) (use Suc.IH in simp_all)
  have granted: "wp (op_bind (op_finally (finish_wait E u rid got st) (op_when (wt_registered st) (drop_waiter_entry key)))
      (\<lambda>t. op_return (Some t))) (\<lambda>r t. r = None \<or> A t) (\<lambda>_. A) t" if "known st t" for got t
    unfolding wp_bind wp_finally wp_return
    by (rule wp_mono [OF preservesD [OF keeps_known [OF finish_wait_run turn_absent(3)] that]])
       (rule wp_mono [OF drop_known], simp_all)+
  have slept: "wp (op_bind (op_try (unavailable E sl u deadline got st)
      (\<lambda>e. op_seq (drop_waiter_entry key) (op_raise e)))
      (\<lambda>st1. redis_wait_loop n E sl key rid u lifetime deadline st1)) (\<lambda>r t. r = None \<or> A t) (\<lambda>_. A) t" if "J t" for got t
  proof -
    have "wp (unavailable E sl u deadline got st) (\<lambda>st1 t. J t \<and> wt_registered st1) (\<lambda>_. J) t"
    proof (rule wp_mono [OF wp_conj [OF preservesD [OF unavailable_run that]]])
      show "wp (unavailable E sl u deadline got st) (\<lambda>st1 _. wt_registered st1) (\<lambda>_ _. True) t"
        unfolding unavailable_def Let_def
        by (intro wpI) (auto simp: op_bind_Inr op_return_def split: if_splits)
    qed simp_all
    then show ?thesis
      unfolding wp_bind wp_try
      by (rule wp_mono) (simp add: Suc.IH, unfold wp_seq wp_raise, rule drop_makes_absent)
  qed
  have not_yet: "wp (op_bind (op_try (upsert_waiter E key rid u got deadline st)
      (\<lambda>e. op_seq (op_when (wt_registered st) (drop_waiter_entry key)) (op_raise e)))
      (\<lambda>_. op_bind (op_try (unavailable E sl u deadline got st)
        (\<lambda>e. op_seq (drop_waiter_entry key) (op_raise e)))
        (\<lambda>st1. redis_wait_loop n E sl key rid u lifetime deadline st1))) (\<lambda>r t. r = None \<or> A t) (\<lambda>_. A) t"
    if "known st t" for got t
    unfolding wp_bind [of "op_try (upsert_waiter _ _ _ _ _ _ _) _"] wp_try [of "upsert_waiter _ _ _ _ _ _ _"]
    by (rule wp_mono [OF upsert_known [OF that]]) (use slept in simp, unfold wp_seq wp_raise, rule wp_mono [OF drop_known], simp_all)
  show ?case
    unfolding redis_wait_loop.simps wp_bind [of "op_try (attempt_turn _ _ _ _ _) _"]
    by (rule wp_mono [OF or_drop [OF attempt_turn_run turn_absent(1) Suc.prems]])
       (use contended granted not_yet in \<open>simp split: option.split\<close>, simp)
qed

lemma redis_wait_absent:
  assumes "A w" "key \<noteq> []"
  shows "wp (redis_wait_for_capacity n E sl raw timeout (Some key) lifetime) (\<lambda>r t. r = None \<or> A t) (\<lambda>_. A) w"
proof -
  have later: "wp (op_bind m f) Q (\<lambda>_. A) t" if "preserves A m" "\<And>x t. A t \<Longrightarrow> wp (f x) Q (\<lambda>_. A) t" "A t"
    for m :: "('s, 'x) rop" and f :: "'x \<Rightarrow> ('s, 'y) rop" and Q t
    unfolding wp_bind by (rule wp_mono [OF preservesD [OF that(1,3)]]) (use that(2) in auto)
  have loop: "wp (redis_wait_loop n E sl key (Some key) u lifetime deadline wait_began) (\<lambda>r t. r = None \<or> A t) (\<lambda>_. A) t"
    if "A t" for u deadline t
    using that by (intro wait_loop_absent) simp
  show ?thesis
    unfolding redis_wait_for_capacity_def waiter_key_def option.case if_not_P [OF assms(2)]
    by (intro later absent_laws preserves_simple loop assms(1))
qed

end

text \<open>
  C26. A wait for a reservation that ends, by returning or by raising, leaves no entry of a waiter
  under its id, whatever other threads, processes and the network do meanwhile.
\<close>

theorem redis_wait_drops_waiter:
  assumes "redis_server (en_server E)" "fair_env E p others" "fair_sleep E p others sl" "client_ok E p w"
    "\<And>d v. no_waiter rid v \<Longrightarrow> no_waiter rid (sl d v)" "no_waiter rid w" "rid \<noteq> []"
    "redis_wait_for_capacity n E sl raw timeout (Some rid) lifetime w = (r, w')" "r \<noteq> Inr None"
  shows "no_waiter rid w'"
proof -
  have waiting: "redis_waiting E p others sl rid"
    using assms(1-3,5) by (intro redis_waiting.intro redis_host.intro redis_host_axioms.intro redis_waiting_axioms.intro)
  have "wp (redis_wait_for_capacity n E sl raw timeout (Some rid) lifetime)
      (\<lambda>r t. r = None \<or> ran E p others (rw_server w) t \<and> no_waiter rid t)
      (\<lambda>_ t. ran E p others (rw_server w) t \<and> no_waiter rid t) w"
    using assms(4,6,7) by (intro redis_waiting.redis_wait_absent [OF waiting]) (simp_all add: ran_def)
  then show ?thesis using assms(8,9) by (cases r) (auto simp: wp_def)
qed

theorem redis_wait_drops_waiter_witness:
  "\<exists>e t. redis_wait_for_capacity 3 redis_demo_env (\<lambda>d w. w) [] (VBool True) (Some [114]) None redis_demo_world = (Inl e, t) \<and>
     no_waiter [114] t"
proof -
  obtain e t where t: "redis_wait_for_capacity 3 redis_demo_env (\<lambda>d w. w) [] (VBool True) (Some [114]) None redis_demo_world = (Inl e, t)"
    by (simp add: redis_wait_for_capacity_def self_of_def validate_backend_usage_def validate_usage_mapping_def
        validation_metric_names_def redis_metrics_def raising_def dict_keys_def redis_demo_world_def redis_demo_backend_def)
       (simp add: op_raise_def)
  have "no_waiter [114] redis_demo_world" by (simp add: no_waiter_def redis_demo_world_def redis_demo_backend_def)
  from redis_wait_drops_waiter [OF demo_redis demo_fair demo_sleep demo_client_ok _ this _ t] t show ?thesis by auto
qed

interpretation demo_waiting: redis_waiting redis_demo_env "ps ''app''" "idles (ps ''app'')" "\<lambda>d w. w" "[]" "[114]"
  by (intro redis_waiting.intro redis_waiting_axioms.intro demo_host.redis_host_axioms) simp

end
