(* ===== verification/RedisGrants.thy ===== *)
theory RedisGrants
  imports RedisLevels SqliteProgress
begin

text \<open>
  What a granted acquisition and a refund leave on the server: the levels of the buckets they
  name, the marker or the tombstone, and nothing else.
\<close>

section \<open>The writes of a script\<close>

lemma script_write_result:
  assumes "script_write E is now neg (k, a) w = (Inr x, w')"
  shows "w' = w \<and> find_redis_bucket (rw_bucket w) is k = Some (fst x) \<and>
    bw_last_checked_key (snd x) = last_checked_key (rw_bucket w (fst x)) \<and>
    bw_capacity_key (snd x) = capacity_key (rw_bucket w (fst x)) \<and>
    bw_time (snd x) = cd_float (en_codec E) now \<and>
    bw_capacity (snd x) = cd_float (en_codec E) (if neg then a else fmax (Fin 0) a)"
  using assms
  by (auto simp: script_write_def require_bucket_def bucket_of_def op_bind_Inr op_results op_raise_def Let_def
      split: option.splits)

lemma op_map_reads:
  assumes "op_map f xs w = (Inr ys, w')" "\<And>x y v v'. x \<in> set xs \<Longrightarrow> f x v = (Inr y, v') \<Longrightarrow> v' = v"
  shows "w' = w \<and> list_all2 (\<lambda>x y. f x w = (Inr y, w)) xs ys"
  using assms
proof (induction xs arbitrary: ys)
  case Nil
  then show ?case by (simp add: op_return_def)
next
  case (Cons x xs)
  from Cons.prems(1) obtain y v zs where y: "f x w = (Inr y, v)" and zs: "op_map f xs v = (Inr zs, w')" "ys = y # zs"
    by (auto simp: op_bind_Inr op_return_def)
  have v: "v = w" using Cons.prems(2) [OF _ y] by simp
  have "w' = w \<and> list_all2 (\<lambda>x y. f x w = (Inr y, w)) xs zs"
    by (rule Cons.IH) (use zs v Cons.prems(2) in auto)
  then show ?case using y v zs(2) by simp
qed

text \<open>One write per level, to the keys of its bucket.\<close>

lemma script_writes_map:
  assumes "script_writes E caps is now neg w = (Inr ws, w')"
  obtains iws where "ws = map snd iws" "list_all2 (\<lambda>ka y. script_write E is now neg ka w = (Inr y, w)) caps iws"
proof -
  from assms obtain iws v where m: "op_map (script_write E is now neg) caps w = (Inr iws, v)" and ws: "ws = map snd iws"
    by (auto simp: script_writes_def op_bind_Inr op_results)
  have pure: "v' = u" if "script_write E is now neg x u = (Inr y, v')" for x y u v'
    using that script_write_result by (cases x) blast
  have "list_all2 (\<lambda>ka y. script_write E is now neg ka w = (Inr y, w)) caps iws"
    using op_map_reads [OF m] pure by blast
  then show thesis by (rule that [OF ws])
qed

lemma script_writes_result:
  assumes "script_writes E caps is now neg w = (Inr ws, w')" "(k, a) \<in> set caps"
  obtains i x where "find_redis_bucket (rw_bucket w) is k = Some i" "x \<in> set ws"
    "bw_last_checked_key x = last_checked_key (rw_bucket w i)" "bw_time x = cd_float (en_codec E) now"
    "bw_capacity_key x = capacity_key (rw_bucket w i)"
    "bw_capacity x = cd_float (en_codec E) (if neg then a else fmax (Fin 0) a)"
proof -
  from assms(1) obtain iws where m: "ws = map snd iws"
    "list_all2 (\<lambda>ka y. script_write E is now neg ka w = (Inr y, w)) caps iws"
    by (rule script_writes_map)
  from assms(2) obtain n where n: "n < length caps" "caps ! n = (k, a)" by (auto simp: in_set_conv_nth)
  have w: "script_write E is now neg (k, a) w = (Inr (iws ! n), w)" and len: "n < length iws"
    using m(2) n list_all2_nthD [OF m(2) n(1)] by (simp_all add: list_all2_lengthD)
  have "snd (iws ! n) \<in> set ws" using m(1) len by simp
  then show thesis using that [of "fst (iws ! n)" "snd (iws ! n)"] script_write_result [OF w] by auto
qed

lemma script_writes_keys:
  assumes "script_writes E caps is now neg w = (Inr ws, w')" "j \<in> set (write_keys ws)"
  obtains k a i where "(k, a) \<in> set caps" "find_redis_bucket (rw_bucket w) is k = Some i"
    "j = last_checked_key (rw_bucket w i) \<or> j = capacity_key (rw_bucket w i)"
proof -
  from assms(1) obtain iws where m: "ws = map snd iws"
    "list_all2 (\<lambda>ka y. script_write E is now neg ka w = (Inr y, w)) caps iws"
    by (rule script_writes_map)
  from assms(2) m(1) obtain y where y: "y \<in> set iws" "j = bw_last_checked_key (snd y) \<or> j = bw_capacity_key (snd y)"
    by (auto simp: write_keys_def)
  then obtain n where n: "n < length iws" "iws ! n = y" by (auto simp: in_set_conv_nth)
  have len: "n < length caps" using m(2) n(1) by (simp add: list_all2_lengthD)
  obtain k a where ka: "caps ! n = (k, a)" by (cases "caps ! n")
  have "script_write E is now neg (k, a) w = (Inr y, w)"
    using list_all2_nthD [OF m(2) len] n(2) ka by simp
  from script_write_result [OF this] y(2) show thesis
    using that [of k a "fst y"] nth_mem [OF len] ka by auto
qed

section \<open>Grants\<close>

lemma available_enough: "available u caps \<Longrightarrow> map_of u (fst k) = Some a \<Longrightarrow> (k, c) \<in> set caps \<Longrightarrow> \<not> flt c a"
  by (force simp: available_def list_all_iff dest: map_of_SomeD)

text \<open>
  A granted acquisition takes exactly its usage from every bucket of the metrics it names, and
  none of them goes below zero; every other bucket it read keeps its level, except that a debt
  there is written as zero. It sets the marker and the time of the check, and changes no other key.
\<close>

theorem redis_grant_takes_usage:
  assumes "redis_server R" "available u pre" "script_writes E (consumed_levels u pre) is now False w = (Inr ws, w')"
    "acquire_script R mk tk px marker ws s = (Reply ''ok'', t)" "mk \<notin> set (write_keys ws)" "distinct (write_keys ws)"
    "(k, c) \<in> set pre" "isfinite c" "is_dbl c"
    "\<And>a. map_of u (fst k) = Some a \<Longrightarrow> fle (Fin 0) a"
  shows "\<exists>i. find_redis_bucket (rw_bucket w) is k = Some i \<and>
    sv_get R (last_checked_key (rw_bucket w i)) t = Some (cd_float (en_codec E) now) \<and>
    (case map_of u (fst k) of
       None \<Rightarrow> sv_get R (capacity_key (rw_bucket w i)) t = Some (cd_float (en_codec E) (fmax (Fin 0) c))
     | Some a \<Rightarrow> sv_get R (capacity_key (rw_bucket w i)) t = Some (cd_float (en_codec E) (fsub c a)) \<and> fle (Fin 0) (fsub c a)) \<and>
    sv_get R mk s = None \<and> sv_get R mk t = Some marker \<and> sv_get R tk s = None \<and>
    (\<forall>j. j = mk \<or> j \<in> set (write_keys ws) \<or> same_key R j s t)"
proof -
  let ?c = "case map_of u (fst k) of None \<Rightarrow> c | Some a \<Rightarrow> fsub c a"
  have "(k, ?c) \<in> set (consumed_levels u pre)"
    using assms(7) by (force simp: consumed_levels_def)
  from script_writes_result [OF assms(3) this] obtain i x where i: "find_redis_bucket (rw_bucket w) is k = Some i" "x \<in> set ws"
    "bw_last_checked_key x = last_checked_key (rw_bucket w i)" "bw_time x = cd_float (en_codec E) now"
    "bw_capacity_key x = capacity_key (rw_bucket w i)" "bw_capacity x = cd_float (en_codec E) (fmax (Fin 0) ?c)"
    by simp metis
  have level: "fmax (Fin 0) (fsub c a) = fsub c a \<and> fle (Fin 0) (fsub c a)" if a: "map_of u (fst k) = Some a" for a
  proof -
    have p: "fle (Fin 0) a" using assms(10) a by blast
    have "\<not> flt c a" using available_enough [OF assms(2) a assms(7)] .
    then have "fle a c" using p assms(8) by (cases a; cases c) auto
    then have "fle (Fin 0) (fsub c a)" using taken_ok [OF p _ assms(8,9)] by blast
    then show ?thesis by (cases "fsub c a") (auto simp: fmax_def)
  qed
  have "sv_get R mk s = None \<and> sv_get R mk t = Some marker \<and> sv_get R tk s = None \<and>
      (\<forall>j. j = mk \<or> j \<in> set (write_keys ws) \<or> same_key R j s t) \<and>
      sv_get R (bw_last_checked_key x) t = Some (bw_time x) \<and> sv_get R (bw_capacity_key x) t = Some (bw_capacity x)"
  proof (rule redis_server.acquire_script_cases [OF assms(1,4,5)], goal_cases)
    case 1
    then show ?case using 1(8) [OF assms(6) i(2)] by blast
  qed simp_all
  then show ?thesis using i level by (auto split: option.split)
qed

section \<open>Refunds\<close>

lemma refund_amounts_of_metric:
  assumes "refund_amounts_of reserved actual = Inr amounts" "distinct (dict_keys reserved)"
    "map_of reserved m = Some x" "map_of actual m = Some y" "py_float x = Inr a" "py_float y = Inr b"
  shows "map_of amounts m = Some (fsub a b)"
proof -
  let ?body = "\<lambda>(m, r) acc.
     case map_of actual m of
       None \<Rightarrow> Inl KeyError
     | Some a \<Rightarrow> bind_res (py_float r) (\<lambda>x. bind_res (py_float a) (\<lambda>y. Inr (dict_set m (fsub x y) acc)))"
  have main: "for_each rs ?body acc = Inr out \<Longrightarrow> distinct (map fst rs) \<Longrightarrow>
      map_of out m = (case map_of rs m of None \<Rightarrow> map_of acc m | Some x' \<Rightarrow>
        (case py_float x' of Inr a' \<Rightarrow> Some (fsub a' b) | Inl _ \<Rightarrow> None))" for rs acc out
  proof (induction rs arbitrary: acc)
    case (Cons mr rs)
    obtain n r where mr: "mr = (n, r)" by (cases mr)
    from Cons.prems(1) obtain acc' where s: "?body (n, r) acc = Inr acc'" "for_each rs ?body acc' = Inr out"
      by (auto simp: mr bind_res_Inr_iff simp del: split_paired_Ex)
    from s(1) obtain v f g where v: "map_of actual n = Some v" "py_float r = Inr f" "py_float v = Inr g"
      "acc' = dict_set n (fsub f g) acc"
      by (auto simp: bind_res_Inr_iff split: option.splits)
    have "n \<notin> fst ` set rs" "distinct (map fst rs)" using Cons.prems(2) by (simp_all add: mr)
    then have out: "map_of out m = (case map_of rs m of None \<Rightarrow> map_of acc' m | Some x' \<Rightarrow>
        (case py_float x' of Inr a' \<Rightarrow> Some (fsub a' b) | Inl _ \<Rightarrow> None))" using Cons.IH [OF s(2)] by simp
    show ?case
    proof (cases "n = m")
      case True
      then have "map_of rs m = None" using \<open>n \<notin> fst ` set rs\<close> by (simp add: map_of_eq_None_iff)
      then show ?thesis using out True v assms(4,6) by (simp add: mr)
    next
      case False
      then have "map_of acc' m = map_of acc m" using v(4) by simp
      then show ?thesis using False out by (simp add: mr split: option.split)
    qed
  qed simp
  show ?thesis
    using main [OF assms(1) [unfolded refund_amounts_of_def]] assms(2,3,5) by (simp add: dict_keys_def)
qed

text \<open>
  C38. A refund that the server commits writes to the bucket of every metric and window in its
  scope the level it read plus what was reserved minus what was used (at most a whole maximum
  of overuse), cut to between minus and plus the maximum, together with the time; it replaces the
  marker by the tombstone, and touches no key but those and the two of each bucket in its scope.
\<close>

theorem redis_refund_writes:
  assumes "redis_server R" "refund_amounts_of reserved actual = Inr amounts" "distinct (dict_keys reserved)"
    "refunded_levels (rw_bucket w) is ids amounts pre = Inr post"
    "script_writes E (filter (\<lambda>(k, c). k \<in> ids) post) is now True w = (Inr ws, w')"
    "refund_script R mk tk marker ttl token ws s = (Reply ''ok'', t)"
    "mk \<noteq> tk" "mk \<notin> set (write_keys ws)" "tk \<notin> set (write_keys ws)" "distinct (write_keys ws)"
    "(k, c) \<in> set pre" "k \<in> ids" "find_redis_bucket (rw_bucket w) is k = Some i"
    "map_of reserved (fst k) = Some x" "map_of actual (fst k) = Some y" "py_float x = Inr a" "py_float y = Inr b"
    "max_capacity (rw_bucket w i) = Fin m" "0 < m"
    "level = fmax (Fin (- m)) (fmin (fadd c (fmax (fsub a b) (Fin (- m)))) (Fin m))"
  shows "sv_get R (capacity_key (rw_bucket w i)) t = Some (cd_float (en_codec E) level) \<and>
    sv_get R (last_checked_key (rw_bucket w i)) t = Some (cd_float (en_codec E) now) \<and>
    fle (Fin (- m)) level \<and> fle level (Fin m) \<and>
    sv_get R mk s = Some marker \<and> sv_get R mk t = None \<and> sv_get R tk t = Some token \<and>
    (\<forall>j. j = mk \<or> j = tk \<or> same_key R j s t \<or> (\<exists>k' \<in> ids. \<exists>i'. find_redis_bucket (rw_bucket w) is k' = Some i' \<and>
       (j = last_checked_key (rw_bucket w i') \<or> j = capacity_key (rw_bucket w i'))))"
proof -
  have am: "map_of amounts (fst k) = Some (fsub a b)"
    using assms(2,3,14-17) by (rule refund_amounts_of_metric)
  have post: "post = map (\<lambda>(k, c). (k, new_level (rw_bucket w) is ids amounts k c)) pre"
    using assms(4) by (rule refunded_levels_map)
  have lv: "new_level (rw_bucket w) is ids amounts k c = level"
    using assms(12,13,18,20) am by (simp add: new_level_def refunded_level_def)
  have "(k, level) \<in> set (filter (\<lambda>(k, c). k \<in> ids) post)"
    using assms(11,12) lv by (force simp: post)
  from script_writes_result [OF assms(5) this] obtain i1 v where v: "find_redis_bucket (rw_bucket w) is k = Some i1"
    "v \<in> set ws" "bw_last_checked_key v = last_checked_key (rw_bucket w i1)" "bw_time v = cd_float (en_codec E) now"
    "bw_capacity_key v = capacity_key (rw_bucket w i1)" "bw_capacity v = cd_float (en_codec E) level"
    by auto
  have keys: "\<exists>k' \<in> ids. \<exists>i'. find_redis_bucket (rw_bucket w) is k' = Some i' \<and>
       (j = last_checked_key (rw_bucket w i') \<or> j = capacity_key (rw_bucket w i'))" if kws: "j \<in> set (write_keys ws)" for j
  proof -
    obtain k' a' i' where k': "(k', a') \<in> set (filter (\<lambda>(k, c). k \<in> ids) post)"
      "find_redis_bucket (rw_bucket w) is k' = Some i'"
      "j = last_checked_key (rw_bucket w i') \<or> j = capacity_key (rw_bucket w i')"
      by (rule script_writes_keys [OF assms(5) kws])
    from k'(1) have "k' \<in> ids" by simp
    then show ?thesis using k'(2,3) by blast
  qed
  have committed: "sv_get R mk s = Some marker \<and> sv_get R mk t = None \<and> sv_get R tk t = Some token \<and>
      (\<forall>j. j = mk \<or> j = tk \<or> j \<in> set (write_keys ws) \<or> same_key R j s t) \<and>
      sv_get R (bw_last_checked_key v) t = Some (bw_time v) \<and> sv_get R (bw_capacity_key v) t = Some (bw_capacity v)"
  proof (rule redis_server.refund_script_cases [OF assms(1,6-9)], goal_cases)
    case 1
    then show ?case using 1(9) [OF assms(10) v(2)] by blast
  qed simp_all
  have bounds: "fle (Fin (- m)) level \<and> fle level (Fin m)"
    using refunded_level_range [OF assms(19), of c "fsub a b"] assms(20) by (simp add: refunded_level_def)
  have "i1 = i" using v(1) assms(13) by simp
  then have "sv_get R (capacity_key (rw_bucket w i)) t = Some (cd_float (en_codec E) level)"
    "sv_get R (last_checked_key (rw_bucket w i)) t = Some (cd_float (en_codec E) now)"
    using committed v(3-6) by simp_all
  moreover have "\<forall>j. j = mk \<or> j = tk \<or> same_key R j s t \<or> (\<exists>k' \<in> ids. \<exists>i'. find_redis_bucket (rw_bucket w) is k' = Some i' \<and>
       (j = last_checked_key (rw_bucket w i') \<or> j = capacity_key (rw_bucket w i')))"
  proof
    fix j show "j = mk \<or> j = tk \<or> same_key R j s t \<or> (\<exists>k' \<in> ids. \<exists>i'. find_redis_bucket (rw_bucket w) is k' = Some i' \<and>
       (j = last_checked_key (rw_bucket w i') \<or> j = capacity_key (rw_bucket w i')))"
      using keys [of j] committed by blast
  qed
  ultimately show ?thesis using committed bounds by (intro conjI) simp_all
qed

text \<open>A refund of three units to a bucket at two, on the demo client.\<close>

definition demo_write :: "bytes \<Rightarrow> bucket_write" where
  "demo_write c = \<lparr>bw_last_checked_key = last_checked_key redis_demo_bucket, bw_capacity_key = capacity_key redis_demo_bucket,
     bw_time = [48], bw_capacity = c, bw_ttl = 3600\<rparr>"

lemma demo_history: "read_override_expiry redis_demo_env 0 redis_demo_world = (Inr None, redis_demo_world\<lparr>rw_tick := 1\<rparr>)"
  by (simp add: read_override_expiry_def bucket_of_def redis_get_def op_bind_def [of "round_trip _ _"]
      reference_server_def stored_reply_def validate_redis_get_result_def parse_expiry_def)
     (simp add: op_return_def redis_demo_world_def)

lemma demo_script_writes:
  "script_writes redis_demo_env [(([109], 60), Fin 5)] [0] (Fin 100) neg redis_demo_world =
    (Inr [demo_write [53]], redis_demo_world\<lparr>rw_tick := 1\<rparr>)"
proof -
  have find: "find_redis_bucket (\<lambda>i. redis_demo_bucket) [0] ([109], 60) = Some 0"
    by (simp add: find_redis_bucket_def rb_id_def)
  have lv: "(if neg then Fin 5 else fmax (Fin 0) (Fin 5)) = Fin 5" by (simp add: fmax_def)
  have ttl: "capacity_ttl redis_demo_bucket (Fin 5) None = Inr 3600"
    using debt_ttl_nonneg_capacity [of "Fin 5"] by (simp add: capacity_ttl_def redis_demo_bucket_def)
  have w: "script_write redis_demo_env [0] (Fin 100) neg (([109], 60), Fin 5) redis_demo_world =
    (Inr (0, demo_write [53]), redis_demo_world)"
    by (simp add: script_write_def require_bucket_def bucket_of_def find guard_def Let_def op_assoc lv ttl del: if_split)
       (simp add: op_return_def demo_write_def redis_demo_codec_def)
  have m: "op_map (script_write redis_demo_env [0] (Fin 100) neg) [(([109], 60), Fin 5)] redis_demo_world =
    (Inr [(0, demo_write [53])], redis_demo_world)"
    by (simp add: op_bind_def [of "script_write _ _ _ _ _"] w) (simp add: op_return_def)
  show ?thesis
    by (simp only: script_writes_def op_bind_def [of "op_map _ _"] m)
       (simp add: retain_capacity_history_def op_bind_def demo_history op_return_def)
qed

lemma demo_write_keys:
  "distinct (write_keys [demo_write c])" "[1] \<notin> set (write_keys [demo_write c])" "[2] \<notin> set (write_keys [demo_write c])"
  by (simp_all add: write_keys_def demo_write_def last_checked_key_def capacity_key_def redis_demo_bucket_def ps_def)

theorem redis_refund_writes_witness:
  "\<exists>t. refund_script (reference_server []) [1] [2] [8] 60 [5] [demo_write [53]] [([1], [8], None)] = (Reply ''ok'', t) \<and>
     sv_get (reference_server []) (capacity_key redis_demo_bucket) t = Some [53] \<and>
     sv_get (reference_server []) [1] t = None \<and> sv_get (reference_server []) [2] t = Some [5]"
proof -
  have am: "refund_amounts_of [([109], VFloat (Fin 8))] [([109], VFloat (Fin 5))] = Inr [([109], Fin 3)]"
    by (simp add: refund_amounts_of_def fsub_def)
  have lv: "refunded_levels (rw_bucket redis_demo_world) [0] {([109], 60)} [([109], Fin 3)] [(([109], 60), Fin 2)] =
      Inr [(([109], 60), Fin 5)]"
    by (simp add: refunded_levels_def find_redis_bucket_def rb_id_def max_capacity_def refunded_level_def)
  have ws: "script_writes redis_demo_env (filter (\<lambda>(k, c). k \<in> {([109], 60)}) [(([109], 60), Fin 5)]) [0] (Fin 100) True
      redis_demo_world = (Inr [demo_write [53]], redis_demo_world\<lparr>rw_tick := 1\<rparr>)"
    by (simp add: demo_script_writes)
  obtain t where t: "refund_script (reference_server []) [1] [2] [8] 60 [5] [demo_write [53]] [([1], [8], None)] = (Reply ''ok'', t)"
    using demo_write_keys [of "[53]"]
    by (simp add: refund_script_def reference_server_def set_nx_def dict_pop_def pcall_def demo_write_def write_keys_def)
  have "sv_get (reference_server []) (capacity_key (rw_bucket redis_demo_world 0)) t = Some (cd_float (en_codec redis_demo_env) (Fin 5)) \<and>
    sv_get (reference_server []) (last_checked_key (rw_bucket redis_demo_world 0)) t = Some (cd_float (en_codec redis_demo_env) (Fin 100)) \<and>
    fle (Fin (- 60)) (Fin 5) \<and> fle (Fin 5) (Fin 60) \<and>
    sv_get (reference_server []) [1] [([1], [8], None)] = Some [8] \<and> sv_get (reference_server []) [1] t = None \<and>
    sv_get (reference_server []) [2] t = Some [5] \<and>
    (\<forall>j. j = [1] \<or> j = [2] \<or> same_key (reference_server []) j [([1], [8], None)] t \<or>
      (\<exists>k' \<in> {([109], 60)}. \<exists>i'. find_redis_bucket (rw_bucket redis_demo_world) [0] k' = Some i' \<and>
       (j = last_checked_key (rw_bucket redis_demo_world i') \<or> j = capacity_key (rw_bucket redis_demo_world i'))))"
    by (rule redis_refund_writes [OF reference.redis_server_axioms am _ lv ws t, where k = "([109], 60)" and c = "Fin 2" and
          x = "VFloat (Fin 8)" and y = "VFloat (Fin 5)" and a = "Fin 8" and b = "Fin 5"])
       (use demo_write_keys in \<open>simp_all add: dict_keys_def find_redis_bucket_def rb_id_def max_capacity_def fsub_def\<close>)
  with t show ?thesis by (auto simp: redis_demo_codec_def)
qed

text \<open>A grant of one unit of six.\<close>

theorem redis_grant_takes_usage_witness:
  "\<exists>t. acquire_script (reference_server []) [1] [2] 60 [8] [demo_write [53]] [] = (Reply ''ok'', t) \<and>
     sv_get (reference_server []) (capacity_key redis_demo_bucket) t = Some [53]"
proof -
  have six: "consumed_levels [([109], Fin 1)] [(([109], 60), Fin 6)] = [(([109], 60), Fin 5)]"
    by (simp add: consumed_levels_def fsub_def)
  have ws: "script_writes redis_demo_env (consumed_levels [([109], Fin 1)] [(([109], 60), Fin 6)]) [0] (Fin 100) False
      redis_demo_world = (Inr [demo_write [53]], redis_demo_world\<lparr>rw_tick := 1\<rparr>)"
    by (simp add: six demo_script_writes)
  obtain t where t: "acquire_script (reference_server []) [1] [2] 60 [8] [demo_write [53]] [] = (Reply ''ok'', t)"
    using demo_write_keys [of "[53]"]
    by (simp add: acquire_script_def reference_server_def set_nx_def pcall_def demo_write_def write_keys_def)
  have "sv_get (reference_server []) (capacity_key redis_demo_bucket) t = Some [53]"
    using redis_grant_takes_usage [OF reference.redis_server_axioms _ ws t, of "([109], 60)" "Fin 6"] demo_write_keys [of "[53]"]
    by (simp add: available_def fsub_def redis_demo_codec_def find_redis_bucket_def rb_id_def is_dbl_int [of 6, simplified])
  with t show ?thesis by blast
qed

end
