(* ===== verification/Spec2Isabelle.thy ===== *)
theory Spec2Isabelle
  imports MemoryCorrect TtlCorrect SqliteCorrect SqliteBackendCorrect LimiterCorrect RedisWaiting RedisGrants
begin

text \<open>
  token-throttle: a multi-resource rate limiter for LLM clients, modelled from its Python
  sources under \<^verbatim>\<open>src/token_throttle/\<close>.

  The program. A limiter turns the usage of a call (tokens, requests) into a reservation
  against token buckets, one bucket per metric and window; the caller later refunds what it
  did not use. Where the buckets live is the business of a backend: in process memory, in a
  SQLite file shared by processes, or in Redis; which reservations exist, which configuration
  a model has and what has been refunded is the business of the limiter. The properties that
  matter: a grant takes exactly its usage from every bucket or nothing, a reservation is
  paid back at most once whatever is retried, expires or races, debt and overrides survive
  as long as they must, a call that fails changes nothing or hands the caller what is left to
  do, and the limiter's books agree with its backends.

  Reading order.

  Shared vocabulary. \<^verbatim>\<open>Prelude\<close> has the exceptions of the code as the datatype \<open>exn\<close>, fallible
  functions as \<open>exn + 'a\<close> (\<open>result\<close>), stateful methods as functions from a state to a result
  and the state reached (\<open>op\<close>; an exception keeps the mutations made before it), and
  insertion-ordered dictionaries as association lists. \<^verbatim>\<open>PyFloat\<close> defines binary64 arithmetic
  with round-half-even on exact rationals, infinities and NaN included, so every rounding of
  the code is computed; its lemmas are monotonicity, exactness and error bounds of rounding.
  \<^verbatim>\<open>PyValue\<close> has dynamically typed values, as far as validators look at them.

  Values and validation. \<^verbatim>\<open>Capacity\<close> (\<^verbatim>\<open>_capacity.py\<close>): the refill arithmetic every backend
  uses. \<^verbatim>\<open>Models\<close> (\<^verbatim>\<open>_interfaces/_models.py\<close>): quotas, quota sets, usage and reservations.
  \<^verbatim>\<open>Validation\<close> (\<^verbatim>\<open>_validation.py\<close>): the argument checks. \<^verbatim>\<open>CoreCorrect\<close> has their properties:
  bounds and monotonicity of refilling, the bucket id round trip, idempotence of segment
  validation, which exceptions escape.

  The in-process backend. \<^verbatim>\<open>MemoryBucket\<close> (\<^verbatim>\<open>_memory/_bucket.py\<close>) and \<^verbatim>\<open>MemoryBackend\<close>
  (\<^verbatim>\<open>_memory/_sync_backend.py\<close>): bucket objects in an explicit store, because waiters, registry
  and bucket list share them; each critical section of the backend's lock is one operation,
  and \<open>wait_for_capacity\<close> is a recursion over the turns it observes (clock readings and what
  other threads did meanwhile), \<open>None\<close> meaning that it is still waiting when the observations
  end. \<^verbatim>\<open>MemoryLaws\<close> proves that every section keeps the backend well-formed and what it
  writes; \<^verbatim>\<open>MemoryTraces\<close> makes the sections the steps of a transition system, in which a grant
  whose callbacks still run is a token that is delivered or cancelled once;
  \<^verbatim>\<open>MemoryCorrect\<close> states the properties of the public operations.

  The ledger. \<^verbatim>\<open>Ledger\<close> is the contract about reservation ids as locales over a labelled step
  relation: \<open>lossy_ledger\<close> (an id is ended at most as often as it was acquired, though it may
  be forgotten), \<open>closing_ledger\<close> (a refunded id stays closed) and \<open>reservation_ledger\<close> (the
  balance is exact). The in-process backend is a \<open>reservation_ledger\<close>, the SQLite engine a
  \<open>closing_ledger\<close>, and a Redis deployment a \<open>lossy_ledger\<close>, closing while tombstones last; the
  trace properties of all three are the locales' lemmas.

  The SQLite backend. \<^verbatim>\<open>DebtTtl\<close> (\<^verbatim>\<open>_debt_ttl.py\<close>) and \<^verbatim>\<open>SqliteTtl\<close> (\<^verbatim>\<open>_sqlite/_ttl.py\<close>): how
  long rows are kept; \<^verbatim>\<open>TtlCorrect\<close> shows that debt outlives its repayment and which
  reservation lifetimes the settings admit. \<^verbatim>\<open>SqliteEngine\<close> (\<^verbatim>\<open>_sqlite/_engine.py\<close>): tables as
  dictionaries from primary keys to rows, an engine as a record, a method as an operation on
  both. \<open>transaction\<close> takes a record of what the environment did (clock readings, whether
  the lock was obtained, whether \<^verbatim>\<open>BEGIN\<close> and \<^verbatim>\<open>COMMIT\<close> fail; a statement in between does not
  fail by itself); the order in which a scan with
  \<^verbatim>\<open>LIMIT\<close> visits rows is a parameter. \<^verbatim>\<open>SqliteLaws\<close> defines the read-only view of a bucket
  row (\<open>view_state\<close>) as the reference for the loading code, which writes while it reads, and
  proves the two equal; it also has the frame of every statement. \<^verbatim>\<open>SqliteBooks\<close> shows that
  pruning is invisible and that the checks of a reservation id depend on live rows only.
  \<^verbatim>\<open>SqliteOps\<close> describes what each transaction can have done when it returns, and proves
  through the locales \<open>kept_relation\<close> and \<open>kept_call\<close> (interpreted three times) that every call
  keeps an invariant that its statements keep. \<^verbatim>\<open>SqliteTraces\<close> interleaves the transactions of
  any number of engines on one database; \<^verbatim>\<open>SqliteRegistry\<close> is the abstract specification of
  the reservation tables and the simulation; \<^verbatim>\<open>SqliteProgress\<close> proves that nothing but the
  checks can refuse an acquisition. \<^verbatim>\<open>SqliteDemo\<close> evaluates a concrete engine for the
  witnesses, and \<^verbatim>\<open>SqliteCorrect\<close> states the properties.

  Around the engine, \<^verbatim>\<open>SqliteBackend\<close> and \<^verbatim>\<open>SqliteWait\<close> (\<^verbatim>\<open>_sqlite/_sync_backend.py\<close>): the
  builder, the wait loop with its callbacks, clean-ups and diagnostic waiters, refunds by
  identity, limits and reconfiguration; \<^verbatim>\<open>SqliteBackendCorrect\<close> states its properties.
  \<^verbatim>\<open>Diagnostics\<close> (\<^verbatim>\<open>_diagnostic.py\<close>): the reports of buckets and waiters.

  The Redis backend (\<^verbatim>\<open>_limiter_backends/_redis\<close>). The server is a parameter: \<^verbatim>\<open>RedisServer\<close> has
  its commands as a record and their documented behaviour as the locales \<open>redis_server\<close> and
  \<open>redis_server_by_key\<close>, interpreted on a reference server of keys with values and lifetimes that
  may refuse writes; what rests on a roll-back (\<open>redis_scripts_all_or_nothing\<close>, \<open>redis_refund_final\<close>,
  \<open>redis_refund_closes\<close>) assumes a server whose refusals depend on the key. \<^verbatim>\<open>RedisScripts\<close> has the Lua scripts, each one atomic step of the server:
  \<^verbatim>\<open>_ACQUIRE_MARKER_SET_SCRIPT\<close> and \<^verbatim>\<open>_REFUND_WITH_MARKER_SCRIPT\<close> (\<^verbatim>\<open>_sync_backend.py\<close>) with their
  roll-back, \<^verbatim>\<open>REFRESH_STATE_TTL_SCRIPT\<close> (\<^verbatim>\<open>_retention.py\<close>), \<^verbatim>\<open>WRITE_OVERRIDE\<close> and \<^verbatim>\<open>RETAIN_EXPIRY\<close>
  (\<^verbatim>\<open>_override_expiry.py\<close>); \<^verbatim>\<open>RedisScriptLaws\<close> proves what each can have changed. \<^verbatim>\<open>RedisKeys\<close>
  (\<^verbatim>\<open>_keys.py\<close>, \<^verbatim>\<open>_ttl.py\<close>): keys, markers and lifetimes. \<^verbatim>\<open>RedisTraces\<close> interleaves the scripts,
  writes and expiries of a deployment and interprets the ledger on it. \<^verbatim>\<open>RedisExpiry\<close>: replies and
  the accrual over the end of an override. \<^verbatim>\<open>RedisClient\<close>: a round trip, whose delivery may be
  answered, resent, unanswered after it took effect, or unsent, while others change the server
  before it; pipelines; and \<^verbatim>\<open>_server_time.py\<close>. \<^verbatim>\<open>RedisBucket\<close> (\<^verbatim>\<open>_sync_bucket.py\<close>) and
  \<^verbatim>\<open>RedisStore\<close>, \<^verbatim>\<open>RedisBackend\<close>, \<^verbatim>\<open>RedisOps\<close>, \<^verbatim>\<open>RedisDiagnostics\<close> (\<^verbatim>\<open>_sync_backend.py\<close>): locks, reads
  and writes of levels, read-back after a lost answer; builder and consumption; waiting, refunds,
  limits and reconfiguration; introspection, which writes nothing. A lock of redis-py is a
  parameter that answers whether it was acquired or is still owned; nothing is assumed of it.
  \<^verbatim>\<open>RedisRuns\<close> proves, for every operation on every path, that a client only moves the server along
  the steps of the deployment (locales \<open>redis_client\<close>, and \<open>redis_host\<close> with other threads);
  \<^verbatim>\<open>RedisClosing\<close> that a refund which returns has closed its reservation (\<open>redis_closing_client\<close>);
  \<^verbatim>\<open>RedisCorrect\<close>, \<^verbatim>\<open>RedisLevels\<close> and \<^verbatim>\<open>RedisWaiting\<close> state the properties, \<^verbatim>\<open>RedisGrants\<close> those of what a
  grant and a refund leave in the keys of each bucket.

  The limiter (\<^verbatim>\<open>_sync_rate_limiter.py\<close>). \<^verbatim>\<open>Effects\<close> has Python's exceptions by the class a
  handler looks at (\<open>failure\<close>), \<^verbatim>\<open>try\<close> and \<^verbatim>\<open>finally\<close> as combinators, and weakest preconditions
  \<open>wp m Q E s\<close> (it returns with \<open>Q\<close> or raises with \<open>E\<close>). \<^verbatim>\<open>Limiter\<close>: the state, one field per
  attribute, everything the limiter calls as a record of parameters (\<open>outside\<close>), and the pure
  helpers. \<^verbatim>\<open>LimiterFamilies\<close>: model families, their agreement on one configuration, their
  backends and the changes of quotas. \<^verbatim>\<open>LimiterOps\<close>: acquisitions, refunds with their state
  machine and locks, delivery. \<^verbatim>\<open>LimiterAdmin\<close>: requests, runtime overrides, closing, eviction
  and the \<^verbatim>\<open>reserve()\<close> scope. A method is a sequence of critical sections with a \<open>pause\<close> wherever
  other threads can run; what they do is the parameter \<open>others\<close>.
  \<^verbatim>\<open>LimiterLaws\<close> has the weakest preconditions of the primitive statements and, as locales
  (\<open>backend_blind\<close>, \<open>family_blind\<close>), what operations cannot touch. \<^verbatim>\<open>LimiterRefunds\<close>,
  \<^verbatim>\<open>LimiterAcquire\<close>, \<^verbatim>\<open>LimiterBooks\<close>, \<^verbatim>\<open>LimiterBounds\<close>, \<^verbatim>\<open>LimiterClosing\<close> and \<^verbatim>\<open>LimiterChanges\<close>
  prove the outcome of every path of the operations, raises included. \<^verbatim>\<open>LimiterLedger\<close> is the
  contract between a limiter and a backend with a ledger (\<open>ledger_backend\<close>); \<^verbatim>\<open>LimiterMemory\<close>
  instantiates \<open>outside\<close> with the in-process backend, interprets the contract on it and runs a
  limiter over it for the witnesses; \<^verbatim>\<open>LimiterCorrect\<close> states the properties.

  Bounds and fuel. Loops over the environment (\<open>wait_loop\<close>, \<open>sq_wait_loop\<close>, \<open>enable_wal\<close>)
  recurse over the list of observations. \<open>redis_wait_loop\<close> takes a bound on its turns, \<open>None\<close> being a
  caller that still waits after them; what is proved of it holds for every bound, and a wait
  without a timeout need not end. A tombstone that expires is a step that \<open>tombstones_last\<close> excludes:
  beyond its lifetime an id may be reused by design. A trace of the SQLite
  engine lies in a window of wall-clock time no longer than the tombstones live (\<open>in_window\<close>):
  beyond it an id may be reused by design.

  Interference. The properties of the limiter hold under any interference that keeps the predicates
  they name (\<open>steady\<close>, \<open>undisturbed\<close>, \<open>others_mind\<close>). Most are about the one reservation, model or
  lock at hand. Some are invariants of the whole limiter which the property says the call itself
  keeps: the cap on reservations (\<open>bounded\<close>) and the exactness of the family books (\<open>books\<close>); the
  other threads run the same methods. \<open>in_flight_within_cap\<close> also asks them to leave the reservation
  being acquired among the pending ones. \<open>family_books_exact\<close> asks them, and the configuration getter,
  to give the model at hand no other family than \<open>fam\<close>: the contract of the getter, which the limiter
  checks before it takes the validation lock and not again under it. \<open>rerouting_race_breaks_books\<close> is
  a run in which a getter that breaks it slips through and leaves the books wrong.

  Not modelled. Logging, metrics, warnings and the text of messages. The async twins of backends
  and limiter: the same books under asyncio's cancellation. Of the Redis backend: the in-process
  lock of a try-acquire, the identity of connection pools when a reconfiguration installs its
  buckets (they come from the same builder), pool counts, bucket shims without the override
  methods, and the equality of bucket objects; texts that Python formats and parses back
  (\<^verbatim>\<open>str(current_time)\<close>) are the floats they denote. The SQLite builder's list of open backends,
  the limiter's \<^verbatim>\<open>diagnose()\<close>, callback timeouts and the OpenAI token counter. The conformance kit
  is a test kit. SQLite, the Redis server, Lua's and Python's JSON, locks, clocks, pydantic's
  coercion, the Unicode database and the application's callbacks and getter appear as parameters.
\<close>

end
